(* ===== verification/Prelude.thy ===== *)
theory Prelude
  imports Complex_Main "HOL-Library.Product_Lexorder"
begin

text \<open>
  Shared vocabulary of the development: the error values that stand for the exceptions the Python
  code raises, Python's truth test and \<open>or\<close>, ASCII string helpers, and the three ways the services
  touch a database table (read the matching rows, update the matching rows, delete the matching
  rows), with the lemmas every component proof uses.

  Conventions used everywhere:
  \<^item> a UUID is a natural number; freshly generated UUIDs, tokens and codes are arguments;
  \<^item> a \<open>datetime\<close> is an \<open>int\<close> count of microseconds since the epoch (Python's resolution),
    passed as the argument \<open>now\<close> where the code calls \<open>datetime.now(UTC)\<close>; all are UTC-aware;
  \<^item> \<open>time.monotonic()\<close> and other floats, and \<open>Decimal\<close> amounts, are rationals: the comparisons,
    sums and minima the code takes of them are exact, float rounding is not modelled;
  \<^item> a \<open>Text\<close> column is a \<open>string\<close>, a nullable column an \<open>option\<close>;
  \<^item> a table is the list of its rows; an ORM attribute assignment updates the row with that key.
\<close>

section \<open>Named collections\<close>

named_theorems ok_iff \<open>when an operation returns a value rather than an error\<close>
named_theorems frame \<open>what an operation leaves unchanged\<close>
named_theorems inv_intro \<open>preservation of a component's invariant\<close>

section \<open>Errors\<close>

text \<open>
  The exceptions of \<open>app/core/exceptions.py\<close> with their detail text, a plain
  \<open>HTTPException(status, detail)\<close>, and the two library exceptions the services let through.
\<close>

datatype error =
    NotFoundError string
  | ForbiddenError string
  | ConflictError string
  | UnauthorizedError string
  | HTTPException nat string
  | ValueError string
  | IntegrityError

type_synonym 'a result = "error + 'a"

fun status_code :: "error \<Rightarrow> nat" where
  "status_code (NotFoundError _) = 404"
| "status_code (ForbiddenError _) = 403"
| "status_code (ConflictError _) = 409"
| "status_code (UnauthorizedError _) = 401"
| "status_code (HTTPException n _) = n"
| "status_code (ValueError _) = 500"
| "status_code IntegrityError = 500"

definition is_ok :: "'a result \<Rightarrow> bool" where
  "is_ok r = (case r of Inl _ \<Rightarrow> False | Inr _ \<Rightarrow> True)"

lemma is_ok_simps [simp]: "is_ok (Inr x)" "\<not> is_ok (Inl e)"
  by (simp_all add: is_ok_def)

lemma is_ok_iff: "is_ok r \<longleftrightarrow> (\<exists>x. r = Inr x)"
  by (cases r) auto

section \<open>Python truth and \<open>or\<close>\<close>

fun truthy :: "string option \<Rightarrow> bool" where
  "truthy None = False"
| "truthy (Some s) = (s \<noteq> [])"

text \<open>\<open>a or b\<close> on optional strings: the first operand when it is truthy, else the second.\<close>

definition or_else :: "string option \<Rightarrow> string option \<Rightarrow> string option" where
  "or_else a b = (if truthy a then a else b)"

lemma truthy_iff: "truthy s \<longleftrightarrow> (\<exists>c cs. s = Some (c # cs))"
proof (cases s)
  case None
  then show ?thesis by simp
next
  case (Some t)
  then show ?thesis by (cases t) simp_all
qed

lemma truthy_ne_None [dest]: "truthy s \<Longrightarrow> s \<noteq> None"
  by (cases s) simp_all

section \<open>ASCII strings\<close>

definition lower_char :: "char \<Rightarrow> char" where
  "lower_char c = (let n = (of_char c :: nat) in
     if 65 \<le> n \<and> n \<le> 90 then char_of (n + 32) else c)"

definition upper_char :: "char \<Rightarrow> char" where
  "upper_char c = (let n = (of_char c :: nat) in
     if 97 \<le> n \<and> n \<le> 122 then char_of (n - 32) else c)"

definition lower :: "string \<Rightarrow> string" where
  "lower s = map lower_char s"

definition upper :: "string \<Rightarrow> string" where
  "upper s = map upper_char s"

definition is_space :: "char \<Rightarrow> bool" where
  "is_space c = (let n = (of_char c :: nat) in n = 32 \<or> 9 \<le> n \<and> n \<le> 13 \<or> 28 \<le> n \<and> n \<le> 31)"

definition lstrip :: "string \<Rightarrow> string" where
  "lstrip s = dropWhile is_space s"

definition rstrip :: "string \<Rightarrow> string" where
  "rstrip s = rev (dropWhile is_space (rev s))"

definition strip :: "string \<Rightarrow> string" where
  "strip s = rstrip (lstrip s)"

text \<open>\<open>s.rstrip(c)\<close> and \<open>s.lstrip(c)\<close> for a single character.\<close>

definition rstrip_char :: "char \<Rightarrow> string \<Rightarrow> string" where
  "rstrip_char c s = rev (dropWhile (\<lambda>x. x = c) (rev s))"

definition lstrip_char :: "char \<Rightarrow> string \<Rightarrow> string" where
  "lstrip_char c s = dropWhile (\<lambda>x. x = c) s"

fun starts_with :: "string \<Rightarrow> string \<Rightarrow> bool" where
  "starts_with [] _ = True"
| "starts_with (_ # _) [] = False"
| "starts_with (p # ps) (c # cs) = (p = c \<and> starts_with ps cs)"

lemma starts_with_iff: "starts_with p s \<longleftrightarrow> (\<exists>t. s = p @ t)"
  by (induction p s rule: starts_with.induct) auto

lemma starts_with_append [simp]: "starts_with p (p @ s)"
  by (simp add: starts_with_iff)

definition ends_with :: "string \<Rightarrow> string \<Rightarrow> bool" where
  "ends_with p s = starts_with (rev p) (rev s)"

lemma strip_empty [simp]: "strip [] = []"
  by (simp add: strip_def lstrip_def rstrip_def)

section \<open>Text\<close>

text \<open>\<open>p in s\<close> for strings, decimal numerals (\<open>f"{n}"\<close>), and \<open>sep.join(parts)\<close>.\<close>

fun contains :: "string \<Rightarrow> string \<Rightarrow> bool" where
  "contains p [] = (p = [])"
| "contains p (c # cs) = (starts_with p (c # cs) \<or> contains p cs)"

lemma contains_iff: "contains p s \<longleftrightarrow> (\<exists>u v. s = u @ p @ v)"
proof (induction s)
  case Nil
  then show ?case by auto
next
  case (Cons c cs)
  show ?case
  proof
    assume "contains p (c # cs)"
    then consider "starts_with p (c # cs)" | "contains p cs" by auto
    then show "\<exists>u v. c # cs = u @ p @ v"
    proof cases
      case 1
      then show ?thesis by (metis append_Nil starts_with_iff)
    next
      case 2
      then obtain u v where "cs = u @ p @ v" using Cons.IH by blast
      then have "c # cs = (c # u) @ p @ v" by simp
      then show ?thesis by blast
    qed
  next
    assume "\<exists>u v. c # cs = u @ p @ v"
    then obtain u v where e: "c # cs = u @ p @ v" by blast
    show "contains p (c # cs)"
    proof (cases u)
      case Nil
      with e show ?thesis by (metis append_Nil contains.simps(2) starts_with_append)
    next
      case (Cons c' u')
      with e have "cs = u' @ p @ v" by simp
      then have "contains p cs" using Cons.IH by blast
      then show ?thesis by simp
    qed
  qed
qed

fun string_of_nat :: "nat \<Rightarrow> string" where
  "string_of_nat n =
     (if n < 10 then [char_of (48 + n)] else string_of_nat (n div 10) @ [char_of (48 + n mod 10)])"

declare string_of_nat.simps [simp del]

definition string_of_int :: "int \<Rightarrow> string" where
  "string_of_int i = (if i < 0 then ''-'' @ string_of_nat (nat (- i)) else string_of_nat (nat i))"

fun join :: "string \<Rightarrow> string list \<Rightarrow> string" where
  "join sep [] = []"
| "join sep [x] = x"
| "join sep (x # y # xs) = x @ sep @ join sep (y # xs)"

section \<open>Table access\<close>

text \<open>
  \<open>scalar_one_or_none\<close> / \<open>scalars().first()\<close> of a query: the first matching row. The queries that
  use the former select on a unique column or carry \<open>LIMIT 1\<close>, so at most one row comes back.
\<close>

definition first_row :: "'a list \<Rightarrow> 'a option" where
  "first_row rows = (case rows of [] \<Rightarrow> None | r # _ \<Rightarrow> Some r)"

definition select_one :: "('a \<Rightarrow> bool) \<Rightarrow> 'a list \<Rightarrow> 'a option" where
  "select_one P tab = first_row (filter P tab)"

definition exists_row :: "('a \<Rightarrow> bool) \<Rightarrow> 'a list \<Rightarrow> bool" where
  "exists_row P tab = (select_one P tab \<noteq> None)"

definition update_where :: "('a \<Rightarrow> bool) \<Rightarrow> ('a \<Rightarrow> 'a) \<Rightarrow> 'a list \<Rightarrow> 'a list" where
  "update_where P f tab = map (\<lambda>r. if P r then f r else r) tab"

definition delete_where :: "('a \<Rightarrow> bool) \<Rightarrow> 'a list \<Rightarrow> 'a list" where
  "delete_where P tab = filter (\<lambda>r. \<not> P r) tab"

definition count_rows :: "('a \<Rightarrow> bool) \<Rightarrow> 'a list \<Rightarrow> nat" where
  "count_rows P tab = length (filter P tab)"

lemma first_row_simps [simp]:
  "first_row [] = None" "first_row (x # xs) = Some x"
  by (simp_all add: first_row_def)

lemma first_row_None [simp]: "first_row xs = None \<longleftrightarrow> xs = []"
  by (cases xs) simp_all

lemma select_one_simps [simp]:
  "select_one P [] = None"
  "select_one P (r # tab) = (if P r then Some r else select_one P tab)"
  by (simp_all add: select_one_def)

lemma select_one_None: "select_one P tab = None \<longleftrightarrow> (\<forall>r \<in> set tab. \<not> P r)"
  by (induction tab) auto

lemma select_one_Some: "select_one P tab = Some r \<Longrightarrow> r \<in> set tab \<and> P r"
  by (induction tab) (auto split: if_splits)

lemma select_one_append:
  "select_one P (xs @ ys) = (case select_one P xs of None \<Rightarrow> select_one P ys | Some r \<Rightarrow> Some r)"
  by (induction xs) auto

lemma exists_row_iff: "exists_row P tab \<longleftrightarrow> (\<exists>r \<in> set tab. P r)"
  by (auto simp: exists_row_def select_one_None)

lemma exists_row_simps [simp]:
  "exists_row P [] = False"
  "exists_row P (r # tab) = (P r \<or> exists_row P tab)"
  by (auto simp: exists_row_iff)

lemma exists_row_append [simp]: "exists_row P (xs @ ys) = (exists_row P xs \<or> exists_row P ys)"
  by (auto simp: exists_row_iff)

lemma select_one_not_None: "select_one P tab \<noteq> None \<longleftrightarrow> exists_row P tab"
  by (simp add: exists_row_def)

lemma update_where_simps [simp]:
  "update_where P f [] = []"
  "update_where P f (r # tab) = (if P r then f r else r) # update_where P f tab"
  by (simp_all add: update_where_def)

lemma update_where_append [simp]:
  "update_where P f (xs @ ys) = update_where P f xs @ update_where P f ys"
  by (simp add: update_where_def)

lemma length_update_where [simp]: "length (update_where P f tab) = length tab"
  by (simp add: update_where_def)

lemma in_update_where:
  "r \<in> set (update_where P f tab) \<longleftrightarrow> (\<exists>r0 \<in> set tab. r = (if P r0 then f r0 else r0))"
  by (auto simp: update_where_def)

lemma update_where_hit: "r \<in> set tab \<Longrightarrow> P r \<Longrightarrow> f r \<in> set (update_where P f tab)"
  by (induction tab) auto

lemma update_where_miss: "r \<in> set tab \<Longrightarrow> \<not> P r \<Longrightarrow> r \<in> set (update_where P f tab)"
  by (induction tab) auto

lemma update_where_id: "(\<And>r. r \<in> set tab \<Longrightarrow> \<not> P r) \<Longrightarrow> update_where P f tab = tab"
  by (induction tab) auto

lemma map_update_where:
  "(\<And>r. P r \<Longrightarrow> g (f r) = g r) \<Longrightarrow> map g (update_where P f tab) = map g tab"
  by (induction tab) auto

lemma exists_row_update_where:
  "exists_row Q (update_where P f tab) \<longleftrightarrow> exists_row (\<lambda>r. if P r then Q (f r) else Q r) tab"
  by (induction tab) auto

lemma select_one_update_where:
  "select_one Q (update_where P f tab) =
   map_option (\<lambda>r. if P r then f r else r) (select_one (\<lambda>r. if P r then Q (f r) else Q r) tab)"
  by (induction tab) auto

lemma select_one_update_keep:
  assumes "\<And>r. P r \<Longrightarrow> Q (f r) = Q r"
  shows "select_one Q (update_where P f tab) = map_option (\<lambda>r. if P r then f r else r) (select_one Q tab)"
  using assms by (induction tab) auto

lemma exists_row_update_keep:
  assumes "\<And>r. P r \<Longrightarrow> Q (f r) = Q r"
  shows "exists_row Q (update_where P f tab) = exists_row Q tab"
  using assms by (induction tab) auto

lemma delete_where_simps [simp]:
  "delete_where P [] = []"
  "delete_where P (r # tab) = (if P r then delete_where P tab else r # delete_where P tab)"
  by (simp_all add: delete_where_def)

lemma in_delete_where [simp]: "r \<in> set (delete_where P tab) \<longleftrightarrow> r \<in> set tab \<and> \<not> P r"
  by (auto simp: delete_where_def)

lemma count_rows_simps [simp]:
  "count_rows P [] = 0"
  "count_rows P (r # tab) = (if P r then Suc (count_rows P tab) else count_rows P tab)"
  by (simp_all add: count_rows_def)

lemma count_rows_append [simp]: "count_rows P (xs @ ys) = count_rows P xs + count_rows P ys"
  by (simp add: count_rows_def)

lemma count_rows_mono: "(\<And>r. r \<in> set tab \<Longrightarrow> P r \<Longrightarrow> Q r) \<Longrightarrow> count_rows P tab \<le> count_rows Q tab"
  by (induction tab) auto

lemma count_rows_update_where:
  "count_rows Q (update_where P f tab) = count_rows (\<lambda>r. if P r then Q (f r) else Q r) tab"
  by (induction tab) auto

lemma count_rows_update_keep:
  assumes "\<And>r. P r \<Longrightarrow> Q (f r) = Q r"
  shows "count_rows Q (update_where P f tab) = count_rows Q tab"
  using assms by (induction tab) auto

lemma count_rows_update_le:
  "(\<And>r. r \<in> set tab \<Longrightarrow> P r \<Longrightarrow> Q (f r) \<Longrightarrow> Q r) \<Longrightarrow>
   count_rows Q (update_where P f tab) \<le> count_rows Q tab"
  unfolding count_rows_update_where by (rule count_rows_mono) (auto split: if_splits)

lemma count_rows_delete_le: "count_rows Q (delete_where P tab) \<le> count_rows Q tab"
  by (induction tab) auto

lemma distinct_map_filter: "distinct (map f xs) \<Longrightarrow> distinct (map f (filter P xs))"
  by (induction xs) auto

lemma distinct_map_delete: "distinct (map f xs) \<Longrightarrow> distinct (map f (delete_where P xs))"
  by (simp add: delete_where_def distinct_map_filter)

lemma count_rows_zero: "count_rows P tab = 0 \<longleftrightarrow> \<not> exists_row P tab"
  by (induction tab) auto

text \<open>Updating one row by a key that no other row has changes a count by that row only.\<close>

lemma count_rows_update_key:
  assumes "distinct (map k tab)" and "r \<in> set tab"
  shows "count_rows Q (update_where (\<lambda>x. k x = k r) f tab) + (if Q r then 1 else 0) =
         count_rows Q tab + (if Q (f r) then 1 else 0)"
  using assms
proof (induction tab)
  case Nil
  then show ?case by simp
next
  case (Cons x xs)
  show ?case
  proof (cases "x = r")
    case True
    with Cons.prems(1) have "update_where (\<lambda>x. k x = k r) f xs = xs"
      by (intro update_where_id) (metis distinct.simps(2) image_eqI list.set_map list.simps(9))
    with True show ?thesis by simp
  next
    case False
    with Cons.prems have "r \<in> set xs" "k x \<noteq> k r" by auto
    with Cons show ?thesis by auto
  qed
qed

lemma select_one_key:
  "distinct (map k tab) \<Longrightarrow> r \<in> set tab \<Longrightarrow> select_one (\<lambda>x. k x = k r) tab = Some r"
  by (induction tab) (auto simp: image_iff)

lemma filter_key:
  "distinct (map k tab) \<Longrightarrow>
   filter (\<lambda>x. k x = v) tab = (case select_one (\<lambda>x. k x = v) tab of None \<Rightarrow> [] | Some r \<Rightarrow> [r])"
proof (induction tab)
  case Nil
  then show ?case by simp
next
  case (Cons x xs)
  then have "select_one (\<lambda>y. k y = v) xs = None" if "k x = v"
    using that by (fastforce simp: select_one_None image_iff)
  with Cons show ?case by auto
qed

lemma select_one_key_and:
  "distinct (map k tab) \<Longrightarrow> r \<in> set tab \<Longrightarrow> P r \<Longrightarrow> select_one (\<lambda>x. k x = k r \<and> P x) tab = Some r"
  by (induction tab) (auto simp: image_iff)

text \<open>\<open>ORDER BY\<close>: sorting by a key, stable, so rows that tie stay in table order.\<close>

definition order_by :: "('a \<Rightarrow> 'k::linorder) \<Rightarrow> 'a list \<Rightarrow> 'a list" where
  "order_by k rows = sort_key k rows"

lemma set_order_by [simp]: "set (order_by k rows) = set rows"
  by (simp add: order_by_def)

lemma length_order_by [simp]: "length (order_by k rows) = length rows"
  by (simp add: order_by_def)

lemma sorted_order_by: "sorted (map k (order_by k rows))"
  by (simp add: order_by_def)

lemma order_by_Nil [simp]: "order_by k rows = [] \<longleftrightarrow> rows = []"
  by (metis length_0_conv length_order_by)

lemma first_row_order_by:
  assumes "first_row (order_by k rows) = Some r"
  shows "r \<in> set rows \<and> (\<forall>x \<in> set rows. k r \<le> k x)"
proof -
  obtain rs where e: "order_by k rows = r # rs"
    using assms by (cases "order_by k rows") auto
  have "\<forall>x \<in> set (order_by k rows). k r \<le> k x"
    using sorted_order_by [of k rows] e by auto
  moreover have "r \<in> set (order_by k rows)" using e by simp
  ultimately show ?thesis by simp
qed

section \<open>Time\<close>

type_synonym uuid = nat
type_synonym datetime = int
type_synonym monotonic = rat
type_synonym decimal = rat

definition seconds :: "int \<Rightarrow> int" where
  "seconds n = n * 1000000"

definition minutes :: "int \<Rightarrow> int" where
  "minutes n = n * 60000000"

definition days :: "int \<Rightarrow> int" where
  "days n = n * 86400000000"

lemma minutes_pos [simp]: "0 < minutes n \<longleftrightarrow> 0 < n"
  by (simp add: minutes_def)

lemma days_pos [simp]: "0 < days n \<longleftrightarrow> 0 < n"
  by (simp add: days_def)

end
