(* ===== verification/Models.thy ===== *)
theory Models
  imports Prelude
begin

text \<open>
  The data model: one record per SQLAlchemy model of \<open>app/models\<close> (columns in the class's order,
  prefixed by the table so that field names stay distinct), the settings the services read from
  \<open>app/config.py\<close>, and the database as the record of its tables. \<open>updated_at\<close> columns and the
  \<open>search_vector\<close> columns, which only the database maintains, are left out where nothing reads them.
\<close>

section \<open>Rows\<close>

text \<open>\<open>User\<close>, table \<open>users\<close>.\<close>

record user_row =
  user_id :: uuid
  user_email :: string
  user_password_hash :: "string option"
  user_google_id :: "string option"
  user_telegram_id :: "string option"
  user_apple_id :: "string option"
  user_avatar_url :: "string option"
  user_full_name :: "string option"
  user_role :: string
  user_is_active :: bool
  user_created_at :: datetime

text \<open>\<open>Session\<close>, table \<open>sessions\<close>.\<close>

record session_row =
  sess_id :: uuid
  sess_user_id :: uuid
  sess_device_label :: string
  sess_created_at :: datetime
  sess_expires_at :: datetime
  sess_revoked_at :: "datetime option"
  sess_token_version :: int
  sess_refreshed_at :: "datetime option"

text \<open>\<open>DevicePairingCode\<close>, table \<open>device_pairing_codes\<close>.\<close>

record pairing_row =
  pair_id :: uuid
  pair_code_hash :: string
  pair_status :: string
  pair_token :: "string option"
  pair_user_id :: "uuid option"
  pair_expires_at :: datetime

text \<open>\<open>PasswordResetToken\<close>, table \<open>password_reset_tokens\<close>.\<close>

record reset_token_row =
  reset_id :: uuid
  reset_user_id :: uuid
  reset_token_hash :: string
  reset_expires_at :: datetime
  reset_used_at :: "datetime option"

text \<open>\<open>TelegramAuthNonce\<close>, table \<open>telegram_auth_nonces\<close>.\<close>

record nonce_row =
  nonce_id :: uuid
  nonce_nonce_hash :: string
  nonce_status :: string
  nonce_expires_at :: datetime

text \<open>\<open>TelegramBotLogin\<close>, table \<open>telegram_bot_logins\<close>.\<close>

record bot_login_row =
  bot_id :: uuid
  bot_code_hash :: string
  bot_status :: string
  bot_telegram_id :: "string option"
  bot_telegram_first_name :: "string option"
  bot_telegram_last_name :: "string option"
  bot_telegram_username :: "string option"
  bot_expires_at :: datetime

text \<open>\<open>TvAccessCode\<close>, table \<open>tv_access_codes\<close>.\<close>

record tv_code_row =
  tvc_id :: uuid
  tvc_code :: string
  tvc_label :: "string option"
  tvc_user_id :: uuid
  tvc_expires_at :: datetime
  tvc_is_active :: bool
  tvc_created_at :: datetime

text \<open>\<open>PaymentIntent\<close>, table \<open>payment_intents\<close>.\<close>

record intent_row =
  pi_intent_id :: string
  pi_order_id :: string
  pi_user_id :: "uuid option"
  pi_guest_id :: "string option"
  pi_method :: string
  pi_bakong_md5 :: "string option"
  pi_bakong_prev_md5 :: "string option"
  pi_bakong_qr :: "string option"
  pi_bakong_merchant_name :: "string option"
  pi_bakong_qr_created_at :: "datetime option"
  pi_kind :: string
  pi_content_id :: "uuid option"
  pi_series_id :: "uuid option"
  pi_plan_code :: "string option"
  pi_plan_interval_days :: "int option"
  pi_amount_usd :: decimal
  pi_status :: string
  pi_created_at :: datetime
  pi_resolved_at :: "datetime option"

text \<open>\<open>Purchase\<close>, table \<open>purchases\<close>.\<close>

record purchase_row =
  pu_id :: uuid
  pu_user_id :: "uuid option"
  pu_guest_id :: "string option"
  pu_content_id :: uuid
  pu_intent_id :: string
  pu_order_id :: string
  pu_bank :: "string option"
  pu_amount_usd :: decimal
  pu_purchased_at :: datetime

text \<open>\<open>SeriesPurchase\<close>, table \<open>series_purchases\<close>.\<close>

record series_purchase_row =
  spu_id :: uuid
  spu_user_id :: "uuid option"
  spu_guest_id :: "string option"
  spu_series_id :: uuid
  spu_intent_id :: string
  spu_order_id :: string
  spu_bank :: "string option"
  spu_amount_usd :: decimal
  spu_purchased_at :: datetime

text \<open>\<open>Subscription\<close>, table \<open>subscriptions\<close>.\<close>

record subscription_row =
  sub_id :: uuid
  sub_user_id :: uuid
  sub_plan :: string
  sub_status :: string
  sub_current_period_start :: datetime
  sub_current_period_end :: datetime

text \<open>\<open>SubscriptionPayment\<close>, table \<open>subscription_payments\<close>.\<close>

record sub_payment_row =
  spay_id :: uuid
  spay_subscription_id :: uuid
  spay_intent_id :: string
  spay_order_id :: string
  spay_bank :: "string option"
  spay_amount_usd :: decimal
  spay_paid_at :: datetime
  spay_period_extended_to :: datetime

text \<open>\<open>SubscriptionPlan\<close>, table \<open>subscription_plans\<close>.\<close>

record plan_row =
  plan_id :: uuid
  plan_code :: string
  plan_name :: string
  plan_description :: "string option"
  plan_price_usd :: decimal
  plan_billing_interval_days :: int
  plan_is_active :: bool
  plan_sort_order :: int
  plan_created_at :: datetime

text \<open>\<open>PaymentApproval\<close>, table \<open>payment_approvals\<close>.\<close>

record approval_row =
  appr_id :: uuid
  appr_intent_id :: string
  appr_admin_user_id :: uuid
  appr_bank :: string

text \<open>\<open>Content\<close>, table \<open>contents\<close>.\<close>

record content_row =
  ct_id :: uuid
  ct_type :: string
  ct_series_id :: "uuid option"
  ct_season_number :: "int option"
  ct_episode_number :: "int option"
  ct_slug :: string
  ct_title :: string
  ct_title_km :: "string option"
  ct_description :: "string option"
  ct_genres :: "string list"
  ct_region :: "string option"
  ct_release_year :: "int option"
  ct_rating :: "decimal option"
  ct_runtime :: "string option"
  ct_duration_seconds :: "int option"
  ct_poster_key :: "string option"
  ct_banner_key :: "string option"
  ct_trailer_url :: "string option"
  ct_hls_master_key :: "string option"
  ct_audio_key :: "string option"
  ct_price_usd :: "decimal option"
  ct_status :: string
  ct_is_published :: bool
  ct_publish_at :: "datetime option"
  ct_is_free :: bool
  ct_sort_order :: int
  ct_transcode_status :: string
  ct_created_at :: datetime

text \<open>\<open>Series\<close>, table \<open>series_table\<close>.\<close>

record series_row =
  ser_id :: uuid
  ser_slug :: string
  ser_title :: string
  ser_title_km :: "string option"
  ser_description :: "string option"
  ser_genres :: "string list"
  ser_release_year :: "int option"
  ser_rating :: "decimal option"
  ser_poster_key :: "string option"
  ser_banner_key :: "string option"
  ser_trailer_url :: "string option"
  ser_monthly_price_usd :: decimal
  ser_status :: string
  ser_is_published :: bool
  ser_publish_at :: "datetime option"
  ser_is_short_movie :: bool
  ser_sort_order :: int
  ser_created_at :: datetime

text \<open>\<open>TVChannel\<close>, table \<open>tv_channels\<close>.\<close>

record channel_row =
  ch_id :: uuid
  ch_slug :: string
  ch_name :: string
  ch_description :: "string option"
  ch_logo_key :: "string option"
  ch_source_url :: string
  ch_hls_playback_url :: "string option"
  ch_status :: string
  ch_status_error :: "string option"
  ch_is_published :: bool
  ch_is_free :: bool
  ch_sort_order :: int
  ch_created_at :: datetime

text \<open>\<open>Comment\<close>, table \<open>comments\<close>.\<close>

record comment_row =
  cm_id :: uuid
  cm_content_id :: uuid
  cm_user_id :: uuid
  cm_parent_id :: "uuid option"
  cm_body :: string
  cm_created_at :: datetime
  cm_updated_at :: datetime
  cm_deleted_at :: "datetime option"

text \<open>\<open>CommentVote\<close>, table \<open>comment_votes\<close>.\<close>

record vote_row =
  vote_user_id :: uuid
  vote_comment_id :: uuid
  vote_value :: int

text \<open>\<open>CommentReport\<close>, table \<open>comment_reports\<close>.\<close>

record report_row =
  rep_id :: uuid
  rep_user_id :: uuid
  rep_comment_id :: uuid

text \<open>\<open>UserBlock\<close>, table \<open>user_blocks\<close>.\<close>

record block_row =
  blk_blocker_id :: uuid
  blk_blocked_id :: uuid

text \<open>\<open>WatchProgress\<close>, table \<open>watch_progress\<close>.\<close>

record progress_row =
  wp_user_id :: uuid
  wp_content_id :: uuid
  wp_position_seconds :: int
  wp_completed :: bool
  wp_last_watched_at :: datetime

text \<open>\<open>Favorite\<close>, table \<open>favorites\<close>.\<close>

record favorite_row =
  fav_user_id :: uuid
  fav_content_id :: uuid

text \<open>\<open>Rating\<close>, table \<open>ratings\<close>.\<close>

record rating_row =
  rt_user_id :: uuid
  rt_content_id :: uuid
  rt_value :: int

text \<open>\<open>FreeTodayItem\<close>, table \<open>free_today_items\<close>.\<close>

record free_today_row =
  ft_id :: uuid
  ft_content_id :: uuid
  ft_sort_order :: int
  ft_created_at :: datetime

text \<open>\<open>ComingSoonItem\<close>, table \<open>coming_soon_items\<close>.\<close>

record coming_soon_row =
  cs_id :: uuid
  cs_content_id :: uuid
  cs_sort_order :: int
  cs_created_at :: datetime

text \<open>\<open>GenreRailItem\<close>, table \<open>genre_rail_items\<close>.\<close>

record genre_rail_row =
  gr_id :: uuid
  gr_genre_name :: string
  gr_content_id :: uuid
  gr_sort_order :: int
  gr_created_at :: datetime

text \<open>\<open>HeroFeaturedItem\<close>, table \<open>hero_featured_items\<close>.\<close>

record hero_row =
  hero_id :: uuid
  hero_content_type :: string
  hero_content_id :: "uuid option"
  hero_title :: "string option"
  hero_description :: "string option"
  hero_banner_key :: "string option"
  hero_link_url :: "string option"
  hero_video_key :: "string option"
  hero_youtube_url :: "string option"
  hero_video_enabled :: bool
  hero_placement :: string
  hero_is_active :: bool
  hero_sort_order :: int
  hero_starts_at :: "datetime option"
  hero_ends_at :: "datetime option"
  hero_created_at :: datetime

text \<open>\<open>HomeSection\<close>, table \<open>home_sections\<close>.\<close>

record section_row =
  sec_id :: uuid
  sec_type :: string
  sec_title :: "string option"
  sec_genre_name :: "string option"
  sec_is_visible :: bool
  sec_sort_order :: int
  sec_item_limit :: "int option"
  sec_created_at :: datetime

text \<open>\<open>HomeSectionItem\<close>, table \<open>home_section_items\<close>.\<close>

record section_item_row =
  item_id :: uuid
  item_section_id :: uuid
  item_item_kind :: string
  item_ref_id :: uuid
  item_sort_order :: int
  item_created_at :: datetime

text \<open>\<open>PromotionBanner\<close>, table \<open>promotion_banners\<close>.\<close>

record banner_row =
  ban_id :: uuid
  ban_title :: string
  ban_subtitle :: "string option"
  ban_image_key :: "string option"
  ban_cta_label :: "string option"
  ban_cta_href :: "string option"
  ban_placement :: string
  ban_is_active :: bool
  ban_sort_order :: int
  ban_starts_at :: "datetime option"
  ban_ends_at :: "datetime option"
  ban_created_at :: datetime

text \<open>\<open>TranscodeJob\<close>, table \<open>transcode_jobs\<close>.\<close>

record job_row =
  job_id :: uuid
  job_content_id :: uuid
  job_source_key :: string
  job_status :: string
  job_attempts :: int
  job_error :: "string option"

text \<open>\<open>Genre\<close>, table \<open>genres\<close>.\<close>

record genre_row =
  gen_id :: uuid
  gen_name :: string

section \<open>The database\<close>

record db =
  users :: "user_row list"
  sessions :: "session_row list"
  device_pairing_codes :: "pairing_row list"
  password_reset_tokens :: "reset_token_row list"
  telegram_auth_nonces :: "nonce_row list"
  telegram_bot_logins :: "bot_login_row list"
  tv_access_codes :: "tv_code_row list"
  payment_intents :: "intent_row list"
  purchases :: "purchase_row list"
  series_purchases :: "series_purchase_row list"
  subscriptions :: "subscription_row list"
  subscription_payments :: "sub_payment_row list"
  subscription_plans :: "plan_row list"
  payment_approvals :: "approval_row list"
  contents :: "content_row list"
  series_table :: "series_row list"
  tv_channels :: "channel_row list"
  comments :: "comment_row list"
  comment_votes :: "vote_row list"
  comment_reports :: "report_row list"
  user_blocks :: "block_row list"
  watch_progress :: "progress_row list"
  favorites :: "favorite_row list"
  ratings :: "rating_row list"
  free_today_items :: "free_today_row list"
  coming_soon_items :: "coming_soon_row list"
  genre_rail_items :: "genre_rail_row list"
  hero_featured_items :: "hero_row list"
  home_sections :: "section_row list"
  home_section_items :: "section_item_row list"
  promotion_banners :: "banner_row list"
  transcode_jobs :: "job_row list"
  genre_table :: "genre_row list"

definition empty_db :: db where
  "empty_db = \<lparr>users = [],
     sessions = [],
     device_pairing_codes = [],
     password_reset_tokens = [],
     telegram_auth_nonces = [],
     telegram_bot_logins = [],
     tv_access_codes = [],
     payment_intents = [],
     purchases = [],
     series_purchases = [],
     subscriptions = [],
     subscription_payments = [],
     subscription_plans = [],
     payment_approvals = [],
     contents = [],
     series_table = [],
     tv_channels = [],
     comments = [],
     comment_votes = [],
     comment_reports = [],
     user_blocks = [],
     watch_progress = [],
     favorites = [],
     ratings = [],
     free_today_items = [],
     coming_soon_items = [],
     genre_rail_items = [],
     hero_featured_items = [],
     home_sections = [],
     home_section_items = [],
     promotion_banners = [],
     transcode_jobs = [],
     genre_table = []\<rparr>"

lemma empty_db_simps [simp]:
  "users empty_db = []"
  "sessions empty_db = []"
  "device_pairing_codes empty_db = []"
  "password_reset_tokens empty_db = []"
  "telegram_auth_nonces empty_db = []"
  "telegram_bot_logins empty_db = []"
  "tv_access_codes empty_db = []"
  "payment_intents empty_db = []"
  "purchases empty_db = []"
  "series_purchases empty_db = []"
  "subscriptions empty_db = []"
  "subscription_payments empty_db = []"
  "subscription_plans empty_db = []"
  "payment_approvals empty_db = []"
  "contents empty_db = []"
  "series_table empty_db = []"
  "tv_channels empty_db = []"
  "comments empty_db = []"
  "comment_votes empty_db = []"
  "comment_reports empty_db = []"
  "user_blocks empty_db = []"
  "watch_progress empty_db = []"
  "favorites empty_db = []"
  "ratings empty_db = []"
  "free_today_items empty_db = []"
  "coming_soon_items empty_db = []"
  "genre_rail_items empty_db = []"
  "hero_featured_items empty_db = []"
  "home_sections empty_db = []"
  "home_section_items empty_db = []"
  "promotion_banners empty_db = []"
  "transcode_jobs empty_db = []"
  "genre_table empty_db = []"
  by (simp_all add: empty_db_def)

section \<open>Settings\<close>

text \<open>\<open>Settings\<close> of \<open>app/config.py\<close>: the fields the modelled services read, with the defaults.\<close>

record settings =
  debug :: bool
  access_token_expire_minutes :: int
  session_refresh_grace_days :: "int option"
  app_public_url :: string
  cors_origin_list :: "string list"
  google_client_id :: string
  apple_client_id :: string
  r2_public_url :: string
  playback_token_expiry_seconds :: int
  playback_segment_mode :: string
  baray_checkout_base_url :: string
  baray_webhook_secret :: string
  bakong_service_url :: string
  bakong_service_api_key :: string
  bakong_developer_token :: string
  bakong_account_id :: string
  bakong_merchant_name :: string
  bakong_api_base_url :: string
  bakong_qr_ttl_minutes :: int
  bakong_sweeper_interval_seconds :: int
  bakong_sweeper_window_minutes :: int
  bakong_sweeper_batch_size :: int
  bakong_nbc_settle_enabled :: bool
  publish_sweeper_interval_seconds :: int
  tv_playback_token_expiry_seconds :: int
  password_reset_token_expire_minutes :: int
  device_pairing_code_expire_minutes :: int
  telegram_bot_token :: string
  telegram_bot_username :: string
  telegram_auth_page_url :: string
  telegram_auth_nonce_expire_minutes :: int
  telegram_auth_max_age_seconds :: int
  telegram_webhook_secret :: string
  telegram_bot_login_expire_minutes :: int
  max_active_sessions_per_user :: int

definition default_settings :: settings where
  "default_settings = \<lparr>
     debug = False,
     access_token_expire_minutes = 60,
     session_refresh_grace_days = None,
     app_public_url = '''',
     cors_origin_list = [],
     google_client_id = '''',
     apple_client_id = ''com.reeltimemedia.movieMobile'',
     r2_public_url = '''',
     playback_token_expiry_seconds = 21600,
     playback_segment_mode = ''cdn'',
     baray_checkout_base_url = ''https://pay.baray.io'',
     baray_webhook_secret = '''',
     bakong_service_url = '''',
     bakong_service_api_key = '''',
     bakong_developer_token = '''',
     bakong_account_id = '''',
     bakong_merchant_name = '''',
     bakong_api_base_url = '''',
     bakong_qr_ttl_minutes = 10,
     bakong_sweeper_interval_seconds = 120,
     bakong_sweeper_window_minutes = 30,
     bakong_sweeper_batch_size = 2,
     bakong_nbc_settle_enabled = True,
     publish_sweeper_interval_seconds = 45,
     tv_playback_token_expiry_seconds = 3600,
     password_reset_token_expire_minutes = 30,
     device_pairing_code_expire_minutes = 10,
     telegram_bot_token = '''',
     telegram_bot_username = '''',
     telegram_auth_page_url = ''https://reeltime.fun/auth/telegram'',
     telegram_auth_nonce_expire_minutes = 10,
     telegram_auth_max_age_seconds = 300,
     telegram_webhook_secret = '''',
     telegram_bot_login_expire_minutes = 5,
     max_active_sessions_per_user = 5\<rparr>"

section \<open>Column defaults\<close>

text \<open>
  A row built by the code names only some columns; the rest take the defaults declared in the model
  classes (\<open>default=\<close>, \<open>server_default=\<close>, or \<open>NULL\<close>). Required columns have a neutral value here
  and are always set by the code.
\<close>

definition default_user :: user_row where
  "default_user = \<lparr>user_id = 0, user_email = [], user_password_hash = None, user_google_id = None,
     user_telegram_id = None, user_apple_id = None, user_avatar_url = None, user_full_name = None,
     user_role = ''user'', user_is_active = True, user_created_at = 0\<rparr>"

definition default_intent :: intent_row where
  "default_intent = \<lparr>pi_intent_id = [], pi_order_id = [], pi_user_id = None, pi_guest_id = None,
     pi_method = ''baray'', pi_bakong_md5 = None, pi_bakong_prev_md5 = None, pi_bakong_qr = None,
     pi_bakong_merchant_name = None, pi_bakong_qr_created_at = None, pi_kind = [],
     pi_content_id = None, pi_series_id = None, pi_plan_code = None, pi_plan_interval_days = None,
     pi_amount_usd = 0, pi_status = ''pending'', pi_created_at = 0, pi_resolved_at = None\<rparr>"

definition default_content :: content_row where
  "default_content = \<lparr>ct_id = 0, ct_type = ''single'', ct_series_id = None, ct_season_number = None,
     ct_episode_number = None, ct_slug = [], ct_title = [], ct_title_km = None,
     ct_description = None, ct_genres = [], ct_region = None, ct_release_year = None,
     ct_rating = None, ct_runtime = None, ct_duration_seconds = None, ct_poster_key = None,
     ct_banner_key = None, ct_trailer_url = None, ct_hls_master_key = None, ct_audio_key = None,
     ct_price_usd = None, ct_status = ''draft'', ct_is_published = False, ct_publish_at = None,
     ct_is_free = False, ct_sort_order = 0, ct_transcode_status = ''pending'', ct_created_at = 0\<rparr>"

definition default_series :: series_row where
  "default_series = \<lparr>ser_id = 0, ser_slug = [], ser_title = [], ser_title_km = None,
     ser_description = None, ser_genres = [], ser_release_year = None, ser_rating = None,
     ser_poster_key = None, ser_banner_key = None, ser_trailer_url = None,
     ser_monthly_price_usd = 0, ser_status = ''draft'', ser_is_published = False,
     ser_publish_at = None, ser_is_short_movie = False, ser_sort_order = 0, ser_created_at = 0\<rparr>"

end
