(* ===== verification/Sessions.thy ===== *)
theory Sessions
  imports Models
begin

text \<open>
  \<open>app/services/session.py\<close>, the access-token part of \<open>app/core/security.py\<close> and
  \<open>app/dependencies/auth.py\<close>: one row per signed-in device, the concurrent-device limit, token
  rotation on refresh, revocation, and the checks made on every authenticated request.

  A JWT is opaque here: \<open>encode\<close> and \<open>decode\<close> (PyJWT with the server's secret) are arguments. A
  string claim that should hold a UUID either parses as one or does not (\<open>uuid_claim\<close>).
  Each operation returns its result and the database as committed: on an error it is the state of
  the last commit made before the exception.
\<close>

section \<open>Tokens\<close>

datatype uuid_claim = UuidStr uuid | BadStr string

datatype ver_claim = NoVer | Ver int | BadVer

record claims =
  c_sub :: "uuid_claim option"
  c_role :: "string option"
  c_sid :: "uuid_claim option"
  c_ver :: ver_claim
  c_scope :: "string option"
  c_exp :: datetime

text \<open>\<open>uuid.UUID(payload.get(key) or "")\<close>: missing, empty and malformed claims all raise.\<close>

definition uuid_of_claim :: "uuid_claim option \<Rightarrow> uuid option" where
  "uuid_of_claim c = (case c of Some (UuidStr u) \<Rightarrow> Some u | _ \<Rightarrow> None)"

text \<open>\<open>int(payload.get("ver", 0))\<close>.\<close>

definition version_of_claim :: "ver_claim \<Rightarrow> int option" where
  "version_of_claim v = (case v of NoVer \<Rightarrow> Some 0 | Ver n \<Rightarrow> Some n | BadVer \<Rightarrow> None)"

lemma version_of_claim_simps [simp]:
  "version_of_claim NoVer = Some 0" "version_of_claim (Ver n) = Some n" "version_of_claim BadVer = None"
  by (simp_all add: version_of_claim_def)

lemma uuid_of_claim_simps [simp]:
  "uuid_of_claim (Some (UuidStr u)) = Some u" "uuid_of_claim (Some (BadStr s)) = None"
  "uuid_of_claim None = None"
  by (simp_all add: uuid_of_claim_def)

definition access_claims :: "settings \<Rightarrow> datetime \<Rightarrow> uuid \<Rightarrow> string \<Rightarrow> uuid \<Rightarrow> int \<Rightarrow> claims" where
  "access_claims cfg now uid role session_id version =
     \<lparr>c_sub = Some (UuidStr uid), c_role = Some role, c_sid = Some (UuidStr session_id),
      c_ver = Ver version, c_scope = None,
      c_exp = now + minutes (access_token_expire_minutes cfg)\<rparr>"

definition create_access_token ::
    "(claims \<Rightarrow> 't) \<Rightarrow> settings \<Rightarrow> datetime \<Rightarrow> uuid \<Rightarrow> string \<Rightarrow> uuid \<Rightarrow> int \<Rightarrow> 't" where
  "create_access_token encode cfg now uid role session_id version =
     encode (access_claims cfg now uid role session_id version)"

definition decode_access_token :: "('t \<Rightarrow> claims option) \<Rightarrow> 't \<Rightarrow> claims result" where
  "decode_access_token decode token = (case decode token of
     None \<Rightarrow> Inl (UnauthorizedError ''Could not validate credentials'')
   | Some payload \<Rightarrow> Inr payload)"

text \<open>Playback tokens: a scope and a subject, checked together.\<close>

definition create_playback_token :: "(claims \<Rightarrow> 't) \<Rightarrow> datetime \<Rightarrow> uuid \<Rightarrow> int \<Rightarrow> 't" where
  "create_playback_token encode now content_id expires_in =
     encode \<lparr>c_sub = Some (UuidStr content_id), c_role = None, c_sid = None, c_ver = NoVer,
             c_scope = Some ''playback'', c_exp = now + seconds expires_in\<rparr>"

definition verify_playback_token :: "('t \<Rightarrow> claims option) \<Rightarrow> 't \<Rightarrow> uuid \<Rightarrow> unit result" where
  "verify_playback_token decode token content_id = (case decode token of
     None \<Rightarrow> Inl (UnauthorizedError ''Invalid or expired playback token'')
   | Some payload \<Rightarrow>
       if c_scope payload \<noteq> Some ''playback'' \<or> c_sub payload \<noteq> Some (UuidStr content_id)
       then Inl (ForbiddenError ''Playback token does not grant access to this content'')
       else Inr ())"

definition create_channel_playback_token :: "(claims \<Rightarrow> 't) \<Rightarrow> datetime \<Rightarrow> uuid \<Rightarrow> int \<Rightarrow> 't" where
  "create_channel_playback_token encode now channel_id expires_in =
     encode \<lparr>c_sub = Some (UuidStr channel_id), c_role = None, c_sid = None, c_ver = NoVer,
             c_scope = Some ''tv_playback'', c_exp = now + seconds expires_in\<rparr>"

definition verify_channel_playback_token :: "('t \<Rightarrow> claims option) \<Rightarrow> 't \<Rightarrow> uuid \<Rightarrow> unit result" where
  "verify_channel_playback_token decode token channel_id = (case decode token of
     None \<Rightarrow> Inl (UnauthorizedError ''Invalid or expired playback token'')
   | Some payload \<Rightarrow>
       if c_scope payload \<noteq> Some ''tv_playback'' \<or> c_sub payload \<noteq> Some (UuidStr channel_id)
       then Inl (ForbiddenError ''Playback token does not grant access to this channel'')
       else Inr ())"

section \<open>Device labels\<close>

text \<open>The regular expressions are alternations of literals, so \<open>search\<close> is containment of one.\<close>

definition os_patterns :: "(string list \<times> string) list" where
  "os_patterns =
     [([''iPhone'', ''iPad''], ''iOS''), ([''Android''], ''Android''), ([''Mac OS X''], ''macOS''),
      ([''Windows''], ''Windows''), ([''Linux''], ''Linux'')]"

definition browser_patterns :: "(string list \<times> string) list" where
  "browser_patterns =
     [([''Edg/''], ''Edge''), ([''OPR/'', ''Opera''], ''Opera''), ([''Chrome/''], ''Chrome''),
      ([''CriOS/''], ''Chrome''), ([''FxiOS/''], ''Firefox''), ([''Firefox/''], ''Firefox''),
      ([''Safari/''], ''Safari'')]"

definition match_pattern :: "(string list \<times> string) list \<Rightarrow> string \<Rightarrow> string option" where
  "match_pattern pats user_agent =
     map_option snd (first_row (filter (\<lambda>(alts, _). \<exists>a \<in> set alts. contains a user_agent) pats))"

definition device_label_from_user_agent :: "string option \<Rightarrow> string" where
  "device_label_from_user_agent user_agent =
     (if \<not> truthy user_agent then ''Unknown device''
      else (case (match_pattern browser_patterns (the user_agent),
                  match_pattern os_patterns (the user_agent)) of
              (Some browser, Some os) \<Rightarrow> browser @ '' on '' @ os
            | (Some browser, None) \<Rightarrow> browser
            | (None, Some os) \<Rightarrow> os
            | (None, None) \<Rightarrow> ''Unknown device''))"

section \<open>Operations\<close>

definition find_user :: "uuid \<Rightarrow> db \<Rightarrow> user_row option" where
  "find_user uid d = select_one (\<lambda>u. user_id u = uid) (users d)"

definition is_active_session :: "datetime \<Rightarrow> session_row \<Rightarrow> bool" where
  "is_active_session now s \<longleftrightarrow> sess_revoked_at s = None \<and> now < sess_expires_at s"

definition count_active_sessions :: "db \<Rightarrow> uuid \<Rightarrow> datetime \<Rightarrow> nat" where
  "count_active_sessions d uid now =
     count_rows (\<lambda>s. sess_user_id s = uid \<and> is_active_session now s) (sessions d)"

text \<open>
  The caller owns the commit: the new database is returned with the row. \<open>sid\<close> is the row's UUID.
\<close>

definition create_session ::
    "settings \<Rightarrow> datetime \<Rightarrow> uuid \<Rightarrow> uuid \<Rightarrow> string option \<Rightarrow> db \<Rightarrow> (session_row \<times> db) result" where
  "create_session cfg now sid uid user_agent d =
     (if find_user uid d = None then Inl (NotFoundError ''User not found'')
      else if max_active_sessions_per_user cfg \<le> int (count_active_sessions d uid now)
      then Inl (ForbiddenError (''You're signed in on ''
             @ string_of_int (max_active_sessions_per_user cfg)
             @ '' devices already. Log out from another device to continue.''))
      else (let s = \<lparr>sess_id = sid, sess_user_id = uid,
                     sess_device_label = device_label_from_user_agent user_agent,
                     sess_created_at = now,
                     sess_expires_at = now + minutes (access_token_expire_minutes cfg),
                     sess_revoked_at = None, sess_token_version = 0, sess_refreshed_at = None\<rparr>
            in Inr (s, d\<lparr>sessions := sessions d @ [s]\<rparr>)))"

definition get_active_session :: "db \<Rightarrow> datetime \<Rightarrow> uuid \<Rightarrow> session_row option" where
  "get_active_session d now sid =
     select_one (\<lambda>s. sess_id s = sid \<and> is_active_session now s) (sessions d)"

definition refresh_cutoff :: "settings \<Rightarrow> datetime \<Rightarrow> datetime option" where
  "refresh_cutoff cfg now = map_option (\<lambda>g. now - days g) (session_refresh_grace_days cfg)"

definition list_active_sessions :: "settings \<Rightarrow> datetime \<Rightarrow> uuid \<Rightarrow> db \<Rightarrow> session_row list" where
  "list_active_sessions cfg now uid d =
     order_by (\<lambda>s. - sess_created_at s)
       (filter (\<lambda>s. sess_user_id s = uid \<and> sess_revoked_at s = None \<and>
                   (case refresh_cutoff cfg now of None \<Rightarrow> True | Some c \<Rightarrow> c < sess_expires_at s))
          (sessions d))"

definition set_session :: "uuid \<Rightarrow> (session_row \<Rightarrow> session_row) \<Rightarrow> db \<Rightarrow> db" where
  "set_session sid f d = d\<lparr>sessions := update_where (\<lambda>s. sess_id s = sid) f (sessions d)\<rparr>"

definition revoke_session :: "datetime \<Rightarrow> uuid \<Rightarrow> uuid \<Rightarrow> db \<Rightarrow> unit result \<times> db" where
  "revoke_session now uid sid d =
     (case select_one (\<lambda>s. sess_id s = sid \<and> sess_user_id s = uid) (sessions d) of
        None \<Rightarrow> (Inl (NotFoundError ''Session not found''), d)
      | Some s \<Rightarrow>
          if sess_revoked_at s \<noteq> None then (Inl (NotFoundError ''Session not found''), d)
          else (Inr (), set_session sid (\<lambda>s. s\<lparr>sess_revoked_at := Some now\<rparr>) d))"

definition refresh_retry_window :: int where
  "refresh_retry_window = minutes 2"

definition revoked_error :: error where
  "revoked_error = UnauthorizedError ''Session has been revoked. Please log in again.''"

definition expired_error :: error where
  "expired_error = UnauthorizedError ''Session has expired. Please log in again.''"

text \<open>
  \<open>refresh_session\<close> in its three stages: find the live session the token names
  (\<open>refresh_load\<close>), decide the next token version (\<open>next_token_version\<close>, \<open>None\<close> for a stale
  token), then check the user and the device limit. The stale branch commits the revocation before
  it raises, so its database differs from the input although the result is an error.
\<close>

definition refresh_load ::
    "('t \<Rightarrow> claims option) \<Rightarrow> settings \<Rightarrow> datetime \<Rightarrow> 't \<Rightarrow> db \<Rightarrow> (session_row \<times> int) result" where
  "refresh_load decode_expired cfg now token d =
     (case decode_access_token decode_expired token of
        Inl e \<Rightarrow> Inl e
      | Inr payload \<Rightarrow>
      (case (uuid_of_claim (c_sid payload), uuid_of_claim (c_sub payload),
             version_of_claim (c_ver payload)) of
        (Some session_id, Some uid, Some version) \<Rightarrow>
         (case select_one (\<lambda>s. sess_id s = session_id \<and> sess_revoked_at s = None) (sessions d) of
            None \<Rightarrow> Inl revoked_error
          | Some session \<Rightarrow>
            if sess_user_id session \<noteq> uid then Inl revoked_error
            else if (case refresh_cutoff cfg now of None \<Rightarrow> False
                     | Some cutoff \<Rightarrow> sess_expires_at session \<le> cutoff)
            then Inl expired_error
            else Inr (session, version))
      | _ \<Rightarrow> Inl (UnauthorizedError ''Invalid token payload'')))"

definition next_token_version :: "datetime \<Rightarrow> session_row \<Rightarrow> int \<Rightarrow> int option" where
  "next_token_version now session version =
     (let current = sess_token_version session in
      if version = current then Some (current + 1)
      else if version = current - 1 \<and>
              (case sess_refreshed_at session of None \<Rightarrow> False
               | Some t \<Rightarrow> now - t < refresh_retry_window)
      then Some current
      else None)"

definition renewed :: "settings \<Rightarrow> datetime \<Rightarrow> int \<Rightarrow> session_row \<Rightarrow> session_row" where
  "renewed cfg now next_version s =
     s\<lparr>sess_token_version := next_version,
       sess_refreshed_at := (if next_version \<noteq> sess_token_version s then Some now
                             else sess_refreshed_at s),
       sess_expires_at := now + minutes (access_token_expire_minutes cfg)\<rparr>"

definition refresh_session ::
    "('t \<Rightarrow> claims option) \<Rightarrow> (claims \<Rightarrow> 't) \<Rightarrow> settings \<Rightarrow> datetime \<Rightarrow> 't \<Rightarrow> db \<Rightarrow> 't result \<times> db" where
  "refresh_session decode_expired encode cfg now token d =
     (case refresh_load decode_expired cfg now token d of
        Inl e \<Rightarrow> (Inl e, d)
      | Inr (session, version) \<Rightarrow>
        (let sid = sess_id session; uid = sess_user_id session in
         case next_token_version now session version of
           None \<Rightarrow> (Inl revoked_error,
                    set_session sid (\<lambda>s. s\<lparr>sess_revoked_at := Some now\<rparr>) d)
         | Some next_version \<Rightarrow>
           (case find_user uid d of
              None \<Rightarrow> (Inl (UnauthorizedError ''User not found or inactive''), d)
            | Some user \<Rightarrow>
              if \<not> user_is_active user
              then (Inl (UnauthorizedError ''User not found or inactive''), d)
              else if sess_expires_at session \<le> now \<and>
                      max_active_sessions_per_user cfg \<le> int (count_active_sessions d uid now)
              then (Inl expired_error, d)
              else (Inr (create_access_token encode cfg now uid (user_role user) sid next_version),
                    set_session sid (renewed cfg now next_version) d))))"

definition revoke_all_user_sessions :: "datetime \<Rightarrow> uuid \<Rightarrow> db \<Rightarrow> db" where
  "revoke_all_user_sessions now uid d =
     d\<lparr>sessions := update_where (\<lambda>s. sess_user_id s = uid \<and> sess_revoked_at s = None)
                     (\<lambda>s. s\<lparr>sess_revoked_at := Some now\<rparr>) (sessions d)\<rparr>"

definition require_active_session :: "db \<Rightarrow> datetime \<Rightarrow> uuid_claim option \<Rightarrow> uuid result" where
  "require_active_session d now sid_raw =
     (case uuid_of_claim sid_raw of
        None \<Rightarrow> Inl (UnauthorizedError ''Invalid token payload'')
      | Some sid \<Rightarrow>
          (case get_active_session d now sid of
             None \<Rightarrow> Inl revoked_error
           | Some _ \<Rightarrow> Inr sid))"

section \<open>Request authentication\<close>

text \<open>
  \<open>get_current_user\<close>. A \<open>sub\<close> claim that does not parse as a UUID escapes as an uncaught
  \<open>ValueError\<close> in the code (a 500), after the session check.
\<close>

definition get_current_user :: "('t \<Rightarrow> claims option) \<Rightarrow> datetime \<Rightarrow> 't \<Rightarrow> db \<Rightarrow> user_row result" where
  "get_current_user decode now token d =
     (case decode_access_token decode token of
        Inl e \<Rightarrow> Inl e
      | Inr payload \<Rightarrow>
        if c_sub payload = None \<or> c_sub payload = Some (BadStr [])
        then Inl (UnauthorizedError ''Invalid token payload'')
        else (case require_active_session d now (c_sid payload) of
                Inl e \<Rightarrow> Inl e
              | Inr _ \<Rightarrow>
                (case uuid_of_claim (c_sub payload) of
                   None \<Rightarrow> Inl (ValueError ''badly formed hexadecimal UUID string'')
                 | Some uid \<Rightarrow>
                   (case find_user uid d of
                      None \<Rightarrow> Inl (UnauthorizedError ''User not found or inactive'')
                    | Some user \<Rightarrow>
                        if user_is_active user then Inr user
                        else Inl (UnauthorizedError ''User not found or inactive'')))))"

definition get_current_user_optional ::
    "('t \<Rightarrow> claims option) \<Rightarrow> datetime \<Rightarrow> 't option \<Rightarrow> db \<Rightarrow> user_row option result" where
  "get_current_user_optional decode now credentials d =
     (case credentials of
        None \<Rightarrow> Inr None
      | Some token \<Rightarrow>
        (case decode_access_token decode token of
           Inl _ \<Rightarrow> Inr None
         | Inr payload \<Rightarrow>
           (case require_active_session d now (c_sid payload) of
              Inl _ \<Rightarrow> Inr None
            | Inr _ \<Rightarrow>
              if c_sub payload = None \<or> c_sub payload = Some (BadStr []) then Inr None
              else (case uuid_of_claim (c_sub payload) of
                      None \<Rightarrow> Inl (ValueError ''badly formed hexadecimal UUID string'')
                    | Some uid \<Rightarrow>
                        (case find_user uid d of
                           None \<Rightarrow> Inr None
                         | Some user \<Rightarrow> Inr (if user_is_active user then Some user else None))))))"

definition get_current_session_id :: "('t \<Rightarrow> claims option) \<Rightarrow> datetime \<Rightarrow> 't \<Rightarrow> db \<Rightarrow> uuid result" where
  "get_current_session_id decode now token d =
     (case decode_access_token decode token of
        Inl e \<Rightarrow> Inl e
      | Inr payload \<Rightarrow> require_active_session d now (c_sid payload))"

definition require_admin :: "user_row \<Rightarrow> user_row result" where
  "require_admin u =
     (if user_role u \<noteq> ''admin'' then Inl (ForbiddenError ''Admin access required'') else Inr u)"

section \<open>What each operation does\<close>

lemma sessions_set_session [simp]:
  "sessions (set_session sid f d) = update_where (\<lambda>s. sess_id s = sid) f (sessions d)"
  by (simp add: set_session_def)

lemma users_set_session [simp, frame]: "users (set_session sid f d) = users d"
  by (simp add: set_session_def)

lemma create_session_ok [ok_iff]:
  "create_session cfg now sid uid ua d = Inr (s, d') \<longleftrightarrow>
   find_user uid d \<noteq> None \<and> int (count_active_sessions d uid now) < max_active_sessions_per_user cfg \<and>
   s = \<lparr>sess_id = sid, sess_user_id = uid, sess_device_label = device_label_from_user_agent ua,
        sess_created_at = now, sess_expires_at = now + minutes (access_token_expire_minutes cfg),
        sess_revoked_at = None, sess_token_version = 0, sess_refreshed_at = None\<rparr> \<and>
   d' = d\<lparr>sessions := sessions d @ [s]\<rparr>"
  by (auto simp: create_session_def Let_def)

lemma renewed_simps [simp]:
  "sess_id (renewed cfg now v s) = sess_id s"
  "sess_user_id (renewed cfg now v s) = sess_user_id s"
  "sess_revoked_at (renewed cfg now v s) = sess_revoked_at s"
  "sess_token_version (renewed cfg now v s) = v"
  "sess_expires_at (renewed cfg now v s) = now + minutes (access_token_expire_minutes cfg)"
  by (simp_all add: renewed_def)

lemma next_token_version_cases:
  "next_token_version now s v = Some n \<Longrightarrow>
   n = v + 1 \<and> (v = sess_token_version s \<or> v = sess_token_version s - 1)"
  by (auto simp: next_token_version_def Let_def split: if_splits)

lemma refresh_load_ok:
  assumes "refresh_load dec cfg now tok d = Inr (s, v)"
  obtains p where "decode_access_token dec tok = Inr p"
    "c_sid p = Some (UuidStr (sess_id s))" "c_sub p = Some (UuidStr (sess_user_id s))"
    "version_of_claim (c_ver p) = Some v" "s \<in> set (sessions d)" "sess_revoked_at s = None"
    "case refresh_cutoff cfg now of None \<Rightarrow> True | Some c \<Rightarrow> c < sess_expires_at s"
  using assms
  by (auto simp: refresh_load_def uuid_of_claim_def dest!: select_one_Some
      split: sum.splits option.splits uuid_claim.splits if_splits)

text \<open>A refresh either changes nothing, revokes the session, or renews it.\<close>

lemma refresh_session_cases:
  assumes "refresh_session dec enc cfg now tok d = (r, d')"
  obtains (unchanged) e where "r = Inl e" "d' = d"
  | (stale) s v where "refresh_load dec cfg now tok d = Inr (s, v)"
      "next_token_version now s v = None" "r = Inl revoked_error"
      "d' = set_session (sess_id s) (\<lambda>s. s\<lparr>sess_revoked_at := Some now\<rparr>) d"
  | (renewed) s v n u where "refresh_load dec cfg now tok d = Inr (s, v)"
      "next_token_version now s v = Some n"
      "find_user (sess_user_id s) d = Some u" "user_is_active u"
      "sess_expires_at s \<le> now \<longrightarrow>
         int (count_active_sessions d (sess_user_id s) now) < max_active_sessions_per_user cfg"
      "r = Inr (create_access_token enc cfg now (sess_user_id s) (user_role u) (sess_id s) n)"
      "d' = set_session (sess_id s) (renewed cfg now n) d"
proof (cases "refresh_load dec cfg now tok d")
  case (Inl e)
  with assms have "r = Inl e" "d' = d" by (simp_all add: refresh_session_def)
  then show ?thesis by (rule unchanged)
next
  case (Inr sv)
  obtain s v where sv: "refresh_load dec cfg now tok d = Inr (s, v)" using Inr by (cases sv) auto
  show ?thesis
  proof (cases "next_token_version now s v")
    case None
    with assms sv have "r = Inl revoked_error"
      "d' = set_session (sess_id s) (\<lambda>s. s\<lparr>sess_revoked_at := Some now\<rparr>) d"
      by (simp_all add: refresh_session_def Let_def)
    then show ?thesis by (rule stale [OF sv None])
  next
    case (Some n)
    show ?thesis
    proof (cases "\<exists>u. find_user (sess_user_id s) d = Some u \<and> user_is_active u \<and>
        \<not> (sess_expires_at s \<le> now \<and> max_active_sessions_per_user cfg
             \<le> int (count_active_sessions d (sess_user_id s) now))")
      case True
      then obtain u where u: "find_user (sess_user_id s) d = Some u" "user_is_active u"
        "\<not> (sess_expires_at s \<le> now \<and> max_active_sessions_per_user cfg
             \<le> int (count_active_sessions d (sess_user_id s) now))" by blast
      with assms sv Some have
        "r = Inr (create_access_token enc cfg now (sess_user_id s) (user_role u) (sess_id s) n)"
        "d' = set_session (sess_id s) (renewed cfg now n) d"
        by (simp_all add: refresh_session_def Let_def)
      moreover have "sess_expires_at s \<le> now \<longrightarrow>
         int (count_active_sessions d (sess_user_id s) now) < max_active_sessions_per_user cfg"
        using u(3) by linarith
      ultimately show ?thesis using renewed [OF sv Some u(1,2)] by blast
    next
      case False
      with assms sv Some have "\<exists>e. r = Inl e \<and> d' = d"
        by (cases "find_user (sess_user_id s) d")
           (auto simp: refresh_session_def Let_def split: if_splits)
      then show ?thesis using unchanged by blast
    qed
  qed
qed

section \<open>The device limit\<close>

text \<open>
  The clock and the database evolve together. Every operation of this theory is one step, taken at
  the current time; between operations time passes. New rows carry fresh ids (\<open>uuid4\<close>).
\<close>

inductive session_step ::
    "('t \<Rightarrow> claims option) \<Rightarrow> (claims \<Rightarrow> 't) \<Rightarrow> settings \<Rightarrow> datetime \<times> db \<Rightarrow> datetime \<times> db \<Rightarrow> bool"
  for dec :: "'t \<Rightarrow> claims option" and enc :: "claims \<Rightarrow> 't" and cfg :: settings where
  tick: "now \<le> now' \<Longrightarrow> session_step dec enc cfg (now, d) (now', d)"
| create: "sid \<notin> set (map sess_id (sessions d)) \<Longrightarrow>
     create_session cfg now sid uid ua d = Inr (s, d') \<Longrightarrow>
     session_step dec enc cfg (now, d) (now, d')"
| refresh: "refresh_session dec enc cfg now tok d = (r, d') \<Longrightarrow>
     session_step dec enc cfg (now, d) (now, d')"
| revoke: "revoke_session now uid sid d = (r, d') \<Longrightarrow>
     session_step dec enc cfg (now, d) (now, d')"
| revoke_all: "session_step dec enc cfg (now, d) (now, revoke_all_user_sessions now uid d)"

inductive session_reach ::
    "('t \<Rightarrow> claims option) \<Rightarrow> (claims \<Rightarrow> 't) \<Rightarrow> settings \<Rightarrow> datetime \<times> db \<Rightarrow> datetime \<times> db \<Rightarrow> bool"
  for dec :: "'t \<Rightarrow> claims option" and enc :: "claims \<Rightarrow> 't" and cfg :: settings
  and start :: "datetime \<times> db" where
  init: "session_reach dec enc cfg start start"
| step: "session_reach dec enc cfg start x \<Longrightarrow> session_step dec enc cfg x y \<Longrightarrow>
     session_reach dec enc cfg start y"

definition within_limit :: "settings \<Rightarrow> datetime \<times> db \<Rightarrow> bool" where
  "within_limit cfg x = (case x of (now, d) \<Rightarrow>
     distinct (map sess_id (sessions d)) \<and>
     (\<forall>uid. int (count_active_sessions d uid now) \<le> max 0 (max_active_sessions_per_user cfg)))"

lemma count_active_antimono:
  "now \<le> now' \<Longrightarrow> count_active_sessions d uid now' \<le> count_active_sessions d uid now"
  unfolding count_active_sessions_def by (rule count_rows_mono) (auto simp: is_active_session_def)

lemma count_active_revoke_le:
  "count_active_sessions (set_session sid (\<lambda>s. s\<lparr>sess_revoked_at := Some t\<rparr>) d) uid now
   \<le> count_active_sessions d uid now"
  unfolding count_active_sessions_def sessions_set_session
  by (rule count_rows_update_le) (simp add: is_active_session_def)

lemma count_active_revoke_all:
  "count_active_sessions (revoke_all_user_sessions t u d) uid now =
   (if uid = u then 0 else count_active_sessions d uid now)"
  by (auto simp: count_active_sessions_def revoke_all_user_sessions_def count_rows_update_where
      is_active_session_def count_rows_zero exists_row_iff intro!: arg_cong2 [where f = count_rows])

lemma within_limit_mono:
  assumes "within_limit cfg (now, d)" and "map sess_id (sessions d') = map sess_id (sessions d)"
    and "\<And>u. count_active_sessions d' u now' \<le> count_active_sessions d u now"
  shows "within_limit cfg (now', d')"
proof -
  have "int (count_active_sessions d' u now') \<le> max 0 (max_active_sessions_per_user cfg)" for u
    using assms(3) [of u] assms(1) unfolding within_limit_def
    by (metis (mono_tags, lifting) of_nat_le_iff order_trans prod.case)
  then show ?thesis using assms(1,2) by (simp add: within_limit_def)
qed

lemma count_active_renewed:
  assumes "distinct (map sess_id (sessions d))" and "s \<in> set (sessions d)"
    and "sess_revoked_at s = None"
  shows "count_active_sessions (set_session (sess_id s) (renewed cfg now v) d) uid now
     \<le> count_active_sessions d uid now +
        (if uid = sess_user_id s \<and> sess_expires_at s \<le> now then 1 else 0)"
proof -
  let ?Q = "\<lambda>s. sess_user_id s = uid \<and> is_active_session now s"
  have "count_rows ?Q (sessions (set_session (sess_id s) (renewed cfg now v) d))
        + (if ?Q s then 1 else 0) =
      count_rows ?Q (sessions d) + (if ?Q (renewed cfg now v s) then 1 else 0)"
    unfolding sessions_set_session by (rule count_rows_update_key [OF assms(1,2)])
  then show ?thesis using assms(3)
    by (auto simp: count_active_sessions_def is_active_session_def split: if_splits)
qed

lemma within_limit_refresh:
  assumes "within_limit cfg (now, d)" and "refresh_session dec enc cfg now tok d = (r, d')"
  shows "within_limit cfg (now, d')"
  using assms(2)
proof (cases rule: refresh_session_cases)
  case unchanged
  with assms(1) show ?thesis by simp
next
  case (stale s v)
  show ?thesis unfolding stale
    by (rule within_limit_mono [OF assms(1)]) (simp_all add: map_update_where count_active_revoke_le)
next
  case (renewed s v n u)
  obtain p where s: "s \<in> set (sessions d)" "sess_revoked_at s = None"
    using renewed(1) by (rule refresh_load_ok)
  have d: "distinct (map sess_id (sessions d))" using assms(1) by (simp add: within_limit_def)
  have "int (count_active_sessions d' uid now) \<le> max 0 (max_active_sessions_per_user cfg)" for uid
  proof -
    have "count_active_sessions d' uid now \<le> count_active_sessions d uid now +
        (if uid = sess_user_id s \<and> sess_expires_at s \<le> now then 1 else 0)"
      unfolding renewed(7) by (rule count_active_renewed [OF d s])
    moreover have "int (count_active_sessions d uid now) \<le> max 0 (max_active_sessions_per_user cfg)"
      using assms(1) by (simp add: within_limit_def)
    ultimately show ?thesis using renewed(5) by (auto split: if_splits)
  qed
  then show ?thesis using d renewed(7) by (simp add: within_limit_def map_update_where)
qed

lemma within_limit_create:
  assumes "within_limit cfg (now, d)" and "sid \<notin> set (map sess_id (sessions d))"
    and "create_session cfg now sid uid ua d = Inr (s, d')"
  shows "within_limit cfg (now, d')"
  using assms by (auto simp: within_limit_def create_session_ok count_active_sessions_def)

lemma within_limit_revoke:
  assumes "within_limit cfg (now, d)" and "revoke_session now uid sid d = (r, d')"
  shows "within_limit cfg (now, d')"
proof -
  have "d' = d \<or> d' = set_session sid (\<lambda>s. s\<lparr>sess_revoked_at := Some now\<rparr>) d"
    using assms(2) by (auto simp: revoke_session_def split: option.splits if_splits)
  then show ?thesis
  proof
    assume "d' = d" with assms(1) show ?thesis by simp
  next
    assume d': "d' = set_session sid (\<lambda>s. s\<lparr>sess_revoked_at := Some now\<rparr>) d"
    show ?thesis unfolding d'
      by (rule within_limit_mono [OF assms(1)])
         (simp_all add: map_update_where count_active_revoke_le)
  qed
qed

lemma within_limit_step:
  assumes "session_step dec enc cfg x y" and "within_limit cfg x"
  shows "within_limit cfg y"
  using assms
proof (cases rule: session_step.cases)
  case (tick now now' d)
  with assms(2) show ?thesis by (auto intro: within_limit_mono count_active_antimono)
next
  case (create sid d now uid ua s d')
  with assms(2) within_limit_create show ?thesis by metis
next
  case (refresh now tok d r d')
  with assms(2) within_limit_refresh show ?thesis by metis
next
  case (revoke now uid sid d r d')
  with assms(2) within_limit_revoke show ?thesis by metis
next
  case (revoke_all now d uid)
  with assms(2) show ?thesis
    by (auto simp: within_limit_def count_active_revoke_all)
       (simp add: revoke_all_user_sessions_def map_update_where)
qed

lemma within_limit_reach:
  "session_reach dec enc cfg x y \<Longrightarrow> within_limit cfg x \<Longrightarrow> within_limit cfg y"
  by (induction rule: session_reach.induct) (auto intro: within_limit_step)

section \<open>Rotation\<close>

lemma refresh_load_intro:
  assumes "distinct (map sess_id (sessions d))" and "s \<in> set (sessions d)"
    and "sess_revoked_at s = None" and "dec tok = Some p"
    and "c_sid p = Some (UuidStr (sess_id s))" and "c_sub p = Some (UuidStr (sess_user_id s))"
    and "version_of_claim (c_ver p) = Some v"
    and "case refresh_cutoff cfg now of None \<Rightarrow> True | Some c \<Rightarrow> c < sess_expires_at s"
  shows "refresh_load dec cfg now tok d = Inr (s, v)"
  using assms select_one_key_and [OF assms(1,2), of "\<lambda>s. sess_revoked_at s = None"]
  by (simp add: refresh_load_def decode_access_token_def split: option.splits)

lemma refresh_load_revoked:
  assumes "distinct (map sess_id (sessions d))" and "dec tok = Some p"
    and "c_sid p = Some (UuidStr sid)"
    and "\<not> exists_row (\<lambda>s. sess_id s = sid \<and> sess_revoked_at s = None) (sessions d)"
  shows "\<exists>e. refresh_session dec enc cfg now tok d = (Inl e, d)"
proof -
  have "select_one (\<lambda>s. sess_id s = sid \<and> sess_revoked_at s = None) (sessions d) = None"
    using assms(4) by (simp add: exists_row_def)
  then have "\<exists>e. refresh_load dec cfg now tok d = Inl e"
    using assms(2,3) by (auto simp: refresh_load_def decode_access_token_def split: option.splits)
  then show ?thesis by (auto simp: refresh_session_def)
qed

lemma no_live_session_after_revoke:
  assumes "d' = set_session sid (\<lambda>s. s\<lparr>sess_revoked_at := Some now\<rparr>) d"
  shows "\<not> exists_row (\<lambda>s. sess_id s = sid \<and> sess_revoked_at s = None) (sessions d')"
  unfolding assms sessions_set_session exists_row_update_where
  by (simp add: exists_row_iff)

lemma require_active_revoked:
  assumes "\<not> exists_row (\<lambda>s. sess_id s = sid \<and> sess_revoked_at s = None) (sessions d)"
  shows "require_active_session d now (Some (UuidStr sid)) = Inl revoked_error"
proof -
  have "get_active_session d now sid = None"
    using assms by (auto simp: get_active_session_def select_one_None exists_row_iff is_active_session_def)
  then show ?thesis by (simp add: require_active_session_def)
qed

lemma get_current_user_revoked:
  assumes "\<not> exists_row (\<lambda>s. sess_id s = sid \<and> sess_revoked_at s = None) (sessions d)"
    and "dec tok = Some p" and "c_sid p = Some (UuidStr sid)"
  shows "\<exists>e. get_current_user dec now tok d = Inl e"
  using assms require_active_revoked [OF assms(1)]
  by (auto simp: get_current_user_def decode_access_token_def)

lemma in_set_session:
  "s \<in> set (sessions d) \<Longrightarrow> f s \<in> set (sessions (set_session (sess_id s) f d))"
  by (auto simp: in_update_where)

lemma rejected_everywhere:
  assumes "\<not> exists_row (\<lambda>x. sess_id x = sid \<and> sess_revoked_at x = None) (sessions d)"
    and "distinct (map sess_id (sessions d))" and "dec t = Some q" and "c_sid q = Some (UuidStr sid)"
  shows "\<not> is_ok (get_current_user dec t2 t d)"
    and "\<not> is_ok (fst (refresh_session dec enc cfg t2 t d))"
proof -
  obtain e where "get_current_user dec t2 t d = Inl e"
    using get_current_user_revoked [where dec = dec and tok = t and d = d and sid = sid, OF assms(1,3,4)] by blast
  then show "\<not> is_ok (get_current_user dec t2 t d)" by simp
  obtain e where "refresh_session dec enc cfg t2 t d = (Inl e, d)"
    using refresh_load_revoked [where dec = dec and tok = t and d = d and sid = sid, OF assms(2,3,4,1)] by blast
  then show "\<not> is_ok (fst (refresh_session dec enc cfg t2 t d))" by simp
qed

section \<open>Properties\<close>

text \<open>
  C7: The concurrent-device limit is never exceeded. Starting from any database that respects it,
  after any sequence of logins, refreshes, revocations and passing time, every user has at most
  \<open>max_active_sessions_per_user\<close> live sessions, even though a refresh can bring a lapsed session
  back to life.
\<close>

theorem session_limit:
  assumes "session_reach dec enc cfg (t0, d0) (now, d)" and "within_limit cfg (t0, d0)"
  shows "int (count_active_sessions d uid now) \<le> max 0 (max_active_sessions_per_user cfg)"
  using within_limit_reach [OF assms] by (simp add: within_limit_def)

definition one_user_db :: db where
  "one_user_db = empty_db\<lparr>users := [default_user\<lparr>user_id := 7\<rparr>]\<rparr>"

definition one_session :: session_row where
  "one_session = \<lparr>sess_id = 9, sess_user_id = 7, sess_device_label = ''Unknown device'',
     sess_created_at = 0, sess_expires_at = 3600000000, sess_revoked_at = None,
     sess_token_version = 0, sess_refreshed_at = None\<rparr>"

lemma one_user_simps [simp]:
  "sessions one_user_db = []" "find_user 7 one_user_db = Some (default_user\<lparr>user_id := 7\<rparr>)"
  by (simp_all add: one_user_db_def empty_db_def find_user_def)

theorem session_limit_witness:
  "int (count_active_sessions (one_user_db\<lparr>sessions := [one_session]\<rparr>) 7 0) \<le> max 0 5"
proof -
  have "create_session default_settings 0 9 7 None one_user_db =
      Inr (one_session, one_user_db\<lparr>sessions := [one_session]\<rparr>)"
    by (simp add: create_session_ok one_session_def count_active_sessions_def default_settings_def
        device_label_from_user_agent_def minutes_def)
  then have "session_reach Some id default_settings (0, one_user_db)
      (0, one_user_db\<lparr>sessions := [one_session]\<rparr>)"
    by (intro session_reach.step [OF session_reach.init]) (rule session_step.create, simp_all)
  moreover have "within_limit default_settings (0, one_user_db)"
    by (simp add: within_limit_def count_active_sessions_def)
  ultimately show ?thesis
    using session_limit [of Some id default_settings 0 one_user_db 0 _ 7]
    by (simp add: default_settings_def)
qed



definition session_claims :: claims where
  "session_claims = access_claims default_settings 0 7 ''user'' 9 0"

lemma session_claims_simps [simp]:
  "c_sub session_claims = Some (UuidStr 7)" "c_sid session_claims = Some (UuidStr 9)"
  "c_ver session_claims = Ver 0"
  by (simp_all add: session_claims_def access_claims_def)

lemma one_session_simps [simp]:
  "sess_id one_session = 9" "sess_user_id one_session = 7" "sess_token_version one_session = 0"
  "sess_revoked_at one_session = None" "sess_expires_at one_session = 3600000000"
  by (simp_all add: one_session_def)

definition one_session_db :: db where
  "one_session_db = one_user_db\<lparr>sessions := [one_session]\<rparr>"

lemma one_session_db_simps [simp]:
  "sessions one_session_db = [one_session]"
  "find_user 7 one_session_db = Some (default_user\<lparr>user_id := 7\<rparr>)"
  by (simp_all add: one_session_db_def one_user_db_def find_user_def)

lemma default_user_active [simp]: "user_is_active (default_user\<lparr>user_id := u\<rparr>)"
  by (simp add: default_user_def)

lemma one_session_refresh:
  "refresh_session Some id default_settings 0 session_claims one_session_db =
     (Inr (access_claims default_settings 0 7 ''user'' 9 1),
      set_session 9 (renewed default_settings 0 1) one_session_db)"
  by (simp add: refresh_session_def refresh_load_def decode_access_token_def refresh_cutoff_def
      next_token_version_def create_access_token_def default_settings_def default_user_def)


text \<open>
  A refresh hands out a working credential. When a refresh succeeds, the token it returns
  authenticates the owner of the session at once, and keeps doing so until the new expiry, as long
  as tokens decode to the claims they were made from and no two sessions share an id.
\<close>

theorem refreshed_token_authenticates:
  assumes "refresh_session dec enc cfg now tok d = (Inr tok', d')"
    and "\<And>c. dec' (enc c) = Some c" and "distinct (map sess_id (sessions d))"
    and "t < now + minutes (access_token_expire_minutes cfg)"
  shows "\<exists>s u. s \<in> set (sessions d) \<and> find_user (sess_user_id s) d = Some u \<and>
      get_current_user dec' t tok' d' = Inr u \<and>
      get_current_session_id dec' t tok' d' = Inr (sess_id s)"
  using assms(1)
proof (cases rule: refresh_session_cases)
  case (renewed s w n u)
  obtain q where s: "s \<in> set (sessions d)" "sess_revoked_at s = None"
    using renewed(1) by (rule refresh_load_ok)
  let ?s = "renewed cfg now n s"
  have "?s \<in> set (sessions d')" 
    using in_set_session [OF s(1), of "renewed cfg now n"] renewed(7) by simp
  moreover have "distinct (map sess_id (sessions d'))"
    using assms(3) renewed(7) by (simp add: map_update_where)
  ultimately have "get_active_session d' t (sess_id s) = Some ?s"
    using select_one_key_and [of sess_id "sessions d'" ?s "is_active_session t"] s(2) assms(4)
    by (simp add: get_active_session_def is_active_session_def)
  then have "require_active_session d' t (Some (UuidStr (sess_id s))) = Inr (sess_id s)"
    by (simp add: require_active_session_def)
  moreover have "find_user (sess_user_id s) d' = Some u"
    using renewed(3,7) by (simp add: find_user_def)
  ultimately show ?thesis using s(1) renewed(3,4,6) assms(2)
    by (intro exI [of _ s] exI [of _ u])
      (simp add: get_current_user_def get_current_session_id_def decode_access_token_def
        create_access_token_def access_claims_def)
qed simp_all

theorem refreshed_token_authenticates_witness:
  "get_current_user Some 0 (access_claims default_settings 0 7 ''user'' 9 1)
     (set_session 9 (renewed default_settings 0 1) one_session_db) =
   Inr (default_user\<lparr>user_id := 7\<rparr>)"
proof -
  have "0 < (0::int) + minutes (access_token_expire_minutes default_settings)"
    by (simp add: default_settings_def)
  then show ?thesis
    using refreshed_token_authenticates [OF one_session_refresh, of Some 0] by auto
qed

lemma revoke_session_effect_facts:
  assumes "revoke_session now uid sid d = (Inr (), d')" and "distinct (map sess_id (sessions d))"
    and "dec tok = Some q" and "c_sid q = Some (UuidStr sid)"
  shows "\<not> is_ok (get_current_user dec t tok d')"
    and "\<not> is_ok (fst (refresh_session dec enc cfg t tok d'))"
    and "\<And>s. sess_id s \<noteq> sid \<Longrightarrow> s \<in> set (sessions d') \<longleftrightarrow> s \<in> set (sessions d)"
    and "users d' = users d"
proof -
  have d': "d' = set_session sid (\<lambda>s. s\<lparr>sess_revoked_at := Some now\<rparr>) d"
    using assms(1) by (auto simp: revoke_session_def split: option.splits if_splits)
  have dead: "\<not> exists_row (\<lambda>x. sess_id x = sid \<and> sess_revoked_at x = None) (sessions d')"
    using d' by (rule no_live_session_after_revoke)
  moreover have "distinct (map sess_id (sessions d'))"
    using d' assms(2) by (simp add: map_update_where)
  ultimately show "\<not> is_ok (get_current_user dec t tok d')"
    and "\<not> is_ok (fst (refresh_session dec enc cfg t tok d'))"
    using assms(3,4) by (simp_all add: rejected_everywhere)
  show "s \<in> set (sessions d') \<longleftrightarrow> s \<in> set (sessions d)" if "sess_id s \<noteq> sid" for s
    using that by (auto simp: d' in_update_where)
  show "users d' = users d" by (simp add: d')
qed

text \<open>
  Signing a device out takes effect at once and touches nothing else. After \<open>revoke_session\<close>
  succeeds, every token that names the session is refused, by requests and by refresh, while every
  session of another id is the same row as before and no user changes.
\<close>

theorem revoke_session_effect:
  assumes "revoke_session now uid sid d = (Inr (), d')" and "distinct (map sess_id (sessions d))"
    and "dec tok = Some q" and "c_sid q = Some (UuidStr sid)"
  shows "(\<not> is_ok (get_current_user dec t tok d')) \<and>
     (\<not> is_ok (fst (refresh_session dec enc cfg t tok d'))) \<and>
     (\<forall>s. sess_id s \<noteq> sid \<longrightarrow> (s \<in> set (sessions d') \<longleftrightarrow> s \<in> set (sessions d))) \<and>
     (users d' = users d)"
  using revoke_session_effect_facts [where dec = dec and tok = tok, OF assms] by blast

theorem revoke_session_effect_witness:
  "\<not> is_ok (get_current_user Some 1 session_claims (snd (revoke_session 1 7 9 one_session_db)))"
proof -
  obtain d' where d': "revoke_session 1 7 9 one_session_db = (Inr (), d')"
    by (simp add: revoke_session_def)
  have "distinct (map sess_id (sessions one_session_db))" by simp
  from revoke_session_effect [THEN conjunct1, rule_format (no_asm), OF d' this, of Some session_claims session_claims 1]
  show ?thesis using d' by simp
qed

lemma playback_scopes_facts:
  assumes "\<And>c. dec (enc c) = Some c"
  shows "is_ok (verify_playback_token dec (create_playback_token enc now cid ttl) x) \<longleftrightarrow> x = cid"
    and "is_ok (verify_channel_playback_token dec (create_channel_playback_token enc now cid ttl) x)
         \<longleftrightarrow> x = cid"
    and "\<not> is_ok (verify_channel_playback_token dec (create_playback_token enc now cid ttl) x)"
    and "\<not> is_ok (verify_playback_token dec (create_channel_playback_token enc now cid ttl) x)"
    and "\<not> is_ok (verify_playback_token dec (create_access_token enc cfg now uid r sid v) x)"
    and "\<not> is_ok (verify_channel_playback_token dec (create_access_token enc cfg now uid r sid v) x)"
    and "\<not> is_ok (get_current_user dec t (create_playback_token enc now cid ttl) d)"
    and "\<not> is_ok (get_current_user dec t (create_channel_playback_token enc now cid ttl) d)"
  using assms
  by (simp_all add: verify_playback_token_def verify_channel_playback_token_def
      create_playback_token_def create_channel_playback_token_def create_access_token_def
      access_claims_def get_current_user_def decode_access_token_def require_active_session_def)

text \<open>
  Playback credentials are confined. A movie token opens that movie and nothing else: no other
  movie, no TV channel (even one with the same id), and it never authenticates a request; a channel
  token opens only that channel; an access token opens neither.
\<close>

theorem playback_scopes:
  assumes "\<And>c. dec (enc c) = Some c"
  shows "(is_ok (verify_playback_token dec (create_playback_token enc now cid ttl) x) \<longleftrightarrow> x = cid) \<and>
     (is_ok (verify_channel_playback_token dec (create_channel_playback_token enc now cid ttl) x)
      \<longleftrightarrow> x = cid) \<and>
     (\<not> is_ok (verify_channel_playback_token dec (create_playback_token enc now cid ttl) x)) \<and>
     (\<not> is_ok (verify_playback_token dec (create_channel_playback_token enc now cid ttl) x)) \<and>
     (\<not> is_ok (verify_playback_token dec (create_access_token enc cfg now uid r sid v) x)) \<and>
     (\<not> is_ok (verify_channel_playback_token dec (create_access_token enc cfg now uid r sid v) x)) \<and>
     (\<not> is_ok (get_current_user dec t (create_playback_token enc now cid ttl) d)) \<and>
     (\<not> is_ok (get_current_user dec t (create_channel_playback_token enc now cid ttl) d))"
  by (intro conjI) (rule playback_scopes_facts [where dec = dec and enc = enc, OF assms])+

theorem playback_scopes_witness:
  "is_ok (verify_playback_token Some (create_playback_token id 0 3 60) 3)"
  using playback_scopes [THEN conjunct1, rule_format (no_asm), of Some id 0 3 60 3] by simp

end
