(* ===== verification/Single_Use.thy ===== *)
theory Single_Use
  imports Models
begin

text \<open>
  The contract shared by every one-time credential of the service (TV pairing codes, Telegram bot
  logins, Telegram widget nonces, password-reset links): an operation may hand out the value behind
  a credential, which spends it, and no later operation brings a spent credential back unless it
  issues that very credential again. The one lemma that matters, at most one redemption in any
  sequence of operations, is proved once here.
\<close>

text \<open>The values handed out by a sequence of operations, in order.\<close>

fun outcomes :: "('a \<Rightarrow> 's \<Rightarrow> 'r option \<times> 's) \<Rightarrow> 'a list \<Rightarrow> 's \<Rightarrow> 'r list" where
  "outcomes op [] s = []"
| "outcomes op (a # as) s =
     (case op a s of (None, s') \<Rightarrow> outcomes op as s' | (Some x, s') \<Rightarrow> x # outcomes op as s')"

text \<open>The state a sequence of operations leads to.\<close>

fun run_state :: "('a \<Rightarrow> 's \<Rightarrow> 'r option \<times> 's) \<Rightarrow> 'a list \<Rightarrow> 's \<Rightarrow> 's" where
  "run_state op [] s = s"
| "run_state op (a # as) s = run_state op as (snd (op a s))"

lemma run_state_invariant:
  "(\<And>a s x s'. I s \<Longrightarrow> op a s = (x, s') \<Longrightarrow> I s') \<Longrightarrow> I s \<Longrightarrow> I (run_state op as s)"
  by (induction as arbitrary: s) (simp, metis prod.collapse run_state.simps(2))

locale single_use =
  fixes op :: "'a \<Rightarrow> 's \<Rightarrow> ('c \<times> 'r) option \<times> 's"
    and inv :: "'s \<Rightarrow> bool"
    and spent :: "'c \<Rightarrow> 's \<Rightarrow> bool"
    and issues :: "'c \<Rightarrow> 'a \<Rightarrow> bool"
  assumes redeem: "inv s \<Longrightarrow> op a s = (Some (c, r), s') \<Longrightarrow> \<not> spent c s \<and> spent c s'"
    and keep: "inv s \<Longrightarrow> spent c s \<Longrightarrow> \<not> issues c a \<Longrightarrow> op a s = (x, s') \<Longrightarrow> spent c s'"
    and inv_op: "inv s \<Longrightarrow> op a s = (x, s') \<Longrightarrow> inv s'"
begin

lemma spent_no_outcome:
  "inv s \<Longrightarrow> spent c s \<Longrightarrow> \<forall>a \<in> set as. \<not> issues c a \<Longrightarrow>
   filter (\<lambda>x. fst x = c) (outcomes op as s) = []"
proof (induction as arbitrary: s)
  case Nil
  then show ?case by simp
next
  case (Cons a as)
  obtain x s' where e: "op a s = (x, s')" by (cases "op a s")
  have "spent c s'" using keep [OF Cons.prems(1,2) _ e] Cons.prems(3) by simp
  then have ih: "filter (\<lambda>x. fst x = c) (outcomes op as s') = []"
    using Cons.IH inv_op [OF Cons.prems(1) e] Cons.prems(3) by simp
  show ?case
  proof (cases x)
    case None
    with e ih show ?thesis by simp
  next
    case (Some y)
    then have "fst y \<noteq> c" using redeem [OF Cons.prems(1), of a "fst y" "snd y" s'] e Cons.prems(2) by auto
    with e ih Some show ?thesis by simp
  qed
qed

lemma at_most_once:
  "inv s \<Longrightarrow> \<forall>a \<in> set as. \<not> issues c a \<Longrightarrow>
   length (filter (\<lambda>x. fst x = c) (outcomes op as s)) \<le> 1"
proof (induction as arbitrary: s)
  case Nil
  then show ?case by simp
next
  case (Cons a as)
  obtain x s' where e: "op a s = (x, s')" by (cases "op a s")
  have i: "inv s'" by (rule inv_op [OF Cons.prems(1) e])
  show ?case
  proof (cases "x = None \<or> fst (the x) \<noteq> c")
    case True
    with e Cons.IH [OF i] Cons.prems(2) show ?thesis by (cases x) auto
  next
    case False
    then obtain r where hit: "x = Some (c, r)" by (cases x) auto
    then have "spent c s'" using redeem [OF Cons.prems(1)] e by blast
    then have "filter (\<lambda>x. fst x = c) (outcomes op as s') = []"
      using spent_no_outcome i Cons.prems(2) by simp
    with e hit show ?thesis by simp
  qed
qed

end

end
