(* ===== verification/Constraints.thy ===== *)
theory Constraints
  imports Models
begin

text \<open>
  The database constraints the services meet when they delete rows or change a subscription, as the
  models and the Alembic migrations declare them: which foreign keys cascade, which refuse the
  delete, and the CHECK on \<open>subscriptions.status\<close> (0001_initial_schema; no later migration changes
  it). A refused statement raises \<open>IntegrityError\<close> and the request's changes are rolled back.
\<close>

definition subscription_status_ok :: "string \<Rightarrow> bool" where
  "subscription_status_ok s \<longleftrightarrow> s \<in> {''active'', ''grace'', ''expired''}"

section \<open>Pending checkouts\<close>

text \<open>
  The five partial unique indexes of 0048_atomic_sessions_and_checkout: one pending Bakong intent per
  buyer (account or guest) and movie or series, and per account and plan. A row's keys are the index
  entries it makes.
\<close>

datatype pending_key =
    MovieUser uuid uuid | MovieGuest string uuid
  | SeriesUser uuid uuid | SeriesGuest string uuid
  | SubUserPlan uuid string

definition pair_key :: "('a \<Rightarrow> 'b \<Rightarrow> 'k) \<Rightarrow> 'a option \<Rightarrow> 'b option \<Rightarrow> 'k list" where
  "pair_key f a b = (case (a, b) of (Some x, Some y) \<Rightarrow> [f x y] | _ \<Rightarrow> [])"

definition pending_keys :: "intent_row \<Rightarrow> pending_key list" where
  "pending_keys p =
     (if pi_status p \<noteq> ''pending'' \<or> pi_method p \<noteq> ''bakong'' then []
      else if pi_kind p = ''single''
      then pair_key MovieUser (pi_user_id p) (pi_content_id p) @ pair_key MovieGuest (pi_guest_id p) (pi_content_id p)
      else if pi_kind p = ''series''
      then pair_key SeriesUser (pi_user_id p) (pi_series_id p) @ pair_key SeriesGuest (pi_guest_id p) (pi_series_id p)
      else if pi_kind p = ''sub'' then pair_key SubUserPlan (pi_user_id p) (pi_plan_code p)
      else [])"

definition pending_unique :: "intent_row list \<Rightarrow> bool" where
  "pending_unique rows \<longleftrightarrow> distinct (concat (map pending_keys rows))"

section \<open>Comments\<close>

text \<open>A deleted comment takes its replies (at any depth), its votes and its reports with it.\<close>

definition doomed_step :: "comment_row list \<Rightarrow> uuid list \<Rightarrow> uuid list" where
  "doomed_step cs ids =
     ids @ map cm_id (filter (\<lambda>c. cm_parent_id c \<in> Some ` set ids \<and> cm_id c \<notin> set ids) cs)"

definition doomed_comments :: "comment_row list \<Rightarrow> uuid list \<Rightarrow> uuid list" where
  "doomed_comments cs ids = (doomed_step cs ^^ length cs) ids"

definition delete_comments_cascade :: "uuid list \<Rightarrow> db \<Rightarrow> db" where
  "delete_comments_cascade ids d =
     (let gone = set (doomed_comments (comments d) ids) in
      d\<lparr>comments := delete_where (\<lambda>c. cm_id c \<in> gone) (comments d),
        comment_votes := delete_where (\<lambda>v. vote_comment_id v \<in> gone) (comment_votes d),
        comment_reports := delete_where (\<lambda>r. rep_comment_id r \<in> gone) (comment_reports d)\<rparr>)"

section \<open>Users\<close>

text \<open>
  \<open>purchases\<close>, \<open>subscriptions\<close>, \<open>payment_intents\<close>, \<open>payment_approvals\<close> and \<open>watch_progress\<close> reference
  the user without a cascade; every other reference cascades.
\<close>

definition user_is_referenced :: "uuid \<Rightarrow> db \<Rightarrow> bool" where
  "user_is_referenced uid d \<longleftrightarrow>
     exists_row (\<lambda>s. sub_user_id s = uid) (subscriptions d) \<or>
     exists_row (\<lambda>p. pu_user_id p = Some uid) (purchases d) \<or>
     exists_row (\<lambda>p. pi_user_id p = Some uid) (payment_intents d) \<or>
     exists_row (\<lambda>a. appr_admin_user_id a = uid) (payment_approvals d) \<or>
     exists_row (\<lambda>w. wp_user_id w = uid) (watch_progress d)"

definition delete_user_row :: "uuid \<Rightarrow> db \<Rightarrow> db result" where
  "delete_user_row uid d =
     (if user_is_referenced uid d then Inl IntegrityError
      else
       (let d1 = delete_comments_cascade
                   (map cm_id (filter (\<lambda>c. cm_user_id c = uid) (comments d))) d
        in Inr (d1\<lparr>users := delete_where (\<lambda>u. user_id u = uid) (users d1),
             sessions := delete_where (\<lambda>s. sess_user_id s = uid) (sessions d1),
             tv_access_codes := delete_where (\<lambda>t. tvc_user_id t = uid) (tv_access_codes d1),
             device_pairing_codes :=
               delete_where (\<lambda>p. pair_user_id p = Some uid) (device_pairing_codes d1),
             password_reset_tokens :=
               delete_where (\<lambda>t. reset_user_id t = uid) (password_reset_tokens d1),
             series_purchases := delete_where (\<lambda>p. spu_user_id p = Some uid) (series_purchases d1),
             comment_votes := delete_where (\<lambda>v. vote_user_id v = uid) (comment_votes d1),
             comment_reports := delete_where (\<lambda>r. rep_user_id r = uid) (comment_reports d1),
             user_blocks := delete_where (\<lambda>b. blk_blocker_id b = uid \<or> blk_blocked_id b = uid)
               (user_blocks d1),
             favorites := delete_where (\<lambda>f. fav_user_id f = uid) (favorites d1),
             ratings := delete_where (\<lambda>r. rt_user_id r = uid) (ratings d1)\<rparr>)))"

end
