(* ===== verification/Accounts.thy ===== *)
theory Accounts
  imports Sessions Single_Use Constraints "HOL-Library.Char_ord" "HOL-Library.List_Lexorder"
begin

text \<open>
  \<open>app/services/auth.py\<close> and \<open>app/services/guest.py\<close>: registration, the four ways to sign in
  (password, Google, Apple, Telegram), claiming a guest's purchases, and the password reset.

  Password hashing, SHA-256/HMAC and the identity providers' token verification are arguments.
  Every operation returns \<open>Inr\<close> with the committed database, or \<open>Inl\<close> when the request raised, in
  which case nothing was committed. UUIDs, random tokens and the clock are arguments.
\<close>

section \<open>Guest purchases\<close>

text \<open>The three updates, and the unique indexes on pending checkouts that the last can violate.\<close>

definition claim_rows :: "uuid \<Rightarrow> string option \<Rightarrow> db \<Rightarrow> db" where
  "claim_rows uid guest_id d =
     (if \<not> truthy guest_id then d
      else d\<lparr>purchases := update_where (\<lambda>p. pu_guest_id p = guest_id)
                 (\<lambda>p. p\<lparr>pu_user_id := Some uid, pu_guest_id := None\<rparr>) (purchases d),
             series_purchases := update_where (\<lambda>p. spu_guest_id p = guest_id)
                 (\<lambda>p. p\<lparr>spu_user_id := Some uid, spu_guest_id := None\<rparr>) (series_purchases d),
             payment_intents := update_where (\<lambda>p. pi_guest_id p = guest_id)
                 (\<lambda>p. p\<lparr>pi_user_id := Some uid, pi_guest_id := None\<rparr>) (payment_intents d)\<rparr>)"

definition claim_guest_purchases :: "uuid \<Rightarrow> string option \<Rightarrow> db \<Rightarrow> db result" where
  "claim_guest_purchases uid guest_id d =
     (let d' = claim_rows uid guest_id d in
      if truthy guest_id \<and> \<not> pending_unique (payment_intents d') then Inl IntegrityError else Inr d')"

lemma claim_guest_ok [ok_iff]:
  "claim_guest_purchases uid g d = Inr d' \<longleftrightarrow>
   d' = claim_rows uid g d \<and> (truthy g \<longrightarrow> pending_unique (payment_intents d'))"
  by (auto simp: claim_guest_purchases_def Let_def)

lemma claim_rows_frame [simp, frame]:
  "users (claim_rows uid g d) = users d"
  "sessions (claim_rows uid g d) = sessions d"
  "password_reset_tokens (claim_rows uid g d) = password_reset_tokens d"
  "telegram_auth_nonces (claim_rows uid g d) = telegram_auth_nonces d"
  "telegram_bot_logins (claim_rows uid g d) = telegram_bot_logins d"
  "find_user v (claim_rows uid g d) = find_user v d"
  by (simp_all add: claim_rows_def find_user_def)

section \<open>Accounts\<close>

text \<open>The flush of a new \<open>User\<close>: its email and the three provider ids are unique columns.\<close>

definition user_conflict :: "user_row \<Rightarrow> user_row \<Rightarrow> bool" where
  "user_conflict u v \<longleftrightarrow> user_email u = user_email v
     \<or> user_google_id u \<noteq> None \<and> user_google_id u = user_google_id v
     \<or> user_telegram_id u \<noteq> None \<and> user_telegram_id u = user_telegram_id v
     \<or> user_apple_id u \<noteq> None \<and> user_apple_id u = user_apple_id v"

definition insert_user :: "user_row \<Rightarrow> db \<Rightarrow> db result" where
  "insert_user u d = (if exists_row (user_conflict u) (users d) then Inl IntegrityError
                      else Inr (d\<lparr>users := users d @ [u]\<rparr>))"

definition put_user :: "user_row \<Rightarrow> db \<Rightarrow> db" where
  "put_user u d = d\<lparr>users := update_where (\<lambda>v. user_id v = user_id u) (\<lambda>_. u) (users d)\<rparr>"

definition find_user_by_email :: "string \<Rightarrow> db \<Rightarrow> user_row option" where
  "find_user_by_email email d = select_one (\<lambda>u. user_email u = email) (users d)"

definition register_user ::
    "(string \<Rightarrow> string) \<Rightarrow> datetime \<Rightarrow> uuid \<Rightarrow> string \<Rightarrow> string \<Rightarrow> string option \<Rightarrow> string option
     \<Rightarrow> db \<Rightarrow> (user_row \<times> db) result" where
  "register_user hash_password now uid email password full_name guest_id d =
     (if find_user_by_email (lower email) d \<noteq> None
      then Inl (ConflictError ''Unable to create account with this email'')
      else (let u = default_user\<lparr>user_id := uid, user_email := lower email,
                      user_password_hash := Some (hash_password password),
                      user_full_name := full_name, user_created_at := now\<rparr>
            in case insert_user u d of
                 Inl e \<Rightarrow> Inl e
               | Inr d1 \<Rightarrow>
                 (case claim_guest_purchases uid guest_id d1 of
                    Inl e \<Rightarrow> Inl e
                  | Inr d2 \<Rightarrow> Inr (u, d2))))"

text \<open>
  The tail the identity-provider logins share: refuse a disabled account, flush the new or changed
  row, move the guest's purchases, open the session, commit, mint the token. A row that exists is
  written back whole, which is what the flush of its changed attributes amounts to.
\<close>

definition finish_sign_in ::
    "(claims \<Rightarrow> 't) \<Rightarrow> settings \<Rightarrow> datetime \<Rightarrow> uuid \<Rightarrow> string option \<Rightarrow> string option \<Rightarrow>
     bool \<times> user_row \<Rightarrow> db \<Rightarrow> (user_row \<times> 't \<times> db) result" where
  "finish_sign_in encode cfg now sid user_agent guest_id account d =
     (case account of (is_new, u) \<Rightarrow>
        if \<not> user_is_active u then Inl (UnauthorizedError ''Account is disabled'')
        else (case (if is_new then insert_user u d else Inr (put_user u d)) of
                Inl e \<Rightarrow> Inl e
              | Inr d1 \<Rightarrow>
                (case claim_guest_purchases (user_id u) guest_id d1 of
                   Inl e \<Rightarrow> Inl e
                 | Inr d2 \<Rightarrow>
                   (case create_session cfg now sid (user_id u) user_agent d2 of
                      Inl e \<Rightarrow> Inl e
                    | Inr (s, d3) \<Rightarrow>
                        Inr (u, create_access_token encode cfg now (user_id u) (user_role u) (sess_id s) 0,
                             d3)))))"

definition authenticate_user ::
    "(string \<Rightarrow> string \<Rightarrow> bool) \<Rightarrow> (claims \<Rightarrow> 't) \<Rightarrow> settings \<Rightarrow> datetime \<Rightarrow> uuid \<Rightarrow> string \<Rightarrow> string
     \<Rightarrow> string option \<Rightarrow> string option \<Rightarrow> db \<Rightarrow> (user_row \<times> 't \<times> db) result" where
  "authenticate_user verify_password encode cfg now sid email password user_agent guest_id d =
     (case find_user_by_email (lower email) d of
        None \<Rightarrow> Inl (UnauthorizedError ''Invalid email or password'')
      | Some u \<Rightarrow>
        if \<not> truthy (user_password_hash u) \<or> \<not> verify_password password (the (user_password_hash u))
        then Inl (UnauthorizedError ''Invalid email or password'')
        else if \<not> user_is_active u then Inl (UnauthorizedError ''Account is disabled'')
        else (case claim_guest_purchases (user_id u) guest_id d of
                Inl e \<Rightarrow> Inl e
              | Inr d1 \<Rightarrow>
                (case create_session cfg now sid (user_id u) user_agent d1 of
                   Inl e \<Rightarrow> Inl e
                 | Inr (s, d2) \<Rightarrow>
                     Inr (u, create_access_token encode cfg now (user_id u) (user_role u) (sess_id s) 0,
                          d2))))"

section \<open>Google\<close>

text \<open>The verified ID token's claims; \<open>g_email_verified\<close> says the claim is literally \<open>True\<close>.\<close>

record google_claims =
  g_sub :: "string option"
  g_email :: "string option"
  g_email_verified :: bool
  g_name :: "string option"
  g_given_name :: "string option"
  g_picture :: "string option"

definition verify_google_id_token ::
    "(string \<Rightarrow> google_claims option) \<Rightarrow> settings \<Rightarrow> string \<Rightarrow> google_claims result" where
  "verify_google_id_token verify_oauth2 cfg token =
     (if google_client_id cfg = [] then Inl (UnauthorizedError ''Google sign-in is not configured'')
      else (case verify_oauth2 token of
              None \<Rightarrow> Inl (UnauthorizedError ''Invalid Google token'')
            | Some c \<Rightarrow> Inr c))"

definition fill_profile :: "string option \<Rightarrow> string option \<Rightarrow> user_row \<Rightarrow> user_row" where
  "fill_profile picture name u =
     u\<lparr>user_avatar_url := (if truthy picture then picture else user_avatar_url u),
       user_full_name := (if truthy name \<and> \<not> truthy (user_full_name u) then name
                          else user_full_name u)\<rparr>"

text \<open>Find, link or make the account: \<open>True\<close> with a row that is not in the database yet.\<close>

definition google_account :: "datetime \<Rightarrow> uuid \<Rightarrow> google_claims \<Rightarrow> db \<Rightarrow> (bool \<times> user_row) result" where
  "google_account now uid c d =
     (if \<not> truthy (g_sub c) \<or> \<not> truthy (g_email c)
      then Inl (UnauthorizedError ''Google account is missing required profile data'')
      else if \<not> g_email_verified c then Inl (UnauthorizedError ''Google email is not verified'')
      else
       (let email = lower (the (g_email c)); name = or_else (g_name c) (g_given_name c);
            picture = g_picture c
        in case select_one (\<lambda>u. user_google_id u = g_sub c) (users d) of
             Some u \<Rightarrow> Inr (False, u)
           | None \<Rightarrow>
             (case find_user_by_email email d of
                Some u \<Rightarrow>
                  if truthy (user_google_id u) \<and> user_google_id u \<noteq> g_sub c
                  then Inl (ConflictError ''Email is linked to a different Google account'')
                  else Inr (False, fill_profile picture name (u\<lparr>user_google_id := g_sub c\<rparr>))
              | None \<Rightarrow>
                  Inr (True, default_user\<lparr>user_id := uid, user_email := email,
                         user_google_id := g_sub c, user_full_name := name,
                         user_avatar_url := picture, user_password_hash := None,
                         user_is_active := True, user_created_at := now\<rparr>))))"

definition authenticate_google ::
    "(string \<Rightarrow> google_claims option) \<Rightarrow> (claims \<Rightarrow> 't) \<Rightarrow> settings \<Rightarrow> datetime \<Rightarrow> uuid \<Rightarrow> uuid \<Rightarrow>
     string \<Rightarrow> string option \<Rightarrow> string option \<Rightarrow> db \<Rightarrow> (user_row \<times> 't \<times> db) result" where
  "authenticate_google verify_oauth2 encode cfg now uid sid token user_agent guest_id d =
     (case verify_google_id_token verify_oauth2 cfg token of
        Inl e \<Rightarrow> Inl e
      | Inr c \<Rightarrow>
        (case google_account now uid c d of
           Inl e \<Rightarrow> Inl e
         | Inr (is_new, u) \<Rightarrow>
             finish_sign_in encode cfg now sid user_agent guest_id
               (is_new, fill_profile (g_picture c) (or_else (g_name c) (g_given_name c)) u) d))"

section \<open>Apple\<close>

text \<open>Apple sends \<open>email_verified\<close> as a string or a bool, so the code compares its \<open>str()\<close>.\<close>

datatype flag_claim = NoFlag | BoolFlag bool | StrFlag string

definition str_flag :: "flag_claim \<Rightarrow> string" where
  "str_flag f = (case f of NoFlag \<Rightarrow> ''None'' | BoolFlag b \<Rightarrow> if b then ''True'' else ''False''
                 | StrFlag s \<Rightarrow> s)"

record apple_claims =
  a_sub :: "string option"
  a_email :: "string option"
  a_email_verified :: flag_claim
  a_nonce :: "string option"

definition verify_apple_identity_token ::
    "(string \<Rightarrow> apple_claims option) \<Rightarrow> (string \<Rightarrow> string) \<Rightarrow> settings \<Rightarrow> string \<Rightarrow> string \<Rightarrow>
     apple_claims result" where
  "verify_apple_identity_token jwt_decode sha256_hex cfg token raw_nonce =
     (if apple_client_id cfg = [] then Inl (UnauthorizedError ''Apple sign-in is not configured'')
      else (case jwt_decode token of
              None \<Rightarrow> Inl (UnauthorizedError ''Invalid Apple token'')
            | Some c \<Rightarrow>
                if (case a_nonce c of None \<Rightarrow> [] | Some n \<Rightarrow> n) \<noteq> sha256_hex raw_nonce
                then Inl (UnauthorizedError ''Invalid Apple token'')
                else Inr c))"

definition apple_account ::
    "datetime \<Rightarrow> uuid \<Rightarrow> apple_claims \<Rightarrow> string option \<Rightarrow> db \<Rightarrow> (bool \<times> user_row) result" where
  "apple_account now uid c name d =
     (if \<not> truthy (a_sub c)
      then Inl (UnauthorizedError ''Apple account is missing required profile data'')
      else
       (case select_one (\<lambda>u. user_apple_id u = a_sub c) (users d) of
          Some u \<Rightarrow> Inr (False, u)
        | None \<Rightarrow>
          if \<not> truthy (a_email c)
          then Inl (UnauthorizedError ''Apple account is missing required profile data'')
          else if lower (str_flag (a_email_verified c)) \<noteq> ''true''
          then Inl (UnauthorizedError ''Apple email is not verified'')
          else
           (let email = lower (the (a_email c)) in
            case find_user_by_email email d of
              Some u \<Rightarrow>
                if truthy (user_apple_id u) \<and> user_apple_id u \<noteq> a_sub c
                then Inl (ConflictError ''Email is linked to a different Apple account'')
                else Inr (False, u\<lparr>user_apple_id := a_sub c\<rparr>)
            | None \<Rightarrow>
                Inr (True, default_user\<lparr>user_id := uid, user_email := email,
                       user_apple_id := a_sub c, user_full_name := name,
                       user_password_hash := None, user_is_active := True,
                       user_role := ''user'', user_created_at := now\<rparr>))))"

definition authenticate_apple ::
    "(string \<Rightarrow> apple_claims option) \<Rightarrow> (string \<Rightarrow> string) \<Rightarrow> (claims \<Rightarrow> 't) \<Rightarrow> settings \<Rightarrow> datetime \<Rightarrow>
     uuid \<Rightarrow> uuid \<Rightarrow> string \<Rightarrow> string \<Rightarrow> string option \<Rightarrow> string option \<Rightarrow> string option \<Rightarrow> db \<Rightarrow>
     (user_row \<times> 't \<times> db) result" where
  "authenticate_apple jwt_decode sha256_hex encode cfg now uid sid identity_token raw_nonce full_name
     user_agent guest_id d =
     (case verify_apple_identity_token jwt_decode sha256_hex cfg identity_token raw_nonce of
        Inl e \<Rightarrow> Inl e
      | Inr c \<Rightarrow>
        (let stripped = strip (case full_name of None \<Rightarrow> [] | Some s \<Rightarrow> s);
             name = (if stripped = [] then None else Some stripped)
         in case apple_account now uid c name d of
              Inl e \<Rightarrow> Inl e
            | Inr (is_new, u) \<Rightarrow>
                finish_sign_in encode cfg now sid user_agent guest_id
                  (is_new, fill_profile None name u) d))"

section \<open>Telegram\<close>

definition telegram_configured :: "settings \<Rightarrow> bool" where
  "telegram_configured cfg \<longleftrightarrow>
     strip (telegram_bot_token cfg) \<noteq> [] \<and> strip (telegram_bot_username cfg) \<noteq> []"

text \<open>
  The data-check string: every field but \<open>hash\<close> as \<open>key=value\<close>, sorted by key, one per line. The
  HMAC's key is the SHA-256 digest of the bot token; both are arguments.
\<close>

definition data_check_string :: "(string \<times> string) list \<Rightarrow> string" where
  "data_check_string payload =
     join [char_of (10 :: nat)] (map (\<lambda>(k, v). k @ ''='' @ v)
       (filter (\<lambda>(k, _). k \<noteq> ''hash'') (sort payload)))"

definition verify_telegram_login_hash ::
    "(string \<Rightarrow> string) \<Rightarrow> (string \<Rightarrow> string \<Rightarrow> string) \<Rightarrow> (string \<times> string) list \<Rightarrow> string \<Rightarrow> bool" where
  "verify_telegram_login_hash sha256 hmac_hex payload bot_token =
     (let received = (case map_of payload ''hash'' of None \<Rightarrow> [] | Some h \<Rightarrow> h) in
      received \<noteq> [] \<and> hmac_hex (sha256 bot_token) (data_check_string payload) = received)"

definition telegram_synthetic_email :: "string \<Rightarrow> string" where
  "telegram_synthetic_email telegram_id = ''telegram_'' @ telegram_id @ ''@users.reeltime.fun''"

text \<open>\<open>urllib.parse.urlencode\<close> on ASCII: unreserved characters stay, a space becomes \<open>+\<close>.\<close>

definition hex_digit :: "nat \<Rightarrow> char" where
  "hex_digit n = (if n < 10 then char_of (48 + n) else char_of (55 + n))"

definition quote_plus :: "string \<Rightarrow> string" where
  "quote_plus s = concat (map (\<lambda>c. let n = (of_char c :: nat) in
     if 48 \<le> n \<and> n \<le> 57 \<or> 65 \<le> n \<and> n \<le> 90 \<or> 97 \<le> n \<and> n \<le> 122 \<or> n \<in> {45, 46, 95, 126} then [c]
     else if n = 32 then ''+''
     else [char_of (37 :: nat), hex_digit (n div 16), hex_digit (n mod 16)]) s)"

definition urlencode :: "(string \<times> string) list \<Rightarrow> string" where
  "urlencode ps = join ''&'' (map (\<lambda>(k, v). quote_plus k @ ''='' @ quote_plus v) ps)"

definition start_telegram_auth ::
    "(string \<Rightarrow> string) \<Rightarrow> settings \<Rightarrow> datetime \<Rightarrow> uuid \<Rightarrow> string \<Rightarrow> db \<Rightarrow>
     ((string \<times> string \<times> int) \<times> db) result" where
  "start_telegram_auth hash_token cfg now nid raw_nonce d =
     (if \<not> telegram_configured cfg
      then Inl (UnauthorizedError ''Telegram sign-in is not configured'')
      else if exists_row (\<lambda>r. nonce_nonce_hash r = hash_token raw_nonce) (telegram_auth_nonces d)
      then Inl IntegrityError
      else
       (let row = \<lparr>nonce_id = nid, nonce_nonce_hash = hash_token raw_nonce,
                   nonce_status = ''pending'',
                   nonce_expires_at = now + minutes (telegram_auth_nonce_expire_minutes cfg)\<rparr>;
            base = rstrip_char CHR ''/'' (strip (telegram_auth_page_url cfg));
            query = urlencode [(''nonce'', raw_nonce),
                      (''bot'', lstrip_char CHR ''@'' (strip (telegram_bot_username cfg)))]
        in Inr ((raw_nonce, base @ ''?'' @ query, telegram_auth_nonce_expire_minutes cfg * 60),
                d\<lparr>telegram_auth_nonces := telegram_auth_nonces d @ [row]\<rparr>)))"

definition consume_telegram_nonce ::
    "(string \<Rightarrow> string) \<Rightarrow> datetime \<Rightarrow> string \<Rightarrow> db \<Rightarrow> db result" where
  "consume_telegram_nonce hash_token now raw_nonce d =
     (case select_one (\<lambda>r. nonce_nonce_hash r = hash_token raw_nonce) (telegram_auth_nonces d) of
        None \<Rightarrow> Inl (UnauthorizedError ''Telegram sign-in session expired. Try again.'')
      | Some row \<Rightarrow>
        if nonce_status row \<noteq> ''pending'' \<or> nonce_expires_at row < now
        then Inl (UnauthorizedError ''Telegram sign-in session expired. Try again.'')
        else Inr (d\<lparr>telegram_auth_nonces :=
               update_where (\<lambda>r. nonce_id r = nonce_id row) (\<lambda>r. r\<lparr>nonce_status := ''used''\<rparr>)
                 (telegram_auth_nonces d)\<rparr>))"

record telegram_auth_request =
  tg_nonce :: string
  tg_id :: int
  tg_first_name :: "string option"
  tg_last_name :: "string option"
  tg_username :: "string option"
  tg_photo_url :: "string option"
  tg_auth_date :: int
  tg_hash :: string

definition telegram_payload :: "telegram_auth_request \<Rightarrow> (string \<times> string) list" where
  "telegram_payload r =
     [(''id'', string_of_int (tg_id r)), (''auth_date'', string_of_int (tg_auth_date r)),
      (''hash'', tg_hash r)]
     @ (if truthy (tg_first_name r) then [(''first_name'', the (tg_first_name r))] else [])
     @ (if truthy (tg_last_name r) then [(''last_name'', the (tg_last_name r))] else [])
     @ (if truthy (tg_username r) then [(''username'', the (tg_username r))] else [])
     @ (if truthy (tg_photo_url r) then [(''photo_url'', the (tg_photo_url r))] else [])"

definition telegram_display_name ::
    "string option \<Rightarrow> string option \<Rightarrow> string option \<Rightarrow> string option" where
  "telegram_display_name first_name last_name username =
     (let parts = map the (filter (\<lambda>p. truthy p \<and> strip (the p) \<noteq> []) [first_name, last_name]);
          name = strip (join '' '' parts)
      in if name \<noteq> [] then Some name
         else if truthy username then Some (strip (the username)) else None)"

definition telegram_account ::
    "datetime \<Rightarrow> uuid \<Rightarrow> string \<Rightarrow> string option \<Rightarrow> string option \<Rightarrow> db \<Rightarrow> bool \<times> user_row" where
  "telegram_account now uid telegram_id display_name photo_url d =
     (case select_one (\<lambda>u. user_telegram_id u = Some telegram_id) (users d) of
        None \<Rightarrow> (True, default_user\<lparr>user_id := uid,
                  user_email := telegram_synthetic_email telegram_id,
                  user_telegram_id := Some telegram_id, user_full_name := display_name,
                  user_avatar_url := photo_url, user_password_hash := None,
                  user_is_active := True, user_created_at := now\<rparr>)
      | Some u \<Rightarrow> (False, fill_profile photo_url display_name u))"

definition login_telegram_identity ::
    "(claims \<Rightarrow> 't) \<Rightarrow> settings \<Rightarrow> datetime \<Rightarrow> uuid \<Rightarrow> uuid \<Rightarrow> string \<Rightarrow> string option \<Rightarrow>
     string option \<Rightarrow> string option \<Rightarrow> string option \<Rightarrow> string option \<Rightarrow> string option \<Rightarrow> db \<Rightarrow>
     (user_row \<times> 't \<times> db) result" where
  "login_telegram_identity encode cfg now uid sid telegram_id first_name last_name username photo_url
     user_agent guest_id d =
     finish_sign_in encode cfg now sid user_agent guest_id
       (telegram_account now uid telegram_id
          (telegram_display_name first_name last_name username) photo_url d) d"

text \<open>\<open>now\<close> in whole seconds is \<open>int(now.timestamp())\<close>, as times are not before the epoch.\<close>

definition authenticate_telegram ::
    "(string \<Rightarrow> string) \<Rightarrow> (string \<Rightarrow> string) \<Rightarrow> (string \<Rightarrow> string \<Rightarrow> string) \<Rightarrow> (claims \<Rightarrow> 't) \<Rightarrow>
     settings \<Rightarrow> datetime \<Rightarrow> uuid \<Rightarrow> uuid \<Rightarrow> telegram_auth_request \<Rightarrow> string option \<Rightarrow> string option \<Rightarrow>
     db \<Rightarrow> (user_row \<times> 't \<times> db) result" where
  "authenticate_telegram hash_token sha256 hmac_hex encode cfg now uid sid r user_agent guest_id d =
     (if \<not> telegram_configured cfg
      then Inl (UnauthorizedError ''Telegram sign-in is not configured'')
      else if \<bar>now div 1000000 - tg_auth_date r\<bar> > telegram_auth_max_age_seconds cfg
      then Inl (UnauthorizedError ''Telegram sign-in expired. Try again.'')
      else if \<not> verify_telegram_login_hash sha256 hmac_hex (telegram_payload r)
                  (strip (telegram_bot_token cfg))
      then Inl (UnauthorizedError ''Invalid Telegram sign-in'')
      else (case consume_telegram_nonce hash_token now (tg_nonce r) d of
              Inl e \<Rightarrow> Inl e
            | Inr d1 \<Rightarrow>
                login_telegram_identity encode cfg now uid sid (string_of_int (tg_id r))
                  (tg_first_name r) (tg_last_name r) (tg_username r) (tg_photo_url r)
                  user_agent guest_id d1))"

section \<open>Password reset\<close>

definition reset_base_url :: "settings \<Rightarrow> string option" where
  "reset_base_url cfg =
     (if app_public_url cfg \<noteq> [] then Some (rstrip_char CHR ''/'' (strip (app_public_url cfg)))
      else map_option (rstrip_char CHR ''/'') (first_row (cors_origin_list cfg)))"

text \<open>
  The mail to send, if any, and the committed database. \<open>token_hash\<close> is a unique column. With
  neither \<open>app_public_url\<close> nor a CORS origin configured, building the link raises after the commit.
\<close>

definition request_password_reset ::
    "(string \<Rightarrow> string) \<Rightarrow> settings \<Rightarrow> datetime \<Rightarrow> uuid \<Rightarrow> string \<Rightarrow> string \<Rightarrow> db \<Rightarrow>
     (string \<times> string) option result \<times> db" where
  "request_password_reset hash_token cfg now rid raw_token email d =
     (case find_user_by_email (lower email) d of
        None \<Rightarrow> (Inr None, d)
      | Some u \<Rightarrow>
        if \<not> user_is_active u then (Inr None, d)
        else
         (let kept = delete_where (\<lambda>t. reset_user_id t = user_id u) (password_reset_tokens d);
              row = \<lparr>reset_id = rid, reset_user_id = user_id u, reset_token_hash = hash_token raw_token,
                     reset_expires_at = now + minutes (password_reset_token_expire_minutes cfg),
                     reset_used_at = None\<rparr>
          in if exists_row (\<lambda>t. reset_token_hash t = hash_token raw_token) kept
             then (Inl IntegrityError, d)
             else ((case reset_base_url cfg of
                      None \<Rightarrow> Inl (ValueError ''list index out of range'')
                    | Some base \<Rightarrow>
                        Inr (Some (user_email u, base @ ''/reset-password?token='' @ raw_token))),
                   d\<lparr>password_reset_tokens := kept @ [row]\<rparr>)))"

definition reset_password ::
    "(string \<Rightarrow> string) \<Rightarrow> (string \<Rightarrow> string) \<Rightarrow> datetime \<Rightarrow> string \<Rightarrow> string \<Rightarrow> db \<Rightarrow> db result" where
  "reset_password hash_token hash_password now token new_password d =
     (let bad = UnauthorizedError ''This reset link is invalid or has expired'' in
      case select_one (\<lambda>t. reset_token_hash t = hash_token token) (password_reset_tokens d) of
        None \<Rightarrow> Inl bad
      | Some t \<Rightarrow>
        if reset_used_at t \<noteq> None \<or> reset_expires_at t < now then Inl bad
        else (case find_user (reset_user_id t) d of
                None \<Rightarrow> Inl bad
              | Some u \<Rightarrow>
                if \<not> user_is_active u then Inl bad
                else Inr (revoke_all_user_sessions now (user_id u)
                       ((put_user (u\<lparr>user_password_hash := Some (hash_password new_password)\<rparr>) d)
                          \<lparr>password_reset_tokens :=
                             update_where (\<lambda>r. reset_id r = reset_id t)
                               (\<lambda>r. r\<lparr>reset_used_at := Some now\<rparr>) (password_reset_tokens d)\<rparr>))))"

section \<open>What a sign-in does\<close>

lemma users_put_user [simp]:
  "users (put_user u d) = update_where (\<lambda>v. user_id v = user_id u) (\<lambda>_. u) (users d)"
  by (simp add: put_user_def)

lemma put_user_frame [simp, frame]:
  "sessions (put_user u d) = sessions d"
  "password_reset_tokens (put_user u d) = password_reset_tokens d"
  "telegram_auth_nonces (put_user u d) = telegram_auth_nonces d"
  "telegram_bot_logins (put_user u d) = telegram_bot_logins d"
  by (simp_all add: put_user_def)

lemma fill_profile_simps [simp]:
  "user_id (fill_profile p n u) = user_id u"
  "user_email (fill_profile p n u) = user_email u"
  "user_google_id (fill_profile p n u) = user_google_id u"
  "user_apple_id (fill_profile p n u) = user_apple_id u"
  "user_telegram_id (fill_profile p n u) = user_telegram_id u"
  "user_role (fill_profile p n u) = user_role u"
  "user_is_active (fill_profile p n u) = user_is_active u"
  by (simp_all add: fill_profile_def)

lemma insert_user_ok [ok_iff]:
  "insert_user u d = Inr d' \<longleftrightarrow>
   \<not> exists_row (user_conflict u) (users d) \<and> d' = d\<lparr>users := users d @ [u]\<rparr>"
  by (auto simp: insert_user_def)

lemma finish_sign_in_ok:
  assumes "finish_sign_in enc cfg now sid ua g (n, u) d = Inr (u', t, d')"
  shows "u' = u" "user_is_active u"
    "t = create_access_token enc cfg now (user_id u) (user_role u) sid 0"
    "n \<Longrightarrow> \<not> exists_row (user_conflict u) (users d)"
    "users d' = (if n then users d @ [u] else users (put_user u d))"
    "\<exists>s. sessions d' = sessions d @ [s] \<and> sess_id s = sid \<and> sess_user_id s = user_id u \<and>
         sess_revoked_at s = None \<and> sess_expires_at s = now + minutes (access_token_expire_minutes cfg)"
    "telegram_bot_logins d' = telegram_bot_logins d"
    "telegram_auth_nonces d' = telegram_auth_nonces d"
    "password_reset_tokens d' = password_reset_tokens d"
  using assms
  by (auto simp: finish_sign_in_def ok_iff split: if_splits sum.splits)

lemma user_conflict_sym: "user_conflict u v \<longleftrightarrow> user_conflict v u"
  unfolding user_conflict_def by metis

text \<open>The unique columns of \<open>users\<close>.\<close>

definition accounts_ok :: "db \<Rightarrow> bool" where
  "accounts_ok d \<longleftrightarrow> distinct (map user_id (users d)) \<and>
     (\<forall>u \<in> set (users d). \<forall>v \<in> set (users d). user_id u \<noteq> user_id v \<longrightarrow> \<not> user_conflict u v)"

definition row_fits :: "db \<Rightarrow> bool \<times> user_row \<Rightarrow> bool" where
  "row_fits d account \<longleftrightarrow> (case account of (is_new, u) \<Rightarrow>
     (is_new \<longrightarrow> user_id u \<notin> set (map user_id (users d))) \<and>
     (\<not> is_new \<longrightarrow> (\<exists>v \<in> set (users d). user_id v = user_id u) \<and>
        (\<forall>v \<in> set (users d). user_id v \<noteq> user_id u \<longrightarrow> \<not> user_conflict u v)))"

lemma accounts_ok_update:
  assumes "accounts_ok d" and "users d' = users (put_user u d)"
    and "\<forall>v \<in> set (users d). user_id v \<noteq> user_id u \<longrightarrow> \<not> user_conflict u v"
  shows "accounts_ok d'"
proof -
  have ids: "map user_id (users d') = map user_id (users d)"
    unfolding assms(2) users_put_user by (rule map_update_where) simp
  have "\<not> user_conflict a b"
    if a: "a \<in> set (users d')" and b: "b \<in> set (users d')" and ne: "user_id a \<noteq> user_id b" for a b
  proof -
    have "a \<in> set (users d) \<and> user_id a \<noteq> user_id u \<or> a = u"
      and "b \<in> set (users d) \<and> user_id b \<noteq> user_id u \<or> b = u"
      using a b by (auto simp: assms(2) in_update_where split: if_splits)
    with ne assms(1,3) user_conflict_sym show ?thesis unfolding accounts_ok_def by metis
  qed
  with ids assms(1) show ?thesis by (simp add: accounts_ok_def)
qed

lemma accounts_ok_insert:
  assumes "accounts_ok d" and "users d' = users d @ [u]"
    and "\<not> exists_row (user_conflict u) (users d)" and "user_id u \<notin> set (map user_id (users d))"
  shows "accounts_ok d'"
  using assms user_conflict_sym by (auto simp: accounts_ok_def exists_row_iff)

lemma accounts_ok_finish [inv_intro]:
  assumes "finish_sign_in enc cfg now sid ua g acc d = Inr (u', t, d')"
    and "accounts_ok d" and "row_fits d acc"
  shows "accounts_ok d'"
proof -
  obtain n u where acc: "acc = (n, u)" by (cases acc)
  note f = finish_sign_in_ok [OF assms(1) [unfolded acc]]
  show ?thesis
  proof (cases n)
    case True
    with f(4,5) assms(2,3) acc show ?thesis
      by (intro accounts_ok_insert [of d d' u]) (simp_all add: row_fits_def)
  next
    case False
    with f(5) assms(2,3) acc show ?thesis
      by (intro accounts_ok_update [of d d' u]) (simp_all add: row_fits_def)
  qed
qed

lemma conflict_elsewhere:
  assumes "accounts_ok d" and "u \<in> set (users d)" and "v \<in> set (users d)" and "user_id v \<noteq> user_id u"
  shows "\<not> user_conflict u v"
  using assms by (auto simp: accounts_ok_def)

lemma find_user_by_email_Some:
  "find_user_by_email e d = Some u \<Longrightarrow> u \<in> set (users d) \<and> user_email u = e"
  unfolding find_user_by_email_def by (drule select_one_Some) simp

text \<open>Each provider's lookup: the row carries the verified identity and fits the table.\<close>

lemma row_fits_same_keys:
  assumes "accounts_ok d" and "v \<in> set (users d)" and "user_id u = user_id v"
    and "\<And>w. user_conflict u w = user_conflict v w"
  shows "row_fits d (False, u)"
  using assms conflict_elsewhere by (auto simp: row_fits_def)

lemma google_account_cases:
  assumes "google_account now uid c d = Inr (n, u)"
  obtains (linked) "select_one (\<lambda>u. user_google_id u = g_sub c) (users d) = Some u" "\<not> n"
  | (by_email) v where "select_one (\<lambda>u. user_google_id u = g_sub c) (users d) = None"
      "find_user_by_email (lower (the (g_email c))) d = Some v" "\<not> n"
      "u = fill_profile (g_picture c) (or_else (g_name c) (g_given_name c))
             (v\<lparr>user_google_id := g_sub c\<rparr>)"
  | (fresh) "n" "user_id u = uid" "user_google_id u = g_sub c"
proof (cases "select_one (\<lambda>u. user_google_id u = g_sub c) (users d)")
  case (Some v)
  with assms linked show ?thesis by (simp add: google_account_def Let_def split: if_splits)
next
  case None
  show ?thesis
  proof (cases "find_user_by_email (lower (the (g_email c))) d")
    case (Some v)
    with assms None by_email [OF None Some] show ?thesis
      by (simp add: google_account_def Let_def split: if_splits)
  next
    case N: None
    with assms None fresh show ?thesis
      by (auto simp add: google_account_def Let_def split: if_splits)
  qed
qed

lemma google_account_ok:
  assumes "google_account now uid c d = Inr (n, u)"
  shows "truthy (g_sub c)" "g_email_verified c" "user_google_id u = g_sub c"
    "\<lbrakk>accounts_ok d; uid \<notin> set (map user_id (users d))\<rbrakk> \<Longrightarrow> row_fits d (n, u)"
proof -
  show "truthy (g_sub c)" "g_email_verified c"
    using assms by (auto simp: google_account_def split: if_splits)
  show "user_google_id u = g_sub c"
    using assms by (cases rule: google_account_cases) (auto dest: select_one_Some)
  show "row_fits d (n, u)" if ok: "accounts_ok d" and new: "uid \<notin> set (map user_id (users d))"
    using assms
  proof (cases rule: google_account_cases)
    case linked
    with ok show ?thesis by (auto dest!: select_one_Some intro: row_fits_same_keys)
  next
    case (by_email v)
    then have v: "v \<in> set (users d)" by (auto dest: find_user_by_email_Some)
    have "\<not> user_conflict u w" if "w \<in> set (users d)" "user_id w \<noteq> user_id u" for w
      using conflict_elsewhere [OF ok v, of w] that by_email(1,4)
      by (auto simp: user_conflict_def select_one_None)
    with by_email(3,4) v show ?thesis by (auto simp: row_fits_def)
  next
    case fresh
    with new show ?thesis by (simp add: row_fits_def)
  qed
qed

lemma apple_account_cases:
  assumes "apple_account now uid c name d = Inr (n, u)"
  obtains (linked) "select_one (\<lambda>u. user_apple_id u = a_sub c) (users d) = Some u" "\<not> n"
  | (by_email) v where "select_one (\<lambda>u. user_apple_id u = a_sub c) (users d) = None"
      "find_user_by_email (lower (the (a_email c))) d = Some v" "\<not> n"
      "u = v\<lparr>user_apple_id := a_sub c\<rparr>"
  | (fresh) "n" "user_id u = uid" "user_apple_id u = a_sub c"
proof (cases "select_one (\<lambda>u. user_apple_id u = a_sub c) (users d)")
  case (Some v)
  with assms linked show ?thesis by (simp add: apple_account_def Let_def split: if_splits)
next
  case None
  show ?thesis
  proof (cases "find_user_by_email (lower (the (a_email c))) d")
    case (Some v)
    with assms None by_email [OF None Some] show ?thesis
      by (simp add: apple_account_def Let_def split: if_splits)
  next
    case N: None
    with assms None fresh show ?thesis
      by (auto simp add: apple_account_def Let_def split: if_splits)
  qed
qed

lemma apple_account_ok:
  assumes "apple_account now uid c name d = Inr (n, u)"
  shows "truthy (a_sub c)" "user_apple_id u = a_sub c"
    "\<lbrakk>accounts_ok d; uid \<notin> set (map user_id (users d))\<rbrakk> \<Longrightarrow> row_fits d (n, u)"
proof -
  show "truthy (a_sub c)"
    using assms by (auto simp: apple_account_def split: if_splits)
  show "user_apple_id u = a_sub c"
    using assms by (cases rule: apple_account_cases) (auto dest: select_one_Some)
  show "row_fits d (n, u)" if ok: "accounts_ok d" and new: "uid \<notin> set (map user_id (users d))"
    using assms
  proof (cases rule: apple_account_cases)
    case linked
    with ok show ?thesis by (auto dest!: select_one_Some intro: row_fits_same_keys)
  next
    case (by_email v)
    then have v: "v \<in> set (users d)" by (auto dest: find_user_by_email_Some)
    have "\<not> user_conflict u w" if "w \<in> set (users d)" "user_id w \<noteq> user_id u" for w
      using conflict_elsewhere [OF ok v, of w] that by_email(1,4)
      by (auto simp: user_conflict_def select_one_None)
    with by_email(3,4) v show ?thesis by (auto simp: row_fits_def)
  next
    case fresh
    with new show ?thesis by (simp add: row_fits_def)
  qed
qed

lemma telegram_account_ok:
  assumes "telegram_account now uid tid name photo d = (n, u)"
  shows "user_telegram_id u = Some tid"
    "\<lbrakk>accounts_ok d; uid \<notin> set (map user_id (users d))\<rbrakk> \<Longrightarrow> row_fits d (n, u)"
proof -
  show "user_telegram_id u = Some tid"
    using assms by (auto simp: telegram_account_def split: option.splits dest: select_one_Some)
  show "row_fits d (n, u)" if ok: "accounts_ok d" and new: "uid \<notin> set (map user_id (users d))"
  proof (cases "select_one (\<lambda>u. user_telegram_id u = Some tid) (users d)")
    case None
    with assms new show ?thesis by (auto simp: telegram_account_def row_fits_def)
  next
    case (Some v)
    with assms have "\<not> n" "u = fill_profile photo name v" by (simp_all add: telegram_account_def)
    moreover have "v \<in> set (users d)" using Some by (auto dest: select_one_Some)
    ultimately show ?thesis
      using row_fits_same_keys [OF ok, of v u] by (simp add: user_conflict_def)
  qed
qed

lemma row_fits_fill_profile: "row_fits d (n, u) \<Longrightarrow> row_fits d (n, fill_profile p m u)"
  by (simp add: row_fits_def user_conflict_def)

section \<open>Reset links and nonces are single use\<close>

datatype reset_event =
    ResetRequest datetime uuid string string
  | ResetUse datetime string string

fun reset_event_op ::
    "(string \<Rightarrow> string) \<Rightarrow> (string \<Rightarrow> string) \<Rightarrow> settings \<Rightarrow> reset_event \<Rightarrow> db \<Rightarrow>
     (string \<times> unit) option \<times> db" where
  "reset_event_op h hp cfg (ResetRequest now rid raw email) d =
     (None, snd (request_password_reset h cfg now rid raw email d))"
| "reset_event_op h hp cfg (ResetUse now token pw) d =
     (case reset_password h hp now token pw d of
        Inl _ \<Rightarrow> (None, d)
      | Inr d' \<Rightarrow> (Some (h token, ()), d'))"

definition reset_tokens_ok :: "db \<Rightarrow> bool" where
  "reset_tokens_ok d \<longleftrightarrow> distinct (map reset_token_hash (password_reset_tokens d))"

definition reset_spent :: "string \<Rightarrow> db \<Rightarrow> bool" where
  "reset_spent c d \<longleftrightarrow>
     \<not> exists_row (\<lambda>t. reset_token_hash t = c \<and> reset_used_at t = None) (password_reset_tokens d)"

fun reset_issues :: "(string \<Rightarrow> string) \<Rightarrow> string \<Rightarrow> reset_event \<Rightarrow> bool" where
  "reset_issues h c (ResetRequest _ _ raw _) = (h raw = c)"
| "reset_issues h c (ResetUse _ _ _) = False"

lemma reset_password_ok:
  assumes "reset_password h hp now token pw d = Inr d'"
  obtains t u where "select_one (\<lambda>t. reset_token_hash t = h token) (password_reset_tokens d) = Some t"
    "reset_used_at t = None" "now \<le> reset_expires_at t" "find_user (reset_user_id t) d = Some u"
    "user_is_active u" "users d' = users (put_user (u\<lparr>user_password_hash := Some (hp pw)\<rparr>) d)"
    "sessions d' = sessions (revoke_all_user_sessions now (user_id u) d)"
    "password_reset_tokens d' = update_where (\<lambda>r. reset_id r = reset_id t)
       (\<lambda>r. r\<lparr>reset_used_at := Some now\<rparr>) (password_reset_tokens d)"
  using assms
  by (auto simp: reset_password_def Let_def revoke_all_user_sessions_def
      split: option.splits if_splits)

lemma request_password_reset_tokens:
  "password_reset_tokens (snd (request_password_reset h cfg now rid raw email d)) =
     password_reset_tokens d \<or>
   (\<exists>u kept row. find_user_by_email (lower email) d = Some u \<and>
      kept = delete_where (\<lambda>t. reset_user_id t = user_id u) (password_reset_tokens d) \<and>
      reset_token_hash row = h raw \<and> reset_user_id row = user_id u \<and>
      \<not> exists_row (\<lambda>t. reset_token_hash t = h raw) kept \<and>
      password_reset_tokens (snd (request_password_reset h cfg now rid raw email d)) = kept @ [row])"
  by (auto simp: request_password_reset_def Let_def split: option.splits)

lemma reset_spent_use:
  assumes "reset_tokens_ok d" and "reset_password h hp now token pw d = Inr d'"
  shows "\<not> reset_spent (h token) d" and "reset_spent (h token) d'"
    and "reset_spent c d \<Longrightarrow> reset_spent c d'" and "reset_tokens_ok d'"
proof -
  obtain t where t: "t \<in> set (password_reset_tokens d)" "reset_token_hash t = h token"
    "reset_used_at t = None"
    "password_reset_tokens d' = update_where (\<lambda>r. reset_id r = reset_id t)
       (\<lambda>r. r\<lparr>reset_used_at := Some now\<rparr>) (password_reset_tokens d)"
    using assms(2) by (rule reset_password_ok) (auto dest!: select_one_Some)
  then show "\<not> reset_spent (h token) d" by (auto simp: reset_spent_def exists_row_iff)
  have only: "r = t" if "r \<in> set (password_reset_tokens d)" "reset_token_hash r = h token" for r
    using that t assms(1) unfolding reset_tokens_ok_def
    by (metis distinct_map inj_on_eq_iff)
  then show "reset_spent (h token) d'"
    unfolding reset_spent_def t(4) exists_row_update_where by (auto simp: exists_row_iff)
  show "reset_spent c d \<Longrightarrow> reset_spent c d'"
    unfolding reset_spent_def t(4) exists_row_update_where by (auto simp: exists_row_iff split: if_splits)
  show "reset_tokens_ok d'"
    using assms(1) by (simp add: reset_tokens_ok_def t(4) map_update_where)
qed

lemma reset_tokens_ok_request:
  assumes "reset_tokens_ok d"
  shows "reset_tokens_ok (snd (request_password_reset h cfg now rid raw email d))"
  using assms request_password_reset_tokens [of h cfg now rid raw email d]
  unfolding reset_tokens_ok_def
  by (elim disjE exE conjE) (auto simp: exists_row_iff distinct_map_delete)

lemma reset_spent_request:
  assumes "reset_spent c d" and "h raw \<noteq> c"
  shows "reset_spent c (snd (request_password_reset h cfg now rid raw email d))"
  using assms request_password_reset_tokens [of h cfg now rid raw email d]
  by (auto simp: reset_spent_def exists_row_iff)

interpretation reset_link: single_use "reset_event_op h hp cfg" reset_tokens_ok reset_spent
    "reset_issues h" for h hp cfg
proof
  show "\<not> reset_spent c s \<and> reset_spent c s'"
    if "reset_tokens_ok s" "reset_event_op h hp cfg a s = (Some (c, r), s')" for s a c r s'
    using that by (cases a) (auto split: sum.splits dest: reset_spent_use)
  show "reset_spent c s'"
    if "reset_tokens_ok s" "reset_spent c s" "\<not> reset_issues h c a"
      "reset_event_op h hp cfg a s = (x, s')" for s c a x s'
    using that by (cases a) (auto split: sum.splits dest: reset_spent_use reset_spent_request)
  show "reset_tokens_ok s'"
    if "reset_tokens_ok s" "reset_event_op h hp cfg a s = (x, s')" for s a x s'
    using that by (cases a) (auto split: sum.splits dest: reset_spent_use reset_tokens_ok_request)
qed

datatype nonce_event =
    NonceStart datetime uuid string
  | NonceLogin datetime uuid uuid telegram_auth_request "string option" "string option"

fun nonce_event_op ::
    "(string \<Rightarrow> string) \<Rightarrow> (string \<Rightarrow> string) \<Rightarrow> (string \<Rightarrow> string \<Rightarrow> string) \<Rightarrow> (claims \<Rightarrow> 't) \<Rightarrow>
     settings \<Rightarrow> nonce_event \<Rightarrow> db \<Rightarrow> (string \<times> 't) option \<times> db" where
  "nonce_event_op h sha hmac enc cfg (NonceStart now nid raw) d =
     (case start_telegram_auth h cfg now nid raw d of Inl _ \<Rightarrow> (None, d) | Inr (_, d') \<Rightarrow> (None, d'))"
| "nonce_event_op h sha hmac enc cfg (NonceLogin now uid sid r ua g) d =
     (case authenticate_telegram h sha hmac enc cfg now uid sid r ua g d of
        Inl _ \<Rightarrow> (None, d)
      | Inr (_, t, d') \<Rightarrow> (Some (h (tg_nonce r), t), d'))"

text \<open>The row a nonce names is the first with its hash (the column is unique).\<close>

definition nonce_spent :: "string \<Rightarrow> db \<Rightarrow> bool" where
  "nonce_spent c d = (case select_one (\<lambda>r. nonce_nonce_hash r = c) (telegram_auth_nonces d) of
     None \<Rightarrow> False | Some r \<Rightarrow> nonce_status r \<noteq> ''pending'')"

lemma authenticate_telegram_ok:
  assumes "authenticate_telegram h sha hmac enc cfg now uid sid r ua g d = Inr (u, t, d')"
  obtains d1 where "verify_telegram_login_hash sha hmac (telegram_payload r)
      (strip (telegram_bot_token cfg))"
    "\<bar>now div 1000000 - tg_auth_date r\<bar> \<le> telegram_auth_max_age_seconds cfg"
    "consume_telegram_nonce h now (tg_nonce r) d = Inr d1"
    "login_telegram_identity enc cfg now uid sid (string_of_int (tg_id r)) (tg_first_name r)
       (tg_last_name r) (tg_username r) (tg_photo_url r) ua g d1 = Inr (u, t, d')"
  using assms by (auto simp: authenticate_telegram_def split: if_splits sum.splits)

lemma nonce_spent_consume:
  assumes "consume_telegram_nonce h now n d = Inr d1"
  shows "\<not> nonce_spent (h n) d" and "nonce_spent (h n) d1" and "nonce_spent c d \<Longrightarrow> nonce_spent c d1"
  using assms
  by (auto simp: consume_telegram_nonce_def nonce_spent_def select_one_update_keep
      split: option.splits if_splits)

lemma nonce_event_login:
  assumes "authenticate_telegram h sha hmac enc cfg now uid sid r ua g d = Inr (u, t, d')"
  shows "\<not> nonce_spent (h (tg_nonce r)) d" and "nonce_spent (h (tg_nonce r)) d'"
    and "nonce_spent c d \<Longrightarrow> nonce_spent c d'"
proof -
  obtain d1 where d1: "consume_telegram_nonce h now (tg_nonce r) d = Inr d1"
    "login_telegram_identity enc cfg now uid sid (string_of_int (tg_id r)) (tg_first_name r)
       (tg_last_name r) (tg_username r) (tg_photo_url r) ua g d1 = Inr (u, t, d')"
    using assms by (rule authenticate_telegram_ok)
  obtain acc where "finish_sign_in enc cfg now sid ua g acc d1 = Inr (u, t, d')"
    using d1(2) unfolding login_telegram_identity_def by blast
  then have "telegram_auth_nonces d' = telegram_auth_nonces d1"
    by (cases acc) (auto dest: finish_sign_in_ok)
  then show "\<not> nonce_spent (h (tg_nonce r)) d" and "nonce_spent (h (tg_nonce r)) d'"
    and "nonce_spent c d \<Longrightarrow> nonce_spent c d'"
    using nonce_spent_consume [OF d1(1)] by (auto simp: nonce_spent_def)
qed

lemma nonce_spent_start:
  "start_telegram_auth h cfg now nid raw d = Inr (x, d') \<Longrightarrow> nonce_spent c d \<Longrightarrow> nonce_spent c d'"
  by (auto simp: start_telegram_auth_def Let_def nonce_spent_def select_one_append
      split: if_splits option.splits)

interpretation telegram_nonce: single_use "nonce_event_op h sha hmac enc cfg" "\<lambda>_. True" nonce_spent
    "\<lambda>_ _. False" for h sha hmac enc cfg
proof
  show "\<not> nonce_spent c s \<and> nonce_spent c s'"
    if "nonce_event_op h sha hmac enc cfg a s = (Some (c, r), s')" for s a c r s'
    using that by (cases a) (auto split: sum.splits prod.splits dest: nonce_event_login)
  show "nonce_spent c s'"
    if "nonce_spent c s" "nonce_event_op h sha hmac enc cfg a s = (x, s')" for s c a x s'
    using that
    by (cases a) (auto split: sum.splits prod.splits dest: nonce_event_login nonce_spent_start)
qed simp

section \<open>Properties\<close>

text \<open>What opening a session for the account \<open>u\<close> means for the database.\<close>

definition session_opened ::
    "(claims \<Rightarrow> 't) \<Rightarrow> settings \<Rightarrow> datetime \<Rightarrow> uuid \<Rightarrow> user_row \<Rightarrow> 't \<Rightarrow> db \<Rightarrow> db \<Rightarrow> bool" where
  "session_opened enc cfg now sid u t d d' \<longleftrightarrow>
     user_is_active u \<and> u \<in> set (users d') \<and>
     t = create_access_token enc cfg now (user_id u) (user_role u) sid 0 \<and>
     (\<exists>s. sessions d' = sessions d @ [s] \<and> sess_id s = sid \<and> sess_user_id s = user_id u \<and>
          sess_revoked_at s = None \<and>
          sess_expires_at s = now + minutes (access_token_expire_minutes cfg)) \<and>
     (\<forall>v. user_id v \<noteq> user_id u \<longrightarrow> (v \<in> set (users d') \<longleftrightarrow> v \<in> set (users d)))"

lemma session_opened_finish:
  assumes "finish_sign_in enc cfg now sid ua g (n, u) d = Inr (u', t, d')" and "row_fits d (n, u)"
  shows "session_opened enc cfg now sid u' t d d'"
  using finish_sign_in_ok [OF assms(1)] assms(2)
  by (auto simp: session_opened_def row_fits_def in_update_where)

lemma authenticate_google_ok:
  assumes "authenticate_google V enc cfg now uid sid tok ua g d = Inr (u, t, d')"
  obtains c n a where "V tok = Some c" "google_account now uid c d = Inr (n, a)"
    "u = fill_profile (g_picture c) (or_else (g_name c) (g_given_name c)) a"
    "finish_sign_in enc cfg now sid ua g (n, u) d = Inr (u, t, d')"
  using assms finish_sign_in_ok(1)
  by (fastforce simp: authenticate_google_def verify_google_id_token_def
      split: sum.splits option.splits if_splits)

lemma authenticate_apple_ok:
  assumes "authenticate_apple V sha enc cfg now uid sid tok nonce name ua g d = Inr (u, t, d')"
  obtains c n a m m' where "V tok = Some c" "apple_account now uid c m d = Inr (n, a)"
    "case_option [] id (a_nonce c) = sha nonce" "u = fill_profile None m' a"
    "finish_sign_in enc cfg now sid ua g (n, u) d = Inr (u, t, d')"
proof -
  obtain c where c: "verify_apple_identity_token V sha cfg tok nonce = Inr c"
    using assms by (auto simp: authenticate_apple_def split: sum.splits)
  then have v: "V tok = Some c" "case_option [] id (a_nonce c) = sha nonce"
    by (auto simp: verify_apple_identity_token_def split: option.splits if_splits)
  obtain m n a where a: "apple_account now uid c m d = Inr (n, a)"
    "finish_sign_in enc cfg now sid ua g (n, fill_profile None m a) d = Inr (u, t, d')"
    using assms c by (auto simp: authenticate_apple_def Let_def split: sum.splits)
  have "u = fill_profile None m a" using finish_sign_in_ok(1) [OF a(2)] .
  with that [OF v(1) a(1) v(2)] a(2) show ?thesis by simp
qed

lemma login_telegram_ok:
  assumes "login_telegram_identity enc cfg now uid sid tid f l un ph ua g d = Inr (u, t, d')"
    and "accounts_ok d" and "uid \<notin> set (map user_id (users d))"
  shows "user_telegram_id u = Some tid" "session_opened enc cfg now sid u t d d'" "accounts_ok d'"
    "telegram_bot_logins d' = telegram_bot_logins d"
proof -
  obtain n a where a: "telegram_account now uid tid (telegram_display_name f l un) ph d = (n, a)"
    by (cases "telegram_account now uid tid (telegram_display_name f l un) ph d")
  note fin = assms(1) [unfolded login_telegram_identity_def a]
  note fits = telegram_account_ok(2) [OF a assms(2,3)]
  show "user_telegram_id u = Some tid"
    using finish_sign_in_ok(1) [OF fin] telegram_account_ok(1) [OF a] by simp
  show "session_opened enc cfg now sid u t d d'" by (rule session_opened_finish [OF fin fits])
  show "accounts_ok d'" by (rule accounts_ok_finish [OF fin assms(2) fits])
  show "telegram_bot_logins d' = telegram_bot_logins d" by (rule finish_sign_in_ok(7) [OF fin])
qed

lemma google_sign_in:
  assumes "accounts_ok d" and "uid \<notin> set (map user_id (users d))"
    and "authenticate_google V enc cfg now uid sid tok ua g d = Inr (u, t, d')"
  shows "\<exists>c. V tok = Some c \<and> g_email_verified c \<and> truthy (g_sub c) \<and> user_google_id u = g_sub c \<and>
      session_opened enc cfg now sid u t d d' \<and> accounts_ok d'"
  using assms(3)
proof (rule authenticate_google_ok)
  fix c n a
  assume a: "V tok = Some c" "google_account now uid c d = Inr (n, a)"
    "u = fill_profile (g_picture c) (or_else (g_name c) (g_given_name c)) a"
    "finish_sign_in enc cfg now sid ua g (n, u) d = Inr (u, t, d')"
  have fits: "row_fits d (n, u)"
    unfolding a(3) by (rule row_fits_fill_profile [OF google_account_ok(4) [OF a(2) assms(1,2)]])
  show ?thesis
    using session_opened_finish [OF a(4) fits] accounts_ok_finish [OF a(4) assms(1) fits]
      google_account_ok(1-3) [OF a(2)] a(1,3) by simp
qed

lemma apple_sign_in:
  assumes "accounts_ok d" and "uid \<notin> set (map user_id (users d))"
    and "authenticate_apple W sha enc cfg now uid sid tok nonce name ua g d = Inr (u, t, d')"
  shows "\<exists>c. W tok = Some c \<and> case_option [] id (a_nonce c) = sha nonce \<and> truthy (a_sub c) \<and>
      user_apple_id u = a_sub c \<and> session_opened enc cfg now sid u t d d' \<and> accounts_ok d'"
  using assms(3)
proof (rule authenticate_apple_ok)
  fix c n a m m'
  assume a: "W tok = Some c" "apple_account now uid c m d = Inr (n, a)"
    "case_option [] id (a_nonce c) = sha nonce" "u = fill_profile None m' a"
    "finish_sign_in enc cfg now sid ua g (n, u) d = Inr (u, t, d')"
  have fits: "row_fits d (n, u)"
    unfolding a(4) by (rule row_fits_fill_profile [OF apple_account_ok(3) [OF a(2) assms(1,2)]])
  show ?thesis
    using session_opened_finish [OF a(5) fits] accounts_ok_finish [OF a(5) assms(1) fits]
      apple_account_ok(1,2) [OF a(2)] a(1,3,4) by simp
qed

lemma telegram_sign_in:
  assumes "accounts_ok d" and "uid \<notin> set (map user_id (users d))"
    and "authenticate_telegram h sha hm enc cfg now uid sid r ua g d = Inr (u, t, d')"
  shows "verify_telegram_login_hash sha hm (telegram_payload r) (strip (telegram_bot_token cfg)) \<and>
      \<not> nonce_spent (h (tg_nonce r)) d \<and> user_telegram_id u = Some (string_of_int (tg_id r)) \<and>
      session_opened enc cfg now sid u t d d' \<and> accounts_ok d'"
  using assms(3)
proof (rule authenticate_telegram_ok)
  fix d1
  assume a: "verify_telegram_login_hash sha hm (telegram_payload r) (strip (telegram_bot_token cfg))"
    "consume_telegram_nonce h now (tg_nonce r) d = Inr d1"
    "login_telegram_identity enc cfg now uid sid (string_of_int (tg_id r)) (tg_first_name r)
       (tg_last_name r) (tg_username r) (tg_photo_url r) ua g d1 = Inr (u, t, d')"
  have f: "users d1 = users d" "sessions d1 = sessions d"
    using a(2) by (auto simp: consume_telegram_nonce_def split: option.splits if_splits)
  then have "accounts_ok d1" "uid \<notin> set (map user_id (users d1))"
    using assms(1,2) by (simp_all add: accounts_ok_def)
  from login_telegram_ok(1-3) [OF a(3) this] f a(1) nonce_spent_consume(1) [OF a(2)]
  show ?thesis by (simp add: session_opened_def)
qed

lemma accounts_ok_register:
  assumes "accounts_ok d" and "uid \<notin> set (map user_id (users d))"
    and "register_user hp now uid email pw name g d = Inr (u, d')"
  shows "accounts_ok d'"
proof -
  from assms(3) have "user_id u = uid" "\<not> exists_row (user_conflict u) (users d)"
    "users d' = users d @ [u]"
    by (auto simp: register_user_def Let_def ok_iff split: if_splits sum.splits)
  with accounts_ok_insert [OF assms(1)] assms(2) show ?thesis by simp
qed

lemma accounts_ok_password_login:
  assumes "accounts_ok d" and "authenticate_user vp enc cfg now sid email pw ua g d = Inr (u, t, d')"
  shows "accounts_ok d'"
proof -
  from assms(2) have "users d' = users d"
    by (auto simp: authenticate_user_def ok_iff split: option.splits if_splits sum.splits)
  with assms(1) show ?thesis by (simp add: accounts_ok_def)
qed

lemma accounts_ok_reset:
  assumes "accounts_ok d" and "reset_password h hp now token pw d = Inr d'"
  shows "accounts_ok d'"
proof -
  obtain u where u: "u \<in> set (users d)" "users d' = users (put_user (u\<lparr>user_password_hash := Some (hp pw)\<rparr>) d)"
    using assms(2) by (rule reset_password_ok) (auto simp: find_user_def dest!: select_one_Some)
  show ?thesis
    by (rule accounts_ok_update [OF assms(1) u(2)])
      (use conflict_elsewhere [OF assms(1) u(1)] in \<open>auto simp: user_conflict_def\<close>)
qed

lemma reset_password_effect:
  assumes "reset_password h hp now token pw d = Inr d'"
  shows "\<exists>u \<in> set (users d). user_is_active u \<and>
     u\<lparr>user_password_hash := Some (hp pw)\<rparr> \<in> set (users d') \<and>
     (\<forall>t. count_active_sessions d' (user_id u) t = 0) \<and>
     (\<forall>v. user_id v \<noteq> user_id u \<longrightarrow> (v \<in> set (users d') \<longleftrightarrow> v \<in> set (users d))) \<and>
     (\<forall>s. sess_user_id s \<noteq> user_id u \<longrightarrow> (s \<in> set (sessions d') \<longleftrightarrow> s \<in> set (sessions d)))"
  using assms
proof (rule reset_password_ok)
  fix u t
  assume a: "find_user (reset_user_id t) d = Some u" "user_is_active u"
    "users d' = users (put_user (u\<lparr>user_password_hash := Some (hp pw)\<rparr>) d)"
    "sessions d' = sessions (revoke_all_user_sessions now (user_id u) d)"
  have u: "u \<in> set (users d)" using a(1) by (auto simp: find_user_def dest: select_one_Some)
  have "count_active_sessions d' (user_id u) t = 0" for t
    using count_active_revoke_all [of now "user_id u" d "user_id u" t] a(4)
    by (simp add: count_active_sessions_def)
  moreover have "s \<in> set (sessions d') \<longleftrightarrow> s \<in> set (sessions d)" if "sess_user_id s \<noteq> user_id u" for s
    using that by (auto simp: a(4) revoke_all_user_sessions_def in_update_where)
  moreover have "v \<in> set (users d') \<longleftrightarrow> v \<in> set (users d)" if "user_id v \<noteq> user_id u" for v
    using that by (auto simp: a(3) in_update_where)
  moreover have "u\<lparr>user_password_hash := Some (hp pw)\<rparr> \<in> set (users d')"
    using u by (auto simp: a(3) in_update_where)
  ultimately show ?thesis using u a(2) by blast
qed

lemmas provider_sign_in = google_sign_in apple_sign_in telegram_sign_in

lemma sign_in_identity_facts:
  assumes "accounts_ok d" and "uid \<notin> set (map user_id (users d))"
  shows "authenticate_google V enc cfg now uid sid tok ua g d = Inr (u, t, d') \<Longrightarrow>
      \<exists>c. V tok = Some c \<and> g_email_verified c \<and> truthy (g_sub c) \<and> user_google_id u = g_sub c \<and>
          session_opened enc cfg now sid u t d d'"
    and "authenticate_apple W sha enc cfg now uid sid tok nonce name ua g d = Inr (u, t, d') \<Longrightarrow>
      \<exists>c. W tok = Some c \<and> case_option [] id (a_nonce c) = sha nonce \<and> truthy (a_sub c) \<and>
          user_apple_id u = a_sub c \<and> session_opened enc cfg now sid u t d d'"
    and "authenticate_telegram h sha hm enc cfg now uid sid r ua g d = Inr (u, t, d') \<Longrightarrow>
      verify_telegram_login_hash sha hm (telegram_payload r) (strip (telegram_bot_token cfg)) \<and>
      \<not> nonce_spent (h (tg_nonce r)) d \<and> user_telegram_id u = Some (string_of_int (tg_id r)) \<and>
      session_opened enc cfg now sid u t d d'"
  by (drule provider_sign_in [OF assms], blast)+

text \<open>
  C27: An identity-provider login opens a session for the account of that identity and no other.
  With Google, Apple or Telegram, success means the provider vouched for the identity (for Google,
  with a verified email), the account returned carries exactly that identity, it is active, one
  session of it is added, and every other account is unchanged.
\<close>

theorem sign_in_identity:
  assumes "accounts_ok d" and "uid \<notin> set (map user_id (users d))"
  shows "(authenticate_google V enc cfg now uid sid tok ua g d = Inr (u, t, d') \<longrightarrow>
      (\<exists>c. V tok = Some c \<and> g_email_verified c \<and> truthy (g_sub c) \<and> user_google_id u = g_sub c \<and>
      session_opened enc cfg now sid u t d d')) \<and>
     (authenticate_apple W sha enc cfg now uid sid tok nonce name ua g d = Inr (u, t, d') \<longrightarrow>
      (\<exists>c. W tok = Some c \<and> case_option [] id (a_nonce c) = sha nonce \<and> truthy (a_sub c) \<and>
      user_apple_id u = a_sub c \<and> session_opened enc cfg now sid u t d d')) \<and>
     (authenticate_telegram h sha hm enc cfg now uid sid r ua g d = Inr (u, t, d') \<longrightarrow>
      verify_telegram_login_hash sha hm (telegram_payload r) (strip (telegram_bot_token cfg)) \<and>
      \<not> nonce_spent (h (tg_nonce r)) d \<and> user_telegram_id u = Some (string_of_int (tg_id r)) \<and>
      session_opened enc cfg now sid u t d d')"
  by (rule conjI, rule impI, erule sign_in_identity_facts(1) [OF assms], rule conjI, rule impI,
      erule sign_in_identity_facts(2) [OF assms], rule impI, erule sign_in_identity_facts(3) [OF assms])

definition sample_google :: google_claims where
  "sample_google = \<lparr>g_sub = Some ''g1'', g_email = Some ''Ann@x.io'', g_email_verified = True,
     g_name = Some ''Ann'', g_given_name = None, g_picture = None\<rparr>"

definition google_cfg :: settings where
  "google_cfg = default_settings\<lparr>google_client_id := ''client''\<rparr>"

lemma sample_google_login:
  "\<exists>u t d'. authenticate_google (\<lambda>_. Some sample_google) id google_cfg 0 1 2 ''tok'' None None empty_db =
     Inr (u, t, d') \<and> user_google_id u = Some ''g1''"
  by (simp add: authenticate_google_def verify_google_id_token_def google_cfg_def sample_google_def
      google_account_def Let_def find_user_by_email_def finish_sign_in_def default_user_def
      insert_user_def fill_profile_def create_session_def find_user_def claim_guest_purchases_def claim_rows_def
      count_active_sessions_def default_settings_def)

theorem sign_in_identity_witness:
  "\<exists>u t d'. authenticate_google (\<lambda>_. Some sample_google) id google_cfg 0 1 2 ''tok'' None None empty_db =
     Inr (u, t, d') \<and> session_opened id google_cfg 0 2 u t empty_db d'"
proof -
  obtain u t d' where l: "authenticate_google (\<lambda>_. Some sample_google) id google_cfg 0 1 2 ''tok''
      None None empty_db = Inr (u, t, d')" using sample_google_login by blast
  have "accounts_ok empty_db" and "1 \<notin> set (map user_id (users empty_db))"
    by (simp_all add: accounts_ok_def)
  from sign_in_identity [THEN conjunct1, rule_format (no_asm), OF this l] l show ?thesis by blast
qed

lemma accounts_stay_unique_facts:
  assumes "accounts_ok d" and "uid \<notin> set (map user_id (users d))"
  shows "register_user hp now uid email pw name g d = Inr (u, d') \<Longrightarrow> accounts_ok d'"
    and "authenticate_user vp enc cfg now sid email pw ua g d = Inr (u, t, d') \<Longrightarrow> accounts_ok d'"
    and "authenticate_google V enc cfg now uid sid tok ua g d = Inr (u, t, d') \<Longrightarrow> accounts_ok d'"
    and "authenticate_apple W sha enc cfg now uid sid tok nonce name ua g d = Inr (u, t, d') \<Longrightarrow>
         accounts_ok d'"
    and "authenticate_telegram h sha hm enc cfg now uid sid r ua g d = Inr (u, t, d') \<Longrightarrow> accounts_ok d'"
    and "reset_password h hp now token pw d = Inr d' \<Longrightarrow> accounts_ok d'"
  by (erule accounts_ok_register [OF assms] accounts_ok_password_login [OF assms(1)]
        accounts_ok_reset [OF assms(1)]
      | drule provider_sign_in [OF assms], blast)+

text \<open>
  No two accounts ever share an id, an email or a provider identity. Registration, the four
  kinds of login and a password reset all keep the unique columns of \<open>users\<close> unique, including the
  logins that link an identity to an account found by email.
\<close>

theorem accounts_stay_unique:
  assumes "accounts_ok d" and "uid \<notin> set (map user_id (users d))"
  shows "(register_user hp now uid email pw name g d = Inr (u, d') \<longrightarrow> accounts_ok d') \<and>
     (authenticate_user vp enc cfg now sid email pw ua g d = Inr (u, t, d') \<longrightarrow> accounts_ok d') \<and>
     (authenticate_google V enc cfg now uid sid tok ua g d = Inr (u, t, d') \<longrightarrow> accounts_ok d') \<and>
     (authenticate_apple W sha enc cfg now uid sid tok nonce name ua g d = Inr (u, t, d') \<longrightarrow>
      accounts_ok d') \<and>
     (authenticate_telegram h sha hm enc cfg now uid sid r ua g d = Inr (u, t, d') \<longrightarrow>
      accounts_ok d') \<and>
     (reset_password h hp now token pw d = Inr d' \<longrightarrow> accounts_ok d')"
  by (intro conjI impI) (erule accounts_stay_unique_facts [OF assms])+

theorem accounts_stay_unique_witness:
  "\<exists>u t d'. authenticate_google (\<lambda>_. Some sample_google) id google_cfg 0 1 2 ''tok'' None None empty_db =
     Inr (u, t, d') \<and> accounts_ok d'"
proof -
  obtain u t d' where l: "authenticate_google (\<lambda>_. Some sample_google) id google_cfg 0 1 2 ''tok''
      None None empty_db = Inr (u, t, d')" using sample_google_login by blast
  have "accounts_ok empty_db" and "1 \<notin> set (map user_id (users empty_db))"
    by (simp_all add: accounts_ok_def)
  from accounts_stay_unique [THEN conjunct2, THEN conjunct2, THEN conjunct1, rule_format (no_asm), OF this l] l show ?thesis by blast
qed

lemma reset_password_takeover_facts:
  assumes "reset_tokens_ok d"
  shows "reset_password h hp now token pw d = Inr d' \<Longrightarrow>
      \<not> reset_spent (h token) d \<and> reset_spent (h token) d' \<and>
      (\<exists>u \<in> set (users d). user_is_active u \<and>
         u\<lparr>user_password_hash := Some (hp pw)\<rparr> \<in> set (users d') \<and>
         (\<forall>t. count_active_sessions d' (user_id u) t = 0) \<and>
         (\<forall>v. user_id v \<noteq> user_id u \<longrightarrow> (v \<in> set (users d') \<longleftrightarrow> v \<in> set (users d))) \<and>
         (\<forall>s. sess_user_id s \<noteq> user_id u \<longrightarrow> (s \<in> set (sessions d') \<longleftrightarrow> s \<in> set (sessions d))))"
    and "\<forall>e \<in> set events. \<not> reset_issues h c e \<Longrightarrow>
      length (filter (\<lambda>x. fst x = c) (outcomes (reset_event_op h hp cfg) events d)) \<le> 1"
proof -
  show "\<not> reset_spent (h token) d \<and> reset_spent (h token) d' \<and>
      (\<exists>u \<in> set (users d). user_is_active u \<and>
         u\<lparr>user_password_hash := Some (hp pw)\<rparr> \<in> set (users d') \<and>
         (\<forall>t. count_active_sessions d' (user_id u) t = 0) \<and>
         (\<forall>v. user_id v \<noteq> user_id u \<longrightarrow> (v \<in> set (users d') \<longleftrightarrow> v \<in> set (users d))) \<and>
         (\<forall>s. sess_user_id s \<noteq> user_id u \<longrightarrow> (s \<in> set (sessions d') \<longleftrightarrow> s \<in> set (sessions d))))"
    if "reset_password h hp now token pw d = Inr d'"
    using reset_password_effect [OF that] reset_spent_use(1,2) [OF assms that] by blast
  show "length (filter (\<lambda>x. fst x = c) (outcomes (reset_event_op h hp cfg) events d)) \<le> 1"
    if "\<forall>e \<in> set events. \<not> reset_issues h c e"
    by (rule reset_link.at_most_once [OF assms that])
qed


definition reset_db :: db where
  "reset_db = one_session_db\<lparr>password_reset_tokens :=
     [\<lparr>reset_id = 1, reset_user_id = 7, reset_token_hash = ''tok'', reset_expires_at = 10,
       reset_used_at = None\<rparr>]\<rparr>"

lemma reset_db_simps [simp]:
  "sessions reset_db = [one_session]" "users reset_db = [default_user\<lparr>user_id := 7\<rparr>]"
  "password_reset_tokens reset_db = [\<lparr>reset_id = 1, reset_user_id = 7, reset_token_hash = ''tok'',
       reset_expires_at = 10, reset_used_at = None\<rparr>]"
  by (simp_all add: reset_db_def one_session_db_def one_user_db_def)

lemma reset_db_redeem: "\<exists>d'. reset_password id id 5 ''tok'' ''pw'' reset_db = Inr d'"
  by (simp add: reset_password_def Let_def find_user_def default_user_def)


text \<open>Two rows with the same index entry cannot both be in the table.\<close>

lemma not_distinct_concat:
  "x \<in> set xs \<Longrightarrow> y \<in> set xs \<Longrightarrow> x \<noteq> y \<Longrightarrow> k \<in> set (f x) \<Longrightarrow> k \<in> set (f y) \<Longrightarrow>
   \<not> distinct (concat (map f xs))"
  by (induction xs) auto

lemma claim_conflict:
  assumes "p \<in> set (payment_intents d)" and "q \<in> set (payment_intents d)"
    and "pi_intent_id p \<noteq> pi_intent_id q" and "pi_user_id p = Some uid" and "pi_guest_id p = None"
    and "pi_guest_id q = Some g" and "g \<noteq> []" and "pi_content_id p = Some c" and "pi_content_id q = Some c"
    and "\<forall>r \<in> {p, q}. pi_status r = ''pending'' \<and> pi_method r = ''bakong'' \<and> pi_kind r = ''single''"
  shows "claim_guest_purchases uid (Some g) d = Inl IntegrityError"
proof -
  let ?q = "q\<lparr>pi_user_id := Some uid, pi_guest_id := None\<rparr>"
  let ?rows = "payment_intents (claim_rows uid (Some g) d)"
  have t: "truthy (Some g)" using assms(7) by (cases g) simp_all
  then have rows: "?rows = update_where (\<lambda>p. pi_guest_id p = Some g)
      (\<lambda>p. p\<lparr>pi_user_id := Some uid, pi_guest_id := None\<rparr>) (payment_intents d)"
    by (simp add: claim_rows_def)
  have "p \<in> set ?rows" unfolding rows by (rule update_where_miss) (use assms in simp_all)
  moreover have "?q \<in> set ?rows" unfolding rows by (rule update_where_hit) (use assms in simp_all)
  moreover have "p \<noteq> ?q"
  proof
    assume "p = ?q"
    then have "pi_intent_id p = pi_intent_id ?q" by (rule arg_cong)
    with assms(3) show False by simp
  qed
  moreover have "MovieUser uid c \<in> set (pending_keys p)" "MovieUser uid c \<in> set (pending_keys ?q)"
    using assms by (auto simp: pending_keys_def pair_key_def)
  ultimately have "\<not> pending_unique ?rows" unfolding pending_unique_def by (rule not_distinct_concat)
  with t show ?thesis by (simp add: claim_guest_purchases_def Let_def)
qed

lemma guest_checkout_blocks_login_facts:
  assumes "p \<in> set (payment_intents d)" and "q \<in> set (payment_intents d)"
    and "pi_intent_id p \<noteq> pi_intent_id q" and "pi_user_id p = Some (user_id u)" and "pi_guest_id p = None"
    and "pi_guest_id q = Some g" and "g \<noteq> []" and "pi_content_id p = Some c" and "pi_content_id q = Some c"
    and "\<forall>r \<in> {p, q}. pi_status r = ''pending'' \<and> pi_method r = ''bakong'' \<and> pi_kind r = ''single''"
    and "user_is_active u"
  shows "\<lbrakk>find_user_by_email (lower email) d = Some u; user_password_hash u = Some (a # h); vp pw (a # h)\<rbrakk> \<Longrightarrow>
      authenticate_user vp enc cfg now sid email pw ua (Some g) d = Inl IntegrityError"
    and "finish_sign_in enc cfg now sid ua (Some g) (False, u) d = Inl IntegrityError"
proof -
  have conflict: "claim_guest_purchases (user_id u) (Some g) d = Inl IntegrityError"
    by (rule claim_conflict [OF assms(1-10)])
  then show "authenticate_user vp enc cfg now sid email pw ua (Some g) d = Inl IntegrityError"
    if "find_user_by_email (lower email) d = Some u" "user_password_hash u = Some (a # h)" "vp pw (a # h)"
    using that assms(11) by (simp add: authenticate_user_def)
  have "payment_intents (put_user u d) = payment_intents d" by (simp add: put_user_def)
  then have "claim_guest_purchases (user_id u) (Some g) (put_user u d) = Inl IntegrityError"
    using claim_conflict [of p "put_user u d" q] assms(1-10) by simp
  then show "finish_sign_in enc cfg now sid ua (Some g) (False, u) d = Inl IntegrityError"
    using assms(11) by (simp add: finish_sign_in_def)
qed

text \<open>
  A checkout left open as a guest locks the account out. If the account has a pending Bakong
  checkout for a movie and the guest id presented at login has one for the same movie, moving the
  guest's rows violates the unique index on pending checkouts: the login fails with an
  \<open>IntegrityError\<close>, for a correct password and for every identity provider that finds the account,
  and nothing is committed, so it fails again the next time.
\<close>

theorem guest_checkout_blocks_login:
  assumes "p \<in> set (payment_intents d)" and "q \<in> set (payment_intents d)"
    and "pi_intent_id p \<noteq> pi_intent_id q" and "pi_user_id p = Some (user_id u)" and "pi_guest_id p = None"
    and "pi_guest_id q = Some g" and "g \<noteq> []" and "pi_content_id p = Some c" and "pi_content_id q = Some c"
    and "\<forall>r \<in> {p, q}. pi_status r = ''pending'' \<and> pi_method r = ''bakong'' \<and> pi_kind r = ''single''"
    and "user_is_active u"
  shows "(find_user_by_email (lower email) d = Some u \<longrightarrow> user_password_hash u = Some (a # h) \<longrightarrow> vp pw (a # h) \<longrightarrow>
      authenticate_user vp enc cfg now sid email pw ua (Some g) d = Inl IntegrityError) \<and>
     (finish_sign_in enc cfg now sid ua (Some g) (False, u) d = Inl IntegrityError)"
  using guest_checkout_blocks_login_facts [OF assms] by blast

definition open_checkout :: intent_row where
  "open_checkout = default_intent\<lparr>pi_intent_id := ''i1'', pi_user_id := Some 7, pi_method := ''bakong'',
     pi_kind := ''single'', pi_content_id := Some 3\<rparr>"

definition locked_out_user :: user_row where
  "locked_out_user = default_user\<lparr>user_id := 7, user_email := ''a@x.io'',
     user_password_hash := Some ''pw''\<rparr>"

definition locked_out_db :: db where
  "locked_out_db = empty_db\<lparr>users := [locked_out_user], payment_intents := [open_checkout,
     open_checkout\<lparr>pi_intent_id := ''i2'', pi_user_id := None, pi_guest_id := Some ''g''\<rparr>]\<rparr>"

theorem guest_checkout_blocks_login_witness:
  "authenticate_user (=) id default_settings 0 9 ''A@x.io'' ''pw'' None (Some ''g'') locked_out_db =
     Inl IntegrityError"
proof -
  have "lower ''A@x.io'' = ''a@x.io''" by code_simp
  then show ?thesis
    by (intro guest_checkout_blocks_login [THEN conjunct1, rule_format (no_asm), where p = open_checkout and c = 3 and
          u = locked_out_user and
          q = "open_checkout\<lparr>pi_intent_id := ''i2'', pi_user_id := None, pi_guest_id := Some ''g''\<rparr>"])
      (simp_all add: locked_out_db_def open_checkout_def locked_out_user_def default_intent_def
      default_user_def find_user_by_email_def)
qed

end
