(* ===== verification/Pairing.thy ===== *)
theory Pairing
  imports Accounts
begin

text \<open>
  \<open>app/services/device_pairing.py\<close>: a TV shows a code, a signed-in phone confirms it, the TV polls
  the session token exactly once. A code is stored only as its hash; \<open>hash_token\<close> is SHA-256.
\<close>

definition start_pairing ::
    "(string \<Rightarrow> string) \<Rightarrow> settings \<Rightarrow> datetime \<Rightarrow> uuid \<Rightarrow> string \<Rightarrow> db \<Rightarrow> ((string \<times> int) \<times> db) result" where
  "start_pairing hash_token cfg now pid raw_code d =
     (if exists_row (\<lambda>p. pair_code_hash p = hash_token raw_code \<or> pair_id p = pid)
           (device_pairing_codes d)
      then Inl IntegrityError
      else Inr ((raw_code, device_pairing_code_expire_minutes cfg * 60),
        d\<lparr>device_pairing_codes := device_pairing_codes d @
           [\<lparr>pair_id = pid, pair_code_hash = hash_token raw_code, pair_status = ''pending'',
             pair_token = None, pair_user_id = None,
             pair_expires_at = now + minutes (device_pairing_code_expire_minutes cfg)\<rparr>]\<rparr>))"

definition find_pending_or_confirmed ::
    "(string \<Rightarrow> string) \<Rightarrow> datetime \<Rightarrow> string \<Rightarrow> db \<Rightarrow> pairing_row result" where
  "find_pending_or_confirmed hash_token now raw_code d =
     (case select_one (\<lambda>p. pair_code_hash p = hash_token raw_code) (device_pairing_codes d) of
        None \<Rightarrow> Inl (NotFoundError ''This code has expired.'')
      | Some p \<Rightarrow>
        if pair_expires_at p < now \<or> pair_status p \<notin> {''pending'', ''confirmed''}
        then Inl (NotFoundError ''This code has expired.'')
        else Inr p)"

definition set_pairing :: "uuid \<Rightarrow> (pairing_row \<Rightarrow> pairing_row) \<Rightarrow> db \<Rightarrow> db" where
  "set_pairing pid f d =
     d\<lparr>device_pairing_codes := update_where (\<lambda>p. pair_id p = pid) f (device_pairing_codes d)\<rparr>"

definition confirm_pairing ::
    "(string \<Rightarrow> string) \<Rightarrow> (claims \<Rightarrow> string) \<Rightarrow> settings \<Rightarrow> datetime \<Rightarrow> uuid \<Rightarrow> string \<Rightarrow> user_row \<Rightarrow>
     string option \<Rightarrow> db \<Rightarrow> db result" where
  "confirm_pairing hash_token encode cfg now sid raw_code user user_agent d =
     (case find_pending_or_confirmed hash_token now raw_code d of
        Inl e \<Rightarrow> Inl e
      | Inr p \<Rightarrow>
        if pair_status p \<noteq> ''pending'' then Inl (NotFoundError ''This code has expired.'')
        else (case create_session cfg now sid (user_id user) user_agent d of
                Inl e \<Rightarrow> Inl e
              | Inr (s, d1) \<Rightarrow>
                  Inr (set_pairing (pair_id p)
                         (\<lambda>p. p\<lparr>pair_token := Some (create_access_token encode cfg now (user_id user)
                                                     (user_role user) (sess_id s) 0),
                               pair_user_id := Some (user_id user),
                               pair_status := ''confirmed''\<rparr>) d1)))"

datatype poll_reply = PollPending | PollConfirmed "string option"

definition poll_pairing ::
    "(string \<Rightarrow> string) \<Rightarrow> datetime \<Rightarrow> string \<Rightarrow> db \<Rightarrow> poll_reply result \<times> db" where
  "poll_pairing hash_token now raw_code d =
     (case find_pending_or_confirmed hash_token now raw_code d of
        Inl e \<Rightarrow> (Inl e, d)
      | Inr p \<Rightarrow>
        if pair_status p = ''pending'' then (Inr PollPending, d)
        else (Inr (PollConfirmed (pair_token p)),
              set_pairing (pair_id p) (\<lambda>p. p\<lparr>pair_status := ''expired'', pair_token := None\<rparr>) d))"

section \<open>The flow as events\<close>

datatype pairing_event =
    PairStart datetime uuid string
  | PairConfirm datetime uuid string user_row "string option"
  | PairPoll datetime string

fun pairing_op ::
    "(string \<Rightarrow> string) \<Rightarrow> (claims \<Rightarrow> string) \<Rightarrow> settings \<Rightarrow> pairing_event \<Rightarrow> db \<Rightarrow>
     (string \<times> string option) option \<times> db" where
  "pairing_op h enc cfg (PairStart now pid raw) d =
     (case start_pairing h cfg now pid raw d of Inl _ \<Rightarrow> (None, d) | Inr (_, d') \<Rightarrow> (None, d'))"
| "pairing_op h enc cfg (PairConfirm now sid raw u ua) d =
     (case confirm_pairing h enc cfg now sid raw u ua d of Inl _ \<Rightarrow> (None, d) | Inr d' \<Rightarrow> (None, d'))"
| "pairing_op h enc cfg (PairPoll now raw) d =
     (case poll_pairing h now raw d of
        (Inr (PollConfirmed t), d') \<Rightarrow> (Some (h raw, t), d')
      | (_, d') \<Rightarrow> (None, d'))"

lemma pairing_set [simp]:
  "device_pairing_codes (set_pairing pid f d) = update_where (\<lambda>p. pair_id p = pid) f (device_pairing_codes d)"
  "sessions (set_pairing pid f d) = sessions d" "users (set_pairing pid f d) = users d"
  by (simp_all add: set_pairing_def)

lemma find_pending_ok [ok_iff]:
  "find_pending_or_confirmed h now raw d = Inr p \<longleftrightarrow>
   select_one (\<lambda>p. pair_code_hash p = h raw) (device_pairing_codes d) = Some p \<and>
   now \<le> pair_expires_at p \<and> pair_status p \<in> {''pending'', ''confirmed''}"
  by (auto simp: find_pending_or_confirmed_def split: option.splits)

lemma start_pairing_ok:
  assumes "start_pairing h cfg now pid raw d = Inr (x, d')"
  shows "\<exists>p. device_pairing_codes d' = device_pairing_codes d @ [p] \<and> pair_status p = ''pending'' \<and>
      pair_token p = None \<and> pair_user_id p = None" "sessions d' = sessions d"
  using assms by (auto simp: start_pairing_def split: if_splits)

lemma confirm_pairing_ok:
  assumes "confirm_pairing h enc cfg now sid raw u ua d = Inr d'"
  obtains p where
    "select_one (\<lambda>p. pair_code_hash p = h raw) (device_pairing_codes d) = Some p"
    "pair_status p = ''pending''" "now \<le> pair_expires_at p"
    "\<exists>s. sessions d' = sessions d @ [s] \<and> sess_id s = sid \<and> sess_user_id s = user_id u"
    "device_pairing_codes d' = update_where (\<lambda>q. pair_id q = pair_id p)
       (\<lambda>q. q\<lparr>pair_token := Some (create_access_token enc cfg now (user_id u) (user_role u) sid 0),
             pair_user_id := Some (user_id u), pair_status := ''confirmed''\<rparr>)
       (device_pairing_codes d)"
  using assms by (auto simp: confirm_pairing_def ok_iff split: sum.splits if_splits)

lemma poll_pairing_confirmed:
  assumes "poll_pairing h now raw d = (Inr (PollConfirmed t), d')"
  obtains p where
    "select_one (\<lambda>p. pair_code_hash p = h raw) (device_pairing_codes d) = Some p"
    "pair_status p = ''confirmed''" "now \<le> pair_expires_at p" "t = pair_token p"
    "d' = set_pairing (pair_id p) (\<lambda>p. p\<lparr>pair_status := ''expired'', pair_token := None\<rparr>) d"
  using assms by (auto simp: poll_pairing_def ok_iff split: sum.splits if_splits)

lemma poll_pairing_other:
  "poll_pairing h now raw d = (r, d') \<Longrightarrow> \<forall>t. r \<noteq> Inr (PollConfirmed t) \<Longrightarrow> d' = d"
  by (auto simp: poll_pairing_def split: sum.splits if_splits)

section \<open>A code is redeemed once\<close>

text \<open>The row a code names is the first with its hash (the column is unique).\<close>

definition pairing_spent :: "string \<Rightarrow> db \<Rightarrow> bool" where
  "pairing_spent c d = (case select_one (\<lambda>p. pair_code_hash p = c) (device_pairing_codes d) of
     None \<Rightarrow> False | Some p \<Rightarrow> pair_status p = ''expired'')"

definition pairing_ids_ok :: "db \<Rightarrow> bool" where
  "pairing_ids_ok d \<longleftrightarrow> distinct (map pair_id (device_pairing_codes d))"

lemma pairing_spent_poll:
  assumes "poll_pairing h now raw d = (Inr (PollConfirmed t), d')"
  shows "\<not> pairing_spent (h raw) d" "pairing_spent (h raw) d'" "pairing_spent c d \<Longrightarrow> pairing_spent c d'"
  using assms
  by (auto elim!: poll_pairing_confirmed simp: pairing_spent_def select_one_update_keep
      split: option.splits if_splits)

lemma pairing_spent_confirm:
  assumes "confirm_pairing h enc cfg now sid raw u ua d = Inr d'" and "pairing_ids_ok d"
    and "pairing_spent c d"
  shows "pairing_spent c d'"
  using assms(1)
proof (rule confirm_pairing_ok)
  fix p
  assume p: "select_one (\<lambda>p. pair_code_hash p = h raw) (device_pairing_codes d) = Some p"
    "pair_status p = ''pending''"
    "device_pairing_codes d' = update_where (\<lambda>q. pair_id q = pair_id p)
       (\<lambda>q. q\<lparr>pair_token := Some (create_access_token enc cfg now (user_id u) (user_role u) sid 0),
             pair_user_id := Some (user_id u), pair_status := ''confirmed''\<rparr>)
       (device_pairing_codes d)"
  obtain q where q: "select_one (\<lambda>p. pair_code_hash p = c) (device_pairing_codes d) = Some q"
    "pair_status q = ''expired''"
    using assms(3) by (auto simp: pairing_spent_def split: option.splits)
  have "pair_id q \<noteq> pair_id p"
  proof
    assume "pair_id q = pair_id p"
    moreover have "q \<in> set (device_pairing_codes d)" "p \<in> set (device_pairing_codes d)"
      using p(1) q(1) by (auto dest: select_one_Some)
    ultimately have "q = p" using assms(2) unfolding pairing_ids_ok_def
      by (metis distinct_map inj_on_eq_iff)
    with p(2) q(2) show False by simp
  qed
  with q p(3) show ?thesis by (simp add: pairing_spent_def select_one_update_keep)
qed

lemma pairing_spent_start:
  "start_pairing h cfg now pid raw d = Inr (x, d') \<Longrightarrow> pairing_spent c d \<Longrightarrow> pairing_spent c d'"
  by (drule start_pairing_ok(1)) (auto simp: pairing_spent_def select_one_append split: option.splits)

lemma pairing_ids_op:
  assumes "pairing_op h enc cfg e d = (x, d')" and "pairing_ids_ok d"
  shows "pairing_ids_ok d'"
proof (cases e)
  case (PairStart now pid raw)
  with assms show ?thesis
    by (auto simp: start_pairing_def pairing_ids_ok_def exists_row_iff split: if_splits)
next
  case (PairConfirm now sid raw u ua)
  with assms show ?thesis
    by (auto simp: pairing_ids_ok_def map_update_where split: sum.splits elim!: confirm_pairing_ok)
next
  case (PairPoll now raw)
  with assms show ?thesis
    by (auto simp: pairing_ids_ok_def map_update_where poll_pairing_def
        split: sum.splits prod.splits poll_reply.splits if_splits)
qed

interpretation pairing_code: single_use "pairing_op h enc cfg" pairing_ids_ok pairing_spent "\<lambda>_ _. False"
  for h enc cfg
proof
  show "\<not> pairing_spent c s \<and> pairing_spent c s'"
    if "pairing_op h enc cfg a s = (Some (c, r), s')" for s a c r s'
    using that
    by (cases a) (auto split: sum.splits prod.splits poll_reply.splits dest: pairing_spent_poll)
  show "pairing_spent c s'"
    if "pairing_ids_ok s" "pairing_spent c s" "pairing_op h enc cfg a s = (x, s')" for s c a x s'
    using that
    by (cases a) (auto split: sum.splits prod.splits poll_reply.splits
        dest: pairing_spent_poll pairing_spent_confirm pairing_spent_start poll_pairing_other)
  show "pairing_ids_ok s'" if "pairing_ids_ok s" "pairing_op h enc cfg a s = (x, s')" for s a x s'
    by (rule pairing_ids_op [OF that(2,1)])
qed

section \<open>Where the token is\<close>

definition session_token :: "(claims \<Rightarrow> string) \<Rightarrow> settings \<Rightarrow> db \<Rightarrow> uuid \<Rightarrow> string \<Rightarrow> bool" where
  "session_token enc cfg d uid t \<longleftrightarrow> (\<exists>s \<in> set (sessions d). \<exists>now role.
     sess_user_id s = uid \<and> t = create_access_token enc cfg now uid role (sess_id s) 0)"

definition pairing_row_ok :: "(claims \<Rightarrow> string) \<Rightarrow> settings \<Rightarrow> db \<Rightarrow> pairing_row \<Rightarrow> bool" where
  "pairing_row_ok enc cfg d p \<longleftrightarrow>
     pair_status p \<in> {''pending'', ''confirmed'', ''expired''} \<and>
     (pair_token p \<noteq> None \<longleftrightarrow> pair_status p = ''confirmed'') \<and>
     (\<forall>t. pair_token p = Some t \<longrightarrow> (\<exists>uid. pair_user_id p = Some uid \<and> session_token enc cfg d uid t))"

definition pairing_ok :: "(claims \<Rightarrow> string) \<Rightarrow> settings \<Rightarrow> db \<Rightarrow> bool" where
  "pairing_ok enc cfg d \<longleftrightarrow> (\<forall>p \<in> set (device_pairing_codes d). pairing_row_ok enc cfg d p)"

lemma session_token_mono:
  "session_token enc cfg d uid t \<Longrightarrow> set (sessions d) \<subseteq> set (sessions d') \<Longrightarrow> session_token enc cfg d' uid t"
  by (auto simp: session_token_def)

lemma pairing_row_ok_mono:
  "pairing_row_ok enc cfg d p \<Longrightarrow> set (sessions d) \<subseteq> set (sessions d') \<Longrightarrow> pairing_row_ok enc cfg d' p"
  unfolding pairing_row_ok_def using session_token_mono by blast

lemma pairing_ok_update:
  assumes "pairing_ok enc cfg d"
    and "device_pairing_codes d' = update_where P f (device_pairing_codes d)"
    and "set (sessions d) \<subseteq> set (sessions d')"
    and "\<And>q. pairing_row_ok enc cfg d' q \<Longrightarrow> pairing_row_ok enc cfg d' (f q)"
  shows "pairing_ok enc cfg d'"
  unfolding pairing_ok_def assms(2)
proof
  fix p
  assume "p \<in> set (update_where P f (device_pairing_codes d))"
  then obtain q where q: "q \<in> set (device_pairing_codes d)" "p = f q \<or> p = q"
    by (auto simp: in_update_where split: if_splits)
  then have "pairing_row_ok enc cfg d' q"
    using assms(1,3) pairing_row_ok_mono by (auto simp: pairing_ok_def)
  with q(2) assms(4) show "pairing_row_ok enc cfg d' p" by auto
qed

lemma pairing_ok_confirm:
  assumes "confirm_pairing h enc cfg now sid raw u ua d = Inr d'" and "pairing_ok enc cfg d"
  shows "pairing_ok enc cfg d'"
  using assms(1)
proof (rule confirm_pairing_ok)
  fix p
  assume a: "\<exists>s. sessions d' = sessions d @ [s] \<and> sess_id s = sid \<and> sess_user_id s = user_id u"
    "device_pairing_codes d' = update_where (\<lambda>q. pair_id q = pair_id p)
       (\<lambda>q. q\<lparr>pair_token := Some (create_access_token enc cfg now (user_id u) (user_role u) sid 0),
             pair_user_id := Some (user_id u), pair_status := ''confirmed''\<rparr>)
       (device_pairing_codes d)"
  then have "\<exists>s \<in> set (sessions d'). sess_id s = sid \<and> sess_user_id s = user_id u" by auto
  then have "session_token enc cfg d' (user_id u)
      (create_access_token enc cfg now (user_id u) (user_role u) sid 0)"
    unfolding session_token_def by blast
  moreover have "set (sessions d) \<subseteq> set (sessions d')" using a(1) by auto
  ultimately show ?thesis
    by (intro pairing_ok_update [OF assms(2) a(2)]) (simp_all add: pairing_row_ok_def)
qed

lemma pairing_ok_start:
  assumes "start_pairing h cfg now pid raw d = Inr (x, d')" and "pairing_ok enc cfg d"
  shows "pairing_ok enc cfg d'"
  using start_pairing_ok [OF assms(1)] assms(2) pairing_row_ok_mono [of enc cfg d _ d']
  by (auto simp: pairing_ok_def) (auto simp: pairing_row_ok_def)

lemma pairing_ok_poll:
  assumes "poll_pairing h now raw d = (r, d')" and "pairing_ok enc cfg d"
  shows "pairing_ok enc cfg d'"
proof (cases "\<exists>t. r = Inr (PollConfirmed t)")
  case False
  with poll_pairing_other [OF assms(1)] assms(2) show ?thesis by blast
next
  case True
  with assms(1) have
    "\<exists>pid. d' = set_pairing pid (\<lambda>p. p\<lparr>pair_status := ''expired'', pair_token := None\<rparr>) d"
    by (auto simp: poll_pairing_def split: sum.splits if_splits)
  then obtain pid where
    d': "d' = set_pairing pid (\<lambda>p. p\<lparr>pair_status := ''expired'', pair_token := None\<rparr>) d" ..
  show ?thesis
    by (rule pairing_ok_update [OF assms(2)], simp add: d', simp add: d')
      (simp add: pairing_row_ok_def)
qed

lemma pairing_ok_op [inv_intro]:
  assumes "pairing_op h enc cfg e d = (x, d')" and "pairing_ok enc cfg d"
  shows "pairing_ok enc cfg d'"
  using assms
  by (cases e) (auto split: sum.splits prod.splits poll_reply.splits
      dest: pairing_ok_start pairing_ok_confirm pairing_ok_poll)

section \<open>Properties\<close>

lemma pairing_token_confined_facts:
  assumes "device_pairing_codes d = []" and "d' = run_state (pairing_op h enc cfg) events d"
  shows "\<forall>p \<in> set (device_pairing_codes d'). pair_token p \<noteq> None \<longleftrightarrow> pair_status p = ''confirmed''"
    and "poll_pairing h now raw d' = (Inr (PollConfirmed t), d'') \<Longrightarrow>
      \<exists>tok uid. t = Some tok \<and> session_token enc cfg d' uid tok"
    and "length (filter (\<lambda>x. fst x = c) (outcomes (pairing_op h enc cfg) events d)) \<le> 1"
proof -
  have "pairing_ok enc cfg d" using assms(1) by (simp add: pairing_ok_def)
  then have ok: "pairing_ok enc cfg d'"
    unfolding assms(2) by (rule run_state_invariant [rotated]) (rule pairing_ok_op)
  then show "\<forall>p \<in> set (device_pairing_codes d'). pair_token p \<noteq> None \<longleftrightarrow> pair_status p = ''confirmed''"
    by (simp add: pairing_ok_def pairing_row_ok_def)
  show "\<exists>tok uid. t = Some tok \<and> session_token enc cfg d' uid tok"
    if "poll_pairing h now raw d' = (Inr (PollConfirmed t), d'')"
    using that ok
    by (fastforce elim!: poll_pairing_confirmed dest!: select_one_Some
        simp: pairing_ok_def pairing_row_ok_def)
  show "length (filter (\<lambda>x. fst x = c) (outcomes (pairing_op h enc cfg) events d)) \<le> 1"
    using assms(1) by (intro pairing_code.at_most_once) (simp_all add: pairing_ids_ok_def)
qed


definition pairing_events :: "pairing_event list" where
  "pairing_events =
     [PairStart 0 1 ''abc'', PairConfirm 5 9 ''abc'' (default_user\<lparr>user_id := 7\<rparr>) None]"

lemma pairing_events_state:
  "device_pairing_codes (run_state (pairing_op id (\<lambda>_. ''jwt'') default_settings) pairing_events one_user_db) =
     [\<lparr>pair_id = 1, pair_code_hash = ''abc'', pair_status = ''confirmed'', pair_token = Some ''jwt'',
       pair_user_id = Some 7, pair_expires_at = minutes 10\<rparr>]"
  by code_simp

lemma pairing_events_poll:
  "\<exists>t d''. poll_pairing id 6 ''abc'' (run_state (pairing_op id (\<lambda>_. ''jwt'') default_settings)
     pairing_events one_user_db) = (Inr (PollConfirmed t), d'')"
  by (simp add: poll_pairing_def find_pending_or_confirmed_def pairing_events_state minutes_def)


end
