(* ===== verification/Telegram_Login.thy ===== *)
theory Telegram_Login
  imports Pairing
begin

text \<open>
  \<open>app/services/telegram_bot_login.py\<close>: sign-in through the Telegram bot. The app starts a one-time
  code, the user taps Start in the chat (which records who they are) and then Confirm, and the app
  polls for the session token. A Bot API update arrives as a chat message or a button callback; the
  Bot API calls the handlers make are returned, their fixed texts as constructors (they hold
  non-ASCII punctuation). \<open>parse_uuid\<close> and \<open>show_uuid\<close> are \<open>uuid.UUID\<close> and \<open>str\<close>.
\<close>

section \<open>Messages\<close>

datatype bot_text =
    HintText | ExpiredText | ConfirmPrompt string | SignedInText | CancelledText

datatype bot_call =
    SendMessage "int option" bot_text "(string \<times> string) list"
  | AnswerCallbackQuery "string option"
  | EditMessageText int int bot_text

record tg_message =
  m_chat_id :: "int option"
  m_chat_type :: "string option"
  m_sender_id :: "int option"
  m_sender_is_bot :: bool
  m_first_name :: "string option"
  m_last_name :: "string option"
  m_username :: "string option"
  m_text :: "string option"

record tg_callback =
  cb_id :: "string option"
  cb_data :: "string option"
  cb_sender_id :: "int option"
  cb_chat_id :: "int option"
  cb_message_id :: "int option"

datatype tg_update = MessageUpdate tg_message | CallbackUpdate tg_callback | OtherUpdate

definition start_prefix :: string where "start_prefix = ''login-''"
definition confirm_prefix :: string where "confirm_prefix = ''tglogin:ok:''"
definition cancel_prefix :: string where "cancel_prefix = ''tglogin:no:''"

definition bot_login_configured :: "settings \<Rightarrow> bool" where
  "bot_login_configured cfg \<longleftrightarrow> strip (telegram_bot_token cfg) \<noteq> [] \<and>
     strip (telegram_bot_username cfg) \<noteq> [] \<and> strip (telegram_webhook_secret cfg) \<noteq> []"

definition bot_username :: "settings \<Rightarrow> string" where
  "bot_username cfg = lstrip_char CHR ''@'' (strip (telegram_bot_username cfg))"

definition start_bot_login ::
    "(string \<Rightarrow> string) \<Rightarrow> settings \<Rightarrow> datetime \<Rightarrow> uuid \<Rightarrow> string \<Rightarrow> db \<Rightarrow>
     ((string \<times> string \<times> string \<times> int) \<times> db) result" where
  "start_bot_login hash_token cfg now bid raw_code d =
     (if \<not> bot_login_configured cfg
      then Inl (UnauthorizedError ''Telegram sign-in is not configured'')
      else if exists_row (\<lambda>b. bot_code_hash b = hash_token raw_code \<or> bot_id b = bid)
                (telegram_bot_logins d)
      then Inl IntegrityError
      else
       (let bot = bot_username cfg; start = start_prefix @ raw_code;
            row = \<lparr>bot_id = bid, bot_code_hash = hash_token raw_code, bot_status = ''pending'',
                   bot_telegram_id = None, bot_telegram_first_name = None,
                   bot_telegram_last_name = None, bot_telegram_username = None,
                   bot_expires_at = now + minutes (telegram_bot_login_expire_minutes cfg)\<rparr>
        in Inr ((raw_code, ''https://t.me/'' @ bot @ ''?start='' @ start,
                 ''tg://resolve?domain='' @ bot @ ''&start='' @ start,
                 telegram_bot_login_expire_minutes cfg * 60),
                d\<lparr>telegram_bot_logins := telegram_bot_logins d @ [row]\<rparr>)))"

text \<open>\<open>text.strip().split(maxsplit=1)\<close> gives the word before the first run of spaces and the rest.\<close>

definition parse_login_start :: "string option \<Rightarrow> string option" where
  "parse_login_start text =
     (if \<not> truthy text then None
      else
       (let s = strip (the text); command = takeWhile (\<lambda>c. \<not> is_space c) s;
            rest = lstrip (dropWhile (\<lambda>c. \<not> is_space c) s)
        in if rest = [] \<or> takeWhile (\<lambda>c. c \<noteq> CHR ''@'') command \<noteq> ''/start'' then None
           else (let payload = strip rest in
                 if \<not> starts_with start_prefix payload then None
                 else (case drop (length start_prefix) payload of [] \<Rightarrow> None | code \<Rightarrow> Some code))))"

definition display_name :: "bot_login_row \<Rightarrow> string" where
  "display_name b =
     (let name = strip (join '' '' (map the (filter truthy
                   [bot_telegram_first_name b, bot_telegram_last_name b])))
      in if name \<noteq> [] then name
         else if truthy (bot_telegram_username b) then ''@'' @ the (bot_telegram_username b)
         else ''your Telegram account'')"

section \<open>Handlers\<close>

definition set_bot_login :: "uuid \<Rightarrow> (bot_login_row \<Rightarrow> bot_login_row) \<Rightarrow> db \<Rightarrow> db" where
  "set_bot_login bid f d =
     d\<lparr>telegram_bot_logins := update_where (\<lambda>b. bot_id b = bid) f (telegram_bot_logins d)\<rparr>"

definition may_start :: "datetime \<Rightarrow> string \<Rightarrow> bot_login_row \<Rightarrow> bool" where
  "may_start now sender b \<longleftrightarrow> now \<le> bot_expires_at b \<and>
     (bot_status b = ''pending'' \<or> bot_status b = ''started'' \<and> bot_telegram_id b = Some sender)"

definition started_by :: "tg_message \<Rightarrow> string \<Rightarrow> bot_login_row \<Rightarrow> bot_login_row" where
  "started_by m sender b =
     b\<lparr>bot_status := ''started'', bot_telegram_id := Some sender,
       bot_telegram_first_name := m_first_name m, bot_telegram_last_name := m_last_name m,
       bot_telegram_username := m_username m\<rparr>"

definition handle_message ::
    "(string \<Rightarrow> string) \<Rightarrow> (uuid \<Rightarrow> string) \<Rightarrow> datetime \<Rightarrow> tg_message \<Rightarrow> db \<Rightarrow> bot_call list \<times> db" where
  "handle_message hash_token show_uuid now m d =
     (if m_chat_type m \<noteq> Some ''private'' \<or> m_sender_is_bot m \<or> m_sender_id m = None then ([], d)
      else
       (let sender = string_of_int (the (m_sender_id m)) in
        case parse_login_start (m_text m) of
          None \<Rightarrow>
            ((case m_text m of
                Some t \<Rightarrow> if starts_with ''/start'' t then [SendMessage (m_chat_id m) HintText []] else []
              | None \<Rightarrow> []), d)
        | Some raw_code \<Rightarrow>
          (case select_one (\<lambda>b. bot_code_hash b = hash_token raw_code) (telegram_bot_logins d) of
             None \<Rightarrow> ([SendMessage (m_chat_id m) ExpiredText []], d)
           | Some b \<Rightarrow>
             if \<not> may_start now sender b then ([SendMessage (m_chat_id m) ExpiredText []], d)
             else ([SendMessage (m_chat_id m) (ConfirmPrompt (display_name (started_by m sender b)))
                      [(''Confirm sign-in'', confirm_prefix @ show_uuid (bot_id b)),
                       (''Cancel'', cancel_prefix @ show_uuid (bot_id b))]],
                   set_bot_login (bot_id b) (started_by m sender) d))))"

definition parse_callback :: "string option \<Rightarrow> (bool \<times> string) option" where
  "parse_callback data =
     (case data of
        None \<Rightarrow> None
      | Some s \<Rightarrow>
          if starts_with confirm_prefix s then Some (True, drop (length confirm_prefix) s)
          else if starts_with cancel_prefix s then Some (False, drop (length cancel_prefix) s)
          else None)"

text \<open>\<open>str(sender_id)\<close>: a missing sender reads as \<open>None\<close>.\<close>

definition show_sender :: "int option \<Rightarrow> string" where
  "show_sender s = (case s of None \<Rightarrow> ''None'' | Some i \<Rightarrow> string_of_int i)"

definition may_decide :: "datetime \<Rightarrow> string \<Rightarrow> bot_login_row \<Rightarrow> bool" where
  "may_decide now sender b \<longleftrightarrow>
     bot_status b = ''started'' \<and> now \<le> bot_expires_at b \<and> bot_telegram_id b = Some sender"

definition handle_callback ::
    "(string \<Rightarrow> uuid option) \<Rightarrow> datetime \<Rightarrow> tg_callback \<Rightarrow> db \<Rightarrow> bot_call list \<times> db" where
  "handle_callback parse_uuid now c d =
     (case parse_callback (cb_data c) of
        None \<Rightarrow> ([], d)
      | Some (approve, raw_id) \<Rightarrow>
        (case parse_uuid raw_id of
           None \<Rightarrow> ([], d)
         | Some login_id \<Rightarrow>
           (let (reply, d') =
              (case select_one (\<lambda>b. bot_id b = login_id) (telegram_bot_logins d) of
                 None \<Rightarrow> (ExpiredText, d)
               | Some b \<Rightarrow>
                   if \<not> may_decide now (show_sender (cb_sender_id c)) b then (ExpiredText, d)
                   else (if approve then SignedInText else CancelledText,
                         set_bot_login (bot_id b)
                           (\<lambda>b. b\<lparr>bot_status := (if approve then ''confirmed'' else ''expired'')\<rparr>) d))
            in ([AnswerCallbackQuery (cb_id c)]
                @ (case (cb_chat_id c, cb_message_id c) of
                     (Some chat, Some msg) \<Rightarrow> [EditMessageText chat msg reply]
                   | _ \<Rightarrow> []), d'))))"

definition handle_update ::
    "(string \<Rightarrow> string) \<Rightarrow> (uuid \<Rightarrow> string) \<Rightarrow> (string \<Rightarrow> uuid option) \<Rightarrow> datetime \<Rightarrow> tg_update \<Rightarrow> db \<Rightarrow>
     bot_call list \<times> db" where
  "handle_update hash_token show_uuid parse_uuid now u d =
     (case u of
        MessageUpdate m \<Rightarrow> handle_message hash_token show_uuid now m d
      | CallbackUpdate c \<Rightarrow> handle_callback parse_uuid now c d
      | OtherUpdate \<Rightarrow> ([], d))"

datatype 't bot_poll = BotStatus string | BotConfirmed 't

definition poll_bot_login ::
    "(string \<Rightarrow> string) \<Rightarrow> (claims \<Rightarrow> 't) \<Rightarrow> settings \<Rightarrow> datetime \<Rightarrow> uuid \<Rightarrow> uuid \<Rightarrow> string \<Rightarrow>
     string option \<Rightarrow> string option \<Rightarrow> db \<Rightarrow> ('t bot_poll \<times> db) result" where
  "poll_bot_login hash_token encode cfg now uid sid raw_code user_agent guest_id d =
     (case select_one (\<lambda>b. bot_code_hash b = hash_token raw_code) (telegram_bot_logins d) of
        None \<Rightarrow> Inl (NotFoundError ''This Telegram sign-in has expired.'')
      | Some b \<Rightarrow>
        if bot_expires_at b < now \<or> bot_status b \<in> {''used'', ''expired''}
        then Inl (NotFoundError ''This Telegram sign-in has expired.'')
        else if bot_status b \<noteq> ''confirmed'' \<or> \<not> truthy (bot_telegram_id b)
        then Inr (BotStatus (bot_status b), d)
        else (case login_telegram_identity encode cfg now uid sid (the (bot_telegram_id b))
                     (bot_telegram_first_name b) (bot_telegram_last_name b)
                     (bot_telegram_username b) None user_agent guest_id
                     (set_bot_login (bot_id b) (\<lambda>b. b\<lparr>bot_status := ''used''\<rparr>) d) of
                Inl e \<Rightarrow> Inl e
              | Inr (_, token, d') \<Rightarrow> Inr (BotConfirmed token, d')))"

section \<open>The flow as events\<close>

datatype bot_event =
    BotStart datetime uuid string
  | BotUpdate datetime tg_update
  | BotPoll datetime uuid uuid string "string option" "string option"

fun bot_op ::
    "(string \<Rightarrow> string) \<Rightarrow> (uuid \<Rightarrow> string) \<Rightarrow> (string \<Rightarrow> uuid option) \<Rightarrow> (claims \<Rightarrow> 't) \<Rightarrow> settings \<Rightarrow>
     bot_event \<Rightarrow> db \<Rightarrow> (string \<times> 't) option \<times> db" where
  "bot_op h shw prs enc cfg (BotStart now bid raw) d =
     (case start_bot_login h cfg now bid raw d of Inl _ \<Rightarrow> (None, d) | Inr (_, d') \<Rightarrow> (None, d'))"
| "bot_op h shw prs enc cfg (BotUpdate now u) d = (None, snd (handle_update h shw prs now u d))"
| "bot_op h shw prs enc cfg (BotPoll now uid sid raw ua g) d =
     (case poll_bot_login h enc cfg now uid sid raw ua g d of
        Inl _ \<Rightarrow> (None, d)
      | Inr (BotConfirmed t, d') \<Rightarrow> (Some (h raw, t), d')
      | Inr (BotStatus _, d') \<Rightarrow> (None, d'))"

lemma bot_logins_set [simp]:
  "telegram_bot_logins (set_bot_login bid f d) =
     update_where (\<lambda>b. bot_id b = bid) f (telegram_bot_logins d)"
  "users (set_bot_login bid f d) = users d" "sessions (set_bot_login bid f d) = sessions d"
  by (simp_all add: set_bot_login_def)

text \<open>What each operation does to the table of bot logins.\<close>

lemma start_bot_login_table:
  "start_bot_login h cfg now bid raw d = Inr (x, d') \<Longrightarrow>
   \<exists>b. telegram_bot_logins d' = telegram_bot_logins d @ [b] \<and> bot_status b = ''pending'' \<and>
       bot_code_hash b = h raw \<and> bot_id b \<notin> set (map bot_id (telegram_bot_logins d))"
  by (auto simp: start_bot_login_def Let_def exists_row_iff split: if_splits)

lemma handle_message_table:
  "telegram_bot_logins (snd (handle_message h shw now m d)) = telegram_bot_logins d \<or>
   (\<exists>s raw b. m_chat_type m = Some ''private'' \<and> \<not> m_sender_is_bot m \<and> m_sender_id m = Some s \<and>
      parse_login_start (m_text m) = Some raw \<and>
      select_one (\<lambda>b. bot_code_hash b = h raw) (telegram_bot_logins d) = Some b \<and>
      may_start now (string_of_int s) b \<and>
      telegram_bot_logins (snd (handle_message h shw now m d)) =
        update_where (\<lambda>x. bot_id x = bot_id b) (started_by m (string_of_int s)) (telegram_bot_logins d))"
  by (auto simp: handle_message_def Let_def split: option.splits)

lemma handle_callback_table:
  "telegram_bot_logins (snd (handle_callback prs now c d)) = telegram_bot_logins d \<or>
   (\<exists>approve raw b. parse_callback (cb_data c) = Some (approve, raw) \<and> prs raw = Some (bot_id b) \<and>
      select_one (\<lambda>x. bot_id x = bot_id b) (telegram_bot_logins d) = Some b \<and>
      may_decide now (show_sender (cb_sender_id c)) b \<and>
      telegram_bot_logins (snd (handle_callback prs now c d)) =
        update_where (\<lambda>x. bot_id x = bot_id b)
          (\<lambda>x. x\<lparr>bot_status := (if approve then ''confirmed'' else ''expired'')\<rparr>)
          (telegram_bot_logins d))"
  by (auto simp: handle_callback_def Let_def split: option.splits if_splits dest: select_one_Some)

lemma poll_bot_login_ok:
  assumes "poll_bot_login h enc cfg now uid sid raw ua g d = Inr (BotConfirmed t, d')"
  obtains b u where
    "select_one (\<lambda>b. bot_code_hash b = h raw) (telegram_bot_logins d) = Some b"
    "now \<le> bot_expires_at b" "bot_status b = ''confirmed''" "truthy (bot_telegram_id b)"
    "login_telegram_identity enc cfg now uid sid (the (bot_telegram_id b)) (bot_telegram_first_name b)
       (bot_telegram_last_name b) (bot_telegram_username b) None ua g
       (set_bot_login (bot_id b) (\<lambda>b. b\<lparr>bot_status := ''used''\<rparr>) d) = Inr (u, t, d')"
    "telegram_bot_logins d' = update_where (\<lambda>x. bot_id x = bot_id b) (\<lambda>b. b\<lparr>bot_status := ''used''\<rparr>)
       (telegram_bot_logins d)"
proof -
  obtain b u where b: "select_one (\<lambda>b. bot_code_hash b = h raw) (telegram_bot_logins d) = Some b"
    "now \<le> bot_expires_at b" "bot_status b = ''confirmed''" "truthy (bot_telegram_id b)"
    and l: "login_telegram_identity enc cfg now uid sid (the (bot_telegram_id b))
       (bot_telegram_first_name b) (bot_telegram_last_name b) (bot_telegram_username b) None ua g
       (set_bot_login (bot_id b) (\<lambda>b. b\<lparr>bot_status := ''used''\<rparr>) d) = Inr (u, t, d')"
    using assms by (auto simp: poll_bot_login_def split: option.splits if_splits sum.splits)
  obtain acc where "finish_sign_in enc cfg now sid ua g acc
      (set_bot_login (bot_id b) (\<lambda>b. b\<lparr>bot_status := ''used''\<rparr>) d) = Inr (u, t, d')"
    using l unfolding login_telegram_identity_def by blast
  then have "telegram_bot_logins d' = telegram_bot_logins
      (set_bot_login (bot_id b) (\<lambda>b. b\<lparr>bot_status := ''used''\<rparr>) d)"
    by (cases acc) (auto dest: finish_sign_in_ok)
  with that [OF b l] show ?thesis by simp
qed

lemma poll_bot_login_status:
  "poll_bot_login h enc cfg now uid sid raw ua g d = Inr (BotStatus s, d') \<Longrightarrow> d' = d"
  by (auto simp: poll_bot_login_def split: option.splits if_splits sum.splits)

section \<open>A code is redeemed once\<close>

definition bot_spent :: "string \<Rightarrow> db \<Rightarrow> bool" where
  "bot_spent c d = (case select_one (\<lambda>b. bot_code_hash b = c) (telegram_bot_logins d) of
     None \<Rightarrow> False | Some b \<Rightarrow> bot_status b = ''used'')"

definition bot_ids_ok :: "db \<Rightarrow> bool" where
  "bot_ids_ok d \<longleftrightarrow> distinct (map bot_id (telegram_bot_logins d))"

lemma started_by_simps [simp]:
  "bot_id (started_by m s b) = bot_id b" "bot_code_hash (started_by m s b) = bot_code_hash b"
  "bot_status (started_by m s b) = ''started''" "bot_telegram_id (started_by m s b) = Some s"
  by (simp_all add: started_by_def)

lemma bot_row_unique:
  assumes "bot_ids_ok d" and "a \<in> set (telegram_bot_logins d)" and "b \<in> set (telegram_bot_logins d)"
    and "bot_id a = bot_id b"
  shows "a = b"
  using assms unfolding bot_ids_ok_def by (metis distinct_map inj_on_eq_iff)

text \<open>Updating a row that is not spent leaves every spent code spent.\<close>

lemma bot_spent_update:
  assumes "bot_ids_ok d" and "bot_spent c d" and "b \<in> set (telegram_bot_logins d)"
    and "bot_status b \<noteq> ''used''"
    and "telegram_bot_logins d' = update_where (\<lambda>x. bot_id x = bot_id b) f (telegram_bot_logins d)"
    and "\<And>x. bot_code_hash (f x) = bot_code_hash x"
  shows "bot_spent c d'"
proof -
  obtain q where q: "select_one (\<lambda>b. bot_code_hash b = c) (telegram_bot_logins d) = Some q"
    "bot_status q = ''used''"
    using assms(2) by (auto simp: bot_spent_def split: option.splits)
  then have "bot_id q \<noteq> bot_id b"
    using bot_row_unique [OF assms(1) _ assms(3), of q] assms(4) by (auto dest: select_one_Some)
  with q assms(5,6) show ?thesis by (simp add: bot_spent_def select_one_update_keep)
qed

lemma bot_ids_update:
  assumes "bot_ids_ok d" and "telegram_bot_logins d' = update_where P f (telegram_bot_logins d)"
    and "\<And>x. bot_id (f x) = bot_id x"
  shows "bot_ids_ok d'"
  using assms by (simp add: bot_ids_ok_def map_update_where)

lemma bot_update_keeps:
  assumes "bot_ids_ok d" and "d' = snd (handle_update h shw prs now u d)"
  shows "bot_ids_ok d'" and "bot_spent c d \<Longrightarrow> bot_spent c d'"
proof -
  consider (same) "telegram_bot_logins d' = telegram_bot_logins d"
    | (changed) b f where "b \<in> set (telegram_bot_logins d)" "bot_status b \<noteq> ''used''"
        "telegram_bot_logins d' = update_where (\<lambda>x. bot_id x = bot_id b) f (telegram_bot_logins d)"
        "\<And>x. bot_code_hash (f x) = bot_code_hash x" "\<And>x. bot_id (f x) = bot_id x"
  proof (cases u)
    case (MessageUpdate m)
    with assms(2) handle_message_table [of h shw now m d] same changed show ?thesis
      by (fastforce simp: handle_update_def may_start_def dest: select_one_Some)
  next
    case (CallbackUpdate c)
    with assms(2) handle_callback_table [of prs now c d] same changed show ?thesis
      by (fastforce simp: handle_update_def may_decide_def dest: select_one_Some)
  next
    case OtherUpdate
    with assms(2) same show ?thesis by (simp add: handle_update_def)
  qed
  note cases = this
  show "bot_ids_ok d'"
    using cases
  proof cases
    case same with assms(1) show ?thesis by (simp add: bot_ids_ok_def)
  next
    case changed with assms(1) show ?thesis by (blast intro: bot_ids_update)
  qed
  show "bot_spent c d'" if sp: "bot_spent c d"
    using cases
  proof cases
    case same with sp show ?thesis by (simp add: bot_spent_def)
  next
    case changed with assms(1) sp show ?thesis by (blast intro: bot_spent_update)
  qed
qed

lemma bot_poll_spends:
  assumes "poll_bot_login h enc cfg now uid sid raw ua g d = Inr (BotConfirmed t, d')"
  shows "\<not> bot_spent (h raw) d" and "bot_spent (h raw) d'" and "bot_spent c d \<Longrightarrow> bot_spent c d'"
    and "bot_ids_ok d \<Longrightarrow> bot_ids_ok d'"
  using assms
  by (auto elim!: poll_bot_login_ok simp: bot_spent_def select_one_update_keep bot_ids_ok_def
      map_update_where split: option.splits if_splits)

lemma bot_start_keeps:
  assumes "start_bot_login h cfg now bid raw d = Inr (x, d')"
  shows "bot_spent c d \<Longrightarrow> bot_spent c d'" and "bot_ids_ok d \<Longrightarrow> bot_ids_ok d'"
  using start_bot_login_table [OF assms]
  by (auto simp: bot_spent_def select_one_append bot_ids_ok_def split: option.splits)

interpretation bot_code: single_use "bot_op h shw prs enc cfg" bot_ids_ok bot_spent "\<lambda>_ _. False"
  for h shw prs enc cfg
proof
  show "\<not> bot_spent c s \<and> bot_spent c s'"
    if "bot_op h shw prs enc cfg a s = (Some (c, r), s')" for s a c r s'
    using that by (cases a) (auto split: sum.splits prod.splits bot_poll.splits dest: bot_poll_spends)
  show "bot_spent c s'"
    if "bot_ids_ok s" "bot_spent c s" "bot_op h shw prs enc cfg a s = (x, s')" for s c a x s'
    using that
    by (cases a) (auto split: sum.splits prod.splits bot_poll.splits
        dest: bot_poll_spends bot_start_keeps poll_bot_login_status bot_update_keeps(2) [OF _ refl])
  show "bot_ids_ok s'"
    if "bot_ids_ok s" "bot_op h shw prs enc cfg a s = (x, s')" for s a x s'
    using that
    by (cases a) (auto split: sum.splits prod.splits bot_poll.splits
        dest: bot_poll_spends bot_start_keeps poll_bot_login_status bot_update_keeps(1) [OF _ refl])
qed

section \<open>Who approved\<close>

text \<open>The Telegram user \<open>tid\<close> tapped Start with the code, and pressed Confirm, among the events \<open>E\<close>.\<close>

definition tapped_start :: "(string \<Rightarrow> string) \<Rightarrow> bot_event set \<Rightarrow> string \<Rightarrow> string \<Rightarrow> bool" where
  "tapped_start h E code_hash tid \<longleftrightarrow> (\<exists>now m s raw.
     BotUpdate now (MessageUpdate m) \<in> E \<and> m_chat_type m = Some ''private'' \<and>
     \<not> m_sender_is_bot m \<and> m_sender_id m = Some s \<and> string_of_int s = tid \<and>
     parse_login_start (m_text m) = Some raw \<and> h raw = code_hash)"

definition tapped_confirm :: "(string \<Rightarrow> uuid option) \<Rightarrow> bot_event set \<Rightarrow> uuid \<Rightarrow> string \<Rightarrow> bool" where
  "tapped_confirm prs E login_id tid \<longleftrightarrow> (\<exists>now c raw.
     BotUpdate now (CallbackUpdate c) \<in> E \<and> parse_callback (cb_data c) = Some (True, raw) \<and>
     prs raw = Some login_id \<and> show_sender (cb_sender_id c) = tid)"

definition bot_row_trace ::
    "(string \<Rightarrow> string) \<Rightarrow> (string \<Rightarrow> uuid option) \<Rightarrow> bot_event set \<Rightarrow> bot_login_row \<Rightarrow> bool" where
  "bot_row_trace h prs E b \<longleftrightarrow>
     (bot_status b \<in> {''started'', ''confirmed'', ''used''} \<longrightarrow>
        (\<exists>tid. bot_telegram_id b = Some tid \<and> tapped_start h E (bot_code_hash b) tid)) \<and>
     (bot_status b \<in> {''confirmed'', ''used''} \<longrightarrow>
        (\<exists>tid. bot_telegram_id b = Some tid \<and> tapped_confirm prs E (bot_id b) tid))"

definition bot_traced ::
    "(string \<Rightarrow> string) \<Rightarrow> (string \<Rightarrow> uuid option) \<Rightarrow> bot_event set \<Rightarrow> db \<Rightarrow> bool" where
  "bot_traced h prs E d \<longleftrightarrow>
     bot_ids_ok d \<and> (\<forall>b \<in> set (telegram_bot_logins d). bot_row_trace h prs E b)"

lemma bot_row_trace_mono:
  "bot_row_trace h prs E b \<Longrightarrow> E \<subseteq> F \<Longrightarrow> bot_row_trace h prs F b"
  unfolding bot_row_trace_def tapped_start_def tapped_confirm_def by blast

lemma bot_traced_mono: "bot_traced h prs E d \<Longrightarrow> E \<subseteq> F \<Longrightarrow> bot_traced h prs F d"
  unfolding bot_traced_def using bot_row_trace_mono by blast

lemma bot_traced_update:
  assumes "bot_traced h prs E d" and "b \<in> set (telegram_bot_logins d)" and "E \<subseteq> F"
    and "telegram_bot_logins d' = update_where (\<lambda>x. bot_id x = bot_id b) f (telegram_bot_logins d)"
    and "\<And>x. bot_id (f x) = bot_id x" and "bot_row_trace h prs F (f b)"
  shows "bot_traced h prs F d'"
proof -
  have ids: "bot_ids_ok d" using assms(1) by (simp add: bot_traced_def)
  have "bot_row_trace h prs F x" if x: "x \<in> set (telegram_bot_logins d')" for x
  proof -
    obtain y where y: "y \<in> set (telegram_bot_logins d)" "x = (if bot_id y = bot_id b then f y else y)"
      using x unfolding assms(4) in_update_where by blast
    show ?thesis
    proof (cases "bot_id y = bot_id b")
      case True
      with bot_row_unique [OF ids y(1) assms(2)] y(2) assms(6) show ?thesis by simp
    next
      case False
      with y assms(1,3) bot_row_trace_mono show ?thesis by (auto simp: bot_traced_def)
    qed
  qed
  with bot_ids_update [OF ids assms(4,5)] show ?thesis by (simp add: bot_traced_def)
qed

lemma bot_traced_message:
  assumes "bot_traced h prs E d"
  shows "bot_traced h prs (insert (BotUpdate now (MessageUpdate m)) E)
    (snd (handle_message h shw now m d))"
  using handle_message_table [of h shw now m d]
proof (elim disjE exE conjE)
  assume "telegram_bot_logins (snd (handle_message h shw now m d)) = telegram_bot_logins d"
  with bot_traced_mono [OF assms subset_insertI] show ?thesis by (simp add: bot_traced_def bot_ids_ok_def)
next
  fix s raw b
  assume a: "m_chat_type m = Some ''private''" "\<not> m_sender_is_bot m" "m_sender_id m = Some s"
    "parse_login_start (m_text m) = Some raw"
    "select_one (\<lambda>b. bot_code_hash b = h raw) (telegram_bot_logins d) = Some b"
    "telegram_bot_logins (snd (handle_message h shw now m d)) =
        update_where (\<lambda>x. bot_id x = bot_id b) (started_by m (string_of_int s)) (telegram_bot_logins d)"
  have b: "b \<in> set (telegram_bot_logins d)" "bot_code_hash b = h raw"
    using a(5) by (auto dest: select_one_Some)
  show ?thesis
    by (rule bot_traced_update [OF assms b(1) subset_insertI a(6)])
      (use a(1-4) b(2) in \<open>auto simp: bot_row_trace_def tapped_start_def\<close>)
qed

lemma bot_traced_callback:
  assumes "bot_traced h prs E d"
  shows "bot_traced h prs (insert (BotUpdate now (CallbackUpdate c)) E)
    (snd (handle_callback prs now c d))"
  using handle_callback_table [of prs now c d]
proof (elim disjE exE conjE)
  assume "telegram_bot_logins (snd (handle_callback prs now c d)) = telegram_bot_logins d"
  with bot_traced_mono [OF assms subset_insertI] show ?thesis by (simp add: bot_traced_def bot_ids_ok_def)
next
  fix approve raw b
  assume a: "parse_callback (cb_data c) = Some (approve, raw)" "prs raw = Some (bot_id b)"
    "select_one (\<lambda>x. bot_id x = bot_id b) (telegram_bot_logins d) = Some b"
    "may_decide now (show_sender (cb_sender_id c)) b"
    "telegram_bot_logins (snd (handle_callback prs now c d)) =
        update_where (\<lambda>x. bot_id x = bot_id b)
          (\<lambda>x. x\<lparr>bot_status := (if approve then ''confirmed'' else ''expired'')\<rparr>)
          (telegram_bot_logins d)"
  let ?F = "insert (BotUpdate now (CallbackUpdate c)) E"
  have b: "b \<in> set (telegram_bot_logins d)" using a(3) by (auto dest: select_one_Some)
  then have "bot_row_trace h prs ?F b"
    using bot_traced_mono [OF assms subset_insertI] by (auto simp: bot_traced_def)
  moreover have "approve \<Longrightarrow> tapped_confirm prs ?F (bot_id b) (show_sender (cb_sender_id c))"
    using a(1,2) unfolding tapped_confirm_def
    by (intro exI [of _ now] exI [of _ c] exI [of _ raw]) simp
  ultimately have "bot_row_trace h prs ?F
      (b\<lparr>bot_status := (if approve then ''confirmed'' else ''expired'')\<rparr>)"
    using a(4) by (auto simp: bot_row_trace_def may_decide_def)
  then show ?thesis
    by (intro bot_traced_update [OF assms b subset_insertI a(5)]) simp_all
qed

lemma bot_traced_poll:
  assumes "bot_traced h prs E d"
    and "poll_bot_login h enc cfg now uid sid raw ua g d = Inr (BotConfirmed t, d')"
  shows "bot_traced h prs E d'"
  using assms(2)
proof (rule poll_bot_login_ok)
  fix b
  assume a: "select_one (\<lambda>b. bot_code_hash b = h raw) (telegram_bot_logins d) = Some b"
    "bot_status b = ''confirmed''"
    "telegram_bot_logins d' = update_where (\<lambda>x. bot_id x = bot_id b) (\<lambda>b. b\<lparr>bot_status := ''used''\<rparr>)
       (telegram_bot_logins d)"
  have b: "b \<in> set (telegram_bot_logins d)" using a(1) by (auto dest: select_one_Some)
  then have "bot_row_trace h prs E b" using assms(1) by (simp add: bot_traced_def)
  then have "bot_row_trace h prs E (b\<lparr>bot_status := ''used''\<rparr>)"
    using a(2) by (simp add: bot_row_trace_def)
  then show ?thesis by (intro bot_traced_update [OF assms(1) b subset_refl a(3)]) simp_all
qed

lemma bot_traced_op [inv_intro]:
  assumes "bot_traced h prs E d"
  shows "bot_traced h prs (insert e E) (snd (bot_op h shw prs enc cfg e d))"
proof (cases e)
  case (BotStart now bid raw)
  show ?thesis
  proof (cases "start_bot_login h cfg now bid raw d")
    case (Inl err)
    with BotStart bot_traced_mono [OF assms subset_insertI] show ?thesis by simp
  next
    case (Inr r)
    then obtain x d' where r: "start_bot_login h cfg now bid raw d = Inr (x, d')" by (cases r) simp
    with start_bot_login_table [OF r] bot_start_keeps(2) [OF r]
      bot_traced_mono [OF assms subset_insertI] BotStart show ?thesis
      by (auto simp: bot_traced_def bot_row_trace_def)
  qed
next
  case (BotUpdate now u)
  with bot_traced_message [OF assms] bot_traced_callback [OF assms]
    bot_traced_mono [OF assms subset_insertI] show ?thesis
    by (cases u) (simp_all add: handle_update_def)
next
  case (BotPoll now uid sid raw ua g)
  with bot_traced_mono [OF assms subset_insertI] bot_traced_mono [OF bot_traced_poll [OF assms] subset_insertI]
  show ?thesis
    by (auto split: sum.splits prod.splits bot_poll.splits dest: poll_bot_login_status)
qed

lemma bot_traced_run:
  "bot_traced h prs E d \<Longrightarrow>
   bot_traced h prs (E \<union> set es) (run_state (bot_op h shw prs enc cfg) es d)"
proof (induction es arbitrary: d E)
  case Nil
  then show ?case by simp
next
  case (Cons e es)
  from Cons.IH [OF bot_traced_op [OF Cons.prems]] show ?case by simp
qed

section \<open>Properties\<close>

lemma bot_login_authentic_facts:
  assumes "telegram_bot_logins d0 = []"
    and "d = run_state (bot_op h shw prs enc cfg) events d0"
    and "accounts_ok d" and "uid \<notin> set (map user_id (users d))"
  shows "poll_bot_login h enc cfg now uid sid raw ua g d = Inr (BotConfirmed t, d') \<Longrightarrow>
      \<exists>u tid bid. u \<in> set (users d') \<and> user_telegram_id u = Some tid \<and>
        t = create_access_token enc cfg now (user_id u) (user_role u) sid 0 \<and>
        tapped_start h (set events) (h raw) tid \<and> tapped_confirm prs (set events) bid tid"
    and "length (filter (\<lambda>x. fst x = c) (outcomes (bot_op h shw prs enc cfg) events d0)) \<le> 1"
proof -
  have "bot_traced h prs {} d0" using assms(1) by (simp add: bot_traced_def bot_ids_ok_def)
  then have tr: "bot_traced h prs (set events) d"
    using bot_traced_run [of h prs "{}" d0 events] assms(2) by simp
  show "\<exists>u tid bid. u \<in> set (users d') \<and> user_telegram_id u = Some tid \<and>
      t = create_access_token enc cfg now (user_id u) (user_role u) sid 0 \<and>
      tapped_start h (set events) (h raw) tid \<and> tapped_confirm prs (set events) bid tid"
    if "poll_bot_login h enc cfg now uid sid raw ua g d = Inr (BotConfirmed t, d')"
    using that
  proof (rule poll_bot_login_ok)
    fix b :: bot_login_row and u
    let ?d = "set_bot_login (bot_id b) (\<lambda>b. b\<lparr>bot_status := ''used''\<rparr>) d"
    assume a: "select_one (\<lambda>b. bot_code_hash b = h raw) (telegram_bot_logins d) = Some b"
      "bot_status b = ''confirmed''"
      "login_telegram_identity enc cfg now uid sid (the (bot_telegram_id b)) (bot_telegram_first_name b)
         (bot_telegram_last_name b) (bot_telegram_username b) None ua g ?d = Inr (u, t, d')"
    from a(1) have b: "b \<in> set (telegram_bot_logins d)" "bot_code_hash b = h raw"
      by (auto dest: select_one_Some)
    with tr have "bot_row_trace h prs (set events) b" by (simp add: bot_traced_def)
    with a(2) b(2) obtain tid where tid: "bot_telegram_id b = Some tid"
      "tapped_start h (set events) (h raw) tid" "tapped_confirm prs (set events) (bot_id b) tid"
      by (auto simp: bot_row_trace_def)
    have "accounts_ok ?d" "uid \<notin> set (map user_id (users ?d))"
      using assms(3,4) by (simp_all add: accounts_ok_def)
    from login_telegram_ok(1,2) [OF a(3) this] tid show ?thesis
      by (auto simp: session_opened_def)
  qed
  show "length (filter (\<lambda>x. fst x = c) (outcomes (bot_op h shw prs enc cfg) events d0)) \<le> 1"
    using assms(1) by (intro bot_code.at_most_once) (simp_all add: bot_ids_ok_def)
qed


definition bot_cfg :: settings where
  "bot_cfg = default_settings\<lparr>telegram_bot_token := ''t'', telegram_bot_username := ''@bot'',
     telegram_webhook_secret := ''s''\<rparr>"

definition one_uuid :: "string \<Rightarrow> uuid option" where
  "one_uuid s = (if s = ''1'' then Some 1 else None)"

definition bot_events :: "bot_event list" where
  "bot_events =
     [BotStart 0 1 ''abc'',
      BotUpdate 1 (MessageUpdate \<lparr>m_chat_id = Some 5, m_chat_type = Some ''private'',
        m_sender_id = Some 5, m_sender_is_bot = False, m_first_name = Some ''Ann'',
        m_last_name = None, m_username = None, m_text = Some ''/start login-abc''\<rparr>),
      BotUpdate 2 (CallbackUpdate \<lparr>cb_id = Some ''q'', cb_data = Some ''tglogin:ok:1'',
        cb_sender_id = Some 5, cb_chat_id = Some 5, cb_message_id = Some 8\<rparr>)]"

definition bot_demo_db :: db where
  "bot_demo_db = run_state (bot_op id string_of_nat one_uuid (\<lambda>_. ''jwt'') bot_cfg) bot_events empty_db"

lemma bot_demo_rows:
  "telegram_bot_logins bot_demo_db =
     [\<lparr>bot_id = 1, bot_code_hash = ''abc'', bot_status = ''confirmed'', bot_telegram_id = Some ''5'',
       bot_telegram_first_name = Some ''Ann'', bot_telegram_last_name = None,
       bot_telegram_username = None, bot_expires_at = 300000000\<rparr>]"
  "users bot_demo_db = []"
  by code_simp+

lemma bot_demo_poll:
  "\<exists>t d'. poll_bot_login id (\<lambda>_. ''jwt'') bot_cfg 3 1 2 ''abc'' None None bot_demo_db =
     Inr (BotConfirmed t, d')"
proof -
  have "case poll_bot_login id (\<lambda>_. ''jwt'') bot_cfg 3 1 2 ''abc'' None None bot_demo_db of
      Inr (BotConfirmed t, d') \<Rightarrow> True | _ \<Rightarrow> False"
    by code_simp
  then show ?thesis by (auto split: sum.splits prod.splits bot_poll.splits)
qed


end
