(* ===== verification/Access.thy ===== *)
theory Access
  imports Accounts
begin

text \<open>
  \<open>app/services/content_access.py\<close> with the membership test of \<open>app/catalog/free_today.py\<close>: who may
  watch a title or a live channel, and why.
\<close>

section \<open>The decision\<close>

definition find_content :: "uuid \<Rightarrow> db \<Rightarrow> content_row option" where
  "find_content cid d = select_one (\<lambda>c. ct_id c = cid) (contents d)"

definition is_admin :: "user_row option \<Rightarrow> bool" where
  "is_admin user = (case user of None \<Rightarrow> False | Some u \<Rightarrow> user_role u = ''admin'')"

definition get_published_content_or_404 :: "uuid \<Rightarrow> user_row option \<Rightarrow> db \<Rightarrow> content_row result" where
  "get_published_content_or_404 cid user d =
     (case find_content cid d of
        None \<Rightarrow> Inl (NotFoundError ''Content not found'')
      | Some c \<Rightarrow>
          if is_admin user then Inr c
          else if \<not> ct_is_published c then Inl (NotFoundError ''Content not found'')
          else Inr c)"

definition user_has_active_subscription :: "datetime \<Rightarrow> uuid \<Rightarrow> db \<Rightarrow> bool" where
  "user_has_active_subscription now uid d =
     exists_row (\<lambda>s. sub_user_id s = uid \<and> sub_status s = ''active'' \<and> now < sub_current_period_end s)
       (subscriptions d)"

definition has_series_purchase :: "uuid \<Rightarrow> uuid option \<Rightarrow> string option \<Rightarrow> db \<Rightarrow> bool" where
  "has_series_purchase series_id uid guest_id d =
     (case uid of
        Some _ \<Rightarrow> exists_row (\<lambda>p. spu_user_id p = uid \<and> spu_series_id p = series_id) (series_purchases d)
      | None \<Rightarrow>
          truthy guest_id \<and>
          exists_row (\<lambda>p. spu_guest_id p = guest_id \<and> spu_series_id p = series_id) (series_purchases d))"

definition movie_is_free :: "content_row \<Rightarrow> bool" where
  "movie_is_free c \<longleftrightarrow> ct_is_free c \<or> (case ct_price_usd c of None \<Rightarrow> True | Some p \<Rightarrow> p \<le> 0)"

text \<open>The movies pinned to a visible \<open>free_today\<close> home section.\<close>

definition free_today_content_ids_from_sections :: "db \<Rightarrow> uuid list" where
  "free_today_content_ids_from_sections d =
     map item_ref_id (filter (\<lambda>i. item_item_kind i = ''movie'' \<and>
         exists_row (\<lambda>s. sec_id s = item_section_id i \<and> sec_type s = ''free_today'' \<and> sec_is_visible s)
           (home_sections d)) (home_section_items d))"

definition content_ids_free_today :: "db \<Rightarrow> uuid set" where
  "content_ids_free_today d =
     set (map ft_content_id (free_today_items d)) \<union> set (free_today_content_ids_from_sections d)"

definition is_free_today :: "uuid \<Rightarrow> db \<Rightarrow> bool" where
  "is_free_today cid d =
     (if cid \<in> set (free_today_content_ids_from_sections d) then True
      else exists_row (\<lambda>f. ft_content_id f = cid) (free_today_items d))"

definition has_movie_purchase :: "uuid option \<Rightarrow> string option \<Rightarrow> uuid \<Rightarrow> db \<Rightarrow> bool" where
  "has_movie_purchase uid guest_id cid d =
     (case uid of
        Some _ \<Rightarrow> exists_row (\<lambda>p. pu_user_id p = uid \<and> pu_content_id p = cid) (purchases d)
      | None \<Rightarrow> exists_row (\<lambda>p. pu_guest_id p = guest_id \<and> pu_content_id p = cid) (purchases d))"

text \<open>\<open>free_flag\<close> is the optional, already resolved Free-today membership.\<close>

definition can_access_content ::
    "datetime \<Rightarrow> user_row option \<Rightarrow> string option \<Rightarrow> content_row \<Rightarrow> bool option \<Rightarrow> db \<Rightarrow> bool" where
  "can_access_content now user guest_id c free_flag d =
     (if is_admin user then True
      else if \<not> ct_is_published c then False
      else if ct_is_free c then True
      else if ct_type c = ''single'' then
        (if movie_is_free c then True
         else if (case free_flag of Some b \<Rightarrow> b | None \<Rightarrow> is_free_today (ct_id c) d) then True
         else (case user of
                 Some u \<Rightarrow>
                   if user_has_active_subscription now (user_id u) d then True
                   else has_movie_purchase (Some (user_id u)) None (ct_id c) d
               | None \<Rightarrow>
                   if truthy guest_id then has_movie_purchase None guest_id (ct_id c) d else False))
      else if ct_type c = ''episode'' then
        (case ct_series_id c of
           None \<Rightarrow> False
         | Some sid \<Rightarrow>
           (case user of
              Some u \<Rightarrow>
                if user_has_active_subscription now (user_id u) d then True
                else has_series_purchase sid (Some (user_id u)) None d
            | None \<Rightarrow> if truthy guest_id then has_series_purchase sid None guest_id d else False))
      else if ct_type c = ''podcast'' then
        (case user of None \<Rightarrow> False | Some u \<Rightarrow> user_has_active_subscription now (user_id u) d)
      else False)"

definition can_access_channel :: "datetime \<Rightarrow> user_row option \<Rightarrow> channel_row \<Rightarrow> db \<Rightarrow> bool" where
  "can_access_channel now user ch d =
     (if is_admin user then True
      else if ch_is_free ch then True
      else (case user of None \<Rightarrow> False | Some u \<Rightarrow> user_has_active_subscription now (user_id u) d))"

definition assert_can_track_watch_progress :: "datetime \<Rightarrow> user_row \<Rightarrow> uuid \<Rightarrow> db \<Rightarrow> content_row result" where
  "assert_can_track_watch_progress now user cid d =
     (case get_published_content_or_404 cid (Some user) d of
        Inl e \<Rightarrow> Inl e
      | Inr c \<Rightarrow>
          if can_access_content now (Some user) None c None d then Inr c
          else Inl (ForbiddenError ''You do not have access to this title''))"

section \<open>The reasons\<close>

text \<open>
  The entitlement rules as the product states them, independent of the order the code tests them in:
  an inductive relation with one rule per way of being allowed to watch.
\<close>

inductive entitled ::
    "datetime \<Rightarrow> db \<Rightarrow> user_row option \<Rightarrow> string option \<Rightarrow> content_row \<Rightarrow> bool"
  for now :: datetime and d :: db where
  admin: "user_role u = ''admin'' \<Longrightarrow> entitled now d (Some u) g c"
| free: "ct_is_published c \<Longrightarrow> ct_is_free c \<Longrightarrow> entitled now d user g c"
| no_price: "ct_is_published c \<Longrightarrow> ct_type c = ''single'' \<Longrightarrow> ct_price_usd c = None \<Longrightarrow>
     entitled now d user g c"
| zero_price: "ct_is_published c \<Longrightarrow> ct_type c = ''single'' \<Longrightarrow> ct_price_usd c = Some p \<Longrightarrow> p \<le> 0 \<Longrightarrow>
     entitled now d user g c"
| free_today: "ct_is_published c \<Longrightarrow> ct_type c = ''single'' \<Longrightarrow>
     ct_id c \<in> content_ids_free_today d \<Longrightarrow> entitled now d user g c"
| subscribed: "ct_is_published c \<Longrightarrow>
     ct_type c = ''single'' \<or> ct_type c = ''podcast'' \<or> ct_type c = ''episode'' \<and> ct_series_id c \<noteq> None \<Longrightarrow>
     s \<in> set (subscriptions d) \<Longrightarrow> sub_user_id s = user_id u \<Longrightarrow> sub_status s = ''active'' \<Longrightarrow>
     now < sub_current_period_end s \<Longrightarrow> entitled now d (Some u) g c"
| bought: "ct_is_published c \<Longrightarrow> ct_type c = ''single'' \<Longrightarrow> p \<in> set (purchases d) \<Longrightarrow>
     pu_user_id p = Some (user_id u) \<Longrightarrow> pu_content_id p = ct_id c \<Longrightarrow> entitled now d (Some u) g c"
| guest_bought: "ct_is_published c \<Longrightarrow> ct_type c = ''single'' \<Longrightarrow> p \<in> set (purchases d) \<Longrightarrow>
     g \<noteq> [] \<Longrightarrow> pu_guest_id p = Some g \<Longrightarrow> pu_content_id p = ct_id c \<Longrightarrow>
     entitled now d None (Some g) c"
| unlocked: "ct_is_published c \<Longrightarrow> ct_type c = ''episode'' \<Longrightarrow> ct_series_id c = Some sid \<Longrightarrow>
     p \<in> set (series_purchases d) \<Longrightarrow> spu_user_id p = Some (user_id u) \<Longrightarrow> spu_series_id p = sid \<Longrightarrow>
     entitled now d (Some u) g c"
| guest_unlocked: "ct_is_published c \<Longrightarrow> ct_type c = ''episode'' \<Longrightarrow> ct_series_id c = Some sid \<Longrightarrow>
     p \<in> set (series_purchases d) \<Longrightarrow> g \<noteq> [] \<Longrightarrow> spu_guest_id p = Some g \<Longrightarrow> spu_series_id p = sid \<Longrightarrow>
     entitled now d None (Some g) c"

lemmas access_defs = can_access_content_def is_admin_def movie_is_free_def
  user_has_active_subscription_def has_movie_purchase_def has_series_purchase_def exists_row_iff

lemma is_free_today_iff: "is_free_today cid d \<longleftrightarrow> cid \<in> content_ids_free_today d"
  by (auto simp: is_free_today_def content_ids_free_today_def exists_row_iff)

lemma entitled_can_access: "entitled now d user g c \<Longrightarrow> can_access_content now user g c None d"
  by (induction rule: entitled.induct) (auto simp: access_defs is_free_today_iff)

lemma subscribed_entitled:
  "user_has_active_subscription now (user_id u) d \<Longrightarrow> ct_is_published c \<Longrightarrow>
   ct_type c = ''single'' \<or> ct_type c = ''podcast'' \<or> ct_type c = ''episode'' \<and> ct_series_id c \<noteq> None \<Longrightarrow>
   entitled now d (Some u) g c"
  unfolding user_has_active_subscription_def exists_row_iff by (blast intro: entitled.subscribed)

lemma movie_entitled:
  assumes "can_access_content now user g c None d" and "ct_type c = ''single''" and "\<not> is_admin user"
  shows "entitled now d user g c"
proof -
  have pub: "ct_is_published c" using assms by (auto simp: can_access_content_def split: if_splits)
  show ?thesis
  proof (cases "movie_is_free c \<or> ct_id c \<in> content_ids_free_today d")
    case True
    with pub assms(2) show ?thesis
      by (auto simp: movie_is_free_def split: option.splits
          intro: entitled.free entitled.no_price entitled.zero_price entitled.free_today)
  next
    case False
    show ?thesis
    proof (cases user)
      case None
      with assms False pub show ?thesis
        by (cases g) (auto simp: access_defs is_free_today_iff split: if_splits intro: entitled.guest_bought)
    next
      case (Some u)
      show ?thesis
      proof (cases "user_has_active_subscription now (user_id u) d")
        case True
        with pub assms(2) Some show ?thesis by (auto intro: subscribed_entitled)
      next
        case F: False
        with assms False pub Some show ?thesis
          by (auto simp: can_access_content_def movie_is_free_def has_movie_purchase_def is_free_today_iff
              exists_row_iff split: if_splits intro: entitled.bought)
      qed
    qed
  qed
qed

lemma episode_entitled:
  assumes "can_access_content now user g c None d" and "ct_type c = ''episode''" and "\<not> is_admin user"
  shows "entitled now d user g c"
proof (cases "ct_is_free c")
  case True
  with assms show ?thesis by (auto simp: can_access_content_def split: if_splits intro: entitled.free)
next
  case False
  then obtain sid where s: "ct_series_id c = Some sid" and pub: "ct_is_published c"
    using assms by (cases "ct_series_id c") (auto simp: can_access_content_def split: if_splits)
  show ?thesis
  proof (cases user)
    case None
    with assms False s pub show ?thesis
      by (cases g) (auto simp: access_defs split: if_splits intro: entitled.guest_unlocked)
  next
    case (Some u)
    show ?thesis
    proof (cases "user_has_active_subscription now (user_id u) d")
      case True
      with pub assms(2) Some s show ?thesis by (auto intro: subscribed_entitled)
    next
      case F: False
      with assms False pub Some s show ?thesis
        by (auto simp: can_access_content_def has_series_purchase_def exists_row_iff
            split: if_splits intro: entitled.unlocked)
    qed
  qed
qed

lemma can_access_entitled:
  assumes "can_access_content now user g c None d"
  shows "entitled now d user g c"
proof (cases "is_admin user")
  case True
  then show ?thesis by (auto simp: is_admin_def split: option.splits intro: entitled.admin)
next
  case False
  consider "ct_type c = ''single''" | "ct_type c = ''episode''"
    | (other) "ct_type c \<noteq> ''single''" "ct_type c \<noteq> ''episode''" by blast
  then show ?thesis
  proof cases
    case other
    with assms False show ?thesis
      by (auto simp: can_access_content_def split: if_splits option.splits
          intro: entitled.free subscribed_entitled)
  qed (use assms False movie_entitled episode_entitled in blast)+
qed

section \<open>Properties\<close>

lemma access_iff_entitled_facts:
  shows "can_access_content now user g c None d \<longleftrightarrow> entitled now d user g c"
    and "can_access_content now user g c (Some (is_free_today (ct_id c) d)) d \<longleftrightarrow> entitled now d user g c"
proof -
  show "can_access_content now user g c None d \<longleftrightarrow> entitled now d user g c"
    using can_access_entitled entitled_can_access by blast
  moreover have "can_access_content now user g c (Some (is_free_today (ct_id c) d)) d
      \<longleftrightarrow> can_access_content now user g c None d"
    by (simp add: can_access_content_def)
  ultimately show "can_access_content now user g c (Some (is_free_today (ct_id c) d)) d
      \<longleftrightarrow> entitled now d user g c" by simp
qed

text \<open>
  C4: The entitlement check grants exactly the stated rules. \<open>can_access_content\<close> is true if and only
  if one of the rules applies: an administrator; or a published title that is free, has no price, is
  on today's free list, is covered by an active subscription that has not run out, or was bought (the
  series unlocked) by this account or, for a visitor who is not signed in, under this guest id. A
  caller that passes the resolved free-today flag gets the same answer.
\<close>

theorem access_iff_entitled:
    "((can_access_content now user g c None d \<longleftrightarrow> entitled now d user g c)) \<and>
     ((can_access_content now user g c (Some (is_free_today (ct_id c) d)) d \<longleftrightarrow> entitled now d user g c))"
  using access_iff_entitled_facts by blast

text \<open>The tables an entitlement depends on.\<close>

definition entitlement_tables ::
    "db \<Rightarrow> purchase_row list \<times> series_purchase_row list \<times> subscription_row list \<times> uuid set" where
  "entitlement_tables d = (purchases d, series_purchases d, subscriptions d, content_ids_free_today d)"

lemma entitled_tables:
  assumes "entitled now d user g c" and "entitlement_tables d' = entitlement_tables d"
  shows "entitled now d' user g c"
  using assms(1)
proof (cases rule: entitled.cases)
  case free_today
  with assms(2) show ?thesis by (auto simp: entitlement_tables_def intro: entitled.free_today)
qed (use assms(2) in \<open>auto simp: entitlement_tables_def intro: entitled.intros\<close>)

lemma free_today_claim [simp]:
  "content_ids_free_today (claim_rows uid g d) = content_ids_free_today d"
  by (simp add: content_ids_free_today_def free_today_content_ids_from_sections_def
      claim_rows_def)

lemma claimed_purchase:
  assumes "p \<in> set (purchases d)" and "pu_guest_id p = Some g" and "g \<noteq> []"
  shows "p\<lparr>pu_user_id := Some uid, pu_guest_id := None\<rparr>
    \<in> set (purchases (claim_rows uid (Some g) d))"
  using assms by (auto simp: claim_rows_def in_update_where truthy_iff neq_Nil_conv)

lemma claimed_unlock:
  assumes "p \<in> set (series_purchases d)" and "spu_guest_id p = Some g" and "g \<noteq> []"
  shows "p\<lparr>spu_user_id := Some uid, spu_guest_id := None\<rparr>
    \<in> set (series_purchases (claim_rows uid (Some g) d))"
  using assms by (auto simp: claim_rows_def in_update_where truthy_iff neq_Nil_conv)

lemma claimed_entitled:
  assumes "entitled now d None (Some g) c"
  shows "entitled now (claim_rows (user_id u) (Some g) d) (Some u) g' c"
  using assms
proof (cases rule: entitled.cases)
  case (guest_bought p)
  with claimed_purchase [of p d g "user_id u"] show ?thesis
    by (auto intro!: entitled.bought [where p = "p\<lparr>pu_user_id := Some (user_id u), pu_guest_id := None\<rparr>"])
next
  case (guest_unlocked sid p)
  with claimed_unlock [of p d g "user_id u"] show ?thesis
    by (auto intro!: entitled.unlocked
        [where p = "p\<lparr>spu_user_id := Some (user_id u), spu_guest_id := None\<rparr>"])
qed (auto intro: entitled.intros)

lemma finish_sign_in_tables:
  assumes "finish_sign_in enc cfg now sid ua g acc d = Inr (u, t, d')"
  shows "entitlement_tables d' = entitlement_tables (claim_rows (user_id u) g d)"
proof -
  obtain n v where acc: "acc = (n, v)" by (cases acc)
  show ?thesis using assms
    by (auto simp: acc finish_sign_in_def ok_iff entitlement_tables_def content_ids_free_today_def
        free_today_content_ids_from_sections_def claim_rows_def put_user_def
        split: if_splits sum.splits)
qed

lemma password_login_tables:
  assumes "authenticate_user vp enc cfg now sid email pw ua g d = Inr (u, t, d')"
  shows "entitlement_tables d' = entitlement_tables (claim_rows (user_id u) g d)"
  using assms
  by (auto simp: authenticate_user_def ok_iff entitlement_tables_def content_ids_free_today_def
      free_today_content_ids_from_sections_def split: option.splits if_splits sum.splits)

lemma consume_nonce_tables:
  "consume_telegram_nonce h now n d = Inr d1 \<Longrightarrow>
   entitlement_tables (claim_rows uid g d1) = entitlement_tables (claim_rows uid g d)"
  by (auto simp: consume_telegram_nonce_def entitlement_tables_def content_ids_free_today_def
      free_today_content_ids_from_sections_def claim_rows_def split: option.splits if_splits)

lemma sign_in_keeps_guest_access_facts:
  assumes "can_access_content now None (Some g) c None d"
  shows "authenticate_user vp enc cfg now sid email pw ua (Some g) d = Inr (u, t, d') \<Longrightarrow>
      can_access_content now (Some u) None c None d'"
    and "authenticate_google V enc cfg now uid sid tok ua (Some g) d = Inr (u, t, d') \<Longrightarrow>
      can_access_content now (Some u) None c None d'"
    and "authenticate_apple W sha enc cfg now uid sid tok nonce name ua (Some g) d = Inr (u, t, d') \<Longrightarrow>
      can_access_content now (Some u) None c None d'"
    and "authenticate_telegram h sha hm enc cfg now uid sid r ua (Some g) d = Inr (u, t, d') \<Longrightarrow>
      can_access_content now (Some u) None c None d'"
proof -
  have keep: "can_access_content now (Some u) None c None d'"
    if "entitlement_tables d' = entitlement_tables (claim_rows (user_id u) (Some g) d)" for d'
    by (rule entitled_can_access
        [OF entitled_tables [OF claimed_entitled [OF can_access_entitled [OF assms]] that]])
  show "can_access_content now (Some u) None c None d'"
    if "authenticate_user vp enc cfg now sid email pw ua (Some g) d = Inr (u, t, d')"
    using that by (rule keep [OF password_login_tables])
  show "can_access_content now (Some u) None c None d'"
    if "authenticate_google V enc cfg now uid sid tok ua (Some g) d = Inr (u, t, d')"
    using that by (rule authenticate_google_ok) (erule keep [OF finish_sign_in_tables])
  show "can_access_content now (Some u) None c None d'"
    if "authenticate_apple W sha enc cfg now uid sid tok nonce name ua (Some g) d = Inr (u, t, d')"
    using that by (rule authenticate_apple_ok) (erule keep [OF finish_sign_in_tables])
  show "can_access_content now (Some u) None c None d'"
    if "authenticate_telegram h sha hm enc cfg now uid sid r ua (Some g) d = Inr (u, t, d')"
    using that
    by (rule authenticate_telegram_ok)
      (simp add: login_telegram_identity_def keep finish_sign_in_tables consume_nonce_tables)
qed

text \<open>
  Signing in never loses what a guest bought. If the guest id may watch a title, then after a
  successful password, Google, Apple or Telegram login that presents the guest id, the account that
  was signed in may watch it.
\<close>

theorem sign_in_keeps_guest_access:
  assumes "can_access_content now None (Some g) c None d"
  shows "(authenticate_user vp enc cfg now sid email pw ua (Some g) d = Inr (u, t, d') \<longrightarrow>
      can_access_content now (Some u) None c None d') \<and>
     (authenticate_google V enc cfg now uid sid tok ua (Some g) d = Inr (u, t, d') \<longrightarrow>
      can_access_content now (Some u) None c None d') \<and>
     (authenticate_apple W sha enc cfg now uid sid tok nonce name ua (Some g) d = Inr (u, t, d') \<longrightarrow>
      can_access_content now (Some u) None c None d') \<and>
     (authenticate_telegram h sha hm enc cfg now uid sid r ua (Some g) d = Inr (u, t, d') \<longrightarrow>
      can_access_content now (Some u) None c None d')"
  by (intro conjI impI; rule sign_in_keeps_guest_access_facts [OF assms]; assumption)

definition bought_movie :: content_row where
  "bought_movie = default_content\<lparr>ct_id := 3, ct_is_published := True, ct_price_usd := Some 2\<rparr>"

definition guest_db :: db where
  "guest_db = empty_db\<lparr>users := [default_user\<lparr>user_id := 7, user_email := ''a@x.io'',
       user_password_hash := Some ''pw''\<rparr>],
     purchases := [\<lparr>pu_id = 1, pu_user_id = None, pu_guest_id = Some ''g'', pu_content_id = 3,
       pu_intent_id = ''i'', pu_order_id = ''o'', pu_bank = None, pu_amount_usd = 2,
       pu_purchased_at = 0\<rparr>]\<rparr>"

lemma guest_db_access: "can_access_content 0 None (Some ''g'') bought_movie None guest_db"
  by (simp add: can_access_content_def is_admin_def bought_movie_def default_content_def
      movie_is_free_def is_free_today_def free_today_content_ids_from_sections_def guest_db_def
      has_movie_purchase_def)

lemma guest_db_login:
  "\<exists>u t d'. authenticate_user (=) (\<lambda>_. ()) default_settings 0 9 ''A@x.io'' ''pw'' None (Some ''g'') guest_db =
     Inr (u, t, d')"
proof -
  have "case authenticate_user (=) (\<lambda>_. ()) default_settings 0 9 ''A@x.io'' ''pw'' None (Some ''g'')
      guest_db of Inl _ \<Rightarrow> False | Inr _ \<Rightarrow> True"
    by code_simp
  then show ?thesis by (auto split: sum.splits)
qed

theorem sign_in_keeps_guest_access_witness:
  "\<exists>u t d'. authenticate_user (=) (\<lambda>_. ()) default_settings 0 9 ''A@x.io'' ''pw'' None (Some ''g'') guest_db =
     Inr (u, t, d') \<and> can_access_content 0 (Some u) None bought_movie None d'"
proof -
  obtain u t d' where l: "authenticate_user (=) (\<lambda>_. ()) default_settings 0 9 ''A@x.io'' ''pw'' None
      (Some ''g'') guest_db = Inr (u, t, d')" using guest_db_login by blast
  from sign_in_keeps_guest_access [THEN conjunct1, rule_format (no_asm), OF guest_db_access l] l show ?thesis by blast
qed

end
