(* ===== verification/Tv_Codes.thy ===== *)
theory Tv_Codes
  imports Access Constraints
begin

text \<open>
  \<open>app/services/tv_access_codes.py\<close>: TV IDs an administrator hands out. Each ID owns a synthetic
  user and a \<open>tv_access\<close> subscription whose end is the ID's expiry. Times are UTC-aware, so
  \<open>_ensure_aware\<close> is the identity. Row ids, the random code candidates and the random password
  hash are arguments.
\<close>

definition tv_plan :: string where "tv_plan = ''tv_access''"

definition tv_is_expired :: "datetime \<Rightarrow> tv_code_row \<Rightarrow> bool" where
  "tv_is_expired now row \<longleftrightarrow> tvc_expires_at row \<le> now"

text \<open>\<open>_normalize_code\<close> of \<open>app/schemas/tv_access_code.py\<close>; \<open>isalnum\<close> on ASCII.\<close>

definition is_alnum :: "char \<Rightarrow> bool" where
  "is_alnum c = (let n = (of_char c :: nat) in
     48 \<le> n \<and> n \<le> 57 \<or> 65 \<le> n \<and> n \<le> 90 \<or> 97 \<le> n \<and> n \<le> 122)"

definition normalize_code :: "string \<Rightarrow> string result" where
  "normalize_code value =
     (let cleaned = filter (\<lambda>ch. is_alnum ch \<or> ch = CHR ''-'' \<or> ch = CHR ''_'') (upper (strip value)) in
      if length cleaned < 4 then Inl (ValueError ''TV ID must be at least 4 characters'')
      else if 32 < length cleaned then Inl (ValueError ''TV ID must be at most 32 characters'')
      else Inr cleaned)"

definition normalize_optional_code :: "string option \<Rightarrow> string option result" where
  "normalize_optional_code value =
     (case value of
        None \<Rightarrow> Inr None
      | Some v \<Rightarrow> if strip v = [] then Inr None
                  else (case normalize_code v of Inl e \<Rightarrow> Inl e | Inr c \<Rightarrow> Inr (Some c)))"

definition strip_label :: "string option \<Rightarrow> string option" where
  "strip_label value =
     (case value of None \<Rightarrow> None | Some v \<Rightarrow> (case strip v of [] \<Rightarrow> None | s \<Rightarrow> Some s))"

definition generate_code :: "string \<Rightarrow> string" where
  "generate_code body = ''TV-'' @ body"

text \<open>The random bodies the twelve attempts draw are the argument.\<close>

definition unique_code :: "string list \<Rightarrow> string option \<Rightarrow> db \<Rightarrow> string result" where
  "unique_code bodies preferred d =
     (if truthy preferred then
        (if exists_row (\<lambda>t. tvc_code t = the preferred) (tv_access_codes d)
         then Inl (ConflictError ''This TV ID is already in use'')
         else Inr (the preferred))
      else (case filter (\<lambda>c. \<not> exists_row (\<lambda>t. tvc_code t = c) (tv_access_codes d))
                   (map generate_code (take 12 bodies)) of
              [] \<Rightarrow> Inl (ConflictError ''Could not generate a unique TV ID. Try again.'')
            | c # _ \<Rightarrow> Inr c))"

text \<open>\<open>to_read\<close>: the row and whether it has expired.\<close>

definition tv_to_read :: "datetime \<Rightarrow> tv_code_row \<Rightarrow> tv_code_row \<times> bool" where
  "tv_to_read now row = (row, tv_is_expired now row)"

definition list_tv_access_codes :: "datetime \<Rightarrow> db \<Rightarrow> (tv_code_row \<times> bool) list" where
  "list_tv_access_codes now d =
     map (tv_to_read now) (order_by (\<lambda>t. - tvc_created_at t) (tv_access_codes d))"

record tv_code_create =
  tcc_label :: "string option"
  tcc_expires_at :: datetime
  tcc_code :: "string option"
  tcc_is_active :: bool

definition tv_email :: "string \<Rightarrow> string" where
  "tv_email code = ''tv+'' @ filter (\<lambda>c. c \<noteq> CHR ''-'') (lower code) @ ''@tv.reeltime.local''"

definition create_tv_access_code ::
    "datetime \<Rightarrow> uuid \<Rightarrow> uuid \<Rightarrow> uuid \<Rightarrow> string list \<Rightarrow> string \<Rightarrow> tv_code_create \<Rightarrow> db \<Rightarrow>
     ((tv_code_row \<times> bool) \<times> db) result" where
  "create_tv_access_code now uid subid tid bodies pw_hash data d =
     (if tcc_expires_at data \<le> now then Inl (ConflictError ''Expiry must be in the future'')
      else (case unique_code bodies (tcc_code data) d of
              Inl e \<Rightarrow> Inl e
            | Inr code \<Rightarrow>
              (let u = default_user\<lparr>user_id := uid, user_email := tv_email code,
                         user_password_hash := Some pw_hash,
                         user_full_name := or_else (tcc_label data) (Some (''TV '' @ code)),
                         user_role := ''user'', user_is_active := True, user_created_at := now\<rparr>;
                   status = (if tcc_is_active data then ''active'' else ''cancelled'');
                   sub = \<lparr>sub_id = subid, sub_user_id = uid, sub_plan = tv_plan, sub_status = status,
                          sub_current_period_start = now,
                          sub_current_period_end = tcc_expires_at data\<rparr>;
                   row = \<lparr>tvc_id = tid, tvc_code = code, tvc_label = tcc_label data,
                          tvc_user_id = uid, tvc_expires_at = tcc_expires_at data,
                          tvc_is_active = tcc_is_active data, tvc_created_at = now\<rparr>
               in case insert_user u d of
                    Inl e \<Rightarrow> Inl e
                  | Inr d1 \<Rightarrow>
                    if \<not> subscription_status_ok status then Inl IntegrityError
                    else Inr (tv_to_read now row,
                              d1\<lparr>subscriptions := subscriptions d1 @ [sub],
                                 tv_access_codes := tv_access_codes d1 @ [row]\<rparr>))))"

definition get_tv_row :: "uuid \<Rightarrow> db \<Rightarrow> tv_code_row result" where
  "get_tv_row code_id d =
     (case select_one (\<lambda>t. tvc_id t = code_id) (tv_access_codes d) of
        None \<Rightarrow> Inl (NotFoundError ''TV access ID not found'')
      | Some row \<Rightarrow> Inr row)"

text \<open>The fields the request sets (\<open>exclude_unset\<close>): \<open>Some None\<close> is a label sent as null.\<close>

record tv_code_update =
  tcu_label :: "string option option"
  tcu_expires_at :: "datetime option"
  tcu_is_active :: "bool option"

definition set_tv_row :: "uuid \<Rightarrow> (tv_code_row \<Rightarrow> tv_code_row) \<Rightarrow> db \<Rightarrow> db" where
  "set_tv_row tid f d = d\<lparr>tv_access_codes := update_where (\<lambda>t. tvc_id t = tid) f (tv_access_codes d)\<rparr>"

definition set_user :: "uuid \<Rightarrow> (user_row \<Rightarrow> user_row) \<Rightarrow> db \<Rightarrow> db" where
  "set_user uid f d = d\<lparr>users := update_where (\<lambda>u. user_id u = uid) f (users d)\<rparr>"

definition tv_subscriptions ::
    "uuid \<Rightarrow> (subscription_row \<Rightarrow> subscription_row) \<Rightarrow> db \<Rightarrow> db" where
  "tv_subscriptions uid f d =
     d\<lparr>subscriptions := update_where (\<lambda>s. sub_user_id s = uid \<and> sub_plan s = tv_plan) f (subscriptions d)\<rparr>"

definition has_tv_subscription :: "uuid \<Rightarrow> db \<Rightarrow> bool" where
  "has_tv_subscription uid d \<longleftrightarrow>
     exists_row (\<lambda>s. sub_user_id s = uid \<and> sub_plan s = tv_plan) (subscriptions d)"

definition update_label :: "tv_code_row \<Rightarrow> string option \<Rightarrow> db \<Rightarrow> db" where
  "update_label row label d =
     set_user (tvc_user_id row) (\<lambda>u. u\<lparr>user_full_name := or_else label (Some (''TV '' @ tvc_code row))\<rparr>)
       (set_tv_row (tvc_id row) (\<lambda>t. t\<lparr>tvc_label := label\<rparr>) d)"

definition update_expiry :: "tv_code_row \<Rightarrow> datetime \<Rightarrow> db \<Rightarrow> db" where
  "update_expiry row expires_at d =
     tv_subscriptions (tvc_user_id row) (\<lambda>s. s\<lparr>sub_current_period_end := expires_at\<rparr>)
       (set_tv_row (tvc_id row) (\<lambda>t. t\<lparr>tvc_expires_at := expires_at\<rparr>) d)"

definition update_active :: "datetime \<Rightarrow> tv_code_row \<Rightarrow> datetime \<Rightarrow> bool \<Rightarrow> db \<Rightarrow> db result" where
  "update_active now row expires_at active d =
     (let status = (if active \<and> \<not> expires_at \<le> now then ''active'' else ''cancelled'') in
      if has_tv_subscription (tvc_user_id row) d \<and> \<not> subscription_status_ok status
      then Inl IntegrityError
      else Inr (set_user (tvc_user_id row) (\<lambda>u. u\<lparr>user_is_active := active\<rparr>)
             (tv_subscriptions (tvc_user_id row) (\<lambda>s. s\<lparr>sub_status := status\<rparr>)
               (set_tv_row (tvc_id row) (\<lambda>t. t\<lparr>tvc_is_active := active\<rparr>) d))))"

definition update_tv_access_code ::
    "datetime \<Rightarrow> uuid \<Rightarrow> tv_code_update \<Rightarrow> db \<Rightarrow> ((tv_code_row \<times> bool) option \<times> db) result" where
  "update_tv_access_code now code_id data d =
     (case get_tv_row code_id d of
        Inl e \<Rightarrow> Inl e
      | Inr row \<Rightarrow>
        (let d1 = (case tcu_label data of None \<Rightarrow> d | Some l \<Rightarrow> update_label row l d);
             d2 = (case tcu_expires_at data of None \<Rightarrow> d1 | Some t \<Rightarrow> update_expiry row t d1);
             expires = (case tcu_expires_at data of None \<Rightarrow> tvc_expires_at row | Some t \<Rightarrow> t)
         in case (case tcu_is_active data of None \<Rightarrow> Inr d2 | Some b \<Rightarrow> update_active now row expires b d2) of
              Inl e \<Rightarrow> Inl e
            | Inr d3 \<Rightarrow>
                Inr (map_option (tv_to_read now)
                       (select_one (\<lambda>t. tvc_id t = code_id) (tv_access_codes d3)), d3)))"

definition delete_tv_access_code :: "uuid \<Rightarrow> db \<Rightarrow> db result" where
  "delete_tv_access_code code_id d =
     (case get_tv_row code_id d of
        Inl e \<Rightarrow> Inl e
      | Inr row \<Rightarrow>
        (case find_user (tvc_user_id row) d of
           Some _ \<Rightarrow> delete_user_row (tvc_user_id row) d
         | None \<Rightarrow> Inr (d\<lparr>tv_access_codes := delete_where (\<lambda>t. tvc_id t = code_id) (tv_access_codes d)\<rparr>)))"

text \<open>Two commits precede the session, so a refused session leaves their changes behind.\<close>

definition login_with_tv_access_code ::
    "(claims \<Rightarrow> 't) \<Rightarrow> settings \<Rightarrow> datetime \<Rightarrow> uuid \<Rightarrow> string \<Rightarrow> string option \<Rightarrow> db \<Rightarrow> 't result \<times> db" where
  "login_with_tv_access_code encode cfg now sid raw_code user_agent d =
     (case select_one (\<lambda>t. tvc_code t = upper (strip raw_code)) (tv_access_codes d) of
        None \<Rightarrow> (Inl (UnauthorizedError ''Invalid or inactive TV ID''), d)
      | Some row \<Rightarrow>
        if \<not> tvc_is_active row then (Inl (UnauthorizedError ''Invalid or inactive TV ID''), d)
        else if tv_is_expired now row
        then (Inl (UnauthorizedError ''This TV ID has expired. Ask admin for a new one.''), d)
        else (case find_user (tvc_user_id row) d of
                None \<Rightarrow> (Inl (UnauthorizedError ''Invalid or inactive TV ID''), d)
              | Some u \<Rightarrow>
                if \<not> user_is_active u then (Inl (UnauthorizedError ''Invalid or inactive TV ID''), d)
                else
                 (let d1 = tv_subscriptions (user_id u)
                             (\<lambda>s. s\<lparr>sub_status := ''active'', sub_current_period_end := tvc_expires_at row\<rparr>) d;
                      d2 = revoke_all_user_sessions now (user_id u) d1
                  in case create_session cfg now sid (user_id u)
                            (or_else user_agent (Some ''REELTIME TV'')) d2 of
                       Inl e \<Rightarrow> (Inl e, d2)
                     | Inr (s, d3) \<Rightarrow>
                         (Inr (create_access_token encode cfg now (user_id u) (user_role u) (sess_id s) 0),
                          d3))))"

section \<open>What the operations do\<close>

lemma tv_subscriptions_frame [simp, frame]:
  "users (tv_subscriptions uid f d) = users d" "sessions (tv_subscriptions uid f d) = sessions d"
  "tv_access_codes (tv_subscriptions uid f d) = tv_access_codes d"
  "subscriptions (tv_subscriptions uid f d) =
     update_where (\<lambda>s. sub_user_id s = uid \<and> sub_plan s = tv_plan) f (subscriptions d)"
  by (simp_all add: tv_subscriptions_def)

lemma revoke_all_frame [simp, frame]:
  "users (revoke_all_user_sessions now uid d) = users d"
  "subscriptions (revoke_all_user_sessions now uid d) = subscriptions d"
  "tv_access_codes (revoke_all_user_sessions now uid d) = tv_access_codes d"
  by (simp_all add: revoke_all_user_sessions_def)

lemma login_tv_ok:
  assumes "login_with_tv_access_code enc cfg now sid raw ua d = (Inr t, d')"
  obtains row u s where "select_one (\<lambda>t. tvc_code t = upper (strip raw)) (tv_access_codes d) = Some row"
    "tvc_is_active row" "now < tvc_expires_at row" "find_user (tvc_user_id row) d = Some u"
    "user_is_active u"
    "sessions d' = sessions (revoke_all_user_sessions now (user_id u) d) @ [s]"
    "sess_id s = sid" "sess_user_id s = user_id u" "sess_revoked_at s = None"
    "sess_expires_at s = now + minutes (access_token_expire_minutes cfg)"
    "subscriptions d' = subscriptions (tv_subscriptions (user_id u)
       (\<lambda>s. s\<lparr>sub_status := ''active'', sub_current_period_end := tvc_expires_at row\<rparr>) d)"
    "t = create_access_token enc cfg now (user_id u) (user_role u) sid 0"
  using assms
  by (auto simp: login_with_tv_access_code_def Let_def tv_is_expired_def ok_iff
      revoke_all_user_sessions_def split: option.splits if_splits sum.splits)

lemma renewed_tv_subscription:
  assumes "has_tv_subscription uid d" and "t < e"
    and "subscriptions d' = subscriptions (tv_subscriptions uid
           (\<lambda>s. s\<lparr>sub_status := ''active'', sub_current_period_end := e\<rparr>) d)"
  shows "user_has_active_subscription t uid d'"
  using assms(1,2)
  unfolding has_tv_subscription_def user_has_active_subscription_def assms(3)
    tv_subscriptions_frame exists_row_update_where
  by (auto simp: exists_row_iff)

section \<open>Properties\<close>

text \<open>
  A TV ID signs in one box at a time and pays for everything until it expires. After a
  successful login with a TV ID the new session is the only live session of its account, the
  account's subscription is active up to the ID's expiry, and every published movie, episode and
  podcast and every channel is open to it until then.
\<close>

theorem tv_login_single_box:
  assumes "login_with_tv_access_code enc cfg now sid raw ua d = (Inr t, d')"
    and "0 < access_token_expire_minutes cfg"
    and "\<forall>row \<in> set (tv_access_codes d). has_tv_subscription (tvc_user_id row) d"
  shows "\<exists>row u. row \<in> set (tv_access_codes d) \<and> tvc_code row = upper (strip raw) \<and> tvc_is_active row \<and>
      now < tvc_expires_at row \<and> user_id u = tvc_user_id row \<and>
      t = create_access_token enc cfg now (user_id u) (user_role u) sid 0 \<and>
      count_active_sessions d' (user_id u) now = 1 \<and>
      (\<forall>s \<in> set (sessions d'). sess_user_id s = user_id u \<and> is_active_session now s \<longrightarrow> sess_id s = sid) \<and>
      (\<forall>x < tvc_expires_at row. user_has_active_subscription x (user_id u) d' \<and>
         (\<forall>ch. can_access_channel x (Some u) ch d') \<and>
         (\<forall>c. ct_is_published c \<and> (ct_type c = ''single'' \<or> ct_type c = ''podcast'' \<or>
                ct_type c = ''episode'' \<and> ct_series_id c \<noteq> None) \<longrightarrow>
              can_access_content x (Some u) None c None d'))"
  using assms(1)
proof (rule login_tv_ok)
  fix row u s
  assume a: "select_one (\<lambda>t. tvc_code t = upper (strip raw)) (tv_access_codes d) = Some row"
    "tvc_is_active row" "now < tvc_expires_at row" "find_user (tvc_user_id row) d = Some u"
    "sessions d' = sessions (revoke_all_user_sessions now (user_id u) d) @ [s]"
    "sess_id s = sid" "sess_user_id s = user_id u" "sess_revoked_at s = None"
    "sess_expires_at s = now + minutes (access_token_expire_minutes cfg)"
    "subscriptions d' = subscriptions (tv_subscriptions (user_id u)
       (\<lambda>s. s\<lparr>sub_status := ''active'', sub_current_period_end := tvc_expires_at row\<rparr>) d)"
    "t = create_access_token enc cfg now (user_id u) (user_role u) sid 0"
  have row: "row \<in> set (tv_access_codes d)" "tvc_code row = upper (strip raw)"
    using a(1) by (auto dest: select_one_Some)
  have uid: "user_id u = tvc_user_id row" using a(4) by (auto simp: find_user_def dest: select_one_Some)
  have zero: "count_rows (\<lambda>x. sess_user_id x = user_id u \<and> is_active_session now x)
      (sessions (revoke_all_user_sessions now (user_id u) d)) = 0"
    using count_active_revoke_all [of now "user_id u" d "user_id u" now]
    by (simp add: count_active_sessions_def)
  then have none: "\<not> (sess_user_id x = user_id u \<and> is_active_session now x)"
    if "x \<in> set (sessions (revoke_all_user_sessions now (user_id u) d))" for x
    using that by (simp add: count_rows_zero exists_row_iff)
  have "is_active_session now s" using a(8,9) assms(2) by (simp add: is_active_session_def)
  then have one: "count_active_sessions d' (user_id u) now = 1"
    using zero a(7) by (simp add: count_active_sessions_def a(5))
  have sub: "user_has_active_subscription x (user_id u) d'" if "x < tvc_expires_at row" for x
    using renewed_tv_subscription [OF _ that a(10)] assms(3) row(1) uid by simp
  have only: "\<forall>x \<in> set (sessions d'). sess_user_id x = user_id u \<and> is_active_session now x \<longrightarrow> sess_id x = sid"
    using none a(6) by (auto simp: a(5))
  have titles: "can_access_content x (Some u) None c None d'"
    if "x < tvc_expires_at row" and "ct_is_published c" and "ct_type c = ''single'' \<or>
      ct_type c = ''podcast'' \<or> ct_type c = ''episode'' \<and> ct_series_id c \<noteq> None" for x c
    by (rule entitled_can_access [OF subscribed_entitled [OF sub [OF that(1)] that(2,3)]])
  have channels: "can_access_channel x (Some u) ch d'" if "x < tvc_expires_at row" for x ch
    using sub [OF that] by (simp add: can_access_channel_def)
  show ?thesis
    using row a(2,3,11) uid one only sub titles channels
    by (intro exI [of _ row] exI [of _ u]) simp
qed

definition tv_db :: db where
  "tv_db = empty_db\<lparr>users := [default_user\<lparr>user_id := 7\<rparr>],
     subscriptions := [\<lparr>sub_id = 1, sub_user_id = 7, sub_plan = ''tv_access'', sub_status = ''active'',
       sub_current_period_start = 0, sub_current_period_end = 50\<rparr>],
     tv_access_codes := [\<lparr>tvc_id = 4, tvc_code = ''TV-1'', tvc_label = None, tvc_user_id = 7,
       tvc_expires_at = 100, tvc_is_active = True, tvc_created_at = 0\<rparr>]\<rparr>"

lemma tv_db_login:
  "\<exists>d'. login_with_tv_access_code (\<lambda>_. ()) default_settings 0 9 '' tv-1'' None tv_db = (Inr (), d')"
proof -
  have "case login_with_tv_access_code (\<lambda>_. ()) default_settings 0 9 '' tv-1'' None tv_db of
      (Inl _, _) \<Rightarrow> False | (Inr _, _) \<Rightarrow> True"
    by code_simp
  then show ?thesis by (auto split: sum.splits prod.splits)
qed

theorem tv_login_single_box_witness:
  "\<exists>d' u. login_with_tv_access_code (\<lambda>_. ()) default_settings 0 9 '' tv-1'' None tv_db = (Inr (), d') \<and>
     count_active_sessions d' (user_id (u :: user_row)) 0 = 1"
proof -
  obtain d' where l: "login_with_tv_access_code (\<lambda>_. ()) default_settings 0 9 '' tv-1'' None tv_db =
    (Inr (), d')" using tv_db_login by blast
  have "0 < access_token_expire_minutes default_settings" by (simp add: default_settings_def)
  moreover have "\<forall>row \<in> set (tv_access_codes tv_db). has_tv_subscription (tvc_user_id row) tv_db"
    by (simp add: tv_db_def has_tv_subscription_def tv_plan_def)
  ultimately show ?thesis using tv_login_single_box [OF l] l by blast
qed

lemma tv_code_cannot_be_retired_facts:
  assumes "get_tv_row code_id d = Inr row" and "has_tv_subscription (tvc_user_id row) d"
  shows "tcu_is_active data = Some False \<Longrightarrow> update_tv_access_code now code_id data d = Inl IntegrityError"
    and "\<lbrakk>tcu_is_active data = Some True; tcu_expires_at data = None; tv_is_expired now row\<rbrakk> \<Longrightarrow>
         update_tv_access_code now code_id data d = Inl IntegrityError"
    and "find_user (tvc_user_id row) d \<noteq> None \<Longrightarrow> delete_tv_access_code code_id d = Inl IntegrityError"
    and "\<not> tcc_is_active req \<Longrightarrow> \<not> is_ok (create_tv_access_code now uid subid tid bodies pw req d')"
    and "create_tv_access_code now uid subid tid bodies pw req d' = Inr (r, d'') \<Longrightarrow>
         has_tv_subscription (tvc_user_id (fst r)) d''"
proof -
  have lab: "has_tv_subscription uid (update_label row l x) = has_tv_subscription uid x" for uid l x
    by (simp add: update_label_def set_user_def set_tv_row_def has_tv_subscription_def)
  have exp: "has_tv_subscription uid (update_expiry row e x) = has_tv_subscription uid x" for uid e x
    by (simp add: update_expiry_def set_tv_row_def has_tv_subscription_def tv_subscriptions_def
        exists_row_update_keep)
  show "update_tv_access_code now code_id data d = Inl IntegrityError" if "tcu_is_active data = Some False"
    using assms that
    by (simp add: update_tv_access_code_def Let_def update_active_def lab exp subscription_status_ok_def
        split: option.splits)
  show "update_tv_access_code now code_id data d = Inl IntegrityError"
    if "tcu_is_active data = Some True" "tcu_expires_at data = None" "tv_is_expired now row"
    using assms that
    by (simp add: update_tv_access_code_def Let_def update_active_def lab subscription_status_ok_def
        tv_is_expired_def split: option.splits)
  show "delete_tv_access_code code_id d = Inl IntegrityError" if "find_user (tvc_user_id row) d \<noteq> None"
    using assms that
    by (auto simp: delete_tv_access_code_def delete_user_row_def user_is_referenced_def
        has_tv_subscription_def exists_row_iff split: option.splits)
  show "\<not> is_ok (create_tv_access_code now uid subid tid bodies pw req d')" if "\<not> tcc_is_active req"
    using that by (auto simp: create_tv_access_code_def Let_def subscription_status_ok_def split: sum.splits)
  show "has_tv_subscription (tvc_user_id (fst r)) d''"
    if "create_tv_access_code now uid subid tid bodies pw req d' = Inr (r, d'')"
    using that
    by (auto simp: create_tv_access_code_def Let_def has_tv_subscription_def tv_to_read_def
        split: sum.splits if_splits)
qed

text \<open>
  A TV ID can be neither switched off nor deleted. With the constraints the migrations create,
  \<open>subscriptions.status\<close> admits only \<open>active\<close>, \<open>grace\<close> and \<open>expired\<close> and \<open>subscriptions.user_id\<close> does
  not cascade. So creating an ID as inactive, setting \<open>is_active\<close> to false on one, setting it to true
  on an expired one, and deleting one all raise \<open>IntegrityError\<close> and change nothing, for every ID
  whose account still has its subscription, which every ID made by \<open>create_tv_access_code\<close> has.
\<close>

theorem tv_code_cannot_be_retired:
  assumes "get_tv_row code_id d = Inr row" and "has_tv_subscription (tvc_user_id row) d"
  shows "(tcu_is_active data = Some False \<longrightarrow> update_tv_access_code now code_id data d = Inl IntegrityError) \<and>
     (tcu_is_active data = Some True \<longrightarrow> tcu_expires_at data = None \<longrightarrow> tv_is_expired now row \<longrightarrow>
      update_tv_access_code now code_id data d = Inl IntegrityError) \<and>
     (find_user (tvc_user_id row) d \<noteq> None \<longrightarrow> delete_tv_access_code code_id d = Inl IntegrityError) \<and>
     (\<not> tcc_is_active req \<longrightarrow> \<not> is_ok (create_tv_access_code now uid subid tid bodies pw req d')) \<and>
     (create_tv_access_code now uid subid tid bodies pw req d' = Inr (r, d'') \<longrightarrow>
      has_tv_subscription (tvc_user_id (fst r)) d'')"
  by (intro conjI impI; rule tv_code_cannot_be_retired_facts [OF assms]; assumption)

theorem tv_code_cannot_be_retired_witness:
  "update_tv_access_code 10 4 \<lparr>tcu_label = None, tcu_expires_at = None, tcu_is_active = Some False\<rparr> tv_db =
     Inl IntegrityError \<and> delete_tv_access_code 4 tv_db = Inl IntegrityError"
proof -
  have row: "get_tv_row 4 tv_db = Inr (hd (tv_access_codes tv_db))"
    and sub: "has_tv_subscription (tvc_user_id (hd (tv_access_codes tv_db))) tv_db"
    and user: "find_user (tvc_user_id (hd (tv_access_codes tv_db))) tv_db \<noteq> None"
    by (simp_all add: get_tv_row_def tv_db_def has_tv_subscription_def tv_plan_def find_user_def)
  show ?thesis
    using tv_code_cannot_be_retired [THEN conjunct1, rule_format (no_asm), OF row sub]
      tv_code_cannot_be_retired [THEN conjunct2, THEN conjunct2, THEN conjunct1, rule_format (no_asm), OF row sub] user by simp
qed

end
