(* ===== verification/Fulfillment.thy ===== *)
theory Fulfillment
  imports Access Single_Use
begin

text \<open>
  \<open>app/billing/fulfillment.py\<close> and \<open>app/billing/subscription_plans.py\<close>: what a verified payment
  grants, with the success alert of \<open>app/services/telegram.py\<close> and the admin's \<open>Mark paid\<close>
  (\<open>app/routers/admin/payments.py\<close>).
\<close>

section \<open>The transaction\<close>

text \<open>
  The open transaction as its statements see it: the database, the alerts queued on the session
  (\<open>db.info\<close>), and whether a statement (a unique violation, which PostgreSQL answers by aborting the
  transaction) or a flush has failed. After such a failure only a rollback is possible.
\<close>

datatype tx_mode = Live | FailedStatement | FailedFlush

datatype buyer = Guest | GuestToken string | NamedUser string string | UserEmail string | MissingUser uuid

datatype alert_title = PlainTitle string | ContentId uuid

record alert =
  al_label :: string
  al_title :: alert_title
  al_amount :: decimal
  al_method :: string
  al_buyer :: buyer
  al_order :: string
  al_intent :: string

record tx =
  tx_db :: db
  tx_alerts :: "alert list"
  tx_mode :: tx_mode

definition open_tx :: "db \<Rightarrow> tx" where
  "open_tx d = \<lparr>tx_db = d, tx_alerts = [], tx_mode = Live\<rparr>"

text \<open>
  \<open>commit_with_telegram\<close>: the committed database and the alerts delivered. COMMIT of a transaction
  PostgreSQL has aborted rolls it back; SQLAlchemy refuses to commit after a failed flush.
\<close>

definition commit_with_telegram :: "db \<Rightarrow> tx \<Rightarrow> unit result \<times> db \<times> alert list" where
  "commit_with_telegram before t =
     (case tx_mode t of
        Live \<Rightarrow> (Inr (), tx_db t, tx_alerts t)
      | FailedStatement \<Rightarrow> (Inr (), before, tx_alerts t)
      | FailedFlush \<Rightarrow> (Inl IntegrityError, before, []))"

section \<open>The alert\<close>

definition alert_buyer :: "intent_row \<Rightarrow> db \<Rightarrow> buyer" where
  "alert_buyer p d =
     (case pi_user_id p of
        Some uid \<Rightarrow>
          (case select_one (\<lambda>u. user_id u = uid) (users d) of
             None \<Rightarrow> MissingUser uid
           | Some u \<Rightarrow> if truthy (user_full_name u) then NamedUser (the (user_full_name u)) (user_email u)
                       else UserEmail (user_email u))
      | None \<Rightarrow>
          if truthy (pi_guest_id p)
          then GuestToken (let g = the (pi_guest_id p) in if 8 < length g then take 8 g @ ''...'' else g)
          else Guest)"

definition intent_title :: "intent_row \<Rightarrow> db \<Rightarrow> alert_title" where
  "intent_title p d =
     (case (pi_kind p = ''single'', pi_content_id p) of
        (True, Some cid) \<Rightarrow>
          (case find_content cid d of
             None \<Rightarrow> ContentId cid
           | Some c \<Rightarrow> if ct_title c = [] then ContentId cid else PlainTitle (ct_title c))
      | _ \<Rightarrow> PlainTitle ''Subscription'')"

definition build_payment_succeeded_message :: "intent_row \<Rightarrow> string option \<Rightarrow> db \<Rightarrow> alert" where
  "build_payment_succeeded_message p bank d =
     \<lparr>al_label = (if pi_kind p = ''single'' then ''Movie'' else ''Subscription''),
      al_title = intent_title p d,
      al_amount = pi_amount_usd p,
      al_method = (if truthy bank then the bank
                   else if pi_method p \<noteq> [] then pi_method p else ''unknown''),
      al_buyer = alert_buyer p d,
      al_order = pi_order_id p,
      al_intent = pi_intent_id p\<rparr>"

definition notify_payment_succeeded :: "intent_row \<Rightarrow> string option \<Rightarrow> tx \<Rightarrow> tx" where
  "notify_payment_succeeded p bank t =
     t\<lparr>tx_alerts := tx_alerts t @ [build_payment_succeeded_message p bank (tx_db t)]\<rparr>"

section \<open>Plans\<close>

definition list_subscription_plans :: "bool \<Rightarrow> db \<Rightarrow> plan_row list" where
  "list_subscription_plans active_only d =
     order_by (\<lambda>p. (plan_sort_order p, plan_created_at p))
       (filter (\<lambda>p. active_only \<longrightarrow> plan_is_active p) (subscription_plans d))"

definition get_subscription_plan_by_code :: "string \<Rightarrow> db \<Rightarrow> plan_row option" where
  "get_subscription_plan_by_code code d = select_one (\<lambda>p. plan_code p = code) (subscription_plans d)"

definition resolve_active_plan :: "string option \<Rightarrow> db \<Rightarrow> plan_row result" where
  "resolve_active_plan code d =
     (if truthy code then
        (case get_subscription_plan_by_code (the code) d of
           None \<Rightarrow> Inl (NotFoundError ''Subscription plan not found'')
         | Some p \<Rightarrow> if plan_is_active p then Inr p
                     else Inl (NotFoundError ''Subscription plan not found''))
      else
        (case first_row (list_subscription_plans True d) of
           None \<Rightarrow> Inl (NotFoundError ''No active subscription plan configured'')
         | Some p \<Rightarrow> Inr p))"

text \<open>\<open>s.rsplit("-", 1)[0]\<close>, for a string that has a dash.\<close>

definition before_last_dash :: "string \<Rightarrow> string" where
  "before_last_dash s = rev (drop 1 (dropWhile (\<lambda>c. c \<noteq> CHR ''-'') (rev s)))"

definition plan_code_from_order_id :: "string option \<Rightarrow> string option" where
  "plan_code_from_order_id order_id =
     (case order_id of
        None \<Rightarrow> None
      | Some s \<Rightarrow>
          if \<not> starts_with ''sub-'' s then None
          else (let rest = drop 4 s in
                if CHR ''-'' \<notin> set rest then None
                else (let code = before_last_dash rest in if code = [] then None else Some code)))"

text \<open>Python's \<open>max(xs, key=k)\<close>: the first of the largest.\<close>

fun max_by :: "('a \<Rightarrow> 'k::linorder) \<Rightarrow> 'a list \<Rightarrow> 'a option" where
  "max_by k [] = None"
| "max_by k (x # xs) =
     (case max_by k xs of None \<Rightarrow> Some x | Some y \<Rightarrow> if k x < k y then Some y else Some x)"

definition plan_by_amount :: "intent_row \<Rightarrow> db \<Rightarrow> plan_row result" where
  "plan_by_amount p d =
     (let matches = filter (\<lambda>q. plan_price_usd q = pi_amount_usd p) (list_subscription_plans True d) in
      case max_by plan_billing_interval_days matches of
        Some q \<Rightarrow> Inr q
      | None \<Rightarrow> resolve_active_plan None d)"

definition paid_plan_code :: "intent_row \<Rightarrow> string option" where
  "paid_plan_code p =
     (let coded = (case pi_plan_code p of None \<Rightarrow> [] | Some s \<Rightarrow> strip s) in
      if coded \<noteq> [] then Some coded else plan_code_from_order_id (Some (pi_order_id p)))"

definition resolve_plan_for_subscription_intent :: "intent_row \<Rightarrow> db \<Rightarrow> plan_row result" where
  "resolve_plan_for_subscription_intent p d =
     (case paid_plan_code p of
        None \<Rightarrow> plan_by_amount p d
      | Some code \<Rightarrow>
          (case get_subscription_plan_by_code code d of
             None \<Rightarrow> plan_by_amount p d
           | Some q \<Rightarrow> if plan_is_active q then Inr q else plan_by_amount p d))"

definition billing_interval_days :: "intent_row \<Rightarrow> plan_row \<Rightarrow> int" where
  "billing_interval_days p q =
     (case pi_plan_interval_days p of
        Some n \<Rightarrow> if 0 < n then n else plan_billing_interval_days q
      | None \<Rightarrow> plan_billing_interval_days q)"

section \<open>Granting\<close>

definition find_intent :: "string \<Rightarrow> db \<Rightarrow> intent_row option" where
  "find_intent i d = select_one (\<lambda>p. pi_intent_id p = i) (payment_intents d)"

definition set_intent_status :: "string \<Rightarrow> string \<Rightarrow> datetime option \<Rightarrow> db \<Rightarrow> db" where
  "set_intent_status i st resolved d =
     d\<lparr>payment_intents := update_where (\<lambda>p. pi_intent_id p = i)
          (\<lambda>p. p\<lparr>pi_status := st, pi_resolved_at := resolved\<rparr>) (payment_intents d)\<rparr>"

definition fail_statement :: "tx \<Rightarrow> unit result \<times> tx" where
  "fail_statement t = (Inl IntegrityError, t\<lparr>tx_mode := FailedStatement\<rparr>)"

text \<open>
  The three grants. The \<open>INSERT ... ON CONFLICT (intent_id) DO NOTHING\<close> always follows a check that the
  intent has no row yet, so only the other unique column, \<open>order_id\<close>, can conflict. \<open>fresh\<close> is the new
  row's id.
\<close>

definition grant_movie ::
    "datetime \<Rightarrow> uuid \<Rightarrow> intent_row \<Rightarrow> uuid \<Rightarrow> string option \<Rightarrow> tx \<Rightarrow> unit result \<times> tx" where
  "grant_movie now fresh p cid bank t =
     (let rows = purchases (tx_db t) in
      if exists_row (\<lambda>u. pu_intent_id u = pi_intent_id p) rows then (Inr (), t)
      else if exists_row (\<lambda>u. pu_order_id u = pi_order_id p) rows then fail_statement t
      else (Inr (), notify_payment_succeeded p bank
        (t\<lparr>tx_db := (tx_db t)\<lparr>purchases := rows @
             [\<lparr>pu_id = fresh, pu_user_id = pi_user_id p, pu_guest_id = pi_guest_id p,
               pu_content_id = cid, pu_intent_id = pi_intent_id p, pu_order_id = pi_order_id p,
               pu_bank = bank, pu_amount_usd = pi_amount_usd p, pu_purchased_at = now\<rparr>]\<rparr>\<rparr>)))"

definition grant_series ::
    "datetime \<Rightarrow> uuid \<Rightarrow> intent_row \<Rightarrow> uuid \<Rightarrow> string option \<Rightarrow> tx \<Rightarrow> unit result \<times> tx" where
  "grant_series now fresh p sid bank t =
     (let rows = series_purchases (tx_db t) in
      if exists_row (\<lambda>u. spu_intent_id u = pi_intent_id p) rows then (Inr (), t)
      else if exists_row (\<lambda>u. spu_order_id u = pi_order_id p) rows then fail_statement t
      else (Inr (), notify_payment_succeeded p bank
        (t\<lparr>tx_db := (tx_db t)\<lparr>series_purchases := rows @
             [\<lparr>spu_id = fresh, spu_user_id = pi_user_id p, spu_guest_id = pi_guest_id p,
               spu_series_id = sid, spu_intent_id = pi_intent_id p, spu_order_id = pi_order_id p,
               spu_bank = bank, spu_amount_usd = pi_amount_usd p, spu_purchased_at = now\<rparr>]\<rparr>\<rparr>)))"

definition latest_subscription :: "uuid option \<Rightarrow> db \<Rightarrow> subscription_row option" where
  "latest_subscription uid d =
     first_row (order_by (\<lambda>s. - sub_current_period_end s)
       (filter (\<lambda>s. Some (sub_user_id s) = uid) (subscriptions d)))"

definition period_end :: "datetime \<Rightarrow> subscription_row option \<Rightarrow> int \<Rightarrow> datetime" where
  "period_end now sub interval =
     (case sub of None \<Rightarrow> now | Some s \<Rightarrow> if now < sub_current_period_end s then sub_current_period_end s else now)
     + days interval"

definition new_subscription :: "datetime \<Rightarrow> uuid \<Rightarrow> uuid \<Rightarrow> string \<Rightarrow> datetime \<Rightarrow> subscription_row" where
  "new_subscription now fresh uid code until =
     \<lparr>sub_id = fresh, sub_user_id = uid, sub_plan = code, sub_status = ''active'',
      sub_current_period_start = now, sub_current_period_end = until\<rparr>"

definition renew_subscription :: "datetime \<Rightarrow> string \<Rightarrow> datetime \<Rightarrow> subscription_row \<Rightarrow> subscription_row" where
  "renew_subscription now code until s =
     s\<lparr>sub_status := ''active'', sub_plan := code,
       sub_current_period_start := (if sub_current_period_end s \<le> now then now else sub_current_period_start s),
       sub_current_period_end := until\<rparr>"

definition record_sub_payment ::
    "datetime \<Rightarrow> uuid \<Rightarrow> intent_row \<Rightarrow> uuid \<Rightarrow> datetime \<Rightarrow> string option \<Rightarrow> tx \<Rightarrow> unit result \<times> tx" where
  "record_sub_payment now fresh p sid until bank t =
     (let rows = subscription_payments (tx_db t) in
      if exists_row (\<lambda>u. spay_order_id u = pi_order_id p) rows then fail_statement t
      else (Inr (), notify_payment_succeeded p bank
        (t\<lparr>tx_db := (tx_db t)\<lparr>subscription_payments := rows @
             [\<lparr>spay_id = fresh, spay_subscription_id = sid, spay_intent_id = pi_intent_id p,
               spay_order_id = pi_order_id p, spay_bank = bank, spay_amount_usd = pi_amount_usd p,
               spay_paid_at = now, spay_period_extended_to = until\<rparr>]\<rparr>\<rparr>)))"

definition grant_subscription ::
    "datetime \<Rightarrow> uuid \<Rightarrow> intent_row \<Rightarrow> string option \<Rightarrow> tx \<Rightarrow> unit result \<times> tx" where
  "grant_subscription now fresh p bank t =
     (let d = tx_db t in
      if exists_row (\<lambda>u. spay_intent_id u = pi_intent_id p) (subscription_payments d) then (Inr (), t)
      else (case resolve_plan_for_subscription_intent p d of
              Inl e \<Rightarrow> (Inl e, t)
            | Inr q \<Rightarrow>
              (let sub = latest_subscription (pi_user_id p) d;
                   until = period_end now sub (billing_interval_days p q)
               in case sub of
                    Some s \<Rightarrow>
                      record_sub_payment now fresh p (sub_id s) until bank
                        (t\<lparr>tx_db := d\<lparr>subscriptions := update_where (\<lambda>r. sub_id r = sub_id s)
                             (renew_subscription now (plan_code q) until) (subscriptions d)\<rparr>\<rparr>)
                  | None \<Rightarrow>
                      (case pi_user_id p of
                         None \<Rightarrow> (Inl IntegrityError, t\<lparr>tx_mode := FailedFlush\<rparr>)
                       | Some uid \<Rightarrow>
                           record_sub_payment now fresh p fresh until bank
                             (t\<lparr>tx_db := d\<lparr>subscriptions := subscriptions d @
                                  [new_subscription now fresh uid (plan_code q) until]\<rparr>\<rparr>)))))"

definition fulfill_payment_intent ::
    "datetime \<Rightarrow> uuid \<Rightarrow> string \<Rightarrow> string option \<Rightarrow> tx \<Rightarrow> unit result \<times> tx" where
  "fulfill_payment_intent now fresh intent_id bank t =
     (if tx_mode t \<noteq> Live then (Inl IntegrityError, t)
      else (case find_intent intent_id (tx_db t) of
        None \<Rightarrow> (Inr (), t)
      | Some p \<Rightarrow>
        if pi_status p = ''succeeded'' then (Inr (), t)
        else (let t1 = t\<lparr>tx_db := set_intent_status intent_id ''succeeded'' (Some now) (tx_db t)\<rparr> in
              case (pi_kind p = ''single'', pi_content_id p) of
                (True, Some cid) \<Rightarrow> grant_movie now fresh p cid bank t1
              | _ \<Rightarrow>
                (case (pi_kind p = ''series'', pi_series_id p) of
                   (True, Some sid) \<Rightarrow> grant_series now fresh p sid bank t1
                 | _ \<Rightarrow> if pi_kind p \<noteq> ''sub'' then (Inr (), notify_payment_succeeded p bank t1)
                        else grant_subscription now fresh p bank t1))))"

section \<open>Mark paid\<close>

definition admin_fulfill_payment ::
    "datetime \<Rightarrow> uuid \<Rightarrow> uuid \<Rightarrow> string \<Rightarrow> db \<Rightarrow> intent_row result \<times> db \<times> alert list" where
  "admin_fulfill_payment now fresh admin_id intent_id d =
     (case find_intent intent_id d of
        None \<Rightarrow> (Inl (NotFoundError ''Payment intent not found''), d, [])
      | Some p \<Rightarrow>
        if pi_status p = ''succeeded'' then (Inr p, d, [])
        else if pi_status p \<noteq> ''pending''
        then (Inl (HTTPException 409 (''Cannot fulfill intent in status='' @ pi_status p)), d, [])
        else (case fulfill_payment_intent now fresh intent_id (Some ''manual_bakong'') (open_tx d) of
                (Inl e, _) \<Rightarrow> (Inl e, d, [])
              | (Inr _, t) \<Rightarrow>
                if exists_row (\<lambda>a. appr_intent_id a = intent_id) (payment_approvals d)
                then (Inl IntegrityError, d, [])
                else (let d' = (tx_db t)\<lparr>payment_approvals := payment_approvals (tx_db t) @
                             [\<lparr>appr_id = fresh, appr_intent_id = intent_id, appr_admin_user_id = admin_id,
                               appr_bank = ''manual_bakong''\<rparr>]\<rparr>
                      in case find_intent intent_id d' of
                           None \<Rightarrow> (Inl (NotFoundError ''Payment intent not found''), d', tx_alerts t)
                         | Some p' \<Rightarrow> (Inr p', d', tx_alerts t))))"

section \<open>Receipts\<close>

text \<open>
  Intent ids and order ids are unique (the columns are), and every receipt belongs to a succeeded
  intent, under the same order id.
\<close>

definition receipt_of :: "intent_row list \<Rightarrow> string \<Rightarrow> string \<Rightarrow> bool" where
  "receipt_of ps i ord \<longleftrightarrow>
     (\<exists>p \<in> set ps. pi_intent_id p = i \<and> pi_order_id p = ord \<and> pi_status p = ''succeeded'')"

definition receipts_ok :: "db \<Rightarrow> bool" where
  "receipts_ok d \<longleftrightarrow>
     distinct (map pi_intent_id (payment_intents d)) \<and> distinct (map pi_order_id (payment_intents d)) \<and>
     (\<forall>u \<in> set (purchases d). receipt_of (payment_intents d) (pu_intent_id u) (pu_order_id u)) \<and>
     (\<forall>u \<in> set (series_purchases d). receipt_of (payment_intents d) (spu_intent_id u) (spu_order_id u)) \<and>
     (\<forall>u \<in> set (subscription_payments d). receipt_of (payment_intents d) (spay_intent_id u) (spay_order_id u))"

lemma find_intent_in:
  "find_intent i d = Some p \<Longrightarrow> p \<in> set (payment_intents d) \<and> pi_intent_id p = i"
  unfolding find_intent_def by (drule select_one_Some) simp

lemma find_intent_key:
  "distinct (map pi_intent_id (payment_intents d)) \<Longrightarrow> p \<in> set (payment_intents d) \<Longrightarrow>
   find_intent (pi_intent_id p) d = Some p"
  unfolding find_intent_def by (rule select_one_key)

lemma find_intent_set_status:
  "find_intent i (set_intent_status j st at' d) =
   map_option (\<lambda>p. if pi_intent_id p = j then p\<lparr>pi_status := st, pi_resolved_at := at'\<rparr> else p) (find_intent i d)"
  by (simp add: find_intent_def set_intent_status_def select_one_update_keep)

lemma set_intent_status_frame [simp]:
  "users (set_intent_status i st at' d) = users d"
  "purchases (set_intent_status i st at' d) = purchases d"
  "series_purchases (set_intent_status i st at' d) = series_purchases d"
  "subscriptions (set_intent_status i st at' d) = subscriptions d"
  "subscription_payments (set_intent_status i st at' d) = subscription_payments d"
  "subscription_plans (set_intent_status i st at' d) = subscription_plans d"
  "contents (set_intent_status i st at' d) = contents d"
  "payment_approvals (set_intent_status i st at' d) = payment_approvals d"
  "map pi_intent_id (payment_intents (set_intent_status i st at' d)) = map pi_intent_id (payment_intents d)"
  "map pi_order_id (payment_intents (set_intent_status i st at' d)) = map pi_order_id (payment_intents d)"
  by (simp_all add: set_intent_status_def map_update_where)

lemma receipt_of_set_status:
  "receipt_of (payment_intents d) i ord \<Longrightarrow>
   receipt_of (payment_intents (set_intent_status j ''succeeded'' at' d)) i ord"
proof -
  assume "receipt_of (payment_intents d) i ord"
  then obtain p where p: "p \<in> set (payment_intents d)" "pi_intent_id p = i" "pi_order_id p = ord"
    "pi_status p = ''succeeded''" by (auto simp: receipt_of_def)
  let ?q = "if pi_intent_id p = j then p\<lparr>pi_status := ''succeeded'', pi_resolved_at := at'\<rparr> else p"
  have "?q \<in> set (payment_intents (set_intent_status j ''succeeded'' at' d))"
    using p(1) by (auto simp: set_intent_status_def in_update_where)
  with p show ?thesis unfolding receipt_of_def by (intro bexI [of _ ?q]) auto
qed

lemma receipts_ok_settled:
  "receipts_ok d \<Longrightarrow> receipts_ok (set_intent_status j ''succeeded'' at' d)"
  unfolding receipts_ok_def by (simp add: receipt_of_set_status)

lemma receipt_of_settled:
  "find_intent i d = Some p \<Longrightarrow>
   receipt_of (payment_intents (set_intent_status i ''succeeded'' at' d)) i (pi_order_id p)"
  unfolding receipt_of_def set_intent_status_def
  by (auto dest!: find_intent_in
      intro!: bexI [of _ "p\<lparr>pi_status := ''succeeded'', pi_resolved_at := at'\<rparr>"] update_where_hit)

text \<open>A receipt under an unpaid intent's id or order id cannot exist.\<close>

lemma no_receipt_yet:
  assumes ok: "receipts_ok d" and p: "find_intent i d = Some p" and open_: "pi_status p \<noteq> ''succeeded''"
  shows "receipt_of (payment_intents d) j ord \<Longrightarrow> j \<noteq> i \<and> ord \<noteq> pi_order_id p"
proof -
  assume "receipt_of (payment_intents d) j ord"
  then obtain q where q: "q \<in> set (payment_intents d)" "pi_intent_id q = j" "pi_order_id q = ord"
    "pi_status q = ''succeeded''" by (auto simp: receipt_of_def)
  have p': "p \<in> set (payment_intents d)" "pi_intent_id p = i" using find_intent_in [OF p] by auto
  have ne: "q \<noteq> p" using q(4) open_ by auto
  have d1: "distinct (map pi_intent_id (payment_intents d))" and d2: "distinct (map pi_order_id (payment_intents d))"
    using ok by (simp_all add: receipts_ok_def)
  show "j \<noteq> i \<and> ord \<noteq> pi_order_id p"
    using ne q(1-3) p' d1 d2 by (auto simp: distinct_map inj_on_def)
qed

lemma no_rows_yet:
  assumes "receipts_ok d" "find_intent i d = Some p" "pi_status p \<noteq> ''succeeded''"
  shows "\<not> exists_row (\<lambda>u. pu_intent_id u = i) (purchases d)"
    and "\<not> exists_row (\<lambda>u. pu_order_id u = pi_order_id p) (purchases d)"
    and "\<not> exists_row (\<lambda>u. spu_intent_id u = i) (series_purchases d)"
    and "\<not> exists_row (\<lambda>u. spu_order_id u = pi_order_id p) (series_purchases d)"
    and "\<not> exists_row (\<lambda>u. spay_intent_id u = i) (subscription_payments d)"
    and "\<not> exists_row (\<lambda>u. spay_order_id u = pi_order_id p) (subscription_payments d)"
  using assms(1) no_receipt_yet [OF assms]
  unfolding receipts_ok_def exists_row_iff by blast+

section \<open>The branches\<close>

text \<open>Under \<open>receipts_ok\<close> an unpaid intent always reaches the insert, and the insert never conflicts.\<close>

definition movie_receipt :: "datetime \<Rightarrow> uuid \<Rightarrow> intent_row \<Rightarrow> uuid \<Rightarrow> string option \<Rightarrow> purchase_row" where
  "movie_receipt now fresh p cid bank =
     \<lparr>pu_id = fresh, pu_user_id = pi_user_id p, pu_guest_id = pi_guest_id p, pu_content_id = cid,
      pu_intent_id = pi_intent_id p, pu_order_id = pi_order_id p, pu_bank = bank,
      pu_amount_usd = pi_amount_usd p, pu_purchased_at = now\<rparr>"

definition series_receipt :: "datetime \<Rightarrow> uuid \<Rightarrow> intent_row \<Rightarrow> uuid \<Rightarrow> string option \<Rightarrow> series_purchase_row" where
  "series_receipt now fresh p sid bank =
     \<lparr>spu_id = fresh, spu_user_id = pi_user_id p, spu_guest_id = pi_guest_id p, spu_series_id = sid,
      spu_intent_id = pi_intent_id p, spu_order_id = pi_order_id p, spu_bank = bank,
      spu_amount_usd = pi_amount_usd p, spu_purchased_at = now\<rparr>"

lemma fulfill_movie:
  assumes "receipts_ok (tx_db t)" "find_intent i (tx_db t) = Some p" "pi_status p \<noteq> ''succeeded''"
    and "tx_mode t = Live" "pi_kind p = ''single''" "pi_content_id p = Some cid"
  shows "fulfill_payment_intent now fresh i bank t =
    (let d = set_intent_status i ''succeeded'' (Some now) (tx_db t) in
     (Inr (), notify_payment_succeeded p bank
        (t\<lparr>tx_db := d\<lparr>purchases := purchases d @ [movie_receipt now fresh p cid bank]\<rparr>\<rparr>)))"
  using assms no_rows_yet(1,2) [OF assms(1-3)] find_intent_in [OF assms(2)]
  by (simp add: fulfill_payment_intent_def grant_movie_def movie_receipt_def Let_def)

lemma fulfill_series:
  assumes "receipts_ok (tx_db t)" "find_intent i (tx_db t) = Some p" "pi_status p \<noteq> ''succeeded''"
    and "tx_mode t = Live" "pi_kind p = ''series''" "pi_series_id p = Some sid"
  shows "fulfill_payment_intent now fresh i bank t =
    (let d = set_intent_status i ''succeeded'' (Some now) (tx_db t) in
     (Inr (), notify_payment_succeeded p bank
        (t\<lparr>tx_db := d\<lparr>series_purchases := series_purchases d @ [series_receipt now fresh p sid bank]\<rparr>\<rparr>)))"
  using assms no_rows_yet(3,4) [OF assms(1-3)] find_intent_in [OF assms(2)]
  by (simp add: fulfill_payment_intent_def grant_series_def series_receipt_def Let_def split: bool.split)

lemma resolve_plan_frame [simp]:
  "resolve_plan_for_subscription_intent p (set_intent_status i st at' d) =
   resolve_plan_for_subscription_intent p d"
  by (simp add: resolve_plan_for_subscription_intent_def get_subscription_plan_by_code_def plan_by_amount_def
      list_subscription_plans_def resolve_active_plan_def split: option.split)

lemma latest_subscription_frame [simp]:
  "latest_subscription u (set_intent_status i st at' d) = latest_subscription u d"
  by (simp add: latest_subscription_def)

text \<open>The subscription table after a paid period that ends at \<open>until\<close>.\<close>

definition extended :: "datetime \<Rightarrow> uuid \<Rightarrow> uuid \<Rightarrow> string \<Rightarrow> datetime \<Rightarrow> db \<Rightarrow> subscription_row list" where
  "extended now fresh uid code until d =
     (case latest_subscription (Some uid) d of
        Some s \<Rightarrow> update_where (\<lambda>r. sub_id r = sub_id s) (renew_subscription now code until) (subscriptions d)
      | None \<Rightarrow> subscriptions d @ [new_subscription now fresh uid code until])"

lemma fulfill_sub:
  assumes "receipts_ok (tx_db t)" "find_intent i (tx_db t) = Some p" "pi_status p \<noteq> ''succeeded''"
    and "tx_mode t = Live" "pi_kind p = ''sub''" "pi_user_id p = Some uid"
    and "resolve_plan_for_subscription_intent p (tx_db t) = Inr q"
    and "until = period_end now (latest_subscription (Some uid) (tx_db t)) (billing_interval_days p q)"
  shows "\<exists>t'. fulfill_payment_intent now fresh i bank t = (Inr (), t') \<and>
      subscriptions (tx_db t') = extended now fresh uid (plan_code q) until (tx_db t) \<and>
      payment_intents (tx_db t') = payment_intents (set_intent_status i ''succeeded'' (Some now) (tx_db t)) \<and>
      (\<exists>r. subscription_payments (tx_db t') = subscription_payments (tx_db t) @ [r] \<and>
         spay_intent_id r = i \<and> spay_order_id r = pi_order_id p \<and> spay_period_extended_to r = until) \<and>
      purchases (tx_db t') = purchases (tx_db t) \<and> series_purchases (tx_db t') = series_purchases (tx_db t) \<and>
      tx_alerts t' \<noteq> tx_alerts t \<and> tx_mode t' = Live"
  using assms no_rows_yet(5,6) [OF assms(1-3)] find_intent_in [OF assms(2)]
  by (auto simp: fulfill_payment_intent_def grant_subscription_def record_sub_payment_def Let_def
      notify_payment_succeeded_def extended_def split: option.split bool.split)


lemma receipts_ok_movie:
  "receipts_ok d \<Longrightarrow> receipt_of (payment_intents d) (pu_intent_id u) (pu_order_id u) \<Longrightarrow>
   receipts_ok (d\<lparr>purchases := purchases d @ [u]\<rparr>)"
  by (auto simp: receipts_ok_def)

lemma receipts_ok_series:
  "receipts_ok d \<Longrightarrow> receipt_of (payment_intents d) (spu_intent_id u) (spu_order_id u) \<Longrightarrow>
   receipts_ok (d\<lparr>series_purchases := series_purchases d @ [u]\<rparr>)"
  by (auto simp: receipts_ok_def)

lemma receipts_ok_sub:
  "receipts_ok d \<Longrightarrow> receipt_of (payment_intents d) (spay_intent_id u) (spay_order_id u) \<Longrightarrow>
   receipts_ok (d\<lparr>subscriptions := ss, subscription_payments := subscription_payments d @ [u]\<rparr>)"
  by (auto simp: receipts_ok_def)

lemma notify_frame [simp]:
  "tx_db (notify_payment_succeeded p bank t) = tx_db t"
  "tx_mode (notify_payment_succeeded p bank t) = tx_mode t"
  "tx_alerts (notify_payment_succeeded p bank t) = tx_alerts t @ [build_payment_succeeded_message p bank (tx_db t)]"
  by (simp_all add: notify_payment_succeeded_def)

lemma grant_subscription_receipts_ok:
  assumes "receipts_ok (tx_db t)" "receipt_of (payment_intents (tx_db t)) (pi_intent_id p) (pi_order_id p)"
    and "grant_subscription now fresh p bank t = (r, t')"
  shows "receipts_ok (tx_db t')"
  using assms receipts_ok_sub
  by (auto simp: grant_subscription_def record_sub_payment_def fail_statement_def Let_def receipts_ok_def
      split: if_splits sum.splits option.splits)

lemma fulfill_receipts_ok [inv_intro]:
  assumes ok: "receipts_ok (tx_db t)" and run: "fulfill_payment_intent now fresh i bank t = (r, t')"
  shows "receipts_ok (tx_db t')"
proof (cases "find_intent i (tx_db t)")
  case None
  with run ok show ?thesis by (auto simp: fulfill_payment_intent_def split: if_splits)
next
  case (Some p)
  let ?d = "set_intent_status i ''succeeded'' (Some now) (tx_db t)"
  have i: "pi_intent_id p = i" using find_intent_in [OF Some] by simp
  have d: "receipts_ok ?d" by (rule receipts_ok_settled [OF ok])
  have rec: "receipt_of (payment_intents ?d) (pi_intent_id p) (pi_order_id p)"
    using receipt_of_settled [OF Some] i by simp
  have sub: "grant_subscription now fresh p bank (t\<lparr>tx_db := ?d\<rparr>) = (r, t') \<Longrightarrow> ?thesis"
    using grant_subscription_receipts_ok [of "t\<lparr>tx_db := ?d\<rparr>"] d rec by simp
  show ?thesis
    using run Some ok d rec sub i receipts_ok_movie [OF d] receipts_ok_series [OF d]
    by (auto simp: fulfill_payment_intent_def grant_movie_def grant_series_def fail_statement_def Let_def
        split: if_splits bool.splits option.splits)
qed

text \<open>An intent found open is left succeeded, whatever else happens, errors included.\<close>

lemma grant_intents:
  "grant_movie now fresh p cid bank t = (r, t') \<Longrightarrow> payment_intents (tx_db t') = payment_intents (tx_db t)"
  "grant_series now fresh p cid bank t = (r, t') \<Longrightarrow> payment_intents (tx_db t') = payment_intents (tx_db t)"
  "grant_subscription now fresh p bank t = (r, t') \<Longrightarrow> payment_intents (tx_db t') = payment_intents (tx_db t)"
  by (auto simp: grant_movie_def grant_series_def grant_subscription_def record_sub_payment_def
      fail_statement_def Let_def split: if_splits sum.splits option.splits)

lemma fulfill_intents:
  assumes "find_intent i (tx_db t) = Some p" "pi_status p \<noteq> ''succeeded''" "tx_mode t = Live"
    and "fulfill_payment_intent now fresh i bank t = (r, t')"
  shows "payment_intents (tx_db t') =
    payment_intents (set_intent_status i ''succeeded'' (Some now) (tx_db t))"
  using assms
  by (auto simp: fulfill_payment_intent_def Let_def split: if_splits bool.splits option.splits dest: grant_intents)

lemma find_intent_cong: "payment_intents d = payment_intents d' \<Longrightarrow> find_intent i d = find_intent i d'"
  by (simp add: find_intent_def)

lemma fulfill_find_intent:
  assumes "find_intent i (tx_db t) = Some p" "pi_status p \<noteq> ''succeeded''" "tx_mode t = Live"
    and "fulfill_payment_intent now fresh i bank t = (r, t')"
  shows "find_intent j (tx_db t') =
    map_option (\<lambda>q. if pi_intent_id q = i then q\<lparr>pi_status := ''succeeded'', pi_resolved_at := Some now\<rparr> else q)
      (find_intent j (tx_db t))"
  unfolding find_intent_cong [OF fulfill_intents [OF assms]] by (rule find_intent_set_status)

lemma fulfill_succeeded:
  "find_intent i (tx_db t) = Some p \<Longrightarrow> pi_status p = ''succeeded'' \<Longrightarrow> tx_mode t = Live \<Longrightarrow>
   fulfill_payment_intent now fresh i bank t = (Inr (), t)"
  by (simp add: fulfill_payment_intent_def)

lemma fulfill_missing:
  "find_intent i (tx_db t) = None \<Longrightarrow> tx_mode t = Live \<Longrightarrow>
   fulfill_payment_intent now fresh i bank t = (Inr (), t)"
  by (simp add: fulfill_payment_intent_def)

section \<open>Access\<close>

text \<open>\<open>user\<close> and \<open>g\<close> are the signed-in account, or the guest cookie, the intent was made under.\<close>

definition is_buyer :: "intent_row \<Rightarrow> user_row option \<Rightarrow> string option \<Rightarrow> bool" where
  "is_buyer p user g \<longleftrightarrow>
     (case user of
        Some u \<Rightarrow> pi_user_id p = Some (user_id u)
      | None \<Rightarrow> truthy g \<and> pi_guest_id p = g)"

lemma movie_receipt_opens:
  assumes "is_buyer p user g" and "movie_receipt now fresh p (ct_id c) bank \<in> set (purchases d)"
    and "ct_type c = ''single''" and "ct_is_published c"
  shows "can_access_content later user g c None d"
  using assms
  by (auto simp: is_buyer_def access_defs movie_receipt_def split: option.splits intro!: bexI)

lemma series_receipt_opens:
  assumes "is_buyer p user g" and "series_receipt now fresh p sid bank \<in> set (series_purchases d)"
    and "ct_type c = ''episode''" and "ct_series_id c = Some sid" and "ct_is_published c"
  shows "can_access_content later user g c None d"
  using assms
  by (auto simp: is_buyer_def access_defs series_receipt_def split: option.splits intro!: bexI)

lemma latest_in:
  "latest_subscription (Some uid) d = Some s \<Longrightarrow> s \<in> set (subscriptions d) \<and> sub_user_id s = uid"
  unfolding latest_subscription_def by (drule first_row_order_by) auto

lemma extended_active:
  "\<exists>s \<in> set (extended now fresh uid code until d).
     sub_user_id s = uid \<and> sub_status s = ''active'' \<and> sub_current_period_end s = until"
proof (cases "latest_subscription (Some uid) d")
  case None
  then show ?thesis by (simp add: extended_def new_subscription_def)
next
  case (Some s)
  then have "renew_subscription now code until s \<in> set (extended now fresh uid code until d)"
    using latest_in [OF Some] by (auto simp: extended_def intro: update_where_hit)
  then show ?thesis
    using latest_in [OF Some] by (rule_tac bexI) (auto simp: renew_subscription_def)
qed

lemma sub_opens:
  assumes "s \<in> set (subscriptions d)" "sub_user_id s = user_id u" "sub_status s = ''active''"
    and "later < sub_current_period_end s" and "ct_is_published c"
    and "ct_type c = ''single'' \<or> ct_type c = ''podcast'' \<or> ct_type c = ''episode'' \<and> ct_series_id c \<noteq> None"
  shows "can_access_content later (Some u) g c None d"
  using assms by (auto simp: access_defs split: option.splits)

lemma payment_opens_title_facts:
  assumes ok: "receipts_ok d" and p: "find_intent i d = Some p" "pi_status p \<noteq> ''succeeded''"
    and buyer: "is_buyer p user g" and pub: "ct_is_published c"
    and run: "fulfill_payment_intent now fresh i bank (open_tx d) = (r, t)"
  shows "pi_kind p = ''single'' \<Longrightarrow> pi_content_id p = Some (ct_id c) \<Longrightarrow> ct_type c = ''single'' \<Longrightarrow>
      r = Inr () \<and> can_access_content later user g c None (tx_db t)"
    and "pi_kind p = ''series'' \<Longrightarrow> pi_series_id p = Some sid \<Longrightarrow> ct_type c = ''episode'' \<Longrightarrow>
      ct_series_id c = Some sid \<Longrightarrow> r = Inr () \<and> can_access_content later user g c None (tx_db t)"
    and "pi_kind p = ''sub'' \<Longrightarrow> user = Some u \<Longrightarrow> resolve_plan_for_subscription_intent p d = Inr q \<Longrightarrow>
      ct_type c = ''single'' \<or> ct_type c = ''podcast'' \<or> ct_type c = ''episode'' \<and> ct_series_id c \<noteq> None \<Longrightarrow>
      later < period_end now (latest_subscription (Some (user_id u)) d) (billing_interval_days p q) \<Longrightarrow>
      r = Inr () \<and> can_access_content later user g c None (tx_db t)"
    and "find_intent i (tx_db t) = Some (p\<lparr>pi_status := ''succeeded'', pi_resolved_at := Some now\<rparr>)"
    and "receipts_ok (tx_db t)"
proof -
  have ok': "receipts_ok (tx_db (open_tx d))" and p': "find_intent i (tx_db (open_tx d)) = Some p"
    and live: "tx_mode (open_tx d) = Live"
    using ok p by (simp_all add: open_tx_def)
  show "r = Inr () \<and> can_access_content later user g c None (tx_db t)"
    if k: "pi_kind p = ''single''" "pi_content_id p = Some (ct_id c)" and ty: "ct_type c = ''single''"
  proof -
    have "r = Inr ()" "movie_receipt now fresh p (ct_id c) bank \<in> set (purchases (tx_db t))"
      using run fulfill_movie [OF ok' p' p(2) live k, of now fresh bank] by (auto simp: Let_def)
    then show ?thesis using movie_receipt_opens [OF buyer _ ty pub] by blast
  qed
  show "r = Inr () \<and> can_access_content later user g c None (tx_db t)"
    if k: "pi_kind p = ''series''" "pi_series_id p = Some sid" and ty: "ct_type c = ''episode''" "ct_series_id c = Some sid"
  proof -
    have "r = Inr ()" "series_receipt now fresh p sid bank \<in> set (series_purchases (tx_db t))"
      using run fulfill_series [OF ok' p' p(2) live k, of now fresh bank] by (auto simp: Let_def)
    then show ?thesis using series_receipt_opens [OF buyer _ ty pub] by blast
  qed
  show "r = Inr () \<and> can_access_content later user g c None (tx_db t)"
    if k: "pi_kind p = ''sub''" and u: "user = Some u"
      and q: "resolve_plan_for_subscription_intent p d = Inr q"
      and ty: "ct_type c = ''single'' \<or> ct_type c = ''podcast'' \<or> ct_type c = ''episode'' \<and> ct_series_id c \<noteq> None"
      and until: "later < period_end now (latest_subscription (Some (user_id u)) d) (billing_interval_days p q)"
  proof -
    have uid: "pi_user_id p = Some (user_id u)" using buyer u by (simp add: is_buyer_def)
    have q': "resolve_plan_for_subscription_intent p (tx_db (open_tx d)) = Inr q" using q by (simp add: open_tx_def)
    from fulfill_sub [OF ok' p' p(2) live k uid q' refl, of now fresh bank] run
    have "r = Inr ()" and "subscriptions (tx_db t) = extended now fresh (user_id u) (plan_code q)
        (period_end now (latest_subscription (Some (user_id u)) d) (billing_interval_days p q)) d"
      by (auto simp: open_tx_def)
    then show ?thesis
      using extended_active [of now fresh "user_id u" "plan_code q" _ d] until sub_opens [OF _ _ _ _ pub ty, of _ "tx_db t"] u
      by (metis (no_types, lifting))
  qed
  show "receipts_ok (tx_db t)" by (rule fulfill_receipts_ok [OF ok' run])
  show "find_intent i (tx_db t) = Some (p\<lparr>pi_status := ''succeeded'', pi_resolved_at := Some now\<rparr>)"
    using fulfill_find_intent [OF p' p(2) live run, of i] p(1) find_intent_in [OF p(1)] by (simp add: open_tx_def)
qed

text \<open>
  C3: What was paid for can be watched. Fulfilling an unpaid intent never hits a unique constraint,
  marks it succeeded, and opens to its buyer, account or guest, at any later time: the movie, for a
  movie intent; every published episode, for a series intent; every published title until the end of
  the period bought, for a subscription whose plan resolves. The receipts stay consistent.
\<close>

theorem payment_opens_title:
  assumes ok: "receipts_ok d" and p: "find_intent i d = Some p" "pi_status p \<noteq> ''succeeded''"
    and buyer: "is_buyer p user g" and pub: "ct_is_published c"
    and run: "fulfill_payment_intent now fresh i bank (open_tx d) = (r, t)"
  shows "(pi_kind p = ''single'' \<longrightarrow> pi_content_id p = Some (ct_id c) \<longrightarrow> ct_type c = ''single'' \<longrightarrow>
      r = Inr () \<and> can_access_content later user g c None (tx_db t)) \<and>
     (pi_kind p = ''series'' \<longrightarrow> pi_series_id p = Some sid \<longrightarrow> ct_type c = ''episode'' \<longrightarrow>
      ct_series_id c = Some sid \<longrightarrow> r = Inr () \<and> can_access_content later user g c None (tx_db t)) \<and>
     (pi_kind p = ''sub'' \<longrightarrow> user = Some u \<longrightarrow> resolve_plan_for_subscription_intent p d = Inr q \<longrightarrow>
      ct_type c = ''single'' \<or> ct_type c = ''podcast'' \<or> ct_type c = ''episode'' \<and> ct_series_id c \<noteq> None \<longrightarrow>
      later < period_end now (latest_subscription (Some (user_id u)) d) (billing_interval_days p q) \<longrightarrow>
      r = Inr () \<and> can_access_content later user g c None (tx_db t)) \<and>
     (find_intent i (tx_db t) = Some (p\<lparr>pi_status := ''succeeded'', pi_resolved_at := Some now\<rparr>)) \<and>
     (receipts_ok (tx_db t))"
  using payment_opens_title_facts [OF assms] by blast

definition demo_movie :: content_row where
  "demo_movie = default_content\<lparr>ct_id := 7, ct_title := ''Film'', ct_price_usd := Some (5/2), ct_is_published := True\<rparr>"

definition demo_intent :: intent_row where
  "demo_intent = default_intent\<lparr>pi_intent_id := ''bkg-1'', pi_order_id := ''movie-1'', pi_guest_id := Some ''guest-token'',
     pi_method := ''bakong'', pi_bakong_md5 := Some ''aa'', pi_kind := ''single'', pi_content_id := Some 7,
     pi_amount_usd := 5/2\<rparr>"

definition demo_billing_db :: db where
  "demo_billing_db = empty_db\<lparr>contents := [demo_movie], payment_intents := [demo_intent]\<rparr>"

lemma demo_receipts_ok: "receipts_ok demo_billing_db"
  by (simp add: receipts_ok_def demo_billing_db_def)

theorem payment_opens_title_witness:
  "\<not> can_access_content 5 None (Some ''guest-token'') demo_movie None demo_billing_db \<and>
   can_access_content 5 None (Some ''guest-token'') demo_movie None
     (tx_db (snd (fulfill_payment_intent 4 1 ''bkg-1'' (Some ''bakong'') (open_tx demo_billing_db))))"
proof
  show "\<not> can_access_content 5 None (Some ''guest-token'') demo_movie None demo_billing_db" by code_simp
  have i: "find_intent ''bkg-1'' demo_billing_db = Some demo_intent" by code_simp
  have s: "pi_status demo_intent \<noteq> ''succeeded''" "is_buyer demo_intent None (Some ''guest-token'')"
    "ct_is_published demo_movie" "pi_kind demo_intent = ''single''"
    "pi_content_id demo_intent = Some (ct_id demo_movie)" "ct_type demo_movie = ''single''"
    by code_simp+
  show "can_access_content 5 None (Some ''guest-token'') demo_movie None
     (tx_db (snd (fulfill_payment_intent 4 1 ''bkg-1'' (Some ''bakong'') (open_tx demo_billing_db))))"
    using payment_opens_title [THEN conjunct1, rule_format (no_asm), OF demo_receipts_ok i s(1-3) surjective_pairing s(4-6)] by blast
qed


section \<open>At most once\<close>

text \<open>
  The committed transactions that may fulfil an intent: a settle (\<open>FulfillEvent\<close>, whoever calls it) or
  the admin's \<open>Mark paid\<close>. An error rolls the request back. The outcome is the success alert sent.
\<close>

datatype pay_event =
    FulfillEvent datetime uuid string "string option"
  | MarkPaidEvent datetime uuid uuid string

fun pay_event_op :: "pay_event \<Rightarrow> db \<Rightarrow> (string \<times> alert) option \<times> db" where
  "pay_event_op (FulfillEvent now fresh i bank) d =
     (case fulfill_payment_intent now fresh i bank (open_tx d) of
        (Inl _, _) \<Rightarrow> (None, d)
      | (Inr _, t) \<Rightarrow> (map_option (Pair i) (first_row (tx_alerts t)), tx_db t))"
| "pay_event_op (MarkPaidEvent now fresh admin_id i) d =
     (case admin_fulfill_payment now fresh admin_id i d of
        (Inl _, d', alerts) \<Rightarrow> (None, d')
      | (Inr _, d', alerts) \<Rightarrow> (map_option (Pair i) (first_row alerts), d'))"

definition receipts_for :: "string \<Rightarrow> db \<Rightarrow> nat" where
  "receipts_for i d =
     count_rows (\<lambda>u. pu_intent_id u = i) (purchases d) +
     count_rows (\<lambda>u. spu_intent_id u = i) (series_purchases d) +
     count_rows (\<lambda>u. spay_intent_id u = i) (subscription_payments d)"

definition settled :: "string \<Rightarrow> db \<Rightarrow> bool" where
  "settled i d \<longleftrightarrow> (\<exists>p. find_intent i d = Some p \<and> pi_status p = ''succeeded'')"

lemma fulfill_open_cases:
  assumes "fulfill_payment_intent now fresh i bank (open_tx d) = (r, t)"
  obtains (idle) "r = Inr ()" "t = open_tx d"
  | (fulfilled) p where "find_intent i d = Some p" "pi_status p \<noteq> ''succeeded''"
proof (cases "find_intent i d")
  case None
  with assms show thesis by (intro idle) (auto simp: fulfill_payment_intent_def open_tx_def)
next
  case (Some p)
  with assms show thesis
    by (cases "pi_status p = ''succeeded''") (auto simp: fulfill_payment_intent_def open_tx_def intro: idle fulfilled)
qed

lemma grant_receipts:
  "grant_movie now fresh p cid bank t = (r, t') \<Longrightarrow>
     receipts_for i (tx_db t') \<le> receipts_for i (tx_db t) + (if pi_intent_id p = i then 1 else 0)"
  "grant_series now fresh p cid bank t = (r, t') \<Longrightarrow>
     receipts_for i (tx_db t') \<le> receipts_for i (tx_db t) + (if pi_intent_id p = i then 1 else 0)"
  "grant_subscription now fresh p bank t = (r, t') \<Longrightarrow>
     receipts_for i (tx_db t') \<le> receipts_for i (tx_db t) + (if pi_intent_id p = i then 1 else 0)"
  by (auto simp: grant_movie_def grant_series_def grant_subscription_def record_sub_payment_def receipts_for_def
      fail_statement_def Let_def split: if_splits sum.splits option.splits)

lemma receipts_for_status [simp]: "receipts_for i (set_intent_status j st at' d) = receipts_for i d"
  by (simp add: receipts_for_def)

lemma fulfill_receipts:
  assumes "fulfill_payment_intent now fresh j bank t = (r, t')"
  shows "receipts_for i (tx_db t') \<le> receipts_for i (tx_db t) + (if i = j then 1 else 0)"
proof (cases "find_intent j (tx_db t)")
  case None
  with assms show ?thesis by (auto simp: fulfill_payment_intent_def split: if_splits)
next
  case (Some p)
  then have "pi_intent_id p = j" using find_intent_in by blast
  with assms Some show ?thesis
    by (auto simp: fulfill_payment_intent_def Let_def split: if_splits bool.splits option.splits
        dest!: grant_receipts [where i = i])
qed

lemma settled_no_receipt:
  assumes "receipts_ok d" and "\<not> settled i d"
  shows "receipts_for i d = 0"
proof -
  have "\<not> receipt_of (payment_intents d) i ord" for ord
    using assms find_intent_key [of d] by (auto simp: receipt_of_def settled_def receipts_ok_def)
  then show ?thesis
    using assms(1) by (auto simp: receipts_for_def receipts_ok_def count_rows_zero exists_row_iff)
qed

lemma fulfill_settled:
  assumes "fulfill_payment_intent now fresh i bank (open_tx d) = (r, t)"
  shows "settled j d \<Longrightarrow> settled j (tx_db t)"
    and "tx_alerts t \<noteq> [] \<Longrightarrow> \<not> settled i d \<and> settled i (tx_db t)"
proof -
  have "(settled j d \<longrightarrow> settled j (tx_db t)) \<and> (tx_alerts t \<noteq> [] \<longrightarrow> \<not> settled i d \<and> settled i (tx_db t))"
    using assms
  proof (cases rule: fulfill_open_cases)
    case idle
    then show ?thesis by (simp add: open_tx_def)
  next
    case (fulfilled p)
    have "find_intent k (tx_db t) = map_option (\<lambda>q. if pi_intent_id q = i
        then q\<lparr>pi_status := ''succeeded'', pi_resolved_at := Some now\<rparr> else q) (find_intent k d)" for k
      using fulfill_find_intent [of i "open_tx d" p, OF _ fulfilled(2) _ assms] fulfilled(1) by (simp add: open_tx_def)
    with fulfilled find_intent_in show ?thesis by (fastforce simp: settled_def)
  qed
  then show "settled j d \<Longrightarrow> settled j (tx_db t)" "tx_alerts t \<noteq> [] \<Longrightarrow> \<not> settled i d \<and> settled i (tx_db t)"
    by blast+
qed

text \<open>\<open>Mark paid\<close> is a fulfilment plus an approval row, which nothing here reads.\<close>

lemma approvals_frame [simp]:
  "find_intent i (d\<lparr>payment_approvals := x\<rparr>) = find_intent i d"
  "settled i (d\<lparr>payment_approvals := x\<rparr>) = settled i d"
  "receipts_for i (d\<lparr>payment_approvals := x\<rparr>) = receipts_for i d"
  "receipts_ok (d\<lparr>payment_approvals := x\<rparr>) = receipts_ok d"
  by (simp_all add: find_intent_def settled_def receipts_for_def receipts_ok_def)

lemma admin_fulfill_cases:
  assumes "admin_fulfill_payment now fresh a i d = (r, d', alerts)"
  obtains (idle) "d' = d" "alerts = []"
  | (paid) t x where "fulfill_payment_intent now fresh i (Some ''manual_bakong'') (open_tx d) = (Inr (), t)"
      "d' = (tx_db t)\<lparr>payment_approvals := x\<rparr>" "alerts = tx_alerts t"
  using assms
  by (cases "fulfill_payment_intent now fresh i (Some ''manual_bakong'') (open_tx d)")
    (auto simp: admin_fulfill_payment_def Let_def split: option.splits if_splits sum.splits)

lemma pay_event_cases:
  assumes "pay_event_op a d = (x, d')"
  obtains (idle) "x = None" "d' = d"
  | (paid) now fresh i bank t y where "fulfill_payment_intent now fresh i bank (open_tx d) = (Inr (), t)"
      "d' = (tx_db t)\<lparr>payment_approvals := y\<rparr>" "x = None \<or> (\<exists>al. x = Some (i, al) \<and> tx_alerts t \<noteq> [])"
proof (cases a)
  case (FulfillEvent now fresh i bank)
  obtain r t where f: "fulfill_payment_intent now fresh i bank (open_tx d) = (r, t)" by fastforce
  show thesis
  proof (cases r)
    case (Inl e)
    with f assms FulfillEvent show thesis by (auto intro: idle)
  next
    case (Inr u)
    have "tx_db t = (tx_db t)\<lparr>payment_approvals := payment_approvals (tx_db t)\<rparr>" by simp
    with f assms FulfillEvent Inr show thesis
      by (intro paid [of now fresh i bank t "payment_approvals (tx_db t)"]) (cases "tx_alerts t"; auto)+
  qed
next
  case (MarkPaidEvent now fresh admin_id i)
  obtain r e alerts where f: "admin_fulfill_payment now fresh admin_id i d = (r, e, alerts)"
    by (cases "admin_fulfill_payment now fresh admin_id i d") auto
  from f show thesis
  proof (cases rule: admin_fulfill_cases)
    case idle
    with f assms MarkPaidEvent show thesis by (auto intro: that(1) split: sum.splits)
  next
    case (paid t x')
    with f assms MarkPaidEvent show thesis
      by (cases "tx_alerts t") (auto intro: that(2) [OF paid(1)] split: sum.splits)
  qed
qed

interpretation payment: single_use pay_event_op receipts_ok settled "\<lambda>_ _. False"
proof
  show "\<not> settled c s \<and> settled c s'"
    if "receipts_ok s" "pay_event_op a s = (Some (c, r), s')" for s a c r s'
    using that(2) by (cases rule: pay_event_cases) (auto dest: fulfill_settled(2))
  show "settled c s'"
    if "receipts_ok s" "settled c s" "\<not> False" "pay_event_op a s = (x, s')" for s c a x s'
    using that(4) that(2) by (cases rule: pay_event_cases) (auto dest: fulfill_settled(1))
  show "receipts_ok s'" if "receipts_ok s" "pay_event_op a s = (x, s')" for s a x s'
    using that(2) that(1) fulfill_receipts_ok [of "open_tx s"]
    by (cases rule: pay_event_cases) (auto simp: open_tx_def)
qed

lemma pay_event_receipts:
  assumes "receipts_ok d" "receipts_for i d \<le> 1" "pay_event_op a d = (x, d')"
  shows "receipts_for i d' \<le> 1"
  using assms(3)
proof (cases rule: pay_event_cases)
  case idle
  then show ?thesis using assms by simp
next
  case (paid now fresh j bank t y)
  show ?thesis
  proof (cases "i = j \<and> settled i d")
    case True
    then have "t = open_tx d"
      using fulfill_succeeded [of j "open_tx d"] paid(1) by (auto simp: settled_def open_tx_def)
    then show ?thesis using assms paid by (simp add: open_tx_def)
  next
    case False
    then show ?thesis
      using fulfill_receipts [OF paid(1), of i] settled_no_receipt [OF assms(1), of i] assms(2) paid(2)
      by (cases "i = j") (auto simp: open_tx_def)
  qed
qed

lemma payment_granted_once_facts:
  assumes "receipts_ok d" and "receipts_for i d \<le> 1"
  shows "length (filter (\<lambda>x. fst x = i) (outcomes pay_event_op evs d)) \<le> 1"
    and "receipts_for i (run_state pay_event_op evs d) \<le> 1"
proof -
  show "length (filter (\<lambda>x. fst x = i) (outcomes pay_event_op evs d)) \<le> 1"
    by (rule payment.at_most_once) (simp_all add: assms)
  have "receipts_ok (run_state pay_event_op evs d) \<and> receipts_for i (run_state pay_event_op evs d) \<le> 1"
    by (rule run_state_invariant [where I = "\<lambda>s. receipts_ok s \<and> receipts_for i s \<le> 1"])
      (use assms pay_event_receipts payment.inv_op in blast)+
  then show "receipts_for i (run_state pay_event_op evs d) \<le> 1" by simp
qed




section \<open>Subscription time\<close>

text \<open>The paid time a user still has at \<open>now\<close>.\<close>

definition remaining :: "uuid \<Rightarrow> datetime \<Rightarrow> db \<Rightarrow> int" where
  "remaining uid now d =
     (case latest_subscription (Some uid) d of None \<Rightarrow> 0 | Some s \<Rightarrow> max 0 (sub_current_period_end s - now))"

text \<open>One subscription per user (\<open>uq_subscriptions_user_id\<close>), and the primary key.\<close>

definition subscriptions_ok :: "db \<Rightarrow> bool" where
  "subscriptions_ok d \<longleftrightarrow>
     distinct (map sub_id (subscriptions d)) \<and> distinct (map sub_user_id (subscriptions d))"

lemma latest_unique:
  "subscriptions_ok d \<Longrightarrow>
   latest_subscription (Some uid) d = select_one (\<lambda>s. sub_user_id s = uid) (subscriptions d)"
  using filter_key [of sub_user_id "subscriptions d" uid]
  by (simp add: latest_subscription_def subscriptions_ok_def order_by_def split: option.splits)

lemma renew_fields [simp]:
  "sub_id (renew_subscription now code until s) = sub_id s"
  "sub_user_id (renew_subscription now code until s) = sub_user_id s"
  "sub_current_period_end (renew_subscription now code until s) = until"
  by (simp_all add: renew_subscription_def)

lemma new_fields [simp]:
  "sub_id (new_subscription now fresh uid code until) = fresh"
  "sub_user_id (new_subscription now fresh uid code until) = uid"
  "sub_current_period_end (new_subscription now fresh uid code until) = until"
  by (simp_all add: new_subscription_def)

lemma extended_ok:
  assumes ok: "subscriptions_ok d" and "fresh \<notin> sub_id ` set (subscriptions d)"
    and s: "subscriptions d' = extended now fresh uid code until d"
  shows "subscriptions_ok d'"
proof (cases "latest_subscription (Some uid) d")
  case None
  then have "subscriptions d' = subscriptions d @ [new_subscription now fresh uid code until]"
    using s by (simp add: extended_def)
  moreover have "\<forall>r \<in> set (subscriptions d). sub_user_id r \<noteq> uid"
    using None latest_unique [OF ok, of uid] by (simp add: select_one_None)
  ultimately show ?thesis using ok assms(2) by (auto simp: subscriptions_ok_def)
next
  case (Some r)
  then show ?thesis using assms by (simp add: subscriptions_ok_def extended_def map_update_where)
qed

lemma extended_latest:
  assumes ok: "subscriptions_ok d" and fresh: "fresh \<notin> sub_id ` set (subscriptions d)"
    and s: "subscriptions d' = extended now fresh uid code until d"
  shows "map_option sub_current_period_end (latest_subscription (Some v) d') =
    (if v = uid then Some until else map_option sub_current_period_end (latest_subscription (Some v) d))"
proof (cases "latest_subscription (Some uid) d")
  case None
  have "latest_subscription (Some v) d' =
    select_one (\<lambda>s. sub_user_id s = v) (subscriptions d @ [new_subscription now fresh uid code until])"
    using latest_unique [OF extended_ok [OF assms]] None s by (simp add: extended_def)
  then show ?thesis
    using None by (auto simp: latest_unique [OF ok] select_one_append split: option.split)
next
  case (Some r)
  let ?up = "update_where (\<lambda>x. sub_id x = sub_id r) (renew_subscription now code until) (subscriptions d)"
  have r: "r \<in> set (subscriptions d)" "sub_user_id r = uid" using latest_in [OF Some] by auto
  have up: "latest_subscription (Some v) d' =
      map_option (\<lambda>x. if sub_id x = sub_id r then renew_subscription now code until x else x)
        (latest_subscription (Some v) d)"
    using latest_unique [OF extended_ok [OF assms]] Some s
    by (simp add: extended_def latest_unique [OF ok] select_one_update_keep)
  show ?thesis
  proof (cases "v = uid")
    case True
    with up Some show ?thesis by simp
  next
    case False
    have "sub_id x \<noteq> sub_id r" if "latest_subscription (Some v) d = Some x" for x
      using latest_in [OF that] r False ok by (auto simp: subscriptions_ok_def distinct_map inj_on_def)
    with up False show ?thesis by (cases "latest_subscription (Some v) d") auto
  qed
qed

lemma subscription_time_adds_up_facts:
  assumes ok: "receipts_ok d" "subscriptions_ok d" "fresh \<notin> sub_id ` set (subscriptions d)"
    and p: "find_intent i d = Some p" "pi_status p \<noteq> ''succeeded''" "pi_kind p = ''sub''" "pi_user_id p = Some uid"
    and plan: "resolve_plan_for_subscription_intent p d = Inr q" "0 < billing_interval_days p q"
    and run: "fulfill_payment_intent now fresh i bank (open_tx d) = (r, t)"
  shows "r = Inr ()"
    and "remaining uid now (tx_db t) = remaining uid now d + days (billing_interval_days p q)"
    and "v \<noteq> uid \<Longrightarrow> remaining v now (tx_db t) = remaining v now d"
    and "subscriptions_ok (tx_db t)"
    and "pi_plan_interval_days p = Some n \<Longrightarrow> 0 < n \<Longrightarrow> billing_interval_days p q = n"
proof -
  let ?until = "period_end now (latest_subscription (Some uid) d) (billing_interval_days p q)"
  have t: "tx_db (open_tx d) = d" "tx_mode (open_tx d) = Live" by (simp_all add: open_tx_def)
  have "r = Inr () \<and> subscriptions (tx_db t) = extended now fresh uid (plan_code q) ?until d"
    using fulfill_sub [of "open_tx d" i p uid q ?until now fresh bank, unfolded t] ok p plan run by auto
  then have r: "r = Inr ()" and subs: "subscriptions (tx_db t) = extended now fresh uid (plan_code q) ?until d"
    by auto
  show "r = Inr ()" by (rule r)
  show "subscriptions_ok (tx_db t)" by (rule extended_ok [OF ok(2,3) subs])
  have rem: "remaining v now e = (case map_option sub_current_period_end (latest_subscription (Some v) e) of
      None \<Rightarrow> 0 | Some x \<Rightarrow> max 0 (x - now))" for v e
    by (simp add: remaining_def split: option.split)
  have pos: "0 < days (billing_interval_days p q)" using plan(2) by simp
  show "remaining uid now (tx_db t) = remaining uid now d + days (billing_interval_days p q)"
    unfolding rem extended_latest [OF ok(2,3) subs]
    using pos by (cases "latest_subscription (Some uid) d") (auto simp: period_end_def simp del: days_pos)
  show "remaining v now (tx_db t) = remaining v now d" if "v \<noteq> uid"
    using that by (simp add: rem extended_latest [OF ok(2,3) subs])
  show "billing_interval_days p q = n" if "pi_plan_interval_days p = Some n" "0 < n"
    using that by (simp add: billing_interval_days_def)
qed

text \<open>
  C6: Paid subscription time is never lost and never invented. Fulfilling a subscription intent leaves
  its user exactly as many more days as the interval fixed at checkout (the plan's own, for a legacy
  row without a snapshot), on top of whatever time was left, and touches no other user's time; the user
  still has a single subscription row.
\<close>

theorem subscription_time_adds_up:
  assumes ok: "receipts_ok d" "subscriptions_ok d" "fresh \<notin> sub_id ` set (subscriptions d)"
    and p: "find_intent i d = Some p" "pi_status p \<noteq> ''succeeded''" "pi_kind p = ''sub''" "pi_user_id p = Some uid"
    and plan: "resolve_plan_for_subscription_intent p d = Inr q" "0 < billing_interval_days p q"
    and run: "fulfill_payment_intent now fresh i bank (open_tx d) = (r, t)"
  shows "(r = Inr ()) \<and>
     (remaining uid now (tx_db t) = remaining uid now d + days (billing_interval_days p q)) \<and>
     (v \<noteq> uid \<longrightarrow> remaining v now (tx_db t) = remaining v now d) \<and>
     (subscriptions_ok (tx_db t)) \<and>
     (pi_plan_interval_days p = Some n \<longrightarrow> 0 < n \<longrightarrow> billing_interval_days p q = n)"
  using subscription_time_adds_up_facts [OF assms] by blast

definition demo_plan :: plan_row where
  "demo_plan = \<lparr>plan_id = 1, plan_code = ''monthly'', plan_name = ''Monthly'', plan_description = None,
     plan_price_usd = 5, plan_billing_interval_days = 31, plan_is_active = True, plan_sort_order = 0,
     plan_created_at = 0\<rparr>"

definition demo_sub_intent :: intent_row where
  "demo_sub_intent = default_intent\<lparr>pi_intent_id := ''bkg-2'', pi_order_id := ''sub-monthly-ff'',
     pi_user_id := Some 3, pi_method := ''bakong'', pi_kind := ''sub'', pi_plan_code := Some ''monthly'',
     pi_plan_interval_days := Some 30, pi_amount_usd := 5\<rparr>"

definition demo_sub_db :: db where
  "demo_sub_db = empty_db\<lparr>subscription_plans := [demo_plan], payment_intents := [demo_sub_intent],
     subscriptions := [new_subscription 0 8 3 ''weekly'' (days 2)]\<rparr>"

theorem subscription_time_adds_up_witness:
  "remaining 3 (days 1) (tx_db (snd (fulfill_payment_intent (days 1) 9 ''bkg-2'' None (open_tx demo_sub_db)))) =
   days 31"
proof -
  have ok: "receipts_ok demo_sub_db" "subscriptions_ok demo_sub_db" "9 \<notin> sub_id ` set (subscriptions demo_sub_db)"
    by (simp_all add: receipts_ok_def subscriptions_ok_def demo_sub_db_def)
  have p: "find_intent ''bkg-2'' demo_sub_db = Some demo_sub_intent" "pi_status demo_sub_intent \<noteq> ''succeeded''"
    "pi_kind demo_sub_intent = ''sub''" "pi_user_id demo_sub_intent = Some 3"
    "resolve_plan_for_subscription_intent demo_sub_intent demo_sub_db = Inr demo_plan"
    "0 < billing_interval_days demo_sub_intent demo_plan"
    by code_simp+
  have "remaining 3 (days 1) demo_sub_db + days (billing_interval_days demo_sub_intent demo_plan) = days 31"
    by code_simp
  with subscription_time_adds_up [THEN conjunct2, THEN conjunct1, rule_format (no_asm), OF ok p surjective_pairing] show ?thesis by simp
qed


end
