(* ===== verification/Ttl_Cache.thy ===== *)
theory Ttl_Cache
  imports Prelude
begin

text \<open>
  The contract the service's in-process TTL caches share (Bakong check results, recently polled
  intents, HLS playlists, API responses): what is stored is read back until it expires, and reading
  or pruning never changes what later reads see. From the one law follows what callers rely on: after
  any history of reads and writes, a read returns the last value written under the key if that write
  is younger than its TTL, and nothing otherwise.
\<close>

datatype ('k, 'w) cache_op = CachePut monotonic 'k 'w | CacheRead monotonic 'k

fun op_time :: "('k, 'w) cache_op \<Rightarrow> monotonic" where
  "op_time (CachePut t _ _) = t"
| "op_time (CacheRead t _) = t"

text \<open>The reference behaviour: the last write under the key decides, while it is fresh.\<close>

fun last_put :: "'k \<Rightarrow> ('k, 'w) cache_op list \<Rightarrow> (monotonic \<times> 'w) option" where
  "last_put k [] = None"
| "last_put k (CachePut t k' w # ops) =
     (case last_put k ops of
        Some p \<Rightarrow> Some p
      | None \<Rightarrow> if k' = k then Some (t, w) else None)"
| "last_put k (CacheRead _ _ # ops) = last_put k ops"

definition fresh_value ::
    "('w \<Rightarrow> monotonic) \<Rightarrow> ('w \<Rightarrow> 'v) \<Rightarrow> monotonic \<Rightarrow> monotonic \<times> 'w \<Rightarrow> 'v option" where
  "fresh_value ttl val t p = (case p of (t0, w) \<Rightarrow> if t < t0 + ttl w then Some (val w) else None)"

fun valid_op :: "('k \<Rightarrow> bool) \<Rightarrow> ('k, 'w) cache_op \<Rightarrow> bool" where
  "valid_op valid (CachePut _ k _) = valid k"
| "valid_op valid (CacheRead _ _) = True"

text \<open>The state a history of reads and writes leads to.\<close>

fun run_cache ::
    "(monotonic \<Rightarrow> 'k \<Rightarrow> 's \<Rightarrow> 'v option \<times> 's) \<Rightarrow> (monotonic \<Rightarrow> 'k \<Rightarrow> 'w \<Rightarrow> 's \<Rightarrow> 's) \<Rightarrow>
     ('k, 'w) cache_op list \<Rightarrow> 's \<Rightarrow> 's" where
  "run_cache get put [] s = s"
| "run_cache get put (CachePut t k w # ops) s = run_cache get put ops (put t k w s)"
| "run_cache get put (CacheRead t k # ops) s = run_cache get put ops (snd (get t k s))"

text \<open>
  A stored item \<open>'w\<close> carries its value and says how long it lives. Keys outside \<open>valid\<close> (the empty
  string) are ignored by the caches and not written by the histories considered.
\<close>

locale ttl_cache =
  fixes get :: "monotonic \<Rightarrow> 'k \<Rightarrow> 's \<Rightarrow> 'v option \<times> 's"
    and put :: "monotonic \<Rightarrow> 'k \<Rightarrow> 'w \<Rightarrow> 's \<Rightarrow> 's"
    and ttl :: "'w \<Rightarrow> monotonic"
    and val :: "'w \<Rightarrow> 'v"
    and valid :: "'k \<Rightarrow> bool"
  assumes get_put: "valid k \<Longrightarrow> t0 \<le> t \<Longrightarrow>
      fst (get t k' (put t0 k w s)) =
        (if k' = k then (if t < t0 + ttl w then Some (val w) else None) else fst (get t k' s))"
    and get_get: "t0 \<le> t \<Longrightarrow> fst (get t k' (snd (get t0 k s))) = fst (get t k' s)"
begin

lemma read_after:
  "list_all (valid_op valid) ops \<Longrightarrow> \<forall>p \<in> set ops. op_time p \<le> t \<Longrightarrow>
   fst (get t k (run_cache get put ops s)) =
     (case last_put k ops of None \<Rightarrow> fst (get t k s) | Some p \<Rightarrow> fresh_value ttl val t p)"
proof (induction ops arbitrary: s)
  case Nil
  then show ?case by simp
next
  case (Cons a ops)
  show ?case
  proof (cases a)
    case (CachePut t0 k0 w)
    with Cons.IH [of "put t0 k0 w s"] Cons.prems get_put [of k0 t0 t k w s]
    show ?thesis by (auto simp: fresh_value_def split: option.split if_splits)
  next
    case (CacheRead t0 k0)
    with Cons.IH [of "snd (get t0 k0 s)"] Cons.prems get_get [of t0 t k k0 s]
    show ?thesis by (simp split: option.split)
  qed
qed

end

end
