(* ===== verification/Bakong_Guards.thy ===== *)
theory Bakong_Guards
  imports Ttl_Cache "HOL-Library.AList"
begin

text \<open>
  \<open>app/billing/bakong_check_cache.py\<close> and \<open>app/billing/bakong_quota.py\<close>: what stands between the
  service and the roughly one hundred NBC checks a day its token allows. Module-level dicts are a
  record; times are \<open>time.monotonic()\<close> readings, and \<open>unix\<close> is \<open>time.time()\<close>.
\<close>

section \<open>The check cache\<close>

definition unpaid_ttl :: monotonic where "unpaid_ttl = 8"
definition rate_limit_ttl :: monotonic where "rate_limit_ttl = 120"
definition paid_ttl :: monotonic where "paid_ttl = 60"
definition intent_poll_ttl :: monotonic where "intent_poll_ttl = 12"
definition max_nbc_checks_per_intent :: nat where "max_nbc_checks_per_intent = 40"
definition intent_nbc_check_window :: monotonic where "intent_nbc_check_window = 3600"

definition status_paid :: string where "status_paid = ''paid''"
definition status_unpaid :: string where "status_unpaid = ''unpaid''"
definition status_unknown :: string where "status_unknown = ''unknown''"

text \<open>The per-intent counters keep Python's dict order, which the pruning depends on.\<close>

record check_cache =
  md5_cache :: "string \<Rightarrow> (string \<times> monotonic) option"
  intent_polled_at :: "string \<Rightarrow> monotonic option"
  intent_nbc_checks :: "(string \<times> nat \<times> monotonic) list"

definition empty_check_cache :: check_cache where
  "empty_check_cache = \<lparr>md5_cache = (\<lambda>_. None), intent_polled_at = (\<lambda>_. None), intent_nbc_checks = []\<rparr>"

definition prune_map :: "('v \<Rightarrow> bool) \<Rightarrow> ('k \<Rightarrow> 'v option) \<Rightarrow> 'k \<Rightarrow> 'v option" where
  "prune_map stale m = (\<lambda>k. case m k of None \<Rightarrow> None | Some v \<Rightarrow> if stale v then None else Some v)"

definition prune :: "monotonic \<Rightarrow> check_cache \<Rightarrow> check_cache" where
  "prune now s = s\<lparr>md5_cache := prune_map (\<lambda>(_, e). e \<le> now) (md5_cache s),
                   intent_polled_at := prune_map (\<lambda>e. e \<le> now) (intent_polled_at s)\<rparr>"

definition ttl_for_check :: "bool \<Rightarrow> bool \<Rightarrow> monotonic" where
  "ttl_for_check paid rate_limited =
     (if paid then paid_ttl else if rate_limited then rate_limit_ttl else unpaid_ttl)"

definition ttl_for_status :: "string \<Rightarrow> monotonic" where
  "ttl_for_status st =
     (if st = status_paid then paid_ttl else if st = status_unknown then rate_limit_ttl else unpaid_ttl)"

definition get_cached_md5_status :: "monotonic \<Rightarrow> string \<Rightarrow> check_cache \<Rightarrow> string option \<times> check_cache" where
  "get_cached_md5_status now md5 s =
     (if md5 = [] then (None, s)
      else (case md5_cache s md5 of
              None \<Rightarrow> (None, s)
            | Some (st, e) \<Rightarrow>
                if e \<le> now then (None, s\<lparr>md5_cache := (md5_cache s)(md5 := None)\<rparr>) else (Some st, s)))"

definition get_cached_md5_paid :: "monotonic \<Rightarrow> string \<Rightarrow> check_cache \<Rightarrow> bool option \<times> check_cache" where
  "get_cached_md5_paid now md5 s =
     (case get_cached_md5_status now md5 s of
        (None, s') \<Rightarrow> (None, s')
      | (Some st, s') \<Rightarrow> (Some (st = status_paid), s'))"

definition set_cached_md5_status ::
    "monotonic \<Rightarrow> string \<Rightarrow> string \<Rightarrow> monotonic option \<Rightarrow> check_cache \<Rightarrow> check_cache" where
  "set_cached_md5_status now md5 st ttl s =
     (if md5 = [] then s
      else (let ttl' = (case ttl of None \<Rightarrow> ttl_for_status st | Some t \<Rightarrow> t); s' = prune now s
            in s'\<lparr>md5_cache := (md5_cache s')(md5 := Some (st, now + ttl'))\<rparr>))"

definition set_cached_md5_paid ::
    "monotonic \<Rightarrow> string \<Rightarrow> bool \<Rightarrow> monotonic option \<Rightarrow> check_cache \<Rightarrow> check_cache" where
  "set_cached_md5_paid now md5 paid ttl s =
     (if md5 = [] then s
      else set_cached_md5_status now md5 (if paid then status_paid else status_unpaid)
             (Some (case ttl of None \<Rightarrow> if paid then paid_ttl else unpaid_ttl | Some t \<Rightarrow> t)) s)"

definition mark_intent_polled :: "monotonic \<Rightarrow> string \<Rightarrow> check_cache \<Rightarrow> check_cache" where
  "mark_intent_polled now intent_id s =
     (if intent_id = [] then s
      else (let s' = prune now s in
            s'\<lparr>intent_polled_at := (intent_polled_at s')(intent_id := Some (now + intent_poll_ttl))\<rparr>))"

definition was_intent_recently_polled :: "monotonic \<Rightarrow> string \<Rightarrow> check_cache \<Rightarrow> bool \<times> check_cache" where
  "was_intent_recently_polled now intent_id s =
     (if intent_id = [] then (False, s)
      else (case intent_polled_at s intent_id of
              None \<Rightarrow> (False, s)
            | Some e \<Rightarrow>
                if e \<le> now
                then (False, s\<lparr>intent_polled_at := (intent_polled_at s)(intent_id := None)\<rparr>)
                else (True, s)))"

definition intent_nbc_check_count :: "monotonic \<Rightarrow> string \<Rightarrow> check_cache \<Rightarrow> nat \<times> check_cache" where
  "intent_nbc_check_count now intent_id s =
     (if intent_id = [] then (0, s)
      else (case map_of (intent_nbc_checks s) intent_id of
              None \<Rightarrow> (0, s)
            | Some (used, started) \<Rightarrow>
                if intent_nbc_check_window \<le> now - started
                then (0, s\<lparr>intent_nbc_checks := AList.delete intent_id (intent_nbc_checks s)\<rparr>)
                else (used, s)))"

text \<open>\<open>soft_prune\<close>: past 2000 entries the 500 oldest go, live or not.\<close>

definition soft_prune :: "(string \<times> nat \<times> monotonic) list \<Rightarrow> (string \<times> nat \<times> monotonic) list" where
  "soft_prune xs = (if 2000 < length xs then drop 500 xs else xs)"

definition consume_intent_nbc_check ::
    "monotonic \<Rightarrow> string \<Rightarrow> int \<Rightarrow> check_cache \<Rightarrow> bool \<times> check_cache" where
  "consume_intent_nbc_check now intent_id max_checks s =
     (if intent_id = [] then (True, s)
      else
       (let limit = nat (max 1 max_checks); entry = map_of (intent_nbc_checks s) intent_id;
            store = (\<lambda>v. s\<lparr>intent_nbc_checks :=
              soft_prune (AList.update intent_id v (intent_nbc_checks s))\<rparr>)
        in case entry of
             None \<Rightarrow> (True, store (1, now))
           | Some (used, started) \<Rightarrow>
               if intent_nbc_check_window \<le> now - started then (True, store (1, now))
               else if limit < used + 1 then (False, s)
               else (True, store (used + 1, started))))"

definition reset_intent_nbc_checks :: "string option \<Rightarrow> check_cache \<Rightarrow> check_cache" where
  "reset_intent_nbc_checks intent_id s =
     (if truthy intent_id
      then s\<lparr>intent_nbc_checks := AList.delete (the intent_id) (intent_nbc_checks s)\<rparr>
      else s\<lparr>intent_nbc_checks := []\<rparr>)"

section \<open>The quota circuit breaker\<close>

text \<open>
  \<open>NoClient\<close>: no \<open>REDIS_URL\<close>, or Redis could not be reached when the client was made;
  \<open>FailingClient\<close>: every command raises (and is caught). The stored value is the deadline in Unix
  time with the instant the key itself expires.
\<close>

datatype redis_client = NoClient | WorkingClient | FailingClient

record quota =
  blocked_until :: monotonic
  redis_mode :: redis_client
  redis_value :: "(rat \<times> rat) option"

definition default_cooldown :: monotonic where "default_cooldown = 3600"
definition transient_cooldown :: monotonic where "transient_cooldown = 30"

definition redis_get :: "rat \<Rightarrow> quota \<Rightarrow> rat option" where
  "redis_get unix q =
     (case redis_value q of None \<Rightarrow> None | Some (v, expiry) \<Rightarrow> if unix < expiry then Some v else None)"

definition set_blocked_until :: "monotonic \<Rightarrow> rat \<Rightarrow> monotonic \<Rightarrow> quota \<Rightarrow> quota" where
  "set_blocked_until tick unix cooldown_seconds q =
     (let cooldown = max 5 cooldown_seconds;
          q1 = q\<lparr>blocked_until := max (blocked_until q) (tick + cooldown)\<rparr>
      in case redis_mode q of
           WorkingClient \<Rightarrow>
             (let until = (case redis_get unix q of
                             None \<Rightarrow> unix + cooldown | Some v \<Rightarrow> max (unix + cooldown) v);
                  ttl = max 60 (of_int \<lfloor>until - unix\<rfloor> + 60)
              in q1\<lparr>redis_value := Some (until, unix + ttl)\<rparr>)
         | _ \<Rightarrow> q1)"

definition note_bakong_rate_limited :: "monotonic \<Rightarrow> rat \<Rightarrow> monotonic \<Rightarrow> quota \<Rightarrow> quota" where
  "note_bakong_rate_limited tick unix cooldown q = set_blocked_until tick unix cooldown q"

definition note_bakong_transient :: "monotonic \<Rightarrow> rat \<Rightarrow> monotonic \<Rightarrow> quota \<Rightarrow> quota" where
  "note_bakong_transient tick unix cooldown q =
     set_blocked_until tick unix (max 5 (min cooldown 120)) q"

definition bakong_checks_blocked :: "monotonic \<Rightarrow> rat \<Rightarrow> quota \<Rightarrow> bool" where
  "bakong_checks_blocked tick unix q \<longleftrightarrow>
     redis_mode q = WorkingClient \<and> (case redis_get unix q of None \<Rightarrow> False | Some v \<Rightarrow> unix < v)
     \<or> tick < blocked_until q"

definition bakong_checks_blocked_remaining_seconds :: "monotonic \<Rightarrow> rat \<Rightarrow> quota \<Rightarrow> rat" where
  "bakong_checks_blocked_remaining_seconds tick unix q =
     (case (redis_mode q, redis_get unix q) of
        (WorkingClient, Some v) \<Rightarrow> max 0 (v - unix)
      | _ \<Rightarrow> max 0 (blocked_until q - tick))"

text \<open>Clearing also drops the client, so the next call makes it again: a failing one is retried.\<close>

definition clear_bakong_rate_limit :: "quota \<Rightarrow> quota" where
  "clear_bakong_rate_limit q =
     (case redis_mode q of
        WorkingClient \<Rightarrow> q\<lparr>blocked_until := 0, redis_value := None\<rparr>
      | _ \<Rightarrow> q\<lparr>blocked_until := 0\<rparr>)"

section \<open>The caches are TTL caches\<close>

lemma prune_map_lookup:
  "prune_map stale m k = (case m k of None \<Rightarrow> None | Some v \<Rightarrow> if stale v then None else Some v)"
  by (simp add: prune_map_def)

lemma prune_caches [simp]:
  "md5_cache (prune now s) = prune_map (\<lambda>(_, e). e \<le> now) (md5_cache s)"
  "intent_polled_at (prune now s) = prune_map (\<lambda>e. e \<le> now) (intent_polled_at s)"
  "intent_nbc_checks (prune now s) = intent_nbc_checks s"
  by (simp_all add: prune_def)

definition md5_item_ttl :: "string \<times> monotonic option \<Rightarrow> monotonic" where
  "md5_item_ttl w = (case snd w of None \<Rightarrow> ttl_for_status (fst w) | Some t \<Rightarrow> t)"

definition put_md5 :: "monotonic \<Rightarrow> string \<Rightarrow> string \<times> monotonic option \<Rightarrow> check_cache \<Rightarrow> check_cache" where
  "put_md5 now md5 w s = set_cached_md5_status now md5 (fst w) (snd w) s"

lemma md5_status_fst:
  "fst (get_cached_md5_status now md5 s) =
     (if md5 = [] then None
      else (case md5_cache s md5 of None \<Rightarrow> None | Some (st, e) \<Rightarrow> if e \<le> now then None else Some st))"
  by (auto simp: get_cached_md5_status_def split: option.splits)

interpretation md5_check: ttl_cache get_cached_md5_status put_md5 md5_item_ttl fst "\<lambda>k. k \<noteq> []"
proof
  show "fst (get_cached_md5_status t k' (put_md5 t0 k w s)) =
      (if k' = k then (if t < t0 + md5_item_ttl w then Some (fst w) else None)
       else fst (get_cached_md5_status t k' s))"
    if "k \<noteq> []" "t0 \<le> t" for k k' :: string and t0 t w s
    using that
    by (auto simp: md5_status_fst put_md5_def set_cached_md5_status_def Let_def md5_item_ttl_def
        prune_map_lookup split: option.splits)
  show "fst (get_cached_md5_status t k' (snd (get_cached_md5_status t0 k s))) =
      fst (get_cached_md5_status t k' s)" if "t0 \<le> t" for t0 t k k' s
    using that by (auto simp: md5_status_fst get_cached_md5_status_def split: option.splits)
qed

definition read_polled :: "monotonic \<Rightarrow> string \<Rightarrow> check_cache \<Rightarrow> unit option \<times> check_cache" where
  "read_polled now intent_id s =
     (case was_intent_recently_polled now intent_id s of (b, s') \<Rightarrow> (if b then Some () else None, s'))"

definition put_polled :: "monotonic \<Rightarrow> string \<Rightarrow> unit \<Rightarrow> check_cache \<Rightarrow> check_cache" where
  "put_polled now intent_id _ s = mark_intent_polled now intent_id s"

lemma read_polled_fst:
  "fst (read_polled now i s) =
     (if i = [] then None
      else (case intent_polled_at s i of None \<Rightarrow> None | Some e \<Rightarrow> if e \<le> now then None else Some ()))"
  by (auto simp: read_polled_def was_intent_recently_polled_def split: option.splits)

lemma was_polled_fst: "fst (was_intent_recently_polled now i s) \<longleftrightarrow> fst (read_polled now i s) = Some ()"
  by (auto simp: read_polled_def split: prod.splits)

interpretation polled: ttl_cache read_polled put_polled "\<lambda>_. intent_poll_ttl" id "\<lambda>k. k \<noteq> []"
proof
  show "fst (read_polled t k' (put_polled t0 k w s)) =
      (if k' = k then (if t < t0 + intent_poll_ttl then Some (id w) else None) else fst (read_polled t k' s))"
    if "k \<noteq> []" "t0 \<le> t" for k k' :: string and t0 t and w :: unit and s
    using that
    by (auto simp: read_polled_fst put_polled_def mark_intent_polled_def Let_def prune_map_lookup
        split: option.splits)
  show "fst (read_polled t k' (snd (read_polled t0 k s))) = fst (read_polled t k' s)"
    if "t0 \<le> t" for t0 t k k' s
    using that
    by (auto simp: read_polled_fst read_polled_def was_intent_recently_polled_def split: option.splits)
qed

section \<open>The per-intent budget\<close>

text \<open>Grants given to one intent by a sequence of attempts at given times, for any intents.\<close>

fun grants :: "string \<Rightarrow> int \<Rightarrow> (monotonic \<times> string) list \<Rightarrow> check_cache \<Rightarrow> nat" where
  "grants i m [] s = 0"
| "grants i m ((t, j) # as) s =
     (case consume_intent_nbc_check t j m s of
        (b, s') \<Rightarrow> (if b \<and> j = i then 1 else 0) + grants i m as s')"

definition used_checks :: "string \<Rightarrow> check_cache \<Rightarrow> nat" where
  "used_checks i s = (case map_of (intent_nbc_checks s) i of None \<Rightarrow> 0 | Some (u, _) \<Rightarrow> u)"

text \<open>Counters opened since \<open>T\<close>, at most \<open>limit\<close> each, for intents of \<open>K\<close> (few enough not to prune).\<close>

definition counters_ok :: "string set \<Rightarrow> monotonic \<Rightarrow> nat \<Rightarrow> check_cache \<Rightarrow> bool" where
  "counters_ok K T limit s \<longleftrightarrow> finite K \<and> card K \<le> 2000 \<and>
     distinct (map fst (intent_nbc_checks s)) \<and> fst ` set (intent_nbc_checks s) \<subseteq> K \<and>
     (\<forall>(k, u, t) \<in> set (intent_nbc_checks s). T \<le> t \<and> u \<le> limit)"

lemma set_alist_update: "set (AList.update k v xs) \<subseteq> insert (k, v) (set xs)"
  by (induction xs) auto

lemma counters_ok_update:
  assumes "counters_ok K T limit s" and "j \<in> K" and "T \<le> t" and "u \<le> limit"
  shows "counters_ok K T limit (s\<lparr>intent_nbc_checks :=
      soft_prune (AList.update j (u, t) (intent_nbc_checks s))\<rparr>)"
    and "used_checks i (s\<lparr>intent_nbc_checks := soft_prune (AList.update j (u, t) (intent_nbc_checks s))\<rparr>)
      = (if i = j then u else used_checks i s)"
proof -
  let ?xs = "AList.update j (u, t) (intent_nbc_checks s)"
  have d: "distinct (map fst ?xs)" using assms(1) by (simp add: counters_ok_def distinct_update)
  have sub: "fst ` set ?xs \<subseteq> K"
    using assms(1,2) dom_update [of j "(u, t)" "intent_nbc_checks s"] by (auto simp: counters_ok_def)
  have "length ?xs = card (fst ` set ?xs)" using d by (metis distinct_card length_map list.set_map)
  also have "\<dots> \<le> card K" using sub assms(1) by (intro card_mono) (auto simp: counters_ok_def)
  finally have "soft_prune ?xs = ?xs" using assms(1) by (auto simp: soft_prune_def counters_ok_def)
  moreover have "\<forall>(k, v, t') \<in> set ?xs. T \<le> t' \<and> v \<le> limit"
    using assms set_alist_update [of j "(u, t)" "intent_nbc_checks s"] by (auto simp: counters_ok_def)
  ultimately show "counters_ok K T limit (s\<lparr>intent_nbc_checks := soft_prune ?xs\<rparr>)"
    using d sub assms(1) by (simp add: counters_ok_def)
  show "used_checks i (s\<lparr>intent_nbc_checks := soft_prune ?xs\<rparr>) = (if i = j then u else used_checks i s)"
    using \<open>soft_prune ?xs = ?xs\<close> by (simp add: used_checks_def update_conv')
qed

lemma consume_within:
  assumes "counters_ok K T (nat (max 1 m)) s" and "j \<in> K" and "T \<le> t" and "t < T + intent_nbc_check_window"
    and "consume_intent_nbc_check t j m s = (b, s')" and "i \<noteq> []"
  shows "counters_ok K T (nat (max 1 m)) s'"
    and "(if b \<and> j = i then 1 else 0) + used_checks i s = used_checks i s'"
proof -
  let ?l = "nat (max 1 m)"
  have l: "1 \<le> ?l" by simp
  consider (empty) "j = []" "s' = s"
    | (first) "j \<noteq> []" "used_checks j s = 0" "b"
        "s' = s\<lparr>intent_nbc_checks := soft_prune (AList.update j (1, t) (intent_nbc_checks s))\<rparr>"
    | (full) "j \<noteq> []" "\<not> b" "s' = s"
    | (more) u t0 where "j \<noteq> []" "used_checks j s = u" "b" "u + 1 \<le> ?l" "T \<le> t0"
        "s' = s\<lparr>intent_nbc_checks := soft_prune (AList.update j (u + 1, t0) (intent_nbc_checks s))\<rparr>"
  proof (cases "j = []")
    case True
    with assms(5) empty show ?thesis by (simp add: consume_intent_nbc_check_def)
  next
    case j: False
    show ?thesis
    proof (cases "map_of (intent_nbc_checks s) j")
      case None
      with assms(5) j first show ?thesis
        by (simp add: consume_intent_nbc_check_def Let_def used_checks_def)
    next
      case (Some e)
      obtain u t0 where e: "e = (u, t0)" by (cases e)
      then have t0: "T \<le> t0" using Some assms(1) map_of_SomeD by (fastforce simp: counters_ok_def)
      then have "\<not> intent_nbc_check_window \<le> t - t0" using assms(4) by linarith
      with assms(5) j Some e t0 full more show ?thesis
        by (auto simp: consume_intent_nbc_check_def Let_def used_checks_def split: if_splits)
    qed
  qed
  note cases = this
  show "counters_ok K T ?l s'"
    using cases assms(1-3) l by cases (simp_all add: counters_ok_update(1))
  show "(if b \<and> j = i then 1 else 0) + used_checks i s = used_checks i s'"
    using cases
  proof cases
    case first
    with counters_ok_update(2) [OF assms(1,2,3) l] show ?thesis by auto
  next
    case (more u t0)
    with counters_ok_update(2) [OF assms(1,2) more(5) more(4)] show ?thesis by auto
  qed (use assms(6) in auto)
qed

lemma used_le_limit: "counters_ok K T limit s \<Longrightarrow> used_checks i s \<le> limit"
  by (auto simp: used_checks_def counters_ok_def split: option.splits dest!: map_of_SomeD)

lemma grants_bound:
  "counters_ok K T (nat (max 1 m)) s \<Longrightarrow> i \<noteq> [] \<Longrightarrow>
   \<forall>(t, j) \<in> set as. j \<in> K \<and> T \<le> t \<and> t < T + intent_nbc_check_window \<Longrightarrow>
   grants i m as s + used_checks i s \<le> nat (max 1 m)"
proof (induction as arbitrary: s)
  case Nil
  then show ?case using used_le_limit by simp
next
  case (Cons a as)
  obtain t j where a: "a = (t, j)" by (cases a)
  obtain b s' where c: "consume_intent_nbc_check t j m s = (b, s')"
    by (cases "consume_intent_nbc_check t j m s")
  have tj: "j \<in> K" "T \<le> t" "t < T + intent_nbc_check_window" using Cons.prems(3) a by auto
  note w = consume_within [OF Cons.prems(1) tj c Cons.prems(2)]
  have "grants i m as s' + used_checks i s' \<le> nat (max 1 m)"
    using Cons.IH [OF w(1) Cons.prems(2)] Cons.prems(3) by simp
  with w(2) a c show ?case by simp
qed

section \<open>Properties\<close>

lemma check_cache_fresh_facts:
  shows "\<lbrakk>list_all (valid_op (\<lambda>k. k \<noteq> [])) ops; \<forall>p \<in> set ops. op_time p \<le> t\<rbrakk> \<Longrightarrow>
      fst (get_cached_md5_status t md5 (run_cache get_cached_md5_status put_md5 ops empty_check_cache)) =
        (case last_put md5 ops of None \<Rightarrow> None | Some p \<Rightarrow> fresh_value md5_item_ttl fst t p)"
    and "\<lbrakk>list_all (valid_op (\<lambda>k. k \<noteq> [])) polls; \<forall>p \<in> set polls. op_time p \<le> t\<rbrakk> \<Longrightarrow>
      fst (was_intent_recently_polled t i (run_cache read_polled put_polled polls empty_check_cache)) \<longleftrightarrow>
        (\<exists>t0. last_put i polls = Some (t0, ()) \<and> t < t0 + intent_poll_ttl)"
proof -
  have "fst (get_cached_md5_status t md5 empty_check_cache) = None"
    by (simp add: md5_status_fst empty_check_cache_def)
  then show "fst (get_cached_md5_status t md5 (run_cache get_cached_md5_status put_md5 ops empty_check_cache)) =
        (case last_put md5 ops of None \<Rightarrow> None | Some p \<Rightarrow> fresh_value md5_item_ttl fst t p)"
    if "list_all (valid_op (\<lambda>k. k \<noteq> [])) ops" "\<forall>p \<in> set ops. op_time p \<le> t"
    using md5_check.read_after [OF that, of md5 empty_check_cache] by (simp split: option.split)
  have "fst (read_polled t i empty_check_cache) = None"
    by (simp add: read_polled_fst empty_check_cache_def)
  then show "fst (was_intent_recently_polled t i (run_cache read_polled put_polled polls empty_check_cache)) \<longleftrightarrow>
        (\<exists>t0. last_put i polls = Some (t0, ()) \<and> t < t0 + intent_poll_ttl)"
    if "list_all (valid_op (\<lambda>k. k \<noteq> [])) polls" "\<forall>p \<in> set polls. op_time p \<le> t"
    using polled.read_after [OF that, of i empty_check_cache]
    by (auto simp: was_polled_fst fresh_value_def split: option.splits prod.splits if_splits)
qed

text \<open>
  Cached check results are never stale and never invented. After any history of storing and
  reading, the status read for a transaction is the last one stored for it if that is younger than
  its lifetime (60 s paid, 8 s unpaid, 120 s unknown, or the one given) and a miss otherwise; an
  intent counts as recently polled exactly for 12 s after the last poll.
\<close>

theorem check_cache_fresh:
  "(list_all (valid_op (\<lambda>k. k \<noteq> [])) ops \<longrightarrow> (\<forall>p \<in> set ops. op_time p \<le> t) \<longrightarrow>
      fst (get_cached_md5_status t md5 (run_cache get_cached_md5_status put_md5 ops empty_check_cache)) =
        (case last_put md5 ops of None \<Rightarrow> None | Some p \<Rightarrow> fresh_value md5_item_ttl fst t p)) \<and>
   (list_all (valid_op (\<lambda>k. k \<noteq> [])) polls \<longrightarrow> (\<forall>p \<in> set polls. op_time p \<le> t) \<longrightarrow>
      (fst (was_intent_recently_polled t i (run_cache read_polled put_polled polls empty_check_cache)) \<longleftrightarrow>
        (\<exists>t0. last_put i polls = Some (t0, ()) \<and> t < t0 + intent_poll_ttl)))"
  using check_cache_fresh_facts by blast

definition sample_checks :: "(string, string \<times> monotonic option) cache_op list" where
  "sample_checks = [CachePut 0 ''m'' (''unpaid'', None), CacheRead 9 ''m'', CachePut 10 ''m'' (''paid'', None)]"

theorem check_cache_fresh_witness:
  "fst (get_cached_md5_status 69 ''m''
      (run_cache get_cached_md5_status put_md5 sample_checks empty_check_cache)) = Some ''paid'' \<and>
   fst (get_cached_md5_status 70 ''m''
      (run_cache get_cached_md5_status put_md5 sample_checks empty_check_cache)) = None"
  using check_cache_fresh [THEN conjunct1, rule_format (no_asm), of sample_checks 69 "''m''"] check_cache_fresh [THEN conjunct1, rule_format (no_asm), of sample_checks 70 "''m''"]
  by (simp add: sample_checks_def fresh_value_def md5_item_ttl_def ttl_for_status_def status_paid_def
      paid_ttl_def)

text \<open>
  One checkout cannot burn the day's NBC checks. Starting from empty counters, for any
  interleaving of check attempts inside one counting window (an hour) over at most 2000 intents, each
  intent is granted at most \<open>max_checks\<close> of them (at least one when the cap is set below one).
\<close>

theorem nbc_check_budget:
  assumes "\<forall>(t, j) \<in> set attempts. T \<le> t \<and> t < T + intent_nbc_check_window"
    and "card (snd ` set attempts) \<le> 2000" and "intent_nbc_checks s = []" and "i \<noteq> []"
  shows "int (grants i max_checks attempts s) \<le> max 1 max_checks"
proof -
  have "counters_ok (snd ` set attempts) T (nat (max 1 max_checks)) s"
    using assms(2,3) by (simp add: counters_ok_def)
  moreover have "\<forall>(t, j) \<in> set attempts. j \<in> snd ` set attempts \<and> T \<le> t \<and> t < T + intent_nbc_check_window"
    using assms(1) by force
  ultimately have "grants i max_checks attempts s \<le> nat (max 1 max_checks)"
    using grants_bound [of "snd ` set attempts" T max_checks s i attempts] assms(4) by simp
  then show ?thesis by linarith
qed

theorem nbc_check_budget_witness:
  "int (grants ''a'' 2 [(0, ''a''), (1, ''b''), (2, ''a''), (3, ''a'')] empty_check_cache) \<le> 2"
  using nbc_check_budget [of "[(0, ''a''), (1, ''b''), (2, ''a''), (3, ''a'')]" 0 empty_check_cache "''a''" 2]
  by (simp add: intent_nbc_check_window_def empty_check_cache_def card_insert_if)

text \<open>The Redis key outlives the deadline it holds.\<close>

definition quota_ok :: "quota \<Rightarrow> bool" where
  "quota_ok q \<longleftrightarrow> (case redis_value q of None \<Rightarrow> True | Some (v, x) \<Rightarrow> v \<le> x)"

lemma floor_ttl: "d \<le> max 60 (of_int \<lfloor>d\<rfloor> + 60 :: rat)"
  by linarith

lemma set_blocked_until_ok [inv_intro]:
  "quota_ok q \<Longrightarrow> quota_ok (set_blocked_until tick unix c q)"
  using floor_ttl [of "(case redis_get unix q of None \<Rightarrow> unix + max 5 c | Some v \<Rightarrow> max (unix + max 5 c) v) - unix"]
  by (auto simp: quota_ok_def set_blocked_until_def Let_def split: redis_client.splits)

lemma set_blocked_until_blocked:
  assumes "quota_ok q" and "0 \<le> e"
  shows "bakong_checks_blocked (tick + e) (unix + e) (set_blocked_until tick unix c q) \<longleftrightarrow>
    bakong_checks_blocked (tick + e) (unix + e) q \<or> e < max 5 c"
proof (cases "redis_mode q = WorkingClient")
  case False
  then show ?thesis
    by (cases "redis_mode q") (auto simp: bakong_checks_blocked_def set_blocked_until_def Let_def)
next
  case True
  define until where
    "until = (case redis_get unix q of None \<Rightarrow> unix + max 5 c | Some v \<Rightarrow> max (unix + max 5 c) v)"
  have get: "redis_get (unix + e) (set_blocked_until tick unix c q) =
      (if unix + e < unix + max 60 (of_int \<lfloor>until - unix\<rfloor> + 60) then Some until else None)"
    using True by (simp add: set_blocked_until_def Let_def redis_get_def until_def)
  have new: "(case redis_get (unix + e) (set_blocked_until tick unix c q) of
      None \<Rightarrow> False | Some v \<Rightarrow> unix + e < v) \<longleftrightarrow> unix + e < until"
    using floor_ttl [of "until - unix"] by (auto simp: get split: option.splits)
  have "unix + e < until \<longleftrightarrow>
      e < max 5 c \<or> (case redis_get (unix + e) q of None \<Rightarrow> False | Some v \<Rightarrow> unix + e < v)"
    using assms by (auto simp: until_def redis_get_def quota_ok_def max_def split: option.splits if_splits)
  with new True show ?thesis
    by (auto simp: bakong_checks_blocked_def set_blocked_until_def Let_def)
qed

lemma quota_pause_extends_facts:
  assumes "quota_ok q" and "0 \<le> e"
  shows "bakong_checks_blocked (tick + e) (unix + e) (note_bakong_rate_limited tick unix c q) \<longleftrightarrow>
      bakong_checks_blocked (tick + e) (unix + e) q \<or> e < max 5 c"
    and "bakong_checks_blocked (tick + e) (unix + e) (note_bakong_transient tick unix c q) \<longleftrightarrow>
      bakong_checks_blocked (tick + e) (unix + e) q \<or> e < max 5 (min c 120)"
    and "quota_ok (note_bakong_rate_limited tick unix c q)" and "quota_ok (note_bakong_transient tick unix c q)"
  using set_blocked_until_blocked [OF assms] set_blocked_until_ok [OF assms(1)]
  by (simp_all add: note_bakong_rate_limited_def note_bakong_transient_def)

text \<open>
  A pause of the NBC checks only ever extends. Noting a cooldown blocks the checks for exactly
  the cooldown (at least 5 s) from now, on top of whatever was already blocked: at any later instant
  they are blocked iff they would have been anyway or the cooldown has not passed, whether Redis is
  absent, working or failing; and a transient failure alone never pauses them for more than 120 s.
\<close>

theorem quota_pause_extends:
  assumes "quota_ok q" and "0 \<le> e"
  shows "(bakong_checks_blocked (tick + e) (unix + e) (note_bakong_rate_limited tick unix c q) \<longleftrightarrow>
      bakong_checks_blocked (tick + e) (unix + e) q \<or> e < max 5 c) \<and>
     (bakong_checks_blocked (tick + e) (unix + e) (note_bakong_transient tick unix c q) \<longleftrightarrow>
      bakong_checks_blocked (tick + e) (unix + e) q \<or> e < max 5 (min c 120)) \<and>
     (quota_ok (note_bakong_rate_limited tick unix c q)) \<and>
     (quota_ok (note_bakong_transient tick unix c q))"
  using quota_pause_extends_facts [OF assms] by blast

theorem quota_pause_extends_witness:
  "bakong_checks_blocked 39 1039 (note_bakong_transient 10 1010 transient_cooldown
      \<lparr>blocked_until = 0, redis_mode = WorkingClient, redis_value = None\<rparr>) \<and>
   \<not> bakong_checks_blocked 40 1040 (note_bakong_transient 10 1010 transient_cooldown
      \<lparr>blocked_until = 0, redis_mode = WorkingClient, redis_value = None\<rparr>)"
  using quota_pause_extends [THEN conjunct2, THEN conjunct1, rule_format (no_asm), of "\<lparr>blocked_until = 0, redis_mode = WorkingClient, redis_value = None\<rparr>" 29 10 1010 30]
    quota_pause_extends [THEN conjunct2, THEN conjunct1, rule_format (no_asm), of "\<lparr>blocked_until = 0, redis_mode = WorkingClient, redis_value = None\<rparr>" 30 10 1010 30]
  by (simp add: quota_ok_def bakong_checks_blocked_def redis_get_def transient_cooldown_def)

end
