(* ===== verification/Bakong.thy ===== *)
theory Bakong
  imports Models Bakong_Guards
begin

text \<open>
  \<open>app/billing/bakong.py\<close>: asking NBC (through payment-bakong or directly) whether a KHQR has been
  paid, behind the cache, the circuit breaker and the per-intent budget. The network is an argument:
  the reply each md5 gets. Within one request the clock readings are the argument \<open>clk\<close>.
\<close>

section \<open>Replies\<close>

datatype jval = JNum rat | JStr string | JBool bool | JNull | JOther

text \<open>The keys of a reply the code reads; \<open>bool(...)\<close> of a flag is its truth value.\<close>

record check_body =
  r_paid :: bool
  r_rate_limited :: bool
  r_unknown :: bool
  r_responseCode :: "jval option"
  r_error_code :: "jval option"
  r_errorCode :: "jval option"

datatype json_body = NotJson | NotAnObject | JsonObject check_body

datatype http_reply = TransportError | HttpReply nat string json_body

definition nbc_reports_paid :: "check_body \<Rightarrow> bool" where
  "nbc_reports_paid b \<longleftrightarrow> r_responseCode b \<in> {Some (JNum 0), Some (JStr ''0''), Some (JStr ''00'')}"

text \<open>\<open>is_bakong_daily_limit_error\<close> of \<open>app/services/telegram.py\<close> (NBC error 17).\<close>

definition is_daily_limit_error :: "jval option \<Rightarrow> bool" where
  "is_daily_limit_error c \<longleftrightarrow> c \<in> {Some (JNum 17), Some (JStr ''17'')}"

definition service_base :: "settings \<Rightarrow> string" where
  "service_base cfg = rstrip_char CHR ''/'' (strip (bakong_service_url cfg))"

definition uses_remote_service :: "settings \<Rightarrow> bool" where
  "uses_remote_service cfg \<longleftrightarrow> service_base cfg \<noteq> []"

definition nbc_api_base :: "settings \<Rightarrow> string" where
  "nbc_api_base cfg =
     (let override = rstrip_char CHR ''/'' (strip (bakong_api_base_url cfg)) in
      if override \<noteq> [] then override
      else if starts_with ''rbk'' (bakong_developer_token cfg) then ''https://api.bakongrelay.com/v1''
      else ''https://api-bakong.nbc.gov.kh/v1'')"

definition service_headers :: "settings \<Rightarrow> (string \<times> string) list result" where
  "service_headers cfg =
     (let key = strip (bakong_service_api_key cfg) in
      if key = [] then Inl (HTTPException 503 ''BAKONG_SERVICE_API_KEY is not configured'')
      else Inr [(''Content-Type'', ''application/json''), (''X-API-Key'', key)])"

text \<open>A check's outcome: (paid, inconclusive, quota exhausted), and whether the ops alert is due.\<close>

type_synonym outcome = "bool \<times> bool \<times> bool"

definition remote_check_khqr_paid :: "settings \<Rightarrow> http_reply \<Rightarrow> outcome result" where
  "remote_check_khqr_paid cfg reply =
     (case service_headers cfg of
        Inl e \<Rightarrow> Inl e
      | Inr _ \<Rightarrow>
        Inr (case reply of
               TransportError \<Rightarrow> (False, True, False)
             | HttpReply code _ body \<Rightarrow>
                 if code = 429 then (False, True, True)
                 else if 400 \<le> code then (False, True, False)
                 else (case body of
                         NotJson \<Rightarrow> (False, True, False)
                       | NotAnObject \<Rightarrow> (False, True, False)
                       | JsonObject b \<Rightarrow>
                         (let paid = r_paid b \<or> nbc_reports_paid b in
                          if is_daily_limit_error (r_error_code b) then (paid, True, True)
                          else if paid then (True, False, False)
                          else if r_rate_limited b then (False, True, True)
                          else if r_unknown b then (False, True, False)
                          else (False, False, False)))))"

definition local_check_khqr_paid :: "settings \<Rightarrow> http_reply \<Rightarrow> outcome" where
  "local_check_khqr_paid cfg reply =
     (if bakong_developer_token cfg = [] then (False, False, False)
      else (case reply of
              TransportError \<Rightarrow> (False, True, False)
            | HttpReply code content_type body \<Rightarrow>
                if code = 429 then (False, True, True)
                else if code = 403 \<or> contains ''text/html'' (lower content_type) then (False, True, False)
                else if 400 \<le> code then (False, True, False)
                else (case body of
                        NotJson \<Rightarrow> (False, True, False)
                      | NotAnObject \<Rightarrow> (False, True, False)
                      | JsonObject b \<Rightarrow>
                        (let paid = nbc_reports_paid b in
                         if r_errorCode b = Some (JNum 6) then (False, True, False)
                         else if is_daily_limit_error (r_errorCode b) then (paid, True, True)
                         else (paid, False, False)))))"

section \<open>Probing\<close>

record clock =
  c_utc :: datetime
  c_tick :: monotonic
  c_unix :: rat

text \<open>The process state a probe touches, with the log of the checks sent to the network.\<close>

record guards =
  g_cache :: check_cache
  g_quota :: quota
  g_sent :: "string list"

definition set_md5 :: "clock \<Rightarrow> string \<Rightarrow> string \<Rightarrow> guards \<Rightarrow> guards" where
  "set_md5 clk md5 st w = w\<lparr>g_cache := set_cached_md5_status (c_tick clk) md5 st None (g_cache w)\<rparr>"

definition network_check :: "settings \<Rightarrow> (string \<Rightarrow> http_reply) \<Rightarrow> string \<Rightarrow> outcome result" where
  "network_check cfg net md5 =
     (if uses_remote_service cfg then remote_check_khqr_paid cfg (net md5)
      else Inr (local_check_khqr_paid cfg (net md5)))"

text \<open>What an outcome does to the breaker, and the status it stands for.\<close>

definition note_outcome :: "clock \<Rightarrow> outcome \<Rightarrow> quota \<Rightarrow> string \<times> quota" where
  "note_outcome clk res q =
     (case res of (paid, inconclusive, exhausted) \<Rightarrow>
        if paid then (status_paid, clear_bakong_rate_limit q)
        else if inconclusive then
          (status_unknown,
           if exhausted then note_bakong_rate_limited (c_tick clk) (c_unix clk) default_cooldown q
           else note_bakong_transient (c_tick clk) (c_unix clk) transient_cooldown q)
        else (status_unpaid, q))"

definition send_check ::
    "settings \<Rightarrow> (string \<Rightarrow> http_reply) \<Rightarrow> clock \<Rightarrow> string \<Rightarrow> guards \<Rightarrow> string result \<times> guards" where
  "send_check cfg net clk md5 w =
     (case network_check cfg net md5 of
        Inl e \<Rightarrow> (Inl e, w)
      | Inr res \<Rightarrow>
        (case note_outcome clk res (g_quota w) of
           (st, q) \<Rightarrow> (Inr st, set_md5 clk md5 st (w\<lparr>g_quota := q, g_sent := g_sent w @ [md5]\<rparr>))))"

definition probe_khqr_status ::
    "settings \<Rightarrow> (string \<Rightarrow> http_reply) \<Rightarrow> clock \<Rightarrow> string \<Rightarrow> string option \<Rightarrow> guards \<Rightarrow>
     string result \<times> guards" where
  "probe_khqr_status cfg net clk md5 intent_id w =
     (if md5 = [] then (Inr status_unpaid, w)
      else (case get_cached_md5_status (c_tick clk) md5 (g_cache w) of
              (Some st, c) \<Rightarrow> (Inr st, w\<lparr>g_cache := c\<rparr>)
            | (None, c) \<Rightarrow>
              (let w1 = w\<lparr>g_cache := c\<rparr> in
               if bakong_checks_blocked (c_tick clk) (c_unix clk) (g_quota w)
               then (Inr status_unknown, set_md5 clk md5 status_unknown w1)
               else if truthy intent_id then
                 (case consume_intent_nbc_check (c_tick clk) (the intent_id)
                         (int max_nbc_checks_per_intent) c of
                    (False, c') \<Rightarrow>
                      (Inr status_unknown, set_md5 clk md5 status_unknown (w1\<lparr>g_cache := c'\<rparr>))
                  | (True, c') \<Rightarrow> send_check cfg net clk md5 (w1\<lparr>g_cache := c'\<rparr>))
               else send_check cfg net clk md5 w1)))"

definition check_khqr_paid ::
    "settings \<Rightarrow> (string \<Rightarrow> http_reply) \<Rightarrow> clock \<Rightarrow> string \<Rightarrow> string option \<Rightarrow> guards \<Rightarrow>
     bool result \<times> guards" where
  "check_khqr_paid cfg net clk md5 intent_id w =
     (case probe_khqr_status cfg net clk md5 intent_id w of
        (Inl e, w') \<Rightarrow> (Inl e, w')
      | (Inr st, w') \<Rightarrow> (Inr (st = status_paid), w'))"

section \<open>What a probe can return\<close>

text \<open>NBC says so: the reply to this md5 reports the transaction settled.\<close>

definition nbc_paid :: "settings \<Rightarrow> (string \<Rightarrow> http_reply) \<Rightarrow> string \<Rightarrow> bool" where
  "nbc_paid cfg net md5 \<longleftrightarrow> (case network_check cfg net md5 of Inr (True, _) \<Rightarrow> True | _ \<Rightarrow> False)"

definition cached_paid :: "monotonic \<Rightarrow> string \<Rightarrow> guards \<Rightarrow> bool" where
  "cached_paid now md5 w \<longleftrightarrow> fst (get_cached_md5_status now md5 (g_cache w)) = Some status_paid"

lemmas status_defs = status_paid_def status_unpaid_def status_unknown_def

lemma note_outcome_paid: "fst (note_outcome clk res q) = status_paid \<longleftrightarrow> fst res"
  by (auto simp: note_outcome_def status_defs split: prod.splits)

lemma send_check_paid:
  "send_check cfg net clk md5 w = (Inr status_paid, w') \<Longrightarrow> nbc_paid cfg net md5"
  using note_outcome_paid
  by (auto simp: send_check_def nbc_paid_def split: sum.splits prod.splits bool.splits) (metis fst_conv)+

lemma probe_paid:
  assumes "probe_khqr_status cfg net clk md5 i w = (Inr status_paid, w')"
  shows "cached_paid (c_tick clk) md5 w \<or> nbc_paid cfg net md5"
  using assms send_check_paid
  by (auto simp: probe_khqr_status_def cached_paid_def Let_def status_defs
      split: if_splits option.splits prod.splits bool.splits)

lemma send_check_sent:
  "send_check cfg net clk md5 w = (r, w') \<Longrightarrow> g_sent w' = g_sent w \<or> g_sent w' = g_sent w @ [md5]"
  by (auto simp: send_check_def set_md5_def split: sum.splits prod.splits)

text \<open>Every md5 cached as paid is in \<open>P\<close>, a set that holds whatever NBC has reported paid.\<close>

definition paid_cache_honest :: "string set \<Rightarrow> guards \<Rightarrow> bool" where
  "paid_cache_honest P w \<longleftrightarrow> (\<forall>md5 x. md5_cache (g_cache w) md5 = Some (status_paid, x) \<longrightarrow> md5 \<in> P)"

lemma cached_paid_honest:
  "paid_cache_honest P w \<Longrightarrow> cached_paid t md5 w \<Longrightarrow> md5 \<in> P"
  by (auto simp: cached_paid_def paid_cache_honest_def get_cached_md5_status_def split: if_splits option.splits)

lemma honest_get:
  "paid_cache_honest P w \<Longrightarrow> get_cached_md5_status t md5 (g_cache w) = (r, c) \<Longrightarrow>
   paid_cache_honest P (w\<lparr>g_cache := c\<rparr>)"
  by (auto simp: paid_cache_honest_def get_cached_md5_status_def split: if_splits option.splits)

lemma honest_consume:
  "paid_cache_honest P (w\<lparr>g_cache := c\<rparr>) \<Longrightarrow> consume_intent_nbc_check t i n c = (b, c') \<Longrightarrow>
   paid_cache_honest P (w\<lparr>g_cache := c'\<rparr>)"
  by (auto simp: paid_cache_honest_def consume_intent_nbc_check_def Let_def
      split: if_splits option.splits)

lemma honest_set:
  "paid_cache_honest P w \<Longrightarrow> (st = status_paid \<Longrightarrow> md5 \<in> P) \<Longrightarrow> paid_cache_honest P (set_md5 clk md5 st w)"
  by (auto simp: paid_cache_honest_def set_md5_def set_cached_md5_status_def prune_def prune_map_def
      Let_def split: if_splits option.splits prod.splits)

lemma honest_cong: "g_cache w = g_cache w' \<Longrightarrow> paid_cache_honest P w = paid_cache_honest P w'"
  by (simp add: paid_cache_honest_def)

lemma honest_send:
  assumes "paid_cache_honest P w" and "nbc_paid cfg net md5 \<Longrightarrow> md5 \<in> P"
    and "send_check cfg net clk md5 w = (r, w')"
  shows "paid_cache_honest P w'"
proof (cases "network_check cfg net md5")
  case (Inl e)
  with assms show ?thesis by (simp add: send_check_def)
next
  case (Inr res)
  obtain st q where no: "note_outcome clk res (g_quota w) = (st, q)" by fastforce
  have "st = status_paid \<Longrightarrow> md5 \<in> P"
    using note_outcome_paid [of clk res "g_quota w"] no Inr assms(2)
    by (cases res) (auto simp: nbc_paid_def)
  then show ?thesis
    using assms(1,3) no Inr honest_set [of P "w\<lparr>g_quota := q, g_sent := g_sent w @ [md5]\<rparr>" st md5 clk]
    by (simp add: send_check_def paid_cache_honest_def)
qed

lemma honest_probe:
  assumes honest: "paid_cache_honest P w" and nbc: "nbc_paid cfg net md5 \<Longrightarrow> md5 \<in> P"
    and probe: "probe_khqr_status cfg net clk md5 i w = (r, w')"
  shows "paid_cache_honest P w'" and "r = Inr status_paid \<Longrightarrow> md5 \<in> P"
proof -
  show "r = Inr status_paid \<Longrightarrow> md5 \<in> P"
    using probe probe_paid cached_paid_honest [OF honest] nbc by blast
  obtain st c where get: "get_cached_md5_status (c_tick clk) md5 (g_cache w) = (st, c)" by fastforce
  obtain b c' where con: "consume_intent_nbc_check (c_tick clk) (the i) (int max_nbc_checks_per_intent) c = (b, c')"
    by fastforce
  have h1: "paid_cache_honest P (w\<lparr>g_cache := c\<rparr>)" by (rule honest_get [OF honest get])
  have h2: "paid_cache_honest P (w\<lparr>g_cache := c'\<rparr>)" by (rule honest_consume [OF h1 con])
  have unknown: "paid_cache_honest P v \<Longrightarrow> paid_cache_honest P (set_md5 clk md5 status_unknown v)" for v
    by (rule honest_set) (simp_all add: status_defs)
  show "paid_cache_honest P w'"
    using probe honest get con h1 h2 unknown honest_send [OF h1 nbc] honest_send [OF h2 nbc]
    by (auto simp: probe_khqr_status_def Let_def split: if_splits option.splits bool.splits)
qed

lemma honest_check:
  assumes "paid_cache_honest P w" and "nbc_paid cfg net md5 \<Longrightarrow> md5 \<in> P"
    and "check_khqr_paid cfg net clk md5 i w = (r, w')"
  shows "paid_cache_honest P w'" and "r = Inr True \<Longrightarrow> md5 \<in> P"
  using assms honest_probe [OF assms(1,2)]
  by (auto simp: check_khqr_paid_def split: prod.splits sum.splits)

lemma set_md5_sent [simp]: "g_sent (set_md5 clk md5 st w) = g_sent w"
  by (simp add: set_md5_def)

text \<open>What the cache answers after a status has been stored.\<close>

lemma get_after_set_md5:
  assumes "md5 \<noteq> []" and "t < c_tick clk + ttl_for_status st"
  shows "get_cached_md5_status t md5 (g_cache (set_md5 clk md5 st w)) = (Some st, g_cache (set_md5 clk md5 st w))"
  using assms by (simp add: set_md5_def set_cached_md5_status_def get_cached_md5_status_def Let_def)

lemma probe_stores:
  assumes "probe_khqr_status cfg net clk md5 i w = (Inr st, w')" and "md5 \<noteq> []"
    and "fst (get_cached_md5_status (c_tick clk) md5 (g_cache w)) = None"
  shows "\<exists>v. w' = set_md5 clk md5 st v"
  using assms
  by (auto simp: probe_khqr_status_def send_check_def Let_def
      split: if_splits option.splits bool.splits sum.splits prod.splits)


lemma probe_sound_facts:
  assumes probe: "probe_khqr_status cfg net clk md5 i w = (r, w')"
    and honest: "paid_cache_honest P w" and nbc: "nbc_paid cfg net md5 \<Longrightarrow> md5 \<in> P"
  shows "r = Inr status_paid \<Longrightarrow> md5 \<in> P" and "paid_cache_honest P w'"
    and "g_sent w' = g_sent w \<or> g_sent w' = g_sent w @ [md5]"
    and "md5 = [] \<or> fst (get_cached_md5_status (c_tick clk) md5 (g_cache w)) \<noteq> None \<or>
         bakong_checks_blocked (c_tick clk) (c_unix clk) (g_quota w) \<Longrightarrow> g_sent w' = g_sent w"
    and "md5 \<noteq> [] \<Longrightarrow> fst (get_cached_md5_status (c_tick clk) md5 (g_cache w)) = None \<Longrightarrow>
         bakong_checks_blocked (c_tick clk) (c_unix clk) (g_quota w) \<Longrightarrow> r = Inr status_unknown"
    and "r = Inr st \<Longrightarrow> md5 \<noteq> [] \<Longrightarrow> fst (get_cached_md5_status (c_tick clk) md5 (g_cache w)) = None \<Longrightarrow>
         c_tick clk' < c_tick clk + ttl_for_status st \<Longrightarrow>
         probe_khqr_status cfg net' clk' md5 i' w' = (Inr st, w')"
proof -
  show "r = Inr status_paid \<Longrightarrow> md5 \<in> P" "paid_cache_honest P w'"
    using honest_probe [OF honest nbc probe] by auto
  show "g_sent w' = g_sent w \<or> g_sent w' = g_sent w @ [md5]"
    using probe send_check_sent
    by (auto simp: probe_khqr_status_def Let_def split: if_splits option.splits prod.splits bool.splits)
      fastforce+
  show "md5 = [] \<or> fst (get_cached_md5_status (c_tick clk) md5 (g_cache w)) \<noteq> None \<or>
      bakong_checks_blocked (c_tick clk) (c_unix clk) (g_quota w) \<Longrightarrow> g_sent w' = g_sent w"
    using probe by (auto simp: probe_khqr_status_def Let_def split: if_splits option.splits prod.splits)
  show "md5 \<noteq> [] \<Longrightarrow> fst (get_cached_md5_status (c_tick clk) md5 (g_cache w)) = None \<Longrightarrow>
      bakong_checks_blocked (c_tick clk) (c_unix clk) (g_quota w) \<Longrightarrow> r = Inr status_unknown"
    using probe by (auto simp: probe_khqr_status_def Let_def split: if_splits option.splits prod.splits)
  assume "r = Inr st" "md5 \<noteq> []" "fst (get_cached_md5_status (c_tick clk) md5 (g_cache w)) = None"
    and t: "c_tick clk' < c_tick clk + ttl_for_status st"
  then obtain v where v: "w' = set_md5 clk md5 st v" using probe probe_stores by blast
  show "probe_khqr_status cfg net' clk' md5 i' w' = (Inr st, w')"
    using get_after_set_md5 [OF \<open>md5 \<noteq> []\<close> t, of v] v \<open>md5 \<noteq> []\<close> by (simp add: probe_khqr_status_def)
qed

text \<open>
  C32: What one probe can say and cost. \<open>paid\<close> comes only from NBC: from this probe's reply, or from a
  cached earlier one (every md5 cached as paid is in \<open>P\<close>, any set holding what NBC reports paid, and
  that stays so). A probe sends at most one check, and none when the md5 is empty, its status is
  cached, or the breaker is open; with the breaker open and nothing cached the answer is \<open>unknown\<close>,
  never \<open>unpaid\<close>. And the answer it gives is the answer any further probe of the md5 gets, without
  network, until the status's time-to-live has passed.
\<close>

theorem probe_sound:
  assumes probe: "probe_khqr_status cfg net clk md5 i w = (r, w')"
    and honest: "paid_cache_honest P w" and nbc: "nbc_paid cfg net md5 \<Longrightarrow> md5 \<in> P"
  shows "(r = Inr status_paid \<longrightarrow> md5 \<in> P) \<and>
     (paid_cache_honest P w') \<and>
     (g_sent w' = g_sent w \<or> g_sent w' = g_sent w @ [md5]) \<and>
     (md5 = [] \<or> fst (get_cached_md5_status (c_tick clk) md5 (g_cache w)) \<noteq> None \<or>
      bakong_checks_blocked (c_tick clk) (c_unix clk) (g_quota w) \<longrightarrow> g_sent w' = g_sent w) \<and>
     (md5 \<noteq> [] \<longrightarrow> fst (get_cached_md5_status (c_tick clk) md5 (g_cache w)) = None \<longrightarrow>
      bakong_checks_blocked (c_tick clk) (c_unix clk) (g_quota w) \<longrightarrow> r = Inr status_unknown) \<and>
     (r = Inr st \<longrightarrow> md5 \<noteq> [] \<longrightarrow> fst (get_cached_md5_status (c_tick clk) md5 (g_cache w)) = None \<longrightarrow>
      c_tick clk' < c_tick clk + ttl_for_status st \<longrightarrow>
      probe_khqr_status cfg net' clk' md5 i' w' = (Inr st, w'))"
  using probe_sound_facts [OF assms] by blast

text \<open>A concrete service: NBC settled the md5 \<open>''aa''\<close> and no other.\<close>

definition demo_cfg :: settings where
  "demo_cfg = default_settings\<lparr>bakong_developer_token := ''t'', bakong_account_id := ''a@b''\<rparr>"

definition demo_net :: "string \<Rightarrow> http_reply" where
  "demo_net md5 = HttpReply 200 ''application/json'' (JsonObject \<lparr>r_paid = False, r_rate_limited = False,
     r_unknown = False, r_responseCode = Some (JNum (if md5 = ''aa'' then 0 else 1)),
     r_error_code = None, r_errorCode = None\<rparr>)"

definition demo_guards :: guards where
  "demo_guards = \<lparr>g_cache = empty_check_cache,
     g_quota = \<lparr>blocked_until = 0, redis_mode = NoClient, redis_value = None\<rparr>, g_sent = []\<rparr>"

definition demo_clock :: clock where
  "demo_clock = \<lparr>c_utc = 1000000, c_tick = 10, c_unix = 1\<rparr>"

lemma demo_honest: "paid_cache_honest P demo_guards"
  by (simp add: paid_cache_honest_def demo_guards_def empty_check_cache_def)

lemma demo_nbc_paid: "nbc_paid demo_cfg demo_net md5 \<longleftrightarrow> md5 = ''aa''"
proof -
  have "\<not> uses_remote_service demo_cfg" by code_simp
  moreover have "bakong_developer_token demo_cfg \<noteq> []" by code_simp
  ultimately show ?thesis
    by (auto simp: nbc_paid_def network_check_def local_check_khqr_paid_def demo_net_def
        nbc_reports_paid_def is_daily_limit_error_def lower_def lower_char_def Let_def)
qed

theorem probe_sound_witness:
  "fst (probe_khqr_status demo_cfg demo_net demo_clock ''aa'' (Some ''i'') demo_guards) = Inr status_paid \<and>
   g_sent (snd (probe_khqr_status demo_cfg demo_net demo_clock ''aa'' (Some ''i'') demo_guards)) = [''aa''] \<and>
   fst (probe_khqr_status demo_cfg (\<lambda>_. TransportError) (demo_clock\<lparr>c_tick := 69\<rparr>) ''aa'' None
     (snd (probe_khqr_status demo_cfg demo_net demo_clock ''aa'' (Some ''i'') demo_guards))) = Inr status_paid"
proof -
  let ?p = "probe_khqr_status demo_cfg demo_net demo_clock ''aa'' (Some ''i'') demo_guards"
  have run: "fst ?p = Inr status_paid" "g_sent (snd ?p) = [''aa'']" by code_simp+
  have miss: "fst (get_cached_md5_status (c_tick demo_clock) ''aa'' (g_cache demo_guards)) = None"
    by (simp add: get_cached_md5_status_def demo_guards_def empty_check_cache_def)
  have time: "c_tick (demo_clock\<lparr>c_tick := 69\<rparr>) < c_tick demo_clock + ttl_for_status status_paid"
    by (simp add: demo_clock_def ttl_for_status_def paid_ttl_def)
  have nbc: "nbc_paid demo_cfg demo_net ''aa'' \<Longrightarrow> ''aa'' \<in> {''aa''}" by simp
  have "?p = (Inr status_paid, snd ?p)" using run(1) by (metis prod.collapse)
  from probe_sound [THEN conjunct2, THEN conjunct2, THEN conjunct2, THEN conjunct2, THEN conjunct2, rule_format (no_asm), OF this demo_honest nbc _ _ miss time] run
  show ?thesis by simp
qed

section \<open>Minting a KHQR\<close>

text \<open>
  What the \<open>bakong-khqr\<close> package and payment-bakong's \<open>/v1/khqr\<close> answer are arguments. A 2xx body that
  is not JSON, or lacks \<open>qr_string\<close> or \<open>md5\<close>, raises (\<open>KhqrMalformed\<close>, written \<open>ValueError\<close>).
\<close>

datatype khqr_reply =
  KhqrUnreachable | KhqrMalformed nat | KhqrReply nat string string "string option"

record khqr_service =
  k_sdk :: "decimal \<Rightarrow> string \<Rightarrow> string \<times> string"
  k_remote :: "decimal \<Rightarrow> string \<Rightarrow> khqr_reply"

definition local_generate_khqr ::
    "settings \<Rightarrow> khqr_service \<Rightarrow> decimal \<Rightarrow> string \<Rightarrow> (string \<times> string \<times> string) result" where
  "local_generate_khqr cfg svc amount bill =
     (if bakong_developer_token cfg = [] \<or> bakong_account_id cfg = []
      then Inl (HTTPException 503 ''Bakong is not configured'')
      else (case k_sdk svc amount (take 25 bill) of
              (qr, md5) \<Rightarrow> Inr (qr, md5, bakong_merchant_name cfg)))"

definition remote_generate_khqr ::
    "settings \<Rightarrow> khqr_service \<Rightarrow> decimal \<Rightarrow> string \<Rightarrow> (string \<times> string \<times> string) result" where
  "remote_generate_khqr cfg svc amount bill =
     (case service_headers cfg of
        Inl e \<Rightarrow> Inl e
      | Inr _ \<Rightarrow>
        (case k_remote svc amount (take 25 bill) of
           KhqrUnreachable \<Rightarrow> Inl (HTTPException 503 ''Bakong payment service unreachable'')
         | KhqrMalformed code \<Rightarrow>
             if 400 \<le> code then Inl (HTTPException 503 ''Bakong payment service error'')
             else Inl (ValueError ''malformed /v1/khqr reply'')
         | KhqrReply code qr md5 merchant \<Rightarrow>
             if 400 \<le> code then Inl (HTTPException 503 ''Bakong payment service error'')
             else Inr (qr, md5, if truthy merchant then the merchant else bakong_merchant_name cfg)))"

definition generate_khqr ::
    "settings \<Rightarrow> khqr_service \<Rightarrow> decimal \<Rightarrow> string \<Rightarrow> (string \<times> string \<times> string) result" where
  "generate_khqr cfg svc amount bill =
     (if uses_remote_service cfg then remote_generate_khqr cfg svc amount bill
      else local_generate_khqr cfg svc amount bill)"

end
