(* ===== verification/Settlement.thy ===== *)
theory Settlement
  imports Fulfillment Bakong
begin

text \<open>
  \<open>app/billing/bakong_settle.py\<close> and \<open>app/billing/ownership.py\<close>: fulfilling a pending intent once NBC
  reports its KHQR paid, and closing one whose title the buyer already owns. One request sees one
  environment: settings, the network's answers, its clock and the ids it may generate.
\<close>

record env =
  e_cfg :: settings
  e_net :: "string \<Rightarrow> http_reply"
  e_clk :: clock
  e_fresh :: uuid
  e_hex :: "string list"
  e_khqr :: khqr_service

text \<open>What settling touches: the open transaction and the process state behind the NBC checks.\<close>

record billing =
  b_tx :: tx
  b_guards :: guards

section \<open>Ownership\<close>

definition status_superseded :: string where
  "status_superseded = ''superseded''"

definition owner_filter ::
    "uuid option \<Rightarrow> string option \<Rightarrow> ('r \<Rightarrow> uuid option) \<Rightarrow> ('r \<Rightarrow> string option) \<Rightarrow> 'r \<Rightarrow> bool" where
  "owner_filter uid guest_id user_of guest_of row =
     (case uid of Some _ \<Rightarrow> user_of row = uid | None \<Rightarrow> guest_of row = guest_id)"

definition mark_succeeded_if_already_purchased :: "datetime \<Rightarrow> intent_row \<Rightarrow> db \<Rightarrow> bool \<times> db" where
  "mark_succeeded_if_already_purchased now p d =
     (let supersede = set_intent_status (pi_intent_id p) status_superseded (Some now) d in
      if pi_user_id p = None \<and> \<not> truthy (pi_guest_id p) then (False, d)
      else (case (pi_kind p = ''series'', pi_series_id p) of
              (True, Some sid) \<Rightarrow>
                if exists_row (\<lambda>u. spu_series_id u = sid \<and>
                     owner_filter (pi_user_id p) (pi_guest_id p) spu_user_id spu_guest_id u) (series_purchases d)
                then (True, supersede) else (False, d)
            | _ \<Rightarrow>
              (case pi_content_id p of
                 None \<Rightarrow> (False, d)
               | Some cid \<Rightarrow>
                   if exists_row (\<lambda>u. pu_content_id u = cid \<and>
                        owner_filter (pi_user_id p) (pi_guest_id p) pu_user_id pu_guest_id u) (purchases d)
                   then (True, supersede) else (False, d))))"

section \<open>Settling\<close>

definition nbc_settle_enabled :: "settings \<Rightarrow> bool" where
  "nbc_settle_enabled cfg = bakong_nbc_settle_enabled cfg"

definition qr_issued_at :: "intent_row \<Rightarrow> datetime" where
  "qr_issued_at p = (case pi_bakong_qr_created_at p of Some t \<Rightarrow> t | None \<Rightarrow> pi_created_at p)"

definition qr_is_stale :: "settings \<Rightarrow> datetime \<Rightarrow> intent_row \<Rightarrow> bool" where
  "qr_is_stale cfg now p \<longleftrightarrow> minutes (bakong_qr_ttl_minutes cfg) \<le> now - qr_issued_at p"

definition bakong_md5s_paid :: "env \<Rightarrow> intent_row \<Rightarrow> guards \<Rightarrow> bool result \<times> guards" where
  "bakong_md5s_paid e p w =
     (if \<not> nbc_settle_enabled (e_cfg e) \<or> \<not> truthy (pi_bakong_md5 p) then (Inr False, w)
      else (case probe_khqr_status (e_cfg e) (e_net e) (e_clk e) (the (pi_bakong_md5 p))
                   (Some (pi_intent_id p)) w of
              (Inl err, w1) \<Rightarrow> (Inl err, w1)
            | (Inr st, w1) \<Rightarrow>
                if st = status_paid then (Inr True, w1)
                else if st = status_unknown then (Inr False, w1)
                else if truthy (pi_bakong_prev_md5 p) \<and> pi_bakong_prev_md5 p \<noteq> pi_bakong_md5 p
                then check_khqr_paid (e_cfg e) (e_net e) (e_clk e) (the (pi_bakong_prev_md5 p))
                       (Some (pi_intent_id p)) w1
                else (Inr False, w1)))"

fun all_unpaid :: "env \<Rightarrow> string \<Rightarrow> string list \<Rightarrow> guards \<Rightarrow> bool result \<times> guards" where
  "all_unpaid e i [] w = (Inr True, w)"
| "all_unpaid e i (md5 # md5s) w =
     (case probe_khqr_status (e_cfg e) (e_net e) (e_clk e) md5 (Some i) w of
        (Inl err, w1) \<Rightarrow> (Inl err, w1)
      | (Inr st, w1) \<Rightarrow> if st \<noteq> status_unpaid then (Inr False, w1) else all_unpaid e i md5s w1)"

definition qr_md5s :: "intent_row \<Rightarrow> string list" where
  "qr_md5s p =
     (let current = (if truthy (pi_bakong_md5 p) then [the (pi_bakong_md5 p)] else []) in
      current @ (if truthy (pi_bakong_prev_md5 p) \<and> the (pi_bakong_prev_md5 p) \<notin> set current
                 then [the (pi_bakong_prev_md5 p)] else []))"

definition bakong_qr_confirmed_unpaid :: "env \<Rightarrow> intent_row \<Rightarrow> guards \<Rightarrow> bool result \<times> guards" where
  "bakong_qr_confirmed_unpaid e p w =
     (if \<not> nbc_settle_enabled (e_cfg e) then (Inr True, w)
      else all_unpaid e (pi_intent_id p) (qr_md5s p) w)"

definition settle_bakong_intent_if_paid :: "env \<Rightarrow> intent_row \<Rightarrow> billing \<Rightarrow> bool result \<times> billing" where
  "settle_bakong_intent_if_paid e p b =
     (if pi_status p = ''succeeded'' then (Inr True, b)
      else if pi_method p \<noteq> ''bakong'' \<or> pi_status p \<noteq> ''pending'' then (Inr False, b)
      else if \<not> nbc_settle_enabled (e_cfg e) then (Inr False, b)
      else (case bakong_md5s_paid e p (b_guards b) of
              (Inl err, w) \<Rightarrow> (Inl err, b\<lparr>b_guards := w\<rparr>)
            | (Inr False, w) \<Rightarrow> (Inr False, b\<lparr>b_guards := w\<rparr>)
            | (Inr True, w) \<Rightarrow>
              (case fulfill_payment_intent (c_utc (e_clk e)) (e_fresh e) (pi_intent_id p) (Some ''bakong'') (b_tx b) of
                 (Inl err, t) \<Rightarrow> (Inl err, b\<lparr>b_guards := w, b_tx := t\<rparr>)
               | (Inr _, t) \<Rightarrow> (Inr True, b\<lparr>b_guards := w, b_tx := t\<rparr>))))"

text \<open>The safety net of playback authorisation: at most the buyer's two newest open checkouts.\<close>

fun settle_first :: "env \<Rightarrow> intent_row list \<Rightarrow> billing \<Rightarrow> bool result \<times> billing" where
  "settle_first e [] b = (Inr False, b)"
| "settle_first e (p # ps) b =
     (case settle_bakong_intent_if_paid e p b of
        (Inl err, b1) \<Rightarrow> (Inl err, b1)
      | (Inr True, b1) \<Rightarrow> (Inr True, b1)
      | (Inr False, b1) \<Rightarrow> settle_first e ps b1)"

definition open_movie_intents :: "uuid option \<Rightarrow> string option \<Rightarrow> uuid \<Rightarrow> db \<Rightarrow> intent_row list" where
  "open_movie_intents uid guest_id cid d =
     filter (\<lambda>p. owner_filter uid guest_id pi_user_id pi_guest_id p \<and> pi_method p = ''bakong'' \<and>
        pi_kind p = ''single'' \<and> pi_content_id p = Some cid \<and> pi_status p = ''pending'' \<and>
        pi_bakong_md5 p \<noteq> None) (payment_intents d)"

definition settle_pending_movie_bakong_for_buyer ::
    "env \<Rightarrow> uuid \<Rightarrow> uuid option \<Rightarrow> string option \<Rightarrow> billing \<Rightarrow> bool result \<times> billing" where
  "settle_pending_movie_bakong_for_buyer e cid uid guest_id b =
     (if \<not> nbc_settle_enabled (e_cfg e) then (Inr False, b)
      else if uid = None \<and> \<not> truthy guest_id then (Inr False, b)
      else if bakong_checks_blocked (c_tick (e_clk e)) (c_unix (e_clk e)) (g_quota (b_guards b)) then (Inr False, b)
      else settle_first e
             (take 2 (order_by (\<lambda>p. - pi_created_at p) (open_movie_intents uid guest_id cid (tx_db (b_tx b))))) b)"

section \<open>What settling may do\<close>

text \<open>\<open>P\<close> holds every md5 NBC reports paid.\<close>

definition nbc_reports :: "env \<Rightarrow> string set \<Rightarrow> bool" where
  "nbc_reports e P \<longleftrightarrow> (\<forall>md5. nbc_paid (e_cfg e) (e_net e) md5 \<longrightarrow> md5 \<in> P)"

definition paid_by :: "string set \<Rightarrow> intent_row \<Rightarrow> bool" where
  "paid_by P p \<longleftrightarrow> pi_bakong_md5 p \<in> Some ` P \<or> pi_bakong_prev_md5 p \<in> Some ` P"

lemma paid_by_mono: "P \<subseteq> Q \<Longrightarrow> paid_by P p \<Longrightarrow> paid_by Q p"
  by (auto simp: paid_by_def)

lemma md5s_paid_sound:
  assumes honest: "paid_cache_honest P w" and net: "nbc_reports e P"
    and run: "bakong_md5s_paid e p w = (r, w')"
  shows "paid_cache_honest P w' \<and> (r = Inr True \<longrightarrow> nbc_settle_enabled (e_cfg e) \<and> paid_by P p)"
proof (cases "nbc_settle_enabled (e_cfg e) \<and> truthy (pi_bakong_md5 p)")
  case False
  then show ?thesis using run honest by (auto simp: bakong_md5s_paid_def)
next
  case True
  then obtain md5 where md5: "pi_bakong_md5 p = Some md5" by (cases "pi_bakong_md5 p") auto
  have nbc: "\<And>m. nbc_paid (e_cfg e) (e_net e) m \<Longrightarrow> m \<in> P" using net by (simp add: nbc_reports_def)
  obtain r1 w1 where probe: "probe_khqr_status (e_cfg e) (e_net e) (e_clk e) md5 (Some (pi_intent_id p)) w = (r1, w1)"
    by fastforce
  note h1 = honest_probe [OF honest nbc probe]
  obtain r2 w2 where check: "check_khqr_paid (e_cfg e) (e_net e) (e_clk e) (the (pi_bakong_prev_md5 p))
      (Some (pi_intent_id p)) w1 = (r2, w2)" by fastforce
  note h2 = honest_check [OF h1(1) nbc check]
  have prev: "truthy (pi_bakong_prev_md5 p) \<Longrightarrow> pi_bakong_prev_md5 p = Some (the (pi_bakong_prev_md5 p))"
    by (cases "pi_bakong_prev_md5 p") simp_all
  show ?thesis
    using run True md5 probe check h1 h2 prev
    by (auto simp: bakong_md5s_paid_def paid_by_def split: sum.splits if_splits)
qed

text \<open>A settle either leaves the transaction alone or fulfils that very intent, which NBC reports paid.\<close>

lemma settle_sound:
  assumes honest: "paid_cache_honest P (b_guards b)" and net: "nbc_reports e P"
    and run: "settle_bakong_intent_if_paid e p b = (r, b')"
  shows "paid_cache_honest P (b_guards b')"
    and "b_tx b' = b_tx b \<and> (r = Inr True \<longrightarrow> pi_status p = ''succeeded'') \<or>
         (\<exists>s. nbc_settle_enabled (e_cfg e) \<and> paid_by P p \<and> pi_status p = ''pending'' \<and> pi_method p = ''bakong'' \<and>
           fulfill_payment_intent (c_utc (e_clk e)) (e_fresh e) (pi_intent_id p) (Some ''bakong'') (b_tx b) = (s, b_tx b') \<and>
           (r = Inr True \<longleftrightarrow> is_ok s) \<and> (\<forall>err. r = Inl err \<longleftrightarrow> s = Inl err))"
proof -
  obtain r1 w where paid: "bakong_md5s_paid e p (b_guards b) = (r1, w)" by fastforce
  obtain s t where ful: "fulfill_payment_intent (c_utc (e_clk e)) (e_fresh e) (pi_intent_id p) (Some ''bakong'') (b_tx b) = (s, t)"
    by fastforce
  note snd = md5s_paid_sound [OF honest net paid]
  show "paid_cache_honest P (b_guards b')"
    using run paid ful snd honest
    by (auto simp: settle_bakong_intent_if_paid_def split: if_splits sum.splits bool.splits)
  show "b_tx b' = b_tx b \<and> (r = Inr True \<longrightarrow> pi_status p = ''succeeded'') \<or>
         (\<exists>s. nbc_settle_enabled (e_cfg e) \<and> paid_by P p \<and> pi_status p = ''pending'' \<and> pi_method p = ''bakong'' \<and>
           fulfill_payment_intent (c_utc (e_clk e)) (e_fresh e) (pi_intent_id p) (Some ''bakong'') (b_tx b) = (s, b_tx b') \<and>
           (r = Inr True \<longleftrightarrow> is_ok s) \<and> (\<forall>err. r = Inl err \<longleftrightarrow> s = Inl err))"
    using run paid ful snd
    by (auto simp: settle_bakong_intent_if_paid_def is_ok_def split: if_splits sum.splits bool.splits)
qed

section \<open>No success without payment\<close>

text \<open>
  From one database to a later one: the same intents under the same KHQRs, and whichever became
  succeeded was paid, by an md5 in \<open>P\<close>.
\<close>

definition paid_step :: "string set \<Rightarrow> db \<Rightarrow> db \<Rightarrow> bool" where
  "paid_step P d d' \<longleftrightarrow>
     (\<forall>i. rel_option (\<lambda>p p'. pi_bakong_md5 p' = pi_bakong_md5 p \<and> pi_bakong_prev_md5 p' = pi_bakong_prev_md5 p \<and>
          pi_user_id p' = pi_user_id p \<and> pi_guest_id p' = pi_guest_id p \<and>
          (pi_status p' = ''succeeded'' \<longrightarrow> pi_status p = ''succeeded'' \<or> paid_by P p))
        (find_intent i d) (find_intent i d'))"

lemma paid_step_refl [simp]: "paid_step P d d"
  by (auto simp: paid_step_def intro!: option.rel_refl)

lemma paid_step_trans: "paid_step P d1 d2 \<Longrightarrow> paid_step P d2 d3 \<Longrightarrow> paid_step P d1 d3"
  unfolding paid_step_def
proof
  fix i
  assume 1: "\<forall>i. rel_option (\<lambda>p p'. pi_bakong_md5 p' = pi_bakong_md5 p \<and> pi_bakong_prev_md5 p' = pi_bakong_prev_md5 p \<and>
          pi_user_id p' = pi_user_id p \<and> pi_guest_id p' = pi_guest_id p \<and>
          (pi_status p' = ''succeeded'' \<longrightarrow> pi_status p = ''succeeded'' \<or> paid_by P p)) (find_intent i d1) (find_intent i d2)"
    and 2: "\<forall>i. rel_option (\<lambda>p p'. pi_bakong_md5 p' = pi_bakong_md5 p \<and> pi_bakong_prev_md5 p' = pi_bakong_prev_md5 p \<and>
          pi_user_id p' = pi_user_id p \<and> pi_guest_id p' = pi_guest_id p \<and>
          (pi_status p' = ''succeeded'' \<longrightarrow> pi_status p = ''succeeded'' \<or> paid_by P p)) (find_intent i d2) (find_intent i d3)"
  show "rel_option (\<lambda>p p'. pi_bakong_md5 p' = pi_bakong_md5 p \<and> pi_bakong_prev_md5 p' = pi_bakong_prev_md5 p \<and>
          pi_user_id p' = pi_user_id p \<and> pi_guest_id p' = pi_guest_id p \<and>
          (pi_status p' = ''succeeded'' \<longrightarrow> pi_status p = ''succeeded'' \<or> paid_by P p)) (find_intent i d1) (find_intent i d3)"
    using spec [OF 1, of i] spec [OF 2, of i]
    by (cases "find_intent i d1"; cases "find_intent i d2"; cases "find_intent i d3") (auto simp: paid_by_def)
qed

lemma paid_step_status:
  "st \<noteq> ''succeeded'' \<Longrightarrow> paid_step P d (set_intent_status i st t d)"
  by (auto simp: paid_step_def find_intent_set_status option.rel_map intro!: option.rel_refl)

lemma paid_step_fulfill:
  assumes p: "find_intent i (tx_db t) = Some p" and paid: "paid_by P p"
    and run: "fulfill_payment_intent now fresh i bank t = (r, t')"
  shows "paid_step P (tx_db t) (tx_db t')"
proof (cases "tx_mode t = Live \<and> pi_status p \<noteq> ''succeeded''")
  case False
  then have "t' = t" using run p by (auto simp: fulfill_payment_intent_def split: if_splits)
  then show ?thesis by simp
next
  case True
  have find: "find_intent j (tx_db t') = map_option
      (\<lambda>q. if pi_intent_id q = i then q\<lparr>pi_status := ''succeeded'', pi_resolved_at := Some now\<rparr> else q)
      (find_intent j (tx_db t))" for j
    using fulfill_find_intent [OF p _ _ run] True by blast
  have "find_intent j (tx_db t) = Some q \<Longrightarrow> pi_intent_id q = i \<Longrightarrow> q = p" for j q
    using find_intent_in [of j "tx_db t" q] p by simp
  then show ?thesis
    unfolding paid_step_def find
    using paid by (auto simp: option.rel_map option.rel_refl_strong intro!: option.rel_refl_strong)
qed

text \<open>The rows a handler holds are those of its transaction.\<close>

definition snapshot :: "intent_row \<Rightarrow> db \<Rightarrow> bool" where
  "snapshot p d \<longleftrightarrow> find_intent (pi_intent_id p) d = Some p"

lemma settle_paid_step:
  assumes "paid_cache_honest P (b_guards b)" "nbc_reports e P" "snapshot p (tx_db (b_tx b))"
    and "settle_bakong_intent_if_paid e p b = (r, b')"
  shows "paid_step P (tx_db (b_tx b)) (tx_db (b_tx b'))" and "paid_cache_honest P (b_guards b')"
    and "r = Inr False \<Longrightarrow> b_tx b' = b_tx b"
proof -
  note sound = settle_sound [OF assms(1,2,4)]
  show "paid_cache_honest P (b_guards b')" by (rule sound(1))
  show "paid_step P (tx_db (b_tx b)) (tx_db (b_tx b'))"
    using sound(2)
  proof
    assume "b_tx b' = b_tx b \<and> (r = Inr True \<longrightarrow> pi_status p = ''succeeded'')"
    then show ?thesis by simp
  qed (use assms(3) in \<open>auto simp: snapshot_def intro: paid_step_fulfill\<close>)
  show "b_tx b' = b_tx b" if r: "r = Inr False"
    using sound(2)
  proof (elim disjE exE conjE)
    fix s
    assume "(r = Inr True) = is_ok s" "\<forall>err. (r = Inl err) = (s = Inl err)"
    with r show ?thesis by (cases s) auto
  qed
qed

lemma settle_first_paid_step:
  assumes "paid_cache_honest P (b_guards b)" "nbc_reports e P" "\<forall>p \<in> set ps. snapshot p (tx_db (b_tx b))"
    and "settle_first e ps b = (r, b')"
  shows "paid_step P (tx_db (b_tx b)) (tx_db (b_tx b')) \<and> paid_cache_honest P (b_guards b')"
  using assms(1,3,4)
proof (induction ps arbitrary: b)
  case Nil
  then show ?case by simp
next
  case (Cons p ps)
  obtain r1 b1 where s: "settle_bakong_intent_if_paid e p b = (r1, b1)" by fastforce
  note step = settle_paid_step [OF Cons.prems(1) assms(2) _ s]
  show ?case
  proof (cases "r1 = Inr False")
    case True
    with s Cons.prems step Cons.IH [of b1] show ?thesis by simp
  next
    case False
    with s Cons.prems step show ?thesis by (auto split: sum.splits bool.splits)
  qed
qed

lemma open_intent_snapshot:
  assumes "distinct (map pi_intent_id (payment_intents d))"
    and "p \<in> set (payment_intents d)"
  shows "snapshot p d"
  using find_intent_key [OF assms] by (simp add: snapshot_def)

lemma settle_for_buyer_paid_step:
  assumes "paid_cache_honest P (b_guards b)" "nbc_reports e P"
    and "distinct (map pi_intent_id (payment_intents (tx_db (b_tx b))))"
    and "settle_pending_movie_bakong_for_buyer e cid uid g b = (r, b')"
  shows "paid_step P (tx_db (b_tx b)) (tx_db (b_tx b')) \<and> paid_cache_honest P (b_guards b')"
proof -
  have "\<forall>p \<in> set (take 2 (order_by (\<lambda>p. - pi_created_at p) (open_movie_intents uid g cid (tx_db (b_tx b))))).
      snapshot p (tx_db (b_tx b))"
    using open_intent_snapshot [OF assms(3)] by (auto simp: open_movie_intents_def dest!: in_set_takeD)
  from settle_first_paid_step [OF assms(1,2) this] assms(1,4) show ?thesis
    by (auto simp: settle_pending_movie_bakong_for_buyer_def split: if_splits)
qed


end
