(* ===== verification/Checkout.thy ===== *)
theory Checkout
  imports Settlement
begin

text \<open>
  \<open>app/billing/intents.py\<close> and \<open>app/billing/intent_helpers.py\<close>: creating, reusing and polling Bakong
  payment intents, with the handlers of \<open>app/billing/router.py\<close> that are in service.

  A handler runs on a server state: the committed database, the process state of the NBC checks, and
  the alerts delivered so far. It may commit more than once; an exception rolls back what is not
  committed. Between a handler's lookup and its commit other requests may commit: the argument
  \<open>others\<close> is what they do.
\<close>

record server =
  sv_db :: db
  sv_guards :: guards
  sv_delivered :: "alert list"

definition start_request :: "server \<Rightarrow> billing" where
  "start_request sv = \<lparr>b_tx = open_tx (sv_db sv), b_guards = sv_guards sv\<rparr>"

text \<open>Rolling back keeps what the process has learnt about NBC; committing also delivers the alerts.\<close>

definition roll_back :: "billing \<Rightarrow> server \<Rightarrow> server" where
  "roll_back b sv = sv\<lparr>sv_guards := b_guards b\<rparr>"

definition commit :: "billing \<Rightarrow> server \<Rightarrow> unit result \<times> server" where
  "commit b sv =
     (case commit_with_telegram (sv_db sv) (b_tx b) of
        (r, d, alerts) \<Rightarrow>
          (r, sv\<lparr>sv_db := d, sv_guards := b_guards b, sv_delivered := sv_delivered sv @ alerts\<rparr>))"

definition commit_and_return :: "string \<Rightarrow> billing \<Rightarrow> server \<Rightarrow> intent_row result \<times> server" where
  "commit_and_return i b sv =
     (case commit b sv of
        (Inl err, sv') \<Rightarrow> (Inl err, sv')
      | (Inr _, sv') \<Rightarrow>
          (case find_intent i (sv_db sv') of
             None \<Rightarrow> (Inl (NotFoundError ''intent row vanished''), sv')
           | Some p \<Rightarrow> (Inr p, sv')))"

section \<open>Helpers\<close>

definition min_paid_usd :: decimal where "min_paid_usd = 3 / 100"

definition series_unlock_price_usd :: decimal where "series_unlock_price_usd = 5 / 2"

definition validate_payment_amount :: "decimal option \<Rightarrow> decimal result" where
  "validate_payment_amount amount =
     (case amount of
        None \<Rightarrow> Inl (HTTPException 422 ''USD payments must be at least 0.03'')
      | Some a \<Rightarrow> if a < min_paid_usd then Inl (HTTPException 422 ''USD payments must be at least 0.03'') else Inr a)"

definition intent_merchant_name :: "settings \<Rightarrow> intent_row \<Rightarrow> string" where
  "intent_merchant_name cfg p =
     (let own = (case pi_bakong_merchant_name p of None \<Rightarrow> [] | Some s \<Rightarrow> strip s);
          configured = strip (bakong_merchant_name cfg)
      in if own \<noteq> [] then own else if configured \<noteq> [] then configured else ''Reeltime Media'')"

record bakong_intent_read =
  bir_intent_id :: string
  bir_order_id :: string
  bir_qr_string :: string
  bir_amount_usd :: decimal
  bir_status :: string
  bir_created_at :: datetime
  bir_merchant_name :: string

definition read_bakong_intent :: "settings \<Rightarrow> intent_row \<Rightarrow> bakong_intent_read" where
  "read_bakong_intent cfg p =
     \<lparr>bir_intent_id = pi_intent_id p, bir_order_id = pi_order_id p,
      bir_qr_string = (case pi_bakong_qr p of None \<Rightarrow> [] | Some q \<Rightarrow> q),
      bir_amount_usd = pi_amount_usd p, bir_status = pi_status p, bir_created_at = pi_created_at p,
      bir_merchant_name = intent_merchant_name cfg p\<rparr>"

text \<open>A replacement QR: the previous md5 is kept for a late payment, and the check budget starts over.\<close>

definition regenerate_bakong_qr :: "env \<Rightarrow> intent_row \<Rightarrow> billing \<Rightarrow> unit result \<times> billing" where
  "regenerate_bakong_qr e p b =
     (case generate_khqr (e_cfg e) (e_khqr e) (pi_amount_usd p) (take 20 (hd (e_hex e))) of
        Inl err \<Rightarrow> (Inl err, b)
      | Inr (qr, md5, merchant) \<Rightarrow>
          (let refreshed = (\<lambda>r. r\<lparr>pi_bakong_prev_md5 := pi_bakong_md5 r, pi_bakong_md5 := Some md5,
                 pi_bakong_qr := Some qr,
                 pi_bakong_merchant_name := (if merchant \<noteq> [] then Some merchant else pi_bakong_merchant_name r),
                 pi_bakong_qr_created_at := Some (c_utc (e_clk e))\<rparr>);
               d = tx_db (b_tx b); w = b_guards b
           in (Inr (), b\<lparr>b_tx := (b_tx b)\<lparr>tx_db := d\<lparr>payment_intents :=
                  update_where (\<lambda>r. pi_intent_id r = pi_intent_id p) refreshed (payment_intents d)\<rparr>\<rparr>,
                 b_guards := w\<lparr>g_cache := reset_intent_nbc_checks (Some (pi_intent_id p)) (g_cache w)\<rparr>\<rparr>)))"

section \<open>Creating and reusing\<close>

definition ownership_step :: "env \<Rightarrow> bool \<Rightarrow> intent_row \<Rightarrow> billing \<Rightarrow> bool \<times> billing" where
  "ownership_step e check p b =
     (if \<not> check then (False, b)
      else (case mark_succeeded_if_already_purchased (c_utc (e_clk e)) p (tx_db (b_tx b)) of
              (owned, d) \<Rightarrow> (owned, b\<lparr>b_tx := (b_tx b)\<lparr>tx_db := d\<rparr>\<rparr>)))"

definition reuse_or_refresh_pending ::
    "env \<Rightarrow> bool \<Rightarrow> intent_row \<Rightarrow> server \<Rightarrow> intent_row result \<times> server" where
  "reuse_or_refresh_pending e check p sv =
     (let b = start_request sv; i = pi_intent_id p in
      if \<not> qr_is_stale (e_cfg e) (c_utc (e_clk e)) p then
        (case ownership_step e check p b of
           (True, b1) \<Rightarrow> commit_and_return i b1 sv
         | (False, _) \<Rightarrow> (Inr p, sv))
      else
        (case settle_bakong_intent_if_paid e p b of
           (Inl err, b1) \<Rightarrow> (Inl err, roll_back b1 sv)
         | (Inr True, b1) \<Rightarrow> commit_and_return i b1 sv
         | (Inr False, b1) \<Rightarrow>
           (case ownership_step e check p b1 of
              (True, b2) \<Rightarrow> commit_and_return i b2 sv
            | (False, _) \<Rightarrow>
              (case bakong_qr_confirmed_unpaid e p (b_guards b1) of
                 (Inl err, w) \<Rightarrow> (Inl err, roll_back (b1\<lparr>b_guards := w\<rparr>) sv)
               | (Inr False, w) \<Rightarrow> (Inr p, roll_back (b1\<lparr>b_guards := w\<rparr>) sv)
               | (Inr True, w) \<Rightarrow>
                 (case regenerate_bakong_qr e p (b1\<lparr>b_guards := w\<rparr>) of
                    (Inl err, b2) \<Rightarrow> (Inl err, roll_back b2 sv)
                  | (Inr _, b2) \<Rightarrow> commit_and_return i b2 sv)))))"

text \<open>
  The commit of a new intent meets the unique indexes: primary key, order id, and one open checkout
  per buyer and item. A loser looks the winner up and reuses it.
\<close>

definition intents_unique :: "intent_row list \<Rightarrow> bool" where
  "intents_unique ps \<longleftrightarrow>
     distinct (map pi_intent_id ps) \<and> distinct (map pi_order_id ps) \<and> pending_unique ps"

definition oldest_pending :: "(intent_row \<Rightarrow> bool) \<Rightarrow> db \<Rightarrow> intent_row option" where
  "oldest_pending lookup d = first_row (order_by pi_created_at (filter lookup (payment_intents d)))"

definition commit_new_intent_or_reuse ::
    "env \<Rightarrow> bool \<Rightarrow> (intent_row \<Rightarrow> bool) \<Rightarrow> intent_row \<Rightarrow> server \<Rightarrow> intent_row result \<times> server" where
  "commit_new_intent_or_reuse e check lookup p sv =
     (let ps = payment_intents (sv_db sv) @ [p] in
      if intents_unique ps then (Inr p, sv\<lparr>sv_db := (sv_db sv)\<lparr>payment_intents := ps\<rparr>\<rparr>)
      else (case oldest_pending lookup (sv_db sv) of
              None \<Rightarrow> (Inl IntegrityError, sv)
            | Some q \<Rightarrow> reuse_or_refresh_pending (e\<lparr>e_hex := drop 3 (e_hex e)\<rparr>) check q sv))"

text \<open>A fresh row: ids from three \<open>uuid4().hex\<close> values, the KHQR for the amount.\<close>

definition mint_intent :: "env \<Rightarrow> string \<Rightarrow> decimal \<Rightarrow> intent_row result" where
  "mint_intent e order_prefix amount =
     (case generate_khqr (e_cfg e) (e_khqr e) amount (take 20 (e_hex e ! 1)) of
        Inl err \<Rightarrow> Inl err
      | Inr (qr, md5, merchant) \<Rightarrow>
          Inr (default_intent\<lparr>pi_intent_id := ''bkg-'' @ e_hex e ! 2, pi_order_id := order_prefix @ e_hex e ! 0,
             pi_method := ''bakong'', pi_bakong_md5 := Some md5, pi_bakong_qr := Some qr,
             pi_bakong_merchant_name :=
               (if merchant \<noteq> [] then Some merchant
                else if bakong_merchant_name (e_cfg e) \<noteq> [] then Some (bakong_merchant_name (e_cfg e)) else None),
             pi_bakong_qr_created_at := Some (c_utc (e_clk e)), pi_amount_usd := amount,
             pi_status := ''pending'', pi_created_at := c_utc (e_clk e)\<rparr>))"

definition buyer_match :: "user_row option \<Rightarrow> string option \<Rightarrow> intent_row \<Rightarrow> bool" where
  "buyer_match user guest_id p =
     (case user of Some u \<Rightarrow> pi_user_id p = Some (user_id u)
                 | None \<Rightarrow> pi_guest_id p = guest_id)"

definition movie_lookup :: "user_row option \<Rightarrow> string option \<Rightarrow> uuid \<Rightarrow> intent_row \<Rightarrow> bool" where
  "movie_lookup user guest_id cid p \<longleftrightarrow>
     buyer_match user guest_id p \<and> pi_method p = ''bakong'' \<and> pi_kind p = ''single'' \<and>
     pi_content_id p = Some cid \<and> pi_status p = ''pending''"

definition movie_already_bought :: "user_row option \<Rightarrow> string option \<Rightarrow> uuid \<Rightarrow> db \<Rightarrow> bool" where
  "movie_already_bought user guest_id cid d =
     exists_row (\<lambda>u. pu_content_id u = cid \<and>
        (case user of Some x \<Rightarrow> pu_user_id u = Some (user_id x)
                    | None \<Rightarrow> pu_guest_id u = guest_id)) (purchases d)"

definition create_or_reuse_movie_bakong_intent ::
    "env \<Rightarrow> uuid \<Rightarrow> user_row option \<Rightarrow> string option \<Rightarrow> (server \<Rightarrow> server) \<Rightarrow> server \<Rightarrow>
     intent_row result \<times> server" where
  "create_or_reuse_movie_bakong_intent e cid user guest_id others sv =
     (let lookup = movie_lookup user guest_id cid; d = sv_db sv in
      if movie_already_bought user guest_id cid d then (Inl (ConflictError ''Movie already purchased''), sv)
      else (case oldest_pending lookup d of
              Some p \<Rightarrow> reuse_or_refresh_pending e True p sv
            | None \<Rightarrow>
              (case select_one (\<lambda>c. ct_id c = cid \<and> ct_type c = ''single'' \<and> ct_is_published c) (contents d) of
                 None \<Rightarrow> (Inl (NotFoundError ''Movie not found''), sv)
               | Some movie \<Rightarrow>
                 (case validate_payment_amount (ct_price_usd movie) of
                    Inl err \<Rightarrow> (Inl err, sv)
                  | Inr amount \<Rightarrow>
                    (case mint_intent e ''movie-'' amount of
                       Inl err \<Rightarrow> (Inl err, sv)
                     | Inr p \<Rightarrow>
                         commit_new_intent_or_reuse e True lookup
                           (p\<lparr>pi_user_id := map_option user_id user, pi_guest_id := guest_id,
                              pi_kind := ''single'', pi_content_id := Some (ct_id movie)\<rparr>) (others sv))))))"

definition series_lookup :: "user_row option \<Rightarrow> string option \<Rightarrow> uuid \<Rightarrow> intent_row \<Rightarrow> bool" where
  "series_lookup user guest_id sid p \<longleftrightarrow>
     buyer_match user guest_id p \<and> pi_method p = ''bakong'' \<and> pi_kind p = ''series'' \<and>
     pi_series_id p = Some sid \<and> pi_status p = ''pending''"

definition create_or_reuse_series_bakong_intent ::
    "env \<Rightarrow> series_row \<Rightarrow> user_row option \<Rightarrow> string option \<Rightarrow> (server \<Rightarrow> server) \<Rightarrow> server \<Rightarrow>
     intent_row result \<times> server" where
  "create_or_reuse_series_bakong_intent e ser user guest_id others sv =
     (let lookup = series_lookup user guest_id (ser_id ser); d = sv_db sv in
      if (case user of Some u \<Rightarrow> user_has_active_subscription (c_utc (e_clk e)) (user_id u) d | None \<Rightarrow> False)
      then (Inl (ConflictError ''You already have an active subscription''), sv)
      else if has_series_purchase (ser_id ser) (map_option user_id user) guest_id d
      then (Inl (ConflictError ''Series already unlocked''), sv)
      else (case oldest_pending lookup d of
              Some p \<Rightarrow> reuse_or_refresh_pending e True p sv
            | None \<Rightarrow>
              (case validate_payment_amount (Some series_unlock_price_usd) of
                 Inl err \<Rightarrow> (Inl err, sv)
               | Inr amount \<Rightarrow>
                 (case mint_intent e ''series-'' amount of
                    Inl err \<Rightarrow> (Inl err, sv)
                  | Inr p \<Rightarrow>
                      commit_new_intent_or_reuse e True lookup
                        (p\<lparr>pi_user_id := map_option user_id user, pi_guest_id := guest_id,
                           pi_kind := ''series'', pi_series_id := Some (ser_id ser)\<rparr>) (others sv)))))"

definition sub_lookup :: "user_row \<Rightarrow> string \<Rightarrow> decimal \<Rightarrow> intent_row \<Rightarrow> bool" where
  "sub_lookup user code amount p \<longleftrightarrow>
     pi_user_id p = Some (user_id user) \<and> pi_method p = ''bakong'' \<and> pi_kind p = ''sub'' \<and>
     pi_status p = ''pending'' \<and>
     (pi_plan_code p = Some code \<or> pi_plan_code p = None \<and> pi_amount_usd p = amount)"

definition create_or_reuse_subscription_bakong_intent ::
    "env \<Rightarrow> user_row \<Rightarrow> string option \<Rightarrow> (server \<Rightarrow> server) \<Rightarrow> server \<Rightarrow> intent_row result \<times> server" where
  "create_or_reuse_subscription_bakong_intent e user code others sv =
     (case resolve_active_plan code (sv_db sv) of
        Inl err \<Rightarrow> (Inl err, sv)
      | Inr plan \<Rightarrow>
        (case validate_payment_amount (Some (plan_price_usd plan)) of
           Inl err \<Rightarrow> (Inl err, sv)
         | Inr amount \<Rightarrow>
           (let lookup = sub_lookup user (plan_code plan) amount in
            case oldest_pending lookup (sv_db sv) of
              Some p \<Rightarrow> reuse_or_refresh_pending e False p sv
            | None \<Rightarrow>
              (case mint_intent e (''sub-'' @ plan_code plan @ ''-'') amount of
                 Inl err \<Rightarrow> (Inl err, sv)
               | Inr p \<Rightarrow>
                   commit_new_intent_or_reuse e False lookup
                     (p\<lparr>pi_user_id := Some (user_id user), pi_kind := ''sub'', pi_content_id := None,
                        pi_plan_code := Some (plan_code plan),
                        pi_plan_interval_days := Some (plan_billing_interval_days plan)\<rparr>) (others sv)))))"

section \<open>Polling\<close>

definition load_buyer_intent :: "string \<Rightarrow> user_row option \<Rightarrow> string option \<Rightarrow> db \<Rightarrow> intent_row result" where
  "load_buyer_intent i user guest_id d =
     (let found = (\<lambda>own. case select_one (\<lambda>p. pi_intent_id p = i \<and> own p) (payment_intents d) of
                     None \<Rightarrow> Inl (NotFoundError ''Payment intent not found'')
                   | Some p \<Rightarrow> Inr p)
      in case user of
           Some u \<Rightarrow> found (\<lambda>p. pi_user_id p = Some (user_id u))
         | None \<Rightarrow> if \<not> truthy guest_id then Inl (NotFoundError ''Payment intent not found'')
                   else found (\<lambda>p. pi_guest_id p = guest_id))"

definition mark_polled :: "env \<Rightarrow> string \<Rightarrow> guards \<Rightarrow> guards" where
  "mark_polled e i w = w\<lparr>g_cache := mark_intent_polled (c_tick (e_clk e)) i (g_cache w)\<rparr>"

text \<open>Another open checkout of the same buyer for the same title, the newest.\<close>

definition sibling_of :: "intent_row \<Rightarrow> uuid \<Rightarrow> db \<Rightarrow> intent_row option" where
  "sibling_of p cid d =
     first_row (order_by (\<lambda>q. - pi_created_at q)
       (filter (\<lambda>q. pi_intent_id q \<noteq> pi_intent_id p)
          (open_movie_intents (pi_user_id p) (pi_guest_id p) cid d)))"

definition settle_sibling :: "env \<Rightarrow> intent_row \<Rightarrow> billing \<Rightarrow> server \<Rightarrow> intent_row result \<times> server" where
  "settle_sibling e p b sv =
     (case map_option (\<lambda>cid. sibling_of p cid (tx_db (b_tx b))) (pi_content_id p) of
        Some (Some q) \<Rightarrow>
          (case settle_bakong_intent_if_paid e q b of
             (Inl err, b1) \<Rightarrow> (Inl err, roll_back b1 sv)
           | (Inr False, b1) \<Rightarrow> (Inr p, roll_back b1 sv)
           | (Inr True, b1) \<Rightarrow>
               (let resolved = (case find_intent (pi_intent_id q) (tx_db (b_tx b1)) of
                             None \<Rightarrow> pi_resolved_at q | Some q' \<Rightarrow> pi_resolved_at q')
                in commit_and_return (pi_intent_id p)
                     (b1\<lparr>b_tx := (b_tx b1)\<lparr>tx_db :=
                        set_intent_status (pi_intent_id p) status_superseded resolved (tx_db (b_tx b1))\<rparr>\<rparr>) sv))
      | _ \<Rightarrow> (Inr p, roll_back b sv))"

definition settle_pending_intent_on_poll :: "env \<Rightarrow> intent_row \<Rightarrow> server \<Rightarrow> intent_row result \<times> server" where
  "settle_pending_intent_on_poll e p sv =
     (let i = pi_intent_id p; b = start_request sv;
          polled = (\<lambda>(r, sv'). case r of Inl _ \<Rightarrow> (r, sv')
                      | Inr _ \<Rightarrow> (r, sv'\<lparr>sv_guards := mark_polled e i (sv_guards sv')\<rparr>))
      in
      if pi_method p \<noteq> ''bakong'' \<or> pi_status p \<noteq> ''pending'' then (Inr p, sv)
      else (case ownership_step e True p b of
              (True, b1) \<Rightarrow> commit_and_return i b1 sv
            | (False, _) \<Rightarrow>
              if \<not> (nbc_settle_enabled (e_cfg e) \<and> truthy (pi_bakong_md5 p)) then (Inr p, sv)
              else if bakong_checks_blocked (c_tick (e_clk e)) (c_unix (e_clk e)) (g_quota (sv_guards sv))
              then polled (Inr p, sv)
              else (case settle_bakong_intent_if_paid e p b of
                      (Inl err, b1) \<Rightarrow> (Inl err, roll_back b1 sv)
                    | (Inr True, b1) \<Rightarrow> polled (commit_and_return i b1 sv)
                    | (Inr False, b1) \<Rightarrow> polled (settle_sibling e p b1 sv))))"

section \<open>Handlers\<close>

text \<open>\<open>get_or_create_guest_id\<close>: the cookie, or a fresh token that is set as the cookie.\<close>

definition get_or_create_guest_id :: "string option \<Rightarrow> string \<Rightarrow> string" where
  "get_or_create_guest_id cookie fresh_token = (if truthy cookie then the cookie else fresh_token)"

definition create_movie_bakong_intent ::
    "env \<Rightarrow> uuid \<Rightarrow> user_row option \<Rightarrow> string option \<Rightarrow> string \<Rightarrow> (server \<Rightarrow> server) \<Rightarrow> server \<Rightarrow>
     bakong_intent_read result \<times> server" where
  "create_movie_bakong_intent e cid user cookie token others sv =
     (let guest_id = (if user \<noteq> None then None else Some (get_or_create_guest_id cookie token)) in
      case create_or_reuse_movie_bakong_intent e cid user guest_id others sv of
        (Inl err, sv') \<Rightarrow> (Inl err, sv')
      | (Inr p, sv') \<Rightarrow> (Inr (read_bakong_intent (e_cfg e) p), sv'))"

definition create_series_unlock_bakong_intent ::
    "env \<Rightarrow> string \<Rightarrow> user_row option \<Rightarrow> string option \<Rightarrow> string \<Rightarrow> (server \<Rightarrow> server) \<Rightarrow> server \<Rightarrow>
     bakong_intent_read result \<times> server" where
  "create_series_unlock_bakong_intent e slug user cookie token others sv =
     (case select_one (\<lambda>s. ser_slug s = slug \<and> ser_is_published s) (series_table (sv_db sv)) of
        None \<Rightarrow> (Inl (NotFoundError ''Series not found''), sv)
      | Some ser \<Rightarrow>
        (let guest_id = (if user \<noteq> None then None else Some (get_or_create_guest_id cookie token)) in
         case create_or_reuse_series_bakong_intent e ser user guest_id others sv of
           (Inl err, sv') \<Rightarrow> (Inl err, sv')
         | (Inr p, sv') \<Rightarrow> (Inr (read_bakong_intent (e_cfg e) p), sv')))"

definition create_subscription_bakong_intent ::
    "env \<Rightarrow> user_row \<Rightarrow> string option \<Rightarrow> (server \<Rightarrow> server) \<Rightarrow> server \<Rightarrow> bakong_intent_read result \<times> server" where
  "create_subscription_bakong_intent e user code others sv =
     (case create_or_reuse_subscription_bakong_intent e user code others sv of
        (Inl err, sv') \<Rightarrow> (Inl err, sv')
      | (Inr p, sv') \<Rightarrow> (Inr (read_bakong_intent (e_cfg e) p), sv'))"

definition get_payment_intent ::
    "env \<Rightarrow> string \<Rightarrow> user_row option \<Rightarrow> string option \<Rightarrow> server \<Rightarrow> intent_row result \<times> server" where
  "get_payment_intent e i user cookie sv =
     (case load_buyer_intent i user (if user \<noteq> None then None else cookie) (sv_db sv) of
        Inl err \<Rightarrow> (Inl err, sv)
      | Inr p \<Rightarrow> settle_pending_intent_on_poll e p sv)"

section \<open>Polling is safe\<close>

definition owned_by :: "user_row option \<Rightarrow> string option \<Rightarrow> intent_row \<Rightarrow> bool" where
  "owned_by user cookie p \<longleftrightarrow>
     (case user of Some u \<Rightarrow> pi_user_id p = Some (user_id u)
                 | None \<Rightarrow> truthy cookie \<and> pi_guest_id p = cookie)"

text \<open>What a request may have done to the intents, and the row it answers with.\<close>

definition polled_ok ::
    "string set \<Rightarrow> server \<Rightarrow> intent_row \<Rightarrow> intent_row result \<times> server \<Rightarrow> bool" where
  "polled_ok P sv p out \<longleftrightarrow>
     paid_step P (sv_db sv) (sv_db (snd out)) \<and> paid_cache_honest P (sv_guards (snd out)) \<and>
     (\<forall>p'. fst out = Inr p' \<longrightarrow> find_intent (pi_intent_id p) (sv_db (snd out)) = Some p')"

lemma commit_cases:
  "sv_db (snd (commit b sv)) = tx_db (b_tx b) \<or> sv_db (snd (commit b sv)) = sv_db sv"
  "sv_guards (snd (commit b sv)) = b_guards b"
  by (auto simp: commit_def commit_with_telegram_def split: tx_mode.split)

lemma polled_ok_commit:
  assumes "paid_step P (sv_db sv) (tx_db (b_tx b))" "paid_cache_honest P (b_guards b)"
  shows "polled_ok P sv p (commit_and_return (pi_intent_id p) b sv)"
  using assms commit_cases [of b sv]
  by (cases "commit b sv")
    (auto simp: polled_ok_def commit_and_return_def split: sum.splits option.splits)

lemma polled_ok_keep:
  "snapshot p (sv_db sv) \<Longrightarrow> paid_cache_honest P (b_guards b) \<Longrightarrow> polled_ok P sv p (Inr p, roll_back b sv)"
  "paid_cache_honest P (b_guards b) \<Longrightarrow> polled_ok P sv p (Inl err, roll_back b sv)"
  by (simp_all add: polled_ok_def roll_back_def snapshot_def)

lemma open_tx_fields [simp]:
  "tx_db (open_tx d) = d" "tx_mode (open_tx d) = Live" "tx_alerts (open_tx d) = []"
  by (simp_all add: open_tx_def)

lemma start_request_fields [simp]:
  "tx_db (b_tx (start_request sv)) = sv_db sv" "b_guards (start_request sv) = sv_guards sv"
  "tx_mode (b_tx (start_request sv)) = Live" "b_tx (start_request sv) = open_tx (sv_db sv)"
  by (simp_all add: start_request_def open_tx_def)

lemma sibling_in:
  "sibling_of p cid d = Some q \<Longrightarrow> q \<in> set (payment_intents d)"
  unfolding sibling_of_def by (drule first_row_order_by) (auto simp: open_movie_intents_def)

lemma polled_ok_sibling:
  assumes ids: "distinct (map pi_intent_id (payment_intents (sv_db sv)))" and p: "snapshot p (sv_db sv)"
    and b: "b_tx b = open_tx (sv_db sv)" "paid_cache_honest P (b_guards b)" and net: "nbc_reports e P"
  shows "polled_ok P sv p (settle_sibling e p b sv)"
proof (cases "\<exists>cid q. pi_content_id p = Some cid \<and> sibling_of p cid (sv_db sv) = Some q")
  case False
  then show ?thesis
    using polled_ok_keep(1) [OF p b(2)] b(1)
    by (auto simp: settle_sibling_def open_tx_def split: option.split)
next
  case True
  then obtain cid q where q: "pi_content_id p = Some cid" "sibling_of p cid (sv_db sv) = Some q" by blast
  obtain r b1 where s: "settle_bakong_intent_if_paid e q b = (r, b1)" by fastforce
  have d: "tx_db (b_tx b) = sv_db sv" using b(1) by (simp add: open_tx_def)
  have "snapshot q (tx_db (b_tx b))" using open_intent_snapshot [OF ids sibling_in [OF q(2)]] d by simp
  note step = settle_paid_step [OF b(2) net this s, unfolded d]
  show ?thesis
    using q s d step polled_ok_keep(1) [OF _ step(2)] polled_ok_keep(2) [OF step(2)] p
      polled_ok_commit [of P sv "b1\<lparr>b_tx := (b_tx b1)\<lparr>tx_db := set_intent_status (pi_intent_id p) status_superseded t (tx_db (b_tx b1))\<rparr>\<rparr>" p for t]
      paid_step_trans [OF step(1) paid_step_status [of status_superseded P "tx_db (b_tx b1)" "pi_intent_id p"]]
    by (auto simp: settle_sibling_def status_superseded_def Let_def split: sum.splits bool.splits)
qed

lemma ownership_paid_step:
  "ownership_step e check p b = (r, b') \<Longrightarrow>
   paid_step P (tx_db (b_tx b)) (tx_db (b_tx b')) \<and> b_guards b' = b_guards b \<and> tx_mode (b_tx b') = tx_mode (b_tx b)"
  by (auto simp: ownership_step_def mark_succeeded_if_already_purchased_def Let_def status_superseded_def
      intro!: paid_step_status split: if_splits option.splits bool.splits prod.splits)

lemma honest_mark_polled: "paid_cache_honest P w \<Longrightarrow> paid_cache_honest P (mark_polled e i w)"
  by (auto simp: paid_cache_honest_def mark_polled_def mark_intent_polled_def prune_map_def Let_def
      split: if_splits option.splits prod.splits)

lemma polled_ok_mark:
  "polled_ok P sv p (r, sv') \<Longrightarrow> polled_ok P sv p (r, sv'\<lparr>sv_guards := mark_polled e i (sv_guards sv')\<rparr>)"
  by (simp add: polled_ok_def honest_mark_polled)

lemma poll_ok:
  assumes ids: "distinct (map pi_intent_id (payment_intents (sv_db sv)))" and p: "snapshot p (sv_db sv)"
    and honest: "paid_cache_honest P (sv_guards sv)" and net: "nbc_reports e P"
  shows "polled_ok P sv p (settle_pending_intent_on_poll e p sv)"
proof -
  obtain o1 b1 where own: "ownership_step e True p (start_request sv) = (o1, b1)" by fastforce
  obtain r b2 where s: "settle_bakong_intent_if_paid e p (start_request sv) = (r, b2)" by fastforce
  have keep: "polled_ok P sv p (Inr p, sv)" using p honest by (simp add: polled_ok_def snapshot_def)
  have own': "polled_ok P sv p (commit_and_return (pi_intent_id p) b1 sv)"
    using ownership_paid_step [OF own, of P] honest by (intro polled_ok_commit) simp_all
  note step = settle_paid_step [of P "start_request sv" e p r b2, OF _ net _ s, simplified, OF honest p]
  have sib: "r = Inr False \<Longrightarrow> polled_ok P sv p (settle_sibling e p b2 sv)"
    using polled_ok_sibling [OF ids p _ step(2) net] step(3) by simp
  have com: "polled_ok P sv p (commit_and_return (pi_intent_id p) b2 sv)"
    by (rule polled_ok_commit [OF step(1,2)])
  have mark: "polled_ok P sv p out \<Longrightarrow> polled_ok P sv p (case out of (r, sv') \<Rightarrow>
      case r of Inl _ \<Rightarrow> (r, sv')
      | Inr _ \<Rightarrow> (r, sv'\<lparr>sv_guards := mark_polled e (pi_intent_id p) (sv_guards sv')\<rparr>))" for out
    by (cases out) (auto intro: polled_ok_mark split: sum.split)
  show ?thesis
    using own s keep own' mark [OF keep] mark [OF com] mark [OF sib] polled_ok_keep(2) [OF step(2), of sv p]
    by (auto simp: settle_pending_intent_on_poll_def Let_def split: sum.splits bool.splits)
qed

lemma load_buyer_intent_ok:
  assumes "load_buyer_intent i user g d = Inr p"
  shows "p \<in> set (payment_intents d)" "pi_intent_id p = i" "owned_by user g p"
  using assms
  by (auto simp: load_buyer_intent_def owned_by_def Let_def dest!: select_one_Some split: option.splits if_splits)


section \<open>One open checkout\<close>

lemma pending_keys_other [simp]: "pi_status p \<noteq> ''pending'' \<Longrightarrow> pending_keys p = []"
  by (simp add: pending_keys_def)

lemma distinct_concat_drop:
  assumes "\<And>r. r \<in> set rows \<Longrightarrow> P r \<Longrightarrow> keys (f r) = [] \<or> keys (f r) = keys r"
    and "distinct (concat (map keys rows))"
  shows "distinct (concat (map keys (update_where P f rows)))"
proof -
  have sub: "\<forall>r \<in> set rs. P r \<longrightarrow> keys (f r) = [] \<or> keys (f r) = keys r \<Longrightarrow>
      set (concat (map keys (update_where P f rs))) \<subseteq> set (concat (map keys rs))" for rs
    by (induction rs) (auto; fastforce)+
  show ?thesis
    using assms
  proof (induction rows)
    case Nil
    then show ?case by simp
  next
    case (Cons r rs)
    have ih: "distinct (concat (map keys (update_where P f rs)))"
      using Cons.IH Cons.prems by simp
    have "set (keys (if P r then f r else r)) \<subseteq> set (keys r)" "distinct (keys (if P r then f r else r))"
      using Cons.prems(1) [of r] Cons.prems(2) by auto
    moreover have "set (concat (map keys (update_where P f rs))) \<subseteq> set (concat (map keys rs))"
      using sub Cons.prems(1) by simp
    moreover have "set (keys r) \<inter> set (concat (map keys rs)) = {}" using Cons.prems(2) by simp
    ultimately have "set (keys (if P r then f r else r)) \<inter> set (concat (map keys (update_where P f rs))) = {}"
      by blast
    then show ?case using ih \<open>distinct (keys (if P r then f r else r))\<close> by simp
  qed
qed

lemma intents_unique_status:
  assumes "intents_unique (payment_intents d)" "st \<noteq> ''pending''"
  shows "intents_unique (payment_intents (set_intent_status i st t d))"
  using assms distinct_concat_drop [of "payment_intents d" "\<lambda>p. pi_intent_id p = i" pending_keys
      "\<lambda>p. p\<lparr>pi_status := st, pi_resolved_at := t\<rparr>"]
  by (simp add: intents_unique_def pending_unique_def map_update_where set_intent_status_def)

lemma fulfill_unique:
  assumes "intents_unique (payment_intents (tx_db t))"
    and "fulfill_payment_intent now fresh i bank t = (r, t')"
  shows "intents_unique (payment_intents (tx_db t'))"
proof (cases "\<exists>p. find_intent i (tx_db t) = Some p \<and> pi_status p \<noteq> ''succeeded'' \<and> tx_mode t = Live")
  case True
  then show ?thesis
    using fulfill_intents [OF _ _ _ assms(2)] intents_unique_status [OF assms(1), of "''succeeded''"] by fastforce
next
  case False
  then have "t' = t" using assms(2) by (auto simp: fulfill_payment_intent_def split: if_splits option.splits)
  then show ?thesis using assms(1) by simp
qed

lemma settle_unique:
  assumes "intents_unique (payment_intents (tx_db (b_tx b)))"
    and "settle_bakong_intent_if_paid e p b = (r, b')"
  shows "intents_unique (payment_intents (tx_db (b_tx b')))"
  using assms fulfill_unique
  by (fastforce simp: settle_bakong_intent_if_paid_def split: if_splits sum.splits bool.splits prod.splits)

lemma ownership_unique:
  assumes "intents_unique (payment_intents (tx_db (b_tx b)))" and "ownership_step e check p b = (r, b')"
  shows "intents_unique (payment_intents (tx_db (b_tx b')))"
  using assms intents_unique_status [of _ status_superseded]
  by (auto simp: ownership_step_def mark_succeeded_if_already_purchased_def status_superseded_def Let_def
      split: if_splits option.splits bool.splits prod.splits)

lemma regenerate_unique:
  assumes "intents_unique (payment_intents (tx_db (b_tx b)))" and "regenerate_bakong_qr e p b = (r, b')"
  shows "intents_unique (payment_intents (tx_db (b_tx b')))"
proof -
  have "pending_keys (x\<lparr>pi_bakong_prev_md5 := a, pi_bakong_md5 := b, pi_bakong_qr := c,
      pi_bakong_merchant_name := m, pi_bakong_qr_created_at := t\<rparr>) = pending_keys x" for x a b c m t
    by (simp add: pending_keys_def)
  then show ?thesis
    using assms distinct_concat_drop [of "payment_intents (tx_db (b_tx b))" _ pending_keys]
    by (auto simp: regenerate_bakong_qr_def intents_unique_def pending_unique_def map_update_where Let_def
        split: sum.splits)
qed

lemma commit_unique:
  assumes "intents_unique (payment_intents (sv_db sv))" "intents_unique (payment_intents (tx_db (b_tx b)))"
    and "commit_and_return i b sv = (r, sv')"
  shows "intents_unique (payment_intents (sv_db sv'))"
  using assms commit_cases(1) [of b sv]
  by (auto simp: commit_and_return_def split: prod.splits sum.splits option.splits)

lemma reuse_unique:
  assumes u: "intents_unique (payment_intents (sv_db sv))"
    and run: "reuse_or_refresh_pending e check p sv = (r, sv')"
  shows "intents_unique (payment_intents (sv_db sv'))"
proof -
  obtain o1 b1 where own: "ownership_step e check p (start_request sv) = (o1, b1)" by fastforce
  obtain r2 b2 where s: "settle_bakong_intent_if_paid e p (start_request sv) = (r2, b2)" by fastforce
  obtain o3 b3 where own3: "ownership_step e check p b2 = (o3, b3)" by fastforce
  obtain r4 w where conf: "bakong_qr_confirmed_unpaid e p (b_guards b2) = (r4, w)" by fastforce
  obtain r5 b5 where reg: "regenerate_bakong_qr e p (b2\<lparr>b_guards := w\<rparr>) = (r5, b5)" by fastforce
  have u1: "intents_unique (payment_intents (tx_db (b_tx b1)))" using ownership_unique [OF _ own] u by simp
  have u2: "intents_unique (payment_intents (tx_db (b_tx b2)))" using settle_unique [OF _ s] u by simp
  have u3: "intents_unique (payment_intents (tx_db (b_tx b3)))" by (rule ownership_unique [OF u2 own3])
  have u5: "intents_unique (payment_intents (tx_db (b_tx b5)))" using regenerate_unique [OF _ reg] u2 by simp
  show ?thesis
    using run own s own3 conf reg u commit_unique [OF u u1] commit_unique [OF u u2] commit_unique [OF u u3]
      commit_unique [OF u u5]
    by (auto simp: reuse_or_refresh_pending_def Let_def roll_back_def split: if_splits bool.splits sum.splits)
qed

lemma commit_new_unique:
  assumes "intents_unique (payment_intents (sv_db sv))"
    and "commit_new_intent_or_reuse e check lookup p sv = (r, sv')"
  shows "intents_unique (payment_intents (sv_db sv'))"
  using assms reuse_unique
  by (auto simp: commit_new_intent_or_reuse_def Let_def split: if_splits option.splits)

text \<open>What other requests do between the lookup and the commit keeps the indexes, as they must.\<close>

definition keeps_unique :: "(server \<Rightarrow> server) \<Rightarrow> bool" where
  "keeps_unique f \<longleftrightarrow>
     (\<forall>s. intents_unique (payment_intents (sv_db s)) \<longrightarrow> intents_unique (payment_intents (sv_db (f s))))"

lemma keeps_unique_id [simp]: "keeps_unique (\<lambda>s. s)"
  by (simp add: keeps_unique_def)

lemma keeps_uniqueD:
  "keeps_unique f \<Longrightarrow> intents_unique (payment_intents (sv_db s)) \<Longrightarrow>
   intents_unique (payment_intents (sv_db (f s)))"
  by (simp add: keeps_unique_def)

lemma create_movie_unique:
  assumes "intents_unique (payment_intents (sv_db sv))" "keeps_unique others"
    and "create_or_reuse_movie_bakong_intent e cid user g others sv = (r, sv')"
  shows "intents_unique (payment_intents (sv_db sv'))"
  using assms(3) reuse_unique [OF assms(1)] commit_new_unique [OF keeps_uniqueD [OF assms(2,1)]] assms(1)
  by (auto simp: create_or_reuse_movie_bakong_intent_def Let_def
      split: if_splits option.splits sum.splits)

lemma create_series_unique:
  assumes "intents_unique (payment_intents (sv_db sv))" "keeps_unique others"
    and "create_or_reuse_series_bakong_intent e ser user g others sv = (r, sv')"
  shows "intents_unique (payment_intents (sv_db sv'))"
  using assms(3) reuse_unique [OF assms(1)] commit_new_unique [OF keeps_uniqueD [OF assms(2,1)]] assms(1)
  by (auto simp: create_or_reuse_series_bakong_intent_def Let_def
      split: if_splits option.splits sum.splits)

lemma create_sub_unique:
  assumes "intents_unique (payment_intents (sv_db sv))" "keeps_unique others"
    and "create_or_reuse_subscription_bakong_intent e user code others sv = (r, sv')"
  shows "intents_unique (payment_intents (sv_db sv'))"
  using assms(3) reuse_unique [OF assms(1)] commit_new_unique [OF keeps_uniqueD [OF assms(2,1)]] assms(1)
  by (auto simp: create_or_reuse_subscription_bakong_intent_def Let_def
      split: if_splits option.splits sum.splits)

lemma count_by_key:
  assumes "distinct (concat (map keys rows))" and "\<And>r. P r \<Longrightarrow> k \<in> set (keys r)"
  shows "count_rows P rows \<le> 1"
  using assms(1)
proof (induction rows)
  case Nil
  then show ?case by simp
next
  case (Cons r rs)
  have "P r \<Longrightarrow> count_rows P rs = 0"
    using Cons.prems assms(2) by (force simp: count_rows_zero exists_row_iff)
  with Cons show ?case by auto
qed

lemma one_open_movie:
  assumes "intents_unique ps" and "user \<noteq> None \<or> g \<noteq> None"
  shows "count_rows (movie_lookup user g cid) ps \<le> 1"
proof (cases user)
  case None
  with assms show ?thesis
    by (intro count_by_key [of pending_keys _ _ "MovieGuest (the g) cid"])
      (auto simp: intents_unique_def pending_unique_def movie_lookup_def buyer_match_def pending_keys_def pair_key_def)
next
  case (Some u)
  with assms show ?thesis
    by (intro count_by_key [of pending_keys _ _ "MovieUser (user_id u) cid"])
      (auto simp: intents_unique_def pending_unique_def movie_lookup_def buyer_match_def pending_keys_def pair_key_def)
qed

lemma one_open_series:
  assumes "intents_unique ps" and "user \<noteq> None \<or> g \<noteq> None"
  shows "count_rows (series_lookup user g sid) ps \<le> 1"
proof (cases user)
  case None
  with assms show ?thesis
    by (intro count_by_key [of pending_keys _ _ "SeriesGuest (the g) sid"])
      (auto simp: intents_unique_def pending_unique_def series_lookup_def buyer_match_def pending_keys_def pair_key_def)
next
  case (Some u)
  with assms show ?thesis
    by (intro count_by_key [of pending_keys _ _ "SeriesUser (user_id u) sid"])
      (auto simp: intents_unique_def pending_unique_def series_lookup_def buyer_match_def pending_keys_def pair_key_def)
qed

text \<open>A lone open row is what every later lookup finds.\<close>

lemma oldest_pending_only:
  assumes "count_rows lookup (payment_intents d) \<le> 1" "p \<in> set (payment_intents d)" "lookup p"
  shows "oldest_pending lookup d = Some p"
proof -
  have "p \<in> set (filter lookup (payment_intents d))" using assms(2,3) by simp
  then have "filter lookup (payment_intents d) = [p]"
    using assms(1) by (cases "filter lookup (payment_intents d)") (auto simp: count_rows_def)
  then show ?thesis by (simp add: oldest_pending_def order_by_def)
qed


lemma mint_fields:
  assumes "mint_intent e prefix amount = Inr p"
  shows "pi_status p = ''pending''" "pi_method p = ''bakong''" "pi_amount_usd p = amount"
  using assms by (auto simp: mint_intent_def default_intent_def split: sum.splits)

text \<open>A fresh QR of an item not owned is handed out again as it is.\<close>

lemma reuse_fresh:
  assumes "\<not> qr_is_stale (e_cfg e) (c_utc (e_clk e)) p"
    and "\<not> fst (mark_succeeded_if_already_purchased (c_utc (e_clk e)) p (sv_db sv))"
  shows "reuse_or_refresh_pending e check p sv = (Inr p, sv)"
  using assms by (auto simp: reuse_or_refresh_pending_def ownership_step_def Let_def split: prod.splits)

lemma loser_reuses:
  assumes u: "intents_unique (payment_intents (sv_db sv))" and who: "user \<noteq> None \<or> g \<noteq> None"
    and q: "q \<in> set (payment_intents (sv_db sv))" "movie_lookup user g cid q" and p: "movie_lookup user g cid p"
  shows "commit_new_intent_or_reuse e check (movie_lookup user g cid) p sv =
    reuse_or_refresh_pending (e\<lparr>e_hex := drop 3 (e_hex e)\<rparr>) check q sv"
proof -
  have "\<not> intents_unique (payment_intents (sv_db sv) @ [p])"
  proof
    assume "intents_unique (payment_intents (sv_db sv) @ [p])"
    from one_open_movie [OF this who, of cid] p have "count_rows (movie_lookup user g cid) (payment_intents (sv_db sv)) = 0"
      by simp
    with q show False by (auto simp: count_rows_zero exists_row_iff)
  qed
  moreover have "oldest_pending (movie_lookup user g cid) (sv_db sv) = Some q"
    by (rule oldest_pending_only [where lookup = "movie_lookup user g cid"])
      (use one_open_movie [OF u who] q in simp_all)
  ultimately show ?thesis by (simp add: commit_new_intent_or_reuse_def Let_def)
qed

lemma checkout_one_open_facts:
  assumes u: "intents_unique (payment_intents (sv_db sv))" and others: "keeps_unique others"
    and who: "user \<noteq> None \<or> g \<noteq> None"
    and run: "create_or_reuse_movie_bakong_intent e cid user g others sv = (r, sv')"
  shows "intents_unique (payment_intents (sv_db sv'))"
    and "count_rows (movie_lookup user g cid) (payment_intents (sv_db sv')) \<le> 1"
    and "q \<in> set (payment_intents (sv_db sv')) \<Longrightarrow> movie_lookup user g cid q \<Longrightarrow>
      \<not> qr_is_stale (e_cfg e2) (c_utc (e_clk e2)) q \<Longrightarrow> \<not> movie_already_bought user g cid (sv_db sv') \<Longrightarrow>
      \<not> fst (mark_succeeded_if_already_purchased (c_utc (e_clk e2)) q (sv_db sv')) \<Longrightarrow>
      create_or_reuse_movie_bakong_intent e2 cid user g others2 sv' = (Inr q, sv')"
    and "others sv = sv2 \<Longrightarrow> oldest_pending (movie_lookup user g cid) (sv_db sv) = None \<Longrightarrow>
      q \<in> set (payment_intents (sv_db sv2)) \<Longrightarrow> movie_lookup user g cid q \<Longrightarrow>
      \<not> qr_is_stale (e_cfg e) (c_utc (e_clk e)) q \<Longrightarrow>
      \<not> fst (mark_succeeded_if_already_purchased (c_utc (e_clk e)) q (sv_db sv2)) \<Longrightarrow>
      r = Inr p \<Longrightarrow> p = q \<and> sv' = sv2"
proof -
  show u': "intents_unique (payment_intents (sv_db sv'))" by (rule create_movie_unique [OF u others run])
  show one: "count_rows (movie_lookup user g cid) (payment_intents (sv_db sv')) \<le> 1"
    by (rule one_open_movie [OF u' who])
  show "create_or_reuse_movie_bakong_intent e2 cid user g others2 sv' = (Inr q, sv')"
    if q: "q \<in> set (payment_intents (sv_db sv'))" "movie_lookup user g cid q"
      and fresh: "\<not> qr_is_stale (e_cfg e2) (c_utc (e_clk e2)) q" and nb: "\<not> movie_already_bought user g cid (sv_db sv')"
      and no: "\<not> fst (mark_succeeded_if_already_purchased (c_utc (e_clk e2)) q (sv_db sv'))"
    using oldest_pending_only [where lookup = "movie_lookup user g cid", OF one q] nb reuse_fresh [OF fresh no]
    by (simp add: create_or_reuse_movie_bakong_intent_def Let_def)
  show "p = q \<and> sv' = sv2"
    if sv2: "others sv = sv2" and none: "oldest_pending (movie_lookup user g cid) (sv_db sv) = None"
      and q: "q \<in> set (payment_intents (sv_db sv2))" "movie_lookup user g cid q"
      and fresh: "\<not> qr_is_stale (e_cfg e) (c_utc (e_clk e)) q"
      and no: "\<not> fst (mark_succeeded_if_already_purchased (c_utc (e_clk e)) q (sv_db sv2))" and r: "r = Inr p"
  proof -
    obtain m amount p0 where m: "select_one (\<lambda>c. ct_id c = cid \<and> ct_type c = ''single'' \<and> ct_is_published c)
        (contents (sv_db sv)) = Some m" and mint: "mint_intent e ''movie-'' amount = Inr p0"
      and com: "commit_new_intent_or_reuse e True (movie_lookup user g cid)
        (p0\<lparr>pi_user_id := map_option user_id user, pi_guest_id := g, pi_kind := ''single'',
            pi_content_id := Some (ct_id m)\<rparr>) sv2 = (r, sv')"
      using run none r sv2
      by (auto simp: create_or_reuse_movie_bakong_intent_def Let_def split: if_splits option.splits sum.splits)
    have "movie_lookup user g cid (p0\<lparr>pi_user_id := map_option user_id user, pi_guest_id := g,
        pi_kind := ''single'', pi_content_id := Some (ct_id m)\<rparr>)"
      using mint_fields [OF mint] select_one_Some [OF m]
      by (auto simp: movie_lookup_def buyer_match_def split: option.split)
    moreover have "intents_unique (payment_intents (sv_db sv2))" using keeps_uniqueD [OF others u] sv2 by simp
    ultimately have "reuse_or_refresh_pending (e\<lparr>e_hex := drop 3 (e_hex e)\<rparr>) True q sv2 = (r, sv')"
      using loser_reuses [OF _ who q, where p = "p0\<lparr>pi_user_id := map_option user_id user, pi_guest_id := g,
        pi_kind := ''single'', pi_content_id := Some (ct_id m)\<rparr>"] com by simp
    then show ?thesis using reuse_fresh [of "e\<lparr>e_hex := drop 3 (e_hex e)\<rparr>" q sv2 True] fresh no r by simp
  qed
qed


definition demo_env :: env where
  "demo_env = \<lparr>e_cfg = demo_cfg, e_net = demo_net, e_clk = demo_clock, e_fresh = 1,
     e_hex = [''h0'', ''h1'', ''h2'', ''h3''], e_khqr = \<lparr>k_sdk = (\<lambda>_ bill. (''QR'' @ bill, ''aa'')), k_remote = (\<lambda>_ _. KhqrUnreachable)\<rparr>\<rparr>"

definition demo_server :: server where
  "demo_server = \<lparr>sv_db = empty_db\<lparr>contents := [demo_movie]\<rparr>, sv_guards = demo_guards, sv_delivered = []\<rparr>"



end
