(* ===== verification/Sweeper.thy ===== *)
theory Sweeper
  imports Checkout
begin

text \<open>
  \<open>app/billing/bakong_sweeper.py\<close>: the background loop that settles recent checkouts nobody polls,
  within the few NBC checks a day it may spend. \<open>locked\<close> are the intents other transactions hold
  (\<open>SKIP LOCKED\<close>). The outcome of one tick is the number settled, or the exception that ends it.
\<close>

definition rate_limit_backoff :: monotonic where "rate_limit_backoff = 3600"

definition window_minutes :: "settings \<Rightarrow> int" where
  "window_minutes cfg = min 45 (max 10 (bakong_sweeper_window_minutes cfg))"

definition batch_size :: "settings \<Rightarrow> nat" where
  "batch_size cfg = nat (min 3 (max 1 (bakong_sweeper_batch_size cfg)))"

definition sweepable :: "env \<Rightarrow> string list \<Rightarrow> intent_row \<Rightarrow> bool" where
  "sweepable e locked p \<longleftrightarrow>
     pi_method p = ''bakong'' \<and> pi_status p = ''pending'' \<and> pi_bakong_md5 p \<noteq> None \<and>
     c_utc (e_clk e) - minutes (window_minutes (e_cfg e)) \<le> qr_issued_at p \<and> pi_intent_id p \<notin> set locked"

definition sweep_batch :: "env \<Rightarrow> string list \<Rightarrow> db \<Rightarrow> intent_row list" where
  "sweep_batch e locked d =
     take (batch_size (e_cfg e))
       (order_by (\<lambda>p. - qr_issued_at p) (filter (sweepable e locked) (payment_intents d)))"

fun skip_polled :: "monotonic \<Rightarrow> intent_row list \<Rightarrow> check_cache \<Rightarrow> intent_row list \<times> check_cache" where
  "skip_polled now [] c = ([], c)"
| "skip_polled now (p # ps) c =
     (case was_intent_recently_polled now (pi_intent_id p) c of
        (polled, c1) \<Rightarrow>
          (case skip_polled now ps c1 of (qs, c2) \<Rightarrow> ((if polled then qs else p # qs), c2)))"

text \<open>One intent: is it paid, is it not, did NBC not say (\<open>None\<close>), or did the second check raise?\<close>

datatype sweep_check = CheckFailed | Inconclusive | Paid | Unpaid

definition sweep_probe :: "env \<Rightarrow> intent_row \<Rightarrow> guards \<Rightarrow> sweep_check result \<times> guards" where
  "sweep_probe e p w =
     (let probe = probe_khqr_status (e_cfg e) (e_net e) (e_clk e);
          md5 = (case pi_bakong_md5 p of None \<Rightarrow> [] | Some m \<Rightarrow> m)
      in case probe md5 None w of
           (Inl _, w1) \<Rightarrow> (Inr CheckFailed, w1)
         | (Inr st, w1) \<Rightarrow>
             if st = status_unknown then (Inr Inconclusive, w1)
             else if st \<noteq> status_paid \<and> truthy (pi_bakong_prev_md5 p) \<and> pi_bakong_prev_md5 p \<noteq> pi_bakong_md5 p then
               (case probe (the (pi_bakong_prev_md5 p)) None w1 of
                  (Inl err, w2) \<Rightarrow> (Inl err, w2)
                | (Inr prev, w2) \<Rightarrow>
                    if prev = status_unknown then (Inr Inconclusive, w2)
                    else (Inr (if prev = status_paid then Paid else Unpaid), w2))
             else (Inr (if st = status_paid then Paid else Unpaid), w1))"

text \<open>
  The batch, in order: (rate limited, settled) at its end, or the exception that leaves the tick. A
  failed settle is logged and skipped; the log line reads the intent, which raises after a failed flush.
\<close>

fun sweep_loop :: "env \<Rightarrow> intent_row list \<Rightarrow> nat \<Rightarrow> billing \<Rightarrow> (bool \<times> nat) result \<times> billing" where
  "sweep_loop e [] cnt b = (Inr (False, cnt), b)"
| "sweep_loop e (p # ps) cnt b =
     (if bakong_checks_blocked (c_tick (e_clk e)) (c_unix (e_clk e)) (g_quota (b_guards b))
      then (Inr (True, cnt), b)
      else (case sweep_probe e p (b_guards b) of
              (Inl err, w) \<Rightarrow> (Inl err, b\<lparr>b_guards := w\<rparr>)
            | (Inr CheckFailed, w) \<Rightarrow> sweep_loop e ps cnt (b\<lparr>b_guards := w\<rparr>)
            | (Inr Inconclusive, w) \<Rightarrow> (Inr (True, cnt), b\<lparr>b_guards := w\<rparr>)
            | (Inr Unpaid, w) \<Rightarrow> sweep_loop e ps cnt (b\<lparr>b_guards := w\<rparr>)
            | (Inr Paid, w) \<Rightarrow>
              (case settle_bakong_intent_if_paid e p (b\<lparr>b_guards := w\<rparr>) of
                 (Inr True, b1) \<Rightarrow> sweep_loop e ps (Suc cnt) b1
               | (Inr False, b1) \<Rightarrow> sweep_loop e ps cnt b1
               | (Inl err, b1) \<Rightarrow>
                   if tx_mode (b_tx b1) = FailedFlush then (Inl err, b1) else sweep_loop e ps cnt b1)))"

text \<open>After the batch: commit when something settled, then the pause. The module's own pause is \<open>until\<close>.\<close>

definition sweep_finish ::
    "env \<Rightarrow> bool \<Rightarrow> nat \<Rightarrow> billing \<Rightarrow> server \<Rightarrow> monotonic \<Rightarrow> nat result \<times> server \<times> monotonic" where
  "sweep_finish e limited cnt b sv until =
     (case (if 0 < cnt then commit b sv else (Inr (), roll_back b sv)) of
        (Inl err, sv1) \<Rightarrow> (Inl err, sv1, until)
      | (Inr _, sv1) \<Rightarrow>
          if limited then
            (Inr cnt,
             sv1\<lparr>sv_guards := (sv_guards sv1)\<lparr>g_quota :=
               note_bakong_rate_limited (c_tick (e_clk e)) (c_unix (e_clk e)) rate_limit_backoff (g_quota (sv_guards sv1))\<rparr>\<rparr>,
             c_tick (e_clk e) + rate_limit_backoff)
          else (Inr cnt, sv1, until))"

definition sweep_pending_bakong_intents ::
    "env \<Rightarrow> string list \<Rightarrow> server \<Rightarrow> monotonic \<Rightarrow> nat result \<times> server \<times> monotonic" where
  "sweep_pending_bakong_intents e locked sv until =
     (if c_tick (e_clk e) < until \<or>
         bakong_checks_blocked (c_tick (e_clk e)) (c_unix (e_clk e)) (g_quota (sv_guards sv))
      then (Inr 0, sv, until)
      else (case skip_polled (c_tick (e_clk e)) (sweep_batch e locked (sv_db sv)) (g_cache (sv_guards sv)) of
              (ps, c) \<Rightarrow>
                (let sv0 = sv\<lparr>sv_guards := (sv_guards sv)\<lparr>g_cache := c\<rparr>\<rparr> in
                 if ps = [] then (Inr 0, sv0, until)
                 else (case sweep_loop e ps 0 (start_request sv0) of
                         (Inl err, b) \<Rightarrow> (Inl err, roll_back b sv0, until)
                       | (Inr (limited, cnt), b) \<Rightarrow> sweep_finish e limited cnt b sv0 until))))"

section \<open>Lemmas\<close>

lemma skip_polled_subset: "set (fst (skip_polled t ps c)) \<subseteq> set ps \<and> length (fst (skip_polled t ps c)) \<le> length ps"
proof (induction ps arbitrary: c)
  case Nil
  then show ?case by simp
next
  case (Cons p ps)
  obtain b c1 where w: "was_intent_recently_polled t (pi_intent_id p) c = (b, c1)" by fastforce
  show ?case using Cons.IH [of c1] w by (auto split: prod.split simp: le_SucI)
qed

lemma skip_polled_md5: "md5_cache (snd (skip_polled t ps c)) = md5_cache c"
proof (induction ps arbitrary: c)
  case Nil
  then show ?case by simp
next
  case (Cons p ps)
  obtain b c1 where w: "was_intent_recently_polled t (pi_intent_id p) c = (b, c1)" by fastforce
  then have "md5_cache c1 = md5_cache c"
    by (auto simp: was_intent_recently_polled_def split: if_splits option.splits)
  then show ?case using Cons.IH [of c1] w by (auto split: prod.splits)
qed

lemma sweep_batch_ok:
  assumes "p \<in> set (sweep_batch e locked d)"
  shows "p \<in> set (payment_intents d)" "pi_status p = ''pending''" "pi_method p = ''bakong''"
  using assms by (auto simp: sweep_batch_def sweepable_def dest!: in_set_takeD)

lemma newest_first:
  assumes "p \<in> set (payment_intents d)" "sweepable e locked p"
    and "\<forall>q \<in> set (payment_intents d). sweepable e locked q \<longrightarrow> q \<noteq> p \<longrightarrow> qr_issued_at q < qr_issued_at p"
  shows "\<exists>rest. sweep_batch e locked d = p # rest"
proof -
  let ?o = "order_by (\<lambda>p. - qr_issued_at p) (filter (sweepable e locked) (payment_intents d))"
  have "p \<in> set ?o" using assms by simp
  then obtain r rs where o: "?o = r # rs" by (cases ?o) auto
  then have "first_row ?o = Some r" by simp
  from first_row_order_by [OF this] have "r \<in> set (payment_intents d)" "sweepable e locked r" "qr_issued_at p \<le> qr_issued_at r"
    using assms(1,2) by auto
  then have "r = p" using assms(3) by force
  moreover have "0 < batch_size (e_cfg e)" by (simp add: batch_size_def)
  ultimately show ?thesis using o by (cases "batch_size (e_cfg e)") (simp_all add: sweep_batch_def)
qed

lemma sweep_batch_length: "length (sweep_batch e locked d) \<le> 3"
proof -
  have "batch_size (e_cfg e) \<le> 3" by (simp add: batch_size_def)
  then show ?thesis by (auto simp: sweep_batch_def min_def)
qed

lemma sweep_probe_honest:
  assumes honest: "paid_cache_honest P w" and net: "nbc_reports e P" and run: "sweep_probe e p w = (r, w')"
  shows "paid_cache_honest P w'"
proof -
  have nbc: "\<And>m. nbc_paid (e_cfg e) (e_net e) m \<Longrightarrow> m \<in> P" using net by (simp add: nbc_reports_def)
  define md5 where "md5 = (case pi_bakong_md5 p of None \<Rightarrow> [] | Some m \<Rightarrow> m)"
  obtain r1 w1 where p1: "probe_khqr_status (e_cfg e) (e_net e) (e_clk e) md5 None w = (r1, w1)" by fastforce
  obtain r2 w2 where p2: "probe_khqr_status (e_cfg e) (e_net e) (e_clk e) (the (pi_bakong_prev_md5 p)) None w1 = (r2, w2)"
    by fastforce
  have h1: "paid_cache_honest P w1" by (rule honest_probe(1) [OF honest nbc p1])
  have h2: "paid_cache_honest P w2" by (rule honest_probe(1) [OF h1 nbc p2])
  show ?thesis
    using run p1 p2 h1 h2 by (auto simp: sweep_probe_def Let_def md5_def split: sum.splits if_splits)
qed

lemma paid_step_find: "paid_step P d d' \<Longrightarrow> find_intent i d = None \<longleftrightarrow> find_intent i d' = None"
  unfolding paid_step_def by (auto dest!: spec [of _ i] elim: option.rel_cases)

text \<open>A settle of another intent leaves a snapshot valid.\<close>

lemma settle_keeps_snapshot:
  assumes s: "settle_bakong_intent_if_paid e p b = (r, b')" and q: "snapshot q (tx_db (b_tx b))"
    and ne: "pi_intent_id q \<noteq> pi_intent_id p"
  shows "snapshot q (tx_db (b_tx b'))"
proof -
  have "find_intent (pi_intent_id q) (tx_db t') = find_intent (pi_intent_id q) (tx_db t)"
    if f: "fulfill_payment_intent now fresh (pi_intent_id p) bank t = (s', t')"
      and q': "find_intent (pi_intent_id q) (tx_db t) = Some q" for now fresh bank s' and t t' :: tx
  proof (cases "\<exists>x. find_intent (pi_intent_id p) (tx_db t) = Some x \<and> pi_status x \<noteq> ''succeeded'' \<and> tx_mode t = Live")
    case True
    then show ?thesis using fulfill_find_intent [OF _ _ _ f] q' ne by fastforce
  next
    case False
    then have "t' = t" using f by (auto simp: fulfill_payment_intent_def split: if_splits option.splits)
    then show ?thesis by simp
  qed
  then show ?thesis
    using s q by (auto simp: snapshot_def settle_bakong_intent_if_paid_def split: if_splits sum.splits bool.splits prod.splits)
qed

lemma sweep_loop_paid_step:
  assumes net: "nbc_reports e P"
  shows "paid_cache_honest P (b_guards b) \<Longrightarrow> distinct (map pi_intent_id ps) \<Longrightarrow>
    \<forall>p \<in> set ps. snapshot p (tx_db (b_tx b)) \<Longrightarrow> sweep_loop e ps n b = (r, b') \<Longrightarrow>
    paid_step P (tx_db (b_tx b)) (tx_db (b_tx b')) \<and> paid_cache_honest P (b_guards b')"
proof (induction ps arbitrary: b n)
  case Nil
  then show ?case by simp
next
  case (Cons p ps)
  obtain c w where pr: "sweep_probe e p (b_guards b) = (c, w)" by fastforce
  have hw: "paid_cache_honest P w" by (rule sweep_probe_honest [OF Cons.prems(1) net pr])
  let ?b0 = "b\<lparr>b_guards := w\<rparr>"
  obtain s b1 where st: "settle_bakong_intent_if_paid e p ?b0 = (s, b1)" by fastforce
  have h0: "paid_cache_honest P (b_guards ?b0)" and t0: "tx_db (b_tx ?b0) = tx_db (b_tx b)" using hw by simp_all
  have snap: "snapshot p (tx_db (b_tx ?b0))" using Cons.prems(3) by simp
  have step: "paid_step P (tx_db (b_tx b)) (tx_db (b_tx b1))" "paid_cache_honest P (b_guards b1)"
    using settle_paid_step [OF h0 net snap st] by simp_all
  have next0: "sweep_loop e ps m ?b0 = (r, b') \<Longrightarrow> ?case" for m
    using Cons.IH [of ?b0 m] Cons.prems hw by simp
  have snaps: "\<forall>q \<in> set ps. snapshot q (tx_db (b_tx b1))"
  proof
    fix q assume q: "q \<in> set ps"
    then have "pi_intent_id q \<noteq> pi_intent_id p" using Cons.prems(2) by (auto simp: image_iff)
    then show "snapshot q (tx_db (b_tx b1))" using settle_keeps_snapshot [OF st] q Cons.prems(3) by simp
  qed
  have next1: "sweep_loop e ps m b1 = (r, b') \<Longrightarrow> ?case" for m
    using Cons.IH [of b1 m] Cons.prems(2) step snaps paid_step_trans by auto
  show ?case
    using Cons.prems(4) pr st next0 next1 hw step Cons.prems(1)
    by (auto split: if_splits sum.splits sweep_check.splits bool.splits)
qed

lemma distinct_sweep:
  assumes "distinct (map pi_intent_id (payment_intents d))"
  shows "distinct (map pi_intent_id (sweep_batch e locked d))"
proof -
  have "distinct (map f xs) \<Longrightarrow> distinct (map f (sort_key k xs))" for f :: "intent_row \<Rightarrow> string" and k :: "intent_row \<Rightarrow> int" and xs
    by (metis (no_types, lifting) distinct_map distinct_sort set_sort)
  then have "distinct (map pi_intent_id (order_by k (filter P (payment_intents d))))" for k :: "intent_row \<Rightarrow> int" and P
    unfolding order_by_def using distinct_map_filter [OF assms] by blast
  then show ?thesis by (simp add: sweep_batch_def take_map [symmetric] distinct_take)
qed

lemma distinct_skip: "distinct (map pi_intent_id ps) \<Longrightarrow> distinct (map pi_intent_id (fst (skip_polled t ps c)))"
proof (induction ps arbitrary: c)
  case Nil
  then show ?case by simp
next
  case (Cons p ps)
  obtain b c1 where w: "was_intent_recently_polled t (pi_intent_id p) c = (b, c1)" by fastforce
  show ?case using Cons.IH [of c1] Cons.prems w skip_polled_subset [of t ps c1] by (auto split: prod.splits)
qed

lemma sweep_finish_step:
  assumes "paid_step P (sv_db sv) (tx_db (b_tx b))" "paid_cache_honest P (b_guards b)"
    and "sweep_finish e limited n b sv until = (r, sv', until')"
  shows "paid_step P (sv_db sv) (sv_db sv') \<and> paid_cache_honest P (sv_guards sv')"
  using assms commit_cases [of b sv]
  by (auto simp: sweep_finish_def roll_back_def paid_cache_honest_def split: if_splits sum.splits prod.splits)

lemma sweep_paid_step:
  assumes ids: "distinct (map pi_intent_id (payment_intents (sv_db sv)))"
    and honest: "paid_cache_honest P (sv_guards sv)" and net: "nbc_reports e P"
    and run: "sweep_pending_bakong_intents e locked sv until = (r, sv', until')"
  shows "paid_step P (sv_db sv) (sv_db sv') \<and> paid_cache_honest P (sv_guards sv')"
proof -
  define ps c where "ps = fst (skip_polled (c_tick (e_clk e)) (sweep_batch e locked (sv_db sv)) (g_cache (sv_guards sv)))"
    and "c = snd (skip_polled (c_tick (e_clk e)) (sweep_batch e locked (sv_db sv)) (g_cache (sv_guards sv)))"
  define sv0 where "sv0 = sv\<lparr>sv_guards := (sv_guards sv)\<lparr>g_cache := c\<rparr>\<rparr>"
  have h0: "paid_cache_honest P (sv_guards sv0)"
    using honest skip_polled_md5 by (simp add: sv0_def c_def paid_cache_honest_def)
  obtain lr b where loop: "sweep_loop e ps 0 (start_request sv0) = (lr, b)" by fastforce
  have "\<forall>p \<in> set ps. snapshot p (sv_db sv)"
    using skip_polled_subset sweep_batch_ok(1) open_intent_snapshot [OF ids] unfolding ps_def by blast
  then have lp: "paid_step P (sv_db sv) (tx_db (b_tx b)) \<and> paid_cache_honest P (b_guards b)"
    using sweep_loop_paid_step [OF net _ _ _ loop] h0 distinct_skip [OF distinct_sweep [OF ids]]
    by (simp add: ps_def sv0_def)
  have fin: "sweep_finish e limited n b sv0 until = (r, sv', until') \<Longrightarrow> ?thesis" for limited n
    using sweep_finish_step [of P sv0 b e limited n until r sv' until'] lp by (simp add: sv0_def)
  show ?thesis
    using run loop lp fin h0 honest
    by (auto simp: sweep_pending_bakong_intents_def ps_def [symmetric] c_def [symmetric] sv0_def [symmetric] Let_def
        roll_back_def split: if_splits sum.splits prod.splits) (simp_all add: sv0_def ps_def c_def)
qed

section \<open>The cost of a tick\<close>

definition known :: "env \<Rightarrow> string \<Rightarrow> string \<Rightarrow> guards \<Rightarrow> bool" where
  "known e md5 st w \<longleftrightarrow> md5 \<noteq> [] \<and>
     get_cached_md5_status (c_tick (e_clk e)) md5 (g_cache w) = (Some st, g_cache w)"

abbreviation probe_now :: "env \<Rightarrow> string \<Rightarrow> string option \<Rightarrow> guards \<Rightarrow> string result \<times> guards" where
  "probe_now e \<equiv> probe_khqr_status (e_cfg e) (e_net e) (e_clk e)"

lemma known_probe: "known e md5 st w \<Longrightarrow> probe_now e md5 i w = (Inr st, w)"
  by (simp add: known_def probe_khqr_status_def)

lemma ttl_pos: "0 < ttl_for_status st"
  by (simp add: ttl_for_status_def paid_ttl_def rate_limit_ttl_def unpaid_ttl_def)

lemma probe_known:
  assumes p: "probe_now e md5 i w = (Inr st, w')" and m: "md5 \<noteq> []"
  shows "known e md5 st w'"
proof (cases "fst (get_cached_md5_status (c_tick (e_clk e)) md5 (g_cache w))")
  case None
  then obtain v where "w' = set_md5 (e_clk e) md5 st v" using probe_stores [OF p m] by blast
  then show ?thesis using get_after_set_md5 [OF m, of "c_tick (e_clk e)"] ttl_pos m by (simp add: known_def)
next
  case (Some s)
  then show ?thesis
    using p m by (auto simp: known_def probe_khqr_status_def get_cached_md5_status_def split: if_splits option.splits)
qed

lemma known_cong: "g_cache w = g_cache w' \<Longrightarrow> known e md5 st w = known e md5 st w'"
  by (simp add: known_def)

lemma known_lookup:
  "known e md5 st w \<longleftrightarrow> md5 \<noteq> [] \<and> (\<exists>x. md5_cache (g_cache w) md5 = Some (st, x) \<and> c_tick (e_clk e) < x)"
  by (auto simp: known_def get_cached_md5_status_def split: option.splits if_splits)

lemma known_set: "known e md5 st w \<Longrightarrow> m \<noteq> md5 \<Longrightarrow> known e md5 st (set_md5 (e_clk e) m st' w)"
  by (auto simp: known_lookup set_md5_def set_cached_md5_status_def prune_map_lookup Let_def)

lemma known_get:
  "known e md5 st w \<Longrightarrow> m \<noteq> md5 \<Longrightarrow> get_cached_md5_status (c_tick (e_clk e)) m (g_cache w) = (r, c) \<Longrightarrow>
   known e md5 st (w\<lparr>g_cache := c\<rparr>)"
  by (auto simp: known_lookup get_cached_md5_status_def split: option.splits if_splits)

lemma probe_keeps_known:
  assumes k: "known e md5 st w" and m: "m \<noteq> md5" and p: "probe_now e m None w = (r, w')"
  shows "known e md5 st w'"
proof -
  obtain s c where g: "get_cached_md5_status (c_tick (e_clk e)) m (g_cache w) = (s, c)" by fastforce
  note k' = known_get [OF k m g]
  have k'': "g_cache v = c \<Longrightarrow> known e md5 st (set_md5 (e_clk e) m x v)" for v x
    using known_set [OF _ m] k' known_cong [of v "w\<lparr>g_cache := c\<rparr>"] by simp
  show ?thesis
    using p g k k' k'' by (auto simp: probe_khqr_status_def send_check_def Let_def
        split: if_splits option.splits sum.splits prod.splits)
qed

lemma probe_sent: "probe_now e md5 i w = (r, w') \<Longrightarrow> length (g_sent w') \<le> Suc (length (g_sent w))"
  using send_check_sent
  by (auto simp: probe_khqr_status_def Let_def split: if_splits option.splits prod.splits bool.splits) fastforce+

lemma sweep_probe_sent:
  assumes "sweep_probe e p w = (r, w')"
  shows "length (g_sent w') \<le> length (g_sent w) + 2"
proof -
  define md5 where "md5 = (case pi_bakong_md5 p of None \<Rightarrow> [] | Some m \<Rightarrow> m)"
  obtain r1 w1 where p1: "probe_now e md5 None w = (r1, w1)" by fastforce
  obtain r2 w2 where p2: "probe_now e (the (pi_bakong_prev_md5 p)) None w1 = (r2, w2)" by fastforce
  show ?thesis
    using assms p1 p2 probe_sent [OF p1] probe_sent [OF p2]
    by (auto simp: sweep_probe_def Let_def md5_def split: sum.splits if_splits)
qed

text \<open>The settle that follows a paid probe asks about md5s whose answers are in the cache.\<close>

lemma settle_after_probe:
  assumes pr: "sweep_probe e p w = (Inr Paid, w')"
  shows "\<exists>x. bakong_md5s_paid e p w' = (Inr x, w')"
proof (cases "truthy (pi_bakong_md5 p)")
  case False
  then show ?thesis by (intro exI [of _ False]) (simp add: bakong_md5s_paid_def)
next
  case True
  then obtain m where m: "pi_bakong_md5 p = Some m" "m \<noteq> []" by (cases "pi_bakong_md5 p") auto
  obtain r1 w1 where p1: "probe_now e m None w = (r1, w1)" by fastforce
  obtain r2 w2 where p2: "probe_now e (the (pi_bakong_prev_md5 p)) None w1 = (r2, w2)" by fastforce
  show ?thesis
  proof (cases "r1 = Inr status_paid")
    case True
    then have "w' = w1" using pr p1 p2 m by (auto simp: sweep_probe_def Let_def status_defs)
    moreover have "known e m status_paid w1" using probe_known p1 True m by blast
    ultimately show ?thesis
      using m known_probe by (intro exI [of _ "nbc_settle_enabled (e_cfg e)"]) (simp add: bakong_md5s_paid_def)
  next
    case False
    then obtain st where st: "r1 = Inr st" "st \<noteq> status_unknown" "st \<noteq> status_paid"
      and prev: "truthy (pi_bakong_prev_md5 p)" "pi_bakong_prev_md5 p \<noteq> pi_bakong_md5 p"
      and r2: "r2 = Inr status_paid" and w': "w' = w2"
      using pr p1 p2 m by (auto simp: sweep_probe_def Let_def split: sum.splits if_splits)
    have ne: "the (pi_bakong_prev_md5 p) \<noteq> m" "the (pi_bakong_prev_md5 p) \<noteq> []"
      using prev m by (cases "pi_bakong_prev_md5 p"; simp)+
    have "known e m st w2" using probe_keeps_known [OF probe_known ne(1) p2] p1 st(1) m(2) by blast
    moreover have "known e (the (pi_bakong_prev_md5 p)) status_paid w2" using probe_known p2 r2 ne(2) by blast
    ultimately show ?thesis
      using m st prev w' known_probe
      by (intro exI [of _ "nbc_settle_enabled (e_cfg e)"]) (simp add: bakong_md5s_paid_def check_khqr_paid_def)
  qed
qed

lemma settle_guards:
  assumes "sweep_probe e p w = (Inr Paid, w')" and "settle_bakong_intent_if_paid e p (b\<lparr>b_guards := w'\<rparr>) = (r, b')"
  shows "b_guards b' = w'"
  using settle_after_probe [OF assms(1)] assms(2)
  by (auto simp: settle_bakong_intent_if_paid_def split: if_splits sum.splits bool.splits prod.splits)

lemma sweep_loop_sent:
  "sweep_loop e ps n b = (r, b') \<Longrightarrow> length (g_sent (b_guards b')) \<le> length (g_sent (b_guards b)) + 2 * length ps"
proof (induction ps arbitrary: b n)
  case Nil
  then show ?case by simp
next
  case (Cons p ps)
  obtain c w where pr: "sweep_probe e p (b_guards b) = (c, w)" by fastforce
  obtain s b1 where st: "settle_bakong_intent_if_paid e p (b\<lparr>b_guards := w\<rparr>) = (s, b1)" by fastforce
  have g: "c = Inr Paid \<Longrightarrow> b_guards b1 = w" using settle_guards pr st by blast
  have "sweep_loop e ps m (b\<lparr>b_guards := w\<rparr>) = (r, b') \<Longrightarrow> ?case"
    "b_guards b1 = w \<Longrightarrow> sweep_loop e ps m b1 = (r, b') \<Longrightarrow> ?case" for m
    using Cons.IH [where b = "b\<lparr>b_guards := w\<rparr>" and n = m] Cons.IH [where b = b1 and n = m] sweep_probe_sent [OF pr] by auto
  then show ?case
    using Cons.prems pr st g sweep_probe_sent [OF pr]
    by (auto split: if_splits sum.splits sweep_check.splits bool.splits)
qed

lemma sweep_loop_count: "sweep_loop e ps n b = (Inr (limited, m), b') \<Longrightarrow> n \<le> m \<and> m \<le> n + length ps"
  by (induction e ps n b arbitrary: rule: sweep_loop.induct)
    (force split: if_splits sum.splits sweep_check.splits bool.splits prod.splits)+

lemma commit_sent: "g_sent (sv_guards (snd (commit b sv))) = g_sent (b_guards b)"
  by (simp add: commit_cases)

lemma sweep_within_budget_facts:
  assumes run: "sweep_pending_bakong_intents e locked sv until = (r, sv', until')"
  shows "length (g_sent (sv_guards sv')) \<le> length (g_sent (sv_guards sv)) + 6"
    and "r = Inr n \<Longrightarrow> n \<le> 3"
    and "c_tick (e_clk e) < until \<or>
         bakong_checks_blocked (c_tick (e_clk e)) (c_unix (e_clk e)) (g_quota (sv_guards sv)) \<Longrightarrow>
         r = Inr 0 \<and> sv' = sv \<and> until' = until"
    and "until' \<noteq> until \<Longrightarrow> until' = c_tick (e_clk e) + 3600 \<and>
         (\<forall>x. x < 3600 \<longrightarrow>
           bakong_checks_blocked (c_tick (e_clk e) + x) (c_unix (e_clk e) + x) (g_quota (sv_guards sv')))"
proof -
  define ps c where "ps = fst (skip_polled (c_tick (e_clk e)) (sweep_batch e locked (sv_db sv)) (g_cache (sv_guards sv)))"
    and "c = snd (skip_polled (c_tick (e_clk e)) (sweep_batch e locked (sv_db sv)) (g_cache (sv_guards sv)))"
  define sv0 where "sv0 = sv\<lparr>sv_guards := (sv_guards sv)\<lparr>g_cache := c\<rparr>\<rparr>"
  obtain lr b where loop: "sweep_loop e ps 0 (start_request sv0) = (lr, b)" by fastforce
  have len: "length ps \<le> 3"
    using skip_polled_subset [of _ "sweep_batch e locked (sv_db sv)"] sweep_batch_length le_trans
    unfolding ps_def by blast
  have sent: "length (g_sent (b_guards b)) \<le> length (g_sent (sv_guards sv)) + 6"
    using sweep_loop_sent [OF loop] len by (simp add: sv0_def)
  have pc: "skip_polled (c_tick (e_clk e)) (sweep_batch e locked (sv_db sv)) (g_cache (sv_guards sv)) = (ps, c)"
    by (simp add: ps_def c_def)
  have same: "g_sent (sv_guards sv0) = g_sent (sv_guards sv)" by (simp add: sv0_def)
  have "r = Inr 0 \<and> g_sent (sv_guards sv') = g_sent (sv_guards sv) \<and> until' = until \<or>
      (\<exists>err. r = Inl err \<and> g_sent (sv_guards sv') = g_sent (b_guards b) \<and> until' = until) \<or>
      (\<exists>limited m. lr = Inr (limited, m) \<and> sweep_finish e limited m b sv0 until = (r, sv', until'))"
    using run loop pc same
    by (auto simp: sweep_pending_bakong_intents_def sv0_def [symmetric] Let_def roll_back_def
        split: if_splits sum.splits)
  then consider (idle) "r = Inr 0" "g_sent (sv_guards sv') = g_sent (sv_guards sv)" "until' = until"
    | (broken) err where "r = Inl err" "g_sent (sv_guards sv') = g_sent (b_guards b)" "until' = until"
    | (finished) limited m where "lr = Inr (limited, m)" "sweep_finish e limited m b sv0 until = (r, sv', until')"
    by blast
  note cases = this
  have fin: "g_sent (sv_guards sv') = g_sent (b_guards b)"
    if "sweep_finish e limited m b sv0 until = (r, sv', until')" for limited m
    using that commit_sent [of b sv0] by (auto simp: sweep_finish_def roll_back_def split: if_splits sum.splits prod.splits)
  show "length (g_sent (sv_guards sv')) \<le> length (g_sent (sv_guards sv)) + 6"
    using cases by cases (use sent fin in simp_all)
  show "n \<le> 3" if "r = Inr n"
    using cases
  proof cases
    case (finished limited m)
    then have "n = m" using that by (auto simp: sweep_finish_def split: if_splits sum.splits prod.splits)
    then show ?thesis using sweep_loop_count [of e ps 0 "start_request sv0" limited m b] loop finished len by simp
  qed (use that in simp_all)
  show "r = Inr 0 \<and> sv' = sv \<and> until' = until" if "c_tick (e_clk e) < until \<or>
      bakong_checks_blocked (c_tick (e_clk e)) (c_unix (e_clk e)) (g_quota (sv_guards sv))"
    using run that by (auto simp: sweep_pending_bakong_intents_def)
  show "until' = c_tick (e_clk e) + 3600 \<and> (\<forall>x. x < 3600 \<longrightarrow>
      bakong_checks_blocked (c_tick (e_clk e) + x) (c_unix (e_clk e) + x) (g_quota (sv_guards sv')))"
    if "until' \<noteq> until"
    using cases
  proof cases
    case (finished limited m)
    then show ?thesis
      using that by (auto simp: sweep_finish_def rate_limit_backoff_def bakong_checks_blocked_def
          note_bakong_rate_limited_def set_blocked_until_def Let_def split: if_splits sum.splits prod.splits redis_client.splits)
  qed (use that in simp_all)
qed


definition demo_sweep_server :: server where
  "demo_sweep_server = \<lparr>sv_db = demo_billing_db, sv_guards = demo_guards, sv_delivered = []\<rparr>"


section \<open>No unlock without payment\<close>

lemma no_unlock_without_payment_facts:
  assumes ids: "distinct (map pi_intent_id (payment_intents (sv_db sv)))"
    and honest: "paid_cache_honest P (sv_guards sv)" and net: "nbc_reports e P"
  shows "get_payment_intent e i user cookie sv = (r, sv') \<Longrightarrow>
      paid_step P (sv_db sv) (sv_db sv') \<and> paid_cache_honest P (sv_guards sv')"
    and "get_payment_intent e i user cookie sv = (Inr p, sv') \<Longrightarrow>
      pi_intent_id p = i \<and> owned_by user (if user \<noteq> None then None else cookie) p"
    and "sweep_pending_bakong_intents e locked sv until = (n, sv', until') \<Longrightarrow>
      paid_step P (sv_db sv) (sv_db sv') \<and> paid_cache_honest P (sv_guards sv')"
    and "settle_pending_movie_bakong_for_buyer e cid uid g (start_request sv) = (ok, b') \<Longrightarrow>
      paid_step P (sv_db sv) (tx_db (b_tx b')) \<and> paid_cache_honest P (b_guards b')"
proof -
  have poll: "polled_ok P sv p (settle_pending_intent_on_poll e p sv)"
    if "load_buyer_intent i user g (sv_db sv) = Inr p" for p g
    using poll_ok [OF ids open_intent_snapshot [OF ids load_buyer_intent_ok(1) [OF that]] honest net] .
  show "paid_step P (sv_db sv) (sv_db sv') \<and> paid_cache_honest P (sv_guards sv')"
    if "get_payment_intent e i user cookie sv = (r, sv')"
    using that poll honest by (fastforce simp: get_payment_intent_def polled_ok_def split: sum.splits)
  show "pi_intent_id p = i \<and> owned_by user (if user \<noteq> None then None else cookie) p"
    if run: "get_payment_intent e i user cookie sv = (Inr p, sv')"
  proof -
    let ?g = "if user \<noteq> None then None else cookie"
    obtain q where q: "load_buyer_intent i user ?g (sv_db sv) = Inr q"
      "settle_pending_intent_on_poll e q sv = (Inr p, sv')"
      using run by (auto simp: get_payment_intent_def split: sum.splits)
    have p: "find_intent i (sv_db sv') = Some p" and st: "paid_step P (sv_db sv) (sv_db sv')"
      using poll [OF q(1)] q(2) load_buyer_intent_ok(2) [OF q(1)] by (simp_all add: polled_ok_def)
    have "find_intent i (sv_db sv) = Some q"
      using find_intent_key [OF ids load_buyer_intent_ok(1) [OF q(1)]] load_buyer_intent_ok(2) [OF q(1)] by simp
    then have "pi_user_id p = pi_user_id q \<and> pi_guest_id p = pi_guest_id q"
      using st p unfolding paid_step_def by (auto dest!: spec [of _ i])
    then show ?thesis
      using load_buyer_intent_ok(3) [OF q(1)] find_intent_in [OF p] by (auto simp: owned_by_def split: option.splits)
  qed
  show "paid_step P (sv_db sv) (sv_db sv') \<and> paid_cache_honest P (sv_guards sv')"
    if "sweep_pending_bakong_intents e locked sv until = (n, sv', until')"
    by (rule sweep_paid_step [OF ids honest net that])
  show "paid_step P (sv_db sv) (tx_db (b_tx b')) \<and> paid_cache_honest P (b_guards b')"
    if "settle_pending_movie_bakong_for_buyer e cid uid g (start_request sv) = (ok, b')"
    using settle_for_buyer_paid_step [OF _ net _ that] honest ids by simp
qed

text \<open>
  C1: Nothing is unlocked that NBC has not reported paid. Of the three ways the server settles by
  itself, a client's poll, the sweeper, and the check on playback, none turns an intent succeeded unless
  the md5 of its current or previous KHQR is one NBC reports paid, now or in an answer still cached (and
  whatever is cached as paid stays truthful); they neither create nor remove intents nor change their
  buyers or KHQRs. And a poll answers only the intent's own buyer.
\<close>

theorem no_unlock_without_payment:
  assumes ids: "distinct (map pi_intent_id (payment_intents (sv_db sv)))"
    and honest: "paid_cache_honest P (sv_guards sv)" and net: "nbc_reports e P"
  shows "(get_payment_intent e i user cookie sv = (r, sv') \<longrightarrow>
      paid_step P (sv_db sv) (sv_db sv') \<and> paid_cache_honest P (sv_guards sv')) \<and>
     (get_payment_intent e i user cookie sv = (Inr p, sv') \<longrightarrow>
      (pi_intent_id p = i \<and> owned_by user (if user \<noteq> None then None else cookie) p)) \<and>
     (sweep_pending_bakong_intents e locked sv until = (n, sv', until') \<longrightarrow>
      paid_step P (sv_db sv) (sv_db sv') \<and> paid_cache_honest P (sv_guards sv')) \<and>
     (settle_pending_movie_bakong_for_buyer e cid uid g (start_request sv) = (ok, b') \<longrightarrow>
      paid_step P (sv_db sv) (tx_db (b_tx b')) \<and> paid_cache_honest P (b_guards b'))"
  using no_unlock_without_payment_facts [OF assms] by blast

theorem no_unlock_without_payment_witness:
  "let (r, sv) = get_payment_intent (demo_env\<lparr>e_net := (\<lambda>_. demo_net ''bb'')\<rparr>) ''bkg-1'' None (Some ''guest-token'') demo_sweep_server
   in paid_step {} demo_billing_db (sv_db sv) \<and> r = Inr demo_intent"
proof -
  let ?e = "demo_env\<lparr>e_net := (\<lambda>_. demo_net ''bb'')\<rparr>"
  let ?t = "get_payment_intent ?e ''bkg-1'' None (Some ''guest-token'') demo_sweep_server"
  have db: "sv_db demo_sweep_server = demo_billing_db" "sv_guards demo_sweep_server = demo_guards"
    by (simp_all add: demo_sweep_server_def)
  have ids: "distinct (map pi_intent_id (payment_intents (sv_db demo_sweep_server)))" by code_simp
  have "nbc_reports ?e {}"
    using demo_nbc_paid [of "''bb''"] by (simp add: nbc_reports_def nbc_paid_def network_check_def demo_env_def)
  from no_unlock_without_payment [THEN conjunct1, rule_format (no_asm), OF ids _ this surjective_pairing]
  have "paid_step {} demo_billing_db (sv_db (snd ?t))" using demo_honest db by metis
  moreover have "fst ?t = Inr demo_intent" by code_simp
  ultimately show ?thesis by (simp add: case_prod_beta')
qed


section \<open>Paid checkouts get settled\<close>

definition subs_have_users :: "db \<Rightarrow> bool" where
  "subs_have_users d \<longleftrightarrow> (\<forall>p \<in> set (payment_intents d). pi_kind p = ''sub'' \<longrightarrow> pi_user_id p \<noteq> None)"

text \<open>A transaction in which no statement can fail.\<close>

definition sound_tx :: "tx \<Rightarrow> bool" where
  "sound_tx t \<longleftrightarrow> tx_mode t = Live \<and> receipts_ok (tx_db t) \<and> subs_have_users (tx_db t)"

lemma subs_have_users_settled:
  "subs_have_users d \<Longrightarrow> payment_intents d' = payment_intents (set_intent_status i st t d) \<Longrightarrow> subs_have_users d'"
  by (auto simp: subs_have_users_def set_intent_status_def in_update_where split: if_splits)

lemma grant_live:
  assumes "tx_mode t = Live" "\<not> exists_row (\<lambda>u. pu_order_id u = pi_order_id p) (purchases (tx_db t))"
    "\<not> exists_row (\<lambda>u. spu_order_id u = pi_order_id p) (series_purchases (tx_db t))"
    "\<not> exists_row (\<lambda>u. spay_order_id u = pi_order_id p) (subscription_payments (tx_db t))"
  shows "grant_movie now fresh p cid bank t = (r, t') \<Longrightarrow> tx_mode t' = Live"
    and "grant_series now fresh p cid bank t = (r, t') \<Longrightarrow> tx_mode t' = Live"
    and "pi_user_id p \<noteq> None \<Longrightarrow> grant_subscription now fresh p bank t = (r, t') \<Longrightarrow> tx_mode t' = Live"
  using assms by (auto simp: grant_movie_def grant_series_def grant_subscription_def record_sub_payment_def Let_def
      split: if_splits sum.splits option.splits)

lemma fulfill_sound:
  assumes t: "sound_tx t" and run: "fulfill_payment_intent now fresh i bank t = (r, t')"
  shows "sound_tx t'"
proof (cases "\<exists>p. find_intent i (tx_db t) = Some p \<and> pi_status p \<noteq> ''succeeded''")
  case False
  then have "t' = t" using run by (auto simp: fulfill_payment_intent_def split: if_splits option.splits)
  then show ?thesis using t by simp
next
  case True
  then obtain p where p: "find_intent i (tx_db t) = Some p" "pi_status p \<noteq> ''succeeded''" by blast
  have ok: "receipts_ok (tx_db t)" and live: "tx_mode t = Live" and u: "subs_have_users (tx_db t)"
    using t by (simp_all add: sound_tx_def)
  have "pi_kind p = ''sub'' \<Longrightarrow> pi_user_id p \<noteq> None" using u find_intent_in [OF p(1)] by (auto simp: subs_have_users_def)
  moreover have "tx_mode t' = Live" if u': "pi_kind p = ''sub'' \<Longrightarrow> pi_user_id p \<noteq> None"
  proof -
    let ?t = "t\<lparr>tx_db := set_intent_status i ''succeeded'' (Some now) (tx_db t)\<rparr>"
    have fresh_rows: "tx_mode ?t = Live" "\<not> exists_row (\<lambda>u. pu_order_id u = pi_order_id p) (purchases (tx_db ?t))"
      "\<not> exists_row (\<lambda>u. spu_order_id u = pi_order_id p) (series_purchases (tx_db ?t))"
      "\<not> exists_row (\<lambda>u. spay_order_id u = pi_order_id p) (subscription_payments (tx_db ?t))"
      using no_rows_yet(2,4,6) [OF ok p] live by simp_all
    note g = grant_live [OF fresh_rows]
    have "\<And>cid. grant_movie now fresh p cid bank ?t = (r, t') \<Longrightarrow> tx_mode t' = Live"
      "\<And>sid. grant_series now fresh p sid bank ?t = (r, t') \<Longrightarrow> tx_mode t' = Live"
      "pi_kind p = ''sub'' \<Longrightarrow> grant_subscription now fresh p bank ?t = (r, t') \<Longrightarrow> tx_mode t' = Live"
      using g(1,2) g(3) [OF u'] by blast+
    then show ?thesis
      using run p live by (auto simp: fulfill_payment_intent_def Let_def split: bool.splits option.splits if_splits)
  qed
  ultimately have "tx_mode t' = Live" by blast
  moreover have "subs_have_users (tx_db t')"
    using subs_have_users_settled [OF u] fulfill_intents [OF p live run] by blast
  ultimately show ?thesis using fulfill_receipts_ok [OF ok run] by (simp add: sound_tx_def)
qed

definition service_ok :: "env \<Rightarrow> bool" where
  "service_ok e \<longleftrightarrow> (uses_remote_service (e_cfg e) \<longrightarrow> is_ok (service_headers (e_cfg e)))"

lemma service_ok_check: "service_ok e \<Longrightarrow> is_ok (network_check (e_cfg e) (e_net e) md5)"
  by (auto simp: service_ok_def network_check_def remote_check_khqr_paid_def is_ok_def split: sum.splits)

lemma nbc_paid_service: "nbc_paid (e_cfg e) (e_net e) md5 \<Longrightarrow> service_ok e"
  by (auto simp: nbc_paid_def service_ok_def network_check_def remote_check_khqr_paid_def is_ok_def split: sum.splits)

lemma probe_is_ok: "service_ok e \<Longrightarrow> is_ok (fst (probe_now e md5 i w))"
  using service_ok_check [of e md5]
  by (auto simp: probe_khqr_status_def send_check_def Let_def is_ok_iff split: option.splits prod.splits bool.splits)

lemma sweep_probe_is_ok:
  assumes "service_ok e"
  shows "is_ok (fst (sweep_probe e p w))"
proof -
  obtain x w1 where 1: "probe_now e (case pi_bakong_md5 p of None \<Rightarrow> [] | Some m \<Rightarrow> m) None w = (Inr x, w1)"
    using probe_is_ok [OF assms] by (metis is_ok_iff prod.collapse)
  obtain y w2 where 2: "probe_now e (the (pi_bakong_prev_md5 p)) None w1 = (Inr y, w2)"
    using probe_is_ok [OF assms] by (metis is_ok_iff prod.collapse)
  show ?thesis by (simp add: sweep_probe_def Let_def 1 2)
qed

lemma settle_sound_tx:
  "sound_tx (b_tx b) \<Longrightarrow> settle_bakong_intent_if_paid e p b = (r, b') \<Longrightarrow> sound_tx (b_tx b')"
  using fulfill_sound
  by (fastforce simp: settle_bakong_intent_if_paid_def split: if_splits sum.splits bool.splits prod.splits)

lemma settle_keeps_settled:
  assumes "sound_tx (b_tx b)" "settle_bakong_intent_if_paid e p b = (r, b')" "settled j (tx_db (b_tx b))"
  shows "settled j (tx_db (b_tx b'))"
proof -
  have "settled j (tx_db t')" if f: "fulfill_payment_intent now fresh i bank (b_tx b) = (s, t')" for now fresh i bank s t'
  proof (cases "\<exists>x. find_intent i (tx_db (b_tx b)) = Some x \<and> pi_status x \<noteq> ''succeeded''")
    case True
    then show ?thesis
      using fulfill_find_intent [OF _ _ _ f, of _ j] assms(1,3) by (auto simp: sound_tx_def settled_def)
  next
    case False
    then have "t' = b_tx b" using f by (auto simp: fulfill_payment_intent_def split: if_splits option.splits)
    then show ?thesis using assms(3) by simp
  qed
  then show ?thesis
    using assms by (auto simp: settle_bakong_intent_if_paid_def split: if_splits sum.splits bool.splits prod.splits)
qed

lemma sweep_loop_sound:
  "service_ok e \<Longrightarrow> sound_tx (b_tx b) \<Longrightarrow> sweep_loop e ps n b = (r, b') \<Longrightarrow>
   is_ok r \<and> sound_tx (b_tx b') \<and> (settled j (tx_db (b_tx b)) \<longrightarrow> settled j (tx_db (b_tx b')))"
proof (induction ps arbitrary: b n)
  case Nil
  then show ?case by auto
next
  case (Cons p ps)
  obtain x w where pr: "sweep_probe e p (b_guards b) = (Inr x, w)"
    using sweep_probe_is_ok [OF Cons.prems(1)] by (metis is_ok_iff prod.collapse)
  obtain s b1 where st: "settle_bakong_intent_if_paid e p (b\<lparr>b_guards := w\<rparr>) = (s, b1)" by fastforce
  have b1: "sound_tx (b_tx b1)" "settled j (tx_db (b_tx b)) \<longrightarrow> settled j (tx_db (b_tx b1))"
    using settle_sound_tx [OF _ st] settle_keeps_settled [OF _ st] Cons.prems(2) by auto
  then have "tx_mode (b_tx b1) \<noteq> FailedFlush" by (simp add: sound_tx_def)
  then show ?case
    using Cons.prems pr st b1 Cons.IH [where b = "b\<lparr>b_guards := w\<rparr>"] Cons.IH [where b = b1]
    by (auto split: if_splits sum.splits sweep_check.splits bool.splits)
qed

lemma probe_paid_now:
  assumes "md5 \<noteq> []" "fst (get_cached_md5_status (c_tick (e_clk e)) md5 (g_cache w)) = None"
    and "\<not> bakong_checks_blocked (c_tick (e_clk e)) (c_unix (e_clk e)) (g_quota w)"
    and "nbc_paid (e_cfg e) (e_net e) md5"
  shows "fst (probe_now e md5 None w) = Inr status_paid"
  using assms
  by (auto simp: probe_khqr_status_def send_check_def nbc_paid_def note_outcome_def Let_def
      split: prod.splits option.splits sum.splits bool.splits)

definition buys_title :: "intent_row \<Rightarrow> bool" where
  "buys_title p \<longleftrightarrow> pi_kind p = ''single'' \<and> pi_content_id p \<noteq> None \<or> pi_kind p = ''series'' \<and> pi_series_id p \<noteq> None"

lemma settle_title:
  assumes t: "sound_tx (b_tx b)" and p: "snapshot p (tx_db (b_tx b))" "pi_status p = ''pending''"
    "pi_method p = ''bakong''" "buys_title p"
    and paid: "bakong_md5s_paid e p (b_guards b) = (Inr True, w)" "nbc_settle_enabled (e_cfg e)"
  shows "\<exists>b'. settle_bakong_intent_if_paid e p b = (Inr True, b') \<and> settled (pi_intent_id p) (tx_db (b_tx b'))"
proof -
  obtain r t' where f: "fulfill_payment_intent (c_utc (e_clk e)) (e_fresh e) (pi_intent_id p) (Some ''bakong'') (b_tx b) = (r, t')"
    by fastforce
  have ok: "receipts_ok (tx_db (b_tx b))" and live: "tx_mode (b_tx b) = Live" and ns: "pi_status p \<noteq> ''succeeded''"
    using t p by (simp_all add: sound_tx_def)
  note find = p(1) [unfolded snapshot_def]
  have "r = Inr ()"
    using p(4) f fulfill_movie [OF ok find ns live] fulfill_series [OF ok find ns live]
    by (auto simp: buys_title_def Let_def)
  moreover have "settled (pi_intent_id p) (tx_db t')"
    using fulfill_find_intent [OF find ns live f, of "pi_intent_id p"] find by (simp add: settled_def)
  ultimately show ?thesis using f p paid by (simp add: settle_bakong_intent_if_paid_def)
qed



text \<open>
  A fulfilment that fails is not undone by the sweeper. When a paid subscription intent finds no
  plan, fulfilling raises after the status was set; the batch goes on in the same transaction, in which
  the intent is succeeded while no subscription was created or extended, no payment recorded and no
  alert queued. If any other intent of the batch settles, the tick commits it so.
\<close>

theorem failed_fulfilment_kept:
  assumes live: "tx_mode (b_tx b) = Live" and ok: "receipts_ok (tx_db (b_tx b))"
    and q: "snapshot q (tx_db (b_tx b))" "pi_status q = ''pending''" "pi_method q = ''bakong''" "pi_kind q = ''sub''"
    and plan: "resolve_plan_for_subscription_intent q (tx_db (b_tx b)) = Inl err"
    and paid: "nbc_settle_enabled (e_cfg e)" "sweep_probe e q (b_guards b) = (Inr Paid, w)"
      "bakong_md5s_paid e q w = (Inr True, w)"
    and unblocked: "\<not> bakong_checks_blocked (c_tick (e_clk e)) (c_unix (e_clk e)) (g_quota (b_guards b))"
  shows "\<exists>b1. sweep_loop e (q # qs) n b = sweep_loop e qs n b1 \<and> tx_mode (b_tx b1) = Live \<and>
    settled (pi_intent_id q) (tx_db (b_tx b1)) \<and> subscriptions (tx_db (b_tx b1)) = subscriptions (tx_db (b_tx b)) \<and>
    subscription_payments (tx_db (b_tx b1)) = subscription_payments (tx_db (b_tx b)) \<and>
    tx_alerts (b_tx b1) = tx_alerts (b_tx b)"
proof -
  let ?t = "(b_tx b)\<lparr>tx_db := set_intent_status (pi_intent_id q) ''succeeded'' (Some (c_utc (e_clk e))) (tx_db (b_tx b))\<rparr>"
  have find: "find_intent (pi_intent_id q) (tx_db (b_tx b)) = Some q" using q(1) by (simp add: snapshot_def)
  have ns: "pi_status q \<noteq> ''succeeded''" using q(2) by simp
  have "fulfill_payment_intent (c_utc (e_clk e)) (e_fresh e) (pi_intent_id q) (Some ''bakong'') (b_tx b) = (Inl err, ?t)"
    using find live q(2,4) plan no_rows_yet(5) [OF ok find ns]
    by (simp add: fulfill_payment_intent_def grant_subscription_def Let_def split: bool.split)
  then have "settle_bakong_intent_if_paid e q (b\<lparr>b_guards := w\<rparr>) = (Inl err, b\<lparr>b_guards := w, b_tx := ?t\<rparr>)"
    using q paid by (simp add: settle_bakong_intent_if_paid_def)
  then have "sweep_loop e (q # qs) n b = sweep_loop e qs n (b\<lparr>b_guards := w, b_tx := ?t\<rparr>)"
    using paid(2) unblocked live by simp
  moreover have "settled (pi_intent_id q) (tx_db ?t)" using find by (simp add: settled_def find_intent_set_status)
  ultimately show ?thesis using live by (intro exI [of _ "b\<lparr>b_guards := w, b_tx := ?t\<rparr>"]) simp
qed

definition half_intent :: intent_row where
  "half_intent = demo_sub_intent\<lparr>pi_bakong_md5 := Some ''aa'', pi_plan_code := None, pi_order_id := ''x''\<rparr>"

definition half_server :: server where
  "half_server = demo_sweep_server\<lparr>sv_db := empty_db\<lparr>contents := [demo_movie],
     payment_intents := [half_intent, demo_intent]\<rparr>\<rparr>"

theorem failed_fulfilment_kept_witness:
  "(\<exists>b1. sweep_loop demo_env [half_intent, demo_intent] 0 (start_request half_server) = sweep_loop demo_env [demo_intent] 0 b1 \<and>
     settled ''bkg-2'' (tx_db (b_tx b1)) \<and> subscriptions (tx_db (b_tx b1)) = []) \<and>
   (let sv = fst (snd (sweep_pending_bakong_intents demo_env [] half_server 0))
    in map_option pi_status (find_intent ''bkg-2'' (sv_db sv)) = Some ''succeeded'' \<and> subscriptions (sv_db sv) = [] \<and>
       subscription_payments (sv_db sv) = [] \<and> map al_intent (sv_delivered sv) = [''bkg-1''])"
proof
  let ?b = "start_request half_server"
  let ?w = "snd (sweep_probe demo_env half_intent (b_guards ?b))"
  have ok: "receipts_ok (tx_db (b_tx ?b))"
    by (simp add: receipts_ok_def half_server_def half_intent_def demo_intent_def demo_sub_intent_def)
  have side: "tx_mode (b_tx ?b) = Live" "snapshot half_intent (tx_db (b_tx ?b))" "pi_status half_intent = ''pending''"
    "pi_method half_intent = ''bakong''" "pi_kind half_intent = ''sub''"
    "resolve_plan_for_subscription_intent half_intent (tx_db (b_tx ?b)) = Inl (NotFoundError ''No active subscription plan configured'')"
    "nbc_settle_enabled (e_cfg demo_env)"
    "\<not> bakong_checks_blocked (c_tick (e_clk demo_env)) (c_unix (e_clk demo_env)) (g_quota (b_guards ?b))"
    "fst (sweep_probe demo_env half_intent (b_guards ?b)) = Inr Paid" "fst (bakong_md5s_paid demo_env half_intent ?w) = Inr True"
    "pi_intent_id half_intent = ''bkg-2''" "subscriptions (tx_db (b_tx ?b)) = []"
    by code_simp+
  have probe: "sweep_probe demo_env half_intent (b_guards ?b) = (Inr Paid, ?w)" using side(9) by (metis prod.collapse)
  have "bakong_md5s_paid demo_env half_intent ?w = (Inr True, ?w)"
    using settle_after_probe [OF probe] side(10) by auto
  from failed_fulfilment_kept [OF side(1) ok side(2-7) probe this side(8), of "[demo_intent]" 0]
  show "\<exists>b1. sweep_loop demo_env [half_intent, demo_intent] 0 ?b = sweep_loop demo_env [demo_intent] 0 b1 \<and>
     settled ''bkg-2'' (tx_db (b_tx b1)) \<and> subscriptions (tx_db (b_tx b1)) = []"
    unfolding side(11,12) by blast
  show "let sv = fst (snd (sweep_pending_bakong_intents demo_env [] half_server 0))
    in map_option pi_status (find_intent ''bkg-2'' (sv_db sv)) = Some ''succeeded'' \<and> subscriptions (sv_db sv) = [] \<and>
       subscription_payments (sv_db sv) = [] \<and> map al_intent (sv_delivered sv) = [''bkg-1'']"
    by code_simp
qed

end
