(* ===== verification/Response_Cache.thy ===== *)
theory Response_Cache
  imports Prelude "HOL-Library.AList" "HOL-Library.Multiset"
begin

text \<open>
  \<open>app/services/response_cache.py\<close> over \<open>app/services/shared_cache.py\<close>: the catalog's two-level cache.
  \<open>L1\<close> is one dict per Uvicorn worker, kept in insertion order; \<open>L2\<close> is Redis, shared by the workers,
  whose \<open>SET key value EX ttl\<close>, \<open>GET\<close> and \<open>DEL\<close> are its documented behaviour. Whether Redis is
  configured and answers is the argument \<open>up\<close> of each call; the JSON round trip of a value is the
  pair \<open>dumps\<close>/\<open>loads\<close>. One clock serves both levels. The sentinel \<open>None\<close> of the code (a miss) is the
  option; no caller stores \<open>None\<close>. Handlers name the keys they drop by \<open>drop\<close> values.
\<close>

section \<open>The in-process dict\<close>

definition catalog_ttl_seconds :: monotonic where "catalog_ttl_seconds = 30"

definition catalog_cache_max_entries :: nat where "catalog_cache_max_entries = 512"

type_synonym 'v l1_cache = "(string \<times> monotonic \<times> 'v) list"

definition cache_get :: "monotonic \<Rightarrow> string \<Rightarrow> 'v l1_cache \<Rightarrow> 'v option \<times> 'v l1_cache" where
  "cache_get now key C =
     (case map_of C key of
        None \<Rightarrow> (None, C)
      | Some (expires_at, v) \<Rightarrow> if expires_at \<le> now then (None, AList.delete key C) else (Some v, C))"

definition evict_catalog_cache :: "monotonic \<Rightarrow> 'v l1_cache \<Rightarrow> 'v l1_cache" where
  "evict_catalog_cache now C =
     (let C1 = filter (\<lambda>(k, expires_at, v). \<not> expires_at \<le> now) C in
      if length C1 < catalog_cache_max_entries then C1
      else (let overflow = length C1 - catalog_cache_max_entries + 1;
                oldest = map fst (take overflow (sort_key (\<lambda>(k, expires_at, v). expires_at) C1))
            in filter (\<lambda>(k, _). k \<notin> set oldest) C1))"

definition cache_set :: "monotonic \<Rightarrow> monotonic \<Rightarrow> string \<Rightarrow> 'v \<Rightarrow> 'v l1_cache \<Rightarrow> 'v l1_cache" where
  "cache_set now ttl key v C =
     (let C1 = (if catalog_cache_max_entries \<le> length C \<and> key \<notin> set (map fst C)
                then evict_catalog_cache now C else C)
      in AList.update key (now + ttl, v) C1)"

section \<open>Redis\<close>

type_synonym redis = "string \<Rightarrow> (monotonic \<times> string) option"

definition redis_key_prefix :: string where "redis_key_prefix = ''catalog:''"

definition cache_get_bytes :: "bool \<Rightarrow> monotonic \<Rightarrow> string \<Rightarrow> redis \<Rightarrow> string option" where
  "cache_get_bytes up now key R =
     (if \<not> up then None
      else (case R key of None \<Rightarrow> None | Some (e, b) \<Rightarrow> if now < e then Some b else None))"

definition cache_set_bytes :: "bool \<Rightarrow> monotonic \<Rightarrow> monotonic \<Rightarrow> string \<Rightarrow> string \<Rightarrow> redis \<Rightarrow> redis" where
  "cache_set_bytes up now ttl key b R =
     (if \<not> up then R else R(key \<mapsto> (now + max 1 (of_int \<lfloor>ttl\<rfloor>), b)))"

definition cache_delete_bytes :: "bool \<Rightarrow> string \<Rightarrow> redis \<Rightarrow> redis" where
  "cache_delete_bytes up key R = (if \<not> up then R else R(key := None))"

text \<open>The callers' patterns are a literal prefix and \<open>*\<close>.\<close>

definition cache_delete_pattern :: "bool \<Rightarrow> string \<Rightarrow> redis \<Rightarrow> redis" where
  "cache_delete_pattern up prefix R =
     (if \<not> up then R else (\<lambda>k. if starts_with prefix k then None else R k))"

section \<open>The two levels\<close>

record 'v catalog_cache =
  l1 :: "nat \<Rightarrow> 'v l1_cache"
  l2 :: redis

definition with_l1 :: "nat \<Rightarrow> 'v l1_cache \<Rightarrow> 'v catalog_cache \<Rightarrow> 'v catalog_cache" where
  "with_l1 w C s = s\<lparr>l1 := (l1 s)(w := C)\<rparr>"

definition cache_get_async ::
    "(string \<Rightarrow> 'v option) \<Rightarrow> bool \<Rightarrow> monotonic \<Rightarrow> nat \<Rightarrow> string \<Rightarrow> 'v catalog_cache \<Rightarrow>
     'v option \<times> 'v catalog_cache" where
  "cache_get_async loads up now w key s =
     (case cache_get now key (l1 s w) of
        (Some v, C) \<Rightarrow> (Some v, with_l1 w C s)
      | (None, C) \<Rightarrow>
        (let s1 = with_l1 w C s in
         case cache_get_bytes up now (redis_key_prefix @ key) (l2 s1) of
           None \<Rightarrow> (None, s1)
         | Some raw \<Rightarrow>
           (case loads raw of
              None \<Rightarrow> (None, s1)
            | Some v \<Rightarrow>
                (Some v, with_l1 w (cache_set now catalog_ttl_seconds key v (l1 s1 w)) s1))))"

definition cache_set_async ::
    "('v \<Rightarrow> string) \<Rightarrow> bool \<Rightarrow> monotonic \<Rightarrow> nat \<Rightarrow> monotonic \<Rightarrow> string \<Rightarrow> 'v \<Rightarrow> 'v catalog_cache \<Rightarrow>
     'v catalog_cache" where
  "cache_set_async dumps up now w ttl key v s =
     (let s1 = with_l1 w (cache_set now ttl key v (l1 s w)) s
      in s1\<lparr>l2 := cache_set_bytes up now ttl (redis_key_prefix @ key) (dumps v) (l2 s1)\<rparr>)"

text \<open>The value \<open>factory\<close> computes is the argument \<open>v\<close>.\<close>

definition cache_get_or_set ::
    "('v \<Rightarrow> string) \<Rightarrow> (string \<Rightarrow> 'v option) \<Rightarrow> bool \<Rightarrow> monotonic \<Rightarrow> nat \<Rightarrow> monotonic \<Rightarrow> string \<Rightarrow> 'v \<Rightarrow>
     'v catalog_cache \<Rightarrow> 'v \<times> 'v catalog_cache" where
  "cache_get_or_set dumps loads up now w ttl key v s =
     (case cache_get_async loads up now w key s of
        (Some x, s1) \<Rightarrow> (x, s1)
      | (None, s1) \<Rightarrow> (v, cache_set_async dumps up now w ttl key v s1))"

definition cache_delete :: "bool \<Rightarrow> nat \<Rightarrow> string \<Rightarrow> 'v catalog_cache \<Rightarrow> 'v catalog_cache" where
  "cache_delete up w key s =
     (with_l1 w (AList.delete key (l1 s w)) s)
       \<lparr>l2 := cache_delete_bytes up (redis_key_prefix @ key) (l2 s)\<rparr>"

definition cache_delete_prefix :: "bool \<Rightarrow> nat \<Rightarrow> string \<Rightarrow> 'v catalog_cache \<Rightarrow> 'v catalog_cache" where
  "cache_delete_prefix up w prefix s =
     (with_l1 w (filter (\<lambda>(k, _). \<not> starts_with prefix k) (l1 s w)) s)
       \<lparr>l2 := cache_delete_pattern up (redis_key_prefix @ prefix) (l2 s)\<rparr>"

text \<open>What a handler drops after its commit, and the effect of the drops on the cache.\<close>

datatype drop = DropKey string | DropPrefix string

fun run_drop :: "bool \<Rightarrow> nat \<Rightarrow> drop \<Rightarrow> 'v catalog_cache \<Rightarrow> 'v catalog_cache" where
  "run_drop up w (DropKey k) s = cache_delete up w k s"
| "run_drop up w (DropPrefix p) s = cache_delete_prefix up w p s"

definition run_drops :: "bool \<Rightarrow> nat \<Rightarrow> drop list \<Rightarrow> 'v catalog_cache \<Rightarrow> 'v catalog_cache" where
  "run_drops up w ds s = fold (run_drop up w) ds s"

fun drops :: "drop \<Rightarrow> string \<Rightarrow> bool" where
  "drops (DropKey k) x = (x = k)"
| "drops (DropPrefix p) x = starts_with p x"

section \<open>Histories\<close>

datatype 'v cache_event =
    Fetch monotonic nat string
  | Store monotonic nat string 'v
  | Discard monotonic nat drop

fun event_time :: "'v cache_event \<Rightarrow> monotonic" where
  "event_time (Fetch t _ _) = t"
| "event_time (Store t _ _ _) = t"
| "event_time (Discard t _ _) = t"

text \<open>Redis answers, or not, at every call: the flags are one list of booleans per history.\<close>

fun run_events ::
    "('v \<Rightarrow> string) \<Rightarrow> (string \<Rightarrow> 'v option) \<Rightarrow> (bool \<times> 'v cache_event) list \<Rightarrow> 'v catalog_cache \<Rightarrow>
     'v catalog_cache" where
  "run_events dumps loads [] s = s"
| "run_events dumps loads ((up, Fetch t w k) # es) s =
     run_events dumps loads es (snd (cache_get_async loads up t w k s))"
| "run_events dumps loads ((up, Store t w k v) # es) s =
     run_events dumps loads es (cache_set_async dumps up t w catalog_ttl_seconds k v s)"
| "run_events dumps loads ((up, Discard t w d) # es) s =
     run_events dumps loads es (run_drop up w d s)"

definition empty_cache :: "'v catalog_cache" where
  "empty_cache = \<lparr>l1 = \<lambda>_. [], l2 = \<lambda>_. None\<rparr>"

section \<open>Capacity\<close>

definition l1_ok :: "'v l1_cache \<Rightarrow> bool" where
  "l1_ok C \<longleftrightarrow> distinct (map fst C) \<and> length C \<le> catalog_cache_max_entries"

lemma l1_ok_filter: "l1_ok C \<Longrightarrow> l1_ok (filter P C)"
  by (auto simp: l1_ok_def distinct_map_filter intro: order_trans [OF length_filter_le])

lemma AList_delete_filter: "AList.delete k C = filter (\<lambda>(k', _). k \<noteq> k') C"
  by (simp add: AList.delete_eq)

lemma l1_ok_delete: "l1_ok C \<Longrightarrow> l1_ok (AList.delete k C)"
  by (simp add: AList_delete_filter l1_ok_filter)

lemma l1_ok_get: "l1_ok C \<Longrightarrow> l1_ok (snd (cache_get now key C))"
  by (auto simp: cache_get_def l1_ok_delete split: option.split)

lemma length_update_keys: "length (AList.update k v C) = (if k \<in> set (map fst C) then length C else Suc (length C))"
  by (induction C) auto

lemma evict_room:
  assumes "distinct (map fst C)"
  shows "length (evict_catalog_cache now C) < catalog_cache_max_entries"
proof -
  define C1 where "C1 = filter (\<lambda>(k, expires_at, v). \<not> expires_at \<le> now) C"
  define sorted_C1 where "sorted_C1 = sort_key (\<lambda>(k, expires_at, v). expires_at) C1"
  define n where "n = length C1 - catalog_cache_max_entries + 1"
  define oldest where "oldest = map fst (take n sorted_C1)"
  show ?thesis
  proof (cases "length C1 < catalog_cache_max_entries")
    case True
    then show ?thesis by (simp add: evict_catalog_cache_def C1_def Let_def)
  next
    case False
    have d1: "distinct (map fst C1)" unfolding C1_def by (rule distinct_map_filter [OF assms])
    have perm: "mset sorted_C1 = mset C1" by (simp add: sorted_C1_def)
    then have d2: "distinct (map fst sorted_C1)"
      using d1 by (metis mset_eq_imp_distinct_iff mset_map)
    have n: "n \<le> length sorted_C1" using False by (simp add: n_def sorted_C1_def catalog_cache_max_entries_def)
    have keep: "filter (\<lambda>(k, _). k \<notin> set oldest) sorted_C1 = List.drop n sorted_C1"
    proof -
      have "filter (\<lambda>(k, _). k \<notin> set oldest) (take n sorted_C1) = []"
        by (auto simp: oldest_def filter_empty_conv image_iff)
      moreover have "filter (\<lambda>(k, _). k \<notin> set oldest) (List.drop n sorted_C1) = List.drop n sorted_C1"
      proof (rule filter_True, rule ballI)
        fix x assume x: "x \<in> set (List.drop n sorted_C1)"
        have "distinct (map fst (take n sorted_C1 @ List.drop n sorted_C1))" using d2 by simp
        then have "set (map fst (take n sorted_C1)) \<inter> set (map fst (List.drop n sorted_C1)) = {}"
          unfolding map_append distinct_append by simp
        moreover have "fst x \<in> set (map fst (List.drop n sorted_C1))" using x by simp
        ultimately have "fst x \<notin> set oldest" unfolding oldest_def by blast
        then show "case x of (k, _) \<Rightarrow> k \<notin> set oldest" by (cases x) simp
      qed
      ultimately show ?thesis
        by (metis append_Nil append_take_drop_id filter_append)
    qed
    have "length (filter (\<lambda>(k, _). k \<notin> set oldest) C1) = length (filter (\<lambda>(k, _). k \<notin> set oldest) sorted_C1)"
      using perm by (metis mset_filter size_mset)
    also have "\<dots> = length C1 - n" unfolding keep by (simp add: sorted_C1_def)
    finally have "length (filter (\<lambda>(k, _). k \<notin> set oldest) C1) < catalog_cache_max_entries"
      using False by (simp add: n_def catalog_cache_max_entries_def)
    then show ?thesis
      using False by (simp add: evict_catalog_cache_def Let_def C1_def n_def oldest_def sorted_C1_def)
  qed
qed

lemma evict_filter: "\<exists>P. evict_catalog_cache now C = filter P C"
  by (auto simp: evict_catalog_cache_def Let_def)

lemma l1_ok_set: "l1_ok C \<Longrightarrow> l1_ok (cache_set now ttl key v C)"
proof -
  assume ok: "l1_ok C"
  obtain P where P: "evict_catalog_cache now C = filter P C" using evict_filter by blast
  show ?thesis
    using ok evict_room [of C now] l1_ok_filter [OF ok, of P] P
    by (auto simp: cache_set_def l1_ok_def Let_def length_update_keys distinct_update)
qed

section \<open>Staleness\<close>

lemma cache_get_mem: "fst (cache_get now key C) = Some v \<Longrightarrow> \<exists>e. (key, e, v) \<in> set C \<and> now < e"
  by (auto simp: cache_get_def not_le dest!: map_of_SomeD split: option.splits if_splits)

lemma cache_get_sub: "set (snd (cache_get now key C)) \<subseteq> set C"
  by (auto simp: cache_get_def AList_delete_filter split: option.split)

lemma update_mem: "x \<in> set (AList.update k v C) \<Longrightarrow> x = (k, v) \<or> x \<in> set C"
  by (induction C) (auto split: if_splits)

lemma cache_set_mem:
  assumes "x \<in> set (cache_set now ttl key v C)"
  shows "x = (key, now + ttl, v) \<or> x \<in> set C"
proof -
  define C1 where "C1 = (if catalog_cache_max_entries \<le> length C \<and> key \<notin> set (map fst C)
                then evict_catalog_cache now C else C)"
  have "set C1 \<subseteq> set C" using evict_filter [of now C] unfolding C1_def by auto
  moreover have "cache_set now ttl key v C = AList.update key (now + ttl, v) C1"
    by (simp add: cache_set_def C1_def Let_def)
  ultimately show ?thesis using assms update_mem by fastforce
qed

definition stored :: "(bool \<times> 'v cache_event) list \<Rightarrow> monotonic \<Rightarrow> string \<Rightarrow> 'v \<Rightarrow> bool" where
  "stored es t k v \<longleftrightarrow> (\<exists>up w. (up, Store t w k v) \<in> set es)"

text \<open>Every entry of either level goes back to a \<open>Store\<close> of the history and expires in time.\<close>

definition traced ::
    "('v \<Rightarrow> string) \<Rightarrow> (string \<Rightarrow> 'v option) \<Rightarrow> (bool \<times> 'v cache_event) list \<Rightarrow> 'v catalog_cache \<Rightarrow> bool" where
  "traced dumps loads es s \<longleftrightarrow>
     (\<forall>w. l1_ok (l1 s w)) \<and>
     (\<forall>w k e x. (k, e, x) \<in> set (l1 s w) \<longrightarrow>
        (\<exists>t v. stored es t k v \<and> e \<le> t + 2 * catalog_ttl_seconds \<and> (x = v \<or> loads (dumps v) = Some x))) \<and>
     (\<forall>k e b. l2 s (redis_key_prefix @ k) = Some (e, b) \<longrightarrow>
        (\<exists>t v. stored es t k v \<and> e \<le> t + catalog_ttl_seconds \<and> b = dumps v))"

lemma stored_mono: "stored es t k v \<Longrightarrow> stored (es @ fs) t k v"
  by (auto simp: stored_def)

lemma traced_mono: "traced dumps loads es s \<Longrightarrow> traced dumps loads (es @ fs) s"
  unfolding traced_def by (meson stored_mono)

lemma l1_with_l1 [simp]: "l1 (with_l1 w C s) w' = (if w' = w then C else l1 s w')" "l2 (with_l1 w C s) = l2 s"
  by (simp_all add: with_l1_def)

lemma traced_with_l1:
  assumes "traced dumps loads es s" "l1_ok C"
    and "\<And>k e x. (k, e, x) \<in> set C \<Longrightarrow>
      \<exists>t v. stored es t k v \<and> e \<le> t + 2 * catalog_ttl_seconds \<and> (x = v \<or> loads (dumps v) = Some x)"
  shows "traced dumps loads es (with_l1 w C s)"
  using assms unfolding traced_def by simp

lemma traced_shrink:
  assumes "traced dumps loads es s" "l1_ok C" "set C \<subseteq> set (l1 s w)"
  shows "traced dumps loads es (with_l1 w C s)"
proof (rule traced_with_l1 [OF assms(1,2)])
  fix k e x assume "(k, e, x) \<in> set C"
  then have "(k, e, x) \<in> set (l1 s w)" using assms(3) by blast
  then show "\<exists>t v. stored es t k v \<and> e \<le> t + 2 * catalog_ttl_seconds \<and> (x = v \<or> loads (dumps v) = Some x)"
    using assms(1) unfolding traced_def by blast
qed

lemma cache_get_async_cases:
  obtains (local) v where "fst (cache_get now key (l1 s w)) = Some v"
      "cache_get_async loads up now w key s = (Some v, with_l1 w (snd (cache_get now key (l1 s w))) s)"
  | (miss) "fst (cache_get now key (l1 s w)) = None"
      "cache_get_async loads up now w key s = (None, with_l1 w (snd (cache_get now key (l1 s w))) s)"
  | (redis) e raw v where "fst (cache_get now key (l1 s w)) = None" "up" "l2 s (redis_key_prefix @ key) = Some (e, raw)"
      "now < e" "loads raw = Some v"
      "cache_get_async loads up now w key s = (Some v,
         with_l1 w (cache_set now catalog_ttl_seconds key v (snd (cache_get now key (l1 s w))))
           (with_l1 w (snd (cache_get now key (l1 s w))) s))"
proof (cases "cache_get now key (l1 s w)")
  case (Pair a C)
  show ?thesis
  proof (cases a)
    case (Some v)
    then show ?thesis using local [of v] Pair by (simp add: cache_get_async_def)
  next
    case None
    show ?thesis
    proof (cases "cache_get_bytes up now (redis_key_prefix @ key) (l2 s)")
      case (Some raw)
      obtain e where e: "up" "l2 s (redis_key_prefix @ key) = Some (e, raw)" "now < e"
        using Some by (auto simp: cache_get_bytes_def split: option.splits if_splits)
      show ?thesis
        using miss redis [OF _ e] \<open>a = None\<close> Pair Some
        by (cases "loads raw") (simp_all add: cache_get_async_def Let_def)
    qed (use miss Pair None in \<open>simp add: cache_get_async_def Let_def\<close>)
  qed
qed

lemma traced_get:
  assumes t: "traced dumps loads es s"
  shows "traced dumps loads es (snd (cache_get_async loads up now w key s))"
    and "fst (cache_get_async loads up now w key s) = Some x \<Longrightarrow>
      \<exists>t v. stored es t key v \<and> now < t + 2 * catalog_ttl_seconds \<and> (x = v \<or> loads (dumps v) = Some x)"
proof -
  let ?C = "snd (cache_get now key (l1 s w))"
  have ok: "l1_ok ?C" using t by (simp add: traced_def l1_ok_get)
  have shrunk: "traced dumps loads es (with_l1 w ?C s)" by (rule traced_shrink [OF t ok cache_get_sub])
  have both: "traced dumps loads es (snd (cache_get_async loads up now w key s)) \<and>
    (\<forall>x. fst (cache_get_async loads up now w key s) = Some x \<longrightarrow>
      (\<exists>t v. stored es t key v \<and> now < t + 2 * catalog_ttl_seconds \<and> (x = v \<or> loads (dumps v) = Some x)))"
  proof (cases rule: cache_get_async_cases [of now key s w loads up])
    case (local v)
    obtain e where "(key, e, v) \<in> set (l1 s w)" "now < e" using cache_get_mem [OF local(1)] by blast
    then obtain t0 v0 where "stored es t0 key v0" "now < t0 + 2 * catalog_ttl_seconds" "v = v0 \<or> loads (dumps v0) = Some v"
      using t unfolding traced_def by (meson order_less_le_trans)
    then show ?thesis using local shrunk by auto
  next
    case miss
    then show ?thesis using shrunk by simp
  next
    case (redis e raw v)
    obtain t0 v0 where s0: "stored es t0 key v0" "e \<le> t0 + catalog_ttl_seconds" "raw = dumps v0"
      using t redis(3) unfolding traced_def by blast
    have late: "now + catalog_ttl_seconds \<le> t0 + 2 * catalog_ttl_seconds" "now < t0 + 2 * catalog_ttl_seconds"
      using redis(4) s0(2) by (simp_all add: catalog_ttl_seconds_def)
    have "traced dumps loads es (with_l1 w (cache_set now catalog_ttl_seconds key v ?C) (with_l1 w ?C s))"
    proof (rule traced_with_l1 [OF shrunk l1_ok_set [OF ok]])
      fix k e x assume "(k, e, x) \<in> set (cache_set now catalog_ttl_seconds key v ?C)"
      then consider "k = key" "e = now + catalog_ttl_seconds" "x = v" | "(k, e, x) \<in> set ?C"
        by (auto dest: cache_set_mem)
      then show "\<exists>t v. stored es t k v \<and> e \<le> t + 2 * catalog_ttl_seconds \<and> (x = v \<or> loads (dumps v) = Some x)"
      proof cases
        case 1
        then show ?thesis using s0 late redis(5) by blast
      next
        case 2
        then show ?thesis using cache_get_sub [of now key "l1 s w"] t unfolding traced_def by blast
      qed
    qed
    then show ?thesis using redis s0 late by auto
  qed
  then show "traced dumps loads es (snd (cache_get_async loads up now w key s))"
    and "fst (cache_get_async loads up now w key s) = Some x \<Longrightarrow>
      \<exists>t v. stored es t key v \<and> now < t + 2 * catalog_ttl_seconds \<and> (x = v \<or> loads (dumps v) = Some x)"
    by blast+
qed

lemma traced_set:
  assumes t: "traced dumps loads es s"
  shows "traced dumps loads (es @ [(up, Store now w key v)])
    (cache_set_async dumps up now w catalog_ttl_seconds key v s)" (is "traced _ _ ?es _")
proof -
  have new: "stored ?es now key v" by (auto simp: stored_def)
  have t': "traced dumps loads ?es s" by (rule traced_mono [OF t])
  have "traced dumps loads ?es (with_l1 w (cache_set now catalog_ttl_seconds key v (l1 s w)) s)"
  proof (rule traced_with_l1 [OF t'])
    show "l1_ok (cache_set now catalog_ttl_seconds key v (l1 s w))"
      using t by (simp add: traced_def l1_ok_set)
    fix k e x assume "(k, e, x) \<in> set (cache_set now catalog_ttl_seconds key v (l1 s w))"
    then consider "k = key" "e = now + catalog_ttl_seconds" "x = v" | "(k, e, x) \<in> set (l1 s w)"
      by (auto dest: cache_set_mem)
    then show "\<exists>t v. stored ?es t k v \<and> e \<le> t + 2 * catalog_ttl_seconds \<and> (x = v \<or> loads (dumps v) = Some x)"
    proof cases
      case 1
      then have "e \<le> now + 2 * catalog_ttl_seconds" by (simp add: catalog_ttl_seconds_def)
      then show ?thesis using 1 new by blast
    next
      case 2
      then show ?thesis using t' unfolding traced_def by blast
    qed
  qed
  moreover have "max 1 (of_int \<lfloor>catalog_ttl_seconds\<rfloor>) = catalog_ttl_seconds"
    by (simp add: catalog_ttl_seconds_def)
  ultimately show ?thesis
    using new unfolding traced_def cache_set_async_def Let_def cache_set_bytes_def
    by (cases up) (auto split: if_splits)
qed

lemma traced_run_drop:
  assumes "traced dumps loads es s"
  shows "traced dumps loads es (run_drop up w d s)"
proof -
  have ok: "l1_ok (l1 s w)" using assms by (simp add: traced_def)
  have less: "traced dumps loads es (s'\<lparr>l2 := R\<rparr>)"
    if "traced dumps loads es s'" "\<And>k p. R k = Some p \<Longrightarrow> l2 s' k = Some p" for s' :: "'a catalog_cache" and R
    using that unfolding traced_def by simp
  show ?thesis
  proof (cases d)
    case (DropKey k)
    show ?thesis unfolding DropKey run_drop.simps cache_delete_def
      by (rule less [OF traced_shrink [OF assms l1_ok_delete [OF ok]]])
        (auto simp: AList_delete_filter cache_delete_bytes_def split: if_splits)
  next
    case (DropPrefix p)
    show ?thesis unfolding DropPrefix run_drop.simps cache_delete_prefix_def
      by (rule less [OF traced_shrink [OF assms l1_ok_filter [OF ok]]])
        (auto simp: cache_delete_pattern_def split: if_splits)
  qed
qed

lemma traced_run:
  "traced dumps loads es s \<Longrightarrow> traced dumps loads (es @ fs) (run_events dumps loads fs s)"
proof (induction dumps loads fs s arbitrary: es rule: run_events.induct)
  case (2 dumps loads up t w k fs s)
  then have "traced dumps loads (es @ [(up, Fetch t w k)]) (snd (cache_get_async loads up t w k s))"
    by (intro traced_mono traced_get(1))
  from 2(1) [OF this] show ?case by simp
next
  case (3 dumps loads up t w k v fs s)
  from 3(1) [OF traced_set [OF 3(2)]] show ?case by simp
next
  case (4 dumps loads up t w d fs s)
  then have "traced dumps loads (es @ [(up, Discard t w d)]) (run_drop up w d s)"
    by (intro traced_mono traced_run_drop)
  from 4(1) [OF this] show ?case by simp
qed simp

lemma traced_empty: "traced dumps loads [] empty_cache"
  by (simp add: traced_def empty_cache_def l1_ok_def)

section \<open>Drops\<close>

definition gone :: "nat \<Rightarrow> string \<Rightarrow> 'v catalog_cache \<Rightarrow> bool" where
  "gone w k s \<longleftrightarrow> map_of (l1 s w) k = None \<and> l2 s (redis_key_prefix @ k) = None"

lemma starts_with_prefix [simp]: "starts_with (p @ a) (p @ b) = starts_with a b"
  by (simp add: starts_with_iff)

lemma gone_run_drop: "drops d k \<Longrightarrow> gone w k (run_drop True w d s)"
  by (cases d) (auto simp: gone_def cache_delete_def cache_delete_prefix_def cache_delete_bytes_def
      cache_delete_pattern_def map_of_eq_None_iff AList_delete_filter)

lemma gone_get: "gone w k s \<Longrightarrow> fst (cache_get_async loads up now w k s) = None"
  by (simp add: gone_def cache_get_async_def cache_get_def cache_get_bytes_def Let_def)

lemma gone_keep_l1:
  assumes "gone w k s" "set (map fst C) \<subseteq> insert k0 (set (map fst (l1 s w0)))" "k0 \<noteq> k \<or> w0 \<noteq> w"
  shows "gone w k (with_l1 w0 C s)"
  using assms by (auto simp: gone_def map_of_eq_None_iff)

lemma keys_set: "set (map fst (cache_set now ttl key v C)) \<subseteq> insert key (set (map fst C))"
  by (auto dest!: cache_set_mem)

lemma keys_get: "set (map fst (snd (cache_get now key C))) \<subseteq> set (map fst C)"
  using cache_get_sub [of now key C] by auto

lemma gone_get_keeps: "gone w k s \<Longrightarrow> gone w k (snd (cache_get_async loads up now w0 k0 s))"
proof -
  assume g: "gone w k s"
  let ?C = "snd (cache_get now k0 (l1 s w0))"
  have g1: "gone w k (with_l1 w0 ?C s)"
    using g keys_get [of now k0 "l1 s w0"] by (auto simp: gone_def map_of_eq_None_iff)
  show ?thesis
  proof (cases rule: cache_get_async_cases [of now k0 s w0 loads up])
    case (redis e raw v)
    have "k0 \<noteq> k" using redis(3) g by (auto simp: gone_def)
    then have "gone w k (with_l1 w0 (cache_set now catalog_ttl_seconds k0 v ?C) (with_l1 w0 ?C s))"
      using keys_set [of now catalog_ttl_seconds k0 v ?C] by (intro gone_keep_l1 [OF g1, of _ k0]) simp_all
    then show ?thesis using redis by simp
  qed (use g1 in simp_all)
qed

lemma gone_run:
  "gone w k s \<Longrightarrow> \<forall>e \<in> set fs. \<forall>t w' v. snd e \<noteq> Store t w' k v \<Longrightarrow> gone w k (run_events dumps loads fs s)"
proof (induction dumps loads fs s rule: run_events.induct)
  case (3 dumps loads up t w0 k0 v fs s)
  have k: "k0 \<noteq> k" using 3(3) by auto
  then have "gone w k (with_l1 w0 (cache_set t catalog_ttl_seconds k0 v (l1 s w0)) s)"
    by (intro gone_keep_l1 [OF 3(2) keys_set]) simp
  then have "gone w k (cache_set_async dumps up t w0 catalog_ttl_seconds k0 v s)"
    using k by (simp add: gone_def cache_set_async_def Let_def cache_set_bytes_def)
  then show ?case using 3(1,3) by simp
next
  case (4 dumps loads up t w0 d fs s)
  have "gone w k (run_drop up w0 d s)"
    using 4(2) by (cases d) (auto simp: gone_def cache_delete_def cache_delete_prefix_def cache_delete_bytes_def
        cache_delete_pattern_def map_of_eq_None_iff AList_delete_filter)
  then show ?case using 4(1,3) by simp
qed (simp_all add: gone_get_keeps)

text \<open>
  C40: The catalog cache is bounded and its staleness is too. Whatever the workers read, write and
  drop, and whenever Redis fails, no worker holds more than 512 entries, and a read returns only a
  value that was written under that key less than twice the TTL ago (a read that refills the
  worker's dict from Redis restarts the 30 seconds, so twice, not once: the second conjunct is a
  58-second-old answer). Once a handler dropped a key with Redis reachable, its own worker never
  answers from the cache again until somebody writes the key.
\<close>

theorem catalog_cache_sound:
  fixes dumps :: "'v \<Rightarrow> string" and v0 :: 'v
  shows "(let s = run_events dumps loads es empty_cache in
      (\<forall>w. length (l1 s w) \<le> 512) \<and>
      (\<forall>up now w k x. fst (cache_get_async loads up now w k s) = Some x \<longrightarrow>
        (\<exists>t up' w' v. (up', Store t w' k v) \<in> set es \<and> now < t + 60 \<and> (x = v \<or> loads (dumps v) = Some x))) \<and>
      (\<forall>up now w k d fs. drops d k \<and> (\<forall>e \<in> set fs. \<forall>t w' v. snd e \<noteq> Store t w' k v) \<longrightarrow>
        fst (cache_get_async loads up now w k (run_events dumps loads fs (run_drop True w d s))) = None)) \<and>
    fst (cache_get_async (\<lambda>_. Some v0) True 58 1 k0 (run_events dumps (\<lambda>_. Some v0)
      [(True, Store 0 0 k0 v0), (True, Fetch 29 1 k0)] empty_cache)) = Some v0"
proof (rule conjI)
  define s where "s = run_events dumps loads es empty_cache"
  have tr: "traced dumps loads es s"
    using traced_run [OF traced_empty, of dumps loads es] by (simp add: s_def)
  have "\<forall>w. length (l1 s w) \<le> 512"
    using tr by (simp add: traced_def l1_ok_def catalog_cache_max_entries_def)
  moreover have "\<exists>t up' w' v. (up', Store t w' k v) \<in> set es \<and> now < t + 60 \<and> (x = v \<or> loads (dumps v) = Some x)"
    if "fst (cache_get_async loads up now w k s) = Some x" for up now w k x
    using traced_get(2) [OF tr that] by (auto simp: stored_def catalog_ttl_seconds_def)
  moreover have "fst (cache_get_async loads up now w k (run_events dumps loads fs (run_drop True w d s))) = None"
    if "drops d k" "\<forall>e \<in> set fs. \<forall>t w' v. snd e \<noteq> Store t w' k v" for up now w k d fs
    by (rule gone_get [OF gone_run [OF gone_run_drop [OF that(1)] that(2)]])
  ultimately show "let s = run_events dumps loads es empty_cache in
      (\<forall>w. length (l1 s w) \<le> 512) \<and>
      (\<forall>up now w k x. fst (cache_get_async loads up now w k s) = Some x \<longrightarrow>
        (\<exists>t up' w' v. (up', Store t w' k v) \<in> set es \<and> now < t + 60 \<and> (x = v \<or> loads (dumps v) = Some x))) \<and>
      (\<forall>up now w k d fs. drops d k \<and> (\<forall>e \<in> set fs. \<forall>t w' v. snd e \<noteq> Store t w' k v) \<longrightarrow>
        fst (cache_get_async loads up now w k (run_events dumps loads fs (run_drop True w d s))) = None)"
    unfolding Let_def s_def by blast
  show "fst (cache_get_async (\<lambda>_. Some v0) True 58 1 k0 (run_events dumps (\<lambda>_. Some v0)
      [(True, Store 0 0 k0 v0), (True, Fetch 29 1 k0)] empty_cache)) = Some v0"
    by (simp add: cache_get_async_def cache_set_async_def cache_get_def cache_set_def cache_get_bytes_def
        cache_set_bytes_def empty_cache_def Let_def catalog_ttl_seconds_def catalog_cache_max_entries_def)
qed

theorem catalog_cache_sound_witness:
  "fst (cache_get_async Some True 1 0 ''movies:p1'' (run_events id Some []
     (run_drop True 0 (DropPrefix ''movies:'')
       (run_events id Some [(True, Store 0 0 ''movies:p1'' ''page'')] empty_cache)))) = None"
proof -
  have "drops (DropPrefix ''movies:'') ''movies:p1'' \<and>
      (\<forall>e \<in> set []. \<forall>t w' v. snd e \<noteq> Store t w' ''movies:p1'' (v :: string))" by simp
  then show ?thesis
    using catalog_cache_sound [where dumps = id and loads = Some and
        es = "[(True, Store 0 0 ''movies:p1'' ''page'')]", THEN conjunct1, unfolded Let_def,
        THEN conjunct2, THEN conjunct2] by blast
qed

end
