(* ===== verification/Publishing.thy ===== *)
theory Publishing
  imports Access Response_Cache
begin

text \<open>
  \<open>app/core/content_status.py\<close>, \<open>app/services/content_publish.py\<close>, \<open>series_publish.py\<close>,
  \<open>runtime.py\<close> and \<open>publish_sweeper.py\<close>: when a movie, series or podcast may go live, how its
  status, its visibility and its schedule are kept together, and the background task that publishes
  what is due. Times are UTC-aware, so \<open>publish_at.replace(tzinfo=UTC)\<close> is the identity. A raised
  error discards the request's changes, so only the error is returned.
\<close>

section \<open>Status\<close>

definition valid_content_statuses :: "string list" where
  "valid_content_statuses = [''draft'', ''review'', ''scheduled'', ''published'']"

definition validate_content_status :: "string option \<Rightarrow> unit result" where
  "validate_content_status status =
     (if status \<in> Some ` set valid_content_statuses then Inr ()
      else Inl (ValueError ''status must be one of [draft, published, review, scheduled]''))"

text \<open>\<open>except ValueError as exc: raise HTTPException(422, str(exc))\<close>.\<close>

fun as_422 :: "'a result \<Rightarrow> 'a result" where
  "as_422 (Inl (ValueError m)) = Inl (HTTPException 422 m)"
| "as_422 r = r"

section \<open>Movies and podcasts\<close>

definition ensure_movie_publishable :: "db \<Rightarrow> content_row \<Rightarrow> unit result" where
  "ensure_movie_publishable d movie =
     (if ct_type movie \<noteq> ''single'' then Inr ()
      else if \<not> truthy (ct_poster_key movie)
      then Inl (HTTPException 422 ''A poster is required before publishing.'')
      else if truthy (ct_hls_master_key movie) then Inr ()
      else if ct_transcode_status movie \<in> {''processing'', ''ready''} then Inr ()
      else if exists_row (\<lambda>j. job_content_id j = ct_id movie) (transcode_jobs d) then Inr ()
      else Inl (HTTPException 422 ''A movie video is required before publishing.''))"

definition movie_is_publishable :: "db \<Rightarrow> content_row \<Rightarrow> bool" where
  "movie_is_publishable d movie = is_ok (ensure_movie_publishable d movie)"

text \<open>\<open>publish_at\<close> is the argument when \<open>publish_at_set\<close>, as an option of the nullable value.\<close>

definition apply_movie_publish_state ::
    "string option \<Rightarrow> datetime option option \<Rightarrow> content_row \<Rightarrow> content_row result" where
  "apply_movie_publish_state status publish_at movie =
     (if ct_type movie \<noteq> ''single'' then Inr movie
      else
       (case (case status of None \<Rightarrow> Inr () | Some s \<Rightarrow> as_422 (validate_content_status status)) of
          Inl e \<Rightarrow> Inl e
        | Inr _ \<Rightarrow>
          (let m1 = (case status of None \<Rightarrow> movie | Some s \<Rightarrow> movie\<lparr>ct_status := s\<rparr>);
               m2 = (case publish_at of None \<Rightarrow> m1 | Some p \<Rightarrow> m1\<lparr>ct_publish_at := p\<rparr>)
           in if ct_status m2 = ''published'' then Inr (m2\<lparr>ct_is_published := True, ct_publish_at := None\<rparr>)
              else if ct_status m2 = ''scheduled'' then
                (if ct_publish_at m2 = None
                 then Inl (HTTPException 422 ''publish_at is required when status is scheduled.'')
                 else Inr (m2\<lparr>ct_is_published := False\<rparr>))
              else Inr (m2\<lparr>ct_is_published := False, ct_publish_at := None\<rparr>))))"

definition promote_scheduled_movie_to_published :: "content_row \<Rightarrow> content_row" where
  "promote_scheduled_movie_to_published movie =
     movie\<lparr>ct_status := ''published'', ct_is_published := True, ct_publish_at := None\<rparr>"

definition ensure_podcast_publishable :: "content_row \<Rightarrow> unit result" where
  "ensure_podcast_publishable podcast =
     (if ct_type podcast \<noteq> ''podcast'' then Inr ()
      else if \<not> truthy (ct_poster_key podcast)
      then Inl (HTTPException 422 ''A cover image is required before publishing.'')
      else if \<not> truthy (ct_audio_key podcast)
      then Inl (HTTPException 422 ''An audio file is required before publishing.'')
      else Inr ())"

section \<open>Series\<close>

definition ensure_series_publishable :: "series_row \<Rightarrow> unit result" where
  "ensure_series_publishable series =
     (if \<not> truthy (ser_poster_key series)
      then Inl (HTTPException 422 ''A poster is required before publishing.'') else Inr ())"

definition series_is_publishable :: "series_row \<Rightarrow> bool" where
  "series_is_publishable series = is_ok (ensure_series_publishable series)"

definition apply_series_publish_state ::
    "string option \<Rightarrow> datetime option option \<Rightarrow> series_row \<Rightarrow> series_row result" where
  "apply_series_publish_state status publish_at series =
     (case (case status of None \<Rightarrow> Inr () | Some s \<Rightarrow> as_422 (validate_content_status status)) of
        Inl e \<Rightarrow> Inl e
      | Inr _ \<Rightarrow>
        (let s1 = (case status of None \<Rightarrow> series | Some s \<Rightarrow> series\<lparr>ser_status := s\<rparr>);
             s2 = (case publish_at of None \<Rightarrow> s1 | Some p \<Rightarrow> s1\<lparr>ser_publish_at := p\<rparr>)
         in if ser_status s2 = ''published'' then Inr (s2\<lparr>ser_is_published := True, ser_publish_at := None\<rparr>)
            else if ser_status s2 = ''scheduled'' then
              (if ser_publish_at s2 = None
               then Inl (HTTPException 422 ''publish_at is required when status is scheduled.'')
               else Inr (s2\<lparr>ser_is_published := False\<rparr>))
            else Inr (s2\<lparr>ser_is_published := False, ser_publish_at := None\<rparr>)))"

definition promote_scheduled_series_to_published :: "series_row \<Rightarrow> series_row" where
  "promote_scheduled_series_to_published series =
     series\<lparr>ser_status := ''published'', ser_is_published := True, ser_publish_at := None\<rparr>"

definition apply_legacy_is_published :: "bool \<Rightarrow> series_row \<Rightarrow> series_row result" where
  "apply_legacy_is_published is_published series =
     (if is_published then apply_series_publish_state (Some ''published'') None series
      else apply_series_publish_state (Some ''draft'') None series)"

section \<open>Runtime\<close>

definition format_runtime_display :: "int \<Rightarrow> string" where
  "format_runtime_display mins =
     (let hours = mins div 60; rem = mins mod 60 in
      if hours \<noteq> 0 \<and> rem \<noteq> 0 then string_of_int hours @ ''h '' @ string_of_int rem @ ''m''
      else if hours \<noteq> 0 then string_of_int hours @ ''h''
      else string_of_int rem @ ''m'')"

definition apply_runtime_minutes :: "int option \<Rightarrow> content_row \<Rightarrow> content_row result" where
  "apply_runtime_minutes mins content =
     (case mins of
        None \<Rightarrow> Inr content
      | Some n \<Rightarrow>
          if n \<le> 0 then Inl (HTTPException 422 ''Runtime must be a positive number of minutes'')
          else Inr (content\<lparr>ct_duration_seconds := Some (n * 60),
                      ct_runtime := Some (format_runtime_display n)\<rparr>))"

section \<open>The publish sweeper\<close>

definition due_at :: "datetime \<Rightarrow> datetime option \<Rightarrow> bool" where
  "due_at now p = (case p of None \<Rightarrow> False | Some t \<Rightarrow> t \<le> now)"

definition schedule_key :: "datetime option \<Rightarrow> int" where
  "schedule_key p = (case p of None \<Rightarrow> 0 | Some t \<Rightarrow> t)"

definition due_movie :: "datetime \<Rightarrow> content_row \<Rightarrow> bool" where
  "due_movie now c \<longleftrightarrow> ct_type c = ''single'' \<and> \<not> ct_is_published c \<and> due_at now (ct_publish_at c)"

definition due_series :: "datetime \<Rightarrow> series_row \<Rightarrow> bool" where
  "due_series now s \<longleftrightarrow> \<not> ser_is_published s \<and> due_at now (ser_publish_at s)"

text \<open>
  One batch of either sweep: at most \<open>limit\<close> due rows, the earliest schedule first, rows another
  transaction has locked skipped (\<open>FOR UPDATE SKIP LOCKED\<close>); of these, the ready ones.
\<close>

definition pick_due ::
    "nat \<Rightarrow> ('r \<Rightarrow> bool) \<Rightarrow> ('r \<Rightarrow> bool) \<Rightarrow> ('r \<Rightarrow> int) \<Rightarrow> ('r \<Rightarrow> bool) \<Rightarrow> 'r list \<Rightarrow> 'r list" where
  "pick_due limit locked due key ready rows =
     filter ready (take limit (order_by key (filter (\<lambda>r. due r \<and> \<not> locked r) rows)))"

definition sweep_due_scheduled_movies ::
    "(content_row \<Rightarrow> bool) \<Rightarrow> nat \<Rightarrow> datetime \<Rightarrow> db \<Rightarrow> nat \<times> db \<times> drop list" where
  "sweep_due_scheduled_movies locked limit now d =
     (let movies = pick_due limit locked (due_movie now) (\<lambda>c. schedule_key (ct_publish_at c))
                     (movie_is_publishable d) (contents d)
      in if movies = [] then (0, d, [])
         else (length movies,
               d\<lparr>contents := update_where (\<lambda>c. ct_id c \<in> set (map ct_id movies))
                    promote_scheduled_movie_to_published (contents d)\<rparr>,
               [DropPrefix ''movies:'', DropKey ''home-sections'']))"

definition sweep_due_scheduled_series ::
    "(series_row \<Rightarrow> bool) \<Rightarrow> nat \<Rightarrow> datetime \<Rightarrow> db \<Rightarrow> nat \<times> db \<times> drop list" where
  "sweep_due_scheduled_series locked limit now d =
     (let rows = pick_due limit locked (due_series now) (\<lambda>s. schedule_key (ser_publish_at s))
                   series_is_publishable (series_table d)
      in if rows = [] then (0, d, [])
         else (length rows,
               d\<lparr>series_table := update_where (\<lambda>s. ser_id s \<in> set (map ser_id rows))
                    promote_scheduled_series_to_published (series_table d)\<rparr>,
               [DropPrefix ''series:'', DropKey ''home-sections'']))"

text \<open>One tick of \<open>_sweeper_loop\<close>, and the interval between two of them.\<close>

definition publish_sweep_limit :: nat where "publish_sweep_limit = 25"

definition publish_tick ::
    "(content_row \<Rightarrow> bool) \<Rightarrow> (series_row \<Rightarrow> bool) \<Rightarrow> datetime \<Rightarrow> db \<Rightarrow> db \<times> drop list" where
  "publish_tick locked_movie locked_series now d =
     (case sweep_due_scheduled_movies locked_movie publish_sweep_limit now d of
        (_, d1, drops1) \<Rightarrow>
          (case sweep_due_scheduled_series locked_series publish_sweep_limit now d1 of
             (_, d2, drops2) \<Rightarrow> (d2, drops1 @ drops2)))"

definition publish_interval :: "int \<Rightarrow> int" where
  "publish_interval configured = max 15 (min 300 configured)"

section \<open>A row's publication state\<close>

text \<open>Live exactly when published, scheduled exactly when it has a time, and fit to be shown when live.\<close>

definition movie_state_ok :: "db \<Rightarrow> content_row \<Rightarrow> bool" where
  "movie_state_ok d c \<longleftrightarrow> (ct_type c = ''single'' \<longrightarrow>
     ct_status c \<in> set valid_content_statuses \<and>
     (ct_is_published c \<longleftrightarrow> ct_status c = ''published'') \<and>
     (ct_publish_at c \<noteq> None \<longleftrightarrow> ct_status c = ''scheduled'') \<and>
     (ct_is_published c \<longrightarrow> movie_is_publishable d c))"

definition podcast_state_ok :: "content_row \<Rightarrow> bool" where
  "podcast_state_ok c \<longleftrightarrow> (ct_type c = ''podcast'' \<longrightarrow>
     ct_status c \<in> set valid_content_statuses \<and> (ct_is_published c \<longleftrightarrow> ct_status c = ''published'') \<and>
     (ct_is_published c \<longrightarrow> is_ok (ensure_podcast_publishable c)))"

definition series_state_ok :: "series_row \<Rightarrow> bool" where
  "series_state_ok s \<longleftrightarrow>
     ser_status s \<in> set valid_content_statuses \<and>
     (ser_is_published s \<longleftrightarrow> ser_status s = ''published'') \<and>
     (ser_publish_at s \<noteq> None \<longleftrightarrow> ser_status s = ''scheduled'') \<and>
     (ser_is_published s \<longrightarrow> series_is_publishable s)"

lemma validate_ok [simp, ok_iff]:
  "as_422 (validate_content_status s) = Inr u \<longleftrightarrow> s \<in> Some ` set valid_content_statuses"
  by (simp add: validate_content_status_def)

lemma validate_ok' [simp, ok_iff]:
  "validate_content_status s = Inr u \<longleftrightarrow> s \<in> Some ` set valid_content_statuses"
  by (simp add: validate_content_status_def)

lemma movie_is_publishable_iff:
  "movie_is_publishable d c \<longleftrightarrow> ct_type c = ''single'' \<longrightarrow> truthy (ct_poster_key c) \<and>
     (truthy (ct_hls_master_key c) \<or> ct_transcode_status c \<in> {''processing'', ''ready''} \<or>
      exists_row (\<lambda>j. job_content_id j = ct_id c) (transcode_jobs d))"
  by (simp add: movie_is_publishable_def ensure_movie_publishable_def)

text \<open>\<open>apply_*_publish_state\<close> puts any row into a consistent state; only readiness is left to check.\<close>

lemma apply_movie_ok:
  assumes "apply_movie_publish_state status p m = Inr m'" "ct_type m = ''single''"
    and "status \<noteq> None \<or> ct_status m \<in> set valid_content_statuses"
  shows "ct_status m' \<in> set valid_content_statuses"
    "ct_is_published m' \<longleftrightarrow> ct_status m' = ''published''"
    "ct_publish_at m' \<noteq> None \<longleftrightarrow> ct_status m' = ''scheduled''"
    "ct_type m' = ''single''" "ct_id m' = ct_id m" "ct_slug m' = ct_slug m"
    "ct_poster_key m' = ct_poster_key m" "ct_hls_master_key m' = ct_hls_master_key m"
    "ct_transcode_status m' = ct_transcode_status m" "ct_series_id m' = ct_series_id m"
  using assms
  by (auto simp: apply_movie_publish_state_def Let_def split: option.splits sum.splits if_splits)

lemma apply_series_ok:
  assumes "apply_series_publish_state status p s = Inr s'"
    and "status \<noteq> None \<or> ser_status s \<in> set valid_content_statuses"
  shows "ser_status s' \<in> set valid_content_statuses"
    "ser_is_published s' \<longleftrightarrow> ser_status s' = ''published''"
    "ser_publish_at s' \<noteq> None \<longleftrightarrow> ser_status s' = ''scheduled''"
    "ser_id s' = ser_id s" "ser_slug s' = ser_slug s" "ser_poster_key s' = ser_poster_key s"
  using assms
  by (auto simp: apply_series_publish_state_def Let_def split: option.splits sum.splits if_splits)

lemma promoted_movie_ok:
  "movie_is_publishable d c \<Longrightarrow> movie_state_ok d (promote_scheduled_movie_to_published c)"
  by (auto simp: movie_state_ok_def promote_scheduled_movie_to_published_def movie_is_publishable_iff
      valid_content_statuses_def)

lemma promoted_series_ok:
  "series_is_publishable s \<Longrightarrow> series_state_ok (promote_scheduled_series_to_published s)"
  by (simp add: series_state_ok_def promote_scheduled_series_to_published_def
      valid_content_statuses_def series_is_publishable_def ensure_series_publishable_def)

section \<open>Sweeping a table\<close>

text \<open>What both sweeps share: promotion ends a row's being due and leaves its key alone.\<close>

locale promotion =
  fixes rid :: "'r \<Rightarrow> nat"
    and due :: "'r \<Rightarrow> bool"
    and key :: "'r \<Rightarrow> int"
    and ready :: "'r \<Rightarrow> bool"
    and promote :: "'r \<Rightarrow> 'r"
  assumes promote_not_due: "\<not> due (promote r)"
    and promote_rid: "rid (promote r) = rid r"
    and promote_promote: "promote (promote r) = promote r"
begin

definition picked :: "nat \<Rightarrow> 'r list \<Rightarrow> 'r list" where
  "picked limit rows = pick_due limit (\<lambda>_. False) due key ready rows"

definition sweep :: "nat \<Rightarrow> 'r list \<Rightarrow> 'r list" where
  "sweep limit rows = update_where (\<lambda>r. rid r \<in> set (map rid (picked limit rows))) promote rows"

lemma in_pick_due: "r \<in> set (pick_due limit locked due key ready rows) \<Longrightarrow> r \<in> set rows \<and> due r \<and> ready r"
  by (auto simp: pick_due_def dest!: in_set_takeD)

lemma sweep_rows: "\<exists>g. sweep limit rows = map g rows \<and> (\<forall>r. g r = r \<or> g r = promote r)"
  unfolding sweep_def update_where_def by (rule exI, rule conjI, rule refl) simp

lemma sweeps_rows: "\<exists>g. (sweep limit ^^ n) rows = map g rows \<and> (\<forall>r. g r = r \<or> g r = promote r)"
proof (induction n)
  case 0
  show ?case by (intro exI [of _ id]) simp
next
  case (Suc n)
  then obtain g where g: "(sweep limit ^^ n) rows = map g rows" "\<forall>r. g r = r \<or> g r = promote r" by blast
  obtain h where h: "sweep limit (map g rows) = map h (map g rows)" "\<forall>r. h r = r \<or> h r = promote r"
    using sweep_rows by blast
  have "\<forall>r. (h \<circ> g) r = r \<or> (h \<circ> g) r = promote r"
    using g(2) h(2) promote_promote by (metis comp_apply)
  then show ?case using g(1) h(1) by (intro exI [of _ "h \<circ> g"]) simp
qed

text \<open>The rows that hold a batch up: due, but not ready.\<close>

definition waiting :: "'r list \<Rightarrow> nat" where "waiting rows = count_rows (\<lambda>r. due r \<and> ready r) rows"

definition blocked :: "'r list \<Rightarrow> nat" where "blocked rows = count_rows (\<lambda>r. due r \<and> \<not> ready r) rows"

lemma picked_nonempty:
  assumes "blocked rows < limit" "waiting rows \<noteq> 0"
  shows "picked limit rows \<noteq> []"
proof
  assume none: "picked limit rows = []"
  define batch where "batch = take limit (order_by key (filter due rows))"
  have unready: "\<forall>r \<in> set batch. \<not> ready r"
    using none by (simp add: picked_def pick_due_def batch_def filter_empty_conv)
  have "mset (order_by key (filter due rows)) = mset (filter due rows)" by (simp add: order_by_def)
  then have split: "length (filter ready (order_by key (filter due rows))) = waiting rows"
    "length (filter (\<lambda>r. \<not> ready r) (order_by key (filter due rows))) = blocked rows"
    unfolding waiting_def blocked_def count_rows_def
    by (metis filter_filter mset_filter size_mset)+
  have "length batch = length (filter (\<lambda>r. \<not> ready r) batch)" using unready by simp
  also have "\<dots> \<le> length (filter (\<lambda>r. \<not> ready r) (order_by key (filter due rows)))"
    unfolding batch_def by (metis append_take_drop_id filter_append le_add1 length_append)
  finally have "length batch \<le> blocked rows" by (simp only: split)
  then have "batch = order_by key (filter due rows)"
    using assms(1) unfolding batch_def by simp
  then have "filter ready (order_by key (filter due rows)) = []" using unready by (simp add: filter_empty_conv)
  then show False using split(1) assms(2) by simp
qed

lemma count_map_le:
  assumes "\<And>r. r \<in> set rows \<Longrightarrow> g r = r \<or> \<not> P (g r)"
  shows "count_rows P (map g rows) \<le> count_rows P rows"
  using assms by (induction rows) (fastforce simp: count_rows_def)+

lemma count_map_less:
  assumes "\<And>r. r \<in> set rows \<Longrightarrow> g r = r \<or> \<not> P (g r)" "x \<in> set rows" "P x" "\<not> P (g x)"
  shows "count_rows P (map g rows) < count_rows P rows"
  using assms(1,2)
proof (induction rows)
  case (Cons a rows)
  have le: "count_rows P (map g rows) \<le> count_rows P rows" by (rule count_map_le) (use Cons.prems(1) in auto)
  show ?case
  proof (cases "x = a")
    case True
    then show ?thesis using le assms(3,4) by simp
  next
    case False
    then have "count_rows P (map g rows) < count_rows P rows" using Cons by auto
    then show ?thesis using Cons.prems(1) [of a] by auto
  qed
qed simp

lemma sweep_map: "sweep limit rows = map (\<lambda>r. if rid r \<in> set (map rid (picked limit rows)) then promote r else r) rows"
  by (simp add: sweep_def update_where_def)

lemma blocked_sweep: "blocked (sweep limit rows) \<le> blocked rows"
  unfolding blocked_def sweep_map by (rule count_map_le) (auto simp: promote_not_due)

lemma waiting_sweep:
  assumes "blocked rows < limit" "waiting rows \<noteq> 0"
  shows "waiting (sweep limit rows) < waiting rows"
proof -
  obtain x where x: "x \<in> set (picked limit rows)" using picked_nonempty [OF assms] by fastforce
  then have "x \<in> set rows" "due x" "ready x" using in_pick_due by (auto simp: picked_def)
  then show ?thesis
    unfolding waiting_def sweep_map using x
    by (intro count_map_less [where x = x]) (auto simp: promote_not_due)
qed

lemma waiting_sweeps:
  "blocked rows < limit \<Longrightarrow> waiting rows \<le> n \<Longrightarrow> waiting ((sweep limit ^^ n) rows) = 0"
proof (induction n arbitrary: rows)
  case (Suc n)
  have b: "blocked (sweep limit rows) < limit" using blocked_sweep Suc.prems(1) le_less_trans by blast
  have "waiting (sweep limit rows) \<le> n"
  proof (cases "waiting rows = 0")
    case True
    have "waiting (sweep limit rows) \<le> waiting rows"
      unfolding waiting_def sweep_map by (rule count_map_le) (auto simp: promote_not_due)
    then show ?thesis using True by simp
  next
    case False
    then show ?thesis using waiting_sweep [OF Suc.prems(1)] Suc.prems(2) by fastforce
  qed
  from Suc.IH [OF b this] show ?case by (simp add: funpow_swap1)
qed simp

text \<open>With fewer blocked rows than the batch holds, every due and ready row is promoted in the end.\<close>

lemma all_promoted:
  assumes "blocked rows < limit" "waiting rows \<le> n" "r \<in> set rows" "due r" "ready r"
  shows "promote r \<in> set ((sweep limit ^^ n) rows)"
proof -
  obtain g where g: "(sweep limit ^^ n) rows = map g rows" "\<forall>r. g r = r \<or> g r = promote r"
    using sweeps_rows by blast
  have "waiting (map g rows) = 0" using waiting_sweeps [OF assms(1,2)] g(1) by simp
  then have "g r \<noteq> r"
    using assms(3-5) by (auto simp: waiting_def count_rows_zero exists_row_iff)
  then show ?thesis using g assms(3) by force
qed

lemma stuck:
  "pick_due limit (\<lambda>_. False) due key ready rows = [] \<Longrightarrow> (sweep limit ^^ n) rows = rows"
proof (induction n)
  case (Suc n)
  then show ?case by (simp add: sweep_def picked_def update_where_def)
qed simp

end

interpretation movie_sweep: promotion ct_id "due_movie now" "\<lambda>c. schedule_key (ct_publish_at c)"
    "movie_is_publishable d" promote_scheduled_movie_to_published for now d
  by unfold_locales (simp_all add: due_movie_def promote_scheduled_movie_to_published_def)

interpretation series_sweep: promotion ser_id "due_series now" "\<lambda>s. schedule_key (ser_publish_at s)"
    series_is_publishable promote_scheduled_series_to_published for now
  by unfold_locales (simp_all add: due_series_def promote_scheduled_series_to_published_def)

definition publish_ticks :: "datetime \<Rightarrow> nat \<Rightarrow> db \<Rightarrow> db" where
  "publish_ticks now n d = ((\<lambda>x. fst (publish_tick (\<lambda>_. False) (\<lambda>_. False) now x)) ^^ n) d"

lemma update_where_none [simp]: "update_where (\<lambda>r. False) f rows = rows"
  by (simp add: update_where_def)

lemma sweep_movies_db:
  "fst (snd (sweep_due_scheduled_movies locked limit now d)) =
     d\<lparr>contents := update_where (\<lambda>c. ct_id c \<in> set (map ct_id (pick_due limit locked (due_movie now)
         (\<lambda>c. schedule_key (ct_publish_at c)) (movie_is_publishable d) (contents d))))
       promote_scheduled_movie_to_published (contents d)\<rparr>"
  by (simp add: sweep_due_scheduled_movies_def Let_def)

lemma sweep_series_db:
  "fst (snd (sweep_due_scheduled_series locked limit now d)) =
     d\<lparr>series_table := update_where (\<lambda>s. ser_id s \<in> set (map ser_id (pick_due limit locked (due_series now)
         (\<lambda>s. schedule_key (ser_publish_at s)) series_is_publishable (series_table d))))
       promote_scheduled_series_to_published (series_table d)\<rparr>"
  by (simp add: sweep_due_scheduled_series_def Let_def)

lemma tick_db:
  "fst (publish_tick lm ls now d) = d\<lparr>
     contents := update_where (\<lambda>c. ct_id c \<in> set (map ct_id (pick_due publish_sweep_limit lm (due_movie now)
         (\<lambda>c. schedule_key (ct_publish_at c)) (movie_is_publishable d) (contents d))))
       promote_scheduled_movie_to_published (contents d),
     series_table := update_where (\<lambda>s. ser_id s \<in> set (map ser_id (pick_due publish_sweep_limit ls (due_series now)
         (\<lambda>s. schedule_key (ser_publish_at s)) series_is_publishable (series_table d))))
       promote_scheduled_series_to_published (series_table d)\<rparr>"
proof -
  have "fst (publish_tick lm ls now d) = fst (snd (sweep_due_scheduled_series ls publish_sweep_limit now
      (fst (snd (sweep_due_scheduled_movies lm publish_sweep_limit now d)))))"
    by (simp add: publish_tick_def case_prod_beta)
  then show ?thesis unfolding sweep_movies_db sweep_series_db by simp
qed

lemma movie_ready_jobs: "transcode_jobs d = transcode_jobs d' \<Longrightarrow> movie_is_publishable d = movie_is_publishable d'"
  by (simp add: fun_eq_iff movie_is_publishable_iff)

lemma tick_tables:
  "contents (fst (publish_tick (\<lambda>_. False) (\<lambda>_. False) now d)) =
     movie_sweep.sweep now d publish_sweep_limit (contents d)"
  "series_table (fst (publish_tick (\<lambda>_. False) (\<lambda>_. False) now d)) =
     series_sweep.sweep now publish_sweep_limit (series_table d)"
  "transcode_jobs (fst (publish_tick (\<lambda>_. False) (\<lambda>_. False) now d)) = transcode_jobs d"
  unfolding tick_db movie_sweep.sweep_def movie_sweep.picked_def series_sweep.sweep_def
    series_sweep.picked_def by simp_all

lemma movie_sweep_jobs: "transcode_jobs d = transcode_jobs d' \<Longrightarrow> movie_sweep.sweep now d = movie_sweep.sweep now d'"
  by (drule movie_ready_jobs) (rule ext, simp only: movie_sweep.sweep_def movie_sweep.picked_def)

lemma publish_ticks_tables:
  "contents (publish_ticks now n d) = (movie_sweep.sweep now d publish_sweep_limit ^^ n) (contents d) \<and>
   series_table (publish_ticks now n d) = (series_sweep.sweep now publish_sweep_limit ^^ n) (series_table d) \<and>
   transcode_jobs (publish_ticks now n d) = transcode_jobs d"
proof (induction n)
  case (Suc n)
  have step: "publish_ticks now (Suc n) d =
      fst (publish_tick (\<lambda>_. False) (\<lambda>_. False) now (publish_ticks now n d))"
    by (simp add: publish_ticks_def)
  have "movie_sweep.sweep now (publish_ticks now n d) = movie_sweep.sweep now d"
    using Suc by (intro movie_sweep_jobs) simp
  then show ?case using Suc unfolding step tick_tables by simp
qed (simp add: publish_ticks_def)

lemma picked_row:
  assumes "r \<in> set rows" "distinct (map rid rows)" "rid r \<in> set (map rid (pick_due limit locked due key ready rows))"
  shows "due r \<and> ready r \<and> \<not> locked r"
proof -
  obtain x where x: "x \<in> set (pick_due limit locked due key ready rows)" "rid x = rid r"
    using assms(3) by auto
  then have "x \<in> set rows \<and> due x \<and> ready x \<and> \<not> locked x" by (auto simp: pick_due_def dest!: in_set_takeD)
  moreover have "x = r" using x assms(1,2) calculation by (metis distinct_map inj_onD)
  ultimately show ?thesis by simp
qed

lemma update_picked:
  assumes "distinct (map rid rows)"
  shows "\<exists>g. update_where (\<lambda>r. rid r \<in> set (map rid (pick_due limit locked due key ready rows))) f rows =
      map g rows \<and> (\<forall>r \<in> set rows. g r = r \<or> due r \<and> ready r \<and> \<not> locked r \<and> g r = f r)"
  unfolding update_where_def
  by (rule exI, rule conjI, rule refl, rule ballI) (use picked_row [OF _ assms] in \<open>metis (mono_tags)\<close>)

text \<open>
  C22: The publish sweeper does its job and nothing else. A tick changes only movies and series that
  are due, ready and not locked, and makes them live; and if fewer than 25 due titles of a kind are
  not ready, every due and ready one is live after at most as many ticks as there are such titles.
  The bound is needed: once the 25 earliest due titles are all not ready, no later tick ever
  publishes anything of that kind.
\<close>

theorem publish_sweeper_progress:
  assumes "distinct (map ct_id (contents d))" and "distinct (map ser_id (series_table d))"
  shows "(\<forall>lm ls. \<exists>g h. contents (fst (publish_tick lm ls now d)) = map g (contents d) \<and>
      series_table (fst (publish_tick lm ls now d)) = map h (series_table d) \<and>
      (\<forall>c \<in> set (contents d). g c = c \<or> due_movie now c \<and> movie_is_publishable d c \<and> \<not> lm c \<and>
         g c = promote_scheduled_movie_to_published c) \<and>
      (\<forall>s \<in> set (series_table d). h s = s \<or> due_series now s \<and> series_is_publishable s \<and> \<not> ls s \<and>
         h s = promote_scheduled_series_to_published s)) \<and>
    (count_rows (\<lambda>c. due_movie now c \<and> \<not> movie_is_publishable d c) (contents d) < 25 \<and>
     count_rows (\<lambda>c. due_movie now c \<and> movie_is_publishable d c) (contents d) \<le> n \<longrightarrow>
       (\<forall>c \<in> set (contents d). due_movie now c \<and> movie_is_publishable d c \<longrightarrow>
          promote_scheduled_movie_to_published c \<in> set (contents (publish_ticks now n d)))) \<and>
    (count_rows (\<lambda>s. due_series now s \<and> \<not> series_is_publishable s) (series_table d) < 25 \<and>
     count_rows (\<lambda>s. due_series now s \<and> series_is_publishable s) (series_table d) \<le> n \<longrightarrow>
       (\<forall>s \<in> set (series_table d). due_series now s \<and> series_is_publishable s \<longrightarrow>
          promote_scheduled_series_to_published s \<in> set (series_table (publish_ticks now n d)))) \<and>
    (list_all (\<lambda>c. \<not> movie_is_publishable d c)
       (take 25 (order_by (\<lambda>c. schedule_key (ct_publish_at c)) (filter (due_movie now) (contents d)))) \<longrightarrow>
       contents (publish_ticks now n d) = contents d)"
proof (intro conjI)
  show "\<forall>lm ls. \<exists>g h. contents (fst (publish_tick lm ls now d)) = map g (contents d) \<and>
      series_table (fst (publish_tick lm ls now d)) = map h (series_table d) \<and>
      (\<forall>c \<in> set (contents d). g c = c \<or> due_movie now c \<and> movie_is_publishable d c \<and> \<not> lm c \<and>
         g c = promote_scheduled_movie_to_published c) \<and>
      (\<forall>s \<in> set (series_table d). h s = s \<or> due_series now s \<and> series_is_publishable s \<and> \<not> ls s \<and>
         h s = promote_scheduled_series_to_published s)"
  proof (intro allI)
    fix lm ls
    obtain g where g: "contents (fst (publish_tick lm ls now d)) = map g (contents d)"
      "\<forall>c \<in> set (contents d). g c = c \<or> due_movie now c \<and> movie_is_publishable d c \<and> \<not> lm c \<and>
         g c = promote_scheduled_movie_to_published c"
      using update_picked [OF assms(1), of publish_sweep_limit lm "due_movie now"
          "\<lambda>c. schedule_key (ct_publish_at c)" "movie_is_publishable d" promote_scheduled_movie_to_published]
      unfolding tick_db by auto
    obtain h where h: "series_table (fst (publish_tick lm ls now d)) = map h (series_table d)"
      "\<forall>s \<in> set (series_table d). h s = s \<or> due_series now s \<and> series_is_publishable s \<and> \<not> ls s \<and>
         h s = promote_scheduled_series_to_published s"
      using update_picked [OF assms(2), of publish_sweep_limit ls "due_series now"
          "\<lambda>s. schedule_key (ser_publish_at s)" series_is_publishable promote_scheduled_series_to_published]
      unfolding tick_db by auto
    show "\<exists>g h. contents (fst (publish_tick lm ls now d)) = map g (contents d) \<and>
      series_table (fst (publish_tick lm ls now d)) = map h (series_table d) \<and>
      (\<forall>c \<in> set (contents d). g c = c \<or> due_movie now c \<and> movie_is_publishable d c \<and> \<not> lm c \<and>
         g c = promote_scheduled_movie_to_published c) \<and>
      (\<forall>s \<in> set (series_table d). h s = s \<or> due_series now s \<and> series_is_publishable s \<and> \<not> ls s \<and>
         h s = promote_scheduled_series_to_published s)"
      using g h by (intro exI [of _ g] exI [of _ h]) simp
  qed
  have lim: "publish_sweep_limit = 25" by (simp add: publish_sweep_limit_def)
  show "count_rows (\<lambda>c. due_movie now c \<and> \<not> movie_is_publishable d c) (contents d) < 25 \<and>
     count_rows (\<lambda>c. due_movie now c \<and> movie_is_publishable d c) (contents d) \<le> n \<longrightarrow>
       (\<forall>c \<in> set (contents d). due_movie now c \<and> movie_is_publishable d c \<longrightarrow>
          promote_scheduled_movie_to_published c \<in> set (contents (publish_ticks now n d)))"
    using movie_sweep.all_promoted [of now d "contents d" 25 n] publish_ticks_tables [of now n d]
    by (simp add: movie_sweep.blocked_def movie_sweep.waiting_def lim)
  show "count_rows (\<lambda>s. due_series now s \<and> \<not> series_is_publishable s) (series_table d) < 25 \<and>
     count_rows (\<lambda>s. due_series now s \<and> series_is_publishable s) (series_table d) \<le> n \<longrightarrow>
       (\<forall>s \<in> set (series_table d). due_series now s \<and> series_is_publishable s \<longrightarrow>
          promote_scheduled_series_to_published s \<in> set (series_table (publish_ticks now n d)))"
    using series_sweep.all_promoted [of now "series_table d" 25 n] publish_ticks_tables [of now n d]
    by (simp add: series_sweep.blocked_def series_sweep.waiting_def lim)
  show "list_all (\<lambda>c. \<not> movie_is_publishable d c)
       (take 25 (order_by (\<lambda>c. schedule_key (ct_publish_at c)) (filter (due_movie now) (contents d)))) \<longrightarrow>
       contents (publish_ticks now n d) = contents d"
    using movie_sweep.stuck [of 25 now d "contents d" n] publish_ticks_tables [of now n d]
    by (simp add: pick_due_def filter_empty_conv list_all_iff lim)
qed

definition premiere :: content_row where
  "premiere = default_content\<lparr>ct_id := 1, ct_type := ''single'', ct_status := ''scheduled'',
     ct_publish_at := Some 5, ct_poster_key := Some ''p.webp'', ct_hls_master_key := Some ''m.m3u8''\<rparr>"

theorem publish_sweeper_progress_witness:
  "promote_scheduled_movie_to_published premiere \<in>
     set (contents (publish_ticks 10 1 (empty_db\<lparr>contents := [premiere]\<rparr>)))"
proof -
  let ?d = "empty_db\<lparr>contents := [premiere]\<rparr>"
  have due: "due_movie 10 premiere \<and> movie_is_publishable ?d premiere"
    by (simp add: premiere_def due_movie_def due_at_def movie_is_publishable_iff default_content_def)
  then have "count_rows (\<lambda>c. due_movie 10 c \<and> \<not> movie_is_publishable ?d c) (contents ?d) < 25"
    "count_rows (\<lambda>c. due_movie 10 c \<and> movie_is_publishable ?d c) (contents ?d) \<le> 1"
    by simp_all
  then show ?thesis
    using publish_sweeper_progress [of ?d 10 1, THEN conjunct2, THEN conjunct1] due by simp
qed

end
