(* ===== verification/Deletion.thy ===== *)
theory Deletion
  imports Fulfillment
begin

text \<open>
  \<open>app/services/content_delete.py\<close> and \<open>app/services/account.py\<close>: what is removed, blanked or kept
  when an administrator deletes a title or a series and when a user deletes their account. The
  foreign keys that meet the final \<open>DELETE\<close> are those of the migrations: comments, ratings and
  transcode jobs cascade from a title; purchases, watch progress and payment intents refuse it.
\<close>

section \<open>Titles and series\<close>

definition delete_transcode_jobs_for_content :: "uuid \<Rightarrow> db \<Rightarrow> db" where
  "delete_transcode_jobs_for_content cid d =
     d\<lparr>transcode_jobs := delete_where (\<lambda>j. job_content_id j = cid) (transcode_jobs d)\<rparr>"

definition episode_ids :: "uuid \<Rightarrow> db \<Rightarrow> uuid list" where
  "episode_ids sid d = map ct_id (filter (\<lambda>c. ct_series_id c = Some sid) (contents d))"

definition delete_transcode_jobs_for_series :: "uuid \<Rightarrow> db \<Rightarrow> db" where
  "delete_transcode_jobs_for_series sid d =
     d\<lparr>transcode_jobs := delete_where (\<lambda>j. job_content_id j \<in> set (episode_ids sid d)) (transcode_jobs d)\<rparr>"

definition delete_content_dependencies :: "uuid \<Rightarrow> db \<Rightarrow> db" where
  "delete_content_dependencies cid d = delete_transcode_jobs_for_content cid
     (d\<lparr>purchases := delete_where (\<lambda>p. pu_content_id p = cid) (purchases d),
        favorites := delete_where (\<lambda>f. fav_content_id f = cid) (favorites d),
        free_today_items := delete_where (\<lambda>f. ft_content_id f = cid) (free_today_items d),
        coming_soon_items := delete_where (\<lambda>c. cs_content_id c = cid) (coming_soon_items d),
        genre_rail_items := delete_where (\<lambda>g. gr_content_id g = cid) (genre_rail_items d),
        hero_featured_items := delete_where (\<lambda>h. hero_content_id h = Some cid) (hero_featured_items d),
        home_section_items := delete_where (\<lambda>i. item_ref_id i = cid) (home_section_items d),
        watch_progress := delete_where (\<lambda>w. wp_content_id w = cid) (watch_progress d),
        payment_intents := update_where (\<lambda>p. pi_content_id p = Some cid) (\<lambda>p. p\<lparr>pi_content_id := None\<rparr>)
          (payment_intents d)\<rparr>)"

definition delete_content_dependencies_for_series :: "uuid \<Rightarrow> db \<Rightarrow> db" where
  "delete_content_dependencies_for_series sid d =
     (let eps = set (episode_ids sid d) in
      delete_transcode_jobs_for_series sid
       (d\<lparr>purchases := delete_where (\<lambda>p. pu_content_id p \<in> eps) (purchases d),
          favorites := delete_where (\<lambda>f. fav_content_id f \<in> eps) (favorites d),
          free_today_items := delete_where (\<lambda>f. ft_content_id f \<in> eps) (free_today_items d),
          coming_soon_items := delete_where (\<lambda>c. cs_content_id c \<in> eps) (coming_soon_items d),
          genre_rail_items := delete_where (\<lambda>g. gr_content_id g \<in> eps) (genre_rail_items d),
          hero_featured_items := delete_where (\<lambda>h. hero_content_id h \<in> Some ` eps) (hero_featured_items d),
          home_section_items := delete_where (\<lambda>i. item_ref_id i \<in> eps) (home_section_items d),
          watch_progress := delete_where (\<lambda>w. wp_content_id w \<in> eps) (watch_progress d),
          payment_intents := update_where (\<lambda>p. pi_content_id p \<in> Some ` eps) (\<lambda>p. p\<lparr>pi_content_id := None\<rparr>)
            (payment_intents d)\<rparr>))"

text \<open>\<open>DELETE FROM content\<close> of a set of rows, under its foreign keys.\<close>

definition content_is_referenced :: "uuid set \<Rightarrow> db \<Rightarrow> bool" where
  "content_is_referenced ids d \<longleftrightarrow>
     exists_row (\<lambda>p. pu_content_id p \<in> ids) (purchases d) \<or>
     exists_row (\<lambda>w. wp_content_id w \<in> ids) (watch_progress d) \<or>
     exists_row (\<lambda>p. pi_content_id p \<in> Some ` ids) (payment_intents d)"

definition delete_content_rows :: "uuid set \<Rightarrow> db \<Rightarrow> db result" where
  "delete_content_rows ids d =
     (if content_is_referenced ids d then Inl IntegrityError
      else (let d1 = delete_comments_cascade
                       (map cm_id (filter (\<lambda>c. cm_content_id c \<in> ids) (comments d))) d
            in Inr (d1\<lparr>contents := delete_where (\<lambda>c. ct_id c \<in> ids) (contents d1),
                       ratings := delete_where (\<lambda>r. rt_content_id r \<in> ids) (ratings d1),
                       transcode_jobs := delete_where (\<lambda>j. job_content_id j \<in> ids) (transcode_jobs d1)\<rparr>)))"

text \<open>What the delete handlers of movies, podcasts and episodes do once the row is found.\<close>

definition delete_content :: "uuid \<Rightarrow> db \<Rightarrow> db result" where
  "delete_content cid d = delete_content_rows {cid} (delete_content_dependencies cid d)"

definition delete_series_and_dependencies :: "uuid \<Rightarrow> db \<Rightarrow> db result" where
  "delete_series_and_dependencies sid d =
     (let d1 = delete_content_dependencies_for_series sid d;
          d2 = d1\<lparr>series_purchases := delete_where (\<lambda>p. spu_series_id p = sid) (series_purchases d1),
                  payment_intents := update_where (\<lambda>p. pi_series_id p = Some sid) (\<lambda>p. p\<lparr>pi_series_id := None\<rparr>)
                    (payment_intents d1),
                  favorites := delete_where (\<lambda>f. fav_content_id f = sid) (favorites d1),
                  hero_featured_items := delete_where
                    (\<lambda>h. hero_content_id h = Some sid \<and> hero_content_type h = ''series'') (hero_featured_items d1),
                  home_section_items := delete_where (\<lambda>i. item_ref_id i = sid) (home_section_items d1)\<rparr>
      in delete_content_rows (set (episode_ids sid d2)) d2)"

text \<open>
  The series row itself: its episodes, purchases and intents are gone or detached by then, so the
  cascades of its foreign keys find nothing.
\<close>

definition delete_series_row :: "uuid \<Rightarrow> db \<Rightarrow> db" where
  "delete_series_row sid d = d\<lparr>series_table := delete_where (\<lambda>s. ser_id s = sid) (series_table d)\<rparr>"

definition delete_series_content :: "uuid \<Rightarrow> db \<Rightarrow> db result" where
  "delete_series_content sid d =
     (case delete_series_and_dependencies sid d of Inl e \<Rightarrow> Inl e | Inr d' \<Rightarrow> Inr (delete_series_row sid d'))"

section \<open>Accounts\<close>

definition placeholder_email :: "uuid \<Rightarrow> string" where
  "placeholder_email uid = ''deleted-'' @ string_of_nat uid @ ''@deleted.reeltime.fun''"

definition blank_comment :: "datetime \<Rightarrow> comment_row \<Rightarrow> comment_row" where
  "blank_comment now c = c\<lparr>cm_body := ''[deleted]'',
     cm_deleted_at := (case cm_deleted_at c of None \<Rightarrow> Some now | Some t \<Rightarrow> Some t)\<rparr>"

definition blank_user :: "user_row \<Rightarrow> user_row" where
  "blank_user u = u\<lparr>user_email := placeholder_email (user_id u), user_password_hash := None,
     user_google_id := None, user_telegram_id := None, user_apple_id := None, user_avatar_url := None,
     user_full_name := None, user_is_active := False\<rparr>"

definition delete_user_account :: "datetime \<Rightarrow> user_row \<Rightarrow> db \<Rightarrow> db result" where
  "delete_user_account now user d =
     (if user_role user = ''admin'' then Inl (ForbiddenError ''Admin accounts cannot be deleted from the app'')
      else
       (let uid = user_id user;
            d1 = d\<lparr>comments := update_where (\<lambda>c. cm_user_id c = uid) (blank_comment now) (comments d),
              watch_progress := delete_where (\<lambda>w. wp_user_id w = uid) (watch_progress d),
              favorites := delete_where (\<lambda>f. fav_user_id f = uid) (favorites d),
              ratings := delete_where (\<lambda>r. rt_user_id r = uid) (ratings d),
              comment_votes := delete_where (\<lambda>v. vote_user_id v = uid) (comment_votes d),
              comment_reports := delete_where (\<lambda>r. rep_user_id r = uid) (comment_reports d),
              sessions := delete_where (\<lambda>s. sess_user_id s = uid) (sessions d),
              tv_access_codes := delete_where (\<lambda>t. tvc_user_id t = uid) (tv_access_codes d),
              device_pairing_codes := delete_where (\<lambda>p. pair_user_id p = Some uid) (device_pairing_codes d),
              password_reset_tokens := delete_where (\<lambda>t. reset_user_id t = uid) (password_reset_tokens d),
              user_blocks := delete_where (\<lambda>b. blk_blocker_id b = uid \<or> blk_blocked_id b = uid) (user_blocks d)\<rparr>
        in if exists_row (\<lambda>u. user_id u \<noteq> uid \<and> user_email u = placeholder_email uid) (users d1)
           then Inl IntegrityError
           else Inr (d1\<lparr>users := update_where (\<lambda>u. user_id u = uid) (\<lambda>_. blank_user user) (users d1)\<rparr>)))"

section \<open>Deleting a title\<close>

lemma exists_row_delete [simp]:
  "exists_row P (delete_where Q rows) \<longleftrightarrow> (\<exists>r \<in> set rows. \<not> Q r \<and> P r)"
  by (auto simp: exists_row_iff)

lemma comments_cascade_frame [simp, frame]:
  "users (delete_comments_cascade ids d) = users d"
  "sessions (delete_comments_cascade ids d) = sessions d"
  "contents (delete_comments_cascade ids d) = contents d"
  "series_table (delete_comments_cascade ids d) = series_table d"
  "purchases (delete_comments_cascade ids d) = purchases d"
  "series_purchases (delete_comments_cascade ids d) = series_purchases d"
  "subscriptions (delete_comments_cascade ids d) = subscriptions d"
  "subscription_payments (delete_comments_cascade ids d) = subscription_payments d"
  "payment_intents (delete_comments_cascade ids d) = payment_intents d"
  "watch_progress (delete_comments_cascade ids d) = watch_progress d"
  "favorites (delete_comments_cascade ids d) = favorites d"
  "ratings (delete_comments_cascade ids d) = ratings d"
  "free_today_items (delete_comments_cascade ids d) = free_today_items d"
  "coming_soon_items (delete_comments_cascade ids d) = coming_soon_items d"
  "genre_rail_items (delete_comments_cascade ids d) = genre_rail_items d"
  "hero_featured_items (delete_comments_cascade ids d) = hero_featured_items d"
  "home_sections (delete_comments_cascade ids d) = home_sections d"
  "home_section_items (delete_comments_cascade ids d) = home_section_items d"
  "transcode_jobs (delete_comments_cascade ids d) = transcode_jobs d"
  by (simp_all add: delete_comments_cascade_def Let_def)

lemma doomed_step_sub: "set ids \<subseteq> set (doomed_step cs ids)"
  by (auto simp: doomed_step_def)

lemma doomed_sub: "set ids \<subseteq> set ((doomed_step cs ^^ n) ids)"
  by (induction n) (use doomed_step_sub in fastforce)+

lemma cascade_comments:
  "c \<in> set (comments (delete_comments_cascade ids d)) \<Longrightarrow> c \<in> set (comments d) \<and> cm_id c \<notin> set ids"
  using doomed_sub [where ids = ids and cs = "comments d" and n = "length (comments d)"]
  by (auto simp: delete_comments_cascade_def Let_def doomed_comments_def)

lemma dependencies_fields [simp, frame]:
  "users (delete_content_dependencies cid d) = users d"
  "sessions (delete_content_dependencies cid d) = sessions d"
  "contents (delete_content_dependencies cid d) = contents d"
  "series_table (delete_content_dependencies cid d) = series_table d"
  "series_purchases (delete_content_dependencies cid d) = series_purchases d"
  "subscriptions (delete_content_dependencies cid d) = subscriptions d"
  "subscription_payments (delete_content_dependencies cid d) = subscription_payments d"
  "home_sections (delete_content_dependencies cid d) = home_sections d"
  "ratings (delete_content_dependencies cid d) = ratings d"
  "comments (delete_content_dependencies cid d) = comments d"
  "purchases (delete_content_dependencies cid d) = delete_where (\<lambda>p. pu_content_id p = cid) (purchases d)"
  "favorites (delete_content_dependencies cid d) = delete_where (\<lambda>f. fav_content_id f = cid) (favorites d)"
  "free_today_items (delete_content_dependencies cid d) = delete_where (\<lambda>f. ft_content_id f = cid) (free_today_items d)"
  "coming_soon_items (delete_content_dependencies cid d) = delete_where (\<lambda>c. cs_content_id c = cid) (coming_soon_items d)"
  "genre_rail_items (delete_content_dependencies cid d) = delete_where (\<lambda>g. gr_content_id g = cid) (genre_rail_items d)"
  "home_section_items (delete_content_dependencies cid d) = delete_where (\<lambda>i. item_ref_id i = cid) (home_section_items d)"
  "watch_progress (delete_content_dependencies cid d) = delete_where (\<lambda>w. wp_content_id w = cid) (watch_progress d)"
  "transcode_jobs (delete_content_dependencies cid d) = delete_where (\<lambda>j. job_content_id j = cid) (transcode_jobs d)"
  "hero_featured_items (delete_content_dependencies cid d) =
     delete_where (\<lambda>h. hero_content_id h = Some cid) (hero_featured_items d)"
  "payment_intents (delete_content_dependencies cid d) =
     update_where (\<lambda>p. pi_content_id p = Some cid) (\<lambda>p. p\<lparr>pi_content_id := None\<rparr>) (payment_intents d)"
  by (simp_all add: delete_content_dependencies_def delete_transcode_jobs_for_content_def)

lemma delete_content_unreferenced: "\<not> content_is_referenced {cid} (delete_content_dependencies cid d)"
  by (auto simp: content_is_referenced_def exists_row_iff update_where_def)

definition title_removed :: "uuid \<Rightarrow> db \<Rightarrow> db" where
  "title_removed cid d = (let d0 = delete_content_dependencies cid d;
     d1 = delete_comments_cascade (map cm_id (filter (\<lambda>c. cm_content_id c = cid) (comments d0))) d0
     in d1\<lparr>contents := delete_where (\<lambda>c. ct_id c = cid) (contents d1),
           ratings := delete_where (\<lambda>r. rt_content_id r = cid) (ratings d1),
           transcode_jobs := delete_where (\<lambda>j. job_content_id j = cid) (transcode_jobs d1)\<rparr>)"

lemma delete_content_result: "delete_content cid d = Inr (title_removed cid d)"
  using delete_content_unreferenced [of cid d]
  by (simp add: delete_content_def delete_content_rows_def title_removed_def Let_def)

lemma title_removed_fields:
  "contents (title_removed cid d) = delete_where (\<lambda>c. ct_id c = cid) (contents d)"
    "purchases (title_removed cid d) = delete_where (\<lambda>p. pu_content_id p = cid) (purchases d)"
    "payment_intents (title_removed cid d) = update_where (\<lambda>p. pi_content_id p = Some cid) (\<lambda>p. p\<lparr>pi_content_id := None\<rparr>) (payment_intents d)"
    "favorites (title_removed cid d) = delete_where (\<lambda>f. fav_content_id f = cid) (favorites d)"
    "free_today_items (title_removed cid d) = delete_where (\<lambda>f. ft_content_id f = cid) (free_today_items d)"
    "coming_soon_items (title_removed cid d) = delete_where (\<lambda>c. cs_content_id c = cid) (coming_soon_items d)"
    "genre_rail_items (title_removed cid d) = delete_where (\<lambda>g. gr_content_id g = cid) (genre_rail_items d)"
    "hero_featured_items (title_removed cid d) = delete_where (\<lambda>h. hero_content_id h = Some cid) (hero_featured_items d)"
    "home_section_items (title_removed cid d) = delete_where (\<lambda>i. item_ref_id i = cid) (home_section_items d)"
    "watch_progress (title_removed cid d) = delete_where (\<lambda>w. wp_content_id w = cid) (watch_progress d)"
    "ratings (title_removed cid d) = delete_where (\<lambda>r. rt_content_id r = cid) (ratings d)"
    "home_sections (title_removed cid d) = home_sections d"
    "subscriptions (title_removed cid d) = subscriptions d" "series_purchases (title_removed cid d) = series_purchases d" "users (title_removed cid d) = users d"
    "sessions (title_removed cid d) = sessions d" "series_table (title_removed cid d) = series_table d" "subscription_payments (title_removed cid d) = subscription_payments d"
  by (simp_all add: title_removed_def Let_def)

lemma delete_content_removed: "delete_content cid d = Inr d' \<Longrightarrow> d' = title_removed cid d"
  by (simp add: delete_content_result)

lemma delete_content_comments:
  "delete_content cid d = Inr d' \<Longrightarrow> c \<in> set (comments d') \<Longrightarrow> cm_content_id c \<noteq> cid"
  by (auto simp: title_removed_def Let_def dest!: delete_content_removed cascade_comments)

lemma delete_content_jobs:
  "delete_content cid d = Inr d' \<Longrightarrow> j \<in> set (transcode_jobs d') \<Longrightarrow> job_content_id j \<noteq> cid"
  by (auto simp: title_removed_def Let_def dest!: delete_content_removed)

lemma can_access_content_cong:
  assumes "is_free_today (ct_id c) d' = is_free_today (ct_id c) d"
    and "\<And>uid g. has_movie_purchase uid g (ct_id c) d' = has_movie_purchase uid g (ct_id c) d"
    and "series_purchases d' = series_purchases d" "subscriptions d' = subscriptions d"
  shows "can_access_content now u g c f d' = can_access_content now u g c f d"
proof -
  have "has_series_purchase sid uid g d' = has_series_purchase sid uid g d" for sid uid g
    by (simp add: has_series_purchase_def assms(3) split: option.split)
  moreover have "user_has_active_subscription t uid d' = user_has_active_subscription t uid d" for t uid
    by (simp add: user_has_active_subscription_def assms(4))
  ultimately show ?thesis unfolding can_access_content_def assms(1,2) by presburger
qed

lemma is_free_today_delete:
  assumes "free_today_items d' = delete_where (\<lambda>f. ft_content_id f = cid) (free_today_items d)"
    and "home_section_items d' = delete_where (\<lambda>i. item_ref_id i = cid) (home_section_items d)"
    and "home_sections d' = home_sections d" and "c \<noteq> cid"
  shows "is_free_today c d' = is_free_today c d"
proof -
  have "c \<in> set (free_today_content_ids_from_sections d') \<longleftrightarrow> c \<in> set (free_today_content_ids_from_sections d)"
    using assms(4) by (auto simp: free_today_content_ids_from_sections_def assms(2,3))
  moreover have "exists_row (\<lambda>f. ft_content_id f = c) (free_today_items d') =
      exists_row (\<lambda>f. ft_content_id f = c) (free_today_items d)"
    using assms(4) by (auto simp: assms(1) exists_row_iff)
  ultimately show ?thesis by (simp add: is_free_today_def)
qed

lemma has_movie_purchase_delete:
  assumes "purchases d' = delete_where (\<lambda>p. pu_content_id p = cid) (purchases d)" and "c \<noteq> cid"
  shows "has_movie_purchase uid g c d' = has_movie_purchase uid g c d"
  using assms by (auto simp: has_movie_purchase_def exists_row_iff split: option.split)

text \<open>
  C35: Deleting a title leaves nothing of it and harms nothing else. The delete handler never fails
  on a foreign key; afterwards no purchase, rail, section, hero slide, watch position, rating,
  comment, favourite or transcode job refers to the title and no payment intent points at it, yet
  every intent is still there; accounts, sessions, subscriptions, series unlocks and receipts are
  untouched, and whoever could watch any other title still can, and nobody else.
\<close>

theorem delete_title_clean:
  "\<exists>d'. delete_content cid d = Inr d' \<and>
     (\<forall>c \<in> set (contents d'). ct_id c \<noteq> cid) \<and>
     (\<forall>p \<in> set (purchases d'). pu_content_id p \<noteq> cid) \<and>
     (\<forall>p \<in> set (payment_intents d'). pi_content_id p \<noteq> Some cid) \<and>
     map pi_intent_id (payment_intents d') = map pi_intent_id (payment_intents d) \<and>
     (\<forall>f \<in> set (favorites d'). fav_content_id f \<noteq> cid) \<and>
     (\<forall>f \<in> set (free_today_items d'). ft_content_id f \<noteq> cid) \<and>
     (\<forall>c \<in> set (coming_soon_items d'). cs_content_id c \<noteq> cid) \<and>
     (\<forall>g \<in> set (genre_rail_items d'). gr_content_id g \<noteq> cid) \<and>
     (\<forall>h \<in> set (hero_featured_items d'). hero_content_id h \<noteq> Some cid) \<and>
     (\<forall>i \<in> set (home_section_items d'). item_ref_id i \<noteq> cid) \<and>
     (\<forall>w \<in> set (watch_progress d'). wp_content_id w \<noteq> cid) \<and>
     (\<forall>r \<in> set (ratings d'). rt_content_id r \<noteq> cid) \<and>
     (\<forall>c \<in> set (comments d'). cm_content_id c \<noteq> cid) \<and>
     (\<forall>j \<in> set (transcode_jobs d'). job_content_id j \<noteq> cid) \<and>
     users d' = users d \<and> sessions d' = sessions d \<and> subscriptions d' = subscriptions d \<and>
     subscription_payments d' = subscription_payments d \<and> series_purchases d' = series_purchases d \<and>
     series_table d' = series_table d \<and>
     (\<forall>now user guest c flag. ct_id c \<noteq> cid \<longrightarrow>
        can_access_content now user guest c flag d' = can_access_content now user guest c flag d)"
proof -
  obtain d' where d': "delete_content cid d = Inr d'" unfolding delete_content_result by blast
  note fields = title_removed_fields [of cid d, folded delete_content_removed [OF d']]
  have intents: "map pi_intent_id (payment_intents d') = map pi_intent_id (payment_intents d)"
    "\<forall>p \<in> set (payment_intents d'). pi_content_id p \<noteq> Some cid"
    by (auto simp: fields(3) map_update_where) (auto simp: update_where_def split: if_splits)
  have watch: "\<forall>now user guest c flag. ct_id c \<noteq> cid \<longrightarrow>
      can_access_content now user guest c flag d' = can_access_content now user guest c flag d"
    by (intro allI impI can_access_content_cong is_free_today_delete [OF fields(5,9,12)]
        has_movie_purchase_delete [OF fields(2)] fields(13,14))
  show ?thesis
    by (rule exI [of _ d'], intro conjI d' intents watch fields(13-18))
      (use delete_content_comments [OF d'] delete_content_jobs [OF d'] in \<open>auto simp: fields(1,2,4-11)\<close>)
qed

theorem delete_title_clean_witness:
  "\<exists>d'. delete_content 7 demo_billing_db = Inr d' \<and> contents d' = [] \<and>
     map pi_intent_id (payment_intents d') = [''bkg-1''] \<and>
     (\<forall>now user guest c flag. ct_id c \<noteq> 7 \<longrightarrow>
        can_access_content now user guest c flag d' = can_access_content now user guest c flag demo_billing_db)"
proof -
  obtain d' where d': "delete_content 7 demo_billing_db = Inr d'"
    "map pi_intent_id (payment_intents d') = map pi_intent_id (payment_intents demo_billing_db)"
    "\<forall>now user guest c flag. ct_id c \<noteq> 7 \<longrightarrow>
        can_access_content now user guest c flag d' = can_access_content now user guest c flag demo_billing_db"
    using delete_title_clean [of 7 demo_billing_db] by (elim exE conjE) (rule that)
  have "contents d' = []"
    by (simp add: delete_content_removed [OF d'(1)] title_removed_fields(1) demo_billing_db_def demo_movie_def)
  then show ?thesis using d' by (simp add: demo_billing_db_def demo_intent_def)
qed

text \<open>
  A checkout of a deleted title can still be paid, for nothing. Deleting a title only clears the
  title of an open intent, which stays payable; when it is paid, the fulfilment marks it succeeded and
  announces the sale but writes no receipt, and everybody may watch exactly what they could before.
\<close>

theorem deleted_title_payment_lost:
  assumes "find_intent i d = Some p" and "pi_kind p = ''single''" and "pi_content_id p = Some cid"
    and "pi_status p = ''pending''"
  shows "\<exists>d' t p'. delete_content cid d = Inr d' \<and>
     find_intent i d' = Some (p\<lparr>pi_content_id := None\<rparr>) \<and>
     fulfill_payment_intent now fresh i bank (open_tx d') = (Inr (), t) \<and>
     find_intent i (tx_db t) = Some p' \<and> pi_status p' = ''succeeded'' \<and> length (tx_alerts t) = 1 \<and>
     purchases (tx_db t) = purchases d' \<and> series_purchases (tx_db t) = series_purchases d' \<and>
     subscriptions (tx_db t) = subscriptions d' \<and>
     (\<forall>time user guest c flag. can_access_content time user guest c flag (tx_db t) =
        can_access_content time user guest c flag d')"
proof -
  obtain d' where d': "delete_content cid d = Inr d'" unfolding delete_content_result by blast
  let ?q = "p\<lparr>pi_content_id := None\<rparr>"
  have q: "find_intent i d' = Some ?q"
    using assms(1,3) by (simp add: find_intent_def delete_content_removed [OF d'] title_removed_fields(3) select_one_update_keep)
  define t1 where "t1 = (open_tx d')\<lparr>tx_db := set_intent_status i ''succeeded'' (Some now) d'\<rparr>"
  have f: "fulfill_payment_intent now fresh i bank (open_tx d') = (Inr (), notify_payment_succeeded ?q bank t1)"
    using q assms(2,4) by (simp add: fulfill_payment_intent_def open_tx_def t1_def Let_def)
  have db: "tx_db (notify_payment_succeeded ?q bank t1) = set_intent_status i ''succeeded'' (Some now) d'"
    by (simp add: t1_def notify_payment_succeeded_def)
  have same: "can_access_content time user guest c flag (set_intent_status i ''succeeded'' (Some now) d') =
      can_access_content time user guest c flag d'" for time user guest c flag
    by (rule can_access_content_cong) (simp_all add: is_free_today_def free_today_content_ids_from_sections_def
        has_movie_purchase_def set_intent_status_def split: option.split)
  show ?thesis
  proof (intro exI conjI, rule d', rule q, rule f)
    show "find_intent i (tx_db (notify_payment_succeeded ?q bank t1)) =
        Some (?q\<lparr>pi_status := ''succeeded'', pi_resolved_at := Some now\<rparr>)"
      using q find_intent_in [OF q] unfolding db by (simp add: find_intent_set_status)
  qed (simp_all only: db same, simp_all add: t1_def notify_payment_succeeded_def open_tx_def)
qed

theorem deleted_title_payment_lost_witness:
  "\<exists>d' t. delete_content 7 demo_billing_db = Inr d' \<and>
     fulfill_payment_intent 4 1 ''bkg-1'' (Some ''bakong'') (open_tx d') = (Inr (), t) \<and>
     length (tx_alerts t) = 1 \<and> purchases (tx_db t) = purchases d'"
proof -
  have "find_intent ''bkg-1'' demo_billing_db = Some demo_intent" "pi_kind demo_intent = ''single''"
    "pi_content_id demo_intent = Some 7" "pi_status demo_intent = ''pending''" by code_simp+
  from deleted_title_payment_lost [OF this, of 4 1 "Some ''bakong''"] show ?thesis by blast
qed

section \<open>Deleting an account\<close>

lemma delete_where_others: "filter (\<lambda>r. k r \<noteq> uid) (delete_where (\<lambda>r. k r = uid) rows) = filter (\<lambda>r. k r \<noteq> uid) rows"
  by (simp add: delete_where_def)

lemma filter_update_where:
  "(\<And>r. P r \<Longrightarrow> \<not> Q (f r)) \<Longrightarrow> (\<And>r. P r \<Longrightarrow> \<not> Q r) \<Longrightarrow> filter Q (update_where P f rows) = filter Q rows"
  by (induction rows) auto



end
