(* ===== verification/Ordering.thy ===== *)
theory Ordering
  imports Prelude
begin

text \<open>
  The drag-and-drop ordering the admin screens share (movies, podcasts, series, home sections and their
  items, hero slides, promotion banners): the code loads the rows of the request's ids and writes
  \<open>sort_order = index\<close> for each id in turn. What a list ordered by \<open>sort_order\<close> then shows is proved
  once, in a locale the tables interpret.
\<close>

text \<open>\<open>for index, id in enumerate(ids): by_id[id].sort_order = index\<close>; \<open>elig\<close> is the query's own filter.\<close>

definition assign_order ::
    "('r \<Rightarrow> uuid) \<Rightarrow> (int \<Rightarrow> 'r \<Rightarrow> 'r) \<Rightarrow> ('r \<Rightarrow> bool) \<Rightarrow> uuid list \<Rightarrow> 'r list \<Rightarrow> 'r list" where
  "assign_order rid set_order elig ids rows =
     fold (\<lambda>(i, x). update_where (\<lambda>r. rid r = x \<and> elig r) (set_order (int i))) (enumerate 0 ids) rows"

text \<open>A reorder only writes \<open>sort_order\<close>: what does not depend on it stays, row by row.\<close>

lemma assign_keeps:
  assumes "\<And>n r. g (set_order n r) = g r"
  shows "map g (assign_order rid set_order elig ids rows) = map g rows"
proof -
  have "map g (fold (\<lambda>(i, x). update_where (\<lambda>r. rid r = x \<and> elig r) (set_order (int i))) (enumerate k ids) rows) = map g rows" for k
  proof (induction ids arbitrary: k rows)
    case (Cons x ids)
    have "map g (update_where (\<lambda>r. rid r = x \<and> elig r) (set_order (int k)) rows) = map g rows"
      by (rule map_update_where) (simp add: assms)
    then show ?case by (simp add: Cons)
  qed simp
  then show ?thesis by (simp add: assign_order_def)
qed

definition position :: "uuid list \<Rightarrow> uuid \<Rightarrow> nat" where
  "position ids x = length (takeWhile (\<lambda>y. y \<noteq> x) ids)"

lemma position_nth: "x \<in> set ids \<Longrightarrow> position ids x < length ids \<and> ids ! position ids x = x"
  by (induction ids) (auto simp: position_def)

lemma position_of_nth: "distinct ids \<Longrightarrow> i < length ids \<Longrightarrow> position ids (ids ! i) = i"
  using position_nth [of "ids ! i" ids] nth_eq_iff_index_eq [of ids] by auto

text \<open>What the table's field accessors and the query filter must satisfy.\<close>

locale sortable =
  fixes rid :: "'r \<Rightarrow> uuid"
    and get_order :: "'r \<Rightarrow> int"
    and set_order :: "int \<Rightarrow> 'r \<Rightarrow> 'r"
    and elig :: "'r \<Rightarrow> bool"
  assumes rid_set: "rid (set_order n r) = rid r"
    and get_set: "get_order (set_order n r) = n"
    and elig_set: "elig (set_order n r) = elig r"
begin

lemma assign_from:
  assumes "distinct ids"
  shows "fold (\<lambda>(i, x). update_where (\<lambda>r. rid r = x \<and> elig r) (set_order (int i))) (enumerate k ids) rows =
    map (\<lambda>r. if rid r \<in> set ids \<and> elig r then set_order (int (k + position ids (rid r))) r else r) rows"
  using assms
proof (induction ids arbitrary: k rows)
  case Nil
  show ?case by simp
next
  case (Cons x ids)
  have ih: "fold (\<lambda>(i, x). update_where (\<lambda>r. rid r = x \<and> elig r) (set_order (int i))) (enumerate (Suc k) ids) zs =
    map (\<lambda>r. if rid r \<in> set ids \<and> elig r then set_order (int (Suc k + position ids (rid r))) r else r) zs" for zs
    using Cons by simp
  have "position (x # ids) y = Suc (position ids y)" if "y \<noteq> x" for y using that by (auto simp: position_def)
  moreover have "position (x # ids) x = 0" by (simp add: position_def)
  ultimately have pos: "map (\<lambda>r. if rid r \<in> set ids \<and> elig r then set_order (int (Suc k + position ids (rid r))) r else r)
        (update_where (\<lambda>r. rid r = x \<and> elig r) (set_order (int k)) rows) =
      map (\<lambda>r. if rid r \<in> set (x # ids) \<and> elig r then set_order (int (k + position (x # ids) (rid r))) r else r) rows"
    using Cons.prems by (auto simp: update_where_def rid_set elig_set algebra_simps)
  have "fold (\<lambda>(i, x). update_where (\<lambda>r. rid r = x \<and> elig r) (set_order (int i))) (enumerate k (x # ids)) rows =
      map (\<lambda>r. if rid r \<in> set ids \<and> elig r then set_order (int (Suc k + position ids (rid r))) r else r)
        (update_where (\<lambda>r. rid r = x \<and> elig r) (set_order (int k)) rows)"
    by (simp add: ih)
  then show ?case by (simp only: pos)
qed

lemma assign_rows:
  "distinct ids \<Longrightarrow> assign_order rid set_order elig ids rows =
     map (\<lambda>r. if rid r \<in> set ids \<and> elig r then set_order (int (position ids (rid r))) r else r) rows"
  unfolding assign_order_def using assign_from [of ids 0 rows] by simp

text \<open>Whatever the ids, no row is lost and rows not named keep their place value.\<close>

lemma assign_frame: "map rid (assign_order rid set_order elig ids rows) = map rid rows"
proof -
  have "map rid (fold (\<lambda>(i, x). update_where (\<lambda>r. rid r = x \<and> elig r) (set_order (int i))) (enumerate k ids) rows) =
      map rid rows" for k
  proof (induction ids arbitrary: k rows)
    case (Cons x ids)
    have "map rid (update_where (\<lambda>r. rid r = x \<and> elig r) (set_order (int k)) rows) = map rid rows"
      by (rule map_update_where) (simp add: rid_set)
    then show ?case by (simp add: Cons)
  qed simp
  then show ?thesis by (simp add: assign_order_def)
qed

lemma order_by_assign:
  fixes tie :: "'r \<Rightarrow> int"
  assumes "distinct ids" and "set ids = rid ` {r \<in> set rows. P r}" and "distinct (map rid rows)"
    and "\<And>r. r \<in> set rows \<Longrightarrow> P r \<Longrightarrow> elig r" and "\<And>n r. P (set_order n r) = P r"
  shows "map rid (order_by (\<lambda>r. (get_order r, tie r)) (filter P (assign_order rid set_order elig ids rows))) = ids"
proof -
  define out where "out = filter P (assign_order rid set_order elig ids rows)"
  define L where "L = order_by (\<lambda>r. (get_order r, tie r)) out"
  let ?f = "\<lambda>r. if rid r \<in> set ids \<and> elig r then set_order (int (position ids (rid r))) r else r"
  have out: "out = filter P (map ?f rows)" by (simp add: out_def assign_rows [OF assms(1)])
  have in_out: "get_order r = int (position ids (rid r)) \<and> rid r \<in> set ids" if "r \<in> set out" for r
  proof -
    have r: "r \<in> ?f ` set rows" "P r" using that unfolding out by simp_all
    then obtain r0 where r0: "r0 \<in> set rows" "r = ?f r0" by (elim imageE)
    have "P r0" using r0(2) r(2) assms(5) by (metis (full_types))
    then have "rid r0 \<in> set ids \<and> elig r0" using r0(1) assms(2,4) by auto
    then show ?thesis using r0(2) by (simp add: rid_set get_set)
  qed
  have "map rid out = map rid (filter P rows)"
    unfolding out by (induction rows) (auto simp: assms(5) rid_set)
  then have rids: "distinct (map rid out)" "set (map rid out) = set ids"
    using distinct_map_filter [OF assms(3), of P] assms(2) by auto
  have same_rows: "set L = set out" "distinct (map rid L)"
    unfolding L_def order_by_def using rids(1)
    by (simp_all add: distinct_map distinct_sort)
  have srt: "sorted (map (\<lambda>r. (get_order r, tie r)) L)" unfolding L_def by (rule sorted_order_by)
  have "sorted (map get_order L)"
    using srt by (auto simp: sorted_iff_nth_mono less_eq_prod_def less_le)
  moreover have "map get_order L = map (int \<circ> position ids) (map rid L)"
    using in_out same_rows(1) by simp
  ultimately have s: "sorted (map (position ids) (map rid L))"
    by (simp add: sorted_iff_nth_mono)
  have ids: "map (position ids) ids = [0..<length ids]"
    by (rule nth_equalityI) (simp_all add: position_of_nth [OF assms(1)])
  have inj: "inj_on (position ids) (set ids)"
    by (rule inj_onI) (metis position_nth)
  have set_L: "set (map rid L) = set ids" using same_rows(1) rids(2) by simp
  then have "distinct (map (position ids) (map rid L))"
    unfolding distinct_map [of "position ids"] set_L using same_rows(2) inj by simp
  then have "map (position ids) (map rid L) = [0..<length ids]"
    using s set_L ids by (intro sorted_distinct_set_unique) (metis image_set sorted_upt distinct_upt)+
  then have "map (position ids) (map rid L) = map (position ids) ids" by (simp only: ids)
  then have "map rid L = ids" by (rule map_inj_on) (simp only: set_L Un_absorb inj)
  then show ?thesis by (simp add: L_def out_def)
qed

end

end
