(* ===== verification/Asset_Keys.thy ===== *)
theory Asset_Keys
  imports Models
begin

text \<open>
  \<open>app/catalog/content_slug.py\<close> and \<open>app/services/r2_keys.py\<close>: the slug a title gets, and where the
  objects of a title lie in the bucket. The regular expressions are written out as functions on ASCII
  text (\<open>\w\<close>, \<open>\s\<close> and \<open>str.lower\<close> agree with Python there); the random tokens of
  \<open>uuid.uuid4().hex\<close> are arguments, and a content id is the text \<open>str(content_id)\<close>.
\<close>

section \<open>Slugs\<close>

definition is_word_char :: "char \<Rightarrow> bool" where
  "is_word_char c = (let n = (of_char c :: nat) in
     48 \<le> n \<and> n \<le> 57 \<or> 65 \<le> n \<and> n \<le> 90 \<or> 97 \<le> n \<and> n \<le> 122 \<or> n = 95)"

text \<open>\<open>re.sub("[class]+", c, s)\<close>: every maximal run of the class becomes one \<open>c\<close>.\<close>

function squeeze :: "(char \<Rightarrow> bool) \<Rightarrow> char \<Rightarrow> string \<Rightarrow> string" where
  "squeeze P c [] = []"
| "squeeze P c (x # xs) =
     (if P x then c # squeeze P c (dropWhile P xs) else x # squeeze P c xs)"
  by pat_completeness auto
termination
  by (relation "measure (\<lambda>(_, _, s). length s)") (auto simp: le_imp_less_Suc length_dropWhile_le)

definition strip_char :: "char \<Rightarrow> string \<Rightarrow> string" where
  "strip_char c s = rstrip_char c (lstrip_char c s)"

definition slugify :: "string \<Rightarrow> string" where
  "slugify text =
     (let t1 = strip (lower text);
          t2 = filter (\<lambda>c. is_word_char c \<or> is_space c \<or> c = CHR ''-'') t1;
          t3 = squeeze (\<lambda>c. is_space c \<or> c = CHR ''_'') (CHR ''-'') t2;
          t4 = squeeze (\<lambda>c. c = CHR ''-'') (CHR ''-'') t3
      in strip_char (CHR ''-'') t4)"

definition unique_content_slug :: "string \<Rightarrow> string \<Rightarrow> db \<Rightarrow> string" where
  "unique_content_slug token base d =
     (let slug = slugify base in
      if \<not> exists_row (\<lambda>c. ct_slug c = slug) (contents d) then slug
      else slug @ ''-'' @ take 6 token)"

definition unique_series_slug :: "string \<Rightarrow> string \<Rightarrow> db \<Rightarrow> string" where
  "unique_series_slug token base d =
     (let slug = slugify base in
      if \<not> exists_row (\<lambda>s. ser_slug s = slug) (series_table d) then slug
      else slug @ ''-'' @ take 6 token)"

section \<open>Object keys\<close>

definition poster_ext :: "string \<Rightarrow> string option" where
  "poster_ext = map_of [(''image/jpeg'', ''jpg''), (''image/jpg'', ''jpg''), (''image/png'', ''png''),
     (''image/webp'', ''webp'')]"

definition audio_ext :: "string \<Rightarrow> string option" where
  "audio_ext = map_of [(''audio/mpeg'', ''mp3''), (''audio/mp3'', ''mp3''), (''audio/mp4'', ''m4a''),
     (''audio/x-m4a'', ''m4a''), (''audio/m4a'', ''m4a''), (''audio/wav'', ''wav''),
     (''audio/x-wav'', ''wav''), (''audio/aac'', ''aac'')]"

definition hero_video_ext :: "string \<Rightarrow> string option" where
  "hero_video_ext = map_of [(''video/mp4'', ''mp4''), (''video/webm'', ''webm'')]"

definition get_or :: "string \<Rightarrow> string option \<Rightarrow> string" where
  "get_or dflt x = (case x of None \<Rightarrow> dflt | Some s \<Rightarrow> s)"

definition poster_extension :: "string \<Rightarrow> string" where
  "poster_extension content_type = get_or ''jpg'' (poster_ext content_type)"

definition image_filename :: "string \<Rightarrow> string \<Rightarrow> string \<Rightarrow> string" where
  "image_filename token stem content_type =
     stem @ ''-'' @ take 12 token @ ''.'' @ poster_extension content_type"

definition movie_dir :: "string \<Rightarrow> string" where "movie_dir slug = ''movies/'' @ slug"

definition movie_source_key :: "string \<Rightarrow> string" where
  "movie_source_key slug = movie_dir slug @ ''/source.mp4''"

definition movie_poster_key :: "string \<Rightarrow> string \<Rightarrow> string \<Rightarrow> string" where
  "movie_poster_key token slug content_type =
     movie_dir slug @ ''/'' @ image_filename token ''poster'' content_type"

definition movie_banner_key :: "string \<Rightarrow> string \<Rightarrow> string \<Rightarrow> string" where
  "movie_banner_key token slug content_type =
     movie_dir slug @ ''/'' @ image_filename token ''banner'' content_type"

definition movie_hls_prefix :: "string \<Rightarrow> string" where
  "movie_hls_prefix slug = movie_dir slug @ ''/hls''"

definition movie_hls_master_key :: "string \<Rightarrow> string" where
  "movie_hls_master_key slug = movie_hls_prefix slug @ ''/master.m3u8''"

definition is_movie_asset_key :: "string \<Rightarrow> string \<Rightarrow> bool" where
  "is_movie_asset_key slug key = starts_with (movie_dir slug @ ''/'') key"

definition podcast_dir :: "string \<Rightarrow> string" where "podcast_dir slug = ''podcasts/'' @ slug"

definition podcast_audio_extension :: "string \<Rightarrow> string" where
  "podcast_audio_extension content_type = get_or ''mp3'' (audio_ext (lower (strip content_type)))"

definition podcast_audio_key :: "string \<Rightarrow> string \<Rightarrow> string" where
  "podcast_audio_key slug content_type =
     podcast_dir slug @ ''/audio.'' @ podcast_audio_extension content_type"

definition podcast_poster_key :: "string \<Rightarrow> string \<Rightarrow> string \<Rightarrow> string" where
  "podcast_poster_key token slug content_type =
     podcast_dir slug @ ''/'' @ image_filename token ''poster'' content_type"

definition is_podcast_asset_key :: "string \<Rightarrow> string \<Rightarrow> bool" where
  "is_podcast_asset_key slug key = starts_with (podcast_dir slug @ ''/'') key"

definition series_dir :: "string \<Rightarrow> string" where "series_dir slug = ''series/'' @ slug"

definition series_poster_key :: "string \<Rightarrow> string \<Rightarrow> string \<Rightarrow> string" where
  "series_poster_key token slug content_type =
     series_dir slug @ ''/'' @ image_filename token ''poster'' content_type"

definition series_banner_key :: "string \<Rightarrow> string \<Rightarrow> string \<Rightarrow> string" where
  "series_banner_key token slug content_type =
     series_dir slug @ ''/'' @ image_filename token ''banner'' content_type"

definition is_series_asset_key :: "string \<Rightarrow> string \<Rightarrow> bool" where
  "is_series_asset_key slug key = starts_with (series_dir slug @ ''/'') key"

definition episode_dir :: "string \<Rightarrow> string \<Rightarrow> string" where
  "episode_dir series_slug episode_slug = series_dir series_slug @ ''/episodes/'' @ episode_slug"

definition episode_source_key :: "string \<Rightarrow> string \<Rightarrow> string" where
  "episode_source_key series_slug episode_slug = episode_dir series_slug episode_slug @ ''/source.mp4''"

definition episode_poster_key :: "string \<Rightarrow> string \<Rightarrow> string \<Rightarrow> string \<Rightarrow> string" where
  "episode_poster_key token series_slug episode_slug content_type =
     episode_dir series_slug episode_slug @ ''/'' @ image_filename token ''poster'' content_type"

definition episode_hls_prefix :: "string \<Rightarrow> string \<Rightarrow> string" where
  "episode_hls_prefix series_slug episode_slug = episode_dir series_slug episode_slug @ ''/hls''"

definition episode_hls_master_key :: "string \<Rightarrow> string \<Rightarrow> string" where
  "episode_hls_master_key series_slug episode_slug =
     episode_hls_prefix series_slug episode_slug @ ''/master.m3u8''"

definition is_episode_asset_key :: "string \<Rightarrow> string \<Rightarrow> string \<Rightarrow> bool" where
  "is_episode_asset_key series_slug episode_slug key =
     starts_with (episode_dir series_slug episode_slug @ ''/'') key"

text \<open>The two \<open>re.fullmatch\<close> patterns; \<open>[^/]+\<close> takes the longest run up to the next slash.\<close>

definition is_slash :: "char \<Rightarrow> bool" where "is_slash c \<longleftrightarrow> c = CHR ''/''"

definition segment_match :: "string \<Rightarrow> (string \<times> string) option" where
  "segment_match s =
     (let seg = takeWhile (\<lambda>c. \<not> is_slash c) s in
      if seg = [] then None else Some (seg, dropWhile (\<lambda>c. \<not> is_slash c) s))"

definition movie_source_match :: "string \<Rightarrow> string option" where
  "movie_source_match key =
     (if \<not> starts_with ''movies/'' key then None
      else (case segment_match (drop 7 key) of
              None \<Rightarrow> None
            | Some (slug, rest) \<Rightarrow> if rest = ''/source.mp4'' then Some slug else None))"

definition episode_source_match :: "string \<Rightarrow> (string \<times> string) option" where
  "episode_source_match key =
     (if \<not> starts_with ''series/'' key then None
      else (case segment_match (drop 7 key) of
              None \<Rightarrow> None
            | Some (series_slug, rest) \<Rightarrow>
                if \<not> starts_with ''/episodes/'' rest then None
                else (case segment_match (drop 10 rest) of
                        None \<Rightarrow> None
                      | Some (episode_slug, tail) \<Rightarrow>
                          if tail = ''/source.mp4'' then Some (series_slug, episode_slug) else None)))"

definition hls_prefix_for_source_key :: "string \<Rightarrow> string \<Rightarrow> string" where
  "hls_prefix_for_source_key source_key content_id =
     (case movie_source_match source_key of
        Some slug \<Rightarrow> movie_hls_prefix slug
      | None \<Rightarrow>
        (case episode_source_match source_key of
           Some (series_slug, episode_slug) \<Rightarrow> episode_hls_prefix series_slug episode_slug
         | None \<Rightarrow> ''hls/'' @ content_id))"

definition hls_master_key_for_source_key :: "string \<Rightarrow> string \<Rightarrow> string" where
  "hls_master_key_for_source_key source_key content_id =
     hls_prefix_for_source_key source_key content_id @ ''/master.m3u8''"

definition promotion_banner_image_key :: "string \<Rightarrow> string \<Rightarrow> string \<Rightarrow> string" where
  "promotion_banner_image_key token banner_id content_type =
     ''promotions/'' @ banner_id @ ''/'' @ image_filename token ''image'' content_type"

definition is_promotion_banner_image_key :: "string \<Rightarrow> string \<Rightarrow> bool" where
  "is_promotion_banner_image_key banner_id key \<longleftrightarrow>
     starts_with (''promotions/'' @ banner_id @ ''/'') key \<and>
     (ends_with ''.jpg'' key \<or> ends_with ''.jpeg'' key \<or> ends_with ''.png'' key \<or> ends_with ''.webp'' key)"

definition hero_banner_media_key :: "string \<Rightarrow> string \<Rightarrow> string" where
  "hero_banner_media_key media_id content_type =
     ''hero/banners/'' @ media_id @ ''.'' @ poster_extension content_type"

definition hero_video_media_key :: "string \<Rightarrow> string \<Rightarrow> string" where
  "hero_video_media_key media_id content_type =
     ''hero/videos/'' @ media_id @ ''.'' @ get_or ''mp4'' (hero_video_ext content_type)"

definition tv_channel_logo_key :: "string \<Rightarrow> string \<Rightarrow> string" where
  "tv_channel_logo_key slug content_type = ''tv/'' @ slug @ ''/logo.'' @ poster_extension content_type"

definition is_tv_channel_asset_key :: "string \<Rightarrow> string \<Rightarrow> bool" where
  "is_tv_channel_asset_key slug key = starts_with (''tv/'' @ slug @ ''/'') key"

section \<open>The shape of a slug\<close>

definition dash :: char where "dash = CHR ''-''"

definition slug_char :: "char \<Rightarrow> bool" where
  "slug_char c = (let n = (of_char c :: nat) in 48 \<le> n \<and> n \<le> 57 \<or> 97 \<le> n \<and> n \<le> 122 \<or> n = 45)"

definition slug_ok :: "string \<Rightarrow> bool" where
  "slug_ok s \<longleftrightarrow> list_all slug_char s \<and> successively (\<lambda>a b. \<not> (a = dash \<and> b = dash)) s \<and>
     (s \<noteq> [] \<longrightarrow> hd s \<noteq> dash \<and> last s \<noteq> dash)"

lemma of_char_inj: "(of_char c :: nat) = of_char d \<Longrightarrow> c = d"
  by (metis char_of_char)

lemma slug_char_dash [simp]: "slug_char dash"
  by (simp add: slug_char_def dash_def)

lemma slug_char_lower: "slug_char c \<Longrightarrow> lower_char c = c"
  by (auto simp: slug_char_def lower_char_def Let_def)

lemma slug_char_kept: "slug_char c \<Longrightarrow> is_word_char c \<or> is_space c \<or> c = dash"
  by (auto simp: slug_char_def is_word_char_def dash_def Let_def intro: of_char_inj)

lemma slug_char_not_sep: "slug_char c \<Longrightarrow> \<not> is_space c \<and> c \<noteq> CHR ''_''"
  by (auto simp: slug_char_def is_space_def Let_def)

lemma lowered_word_slug_char:
  assumes "is_word_char (lower_char c)" and "lower_char c \<noteq> CHR ''_''"
  shows "slug_char (lower_char c)"
proof -
  have n: "(of_char (lower_char c) :: nat) \<noteq> 95"
    using assms(2) of_char_inj [of "lower_char c" "CHR ''_''"] by auto
  show ?thesis
  proof (cases "65 \<le> (of_char c :: nat) \<and> (of_char c :: nat) \<le> 90")
    case True
    then have "(of_char (lower_char c) :: nat) = of_char c + 32"
      by (simp add: lower_char_def Let_def of_char_of take_bit_eq_mod)
    then show ?thesis using True by (simp add: slug_char_def Let_def)
  next
    case False
    then have "lower_char c = c" by (auto simp: lower_char_def Let_def)
    then show ?thesis using assms(1) n False by (auto simp: slug_char_def is_word_char_def Let_def)
  qed
qed

lemma set_squeeze: "set (squeeze P c s) \<subseteq> insert c {x \<in> set s. \<not> P x}"
proof (induction P c s rule: squeeze.induct)
  case (2 P c x xs)
  then show ?case by (auto dest: set_dropWhileD)
qed simp

lemma squeeze_id: "(\<And>x. x \<in> set s \<Longrightarrow> \<not> P x) \<Longrightarrow> squeeze P c s = s"
  by (induction s) auto

lemma hd_squeeze_other: "s \<noteq> [] \<Longrightarrow> \<not> P (hd s) \<Longrightarrow> hd (squeeze P c s) = hd s"
  by (cases s) auto

lemma squeeze_Nil [simp]: "squeeze P c s = [] \<longleftrightarrow> s = []"
  by (cases s) auto

lemma hd_dropWhile_neq: "dropWhile (\<lambda>x. x = c) s \<noteq> [] \<Longrightarrow> hd (dropWhile (\<lambda>x. x = c) s) \<noteq> c"
  using hd_dropWhile [of "\<lambda>x. x = c" s] by simp

lemma successively_squeeze:
  "successively (\<lambda>a b. \<not> (a = c \<and> b = c)) (squeeze (\<lambda>x. x = c) c s)"
proof (induction "\<lambda>x. x = c" c s rule: squeeze.induct)
  case (2 c x xs)
  show ?case
  proof (cases "x = c")
    case True
    have "hd (squeeze (\<lambda>x. x = c) c (dropWhile (\<lambda>x. x = c) xs)) \<noteq> c"
      if "dropWhile (\<lambda>x. x = c) xs \<noteq> []"
      using hd_squeeze_other [OF that, of "\<lambda>x. x = c" c] hd_dropWhile_neq [OF that] by simp
    then show ?thesis using True 2(1) by (auto simp: successively_Cons)
  next
    case False
    then show ?thesis using 2(2) by (auto simp: successively_Cons)
  qed
qed simp

lemma squeeze_noop:
  "successively (\<lambda>a b. \<not> (a = c \<and> b = c)) s \<Longrightarrow> squeeze (\<lambda>x. x = c) c s = s"
proof (induction s)
  case (Cons x xs)
  then have rest: "squeeze (\<lambda>x. x = c) c xs = xs" by (auto simp: successively_Cons)
  show ?case
  proof (cases "x = c")
    case True
    then have "dropWhile (\<lambda>x. x = c) xs = xs"
      using Cons.prems by (cases xs) auto
    then show ?thesis using True rest by simp
  next
    case False
    then show ?thesis using rest by simp
  qed
qed simp

lemma strip_char_set: "set (strip_char c s) \<subseteq> set s"
  by (auto simp: strip_char_def rstrip_char_def lstrip_char_def dest!: set_dropWhileD)

lemma successively_dropWhile: "successively R s \<Longrightarrow> successively R (dropWhile P s)"
  by (metis takeWhile_dropWhile_id successively_append_iff)

lemma successively_strip_char:
  assumes "successively (\<lambda>a b. \<not> (a = c \<and> b = c)) s"
  shows "successively (\<lambda>a b. \<not> (a = c \<and> b = c)) (strip_char c s)"
proof -
  let ?R = "\<lambda>a b. \<not> (a = c \<and> b = c)"
  have rev: "successively ?R (rev t)" if "successively ?R t" for t
    using that unfolding successively_rev by (rule successively_mono) auto
  show ?thesis
    unfolding strip_char_def rstrip_char_def lstrip_char_def
    by (intro rev successively_dropWhile assms)
qed

lemma strip_char_ends: "strip_char c s \<noteq> [] \<Longrightarrow> hd (strip_char c s) \<noteq> c \<and> last (strip_char c s) \<noteq> c"
proof -
  assume ne: "strip_char c s \<noteq> []"
  define t where "t = dropWhile (\<lambda>x. x = c) s"
  have st: "strip_char c s = rev (dropWhile (\<lambda>x. x = c) (rev t))"
    by (simp add: strip_char_def rstrip_char_def lstrip_char_def t_def)
  have "last (strip_char c s) = hd (dropWhile (\<lambda>x. x = c) (rev t))"
    using ne st by (simp add: last_rev)
  moreover have "dropWhile (\<lambda>x. x = c) (rev t) \<noteq> []" using ne st by simp
  ultimately have l: "last (strip_char c s) \<noteq> c" using hd_dropWhile_neq [of c "rev t"] by simp
  have "t \<noteq> []" using \<open>dropWhile (\<lambda>x. x = c) (rev t) \<noteq> []\<close> by auto
  then have "hd t \<noteq> c" unfolding t_def by (rule hd_dropWhile_neq)
  moreover have "t = strip_char c s @ rev (takeWhile (\<lambda>x. x = c) (rev t))"
    unfolding st by (simp flip: rev_append)
  ultimately have "hd (strip_char c s) \<noteq> c" using hd_append2 [OF ne] by metis
  then show ?thesis using l by simp
qed

lemma strip_char_noop: "s = [] \<or> hd s \<noteq> c \<and> last s \<noteq> c \<Longrightarrow> strip_char c s = s"
proof -
  assume a: "s = [] \<or> hd s \<noteq> c \<and> last s \<noteq> c"
  have "dropWhile (\<lambda>x. x = c) s = s" using a by (cases s) auto
  moreover have "dropWhile (\<lambda>x. x = c) (rev s) = rev s"
    using a by (cases s rule: rev_cases) auto
  ultimately show ?thesis by (simp add: strip_char_def rstrip_char_def lstrip_char_def)
qed

lemma slugify_ok: "slug_ok (slugify text)"
proof -
  define t2 where "t2 = filter (\<lambda>c. is_word_char c \<or> is_space c \<or> c = CHR ''-'') (strip (lower text))"
  define t3 where "t3 = squeeze (\<lambda>c. is_space c \<or> c = CHR ''_'') dash t2"
  define t4 where "t4 = squeeze (\<lambda>c. c = dash) dash t3"
  have sl: "slugify text = strip_char dash t4"
    by (simp add: slugify_def Let_def t4_def t3_def t2_def dash_def)
  have low: "c \<in> lower_char ` set text" if "c \<in> set t2" for c
    using that unfolding t2_def strip_def rstrip_def lstrip_def lower_def
    by (auto dest!: set_dropWhileD)
  have keep: "slug_char c" if c: "c \<in> set t2" "\<not> is_space c" "c \<noteq> CHR ''_''" for c
  proof -
    obtain x where x: "c = lower_char x" using low [OF c(1)] by auto
    have "is_word_char c \<or> c = dash" using c(1,2) by (auto simp: t2_def dash_def)
    then show ?thesis using lowered_word_slug_char [of x] x c(3) by auto
  qed
  have t3c: "c = dash \<or> c \<in> set t2 \<and> \<not> is_space c \<and> c \<noteq> CHR ''_''" if "c \<in> set t3" for c
    using that set_squeeze [of "\<lambda>c. is_space c \<or> c = CHR ''_''" dash t2] by (auto simp: t3_def)
  have "list_all slug_char t3" unfolding list_all_iff
  proof
    fix c assume "c \<in> set t3"
    from t3c [OF this] show "slug_char c" using keep by auto
  qed
  then have "list_all slug_char t4"
    using set_squeeze [of "\<lambda>c. c = dash" dash t3] by (auto simp: t4_def list_all_iff)
  then have "list_all slug_char (slugify text)"
    using strip_char_set [of dash t4] by (auto simp: sl list_all_iff)
  moreover have "successively (\<lambda>a b. \<not> (a = dash \<and> b = dash)) (slugify text)"
    unfolding sl t4_def by (rule successively_strip_char [OF successively_squeeze])
  ultimately show ?thesis
    using strip_char_ends [of dash t4] by (simp add: slug_ok_def sl)
qed

lemma slugify_id:
  assumes "slug_ok s"
  shows "slugify s = s"
proof -
  have ch: "\<And>c. c \<in> set s \<Longrightarrow> slug_char c" using assms by (simp add: slug_ok_def list_all_iff)
  have low: "lower s = s" unfolding lower_def by (rule map_idI) (simp add: ch slug_char_lower)
  have nosp: "dropWhile is_space t = t" if "set t \<subseteq> set s" for t
    using that slug_char_not_sep ch by (cases t) auto
  have st: "strip s = s" by (simp add: strip_def rstrip_def lstrip_def nosp)
  have fl: "filter (\<lambda>c. is_word_char c \<or> is_space c \<or> c = CHR ''-'') s = s"
    using slug_char_kept ch by (auto simp: filter_id_conv dash_def)
  have sq: "squeeze (\<lambda>c. is_space c \<or> c = CHR ''_'') (CHR ''-'') s = s"
    using slug_char_not_sep ch by (intro squeeze_id) auto
  have sq2: "squeeze (\<lambda>c. c = CHR ''-'') (CHR ''-'') s = s"
    using assms by (intro squeeze_noop) (simp add: slug_ok_def dash_def)
  have "strip_char (CHR ''-'') s = s"
    using assms by (intro strip_char_noop) (auto simp: slug_ok_def dash_def)
  then show ?thesis by (simp add: slugify_def low st fl sq sq2)
qed

text \<open>No suffix of \<open>uuid4().hex\<close> breaks a slug, and a fresh one makes it new.\<close>

lemma slug_ok_suffix:
  assumes "slug_ok s" "s \<noteq> []" "u \<noteq> []" "list_all slug_char u" "dash \<notin> set u"
  shows "slug_ok (s @ ''-'' @ u)"
proof -
  have "successively (\<lambda>a b. \<not> (a = dash \<and> b = dash)) u"
    using assms(5) by (induction u) (auto simp: successively_Cons)
  moreover have "hd u \<noteq> dash" "last u \<noteq> dash" using assms(3,5) hd_in_set last_in_set by metis+
  ultimately show ?thesis
    using assms by (auto simp: slug_ok_def successively_append_iff successively_Cons dash_def list_all_iff
        slug_char_def)
qed

text \<open>
  A title's slug is URL- and path-safe. \<open>slugify\<close> yields only lower-case letters, digits and
  single inner dashes, leaves such a text alone (so it is idempotent), and \<open>unique_content_slug\<close>
  returns such a slug that no content row has, when the random suffix it may add is hexadecimal and
  does not collide and the title has a letter or digit to keep.
\<close>

theorem slug_shape:
  assumes "slugify base \<noteq> []" and "take 6 token \<noteq> []"
    and "list_all slug_char token" and "dash \<notin> set token"
    and "\<not> exists_row (\<lambda>c. ct_slug c = slugify base @ ''-'' @ take 6 token) (contents d)"
  shows "slug_ok (slugify title) \<and> slugify (slugify title) = slugify title \<and>
    slug_ok (unique_content_slug token base d) \<and> CHR ''/'' \<notin> set (unique_content_slug token base d) \<and>
    \<not> exists_row (\<lambda>c. ct_slug c = unique_content_slug token base d) (contents d) \<and>
    (\<not> exists_row (\<lambda>c. ct_slug c = slugify base) (contents d) \<longrightarrow> unique_content_slug token base d = slugify base)"
proof -
  have "list_all slug_char (take 6 token)" "dash \<notin> set (take 6 token)"
    using assms(3,4) by (auto simp: list_all_iff dest: in_set_takeD)
  then have ok: "slug_ok (unique_content_slug token base d)"
    using slug_ok_suffix [OF slugify_ok assms(1,2)] slugify_ok
    by (simp add: unique_content_slug_def Let_def)
  then have "CHR ''/'' \<notin> set (unique_content_slug token base d)"
    by (auto simp: slug_ok_def list_all_iff slug_char_def)
  moreover have "\<not> exists_row (\<lambda>c. ct_slug c = unique_content_slug token base d) (contents d)"
    using assms(5) by (auto simp: unique_content_slug_def Let_def)
  ultimately show ?thesis
    using ok slugify_ok [of title] slugify_id [OF slugify_ok [of title]]
    by (simp add: unique_content_slug_def Let_def)
qed

theorem slug_shape_witness:
  "slugify '' The_ Long  Night!'' = ''the-long-night'' \<and>
   unique_content_slug ''a1b2c3d4'' ''The Long Night'' empty_db = ''the-long-night'' \<and>
   slug_ok (unique_content_slug ''a1b2c3d4'' ''The Long Night'' empty_db)"
proof -
  have s: "slugify ''The Long Night'' = ''the-long-night''" "slugify '' The_ Long  Night!'' = ''the-long-night''"
    by code_simp+
  have p: "slugify ''The Long Night'' \<noteq> []" "take 6 ''a1b2c3d4'' \<noteq> []"
    "\<not> exists_row (\<lambda>c. ct_slug c = slugify ''The Long Night'' @ ''-'' @ take 6 ''a1b2c3d4'') (contents empty_db)"
    using s by simp_all
  have q: "list_all slug_char ''a1b2c3d4''" "dash \<notin> set ''a1b2c3d4''" by code_simp+
  have "slug_ok (unique_content_slug ''a1b2c3d4'' ''The Long Night'' empty_db)"
    using slug_shape [OF p(1,2) q p(3)] by blast
  then show ?thesis using s by (simp add: unique_content_slug_def)
qed

section \<open>Keys lead back to their title\<close>

definition key_slug :: "string \<Rightarrow> bool" where
  "key_slug s \<longleftrightarrow> s \<noteq> [] \<and> CHR ''/'' \<notin> set s"

lemma slug_ok_key_slug: "slug_ok s \<Longrightarrow> s \<noteq> [] \<Longrightarrow> key_slug s"
  by (auto simp: slug_ok_def key_slug_def list_all_iff slug_char_def)

lemma segment_split:
  assumes "CHR ''/'' \<notin> set s"
  shows "takeWhile (\<lambda>c. \<not> is_slash c) (s @ CHR ''/'' # t) = s"
    and "dropWhile (\<lambda>c. \<not> is_slash c) (s @ CHR ''/'' # t) = CHR ''/'' # t"
  using assms by (induction s) (auto simp: is_slash_def)

lemma segment_match_split: "key_slug s \<Longrightarrow> segment_match (s @ CHR ''/'' # t) = Some (s, CHR ''/'' # t)"
  by (simp add: segment_match_def key_slug_def segment_split Let_def)

lemma same_segment:
  assumes "CHR ''/'' \<notin> set a" "CHR ''/'' \<notin> set b" "a @ CHR ''/'' # x = b @ CHR ''/'' # y"
  shows "a = b" "x = y"
  using segment_split [OF assms(1), of x] segment_split [OF assms(2), of y] assms(3) by auto

lemma movie_source_match_key: "key_slug s \<Longrightarrow> movie_source_match (movie_source_key s) = Some s"
  by (simp add: movie_source_match_def movie_source_key_def movie_dir_def segment_match_split)

lemma episode_source_match_key:
  "key_slug s \<Longrightarrow> key_slug e \<Longrightarrow> episode_source_match (episode_source_key s e) = Some (s, e)"
  by (simp add: episode_source_match_def episode_source_key_def episode_dir_def series_dir_def
      segment_match_split)

lemma not_movie_episode: "movie_source_match (episode_source_key s e) = None"
  by (simp add: movie_source_match_def episode_source_key_def episode_dir_def series_dir_def)

text \<open>
  Every object key leads back to its title, and to no other. A transcode of a movie's or an
  episode's source is written under that title's own HLS prefix; a key that passes one title's asset
  test is refused by every other movie and podcast and belongs to at most one series and one episode
  of it. A source key of an empty slug is not recognised and falls back to the legacy layout.
\<close>

theorem asset_keys_confined:
  assumes "key_slug s" and "key_slug e" and "key_slug s'" and "key_slug e'"
  shows "hls_prefix_for_source_key (movie_source_key s) cid = movie_hls_prefix s \<and>
    hls_prefix_for_source_key (episode_source_key s e) cid = episode_hls_prefix s e \<and>
    hls_prefix_for_source_key (movie_source_key []) cid = ''hls/'' @ cid \<and>
    is_movie_asset_key s (movie_source_key s) \<and> is_movie_asset_key s (movie_hls_master_key s) \<and>
    is_movie_asset_key s (movie_poster_key tok s ctype) \<and> is_movie_asset_key s (movie_banner_key tok s ctype) \<and>
    is_podcast_asset_key s (podcast_audio_key s ctype) \<and>
    is_episode_asset_key s e (episode_poster_key tok s e ctype) \<and>
    is_episode_asset_key s e (episode_hls_master_key s e) \<and>
    (is_movie_asset_key s k \<and> is_movie_asset_key s' k \<longrightarrow> s = s') \<and>
    (is_podcast_asset_key s k \<and> is_podcast_asset_key s' k \<longrightarrow> s = s') \<and>
    (is_series_asset_key s k \<and> is_series_asset_key s' k \<longrightarrow> s = s') \<and>
    (is_episode_asset_key s e k \<and> is_episode_asset_key s' e' k \<longrightarrow> s = s' \<and> e = e') \<and>
    (is_movie_asset_key s k \<longrightarrow> \<not> is_podcast_asset_key s' k \<and> \<not> is_series_asset_key s' k)"
proof (intro conjI impI)
  have sl: "CHR ''/'' \<notin> set s" "CHR ''/'' \<notin> set e" "CHR ''/'' \<notin> set s'" "CHR ''/'' \<notin> set e'"
    using assms by (simp_all add: key_slug_def)
  show "hls_prefix_for_source_key (movie_source_key s) cid = movie_hls_prefix s"
    by (simp add: hls_prefix_for_source_key_def movie_source_match_key assms)
  show "hls_prefix_for_source_key (episode_source_key s e) cid = episode_hls_prefix s e"
    by (simp add: hls_prefix_for_source_key_def not_movie_episode episode_source_match_key assms)
  show "hls_prefix_for_source_key (movie_source_key []) cid = ''hls/'' @ cid"
    by (simp add: hls_prefix_for_source_key_def movie_source_match_def episode_source_match_def
        movie_source_key_def movie_dir_def segment_match_def is_slash_def)
  show "s = s'" if "is_movie_asset_key s k \<and> is_movie_asset_key s' k"
    using that same_segment(1) [OF sl(1,3)]
    by (auto simp: is_movie_asset_key_def movie_dir_def starts_with_iff)
  show "s = s'" if "is_podcast_asset_key s k \<and> is_podcast_asset_key s' k"
    using that same_segment(1) [OF sl(1,3)]
    by (auto simp: is_podcast_asset_key_def podcast_dir_def starts_with_iff)
  show "s = s'" if "is_series_asset_key s k \<and> is_series_asset_key s' k"
    using that same_segment(1) [OF sl(1,3)]
    by (auto simp: is_series_asset_key_def series_dir_def starts_with_iff)
  have ep: "s = s' \<and> e = e'" if "is_episode_asset_key s e k \<and> is_episode_asset_key s' e' k"
  proof -
    note ks = that
    obtain x y where "k = (episode_dir s e @ ''/'') @ x" "k = (episode_dir s' e' @ ''/'') @ y"
      using ks unfolding is_episode_asset_key_def starts_with_iff by blast
    then have k: "s @ CHR ''/'' # (''episodes/'' @ e @ CHR ''/'' # x) = s' @ CHR ''/'' # (''episodes/'' @ e' @ CHR ''/'' # y)"
      by (simp add: episode_dir_def series_dir_def)
    then have "e @ CHR ''/'' # x = e' @ CHR ''/'' # y"
      using same_segment(2) [OF sl(1,3) k] by simp
    then show ?thesis using same_segment(1) [OF sl(1,3) k] same_segment(1) [OF sl(2,4)] by blast
  qed
  show "s = s'" "e = e'" if "is_episode_asset_key s e k \<and> is_episode_asset_key s' e' k"
    using ep [OF that] by simp_all
  show "\<not> is_podcast_asset_key s' k" "\<not> is_series_asset_key s' k" if "is_movie_asset_key s k"
    using that by (auto simp: is_movie_asset_key_def is_podcast_asset_key_def is_series_asset_key_def
        movie_dir_def podcast_dir_def series_dir_def starts_with_iff)
qed (simp_all add: is_movie_asset_key_def movie_source_key_def movie_hls_master_key_def movie_hls_prefix_def
    movie_poster_key_def movie_banner_key_def is_podcast_asset_key_def podcast_audio_key_def
    is_episode_asset_key_def episode_poster_key_def episode_hls_master_key_def episode_hls_prefix_def
    starts_with_iff)

theorem asset_keys_confined_witness:
  "hls_prefix_for_source_key ''series/ash/episodes/ash-s01e02/source.mp4'' ''7'' =
     ''series/ash/episodes/ash-s01e02/hls''"
proof -
  have k: "key_slug ''ash''" "key_slug ''ash-s01e02''" by (simp_all add: key_slug_def)
  have "hls_prefix_for_source_key (episode_source_key ''ash'' ''ash-s01e02'') ''7'' =
      episode_hls_prefix ''ash'' ''ash-s01e02''"
    using asset_keys_confined [OF k k] by blast
  then show ?thesis
    by (simp add: episode_source_key_def episode_hls_prefix_def episode_dir_def series_dir_def)
qed

end
