(* ===== verification/Catalog_Admin.thy ===== *)
theory Catalog_Admin
  imports Publishing Deletion Ordering Asset_Keys
begin

text \<open>
  The routes that create, edit, order and delete movies and podcasts: \<open>app/routers/movies.py\<close>,
  \<open>app/routers/admin/movies.py\<close> and \<open>app/routers/admin/podcasts.py\<close>, with the request schemas they
  validate. A handler returns its answer, the database and the cache keys it drops, or the error,
  which rolls everything back. Presigned URLs, the outcome of storage calls and the image optimiser
  are arguments: \<open>exists\<close> is \<open>storage.object_exists\<close>, \<open>optimize\<close> is \<open>optimize_r2_image\<close> at the key
  and kind it is given. The SQLAlchemy session flushes pending changes before a query.
\<close>

section \<open>Schemas\<close>

definition min_price_usd :: decimal where "min_price_usd = 3/100"

definition validate_usd_price :: "decimal \<Rightarrow> decimal result" where
  "validate_usd_price amount =
     (if amount < 0 then Inl (ValueError ''Price cannot be negative.'')
      else if amount = 0 then Inr amount
      else if min_price_usd \<le> amount then Inr amount
      else Inl (ValueError ''Price must be 0 (free) or at least 0.03 USD.''))"

definition empty_to_none :: "string option \<Rightarrow> string option" where
  "empty_to_none v = (case v of None \<Rightarrow> None | Some s \<Rightarrow> (case strip s of [] \<Rightarrow> None | t \<Rightarrow> Some t))"

text \<open>
  \<open>ContentUpdate\<close> with the fields the request sets (\<open>exclude_unset\<close>): \<open>Some None\<close> is a field sent as
  \<open>null\<close>.
\<close>

record content_update =
  cu_title :: "string option option"
  cu_title_km :: "string option option"
  cu_description :: "string option option"
  cu_genres :: "string list option option"
  cu_region :: "string option option"
  cu_release_year :: "int option option"
  cu_rating :: "decimal option option"
  cu_runtime :: "string option option"
  cu_runtime_minutes :: "int option option"
  cu_trailer_url :: "string option option"
  cu_status :: "string option option"
  cu_is_published :: "bool option option"
  cu_publish_at :: "datetime option option"
  cu_is_free :: "bool option option"
  cu_price_usd :: "decimal option option"
  cu_season_number :: "int option option"
  cu_episode_number :: "int option option"
  cu_sort_order :: "int option option"

definition no_update :: content_update where
  "no_update = \<lparr>cu_title = None, cu_title_km = None, cu_description = None, cu_genres = None,
     cu_region = None, cu_release_year = None, cu_rating = None, cu_runtime = None,
     cu_runtime_minutes = None, cu_trailer_url = None, cu_status = None, cu_is_published = None,
     cu_publish_at = None, cu_is_free = None, cu_price_usd = None, cu_season_number = None,
     cu_episode_number = None, cu_sort_order = None\<rparr>"

text \<open>The schema's own validation; a refused request never reaches the handler (422).\<close>

definition valid_content_update :: "content_update \<Rightarrow> bool" where
  "valid_content_update u \<longleftrightarrow>
     (case cu_runtime_minutes u of Some (Some n) \<Rightarrow> 0 < n | _ \<Rightarrow> True) \<and>
     (case cu_price_usd u of Some (Some p) \<Rightarrow> is_ok (validate_usd_price p) | _ \<Rightarrow> True)"

definition normalize_content_update :: "content_update \<Rightarrow> content_update" where
  "normalize_content_update u =
     u\<lparr>cu_title_km := map_option empty_to_none (cu_title_km u),
       cu_region := map_option empty_to_none (cu_region u)\<rparr>"

section \<open>Writing a row\<close>

text \<open>The CHECK of 0001 and 0051 on \<open>content\<close>, and its unique slug.\<close>

definition content_check :: "content_row \<Rightarrow> bool" where
  "content_check c \<longleftrightarrow>
     ct_type c = ''single'' \<and> ct_price_usd c \<noteq> None \<and> ct_series_id c = None \<or>
     ct_type c = ''episode'' \<and> ct_series_id c \<noteq> None \<and> ct_price_usd c = None \<or>
     ct_type c = ''podcast'' \<and> ct_price_usd c \<noteq> None \<and> ct_series_id c = None"

definition put_content :: "content_row \<Rightarrow> db \<Rightarrow> db" where
  "put_content c d = d\<lparr>contents := update_where (\<lambda>x. ct_id x = ct_id c) (\<lambda>_. c) (contents d)\<rparr>"

definition insert_content :: "content_row \<Rightarrow> db \<Rightarrow> db result" where
  "insert_content c d =
     (if exists_row (\<lambda>x. ct_id x = ct_id c \<or> ct_slug x = ct_slug c) (contents d) \<or> \<not> content_check c
      then Inl IntegrityError else Inr (d\<lparr>contents := contents d @ [c]\<rparr>))"

text \<open>\<open>setattr\<close> for a field the request sets; \<open>null\<close> in a NOT NULL column fails when it is flushed.\<close>

definition set_field :: "'a option \<Rightarrow> ('a \<Rightarrow> 'r \<Rightarrow> 'r) \<Rightarrow> 'r \<Rightarrow> 'r" where
  "set_field v f r = (case v of None \<Rightarrow> r | Some x \<Rightarrow> f x r)"

definition set_required :: "'a option option \<Rightarrow> ('a \<Rightarrow> 'r \<Rightarrow> 'r) \<Rightarrow> 'r \<Rightarrow> 'r" where
  "set_required v f r = (case v of Some (Some x) \<Rightarrow> f x r | _ \<Rightarrow> r)"

definition null_columns :: "content_update \<Rightarrow> bool" where
  "null_columns u \<longleftrightarrow> cu_title u = Some None \<or> cu_genres u = Some None \<or> cu_is_free u = Some None \<or>
     cu_sort_order u = Some None"

definition assign_content :: "content_update \<Rightarrow> content_row \<Rightarrow> content_row" where
  "assign_content u m =
     set_required (cu_title u) (\<lambda>x c. c\<lparr>ct_title := x\<rparr>) (set_field (cu_title_km u) (\<lambda>x c. c\<lparr>ct_title_km := x\<rparr>)
     (set_field (cu_description u) (\<lambda>x c. c\<lparr>ct_description := x\<rparr>) (set_required (cu_genres u) (\<lambda>x c. c\<lparr>ct_genres := x\<rparr>)
     (set_field (cu_region u) (\<lambda>x c. c\<lparr>ct_region := x\<rparr>) (set_field (cu_release_year u) (\<lambda>x c. c\<lparr>ct_release_year := x\<rparr>)
     (set_field (cu_rating u) (\<lambda>x c. c\<lparr>ct_rating := x\<rparr>) (set_field (cu_runtime u) (\<lambda>x c. c\<lparr>ct_runtime := x\<rparr>)
     (set_field (cu_trailer_url u) (\<lambda>x c. c\<lparr>ct_trailer_url := x\<rparr>) (set_required (cu_is_published u) (\<lambda>x c. c\<lparr>ct_is_published := x\<rparr>)
     (set_required (cu_is_free u) (\<lambda>x c. c\<lparr>ct_is_free := x\<rparr>) (set_field (cu_price_usd u) (\<lambda>x c. c\<lparr>ct_price_usd := x\<rparr>)
     (set_field (cu_season_number u) (\<lambda>x c. c\<lparr>ct_season_number := x\<rparr>)
     (set_field (cu_episode_number u) (\<lambda>x c. c\<lparr>ct_episode_number := x\<rparr>)
     (set_required (cu_sort_order u) (\<lambda>x c. c\<lparr>ct_sort_order := x\<rparr>) m))))))))))))))"

definition assign_runtime :: "content_update \<Rightarrow> content_row \<Rightarrow> content_row result" where
  "assign_runtime u m =
     (case cu_runtime_minutes u of
        None \<Rightarrow> Inr m
      | Some None \<Rightarrow> Inr (m\<lparr>ct_duration_seconds := None, ct_runtime := None\<rparr>)
      | Some (Some n) \<Rightarrow> apply_runtime_minutes (Some n) m)"

section \<open>Movies\<close>

text \<open>
  The body \<open>update_movie\<close> and \<open>update_admin_movie\<close> share. The readiness check queries the transcode jobs
  only when nothing else decides it, and the flush that query forces is what fails first then.
\<close>

definition patch_movie :: "content_update \<Rightarrow> content_row \<Rightarrow> db \<Rightarrow> (content_row \<times> db) result" where
  "patch_movie u movie d =
     (let status = (case cu_status u of None \<Rightarrow> None | Some s \<Rightarrow> s);
          normalized = status \<noteq> None \<or> cu_publish_at u \<noteq> None
      in case assign_runtime u (assign_content u movie) of
           Inl e \<Rightarrow> Inl e
         | Inr m2 \<Rightarrow>
           (case (if normalized then apply_movie_publish_state status (cu_publish_at u) m2 else Inr m2) of
              Inl e \<Rightarrow> Inl e
            | Inr m3 \<Rightarrow>
              (let broken = null_columns u \<or> (cu_is_published u = Some None \<and> \<not> normalized) \<or> \<not> content_check m3;
                   committed = (if broken then Inl IntegrityError else Inr (m3, put_content m3 d))
               in if ct_status m3 = ''published'' then
                    (case ensure_movie_publishable d m3 of
                       Inl e \<Rightarrow> Inl (if broken \<and> truthy (ct_poster_key m3) then IntegrityError else e)
                     | Inr _ \<Rightarrow> committed)
                  else committed)))"

definition find_movie :: "(content_row \<Rightarrow> bool) \<Rightarrow> db \<Rightarrow> content_row result" where
  "find_movie P d =
     (case select_one (\<lambda>c. P c \<and> ct_type c = ''single'') (contents d) of
        None \<Rightarrow> Inl (NotFoundError ''Movie not found'') | Some c \<Rightarrow> Inr c)"

definition update_movie :: "string \<Rightarrow> content_update \<Rightarrow> db \<Rightarrow> (content_row \<times> db \<times> drop list) result" where
  "update_movie slug data d =
     (case find_movie (\<lambda>c. ct_slug c = slug) d of
        Inl e \<Rightarrow> Inl e
      | Inr movie \<Rightarrow>
        (case patch_movie (normalize_content_update data) movie d of
           Inl e \<Rightarrow> Inl e
         | Inr (m, d') \<Rightarrow> Inr (m, d', [DropPrefix ''movies:'', DropKey ''home-sections''])))"

definition update_admin_movie :: "uuid \<Rightarrow> content_update \<Rightarrow> db \<Rightarrow> (content_row \<times> db \<times> drop list) result" where
  "update_admin_movie movie_id data d =
     (case find_movie (\<lambda>c. ct_id c = movie_id) d of
        Inl e \<Rightarrow> Inl e
      | Inr movie \<Rightarrow>
        (case patch_movie (normalize_content_update data) movie d of
           Inl e \<Rightarrow> Inl e
         | Inr (m, d') \<Rightarrow> Inr (m, d', [DropPrefix ''movies:''])))"

record movie_create =
  mc_title :: string
  mc_title_km :: "string option"
  mc_description :: "string option"
  mc_genres :: "string list"
  mc_region :: "string option"
  mc_release_year :: "int option"
  mc_rating :: "decimal option"
  mc_runtime_minutes :: "int option"
  mc_price_usd :: decimal
  mc_trailer_url :: "string option"
  mc_sort_order :: int

definition valid_movie_create :: "movie_create \<Rightarrow> bool" where
  "valid_movie_create data \<longleftrightarrow> strip (mc_title data) \<noteq> [] \<and> is_ok (validate_usd_price (mc_price_usd data)) \<and>
     (case mc_runtime_minutes data of None \<Rightarrow> True | Some n \<Rightarrow> 0 < n)"

definition create_admin_movie_draft ::
    "datetime \<Rightarrow> uuid \<Rightarrow> string \<Rightarrow> movie_create \<Rightarrow> db \<Rightarrow> (content_row \<times> db \<times> drop list) result" where
  "create_admin_movie_draft now fresh token data d =
     (let title = strip (mc_title data);
          movie = default_content\<lparr>ct_id := fresh, ct_type := ''single'',
            ct_slug := unique_content_slug token title d, ct_title := title,
            ct_title_km := empty_to_none (mc_title_km data), ct_description := mc_description data,
            ct_genres := mc_genres data, ct_region := empty_to_none (mc_region data),
            ct_release_year := mc_release_year data, ct_rating := mc_rating data,
            ct_price_usd := Some (mc_price_usd data), ct_trailer_url := mc_trailer_url data,
            ct_sort_order := mc_sort_order data, ct_status := ''draft'', ct_is_published := False,
            ct_transcode_status := ''pending'', ct_created_at := now\<rparr>
      in case apply_runtime_minutes (mc_runtime_minutes data) movie of
           Inl e \<Rightarrow> Inl e
         | Inr m \<Rightarrow>
           (case insert_content m d of
              Inl e \<Rightarrow> Inl e
            | Inr d' \<Rightarrow> Inr (m, d', [DropPrefix ''movies:''])))"

text \<open>\<open>part_count\<close> and the errors of \<open>storage.multipart_part_count\<close> / \<open>generate_presigned_part_urls\<close>.\<close>

definition multipart_part_size :: int where "multipart_part_size = 50 * 1024 * 1024"

definition multipart_part_count :: "int \<Rightarrow> int result" where
  "multipart_part_count file_size =
     (if file_size < 1 then Inl (ValueError ''file_size_bytes must be positive'')
      else Inr (max 1 ((file_size + multipart_part_size - 1) div multipart_part_size)))"

definition presigned_parts :: "int \<Rightarrow> int list result" where
  "presigned_parts part_count =
     (if part_count < 1 \<or> 10000 < part_count then Inl (ValueError ''part_count must be between 1 and 10000'')
      else Inr [1..part_count])"

definition start_multipart_upload :: "int \<Rightarrow> (int \<times> int list) result" where
  "start_multipart_upload file_size =
     (case multipart_part_count file_size of
        Inl e \<Rightarrow> Inl e
      | Inr n \<Rightarrow> (case presigned_parts n of Inl e \<Rightarrow> Inl e | Inr parts \<Rightarrow> Inr (n, parts)))"

text \<open>The answer's keys: slug, source, poster, banner; the parts of the upload.\<close>

definition start_movie_upload ::
    "string \<Rightarrow> string \<Rightarrow> string \<Rightarrow> string \<Rightarrow> string option \<Rightarrow> string option \<Rightarrow> int \<Rightarrow> db \<Rightarrow>
     (string \<times> string \<times> string option \<times> string option \<times> int \<times> int list) result" where
  "start_movie_upload slug_token poster_token banner_token raw_title poster_type banner_type file_size d =
     (let title = strip raw_title in
      if title = [] then Inl (HTTPException 422 ''title is required'')
      else
       (let slug = unique_content_slug slug_token title d;
            poster = (if truthy poster_type then Some (movie_poster_key poster_token slug (the poster_type)) else None);
            banner = (if truthy banner_type then Some (movie_banner_key banner_token slug (the banner_type)) else None)
        in case start_multipart_upload file_size of
             Inl e \<Rightarrow> Inl e
           | Inr (n, parts) \<Rightarrow> Inr (slug, movie_source_key slug, poster, banner, n, parts)))"

text \<open>\<open>complete_multipart_upload\<close>: \<open>assembled\<close> is whether the storage accepts the parts.\<close>

definition complete_multipart_upload :: "bool \<Rightarrow> (int \<times> string) list \<Rightarrow> (int \<times> string) list result" where
  "complete_multipart_upload assembled parts =
     (if parts = [] then Inl (HTTPException 422 ''parts list is empty'')
      else if \<not> assembled then Inl (HTTPException 409 ''Failed to complete multipart upload'')
      else Inr (sort_key fst parts))"

definition verify_storage_object_exists ::
    "(string \<Rightarrow> bool) \<Rightarrow> string option \<Rightarrow> string \<Rightarrow> unit result" where
  "verify_storage_object_exists exists key detail =
     (if truthy key \<and> \<not> exists (the key) then Inl (HTTPException 409 detail) else Inr ())"

record movie_upload =
  mu_content_id :: uuid
  mu_slug :: string
  mu_source_key :: string
  mu_parts :: "(int \<times> string) list"
  mu_title :: string
  mu_title_km :: "string option"
  mu_price_usd :: decimal
  mu_description :: "string option"
  mu_genres :: "string list"
  mu_region :: "string option"
  mu_release_year :: "int option"
  mu_rating :: "decimal option"
  mu_runtime_minutes :: "int option"
  mu_status :: string
  mu_publish_at :: "datetime option"
  mu_trailer_url :: "string option"
  mu_poster_key :: "string option"
  mu_banner_key :: "string option"

definition check_movie_upload :: "movie_upload \<Rightarrow> unit result" where
  "check_movie_upload data =
     (case as_422 (validate_content_status (Some (mu_status data))) of
        Inl e \<Rightarrow> Inl e
      | Inr _ \<Rightarrow>
        if mu_source_key data \<noteq> movie_source_key (mu_slug data)
        then Inl (HTTPException 422 ''source_key does not match slug'')
        else if truthy (mu_poster_key data) \<and> \<not> is_movie_asset_key (mu_slug data) (the (mu_poster_key data))
        then Inl (HTTPException 422 ''poster_key does not match slug'')
        else if truthy (mu_banner_key data) \<and> \<not> is_movie_asset_key (mu_slug data) (the (mu_banner_key data))
        then Inl (HTTPException 422 ''banner_key does not match slug'')
        else if mu_status data = ''published'' \<and> \<not> truthy (mu_poster_key data)
        then Inl (HTTPException 422 ''A poster is required before publishing.'')
        else Inr ())"

definition uploaded_movie ::
    "datetime \<Rightarrow> (string option \<Rightarrow> string \<Rightarrow> string option) \<Rightarrow> movie_upload \<Rightarrow> content_row" where
  "uploaded_movie now optimize data =
     default_content\<lparr>ct_id := mu_content_id data, ct_type := ''single'', ct_slug := mu_slug data,
       ct_title := mu_title data, ct_title_km := empty_to_none (mu_title_km data),
       ct_description := mu_description data, ct_genres := mu_genres data,
       ct_region := empty_to_none (mu_region data), ct_release_year := mu_release_year data,
       ct_rating := mu_rating data, ct_price_usd := Some (mu_price_usd data),
       ct_poster_key := optimize (mu_poster_key data) ''poster'',
       ct_banner_key := optimize (mu_banner_key data) ''banner'', ct_trailer_url := mu_trailer_url data,
       ct_status := mu_status data, ct_is_published := False, ct_publish_at := mu_publish_at data,
       ct_transcode_status := ''pending'', ct_created_at := now\<rparr>"

definition add_job :: "uuid \<Rightarrow> uuid \<Rightarrow> string \<Rightarrow> db \<Rightarrow> db" where
  "add_job fresh cid source d = d\<lparr>transcode_jobs := transcode_jobs d @
     [\<lparr>job_id = fresh, job_content_id = cid, job_source_key = source, job_status = ''queued'',
       job_attempts = 0, job_error = None\<rparr>]\<rparr>"

text \<open>
  The upload's storage steps come after the request's checks; the readiness check then sees the new
  row and its job, which the flush of its query has written.
\<close>

definition complete_movie_upload ::
    "datetime \<Rightarrow> uuid \<Rightarrow> bool \<Rightarrow> (string \<Rightarrow> bool) \<Rightarrow> (string option \<Rightarrow> string \<Rightarrow> string option) \<Rightarrow> movie_upload \<Rightarrow>
     db \<Rightarrow> (content_row \<times> db \<times> drop list) result" where
  "complete_movie_upload now job assembled exists optimize data d =
     (case check_movie_upload data of
        Inl e \<Rightarrow> Inl e
      | Inr _ \<Rightarrow>
        (case complete_multipart_upload assembled (mu_parts data) of
           Inl e \<Rightarrow> Inl e
         | Inr _ \<Rightarrow>
           (case verify_storage_object_exists exists (mu_poster_key data) ''Poster upload is not available in storage yet'' of
              Inl e \<Rightarrow> Inl e
            | Inr _ \<Rightarrow>
              (case verify_storage_object_exists exists (mu_banner_key data) ''Banner upload is not available in storage yet'' of
                 Inl e \<Rightarrow> Inl e
               | Inr _ \<Rightarrow>
                 (case apply_runtime_minutes (mu_runtime_minutes data) (uploaded_movie now optimize data) of
                    Inl e \<Rightarrow> Inl e
                  | Inr m1 \<Rightarrow>
                    (case apply_movie_publish_state (Some (mu_status data)) (Some (mu_publish_at data)) m1 of
                       Inl e \<Rightarrow> Inl e
                     | Inr m2 \<Rightarrow>
                       (case insert_content m2 d of
                          Inl e \<Rightarrow>
                            if ct_status m2 = ''published'' \<and> \<not> truthy (ct_poster_key m2)
                            then Inl (HTTPException 422 ''A poster is required before publishing.'') else Inl e
                        | Inr d1 \<Rightarrow>
                          (let d2 = add_job job (mu_content_id data) (mu_source_key data) d1;
                               done = Inr (m2, d2, [DropPrefix ''movies:'', DropKey ''home-sections''])
                           in if ct_status m2 = ''published'' then
                                (case ensure_movie_publishable d2 m2 of Inl e \<Rightarrow> Inl e | Inr _ \<Rightarrow> done)
                              else done))))))))"

text \<open>The answer's source, poster and banner key; each comes with its signed upload URL.\<close>

definition start_admin_movie_asset_upload ::
    "string \<Rightarrow> string \<Rightarrow> uuid \<Rightarrow> string option \<Rightarrow> string option \<Rightarrow> string option \<Rightarrow> db \<Rightarrow>
     (string option \<times> string option \<times> string option) result" where
  "start_admin_movie_asset_upload poster_token banner_token movie_id video_type poster_type banner_type d =
     (case find_movie (\<lambda>c. ct_id c = movie_id) d of
        Inl e \<Rightarrow> Inl e
      | Inr movie \<Rightarrow>
        if \<not> truthy video_type \<and> \<not> truthy poster_type \<and> \<not> truthy banner_type
        then Inl (HTTPException 422 ''Choose a video, poster, or banner file to replace'')
        else Inr (if truthy video_type then Some (movie_source_key (ct_slug movie)) else None,
                  if truthy poster_type then Some (movie_poster_key poster_token (ct_slug movie) (the poster_type)) else None,
                  if truthy banner_type then Some (movie_banner_key banner_token (ct_slug movie) (the banner_type)) else None))"

record movie_assets =
  ma_source_key :: "string option"
  ma_poster_key :: "string option"
  ma_banner_key :: "string option"

text \<open>The checks of an uploaded asset: it must belong to the title and be in storage.\<close>

definition check_asset :: "(string \<Rightarrow> bool) \<Rightarrow> (string \<Rightarrow> bool) \<Rightarrow> string option \<Rightarrow> string \<Rightarrow> string \<Rightarrow> unit result" where
  "check_asset belongs exists key mismatch missing =
     (if \<not> truthy key then Inr ()
      else if \<not> belongs (the key) then Inl (HTTPException 422 mismatch)
      else if \<not> exists (the key) then Inl (HTTPException 409 missing)
      else Inr ())"

definition seq :: "unit result \<Rightarrow> unit result \<Rightarrow> unit result" where
  "seq a b = (case a of Inl e \<Rightarrow> Inl e | Inr _ \<Rightarrow> b)"

definition complete_admin_movie_asset_upload ::
    "uuid \<Rightarrow> (string \<Rightarrow> bool) \<Rightarrow> (string option \<Rightarrow> string \<Rightarrow> string option) \<Rightarrow> uuid \<Rightarrow> movie_assets \<Rightarrow> db \<Rightarrow>
     (content_row \<times> db \<times> drop list) result" where
  "complete_admin_movie_asset_upload job exists optimize movie_id data d =
     (case find_movie (\<lambda>c. ct_id c = movie_id) d of
        Inl e \<Rightarrow> Inl e
      | Inr movie \<Rightarrow>
        (case seq (check_asset (\<lambda>k. k = movie_source_key (ct_slug movie)) exists (ma_source_key data)
                     ''source_key does not match movie'' ''Video upload is not available in storage yet'')
              (seq (check_asset (is_movie_asset_key (ct_slug movie)) exists (ma_poster_key data)
                     ''poster_key does not match movie'' ''Poster upload is not available in storage yet'')
                   (check_asset (is_movie_asset_key (ct_slug movie)) exists (ma_banner_key data)
                     ''banner_key does not match movie'' ''Banner upload is not available in storage yet'')) of
           Inl e \<Rightarrow> Inl e
         | Inr _ \<Rightarrow>
           if \<not> truthy (ma_source_key data) \<and> \<not> truthy (ma_poster_key data) \<and> \<not> truthy (ma_banner_key data)
           then Inl (HTTPException 422 ''No uploaded assets provided'')
           else
            (let m1 = (if truthy (ma_source_key data)
                       then movie\<lparr>ct_transcode_status := ''pending'', ct_hls_master_key := None,
                              ct_duration_seconds := None\<rparr> else movie);
                 d1 = (if truthy (ma_source_key data)
                       then add_job job (ct_id movie) (the (ma_source_key data)) d else d);
                 m2 = (if truthy (ma_poster_key data)
                       then m1\<lparr>ct_poster_key := optimize (ma_poster_key data) ''poster''\<rparr> else m1);
                 m3 = (if truthy (ma_banner_key data)
                       then m2\<lparr>ct_banner_key := optimize (ma_banner_key data) ''banner''\<rparr> else m2)
             in Inr (m3, put_content m3 d1, [DropPrefix ''movies:'']))))"

definition reorder_admin_movies :: "uuid list \<Rightarrow> db \<Rightarrow> db \<times> drop list" where
  "reorder_admin_movies ids d =
     (if ids = [] then (d, [])
      else (d\<lparr>contents := assign_order ct_id (\<lambda>n c. c\<lparr>ct_sort_order := n\<rparr>) (\<lambda>c. ct_type c = ''single'') ids (contents d)\<rparr>,
            [DropPrefix ''movies:'']))"

text \<open>\<open>ORDER BY sort_order, created_at DESC\<close>, before pagination.\<close>

definition list_admin_movies :: "db \<Rightarrow> content_row list" where
  "list_admin_movies d =
     order_by (\<lambda>c. (ct_sort_order c, - ct_created_at c)) (filter (\<lambda>c. ct_type c = ''single'') (contents d))"

definition delete_movie :: "string \<Rightarrow> db \<Rightarrow> (db \<times> drop list) result" where
  "delete_movie slug d =
     (case find_movie (\<lambda>c. ct_slug c = slug) d of
        Inl e \<Rightarrow> Inl e
      | Inr movie \<Rightarrow>
        (case delete_content (ct_id movie) d of
           Inl e \<Rightarrow> Inl e | Inr d' \<Rightarrow> Inr (d', [DropPrefix ''movies:'', DropKey ''home-sections''])))"

definition delete_admin_movie :: "uuid \<Rightarrow> db \<Rightarrow> (db \<times> drop list) result" where
  "delete_admin_movie movie_id d =
     (case find_movie (\<lambda>c. ct_id c = movie_id) d of
        Inl e \<Rightarrow> Inl e
      | Inr _ \<Rightarrow>
        (case delete_content movie_id d of
           Inl e \<Rightarrow> Inl e | Inr d' \<Rightarrow> Inr (d', [DropPrefix ''movies:'', DropKey ''home-sections''])))"

section \<open>Podcasts\<close>

definition audio_types :: "string list" where
  "audio_types = [''audio/mpeg'', ''audio/mp3'', ''audio/mp4'', ''audio/x-m4a'', ''audio/m4a'', ''audio/wav'',
     ''audio/x-wav'', ''audio/aac'']"

definition validate_audio_content_type :: "string \<Rightarrow> string result" where
  "validate_audio_content_type v =
     (let normalized = lower (strip v) in
      if normalized \<in> set audio_types then Inr normalized
      else Inl (HTTPException 422 ''Audio must be mp3, m4a, wav, or aac''))"

record podcast_create =
  pc_title :: string
  pc_title_km :: "string option"
  pc_description :: "string option"
  pc_genres :: "string list"
  pc_release_year :: "int option"
  pc_runtime_minutes :: "int option"
  pc_is_free :: bool

definition create_admin_podcast_draft ::
    "datetime \<Rightarrow> uuid \<Rightarrow> string \<Rightarrow> podcast_create \<Rightarrow> db \<Rightarrow> (content_row \<times> db \<times> drop list) result" where
  "create_admin_podcast_draft now fresh token data d =
     (let title = strip (pc_title data);
          podcast = default_content\<lparr>ct_id := fresh, ct_type := ''podcast'',
            ct_slug := unique_content_slug token title d, ct_title := title,
            ct_title_km := empty_to_none (pc_title_km data), ct_description := pc_description data,
            ct_genres := (if pc_genres data = [] then [''Horror''] else pc_genres data),
            ct_release_year := pc_release_year data, ct_price_usd := Some 0, ct_is_free := pc_is_free data,
            ct_status := ''draft'', ct_is_published := False, ct_transcode_status := ''pending'',
            ct_created_at := now\<rparr>
      in case apply_runtime_minutes (pc_runtime_minutes data) podcast of
           Inl e \<Rightarrow> Inl e
         | Inr p \<Rightarrow>
           (case insert_content p d of
              Inl e \<Rightarrow> Inl e
            | Inr d' \<Rightarrow> Inr (p, d', [DropPrefix ''podcasts:''])))"

definition find_podcast :: "uuid \<Rightarrow> db \<Rightarrow> content_row result" where
  "find_podcast pid d =
     (case select_one (\<lambda>c. ct_id c = pid \<and> ct_type c = ''podcast'') (contents d) of
        None \<Rightarrow> Inl (NotFoundError ''Podcast not found'') | Some c \<Rightarrow> Inr c)"

text \<open>\<open>price_usd\<close> is ignored, a status in the request decides \<open>is_published\<close>, \<open>publish_at\<close> is stored.\<close>

definition update_admin_podcast :: "uuid \<Rightarrow> content_update \<Rightarrow> db \<Rightarrow> (content_row \<times> db \<times> drop list) result" where
  "update_admin_podcast podcast_id data d =
     (case find_podcast podcast_id d of
        Inl e \<Rightarrow> Inl e
      | Inr podcast \<Rightarrow>
        (let u = (normalize_content_update data)\<lparr>cu_price_usd := Some (Some 0)\<rparr> in
         case (case cu_status u of None \<Rightarrow> Inr () | Some s \<Rightarrow> as_422 (validate_content_status s)) of
           Inl e \<Rightarrow> Inl e
         | Inr _ \<Rightarrow>
           (let u1 = (case cu_status u of None \<Rightarrow> u | Some s \<Rightarrow> u\<lparr>cu_is_published := Some (Some (s = Some ''published''))\<rparr>);
                p1 = set_field (cu_publish_at u1) (\<lambda>x c. c\<lparr>ct_publish_at := x\<rparr>)
                       (set_required (cu_status u1) (\<lambda>x c. c\<lparr>ct_status := x\<rparr>) (assign_content u1 podcast))
            in case assign_runtime u1 p1 of
                 Inl e \<Rightarrow> Inl e
               | Inr p2 \<Rightarrow>
                 (case (if ct_status p2 = ''published'' then ensure_podcast_publishable p2 else Inr ()) of
                    Inl e \<Rightarrow> Inl e
                  | Inr _ \<Rightarrow>
                    if null_columns u1 \<or> cu_is_published u1 = Some None \<or> \<not> content_check p2 then Inl IntegrityError
                    else Inr (p2, put_content p2 d, [DropPrefix ''podcasts:''])))))"

text \<open>The answer's audio key and poster key.\<close>

definition start_admin_podcast_asset_upload ::
    "string \<Rightarrow> uuid \<Rightarrow> string option \<Rightarrow> string option \<Rightarrow> db \<Rightarrow> (string option \<times> string option) result" where
  "start_admin_podcast_asset_upload token podcast_id audio_type poster_type d =
     (case find_podcast podcast_id d of
        Inl e \<Rightarrow> Inl e
      | Inr podcast \<Rightarrow>
        (case (if truthy audio_type then validate_audio_content_type (the audio_type) else Inr []) of
           Inl e \<Rightarrow> Inl e
         | Inr kind \<Rightarrow>
           if \<not> truthy audio_type \<and> \<not> truthy poster_type
           then Inl (HTTPException 422 ''Choose an audio or cover file to upload'')
           else Inr (if truthy audio_type then Some (podcast_audio_key (ct_slug podcast) kind) else None,
                     if truthy poster_type then Some (podcast_poster_key token (ct_slug podcast) (the poster_type)) else None)))"

definition complete_admin_podcast_asset_upload ::
    "(string \<Rightarrow> bool) \<Rightarrow> (string option \<Rightarrow> string \<Rightarrow> string option) \<Rightarrow> uuid \<Rightarrow> string option \<Rightarrow> string option \<Rightarrow> db \<Rightarrow>
     (content_row \<times> db \<times> drop list) result" where
  "complete_admin_podcast_asset_upload exists optimize podcast_id audio_key poster_key d =
     (case find_podcast podcast_id d of
        Inl e \<Rightarrow> Inl e
      | Inr podcast \<Rightarrow>
        (case seq (check_asset (is_podcast_asset_key (ct_slug podcast)) exists audio_key
                     ''audio_key does not match podcast'' ''Audio upload is not available in storage yet'')
                  (check_asset (is_podcast_asset_key (ct_slug podcast)) exists poster_key
                     ''poster_key does not match podcast'' ''Cover upload is not available in storage yet'') of
           Inl e \<Rightarrow> Inl e
         | Inr _ \<Rightarrow>
           if \<not> truthy audio_key \<and> \<not> truthy poster_key
           then Inl (HTTPException 422 ''No uploaded assets provided'')
           else
            (let p1 = (if truthy audio_key
                       then podcast\<lparr>ct_audio_key := audio_key, ct_transcode_status := ''ready''\<rparr> else podcast);
                 p2 = (if truthy poster_key then p1\<lparr>ct_poster_key := optimize poster_key ''poster''\<rparr> else p1)
             in Inr (p2, put_content p2 d, [DropPrefix ''podcasts:'']))))"

definition reorder_admin_podcasts :: "uuid list \<Rightarrow> db \<Rightarrow> db \<times> drop list" where
  "reorder_admin_podcasts ids d =
     (if ids = [] then (d, [])
      else (d\<lparr>contents := assign_order ct_id (\<lambda>n c. c\<lparr>ct_sort_order := n\<rparr>) (\<lambda>c. ct_type c = ''podcast'') ids (contents d)\<rparr>,
            [DropPrefix ''podcasts:'']))"

definition delete_admin_podcast :: "uuid \<Rightarrow> db \<Rightarrow> (db \<times> drop list) result" where
  "delete_admin_podcast podcast_id d =
     (case find_podcast podcast_id d of
        Inl e \<Rightarrow> Inl e
      | Inr _ \<Rightarrow>
        (case delete_content podcast_id d of
           Inl e \<Rightarrow> Inl e | Inr d' \<Rightarrow> Inr (d', [DropPrefix ''podcasts:'', DropKey ''home-sections''])))"

section \<open>Transcode jobs\<close>

text \<open>A retry takes a job in any state; its title waits again, whatever it was.\<close>

definition retry_transcode_job :: "uuid \<Rightarrow> db \<Rightarrow> (job_row \<times> db) result" where
  "retry_transcode_job jid d =
     (case select_one (\<lambda>j. job_id j = jid) (transcode_jobs d) of
        None \<Rightarrow> Inl (NotFoundError ''Transcode job not found'')
      | Some j \<Rightarrow>
        (let j' = j\<lparr>job_status := ''queued'', job_error := None\<rparr> in
         Inr (j', d\<lparr>transcode_jobs := update_where (\<lambda>x. job_id x = jid) (\<lambda>_. j') (transcode_jobs d),
                  contents := update_where (\<lambda>c. ct_id c = job_content_id j)
                    (\<lambda>c. c\<lparr>ct_transcode_status := ''pending''\<rparr>) (contents d)\<rparr>)))"

section \<open>Ordering\<close>

interpretation movie_order: sortable ct_id ct_sort_order "\<lambda>n c. c\<lparr>ct_sort_order := n\<rparr>" "\<lambda>c. ct_type c = ''single''"
  by unfold_locales simp_all

interpretation podcast_order: sortable ct_id ct_sort_order "\<lambda>n c. c\<lparr>ct_sort_order := n\<rparr>" "\<lambda>c. ct_type c = ''podcast''"
  by unfold_locales simp_all

section \<open>The publication invariant\<close>

text \<open>Every movie and podcast row is in a consistent publication state and passes the CHECKs.\<close>

definition catalog_ok :: "db \<Rightarrow> bool" where
  "catalog_ok d \<longleftrightarrow> distinct (map ct_id (contents d)) \<and>
     (\<forall>c \<in> set (contents d). movie_state_ok d c \<and> podcast_state_ok c \<and> content_check c)"

text \<open>The steps of the catalog: every handler above and a tick of the publish sweeper.\<close>

inductive catalog_step :: "db \<Rightarrow> db \<Rightarrow> bool" where
  draft: "create_admin_movie_draft now fresh token data d = Inr (m, d', dr) \<Longrightarrow> catalog_step d d'"
| upload: "complete_movie_upload now job assembled exists optimize mu d = Inr (m, d', dr) \<Longrightarrow> catalog_step d d'"
| patch: "update_movie slug u d = Inr (m, d', dr) \<Longrightarrow> cu_is_published u = None \<Longrightarrow> catalog_step d d'"
| admin_patch: "update_admin_movie i u d = Inr (m, d', dr) \<Longrightarrow> cu_is_published u = None \<Longrightarrow> catalog_step d d'"
| assets: "complete_admin_movie_asset_upload job exists optimize i ma d = Inr (m, d', dr) \<Longrightarrow>
    (\<And>k kind. truthy k \<Longrightarrow> truthy (optimize k kind)) \<Longrightarrow> catalog_step d d'"
| reorder: "reorder_admin_movies ids d = (d', dr) \<Longrightarrow> catalog_step d d'"
| remove: "delete_movie slug d = Inr (d', dr) \<Longrightarrow> catalog_step d d'"
| admin_remove: "delete_admin_movie i d = Inr (d', dr) \<Longrightarrow> catalog_step d d'"
| podcast_draft: "create_admin_podcast_draft now fresh token pc d = Inr (m, d', dr) \<Longrightarrow> catalog_step d d'"
| podcast_patch: "update_admin_podcast i u d = Inr (m, d', dr) \<Longrightarrow> cu_is_published u = None \<Longrightarrow> catalog_step d d'"
| podcast_assets: "complete_admin_podcast_asset_upload exists optimize i ak pk d = Inr (m, d', dr) \<Longrightarrow>
    (\<And>k kind. truthy k \<Longrightarrow> truthy (optimize k kind)) \<Longrightarrow> catalog_step d d'"
| podcast_reorder: "reorder_admin_podcasts ids d = (d', dr) \<Longrightarrow> catalog_step d d'"
| podcast_remove: "delete_admin_podcast i d = Inr (d', dr) \<Longrightarrow> catalog_step d d'"
| retry: "retry_transcode_job jid d = Inr (j, d') \<Longrightarrow> distinct (map job_id (transcode_jobs d)) \<Longrightarrow> catalog_step d d'"
| tick: "publish_tick lm ls now d = (d', dr) \<Longrightarrow> catalog_step d d'"

lemma movie_state_jobs:
  assumes "movie_state_ok d c"
    and "\<And>j. j \<in> set (transcode_jobs d) \<Longrightarrow> job_content_id j = ct_id c \<Longrightarrow>
      \<exists>j' \<in> set (transcode_jobs d'). job_content_id j' = ct_id c"
  shows "movie_state_ok d' c"
  using assms by (auto simp: movie_state_ok_def movie_is_publishable_iff exists_row_iff)

lemma catalog_put:
  assumes "catalog_ok d" "movie_state_ok d m" "podcast_state_ok m" "content_check m"
  shows "catalog_ok (put_content m d)"
proof -
  have "movie_state_ok (put_content m d) c \<longleftrightarrow> movie_state_ok d c" for c
    by (simp add: movie_state_ok_def movie_is_publishable_iff put_content_def)
  moreover have "distinct (map ct_id (contents (put_content m d))) = distinct (map ct_id (contents d))"
    using map_update_where [of "\<lambda>x. ct_id x = ct_id m" ct_id "\<lambda>_. m" "contents d"] by (simp add: put_content_def)
  ultimately show ?thesis using assms unfolding catalog_ok_def by (auto simp: put_content_def update_where_def simp del: map_map)
qed

lemma catalog_insert:
  assumes "catalog_ok d" "insert_content m d = Inr d'" "movie_state_ok d m" "podcast_state_ok m"
  shows "catalog_ok d'"
proof -
  have d': "d' = d\<lparr>contents := contents d @ [m]\<rparr>" "content_check m" "ct_id m \<notin> ct_id ` set (contents d)"
    using assms(2) by (auto simp: insert_content_def exists_row_iff split: if_splits)
  have "movie_state_ok d' c \<longleftrightarrow> movie_state_ok d c" for c
    by (simp add: movie_state_ok_def movie_is_publishable_iff d'(1))
  then show ?thesis using assms d' by (auto simp: catalog_ok_def)
qed

lemma catalog_job: "catalog_ok d \<Longrightarrow> catalog_ok (add_job job cid src d)"
proof -
  assume ok: "catalog_ok d"
  have "movie_state_ok (add_job job cid src d) c" if "movie_state_ok d c" for c
    by (rule movie_state_jobs [OF that]) (auto simp: add_job_def)
  then show ?thesis using ok by (auto simp: catalog_ok_def add_job_def)
qed

lemma catalog_retry:
  assumes "retry_transcode_job jid d = Inr (j, d')" "distinct (map job_id (transcode_jobs d))" "catalog_ok d"
  shows "catalog_ok d'"
proof -
  obtain j0 where j0: "j0 \<in> set (transcode_jobs d)" "job_id j0 = jid"
    and d': "d' = d\<lparr>transcode_jobs := update_where (\<lambda>x. job_id x = jid)
        (\<lambda>_. j0\<lparr>job_status := ''queued'', job_error := None\<rparr>) (transcode_jobs d),
      contents := update_where (\<lambda>c. ct_id c = job_content_id j0) (\<lambda>c. c\<lparr>ct_transcode_status := ''pending''\<rparr>) (contents d)\<rparr>"
    using assms(1) by (auto simp: retry_transcode_job_def Let_def dest: select_one_Some split: option.splits)
  have same: "x = j0" if "x \<in> set (transcode_jobs d)" "job_id x = jid" for x
    using that j0 assms(2) by (auto simp: distinct_map inj_on_def)
  have jobs: "exists_row (\<lambda>x. job_content_id x = i) (transcode_jobs d') = exists_row (\<lambda>x. job_content_id x = i) (transcode_jobs d)" for i
  proof -
    have "map job_content_id (transcode_jobs d') = map job_content_id (transcode_jobs d)"
      by (auto simp: d' update_where_def dest: same)
    then have "job_content_id ` set (transcode_jobs d') = job_content_id ` set (transcode_jobs d)"
      by (metis set_map)
    then show ?thesis by (simp only: exists_row_iff image_iff [symmetric] bex_simps) (metis (mono_tags) image_iff)
  qed
  have waiting: "exists_row (\<lambda>x. job_content_id x = job_content_id j0) (transcode_jobs d)"
    using j0 by (auto simp: exists_row_iff)
  have ids: "map ct_id (contents d') = map ct_id (contents d)" by (simp add: d' map_update_where)
  have "movie_state_ok d' c \<and> podcast_state_ok c \<and> content_check c" if "c \<in> set (contents d')" for c
  proof -
    have "\<exists>c0 \<in> set (contents d).
        c = (if ct_id c0 = job_content_id j0 then c0\<lparr>ct_transcode_status := ''pending''\<rparr> else c0)"
      using that by (simp add: d' in_update_where)
    then obtain c0 where c0: "c0 \<in> set (contents d)"
      "c = (if ct_id c0 = job_content_id j0 then c0\<lparr>ct_transcode_status := ''pending''\<rparr> else c0)" by blast
    moreover have "movie_state_ok d c0 \<and> podcast_state_ok c0 \<and> content_check c0"
      using assms(3) c0(1) by (auto simp: catalog_ok_def)
    ultimately show ?thesis using waiting
      by (auto simp: movie_state_ok_def movie_is_publishable_iff jobs podcast_state_ok_def content_check_def
          ensure_podcast_publishable_def)
  qed
  then show ?thesis using assms(3) by (simp add: catalog_ok_def ids)
qed

lemma find_movie_ok: "find_movie P d = Inr m \<Longrightarrow> m \<in> set (contents d) \<and> P m \<and> ct_type m = ''single''"
  by (auto simp: find_movie_def dest: select_one_Some split: option.splits)

lemma find_podcast_ok: "find_podcast i d = Inr m \<Longrightarrow> m \<in> set (contents d) \<and> ct_id m = i \<and> ct_type m = ''podcast''"
  by (auto simp: find_podcast_def dest: select_one_Some split: option.splits)

lemma set_field_simps [simp]: "set_field None f r = r" "set_field (Some x) f r = f x r"
  by (simp_all add: set_field_def)

lemma set_required_simps [simp]:
  "set_required None f r = r" "set_required (Some None) f r = r" "set_required (Some (Some x)) f r = f x r"
  by (simp_all add: set_required_def)

lemma set_field_keep: "(\<And>x r. k (f x r) = k r) \<Longrightarrow> k (set_field v f r) = k r"
  by (simp add: set_field_def split: option.split)

lemma set_required_keep: "(\<And>x r. k (f x r) = k r) \<Longrightarrow> k (set_required v f r) = k r"
  by (simp add: set_required_def split: option.split)

lemmas keep_key [simp] =
  set_field_keep [where k = ct_id] set_required_keep [where k = ct_id]
  set_field_keep [where k = ct_type] set_required_keep [where k = ct_type]
  set_field_keep [where k = ct_slug] set_required_keep [where k = ct_slug]
  set_field_keep [where k = ct_status] set_required_keep [where k = ct_status]
  set_field_keep [where k = ct_publish_at] set_required_keep [where k = ct_publish_at]
  set_field_keep [where k = ct_series_id] set_required_keep [where k = ct_series_id]
  set_field_keep [where k = ct_poster_key] set_required_keep [where k = ct_poster_key]
  set_field_keep [where k = ct_audio_key] set_required_keep [where k = ct_audio_key]
  set_field_keep [where k = ct_hls_master_key] set_required_keep [where k = ct_hls_master_key]
  set_field_keep [where k = ct_transcode_status] set_required_keep [where k = ct_transcode_status]
  set_field_keep [where k = ct_is_published] set_required_keep [where k = ct_is_published]

lemma assign_content_keep [simp]:
  "ct_id (assign_content u m) = ct_id m"
  "ct_type (assign_content u m) = ct_type m"
  "ct_slug (assign_content u m) = ct_slug m"
  "ct_status (assign_content u m) = ct_status m"
  "ct_publish_at (assign_content u m) = ct_publish_at m"
  "ct_series_id (assign_content u m) = ct_series_id m"
  "ct_poster_key (assign_content u m) = ct_poster_key m"
  "ct_audio_key (assign_content u m) = ct_audio_key m"
  "ct_hls_master_key (assign_content u m) = ct_hls_master_key m"
  "ct_transcode_status (assign_content u m) = ct_transcode_status m"
  by (simp_all add: assign_content_def)

lemma assign_content_published:
  "cu_is_published u = None \<Longrightarrow> ct_is_published (assign_content u m) = ct_is_published m"
  "cu_is_published u = Some (Some b) \<Longrightarrow> ct_is_published (assign_content u m) = b"
  by (simp_all add: assign_content_def)

lemma assign_runtime_keep:
  assumes "assign_runtime u m = Inr m'"
  shows "ct_id m' = ct_id m" "ct_type m' = ct_type m" "ct_slug m' = ct_slug m" "ct_status m' = ct_status m"
    "ct_publish_at m' = ct_publish_at m" "ct_series_id m' = ct_series_id m" "ct_poster_key m' = ct_poster_key m"
    "ct_audio_key m' = ct_audio_key m" "ct_hls_master_key m' = ct_hls_master_key m"
    "ct_transcode_status m' = ct_transcode_status m" "ct_is_published m' = ct_is_published m"
    "ct_price_usd m' = ct_price_usd m"
  using assms
  by (auto simp: assign_runtime_def apply_runtime_minutes_def split: option.splits if_splits)

lemma apply_runtime_keep:
  assumes "apply_runtime_minutes n m = Inr m'"
  shows "ct_id m' = ct_id m" "ct_type m' = ct_type m" "ct_slug m' = ct_slug m" "ct_status m' = ct_status m"
    "ct_publish_at m' = ct_publish_at m" "ct_poster_key m' = ct_poster_key m" "ct_is_published m' = ct_is_published m"
    "ct_audio_key m' = ct_audio_key m"
  using assms by (auto simp: apply_runtime_minutes_def split: option.splits if_splits)

lemma patch_movie_cases:
  assumes "patch_movie u movie d = Inr (m, d')"
  obtains m2 where "assign_runtime u (assign_content u movie) = Inr m2"
    "(if (case cu_status u of None \<Rightarrow> None | Some s \<Rightarrow> s) \<noteq> None \<or> cu_publish_at u \<noteq> None
      then apply_movie_publish_state (case cu_status u of None \<Rightarrow> None | Some s \<Rightarrow> s) (cu_publish_at u) m2
      else Inr m2) = Inr m"
    "content_check m" "d' = put_content m d" "ct_status m = ''published'' \<Longrightarrow> movie_is_publishable d m"
proof (cases "assign_runtime u (assign_content u movie)")
  case (Inl e)
  then show ?thesis using assms by (simp add: patch_movie_def Let_def)
next
  case (Inr m2)
  let ?st = "case cu_status u of None \<Rightarrow> None | Some s \<Rightarrow> s"
  show ?thesis
  proof (cases "if ?st \<noteq> None \<or> cu_publish_at u \<noteq> None
      then apply_movie_publish_state ?st (cu_publish_at u) m2 else Inr m2")
    case (Inl e)
    then show ?thesis using assms Inr by (simp add: patch_movie_def Let_def)
  next
    case m3: (Inr m3)
    have "m3 = m \<and> d' = put_content m d \<and> content_check m \<and> (ct_status m = ''published'' \<longrightarrow> movie_is_publishable d m)"
      using assms unfolding patch_movie_def Let_def Inr m3 sum.case
      by (auto simp: movie_is_publishable_def split: if_splits sum.splits)
    then show ?thesis using that [OF Inr] m3 by simp
  qed
qed

lemma catalog_patch_movie:
  assumes ok: "catalog_ok d" and m: "movie \<in> set (contents d)" "ct_type movie = ''single''"
    and p: "patch_movie u movie d = Inr (m, d')" and u: "cu_is_published u = None"
  shows "catalog_ok d'"
  using p
proof (rule patch_movie_cases)
  fix m2
  let ?st = "case cu_status u of None \<Rightarrow> None | Some s \<Rightarrow> s"
  assume a: "assign_runtime u (assign_content u movie) = Inr m2"
    "(if ?st \<noteq> None \<or> cu_publish_at u \<noteq> None then apply_movie_publish_state ?st (cu_publish_at u) m2 else Inr m2) = Inr m"
    "content_check m" "d' = put_content m d" "ct_status m = ''published'' \<Longrightarrow> movie_is_publishable d m"
  note k = assign_runtime_keep [OF a(1)]
  have old: "movie_state_ok d movie" using ok m by (simp add: catalog_ok_def)
  have m2: "ct_type m2 = ''single''" "ct_status m2 \<in> set valid_content_statuses"
    "ct_is_published m2 \<longleftrightarrow> ct_status m2 = ''published''" "ct_publish_at m2 \<noteq> None \<longleftrightarrow> ct_status m2 = ''scheduled''"
    using old m(2) k u by (simp_all add: movie_state_ok_def assign_content_published)
  have new: "ct_type m = ''single'' \<and> ct_status m \<in> set valid_content_statuses \<and>
      (ct_is_published m \<longleftrightarrow> ct_status m = ''published'') \<and> (ct_publish_at m \<noteq> None \<longleftrightarrow> ct_status m = ''scheduled'')"
  proof (cases "?st \<noteq> None \<or> cu_publish_at u \<noteq> None")
    case True
    then have ap: "apply_movie_publish_state ?st (cu_publish_at u) m2 = Inr m" using a(2) by simp
    show ?thesis using apply_movie_ok [OF ap m2(1)] m2(2) by blast
  next
    case False
    then show ?thesis using a(2) m2 by simp
  qed
  have st: "movie_state_ok d m" "podcast_state_ok m"
    using new a(5) by (auto simp: movie_state_ok_def podcast_state_ok_def)
  show ?thesis unfolding a(4) by (rule catalog_put [OF ok st a(3)])
qed

lemma catalog_patch_podcast:
  assumes ok: "catalog_ok d" and p: "update_admin_podcast i u d = Inr (m, d', dr)" and u: "cu_is_published u = None"
  shows "catalog_ok d'"
proof -
  obtain podcast where f: "find_podcast i d = Inr podcast"
    using p by (auto simp: update_admin_podcast_def split: sum.splits)
  let ?u = "(normalize_content_update u)\<lparr>cu_price_usd := Some (Some 0)\<rparr>"
  let ?u1 = "case cu_status ?u of None \<Rightarrow> ?u | Some s \<Rightarrow> ?u\<lparr>cu_is_published := Some (Some (s = Some ''published''))\<rparr>"
  let ?p1 = "set_field (cu_publish_at ?u1) (\<lambda>x c. c\<lparr>ct_publish_at := x\<rparr>)
               (set_required (cu_status ?u1) (\<lambda>x c. c\<lparr>ct_status := x\<rparr>) (assign_content ?u1 podcast))"
  have st: "cu_status ?u = cu_status u" "cu_status ?u1 = cu_status u"
    by (simp_all add: normalize_content_update_def split: option.split)
  have r: "assign_runtime ?u1 ?p1 = Inr m" "d' = put_content m d" "content_check m"
    "ct_status m = ''published'' \<longrightarrow> is_ok (ensure_podcast_publishable m)"
    "\<forall>s. cu_status u = Some s \<longrightarrow> s \<in> Some ` set valid_content_statuses"
    using p f unfolding update_admin_podcast_def Let_def st by (auto split: sum.splits option.splits if_splits)
  note k = assign_runtime_keep [OF r(1)]
  have old: "podcast_state_ok podcast" "ct_type podcast = ''podcast''"
    using find_podcast_ok [OF f] ok by (auto simp: catalog_ok_def)
  have "ct_type m = ''podcast''" using k(2) old(2) by simp
  moreover have "ct_status m \<in> set valid_content_statuses \<and> (ct_is_published m \<longleftrightarrow> ct_status m = ''published'')"
    using k(4,11) old r(5) u
    by (auto simp: podcast_state_ok_def normalize_content_update_def assign_content_published
        split: option.splits)
  ultimately have "movie_state_ok d m" "podcast_state_ok m"
    using r(4) by (simp_all add: movie_state_ok_def podcast_state_ok_def)
  then show ?thesis unfolding r(2) by (rule catalog_put [OF ok _ _ r(3)])
qed

lemma catalog_draft:
  assumes ok: "catalog_ok d" and c: "create_admin_movie_draft now fresh token data d = Inr (m, d', dr)"
  shows "catalog_ok d'"
proof -
  obtain m0 where m0: "apply_runtime_minutes (mc_runtime_minutes data) m0 = Inr m" "insert_content m d = Inr d'"
    "ct_type m0 = ''single''" "ct_status m0 = ''draft''" "\<not> ct_is_published m0" "ct_publish_at m0 = None"
    using c by (auto simp: create_admin_movie_draft_def Let_def default_content_def split: sum.splits)
  note k = apply_runtime_keep [OF m0(1)]
  show ?thesis
    by (rule catalog_insert [OF ok m0(2)])
      (use k m0 in \<open>simp_all add: movie_state_ok_def podcast_state_ok_def valid_content_statuses_def\<close>)
qed

lemma catalog_podcast_draft:
  assumes ok: "catalog_ok d" and c: "create_admin_podcast_draft now fresh token data d = Inr (m, d', dr)"
  shows "catalog_ok d'"
proof -
  obtain m0 where m0: "apply_runtime_minutes (pc_runtime_minutes data) m0 = Inr m" "insert_content m d = Inr d'"
    "ct_type m0 = ''podcast''" "ct_status m0 = ''draft''" "\<not> ct_is_published m0" "ct_publish_at m0 = None"
    using c by (auto simp: create_admin_podcast_draft_def Let_def default_content_def split: sum.splits)
  note k = apply_runtime_keep [OF m0(1)]
  show ?thesis
    by (rule catalog_insert [OF ok m0(2)])
      (use k m0 in \<open>simp_all add: movie_state_ok_def podcast_state_ok_def valid_content_statuses_def\<close>)
qed

lemma catalog_upload:
  assumes ok: "catalog_ok d" and c: "complete_movie_upload now job assembled exists optimize mu d = Inr (m, d', dr)"
  shows "catalog_ok d'"
proof -
  obtain m1 d1 where m1: "apply_runtime_minutes (mu_runtime_minutes mu) (uploaded_movie now optimize mu) = Inr m1"
    and ap: "apply_movie_publish_state (Some (mu_status mu)) (Some (mu_publish_at mu)) m1 = Inr m"
    and ins: "insert_content m d = Inr d1"
    and d': "d' = add_job job (mu_content_id mu) (mu_source_key mu) d1"
    and pub: "ct_status m = ''published'' \<longrightarrow> movie_is_publishable d' m"
    using c by (auto simp: complete_movie_upload_def Let_def movie_is_publishable_def split: sum.splits if_splits)
  have ty: "ct_type m1 = ''single''" "ct_id m1 = mu_content_id mu"
    using apply_runtime_keep [OF m1] by (simp_all add: uploaded_movie_def)
  note s = apply_movie_ok [OF ap ty(1), simplified]
  show ?thesis
  proof (cases "ct_is_published m")
    case False
    with s have "movie_state_ok d m" "podcast_state_ok m" by (simp_all add: movie_state_ok_def podcast_state_ok_def)
    then show ?thesis unfolding d' using catalog_insert [OF ok ins] catalog_job by blast
  next
    case True
    then have st: "movie_state_ok d' m" using s pub by (simp add: movie_state_ok_def)
    have d1: "contents d1 = contents d @ [m]" "transcode_jobs d1 = transcode_jobs d" "content_check m"
      "ct_id m \<notin> ct_id ` set (contents d)"
      using ins by (auto simp: insert_content_def exists_row_iff split: if_splits)
    have "movie_state_ok d' x" if "movie_state_ok d x" for x
      by (rule movie_state_jobs [OF that]) (auto simp: d' add_job_def d1)
    then show ?thesis using ok st d1 s(4) unfolding catalog_ok_def
      by (auto simp: d' add_job_def podcast_state_ok_def)
  qed
qed

lemma catalog_assets:
  assumes ok: "catalog_ok d" and c: "complete_admin_movie_asset_upload job exists optimize i ma d = Inr (m, d', dr)"
    and opt: "\<And>k kind. truthy k \<Longrightarrow> truthy (optimize k kind)"
  shows "catalog_ok d'"
proof -
  obtain movie where f: "find_movie (\<lambda>c. ct_id c = i) d = Inr movie"
    using c by (auto simp: complete_admin_movie_asset_upload_def split: sum.splits)
  note mv = find_movie_ok [OF f]
  define d1 where "d1 = (if truthy (ma_source_key ma) then add_job job (ct_id movie) (the (ma_source_key ma)) d else d)"
  define m1 where "m1 = (if truthy (ma_source_key ma)
    then movie\<lparr>ct_transcode_status := ''pending'', ct_hls_master_key := None, ct_duration_seconds := None\<rparr> else movie)"
  define m2 where "m2 = (if truthy (ma_poster_key ma) then m1\<lparr>ct_poster_key := optimize (ma_poster_key ma) ''poster''\<rparr> else m1)"
  define m3 where "m3 = (if truthy (ma_banner_key ma) then m2\<lparr>ct_banner_key := optimize (ma_banner_key ma) ''banner''\<rparr> else m2)"
  have m3: "m = m3 \<and> d' = put_content m3 d1"
    using c unfolding complete_admin_movie_asset_upload_def f sum.case Let_def
      m1_def [symmetric] d1_def [symmetric] m2_def [symmetric] m3_def [symmetric]
    by (auto split: sum.splits if_splits)
  have m: "ct_id m = ct_id movie" "ct_type m = ''single''" "ct_status m = ct_status movie"
    "ct_is_published m = ct_is_published movie" "ct_publish_at m = ct_publish_at movie"
    "truthy (ct_poster_key movie) \<longrightarrow> truthy (ct_poster_key m)" "d' = put_content m d1"
    "content_check m = content_check movie"
    "truthy (ma_source_key ma) \<or> ct_hls_master_key m = ct_hls_master_key movie \<and> ct_transcode_status m = ct_transcode_status movie"
    using mv m3 opt by (simp_all add: m3_def m2_def m1_def content_check_def)
  have old: "movie_state_ok d movie" "content_check movie" using ok mv by (auto simp: catalog_ok_def)
  have ok1: "catalog_ok d1" using ok catalog_job by (simp add: d1_def)
  have "movie_is_publishable d1 m" if "movie_is_publishable d movie"
    using that mv m(1,2,6,9) by (auto simp: movie_is_publishable_iff d1_def add_job_def exists_row_iff)
  then have "movie_state_ok d1 m" "podcast_state_ok m"
    using old(1) m(2-5) mv by (simp_all add: movie_state_ok_def podcast_state_ok_def)
  then show ?thesis unfolding m(7) using catalog_put [OF ok1] m(8) old(2) by simp
qed

lemma catalog_podcast_assets:
  assumes ok: "catalog_ok d"
    and c: "complete_admin_podcast_asset_upload exists optimize i ak pk d = Inr (m, d', dr)"
    and opt: "\<And>k kind. truthy k \<Longrightarrow> truthy (optimize k kind)"
  shows "catalog_ok d'"
proof -
  obtain p where f: "find_podcast i d = Inr p"
    using c by (auto simp: complete_admin_podcast_asset_upload_def split: sum.splits)
  note pv = find_podcast_ok [OF f]
  define p1 where "p1 = (if truthy ak then p\<lparr>ct_audio_key := ak, ct_transcode_status := ''ready''\<rparr> else p)"
  define p2 where "p2 = (if truthy pk then p1\<lparr>ct_poster_key := optimize pk ''poster''\<rparr> else p1)"
  have p2: "m = p2 \<and> d' = put_content p2 d"
    using c unfolding complete_admin_podcast_asset_upload_def f sum.case Let_def p1_def [symmetric] p2_def [symmetric]
    by (auto split: sum.splits if_splits)
  have m: "ct_type m = ''podcast''" "ct_status m = ct_status p"
    "ct_is_published m = ct_is_published p" "content_check m = content_check p"
    "is_ok (ensure_podcast_publishable p) \<longrightarrow> is_ok (ensure_podcast_publishable m)" "d' = put_content m d"
    using pv p2 opt by (simp_all add: p2_def p1_def content_check_def ensure_podcast_publishable_def)
  have old: "podcast_state_ok p" "content_check p" using ok pv by (auto simp: catalog_ok_def)
  then have "movie_state_ok d m" "podcast_state_ok m"
    using m(1-5) pv by (simp_all add: movie_state_ok_def podcast_state_ok_def)
  then show ?thesis unfolding m(6) using catalog_put [OF ok] m(4) old(2) by simp
qed

lemma catalog_map:
  assumes ok: "catalog_ok d" and c: "contents d' = map g (contents d)" and j: "transcode_jobs d' = transcode_jobs d"
    and g: "\<And>c. c \<in> set (contents d) \<Longrightarrow> ct_id (g c) = ct_id c \<and>
      (movie_state_ok d c \<longrightarrow> movie_state_ok d (g c)) \<and> (podcast_state_ok c \<longrightarrow> podcast_state_ok (g c)) \<and>
      (content_check c \<longrightarrow> content_check (g c))"
  shows "catalog_ok d'"
proof -
  have "distinct (map ct_id (contents d')) = distinct (map ct_id (contents d))"
    using c g by (metis (mono_tags, lifting) map_eq_conv map_map comp_apply)
  moreover have "movie_state_ok d' = movie_state_ok d"
    using movie_ready_jobs [OF j] by (simp add: fun_eq_iff movie_state_ok_def)
  ultimately show ?thesis using ok c g unfolding catalog_ok_def by auto
qed

lemma catalog_order:
  assumes "catalog_ok d"
  shows "catalog_ok (d\<lparr>contents := assign_order ct_id (\<lambda>n c. c\<lparr>ct_sort_order := n\<rparr>) elig ids (contents d)\<rparr>)"
proof -
  have "catalog_ok (d\<lparr>contents := fold (\<lambda>(i, x). update_where (\<lambda>r. ct_id r = x \<and> elig r)
      (\<lambda>c. c\<lparr>ct_sort_order := int i\<rparr>)) xs (contents d)\<rparr>)" for xs
    using assms
  proof (induction xs arbitrary: d)
    case (Cons a xs)
    obtain i x where a: "a = (i, x)" by (cases a)
    let ?d = "d\<lparr>contents := update_where (\<lambda>r. ct_id r = x \<and> elig r) (\<lambda>c. c\<lparr>ct_sort_order := int i\<rparr>) (contents d)\<rparr>"
    have "catalog_ok ?d"
      by (rule catalog_map [OF Cons.prems, where g = "\<lambda>r. if ct_id r = x \<and> elig r then r\<lparr>ct_sort_order := int i\<rparr> else r"])
        (auto simp: update_where_def movie_state_ok_def movie_is_publishable_iff podcast_state_ok_def
          ensure_podcast_publishable_def content_check_def)
    from Cons.IH [OF this] show ?case by (simp add: a)
  qed simp
  then show ?thesis by (simp add: assign_order_def)
qed

lemma catalog_remove: "catalog_ok d \<Longrightarrow> delete_content cid d = Inr d' \<Longrightarrow> catalog_ok d'"
proof -
  assume ok: "catalog_ok d" and del: "delete_content cid d = Inr d'"
  note d' = delete_content_removed [OF del]
  have "movie_state_ok d' c" if "movie_state_ok d c" "ct_id c \<noteq> cid" for c
    by (rule movie_state_jobs [OF that(1)]) (use that(2) in \<open>auto simp: d' title_removed_def delete_content_dependencies_def
      delete_transcode_jobs_for_content_def Let_def\<close>)
  then show ?thesis using ok
    by (auto simp: catalog_ok_def d' title_removed_fields delete_where_def distinct_map_filter)
qed

lemma catalog_tick: "catalog_ok d \<Longrightarrow> publish_tick lm ls now d = (d', dr) \<Longrightarrow> catalog_ok d'"
proof -
  assume ok: "catalog_ok d" and t: "publish_tick lm ls now d = (d', dr)"
  have d': "d' = fst (publish_tick lm ls now d)" using t by simp
  obtain g where g: "contents d' = map g (contents d)"
    "\<forall>c \<in> set (contents d). g c = c \<or> due_movie now c \<and> movie_is_publishable d c \<and> \<not> lm c \<and>
       g c = promote_scheduled_movie_to_published c"
    using update_picked [of ct_id "contents d" publish_sweep_limit lm "due_movie now"
        "\<lambda>c. schedule_key (ct_publish_at c)" "movie_is_publishable d" promote_scheduled_movie_to_published] ok
    unfolding d' tick_db catalog_ok_def by auto
  show ?thesis
  proof (rule catalog_map [OF ok g(1)])
    show "transcode_jobs d' = transcode_jobs d" unfolding d' tick_db by simp
    fix c assume "c \<in> set (contents d)"
    then consider "g c = c" | "due_movie now c" "movie_is_publishable d c" "g c = promote_scheduled_movie_to_published c"
      using g(2) by blast
    then show "ct_id (g c) = ct_id c \<and> (movie_state_ok d c \<longrightarrow> movie_state_ok d (g c)) \<and>
        (podcast_state_ok c \<longrightarrow> podcast_state_ok (g c)) \<and> (content_check c \<longrightarrow> content_check (g c))"
    proof cases
      case 2
      then show ?thesis
        by (simp add: promoted_movie_ok) (simp add: promote_scheduled_movie_to_published_def podcast_state_ok_def
          content_check_def due_movie_def)
    qed simp
  qed
qed

lemma catalog_step_ok: "catalog_step d d' \<Longrightarrow> catalog_ok d \<Longrightarrow> catalog_ok d'"
proof (induction rule: catalog_step.induct)
  case (draft now fresh token data d m d' dr)
  then show ?case using catalog_draft by blast
next
  case (upload now job assembled exists optimize mu d m d' dr)
  then show ?case using catalog_upload by blast
next
  case (patch slug u d m d' dr)
  then obtain movie m' where "find_movie (\<lambda>c. ct_slug c = slug) d = Inr movie"
    "patch_movie (normalize_content_update u) movie d = Inr (m', d')"
    by (auto simp: update_movie_def split: sum.splits)
  then show ?case using catalog_patch_movie find_movie_ok patch by (fastforce simp: normalize_content_update_def)
next
  case (admin_patch i u d m d' dr)
  then obtain movie m' where "find_movie (\<lambda>c. ct_id c = i) d = Inr movie"
    "patch_movie (normalize_content_update u) movie d = Inr (m', d')"
    by (auto simp: update_admin_movie_def split: sum.splits)
  then show ?case using catalog_patch_movie find_movie_ok admin_patch by (fastforce simp: normalize_content_update_def)
next
  case (assets job exists optimize i ma d m d' dr)
  then show ?case using catalog_assets by blast
next
  case (reorder ids d d' dr)
  then show ?case using catalog_order by (auto simp: reorder_admin_movies_def split: if_splits)
next
  case (remove slug d d' dr)
  then show ?case using catalog_remove by (auto simp: delete_movie_def split: sum.splits)
next
  case (admin_remove i d d' dr)
  then show ?case using catalog_remove by (auto simp: delete_admin_movie_def split: sum.splits)
next
  case (podcast_draft now fresh token pc d m d' dr)
  then show ?case using catalog_podcast_draft by blast
next
  case (podcast_patch i u d m d' dr)
  then show ?case using catalog_patch_podcast by blast
next
  case (podcast_assets exists optimize i ak pk d m d' dr)
  then show ?case using catalog_podcast_assets by blast
next
  case (podcast_reorder ids d d' dr)
  then show ?case using catalog_order by (auto simp: reorder_admin_podcasts_def split: if_splits)
next
  case (podcast_remove i d d' dr)
  then show ?case using catalog_remove by (auto simp: delete_admin_podcast_def split: sum.splits)
next
  case (retry jid d j d')
  then show ?case using catalog_retry by blast
next
  case (tick lm ls now d d' dr)
  then show ?case using catalog_tick by blast
qed


definition night_train :: movie_upload where
  "night_train = \<lparr>mu_content_id = 7, mu_slug = ''night'', mu_source_key = movie_source_key ''night'',
     mu_parts = [(1, ''e'')], mu_title = ''Night'', mu_title_km = None, mu_price_usd = 1, mu_description = None,
     mu_genres = [], mu_region = None, mu_release_year = None, mu_rating = None, mu_runtime_minutes = Some 90,
     mu_status = ''scheduled'', mu_publish_at = Some 5,
     mu_trailer_url = None, mu_poster_key = Some (movie_poster_key ''t'' ''night'' ''image/png''), mu_banner_key = None\<rparr>"

definition night_db :: db where
  "night_db = (case complete_movie_upload 0 1 True (\<lambda>_. True) (\<lambda>k _. k) night_train empty_db of
     Inr (_, d, _) \<Rightarrow> d | Inl _ \<Rightarrow> empty_db)"

lemma night_upload:
  "\<exists>m dr. complete_movie_upload 0 1 True (\<lambda>_. True) (\<lambda>k _. k) night_train empty_db = Inr (m, night_db, dr)"
proof -
  have "is_ok (complete_movie_upload 0 1 True (\<lambda>_. True) (\<lambda>k _. k) night_train empty_db)" by code_simp
  then show ?thesis by (auto simp: night_db_def is_ok_def split: sum.splits)
qed


text \<open>
  What the previous property leaves out, and why it must. A PATCH that sets only
  \<open>is_published: true\<close>, which the schema accepts, makes any movie visible whatever its status and
  whether or not it has a poster or a video, and leaves the status as it was; while a PATCH of the
  status to published of a movie that is not ready is refused with 422 and changes nothing.
\<close>

theorem is_published_skips_readiness:
  assumes "find_movie (\<lambda>c. ct_slug c = slug) d = Inr movie" and "content_check movie"
  shows "(ct_status movie \<noteq> ''published'' \<longrightarrow>
      update_movie slug (no_update\<lparr>cu_is_published := Some (Some True)\<rparr>) d =
        Inr (movie\<lparr>ct_is_published := True\<rparr>, put_content (movie\<lparr>ct_is_published := True\<rparr>) d,
             [DropPrefix ''movies:'', DropKey ''home-sections'']) \<and>
      movie\<lparr>ct_is_published := True\<rparr> \<in> set (contents (put_content (movie\<lparr>ct_is_published := True\<rparr>) d)) \<and>
      \<not> movie_state_ok d (movie\<lparr>ct_is_published := True\<rparr>)) \<and>
    (\<not> movie_is_publishable d movie \<longrightarrow>
      (\<exists>msg. update_movie slug (no_update\<lparr>cu_status := Some (Some ''published'')\<rparr>) d = Inl (HTTPException 422 msg)))"
proof (intro conjI impI)
  note mv = find_movie_ok [OF assms(1)]
  let ?m = "movie\<lparr>ct_is_published := True\<rparr>"
  { assume st: "ct_status movie \<noteq> ''published''"
    have chk: "content_check ?m" using assms(2) by (simp add: content_check_def)
    show "update_movie slug (no_update\<lparr>cu_is_published := Some (Some True)\<rparr>) d =
        Inr (?m, put_content ?m d, [DropPrefix ''movies:'', DropKey ''home-sections''])"
      using st chk by (simp add: update_movie_def assms(1) patch_movie_def normalize_content_update_def no_update_def
          assign_runtime_def assign_content_def null_columns_def Let_def)
    show "?m \<in> set (contents (put_content ?m d))"
      using mv by (auto simp: put_content_def update_where_def image_iff)
    show "\<not> movie_state_ok d ?m" using st mv by (simp add: movie_state_ok_def)
  }
  assume bad: "\<not> movie_is_publishable d movie"
  let ?p = "movie\<lparr>ct_status := ''published'', ct_is_published := True, ct_publish_at := None\<rparr>"
  have ap: "apply_movie_publish_state (Some ''published'') None movie = Inr ?p"
    using mv unfolding apply_movie_publish_state_def
    by (simp add: validate_content_status_def valid_content_statuses_def)
  have chk: "content_check ?p" using assms(2) by (simp add: content_check_def)
  have "\<not> movie_is_publishable d ?p" using bad by (simp add: movie_is_publishable_iff)
  then obtain msg where "ensure_movie_publishable d ?p = Inl (HTTPException 422 msg)"
    by (simp add: movie_is_publishable_def ensure_movie_publishable_def split: if_splits)
  then show "\<exists>msg. update_movie slug (no_update\<lparr>cu_status := Some (Some ''published'')\<rparr>) d = Inl (HTTPException 422 msg)"
    using ap chk by (simp add: update_movie_def assms(1) patch_movie_def normalize_content_update_def no_update_def
          assign_runtime_def assign_content_def null_columns_def Let_def)
qed

theorem is_published_skips_readiness_witness:
  "\<exists>d' m. update_movie ''bare'' (no_update\<lparr>cu_is_published := Some (Some True)\<rparr>)
      (empty_db\<lparr>contents := [default_content\<lparr>ct_id := 1, ct_type := ''single'', ct_slug := ''bare'',
         ct_price_usd := Some 2, ct_status := ''draft''\<rparr>]\<rparr>) =
      Inr (m, d', [DropPrefix ''movies:'', DropKey ''home-sections'']) \<and> ct_poster_key m = None \<and> ct_is_published m"
proof -
  let ?m = "default_content\<lparr>ct_id := 1, ct_type := ''single'', ct_slug := ''bare'', ct_price_usd := Some 2, ct_status := ''draft''\<rparr>"
  have f: "find_movie (\<lambda>c. ct_slug c = ''bare'') (empty_db\<lparr>contents := [?m]\<rparr>) = Inr ?m"
    by (simp add: find_movie_def default_content_def)
  show ?thesis
    using is_published_skips_readiness [OF f, THEN conjunct1]
    by (simp add: content_check_def default_content_def)
qed

lemma filter_map_frame:
  "(\<And>x. P (f x) = P x) \<Longrightarrow> (\<And>x. P x \<Longrightarrow> f x = x) \<Longrightarrow> filter P (map f xs) = filter P xs"
  by (induction xs) auto

text \<open>
  Drag-and-drop ordering works. When the admin sends the ids of all movies, each once, the movie
  list then shows exactly that order, no row is lost, no other title is touched, and nothing of a
  movie but its place changes; with an empty list nothing changes.
\<close>

theorem movie_reorder_shown:
  assumes "distinct ids" and "ids \<noteq> []" and "distinct (map ct_id (contents d))"
    and "set ids = set (map ct_id (filter (\<lambda>c. ct_type c = ''single'') (contents d)))"
  shows "map ct_id (list_admin_movies (fst (reorder_admin_movies ids d))) = ids \<and>
    map (\<lambda>c. c\<lparr>ct_sort_order := 0\<rparr>) (contents (fst (reorder_admin_movies ids d))) =
      map (\<lambda>c. c\<lparr>ct_sort_order := 0\<rparr>) (contents d) \<and>
    filter (\<lambda>c. ct_type c \<noteq> ''single'') (contents (fst (reorder_admin_movies ids d))) =
      filter (\<lambda>c. ct_type c \<noteq> ''single'') (contents d)"
proof (intro conjI)
  let ?rows = "assign_order ct_id (\<lambda>n c. c\<lparr>ct_sort_order := n\<rparr>) (\<lambda>c. ct_type c = ''single'') ids (contents d)"
  have out: "contents (fst (reorder_admin_movies ids d)) = ?rows"
    using assms(2) by (simp add: reorder_admin_movies_def)
  show "map ct_id (list_admin_movies (fst (reorder_admin_movies ids d))) = ids"
    unfolding list_admin_movies_def out
    by (rule movie_order.order_by_assign [OF assms(1) _ assms(3)]) (use assms(4) in auto)
  note rows = movie_order.assign_rows [OF assms(1), of "contents d"]
  show "map (\<lambda>c. c\<lparr>ct_sort_order := 0\<rparr>) (contents (fst (reorder_admin_movies ids d))) =
      map (\<lambda>c. c\<lparr>ct_sort_order := 0\<rparr>) (contents d)"
    unfolding out rows by simp
  show "filter (\<lambda>c. ct_type c \<noteq> ''single'') (contents (fst (reorder_admin_movies ids d))) =
      filter (\<lambda>c. ct_type c \<noteq> ''single'') (contents d)"
    unfolding out rows by (rule filter_map_frame) auto
qed

theorem movie_reorder_shown_witness:
  "map ct_id (list_admin_movies (fst (reorder_admin_movies [2, 1] (empty_db\<lparr>contents :=
     [default_content\<lparr>ct_id := 1, ct_type := ''single''\<rparr>, default_content\<lparr>ct_id := 2, ct_type := ''single''\<rparr>]\<rparr>)))) = [2, 1]"
  by (rule movie_reorder_shown [THEN conjunct1]) (auto simp: default_content_def)

end
