(* ===== verification/Listing.thy ===== *)
theory Listing
  imports Access Response_Cache
begin

text \<open>
  The public read side of the catalog: \<open>app/catalog/listing.py\<close>, \<open>search.py\<close>, \<open>related.py\<close> and
  \<open>series.py\<close>, \<open>app/services/pagination.py\<close> and \<open>app/schemas/pagination.py\<close>, the episode list of
  \<open>app/routers/series.py\<close>, \<open>app/routers/podcasts.py\<close>, and the star ratings of \<open>app/catalog/ratings.py\<close>.
  Postgres full-text search (\<open>search_vector @@ to_tsquery('simple', q)\<close>) is the argument \<open>fts\<close>; \<open>ILIKE\<close>
  is modelled on ASCII strings with its wildcards and escape character. Rows that tie in an
  \<open>ORDER BY\<close> keep table order, and a group that ties keeps the order of its first row. The retry of
  \<open>paginate_query\<close> after a lost connection is not modelled.
\<close>

section \<open>Pagination\<close>

record 'a page =
  pg_items :: "'a list"
  pg_total :: nat
  pg_page :: nat
  pg_page_size :: nat
  pg_pages :: nat

text \<open>\<open>OFFSET (page - 1) * page_size LIMIT page_size\<close>, and the count of the whole query.\<close>

definition paginate_query :: "nat \<Rightarrow> nat \<Rightarrow> 'a list \<Rightarrow> 'a list \<times> nat" where
  "paginate_query page page_size rows =
     (take page_size (List.drop ((page - 1) * page_size) rows), length rows)"

definition build_paginated_response :: "'a list \<Rightarrow> nat \<Rightarrow> nat \<Rightarrow> nat \<Rightarrow> 'a page" where
  "build_paginated_response items found page page_size =
     \<lparr>pg_items = items, pg_total = found, pg_page = page, pg_page_size = page_size,
      pg_pages = (if found \<noteq> 0 then max 1 (nat \<lceil>of_nat found / (of_nat page_size :: rat)\<rceil>) else 1)\<rparr>"

text \<open>The bounds \<open>get_pagination_params\<close> puts on the query parameters; outside them the answer is 422.\<close>

definition valid_pagination :: "nat \<Rightarrow> nat \<Rightarrow> bool" where
  "valid_pagination page page_size \<longleftrightarrow> 1 \<le> page \<and> 1 \<le> page_size \<and> page_size \<le> 100"

section \<open>Search\<close>

definition is_token_char :: "char \<Rightarrow> bool" where
  "is_token_char c = (let n = (of_char c :: nat) in
     48 \<le> n \<and> n \<le> 57 \<or> 65 \<le> n \<and> n \<le> 90 \<or> 97 \<le> n \<and> n \<le> 122 \<or> n = 95)"

text \<open>The maximal runs of word characters: what is left after the substitution and \<open>split\<close>.\<close>

fun words_from :: "string \<Rightarrow> string \<Rightarrow> string list" where
  "words_from acc [] = (if acc = [] then [] else [acc])"
| "words_from acc (c # cs) =
     (if is_token_char c then words_from (acc @ [c]) cs
      else if acc = [] then words_from [] cs else acc # words_from [] cs)"

definition prefix_tsquery :: "string \<Rightarrow> string option" where
  "prefix_tsquery term =
     (let parts = words_from [] term in
      if parts = [] then None else Some (join '' & '' (map (\<lambda>p. p @ '':*'') parts)))"

text \<open>\<open>LIKE\<close>: the percent sign is any string, the underscore any character, the backslash escapes.\<close>

fun like :: "string \<Rightarrow> string \<Rightarrow> bool" where
  "like [] s = (s = [])"
| "like (p # ps) s =
     (if p = CHR ''%'' then like ps s \<or> (case s of [] \<Rightarrow> False | _ # cs \<Rightarrow> like (p # ps) cs)
      else if p = CHR 0x5C \<and> ps \<noteq> [] then
        (case s of [] \<Rightarrow> False | c # cs \<Rightarrow> c = hd ps \<and> like (tl ps) cs)
      else (case s of [] \<Rightarrow> False | c # cs \<Rightarrow> (p = CHR ''_'' \<or> p = c) \<and> like ps cs))"

definition ilike :: "string \<Rightarrow> string \<Rightarrow> bool" where
  "ilike s pattern = like (lower pattern) (lower s)"

text \<open>\<open>.replace\<close> of backslash, percent and underscore, in this order: one pass over the characters.\<close>

fun escape_like :: "string \<Rightarrow> string" where
  "escape_like [] = []"
| "escape_like (c # cs) =
     (if c \<in> {CHR 0x5C, CHR ''%'', CHR ''_''} then CHR 0x5C # c # escape_like cs else c # escape_like cs)"

text \<open>What a row shows to the search: title, Khmer title, description, genres.\<close>

type_synonym searchable = "string \<times> string option \<times> string option \<times> string list"

definition content_searchable :: "content_row \<Rightarrow> searchable" where
  "content_searchable c = (ct_title c, ct_title_km c, ct_description c, ct_genres c)"

definition series_searchable :: "series_row \<Rightarrow> searchable" where
  "series_searchable s = (ser_title s, ser_title_km s, ser_description s, ser_genres s)"

fun search_hit :: "string \<Rightarrow> searchable \<Rightarrow> bool" where
  "search_hit term (title, title_km, description, genres) =
     (let pattern = ''%'' @ term @ ''%'' in
      ilike title pattern \<or> (case title_km of None \<Rightarrow> False | Some t \<Rightarrow> ilike t pattern) \<or>
      (case description of None \<Rightarrow> False | Some t \<Rightarrow> ilike t pattern) \<or> ilike (join '' '' genres) pattern)"

definition apply_catalog_search ::
    "('r \<Rightarrow> string \<Rightarrow> bool) \<Rightarrow> ('r \<Rightarrow> searchable) \<Rightarrow> string option \<Rightarrow> 'r list \<Rightarrow> 'r list" where
  "apply_catalog_search fts searchable search rows =
     (case search of
        None \<Rightarrow> rows
      | Some s \<Rightarrow>
        (let term = strip s in
         if term = [] then rows
         else filter (\<lambda>r. (case prefix_tsquery term of None \<Rightarrow> False | Some q \<Rightarrow> fts r q) \<or>
                       search_hit term (searchable r)) rows))"

text \<open>\<open>genres[1]\<close> is the first genre, NULL of an empty array.\<close>

definition apply_catalog_genre :: "('r \<Rightarrow> string list) \<Rightarrow> string option \<Rightarrow> 'r list \<Rightarrow> 'r list" where
  "apply_catalog_genre genres genre rows =
     (case genre of
        None \<Rightarrow> rows
      | Some g \<Rightarrow>
        (let label = strip g in
         if label = [] then rows
         else filter (\<lambda>r. case genres r of [] \<Rightarrow> False | x # _ \<Rightarrow> ilike x (escape_like label)) rows))"

section \<open>The lists\<close>

text \<open>\<open>f"{value}"\<close> of an optional string, an optional flag and a page number.\<close>

definition str_opt :: "string option \<Rightarrow> string" where
  "str_opt v = (case v of None \<Rightarrow> ''None'' | Some s \<Rightarrow> s)"

definition str_flag :: "bool option \<Rightarrow> string" where
  "str_flag v = (case v of None \<Rightarrow> ''None'' | Some True \<Rightarrow> ''True'' | Some False \<Rightarrow> ''False'')"

definition movies_cache_key :: "string option \<Rightarrow> string option \<Rightarrow> bool option \<Rightarrow> nat \<Rightarrow> nat \<Rightarrow> string" where
  "movies_cache_key search genre free page page_size =
     ''movies:search='' @ str_opt search @ '':genre='' @ str_opt genre @ '':free='' @ str_flag free @
     '':page='' @ string_of_nat page @ '':page_size='' @ string_of_nat page_size"

text \<open>The query of \<open>list_published_movies\<close>, in its order.\<close>

definition published_movies ::
    "(content_row \<Rightarrow> string \<Rightarrow> bool) \<Rightarrow> string option \<Rightarrow> string option \<Rightarrow> bool option \<Rightarrow> db \<Rightarrow> content_row list" where
  "published_movies fts search genre free d =
     order_by (\<lambda>c. (ct_sort_order c, - ct_created_at c))
       (filter (\<lambda>c. free = Some True \<longrightarrow> ct_is_free c)
         (apply_catalog_genre ct_genres genre
           (apply_catalog_search fts content_searchable search
             (filter (\<lambda>c. ct_type c = ''single'' \<and> ct_is_published c) (contents d)))))"

definition movies_page ::
    "(content_row \<Rightarrow> string \<Rightarrow> bool) \<Rightarrow> string option \<Rightarrow> string option \<Rightarrow> bool option \<Rightarrow> nat \<Rightarrow> nat \<Rightarrow> db \<Rightarrow>
     content_row page" where
  "movies_page fts search genre free page page_size d =
     (case paginate_query page page_size (published_movies fts search genre free d) of
        (items, found) \<Rightarrow> build_paginated_response items found page page_size)"

definition list_published_movies ::
    "(content_row page \<Rightarrow> string) \<Rightarrow> (string \<Rightarrow> content_row page option) \<Rightarrow> bool \<Rightarrow> monotonic \<Rightarrow> nat \<Rightarrow>
     (content_row \<Rightarrow> string \<Rightarrow> bool) \<Rightarrow> string option \<Rightarrow> string option \<Rightarrow> bool option \<Rightarrow> nat \<Rightarrow> nat \<Rightarrow> db \<Rightarrow>
     content_row page catalog_cache \<Rightarrow> content_row page \<times> content_row page catalog_cache" where
  "list_published_movies dumps loads up now w fts search genre free page page_size d s =
     (let key = movies_cache_key search genre free page page_size in
      case cache_get_async loads up now w key s of
        (Some cached, s1) \<Rightarrow> (cached, s1)
      | (None, s1) \<Rightarrow>
        (let response = movies_page fts search genre free page page_size d
         in (response, cache_set_async dumps up now w catalog_ttl_seconds key response s1)))"

definition free_episode_count :: "uuid \<Rightarrow> db \<Rightarrow> nat" where
  "free_episode_count sid d =
     count_rows (\<lambda>c. ct_series_id c = Some sid \<and> ct_type c = ''episode'' \<and> ct_is_free c \<and> ct_is_published c)
       (contents d)"

text \<open>\<open>GROUP BY region\<close> and its counts, then the first group with the highest count.\<close>

definition region_groups :: "uuid \<Rightarrow> db \<Rightarrow> (string \<times> nat) list" where
  "region_groups sid d =
     (let rs = map (\<lambda>c. the (ct_region c)) (filter (\<lambda>c. ct_series_id c = Some sid \<and> ct_type c = ''episode'' \<and>
                 ct_region c \<noteq> None) (contents d))
      in map (\<lambda>r. (r, count_rows (\<lambda>x. x = r) rs)) (remdups rs))"

definition best_region :: "(string \<times> nat) list \<Rightarrow> (string \<times> nat) option" where
  "best_region groups = fold (\<lambda>(region, n) best.
     if region = [] then best
     else (case best of None \<Rightarrow> Some (region, n) | Some (_, m) \<Rightarrow> if m < n then Some (region, n) else best))
     groups None"

definition series_region :: "uuid \<Rightarrow> db \<Rightarrow> string option" where
  "series_region sid d = map_option fst (best_region (region_groups sid d))"

definition published_series ::
    "(series_row \<Rightarrow> string \<Rightarrow> bool) \<Rightarrow> string option \<Rightarrow> string option \<Rightarrow> bool option \<Rightarrow> bool option \<Rightarrow> db \<Rightarrow>
     series_row list" where
  "published_series fts search genre free short d =
     order_by (\<lambda>s. (ser_sort_order s, - ser_created_at s))
       (filter (\<lambda>s. free = Some True \<longrightarrow>
            exists_row (\<lambda>c. ct_series_id c = Some (ser_id s) \<and> ct_is_free c \<and> ct_is_published c) (contents d))
         (filter (\<lambda>s. case short of None \<Rightarrow> True | Some b \<Rightarrow> ser_is_short_movie s = b)
           (apply_catalog_genre ser_genres genre
             (apply_catalog_search fts series_searchable search
               (filter ser_is_published (series_table d))))))"

definition series_cache_key ::
    "string option \<Rightarrow> string option \<Rightarrow> bool option \<Rightarrow> bool option \<Rightarrow> nat \<Rightarrow> nat \<Rightarrow> string" where
  "series_cache_key search genre free short page page_size =
     ''series:search='' @ str_opt search @ '':genre='' @ str_opt genre @ '':free='' @ str_flag free @
     '':short='' @ str_flag short @ '':page='' @ string_of_nat page @ '':page_size='' @ string_of_nat page_size"

type_synonym series_view = "series_row \<times> nat \<times> string option"

definition series_item :: "db \<Rightarrow> series_row \<Rightarrow> series_view" where
  "series_item d s = (s, free_episode_count (ser_id s) d, series_region (ser_id s) d)"

definition series_page ::
    "(series_row \<Rightarrow> string \<Rightarrow> bool) \<Rightarrow> string option \<Rightarrow> string option \<Rightarrow> bool option \<Rightarrow> bool option \<Rightarrow> nat \<Rightarrow> nat \<Rightarrow>
     db \<Rightarrow> series_view page" where
  "series_page fts search genre free short page page_size d =
     (case paginate_query page page_size (published_series fts search genre free short d) of
        (items, found) \<Rightarrow> build_paginated_response (map (series_item d) items) found page page_size)"

definition list_published_series ::
    "(series_view page \<Rightarrow> string) \<Rightarrow> (string \<Rightarrow> series_view page option) \<Rightarrow> bool \<Rightarrow> monotonic \<Rightarrow> nat \<Rightarrow>
     (series_row \<Rightarrow> string \<Rightarrow> bool) \<Rightarrow> string option \<Rightarrow> string option \<Rightarrow> bool option \<Rightarrow> bool option \<Rightarrow> nat \<Rightarrow> nat \<Rightarrow>
     db \<Rightarrow> series_view page catalog_cache \<Rightarrow> series_view page \<times> series_view page catalog_cache" where
  "list_published_series dumps loads up now w fts search genre free short page page_size d s =
     (let key = series_cache_key search genre free short page page_size in
      case cache_get_async loads up now w key s of
        (Some cached, s1) \<Rightarrow> (cached, s1)
      | (None, s1) \<Rightarrow>
        (let response = series_page fts search genre free short page page_size d
         in (response, cache_set_async dumps up now w catalog_ttl_seconds key response s1)))"

section \<open>Related titles\<close>

text \<open>The two queries and the fallback \<open>related_movies\<close> and \<open>related_series\<close> both run.\<close>

definition related ::
    "('r \<Rightarrow> uuid) \<Rightarrow> ('r \<Rightarrow> string list) \<Rightarrow> ('r \<Rightarrow> datetime) \<Rightarrow> ('r \<Rightarrow> bool) \<Rightarrow> nat \<Rightarrow> 'r \<Rightarrow> 'r list \<Rightarrow> 'r list" where
  "related rid genres_of created listed limit self rows =
     (let genres = filter (\<lambda>g. g \<noteq> []) (genres_of self);
          newest = order_by (\<lambda>r. - created r);
          items = take limit (newest (filter (\<lambda>r. listed r \<and> rid r \<noteq> rid self \<and>
                    (genres = [] \<or> set (genres_of r) \<inter> set genres \<noteq> {})) rows))
      in if limit \<le> length items \<or> genres = [] then items
         else items @ take (limit - length items) (newest (filter (\<lambda>r. listed r \<and>
                rid r \<notin> insert (rid self) (set (map rid items))) rows)))"

definition related_movies :: "content_row \<Rightarrow> nat \<Rightarrow> db \<Rightarrow> content_row list" where
  "related_movies movie limit d =
     related ct_id ct_genres ct_created_at (\<lambda>c. ct_type c = ''single'' \<and> ct_is_published c) limit movie (contents d)"

definition related_series :: "series_row \<Rightarrow> nat \<Rightarrow> db \<Rightarrow> series_row list" where
  "related_series series limit d =
     related ser_id ser_genres ser_created_at ser_is_published limit series (series_table d)"

definition list_related_movies :: "string \<Rightarrow> nat \<Rightarrow> db \<Rightarrow> content_row list result" where
  "list_related_movies slug limit d =
     (case select_one (\<lambda>c. ct_slug c = slug \<and> ct_type c = ''single'' \<and> ct_is_published c) (contents d) of
        None \<Rightarrow> Inl (NotFoundError ''Movie not found'')
      | Some movie \<Rightarrow> Inr (related_movies movie limit d))"

definition get_series_or_404 :: "bool \<Rightarrow> string \<Rightarrow> db \<Rightarrow> series_row result" where
  "get_series_or_404 published_only slug d =
     (case select_one (\<lambda>s. ser_slug s = slug \<and> (published_only \<longrightarrow> ser_is_published s)) (series_table d) of
        None \<Rightarrow> Inl (NotFoundError ''Series not found'') | Some s \<Rightarrow> Inr s)"

definition list_related_series :: "string \<Rightarrow> nat \<Rightarrow> db \<Rightarrow> series_view list result" where
  "list_related_series slug limit d =
     (case get_series_or_404 True slug d of
        Inl e \<Rightarrow> Inl e | Inr series \<Rightarrow> Inr (map (series_item d) (related_series series limit d)))"

definition get_series_detail :: "string \<Rightarrow> user_row option \<Rightarrow> db \<Rightarrow> series_row result" where
  "get_series_detail slug user d = get_series_or_404 (\<not> is_admin user) slug d"

section \<open>Detail pages\<close>

definition is_coming_soon :: "uuid \<Rightarrow> db \<Rightarrow> bool" where
  "is_coming_soon cid d = exists_row (\<lambda>c. cs_content_id c = cid) (coming_soon_items d)"

text \<open>The answer and its \<open>is_free_today\<close> flag.\<close>

definition get_movie_detail ::
    "datetime \<Rightarrow> string \<Rightarrow> user_row option \<Rightarrow> string option \<Rightarrow> db \<Rightarrow> (content_row \<times> bool) result" where
  "get_movie_detail now slug user guest_id d =
     (case select_one (\<lambda>c. ct_slug c = slug \<and> ct_type c = ''single'') (contents d) of
        None \<Rightarrow> Inl (NotFoundError ''Movie not found'')
      | Some movie \<Rightarrow>
        if \<not> ct_is_published movie \<and> \<not> is_admin user \<and> \<not> is_coming_soon (ct_id movie) d
        then Inl (NotFoundError ''Movie not found'')
        else
         (let flag = is_free_today (ct_id movie) d in
          if can_access_content now user guest_id movie (Some flag) d then Inr (movie, flag)
          else Inr (movie\<lparr>ct_hls_master_key := None\<rparr>, flag)))"

text \<open>Postgres sorts NULL after every number.\<close>

definition nulls_last :: "int option \<Rightarrow> nat \<times> int" where
  "nulls_last v = (case v of None \<Rightarrow> (1, 0) | Some n \<Rightarrow> (0, n))"

text \<open>
  The episodes of a published series for one viewer; \<open>guest_id\<close> is the cookie, which the code reads
  only for a visitor who is not signed in.
\<close>

definition list_episodes ::
    "datetime \<Rightarrow> string \<Rightarrow> user_row option \<Rightarrow> string option \<Rightarrow> nat \<Rightarrow> nat \<Rightarrow> db \<Rightarrow> content_row page result" where
  "list_episodes now slug user guest_id page page_size d =
     (case get_series_or_404 True slug d of
        Inl e \<Rightarrow> Inl e
      | Inr series \<Rightarrow>
        (case paginate_query page page_size
                (order_by (\<lambda>c. (nulls_last (ct_season_number c), nulls_last (ct_episode_number c)))
                  (filter (\<lambda>c. ct_series_id c = Some (ser_id series) \<and> ct_is_published c) (contents d))) of
           (episodes, found) \<Rightarrow>
             (let entitled = (case user of
                    Some u \<Rightarrow> user_has_active_subscription now (user_id u) d \<or>
                              has_series_purchase (ser_id series) (Some (user_id u)) None d
                  | None \<Rightarrow> truthy guest_id \<and> has_series_purchase (ser_id series) None guest_id d)
              in Inr (build_paginated_response
                   (map (\<lambda>ep. if is_admin user \<or> ct_is_free ep \<or> entitled then ep
                              else ep\<lparr>ct_hls_master_key := None\<rparr>) episodes) found page page_size))))"

definition find_podcast_for ::
    "(content_row \<Rightarrow> bool) \<Rightarrow> user_row option \<Rightarrow> db \<Rightarrow> content_row option" where
  "find_podcast_for P user d =
     (case select_one (\<lambda>c. P c \<and> ct_type c = ''podcast'') (contents d) of
        None \<Rightarrow> None
      | Some p \<Rightarrow> if ct_is_published p \<or> is_admin user then Some p else None)"

text \<open>The audio key whose signed URL the endpoint answers with.\<close>

definition authorize_podcast_audio ::
    "datetime \<Rightarrow> uuid \<Rightarrow> user_row option \<Rightarrow> string option \<Rightarrow> db \<Rightarrow> string result" where
  "authorize_podcast_audio now content_id user guest_id d =
     (case find_podcast_for (\<lambda>c. ct_id c = content_id) user d of
        None \<Rightarrow> Inl (HTTPException 404 ''Podcast not found'')
      | Some podcast \<Rightarrow>
        if \<not> can_access_content now user (if user = None then guest_id else None) podcast None d
        then Inl (HTTPException 403 ''Subscribe to unlock this podcast'')
        else if \<not> truthy (ct_audio_key podcast)
        then Inl (HTTPException 409 ''This podcast is not ready to play yet'')
        else Inr (the (ct_audio_key podcast)))"

definition get_podcast ::
    "datetime \<Rightarrow> string \<Rightarrow> user_row option \<Rightarrow> string option \<Rightarrow> db \<Rightarrow> content_row result" where
  "get_podcast now slug user guest_id d =
     (case find_podcast_for (\<lambda>c. ct_slug c = slug) user d of
        None \<Rightarrow> Inl (NotFoundError ''Podcast not found'')
      | Some podcast \<Rightarrow>
        if can_access_content now user (if user = None then guest_id else None) podcast None d
        then Inr podcast else Inr (podcast\<lparr>ct_audio_key := None\<rparr>))"

definition list_podcasts :: "string option \<Rightarrow> nat \<Rightarrow> nat \<Rightarrow> db \<Rightarrow> content_row page" where
  "list_podcasts search page page_size d =
     (case paginate_query page page_size
             (order_by (\<lambda>c. (ct_sort_order c, - ct_created_at c))
               (filter (\<lambda>c. ct_type c = ''podcast'' \<and> ct_is_published c \<and>
                  (case search of None \<Rightarrow> True
                   | Some s \<Rightarrow> strip s = [] \<or>
                      (let term = ''%'' @ strip s @ ''%'' in
                       ilike (ct_title c) term \<or> (case ct_title_km c of None \<Rightarrow> False | Some t \<Rightarrow> ilike t term))))
                 (contents d))) of
        (items, found) \<Rightarrow> build_paginated_response items found page page_size)"

section \<open>The admin lists\<close>

text \<open>A title with the number of its viewers and of its purchases; absent counts are 0.\<close>

type_synonym admin_view = "content_row \<times> nat \<times> nat"

definition watch_count :: "uuid \<Rightarrow> db \<Rightarrow> nat" where
  "watch_count cid d = count_rows (\<lambda>w. wp_content_id w = cid) (watch_progress d)"

definition purchase_count :: "uuid \<Rightarrow> db \<Rightarrow> nat" where
  "purchase_count cid d = count_rows (\<lambda>p. pu_content_id p = cid) (purchases d)"

definition admin_item :: "db \<Rightarrow> content_row \<Rightarrow> admin_view" where
  "admin_item d c = (c, watch_count (ct_id c) d, purchase_count (ct_id c) d)"

definition admin_movie_page :: "nat \<Rightarrow> nat \<Rightarrow> db \<Rightarrow> admin_view page" where
  "admin_movie_page page page_size d =
     (case paginate_query page page_size
             (order_by (\<lambda>c. (ct_sort_order c, - ct_created_at c)) (filter (\<lambda>c. ct_type c = ''single'') (contents d))) of
        (items, found) \<Rightarrow> build_paginated_response (map (admin_item d) items) found page page_size)"

definition get_admin_movie :: "uuid \<Rightarrow> db \<Rightarrow> admin_view result" where
  "get_admin_movie mid d =
     (case select_one (\<lambda>c. ct_id c = mid \<and> ct_type c = ''single'') (contents d) of
        None \<Rightarrow> Inl (NotFoundError ''Movie not found'') | Some c \<Rightarrow> Inr (admin_item d c))"

definition list_admin_podcasts :: "string option \<Rightarrow> nat \<Rightarrow> nat \<Rightarrow> db \<Rightarrow> admin_view page" where
  "list_admin_podcasts search page page_size d =
     (case paginate_query page page_size
             (order_by (\<lambda>c. (ct_sort_order c, - ct_created_at c))
               (filter (\<lambda>c. ct_type c = ''podcast'' \<and>
                  (case search of None \<Rightarrow> True
                   | Some s \<Rightarrow> strip s = [] \<or>
                      (let term = ''%'' @ strip s @ ''%'' in
                       ilike (ct_title c) term \<or> (case ct_title_km c of None \<Rightarrow> False | Some t \<Rightarrow> ilike t term))))
                 (contents d))) of
        (items, found) \<Rightarrow> build_paginated_response (map (admin_item d) items) found page page_size)"

definition get_admin_podcast :: "uuid \<Rightarrow> db \<Rightarrow> admin_view result" where
  "get_admin_podcast pid d =
     (case select_one (\<lambda>c. ct_id c = pid \<and> ct_type c = ''podcast'') (contents d) of
        None \<Rightarrow> Inl (NotFoundError ''Podcast not found'') | Some c \<Rightarrow> Inr (admin_item d c))"

section \<open>Ratings, favorites, library\<close>

definition assert_rateable_movie :: "uuid \<Rightarrow> db \<Rightarrow> content_row result" where
  "assert_rateable_movie cid d =
     (case find_content cid d of
        None \<Rightarrow> Inl (NotFoundError ''Movie not found'')
      | Some c \<Rightarrow> if ct_type c \<noteq> ''single'' \<or> \<not> ct_is_published c then Inl (NotFoundError ''Movie not found'')
                  else Inr c)"

definition rating_values :: "uuid \<Rightarrow> db \<Rightarrow> int list" where
  "rating_values cid d = map rt_value (filter (\<lambda>r. rt_content_id r = cid) (ratings d))"

text \<open>\<open>(avg * 2).quantize(Decimal("0.1"), ROUND_HALF_UP)\<close>; the average of the values is positive.\<close>

definition display_rating :: "int list \<Rightarrow> decimal" where
  "display_rating vs = of_int \<lfloor>((of_int (sum_list vs) :: decimal) / of_nat (length vs)) * 2 * 10 + 1 / 2\<rfloor> / 10"

definition recompute_content_rating :: "uuid \<Rightarrow> db \<Rightarrow> nat \<times> db" where
  "recompute_content_rating cid d =
     (let vs = rating_values cid d
      in (length vs,
          if vs = [] then d
          else d\<lparr>contents := update_where (\<lambda>c. ct_id c = cid)
                 (\<lambda>c. c\<lparr>ct_rating := Some (display_rating vs)\<rparr>) (contents d)\<rparr>))"

definition upsert_rating :: "uuid \<Rightarrow> uuid \<Rightarrow> int \<Rightarrow> db \<Rightarrow> nat \<times> db" where
  "upsert_rating cid uid v d =
     (let mine = (\<lambda>r. rt_user_id r = uid \<and> rt_content_id r = cid);
          d1 = (if exists_row mine (ratings d)
                then d\<lparr>ratings := update_where mine (\<lambda>r. r\<lparr>rt_value := v\<rparr>) (ratings d)\<rparr>
                else d\<lparr>ratings := ratings d @ [\<lparr>rt_user_id = uid, rt_content_id = cid, rt_value = v\<rparr>]\<rparr>)
      in recompute_content_rating cid d1)"

text \<open>The answer: the title's new rating and the number of ratings.\<close>

definition rate_movie :: "uuid \<Rightarrow> uuid \<Rightarrow> int \<Rightarrow> db \<Rightarrow> (decimal option \<times> nat \<times> db) result" where
  "rate_movie cid uid v d =
     (case assert_rateable_movie cid d of
        Inl e \<Rightarrow> Inl e
      | Inr _ \<Rightarrow>
        (case upsert_rating cid uid v d of
           (n, d') \<Rightarrow> Inr (case find_content cid d' of None \<Rightarrow> None | Some c \<Rightarrow> ct_rating c, n, d')))"

definition get_my_rating :: "uuid \<Rightarrow> uuid \<Rightarrow> db \<Rightarrow> int result" where
  "get_my_rating cid uid d =
     (case select_one (\<lambda>r. rt_user_id r = uid \<and> rt_content_id r = cid) (ratings d) of
        None \<Rightarrow> Inl (NotFoundError ''No rating yet'') | Some r \<Rightarrow> Inr (rt_value r))"

definition assert_favoritable :: "uuid \<Rightarrow> db \<Rightarrow> unit result" where
  "assert_favoritable target d =
     (if (case find_content target d of None \<Rightarrow> False | Some c \<Rightarrow> ct_type c = ''single'' \<and> ct_is_published c)
      then Inr ()
      else if (case select_one (\<lambda>s. ser_id s = target) (series_table d) of
                 None \<Rightarrow> False | Some s \<Rightarrow> ser_is_published s)
      then Inr ()
      else Inl (NotFoundError ''Title not found''))"

definition add_favorite :: "uuid \<Rightarrow> uuid \<Rightarrow> db \<Rightarrow> db result" where
  "add_favorite cid uid d =
     (case assert_favoritable cid d of
        Inl e \<Rightarrow> Inl e
      | Inr _ \<Rightarrow>
        if exists_row (\<lambda>f. fav_user_id f = uid \<and> fav_content_id f = cid) (favorites d) then Inr d
        else Inr (d\<lparr>favorites := favorites d @ [\<lparr>fav_user_id = uid, fav_content_id = cid\<rparr>]\<rparr>))"

definition remove_favorite :: "uuid \<Rightarrow> uuid \<Rightarrow> db \<Rightarrow> db" where
  "remove_favorite cid uid d =
     d\<lparr>favorites := delete_where (\<lambda>f. fav_user_id f = uid \<and> fav_content_id f = cid) (favorites d)\<rparr>"

text \<open>A purchase joined with its title, the latest purchase first.\<close>

definition list_owned_movies :: "user_row option \<Rightarrow> string option \<Rightarrow> nat \<Rightarrow> nat \<Rightarrow> db \<Rightarrow> content_row page" where
  "list_owned_movies user guest_id page page_size d =
     (let mine = (\<lambda>p. case user of
              Some u \<Rightarrow> pu_user_id p = Some (user_id u)
            | None \<Rightarrow> truthy guest_id \<and> pu_guest_id p = guest_id);
          rows = concat (map (\<lambda>p. filter (\<lambda>c. ct_id c = pu_content_id p \<and> ct_type c = ''single'' \<and>
                   ct_is_published c) (contents d))
                   (order_by (\<lambda>p. - pu_purchased_at p) (filter mine (purchases d))))
      in case paginate_query page page_size rows of
           (items, found) \<Rightarrow> build_paginated_response items found page page_size)"

section \<open>Pages\<close>

lemma concat_pages:
  "concat (map (\<lambda>p. take ps (List.drop (p * ps) rows)) [0..<n]) = take (n * ps) rows"
proof (induction n)
  case (Suc n)
  have "take (n * ps) rows @ take ps (List.drop (n * ps) rows) = take (Suc n * ps) rows"
    by (metis add.commute mult_Suc take_add)
  then show ?case by (simp add: Suc)
qed simp

lemma enough_pages:
  assumes "1 \<le> ps"
  shows "length rows \<le> pg_pages (build_paginated_response items (length rows) p ps) * ps"
proof (cases "rows = []")
  case False
  have "of_nat (length rows) / (of_nat ps :: rat) \<le> of_int \<lceil>of_nat (length rows) / (of_nat ps :: rat)\<rceil>"
    by (rule le_of_int_ceiling)
  also have "\<dots> = of_nat (nat \<lceil>of_nat (length rows) / (of_nat ps :: rat)\<rceil>)" by simp
  also have "\<dots> \<le> of_nat (max 1 (nat \<lceil>of_nat (length rows) / (of_nat ps :: rat)\<rceil>))" by simp
  finally have "of_nat (length rows) / (of_nat ps :: rat) \<le>
      of_nat (max 1 (nat \<lceil>of_nat (length rows) / (of_nat ps :: rat)\<rceil>))" .
  then have "of_nat (length rows) \<le>
      (of_nat (max 1 (nat \<lceil>of_nat (length rows) / (of_nat ps :: rat)\<rceil>) * ps) :: rat)"
    using assms by (simp add: divide_le_eq)
  then show ?thesis using False by (simp only: build_paginated_response_def page.simps of_nat_le_iff) simp
qed simp

lemma all_pages:
  assumes "1 \<le> ps"
  shows "concat (map (\<lambda>p. fst (paginate_query p ps rows))
      [1..<Suc (pg_pages (build_paginated_response items (length rows) p0 ps))]) = rows"
proof -
  let ?n = "pg_pages (build_paginated_response items (length rows) p0 ps)"
  have "map (\<lambda>p. fst (paginate_query p ps rows)) [1..<Suc ?n] =
      map (\<lambda>p. take ps (List.drop (p * ps) rows)) [0..<?n]"
    unfolding One_nat_def map_Suc_upt [symmetric] by (simp add: paginate_query_def)
  then show ?thesis using concat_pages [of ps rows ?n] enough_pages [OF assms, of rows items p0] by simp
qed

section \<open>Search\<close>

lemma like_escape: "like (escape_like p) s \<longleftrightarrow> s = p"
proof (induction p arbitrary: s)
  case (Cons c p)
  then show ?case by (cases s) (auto split: list.splits)
qed simp

lemma lower_char_special: "lower_char c \<in> {CHR 0x5C, CHR ''%'', CHR ''_''} \<longleftrightarrow> c \<in> {CHR 0x5C, CHR ''%'', CHR ''_''}"
proof (cases "65 \<le> (of_char c :: nat) \<and> (of_char c :: nat) \<le> 90")
  case True
  then have code: "(of_char (lower_char c) :: nat) = of_char c + 32" by (simp add: lower_char_def)
  have "c \<notin> {CHR 0x5C, CHR ''%'', CHR ''_''}" "lower_char c \<notin> {CHR 0x5C, CHR ''%'', CHR ''_''}"
    using True code by auto
  then show ?thesis by simp
next
  case False
  then have "lower_char c = c" by (auto simp: lower_char_def Let_def)
  then show ?thesis by simp
qed

lemma lower_backslash [simp]: "lower_char (CHR 0x5C) = CHR 0x5C"
  by (simp add: lower_char_def Let_def)

lemma lower_escape: "lower (escape_like s) = escape_like (lower s)"
proof (induction s)
  case (Cons c s)
  then show ?case using lower_char_special [of c] by (simp add: lower_def del: insert_iff)
qed (simp add: lower_def)

lemma ilike_escape: "ilike s (escape_like label) \<longleftrightarrow> lower s = lower label"
  by (simp add: ilike_def lower_escape like_escape)

lemma genre_filter:
  assumes "strip g \<noteq> []"
  shows "apply_catalog_genre genres (Some g) rows =
    filter (\<lambda>r. \<exists>x xs. genres r = x # xs \<and> lower x = lower (strip g)) rows"
proof -
  have "(case genres r of [] \<Rightarrow> False | x # _ \<Rightarrow> ilike x (escape_like (strip g))) \<longleftrightarrow>
      (\<exists>x xs. genres r = x # xs \<and> lower x = lower (strip g))" for r
    by (cases "genres r") (auto simp: ilike_escape)
  then show ?thesis using assms by (simp add: apply_catalog_genre_def Let_def)
qed

text \<open>
  The catalog listing is complete and honest. Walking the pages of a query, from the first to the
  number of pages the answer states, yields exactly the titles the query selects, each once and in
  order; no page is longer than asked for and every page states the true total. A title in it is a
  published movie; without filters every published movie is in it; and a genre filter, whatever
  wildcard or escape characters the label holds, keeps exactly the movies whose first genre is that
  label, letter case and surrounding space apart.
\<close>

theorem catalog_listing_complete:
  assumes "1 \<le> ps"
  shows "concat (map (\<lambda>p. pg_items (movies_page fts search genre free p ps d))
      [1..<Suc (pg_pages (movies_page fts search genre free 1 ps d))]) = published_movies fts search genre free d \<and>
    (\<forall>p. length (pg_items (movies_page fts search genre free p ps d)) \<le> ps \<and>
      pg_total (movies_page fts search genre free p ps d) = length (published_movies fts search genre free d)) \<and>
    (\<forall>c \<in> set (published_movies fts search genre free d). c \<in> set (contents d) \<and> ct_type c = ''single'' \<and>
      ct_is_published c) \<and>
    mset (published_movies fts None None None d) =
      mset (filter (\<lambda>c. ct_type c = ''single'' \<and> ct_is_published c) (contents d)) \<and>
    (strip g \<noteq> [] \<longrightarrow> set (published_movies fts search (Some g) free d) =
      {c \<in> set (published_movies fts search None free d). \<exists>x xs. ct_genres c = x # xs \<and> lower x = lower (strip g)})"
proof (intro conjI allI impI)
  show "concat (map (\<lambda>p. pg_items (movies_page fts search genre free p ps d))
      [1..<Suc (pg_pages (movies_page fts search genre free 1 ps d))]) = published_movies fts search genre free d"
    using all_pages [OF assms, where rows = "published_movies fts search genre free d" and ?p0.0 = 1]
    by (simp add: movies_page_def paginate_query_def build_paginated_response_def)
  fix p
  show "length (pg_items (movies_page fts search genre free p ps d)) \<le> ps"
    "pg_total (movies_page fts search genre free p ps d) = length (published_movies fts search genre free d)"
    by (simp_all add: movies_page_def paginate_query_def build_paginated_response_def)
next
  have "set (apply_catalog_genre ct_genres genre (apply_catalog_search fts content_searchable search rows)) \<subseteq> set rows"
    for rows :: "content_row list"
    by (auto simp: apply_catalog_genre_def apply_catalog_search_def Let_def split: option.splits if_splits)
  then show "\<forall>c \<in> set (published_movies fts search genre free d). c \<in> set (contents d) \<and> ct_type c = ''single'' \<and>
      ct_is_published c"
    unfolding published_movies_def by fastforce
  show "mset (published_movies fts None None None d) =
      mset (filter (\<lambda>c. ct_type c = ''single'' \<and> ct_is_published c) (contents d))"
    by (simp add: published_movies_def apply_catalog_genre_def apply_catalog_search_def order_by_def)
  assume "strip g \<noteq> []"
  then show "set (published_movies fts search (Some g) free d) =
      {c \<in> set (published_movies fts search None free d). \<exists>x xs. ct_genres c = x # xs \<and> lower x = lower (strip g)}"
    by (auto simp: published_movies_def genre_filter) (simp_all add: apply_catalog_genre_def)
qed

definition two_films :: db where
  "two_films = empty_db\<lparr>contents :=
     [default_content\<lparr>ct_id := 1, ct_title := ''Alpha'', ct_is_published := True, ct_sort_order := 2\<rparr>,
      default_content\<lparr>ct_id := 2, ct_title := ''Beta'', ct_genres := [''Drama''], ct_is_published := True, ct_sort_order := 1\<rparr>]\<rparr>"

theorem catalog_listing_complete_witness:
  "concat (map (\<lambda>p. map ct_id (pg_items (movies_page (\<lambda>_ _. False) None None None p 1 two_films))) [1..<3]) = [2, 1]"
proof -
  have "pg_pages (movies_page (\<lambda>_ _. False) None None None 1 1 two_films) = 2"
    "map ct_id (published_movies (\<lambda>_ _. False) None None None two_films) = [2, 1]"
    by code_simp+
  then show ?thesis
    using catalog_listing_complete [of 1 "\<lambda>_ _. False" None None None two_films, THEN conjunct1,
        THEN arg_cong [where f = "map ct_id"]]
    by (simp add: map_concat comp_def)
qed

section \<open>The list cache\<close>

lemma cached_hit:
  assumes "now' < now + ttl"
  shows "fst (cache_get_async loads up' now' w key (cache_set_async dumps up now w ttl key v s)) = Some v"
  using assms by (simp add: cache_get_async_def cache_set_async_def cache_get_def cache_set_def with_l1_def Let_def
      update_conv split: prod.split)

text \<open>
  Different queries can share a cache entry. An absent filter is written into the key as the text
  None, so a visitor who searches for the word None, when that page is not cached, fills the entry of
  the unfiltered list: for the next 30 seconds the worker answers the plain catalog page of every
  visitor with that search's result, whatever the database holds.
\<close>

theorem search_none_poisons_catalog:
  assumes "fst (cache_get_async loads up now w (movies_cache_key (Some ''None'') None None page ps) s) = None"
    and "now' < now + 30"
  shows "fst (list_published_movies dumps loads up' now' w fts None None None page ps d'
      (snd (list_published_movies dumps loads up now w fts (Some ''None'') None None page ps d s))) =
    movies_page fts (Some ''None'') None None page ps d"
proof -
  have same: "movies_cache_key None None None page ps = movies_cache_key (Some ''None'') None None page ps"
    by (simp add: movies_cache_key_def str_opt_def)
  obtain s1 where s1: "cache_get_async loads up now w (movies_cache_key (Some ''None'') None None page ps) s = (None, s1)"
    using assms(1) by (metis prod.collapse)
  let ?v = "movies_page fts (Some ''None'') None None page ps d"
  obtain s2 where s2: "cache_get_async loads up' now' w (movies_cache_key (Some ''None'') None None page ps)
      (cache_set_async dumps up now w catalog_ttl_seconds (movies_cache_key (Some ''None'') None None page ps) ?v s1) =
    (Some ?v, s2)"
    using cached_hit [where ttl = catalog_ttl_seconds and key = "movies_cache_key (Some ''None'') None None page ps"
        and v = ?v and s = s1, of now' now loads up' w dumps up] assms(2)
    by (metis catalog_ttl_seconds_def prod.collapse)
  show ?thesis by (simp add: list_published_movies_def same s1 s2 Let_def)
qed

theorem search_none_poisons_catalog_witness:
  "pg_items (fst (list_published_movies (\<lambda>_. []) (\<lambda>_. None) False 10 0 (\<lambda>_ _. False) None None None 1 20 two_films
      (snd (list_published_movies (\<lambda>_. []) (\<lambda>_. None) False 0 0 (\<lambda>_ _. False) (Some ''None'') None None 1 20 two_films
        empty_cache)))) = [] \<and>
   length (pg_items (movies_page (\<lambda>_ _. False) None None None 1 20 two_films)) = 2"
proof -
  have miss: "fst (cache_get_async (\<lambda>_. None) False 0 0 (movies_cache_key (Some ''None'') None None 1 20)
      (empty_cache :: content_row page catalog_cache)) = None"
    by (simp add: cache_get_async_def cache_get_def empty_cache_def cache_get_bytes_def with_l1_def)
  have "pg_items (movies_page (\<lambda>_ _. False) (Some ''None'') None None 1 20 two_films) = []"
    "length (pg_items (movies_page (\<lambda>_ _. False) None None None 1 20 two_films)) = 2"
    by code_simp+
  then show ?thesis using search_none_poisons_catalog [OF miss, of 10] by simp
qed

section \<open>Media keys\<close>

lemma page_items: "set (fst (paginate_query page ps rows)) \<subseteq> set rows"
  by (auto simp: paginate_query_def dest: in_set_takeD in_set_dropD)

lemma episode_entitlement:
  assumes "ct_series_id ep = Some sid" and "ct_is_published ep"
    and "ct_type ep = ''episode''"
  shows "(is_admin user \<or> ct_is_free ep \<or> (case user of
            Some u \<Rightarrow> user_has_active_subscription now (user_id u) d \<or> has_series_purchase sid (Some (user_id u)) None d
          | None \<Rightarrow> truthy g \<and> has_series_purchase sid None g d)) \<longleftrightarrow> can_access_content now user g ep None d"
  using assms by (auto simp: can_access_content_def split: option.split)

text \<open>
  C5: The catalog never hands the key of a media file to someone who may not watch it. The movie
  page, an entry of the episode list and the podcast page carry the playlist or audio key exactly when
  \<open>can_access_content\<close> lets this viewer watch (otherwise the row is shown without it), the podcast's
  signed URL is issued only then, and an unpublished title is shown to administrators alone, save a
  movie announced as coming soon.
\<close>

theorem catalog_hides_media:
  assumes "\<forall>c \<in> set (contents d). ct_series_id c \<noteq> None \<longrightarrow> ct_type c = ''episode''"
  shows "(\<forall>m flag. get_movie_detail now slug user g d = Inr (m, flag) \<longrightarrow>
      (\<exists>c \<in> set (contents d). ct_slug c = slug \<and> ct_type c = ''single'' \<and> flag = is_free_today (ct_id c) d \<and>
        (ct_is_published c \<or> is_admin user \<or> is_coming_soon (ct_id c) d) \<and>
        m = (if can_access_content now user g c None d then c else c\<lparr>ct_hls_master_key := None\<rparr>))) \<and>
    (\<forall>p. list_episodes now slug user g page ps d = Inr p \<longrightarrow>
      (\<forall>m \<in> set (pg_items p). \<exists>c \<in> set (contents d). ct_is_published c \<and>
        m = (if can_access_content now user g c None d then c else c\<lparr>ct_hls_master_key := None\<rparr>))) \<and>
    (\<forall>m. get_podcast now slug user g d = Inr m \<longrightarrow>
      (\<exists>c \<in> set (contents d). ct_slug c = slug \<and> (ct_is_published c \<or> is_admin user) \<and>
        m = (if can_access_content now user (if user = None then g else None) c None d then c
             else c\<lparr>ct_audio_key := None\<rparr>))) \<and>
    (\<forall>key. authorize_podcast_audio now cid user g d = Inr key \<longrightarrow>
      (\<exists>c \<in> set (contents d). ct_id c = cid \<and> ct_audio_key c = Some key \<and> (ct_is_published c \<or> is_admin user) \<and>
        can_access_content now user (if user = None then g else None) c None d))"
proof (intro conjI allI impI)
  fix m flag assume "get_movie_detail now slug user g d = Inr (m, flag)"
  moreover have "can_access_content now user g c (Some (is_free_today (ct_id c) d)) d =
      can_access_content now user g c None d" for c
    by (simp add: can_access_content_def)
  ultimately show "\<exists>c \<in> set (contents d). ct_slug c = slug \<and> ct_type c = ''single'' \<and> flag = is_free_today (ct_id c) d \<and>
        (ct_is_published c \<or> is_admin user \<or> is_coming_soon (ct_id c) d) \<and>
        m = (if can_access_content now user g c None d then c else c\<lparr>ct_hls_master_key := None\<rparr>)"
    by (fastforce simp: get_movie_detail_def Let_def split: option.splits if_splits dest: select_one_Some)
next
  fix p assume p: "list_episodes now slug user g page ps d = Inr p"
  then obtain s where s: "get_series_or_404 True slug d = Inr s"
    by (auto simp: list_episodes_def split: sum.splits)
  define eps where "eps = fst (paginate_query page ps
      (order_by (\<lambda>c. (nulls_last (ct_season_number c), nulls_last (ct_episode_number c)))
        (filter (\<lambda>c. ct_series_id c = Some (ser_id s) \<and> ct_is_published c) (contents d))))"
  define entitled where "entitled = (case user of
      Some u \<Rightarrow> user_has_active_subscription now (user_id u) d \<or> has_series_purchase (ser_id s) (Some (user_id u)) None d
    | None \<Rightarrow> truthy g \<and> has_series_purchase (ser_id s) None g d)"
  have items: "pg_items p = map (\<lambda>ep. if is_admin user \<or> ct_is_free ep \<or> entitled then ep
      else ep\<lparr>ct_hls_master_key := None\<rparr>) eps"
    using p s by (simp add: list_episodes_def eps_def entitled_def Let_def build_paginated_response_def split: prod.splits)
      auto
  show "\<forall>m \<in> set (pg_items p). \<exists>c \<in> set (contents d). ct_is_published c \<and>
        m = (if can_access_content now user g c None d then c else c\<lparr>ct_hls_master_key := None\<rparr>)"
  proof
    fix m assume "m \<in> set (pg_items p)"
    then obtain ep where ep: "ep \<in> set eps" "m = (if is_admin user \<or> ct_is_free ep \<or> entitled then ep
      else ep\<lparr>ct_hls_master_key := None\<rparr>)" unfolding items by auto
    have row: "ep \<in> set (contents d)" "ct_series_id ep = Some (ser_id s)" "ct_is_published ep"
      using ep(1) page_items unfolding eps_def by fastforce+
    then have "ct_type ep = ''episode''" using assms by simp
    then have "is_admin user \<or> ct_is_free ep \<or> entitled \<longleftrightarrow> can_access_content now user g ep None d"
      unfolding entitled_def using episode_entitlement [OF row(2,3)] by blast
    then show "\<exists>c \<in> set (contents d). ct_is_published c \<and>
        m = (if can_access_content now user g c None d then c else c\<lparr>ct_hls_master_key := None\<rparr>)"
      using ep(2) row by metis
  qed
next
  fix m assume "get_podcast now slug user g d = Inr m"
  then show "\<exists>c \<in> set (contents d). ct_slug c = slug \<and> (ct_is_published c \<or> is_admin user) \<and>
        m = (if can_access_content now user (if user = None then g else None) c None d then c
             else c\<lparr>ct_audio_key := None\<rparr>)"
    by (fastforce simp: get_podcast_def find_podcast_for_def split: option.splits if_splits dest: select_one_Some)
next
  fix key assume "authorize_podcast_audio now cid user g d = Inr key"
  then show "\<exists>c \<in> set (contents d). ct_id c = cid \<and> ct_audio_key c = Some key \<and> (ct_is_published c \<or> is_admin user) \<and>
        can_access_content now user (if user = None then g else None) c None d"
    by (fastforce simp: authorize_podcast_audio_def find_podcast_for_def truthy_iff split: option.splits if_splits
        dest: select_one_Some)
qed

definition paid_film :: content_row where
  "paid_film = default_content\<lparr>ct_id := 1, ct_slug := ''m'', ct_is_published := True, ct_price_usd := Some 2,
     ct_hls_master_key := Some ''k''\<rparr>"

theorem catalog_hides_media_witness:
  "\<exists>m. get_movie_detail 0 ''m'' None None (empty_db\<lparr>contents := [paid_film]\<rparr>) = Inr (m, False) \<and>
    ct_hls_master_key m = None"
proof -
  let ?d = "empty_db\<lparr>contents := [paid_film]\<rparr>"
  have flag: "is_free_today 1 ?d = False" "paid_film \<in> set (contents ?d)"
    by (simp_all add: is_free_today_def free_today_content_ids_from_sections_def)
  have no: "\<not> can_access_content 0 None None paid_film f ?d" if "f = None \<or> f = Some False" for f
    using that flag(1) by (auto simp: can_access_content_def paid_film_def default_content_def is_admin_def movie_is_free_def)
  obtain m where m: "get_movie_detail 0 ''m'' None None ?d = Inr (m, False)"
  proof -
    have "case get_movie_detail 0 ''m'' None None ?d of Inl _ \<Rightarrow> False | Inr (m, f) \<Rightarrow> \<not> f" by code_simp
    then show ?thesis using that by (cases "get_movie_detail 0 ''m'' None None ?d") auto
  qed
  have one: "\<forall>c \<in> set (contents ?d). ct_series_id c \<noteq> None \<longrightarrow> ct_type c = ''episode''"
    by (simp add: paid_film_def default_content_def)
  from catalog_hides_media [OF one, THEN conjunct1] m
  have "m = paid_film\<lparr>ct_hls_master_key := None\<rparr>" using no by fastforce
  then show ?thesis using m by auto
qed

section \<open>Ratings\<close>

definition rating_of :: "uuid \<Rightarrow> uuid \<Rightarrow> rating_row \<Rightarrow> bool" where
  "rating_of cid uid r \<longleftrightarrow> rt_user_id r = uid \<and> rt_content_id r = cid"

definition rating_key :: "rating_row \<Rightarrow> uuid \<times> uuid" where
  "rating_key r = (rt_user_id r, rt_content_id r)"

definition put_rating :: "uuid \<Rightarrow> uuid \<Rightarrow> int \<Rightarrow> rating_row list \<Rightarrow> rating_row list" where
  "put_rating cid uid v rs =
     (if exists_row (rating_of cid uid) rs then update_where (rating_of cid uid) (\<lambda>r. r\<lparr>rt_value := v\<rparr>) rs
      else rs @ [\<lparr>rt_user_id = uid, rt_content_id = cid, rt_value = v\<rparr>])"

lemma upsert_put: "upsert_rating cid uid v d = recompute_content_rating cid (d\<lparr>ratings := put_rating cid uid v (ratings d)\<rparr>)"
  by (simp add: upsert_rating_def put_rating_def rating_of_def [abs_def] Let_def)

lemma put_rating_rows:
  assumes "distinct (map rating_key rs)"
  shows "distinct (map rating_key (put_rating cid uid v rs))"
    "select_one (rating_of cid uid) (put_rating cid uid v rs) = Some \<lparr>rt_user_id = uid, rt_content_id = cid, rt_value = v\<rparr>"
    "filter (\<lambda>r. \<not> rating_of cid uid r) (put_rating cid uid v rs) = filter (\<lambda>r. \<not> rating_of cid uid r) rs"
proof -
  show "distinct (map rating_key (put_rating cid uid v rs))"
  proof (cases "exists_row (rating_of cid uid) rs")
    case True
    have "map rating_key (update_where (rating_of cid uid) (\<lambda>r. r\<lparr>rt_value := v\<rparr>) rs) = map rating_key rs"
      by (rule map_update_where) (simp add: rating_key_def)
    then show ?thesis using assms True by (simp add: put_rating_def)
  next
    case False
    then show ?thesis using assms
      by (auto simp: put_rating_def rating_key_def rating_of_def exists_row_iff)
  qed
  show "select_one (rating_of cid uid) (put_rating cid uid v rs) = Some \<lparr>rt_user_id = uid, rt_content_id = cid, rt_value = v\<rparr>"
    by (induction rs) (auto simp: put_rating_def rating_of_def)
  show "filter (\<lambda>r. \<not> rating_of cid uid r) (put_rating cid uid v rs) = filter (\<lambda>r. \<not> rating_of cid uid r) rs"
  proof -
    have "filter (\<lambda>r. \<not> rating_of cid uid r) (update_where (rating_of cid uid) (\<lambda>r. r\<lparr>rt_value := v\<rparr>) rs) =
        filter (\<lambda>r. \<not> rating_of cid uid r) rs"
      by (induction rs) (auto simp: rating_of_def)
    then show ?thesis by (auto simp: put_rating_def rating_of_def)
  qed
qed

lemma sum_list_between:
  "(\<And>x. x \<in> set vs \<Longrightarrow> (1::int) \<le> x \<and> x \<le> 5) \<Longrightarrow> int (length vs) \<le> sum_list vs \<and> sum_list vs \<le> 5 * int (length vs)"
  by (induction vs) fastforce+

lemma display_rating_bounds:
  assumes "vs \<noteq> []" "\<And>x. x \<in> set vs \<Longrightarrow> 1 \<le> x \<and> x \<le> 5"
  shows "2 \<le> display_rating vs" "display_rating vs \<le> 10"
    "\<bar>display_rating vs - 2 * (of_int (sum_list vs) / of_nat (length vs))\<bar> \<le> 1 / 20"
proof -
  let ?a = "(of_int (sum_list vs) :: rat) / of_nat (length vs)"
  have n: "0 < (of_nat (length vs) :: rat)" using assms(1) by simp
  have s: "int (length vs) \<le> sum_list vs" "sum_list vs \<le> 5 * int (length vs)"
    using sum_list_between assms(2) by blast+
  have "(of_int (int (length vs)) :: rat) \<le> of_int (sum_list vs)"
    "(of_int (sum_list vs) :: rat) \<le> of_int (5 * int (length vs))"
    using s by (simp_all only: of_int_le_iff)
  then have a: "1 \<le> ?a" "?a \<le> 5"
    using n by (simp_all add: le_divide_eq divide_le_eq)
  have fl: "of_int \<lfloor>?a * 2 * 10 + 1 / 2\<rfloor> \<le> ?a * 2 * 10 + 1 / 2" "?a * 2 * 10 + 1 / 2 < of_int \<lfloor>?a * 2 * 10 + 1 / 2\<rfloor> + 1"
    by linarith+
  have lo: "20 \<le> \<lfloor>?a * 2 * 10 + 1 / 2\<rfloor>" using a(1) by (simp add: le_floor_iff)
  have hi: "\<lfloor>?a * 2 * 10 + 1 / 2\<rfloor> \<le> 100" using a(2) by (simp add: floor_le_iff)
  have "(20::rat) \<le> of_int \<lfloor>?a * 2 * 10 + 1 / 2\<rfloor>" using lo by (metis of_int_le_iff of_int_numeral)
  then show "2 \<le> display_rating vs" by (simp add: display_rating_def)
  have "of_int \<lfloor>?a * 2 * 10 + 1 / 2\<rfloor> \<le> (100::rat)" using hi by (metis of_int_le_iff of_int_numeral)
  then show "display_rating vs \<le> 10" by (simp add: display_rating_def)
  show "\<bar>display_rating vs - 2 * ?a\<bar> \<le> 1 / 20"
    using fl unfolding display_rating_def by linarith
qed

text \<open>
  A star rating is counted once and shown truthfully. After a successful rating the user has
  exactly that rating of the movie, nobody else's ratings change, each user still has at most one per
  title; the number answered is the number of ratings of the movie, and the rating shown is twice the
  average of them, to within a twentieth and always between 2 and 10.
\<close>

theorem rating_counted_once:
  assumes "distinct (map rating_key (ratings d))" and "\<forall>r \<in> set (ratings d). 1 \<le> rt_value r \<and> rt_value r \<le> 5"
    and "1 \<le> v" and "v \<le> 5" and "rate_movie cid uid v d = Inr (q, n, d')"
  shows "get_my_rating cid uid d' = Inr v \<and> distinct (map rating_key (ratings d')) \<and>
    filter (\<lambda>r. \<not> rating_of cid uid r) (ratings d') = filter (\<lambda>r. \<not> rating_of cid uid r) (ratings d) \<and>
    n = length (rating_values cid d') \<and>
    (\<exists>shown. q = Some shown \<and> 2 \<le> shown \<and> shown \<le> 10 \<and>
      \<bar>shown - 2 * (of_int (sum_list (rating_values cid d')) / of_nat n)\<bar> \<le> 1 / 20)"
proof -
  let ?rs = "put_rating cid uid v (ratings d)"
  note rows = put_rating_rows [OF assms(1), of cid uid v]
  obtain c where c: "find_content cid d = Some c"
    using assms(5) by (auto simp: rate_movie_def assert_rateable_movie_def split: option.splits sum.splits)
  define d1 where "d1 = d\<lparr>ratings := ?rs\<rparr>"
  have up: "upsert_rating cid uid v d = (n, d')" "q = (case find_content cid d' of None \<Rightarrow> None | Some c \<Rightarrow> ct_rating c)"
    using assms(5) by (auto simp: rate_movie_def split: sum.splits prod.splits)
  have mem: "\<lparr>rt_user_id = uid, rt_content_id = cid, rt_value = v\<rparr> \<in> set ?rs" using select_one_Some [OF rows(2)] by simp
  have vs: "rating_values cid d1 \<noteq> []" "\<And>x. x \<in> set (rating_values cid d1) \<Longrightarrow> 1 \<le> x \<and> x \<le> 5"
  proof -
    show "rating_values cid d1 \<noteq> []" using mem by (force simp: rating_values_def d1_def filter_empty_conv)
    have "1 \<le> rt_value r \<and> rt_value r \<le> 5" if "r \<in> set ?rs" for r
      using that assms(2-4) by (auto simp: put_rating_def in_update_where split: if_splits)
    then show "1 \<le> x \<and> x \<le> 5" if "x \<in> set (rating_values cid d1)" for x
      using that by (auto simp: rating_values_def d1_def)
  qed
  have d': "n = length (rating_values cid d1)"
    "d' = d1\<lparr>contents := update_where (\<lambda>c. ct_id c = cid) (\<lambda>c. c\<lparr>ct_rating := Some (display_rating (rating_values cid d1))\<rparr>) (contents d1)\<rparr>"
    using up(1) vs(1) unfolding upsert_put d1_def [symmetric] by (simp_all add: recompute_content_rating_def Let_def)
  have same: "ratings d' = ?rs" "rating_values cid d' = rating_values cid d1"
    by (simp_all add: d'(2) d1_def rating_values_def)
  have "q = Some (display_rating (rating_values cid d1))"
    using c unfolding up(2) by (simp add: d'(2) d1_def find_content_def select_one_update_keep) (drule select_one_Some, simp)
  then show ?thesis
    using rows same d'(1) display_rating_bounds [OF vs] by (simp add: get_my_rating_def rating_of_def [abs_def])
qed

theorem rating_counted_once_witness:
  "\<exists>d'. rate_movie 1 9 4 (empty_db\<lparr>contents := [paid_film], ratings := [\<lparr>rt_user_id = 8, rt_content_id = 1, rt_value = 5\<rparr>]\<rparr>) =
     Inr (Some 9, 2, d') \<and> get_my_rating 1 9 d' = Inr 4"
proof -
  let ?d = "empty_db\<lparr>contents := [paid_film], ratings := [\<lparr>rt_user_id = 8, rt_content_id = 1, rt_value = 5\<rparr>]\<rparr>"
  obtain d' where r: "rate_movie 1 9 4 ?d = Inr (Some 9, 2, d')"
    by (simp add: rate_movie_def assert_rateable_movie_def find_content_def paid_film_def default_content_def
        upsert_rating_def recompute_content_rating_def rating_values_def display_rating_def floor_eq_iff Let_def)
  then show ?thesis using rating_counted_once [OF _ _ _ _ r] by (auto simp: rating_key_def)
qed

end
