(* ===== verification/Series_Admin.thy ===== *)
theory Series_Admin
  imports Catalog_Admin Listing
begin

text \<open>
  \<open>app/routers/series.py\<close> and \<open>app/routers/admin/series.py\<close>: creating, editing, ordering and deleting
  series, and uploading, replacing, editing and deleting their episodes. Conventions are those of
  \<open>Catalog_Admin\<close>; none of these handlers but the reordering drops a cache key, so the others return
  the database alone.
\<close>

section \<open>Series\<close>

record series_create =
  sc_title :: string
  sc_title_km :: "string option"
  sc_monthly_price_usd :: decimal
  sc_description :: "string option"
  sc_genres :: "string list"
  sc_release_year :: "int option"
  sc_rating :: "decimal option"
  sc_trailer_url :: "string option"
  sc_is_short_movie :: bool
  sc_status :: string
  sc_publish_at :: "datetime option"
  sc_sort_order :: int

definition insert_series :: "series_row \<Rightarrow> db \<Rightarrow> db result" where
  "insert_series s d =
     (if exists_row (\<lambda>x. ser_id x = ser_id s \<or> ser_slug x = ser_slug s) (series_table d)
      then Inl IntegrityError else Inr (d\<lparr>series_table := series_table d @ [s]\<rparr>))"

definition put_series :: "series_row \<Rightarrow> db \<Rightarrow> db" where
  "put_series s d = d\<lparr>series_table := update_where (\<lambda>x. ser_id x = ser_id s) (\<lambda>_. s) (series_table d)\<rparr>"

text \<open>A published status is turned back into a draft, as there is no poster yet; \<open>sort_order\<close> is not used.\<close>

definition create_series :: "datetime \<Rightarrow> uuid \<Rightarrow> string \<Rightarrow> series_create \<Rightarrow> db \<Rightarrow> (series_row \<times> db) result" where
  "create_series now fresh token data d =
     (case as_422 (validate_content_status (Some (sc_status data))) of
        Inl e \<Rightarrow> Inl e
      | Inr _ \<Rightarrow>
        (let s0 = default_series\<lparr>ser_id := fresh, ser_slug := unique_series_slug token (sc_title data) d,
                    ser_title := sc_title data, ser_title_km := empty_to_none (sc_title_km data),
                    ser_description := sc_description data, ser_genres := sc_genres data,
                    ser_release_year := sc_release_year data, ser_rating := sc_rating data,
                    ser_monthly_price_usd := sc_monthly_price_usd data, ser_trailer_url := sc_trailer_url data,
                    ser_is_short_movie := sc_is_short_movie data, ser_status := sc_status data,
                    ser_publish_at := sc_publish_at data, ser_created_at := now\<rparr>
         in case apply_series_publish_state (Some (sc_status data)) (Some (sc_publish_at data)) s0 of
              Inl e \<Rightarrow> Inl e
            | Inr s1 \<Rightarrow>
              (case (if ser_status s1 = ''published'' then apply_series_publish_state (Some ''draft'') None s1 else Inr s1) of
                 Inl e \<Rightarrow> Inl e
               | Inr s2 \<Rightarrow> (case insert_series s2 d of Inl e \<Rightarrow> Inl e | Inr d' \<Rightarrow> Inr (s2, d')))))"

text \<open>The answer's key; the upload URL is signed by the storage.\<close>

definition start_series_poster_upload :: "string \<Rightarrow> string \<Rightarrow> string \<Rightarrow> db \<Rightarrow> string result" where
  "start_series_poster_upload token slug content_type d =
     (case get_series_or_404 False slug d of
        Inl e \<Rightarrow> Inl e | Inr s \<Rightarrow> Inr (series_poster_key token (ser_slug s) content_type))"

definition start_series_banner_upload :: "string \<Rightarrow> string \<Rightarrow> string \<Rightarrow> db \<Rightarrow> string result" where
  "start_series_banner_upload token slug content_type d =
     (case get_series_or_404 False slug d of
        Inl e \<Rightarrow> Inl e | Inr s \<Rightarrow> Inr (series_banner_key token (ser_slug s) content_type))"

record series_update =
  su_title :: "string option option"
  su_title_km :: "string option option"
  su_description :: "string option option"
  su_genres :: "string list option option"
  su_release_year :: "int option option"
  su_rating :: "decimal option option"
  su_monthly_price_usd :: "decimal option option"
  su_status :: "string option option"
  su_is_published :: "bool option option"
  su_publish_at :: "datetime option option"
  su_is_short_movie :: "bool option option"
  su_sort_order :: "int option option"
  su_trailer_url :: "string option option"
  su_poster_key :: "string option option"
  su_banner_key :: "string option option"

text \<open>A key that is sent and not empty goes through the optimiser.\<close>

definition optimized :: "(string option \<Rightarrow> string \<Rightarrow> string option) \<Rightarrow> string \<Rightarrow> string option option \<Rightarrow> string option option" where
  "optimized optimize kind v =
     (case v of None \<Rightarrow> None | Some k \<Rightarrow> Some (if truthy k then optimize k kind else k))"

definition assign_series ::
    "(string option \<Rightarrow> string \<Rightarrow> string option) \<Rightarrow> series_update \<Rightarrow> series_row \<Rightarrow> series_row" where
  "assign_series optimize u s =
     set_required (su_title u) (\<lambda>x s. s\<lparr>ser_title := x\<rparr>)
     (set_field (map_option empty_to_none (su_title_km u)) (\<lambda>x s. s\<lparr>ser_title_km := x\<rparr>)
     (set_field (su_description u) (\<lambda>x s. s\<lparr>ser_description := x\<rparr>)
     (set_required (su_genres u) (\<lambda>x s. s\<lparr>ser_genres := x\<rparr>)
     (set_field (su_release_year u) (\<lambda>x s. s\<lparr>ser_release_year := x\<rparr>)
     (set_field (su_rating u) (\<lambda>x s. s\<lparr>ser_rating := x\<rparr>)
     (set_required (su_monthly_price_usd u) (\<lambda>x s. s\<lparr>ser_monthly_price_usd := x\<rparr>)
     (set_required (su_is_short_movie u) (\<lambda>x s. s\<lparr>ser_is_short_movie := x\<rparr>)
     (set_required (su_sort_order u) (\<lambda>x s. s\<lparr>ser_sort_order := x\<rparr>)
     (set_field (su_trailer_url u) (\<lambda>x s. s\<lparr>ser_trailer_url := x\<rparr>)
     (set_field (optimized optimize ''poster'' (su_poster_key u)) (\<lambda>x s. s\<lparr>ser_poster_key := x\<rparr>)
     (set_field (optimized optimize ''banner'' (su_banner_key u)) (\<lambda>x s. s\<lparr>ser_banner_key := x\<rparr>) s)))))))))))"

definition series_null_columns :: "series_update \<Rightarrow> bool" where
  "series_null_columns u \<longleftrightarrow> su_title u = Some None \<or> su_genres u = Some None \<or>
     su_is_short_movie u = Some None \<or> su_sort_order u = Some None"

definition update_series ::
    "(string option \<Rightarrow> string \<Rightarrow> string option) \<Rightarrow> string \<Rightarrow> series_update \<Rightarrow> db \<Rightarrow> (series_row \<times> db) result" where
  "update_series optimize slug u d =
     (case get_series_or_404 False slug d of
        Inl e \<Rightarrow> Inl e
      | Inr series \<Rightarrow>
        (let status = (case su_status u of None \<Rightarrow> None | Some s \<Rightarrow> s);
             s1 = assign_series optimize u series
         in case (if status \<noteq> None \<or> su_publish_at u \<noteq> None
                  then apply_series_publish_state status (su_publish_at u) s1
                  else (case su_is_published u of
                          Some (Some b) \<Rightarrow> apply_legacy_is_published b s1 | _ \<Rightarrow> Inr s1)) of
              Inl e \<Rightarrow> Inl e
            | Inr s2 \<Rightarrow>
              (case (if ser_status s2 = ''published'' then ensure_series_publishable s2 else Inr ()) of
                 Inl e \<Rightarrow> Inl e
               | Inr _ \<Rightarrow> if series_null_columns u then Inl IntegrityError else Inr (s2, put_series s2 d))))"

definition delete_series :: "string \<Rightarrow> db \<Rightarrow> db result" where
  "delete_series slug d =
     (case get_series_or_404 False slug d of
        Inl e \<Rightarrow> Inl e | Inr series \<Rightarrow> delete_series_content (ser_id series) d)"

definition get_admin_series :: "uuid \<Rightarrow> db \<Rightarrow> series_row result" where
  "get_admin_series sid d =
     (case select_one (\<lambda>s. ser_id s = sid) (series_table d) of
        None \<Rightarrow> Inl (NotFoundError ''Series not found'') | Some s \<Rightarrow> Inr s)"

definition delete_admin_series :: "uuid \<Rightarrow> db \<Rightarrow> db result" where
  "delete_admin_series sid d =
     (case get_admin_series sid d of Inl e \<Rightarrow> Inl e | Inr s \<Rightarrow> delete_series_content (ser_id s) d)"

definition reorder_admin_series :: "uuid list \<Rightarrow> db \<Rightarrow> db \<times> drop list" where
  "reorder_admin_series ids d =
     (if ids = [] then (d, [])
      else (d\<lparr>series_table := assign_order ser_id (\<lambda>n s. s\<lparr>ser_sort_order := n\<rparr>) (\<lambda>_. True) ids (series_table d)\<rparr>,
            [DropPrefix ''series:'']))"

definition list_admin_series :: "db \<Rightarrow> series_row list" where
  "list_admin_series d = order_by (\<lambda>s. (ser_sort_order s, - ser_created_at s)) (series_table d)"

text \<open>The episodes grouped by season (\<open>season_number or 1\<close>), the seasons in order.\<close>

definition season_of :: "content_row \<Rightarrow> int" where
  "season_of ep = (case ct_season_number ep of None \<Rightarrow> 1 | Some n \<Rightarrow> if n = 0 then 1 else n)"

definition list_admin_series_episodes :: "string \<Rightarrow> db \<Rightarrow> (int \<times> content_row list) list result" where
  "list_admin_series_episodes slug d =
     (case get_series_or_404 False slug d of
        Inl e \<Rightarrow> Inl e
      | Inr series \<Rightarrow>
        (let episodes = order_by (\<lambda>c. (nulls_last (ct_season_number c), nulls_last (ct_episode_number c)))
                          (filter (\<lambda>c. ct_series_id c = Some (ser_id series)) (contents d))
         in Inr (map (\<lambda>n. (n, filter (\<lambda>ep. season_of ep = n) episodes)) (sort (remdups (map season_of episodes))))))"

section \<open>Episodes\<close>

text \<open>\<open>f"{n:02d}"\<close>.\<close>

definition two_digits :: "int \<Rightarrow> string" where
  "two_digits n = (let s = string_of_int n in if length s < 2 then CHR ''0'' # s else s)"

text \<open>The answer: episode slug, source key, poster key, parts.\<close>

definition start_episode_upload ::
    "string \<Rightarrow> string \<Rightarrow> string \<Rightarrow> int \<Rightarrow> int \<Rightarrow> int \<Rightarrow> string option \<Rightarrow> db \<Rightarrow>
     (string \<times> string \<times> string option \<times> int \<times> int list) result" where
  "start_episode_upload slug_token poster_token slug season episode file_size poster_type d =
     (case get_series_or_404 False slug d of
        Inl e \<Rightarrow> Inl e
      | Inr _ \<Rightarrow>
        (let ep = unique_content_slug slug_token (slug @ ''-s'' @ two_digits season @ ''e'' @ two_digits episode) d;
             poster = (if truthy poster_type then Some (episode_poster_key poster_token slug ep (the poster_type)) else None)
         in case start_multipart_upload file_size of
              Inl e \<Rightarrow> Inl e
            | Inr (n, parts) \<Rightarrow> Inr (ep, episode_source_key slug ep, poster, n, parts)))"

record episode_upload =
  eu_content_id :: uuid
  eu_episode_slug :: string
  eu_source_key :: string
  eu_parts :: "(int \<times> string) list"
  eu_title :: string
  eu_season_number :: int
  eu_episode_number :: int
  eu_description :: "string option"
  eu_runtime :: "string option"
  eu_status :: string
  eu_is_free :: bool
  eu_trailer_url :: "string option"
  eu_poster_key :: "string option"

definition complete_episode_upload ::
    "datetime \<Rightarrow> uuid \<Rightarrow> bool \<Rightarrow> (string \<Rightarrow> bool) \<Rightarrow> (string option \<Rightarrow> string \<Rightarrow> string option) \<Rightarrow> string \<Rightarrow>
     episode_upload \<Rightarrow> db \<Rightarrow> (content_row \<times> db) result" where
  "complete_episode_upload now job assembled exists optimize slug data d =
     (case as_422 (validate_content_status (Some (eu_status data))) of
        Inl e \<Rightarrow> Inl e
      | Inr _ \<Rightarrow>
        (case get_series_or_404 False slug d of
           Inl e \<Rightarrow> Inl e
         | Inr series \<Rightarrow>
           if eu_source_key data \<noteq> episode_source_key slug (eu_episode_slug data)
           then Inl (HTTPException 422 ''source_key does not match episode_slug'')
           else if truthy (eu_poster_key data) \<and>
                   \<not> is_episode_asset_key slug (eu_episode_slug data) (the (eu_poster_key data))
           then Inl (HTTPException 422 ''poster_key does not match episode_slug'')
           else
            (case complete_multipart_upload assembled (eu_parts data) of
               Inl e \<Rightarrow> Inl e
             | Inr _ \<Rightarrow>
               (case verify_storage_object_exists exists (eu_poster_key data)
                       ''Poster upload is not available in storage yet'' of
                  Inl e \<Rightarrow> Inl e
                | Inr _ \<Rightarrow>
                  (let episode = default_content\<lparr>ct_id := eu_content_id data, ct_type := ''episode'',
                         ct_series_id := Some (ser_id series), ct_season_number := Some (eu_season_number data),
                         ct_episode_number := Some (eu_episode_number data), ct_slug := eu_episode_slug data,
                         ct_title := eu_title data, ct_description := eu_description data,
                         ct_runtime := eu_runtime data, ct_poster_key := optimize (eu_poster_key data) ''poster'',
                         ct_trailer_url := eu_trailer_url data, ct_status := eu_status data,
                         ct_is_published := (eu_status data = ''published''), ct_is_free := eu_is_free data,
                         ct_transcode_status := ''pending'', ct_created_at := now\<rparr>
                   in case insert_content episode d of
                        Inl e \<Rightarrow> Inl e
                      | Inr d1 \<Rightarrow> Inr (episode, add_job job (eu_content_id data) (eu_source_key data) d1))))))"

definition get_episode_or_404 :: "series_row \<Rightarrow> string \<Rightarrow> db \<Rightarrow> content_row result" where
  "get_episode_or_404 series slug d =
     (case select_one (\<lambda>c. ct_slug c = slug \<and> ct_series_id c = Some (ser_id series) \<and> ct_type c = ''episode'')
             (contents d) of
        None \<Rightarrow> Inl (NotFoundError ''Episode not found'') | Some c \<Rightarrow> Inr c)"

text \<open>The two lookups every episode route starts with.\<close>

definition find_episode :: "string \<Rightarrow> string \<Rightarrow> db \<Rightarrow> content_row result" where
  "find_episode slug episode_slug d =
     (case get_series_or_404 False slug d of
        Inl e \<Rightarrow> Inl e | Inr series \<Rightarrow> get_episode_or_404 series episode_slug d)"

definition start_episode_asset_upload ::
    "string \<Rightarrow> string \<Rightarrow> string \<Rightarrow> string option \<Rightarrow> string option \<Rightarrow> db \<Rightarrow> (string option \<times> string option) result" where
  "start_episode_asset_upload token slug episode_slug video_type poster_type d =
     (case find_episode slug episode_slug d of
        Inl e \<Rightarrow> Inl e
      | Inr _ \<Rightarrow>
        if \<not> truthy video_type \<and> \<not> truthy poster_type
        then Inl (HTTPException 422 ''Choose a video or poster file to replace'')
        else Inr (if truthy video_type then Some (episode_source_key slug episode_slug) else None,
                  if truthy poster_type then Some (episode_poster_key token slug episode_slug (the poster_type)) else None))"

definition complete_episode_asset_upload ::
    "uuid \<Rightarrow> (string \<Rightarrow> bool) \<Rightarrow> (string option \<Rightarrow> string \<Rightarrow> string option) \<Rightarrow> string \<Rightarrow> string \<Rightarrow> string option \<Rightarrow>
     string option \<Rightarrow> db \<Rightarrow> (content_row \<times> db) result" where
  "complete_episode_asset_upload job exists optimize slug episode_slug source_key poster_key d =
     (case find_episode slug episode_slug d of
        Inl e \<Rightarrow> Inl e
      | Inr episode \<Rightarrow>
        (case seq (check_asset (\<lambda>k. k = episode_source_key slug episode_slug) exists source_key
                     ''source_key does not match episode'' ''Video upload is not available in storage yet'')
                  (check_asset (is_episode_asset_key slug episode_slug) exists poster_key
                     ''poster_key does not match episode'' ''Poster upload is not available in storage yet'') of
           Inl e \<Rightarrow> Inl e
         | Inr _ \<Rightarrow>
           if \<not> truthy source_key \<and> \<not> truthy poster_key
           then Inl (HTTPException 422 ''No uploaded assets provided'')
           else
            (let e1 = (if truthy source_key
                       then episode\<lparr>ct_transcode_status := ''pending'', ct_hls_master_key := None,
                              ct_duration_seconds := None\<rparr> else episode);
                 d1 = (if truthy source_key then add_job job (ct_id episode) (the source_key) d else d);
                 e2 = (if truthy poster_key then e1\<lparr>ct_poster_key := optimize poster_key ''poster''\<rparr> else e1)
             in Inr (e2, put_content e2 d1))))"

text \<open>
  Every field of the request is assigned as it is; \<open>runtime_minutes\<close>, which is no column, has no effect.
\<close>

definition update_episode :: "string \<Rightarrow> string \<Rightarrow> content_update \<Rightarrow> db \<Rightarrow> (content_row \<times> db) result" where
  "update_episode slug episode_slug data d =
     (case find_episode slug episode_slug d of
        Inl e \<Rightarrow> Inl e
      | Inr episode \<Rightarrow>
        (let u = normalize_content_update data in
         case (case cu_status u of None \<Rightarrow> Inr () | Some s \<Rightarrow> as_422 (validate_content_status s)) of
           Inl e \<Rightarrow> Inl e
         | Inr _ \<Rightarrow>
           (let u1 = (case (cu_status u, cu_is_published u) of
                        (Some s, None) \<Rightarrow> u\<lparr>cu_is_published := Some (Some (s = Some ''published''))\<rparr>
                      | _ \<Rightarrow> u);
                e1 = set_field (cu_publish_at u1) (\<lambda>x c. c\<lparr>ct_publish_at := x\<rparr>)
                       (set_required (cu_status u1) (\<lambda>x c. c\<lparr>ct_status := x\<rparr>) (assign_content u1 episode))
            in if null_columns u1 \<or> cu_is_published u1 = Some None \<or> \<not> content_check e1 then Inl IntegrityError
               else Inr (e1, put_content e1 d))))"

definition delete_episode :: "string \<Rightarrow> string \<Rightarrow> db \<Rightarrow> db result" where
  "delete_episode slug episode_slug d =
     (case find_episode slug episode_slug d of Inl e \<Rightarrow> Inl e | Inr ep \<Rightarrow> delete_content (ct_id ep) d)"

section \<open>Ordering\<close>

interpretation series_order: sortable ser_id ser_sort_order "\<lambda>n s. s\<lparr>ser_sort_order := n\<rparr>" "\<lambda>_. True"
  by unfold_locales simp_all

section \<open>The invariant\<close>

definition episode_state_ok :: "content_row \<Rightarrow> bool" where
  "episode_state_ok c \<longleftrightarrow> (ct_type c = ''episode'' \<longrightarrow>
     ct_status c \<in> set valid_content_statuses \<and> (ct_is_published c \<longleftrightarrow> ct_status c = ''published''))"

text \<open>Every series is in a consistent state, and every title that names a series names one that exists.\<close>

definition series_ids :: "db \<Rightarrow> uuid set" where "series_ids d = set (map ser_id (series_table d))"

definition series_known :: "uuid set \<Rightarrow> content_row \<Rightarrow> bool" where
  "series_known ids c = (case ct_series_id c of None \<Rightarrow> True | Some sid \<Rightarrow> sid \<in> ids)"

definition series_ok :: "db \<Rightarrow> bool" where
  "series_ok d \<longleftrightarrow> distinct (map ser_id (series_table d)) \<and> distinct (map ct_id (contents d)) \<and>
     (\<forall>s \<in> set (series_table d). series_state_ok s) \<and>
     (\<forall>c \<in> set (contents d). episode_state_ok c \<and> content_check c \<and> series_known (series_ids d) c)"

inductive series_step :: "db \<Rightarrow> db \<Rightarrow> bool" where
  create: "create_series now fresh token data d = Inr (s, d') \<Longrightarrow> series_step d d'"
| patch: "update_series optimize slug u d = Inr (s, d') \<Longrightarrow> series_step d d'"
| remove: "delete_series slug d = Inr d' \<Longrightarrow> series_step d d'"
| admin_remove: "delete_admin_series sid d = Inr d' \<Longrightarrow> series_step d d'"
| reorder: "reorder_admin_series ids d = (d', dr) \<Longrightarrow> series_step d d'"
| episode: "complete_episode_upload now job assembled exists optimize slug eu d = Inr (c, d') \<Longrightarrow> series_step d d'"
| assets: "complete_episode_asset_upload job exists optimize slug ep sk pk d = Inr (c, d') \<Longrightarrow> series_step d d'"
| episode_patch: "update_episode slug ep u d = Inr (c, d') \<Longrightarrow> cu_is_published u = None \<Longrightarrow> series_step d d'"
| episode_remove: "delete_episode slug ep d = Inr d' \<Longrightarrow> series_step d d'"
| tick: "publish_tick lm ls now d = (d', dr) \<Longrightarrow> series_step d d'"

lemma find_series_ok: "get_series_or_404 b slug d = Inr s \<Longrightarrow> s \<in> set (series_table d) \<and> ser_slug s = slug"
  by (auto simp: get_series_or_404_def dest: select_one_Some split: option.splits)

lemma find_episode_ok:
  assumes "find_episode slug ep d = Inr c"
  obtains s where "get_series_or_404 False slug d = Inr s" "c \<in> set (contents d)" "ct_type c = ''episode''"
    "ct_series_id c = Some (ser_id s)" "s \<in> set (series_table d)"
  using assms by (auto simp: find_episode_def get_episode_or_404_def dest!: select_one_Some find_series_ok
      split: sum.splits option.splits)

lemma series_put:
  assumes "series_ok d" "series_state_ok s" "s0 \<in> set (series_table d)" "ser_id s = ser_id s0"
  shows "series_ok (put_series s d)"
proof -
  have ids: "map ser_id (series_table (put_series s d)) = map ser_id (series_table d)"
    using map_update_where [of "\<lambda>x. ser_id x = ser_id s" ser_id "\<lambda>_. s" "series_table d"] by (simp add: put_series_def)
  then have "series_ids (put_series s d) = series_ids d" by (simp only: series_ids_def)
  then show ?thesis using assms ids unfolding series_ok_def
    by (auto simp: put_series_def in_update_where)
qed

lemma series_map:
  assumes ok: "series_ok d" and t: "series_table d' = map g (series_table d)" and c: "contents d' = map h (contents d)"
    and g: "\<And>s. s \<in> set (series_table d) \<Longrightarrow> ser_id (g s) = ser_id s \<and> (series_state_ok s \<longrightarrow> series_state_ok (g s))"
    and h: "\<And>c. c \<in> set (contents d) \<Longrightarrow> ct_id (h c) = ct_id c \<and> ct_series_id (h c) = ct_series_id c \<and>
      (episode_state_ok c \<longrightarrow> episode_state_ok (h c)) \<and> (content_check c \<longrightarrow> content_check (h c))"
  shows "series_ok d'"
proof -
  have ids: "map ser_id (series_table d') = map ser_id (series_table d)" "map ct_id (contents d') = map ct_id (contents d)"
    using t c g h by simp_all
  from ids(1) have known: "series_ids d' = series_ids d" by (simp only: series_ids_def)
  have same: "series_known ids (h c) = series_known ids c" if "c \<in> set (contents d)" for ids c
    using h [OF that] by (simp add: series_known_def)
  show ?thesis using ok g h same unfolding series_ok_def ids known by (auto simp: t c)
qed

lemma series_put_content:
  assumes ok: "series_ok d" and c: "c0 \<in> set (contents d)" "ct_id c = ct_id c0" "ct_series_id c = ct_series_id c0"
    and "episode_state_ok c" "content_check c"
  shows "series_ok (put_content c d)"
proof (rule series_map [OF ok, where g = id and h = "\<lambda>x. if ct_id x = ct_id c then c else x"])
  fix x assume "x \<in> set (contents d)"
  then have "ct_id x = ct_id c \<Longrightarrow> x = c0"
    using ok c(1,2) unfolding series_ok_def by (metis distinct_map inj_onD)
  then show "ct_id (if ct_id x = ct_id c then c else x) = ct_id x \<and>
      ct_series_id (if ct_id x = ct_id c then c else x) = ct_series_id x \<and>
      (episode_state_ok x \<longrightarrow> episode_state_ok (if ct_id x = ct_id c then c else x)) \<and>
      (content_check x \<longrightarrow> content_check (if ct_id x = ct_id c then c else x))"
    using assms by auto
qed (simp_all add: put_content_def update_where_def)

lemma series_job [simp]: "series_ok (add_job job cid src d) = series_ok d"
  by (simp add: series_ok_def add_job_def series_ids_def)

lemma series_insert_content:
  assumes "series_ok d" "insert_content c d = Inr d'" "episode_state_ok c" "ct_series_id c = Some sid"
    "sid \<in> series_ids d"
  shows "series_ok d'"
proof -
  have "d' = d\<lparr>contents := contents d @ [c]\<rparr>" "content_check c" "ct_id c \<notin> ct_id ` set (contents d)"
    using assms(2) by (auto simp: insert_content_def exists_row_iff split: if_splits)
  then show ?thesis using assms by (auto simp: series_ok_def series_known_def series_ids_def)
qed

lemma series_remove_content: "series_ok d \<Longrightarrow> delete_content cid d = Inr d' \<Longrightarrow> series_ok d'"
  by (auto simp: series_ok_def title_removed_fields distinct_map_delete series_ids_def dest!: delete_content_removed)

lemma delete_series_tables:
  assumes "delete_series_content sid d = Inr d'"
  shows "contents d' = delete_where (\<lambda>c. ct_id c \<in> set (episode_ids sid d)) (contents d)"
    "series_table d' = delete_where (\<lambda>s. ser_id s = sid) (series_table d)"
  using assms
  by (auto simp: delete_series_content_def delete_series_and_dependencies_def delete_content_dependencies_for_series_def
      delete_transcode_jobs_for_series_def delete_content_rows_def delete_series_row_def episode_ids_def Let_def
      split: sum.splits if_splits)

lemma series_remove:
  assumes ok: "series_ok d" and del: "delete_series_content sid d = Inr d'"
  shows "series_ok d'"
proof -
  note t = delete_series_tables [OF del]
  have gone: "ct_series_id c \<noteq> Some sid" if "c \<in> set (contents d')" for c
    using that unfolding t(1) by (auto simp: episode_ids_def)
  have "c \<in> set (contents d)" if "c \<in> set (contents d')" for c using that unfolding t(1) by simp
  then have "series_known (series_ids d') c" if "c \<in> set (contents d')" for c
    using that gone [OF that] ok unfolding series_ok_def
    by (fastforce simp: series_known_def series_ids_def t(2) split: option.splits)
  then show ?thesis using ok unfolding series_ok_def
    by (auto simp: t distinct_map_delete)
qed

lemma series_patch:
  assumes ok: "series_ok d" and p: "update_series optimize slug u d = Inr (s, d')"
  shows "series_ok d'"
proof -
  obtain s0 where s0: "get_series_or_404 False slug d = Inr s0"
    using p by (auto simp: update_series_def split: sum.splits)
  let ?st = "case su_status u of None \<Rightarrow> None | Some s \<Rightarrow> s"
  let ?s1 = "assign_series optimize u s0"
  have r: "(if ?st \<noteq> None \<or> su_publish_at u \<noteq> None then apply_series_publish_state ?st (su_publish_at u) ?s1
      else (case su_is_published u of Some (Some b) \<Rightarrow> apply_legacy_is_published b ?s1 | _ \<Rightarrow> Inr ?s1)) = Inr s"
    "ser_status s = ''published'' \<longrightarrow> series_is_publishable s" "d' = put_series s d"
    using p s0 by (auto simp: update_series_def Let_def series_is_publishable_def split: sum.splits if_splits)
  note keep = set_field_keep [where k = ser_id] set_required_keep [where k = ser_id]
    set_field_keep [where k = ser_status] set_required_keep [where k = ser_status]
    set_field_keep [where k = ser_is_published] set_required_keep [where k = ser_is_published]
    set_field_keep [where k = ser_publish_at] set_required_keep [where k = ser_publish_at]
  have s1: "ser_id ?s1 = ser_id s0" "ser_status ?s1 = ser_status s0" "ser_is_published ?s1 = ser_is_published s0"
    "ser_publish_at ?s1 = ser_publish_at s0"
    by (simp_all add: assign_series_def keep)
  have old: "series_state_ok s0" using ok find_series_ok [OF s0] by (simp add: series_ok_def)
  then have valid: "ser_status ?s1 \<in> set valid_content_statuses" by (simp add: s1 series_state_ok_def)
  have base: "ser_id s = ser_id s0 \<and> ser_status s \<in> set valid_content_statuses \<and>
      (ser_is_published s \<longleftrightarrow> ser_status s = ''published'') \<and> (ser_publish_at s \<noteq> None \<longleftrightarrow> ser_status s = ''scheduled'')"
  proof (cases "?st \<noteq> None \<or> su_publish_at u \<noteq> None")
    case True
    then have "apply_series_publish_state ?st (su_publish_at u) ?s1 = Inr s" using r(1) by simp
    from apply_series_ok [OF this disjI2 [OF valid]] s1(1) show ?thesis by simp
  next
    case False
    have leg: "(case su_is_published u of Some (Some b) \<Rightarrow> apply_legacy_is_published b ?s1 | _ \<Rightarrow> Inr ?s1) = Inr s"
      using r(1) unfolding if_not_P [OF False] .
    consider b where "su_is_published u = Some (Some b)" | "su_is_published u = None \<or> su_is_published u = Some None"
      by (metis option.exhaust)
    then consider b where "apply_legacy_is_published b ?s1 = Inr s" | "s = ?s1"
    proof cases
      case (1 b)
      then show ?thesis using leg that(1) by (simp only: option.case)
    next
      case 2
      then show ?thesis using leg that(2) by (elim disjE) (simp_all only: option.case sum.inject)
    qed
    then show ?thesis
    proof cases
      case 1
      then obtain st where "apply_series_publish_state (Some st) None ?s1 = Inr s"
        by (auto simp: apply_legacy_is_published_def split: if_splits)
      from apply_series_ok [OF this] s1(1) show ?thesis by simp
    next
      case 2
      then show ?thesis using old s1 by (simp add: series_state_ok_def)
    qed
  qed
  then have "series_state_ok s" using r(2) by (simp add: series_state_ok_def)
  then show ?thesis unfolding r(3) using series_put [OF ok] find_series_ok [OF s0] base by blast
qed

lemma series_episode_patch:
  assumes ok: "series_ok d" and p: "update_episode slug ep u d = Inr (c, d')" and u: "cu_is_published u = None"
  shows "series_ok d'"
proof -
  obtain c0 where f: "find_episode slug ep d = Inr c0"
    using p by (auto simp: update_episode_def split: sum.splits)
  then obtain s0 where c0: "c0 \<in> set (contents d)" "ct_type c0 = ''episode''" by (rule find_episode_ok)
  let ?u = "normalize_content_update u"
  define u1 where "u1 = (case (cu_status ?u, cu_is_published ?u) of
      (Some s, None) \<Rightarrow> ?u\<lparr>cu_is_published := Some (Some (s = Some ''published''))\<rparr> | _ \<Rightarrow> ?u)"
  define e1 where "e1 = set_field (cu_publish_at u1) (\<lambda>x c. c\<lparr>ct_publish_at := x\<rparr>)
      (set_required (cu_status u1) (\<lambda>x c. c\<lparr>ct_status := x\<rparr>) (assign_content u1 c0))"
  have st: "cu_status ?u = cu_status u" "cu_is_published ?u = None" "cu_status u1 = cu_status u"
    using u by (simp_all add: u1_def normalize_content_update_def split: option.split)
  have r: "c = e1" "d' = put_content e1 d" "content_check e1"
    "\<forall>s. cu_status u = Some s \<longrightarrow> s \<in> Some ` set valid_content_statuses"
    using p f unfolding update_episode_def Let_def u1_def [symmetric] e1_def [symmetric] f sum.case
    by (auto simp: st(1) split: sum.splits option.splits if_splits)
  have old: "episode_state_ok c0" using ok c0 by (simp add: series_ok_def)
  have k: "ct_id e1 = ct_id c0" "ct_series_id e1 = ct_series_id c0" "ct_type e1 = ct_type c0" by (simp_all add: e1_def)
  have "episode_state_ok e1"
  proof (cases "cu_status u")
    case None
    then have "u1 = ?u" using st(1) by (simp add: u1_def)
    then show ?thesis using old None st by (simp add: episode_state_ok_def e1_def assign_content_published)
  next
    case (Some x)
    then obtain s where s: "x = Some s" "s \<in> set valid_content_statuses" using r(4) by blast
    have "cu_is_published u1 = Some (Some (s = ''published''))" using Some s st by (simp add: u1_def)
    then show ?thesis using s Some st(3) by (simp add: episode_state_ok_def e1_def assign_content_published)
  qed
  then show ?thesis unfolding r(2) using series_put_content [OF ok c0(1) k(1,2)] r(3) by blast
qed

lemma series_assets:
  assumes ok: "series_ok d" and p: "complete_episode_asset_upload job exists optimize slug ep sk pk d = Inr (c, d')"
  shows "series_ok d'"
proof -
  obtain c0 where f: "find_episode slug ep d = Inr c0"
    using p by (auto simp: complete_episode_asset_upload_def split: sum.splits)
  then obtain s0 where c0: "c0 \<in> set (contents d)" by (rule find_episode_ok)
  define e1 where "e1 = (if truthy sk then c0\<lparr>ct_transcode_status := ''pending'', ct_hls_master_key := None,
                              ct_duration_seconds := None\<rparr> else c0)"
  define d1 where "d1 = (if truthy sk then add_job job (ct_id c0) (the sk) d else d)"
  define e2 where "e2 = (if truthy pk then e1\<lparr>ct_poster_key := optimize pk ''poster''\<rparr> else e1)"
  have r: "c = e2 \<and> d' = put_content e2 d1"
    using p f unfolding complete_episode_asset_upload_def Let_def f sum.case
      e1_def [symmetric] d1_def [symmetric] e2_def [symmetric] by (auto split: sum.splits if_splits)
  have k: "ct_id e2 = ct_id c0" "ct_series_id e2 = ct_series_id c0" "episode_state_ok e2 = episode_state_ok c0"
    "content_check e2 = content_check c0"
    by (simp_all add: e2_def e1_def episode_state_ok_def content_check_def)
  have ok1: "series_ok d1" and c1: "c0 \<in> set (contents d1)" using ok c0 by (simp_all add: d1_def add_job_def series_ok_def series_ids_def)
  have "episode_state_ok c0 \<and> content_check c0" using ok c0 by (simp add: series_ok_def)
  then show ?thesis using r series_put_content [OF ok1 c1 k(1,2)] k(3,4) by simp
qed

lemma series_upload:
  assumes ok: "series_ok d"
    and p: "complete_episode_upload now job assembled exists optimize slug eu d = Inr (c, d')"
  shows "series_ok d'"
proof -
  obtain s d1 where s: "get_series_or_404 False slug d = Inr s" and ins: "insert_content c d = Inr d1"
    and c: "ct_type c = ''episode''" "ct_series_id c = Some (ser_id s)" "ct_status c = eu_status eu"
      "ct_is_published c = (eu_status eu = ''published'')"
    and st: "eu_status eu \<in> set valid_content_statuses"
    and d': "d' = add_job job (eu_content_id eu) (eu_source_key eu) d1"
    using p by (auto simp: complete_episode_upload_def Let_def split: sum.splits if_splits)
  have "series_ok d1"
    by (rule series_insert_content [OF ok ins _ c(2)])
      (use c st find_series_ok [OF s] in \<open>auto simp: episode_state_ok_def series_ids_def\<close>)
  then show ?thesis by (simp add: d')
qed

lemma series_create:
  assumes ok: "series_ok d" and p: "create_series now fresh token data d = Inr (s, d')"
  shows "series_ok d'"
proof -
  obtain s0 s1 where ap: "apply_series_publish_state (Some (sc_status data)) (Some (sc_publish_at data)) s0 = Inr s1"
    and ap2: "(if ser_status s1 = ''published'' then apply_series_publish_state (Some ''draft'') None s1 else Inr s1) = Inr s"
    and ins: "insert_series s d = Inr d'"
    using p by (auto simp: create_series_def Let_def split: sum.splits)
  have draft: "ser_status x = ''draft''" if "apply_series_publish_state (Some ''draft'') None y = Inr x" for x y
    using that by (auto simp: apply_series_publish_state_def Let_def split: sum.splits)
  have "series_state_ok s"
  proof (cases "ser_status s1 = ''published''")
    case True
    then have a: "apply_series_publish_state (Some ''draft'') None s1 = Inr s" using ap2 by simp
    show ?thesis using apply_series_ok [OF a] draft [OF a] by (simp add: series_state_ok_def)
  next
    case False
    then have "s = s1" using ap2 by simp
    then show ?thesis using apply_series_ok [OF ap] False by (simp add: series_state_ok_def)
  qed
  moreover have "d' = d\<lparr>series_table := series_table d @ [s]\<rparr>" "ser_id s \<notin> ser_id ` set (series_table d)"
    using ins by (auto simp: insert_series_def exists_row_iff split: if_splits)
  ultimately show ?thesis using ok
    by (auto simp: series_ok_def series_known_def series_ids_def split: option.splits)
qed

lemma series_reorder: "series_ok d \<Longrightarrow> series_ok (fst (reorder_admin_series ids d))"
proof -
  assume ok: "series_ok d"
  have "series_ok (d\<lparr>series_table := fold (\<lambda>(i, x). update_where (\<lambda>r. ser_id r = x \<and> True)
      (\<lambda>s. s\<lparr>ser_sort_order := int i\<rparr>)) xs (series_table d)\<rparr>)" for xs
    using ok
  proof (induction xs arbitrary: d)
    case (Cons a xs)
    obtain i x where a: "a = (i, x)" by (cases a)
    let ?d = "d\<lparr>series_table := update_where (\<lambda>r. ser_id r = x \<and> True) (\<lambda>s. s\<lparr>ser_sort_order := int i\<rparr>) (series_table d)\<rparr>"
    have "series_ok ?d"
      by (rule series_map [OF Cons.prems, where g = "\<lambda>r. if ser_id r = x then r\<lparr>ser_sort_order := int i\<rparr> else r" and h = id])
        (auto simp: update_where_def series_state_ok_def series_is_publishable_def ensure_series_publishable_def)
    from Cons.IH [OF this] show ?case by (simp add: a)
  qed simp
  then show "series_ok (fst (reorder_admin_series ids d))"
    using ok by (simp add: reorder_admin_series_def assign_order_def)
qed

lemma series_tick: "series_ok d \<Longrightarrow> series_ok (fst (publish_tick lm ls now d))"
proof -
  assume ok: "series_ok d"
  then have u: "distinct (map ser_id (series_table d))" "distinct (map ct_id (contents d))" by (simp_all add: series_ok_def)
  obtain h where h: "contents (fst (publish_tick lm ls now d)) = map h (contents d)"
    "\<forall>c \<in> set (contents d). h c = c \<or> due_movie now c \<and> movie_is_publishable d c \<and> \<not> lm c \<and>
       h c = promote_scheduled_movie_to_published c"
    using update_picked [OF u(2), of publish_sweep_limit lm "due_movie now"
        "\<lambda>c. schedule_key (ct_publish_at c)" "movie_is_publishable d" promote_scheduled_movie_to_published]
    unfolding tick_db by auto
  obtain g where g: "series_table (fst (publish_tick lm ls now d)) = map g (series_table d)"
    "\<forall>s \<in> set (series_table d). g s = s \<or> due_series now s \<and> series_is_publishable s \<and> \<not> ls s \<and>
       g s = promote_scheduled_series_to_published s"
    using update_picked [OF u(1), of publish_sweep_limit ls "due_series now"
        "\<lambda>s. schedule_key (ser_publish_at s)" series_is_publishable promote_scheduled_series_to_published]
    unfolding tick_db by auto
  show ?thesis
  proof (rule series_map [OF ok g(1) h(1)])
    fix s assume "s \<in> set (series_table d)"
    then show "ser_id (g s) = ser_id s \<and> (series_state_ok s \<longrightarrow> series_state_ok (g s))"
      using g(2) promoted_series_ok by (fastforce simp: promote_scheduled_series_to_published_def)
  next
    fix c assume "c \<in> set (contents d)"
    then consider "h c = c" | "due_movie now c" "h c = promote_scheduled_movie_to_published c" using h(2) by blast
    then show "ct_id (h c) = ct_id c \<and> ct_series_id (h c) = ct_series_id c \<and>
      (episode_state_ok c \<longrightarrow> episode_state_ok (h c)) \<and> (content_check c \<longrightarrow> content_check (h c))"
      by cases (simp_all add: promote_scheduled_movie_to_published_def due_movie_def episode_state_ok_def content_check_def)
  qed
qed

lemma series_step_ok: "series_step d d' \<Longrightarrow> series_ok d \<Longrightarrow> series_ok d'"
proof (induction rule: series_step.induct)
  case (remove slug d d')
  then show ?case using series_remove by (auto simp: delete_series_def split: sum.splits)
next
  case (admin_remove sid d d')
  then show ?case using series_remove by (auto simp: delete_admin_series_def split: sum.splits)
next
  case (reorder ids d d' dr)
  then show ?case using series_reorder [of d ids] by simp
next
  case (episode_remove slug ep d d')
  then show ?case using series_remove_content by (auto simp: delete_episode_def split: sum.splits)
next
  case (tick lm ls now d d' dr)
  then show ?case using series_tick [of d lm ls now] by simp
next
  case (create now fresh token data d s d')
  then show ?case by (simp add: series_create)
next
  case (patch optimize slug u d s d')
  then show ?case by (simp add: series_patch)
next
  case (episode now job assembled exists optimize slug eu d c d')
  then show ?case by (simp add: series_upload)
next
  case (assets job exists optimize slug ep sk pk d c d')
  then show ?case by (simp add: series_assets)
next
  case (episode_patch slug ep u d c d')
  then show ?case by (simp add: series_episode_patch)
qed

lemma series_reorder_shown:
  assumes "distinct ids" and "ids \<noteq> []" and "distinct (map ser_id (series_table d))"
    and "set ids = set (map ser_id (series_table d))"
  shows "map ser_id (list_admin_series (fst (reorder_admin_series ids d))) = ids"
  using series_order.order_by_assign [OF assms(1) _ assms(3), of "\<lambda>_. True" "\<lambda>s. - ser_created_at s"] assms(2,4)
  by (simp add: list_admin_series_def reorder_admin_series_def)

text \<open>
  C15: No sequence of series and episode operations and publish-sweeper ticks, none of them setting an
  episode's \<open>is_published\<close> by hand, leaves the series catalog inconsistent: ids stay unique; a series
  has one of the four statuses, is visible exactly when it is published and then has a poster, and has
  a schedule exactly when it is scheduled, even if \<open>is_published\<close> was sent for the series itself; every
  episode belongs to a series that exists, deletions included, has a valid status and is visible
  exactly when published; and every row passes the CHECK on its type.
\<close>

theorem series_always_consistent:
  assumes "series_step\<^sup>*\<^sup>* d d'" and "series_ok d"
  shows "distinct (map ser_id (series_table d')) \<and> distinct (map ct_id (contents d')) \<and>
    (\<forall>s \<in> set (series_table d'). series_state_ok s) \<and>
    (\<forall>c \<in> set (contents d'). episode_state_ok c \<and> content_check c \<and>
      (\<forall>sid. ct_series_id c = Some sid \<longrightarrow> (\<exists>s \<in> set (series_table d'). ser_id s = sid)))"
proof -
  have "series_ok d'" using assms by (induction rule: rtranclp_induct) (simp_all add: series_step_ok)
  then show ?thesis by (fastforce simp: series_ok_def series_known_def series_ids_def split: option.splits)
qed

definition ash_series :: series_create where
  "ash_series = \<lparr>sc_title = ''Ash'', sc_title_km = None, sc_monthly_price_usd = 3, sc_description = None,
     sc_genres = [''Drama''], sc_release_year = None, sc_rating = None, sc_trailer_url = None,
     sc_is_short_movie = False, sc_status = ''published'', sc_publish_at = None, sc_sort_order = 0\<rparr>"

theorem series_always_consistent_witness:
  "\<exists>s d. create_series 0 1 ''t'' ash_series empty_db = Inr (s, d) \<and> series_table d = [s] \<and> series_state_ok s \<and>
     ser_status s = ''draft''"
proof -
  have "case create_series 0 1 ''t'' ash_series empty_db of Inl _ \<Rightarrow> False
      | Inr (s, d) \<Rightarrow> length (series_table d) = 1 \<and> ser_id (hd (series_table d)) = ser_id s \<and> ser_status s = ''draft''"
    by code_simp
  then obtain s d where c: "create_series 0 1 ''t'' ash_series empty_db = Inr (s, d)" "length (series_table d) = 1"
    "ser_status s = ''draft''"
    by (auto split: sum.splits)
  have tab: "series_table d = [s]"
    using c(1) by (auto simp: create_series_def insert_series_def Let_def split: sum.splits if_splits)
  have "series_step\<^sup>*\<^sup>* empty_db d" using series_step.create [OF c(1)] by blast
  moreover have "series_ok empty_db" by (simp add: series_ok_def)
  ultimately have "series_state_ok s" using series_always_consistent tab by fastforce
  then show ?thesis using c tab by blast
qed

section \<open>Scheduling what nothing publishes\<close>

lemma tick_keeps_others:
  assumes "distinct (map ct_id (contents d))" and "c \<in> set (contents d)" and "ct_type c \<noteq> ''single''"
  shows "distinct (map ct_id (contents (publish_ticks now n d))) \<and> c \<in> set (contents (publish_ticks now n d))"
proof (induction n)
  case 0
  then show ?case using assms by (simp add: publish_ticks_def)
next
  case (Suc n)
  let ?d = "publish_ticks now n d"
  have step: "publish_ticks now (Suc n) d = fst (publish_tick (\<lambda>_. False) (\<lambda>_. False) now ?d)"
    by (simp add: publish_ticks_def)
  obtain g where g: "contents (publish_ticks now (Suc n) d) = map g (contents ?d)"
    "\<forall>c \<in> set (contents ?d). g c = c \<or> due_movie now c \<and> movie_is_publishable ?d c \<and> \<not> False \<and>
       g c = promote_scheduled_movie_to_published c"
    using update_picked [of ct_id "contents ?d" publish_sweep_limit "\<lambda>_. False" "due_movie now"
        "\<lambda>c. schedule_key (ct_publish_at c)" "movie_is_publishable ?d" promote_scheduled_movie_to_published] Suc
    unfolding step tick_db by auto
  have "g c = c" using g(2) Suc assms(3) by (auto simp: due_movie_def)
  then have "c \<in> g ` set (contents ?d)" using Suc by (metis image_eqI)
  moreover have "map ct_id (contents (publish_ticks now (Suc n) d)) = map ct_id (contents ?d)"
    using g by (auto simp: promote_scheduled_movie_to_published_def)
  ultimately show ?case using Suc g(1) by (metis set_map)
qed

lemma put_content_mem: "c0 \<in> set (contents d) \<Longrightarrow> ct_id c = ct_id c0 \<Longrightarrow> c \<in> set (contents (put_content c d))"
  by (auto simp: put_content_def in_update_where)

lemma put_content_ids: "map ct_id (contents (put_content c d)) = map ct_id (contents d)"
  using map_update_where [of "\<lambda>x. ct_id x = ct_id c" ct_id "\<lambda>_. c" "contents d"] by (simp add: put_content_def)

text \<open>
  A schedule is accepted where nothing keeps it. A PATCH that sets the status of an episode or a
  podcast to scheduled with a go-live time succeeds and stores both; but the publish sweeper only looks
  at movies and series, so however many ticks run after that time, the row is still as it was stored,
  not visible.
\<close>

theorem schedule_never_kept:
  assumes "distinct (map ct_id (contents d))"
  shows "(find_episode slug ep d = Inr c \<and> content_check c \<longrightarrow>
      (\<exists>c' d'. update_episode slug ep (no_update\<lparr>cu_status := Some (Some ''scheduled''), cu_publish_at := Some (Some t)\<rparr>) d =
          Inr (c', d') \<and> ct_id c' = ct_id c \<and> ct_publish_at c' = Some t \<and> \<not> ct_is_published c' \<and>
        (\<forall>now n. c' \<in> set (contents (publish_ticks now n d'))))) \<and>
    (find_podcast i d = Inr p \<and> content_check p \<longrightarrow>
      (\<exists>p' d' dr. update_admin_podcast i (no_update\<lparr>cu_status := Some (Some ''scheduled''), cu_publish_at := Some (Some t)\<rparr>) d =
          Inr (p', d', dr) \<and> ct_id p' = i \<and> ct_publish_at p' = Some t \<and> \<not> ct_is_published p' \<and>
        (\<forall>now n. p' \<in> set (contents (publish_ticks now n d')))))"
proof (intro conjI impI)
  assume a: "find_episode slug ep d = Inr c \<and> content_check c"
  then obtain s where c: "c \<in> set (contents d)" "ct_type c = ''episode''" by (blast elim: find_episode_ok)
  let ?c = "c\<lparr>ct_is_published := False, ct_status := ''scheduled'', ct_publish_at := Some t\<rparr>"
  have chk: "content_check ?c" using a by (simp add: content_check_def)
  have "update_episode slug ep (no_update\<lparr>cu_status := Some (Some ''scheduled''), cu_publish_at := Some (Some t)\<rparr>) d =
      Inr (?c, put_content ?c d)"
    using a chk by (simp add: update_episode_def normalize_content_update_def no_update_def assign_content_def
        null_columns_def validate_content_status_def valid_content_statuses_def Let_def)
  moreover have "\<forall>now n. ?c \<in> set (contents (publish_ticks now n (put_content ?c d)))"
    using tick_keeps_others [of "put_content ?c d" ?c] put_content_mem [OF c(1), of ?c] assms c(2)
    by (simp add: put_content_ids)
  ultimately show "\<exists>c' d'. update_episode slug ep (no_update\<lparr>cu_status := Some (Some ''scheduled''), cu_publish_at := Some (Some t)\<rparr>) d =
          Inr (c', d') \<and> ct_id c' = ct_id c \<and> ct_publish_at c' = Some t \<and> \<not> ct_is_published c' \<and>
        (\<forall>now n. c' \<in> set (contents (publish_ticks now n d')))"
    by (intro exI [of _ ?c] exI [of _ "put_content ?c d"]) simp
next
  assume a: "find_podcast i d = Inr p \<and> content_check p"
  then have p: "p \<in> set (contents d)" "ct_type p = ''podcast''" "ct_id p = i" using find_podcast_ok by blast+
  let ?p = "p\<lparr>ct_price_usd := Some 0, ct_is_published := False, ct_status := ''scheduled'', ct_publish_at := Some t\<rparr>"
  have chk: "content_check ?p" using a p(2) by (auto simp: content_check_def)
  have "update_admin_podcast i (no_update\<lparr>cu_status := Some (Some ''scheduled''), cu_publish_at := Some (Some t)\<rparr>) d =
      Inr (?p, put_content ?p d, [DropPrefix ''podcasts:''])"
    using a chk by (simp add: update_admin_podcast_def normalize_content_update_def no_update_def assign_content_def
        assign_runtime_def null_columns_def validate_content_status_def valid_content_statuses_def Let_def)
  moreover have "\<forall>now n. ?p \<in> set (contents (publish_ticks now n (put_content ?p d)))"
    using tick_keeps_others [of "put_content ?p d" ?p] put_content_mem [OF p(1), of ?p] assms p(2)
    by (simp add: put_content_ids)
  ultimately show "\<exists>p' d' dr. update_admin_podcast i (no_update\<lparr>cu_status := Some (Some ''scheduled''), cu_publish_at := Some (Some t)\<rparr>) d =
          Inr (p', d', dr) \<and> ct_id p' = i \<and> ct_publish_at p' = Some t \<and> \<not> ct_is_published p' \<and>
        (\<forall>now n. p' \<in> set (contents (publish_ticks now n d')))"
    using p(3) by (intro exI [of _ ?p] exI [of _ "put_content ?p d"] exI [of _ "[DropPrefix ''podcasts:'']"]) simp
qed

definition radio_show :: content_row where
  "radio_show = default_content\<lparr>ct_id := 4, ct_type := ''podcast'', ct_price_usd := Some 0\<rparr>"

theorem schedule_never_kept_witness:
  "\<exists>p' d' dr. update_admin_podcast 4 (no_update\<lparr>cu_status := Some (Some ''scheduled''), cu_publish_at := Some (Some 5)\<rparr>)
      (empty_db\<lparr>contents := [radio_show]\<rparr>) = Inr (p', d', dr) \<and> \<not> ct_is_published p' \<and>
    p' \<in> set (contents (publish_ticks 100 3 d'))"
proof -
  have f: "find_podcast 4 (empty_db\<lparr>contents := [radio_show]\<rparr>) = Inr radio_show" "content_check radio_show"
    by (simp_all add: find_podcast_def radio_show_def default_content_def content_check_def)
  have "distinct (map ct_id (contents (empty_db\<lparr>contents := [radio_show]\<rparr>)))" by simp
  from schedule_never_kept [OF this, THEN conjunct2, THEN mp, OF conjI [OF f], of 5] show ?thesis by blast
qed

end
