(* ===== verification/Comment_Threads.thy ===== *)
theory Comment_Threads
  imports Deletion Listing "HOL-Library.While_Combinator"
begin

text \<open>
  \<open>app/services/comments.py\<close> with the routes of \<open>app/routers/comments.py\<close> and
  \<open>app/routers/admin/comments.py\<close>: threaded comments on movies, votes, reports and blocked authors.
  The walk over the replies is the code's loop (\<open>while_option\<close>); the tree of nodes it links by
  reference is unfolded to a depth the property below shows to be enough. Rows of a query without
  \<open>ORDER BY\<close> come in table order. The rate limits are not modelled.
\<close>

section \<open>Reading a comment\<close>

definition max_reply_depth :: nat where "max_reply_depth = 8"

definition author_display_name :: "user_row option \<Rightarrow> string" where
  "author_display_name user =
     (case user of
        None \<Rightarrow> ''Deleted User''
      | Some u \<Rightarrow>
        if truthy (user_full_name u) \<and> strip (the (user_full_name u)) \<noteq> [] then strip (the (user_full_name u))
        else (let local_part = takeWhile (\<lambda>c. c \<noteq> CHR ''@'') (user_email u)
              in if local_part = [] then ''User'' else local_part))"

record comment_read =
  cr_id :: uuid
  cr_content_id :: uuid
  cr_parent_id :: "uuid option"
  cr_body :: string
  cr_created_at :: datetime
  cr_author_id :: uuid
  cr_author_name :: string
  cr_score :: int
  cr_user_vote :: "int option"
  cr_user_reported :: bool

definition to_comment_read :: "comment_row \<Rightarrow> user_row option \<Rightarrow> int \<Rightarrow> int option \<Rightarrow> bool \<Rightarrow> comment_read" where
  "to_comment_read c author score user_vote user_reported =
     \<lparr>cr_id = cm_id c, cr_content_id = cm_content_id c, cr_parent_id = cm_parent_id c, cr_body = cm_body c,
      cr_created_at = cm_created_at c,
      cr_author_id = (case author of None \<Rightarrow> cm_user_id c | Some u \<Rightarrow> user_id u),
      cr_author_name = author_display_name author, cr_score = score, cr_user_vote = user_vote,
      cr_user_reported = user_reported\<rparr>"

definition get_comment_or_404 :: "uuid \<Rightarrow> db \<Rightarrow> comment_row result" where
  "get_comment_or_404 cid d =
     (case select_one (\<lambda>c. cm_id c = cid) (comments d) of
        None \<Rightarrow> Inl (NotFoundError ''Comment not found'')
      | Some c \<Rightarrow> if cm_deleted_at c \<noteq> None then Inl (NotFoundError ''Comment not found'') else Inr c)"

definition get_movie_content_or_404 :: "uuid \<Rightarrow> db \<Rightarrow> content_row result" where
  "get_movie_content_or_404 cid d =
     (case find_content cid d of
        None \<Rightarrow> Inl (NotFoundError ''Movie not found'')
      | Some c \<Rightarrow> if ct_type c \<noteq> ''single'' then Inl (NotFoundError ''Movie not found'') else Inr c)"

definition ensure_commentable_movie :: "uuid \<Rightarrow> bool \<Rightarrow> db \<Rightarrow> content_row result" where
  "ensure_commentable_movie cid allow_unpublished d =
     (case get_movie_content_or_404 cid d of
        Inl e \<Rightarrow> Inl e
      | Inr c \<Rightarrow> if \<not> allow_unpublished \<and> ct_status c \<noteq> ''published'' then Inl (NotFoundError ''Movie not found'')
                 else Inr c)"

section \<open>Writing a comment\<close>

text \<open>
  The loop of \<open>_comment_depth\<close> from depth \<open>depth\<close>: it stops at a root, at depth 9, or at a parent that
  is missing or deleted.
\<close>

function comment_depth_from :: "nat \<Rightarrow> comment_row \<Rightarrow> db \<Rightarrow> nat result" where
  "comment_depth_from depth current d =
     (case cm_parent_id current of
        None \<Rightarrow> Inr depth
      | Some pid \<Rightarrow>
        if max_reply_depth < Suc depth then Inr (Suc depth)
        else (case select_one (\<lambda>c. cm_id c = pid) (comments d) of
                None \<Rightarrow> Inl (NotFoundError ''Parent comment not found'')
              | Some parent \<Rightarrow>
                if cm_deleted_at parent \<noteq> None then Inl (NotFoundError ''Parent comment not found'')
                else comment_depth_from (Suc depth) parent d))"
  by pat_completeness auto

termination
  by (relation "measure (\<lambda>(depth, _, _). Suc max_reply_depth - depth)") auto

declare comment_depth_from.simps [simp del]

definition comment_depth :: "comment_row \<Rightarrow> db \<Rightarrow> nat result" where
  "comment_depth c d = comment_depth_from 0 c d"

definition validate_parent_comment :: "uuid \<Rightarrow> uuid option \<Rightarrow> db \<Rightarrow> unit result" where
  "validate_parent_comment content_id parent_id d =
     (case parent_id of
        None \<Rightarrow> Inr ()
      | Some pid \<Rightarrow>
        (case get_comment_or_404 pid d of
           Inl e \<Rightarrow> Inl e
         | Inr parent \<Rightarrow>
           if cm_content_id parent \<noteq> content_id
           then Inl (HTTPException 400 ''Parent comment belongs to a different movie'')
           else (case comment_depth parent d of
                   Inl e \<Rightarrow> Inl e
                 | Inr depth \<Rightarrow> if max_reply_depth \<le> depth then Inl (HTTPException 400 ''Maximum reply depth reached'')
                                else Inr ())))"

text \<open>The schema bounds the length of the body before it is stripped.\<close>

definition valid_comment_body :: "string \<Rightarrow> bool" where
  "valid_comment_body body \<longleftrightarrow> 1 \<le> length body \<and> length body \<le> 2000"

definition create_comment ::
    "datetime \<Rightarrow> uuid \<Rightarrow> user_row \<Rightarrow> uuid \<Rightarrow> uuid option \<Rightarrow> string \<Rightarrow> db \<Rightarrow> (comment_read \<times> db) result" where
  "create_comment now fresh user content_id parent_id body d =
     (case ensure_commentable_movie content_id False d of
        Inl e \<Rightarrow> Inl e
      | Inr _ \<Rightarrow>
        (case validate_parent_comment content_id parent_id d of
           Inl e \<Rightarrow> Inl e
         | Inr _ \<Rightarrow>
           (let c = \<lparr>cm_id = fresh, cm_content_id = content_id, cm_user_id = user_id user, cm_parent_id = parent_id,
                     cm_body = strip body, cm_created_at = now, cm_updated_at = now, cm_deleted_at = None\<rparr>
            in Inr (to_comment_read c (Some user) 0 None False, d\<lparr>comments := comments d @ [c]\<rparr>))))"

definition update_comment :: "uuid \<Rightarrow> (comment_row \<Rightarrow> comment_row) \<Rightarrow> db \<Rightarrow> db" where
  "update_comment cid f d = d\<lparr>comments := update_where (\<lambda>c. cm_id c = cid) f (comments d)\<rparr>"

definition update_admin_comment :: "datetime \<Rightarrow> uuid \<Rightarrow> string \<Rightarrow> db \<Rightarrow> (comment_read \<times> db) result" where
  "update_admin_comment now cid body d =
     (case get_comment_or_404 cid d of
        Inl e \<Rightarrow> Inl e
      | Inr c \<Rightarrow>
        (case ensure_commentable_movie (cm_content_id c) True d of
           Inl e \<Rightarrow> Inl e
         | Inr _ \<Rightarrow>
           (let f = (\<lambda>c. c\<lparr>cm_body := strip body, cm_updated_at := now\<rparr>);
                author = select_one (\<lambda>u. user_id u = cm_user_id c) (users d)
            in Inr (to_comment_read (f c) author 0 None False, update_comment cid f d))))"

definition delete_admin_comment :: "datetime \<Rightarrow> uuid \<Rightarrow> db \<Rightarrow> db result" where
  "delete_admin_comment now cid d =
     (case get_comment_or_404 cid d of
        Inl e \<Rightarrow> Inl e
      | Inr _ \<Rightarrow> Inr (update_comment cid (\<lambda>c. c\<lparr>cm_deleted_at := Some now\<rparr>) d))"

section \<open>Votes, reports, blocks\<close>

definition vote_by :: "uuid \<Rightarrow> uuid \<Rightarrow> vote_row \<Rightarrow> bool" where
  "vote_by uid cid v \<longleftrightarrow> vote_user_id v = uid \<and> vote_comment_id v = cid"

definition comment_score :: "uuid \<Rightarrow> db \<Rightarrow> int" where
  "comment_score cid d = sum_list (map vote_value (filter (\<lambda>v. vote_comment_id v = cid) (comment_votes d)))"

definition set_comment_vote :: "uuid \<Rightarrow> uuid \<Rightarrow> int \<Rightarrow> db \<Rightarrow> (int \<times> int option \<times> db) result" where
  "set_comment_vote cid uid value d =
     (if value \<notin> {-1, 0, 1} then Inl (HTTPException 422 ''Invalid vote'')
      else
       (let existing = exists_row (vote_by uid cid) (comment_votes d);
            votes = (if value = 0 then (if existing then delete_where (vote_by uid cid) (comment_votes d) else comment_votes d)
                     else if existing then update_where (vote_by uid cid) (\<lambda>v. v\<lparr>vote_value := value\<rparr>) (comment_votes d)
                     else comment_votes d @ [\<lparr>vote_user_id = uid, vote_comment_id = cid, vote_value = value\<rparr>]);
            d' = d\<lparr>comment_votes := votes\<rparr>
        in Inr (comment_score cid d', if value \<noteq> 0 then Some value else None, d')))"

definition vote_comment :: "uuid \<Rightarrow> uuid \<Rightarrow> int \<Rightarrow> db \<Rightarrow> (comment_read \<times> db) result" where
  "vote_comment cid uid value d =
     (if value \<notin> {-1, 0, 1} then Inl (HTTPException 422 ''Vote must be 1, -1, or 0'')
      else (case get_comment_or_404 cid d of
              Inl e \<Rightarrow> Inl e
            | Inr c \<Rightarrow>
              (case ensure_commentable_movie (cm_content_id c) False d of
                 Inl e \<Rightarrow> Inl e
               | Inr _ \<Rightarrow>
                 (case set_comment_vote cid uid value d of
                    Inl e \<Rightarrow> Inl e
                  | Inr (score, user_vote, d') \<Rightarrow>
                      Inr (to_comment_read c (select_one (\<lambda>u. user_id u = cm_user_id c) (users d')) score user_vote False,
                           d')))))"

definition report_comment :: "uuid \<Rightarrow> uuid \<Rightarrow> uuid \<Rightarrow> db \<Rightarrow> db result" where
  "report_comment fresh cid uid d =
     (case get_comment_or_404 cid d of
        Inl e \<Rightarrow> Inl e
      | Inr c \<Rightarrow>
        (case ensure_commentable_movie (cm_content_id c) False d of
           Inl e \<Rightarrow> Inl e
         | Inr _ \<Rightarrow>
           if exists_row (\<lambda>r. rep_user_id r = uid \<and> rep_comment_id r = cid) (comment_reports d)
           then Inl (ConflictError ''Comment already reported'')
           else Inr (d\<lparr>comment_reports := comment_reports d @
                  [\<lparr>rep_id = fresh, rep_user_id = uid, rep_comment_id = cid\<rparr>]\<rparr>)))"

text \<open>\<open>INSERT ... ON CONFLICT DO NOTHING\<close>.\<close>

definition block_user :: "uuid \<Rightarrow> uuid \<Rightarrow> db \<Rightarrow> db result" where
  "block_user blocker blocked d =
     (if blocker = blocked then Inl (ForbiddenError ''You cannot block yourself'')
      else if exists_row (\<lambda>b. blk_blocker_id b = blocker \<and> blk_blocked_id b = blocked) (user_blocks d) then Inr d
      else Inr (d\<lparr>user_blocks := user_blocks d @ [\<lparr>blk_blocker_id = blocker, blk_blocked_id = blocked\<rparr>]\<rparr>))"

definition block_comment_author :: "uuid \<Rightarrow> uuid \<Rightarrow> db \<Rightarrow> db result" where
  "block_comment_author cid uid d =
     (case get_comment_or_404 cid d of Inl e \<Rightarrow> Inl e | Inr c \<Rightarrow> block_user uid (cm_user_id c) d)"

definition blocked_author_ids :: "uuid \<Rightarrow> db \<Rightarrow> uuid set" where
  "blocked_author_ids uid d = set (map blk_blocked_id (filter (\<lambda>b. blk_blocker_id b = uid) (user_blocks d)))"

section \<open>Threads\<close>

definition visible_comment :: "uuid set \<Rightarrow> comment_row \<Rightarrow> bool" where
  "visible_comment hidden c \<longleftrightarrow> cm_deleted_at c = None \<and> cm_user_id c \<notin> hidden"

text \<open>One round of the breadth-first walk: \<open>all_ids\<close> and the frontier.\<close>

definition reply_ids :: "uuid set \<Rightarrow> uuid list \<Rightarrow> db \<Rightarrow> uuid list" where
  "reply_ids hidden frontier d =
     map cm_id (filter (\<lambda>c. (case cm_parent_id c of None \<Rightarrow> False | Some p \<Rightarrow> p \<in> set frontier) \<and>
       visible_comment hidden c) (comments d))"

definition walk_round :: "uuid set \<Rightarrow> db \<Rightarrow> uuid set \<times> uuid list \<Rightarrow> uuid set \<times> uuid list" where
  "walk_round hidden d s =
     (case s of (all_ids, frontier) \<Rightarrow>
        (let next_ids = filter (\<lambda>x. x \<notin> all_ids) (reply_ids hidden frontier d)
         in (all_ids \<union> set next_ids, next_ids)))"

definition thread_ids :: "uuid set \<Rightarrow> uuid list \<Rightarrow> db \<Rightarrow> (uuid set \<times> uuid list) option" where
  "thread_ids hidden root_ids d =
     while_option (\<lambda>(_, frontier). frontier \<noteq> []) (walk_round hidden d) (set root_ids, root_ids)"

text \<open>\<open>None\<close> stands for a walk that does not end.\<close>

definition fetch_thread_rows_for_roots :: "uuid set \<Rightarrow> uuid list \<Rightarrow> db \<Rightarrow> (comment_row \<times> user_row) list option" where
  "fetch_thread_rows_for_roots hidden root_ids d =
     (if root_ids = [] then Some []
      else (case thread_ids hidden root_ids d of
              None \<Rightarrow> None
            | Some (all_ids, _) \<Rightarrow>
                Some (concat (map (\<lambda>c. map (Pair c) (filter (\<lambda>u. user_id u = cm_user_id c) (users d)))
                  (filter (\<lambda>c. cm_id c \<in> all_ids \<and> visible_comment hidden c) (comments d))))))"

datatype thread = Thread (root: comment_read) (replies: "thread list")

text \<open>
  The node of a comment with the nodes of its replies linked under it, oldest first, to a given depth.
  \<open>read\<close> is \<open>to_comment_read\<close> with the maps of scores, votes and reports.
\<close>

fun thread_node :: "nat \<Rightarrow> (comment_row \<times> user_row \<Rightarrow> comment_read) \<Rightarrow> (comment_row \<times> user_row) list \<Rightarrow>
    comment_row \<times> user_row \<Rightarrow> thread" where
  "thread_node 0 read rows r = Thread (read r) []"
| "thread_node (Suc n) read rows r = Thread (read r)
     (map (thread_node n read rows)
       (order_by (\<lambda>x. cm_created_at (fst x)) (filter (\<lambda>x. cm_parent_id (fst x) = Some (cm_id (fst r))) rows)))"

definition build_comment_threads ::
    "(comment_row \<times> user_row \<Rightarrow> comment_read) \<Rightarrow> (comment_row \<times> user_row) list \<Rightarrow> uuid list \<Rightarrow> thread list" where
  "build_comment_threads read rows root_ids =
     concat (map (\<lambda>rid. case select_one (\<lambda>x. cm_id (fst x) = rid) rows of
         None \<Rightarrow> [] | Some r \<Rightarrow> [thread_node max_reply_depth read rows r]) root_ids)"

definition read_with_votes :: "uuid option \<Rightarrow> db \<Rightarrow> comment_row \<times> user_row \<Rightarrow> comment_read" where
  "read_with_votes viewer d r =
     (case r of (c, u) \<Rightarrow>
        to_comment_read c (Some u) (comment_score (cm_id c) d)
          (case viewer of None \<Rightarrow> None
           | Some uid \<Rightarrow> map_option vote_value (select_one (vote_by uid (cm_id c)) (comment_votes d)))
          (case viewer of None \<Rightarrow> False
           | Some uid \<Rightarrow> exists_row (\<lambda>p. rep_user_id p = uid \<and> rep_comment_id p = cm_id c) (comment_reports d)))"

definition root_comment_ids :: "uuid set \<Rightarrow> uuid \<Rightarrow> db \<Rightarrow> uuid list" where
  "root_comment_ids hidden content_id d =
     map cm_id (order_by (\<lambda>c. - cm_created_at c)
       (filter (\<lambda>c. cm_content_id c = content_id \<and> cm_parent_id c = None \<and> visible_comment hidden c) (comments d)))"

definition list_comment_threads :: "uuid \<Rightarrow> uuid option \<Rightarrow> nat \<Rightarrow> nat \<Rightarrow> db \<Rightarrow> (thread list \<times> nat) option" where
  "list_comment_threads content_id viewer page page_size d =
     (let hidden = (case viewer of None \<Rightarrow> {} | Some uid \<Rightarrow> blocked_author_ids uid d)
      in case paginate_query page page_size (root_comment_ids hidden content_id d) of
           (root_ids, found) \<Rightarrow>
             (case fetch_thread_rows_for_roots hidden root_ids d of
                None \<Rightarrow> None
              | Some rows \<Rightarrow> Some (build_comment_threads (read_with_votes viewer d) rows root_ids, found)))"

definition list_admin_comments :: "uuid \<Rightarrow> nat \<Rightarrow> nat \<Rightarrow> db \<Rightarrow> comment_read page result" where
  "list_admin_comments content_id page page_size d =
     (case ensure_commentable_movie content_id True d of
        Inl e \<Rightarrow> Inl e
      | Inr _ \<Rightarrow>
        (case paginate_query page page_size
                (order_by (\<lambda>r. - cm_created_at (fst r))
                  (concat (map (\<lambda>c. map (Pair c) (filter (\<lambda>u. user_id u = cm_user_id c) (users d)))
                    (filter (\<lambda>c. cm_content_id c = content_id \<and> cm_deleted_at c = None) (comments d))))) of
           (rows, found) \<Rightarrow> Inr (build_paginated_response
               (map (\<lambda>(c, u). to_comment_read c (Some u) 0 None False) rows) found page page_size)))"

definition list_comments :: "uuid \<Rightarrow> user_row option \<Rightarrow> nat \<Rightarrow> nat \<Rightarrow> db \<Rightarrow> thread page result option" where
  "list_comments content_id user page page_size d =
     (case ensure_commentable_movie content_id False d of
        Inl e \<Rightarrow> Some (Inl e)
      | Inr _ \<Rightarrow> map_option (\<lambda>(items, found). Inr (build_paginated_response items found page page_size))
                   (list_comment_threads content_id (map_option user_id user) page page_size d))"

section \<open>The shape of the comments\<close>

text \<open>How deep a comment is below a root of the same movie.\<close>

inductive at_depth :: "comment_row list \<Rightarrow> nat \<Rightarrow> comment_row \<Rightarrow> bool" for rows where
  top: "cm_parent_id c = None \<Longrightarrow> at_depth rows 0 c"
| reply: "p \<in> set rows \<Longrightarrow> at_depth rows n p \<Longrightarrow> cm_parent_id c = Some (cm_id p) \<Longrightarrow>
    cm_content_id c = cm_content_id p \<Longrightarrow> at_depth rows (Suc n) c"

inductive_cases at_depth_cases: "at_depth rows n c"
inductive_simps at_depth_0: "at_depth rows 0 c"
inductive_simps at_depth_Suc: "at_depth rows (Suc n) c"

definition comments_ok :: "db \<Rightarrow> bool" where
  "comments_ok d \<longleftrightarrow> distinct (map cm_id (comments d)) \<and>
     (\<forall>c \<in> set (comments d). \<exists>n \<le> max_reply_depth. at_depth (comments d) n c)"

inductive comment_step :: "db \<Rightarrow> db \<Rightarrow> bool" where
  post: "create_comment now fresh user cid pid body d = Inr (r, d') \<Longrightarrow> fresh \<notin> cm_id ` set (comments d) \<Longrightarrow>
    comment_step d d'"
| edit: "update_admin_comment now cid body d = Inr (r, d') \<Longrightarrow> comment_step d d'"
| hide: "delete_admin_comment now cid d = Inr d' \<Longrightarrow> comment_step d d'"
| vote: "vote_comment cid uid v d = Inr (r, d') \<Longrightarrow> comment_step d d'"
| report: "report_comment fresh cid uid d = Inr d' \<Longrightarrow> comment_step d d'"
| block: "block_comment_author cid uid d = Inr d' \<Longrightarrow> comment_step d d'"
| title_removed: "delete_content cid d = Inr d' \<Longrightarrow> comment_step d d'"

lemma at_depth_mono: "at_depth rows n c \<Longrightarrow> set rows \<subseteq> set rows' \<Longrightarrow> at_depth rows' n c"
  by (induction rule: at_depth.induct) (auto intro: at_depth.intros)

lemma at_depth_map:
  assumes "at_depth rows n c"
    and "\<And>x. cm_id (f x) = cm_id x \<and> cm_parent_id (f x) = cm_parent_id x \<and> cm_content_id (f x) = cm_content_id x"
  shows "at_depth (map f rows) n (f c)"
  using assms(1)
proof (induction rule: at_depth.induct)
  case (top c)
  then show ?case using assms(2) by (auto intro: at_depth.top)
next
  case (reply p n c)
  show ?case by (rule at_depth.reply [where p = "f p"]) (use reply assms(2) in auto)
qed

lemma at_depth_unique: "at_depth rows n c \<Longrightarrow> at_depth rows m c \<Longrightarrow> distinct (map cm_id rows) \<Longrightarrow> n = m"
proof (induction arbitrary: m rule: at_depth.induct)
  case (top c)
  then show ?case by (auto elim: at_depth_cases)
next
  case (reply p n c)
  obtain q k where q: "m = Suc k" "q \<in> set rows" "at_depth rows k q" "cm_parent_id c = Some (cm_id q)"
    using reply.prems(1) reply.hyps(3) by (cases m) (auto simp: at_depth_0 at_depth_Suc)
  then have "q = p" using reply.hyps(1,3) reply.prems(2) by (metis distinct_map inj_onD option.inject)
  then show ?case using q reply.IH reply.prems(2) by blast
qed

lemma comment_depth_at:
  assumes "at_depth (comments d) n c" and "distinct (map cm_id (comments d))"
    and "comment_depth_from k c d = Inr m" and "m \<le> max_reply_depth"
  shows "m = k + n"
  using assms
proof (induction arbitrary: k rule: at_depth.induct)
  case (top c)
  then show ?case by (simp add: comment_depth_from.simps)
next
  case (reply p n c)
  have "select_one (\<lambda>x. cm_id x = cm_id p) (comments d) = Some p"
    using select_one_key reply.hyps(1) reply.prems(1) by fastforce
  then have "comment_depth_from (Suc k) p d = Inr m"
    using reply.prems(2,3) reply.hyps(3)
    by (subst (asm) comment_depth_from.simps) (auto split: if_splits)
  from reply.IH [OF reply.prems(1) this reply.prems(3)] show ?case by simp
qed

lemma get_comment_ok: "get_comment_or_404 cid d = Inr c \<Longrightarrow> c \<in> set (comments d) \<and> cm_id c = cid \<and> cm_deleted_at c = None"
  by (auto simp: get_comment_or_404_def dest: select_one_Some split: option.splits if_splits)

lemma comments_ok_map:
  assumes ok: "comments_ok d" and t: "comments d' = map f (comments d)"
    and f: "\<And>x. cm_id (f x) = cm_id x \<and> cm_parent_id (f x) = cm_parent_id x \<and> cm_content_id (f x) = cm_content_id x"
  shows "comments_ok d'"
proof -
  have ids: "map cm_id (comments d') = map cm_id (comments d)" by (simp add: t f)
  have "\<exists>n \<le> max_reply_depth. at_depth (map f (comments d)) n (f c)" if "c \<in> set (comments d)" for c
    using ok that at_depth_map f unfolding comments_ok_def by blast
  then show ?thesis using ok unfolding comments_ok_def ids by (auto simp: t)
qed

lemma comments_ok_update:
  assumes "comments_ok d"
    and "\<And>x. cm_id (f x) = cm_id x \<and> cm_parent_id (f x) = cm_parent_id x \<and> cm_content_id (f x) = cm_content_id x"
  shows "comments_ok (update_comment cid f d)"
  by (rule comments_ok_map [OF assms(1), where f = "\<lambda>c. if cm_id c = cid then f c else c"])
    (simp_all add: update_comment_def update_where_def assms(2))

lemma comments_ok_same: "comments_ok d \<Longrightarrow> comments d' = comments d \<Longrightarrow> comments_ok d'"
  by (simp add: comments_ok_def)

lemma comments_post:
  assumes ok: "comments_ok d" and p: "create_comment now fresh user cid pid body d = Inr (r, d')"
    and fresh: "fresh \<notin> cm_id ` set (comments d)"
  shows "comments_ok d'"
proof -
  define c where "c = \<lparr>cm_id = fresh, cm_content_id = cid, cm_user_id = user_id user, cm_parent_id = pid,
      cm_body = strip body, cm_created_at = now, cm_updated_at = now, cm_deleted_at = None\<rparr>"
  have d': "comments d' = comments d @ [c]" and v: "validate_parent_comment cid pid d = Inr ()"
    using p by (auto simp: create_comment_def c_def Let_def split: sum.splits)
  have "\<exists>n \<le> max_reply_depth. at_depth (comments d) n c"
  proof (cases pid)
    case None
    then have "at_depth (comments d) 0 c" by (simp add: c_def at_depth_0)
    then show ?thesis by blast
  next
    case (Some x)
    then obtain parent k where parent: "get_comment_or_404 x d = Inr parent" "cm_content_id parent = cid"
      "comment_depth_from 0 parent d = Inr k" "k < max_reply_depth"
      using v by (auto simp: validate_parent_comment_def comment_depth_def split: sum.splits if_splits)
    note pr = get_comment_ok [OF parent(1)]
    obtain n where n: "at_depth (comments d) n parent" using ok pr unfolding comments_ok_def by blast
    then have "k = n" using comment_depth_at [OF n _ parent(3)] parent(4) ok by (simp add: comments_ok_def)
    moreover have "at_depth (comments d) (Suc n) c"
      by (rule at_depth.reply [of parent]) (use pr n parent Some in \<open>simp_all add: c_def\<close>)
    ultimately show ?thesis using parent(4) by (intro exI [of _ "Suc n"]) simp
  qed
  moreover have "set (comments d) \<subseteq> set (comments d')" by (auto simp: d')
  ultimately have "\<forall>y \<in> set (comments d'). \<exists>n \<le> max_reply_depth. at_depth (comments d') n y"
    using ok at_depth_mono unfolding comments_ok_def d' by fastforce
  then show ?thesis using ok fresh unfolding comments_ok_def d' by (simp add: c_def)
qed

text \<open>The replies of a movie's comments are comments of that movie, so the cascade takes nothing else.\<close>

lemma comments_title_removed:
  assumes ok: "comments_ok d" and del: "delete_content cid d = Inr d'"
  shows "comments_ok d'"
proof -
  define ids where "ids = map cm_id (filter (\<lambda>c. cm_content_id c = cid) (comments d))"
  have closed: "cm_id c \<in> set ids" if "c \<in> set (comments d)" "cm_parent_id c = Some x" "x \<in> set ids" for c x
  proof -
    note ks = that
    obtain n where "at_depth (comments d) n c" using ok ks(1) unfolding comments_ok_def by blast
    then obtain p where p: "p \<in> set (comments d)" "cm_id p = x" "cm_content_id c = cm_content_id p"
      using ks(2) by (auto elim: at_depth_cases)
    obtain q where q: "q \<in> set (comments d)" "cm_id q = x" "cm_content_id q = cid"
      using ks(3) by (auto simp: ids_def)
    have "inj_on cm_id (set (comments d))" using ok by (simp add: comments_ok_def distinct_map)
    then have "p = q" using p(1,2) q(1,2) by (metis inj_onD)
    then have "cm_content_id c = cid" using p(3) q(3) by simp
    then show ?thesis using ks(1) by (auto simp: ids_def)
  qed
  have step: "set (doomed_step (comments d) xs) \<subseteq> set ids" if "set xs \<subseteq> set ids" for xs
    using closed that by (fastforce simp: doomed_step_def)
  have "set ((doomed_step (comments d) ^^ n) ids) \<subseteq> set ids" for n
    by (induction n) (use step in auto)
  then have doomed: "set ((doomed_step (comments d) ^^ n) ids) = set ids" for n
    using doomed_sub by fastforce
  have d': "comments d' = filter (\<lambda>c. cm_content_id c \<noteq> cid) (comments d)"
  proof -
    have "comments d' = delete_where (\<lambda>c. cm_id c \<in> set ids) (comments d)"
      using doomed [of "length (comments d)"]
      by (simp add: delete_content_removed [OF del] title_removed_def Let_def delete_comments_cascade_def doomed_comments_def
          ids_def)
    moreover have "cm_id c \<in> set ids \<longleftrightarrow> cm_content_id c = cid" if "c \<in> set (comments d)" for c
      using that ok unfolding ids_def comments_ok_def by (auto simp: distinct_map dest: inj_onD)
    ultimately show ?thesis by (auto simp: delete_where_def intro: filter_cong)
  qed
  have keep: "at_depth (comments d') n c" if "at_depth (comments d) n c" "cm_content_id c \<noteq> cid" for n c
    using that
  proof (induction rule: at_depth.induct)
    case (reply p n c)
    show ?case by (rule at_depth.reply [of p]) (use reply in \<open>simp_all add: d'\<close>)
  qed (rule at_depth.top)
  have "\<exists>n \<le> max_reply_depth. at_depth (comments d') n c" if "c \<in> set (comments d')" for c
  proof -
    have "c \<in> set (comments d)" "cm_content_id c \<noteq> cid" using that by (simp_all add: d')
    then show ?thesis using ok keep unfolding comments_ok_def by blast
  qed
  then show ?thesis using ok unfolding comments_ok_def by (simp add: d' distinct_map_filter)
qed

lemma comment_step_ok: "comment_step d d' \<Longrightarrow> comments_ok d \<Longrightarrow> comments_ok d'"
proof (induction rule: comment_step.induct)
  case (post now fresh user cid pid body d r d')
  then show ?case using comments_post by blast
next
  case (edit now cid body d r d')
  then show ?case by (auto simp: update_admin_comment_def Let_def split: sum.splits intro!: comments_ok_update)
next
  case (hide now cid d d')
  then show ?case by (auto simp: delete_admin_comment_def split: sum.splits intro!: comments_ok_update)
next
  case (vote cid uid v d r d')
  then show ?case by (auto simp: vote_comment_def set_comment_vote_def Let_def split: sum.splits if_splits prod.splits
      elim!: comments_ok_same)
next
  case (report fresh cid uid d d')
  then show ?case by (auto simp: report_comment_def split: sum.splits if_splits elim!: comments_ok_same)
next
  case (block cid uid d d')
  then show ?case by (auto simp: block_comment_author_def block_user_def split: sum.splits if_splits elim!: comments_ok_same)
next
  case (title_removed cid d d')
  then show ?case using comments_title_removed by blast
qed

text \<open>
  C30: Whatever comments are posted, edited, hidden, voted on and reported, whichever authors are
  blocked and titles removed, the comments of the database are a forest: ids are unique, and from
  every comment the parent links lead, through comments of the same movie, to a top-level comment in
  at most eight steps. In particular no chain of replies is circular.
\<close>

theorem comments_form_forest:
  assumes "comment_step\<^sup>*\<^sup>* d d'" and "comments_ok d"
  shows "distinct (map cm_id (comments d')) \<and>
    (\<forall>c \<in> set (comments d'). \<exists>n \<le> 8. at_depth (comments d') n c)"
proof -
  have "comments_ok d'" using assms by (induction rule: rtranclp_induct) (simp_all add: comment_step_ok)
  then show ?thesis by (simp add: comments_ok_def max_reply_depth_def)
qed

definition talk_db :: db where
  "talk_db = empty_db\<lparr>contents := [default_content\<lparr>ct_id := 1, ct_status := ''published''\<rparr>],
     users := [default_user\<lparr>user_id := 2, user_email := ''a@b''\<rparr>],
     comments := [\<lparr>cm_id = 4, cm_content_id = 1, cm_user_id = 2, cm_parent_id = None, cm_body = ''x'',
       cm_created_at = 0, cm_updated_at = 0, cm_deleted_at = None\<rparr>]\<rparr>"

theorem comments_form_forest_witness:
  "\<exists>r d. create_comment 9 5 default_user 1 (Some 4) ''hi'' talk_db = Inr (r, d) \<and> length (comments d) = 2 \<and>
     (\<forall>c \<in> set (comments d). \<exists>n \<le> 8. at_depth (comments d) n c)"
proof -
  have "case create_comment 9 5 default_user 1 (Some 4) ''hi'' talk_db of Inl _ \<Rightarrow> False
      | Inr (r, d) \<Rightarrow> length (comments d) = 2"
    by code_simp
  then obtain r d where c: "create_comment 9 5 default_user 1 (Some 4) ''hi'' talk_db = Inr (r, d)" "length (comments d) = 2"
    by (auto split: sum.splits)
  have "comments_ok talk_db" by (auto simp: talk_db_def comments_ok_def at_depth_0)
  moreover have "comment_step talk_db d" by (rule comment_step.post [OF c(1)]) (simp add: talk_db_def)
  ultimately have "\<forall>c \<in> set (comments d). \<exists>n \<le> 8. at_depth (comments d) n c"
    using comments_form_forest by blast
  then show ?thesis using c by blast
qed

section \<open>Votes refine a map\<close>

text \<open>The abstract vote table: what each user gave each comment, 0 for no vote.\<close>

definition vote_map :: "db \<Rightarrow> uuid \<Rightarrow> uuid \<Rightarrow> int" where
  "vote_map d u c = (case select_one (vote_by u c) (comment_votes d) of None \<Rightarrow> 0 | Some v \<Rightarrow> vote_value v)"

definition votes_ok :: "db \<Rightarrow> bool" where
  "votes_ok d \<longleftrightarrow> distinct (map (\<lambda>v. (vote_user_id v, vote_comment_id v)) (comment_votes d)) \<and>
     (\<forall>v \<in> set (comment_votes d). vote_value v \<in> {-1, 1})"

definition put_vote :: "uuid \<Rightarrow> uuid \<Rightarrow> int \<Rightarrow> vote_row list \<Rightarrow> vote_row list" where
  "put_vote uid cid x vs =
     (if x = 0 then delete_where (vote_by uid cid) vs
      else if exists_row (vote_by uid cid) vs then update_where (vote_by uid cid) (\<lambda>v. v\<lparr>vote_value := x\<rparr>) vs
      else vs @ [\<lparr>vote_user_id = uid, vote_comment_id = cid, vote_value = x\<rparr>])"

lemma set_vote_put:
  assumes "x \<in> {-1, 0, 1}"
  shows "set_comment_vote cid uid x d =
    Inr (comment_score cid (d\<lparr>comment_votes := put_vote uid cid x (comment_votes d)\<rparr>),
         if x \<noteq> 0 then Some x else None, d\<lparr>comment_votes := put_vote uid cid x (comment_votes d)\<rparr>)"
proof -
  have "\<not> exists_row (vote_by uid cid) vs \<Longrightarrow> delete_where (vote_by uid cid) vs = vs" for vs
    by (induction vs) auto
  then show ?thesis using assms by (auto simp: set_comment_vote_def put_vote_def Let_def)
qed

lemma select_put_vote:
  "select_one (vote_by u c) (put_vote uid cid x vs) =
     (if u = uid \<and> c = cid then (if x = 0 then None else Some \<lparr>vote_user_id = uid, vote_comment_id = cid, vote_value = x\<rparr>)
      else select_one (vote_by u c) vs)"
proof -
  have same: "vote_by u c v \<Longrightarrow> vote_by uid cid v \<Longrightarrow> u = uid \<and> c = cid" for v by (auto simp: vote_by_def)
  have del: "select_one (vote_by u c) (delete_where (vote_by uid cid) vs) =
      (if u = uid \<and> c = cid then None else select_one (vote_by u c) vs)"
  proof (induction vs)
    case (Cons v vs)
    then show ?case using same [of v] by (cases "u = uid \<and> c = cid") auto
  qed simp
  let ?f = "\<lambda>v. v\<lparr>vote_value := x\<rparr>"
  have "select_one (vote_by u c) (update_where (vote_by uid cid) ?f vs) =
      map_option (\<lambda>v. if vote_by uid cid v then ?f v else v) (select_one (vote_by u c) vs)"
    by (rule select_one_update_keep) (simp add: vote_by_def)
  moreover have "map_option (\<lambda>v. if vote_by uid cid v then ?f v else v) (select_one (vote_by u c) vs) =
      select_one (vote_by u c) vs" if "\<not> (u = uid \<and> c = cid)"
    using that same select_one_Some by (cases "select_one (vote_by u c) vs") fastforce+
  moreover have "v\<lparr>vote_value := x\<rparr> = \<lparr>vote_user_id = uid, vote_comment_id = cid, vote_value = x\<rparr>" if "vote_by uid cid v" for v
    using that by (simp add: vote_by_def)
  ultimately show ?thesis using del
    by (auto simp: put_vote_def select_one_append exists_row_def vote_by_def [of _ _ "\<lparr>vote_user_id = _, vote_comment_id = _, vote_value = _\<rparr>"]
        dest: select_one_Some split: option.splits)
qed

lemma put_vote_ok:
  assumes "distinct (map (\<lambda>v. (vote_user_id v, vote_comment_id v)) vs)"
  shows "distinct (map (\<lambda>v. (vote_user_id v, vote_comment_id v)) (put_vote uid cid x vs))"
proof -
  have "map (\<lambda>v. (vote_user_id v, vote_comment_id v)) (update_where (vote_by uid cid) (\<lambda>v. v\<lparr>vote_value := x\<rparr>) vs) =
      map (\<lambda>v. (vote_user_id v, vote_comment_id v)) vs"
    by (rule map_update_where) simp
  then show ?thesis using assms
    by (auto simp: put_vote_def distinct_map_delete exists_row_iff vote_by_def)
qed

lemma score_sum:
  assumes "votes_ok d"
  shows "comment_score c d = (\<Sum>u | vote_map d u c \<noteq> 0. vote_map d u c)"
proof -
  define vs where "vs = filter (\<lambda>v. vote_comment_id v = c) (comment_votes d)"
  have mem: "select_one (vote_by (vote_user_id v) c) (comment_votes d) = Some v" if "v \<in> set vs" for v
  proof -
    have "v \<in> set (comment_votes d)" "vote_comment_id v = c" using that by (auto simp: vs_def)
    moreover have "vote_by (vote_user_id v) c = (\<lambda>x. (vote_user_id x, vote_comment_id x) = (vote_user_id v, vote_comment_id v))"
      using calculation(2) by (simp add: vote_by_def fun_eq_iff)
    ultimately show ?thesis
      using select_one_key [of "\<lambda>x. (vote_user_id x, vote_comment_id x)" "comment_votes d" v] assms
      by (simp only: votes_ok_def)
  qed
  have inj: "distinct (map vote_user_id vs)"
  proof -
    have "distinct (map (\<lambda>v. (vote_user_id v, vote_comment_id v)) vs)"
      using assms distinct_map_filter unfolding votes_ok_def vs_def by blast
    moreover have "\<forall>v \<in> set vs. vote_comment_id v = c" by (simp add: vs_def)
    ultimately show ?thesis by (simp add: distinct_map inj_on_def)
  qed
  have users: "set (map vote_user_id vs) = {u. vote_map d u c \<noteq> 0}"
  proof
    show "set (map vote_user_id vs) \<subseteq> {u. vote_map d u c \<noteq> 0}"
      using mem assms by (fastforce simp: vote_map_def vs_def votes_ok_def)
    show "{u. vote_map d u c \<noteq> 0} \<subseteq> set (map vote_user_id vs)"
      by (auto simp: vote_map_def vs_def vote_by_def dest!: select_one_Some split: option.splits)
  qed
  have "comment_score c d = sum_list (map (\<lambda>u. vote_map d u c) (map vote_user_id vs))"
  proof -
    have "vote_value v = vote_map d (vote_user_id v) c" if "v \<in> set vs" for v
      using mem [OF that] by (simp only: vote_map_def option.case)
    then have "map vote_value vs = map (\<lambda>u. vote_map d u c) (map vote_user_id vs)" by simp
    then show ?thesis by (simp only: comment_score_def vs_def [symmetric])
  qed
  also have "\<dots> = sum (\<lambda>u. vote_map d u c) (set (map vote_user_id vs))"
    by (rule sum_list_distinct_conv_sum_set [OF inj])
  finally show ?thesis unfolding users .
qed

text \<open>
  Voting refines a map. Read as the table of what each user gave each comment, the votes of the
  database are changed by a vote in exactly that one place, to the value given, whether it is a first
  vote, a changed one or a withdrawn one; the stored votes stay one per user and comment and never
  hold a zero; the score returned is the sum of the map over the users who voted on the comment; and
  any other value is refused with 422.
\<close>

theorem votes_refine_map:
  assumes "votes_ok d"
  shows "(x \<in> {-1, 0, 1} \<longrightarrow> (\<exists>score mine d'. set_comment_vote c u x d = Inr (score, mine, d') \<and>
      votes_ok d' \<and> vote_map d' = (vote_map d)(u := (vote_map d u)(c := x)) \<and>
      score = (\<Sum>w | vote_map d' w c \<noteq> 0. vote_map d' w c) \<and> mine = (if x = 0 then None else Some x) \<and>
      d' = d\<lparr>comment_votes := comment_votes d'\<rparr>)) \<and>
    (x \<notin> {-1, 0, 1} \<longrightarrow> (\<exists>msg. set_comment_vote c u x d = Inl (HTTPException 422 msg)))"
proof (intro conjI impI)
  assume x: "x \<in> {-1, 0, 1}"
  let ?d = "d\<lparr>comment_votes := put_vote u c x (comment_votes d)\<rparr>"
  have "\<forall>v \<in> set (put_vote u c x (comment_votes d)). vote_value v \<in> {-1, 1}"
    using assms x by (auto simp: votes_ok_def put_vote_def in_update_where split: if_splits)
  then have ok: "votes_ok ?d" using assms put_vote_ok by (simp add: votes_ok_def)
  have "vote_map ?d = (vote_map d)(u := (vote_map d u)(c := x))"
    by (rule ext, rule ext) (simp add: vote_map_def select_put_vote)
  then show "\<exists>score mine d'. set_comment_vote c u x d = Inr (score, mine, d') \<and>
      votes_ok d' \<and> vote_map d' = (vote_map d)(u := (vote_map d u)(c := x)) \<and>
      score = (\<Sum>w | vote_map d' w c \<noteq> 0. vote_map d' w c) \<and> mine = (if x = 0 then None else Some x) \<and>
      d' = d\<lparr>comment_votes := comment_votes d'\<rparr>"
    using set_vote_put [OF x] ok score_sum [OF ok] by (intro exI conjI) (assumption | simp)+
qed (simp add: set_comment_vote_def)

theorem votes_refine_map_witness:
  "\<exists>d'. set_comment_vote 7 2 (-1) (empty_db\<lparr>comment_votes := [\<lparr>vote_user_id = 1, vote_comment_id = 7, vote_value = 1\<rparr>]\<rparr>) =
     Inr (0, Some (-1), d') \<and> vote_map d' 2 7 = -1 \<and> vote_map d' 1 7 = 1"
proof -
  let ?d = "empty_db\<lparr>comment_votes := [\<lparr>vote_user_id = 1, vote_comment_id = 7, vote_value = 1\<rparr>]\<rparr>"
  have ok: "votes_ok ?d" by (simp add: votes_ok_def)
  have "(-1::int) \<in> {-1, 0, 1}" by simp
  from votes_refine_map [OF ok, of "-1" 7 2, THEN conjunct1, THEN mp, OF this]
  obtain score mine d' where r: "set_comment_vote 7 2 (-1) ?d = Inr (score, mine, d')"
    "vote_map d' = (vote_map ?d)(2 := (vote_map ?d 2)(7 := -1))" by blast
  have sm: "score = 0" "mine = Some (-1)"
    using r(1) by (simp_all add: set_comment_vote_def comment_score_def vote_by_def Let_def split: if_splits)
  have m: "vote_map d' 2 7 = -1" "vote_map d' 1 7 = vote_map ?d 1 7" unfolding r(2) by simp_all
  have one: "vote_map ?d 1 7 = 1" by (simp add: vote_map_def vote_by_def)
  show ?thesis
    by (intro exI [of _ d'] conjI) (simp_all only: r(1) sm m one)
qed

section \<open>The walk over the replies\<close>

inductive in_thread :: "uuid set \<Rightarrow> db \<Rightarrow> uuid set \<Rightarrow> uuid \<Rightarrow> bool" for hidden d roots where
  root: "x \<in> roots \<Longrightarrow> in_thread hidden d roots x"
| reply: "in_thread hidden d roots y \<Longrightarrow> c \<in> set (comments d) \<Longrightarrow> visible_comment hidden c \<Longrightarrow>
    cm_parent_id c = Some y \<Longrightarrow> in_thread hidden d roots (cm_id c)"

lemma in_reply_ids: "x \<in> set (reply_ids hidden frontier d) \<longleftrightarrow>
  (\<exists>c \<in> set (comments d). cm_id c = x \<and> visible_comment hidden c \<and> (\<exists>p \<in> set frontier. cm_parent_id c = Some p))"
  by (auto simp: reply_ids_def split: option.splits)

definition walk_ok :: "uuid set \<Rightarrow> db \<Rightarrow> uuid list \<Rightarrow> uuid set \<times> uuid list \<Rightarrow> bool" where
  "walk_ok hidden d roots s \<longleftrightarrow> (case s of (all_ids, frontier) \<Rightarrow>
     set frontier \<subseteq> all_ids \<and> set roots \<subseteq> all_ids \<and> all_ids \<subseteq> Collect (in_thread hidden d (set roots)) \<and>
     (\<forall>y \<in> all_ids - set frontier. \<forall>c \<in> set (comments d). visible_comment hidden c \<longrightarrow> cm_parent_id c = Some y \<longrightarrow>
        cm_id c \<in> all_ids))"

lemma walk_round_ok: "walk_ok hidden d roots s \<Longrightarrow> walk_ok hidden d roots (walk_round hidden d s)"
proof -
  assume ok: "walk_ok hidden d roots s"
  obtain A F where s: "s = (A, F)" by (cases s)
  define N where "N = filter (\<lambda>x. x \<notin> A) (reply_ids hidden F d)"
  have round: "walk_round hidden d s = (A \<union> set N, N)" by (simp add: s walk_round_def N_def Let_def)
  have "set N \<subseteq> Collect (in_thread hidden d (set roots))"
    using ok by (fastforce simp: N_def in_reply_ids walk_ok_def s intro: in_thread.reply)
  moreover have "cm_id c \<in> A \<union> set N" if "y \<in> A \<union> set N - set N" "c \<in> set (comments d)" "visible_comment hidden c"
      "cm_parent_id c = Some y" for y c
  proof (cases "y \<in> set F")
    case True
    then have "cm_id c \<in> set (reply_ids hidden F d)" using that by (auto simp: in_reply_ids)
    then show ?thesis by (auto simp: N_def)
  next
    case False
    then show ?thesis using ok that by (auto simp: walk_ok_def s)
  qed
  ultimately show ?thesis using ok unfolding round by (auto simp: walk_ok_def s)
qed

text \<open>Every round that goes on adds a comment not seen before.\<close>

lemma walk_round_measure:
  assumes "walk_ok hidden d roots s" and "snd s \<noteq> []"
  shows "(let left = (\<lambda>s. 2 * card (cm_id ` set (comments d) - fst s) + (if snd s = [] then 0 else 1))
    in left (walk_round hidden d s) < left s)"
proof -
  obtain A F where s: "s = (A, F)" by (cases s)
  define N where "N = filter (\<lambda>x. x \<notin> A) (reply_ids hidden F d)"
  have round: "walk_round hidden d s = (A \<union> set N, N)" by (simp add: s walk_round_def N_def Let_def)
  let ?I = "cm_id ` set (comments d)"
  show ?thesis
  proof (cases "N = []")
    case True
    then show ?thesis using assms(2) round s by simp
  next
    case False
    then obtain x where "x \<in> set N" by fastforce
    then have "x \<in> ?I - A" by (auto simp: N_def in_reply_ids)
    then have "?I - (A \<union> set N) \<subset> ?I - A" using \<open>x \<in> set N\<close> by blast
    then have "card (?I - (A \<union> set N)) < card (?I - A)" by (rule psubset_card_mono [rotated]) simp
    then show ?thesis using assms(2) False round s by simp
  qed
qed

lemma walk_ends: "\<exists>ids. thread_ids hidden roots d = Some (ids, []) \<and> ids = Collect (in_thread hidden d (set roots))"
proof -
  let ?b = "\<lambda>(_, frontier). frontier \<noteq> []"
  let ?left = "\<lambda>s. 2 * card (cm_id ` set (comments d) - fst s) + (if snd s = [] then 0 else 1)"
  have init: "walk_ok hidden d roots (set roots, roots)" by (auto simp: walk_ok_def intro: in_thread.root)
  have "walk_ok hidden d roots (walk_round hidden d s) \<and> ?left (walk_round hidden d s) < ?left s"
    if "walk_ok hidden d roots s" "?b s" for s
    using that walk_round_ok walk_round_measure [OF that(1)] by (simp add: case_prod_beta Let_def)
  from measure_while_option_Some [where P = "walk_ok hidden d roots" and b = ?b and f = ?left, OF this init]
  obtain ids F where t0: "while_option ?b (walk_round hidden d) (set roots, roots) = Some (ids, F)"
    by (metis surj_pair)
  have "walk_ok hidden d roots (ids, F)"
    by (rule while_option_rule [where P = "walk_ok hidden d roots", OF _ t0 init]) (rule walk_round_ok)
  then have t: "thread_ids hidden roots d = Some (ids, F)" "walk_ok hidden d roots (ids, F)"
    using t0 by (simp_all add: thread_ids_def)
  have "F = []" using while_option_stop [OF t(1) [unfolded thread_ids_def]] by simp
  have "x \<in> ids" if "in_thread hidden d (set roots) x" for x
    using that t(2) \<open>F = []\<close> by induction (auto simp: walk_ok_def)
  then have "ids = Collect (in_thread hidden d (set roots))" using t(2) by (auto simp: walk_ok_def)
  then show ?thesis using t(1) \<open>F = []\<close> by blast
qed

section \<open>The tree of nodes\<close>

fun shown_ids :: "thread \<Rightarrow> uuid list" where
  "shown_ids (Thread r ts) = cr_id r # concat (map shown_ids ts)"

fun well_threaded :: "thread \<Rightarrow> bool" where
  "well_threaded (Thread r ts) \<longleftrightarrow>
     (\<forall>t \<in> set ts. cr_parent_id (root t) = Some (cr_id r) \<and> well_threaded t) \<and>
     sorted (map (\<lambda>t. cr_created_at (root t)) ts)"

inductive below :: "(comment_row \<times> user_row) list \<Rightarrow> uuid \<Rightarrow> uuid \<Rightarrow> bool" for rows x where
  refl: "below rows x x"
| reply: "below rows x y \<Longrightarrow> r \<in> set rows \<Longrightarrow> cm_parent_id (fst r) = Some y \<Longrightarrow> below rows x (cm_id (fst r))"

lemma below_step:
  "below rows x y \<longleftrightarrow> y = x \<or> (\<exists>r \<in> set rows. cm_parent_id (fst r) = Some x \<and> below rows (cm_id (fst r)) y)"
proof
  show "below rows x y \<Longrightarrow> y = x \<or> (\<exists>r \<in> set rows. cm_parent_id (fst r) = Some x \<and> below rows (cm_id (fst r)) y)"
    by (induction rule: below.induct) (auto intro: below.intros)
  have "below rows x y" if "below rows (cm_id (fst r)) y" "r \<in> set rows" "cm_parent_id (fst r) = Some x" for r
    using that(1) by induction (use that below.intros in metis)+
  then show "y = x \<or> (\<exists>r \<in> set rows. cm_parent_id (fst r) = Some x \<and> below rows (cm_id (fst r)) y) \<Longrightarrow> below rows x y"
    by (auto intro: below.refl)
qed

text \<open>Rows of a query over a well-formed table: comments of the table, no id twice.\<close>

definition rows_ok :: "db \<Rightarrow> (comment_row \<times> user_row) list \<Rightarrow> bool" where
  "rows_ok d rows \<longleftrightarrow> comments_ok d \<and> fst ` set rows \<subseteq> set (comments d) \<and> distinct (map (cm_id \<circ> fst) rows)"

definition level :: "db \<Rightarrow> uuid \<Rightarrow> nat \<Rightarrow> bool" where
  "level d x n \<longleftrightarrow> (\<exists>c \<in> set (comments d). cm_id c = x \<and> at_depth (comments d) n c)"

lemma level_unique: "comments_ok d \<Longrightarrow> level d x n \<Longrightarrow> level d x m \<Longrightarrow> n = m"
  unfolding level_def comments_ok_def by (metis at_depth_unique distinct_map inj_onD)

lemma level_le: "comments_ok d \<Longrightarrow> level d x n \<Longrightarrow> n \<le> max_reply_depth"
proof -
  assume ok: "comments_ok d" and l: "level d x n"
  then obtain c where c: "c \<in> set (comments d)" "cm_id c = x" "at_depth (comments d) n c" by (auto simp: level_def)
  then obtain m where "m \<le> max_reply_depth" "at_depth (comments d) m c" using ok unfolding comments_ok_def by blast
  then show ?thesis using at_depth_unique c(3) ok unfolding comments_ok_def by blast
qed

lemma level_child:
  assumes "rows_ok d rows" "r \<in> set rows" "cm_parent_id (fst r) = Some x" "level d x n"
  shows "level d (cm_id (fst r)) (Suc n)"
proof -
  have ok: "comments_ok d" and r: "fst r \<in> set (comments d)" using assms(1,2) by (auto simp: rows_ok_def)
  then obtain m where "at_depth (comments d) m (fst r)" unfolding comments_ok_def by blast
  moreover from this obtain k q where q: "m = Suc k" "q \<in> set (comments d)" "at_depth (comments d) k q" "cm_id q = x"
    using assms(3) by (cases m) (auto simp: at_depth_0 at_depth_Suc)
  moreover have "k = n" using level_unique [OF ok assms(4)] q by (auto simp: level_def)
  ultimately show ?thesis using r by (auto simp: level_def)
qed

lemma below_level:
  assumes "below rows x y" "rows_ok d rows" "level d x n"
  shows "\<exists>m \<ge> n. level d y m \<and> (m = n \<longrightarrow> y = x)"
  using assms(1)
proof induction
  case refl
  then show ?case using assms(3) by blast
next
  case (reply y r)
  then obtain m where "n \<le> m" "level d y m" by blast
  then show ?case using level_child [OF assms(2) reply.hyps(2,3)] by (intro exI [of _ "Suc m"]) auto
qed

lemma below_same:
  assumes "rows_ok d rows" "level d x n" "level d y n" "below rows x z" "below rows y z"
  shows "x = y"
  using assms(4,5)
proof (induction arbitrary: rule: below.induct)
  case refl
  obtain m where "n \<le> m" "level d x m" "m = n \<longrightarrow> x = y" using below_level [OF refl assms(1,3)] by blast
  then show ?case using level_unique assms(1,2) unfolding rows_ok_def by blast
next
  case (reply w r)
  from reply.prems show ?case
  proof (cases rule: below.cases)
    case refl
    obtain m where m: "n \<le> m" "level d w m" using below_level [OF reply.hyps(1) assms(1,2)] by blast
    then have "level d y (Suc m)" using level_child [OF assms(1) reply.hyps(2,3)] refl by simp
    then show ?thesis using level_unique [of d y] assms(1,3) m(1) unfolding rows_ok_def by fastforce
  next
    case (reply w' r')
    have "r' = r" using reply \<open>r \<in> set rows\<close> assms(1) unfolding rows_ok_def by (metis comp_apply distinct_map inj_onD)
    then show ?thesis using reply \<open>cm_parent_id (fst r) = Some w\<close> reply.IH by simp
  qed
qed

lemma distinct_concat_map:
  "distinct xs \<Longrightarrow> (\<And>x. x \<in> set xs \<Longrightarrow> distinct (f x)) \<Longrightarrow>
   (\<And>x y. x \<in> set xs \<Longrightarrow> y \<in> set xs \<Longrightarrow> x \<noteq> y \<Longrightarrow> set (f x) \<inter> set (f y) = {}) \<Longrightarrow> distinct (concat (map f xs))"
  by (induction xs) auto

lemma node_root [simp]: "root (thread_node k read rows r) = read r"
  by (cases k) simp_all

text \<open>Unfolding to the depth that is left shows a comment's whole visible subtree, each comment once.\<close>

lemma thread_node_shows:
  assumes ok: "rows_ok d rows" and read: "\<And>r. cr_id (read r) = cm_id (fst r)"
    and "r \<in> set rows" and "level d (cm_id (fst r)) n" and "n + k = max_reply_depth"
  shows "set (shown_ids (thread_node k read rows r)) = Collect (below rows (cm_id (fst r))) \<and>
    distinct (shown_ids (thread_node k read rows r))"
  using assms(3-5)
proof (induction k arbitrary: r n)
  case 0
  have "\<not> (x \<in> set rows \<and> cm_parent_id (fst x) = Some (cm_id (fst r)))" for x
    using level_child [OF ok, of x _ n] level_le [of d "cm_id (fst x)" "Suc n"] 0 ok unfolding rows_ok_def by fastforce
  then have "below rows (cm_id (fst r)) y \<longleftrightarrow> y = cm_id (fst r)" for y by (subst below_step) blast
  then show ?case by (simp add: read)
next
  case (Suc k)
  let ?kids = "order_by (\<lambda>x. cm_created_at (fst x)) (filter (\<lambda>x. cm_parent_id (fst x) = Some (cm_id (fst r))) rows)"
  let ?show = "\<lambda>x. shown_ids (thread_node k read rows x)"
  have kid: "x \<in> set rows" "level d (cm_id (fst x)) (Suc n)" if "x \<in> set ?kids" for x
    using that level_child [OF ok _ _ Suc.prems(2), of x] by simp_all
  have ih: "set (?show x) = Collect (below rows (cm_id (fst x)))" "distinct (?show x)" if "x \<in> set ?kids" for x
    using Suc.IH [OF kid [OF that]] Suc.prems(3) by simp_all
  have sub: "set (concat (map ?show ?kids)) = {y. \<exists>x \<in> set rows. cm_parent_id (fst x) = Some (cm_id (fst r)) \<and>
      below rows (cm_id (fst x)) y}"
    using ih(1) by auto
  have "below rows (cm_id (fst r)) y \<longleftrightarrow> y = cm_id (fst r) \<or> y \<in> set (concat (map ?show ?kids))" for y
    unfolding sub by (subst below_step) blast
  moreover have "cm_id (fst r) \<notin> set (concat (map ?show ?kids))"
  proof
    assume "cm_id (fst r) \<in> set (concat (map ?show ?kids))"
    then obtain x where x: "x \<in> set ?kids" "below rows (cm_id (fst x)) (cm_id (fst r))" using ih(1) by auto
    from below_level [OF x(2) ok kid(2) [OF x(1)]] obtain m where m: "Suc n \<le> m" "level d (cm_id (fst r)) m" by blast
    have "comments_ok d" using ok by (simp add: rows_ok_def)
    from level_unique [OF this Suc.prems(2) m(2)] show False using m(1) by simp
  qed
  moreover have "distinct (concat (map ?show ?kids))"
  proof (rule distinct_concat_map)
    have "distinct (map (cm_id \<circ> fst) rows)" using ok by (simp add: rows_ok_def)
    then have "distinct rows" by (metis distinct_map)
    then show "distinct ?kids" by (simp add: order_by_def)
    show "distinct (?show x)" if "x \<in> set ?kids" for x using ih(2) that .
    fix x y assume xy: "x \<in> set ?kids" "y \<in> set ?kids" "x \<noteq> y"
    then have "cm_id (fst x) \<noteq> cm_id (fst y)"
      using kid(1) ok unfolding rows_ok_def by (metis comp_apply distinct_map inj_onD)
    then show "set (?show x) \<inter> set (?show y) = {}"
      using ih(1) xy below_same [OF ok kid(2) [OF xy(1)] kid(2) [OF xy(2)]] by blast
  qed
  ultimately show ?case by (auto simp: read comp_def)
qed

lemma thread_node_well:
  assumes "\<And>r. cr_id (read r) = cm_id (fst r) \<and> cr_parent_id (read r) = cm_parent_id (fst r) \<and>
    cr_created_at (read r) = cm_created_at (fst r)"
  shows "well_threaded (thread_node k read rows r)"
proof (induction k arbitrary: r)
  case (Suc k)
  then show ?case using assms sorted_order_by [of "\<lambda>x. cm_created_at (fst x)"] by (auto simp: comp_def)
qed simp

lemma read_fields:
  "cr_id (read_with_votes v d r) = cm_id (fst r)" "cr_parent_id (read_with_votes v d r) = cm_parent_id (fst r)"
  "cr_created_at (read_with_votes v d r) = cm_created_at (fst r)"
  by (simp_all add: read_with_votes_def to_comment_read_def split: prod.split)

text \<open>Every author exists, once: the foreign key of \<open>comments.user_id\<close> and the key of \<open>users\<close>.\<close>

definition authors_ok :: "db \<Rightarrow> bool" where
  "authors_ok d \<longleftrightarrow> distinct (map user_id (users d)) \<and> (\<forall>c \<in> set (comments d). exists_row (\<lambda>u. user_id u = cm_user_id c) (users d))"

definition thread_rows :: "uuid set \<Rightarrow> uuid list \<Rightarrow> db \<Rightarrow> (comment_row \<times> user_row) list" where
  "thread_rows hidden roots d = map (\<lambda>c. (c, the (select_one (\<lambda>u. user_id u = cm_user_id c) (users d))))
     (filter (\<lambda>c. in_thread hidden d (set roots) (cm_id c) \<and> visible_comment hidden c) (comments d))"

lemma fetch_rows:
  assumes "authors_ok d"
  shows "fetch_thread_rows_for_roots hidden roots d = Some (thread_rows hidden roots d)"
proof (cases "roots = []")
  case True
  have "\<not> in_thread hidden d {} x" for x
    by (rule notI, induction rule: in_thread.induct) simp_all
  then show ?thesis using True by (simp add: fetch_thread_rows_for_roots_def thread_rows_def)
next
  case False
  obtain ids where ids: "thread_ids hidden roots d = Some (ids, [])" "ids = Collect (in_thread hidden d (set roots))"
    using walk_ends by blast
  have one: "filter (\<lambda>u. user_id u = cm_user_id c) (users d) = [the (select_one (\<lambda>u. user_id u = cm_user_id c) (users d))]"
    if "c \<in> set (comments d)" for c
  proof -
    note mem = that
    obtain u where u: "select_one (\<lambda>u. user_id u = cm_user_id c) (users d) = Some u"
      using assms mem unfolding authors_ok_def exists_row_def by blast
    have "distinct (map user_id (users d))" using assms by (simp add: authors_ok_def)
    from filter_key [OF this, of "cm_user_id c"] show ?thesis unfolding u by simp
  qed
  have "concat (map (\<lambda>c. map (Pair c) (filter (\<lambda>u. user_id u = cm_user_id c) (users d))) cs) =
      map (\<lambda>c. (c, the (select_one (\<lambda>u. user_id u = cm_user_id c) (users d)))) cs" if "set cs \<subseteq> set (comments d)" for cs
    using that by (induction cs) (simp_all add: one)
  then show ?thesis using False ids by (simp add: fetch_thread_rows_for_roots_def thread_rows_def)
qed

lemma thread_rows_ok:
  assumes "comments_ok d"
  shows "rows_ok d (thread_rows hidden roots d)"
proof -
  have "map (cm_id \<circ> fst) (thread_rows hidden roots d) =
      map cm_id (filter (\<lambda>c. in_thread hidden d (set roots) (cm_id c) \<and> visible_comment hidden c) (comments d))"
    by (simp add: thread_rows_def comp_def)
  moreover have "distinct (map cm_id (comments d))" using assms by (simp add: comments_ok_def)
  moreover have "fst ` set (thread_rows hidden roots d) \<subseteq> set (comments d)" by (auto simp: thread_rows_def)
  ultimately show ?thesis using assms unfolding rows_ok_def by (metis distinct_map_filter)
qed

lemma in_thread_below:
  assumes "\<forall>x \<in> set roots. \<exists>c \<in> set (comments d). cm_id c = x \<and> visible_comment hidden c"
  shows "in_thread hidden d (set roots) y \<longleftrightarrow> (\<exists>x \<in> set roots. below (thread_rows hidden roots d) x y)"
proof
  show "in_thread hidden d (set roots) y \<Longrightarrow> \<exists>x \<in> set roots. below (thread_rows hidden roots d) x y"
  proof (induction rule: in_thread.induct)
    case (root x)
    then show ?case using below.refl by blast
  next
    case (reply y c)
    let ?r = "(c, the (select_one (\<lambda>u. user_id u = cm_user_id c) (users d)))"
    have "in_thread hidden d (set roots) (cm_id c)" using reply.hyps in_thread.reply by blast
    then have "?r \<in> set (thread_rows hidden roots d)" using reply.hyps by (simp add: thread_rows_def)
    then show ?case using reply.IH reply.hyps(4) below.reply [where r = ?r] by fastforce
  qed
  have "in_thread hidden d (set roots) y" if "below (thread_rows hidden roots d) x y" "x \<in> set roots" for x
    using that(1)
  proof induction
    case refl
    then show ?case using that(2) by (rule in_thread.root)
  next
    case (reply y r)
    then show ?case by (auto simp: thread_rows_def)
  qed
  then show "\<exists>x \<in> set roots. below (thread_rows hidden roots d) x y \<Longrightarrow> in_thread hidden d (set roots) y" by blast
qed

lemma concat_select:
  "(\<And>x. x \<in> set xs \<Longrightarrow> \<exists>r. f x = Some r \<and> g r = [h x]) \<Longrightarrow>
   concat (map (\<lambda>x. case f x of None \<Rightarrow> [] | Some r \<Rightarrow> g r) xs) = map h xs"
  by (induction xs) fastforce+

text \<open>
  C31: Listing the comments of a movie always ends and shows the right ones. The breadth-first walk
  over the replies terminates, whatever the table holds. If the comments form a forest (as the
  property above shows they always do) and every author exists, the page is one thread per top-level
  comment of the page, in its order; together the threads show exactly the visible comments reachable
  from these through visible comments, each exactly once, so none that is deleted or written by an
  author the viewer has blocked; and each reply stands under the comment it answers, siblings from the
  oldest to the newest.
\<close>

theorem comment_threads_complete:
  shows "(\<exists>ids. thread_ids hidden roots d = Some (ids, []) \<and> ids = Collect (in_thread hidden d (set roots))) \<and>
    (comments_ok d \<and> authors_ok d \<longrightarrow>
      (\<exists>ts. let hid = (case viewer of None \<Rightarrow> {} | Some u \<Rightarrow> blocked_author_ids u d);
              tops = fst (paginate_query page ps (root_comment_ids hid cid d))
          in list_comment_threads cid viewer page ps d = Some (ts, length (root_comment_ids hid cid d)) \<and>
             map (\<lambda>t. cr_id (root t)) ts = tops \<and>
             set (concat (map shown_ids ts)) = Collect (in_thread hid d (set tops)) \<and>
             distinct (concat (map shown_ids ts)) \<and>
             (\<forall>x \<in> set (concat (map shown_ids ts)). \<exists>c \<in> set (comments d). cm_id c = x \<and> visible_comment hid c) \<and>
             (\<forall>t \<in> set ts. well_threaded t)))"
proof (intro conjI impI)
  show "\<exists>ids. thread_ids hidden roots d = Some (ids, []) \<and> ids = Collect (in_thread hidden d (set roots))"
    by (rule walk_ends)
  assume a: "comments_ok d \<and> authors_ok d"
  define hid where "hid = (case viewer of None \<Rightarrow> {} | Some u \<Rightarrow> blocked_author_ids u d)"
  define tops where "tops = fst (paginate_query page ps (root_comment_ids hid cid d))"
  define rows where "rows = thread_rows hid tops d"
  define row where "row x = the (select_one (\<lambda>r. cm_id (fst r) = x) rows)" for x
  define node where "node x = thread_node max_reply_depth (read_with_votes viewer d) rows (row x)" for x
  have ok: "rows_ok d rows" using a thread_rows_ok by (simp add: rows_def)
  have "set tops \<subseteq> set (root_comment_ids hid cid d)" unfolding tops_def by (rule page_items)
  then have top: "\<exists>c \<in> set (comments d). cm_id c = x \<and> visible_comment hid c \<and> cm_parent_id c = None" if "x \<in> set tops" for x
    using that by (auto simp: root_comment_ids_def)
  have row: "select_one (\<lambda>r. cm_id (fst r) = x) rows = Some (row x)" "row x \<in> set rows" "cm_id (fst (row x)) = x"
    "level d x 0" if "x \<in> set tops" for x
  proof -
    from top [OF that] obtain c where c: "c \<in> set (comments d)" "cm_id c = x" "visible_comment hid c" "cm_parent_id c = None"
      by blast
    have "in_thread hid d (set tops) x" using that by (rule in_thread.root)
    then have "(c, the (select_one (\<lambda>u. user_id u = cm_user_id c) (users d))) \<in> set rows"
      using c by (auto simp: rows_def thread_rows_def)
    then have "select_one (\<lambda>r. cm_id (fst r) = x) rows \<noteq> None" using c(2) unfolding select_one_None by fastforce
    then show s: "select_one (\<lambda>r. cm_id (fst r) = x) rows = Some (row x)" by (simp add: row_def)
    show "row x \<in> set rows" "cm_id (fst (row x)) = x" using select_one_Some [OF s] by simp_all
    show "level d x 0" using c by (auto simp: level_def at_depth_0)
  qed
  have shown: "set (shown_ids (node x)) = Collect (below rows x)" "distinct (shown_ids (node x))" if "x \<in> set tops" for x
    using thread_node_shows [OF ok read_fields(1) row(2) [OF that], of 0] row [OF that] by (simp_all add: node_def)
  have ts: "list_comment_threads cid viewer page ps d = Some (map node tops, length (root_comment_ids hid cid d))"
  proof -
    have "paginate_query page ps (root_comment_ids hid cid d) = (tops, length (root_comment_ids hid cid d))"
      by (simp add: tops_def paginate_query_def)
    moreover have "fetch_thread_rows_for_roots hid tops d = Some rows" using fetch_rows a by (simp add: rows_def)
    moreover have "build_comment_threads (read_with_votes viewer d) rows tops = map node tops"
      unfolding build_comment_threads_def by (rule concat_select) (use row(1) in \<open>auto simp: node_def\<close>)
    ultimately show ?thesis by (simp add: list_comment_threads_def hid_def [symmetric] Let_def)
  qed
  have reach: "in_thread hid d (set tops) y \<longleftrightarrow> (\<exists>x \<in> set tops. below rows x y)" for y
    unfolding rows_def by (rule in_thread_below) (use top in blast)
  have all: "set (concat (map shown_ids (map node tops))) = Collect (in_thread hid d (set tops))"
    using shown(1) reach by auto
  have tops_distinct: "distinct tops"
  proof -
    have "distinct (map cm_id (comments d))" using a by (simp add: comments_ok_def)
    then have "distinct (root_comment_ids hid cid d)"
      unfolding root_comment_ids_def order_by_def by (simp add: distinct_map inj_on_def)
    then show ?thesis by (simp add: tops_def paginate_query_def)
  qed
  have each: "distinct (concat (map shown_ids (map node tops)))"
    unfolding map_map comp_def
  proof (rule distinct_concat_map [OF tops_distinct])
    fix x y assume xy: "x \<in> set tops" "y \<in> set tops" "x \<noteq> y"
    then show "set (shown_ids (node x)) \<inter> set (shown_ids (node y)) = {}"
      using shown(1) below_same [OF ok row(4) [OF xy(1)] row(4) [OF xy(2)]] by blast
  qed (rule shown(2))
  have vis: "\<exists>c \<in> set (comments d). cm_id c = x \<and> visible_comment hid c" if "in_thread hid d (set tops) x" for x
    using that by (cases rule: in_thread.cases) (use top in blast)+
  have roots: "map (\<lambda>t. cr_id (root t)) (map node tops) = tops"
    using row(3) by (simp add: node_def read_fields map_idI)
  have well: "\<forall>t \<in> set (map node tops). well_threaded t"
    using thread_node_well read_fields by (auto simp: node_def)
  show "\<exists>ts. let hid = (case viewer of None \<Rightarrow> {} | Some u \<Rightarrow> blocked_author_ids u d);
              tops = fst (paginate_query page ps (root_comment_ids hid cid d))
          in list_comment_threads cid viewer page ps d = Some (ts, length (root_comment_ids hid cid d)) \<and>
             map (\<lambda>t. cr_id (root t)) ts = tops \<and>
             set (concat (map shown_ids ts)) = Collect (in_thread hid d (set tops)) \<and>
             distinct (concat (map shown_ids ts)) \<and>
             (\<forall>x \<in> set (concat (map shown_ids ts)). \<exists>c \<in> set (comments d). cm_id c = x \<and> visible_comment hid c) \<and>
             (\<forall>t \<in> set ts. well_threaded t)"
    unfolding Let_def hid_def [symmetric] tops_def [symmetric]
    by (rule exI [of _ "map node tops"]) (use ts roots all each vis well in simp)
qed

theorem comment_threads_complete_witness:
  "\<exists>ts. list_comment_threads 1 None 1 20 talk_db = Some (ts, 1) \<and> map (\<lambda>t. cr_id (root t)) ts = [4] \<and>
     distinct (concat (map shown_ids ts))"
proof -
  have ok: "comments_ok talk_db \<and> authors_ok talk_db"
    by (auto simp: talk_db_def comments_ok_def at_depth_0 authors_ok_def)
  have roots: "root_comment_ids {} (Suc 0) talk_db = [4]"
    by (simp add: root_comment_ids_def talk_db_def visible_comment_def order_by_def)
  have page: "fst (paginate_query (Suc 0) 20 [4::nat]) = [4]" by (simp add: paginate_query_def)
  from comment_threads_complete [where viewer = None and cid = "Suc 0" and page = "Suc 0" and ps = 20, THEN conjunct2, THEN mp, OF ok]
  show ?thesis by (auto simp: Let_def roots page)
qed

end
