(* ===== verification/Playlists.thy ===== *)
theory Playlists
  imports Models
begin

text \<open>
  HLS playlists as text: how \<open>app/services/playback.py\<close> and \<open>app/services/live_playback.py\<close> rewrite them
  line by line, and the reordering that lets players start on the cheapest rendition. A playlist is a
  string; Python's \<open>splitlines\<close> is modelled on ASCII. The playback services and their routes are in
  \<open>Playback\<close> and \<open>Channels\<close>.
\<close>

section \<open>Lines\<close>

text \<open>The ASCII line boundaries; a carriage return and line feed count as one.\<close>

definition is_break :: "char \<Rightarrow> bool" where
  "is_break c = (let n = (of_char c :: nat) in 10 \<le> n \<and> n \<le> 13 \<or> 28 \<le> n \<and> n \<le> 30)"

fun lines_from :: "string \<Rightarrow> string \<Rightarrow> string list" where
  "lines_from acc [] = (if acc = [] then [] else [acc])"
| "lines_from acc (c # cs) =
     (if c = CHR 0x0D \<and> cs \<noteq> [] \<and> hd cs = CHR 0x0A then acc # lines_from [] (tl cs)
      else if is_break c then acc # lines_from [] cs
      else lines_from (acc @ [c]) cs)"

definition splitlines :: "string \<Rightarrow> string list" where
  "splitlines s = lines_from [] s"

definition nl :: string where "nl = [CHR 0x0A]"

text \<open>\<open>"\n".join(out) + "\n"\<close>.\<close>

definition unlines :: "string list \<Rightarrow> string" where
  "unlines ls = join nl ls @ nl"

definition is_uri_line :: "string \<Rightarrow> bool" where
  "is_uri_line line = (strip line \<noteq> [] \<and> \<not> starts_with ''#'' (strip line))"

text \<open>Every resource line is replaced, tags, comments and blank lines stay.\<close>

definition rewrite_lines :: "(string \<Rightarrow> string) \<Rightarrow> string \<Rightarrow> string list" where
  "rewrite_lines f text = map (\<lambda>l. if is_uri_line l then f (strip l) else l) (splitlines text)"

section \<open>The master playlist\<close>

definition is_digit :: "char \<Rightarrow> bool" where
  "is_digit c = (let n = (of_char c :: nat) in 48 \<le> n \<and> n \<le> 57)"

definition nat_of_digits :: "string \<Rightarrow> nat" where
  "nat_of_digits ds = foldl (\<lambda>n c. 10 * n + (of_char c - 48)) 0 ds"

text \<open>\<open>re.search(r"BANDWIDTH=(\d+)")\<close>: the first match wherever it starts.\<close>

fun stream_inf_bandwidth :: "string \<Rightarrow> nat" where
  "stream_inf_bandwidth [] = 0"
| "stream_inf_bandwidth (c # cs) =
     (let digits = takeWhile is_digit (List.drop 9 cs) in
      if starts_with ''BANDWIDTH='' (c # cs) \<and> digits \<noteq> [] then nat_of_digits digits
      else stream_inf_bandwidth cs)"

type_synonym variant = "nat \<times> string \<times> string"

definition is_stream_inf :: "string \<Rightarrow> bool" where
  "is_stream_inf line = starts_with ''#EXT-X-STREAM-INF'' line"

text \<open>
  The loop over the lines: a stream line takes the next resource line as its URI and drops what is
  between; without one it is dropped with all that follows.
\<close>

function split_master :: "string list \<Rightarrow> string list \<times> variant list" where
  "split_master [] = ([], [])"
| "split_master (l # ls) =
     (if is_stream_inf l then
        (case dropWhile (\<lambda>x. \<not> is_uri_line x) ls of
           [] \<Rightarrow> ([], [])
         | uri # rest \<Rightarrow>
           (case split_master rest of
              (header, variants) \<Rightarrow> (header, (stream_inf_bandwidth l, l, strip uri) # variants)))
      else (case split_master ls of (header, variants) \<Rightarrow> (l # header, variants)))"
  by pat_completeness auto
termination
proof (relation "measure length")
  fix l :: string and ls uri rest
  assume "dropWhile (\<lambda>x. \<not> is_uri_line x) ls = uri # rest"
  then have "length (uri # rest) \<le> length ls" by (metis length_dropWhile_le)
  then show "(rest, l # ls) \<in> measure length" by simp
qed simp_all

definition variant_lines :: "variant \<Rightarrow> string list" where
  "variant_lines v = (case v of (_, tag, uri) \<Rightarrow> [tag, uri])"

definition order_master_playlist_for_startup :: "string \<Rightarrow> string" where
  "order_master_playlist_for_startup text =
     (case split_master (splitlines text) of
        (header, variants) \<Rightarrow> unlines (header @ concat (map variant_lines (sort_key fst variants))))"

text \<open>\<open>build_master_playlist\<close> on the text of the stored master.\<close>

definition variant_link :: "string \<Rightarrow> string \<Rightarrow> string" where
  "variant_link token name = ''v/'' @ name @ ''?t='' @ token"

definition master_body :: "string \<Rightarrow> string \<Rightarrow> string" where
  "master_body token text = order_master_playlist_for_startup (unlines (rewrite_lines (variant_link token) text))"

section \<open>Segment URLs\<close>

definition public_url :: "settings \<Rightarrow> string \<Rightarrow> string" where
  "public_url cfg key = rstrip_char CHR ''/'' (r2_public_url cfg) @ ''/'' @ key"

definition segment_mode :: "settings \<Rightarrow> string" where
  "segment_mode cfg = lower (strip (if playback_segment_mode cfg = [] then ''cdn'' else playback_segment_mode cfg))"

text \<open>\<open>presign key expires_in\<close> is the signed download URL the storage SDK computes.\<close>

definition generate_playback_segment_url :: "settings \<Rightarrow> (string \<Rightarrow> int \<Rightarrow> string) \<Rightarrow> string \<Rightarrow> int \<Rightarrow> string" where
  "generate_playback_segment_url cfg presign key expires_in =
     (if segment_mode cfg = ''presign'' \<or> strip (r2_public_url cfg) = [] then presign key expires_in
      else public_url cfg key)"

definition rewrite_variant_text ::
    "settings \<Rightarrow> (string \<Rightarrow> int \<Rightarrow> string) \<Rightarrow> string \<Rightarrow> string \<Rightarrow> int \<Rightarrow> string" where
  "rewrite_variant_text cfg presign text prefix expires_in =
     unlines (rewrite_lines (\<lambda>name. generate_playback_segment_url cfg presign (prefix @ ''/'' @ name) expires_in) text)"

section \<open>Cache headers of media objects\<close>

definition cache_control_for_key :: "string \<Rightarrow> string option" where
  "cache_control_for_key key =
     (let lowered = lower key in
      if ends_with ''.ts'' lowered \<or> ends_with ''.m4s'' lowered
      then Some ''public, max-age=31536000, immutable''
      else if ends_with ''.m3u8'' lowered then Some ''public, max-age=60''
      else if ends_with ''.webp'' lowered \<or> ends_with ''.jpg'' lowered \<or> ends_with ''.jpeg'' lowered \<or>
              ends_with ''.png'' lowered
      then Some ''public, max-age=1814400''
      else None)"

section \<open>Joining and splitting\<close>

definition plain_line :: "string \<Rightarrow> bool" where
  "plain_line l \<longleftrightarrow> (\<forall>c \<in> set l. \<not> is_break c)"

lemma lines_from_plain:
  "plain_line l \<Longrightarrow> lines_from acc (l @ s) = lines_from (acc @ l) s"
proof (induction l arbitrary: acc)
  case (Cons c l)
  have "c \<noteq> CHR 0x0D" "\<not> is_break c" using Cons.prems by (auto simp: plain_line_def is_break_def)
  then show ?case using Cons by (simp add: plain_line_def)
qed simp

lemma lines_from_nl: "lines_from acc (nl @ s) = acc # lines_from [] s"
  by (simp add: nl_def is_break_def)

lemma splitlines_unlines:
  assumes "ls \<noteq> []" and "\<forall>l \<in> set ls. plain_line l"
  shows "splitlines (unlines ls) = ls"
  using assms
proof (induction ls rule: induct_list012)
  case (2 x)
  then show ?case using lines_from_plain [of x "[]" nl] lines_from_nl [of x "[]"]
    by (simp add: splitlines_def unlines_def)
next
  case (3 x y zs)
  have "splitlines (unlines (x # y # zs)) = lines_from x (nl @ unlines (y # zs))"
    using 3 lines_from_plain [of x "[]"] by (simp add: splitlines_def unlines_def)
  also have "\<dots> = x # splitlines (unlines (y # zs))" by (simp add: lines_from_nl splitlines_def)
  finally show ?case using 3 by simp
qed simp

lemma plain_line_simps: "plain_line []" "plain_line (acc @ [c]) \<longleftrightarrow> plain_line acc \<and> \<not> is_break c"
  by (auto simp: plain_line_def)

lemma lines_from_are_plain: "plain_line acc \<Longrightarrow> l \<in> set (lines_from acc s) \<Longrightarrow> plain_line l"
proof (induction acc s rule: lines_from.induct)
  case (1 acc)
  then show ?case by (simp split: if_splits)
next
  case (2 acc c cs)
  consider "c = CHR 0x0D \<and> cs \<noteq> [] \<and> hd cs = CHR 0x0A" | "\<not> (c = CHR 0x0D \<and> cs \<noteq> [] \<and> hd cs = CHR 0x0A)" "is_break c"
    | "\<not> (c = CHR 0x0D \<and> cs \<noteq> [] \<and> hd cs = CHR 0x0A)" "\<not> is_break c" by blast
  then show ?case
  proof cases
    case 1
    have "lines_from acc (c # cs) = acc # lines_from [] (tl cs)" using 1 by simp
    then show ?thesis using "2.IH"(1) [OF 1 plain_line_simps(1)] "2.prems" by auto
  next
    case c: 2
    have "lines_from acc (c # cs) = acc # lines_from [] cs" using c by (simp only: lines_from.simps if_False if_True)
    then show ?thesis using "2.IH"(2) [OF c plain_line_simps(1)] "2.prems" by auto
  next
    case c: 3
    have "lines_from acc (c # cs) = lines_from (acc @ [c]) cs" using c by (simp only: lines_from.simps if_False)
    then show ?thesis using "2.IH"(3) [OF c] "2.prems" c by (simp add: plain_line_simps)
  qed
qed

lemma splitlines_plain: "l \<in> set (splitlines s) \<Longrightarrow> plain_line l"
  using lines_from_are_plain [of "[]" l s] by (simp add: splitlines_def plain_line_def)

lemma unlines_Nil: "splitlines (unlines []) = [[]]"
  by (simp add: splitlines_def unlines_def nl_def is_break_def)

section \<open>Stripped lines\<close>

lemma set_strip: "set (strip s) \<subseteq> set s"
  by (auto simp: strip_def rstrip_def lstrip_def dest!: set_dropWhileD)

lemma plain_strip: "plain_line l \<Longrightarrow> plain_line (strip l)"
  using set_strip [of l] by (auto simp: plain_line_def)

lemma dropWhile_noop: "xs = [] \<or> \<not> P (hd xs) \<Longrightarrow> dropWhile P xs = xs"
  by (cases xs) auto

lemma hd_dropWhile_not: "dropWhile P xs \<noteq> [] \<Longrightarrow> \<not> P (hd (dropWhile P xs))"
  by (induction xs) auto

lemma strip_noop:
  assumes "s = [] \<or> \<not> is_space (hd s) \<and> \<not> is_space (last s)" shows "strip s = s"
proof -
  have "lstrip s = s" using assms by (auto simp: lstrip_def dropWhile_noop)
  moreover have "rstrip s = s" using assms by (auto simp: rstrip_def dropWhile_noop hd_rev)
  ultimately show ?thesis by (simp add: strip_def)
qed

lemma strip_ends: "strip s \<noteq> [] \<Longrightarrow> \<not> is_space (hd (strip s)) \<and> \<not> is_space (last (strip s))"
proof -
  assume ne: "strip s \<noteq> []"
  let ?m = "dropWhile is_space s" and ?r = "dropWhile is_space (rev (dropWhile is_space s))"
  have e: "strip s = rev ?r" by (simp add: strip_def rstrip_def lstrip_def)
  have r: "?r \<noteq> []" using ne by (simp add: e)
  have lst: "\<not> is_space (last (strip s))"
    unfolding e last_rev by (rule hd_dropWhile_not [OF r])
  obtain u where u: "rev ?m = u @ ?r" by (metis takeWhile_dropWhile_id)
  have m: "?m = rev ?r @ rev u" using arg_cong [OF u, of rev] by simp
  have ne_m: "?m \<noteq> []" using m r by (metis Nil_is_append_conv rev_is_Nil_conv)
  have "hd ?m = hd (strip s)" unfolding e by (subst m) (use r in \<open>simp only: hd_append2 rev_is_Nil_conv not_False_eq_True\<close>)
  then show ?thesis using lst hd_dropWhile_not [OF ne_m] by simp
qed

lemma strip_strip [simp]: "strip (strip s) = strip s"
  by (rule strip_noop) (use strip_ends in blast)

lemma is_uri_line_strip [simp]: "is_uri_line (strip l) = is_uri_line l"
  by (simp add: is_uri_line_def)

lemma starts_with_hash: "starts_with (CHR ''#'' # p) l \<Longrightarrow> l = CHR ''#'' # tl l"
  by (cases l) (auto simp: starts_with_iff)

lemma stream_inf_not_uri: "is_stream_inf l \<Longrightarrow> \<not> is_uri_line l"
proof -
  assume "is_stream_inf l"
  then obtain s where l: "l = CHR ''#'' # s" using starts_with_hash unfolding is_stream_inf_def by blast
  have "\<not> is_space (CHR ''#'')" by (simp add: is_space_def)
  then have ls: "lstrip l = CHR ''#'' # s" by (simp add: l lstrip_def)
  have "rstrip (CHR ''#'' # s) = CHR ''#'' # rstrip s \<or> rstrip (CHR ''#'' # s) = [CHR ''#'']"
    by (auto simp: rstrip_def dropWhile_append is_space_def)
  then have "starts_with ''#'' (strip l)" unfolding strip_def ls by auto
  then show ?thesis by (simp add: is_uri_line_def)
qed

section \<open>Splitting and reassembling the master\<close>

definition good_variant :: "variant \<Rightarrow> bool" where
  "good_variant v = (case v of (b, tag, uri) \<Rightarrow> is_stream_inf tag \<and> b = stream_inf_bandwidth tag \<and>
     is_uri_line uri \<and> strip uri = uri \<and> plain_line tag \<and> plain_line uri)"

definition good_header :: "string list \<Rightarrow> bool" where
  "good_header h \<longleftrightarrow> (\<forall>l \<in> set h. \<not> is_stream_inf l \<and> plain_line l)"

lemma dropWhile_found: "dropWhile P ls = u # rest \<Longrightarrow> \<not> P u \<and> u \<in> set ls \<and> set rest \<subseteq> set ls"
  using hd_dropWhile_not [of P ls] set_dropWhileD [of _ P ls] by (metis list.discI list.sel(1) list.set_intros subsetI)

lemma split_master_good:
  "\<forall>l \<in> set ls. plain_line l \<Longrightarrow> split_master ls = (h, vs) \<Longrightarrow> good_header h \<and> (\<forall>v \<in> set vs. good_variant v)"
proof (induction ls arbitrary: h vs rule: split_master.induct)
  case 1
  then show ?case by (simp add: good_header_def)
next
  case (2 l ls)
  show ?case
  proof (cases "is_stream_inf l")
    case True
    show ?thesis
    proof (cases "dropWhile (\<lambda>x. \<not> is_uri_line x) ls")
      case Nil
      with 2 True show ?thesis by (simp add: good_header_def)
    next
      case (Cons u rest)
      obtain vs' where r: "split_master rest = (h, vs')" "vs = (stream_inf_bandwidth l, l, strip u) # vs'"
        using 2(4) True Cons by (auto split: prod.splits)
      have "\<forall>l \<in> set rest. plain_line l" "is_uri_line u" "plain_line u"
        using dropWhile_found [OF Cons] 2(3) by auto
      then show ?thesis using "2.IH"(1) [OF True Cons _ r(1)] r(2) True 2(3)
        by (simp add: good_variant_def plain_strip)
    qed
  next
    case False
    obtain h' where r: "split_master ls = (h', vs)" "h = l # h'" using 2(4) False by (auto split: prod.splits)
    show ?thesis using "2.IH"(2) [OF False _ r(1)] r(2) False 2(3) by (auto simp: good_header_def)
  qed
qed

lemma split_variant_lines:
  "\<forall>v \<in> set vs. good_variant v \<Longrightarrow> split_master (concat (map variant_lines vs)) = ([], vs)"
  by (induction vs) (auto simp: variant_lines_def good_variant_def)

lemma split_reassembled:
  "good_header h \<Longrightarrow> \<forall>v \<in> set vs. good_variant v \<Longrightarrow> split_master (h @ concat (map variant_lines vs)) = (h, vs)"
  by (induction h) (auto simp: good_header_def split_variant_lines)

text \<open>The header of a body that would be empty is one blank line.\<close>

definition header_or_blank :: "string list \<Rightarrow> variant list \<Rightarrow> string list" where
  "header_or_blank h vs = (if h = [] \<and> vs = [] then [[]] else h)"

lemma split_unlines:
  assumes "good_header h" and "\<forall>v \<in> set vs. good_variant v"
  shows "split_master (splitlines (unlines (h @ concat (map variant_lines vs)))) = (header_or_blank h vs, vs)"
proof (cases "h = [] \<and> vs = []")
  case True
  then show ?thesis by (simp add: unlines_Nil header_or_blank_def is_stream_inf_def)
next
  case False
  let ?L = "h @ concat (map variant_lines vs)"
  have "?L \<noteq> []" using False by (cases vs) (auto simp: variant_lines_def split: prod.splits)
  moreover have "\<forall>l \<in> set ?L. plain_line l"
    using assms by (auto simp: good_header_def good_variant_def variant_lines_def split: prod.splits)
  ultimately have "splitlines (unlines ?L) = ?L" by (rule splitlines_unlines)
  then show ?thesis using split_reassembled [OF assms] False by (auto simp: header_or_blank_def)
qed

lemma sort_key_Nil [simp]: "sort_key k xs = [] \<longleftrightarrow> xs = []"
  by (metis length_0_conv length_sort)

lemma sort_key_twice: "sort_key k (sort_key k xs) = sort_key k xs"
  by (rule sort_key_id_if_sorted) (rule sorted_sort_key)

lemma order_master:
  assumes "split_master (splitlines text) = (h, vs)"
  shows "order_master_playlist_for_startup text = unlines (h @ concat (map variant_lines (sort_key fst vs)))"
    and "split_master (splitlines (order_master_playlist_for_startup text)) = (header_or_blank h vs, sort_key fst vs)"
proof -
  show o: "order_master_playlist_for_startup text = unlines (h @ concat (map variant_lines (sort_key fst vs)))"
    using assms by (simp add: order_master_playlist_for_startup_def)
  have "good_header h" "\<forall>v \<in> set (sort_key fst vs). good_variant v"
    using split_master_good [OF _ assms] splitlines_plain by auto
  from split_unlines [OF this]
  show "split_master (splitlines (order_master_playlist_for_startup text)) = (header_or_blank h vs, sort_key fst vs)"
    by (simp only: o) (simp add: header_or_blank_def)
qed

lemma order_twice: "order_master_playlist_for_startup (order_master_playlist_for_startup text) =
    order_master_playlist_for_startup text"
proof -
  obtain h vs where s: "split_master (splitlines text) = (h, vs)" by fastforce
  have srt: "sort_key fst (sort_key fst vs) = sort_key fst vs" by (rule sort_key_twice)
  have e: "unlines (header_or_blank h vs @ L) = unlines (h @ L)" if "vs = [] \<Longrightarrow> L = []" for L
    using that by (auto simp: header_or_blank_def unlines_def)
  show ?thesis
    by (subst order_master(1) [OF order_master(2) [OF s]], subst order_master(1) [OF s], simp only: srt)
       (rule e, simp)
qed

section \<open>The served master\<close>

lemma split_rewritten:
  assumes "\<And>x. is_uri_line x \<Longrightarrow> strip x = x \<Longrightarrow> is_uri_line (f x) \<and> strip (f x) = f x"
  shows "split_master (map (\<lambda>l. if is_uri_line l then f (strip l) else l) ls) =
    (case split_master ls of (h, vs) \<Rightarrow>
      (map (\<lambda>l. if is_uri_line l then f (strip l) else l) h, map (\<lambda>(b, tag, uri). (b, tag, f uri)) vs))"
    (is "split_master (map ?g ls) = ?rhs ls")
proof (induction ls rule: split_master.induct)
  case 1
  show ?case by simp
next
  case (2 l ls)
  have f: "is_uri_line (f (strip l)) \<and> strip (f (strip l)) = f (strip l)" if "is_uri_line l" for l
    using assms [of "strip l"] that by simp
  have g_uri: "is_uri_line (?g x) = is_uri_line x" for x using f by simp
  have g_stream: "is_stream_inf (?g x) = is_stream_inf x" for x
    using f [of x] stream_inf_not_uri by auto
  have drp: "dropWhile (\<lambda>x. \<not> is_uri_line x) (map ?g xs) = map ?g (dropWhile (\<lambda>x. \<not> is_uri_line x) xs)" for xs
    by (simp only: dropWhile_map o_def g_uri)
  show ?case
  proof (cases "is_stream_inf l")
    case True
    then have l: "?g l = l" using stream_inf_not_uri by simp
    show ?thesis
    proof (cases "dropWhile (\<lambda>x. \<not> is_uri_line x) ls")
      case Nil
      then have "dropWhile (\<lambda>x. \<not> is_uri_line x) (map ?g ls) = []" by (simp only: drp list.map)
      then show ?thesis using True l Nil by (simp only: list.map split_master.simps if_True list.case prod.case)
    next
      case (Cons u rest)
      have u: "is_uri_line u" using dropWhile_found [OF Cons] by simp
      have d: "dropWhile (\<lambda>x. \<not> is_uri_line x) (map ?g ls) = f (strip u) # map ?g rest"
        unfolding drp Cons using u by simp
      obtain h vs where s: "split_master rest = (h, vs)" by fastforce
      have r: "split_master (map ?g rest) = (map ?g h, map (\<lambda>(b, tag, uri). (b, tag, f uri)) vs)"
        using "2.IH"(1) [OF True Cons] by (simp only: s prod.case)
      have "split_master (l # map ?g ls) = (map ?g h, (stream_inf_bandwidth l, l, f (strip u)) # map (\<lambda>(b, tag, uri). (b, tag, f uri)) vs)"
        using f [OF u] True by (simp only: split_master.simps if_True d list.case r prod.case)
      then show ?thesis using True by (simp only: list.map l) (simp add: Cons s)
    qed
  next
    case False
    obtain h vs where s: "split_master ls = (h, vs)" by fastforce
    have ih: "split_master (map ?g ls) = (map ?g h, map (\<lambda>(b, tag, uri). (b, tag, f uri)) vs)"
      using "2.IH"(2) [OF False] by (simp only: s prod.case)
    have "split_master (?g l # map ?g ls) = (?g l # map ?g h, map (\<lambda>(b, tag, uri). (b, tag, f uri)) vs)"
      using False by (simp only: split_master.simps g_stream if_False ih prod.case)
    then show ?thesis using False by (simp only: list.map) (simp add: s)
  qed
qed

lemma variant_link_uri:
  assumes "\<forall>c \<in> set token. \<not> is_space c"
  shows "is_uri_line (variant_link token x)" and "strip (variant_link token x) = variant_link token x"
proof -
  let ?v = "variant_link token x"
  have "hd ?v = CHR ''v''" "last ?v = (if token = [] then CHR ''='' else last token)" "?v \<noteq> []"
    by (simp_all add: variant_link_def)
  then show s: "strip ?v = ?v" using assms by (intro strip_noop) (auto simp: is_space_def)
  show "is_uri_line ?v" unfolding is_uri_line_def s by (simp add: variant_link_def)
qed

lemma space_break: "\<not> is_space c \<Longrightarrow> \<not> is_break c"
  by (auto simp: is_space_def is_break_def Let_def)

lemma rewritten_plain:
  assumes "\<forall>c \<in> set token. \<not> is_space c" and "l \<in> set (rewrite_lines (variant_link token) text)"
  shows "plain_line l"
proof -
  obtain l0 where l0: "l0 \<in> set (splitlines text)" and e: "l = (if is_uri_line l0 then variant_link token (strip l0) else l0)"
    using assms(2) by (auto simp: rewrite_lines_def)
  have "plain_line (strip l0)" "plain_line l0" using splitlines_plain [OF l0] plain_strip by simp_all
  moreover have "plain_line token" using assms(1) space_break by (simp add: plain_line_def)
  ultimately show ?thesis unfolding e by (auto simp: variant_link_def plain_line_def is_break_def)
qed

lemma split_rewritten_text:
  assumes tok: "\<forall>c \<in> set token. \<not> is_space c" and "split_master (splitlines text) = (h, vs)"
  shows "\<exists>h'. split_master (splitlines (unlines (rewrite_lines (variant_link token) text))) =
      (h', map (\<lambda>(b, tag, uri). (b, tag, variant_link token uri)) vs) \<and>
    set h' \<subseteq> insert [] ((\<lambda>l. if is_uri_line l then variant_link token (strip l) else l) ` set h)"
proof (cases "splitlines text = []")
  case True
  have "split_master [[]] = ([[]], [])" by (simp add: is_stream_inf_def)
  with True assms(2) show ?thesis by (simp add: rewrite_lines_def unlines_Nil)
next
  case False
  have "splitlines (unlines (rewrite_lines (variant_link token) text)) = rewrite_lines (variant_link token) text"
    using False rewritten_plain [OF tok] by (intro splitlines_unlines) (auto simp: rewrite_lines_def)
  moreover have "split_master (rewrite_lines (variant_link token) text) =
      (map (\<lambda>l. if is_uri_line l then variant_link token (strip l) else l) h,
       map (\<lambda>(b, tag, uri). (b, tag, variant_link token uri)) vs)"
    unfolding rewrite_lines_def
    by (subst split_rewritten) (use variant_link_uri [OF tok] assms(2) in auto)
  ultimately show ?thesis by auto
qed

lemma split_header_subset: "split_master ls = (h, vs) \<Longrightarrow> set h \<subseteq> set ls"
proof (induction ls arbitrary: h vs rule: split_master.induct)
  case (2 l ls)
  show ?case
  proof (cases "is_stream_inf l")
    case True
    show ?thesis
    proof (cases "dropWhile (\<lambda>x. \<not> is_uri_line x) ls")
      case (Cons u rest)
      then show ?thesis using 2 True dropWhile_found [OF Cons] by (fastforce split: prod.splits)
    next
      case Nil
      have "h = []" using 2(3) True by (simp only: split_master.simps if_True Nil list.case prod.inject)
      then show ?thesis by simp
    qed
  next
    case False
    obtain h' where "split_master ls = (h', vs)" "h = l # h'" using 2(3) False by (auto split: prod.splits)
    with "2.IH"(2) [OF False] show ?thesis by auto
  qed
qed simp

lemma lines_of_split:
  assumes "split_master (splitlines text) = (h, vs)"
  shows "set (splitlines (order_master_playlist_for_startup text)) \<subseteq>
    insert [] (set h \<union> (\<lambda>(b, tag, uri). tag) ` set vs \<union> (\<lambda>(b, tag, uri). uri) ` set vs)"
proof -
  let ?L = "h @ concat (map variant_lines (sort_key fst vs))"
  have good: "good_header h" "\<forall>v \<in> set vs. good_variant v" using split_master_good [OF _ assms] splitlines_plain by auto
  have "\<forall>l \<in> set ?L. plain_line l"
    using good by (auto simp: good_header_def good_variant_def variant_lines_def split: prod.splits)
  then have "set (splitlines (unlines ?L)) \<subseteq> insert [] (set ?L)"
    using splitlines_unlines [of ?L] unlines_Nil by (cases "?L = []") (simp_all only:, auto)
  moreover have "set ?L \<subseteq> set h \<union> (\<lambda>(b, tag, uri). tag) ` set vs \<union> (\<lambda>(b, tag, uri). uri) ` set vs"
    by (force simp: variant_lines_def)
  ultimately show ?thesis unfolding order_master(1) [OF assms] by blast
qed

lemma split_variants_of:
  "split_master ls = (h, vs) \<Longrightarrow> v \<in> set vs \<Longrightarrow>
   is_stream_inf (fst (snd v)) \<and> (\<exists>x \<in> set ls. is_uri_line x \<and> snd (snd v) = strip x)"
proof (induction ls arbitrary: h vs rule: split_master.induct)
  case (2 l ls)
  show ?case
  proof (cases "is_stream_inf l")
    case True
    show ?thesis
    proof (cases "dropWhile (\<lambda>x. \<not> is_uri_line x) ls")
      case (Cons u rest)
      obtain vs' where r: "split_master rest = (h, vs')" "vs = (stream_inf_bandwidth l, l, strip u) # vs'"
        using 2(3) True Cons by (auto split: prod.splits)
      have u: "is_uri_line u" "u \<in> set ls" "set rest \<subseteq> set ls" using dropWhile_found [OF Cons] by auto
      show ?thesis
      proof (cases "v \<in> set vs'")
        case v: True
        show ?thesis using "2.IH"(1) [OF True Cons r(1) v] u(3) by auto
      next
        case False
        then show ?thesis using r(2) "2.prems"(2) True u by auto
      qed
    next
      case Nil
      have "vs = []" using 2(3) True by (simp only: split_master.simps if_True Nil list.case prod.inject)
      then show ?thesis using 2(4) by simp
    qed
  next
    case False
    obtain h' where "split_master ls = (h', vs)" using 2(3) False by (auto split: prod.splits)
    from "2.IH"(2) [OF False this "2.prems"(2)] show ?thesis by auto
  qed
qed simp

text \<open>
  The served master playlist offers exactly the stored renditions, each behind the viewer's
  token, cheapest first. For a token without white space (a JWT has none) the stream entries of the
  body are those of the stored playlist with their bandwidths, sorted by bandwidth and stable, each
  URI \<open>name\<close> replaced by \<open>v/name?t=token\<close>; every resource line of the body is such a link to a resource
  line of the stored playlist; and ordering a body again changes nothing.
\<close>

theorem served_master:
  assumes tok: "\<forall>c \<in> set token. \<not> is_space c"
  shows "snd (split_master (splitlines (master_body token text))) =
      sort_key fst (map (\<lambda>(b, tag, uri). (b, tag, variant_link token uri)) (snd (split_master (splitlines text)))) \<and>
    (\<forall>l \<in> set (splitlines (master_body token text)). is_uri_line l \<longrightarrow>
      (\<exists>x \<in> set (splitlines text). is_uri_line x \<and> l = variant_link token (strip x))) \<and>
    order_master_playlist_for_startup (master_body token text) = master_body token text"
proof (intro conjI ballI impI)
  obtain h vs where s: "split_master (splitlines text) = (h, vs)" by fastforce
  let ?link = "\<lambda>l. if is_uri_line l then variant_link token (strip l) else l"
  obtain h' where h': "split_master (splitlines (unlines (rewrite_lines (variant_link token) text))) =
      (h', map (\<lambda>(b, tag, uri). (b, tag, variant_link token uri)) vs)" "set h' \<subseteq> insert [] (?link ` set h)"
    using split_rewritten_text [OF tok s] by blast
  show "snd (split_master (splitlines (master_body token text))) =
      sort_key fst (map (\<lambda>(b, tag, uri). (b, tag, variant_link token uri)) (snd (split_master (splitlines text))))"
    unfolding master_body_def order_master(2) [OF h'(1)] by (simp add: s)
  show "order_master_playlist_for_startup (master_body token text) = master_body token text"
    by (simp add: master_body_def order_twice)
  fix l assume l: "l \<in> set (splitlines (master_body token text))" "is_uri_line l"
  have sub: "set (splitlines (master_body token text)) \<subseteq> insert [] (set h' \<union>
      (\<lambda>(b, tag, uri). tag) ` set vs \<union> (\<lambda>(b, tag, uri). variant_link token uri) ` set vs)"
    using lines_of_split [OF h'(1)] unfolding master_body_def by (force simp: image_image case_prod_beta)
  have vs: "is_stream_inf (fst (snd v)) \<and> (\<exists>x \<in> set (splitlines text). is_uri_line x \<and> snd (snd v) = strip x)" if "v \<in> set vs" for v
    by (rule split_variants_of [OF s that])
  have ne: "l \<noteq> []" "\<not> is_stream_inf l" using l(2) stream_inf_not_uri by (auto simp: is_uri_line_def)
  have "l \<notin> (\<lambda>(b, tag, uri). tag) ` set vs" using ne(2) vs by (auto simp: case_prod_beta)
  then consider "l \<in> set h'" | "l \<in> (\<lambda>(b, tag, uri). variant_link token uri) ` set vs"
    using subsetD [OF sub l(1)] ne(1) by blast
  then consider "l \<in> ?link ` set h" | v where "v \<in> set vs" "l = variant_link token (snd (snd v))"
    using h'(2) ne(1) by cases (blast, auto simp: case_prod_beta)
  then show "\<exists>x \<in> set (splitlines text). is_uri_line x \<and> l = variant_link token (strip x)"
  proof cases
    case 1
    then obtain x where "x \<in> set h" "l = ?link x" by blast
    then show ?thesis using l(2) split_header_subset [OF s] by (auto split: if_splits)
  next
    case 2
    then show ?thesis using vs [OF 2(1)] by auto
  qed
qed


definition demo_master :: string where
  "demo_master = unlines [''#EXTM3U'', ''#EXT-X-STREAM-INF:BANDWIDTH=5000'', ''1080p.m3u8'',
     ''#EXT-X-STREAM-INF:BANDWIDTH=800'', ''360p.m3u8'']"

theorem served_master_witness:
  "master_body ''abc'' demo_master = unlines [''#EXTM3U'', ''#EXT-X-STREAM-INF:BANDWIDTH=800'', ''v/360p.m3u8?t=abc'',
     ''#EXT-X-STREAM-INF:BANDWIDTH=5000'', ''v/1080p.m3u8?t=abc''] \<and>
   (\<exists>x \<in> set (splitlines demo_master). ''v/360p.m3u8?t=abc'' = variant_link ''abc'' (strip x))"
proof
  show "master_body ''abc'' demo_master = unlines [''#EXTM3U'', ''#EXT-X-STREAM-INF:BANDWIDTH=800'', ''v/360p.m3u8?t=abc'',
     ''#EXT-X-STREAM-INF:BANDWIDTH=5000'', ''v/1080p.m3u8?t=abc'']" by code_simp
  have "''v/360p.m3u8?t=abc'' \<in> set (splitlines (master_body ''abc'' demo_master))" by code_simp
  moreover have "is_uri_line ''v/360p.m3u8?t=abc''" by code_simp
  moreover have "\<forall>c \<in> set ''abc''. \<not> is_space c" by code_simp
  ultimately show "\<exists>x \<in> set (splitlines demo_master). ''v/360p.m3u8?t=abc'' = variant_link ''abc'' (strip x)"
    using served_master [THEN conjunct2, THEN conjunct1, of "''abc''" demo_master] by blast
qed

end
