(* ===== verification/Remote_Services.thy ===== *)
theory Remote_Services
  imports Prelude
begin

text \<open>
  The clients of the two media services, the transcoder (\<open>app/services/transcode_client.py\<close>) and the
  restream service (\<open>app/services/live_client.py\<close>). The network is a function from the request to what comes back.
  Time limits belong to the network. JSON values are a datatype with numbers as rationals (\<open>NaN\<close> and the infinities Python also reads are
  left out); text that is not JSON is \<open>None\<close>, on which \<open>response.json()\<close> raises a \<open>ValueError\<close>.
\<close>

section \<open>Requests and answers\<close>

datatype json =
    JNull
  | JBool bool
  | JNum rat
  | JStr string
  | JList "json list"
  | JObj "(string \<times> json) list"

datatype http_answer =
    Read_Timeout
  | Unreachable
  | Answer nat "json option"

record http_call =
  hc_method :: string
  hc_url :: string
  hc_headers :: "(string \<times> string) list"
  hc_json :: "(string \<times> string) list"

record service =
  sv_url :: string
  sv_api_key :: string

text \<open>\<open>raise_for_status\<close> lets the 2xx answers pass.\<close>

definition is_success :: "nat \<Rightarrow> bool" where
  "is_success n \<longleftrightarrow> 200 \<le> n \<and> n < 300"

definition media_headers :: "service \<Rightarrow> (string \<times> string) list" where
  "media_headers s =
     (''Accept'', ''application/json'') # (if sv_api_key s \<noteq> [] then [(''X-Api-Key'', sv_api_key s)] else [])"

definition base_url :: "string \<Rightarrow> service \<Rightarrow> string result" where
  "base_url detail s =
     (if sv_url s = [] then Inl (HTTPException 503 detail) else Inr (rstrip_char CHR ''/'' (sv_url s)))"

text \<open>\<open>data.get(k, dflt)\<close>; of two equal keys the later counts.\<close>

definition json_get :: "json \<Rightarrow> string \<Rightarrow> (string \<times> json) list \<Rightarrow> json" where
  "json_get dflt k kvs = (case map_of (rev kvs) k of None \<Rightarrow> dflt | Some v \<Rightarrow> v)"

definition detail_from_http_error :: "json option \<Rightarrow> string \<Rightarrow> string" where
  "detail_from_http_error body fallback =
     (case body of
        Some (JObj kvs) \<Rightarrow> (case json_get JNull ''detail'' kvs of JStr s \<Rightarrow> s | _ \<Rightarrow> fallback)
      | _ \<Rightarrow> fallback)"

section \<open>The transcoder\<close>

type_synonym network = "http_call \<Rightarrow> http_answer"

definition transcode_unreachable :: error where
  "transcode_unreachable = HTTPException 502 ''Could not reach transcode service''"

definition transcode_base_url :: "service \<Rightarrow> string result" where
  "transcode_base_url = base_url ''Transcode service is not configured''"

text \<open>\<open>int(v)\<close> drops the fraction; a boolean is a number to Python.\<close>

definition int_of_rat :: "rat \<Rightarrow> int" where
  "int_of_rat x = (if x < 0 then - \<lfloor>- x\<rfloor> else \<lfloor>x\<rfloor>)"

fun progress_entry :: "string \<times> json \<Rightarrow> (string \<times> int) list" where
  "progress_entry (k, JNum x) = [(k, int_of_rat x)]"
| "progress_entry (k, JBool b) = [(k, of_bool b)]"
| "progress_entry (k, _) = []"

definition fetch_jobs_progress :: "network \<Rightarrow> service \<Rightarrow> (string \<times> int) list result" where
  "fetch_jobs_progress net s =
     (case transcode_base_url s of
        Inl e \<Rightarrow> Inl e
      | Inr base \<Rightarrow>
        (case net \<lparr>hc_method = ''GET'', hc_url = base @ ''/jobs/progress'', hc_headers = media_headers s, hc_json = []\<rparr> of
           Answer n body \<Rightarrow>
             if \<not> is_success n then Inl transcode_unreachable
             else (case body of
                None \<Rightarrow> Inl (ValueError ''Expecting value'')
              | Some (JObj kvs) \<Rightarrow> Inr (concat (map progress_entry kvs))
              | Some _ \<Rightarrow> Inl (HTTPException 502 ''Invalid transcode progress response''))
         | _ \<Rightarrow> Inl transcode_unreachable))"

definition transcode_call ::
    "network \<Rightarrow> service \<Rightarrow> string \<Rightarrow> string \<Rightarrow> (string \<times> string) list \<Rightarrow> string \<Rightarrow> json result" where
  "transcode_call net s verb path payload fallback =
     (case transcode_base_url s of
        Inl e \<Rightarrow> Inl e
      | Inr base \<Rightarrow>
        (case net \<lparr>hc_method = verb, hc_url = base @ path, hc_headers = media_headers s, hc_json = payload\<rparr> of
           Answer n body \<Rightarrow>
             if \<not> is_success n then Inl (HTTPException n (detail_from_http_error body fallback))
             else (case body of None \<Rightarrow> Inl (ValueError ''Expecting value'') | Some j \<Rightarrow> Inr j)
         | _ \<Rightarrow> Inl transcode_unreachable))"

definition cancel_job :: "network \<Rightarrow> service \<Rightarrow> string \<Rightarrow> (string \<times> json) list result" where
  "cancel_job net s i =
     (case transcode_call net s ''POST'' (''/jobs/'' @ i @ ''/cancel'') [] ''Could not cancel transcode job'' of
        Inl e \<Rightarrow> Inl e
      | Inr (JObj kvs) \<Rightarrow> Inr kvs
      | Inr _ \<Rightarrow> Inr [(''job_id'', JStr i), (''cancelled'', JBool True)])"

definition start_hls_export :: "network \<Rightarrow> service \<Rightarrow> string \<Rightarrow> string \<Rightarrow> (string \<times> json) list result" where
  "start_hls_export net s hls_master_key dest_source_key =
     (case transcode_call net s ''POST'' ''/hls-export''
             [(''hls_master_key'', hls_master_key), (''dest_source_key'', dest_source_key)] ''Could not start HLS export'' of
        Inl e \<Rightarrow> Inl e
      | Inr (JObj kvs) \<Rightarrow>
          if ''export_id'' \<in> fst ` set kvs then Inr kvs
          else Inl (HTTPException 502 ''Invalid HLS export start response'')
      | Inr _ \<Rightarrow> Inl (HTTPException 502 ''Invalid HLS export start response''))"

definition get_hls_export :: "network \<Rightarrow> service \<Rightarrow> string \<Rightarrow> (string \<times> json) list result" where
  "get_hls_export net s export_id =
     (case transcode_call net s ''GET'' (''/hls-export/'' @ export_id) [] ''Could not fetch HLS export status'' of
        Inl e \<Rightarrow> Inl e
      | Inr (JObj kvs) \<Rightarrow> Inr kvs
      | Inr _ \<Rightarrow> Inl (HTTPException 502 ''Invalid HLS export status response''))"

section \<open>The restream service\<close>

definition live_base_url :: "service \<Rightarrow> string result" where
  "live_base_url = base_url ''Live TV service is not configured''"

text \<open>Only a start tells a slow service from an unreachable one.\<close>

definition transport_error :: "http_answer \<Rightarrow> string \<Rightarrow> error" where
  "transport_error a timeout_detail =
     (if a = Read_Timeout then HTTPException 504 timeout_detail
      else HTTPException 502 ''Could not reach live TV service'')"

definition start_timeout_detail :: string where
  "start_timeout_detail = ''Live TV service timed out starting the channel. '' @
     ''Check that the source stream URL is reachable from the live server.''"

definition live_call ::
    "(http_answer \<Rightarrow> error) \<Rightarrow> network \<Rightarrow> service \<Rightarrow> string \<Rightarrow> string \<Rightarrow> (string \<times> string) list \<Rightarrow> string \<Rightarrow> json result" where
  "live_call failed net s verb path payload fallback =
     (case live_base_url s of
        Inl e \<Rightarrow> Inl e
      | Inr base \<Rightarrow>
        (case net \<lparr>hc_method = verb, hc_url = base @ path, hc_headers = media_headers s, hc_json = payload\<rparr> of
           Answer n body \<Rightarrow>
             if \<not> is_success n then Inl (HTTPException n (detail_from_http_error body fallback))
             else (case body of None \<Rightarrow> Inl (ValueError ''Expecting value'') | Some j \<Rightarrow> Inr j)
         | a \<Rightarrow> Inl (failed a)))"

definition object_or :: "(string \<times> json) list \<Rightarrow> json result \<Rightarrow> (string \<times> json) list result" where
  "object_or dflt r = (case r of Inl e \<Rightarrow> Inl e | Inr (JObj kvs) \<Rightarrow> Inr kvs | Inr _ \<Rightarrow> Inr dflt)"

definition live_start :: "network \<Rightarrow> service \<Rightarrow> string \<Rightarrow> string \<Rightarrow> (string \<times> json) list result" where
  "live_start net s channel_id source_url =
     object_or [] (live_call (\<lambda>a. transport_error a start_timeout_detail) net s ''POST''
       (''/channels/'' @ channel_id @ ''/start'') [(''source_url'', source_url)] ''Could not start channel'')"

definition live_stop :: "network \<Rightarrow> service \<Rightarrow> string \<Rightarrow> (string \<times> json) list result" where
  "live_stop net s channel_id =
     object_or [(''status'', JStr ''offline'')]
       (live_call (\<lambda>_. HTTPException 502 ''Could not reach live TV service'') net s ''POST''
          (''/channels/'' @ channel_id @ ''/stop'') [] ''Could not stop channel'')"

definition live_status :: "network \<Rightarrow> service \<Rightarrow> string \<Rightarrow> (string \<times> json) list result" where
  "live_status net s channel_id =
     object_or [] (live_call (\<lambda>_. HTTPException 502 ''Could not reach live TV service'') net s ''GET''
       (''/channels/'' @ channel_id @ ''/status'') [] ''Could not fetch channel status'')"

section \<open>What the clients let through\<close>

text \<open>
  Nothing is sent without a configured address; a service that answers with an error becomes an error of
  this API with the same status, so that the transcoder's 401 for a wrong key reads like a lost login to
  the console.
\<close>

lemma not_configured:
  assumes "sv_url s = []"
  shows "fetch_jobs_progress net s = Inl (HTTPException 503 ''Transcode service is not configured'')"
    and "cancel_job net s i = Inl (HTTPException 503 ''Transcode service is not configured'')"
    and "start_hls_export net s a b = Inl (HTTPException 503 ''Transcode service is not configured'')"
    and "live_start net s c u = Inl (HTTPException 503 ''Live TV service is not configured'')"
    and "live_stop net s c = Inl (HTTPException 503 ''Live TV service is not configured'')"
  using assms
  by (simp_all add: fetch_jobs_progress_def cancel_job_def start_hls_export_def transcode_call_def live_start_def
      live_stop_def live_call_def object_or_def transcode_base_url_def live_base_url_def base_url_def)

lemma cancel_forwards_status:
  assumes "sv_url s \<noteq> []" and "\<And>c. net c = Answer n body" and "\<not> is_success n"
  shows "\<exists>detail. cancel_job net s i = Inl (HTTPException n detail)"
  using assms by (simp add: cancel_job_def transcode_call_def transcode_base_url_def base_url_def)

lemma export_has_id:
  "start_hls_export net s a b = Inr kvs \<Longrightarrow> ''export_id'' \<in> fst ` set kvs"
  by (auto simp: start_hls_export_def split: sum.splits json.splits if_splits)

end
