(* ===== verification/Playback.thy ===== *)
theory Playback
  imports Sweeper Listing Playlists Asset_Keys Remote_Services
begin

text \<open>
  Token-gated playback of films and episodes: \<open>app/services/playback.py\<close>, \<open>app/routers/playback.py\<close> and
  \<open>app/routers/admin/playback.py\<close>. \<open>fetch\<close> is the object storage at the moment of the call (an absent
  object is the error the SDK raises), \<open>presign\<close> its signature of a download URL at a given time, \<open>up\<close>
  whether Redis answers, \<open>w\<close> the worker that serves the request; the playlist texts are in \<open>Playlists\<close>.
\<close>

section \<open>The playlist caches\<close>

definition playlist_cache_ttl :: monotonic where "playlist_cache_ttl = 60"

text \<open>One pair of dicts per worker, and the Redis they share.\<close>

record hls_cache =
  hls_raw :: "nat \<Rightarrow> string \<Rightarrow> (string \<times> monotonic) option"
  hls_variant :: "nat \<Rightarrow> string \<Rightarrow> (string \<times> monotonic) option"
  hls_redis :: redis

definition put_local :: "nat \<Rightarrow> string \<Rightarrow> string \<times> monotonic \<Rightarrow> (nat \<Rightarrow> string \<Rightarrow> (string \<times> monotonic) option) \<Rightarrow>
    nat \<Rightarrow> string \<Rightarrow> (string \<times> monotonic) option" where
  "put_local w key v m = m(w := (m w)(key \<mapsto> v))"

definition get_local :: "monotonic \<Rightarrow> nat \<Rightarrow> string \<Rightarrow> (nat \<Rightarrow> string \<Rightarrow> (string \<times> monotonic) option) \<Rightarrow> string option" where
  "get_local now w key m =
     (case m w key of None \<Rightarrow> None | Some (v, expires) \<Rightarrow> if now < expires then Some v else None)"

definition raw_shared_key :: "string \<Rightarrow> string" where
  "raw_shared_key key = ''hls:raw:'' @ key"

definition get_object_text ::
    "(string \<Rightarrow> string result) \<Rightarrow> bool \<Rightarrow> monotonic \<Rightarrow> nat \<Rightarrow> string \<Rightarrow> hls_cache \<Rightarrow> string result \<times> hls_cache" where
  "get_object_text fetch up now w key s =
     (case get_local now w key (hls_raw s) of
        Some text \<Rightarrow> (Inr text, s)
      | None \<Rightarrow>
        (let shared_key = raw_shared_key key in
         case cache_get_bytes up now shared_key (hls_redis s) of
           Some text \<Rightarrow> (Inr text, s\<lparr>hls_raw := put_local w key (text, now + playlist_cache_ttl) (hls_raw s)\<rparr>)
         | None \<Rightarrow>
           (case fetch key of
              Inl e \<Rightarrow> (Inl e, s)
            | Inr text \<Rightarrow>
                (Inr text, s\<lparr>hls_raw := put_local w key (text, now + playlist_cache_ttl) (hls_raw s),
                   hls_redis := cache_set_bytes up now playlist_cache_ttl shared_key text (hls_redis s)\<rparr>))))"

definition build_master_playlist ::
    "(string \<Rightarrow> string result) \<Rightarrow> bool \<Rightarrow> monotonic \<Rightarrow> nat \<Rightarrow> string \<Rightarrow> string \<Rightarrow> hls_cache \<Rightarrow> string result \<times> hls_cache" where
  "build_master_playlist fetch up now w hls_master_key token s =
     (case get_object_text fetch up now w hls_master_key s of
        (Inl e, s1) \<Rightarrow> (Inl e, s1) | (Inr text, s1) \<Rightarrow> (Inr (master_body token text), s1))"

text \<open>\<open>posixpath.dirname\<close>: up to the last slash, without trailing slashes unless it is all slashes.\<close>

definition dirname :: "string \<Rightarrow> string" where
  "dirname p =
     (let head = rev (dropWhile (\<lambda>c. c \<noteq> CHR ''/'') (rev p)) in
      if list_all (\<lambda>c. c = CHR ''/'') head then head else rstrip_char CHR ''/'' head)"

definition variant_shared_key :: "settings \<Rightarrow> string \<Rightarrow> string" where
  "variant_shared_key cfg variant_key = ''hls:variant:'' @ segment_mode cfg @ '':'' @ variant_key"

definition build_variant_playlist ::
    "settings \<Rightarrow> (monotonic \<Rightarrow> string \<Rightarrow> int \<Rightarrow> string) \<Rightarrow> (string \<Rightarrow> string result) \<Rightarrow> bool \<Rightarrow> monotonic \<Rightarrow> nat \<Rightarrow>
     string \<Rightarrow> string \<Rightarrow> int \<Rightarrow> hls_cache \<Rightarrow> string result \<times> hls_cache" where
  "build_variant_playlist cfg presign fetch up now w hls_master_key variant_name expires_in s =
     (let prefix = dirname hls_master_key;
          variant_key = prefix @ ''/'' @ variant_name;
          shared_key = variant_shared_key cfg variant_key
      in case get_local now w variant_key (hls_variant s) of
           Some body \<Rightarrow> (Inr body, s)
         | None \<Rightarrow>
           (case cache_get_bytes up now shared_key (hls_redis s) of
              Some body \<Rightarrow>
                (Inr body, s\<lparr>hls_variant := put_local w variant_key (body, now + playlist_cache_ttl) (hls_variant s)\<rparr>)
            | None \<Rightarrow>
              (case get_object_text fetch up now w variant_key s of
                 (Inl e, s1) \<Rightarrow> (Inl e, s1)
               | (Inr text, s1) \<Rightarrow>
                 (let body = rewrite_variant_text cfg (presign now) text prefix expires_in;
                      ttl = min playlist_cache_ttl (of_int expires_in)
                  in (Inr body, s1\<lparr>hls_variant := put_local w variant_key (body, now + ttl) (hls_variant s1),
                        hls_redis := cache_set_bytes up now ttl shared_key body (hls_redis s1)\<rparr>)))))"

section \<open>The routes\<close>

definition playable_content_or_404 :: "uuid \<Rightarrow> db \<Rightarrow> content_row result" where
  "playable_content_or_404 cid d =
     (case find_content cid d of
        None \<Rightarrow> Inl (HTTPException 404 ''Content not found'')
      | Some c \<Rightarrow> if \<not> truthy (ct_hls_master_key c) then Inl (HTTPException 409 ''This title is not ready to stream yet'')
                  else Inr c)"

text \<open>The token of the answer's master URL, its lifetime.\<close>

definition playback_grant :: "(claims \<Rightarrow> string) \<Rightarrow> settings \<Rightarrow> datetime \<Rightarrow> content_row \<Rightarrow> (string \<times> int) result" where
  "playback_grant encode cfg now c =
     (if \<not> truthy (ct_hls_master_key c) then Inl (HTTPException 409 ''This title is not ready to stream yet'')
      else Inr (create_playback_token encode now (ct_id c) (playback_token_expiry_seconds cfg),
                playback_token_expiry_seconds cfg))"

definition free_flag_of :: "content_row \<Rightarrow> db \<Rightarrow> bool option" where
  "free_flag_of c d = (if ct_type c = ''single'' \<and> \<not> ct_is_free c then Some (is_free_today (ct_id c) d) else None)"

text \<open>
  One request: \<open>d\<close> is the committed database it starts from and \<open>w\<close> the process state behind the NBC
  checks; the answer comes with both afterwards and the Telegram alerts the request delivers. A settle
  is committed with a plain \<open>db.commit()\<close>, and only \<open>commit_with_telegram\<close> sends queued alerts, so
  there are none. Without a settle nothing is committed.
\<close>

definition authorize_playback ::
    "(claims \<Rightarrow> string) \<Rightarrow> env \<Rightarrow> user_row option \<Rightarrow> string option \<Rightarrow> uuid \<Rightarrow> db \<Rightarrow> guards \<Rightarrow>
     (string \<times> int) result \<times> db \<times> guards \<times> alert list" where
  "authorize_playback encode e user cookie cid d w =
     (let now = c_utc (e_clk e); cfg = e_cfg e;
          guest_id = (if user = None then cookie else None);
          denied = Inl (HTTPException 403 ''You do not have access to this title'')
      in case get_published_content_or_404 cid user d of
           Inl err \<Rightarrow> (Inl err, d, w, [])
         | Inr c \<Rightarrow>
           (let flag = free_flag_of c d in
            if can_access_content now user guest_id c flag d then (playback_grant encode cfg now c, d, w, [])
            else if ct_type c \<noteq> ''single'' then (denied, d, w, [])
            else (case settle_pending_movie_bakong_for_buyer e cid (map_option user_id user) guest_id
                         \<lparr>b_tx = open_tx d, b_guards = w\<rparr> of
                    (Inl err, b) \<Rightarrow> (Inl err, d, b_guards b, [])
                  | (Inr False, b) \<Rightarrow> (denied, d, b_guards b, [])
                  | (Inr True, b) \<Rightarrow>
                    (case tx_mode (b_tx b) of
                       FailedFlush \<Rightarrow> (Inl IntegrityError, d, b_guards b, [])
                     | m \<Rightarrow>
                       (let d1 = (if m = Live then tx_db (b_tx b) else d)
                        in (if can_access_content now user guest_id c flag d1 then playback_grant encode cfg now c
                            else denied, d1, b_guards b, []))))))"

definition master_playlist ::
    "(string \<Rightarrow> claims option) \<Rightarrow> (string \<Rightarrow> string result) \<Rightarrow> bool \<Rightarrow> monotonic \<Rightarrow> nat \<Rightarrow> uuid \<Rightarrow> string \<Rightarrow> db \<Rightarrow>
     hls_cache \<Rightarrow> string result \<times> hls_cache" where
  "master_playlist decode fetch up now w cid t d s =
     (case verify_playback_token decode t cid of
        Inl e \<Rightarrow> (Inl e, s)
      | Inr _ \<Rightarrow>
        (case playable_content_or_404 cid d of
           Inl e \<Rightarrow> (Inl e, s)
         | Inr c \<Rightarrow> build_master_playlist fetch up now w (the (ct_hls_master_key c)) t s))"

text \<open>\<open>^[A-Za-z0-9_.-]+\.m3u8$\<close> with \<open>re.match\<close>: the dollar sign also matches before a final newline.\<close>

definition variant_char :: "char \<Rightarrow> bool" where
  "variant_char c \<longleftrightarrow> is_token_char c \<or> c = CHR ''.'' \<or> c = CHR ''-''"

definition valid_variant_name :: "string \<Rightarrow> bool" where
  "valid_variant_name name =
     (let n = (if name \<noteq> [] \<and> last name = CHR 0x0A then butlast name else name) in
      list_all variant_char n \<and> ends_with ''.m3u8'' n \<and> 5 < length n)"

definition variant_playlist ::
    "settings \<Rightarrow> (monotonic \<Rightarrow> string \<Rightarrow> int \<Rightarrow> string) \<Rightarrow> (string \<Rightarrow> claims option) \<Rightarrow> (string \<Rightarrow> string result) \<Rightarrow> bool \<Rightarrow>
     monotonic \<Rightarrow> nat \<Rightarrow> uuid \<Rightarrow> string \<Rightarrow> string \<Rightarrow> db \<Rightarrow> hls_cache \<Rightarrow> string result \<times> hls_cache" where
  "variant_playlist cfg presign decode fetch up now w cid name t d s =
     (if \<not> valid_variant_name name then (Inl (HTTPException 400 ''Invalid rendition''), s)
      else (case verify_playback_token decode t cid of
        Inl e \<Rightarrow> (Inl e, s)
      | Inr _ \<Rightarrow>
        (case playable_content_or_404 cid d of
           Inl e \<Rightarrow> (Inl e, s)
         | Inr c \<Rightarrow> build_variant_playlist cfg presign fetch up now w (the (ct_hls_master_key c)) name
                       (playback_token_expiry_seconds cfg) s)))"

section \<open>Administration\<close>

definition load_content :: "uuid \<Rightarrow> db \<Rightarrow> content_row result" where
  "load_content cid d =
     (case find_content cid d of None \<Rightarrow> Inl (HTTPException 404 ''Content not found'') | Some c \<Rightarrow> Inr c)"

definition source_key_for_content :: "content_row \<Rightarrow> db \<Rightarrow> string option" where
  "source_key_for_content c d =
     (if ct_type c = ''single'' then Some (movie_source_key (ct_slug c))
      else if ct_type c = ''episode'' then
        (case ct_series_id c of
           None \<Rightarrow> None
         | Some sid \<Rightarrow>
           map_option (\<lambda>s. episode_source_key (ser_slug s) (ct_slug c)) (select_one (\<lambda>s. ser_id s = sid) (series_table d)))
      else None)"

definition admin_authorize_playback ::
    "(claims \<Rightarrow> string) \<Rightarrow> settings \<Rightarrow> datetime \<Rightarrow> uuid \<Rightarrow> db \<Rightarrow> (string \<times> int) result" where
  "admin_authorize_playback encode cfg now cid d =
     (case load_content cid d of Inl e \<Rightarrow> Inl e | Inr c \<Rightarrow> playback_grant encode cfg now c)"

text \<open>\<open>str.isalnum\<close> on ASCII.\<close>

definition is_alnum :: "char \<Rightarrow> bool" where
  "is_alnum c \<longleftrightarrow> is_token_char c \<and> c \<noteq> CHR ''_''"

definition download_filename :: "content_row \<Rightarrow> string" where
  "download_filename c =
     (let raw = strip (if ct_slug c = [] then string_of_nat (ct_id c) else ct_slug c);
          base = (if raw = [] then ''video'' else raw);
          safe = map (\<lambda>ch. if is_alnum ch \<or> ch \<in> set ''-_.'' then ch else CHR ''-'') base;
          edge = (\<lambda>ch. ch \<in> set ''-._'');
          trimmed = rev (dropWhile edge (rev (dropWhile edge safe)))
      in (if trimmed = [] then ''video'' else trimmed) @ ''.mp4'')"

text \<open>
  The key and name of the presigned URL. A missing source answers 409 as well, with the flag that a
  rebuild from the stream is possible.
\<close>

datatype source_answer = Source_Url string string | Source_Missing bool

definition admin_source_video_url :: "(string \<Rightarrow> bool) \<Rightarrow> uuid \<Rightarrow> db \<Rightarrow> source_answer result" where
  "admin_source_video_url exists cid d =
     (case load_content cid d of
        Inl e \<Rightarrow> Inl e
      | Inr c \<Rightarrow>
        (case source_key_for_content c d of
           None \<Rightarrow> Inl (HTTPException 409 ''No source video is configured for this title'')
         | Some key \<Rightarrow>
             if \<not> exists key then Inr (Source_Missing (truthy (ct_hls_master_key c)))
             else Inr (Source_Url key (download_filename c))))"

datatype rebuild_answer = Already_Exists string | Export_Started json json string

definition admin_rebuild_source_from_hls ::
    "(string \<Rightarrow> bool) \<Rightarrow> network \<Rightarrow> service \<Rightarrow> uuid \<Rightarrow> db \<Rightarrow> rebuild_answer result" where
  "admin_rebuild_source_from_hls exists net s cid d =
     (case load_content cid d of
        Inl e \<Rightarrow> Inl e
      | Inr c \<Rightarrow>
          if \<not> truthy (ct_hls_master_key c) then Inl (HTTPException 409 ''No HLS stream is available to rebuild from'')
          else (case source_key_for_content c d of
             None \<Rightarrow> Inl (HTTPException 409 ''No source video path is configured for this title'')
           | Some key \<Rightarrow>
               if exists key then Inr (Already_Exists key)
               else (case start_hls_export net s (the (ct_hls_master_key c)) key of
                       Inl e \<Rightarrow> Inl e
                     | Inr kvs \<Rightarrow>
                         Inr (Export_Started (json_get JNull ''export_id'' kvs) (json_get (JStr ''queued'') ''status'' kvs) key))))"

definition admin_rebuild_status :: "network \<Rightarrow> service \<Rightarrow> uuid \<Rightarrow> string \<Rightarrow> db \<Rightarrow> (string \<times> json) list result" where
  "admin_rebuild_status net s cid export_id d =
     (if export_id \<in> {[], ''null'', ''undefined''} then Inl (HTTPException 400 ''A valid export_id is required'')
      else (case load_content cid d of Inl e \<Rightarrow> Inl e | Inr _ \<Rightarrow> get_hls_export net s export_id))"

section \<open>How old a served playlist can be\<close>

datatype hls_request = MasterText string | VariantText string string

record hls_event =
  ev_time :: monotonic
  ev_worker :: nat
  ev_up :: bool
  ev_fetch :: "string \<Rightarrow> string result"
  ev_request :: hls_request

definition hls_step ::
    "settings \<Rightarrow> (monotonic \<Rightarrow> string \<Rightarrow> int \<Rightarrow> string) \<Rightarrow> int \<Rightarrow> hls_event \<Rightarrow> hls_cache \<Rightarrow> string result \<times> hls_cache" where
  "hls_step cfg presign ttl ev s =
     (case ev_request ev of
        MasterText k \<Rightarrow> get_object_text (ev_fetch ev) (ev_up ev) (ev_time ev) (ev_worker ev) k s
      | VariantText k n \<Rightarrow>
          build_variant_playlist cfg presign (ev_fetch ev) (ev_up ev) (ev_time ev) (ev_worker ev) k n ttl s)"

definition hls_run ::
    "settings \<Rightarrow> (monotonic \<Rightarrow> string \<Rightarrow> int \<Rightarrow> string) \<Rightarrow> int \<Rightarrow> hls_event list \<Rightarrow> hls_cache" where
  "hls_run cfg presign ttl evs = fold (\<lambda>ev s. snd (hls_step cfg presign ttl ev s)) evs
     \<lparr>hls_raw = \<lambda>_ _. None, hls_variant = \<lambda>_ _. None, hls_redis = \<lambda>_. None\<rparr>"

text \<open>The storage held \<open>text\<close> under \<open>key\<close> at the time of one of the events.\<close>

definition held :: "hls_event list \<Rightarrow> string \<Rightarrow> string \<Rightarrow> monotonic \<Rightarrow> bool" where
  "held H key text t0 \<longleftrightarrow> (\<exists>ev \<in> set H. ev_time ev = t0 \<and> ev_fetch ev key = Inr text)"

fun plain_request :: "hls_request \<Rightarrow> bool" where
  "plain_request (MasterText _) = True"
| "plain_request (VariantText _ n) = (CHR ''/'' \<notin> set n)"

text \<open>A rewritten rendition that expires at \<open>e\<close>: what it was made from, and when.\<close>

definition built ::
    "settings \<Rightarrow> (monotonic \<Rightarrow> string \<Rightarrow> int \<Rightarrow> string) \<Rightarrow> int \<Rightarrow> hls_event list \<Rightarrow> string \<Rightarrow> string \<Rightarrow> string \<Rightarrow>
     monotonic \<Rightarrow> monotonic \<Rightarrow> bool" where
  "built cfg presign ttl H k n body t0 t1 \<longleftrightarrow> (\<exists>text. held H (dirname k @ ''/'' @ n) text t0 \<and>
     t1 \<in> ev_time ` set H \<and> body = rewrite_variant_text cfg (presign t1) text (dirname k) ttl)"

definition raw_ok :: "hls_event list \<Rightarrow> (nat \<Rightarrow> string \<Rightarrow> (string \<times> monotonic) option) \<Rightarrow> bool" where
  "raw_ok H m \<longleftrightarrow> (\<forall>w k text e. m w k = Some (text, e) \<longrightarrow> (\<exists>t0. held H k text t0 \<and> e \<le> t0 + 120))"

definition raw_shared_ok :: "hls_event list \<Rightarrow> redis \<Rightarrow> bool" where
  "raw_shared_ok H R \<longleftrightarrow> (\<forall>k text e. R (raw_shared_key k) = Some (e, text) \<longrightarrow> (\<exists>t0. held H k text t0 \<and> e \<le> t0 + 60))"

definition variant_ok ::
    "settings \<Rightarrow> (monotonic \<Rightarrow> string \<Rightarrow> int \<Rightarrow> string) \<Rightarrow> int \<Rightarrow> hls_event list \<Rightarrow>
     (nat \<Rightarrow> string \<Rightarrow> (string \<times> monotonic) option) \<Rightarrow> bool" where
  "variant_ok cfg presign ttl H m \<longleftrightarrow>
     (\<forall>w k n body e. CHR ''/'' \<notin> set n \<longrightarrow> m w (dirname k @ ''/'' @ n) = Some (body, e) \<longrightarrow>
        (\<exists>t0 t1. built cfg presign ttl H k n body t0 t1 \<and> e \<le> t0 + 240 \<and> e \<le> t1 + 120))"

definition variant_shared_ok ::
    "settings \<Rightarrow> (monotonic \<Rightarrow> string \<Rightarrow> int \<Rightarrow> string) \<Rightarrow> int \<Rightarrow> hls_event list \<Rightarrow> redis \<Rightarrow> bool" where
  "variant_shared_ok cfg presign ttl H R \<longleftrightarrow>
     (\<forall>k n body e. CHR ''/'' \<notin> set n \<longrightarrow> R (variant_shared_key cfg (dirname k @ ''/'' @ n)) = Some (e, body) \<longrightarrow>
        (\<exists>t0 t1. built cfg presign ttl H k n body t0 t1 \<and> e \<le> t0 + 180 \<and> e \<le> t1 + 60))"

definition hls_traced ::
    "settings \<Rightarrow> (monotonic \<Rightarrow> string \<Rightarrow> int \<Rightarrow> string) \<Rightarrow> int \<Rightarrow> hls_event list \<Rightarrow> hls_cache \<Rightarrow> bool" where
  "hls_traced cfg presign ttl H s \<longleftrightarrow> raw_ok H (hls_raw s) \<and> raw_shared_ok H (hls_redis s) \<and>
     variant_ok cfg presign ttl H (hls_variant s) \<and> variant_shared_ok cfg presign ttl H (hls_redis s)"

lemma held_mono: "held H k text t0 \<Longrightarrow> set H \<subseteq> set H' \<Longrightarrow> held H' k text t0"
  by (auto simp: held_def)

lemma built_mono: "built cfg presign ttl H k n body t0 t1 \<Longrightarrow> set H \<subseteq> set H' \<Longrightarrow> built cfg presign ttl H' k n body t0 t1"
  unfolding built_def using held_mono by blast

lemma hls_traced_mono:
  assumes "hls_traced cfg presign ttl H s" and sub: "set H \<subseteq> set H'"
  shows "hls_traced cfg presign ttl H' s"
proof -
  have h: "held H k x t \<Longrightarrow> held H' k x t" for k x t using held_mono sub by blast
  have b: "built cfg presign ttl H k n x t0 t1 \<Longrightarrow> built cfg presign ttl H' k n x t0 t1" for k n x t0 t1
    using built_mono sub by blast
  have "raw_ok H' (hls_raw s)" "raw_shared_ok H' (hls_redis s)"
    using assms(1) h unfolding hls_traced_def raw_ok_def raw_shared_ok_def by meson+
  moreover have "variant_ok cfg presign ttl H' (hls_variant s)" "variant_shared_ok cfg presign ttl H' (hls_redis s)"
    using assms(1) b unfolding hls_traced_def variant_ok_def variant_shared_ok_def by meson+
  ultimately show ?thesis by (simp add: hls_traced_def)
qed

lemma last_segment:
  assumes "p @ ''/'' @ n = p' @ ''/'' @ n'" and "CHR ''/'' \<notin> set n" and "CHR ''/'' \<notin> set n'"
  shows "p = p' \<and> n = n'"
proof -
  have tk: "takeWhile (\<lambda>c. c \<noteq> CHR ''/'') (rev m @ CHR ''/'' # q) = rev m" if "CHR ''/'' \<notin> set m" for m q :: string
    by (subst takeWhile_append2) (use that in auto)
  have "rev n @ CHR ''/'' # rev p = rev n' @ CHR ''/'' # rev p'" using arg_cong [OF assms(1), of rev] by simp
  then have "rev n = rev n'" using tk [OF assms(2)] tk [OF assms(3)] by metis
  then show ?thesis using assms(1) by simp
qed

lemma shared_keys [simp]:
  "raw_shared_key k \<noteq> variant_shared_key cfg v" "variant_shared_key cfg v \<noteq> raw_shared_key k"
  "variant_shared_key cfg v = variant_shared_key cfg v' \<longleftrightarrow> v = v'" "raw_shared_key k = raw_shared_key k' \<longleftrightarrow> k = k'"
  by (simp_all add: variant_shared_key_def raw_shared_key_def)

lemma put_local_iff: "put_local w k v m w' k' = (if w' = w \<and> k' = k then Some v else m w' k')"
  by (simp add: put_local_def)

lemma get_local_Some: "get_local now w k m = Some v \<longleftrightarrow> (\<exists>e. m w k = Some (v, e) \<and> now < e)"
  by (auto simp: get_local_def split: option.splits if_splits)

lemma cache_bytes_Some: "cache_get_bytes up now k R = Some v \<longleftrightarrow> up \<and> (\<exists>e. R k = Some (e, v) \<and> now < e)"
  by (auto simp: cache_get_bytes_def split: option.splits if_splits)

lemma cache_set_iff: "cache_set_bytes up now ttl k v R k' =
    (if up \<and> k' = k then Some (now + max 1 (of_int \<lfloor>ttl\<rfloor>), v) else R k')"
  by (simp add: cache_set_bytes_def)

lemma shared_ttl: "max 1 (of_int \<lfloor>min 60 x\<rfloor> :: rat) \<le> 60" for x :: rat
proof -
  have "(of_int \<lfloor>min 60 x\<rfloor> :: rat) \<le> min 60 x" by (rule of_int_floor_le)
  then show ?thesis by simp
qed

lemma raw_ok_put: "raw_ok H m \<Longrightarrow> held H k x t0 \<Longrightarrow> e \<le> t0 + 120 \<Longrightarrow> raw_ok H (put_local w k (x, e) m)"
  by (auto simp: raw_ok_def put_local_iff)

lemma raw_shared_ok_put:
  "raw_shared_ok H R \<Longrightarrow> held H k x t0 \<Longrightarrow> now + max 1 (of_int \<lfloor>ttl\<rfloor>) \<le> t0 + 60 \<Longrightarrow>
   raw_shared_ok H (cache_set_bytes up now ttl (raw_shared_key k) x R)"
  by (auto simp: raw_shared_ok_def cache_set_iff)

lemma raw_shared_ok_other: "raw_shared_ok H R \<Longrightarrow>
   raw_shared_ok H (cache_set_bytes up now ttl (variant_shared_key cfg v) x R)"
  by (auto simp: raw_shared_ok_def cache_set_iff)

lemma variant_shared_ok_other: "variant_shared_ok cfg presign ttl H R \<Longrightarrow>
   variant_shared_ok cfg presign ttl H (cache_set_bytes up now t (raw_shared_key k) x R)"
  by (auto simp: variant_shared_ok_def cache_set_iff)

lemma built_same: "dirname k' = dirname k \<Longrightarrow> built cfg presign ttl H k' n x t0 t1 = built cfg presign ttl H k n x t0 t1"
  by (simp add: built_def)

lemma variant_ok_put:
  assumes ok: "variant_ok cfg presign ttl H m" and b: "built cfg presign ttl H k n x t0 t1"
    and n: "CHR ''/'' \<notin> set n" and e: "e \<le> t0 + 240" "e \<le> t1 + 120"
  shows "variant_ok cfg presign ttl H (put_local w (dirname k @ ''/'' @ n) (x, e) m)"
  unfolding variant_ok_def
proof (intro allI impI)
  fix w' k' n' body e'
  assume n': "CHR ''/'' \<notin> set n'" and at: "put_local w (dirname k @ ''/'' @ n) (x, e) m w' (dirname k' @ ''/'' @ n') = Some (body, e')"
  show "\<exists>t0 t1. built cfg presign ttl H k' n' body t0 t1 \<and> e' \<le> t0 + 240 \<and> e' \<le> t1 + 120"
  proof (cases "w' = w \<and> dirname k' @ ''/'' @ n' = dirname k @ ''/'' @ n")
    case True
    then have "dirname k' = dirname k" "n' = n" using last_segment [OF _ n' n] by blast+
    moreover have "body = x" "e' = e" using at [unfolded put_local_iff if_P [OF True]] by simp_all
    ultimately show ?thesis using b e built_same [of k' k] by blast
  next
    case False
    then have "m w' (dirname k' @ ''/'' @ n') = Some (body, e')" using at by (simp only: put_local_iff if_False)
    then show ?thesis using ok n' unfolding variant_ok_def by blast
  qed
qed

lemma variant_shared_ok_put:
  assumes ok: "variant_shared_ok cfg presign ttl H R" and b: "built cfg presign ttl H k n x t0 t1"
    and n: "CHR ''/'' \<notin> set n" and e: "now + max 1 (of_int \<lfloor>t\<rfloor>) \<le> t0 + 180" "now + max 1 (of_int \<lfloor>t\<rfloor>) \<le> t1 + 60"
  shows "variant_shared_ok cfg presign ttl H
    (cache_set_bytes up now t (variant_shared_key cfg (dirname k @ ''/'' @ n)) x R)"
  unfolding variant_shared_ok_def
proof (intro allI impI)
  fix k' n' body e'
  assume n': "CHR ''/'' \<notin> set n'"
    and at: "cache_set_bytes up now t (variant_shared_key cfg (dirname k @ ''/'' @ n)) x R
      (variant_shared_key cfg (dirname k' @ ''/'' @ n')) = Some (e', body)"
  show "\<exists>t0 t1. built cfg presign ttl H k' n' body t0 t1 \<and> e' \<le> t0 + 180 \<and> e' \<le> t1 + 60"
  proof (cases "up \<and> dirname k' @ ''/'' @ n' = dirname k @ ''/'' @ n")
    case True
    then have "dirname k' = dirname k" "n' = n" using last_segment [OF _ n' n] by blast+
    moreover have "body = x" "e' = now + max 1 (of_int \<lfloor>t\<rfloor>)"
      using at [unfolded cache_set_iff shared_keys if_P [OF True]] by simp_all
    ultimately show ?thesis using b e built_same [of k' k] by blast
  next
    case False
    then have "R (variant_shared_key cfg (dirname k' @ ''/'' @ n')) = Some (e', body)"
      using at by (simp only: cache_set_iff shared_keys if_False)
    then show ?thesis using ok n' unfolding variant_shared_ok_def by blast
  qed
qed

lemma traced_object:
  assumes tr: "hls_traced cfg presign ttl H s" and ev: "ev \<in> set H" "ev_fetch ev = fetch" "ev_time ev = now"
    and run: "get_object_text fetch up now w k s = (r, s')"
  shows "hls_traced cfg presign ttl H s' \<and> (\<forall>text. r = Inr text \<longrightarrow> (\<exists>t0. held H k text t0 \<and> now < t0 + 120))"
proof (cases "get_local now w k (hls_raw s)")
  case (Some x)
  then obtain e where "hls_raw s w k = Some (x, e)" "now < e" by (auto simp: get_local_Some)
  then obtain t0 where "held H k x t0" "now < t0 + 120"
    using tr unfolding hls_traced_def raw_ok_def by (meson less_le_trans)
  then show ?thesis using run Some tr by (auto simp: get_object_text_def)
next
  case miss: None
  show ?thesis
  proof (cases "cache_get_bytes up now (raw_shared_key k) (hls_redis s)")
    case (Some x)
    then obtain e where e: "hls_redis s (raw_shared_key k) = Some (e, x)" "now < e" by (auto simp: cache_bytes_Some)
    then obtain t0 where t0: "held H k x t0" "now < t0 + 60"
      using tr unfolding hls_traced_def raw_shared_ok_def by (meson less_le_trans)
    have s': "r = Inr x" "s' = s\<lparr>hls_raw := put_local w k (x, now + playlist_cache_ttl) (hls_raw s)\<rparr>"
      using run miss Some by (simp_all add: get_object_text_def Let_def)
    have "now + playlist_cache_ttl \<le> t0 + 120" using t0(2) by (simp add: playlist_cache_ttl_def)
    then have "hls_traced cfg presign ttl H s'"
      using tr raw_ok_put [OF _ t0(1)] unfolding s' hls_traced_def by simp
    moreover have "now < t0 + 120" using t0(2) by simp
    ultimately show ?thesis using s' t0(1) by auto
  next
    case none: None
    show ?thesis
    proof (cases "fetch k")
      case (Inl e)
      then show ?thesis using run miss none tr by (auto simp: get_object_text_def)
    next
      case (Inr x)
      have h: "held H k x now" using ev Inr by (auto simp: held_def)
      have s': "r = Inr x" "s' = s\<lparr>hls_raw := put_local w k (x, now + playlist_cache_ttl) (hls_raw s),
          hls_redis := cache_set_bytes up now playlist_cache_ttl (raw_shared_key k) x (hls_redis s)\<rparr>"
        using run miss none Inr by (simp_all add: get_object_text_def Let_def)
      have e: "now + max 1 (of_int \<lfloor>playlist_cache_ttl\<rfloor>) \<le> now + 60" "now + playlist_cache_ttl \<le> now + 120"
        by (simp_all add: playlist_cache_ttl_def)
      have "hls_traced cfg presign ttl H s'"
        using tr raw_ok_put [OF _ h e(2)] raw_shared_ok_put [OF _ h e(1)] variant_shared_ok_other
        unfolding s' hls_traced_def by simp
      moreover have "now < now + 120" by simp
      ultimately show ?thesis using s' h by auto
    qed
  qed
qed

lemma traced_variant:
  assumes tr: "hls_traced cfg presign ttl H s" and ev: "ev \<in> set H" "ev_fetch ev = fetch" "ev_time ev = now"
    and n: "CHR ''/'' \<notin> set n" and run: "build_variant_playlist cfg presign fetch up now w k n ttl s = (r, s')"
  shows "hls_traced cfg presign ttl H s' \<and> (\<forall>body. r = Inr body \<longrightarrow>
    (\<exists>t0 t1. built cfg presign ttl H k n body t0 t1 \<and> now < t0 + 240 \<and> now < t1 + 120))"
proof (cases "get_local now w (dirname k @ ''/'' @ n) (hls_variant s)")
  case (Some x)
  then obtain e where e: "hls_variant s w (dirname k @ ''/'' @ n) = Some (x, e)" "now < e" by (auto simp: get_local_Some)
  then obtain t0 t1 where "built cfg presign ttl H k n x t0 t1" "e \<le> t0 + 240" "e \<le> t1 + 120"
    using tr n unfolding hls_traced_def variant_ok_def by blast
  then have "\<exists>t0 t1. built cfg presign ttl H k n x t0 t1 \<and> now < t0 + 240 \<and> now < t1 + 120"
    using e(2) by (meson less_le_trans)
  then show ?thesis using run Some tr by (auto simp: build_variant_playlist_def Let_def)
next
  case miss: None
  let ?v = "dirname k @ ''/'' @ n"
  show ?thesis
  proof (cases "cache_get_bytes up now (variant_shared_key cfg ?v) (hls_redis s)")
    case (Some x)
    then obtain e where e: "hls_redis s (variant_shared_key cfg ?v) = Some (e, x)" "now < e" by (auto simp: cache_bytes_Some)
    then obtain t0 t1 where b: "built cfg presign ttl H k n x t0 t1" "e \<le> t0 + 180" "e \<le> t1 + 60"
      using tr n unfolding hls_traced_def variant_shared_ok_def by blast
    then have t: "now + playlist_cache_ttl \<le> t0 + 240" "now + playlist_cache_ttl \<le> t1 + 120" "now < t0 + 240" "now < t1 + 120"
      using e(2) by (simp_all add: playlist_cache_ttl_def)
    have s': "r = Inr x" "s' = s\<lparr>hls_variant := put_local w ?v (x, now + playlist_cache_ttl) (hls_variant s)\<rparr>"
      using run miss Some by (simp_all add: build_variant_playlist_def Let_def)
    have "hls_traced cfg presign ttl H s'"
      using tr variant_ok_put [OF _ b(1) n t(1,2)] unfolding s' hls_traced_def by simp
    then show ?thesis using s' b(1) t by auto
  next
    case none: None
    obtain q s1 where g: "get_object_text fetch up now w ?v s = (q, s1)" by fastforce
    note obj = traced_object [OF tr ev g]
    show ?thesis
    proof (cases q)
      case (Inl e)
      then show ?thesis using run miss none g obj by (auto simp: build_variant_playlist_def Let_def)
    next
      case (Inr raw)
      obtain t0 where t0: "held H ?v raw t0" "now < t0 + 120" using obj Inr by blast
      let ?body = "rewrite_variant_text cfg (presign now) raw (dirname k) ttl" and ?ttl = "min playlist_cache_ttl (of_int ttl)"
      have s': "r = Inr ?body" "s' = s1\<lparr>hls_variant := put_local w ?v (?body, now + ?ttl) (hls_variant s1),
          hls_redis := cache_set_bytes up now ?ttl (variant_shared_key cfg ?v) ?body (hls_redis s1)\<rparr>"
        using run miss none g Inr by (simp_all add: build_variant_playlist_def Let_def)
      have b: "built cfg presign ttl H k n ?body t0 now" using t0(1) ev by (auto simp: built_def)
      have t: "now + ?ttl \<le> t0 + 240" "now + ?ttl \<le> now + 120"
        "now + max 1 (of_int \<lfloor>?ttl\<rfloor>) \<le> t0 + 180" "now + max 1 (of_int \<lfloor>?ttl\<rfloor>) \<le> now + 60"
        using t0(2) shared_ttl [of "of_int ttl"] by (auto simp: playlist_cache_ttl_def min_def)
      have "hls_traced cfg presign ttl H s'"
        using obj variant_ok_put [OF _ b n t(1,2)] variant_shared_ok_put [OF _ b n t(3,4)] raw_shared_ok_other
        unfolding s' hls_traced_def by simp
      moreover have "now < t0 + 240" "now < now + 120" using t0(2) by simp_all
      ultimately show ?thesis using s'(1) b by blast
    qed
  qed
qed

lemma traced_hls_run:
  "\<forall>ev \<in> set evs. plain_request (ev_request ev) \<Longrightarrow> hls_traced cfg presign ttl evs (hls_run cfg presign ttl evs)"
proof (induction evs rule: rev_induct)
  case Nil
  show ?case by (simp add: hls_run_def hls_traced_def raw_ok_def raw_shared_ok_def variant_ok_def variant_shared_ok_def)
next
  case (snoc ev evs)
  let ?s = "hls_run cfg presign ttl evs"
  have "hls_traced cfg presign ttl evs ?s" using snoc by simp
  then have tr: "hls_traced cfg presign ttl (evs @ [ev]) ?s" by (rule hls_traced_mono) auto
  obtain r s' where st: "hls_step cfg presign ttl ev ?s = (r, s')" by fastforce
  have "hls_traced cfg presign ttl (evs @ [ev]) s'"
  proof (cases "ev_request ev")
    case (MasterText k)
    then show ?thesis using traced_object [OF tr, of ev] st by (auto simp: hls_step_def)
  next
    case (VariantText k n)
    then show ?thesis using traced_variant [OF tr, of ev] snoc.prems st by (auto simp: hls_step_def)
  qed
  then show ?case using st by (simp add: hls_run_def)
qed

text \<open>
  Served playlists are bounded in age. In any history of playlist requests, served by any workers
  while the storage changes under them, with or without Redis, the text behind a served master was in
  the storage less than 120 s ago, and a served rendition is the rewriting, with segment addresses
  signed less than 120 s ago, of a text that was in the storage less than 240 s ago.
\<close>

theorem playlist_staleness:
  assumes "\<forall>x \<in> set (evs @ [ev]). plain_request (ev_request x)"
    and "fst (hls_step cfg presign ttl ev (hls_run cfg presign ttl evs)) = Inr body"
  shows "(\<forall>k. ev_request ev = MasterText k \<longrightarrow> (\<exists>t0. held (evs @ [ev]) k body t0 \<and> ev_time ev < t0 + 120)) \<and>
    (\<forall>k n. ev_request ev = VariantText k n \<longrightarrow>
      (\<exists>t0 t1 text. held (evs @ [ev]) (dirname k @ ''/'' @ n) text t0 \<and> ev_time ev < t0 + 240 \<and>
        t1 \<in> ev_time ` set (evs @ [ev]) \<and> ev_time ev < t1 + 120 \<and>
        body = rewrite_variant_text cfg (presign t1) text (dirname k) ttl))"
proof -
  let ?s = "hls_run cfg presign ttl evs"
  have "hls_traced cfg presign ttl evs ?s" using traced_hls_run assms(1) by simp
  then have tr: "hls_traced cfg presign ttl (evs @ [ev]) ?s" by (rule hls_traced_mono) auto
  obtain s' where st: "hls_step cfg presign ttl ev ?s = (Inr body, s')" using assms(2) by (metis prod.collapse)
  show ?thesis
  proof (cases "ev_request ev")
    case (MasterText k)
    then show ?thesis using traced_object [OF tr, of ev] st by (auto simp: hls_step_def)
  next
    case (VariantText k n)
    then have "\<exists>t0 t1. built cfg presign ttl (evs @ [ev]) k n body t0 t1 \<and> ev_time ev < t0 + 240 \<and> ev_time ev < t1 + 120"
      using traced_variant [OF tr, of ev] assms(1) st by (auto simp: hls_step_def)
    then obtain t0 t1 where "built cfg presign ttl (evs @ [ev]) k n body t0 t1" "ev_time ev < t0 + 240" "ev_time ev < t1 + 120"
      by blast
    then show ?thesis using VariantText by (simp add: built_def) metis
  qed
qed


text \<open>A rendition re-encoded right after it was cached is still served old after 239 seconds.\<close>

definition old_storage :: "string \<Rightarrow> string result" where
  "old_storage key = Inr ''old.ts''"

definition new_storage :: "string \<Rightarrow> string result" where
  "new_storage key = Inr ''new.ts''"

definition ask :: "monotonic \<Rightarrow> nat \<Rightarrow> (string \<Rightarrow> string result) \<Rightarrow> hls_request \<Rightarrow> hls_event" where
  "ask t w fetch rq = \<lparr>ev_time = t, ev_worker = w, ev_up = True, ev_fetch = fetch, ev_request = rq\<rparr>"

definition stale_history :: "hls_event list" where
  "stale_history = [ask 0 0 old_storage (MasterText ''h/a.m3u8''), ask 59 1 new_storage (MasterText ''h/a.m3u8''),
     ask 118 1 new_storage (VariantText ''h/m.m3u8'' ''a.m3u8''), ask 177 2 new_storage (VariantText ''h/m.m3u8'' ''a.m3u8'')]"

theorem playlist_staleness_witness:
  "fst (hls_step default_settings (\<lambda>_ k _. k) 21600 (ask 236 2 new_storage (VariantText ''h/m.m3u8'' ''a.m3u8''))
      (hls_run default_settings (\<lambda>_ k _. k) 21600 stale_history)) = Inr (''h/old.ts'' @ nl) \<and>
   (\<exists>t0. 236 < t0 + (240 :: monotonic) \<and> (\<exists>text. held (stale_history @ [ask 236 2 new_storage (VariantText ''h/m.m3u8'' ''a.m3u8'')])
      (dirname ''h/m.m3u8'' @ ''/'' @ ''a.m3u8'') text t0))"
proof
  show served: "fst (hls_step default_settings (\<lambda>_ k _. k) 21600 (ask 236 2 new_storage (VariantText ''h/m.m3u8'' ''a.m3u8''))
      (hls_run default_settings (\<lambda>_ k _. k) 21600 stale_history)) = Inr (''h/old.ts'' @ nl)" by code_simp
  have "\<forall>x \<in> set (stale_history @ [ask 236 2 new_storage (VariantText ''h/m.m3u8'' ''a.m3u8'')]). plain_request (ev_request x)"
    by (simp add: stale_history_def ask_def)
  from playlist_staleness [OF this served, THEN conjunct2, THEN spec, THEN spec, of "''h/m.m3u8''" "''a.m3u8''"]
  show "\<exists>t0. 236 < t0 + (240 :: monotonic) \<and> (\<exists>text. held (stale_history @ [ask 236 2 new_storage (VariantText ''h/m.m3u8'' ''a.m3u8'')])
      (dirname ''h/m.m3u8'' @ ''/'' @ ''a.m3u8'') text t0)"
    by (auto simp: ask_def)
qed

section \<open>Who may play\<close>

lemma access_more_flag: "can_access_content now u g c (Some False) d \<Longrightarrow> can_access_content now u g c None d"
  by (auto simp: can_access_content_def split: if_splits)

lemma access_flag: "can_access_content now u g c (free_flag_of c d) d \<Longrightarrow> can_access_content now u g c None d"
  by (auto simp: can_access_content_def free_flag_of_def split: if_splits)

lemma access_after_settle:
  assumes "\<not> can_access_content now u g c (free_flag_of c d) d" and "can_access_content now u g c (free_flag_of c d) d'"
  shows "can_access_content now u g c None d'"
proof (cases "free_flag_of c d = Some True")
  case True
  then show ?thesis using assms by (auto simp: can_access_content_def free_flag_of_def split: if_splits)
next
  case False
  then have "free_flag_of c d = None \<or> free_flag_of c d = Some False" by (cases "free_flag_of c d") auto
  then show ?thesis using assms(2) access_more_flag by auto
qed

lemma grant_ok: "playback_grant encode cfg now c = Inr (tok, ttl) \<longleftrightarrow>
    truthy (ct_hls_master_key c) \<and> ttl = playback_token_expiry_seconds cfg \<and>
    tok = create_playback_token encode now (ct_id c) (playback_token_expiry_seconds cfg)"
  by (auto simp: playback_grant_def)

lemma published_content_ok: "get_published_content_or_404 cid user d = Inr c \<Longrightarrow> find_content cid d = Some c \<and> ct_id c = cid"
  by (auto simp: get_published_content_or_404_def find_content_def split: option.splits if_splits dest: select_one_Some)

lemma authorize_ok:
  assumes "authorize_playback encode e user cookie cid d w = (Inr (tok, ttl), d', w', alerts)"
  obtains c where "find_content cid d = Some c" "ct_id c = cid"
    "playback_grant encode (e_cfg e) (c_utc (e_clk e)) c = Inr (tok, ttl)"
    "can_access_content (c_utc (e_clk e)) user (if user = None then cookie else None) c None d'"
proof (cases "get_published_content_or_404 cid user d")
  case (Inl err)
  then show ?thesis using assms by (simp add: authorize_playback_def)
next
  case (Inr c)
  note c = published_content_ok [OF Inr]
  let ?g = "if user = None then cookie else None" and ?now = "c_utc (e_clk e)"
  show ?thesis
  proof (cases "can_access_content ?now user ?g c (free_flag_of c d) d")
    case True
    then show ?thesis using assms Inr c that access_flag by (auto simp: authorize_playback_def Let_def)
  next
    case no: False
    obtain r b where s: "settle_pending_movie_bakong_for_buyer e cid (map_option user_id user) ?g
        \<lparr>b_tx = open_tx d, b_guards = w\<rparr> = (r, b)" by fastforce
    show ?thesis
      using assms Inr no s c that access_after_settle [OF no]
      by (auto simp: authorize_playback_def Let_def split: if_splits sum.splits bool.splits tx_mode.splits)
  qed
qed

lemma valid_name_no_slash:
  assumes "valid_variant_name name" shows "CHR ''/'' \<notin> set name"
proof (cases "name \<noteq> [] \<and> last name = CHR 0x0A")
  case True
  then have "list_all variant_char (butlast name)" using assms by (simp add: valid_variant_name_def Let_def)
  then have "CHR ''/'' \<notin> set (butlast name)" by (auto simp: list_all_iff variant_char_def is_token_char_def)
  then have "CHR ''/'' \<notin> set (butlast name @ [last name])" using True by (simp del: append_butlast_last_id)
  then show ?thesis using True append_butlast_last_id [of name] by metis
next
  case False
  then have "list_all variant_char name" using assms by (auto simp: valid_variant_name_def Let_def)
  then show ?thesis by (auto simp: list_all_iff variant_char_def is_token_char_def)
qed

text \<open>
  C8: Playback is gated end to end. A grant is given only for a published title (or to an
  administrator) that is ready to stream, to a viewer entitled to it in the database the request leaves
  behind, and carries a token minted for that title. A master or rendition playlist is answered only to
  a valid playback token whose subject is that very title; the rendition's name holds no slash, so it
  names an object in the title's own stream directory.
\<close>

theorem playback_gated:
  shows "(authorize_playback encode e user cookie cid d w = (Inr (tok, ttl), d', w', alerts) \<longrightarrow>
      (\<exists>c. find_content cid d = Some c \<and> truthy (ct_hls_master_key c) \<and>
        entitled (c_utc (e_clk e)) d' user (if user = None then cookie else None) c \<and>
        tok = create_playback_token encode (c_utc (e_clk e)) cid (playback_token_expiry_seconds (e_cfg e)))) \<and>
    (fst (master_playlist decode fetch up now wk cid t d s) = Inr body \<longrightarrow>
      (\<exists>p. decode t = Some p \<and> c_scope p = Some ''playback'' \<and> c_sub p = Some (UuidStr cid)) \<and>
      (\<exists>text. body = master_body t text)) \<and>
    (fst (variant_playlist cfg presign decode fetch up now wk cid name t d s) = Inr body \<longrightarrow>
      (\<exists>p. decode t = Some p \<and> c_scope p = Some ''playback'' \<and> c_sub p = Some (UuidStr cid)) \<and>
      CHR ''/'' \<notin> set name)"
proof (intro conjI impI)
  assume "authorize_playback encode e user cookie cid d w = (Inr (tok, ttl), d', w', alerts)"
  then obtain c where "find_content cid d = Some c" "ct_id c = cid"
    "playback_grant encode (e_cfg e) (c_utc (e_clk e)) c = Inr (tok, ttl)"
    "can_access_content (c_utc (e_clk e)) user (if user = None then cookie else None) c None d'"
    by (rule authorize_ok)
  then show "\<exists>c. find_content cid d = Some c \<and> truthy (ct_hls_master_key c) \<and>
        entitled (c_utc (e_clk e)) d' user (if user = None then cookie else None) c \<and>
        tok = create_playback_token encode (c_utc (e_clk e)) cid (playback_token_expiry_seconds (e_cfg e))"
    using can_access_entitled by (auto simp: grant_ok)
next
  assume m: "fst (master_playlist decode fetch up now wk cid t d s) = Inr body"
  then show "\<exists>p. decode t = Some p \<and> c_scope p = Some ''playback'' \<and> c_sub p = Some (UuidStr cid)"
    by (auto simp: master_playlist_def verify_playback_token_def split: option.splits if_splits)
  show "\<exists>text. body = master_body t text"
    using m by (auto simp: master_playlist_def build_master_playlist_def split: sum.splits prod.splits)
next
  assume v: "fst (variant_playlist cfg presign decode fetch up now wk cid name t d s) = Inr body"
  then show "\<exists>p. decode t = Some p \<and> c_scope p = Some ''playback'' \<and> c_sub p = Some (UuidStr cid)"
    by (auto simp: variant_playlist_def verify_playback_token_def split: option.splits if_splits)
  have "valid_variant_name name" using v by (simp add: variant_playlist_def split: if_splits)
  then show "CHR ''/'' \<notin> set name" by (rule valid_name_no_slash)
qed


definition demo_ready_movie :: content_row where
  "demo_ready_movie = demo_movie\<lparr>ct_hls_master_key := Some ''media/film/master.m3u8''\<rparr>"

definition demo_ready_db :: db where
  "demo_ready_db = demo_billing_db\<lparr>contents := [demo_ready_movie]\<rparr>"

definition demo_play :: "(string \<times> int) result \<times> db \<times> guards \<times> alert list" where
  "demo_play = authorize_playback (\<lambda>p. ''jwt'') demo_env None (Some ''guest-token'') 7 demo_ready_db demo_guards"

theorem playback_gated_witness:
  "is_ok (fst demo_play) \<and> \<not> entitled (c_utc (e_clk demo_env)) demo_ready_db None (Some ''guest-token'') demo_ready_movie \<and>
   entitled (c_utc (e_clk demo_env)) (fst (snd demo_play)) None (Some ''guest-token'') demo_ready_movie"
proof -
  have ok: "is_ok (fst demo_play)" by code_simp
  have find: "find_content 7 demo_ready_db = Some demo_ready_movie" by code_simp
  obtain tok ttl d' w' alerts where run: "demo_play = (Inr (tok, ttl), d', w', alerts)"
    using ok by (metis is_ok_iff prod.collapse)
  from playback_gated [THEN conjunct1, THEN mp, OF run [unfolded demo_play_def]] find
  have "entitled (c_utc (e_clk demo_env)) d' None (Some ''guest-token'') demo_ready_movie" by auto
  moreover have "\<not> entitled (c_utc (e_clk demo_env)) demo_ready_db None (Some ''guest-token'') demo_ready_movie"
    by (auto elim!: entitled.cases simp: demo_ready_db_def demo_billing_db_def demo_ready_movie_def demo_movie_def
        content_ids_free_today_def free_today_content_ids_from_sections_def empty_db_def default_content_def)
  ultimately show ?thesis using ok by (simp add: run)
qed

section \<open>The alert a playback settle loses\<close>

lemma settle_first_sound:
  "sound_tx (b_tx b) \<Longrightarrow> settle_first e ps b = (r, b') \<Longrightarrow> sound_tx (b_tx b')"
proof (induction ps arbitrary: b)
  case (Cons p ps)
  obtain r1 b1 where s: "settle_bakong_intent_if_paid e p b = (r1, b1)" by fastforce
  show ?case
    using Cons.prems Cons.IH [of b1] settle_sound_tx [OF Cons.prems(1) s] s by (auto split: sum.splits bool.splits)
qed simp

lemma authorize_receipts_ok:
  assumes d: "sound_tx (open_tx d)" and run: "authorize_playback encode e user cookie cid d w = (r, d', w', alerts)"
  shows "receipts_ok d'" and "alerts = []"
proof -
  let ?g = "if user = None then cookie else None"
  obtain r1 b where s: "settle_pending_movie_bakong_for_buyer e cid (map_option user_id user) ?g
      \<lparr>b_tx = open_tx d, b_guards = w\<rparr> = (r1, b)" by fastforce
  then have "sound_tx (b_tx b)"
    using d settle_first_sound [of "\<lparr>b_tx = open_tx d, b_guards = w\<rparr>"]
    by (auto simp: settle_pending_movie_bakong_for_buyer_def split: if_splits)
  then have "receipts_ok (tx_db (b_tx b))" "receipts_ok d" using d by (simp_all add: sound_tx_def open_tx_def)
  then show "receipts_ok d'" "alerts = []"
    using run s by (auto simp: authorize_playback_def Let_def split: if_splits sum.splits bool.splits tx_mode.splits)
qed

text \<open>
  A payment discovered at playback is never announced. When the request for a stream settles a
  checkout, no Telegram alert leaves with it, because the route commits with a plain \<open>db.commit()\<close>
  and only \<open>commit_with_telegram\<close> delivers queued alerts; and no later fulfilment, by sweep, poll or an
  administrator, announces that checkout either, because it is already settled.
\<close>

theorem playback_settle_unannounced:
  assumes "sound_tx (open_tx d)" and "authorize_playback encode e user cookie cid d w = (r, d', w', alerts)"
    and "settled i d'"
  shows "alerts = [] \<and> filter (\<lambda>x. fst x = i) (outcomes pay_event_op evs d') = []"
  using authorize_receipts_ok [OF assms(1,2)] payment.spent_no_outcome [OF _ assms(3)] by simp

text \<open>The same payment settled by a poll or the sweep is announced.\<close>

theorem playback_settle_unannounced_witness:
  "map fst (outcomes pay_event_op [FulfillEvent 4 1 ''bkg-1'' (Some ''bakong'')] demo_ready_db) = [''bkg-1''] \<and>
   \<not> settled ''bkg-1'' demo_ready_db \<and> settled ''bkg-1'' (fst (snd demo_play)) \<and> snd (snd (snd demo_play)) = [] \<and>
   filter (\<lambda>x. fst x = ''bkg-1'') (outcomes pay_event_op [FulfillEvent 4 1 ''bkg-1'' (Some ''bakong'')] (fst (snd demo_play))) = []"
proof -
  have d: "sound_tx (open_tx demo_ready_db)"
    by (simp add: sound_tx_def open_tx_def receipts_ok_def subs_have_users_def demo_ready_db_def demo_billing_db_def demo_intent_def)
  have "find_intent ''bkg-1'' (fst (snd demo_play)) = Some (demo_intent\<lparr>pi_status := ''succeeded'', pi_resolved_at := Some (c_utc (e_clk demo_env))\<rparr>)"
    by code_simp
  then have s: "settled ''bkg-1'' (fst (snd demo_play))" by (simp add: settled_def)
  have "find_intent ''bkg-1'' demo_ready_db = Some demo_intent" "pi_status demo_intent \<noteq> ''succeeded''" by code_simp+
  then have n: "\<not> settled ''bkg-1'' demo_ready_db" by (simp add: settled_def)
  have a: "map fst (outcomes pay_event_op [FulfillEvent 4 1 ''bkg-1'' (Some ''bakong'')] demo_ready_db) = [''bkg-1'']" by code_simp
  have run: "authorize_playback (\<lambda>p. ''jwt'') demo_env None (Some ''guest-token'') 7 demo_ready_db demo_guards =
      (fst demo_play, fst (snd demo_play), fst (snd (snd demo_play)), snd (snd (snd demo_play)))"
    by (simp add: demo_play_def)
  from playback_settle_unannounced [OF d run s] a s n show ?thesis by blast
qed

end
