(* ===== verification/Home_Rails.thy ===== *)
theory Home_Rails
  imports Listing Deletion
begin

text \<open>
  The three lists of movies an administrator curates for the home page: Free movies today
  (\<open>app/catalog/free_today.py\<close>), Coming Soon (\<open>app/catalog/coming_soon.py\<close>) and the genre rails
  (\<open>app/catalog/genre_rails.py\<close>), their admin routers and their public routes. What the three lists
  have in common is a locale. \<open>collate\<close> is the database's collation of genre names.
\<close>

definition free_today_max :: nat where "free_today_max = 10"
definition coming_soon_max :: nat where "coming_soon_max = 20"
definition genre_rail_max_per_genre :: nat where "genre_rail_max_per_genre = 12"

text \<open>How the create handlers turn a \<open>ValueError\<close> into an answer.\<close>

definition rail_error :: "string \<Rightarrow> error" where
  "rail_error message =
     (if contains ''not found'' (lower message) then NotFoundError message else ConflictError message)"

text \<open>A curated row with the title it names, from which the admin answer takes title, slug and poster.\<close>

type_synonym 'r curated = "'r \<times> content_row option"

definition find_single :: "uuid \<Rightarrow> db \<Rightarrow> content_row option" where
  "find_single cid d = select_one (\<lambda>c. ct_id c = cid \<and> ct_type c = ''single'') (contents d)"

section \<open>Free movies today\<close>

definition validate_free_today_add :: "uuid \<Rightarrow> db \<Rightarrow> unit result" where
  "validate_free_today_add content_id d =
     (if find_single content_id d = None then Inl (ValueError ''Movie not found'')
      else if exists_row (\<lambda>f. ft_content_id f = content_id) (free_today_items d)
      then Inl (ValueError ''This movie is already in Free movies today'')
      else if free_today_max \<le> length (free_today_items d)
      then Inl (ValueError ''Free movies today is limited to 10 titles'')
      else Inr ())"

definition enrich_admin_free_today :: "db \<Rightarrow> free_today_row list \<Rightarrow> free_today_row curated list" where
  "enrich_admin_free_today d items = map (\<lambda>i. (i, find_content (ft_content_id i) d)) items"

definition list_admin_free_today :: "db \<Rightarrow> free_today_row curated list" where
  "list_admin_free_today d =
     enrich_admin_free_today d (order_by (\<lambda>f. (ft_sort_order f, - ft_created_at f)) (free_today_items d))"

definition free_today_drops :: "drop list" where
  "free_today_drops = [DropKey ''free-today'', DropKey ''home-sections'']"

definition create_admin_free_today ::
    "datetime \<Rightarrow> uuid \<Rightarrow> uuid \<Rightarrow> int \<Rightarrow> db \<Rightarrow> (free_today_row curated \<times> db \<times> drop list) result" where
  "create_admin_free_today now fresh content_id sort_order d =
     (case validate_free_today_add content_id d of
        Inl (ValueError message) \<Rightarrow> Inl (rail_error message)
      | Inl e \<Rightarrow> Inl e
      | Inr _ \<Rightarrow>
        (let item = \<lparr>ft_id = fresh, ft_content_id = content_id, ft_sort_order = sort_order, ft_created_at = now\<rparr>;
             d' = d\<lparr>free_today_items := free_today_items d @ [item]\<rparr>
         in Inr ((item, find_content content_id d'), d', free_today_drops)))"

definition update_admin_free_today ::
    "uuid \<Rightarrow> int \<Rightarrow> db \<Rightarrow> (free_today_row curated \<times> db \<times> drop list) result" where
  "update_admin_free_today i sort_order d =
     (case select_one (\<lambda>f. ft_id f = i) (free_today_items d) of
        None \<Rightarrow> Inl (NotFoundError ''Free today item not found'')
      | Some item \<Rightarrow>
        (let d' = d\<lparr>free_today_items := update_where (\<lambda>f. ft_id f = i) (\<lambda>f. f\<lparr>ft_sort_order := sort_order\<rparr>)
               (free_today_items d)\<rparr>
         in Inr ((item\<lparr>ft_sort_order := sort_order\<rparr>, find_content (ft_content_id item) d'), d', free_today_drops)))"

definition delete_admin_free_today :: "uuid \<Rightarrow> db \<Rightarrow> (db \<times> drop list) result" where
  "delete_admin_free_today i d =
     (if exists_row (\<lambda>f. ft_id f = i) (free_today_items d)
      then Inr (d\<lparr>free_today_items := delete_where (\<lambda>f. ft_id f = i) (free_today_items d)\<rparr>, free_today_drops)
      else Inl (NotFoundError ''Free today item not found''))"

text \<open>
  \<open>SELECT content JOIN items\<close>: for each item in its order the titles it names that the query keeps.
\<close>

definition join_titles :: "(content_row \<Rightarrow> bool) \<Rightarrow> uuid list \<Rightarrow> db \<Rightarrow> content_row list" where
  "join_titles keep ids d = concat (map (\<lambda>i. filter (\<lambda>c. ct_id c = i \<and> keep c) (contents d)) ids)"

definition shown_movie :: "content_row \<Rightarrow> bool" where
  "shown_movie c \<longleftrightarrow> ct_type c = ''single'' \<and> ct_is_published c"

text \<open>The movies pinned to a section, in rail order.\<close>

definition pinned_movies :: "uuid \<Rightarrow> db \<Rightarrow> section_item_row list" where
  "pinned_movies sid d = order_by (\<lambda>i. (item_sort_order i, - item_created_at i))
     (filter (\<lambda>i. item_section_id i = sid \<and> item_item_kind i = ''movie'') (home_section_items d))"

definition legacy_free_today :: "db \<Rightarrow> content_row list" where
  "legacy_free_today d =
     take free_today_max (join_titles shown_movie
       (map ft_content_id (order_by (\<lambda>f. (ft_sort_order f, - ft_created_at f)) (free_today_items d))) d)"

definition resolve_free_today_movies :: "db \<Rightarrow> content_row list" where
  "resolve_free_today_movies d =
     (case first_row (order_by sec_sort_order
             (filter (\<lambda>s. sec_type s = ''free_today'' \<and> sec_is_visible s) (home_sections d))) of
        None \<Rightarrow> legacy_free_today d
      | Some s \<Rightarrow>
          if 0 < length (pinned_movies (sec_id s) d)
          then take free_today_max (join_titles shown_movie (map item_ref_id (pinned_movies (sec_id s) d)) d)
          else legacy_free_today d)"

section \<open>Coming Soon\<close>

definition has_poster :: "content_row \<Rightarrow> bool" where
  "has_poster c \<longleftrightarrow> ct_type c = ''single'' \<and> ct_poster_key c \<noteq> None \<and> ct_poster_key c \<noteq> Some []"

definition resolve_coming_soon_movies :: "db \<Rightarrow> content_row list" where
  "resolve_coming_soon_movies d =
     take coming_soon_max (join_titles has_poster
       (map cs_content_id (order_by (\<lambda>c. (cs_sort_order c, - cs_created_at c)) (coming_soon_items d))) d)"

definition validate_coming_soon_add :: "uuid \<Rightarrow> db \<Rightarrow> unit result" where
  "validate_coming_soon_add content_id d =
     (case find_single content_id d of
        None \<Rightarrow> Inl (ValueError ''Movie not found'')
      | Some movie \<Rightarrow>
          if \<not> truthy (ct_poster_key movie)
          then Inl (ValueError ''Movie needs a poster before it can be Coming Soon'')
          else if exists_row (\<lambda>c. cs_content_id c = content_id) (coming_soon_items d)
          then Inl (ValueError ''This movie is already in Coming Soon'')
          else if coming_soon_max \<le> length (coming_soon_items d)
          then Inl (ValueError ''Coming Soon is limited to 20 titles'')
          else Inr ())"

definition enrich_admin_coming_soon :: "db \<Rightarrow> coming_soon_row list \<Rightarrow> coming_soon_row curated list" where
  "enrich_admin_coming_soon d items = map (\<lambda>i. (i, find_content (cs_content_id i) d)) items"

definition list_admin_coming_soon :: "db \<Rightarrow> coming_soon_row curated list" where
  "list_admin_coming_soon d =
     enrich_admin_coming_soon d (order_by (\<lambda>c. (cs_sort_order c, - cs_created_at c)) (coming_soon_items d))"

definition coming_soon_drops :: "drop list" where
  "coming_soon_drops = [DropKey ''coming-soon'', DropKey ''home-sections'']"

definition create_admin_coming_soon ::
    "datetime \<Rightarrow> uuid \<Rightarrow> uuid \<Rightarrow> int \<Rightarrow> db \<Rightarrow> (coming_soon_row curated \<times> db \<times> drop list) result" where
  "create_admin_coming_soon now fresh content_id sort_order d =
     (case validate_coming_soon_add content_id d of
        Inl (ValueError message) \<Rightarrow> Inl (rail_error message)
      | Inl e \<Rightarrow> Inl e
      | Inr _ \<Rightarrow>
        (let item = \<lparr>cs_id = fresh, cs_content_id = content_id, cs_sort_order = sort_order, cs_created_at = now\<rparr>;
             d' = d\<lparr>coming_soon_items := coming_soon_items d @ [item]\<rparr>
         in Inr ((item, find_content content_id d'), d', coming_soon_drops)))"

definition update_admin_coming_soon ::
    "uuid \<Rightarrow> int \<Rightarrow> db \<Rightarrow> (coming_soon_row curated \<times> db \<times> drop list) result" where
  "update_admin_coming_soon i sort_order d =
     (case select_one (\<lambda>c. cs_id c = i) (coming_soon_items d) of
        None \<Rightarrow> Inl (NotFoundError ''Coming Soon item not found'')
      | Some item \<Rightarrow>
        (let d' = d\<lparr>coming_soon_items := update_where (\<lambda>c. cs_id c = i) (\<lambda>c. c\<lparr>cs_sort_order := sort_order\<rparr>)
               (coming_soon_items d)\<rparr>
         in Inr ((item\<lparr>cs_sort_order := sort_order\<rparr>, find_content (cs_content_id item) d'), d', coming_soon_drops)))"

definition delete_admin_coming_soon :: "uuid \<Rightarrow> db \<Rightarrow> (db \<times> drop list) result" where
  "delete_admin_coming_soon i d =
     (if exists_row (\<lambda>c. cs_id c = i) (coming_soon_items d)
      then Inr (d\<lparr>coming_soon_items := delete_where (\<lambda>c. cs_id c = i) (coming_soon_items d)\<rparr>, coming_soon_drops)
      else Inl (NotFoundError ''Coming Soon item not found''))"

section \<open>Genre rails\<close>

text \<open>\<open>" ".join(name.strip().split())\<close>: the runs of characters that are not white space.\<close>

fun split_space :: "string \<Rightarrow> string \<Rightarrow> string list" where
  "split_space acc [] = (if acc = [] then [] else [acc])"
| "split_space acc (c # cs) =
     (if \<not> is_space c then split_space (acc @ [c]) cs
      else if acc = [] then split_space [] cs else acc # split_space [] cs)"

definition normalize_genre :: "string \<Rightarrow> string" where
  "normalize_genre name = join '' '' (split_space [] (strip name))"

definition validate_genre_rail_add :: "string \<Rightarrow> uuid \<Rightarrow> db \<Rightarrow> string result" where
  "validate_genre_rail_add genre_name content_id d =
     (let genre = normalize_genre genre_name in
      if genre = [] then Inl (ValueError ''Genre name is required'')
      else if find_single content_id d = None then Inl (ValueError ''Movie not found'')
      else if exists_row (\<lambda>g. gr_genre_name g = genre \<and> gr_content_id g = content_id) (genre_rail_items d)
      then Inl (ValueError ''This movie is already in that genre rail'')
      else if genre_rail_max_per_genre \<le> count_rows (\<lambda>g. gr_genre_name g = genre) (genre_rail_items d)
      then Inl (ValueError ''Each genre rail is limited to 12 titles'')
      else Inr genre)"

definition enrich_admin_genre_rail_items :: "db \<Rightarrow> genre_rail_row list \<Rightarrow> genre_rail_row curated list" where
  "enrich_admin_genre_rail_items d items = map (\<lambda>i. (i, find_content (gr_content_id i) d)) items"

definition genre_rail_order :: "(string \<Rightarrow> int) \<Rightarrow> genre_rail_row list \<Rightarrow> genre_rail_row list" where
  "genre_rail_order collate items =
     order_by (\<lambda>g. (collate (gr_genre_name g), gr_sort_order g, - gr_created_at g)) items"

definition list_admin_genre_rails ::
    "(string \<Rightarrow> int) \<Rightarrow> string option \<Rightarrow> db \<Rightarrow> genre_rail_row curated list" where
  "list_admin_genre_rails collate genre d =
     enrich_admin_genre_rail_items d
       (filter (\<lambda>g. case genre of None \<Rightarrow> True | Some x \<Rightarrow> strip x = [] \<or> gr_genre_name g = strip x)
         (genre_rail_order collate (genre_rail_items d)))"

definition genre_rail_drops :: "drop list" where
  "genre_rail_drops = [DropKey ''genre-rails'', DropKey ''home-sections'']"

definition create_admin_genre_rail ::
    "datetime \<Rightarrow> uuid \<Rightarrow> string \<Rightarrow> uuid \<Rightarrow> int \<Rightarrow> db \<Rightarrow> (genre_rail_row curated \<times> db \<times> drop list) result" where
  "create_admin_genre_rail now fresh genre_name content_id sort_order d =
     (case validate_genre_rail_add genre_name content_id d of
        Inl (ValueError message) \<Rightarrow> Inl (rail_error message)
      | Inl e \<Rightarrow> Inl e
      | Inr genre \<Rightarrow>
        (let item = \<lparr>gr_id = fresh, gr_genre_name = genre, gr_content_id = content_id,
               gr_sort_order = sort_order, gr_created_at = now\<rparr>;
             d' = d\<lparr>genre_rail_items := genre_rail_items d @ [item]\<rparr>
         in Inr ((item, find_content content_id d'), d', genre_rail_drops)))"

definition update_admin_genre_rail ::
    "uuid \<Rightarrow> int \<Rightarrow> db \<Rightarrow> (genre_rail_row curated \<times> db \<times> drop list) result" where
  "update_admin_genre_rail i sort_order d =
     (case select_one (\<lambda>g. gr_id g = i) (genre_rail_items d) of
        None \<Rightarrow> Inl (NotFoundError ''Genre rail item not found'')
      | Some item \<Rightarrow>
        (let d' = d\<lparr>genre_rail_items := update_where (\<lambda>g. gr_id g = i) (\<lambda>g. g\<lparr>gr_sort_order := sort_order\<rparr>)
               (genre_rail_items d)\<rparr>
         in Inr ((item\<lparr>gr_sort_order := sort_order\<rparr>, find_content (gr_content_id item) d'), d', genre_rail_drops)))"

definition delete_admin_genre_rail :: "uuid \<Rightarrow> db \<Rightarrow> (db \<times> drop list) result" where
  "delete_admin_genre_rail i d =
     (if exists_row (\<lambda>g. gr_id g = i) (genre_rail_items d)
      then Inr (d\<lparr>genre_rail_items := delete_where (\<lambda>g. gr_id g = i) (genre_rail_items d)\<rparr>, genre_rail_drops)
      else Inl (NotFoundError ''Genre rail item not found''))"

text \<open>The Python dict of rails: a genre keeps the place of its first shown movie.\<close>

definition add_to_rail :: "db \<Rightarrow> genre_rail_row \<Rightarrow> (string \<times> content_row list) list \<Rightarrow> (string \<times> content_row list) list" where
  "add_to_rail d item rails =
     (case select_one (\<lambda>c. ct_id c = gr_content_id item \<and> shown_movie c) (contents d) of
        None \<Rightarrow> rails
      | Some movie \<Rightarrow>
        (let rail = (case map_of rails (gr_genre_name item) of None \<Rightarrow> [] | Some ms \<Rightarrow> ms) in
         if genre_rail_max_per_genre \<le> length rail then AList.update (gr_genre_name item) rail rails
         else AList.update (gr_genre_name item) (rail @ [movie]) rails))"

definition resolve_genre_rails :: "(string \<Rightarrow> int) \<Rightarrow> db \<Rightarrow> (string \<times> content_row list) list" where
  "resolve_genre_rails collate d =
     filter (\<lambda>(genre, movies). movies \<noteq> [])
       (fold (add_to_rail d) (genre_rail_order collate (genre_rail_items d)) [])"

section \<open>The public routes\<close>

definition list_free_today ::
    "(content_row list \<Rightarrow> string) \<Rightarrow> (string \<Rightarrow> content_row list option) \<Rightarrow> bool \<Rightarrow> monotonic \<Rightarrow> nat \<Rightarrow> db \<Rightarrow>
     content_row list catalog_cache \<Rightarrow> content_row list \<times> content_row list catalog_cache" where
  "list_free_today dumps loads up now w d s =
     cache_get_or_set dumps loads up now w catalog_ttl_seconds ''free-today'' (resolve_free_today_movies d) s"

definition list_coming_soon ::
    "(content_row list \<Rightarrow> string) \<Rightarrow> (string \<Rightarrow> content_row list option) \<Rightarrow> bool \<Rightarrow> monotonic \<Rightarrow> nat \<Rightarrow> db \<Rightarrow>
     content_row list catalog_cache \<Rightarrow> content_row list \<times> content_row list catalog_cache" where
  "list_coming_soon dumps loads up now w d s =
     cache_get_or_set dumps loads up now w catalog_ttl_seconds ''coming-soon'' (resolve_coming_soon_movies d) s"

definition list_genre_rails ::
    "(string \<Rightarrow> int) \<Rightarrow> ((string \<times> content_row list) list \<Rightarrow> string) \<Rightarrow>
     (string \<Rightarrow> (string \<times> content_row list) list option) \<Rightarrow> bool \<Rightarrow> monotonic \<Rightarrow> nat \<Rightarrow> db \<Rightarrow>
     (string \<times> content_row list) list catalog_cache \<Rightarrow>
     (string \<times> content_row list) list \<times> (string \<times> content_row list) list catalog_cache" where
  "list_genre_rails collate dumps loads up now w d s =
     cache_get_or_set dumps loads up now w catalog_ttl_seconds ''genre-rails'' (resolve_genre_rails collate d) s"

section \<open>The contract the three lists share\<close>

text \<open>A title appears once, and no group holds more than \<open>cap\<close> entries.\<close>

definition rail_ok :: "('r \<Rightarrow> 'k) \<Rightarrow> ('k \<Rightarrow> 'g) \<Rightarrow> nat \<Rightarrow> 'r list \<Rightarrow> bool" where
  "rail_ok key grp cap rows \<longleftrightarrow>
     distinct (map key rows) \<and> (\<forall>g. length (filter (\<lambda>k. grp k = g) (map key rows)) \<le> cap)"

text \<open>
  What the admin handlers of a list do to its table: append a row whose key is new in a group with room,
  change a row but not its key, or delete rows.
\<close>

locale curated_list =
  fixes step :: "db \<Rightarrow> db \<Rightarrow> bool"
    and rows :: "db \<Rightarrow> 'r list"
    and key :: "'r \<Rightarrow> 'k"
    and grp :: "'k \<Rightarrow> 'g"
    and cap :: nat
  assumes step_rows: "step d d' \<Longrightarrow>
     (\<exists>r. rows d' = rows d @ [r] \<and> key r \<notin> key ` set (rows d) \<and>
        length (filter (\<lambda>x. grp (key x) = grp (key r)) (rows d)) < cap) \<or>
     map key (rows d') = map key (rows d) \<or> (\<exists>P. rows d' = filter P (rows d))"
begin

lemma step_ok:
  assumes "step d d'" and ok: "rail_ok key grp cap (rows d)"
  shows "rail_ok key grp cap (rows d')"
  using step_rows [OF assms(1)]
proof (elim disjE exE conjE)
  fix r
  assume "rows d' = rows d @ [r]" "key r \<notin> key ` set (rows d)"
    "length (filter (\<lambda>x. grp (key x) = grp (key r)) (rows d)) < cap"
  then show ?thesis using ok by (auto simp: rail_ok_def filter_map comp_def)
next
  fix P
  assume f: "rows d' = filter P (rows d)"
  have "length (filter (\<lambda>k. grp k = g) (map key (filter P (rows d)))) \<le>
      length (filter (\<lambda>k. grp k = g) (map key (rows d)))" for g
    by (induction "rows d") (auto simp: filter_map comp_def intro!: count_rows_mono [unfolded count_rows_def])
  then show ?thesis
    using ok unfolding rail_ok_def f by (meson distinct_map_filter order_trans)
qed (use ok in \<open>simp add: rail_ok_def\<close>)

lemma run_ok: "step\<^sup>*\<^sup>* d d' \<Longrightarrow> rail_ok key grp cap (rows d) \<Longrightarrow> rail_ok key grp cap (rows d')"
  by (induction rule: rtranclp_induct) (auto intro: step_ok)

end

inductive free_today_step :: "db \<Rightarrow> db \<Rightarrow> bool" where
  create: "create_admin_free_today now fresh cid n d = Inr (v, d', ks) \<Longrightarrow> free_today_step d d'"
| update: "update_admin_free_today i n d = Inr (v, d', ks) \<Longrightarrow> free_today_step d d'"
| delete: "delete_admin_free_today i d = Inr (d', ks) \<Longrightarrow> free_today_step d d'"

inductive coming_soon_step :: "db \<Rightarrow> db \<Rightarrow> bool" where
  create: "create_admin_coming_soon now fresh cid n d = Inr (v, d', ks) \<Longrightarrow> coming_soon_step d d'"
| update: "update_admin_coming_soon i n d = Inr (v, d', ks) \<Longrightarrow> coming_soon_step d d'"
| delete: "delete_admin_coming_soon i d = Inr (d', ks) \<Longrightarrow> coming_soon_step d d'"

inductive genre_rail_step :: "db \<Rightarrow> db \<Rightarrow> bool" where
  create: "create_admin_genre_rail now fresh g cid n d = Inr (v, d', ks) \<Longrightarrow> genre_rail_step d d'"
| update: "update_admin_genre_rail i n d = Inr (v, d', ks) \<Longrightarrow> genre_rail_step d d'"
| delete: "delete_admin_genre_rail i d = Inr (d', ks) \<Longrightarrow> genre_rail_step d d'"

lemma same_key_update:
  "(\<And>r. k (f r) = k r) \<Longrightarrow> map k (update_where P f rows) = map k rows"
  by (rule map_update_where)

interpretation free_today: curated_list free_today_step free_today_items ft_content_id "\<lambda>_. ()" free_today_max
proof
  fix d d'
  assume "free_today_step d d'"
  then show "(\<exists>r. free_today_items d' = free_today_items d @ [r] \<and> ft_content_id r \<notin> ft_content_id ` set (free_today_items d) \<and>
        length (filter (\<lambda>x. () = ()) (free_today_items d)) < free_today_max) \<or>
     map ft_content_id (free_today_items d') = map ft_content_id (free_today_items d) \<or>
     (\<exists>P. free_today_items d' = filter P (free_today_items d))"
  proof cases
    case (create now fresh cid n v ks)
    then show ?thesis
      by (auto simp: create_admin_free_today_def validate_free_today_add_def Let_def exists_row_iff
          split: sum.splits error.splits if_splits)
  next
    case (update i n v ks)
    then show ?thesis
      by (auto simp: update_admin_free_today_def Let_def same_key_update split: option.splits)
  next
    case (delete i ks)
    then show ?thesis by (auto simp: delete_admin_free_today_def delete_where_def split: if_splits)
  qed
qed

interpretation coming_soon: curated_list coming_soon_step coming_soon_items cs_content_id "\<lambda>_. ()" coming_soon_max
proof
  fix d d'
  assume "coming_soon_step d d'"
  then show "(\<exists>r. coming_soon_items d' = coming_soon_items d @ [r] \<and> cs_content_id r \<notin> cs_content_id ` set (coming_soon_items d) \<and>
        length (filter (\<lambda>x. () = ()) (coming_soon_items d)) < coming_soon_max) \<or>
     map cs_content_id (coming_soon_items d') = map cs_content_id (coming_soon_items d) \<or>
     (\<exists>P. coming_soon_items d' = filter P (coming_soon_items d))"
  proof cases
    case (create now fresh cid n v ks)
    then show ?thesis
      by (auto simp: create_admin_coming_soon_def validate_coming_soon_add_def Let_def exists_row_iff
          split: sum.splits error.splits if_splits option.splits)
  next
    case (update i n v ks)
    then show ?thesis
      by (auto simp: update_admin_coming_soon_def Let_def same_key_update split: option.splits)
  next
    case (delete i ks)
    then show ?thesis by (auto simp: delete_admin_coming_soon_def delete_where_def split: if_splits)
  qed
qed

interpretation genre_rails: curated_list genre_rail_step genre_rail_items "\<lambda>g. (gr_genre_name g, gr_content_id g)" fst
    genre_rail_max_per_genre
proof
  fix d d'
  assume "genre_rail_step d d'"
  then show "(\<exists>r. genre_rail_items d' = genre_rail_items d @ [r] \<and>
        (gr_genre_name r, gr_content_id r) \<notin> (\<lambda>g. (gr_genre_name g, gr_content_id g)) ` set (genre_rail_items d) \<and>
        length (filter (\<lambda>x. fst (gr_genre_name x, gr_content_id x) = fst (gr_genre_name r, gr_content_id r))
          (genre_rail_items d)) < genre_rail_max_per_genre) \<or>
     map (\<lambda>g. (gr_genre_name g, gr_content_id g)) (genre_rail_items d') =
       map (\<lambda>g. (gr_genre_name g, gr_content_id g)) (genre_rail_items d) \<or>
     (\<exists>P. genre_rail_items d' = filter P (genre_rail_items d))"
  proof cases
    case (create now fresh g cid n v ks)
    then show ?thesis
      by (fastforce simp: create_admin_genre_rail_def validate_genre_rail_add_def Let_def exists_row_iff count_rows_def
          split: sum.splits error.splits if_splits)
  next
    case (update i n v ks)
    then show ?thesis
      by (auto simp: update_admin_genre_rail_def Let_def same_key_update split: option.splits)
  next
    case (delete i ks)
    then show ?thesis by (auto simp: delete_admin_genre_rail_def delete_where_def split: if_splits)
  qed
qed

text \<open>
  The curated lists stay well formed. Through any sequence of additions, moves and removals by
  administrators, a movie is listed at most once in Free movies today, in Coming Soon and in each genre
  rail, and the lists hold at most 10, 20 and 12 titles per genre.
\<close>

theorem curated_lists_bounded:
  shows "(free_today_step\<^sup>*\<^sup>* d d' \<and> distinct (map ft_content_id (free_today_items d)) \<and> length (free_today_items d) \<le> 10 \<longrightarrow>
      distinct (map ft_content_id (free_today_items d')) \<and> length (free_today_items d') \<le> 10) \<and>
    (coming_soon_step\<^sup>*\<^sup>* d d' \<and> distinct (map cs_content_id (coming_soon_items d)) \<and> length (coming_soon_items d) \<le> 20 \<longrightarrow>
      distinct (map cs_content_id (coming_soon_items d')) \<and> length (coming_soon_items d') \<le> 20) \<and>
    (genre_rail_step\<^sup>*\<^sup>* d d' \<and> rail_ok (\<lambda>g. (gr_genre_name g, gr_content_id g)) fst 12 (genre_rail_items d) \<longrightarrow>
      rail_ok (\<lambda>g. (gr_genre_name g, gr_content_id g)) fst 12 (genre_rail_items d'))"
  using free_today.run_ok [of d d'] coming_soon.run_ok [of d d'] genre_rails.run_ok [of d d']
  by (simp add: rail_ok_def free_today_max_def coming_soon_max_def genre_rail_max_per_genre_def)


definition one_film :: db where
  "one_film = empty_db\<lparr>contents := [default_content\<lparr>ct_id := 7, ct_poster_key := Some ''p.webp''\<rparr>]\<rparr>"

theorem curated_lists_bounded_witness:
  "(case create_admin_free_today 5 3 7 0 one_film of Inl _ \<Rightarrow> False | Inr (v, d', ks) \<Rightarrow>
      map ft_content_id (free_today_items d') = [7] \<and> length (free_today_items d') \<le> 10) \<and>
   create_admin_free_today 6 4 7 0 (case create_admin_free_today 5 3 7 0 one_film of Inr (v, d', ks) \<Rightarrow> d') =
     Inl (ConflictError ''This movie is already in Free movies today'')"
proof -
  have ok: "is_ok (create_admin_free_today 5 3 7 0 one_film)" by code_simp
  then obtain v d' ks where run: "create_admin_free_today 5 3 7 0 one_film = Inr (v, d', ks)"
    by (metis is_ok_iff prod_cases3)
  have rows: "map ft_content_id (free_today_items (case create_admin_free_today 5 3 7 0 one_film of Inr (v, d', ks) \<Rightarrow> d')) = [7]"
    by code_simp
  have again: "create_admin_free_today 6 4 7 0 (case create_admin_free_today 5 3 7 0 one_film of Inr (v, d', ks) \<Rightarrow> d') =
     Inl (ConflictError ''This movie is already in Free movies today'')" by code_simp
  have "free_today_step\<^sup>*\<^sup>* one_film d'" using run free_today_step.create by blast
  then have "length (free_today_items d') \<le> 10"
    using curated_lists_bounded [THEN conjunct1, THEN mp, of one_film d'] by (simp add: one_film_def)
  then show ?thesis using rows again by (simp add: run)
qed

end
