(* ===== verification/Showcase.thy ===== *)
theory Showcase
  imports Catalog_Admin Response_Cache
begin

text \<open>
  The hero carousel and the promotion banners of the storefront: \<open>app/catalog/hero_featured.py\<close>,
  \<open>app/catalog/promotion_banners.py\<close>, their schemas, admin routers and public routes. \<open>optimize\<close> is
  the image optimiser, presigned upload URLs are arguments. A lost \<open>UNIQUE\<close> race ends in the same
  answer as the conflict the model reports.
\<close>

section \<open>Schemas of the hero carousel\<close>

definition normalize_optional_text :: "string option \<Rightarrow> string option" where
  "normalize_optional_text v = (case v of None \<Rightarrow> None | Some s \<Rightarrow> if strip s = [] then None else Some (strip s))"

definition validate_link_url :: "string option \<Rightarrow> string option result" where
  "validate_link_url v =
     (case normalize_optional_text v of
        None \<Rightarrow> Inr None
      | Some u \<Rightarrow>
        (let is_path = starts_with ''/'' u \<and> \<not> starts_with ''//'' u;
             is_http = starts_with ''http://'' u \<or> starts_with ''https://'' u
         in if \<not> (is_path \<or> is_http)
            then Inl (ValueError ''link_url must be a path starting with / (not //) or an http(s) URL'')
            else Inr (Some u)))"

definition validate_youtube_url :: "string option \<Rightarrow> string option result" where
  "validate_youtube_url v =
     (case normalize_optional_text v of
        None \<Rightarrow> Inr None
      | Some u \<Rightarrow>
          if \<not> (starts_with ''http://'' u \<or> starts_with ''https://'' u)
          then Inl (ValueError ''youtube_url must be an http(s) URL'') else Inr (Some u))"

definition hero_content_types :: "string set" where
  "hero_content_types = {''movie'', ''series'', ''custom''}"

record hero_create =
  hc_content_type :: string
  hc_content_id :: "uuid option"
  hc_placement :: string
  hc_is_active :: bool
  hc_sort_order :: int
  hc_starts_at :: "datetime option"
  hc_ends_at :: "datetime option"
  hc_title :: "string option"
  hc_description :: "string option"
  hc_banner_key :: "string option"
  hc_link_url :: "string option"
  hc_video_key :: "string option"
  hc_youtube_url :: "string option"
  hc_video_enabled :: bool

text \<open>The request after validation, or the 422 it is refused with.\<close>

definition check_hero_create :: "hero_create \<Rightarrow> hero_create result" where
  "check_hero_create data =
     (if hc_content_type data \<notin> hero_content_types \<or> 32 < length (hc_placement data)
      then Inl (ValueError ''invalid request'')
      else
       (case validate_link_url (hc_link_url data) of
          Inl e \<Rightarrow> Inl e
        | Inr link \<Rightarrow>
          (case validate_youtube_url (hc_youtube_url data) of
             Inl e \<Rightarrow> Inl e
           | Inr youtube \<Rightarrow>
             (let d1 = data\<lparr>hc_title := normalize_optional_text (hc_title data), hc_link_url := link,
                            hc_youtube_url := youtube\<rparr>
              in if hc_content_type d1 = ''custom'' then
                   (if hc_content_id d1 \<noteq> None
                    then Inl (ValueError ''custom slides must not reference catalog content'')
                    else if \<not> (truthy (hc_banner_key d1) \<or> truthy (hc_video_key d1) \<or> truthy (hc_youtube_url d1))
                    then Inl (ValueError ''custom slides require an image, an uploaded video, or a YouTube URL'')
                    else Inr d1)
                 else if hc_content_id d1 = None
                 then Inl (ValueError ''content_id is required for movie and series slides'')
                 else Inr d1))))"

text \<open>The fields a PATCH sets; \<open>Some None\<close> is a field sent as \<open>null\<close>.\<close>

record hero_update =
  hu_content_type :: "string option option"
  hu_content_id :: "uuid option option"
  hu_placement :: "string option option"
  hu_is_active :: "bool option option"
  hu_sort_order :: "int option option"
  hu_starts_at :: "datetime option option"
  hu_ends_at :: "datetime option option"
  hu_title :: "string option option"
  hu_description :: "string option option"
  hu_banner_key :: "string option option"
  hu_link_url :: "string option option"
  hu_video_key :: "string option option"
  hu_youtube_url :: "string option option"
  hu_video_enabled :: "bool option option"

definition no_hero_update :: hero_update where
  "no_hero_update = \<lparr>hu_content_type = None, hu_content_id = None, hu_placement = None, hu_is_active = None,
     hu_sort_order = None, hu_starts_at = None, hu_ends_at = None, hu_title = None, hu_description = None,
     hu_banner_key = None, hu_link_url = None, hu_video_key = None, hu_youtube_url = None,
     hu_video_enabled = None\<rparr>"

definition check_optional :: "('a option \<Rightarrow> 'a option result) \<Rightarrow> 'a option option \<Rightarrow> 'a option option result" where
  "check_optional validate v =
     (case v of None \<Rightarrow> Inr None | Some x \<Rightarrow> (case validate x of Inl e \<Rightarrow> Inl e | Inr y \<Rightarrow> Inr (Some y)))"

definition check_hero_update :: "hero_update \<Rightarrow> hero_update result" where
  "check_hero_update u =
     (if (case hu_content_type u of Some (Some t) \<Rightarrow> t \<notin> hero_content_types | _ \<Rightarrow> False) \<or>
         (case hu_placement u of Some (Some p) \<Rightarrow> 32 < length p | _ \<Rightarrow> False)
      then Inl (ValueError ''invalid request'')
      else
       (case check_optional validate_link_url (hu_link_url u) of
          Inl e \<Rightarrow> Inl e
        | Inr link \<Rightarrow>
          (case check_optional validate_youtube_url (hu_youtube_url u) of
             Inl e \<Rightarrow> Inl e
           | Inr youtube \<Rightarrow>
               Inr (u\<lparr>hu_title := map_option normalize_optional_text (hu_title u), hu_link_url := link,
                      hu_youtube_url := youtube\<rparr>))))"

section \<open>The hero carousel\<close>

definition validate_hero_content ::
    "string option \<Rightarrow> uuid option \<Rightarrow> string option \<Rightarrow> string option \<Rightarrow> string option \<Rightarrow> db \<Rightarrow> unit result" where
  "validate_hero_content content_type content_id video_key youtube_url banner_key d =
     (if content_type = Some ''custom'' then
        (if content_id \<noteq> None then Inl (ValueError ''custom slides must not reference catalog content'')
         else if \<not> (truthy banner_key \<or> truthy video_key \<or> truthy youtube_url)
         then Inl (ValueError ''custom slides require an image, an uploaded video, or a YouTube URL'')
         else Inr ())
      else (case content_id of
        None \<Rightarrow> Inl (ValueError ''content_id is required for movie and series slides'')
      | Some cid \<Rightarrow>
          if content_type = Some ''movie'' then
            (if exists_row (\<lambda>c. ct_id c = cid \<and> ct_type c = ''single'') (contents d) then Inr ()
             else Inl (ValueError ''Movie not found''))
          else if content_type = Some ''series'' then
            (if exists_row (\<lambda>s. ser_id s = cid) (series_table d) then Inr ()
             else Inl (ValueError ''Series not found''))
          else Inl (ValueError ''content_type must be movie, series, or custom'')))"

text \<open>\<open>UNIQUE (placement, content_type, content_id)\<close>; NULL ids never clash.\<close>

definition hero_clash :: "hero_row \<Rightarrow> hero_row \<Rightarrow> bool" where
  "hero_clash a b \<longleftrightarrow> hero_placement a = hero_placement b \<and> hero_content_type a = hero_content_type b \<and>
     hero_content_id a \<noteq> None \<and> hero_content_id a = hero_content_id b"

text \<open>The admin answer: the row with the name, slug and thumbnail of what it shows.\<close>

type_synonym hero_view = "hero_row \<times> string option \<times> string option \<times> string option"

definition enrich_admin_hero_item :: "db \<Rightarrow> hero_row \<Rightarrow> hero_view" where
  "enrich_admin_hero_item d h =
     (if hero_content_type h = ''movie'' then
        (case select_one (\<lambda>c. Some (ct_id c) = hero_content_id h) (contents d) of
           None \<Rightarrow> (h, None, None, None)
         | Some c \<Rightarrow> (h, Some (ct_title c), Some (ct_slug c), or_else (ct_poster_key c) (ct_banner_key c)))
      else if hero_content_type h = ''series'' then
        (case select_one (\<lambda>s. Some (ser_id s) = hero_content_id h) (series_table d) of
           None \<Rightarrow> (h, None, None, None)
         | Some s \<Rightarrow> (h, Some (ser_title s), Some (ser_slug s), or_else (ser_poster_key s) (ser_banner_key s)))
      else if hero_content_type h = ''custom'' then (h, hero_title h, None, hero_banner_key h)
      else (h, None, None, None))"

definition hero_list :: "hero_row list \<Rightarrow> hero_row list" where
  "hero_list rows = order_by (\<lambda>h. (hero_sort_order h, - hero_created_at h)) rows"

definition list_admin_hero_featured :: "db \<Rightarrow> hero_view list" where
  "list_admin_hero_featured d = map (enrich_admin_hero_item d) (hero_list (hero_featured_items d))"

definition hero_drops :: "string \<Rightarrow> drop list" where
  "hero_drops placement = [DropKey (''hero:'' @ placement), DropKey ''home-sections'']"

definition created_hero :: "datetime \<Rightarrow> uuid \<Rightarrow> hero_create \<Rightarrow> hero_row" where
  "created_hero now fresh data =
     \<lparr>hero_id = fresh, hero_content_type = hc_content_type data, hero_content_id = hc_content_id data,
      hero_title = hc_title data, hero_description = hc_description data, hero_banner_key = hc_banner_key data,
      hero_link_url = hc_link_url data, hero_video_key = hc_video_key data,
      hero_youtube_url = hc_youtube_url data, hero_video_enabled = hc_video_enabled data,
      hero_placement = hc_placement data, hero_is_active = hc_is_active data,
      hero_sort_order = hc_sort_order data, hero_starts_at = hc_starts_at data,
      hero_ends_at = hc_ends_at data, hero_created_at = now\<rparr>"

definition as_not_found :: "'a result \<Rightarrow> 'a result" where
  "as_not_found r = (case r of Inl (ValueError m) \<Rightarrow> Inl (NotFoundError m) | Inl e \<Rightarrow> Inl e | Inr x \<Rightarrow> Inr x)"

definition create_admin_hero_featured ::
    "datetime \<Rightarrow> uuid \<Rightarrow> hero_create \<Rightarrow> db \<Rightarrow> (hero_view \<times> db \<times> drop list) result" where
  "create_admin_hero_featured now fresh request d =
     (case as_422 (check_hero_create request) of
        Inl e \<Rightarrow> Inl e
      | Inr data \<Rightarrow>
        (case as_not_found (validate_hero_content (Some (hc_content_type data)) (hc_content_id data)
                (hc_video_key data) (hc_youtube_url data) (hc_banner_key data) d) of
           Inl e \<Rightarrow> Inl e
         | Inr _ \<Rightarrow>
           (let item = created_hero now fresh data in
            if exists_row (hero_clash item) (hero_featured_items d)
            then Inl (ConflictError ''This title is already featured for this placement'')
            else (let d' = d\<lparr>hero_featured_items := hero_featured_items d @ [item]\<rparr>
                  in Inr (enrich_admin_hero_item d' item, d', hero_drops (hero_placement item))))))"

definition assign_hero :: "hero_update \<Rightarrow> hero_row \<Rightarrow> hero_row" where
  "assign_hero u h =
     set_required (hu_content_type u) (\<lambda>x h. h\<lparr>hero_content_type := x\<rparr>)
     (set_field (hu_content_id u) (\<lambda>x h. h\<lparr>hero_content_id := x\<rparr>)
     (set_required (hu_placement u) (\<lambda>x h. h\<lparr>hero_placement := x\<rparr>)
     (set_required (hu_is_active u) (\<lambda>x h. h\<lparr>hero_is_active := x\<rparr>)
     (set_required (hu_sort_order u) (\<lambda>x h. h\<lparr>hero_sort_order := x\<rparr>)
     (set_field (hu_starts_at u) (\<lambda>x h. h\<lparr>hero_starts_at := x\<rparr>)
     (set_field (hu_ends_at u) (\<lambda>x h. h\<lparr>hero_ends_at := x\<rparr>)
     (set_field (hu_title u) (\<lambda>x h. h\<lparr>hero_title := x\<rparr>)
     (set_field (hu_description u) (\<lambda>x h. h\<lparr>hero_description := x\<rparr>)
     (set_field (hu_banner_key u) (\<lambda>x h. h\<lparr>hero_banner_key := x\<rparr>)
     (set_field (hu_link_url u) (\<lambda>x h. h\<lparr>hero_link_url := x\<rparr>)
     (set_field (hu_video_key u) (\<lambda>x h. h\<lparr>hero_video_key := x\<rparr>)
     (set_field (hu_youtube_url u) (\<lambda>x h. h\<lparr>hero_youtube_url := x\<rparr>)
     (set_required (hu_video_enabled u) (\<lambda>x h. h\<lparr>hero_video_enabled := x\<rparr>) h)))))))))))))"

text \<open>A column that refuses NULL is set to \<open>null\<close>: the commit raises.\<close>

definition hero_null_columns :: "hero_update \<Rightarrow> bool" where
  "hero_null_columns u \<longleftrightarrow> hu_content_type u = Some None \<or> hu_placement u = Some None \<or>
     hu_is_active u = Some None \<or> hu_sort_order u = Some None \<or> hu_video_enabled u = Some None"

definition got :: "'a option \<Rightarrow> 'a \<Rightarrow> 'a" where
  "got v dflt = (case v of None \<Rightarrow> dflt | Some x \<Rightarrow> x)"

definition update_admin_hero_featured ::
    "uuid \<Rightarrow> hero_update \<Rightarrow> db \<Rightarrow> (hero_view \<times> db \<times> drop list) result" where
  "update_admin_hero_featured i request d =
     (case as_422 (check_hero_update request) of
        Inl e \<Rightarrow> Inl e
      | Inr u \<Rightarrow>
        (case select_one (\<lambda>h. hero_id h = i) (hero_featured_items d) of
           None \<Rightarrow> Inl (NotFoundError ''Hero featured item not found'')
         | Some item \<Rightarrow>
           (let content_type = got (hu_content_type u) (Some (hero_content_type item));
                u1 = (if content_type = Some ''custom'' then u\<lparr>hu_content_id := Some None\<rparr> else u);
                touches = hu_content_type u1 \<noteq> None \<or> hu_content_id u1 \<noteq> None \<or> hu_video_key u1 \<noteq> None \<or>
                          hu_youtube_url u1 \<noteq> None \<or> hu_banner_key u1 \<noteq> None
            in case (if touches
                     then as_not_found (validate_hero_content content_type
                            (got (hu_content_id u1) (hero_content_id item)) (got (hu_video_key u1) (hero_video_key item))
                            (got (hu_youtube_url u1) (hero_youtube_url item)) (got (hu_banner_key u1) (hero_banner_key item)) d)
                     else Inr ()) of
                 Inl e \<Rightarrow> Inl e
               | Inr _ \<Rightarrow>
                 (let item' = assign_hero u1 item in
                  if hero_null_columns u1 then Inl IntegrityError
                  else if exists_row (\<lambda>h. hero_id h \<noteq> i \<and> hero_clash item' h) (hero_featured_items d)
                  then Inl (ConflictError ''This title is already featured for this placement'')
                  else (let d' = d\<lparr>hero_featured_items := update_where (\<lambda>h. hero_id h = i) (\<lambda>_. item')
                               (hero_featured_items d)\<rparr>
                        in Inr (enrich_admin_hero_item d' item', d', hero_drops (hero_placement item')))))))"

definition delete_admin_hero_featured :: "uuid \<Rightarrow> db \<Rightarrow> (db \<times> drop list) result" where
  "delete_admin_hero_featured i d =
     (case select_one (\<lambda>h. hero_id h = i) (hero_featured_items d) of
        None \<Rightarrow> Inl (NotFoundError ''Hero featured item not found'')
      | Some item \<Rightarrow>
          Inr (d\<lparr>hero_featured_items := delete_where (\<lambda>h. hero_id h = i) (hero_featured_items d)\<rparr>,
               hero_drops (hero_placement item)))"

text \<open>The ids must be known and distinct; which of the slides they are is up to the request.\<close>

definition reorder_hero_items :: "uuid list \<Rightarrow> db \<Rightarrow> (string list \<times> db) result" where
  "reorder_hero_items ids d =
     (let found = filter (\<lambda>h. hero_id h \<in> set ids) (hero_featured_items d) in
      if \<not> distinct ids \<or> set ids \<noteq> set (map hero_id found)
      then Inl (ValueError ''These slides changed. Refresh and try again.'')
      else Inr (remdups (map hero_placement found),
                d\<lparr>hero_featured_items := assign_order hero_id (\<lambda>n h. h\<lparr>hero_sort_order := n\<rparr>) (\<lambda>_. True) ids
                    (hero_featured_items d)\<rparr>))"

definition reorder_admin_hero_featured :: "uuid list \<Rightarrow> db \<Rightarrow> (db \<times> drop list) result" where
  "reorder_admin_hero_featured ids d =
     (if ids = [] then Inl (HTTPException 422 ''ids is empty'')
      else case reorder_hero_items ids d of
        Inl (ValueError m) \<Rightarrow> Inl (ConflictError m)
      | Inl e \<Rightarrow> Inl e
      | Inr (placements, d') \<Rightarrow>
          Inr (d', map (\<lambda>p. DropKey (''hero:'' @ p)) placements @ [DropKey ''home-sections'']))"

definition hero_banner_content_types :: "string set" where
  "hero_banner_content_types = {''image/jpeg'', ''image/jpg'', ''image/png'', ''image/webp''}"

definition hero_video_content_types :: "string set" where
  "hero_video_content_types = {''video/mp4'', ''video/webm''}"

definition start_admin_hero_upload :: "string \<Rightarrow> string \<Rightarrow> string \<Rightarrow> string result" where
  "start_admin_hero_upload media_id kind content_type =
     (let normalized = lower (strip content_type) in
      if kind = ''banner'' then
        (if normalized \<in> hero_banner_content_types then Inr (hero_banner_media_key media_id normalized)
         else Inl (HTTPException 422 ''content_type''))
      else if normalized \<in> hero_video_content_types then Inr (hero_video_media_key media_id normalized)
      else Inl (HTTPException 422 ''content_type''))"

section \<open>What visitors see of the carousel\<close>

text \<open>Active on the page at \<open>now\<close>: the flag and the schedule, with open ends.\<close>

definition on_air :: "datetime \<Rightarrow> bool \<Rightarrow> datetime option \<Rightarrow> datetime option \<Rightarrow> bool" where
  "on_air now active starts ends \<longleftrightarrow> active \<and> (case starts of None \<Rightarrow> True | Some t \<Rightarrow> t \<le> now) \<and>
     (case ends of None \<Rightarrow> True | Some t \<Rightarrow> now \<le> t)"

definition list_active_hero_items :: "datetime \<Rightarrow> string \<Rightarrow> db \<Rightarrow> hero_row list" where
  "list_active_hero_items now placement d =
     hero_list (filter (\<lambda>h. hero_placement h = placement \<and>
       on_air now (hero_is_active h) (hero_starts_at h) (hero_ends_at h)) (hero_featured_items d))"

record hero_slide =
  sl_id :: uuid
  sl_content_type :: string
  sl_title :: string
  sl_title_km :: "string option"
  sl_slug :: string
  sl_description :: "string option"
  sl_genres :: "string list"
  sl_release_year :: "int option"
  sl_rating :: "decimal option"
  sl_runtime :: "string option"
  sl_poster_key :: "string option"
  sl_banner_key :: "string option"
  sl_watch_href :: "string option"
  sl_sort_order :: int
  sl_video_key :: "string option"
  sl_youtube_url :: "string option"

definition allow_video :: "hero_row \<Rightarrow> bool" where
  "allow_video h \<longleftrightarrow> hero_content_type h = ''custom'' \<or> hero_video_enabled h"

definition slide_video :: "hero_row \<Rightarrow> string option" where
  "slide_video h = (if allow_video h then hero_video_key h else None)"

definition slide_youtube :: "hero_row \<Rightarrow> string option" where
  "slide_youtube h = (if \<not> allow_video h \<or> truthy (hero_video_key h) then None else hero_youtube_url h)"

text \<open>The trailer of the title stands in when the slide brings no video of its own.\<close>

definition with_trailer :: "hero_row \<Rightarrow> string option \<Rightarrow> string option" where
  "with_trailer h trailer =
     (if allow_video h \<and> \<not> truthy (slide_video h) \<and> \<not> truthy (slide_youtube h) then trailer else slide_youtube h)"

definition build_slide :: "db \<Rightarrow> hero_row \<Rightarrow> hero_slide option" where
  "build_slide d h =
     (if hero_content_type h = ''custom'' then
        Some \<lparr>sl_id = hero_id h, sl_content_type = ''custom'',
          sl_title = (case hero_title h of None \<Rightarrow> [] | Some t \<Rightarrow> t), sl_title_km = None, sl_slug = [],
          sl_description = hero_description h, sl_genres = [], sl_release_year = None, sl_rating = None,
          sl_runtime = None, sl_poster_key = hero_banner_key h, sl_banner_key = hero_banner_key h,
          sl_watch_href = hero_link_url h, sl_sort_order = hero_sort_order h,
          sl_video_key = slide_video h, sl_youtube_url = slide_youtube h\<rparr>
      else if hero_content_type h = ''movie'' then
        map_option (\<lambda>m. \<lparr>sl_id = ct_id m, sl_content_type = ''movie'', sl_title = ct_title m,
          sl_title_km = ct_title_km m, sl_slug = ct_slug m, sl_description = ct_description m,
          sl_genres = ct_genres m, sl_release_year = ct_release_year m, sl_rating = ct_rating m,
          sl_runtime = ct_runtime m, sl_poster_key = ct_poster_key m, sl_banner_key = ct_banner_key m,
          sl_watch_href = Some (''/watch?slug='' @ ct_slug m), sl_sort_order = hero_sort_order h,
          sl_video_key = slide_video h, sl_youtube_url = with_trailer h (ct_trailer_url m)\<rparr>)
        (select_one (\<lambda>c. Some (ct_id c) = hero_content_id h \<and> ct_type c = ''single'' \<and> ct_is_published c) (contents d))
      else if hero_content_type h = ''series'' then
        map_option (\<lambda>s. \<lparr>sl_id = ser_id s, sl_content_type = ''series'', sl_title = ser_title s,
          sl_title_km = ser_title_km s, sl_slug = ser_slug s, sl_description = ser_description s,
          sl_genres = ser_genres s, sl_release_year = ser_release_year s, sl_rating = ser_rating s,
          sl_runtime = Some ''Series'', sl_poster_key = ser_poster_key s, sl_banner_key = ser_banner_key s,
          sl_watch_href = Some (''/watch/series/'' @ ser_slug s @ ''/1/1''), sl_sort_order = hero_sort_order h,
          sl_video_key = slide_video h, sl_youtube_url = with_trailer h (ser_trailer_url s)\<rparr>)
        (select_one (\<lambda>s. Some (ser_id s) = hero_content_id h \<and> ser_is_published s) (series_table d))
      else None)"

definition resolve_hero_slides :: "datetime \<Rightarrow> string \<Rightarrow> db \<Rightarrow> hero_slide list" where
  "resolve_hero_slides now placement d = List.map_filter (build_slide d) (list_active_hero_items now placement d)"

definition list_hero_featured ::
    "(hero_slide list \<Rightarrow> string) \<Rightarrow> (string \<Rightarrow> hero_slide list option) \<Rightarrow> bool \<Rightarrow> monotonic \<Rightarrow> nat \<Rightarrow>
     datetime \<Rightarrow> string \<Rightarrow> db \<Rightarrow> hero_slide list catalog_cache \<Rightarrow> hero_slide list \<times> hero_slide list catalog_cache" where
  "list_hero_featured dumps loads up t w now placement d s =
     cache_get_or_set dumps loads up t w catalog_ttl_seconds (''hero:'' @ placement)
       (resolve_hero_slides now placement d) s"

section \<open>Promotion banners\<close>

definition validate_cta_href :: "string option \<Rightarrow> string option result" where
  "validate_cta_href v =
     (case v of
        None \<Rightarrow> Inr None
      | Some x \<Rightarrow>
        (let href = strip x in
         if href = [] then Inr None
         else if \<not> starts_with ''/'' href \<or> starts_with ''//'' href
         then Inl (ValueError ''cta_href must be a site path starting with /'')
         else if contains ''://'' href \<or> contains [CHR 0x5C] href
         then Inl (ValueError ''cta_href must be a relative path'')
         else Inr (Some href)))"

record banner_create =
  bc_title :: string
  bc_subtitle :: "string option"
  bc_image_key :: "string option"
  bc_cta_label :: "string option"
  bc_cta_href :: "string option"
  bc_placement :: string
  bc_is_active :: bool
  bc_sort_order :: int
  bc_starts_at :: "datetime option"
  bc_ends_at :: "datetime option"

definition at_most :: "nat \<Rightarrow> string option \<Rightarrow> bool" where
  "at_most n v = (case v of None \<Rightarrow> True | Some s \<Rightarrow> length s \<le> n)"

definition check_banner_create :: "banner_create \<Rightarrow> banner_create result" where
  "check_banner_create data =
     (if bc_title data = [] \<or> 200 < length (bc_title data) \<or> \<not> at_most 500 (bc_subtitle data) \<or>
         \<not> at_most 80 (bc_cta_label data) \<or> \<not> at_most 500 (bc_cta_href data) \<or> 32 < length (bc_placement data)
      then Inl (ValueError ''invalid request'')
      else (case validate_cta_href (bc_cta_href data) of
              Inl e \<Rightarrow> Inl e | Inr href \<Rightarrow> Inr (data\<lparr>bc_cta_href := href\<rparr>)))"

record banner_update =
  bu_title :: "string option option"
  bu_subtitle :: "string option option"
  bu_image_key :: "string option option"
  bu_cta_label :: "string option option"
  bu_cta_href :: "string option option"
  bu_placement :: "string option option"
  bu_is_active :: "bool option option"
  bu_sort_order :: "int option option"
  bu_starts_at :: "datetime option option"
  bu_ends_at :: "datetime option option"

definition check_banner_update :: "banner_update \<Rightarrow> banner_update result" where
  "check_banner_update u =
     (if (case bu_title u of Some (Some t) \<Rightarrow> t = [] \<or> 200 < length t | _ \<Rightarrow> False) \<or>
         \<not> at_most 80 (got (bu_cta_label u) None) \<or> \<not> at_most 500 (got (bu_cta_href u) None) \<or>
         \<not> at_most 32 (got (bu_placement u) None)
      then Inl (ValueError ''invalid request'')
      else (case check_optional validate_cta_href (bu_cta_href u) of
              Inl e \<Rightarrow> Inl e | Inr href \<Rightarrow> Inr (u\<lparr>bu_cta_href := href\<rparr>)))"

definition banner_list :: "banner_row list \<Rightarrow> banner_row list" where
  "banner_list rows = order_by (\<lambda>b. (ban_sort_order b, - ban_created_at b)) rows"

definition list_admin_promotion_banners :: "db \<Rightarrow> banner_row list" where
  "list_admin_promotion_banners d = banner_list (promotion_banners d)"

definition list_active_promotion_banners :: "datetime \<Rightarrow> string \<Rightarrow> db \<Rightarrow> banner_row list" where
  "list_active_promotion_banners now placement d =
     banner_list (filter (\<lambda>b. ban_placement b = placement \<and>
       on_air now (ban_is_active b) (ban_starts_at b) (ban_ends_at b)) (promotion_banners d))"

definition list_promotion_banners ::
    "(banner_row list \<Rightarrow> string) \<Rightarrow> (string \<Rightarrow> banner_row list option) \<Rightarrow> bool \<Rightarrow> monotonic \<Rightarrow> nat \<Rightarrow>
     datetime \<Rightarrow> string \<Rightarrow> db \<Rightarrow> banner_row list catalog_cache \<Rightarrow> banner_row list \<times> banner_row list catalog_cache" where
  "list_promotion_banners dumps loads up t w now placement d s =
     cache_get_or_set dumps loads up t w catalog_ttl_seconds (''promos:'' @ placement)
       (list_active_promotion_banners now placement d) s"

definition promo_drops :: "string \<Rightarrow> drop list" where
  "promo_drops placement = [DropKey (''promos:'' @ placement), DropKey ''home-sections'']"

definition create_admin_promotion_banner ::
    "datetime \<Rightarrow> uuid \<Rightarrow> banner_create \<Rightarrow> db \<Rightarrow> (banner_row \<times> db \<times> drop list) result" where
  "create_admin_promotion_banner now fresh request d =
     (case as_422 (check_banner_create request) of
        Inl e \<Rightarrow> Inl e
      | Inr data \<Rightarrow>
        (let banner = \<lparr>ban_id = fresh, ban_title = bc_title data, ban_subtitle = bc_subtitle data,
               ban_image_key = bc_image_key data, ban_cta_label = bc_cta_label data, ban_cta_href = bc_cta_href data,
               ban_placement = bc_placement data, ban_is_active = bc_is_active data,
               ban_sort_order = bc_sort_order data, ban_starts_at = bc_starts_at data,
               ban_ends_at = bc_ends_at data, ban_created_at = now\<rparr>
         in Inr (banner, d\<lparr>promotion_banners := promotion_banners d @ [banner]\<rparr>, promo_drops (ban_placement banner))))"

definition assign_banner :: "banner_update \<Rightarrow> banner_row \<Rightarrow> banner_row" where
  "assign_banner u b =
     set_required (bu_title u) (\<lambda>x b. b\<lparr>ban_title := x\<rparr>)
     (set_field (bu_subtitle u) (\<lambda>x b. b\<lparr>ban_subtitle := x\<rparr>)
     (set_field (bu_image_key u) (\<lambda>x b. b\<lparr>ban_image_key := x\<rparr>)
     (set_field (bu_cta_label u) (\<lambda>x b. b\<lparr>ban_cta_label := x\<rparr>)
     (set_field (bu_cta_href u) (\<lambda>x b. b\<lparr>ban_cta_href := x\<rparr>)
     (set_required (bu_placement u) (\<lambda>x b. b\<lparr>ban_placement := x\<rparr>)
     (set_required (bu_is_active u) (\<lambda>x b. b\<lparr>ban_is_active := x\<rparr>)
     (set_required (bu_sort_order u) (\<lambda>x b. b\<lparr>ban_sort_order := x\<rparr>)
     (set_field (bu_starts_at u) (\<lambda>x b. b\<lparr>ban_starts_at := x\<rparr>)
     (set_field (bu_ends_at u) (\<lambda>x b. b\<lparr>ban_ends_at := x\<rparr>) b)))))))))"

definition banner_null_columns :: "banner_update \<Rightarrow> bool" where
  "banner_null_columns u \<longleftrightarrow> bu_title u = Some None \<or> bu_placement u = Some None \<or>
     bu_is_active u = Some None \<or> bu_sort_order u = Some None"

definition update_admin_promotion_banner ::
    "(string option \<Rightarrow> string \<Rightarrow> string option) \<Rightarrow> uuid \<Rightarrow> banner_update \<Rightarrow> db \<Rightarrow>
     (banner_row \<times> db \<times> drop list) result" where
  "update_admin_promotion_banner optimize i request d =
     (case as_422 (check_banner_update request) of
        Inl e \<Rightarrow> Inl e
      | Inr u \<Rightarrow>
        (case select_one (\<lambda>b. ban_id b = i) (promotion_banners d) of
           None \<Rightarrow> Inl (NotFoundError ''Promotion banner not found'')
         | Some banner \<Rightarrow>
           (let u1 = (case bu_image_key u of
                        Some k \<Rightarrow> if truthy k then u\<lparr>bu_image_key := Some (optimize k ''banner'')\<rparr> else u
                      | None \<Rightarrow> u);
                b = assign_banner u1 banner
            in if banner_null_columns u1 then Inl IntegrityError
               else Inr (b, d\<lparr>promotion_banners := update_where (\<lambda>b. ban_id b = i) (\<lambda>_. b) (promotion_banners d)\<rparr>,
                         promo_drops (ban_placement b)))))"

definition delete_admin_promotion_banner :: "uuid \<Rightarrow> db \<Rightarrow> (db \<times> drop list) result" where
  "delete_admin_promotion_banner i d =
     (case select_one (\<lambda>b. ban_id b = i) (promotion_banners d) of
        None \<Rightarrow> Inl (NotFoundError ''Promotion banner not found'')
      | Some banner \<Rightarrow>
          Inr (d\<lparr>promotion_banners := delete_where (\<lambda>b. ban_id b = i) (promotion_banners d)\<rparr>,
               promo_drops (ban_placement banner)))"

definition reorder_promotion_banners :: "uuid list \<Rightarrow> db \<Rightarrow> (string list \<times> db) result" where
  "reorder_promotion_banners ids d =
     (let found = filter (\<lambda>b. ban_id b \<in> set ids) (promotion_banners d) in
      if \<not> distinct ids \<or> set ids \<noteq> set (map ban_id found)
      then Inl (ValueError ''These banners changed. Refresh and try again.'')
      else Inr (remdups (map ban_placement found),
                d\<lparr>promotion_banners := assign_order ban_id (\<lambda>n b. b\<lparr>ban_sort_order := n\<rparr>) (\<lambda>_. True) ids
                    (promotion_banners d)\<rparr>))"

definition reorder_admin_promotion_banners :: "uuid list \<Rightarrow> db \<Rightarrow> (db \<times> drop list) result" where
  "reorder_admin_promotion_banners ids d =
     (if ids = [] then Inl (HTTPException 422 ''ids is empty'')
      else case reorder_promotion_banners ids d of
        Inl (ValueError m) \<Rightarrow> Inl (ConflictError m)
      | Inl e \<Rightarrow> Inl e
      | Inr (placements, d') \<Rightarrow>
          Inr (d', map (\<lambda>p. DropKey (''promos:'' @ p)) placements @ [DropKey ''home-sections'']))"

definition start_admin_promotion_banner_image_upload ::
    "string \<Rightarrow> string \<Rightarrow> uuid \<Rightarrow> string \<Rightarrow> db \<Rightarrow> string result" where
  "start_admin_promotion_banner_image_upload token banner_text i content_type d =
     (let normalized = lower (strip content_type) in
      if normalized \<notin> hero_banner_content_types
      then Inl (HTTPException 422 ''content_type must be image/jpeg, image/png, or image/webp'')
      else if exists_row (\<lambda>b. ban_id b = i) (promotion_banners d)
      then Inr (promotion_banner_image_key token banner_text normalized)
      else Inl (NotFoundError ''Promotion banner not found''))"

section \<open>Order\<close>

interpretation hero_order: sortable hero_id hero_sort_order "\<lambda>n h. h\<lparr>hero_sort_order := n\<rparr>" "\<lambda>_. True"
  by unfold_locales simp_all

interpretation banner_order: sortable ban_id ban_sort_order "\<lambda>n b. b\<lparr>ban_sort_order := n\<rparr>" "\<lambda>_. True"
  by unfold_locales simp_all

section \<open>Where slides and banners may lead\<close>

text \<open>An address on this site, or an explicit http(s) one.\<close>

definition safe_link :: "string option \<Rightarrow> bool" where
  "safe_link v \<longleftrightarrow> (case v of None \<Rightarrow> True
     | Some u \<Rightarrow> starts_with ''/'' u \<and> \<not> starts_with ''//'' u \<or> starts_with ''http://'' u \<or> starts_with ''https://'' u)"

definition safe_path :: "string option \<Rightarrow> bool" where
  "safe_path v \<longleftrightarrow> (case v of None \<Rightarrow> True
     | Some u \<Rightarrow> starts_with ''/'' u \<and> \<not> starts_with ''//'' u \<and> \<not> contains ''://'' u \<and> \<not> contains [CHR 0x5C] u)"

text \<open>A custom slide brings its own media, any other names the title it shows.\<close>

definition hero_ok :: "hero_row \<Rightarrow> bool" where
  "hero_ok h \<longleftrightarrow> hero_content_type h \<in> hero_content_types \<and> safe_link (hero_link_url h) \<and>
     (hero_content_type h = ''custom'' \<longleftrightarrow> hero_content_id h = None) \<and>
     (hero_content_type h = ''custom'' \<longrightarrow> truthy (hero_banner_key h) \<or> truthy (hero_video_key h) \<or> truthy (hero_youtube_url h))"

definition no_clash :: "hero_row list \<Rightarrow> bool" where
  "no_clash rows \<longleftrightarrow> (\<forall>a \<in> set rows. \<forall>b \<in> set rows. hero_clash a b \<longrightarrow> hero_id a = hero_id b)"

definition showcase_ok :: "db \<Rightarrow> bool" where
  "showcase_ok d \<longleftrightarrow> (\<forall>h \<in> set (hero_featured_items d). hero_ok h) \<and> no_clash (hero_featured_items d) \<and>
     (\<forall>b \<in> set (promotion_banners d). safe_path (ban_cta_href b))"

inductive showcase_step :: "db \<Rightarrow> db \<Rightarrow> bool" where
  create_hero: "create_admin_hero_featured now fresh data d = Inr (v, d', ks) \<Longrightarrow> showcase_step d d'"
| update_hero: "update_admin_hero_featured i u d = Inr (v, d', ks) \<Longrightarrow> showcase_step d d'"
| delete_hero: "delete_admin_hero_featured i d = Inr (d', ks) \<Longrightarrow> showcase_step d d'"
| reorder_hero: "reorder_admin_hero_featured ids d = Inr (d', ks) \<Longrightarrow> showcase_step d d'"
| create_banner: "create_admin_promotion_banner now fresh data2 d = Inr (b, d', ks) \<Longrightarrow> showcase_step d d'"
| update_banner: "update_admin_promotion_banner optimize i u2 d = Inr (b, d', ks) \<Longrightarrow> showcase_step d d'"
| delete_banner: "delete_admin_promotion_banner i d = Inr (d', ks) \<Longrightarrow> showcase_step d d'"
| reorder_banners: "reorder_admin_promotion_banners ids d = Inr (d', ks) \<Longrightarrow> showcase_step d d'"

lemma link_validated: "validate_link_url v = Inr w \<Longrightarrow> safe_link w"
  by (auto simp: validate_link_url_def safe_link_def Let_def split: option.splits if_splits)

lemma href_validated: "validate_cta_href v = Inr w \<Longrightarrow> safe_path w"
  by (auto simp: validate_cta_href_def safe_path_def Let_def split: option.splits if_splits)

lemma as_422_ok [simp]: "as_422 r = Inr x \<longleftrightarrow> r = Inr x"
  by (cases r rule: as_422.cases) simp_all

lemma as_not_found_ok [simp]: "as_not_found r = Inr x \<longleftrightarrow> r = Inr x"
  by (auto simp: as_not_found_def split: sum.splits error.splits)

lemma content_validated:
  assumes "validate_hero_content (Some t) cid video youtube banner d = Inr ()"
  shows "t \<in> hero_content_types \<and> (t = ''custom'' \<longleftrightarrow> cid = None) \<and>
    (t = ''custom'' \<longrightarrow> truthy banner \<or> truthy video \<or> truthy youtube)"
  using assms by (auto simp: validate_hero_content_def hero_content_types_def split: if_splits option.splits)

lemma created_hero_ok:
  assumes "check_hero_create request = Inr data"
    and "validate_hero_content (Some (hc_content_type data)) (hc_content_id data) (hc_video_key data)
      (hc_youtube_url data) (hc_banner_key data) d = Inr ()"
  shows "hero_ok (created_hero now fresh data)"
proof -
  have "safe_link (hc_link_url data)"
    using assms(1) by (auto simp: check_hero_create_def Let_def dest!: link_validated split: if_splits sum.splits)
  then show ?thesis using content_validated [OF assms(2)] by (simp add: hero_ok_def created_hero_def)
qed

lemma set_field_keeps: "(\<And>x r. k (f x r) = k r) \<Longrightarrow> k (set_field v f r) = k r"
  by (simp add: set_field_def split: option.splits)

lemma set_required_keeps: "(\<And>x r. k (f x r) = k r) \<Longrightarrow> k (set_required v f r) = k r"
  by (simp add: set_required_def split: option.splits)

lemma set_field_at: "k (set_field v f r) = (case v of None \<Rightarrow> k r | Some x \<Rightarrow> k (f x r))"
  by (simp add: set_field_def split: option.splits)

lemma set_required_at: "k (set_required v f r) = (case v of Some (Some x) \<Rightarrow> k (f x r) | _ \<Rightarrow> k r)"
  by (simp add: set_required_def split: option.splits)

lemma assign_hero_at:
  "hero_id (assign_hero u h) = hero_id h"
  "hero_content_type (assign_hero u h) = (case hu_content_type u of Some (Some x) \<Rightarrow> x | _ \<Rightarrow> hero_content_type h)"
  "hero_content_id (assign_hero u h) = got (hu_content_id u) (hero_content_id h)"
  "hero_link_url (assign_hero u h) = got (hu_link_url u) (hero_link_url h)"
  "hero_banner_key (assign_hero u h) = got (hu_banner_key u) (hero_banner_key h)"
  "hero_video_key (assign_hero u h) = got (hu_video_key u) (hero_video_key h)"
  "hero_youtube_url (assign_hero u h) = got (hu_youtube_url u) (hero_youtube_url h)"
  unfolding assign_hero_def got_def
  by (simp_all add: set_field_keeps [of hero_id] set_required_keeps [of hero_id]
      set_field_keeps [of hero_content_type] set_required_keeps [of hero_content_type]
      set_field_keeps [of hero_content_id] set_required_keeps [of hero_content_id]
      set_field_keeps [of hero_link_url] set_required_keeps [of hero_link_url]
      set_field_keeps [of hero_banner_key] set_required_keeps [of hero_banner_key]
      set_field_keeps [of hero_video_key] set_required_keeps [of hero_video_key]
      set_field_keeps [of hero_youtube_url] set_required_keeps [of hero_youtube_url]
      set_required_at [of hero_content_type "hu_content_type u" "\<lambda>x r. r\<lparr>hero_content_type := x\<rparr>"]
      set_field_at [of hero_content_id "hu_content_id u" "\<lambda>x r. r\<lparr>hero_content_id := x\<rparr>"]
      set_field_at [of hero_link_url "hu_link_url u" "\<lambda>x r. r\<lparr>hero_link_url := x\<rparr>"]
      set_field_at [of hero_banner_key "hu_banner_key u" "\<lambda>x r. r\<lparr>hero_banner_key := x\<rparr>"]
      set_field_at [of hero_video_key "hu_video_key u" "\<lambda>x r. r\<lparr>hero_video_key := x\<rparr>"]
      set_field_at [of hero_youtube_url "hu_youtube_url u" "\<lambda>x r. r\<lparr>hero_youtube_url := x\<rparr>"]
      cong: option.case_cong)

lemma assign_banner_at:
  "ban_id (assign_banner u b) = ban_id b"
  "ban_cta_href (assign_banner u b) = got (bu_cta_href u) (ban_cta_href b)"
  unfolding assign_banner_def got_def
  by (simp_all add: set_field_keeps [of ban_id] set_required_keeps [of ban_id]
      set_field_keeps [of ban_cta_href] set_required_keeps [of ban_cta_href]
      set_field_at [of ban_cta_href "bu_cta_href u" "\<lambda>x r. r\<lparr>ban_cta_href := x\<rparr>"] cong: option.case_cong)

lemma update_checked:
  assumes "check_hero_update request = Inr u" and "safe_link (hero_link_url h)"
  shows "safe_link (got (hu_link_url u) (hero_link_url h))"
  using assms
  by (auto simp: check_hero_update_def check_optional_def got_def Let_def dest!: link_validated
      split: if_splits sum.splits option.splits)

lemma banner_update_checked:
  assumes "check_banner_update request = Inr u" and "safe_path (ban_cta_href b)"
  shows "safe_path (got (bu_cta_href u) (ban_cta_href b))"
  using assms
  by (auto simp: check_banner_update_def check_optional_def got_def Let_def dest!: href_validated
      split: if_splits sum.splits option.splits)

text \<open>A PATCH that leaves the media and the reference alone keeps them, any other is validated again.\<close>

lemma updated_hero_ok:
  assumes h: "hero_ok h" and chk: "check_hero_update request = Inr u"
    and nulls: "\<not> hero_null_columns u1" and t: "t = got (hu_content_type u) (Some (hero_content_type h))"
    and u1: "u1 = (if t = Some ''custom'' then u\<lparr>hu_content_id := Some None\<rparr> else u)"
    and val: "hu_content_type u1 \<noteq> None \<or> hu_content_id u1 \<noteq> None \<or> hu_video_key u1 \<noteq> None \<or>
      hu_youtube_url u1 \<noteq> None \<or> hu_banner_key u1 \<noteq> None \<Longrightarrow>
      validate_hero_content t (got (hu_content_id u1) (hero_content_id h)) (got (hu_video_key u1) (hero_video_key h))
        (got (hu_youtube_url u1) (hero_youtube_url h)) (got (hu_banner_key u1) (hero_banner_key h)) d = Inr ()"
  shows "hero_ok (assign_hero u1 h)"
proof -
  have same: "hu_link_url u1 = hu_link_url u" "hu_content_type u1 = hu_content_type u" by (simp_all add: u1)
  have link: "safe_link (got (hu_link_url u1) (hero_link_url h))"
    using update_checked [OF chk, of h] h same by (simp add: hero_ok_def)
  have ty: "t = Some (hero_content_type (assign_hero u1 h))"
    using nulls same by (auto simp: t assign_hero_at hero_null_columns_def got_def split: option.splits)
  show ?thesis
  proof (cases "hu_content_type u1 \<noteq> None \<or> hu_content_id u1 \<noteq> None \<or> hu_video_key u1 \<noteq> None \<or>
      hu_youtube_url u1 \<noteq> None \<or> hu_banner_key u1 \<noteq> None")
    case True
    from content_validated [OF val [OF True, unfolded ty]] link show ?thesis
      unfolding hero_ok_def by (simp add: assign_hero_at(3-7))
  next
    case False
    then show ?thesis using h link by (simp add: hero_ok_def assign_hero_at got_def)
  qed
qed

lemma hero_clash_sym: "hero_clash a b \<Longrightarrow> hero_clash b a"
  unfolding hero_clash_def by metis

lemma no_clash_update:
  assumes "no_clash rows" and "\<And>h. h \<in> set rows \<Longrightarrow> hero_id h \<noteq> i \<Longrightarrow> \<not> hero_clash item h"
    and "hero_id item = i"
  shows "no_clash (update_where (\<lambda>h. hero_id h = i) (\<lambda>_. item) rows)"
proof -
  have mem: "x = item \<or> x \<in> set rows \<and> hero_id x \<noteq> i"
    if "x \<in> set (update_where (\<lambda>h. hero_id h = i) (\<lambda>_. item) rows)" for x
    using that by (auto simp: in_update_where split: if_splits)
  show ?thesis unfolding no_clash_def using mem assms hero_clash_sym unfolding no_clash_def by metis
qed

definition hero_key :: "hero_row \<Rightarrow> uuid \<times> string \<times> string \<times> uuid option" where
  "hero_key h = (hero_id h, hero_placement h, hero_content_type h, hero_content_id h)"

lemma no_clash_keys: "no_clash rows \<longleftrightarrow> (\<forall>(i, x) \<in> set (map hero_key rows). \<forall>(j, y) \<in> set (map hero_key rows).
    x = y \<and> snd (snd x) \<noteq> None \<longrightarrow> i = j)"
  by (auto simp: no_clash_def hero_key_def hero_clash_def)

lemma created_step:
  assumes ok: "showcase_ok d" and run: "create_admin_hero_featured now fresh data d = Inr (v, d', ks)"
  shows "showcase_ok d'"
proof -
  obtain x where x: "check_hero_create data = Inr x"
    "validate_hero_content (Some (hc_content_type x)) (hc_content_id x) (hc_video_key x) (hc_youtube_url x) (hc_banner_key x) d = Inr ()"
    and free: "\<not> exists_row (hero_clash (created_hero now fresh x)) (hero_featured_items d)"
    and d': "d' = d\<lparr>hero_featured_items := hero_featured_items d @ [created_hero now fresh x]\<rparr>"
    using run by (auto simp: create_admin_hero_featured_def Let_def split: sum.splits if_splits)
  have "no_clash (hero_featured_items d')"
    using ok free unfolding showcase_ok_def no_clash_def d' by (auto simp: exists_row_iff dest: hero_clash_sym)
  then show ?thesis using ok created_hero_ok [OF x] by (simp add: showcase_ok_def d')
qed

lemma updated_step:
  assumes ok: "showcase_ok d" and run: "update_admin_hero_featured i request d = Inr (v, d', ks)"
  shows "showcase_ok d'"
proof -
  obtain u h where u: "check_hero_update request = Inr u" and h: "select_one (\<lambda>h. hero_id h = i) (hero_featured_items d) = Some h"
    using run by (auto simp: update_admin_hero_featured_def split: sum.splits option.splits)
  define t where "t = got (hu_content_type u) (Some (hero_content_type h))"
  define u1 where "u1 = (if t = Some ''custom'' then u\<lparr>hu_content_id := Some None\<rparr> else u)"
  note run' = run [unfolded update_admin_hero_featured_def Let_def, simplified u h as_422.simps sum.case option.case,
      folded t_def, folded u1_def]
  have nulls: "\<not> hero_null_columns u1"
    and free: "\<not> exists_row (\<lambda>x. hero_id x \<noteq> i \<and> hero_clash (assign_hero u1 h) x) (hero_featured_items d)"
    and d': "d' = d\<lparr>hero_featured_items := update_where (\<lambda>h. hero_id h = i) (\<lambda>_. assign_hero u1 h) (hero_featured_items d)\<rparr>"
    using run' by (auto split: sum.splits if_splits)
  have val: "validate_hero_content t (got (hu_content_id u1) (hero_content_id h)) (got (hu_video_key u1) (hero_video_key h))
        (got (hu_youtube_url u1) (hero_youtube_url h)) (got (hu_banner_key u1) (hero_banner_key h)) d = Inr ()"
    if "hu_content_type u1 \<noteq> None \<or> hu_content_id u1 \<noteq> None \<or> hu_video_key u1 \<noteq> None \<or>
      hu_youtube_url u1 \<noteq> None \<or> hu_banner_key u1 \<noteq> None"
    using run' that by (auto split: sum.splits if_splits)
  have in_h: "h \<in> set (hero_featured_items d)" "hero_id h = i" using h by (auto dest: select_one_Some)
  then have "hero_ok h" using ok by (simp add: showcase_ok_def)
  from updated_hero_ok [OF this u nulls t_def u1_def val] have "hero_ok (assign_hero u1 h)" .
  moreover have "no_clash (hero_featured_items d')"
    unfolding d' by (simp, rule no_clash_update) (use ok free in_h in \<open>auto simp: showcase_ok_def exists_row_iff assign_hero_at(1)\<close>)
  ultimately show ?thesis using ok by (auto simp: showcase_ok_def d' in_update_where)
qed

lemma subset_step:
  assumes ok: "showcase_ok d" and "set (hero_featured_items d') \<subseteq> set (hero_featured_items d)"
    and "set (promotion_banners d') \<subseteq> set (promotion_banners d)"
  shows "showcase_ok d'"
  using assms unfolding showcase_ok_def no_clash_def by blast

lemma reordered_hero_step:
  assumes ok: "showcase_ok d" and run: "reorder_admin_hero_featured ids d = Inr (d', ks)"
  shows "showcase_ok d'"
proof -
  let ?rows = "assign_order hero_id (\<lambda>n h. h\<lparr>hero_sort_order := n\<rparr>) (\<lambda>_. True) ids (hero_featured_items d)"
  have d': "d' = d\<lparr>hero_featured_items := ?rows\<rparr>"
    using run by (auto simp: reorder_admin_hero_featured_def reorder_hero_items_def Let_def split: if_splits)
  have keys: "map hero_key ?rows = map hero_key (hero_featured_items d)"
    by (rule assign_keeps) (simp add: hero_key_def)
  have oks: "map hero_ok ?rows = map hero_ok (hero_featured_items d)"
    by (rule assign_keeps) (simp add: hero_ok_def)
  have all: "(\<forall>h \<in> set xs. hero_ok h) \<longleftrightarrow> (\<forall>b \<in> set (map hero_ok xs). b)" for xs by simp
  have "hero_featured_items d' = ?rows" "promotion_banners d' = promotion_banners d" by (simp_all add: d')
  then show ?thesis using ok by (simp only: showcase_ok_def no_clash_keys all keys oks)
qed

lemma reordered_banners_step:
  assumes ok: "showcase_ok d" and run: "reorder_admin_promotion_banners ids d = Inr (d', ks)"
  shows "showcase_ok d'"
proof -
  let ?rows = "assign_order ban_id (\<lambda>n b. b\<lparr>ban_sort_order := n\<rparr>) (\<lambda>_. True) ids (promotion_banners d)"
  have d': "d' = d\<lparr>promotion_banners := ?rows\<rparr>"
    using run by (auto simp: reorder_admin_promotion_banners_def reorder_promotion_banners_def Let_def split: if_splits)
  have refs: "map ban_cta_href ?rows = map ban_cta_href (promotion_banners d)" by (rule assign_keeps) simp
  have all: "(\<forall>b \<in> set xs. safe_path (ban_cta_href b)) \<longleftrightarrow> (\<forall>r \<in> set (map ban_cta_href xs). safe_path r)" for xs by simp
  have "promotion_banners d' = ?rows" "hero_featured_items d' = hero_featured_items d" by (simp_all add: d')
  then have "showcase_ok d' = showcase_ok d" by (simp only: showcase_ok_def all refs)
  then show ?thesis using ok by simp
qed

lemma banner_href: "check_banner_create data = Inr x \<Longrightarrow> safe_path (bc_cta_href x)"
  by (auto simp: check_banner_create_def dest!: href_validated split: if_splits sum.splits)

lemma updated_banner_step:
  assumes ok: "showcase_ok d" and run: "update_admin_promotion_banner optimize i request d = Inr (b, d', ks)"
  shows "showcase_ok d'"
proof -
  obtain u b0 where u: "check_banner_update request = Inr u"
    and b0: "select_one (\<lambda>b. ban_id b = i) (promotion_banners d) = Some b0"
    using run by (auto simp: update_admin_promotion_banner_def split: sum.splits option.splits)
  define u1 where "u1 = (case bu_image_key u of
      Some k \<Rightarrow> if truthy k then u\<lparr>bu_image_key := Some (optimize k ''banner'')\<rparr> else u | None \<Rightarrow> u)"
  have u1: "bu_cta_href u1 = bu_cta_href u" by (simp add: u1_def split: option.splits)
  have d': "d' = d\<lparr>promotion_banners := update_where (\<lambda>b. ban_id b = i) (\<lambda>_. assign_banner u1 b0) (promotion_banners d)\<rparr>"
    using run [unfolded update_admin_promotion_banner_def Let_def, simplified u b0 as_422.simps sum.case option.case, folded u1_def]
    by (auto split: if_splits)
  have "b0 \<in> set (promotion_banners d)" using b0 by (auto dest: select_one_Some)
  then have "safe_path (ban_cta_href (assign_banner u1 b0))"
    using ok banner_update_checked [OF u, of b0] u1 by (simp add: showcase_ok_def assign_banner_at)
  then show ?thesis using ok by (auto simp: showcase_ok_def d' in_update_where)
qed

lemma showcase_step_ok: "showcase_step d d' \<Longrightarrow> showcase_ok d \<Longrightarrow> showcase_ok d'"
proof (induction rule: showcase_step.induct)
  case (create_banner now fresh data2 d b d' ks)
  then show ?case
    by (auto simp: create_admin_promotion_banner_def Let_def showcase_ok_def dest!: banner_href split: sum.splits)
next
  case (delete_hero i d d' ks)
  then show ?case
    by (auto simp: delete_admin_hero_featured_def split: option.splits intro!: subset_step [OF delete_hero.prems])
next
  case (delete_banner i d d' ks)
  then show ?case
    by (auto simp: delete_admin_promotion_banner_def split: option.splits intro!: subset_step [OF delete_banner.prems])
qed (blast intro: created_step updated_step reordered_hero_step reordered_banners_step updated_banner_step)+

text \<open>
  C16: Slides and banners only lead where they may. Through any sequence of creations, partial updates,
  removals and reorderings, every banner links to a path of this site and every slide to a path of this
  site or an explicit http(s) address; a custom slide brings an image or a video and names no title, any
  other slide names one; and no title is featured twice on a page. What visitors get of a slide is that
  link, and only titles that are published.
\<close>

theorem showcase_invariant:
  assumes "showcase_step\<^sup>*\<^sup>* d d'" and "showcase_ok d"
  shows "showcase_ok d' \<and> (\<forall>sl \<in> set (resolve_hero_slides now placement d').
    safe_link (sl_watch_href sl) \<and> (sl_content_type sl = ''movie'' \<longrightarrow>
      (\<exists>c \<in> set (contents d'). ct_id c = sl_id sl \<and> ct_is_published c)))"
proof -
  have ok: "showcase_ok d'" using assms by (induction rule: rtranclp_induct) (auto intro: showcase_step_ok)
  have "safe_link (sl_watch_href sl) \<and> (sl_content_type sl = ''movie'' \<longrightarrow>
      (\<exists>c \<in> set (contents d'). ct_id c = sl_id sl \<and> ct_is_published c))"
    if h: "h \<in> set (hero_featured_items d')" and sl: "build_slide d' h = Some sl" for h sl
  proof -
    have "safe_link (hero_link_url h)" using ok h by (simp add: showcase_ok_def hero_ok_def)
    then show ?thesis using sl
      by (auto simp: build_slide_def safe_link_def dest!: select_one_Some split: if_splits option.splits)
  qed
  then show ?thesis
    using ok by (auto simp: resolve_hero_slides_def List.map_filter_def list_active_hero_items_def hero_list_def)
qed

definition demo_slide :: hero_create where
  "demo_slide = \<lparr>hc_content_type = ''custom'', hc_content_id = None, hc_placement = ''home'', hc_is_active = True,
     hc_sort_order = 0, hc_starts_at = None, hc_ends_at = None, hc_title = Some ''New'', hc_description = None,
     hc_banner_key = Some ''b.webp'', hc_link_url = Some '' /plans '', hc_video_key = None, hc_youtube_url = None,
     hc_video_enabled = False\<rparr>"

theorem showcase_invariant_witness:
  "case create_admin_hero_featured 5 3 demo_slide empty_db of Inl _ \<Rightarrow> False
     | Inr (v, d', ks) \<Rightarrow> showcase_ok d' \<and> map sl_watch_href (resolve_hero_slides 6 ''home'' d') = [Some ''/plans'']"
proof -
  have r: "case create_admin_hero_featured 5 3 demo_slide empty_db of Inl _ \<Rightarrow> False
     | Inr (v, d', ks) \<Rightarrow> map sl_watch_href (resolve_hero_slides 6 ''home'' d') = [Some ''/plans'']" by code_simp
  then obtain v d' ks where run: "create_admin_hero_featured 5 3 demo_slide empty_db = Inr (v, d', ks)"
    by (auto split: sum.splits)
  have "showcase_step\<^sup>*\<^sup>* empty_db d'" using showcase_step.create_hero [OF run] by blast
  moreover have "showcase_ok empty_db" by (simp add: showcase_ok_def no_clash_def)
  ultimately have "showcase_ok d'" using showcase_invariant by blast
  then show ?thesis using r by (simp only: run sum.case prod.case)
qed

text \<open>
  Moving a slide leaves a stale carousel. The PATCH that moves a slide to another page drops only
  the cached carousel of the new page: unless it is the same page, no invalidation it sends covers the
  page the slide left, whose visitors keep seeing the slide until the entry expires.
\<close>

theorem moved_slide_stale:
  assumes "update_admin_hero_featured i request d = Inr (v, d', ks)"
    and "select_one (\<lambda>h. hero_id h = i) (hero_featured_items d) = Some h"
    and "hero_placement (fst v) \<noteq> hero_placement h"
  shows "\<not> (\<exists>k \<in> set ks. drops k (''hero:'' @ hero_placement h))"
proof -
  have "ks = hero_drops (hero_placement (fst v))"
    using assms(1,2)
    by (auto simp: update_admin_hero_featured_def Let_def enrich_admin_hero_item_def split: sum.splits if_splits option.splits)
  then show ?thesis using assms(3) by (auto simp: hero_drops_def)
qed

definition moved_row :: hero_row where
  "moved_row = created_hero 0 3 demo_slide"

theorem moved_slide_stale_witness:
  "case update_admin_hero_featured 3 (no_hero_update\<lparr>hu_placement := Some (Some ''movies'')\<rparr>)
       (empty_db\<lparr>hero_featured_items := [moved_row]\<rparr>) of Inl _ \<Rightarrow> False
     | Inr (v, d', ks) \<Rightarrow> \<not> (\<exists>k \<in> set ks. drops k (''hero:'' @ hero_placement moved_row))"
proof -
  let ?run = "update_admin_hero_featured 3 (no_hero_update\<lparr>hu_placement := Some (Some ''movies'')\<rparr>)
       (empty_db\<lparr>hero_featured_items := [moved_row]\<rparr>)"
  have r: "case ?run of Inl _ \<Rightarrow> False | Inr (v, d', ks) \<Rightarrow> hero_placement (fst v) \<noteq> hero_placement moved_row" by code_simp
  then obtain v d' ks where run: "?run = Inr (v, d', ks)" by (auto split: sum.splits)
  have h: "select_one (\<lambda>h. hero_id h = 3) (hero_featured_items (empty_db\<lparr>hero_featured_items := [moved_row]\<rparr>)) = Some moved_row"
    by code_simp
  have "hero_placement (fst v) \<noteq> hero_placement moved_row" using r by (simp add: run)
  from moved_slide_stale [OF run h this] show ?thesis unfolding run by simp
qed

end
