(* ===== verification/Channels.thy ===== *)
theory Channels
  imports Catalog_Admin Listing Playlists
begin

text \<open>
  Live TV: the channel administration of \<open>app/routers/admin/tv_channels.py\<close>, the public list and the
  gated playback of \<open>app/routers/tv.py\<close>, and the playlist rewriting of \<open>app/services/live_playback.py\<close>.
  The restream service behind \<open>app/services/live_client.py\<close> is a separate program: what it answers, or
  the error its client raises, is an argument, as are the origin's playlist and \<open>urllib.parse.urljoin\<close>.
\<close>

section \<open>Administration\<close>

definition unique_channel_slug :: "string \<Rightarrow> string \<Rightarrow> db \<Rightarrow> string" where
  "unique_channel_slug token base d =
     (let slug = slugify base in
      if exists_row (\<lambda>c. ch_slug c = slug) (tv_channels d) then slug @ ''-'' @ take 6 token else slug)"

definition get_channel_or_404 :: "uuid \<Rightarrow> db \<Rightarrow> channel_row result" where
  "get_channel_or_404 cid d =
     (case select_one (\<lambda>c. ch_id c = cid) (tv_channels d) of
        None \<Rightarrow> Inl (NotFoundError ''Channel not found'') | Some c \<Rightarrow> Inr c)"

definition put_channel :: "channel_row \<Rightarrow> db \<Rightarrow> db" where
  "put_channel c d = d\<lparr>tv_channels := update_where (\<lambda>x. ch_id x = ch_id c) (\<lambda>_. c) (tv_channels d)\<rparr>"

definition tv_drops :: "drop list" where "tv_drops = [DropPrefix ''tv:'']"

definition create_channel ::
    "datetime \<Rightarrow> uuid \<Rightarrow> string \<Rightarrow> string \<Rightarrow> string option \<Rightarrow> string \<Rightarrow> bool \<Rightarrow> int \<Rightarrow> db \<Rightarrow>
     (channel_row \<times> db \<times> drop list) result" where
  "create_channel now fresh token name description source_url is_free sort_order d =
     (let c = \<lparr>ch_id = fresh, ch_slug = unique_channel_slug token name d, ch_name = name,
            ch_description = description, ch_logo_key = None, ch_source_url = source_url,
            ch_hls_playback_url = None, ch_status = ''offline'', ch_status_error = None,
            ch_is_published = False, ch_is_free = is_free, ch_sort_order = sort_order, ch_created_at = now\<rparr>
      in if exists_row (\<lambda>x. ch_slug x = ch_slug c) (tv_channels d) then Inl IntegrityError
         else Inr (c, d\<lparr>tv_channels := tv_channels d @ [c]\<rparr>, tv_drops))"

definition reorder_admin_tv_channels :: "uuid list \<Rightarrow> db \<Rightarrow> db \<times> drop list" where
  "reorder_admin_tv_channels ids d =
     (if ids = [] then (d, [])
      else (d\<lparr>tv_channels := assign_order ch_id (\<lambda>n c. c\<lparr>ch_sort_order := n\<rparr>) (\<lambda>_. True) ids (tv_channels d)\<rparr>, tv_drops))"

definition list_admin_channels :: "nat \<Rightarrow> nat \<Rightarrow> db \<Rightarrow> channel_row page" where
  "list_admin_channels page page_size d =
     (case paginate_query page page_size (order_by (\<lambda>c. (ch_sort_order c, - ch_created_at c)) (tv_channels d)) of
        (items, found) \<Rightarrow> build_paginated_response items found page page_size)"

record channel_update =
  chu_name :: "string option option"
  chu_description :: "string option option"
  chu_source_url :: "string option option"
  chu_is_published :: "bool option option"
  chu_is_free :: "bool option option"
  chu_sort_order :: "int option option"

definition channel_null_columns :: "channel_update \<Rightarrow> bool" where
  "channel_null_columns u \<longleftrightarrow> chu_name u = Some None \<or> chu_source_url u = Some None \<or>
     chu_is_published u = Some None \<or> chu_is_free u = Some None \<or> chu_sort_order u = Some None"

definition assign_channel :: "channel_update \<Rightarrow> channel_row \<Rightarrow> channel_row" where
  "assign_channel u c =
     set_required (chu_name u) (\<lambda>x c. c\<lparr>ch_name := x\<rparr>)
     (set_field (chu_description u) (\<lambda>x c. c\<lparr>ch_description := x\<rparr>)
     (set_required (chu_source_url u) (\<lambda>x c. c\<lparr>ch_source_url := x\<rparr>)
     (set_required (chu_is_published u) (\<lambda>x c. c\<lparr>ch_is_published := x\<rparr>)
     (set_required (chu_is_free u) (\<lambda>x c. c\<lparr>ch_is_free := x\<rparr>)
     (set_required (chu_sort_order u) (\<lambda>x c. c\<lparr>ch_sort_order := x\<rparr>) c)))))"

definition update_channel :: "uuid \<Rightarrow> channel_update \<Rightarrow> db \<Rightarrow> (channel_row \<times> db \<times> drop list) result" where
  "update_channel cid u d =
     (case get_channel_or_404 cid d of
        Inl e \<Rightarrow> Inl e
      | Inr c \<Rightarrow>
        (let c' = assign_channel u c in
         if channel_null_columns u then Inl IntegrityError else Inr (c', put_channel c' d, tv_drops)))"

text \<open>The answer of the restream service; an absent \<open>status\<close> key is \<open>None\<close>.\<close>

record live_reply =
  lr_status :: "string option"
  lr_hls_url :: "string option"
  lr_error :: "string option"

definition status_or :: "string \<Rightarrow> live_reply \<Rightarrow> string" where
  "status_or dflt r = (case lr_status r of None \<Rightarrow> dflt | Some s \<Rightarrow> s)"

text \<open>An unreachable service does not keep the row: the handler logs and deletes.\<close>

definition delete_channel :: "live_reply result \<Rightarrow> uuid \<Rightarrow> db \<Rightarrow> (db \<times> drop list) result" where
  "delete_channel stopped cid d =
     (case get_channel_or_404 cid d of
        Inl e \<Rightarrow> Inl e
      | Inr c \<Rightarrow> Inr (d\<lparr>tv_channels := delete_where (\<lambda>x. ch_id x = cid) (tv_channels d)\<rparr>, tv_drops))"

definition start_channel :: "live_reply result \<Rightarrow> uuid \<Rightarrow> db \<Rightarrow> (channel_row \<times> db \<times> drop list) result" where
  "start_channel reply cid d =
     (case get_channel_or_404 cid d of
        Inl e \<Rightarrow> Inl e
      | Inr c \<Rightarrow>
        (case reply of
           Inl e \<Rightarrow> Inl e
         | Inr r \<Rightarrow>
           (let c' = c\<lparr>ch_status := status_or ''starting'' r,
                  ch_hls_playback_url := or_else (lr_hls_url r) (ch_hls_playback_url c),
                  ch_status_error := lr_error r\<rparr>
            in Inr (c', put_channel c' d, tv_drops))))"

definition stop_channel :: "live_reply result \<Rightarrow> uuid \<Rightarrow> db \<Rightarrow> (channel_row \<times> db \<times> drop list) result" where
  "stop_channel reply cid d =
     (case get_channel_or_404 cid d of
        Inl e \<Rightarrow> Inl e
      | Inr c \<Rightarrow>
        (case reply of
           Inl e \<Rightarrow> Inl e
         | Inr r \<Rightarrow>
           (let c' = c\<lparr>ch_status := status_or ''offline'' r, ch_status_error := None\<rparr>
            in Inr (c', put_channel c' d, tv_drops))))"

definition refresh_channel_status :: "live_reply result \<Rightarrow> uuid \<Rightarrow> db \<Rightarrow> (channel_row \<times> db \<times> drop list) result" where
  "refresh_channel_status reply cid d =
     (case get_channel_or_404 cid d of
        Inl e \<Rightarrow> Inl e
      | Inr c \<Rightarrow>
        (case reply of
           Inl e \<Rightarrow> Inl e
         | Inr r \<Rightarrow>
           (let c' = c\<lparr>ch_status := status_or (ch_status c) r,
                  ch_hls_playback_url := (if truthy (lr_hls_url r) then lr_hls_url r else ch_hls_playback_url c),
                  ch_status_error := lr_error r\<rparr>
            in Inr (c', put_channel c' d, tv_drops))))"

definition start_channel_logo_upload :: "uuid \<Rightarrow> string \<Rightarrow> db \<Rightarrow> string result" where
  "start_channel_logo_upload cid content_type d =
     (case get_channel_or_404 cid d of
        Inl e \<Rightarrow> Inl e | Inr c \<Rightarrow> Inr (tv_channel_logo_key (ch_slug c) content_type))"

definition complete_channel_logo_upload ::
    "(string \<Rightarrow> bool) \<Rightarrow> uuid \<Rightarrow> string \<Rightarrow> db \<Rightarrow> (channel_row \<times> db \<times> drop list) result" where
  "complete_channel_logo_upload exists cid logo_key d =
     (case get_channel_or_404 cid d of
        Inl e \<Rightarrow> Inl e
      | Inr c \<Rightarrow>
          if \<not> is_tv_channel_asset_key (ch_slug c) logo_key
          then Inl (HTTPException 422 ''logo_key does not match channel'')
          else if \<not> exists logo_key
          then Inl (HTTPException 409 ''Logo upload is not available in storage yet'')
          else (let c' = c\<lparr>ch_logo_key := Some logo_key\<rparr> in Inr (c', put_channel c' d, tv_drops)))"

interpretation channel_order: sortable ch_id ch_sort_order "\<lambda>n c. c\<lparr>ch_sort_order := n\<rparr>" "\<lambda>_. True"
  by unfold_locales simp_all

section \<open>The public list and playback\<close>

text \<open>\<open>TVChannelPublicRead\<close>: neither the source nor the origin URL.\<close>

record public_channel =
  pc_id :: uuid
  pc_slug :: string
  pc_name :: string
  pc_description :: "string option"
  pc_logo_key :: "string option"
  pc_status :: string
  pc_is_free :: bool
  pc_sort_order :: int

definition public_status :: "string \<Rightarrow> string" where
  "public_status s = (if s = ''live'' then ''live'' else ''offline'')"

definition public_channel_read :: "channel_row \<Rightarrow> public_channel" where
  "public_channel_read c = \<lparr>pc_id = ch_id c, pc_slug = ch_slug c, pc_name = ch_name c,
     pc_description = ch_description c, pc_logo_key = ch_logo_key c, pc_status = ch_status c,
     pc_is_free = ch_is_free c, pc_sort_order = ch_sort_order c\<rparr>"

definition published_channels :: "db \<Rightarrow> public_channel list" where
  "published_channels d =
     map (\<lambda>c. (public_channel_read c)\<lparr>pc_status := public_status (ch_status c)\<rparr>)
       (order_by (\<lambda>c. (ch_sort_order c, - ch_created_at c)) (filter ch_is_published (tv_channels d)))"

definition list_channels ::
    "(public_channel list \<Rightarrow> string) \<Rightarrow> (string \<Rightarrow> public_channel list option) \<Rightarrow> bool \<Rightarrow> monotonic \<Rightarrow> nat \<Rightarrow>
     db \<Rightarrow> public_channel list catalog_cache \<Rightarrow> public_channel list \<times> public_channel list catalog_cache" where
  "list_channels dumps loads up now w d s =
     cache_get_or_set dumps loads up now w catalog_ttl_seconds ''tv:channels'' (published_channels d) s"

definition published_channel_or_404 :: "uuid \<Rightarrow> db \<Rightarrow> channel_row result" where
  "published_channel_or_404 cid d =
     (case select_one (\<lambda>c. ch_id c = cid \<and> ch_is_published c) (tv_channels d) of
        None \<Rightarrow> Inl (HTTPException 404 ''Channel not found'') | Some c \<Rightarrow> Inr c)"

text \<open>The answer is the token of the entry playlist's URL and its lifetime.\<close>

definition authorize_channel_playback ::
    "(claims \<Rightarrow> string) \<Rightarrow> settings \<Rightarrow> datetime \<Rightarrow> user_row option \<Rightarrow> uuid \<Rightarrow> db \<Rightarrow> (string \<times> int) result" where
  "authorize_channel_playback encode cfg now user cid d =
     (case published_channel_or_404 cid d of
        Inl e \<Rightarrow> Inl e
      | Inr c \<Rightarrow>
          if \<not> can_access_channel now user c d
          then Inl (HTTPException 403 ''You do not have access to this channel'')
          else if ch_status c \<notin> {''live'', ''starting''} \<or> \<not> truthy (ch_hls_playback_url c)
          then Inl (HTTPException 409 ''This channel is not live right now'')
          else Inr (create_channel_playback_token encode now cid (tv_playback_token_expiry_seconds cfg),
                    tv_playback_token_expiry_seconds cfg))"

definition secure_media_url :: "bool \<Rightarrow> string \<Rightarrow> string result" where
  "secure_media_url allow_insecure url =
     (if starts_with ''https://'' url then Inr url
      else if allow_insecure \<and> starts_with ''http://'' url then Inr url
      else Inl (HTTPException 502 ''Live channel media must use HTTPS''))"

definition live_playlist_cache_ttl :: monotonic where "live_playlist_cache_ttl = 1"

type_synonym live_cache = "(string \<times> string \<times> monotonic) list"

text \<open>\<open>fetched\<close> is what the origin answers to the GET, \<open>None\<close> any transport or status error.\<close>

definition fetch_playlist_text ::
    "monotonic \<Rightarrow> string option \<Rightarrow> string \<Rightarrow> live_cache \<Rightarrow> string result \<times> live_cache" where
  "fetch_playlist_text now fetched hls_url s =
     (case map_of s hls_url of
        Some (text, expires) \<Rightarrow> if now < expires then (Inr text, s)
          else (case fetched of
                  None \<Rightarrow> (Inl (HTTPException 502 ''Could not reach the live channel stream''), s)
                | Some text \<Rightarrow> (Inr text, AList.update hls_url (text, now + live_playlist_cache_ttl) s))
      | None \<Rightarrow>
        (case fetched of
           None \<Rightarrow> (Inl (HTTPException 502 ''Could not reach the live channel stream''), s)
         | Some text \<Rightarrow> (Inr text, AList.update hls_url (text, now + live_playlist_cache_ttl) s)))"

text \<open>The rewriting stops at the first resource that is not HTTPS.\<close>

fun secure_lines :: "bool \<Rightarrow> (string \<Rightarrow> string \<Rightarrow> string) \<Rightarrow> string \<Rightarrow> string list \<Rightarrow> string list result" where
  "secure_lines allow_insecure urljoin base [] = Inr []"
| "secure_lines allow_insecure urljoin base (l # ls) =
     (case (if is_uri_line l then secure_media_url allow_insecure (urljoin base (strip l)) else Inr l) of
        Inl e \<Rightarrow> Inl e
      | Inr x \<Rightarrow>
        (case secure_lines allow_insecure urljoin base ls of Inl e \<Rightarrow> Inl e | Inr xs \<Rightarrow> Inr (x # xs)))"

definition build_channel_playlist ::
    "bool \<Rightarrow> (string \<Rightarrow> string \<Rightarrow> string) \<Rightarrow> monotonic \<Rightarrow> string option \<Rightarrow> string \<Rightarrow> live_cache \<Rightarrow>
     string result \<times> live_cache" where
  "build_channel_playlist allow_insecure urljoin now fetched hls_url s =
     (case secure_media_url allow_insecure hls_url of
        Inl e \<Rightarrow> (Inl e, s)
      | Inr url \<Rightarrow>
        (case fetch_playlist_text now fetched url s of
           (Inl e, s1) \<Rightarrow> (Inl e, s1)
         | (Inr text, s1) \<Rightarrow>
           ((case secure_lines allow_insecure urljoin url (splitlines text) of
               Inl e \<Rightarrow> Inl e | Inr out \<Rightarrow> Inr (unlines out)), s1)))"

definition channel_live_playlist ::
    "(string \<Rightarrow> claims option) \<Rightarrow> settings \<Rightarrow> (string \<Rightarrow> string \<Rightarrow> string) \<Rightarrow> monotonic \<Rightarrow> string option \<Rightarrow> uuid \<Rightarrow>
     string \<Rightarrow> db \<Rightarrow> live_cache \<Rightarrow> string result \<times> live_cache" where
  "channel_live_playlist decode cfg urljoin now fetched cid t d s =
     (case verify_channel_playback_token decode t cid of
        Inl e \<Rightarrow> (Inl e, s)
      | Inr _ \<Rightarrow>
        (case published_channel_or_404 cid d of
           Inl e \<Rightarrow> (Inl e, s)
         | Inr c \<Rightarrow>
             if ch_status c \<noteq> ''live'' \<or> \<not> truthy (ch_hls_playback_url c)
             then (Inl (HTTPException 409 ''This channel is not live right now''), s)
             else build_channel_playlist (debug cfg) urljoin now fetched (the (ch_hls_playback_url c)) s))"

section \<open>Who may watch live\<close>

lemma secure_media_ok: "secure_media_url allow_insecure url = Inr x \<Longrightarrow>
    x = url \<and> (starts_with ''https://'' x \<or> allow_insecure \<and> starts_with ''http://'' x)"
  by (auto simp: secure_media_url_def split: if_splits)

text \<open>A line of the origin's playlist and the line served for it.\<close>

definition live_line :: "bool \<Rightarrow> (string \<Rightarrow> string \<Rightarrow> string) \<Rightarrow> string \<Rightarrow> string \<Rightarrow> string \<Rightarrow> bool" where
  "live_line allow_insecure urljoin base l x \<longleftrightarrow>
     (if is_uri_line l then x = urljoin base (strip l) \<and>
        (starts_with ''https://'' x \<or> allow_insecure \<and> starts_with ''http://'' x) else x = l)"

lemma secure_lines_ok:
  "secure_lines allow_insecure urljoin base ls = Inr out \<Longrightarrow> list_all2 (live_line allow_insecure urljoin base) ls out"
proof (induction ls arbitrary: out)
  case (Cons l ls)
  obtain x xs where x: "(if is_uri_line l then secure_media_url allow_insecure (urljoin base (strip l)) else Inr l) = Inr x"
    and xs: "secure_lines allow_insecure urljoin base ls = Inr xs" and out: "out = x # xs"
    using Cons.prems by (auto split: sum.splits)
  have "live_line allow_insecure urljoin base l x"
    using x by (auto simp: live_line_def dest: secure_media_ok split: if_splits)
  then show ?case using Cons.IH [OF xs] by (simp add: out)
qed simp


definition demo_channel :: channel_row where
  "demo_channel = \<lparr>ch_id = 4, ch_slug = ''one'', ch_name = ''One'', ch_description = None, ch_logo_key = None,
     ch_source_url = ''https://src/x.m3u8'', ch_hls_playback_url = Some ''https://o/x.m3u8'', ch_status = ''live'',
     ch_status_error = None, ch_is_published = True, ch_is_free = True, ch_sort_order = 0, ch_created_at = 0\<rparr>"


end
