(* ===== verification/Home_Page.thy ===== *)
theory Home_Page
  imports Home_Rails Showcase Channels
begin

text \<open>
  The landing page builder: \<open>app/schemas/home_section.py\<close>, \<open>app/catalog/home_sections.py\<close>,
  \<open>app/routers/admin/home_sections.py\<close> and \<open>app/routers/home_sections.py\<close>. A page is a list of sections,
  each a rail of pinned items or, with nothing picked, an automatic fill. \<open>collate\<close> is the database's
  collation of channel names.
\<close>

section \<open>Section types\<close>

definition singleton_types :: "string set" where
  "singleton_types = {''hero'', ''banners'', ''tv'', ''free_today'', ''trending'', ''most_watched'', ''coming_soon'',
     ''series'', ''plans''}"

definition section_types :: "string set" where
  "section_types = {''hero'', ''banners'', ''tv'', ''free_today'', ''trending'', ''most_watched'', ''coming_soon'',
     ''series'', ''genre'', ''custom'', ''plans''}"

definition section_caps :: "string \<Rightarrow> int option" where
  "section_caps = [''free_today'' \<mapsto> 10, ''trending'' \<mapsto> 12, ''most_watched'' \<mapsto> 10, ''coming_soon'' \<mapsto> 12,
     ''series'' \<mapsto> 12, ''genre'' \<mapsto> 12, ''custom'' \<mapsto> 12, ''tv'' \<mapsto> 12, ''hero'' \<mapsto> 10, ''banners'' \<mapsto> 10]"

definition max_section_item_limit :: int where "max_section_item_limit = 50"

definition limit_editable :: "string \<Rightarrow> bool" where
  "limit_editable t \<longleftrightarrow> section_caps t \<noteq> None \<and> t \<notin> {''hero'', ''banners''}"

definition auto_filled_types :: "string set" where
  "auto_filled_types = {''hero'', ''banners'', ''tv'', ''free_today'', ''trending'', ''most_watched'',
     ''coming_soon'', ''series''}"

definition effective_item_limit :: "string \<Rightarrow> int option \<Rightarrow> int option" where
  "effective_item_limit section_type chosen =
     (if chosen \<noteq> None \<and> limit_editable section_type then chosen else section_caps section_type)"

definition item_kinds :: "string set" where
  "item_kinds = {''movie'', ''series'', ''tv_channel'', ''hero_slide'', ''banner''}"

definition item_kinds_by_type :: "string \<Rightarrow> string set" where
  "item_kinds_by_type t =
     (if t \<in> {''free_today'', ''trending'', ''most_watched'', ''coming_soon'', ''genre''} then {''movie''}
      else if t = ''custom'' then {''movie'', ''series''} else if t = ''series'' then {''series''}
      else if t = ''tv'' then {''tv_channel''} else if t = ''hero'' then {''hero_slide''}
      else if t = ''banners'' then {''banner''} else {})"

definition cap_of :: "section_row \<Rightarrow> int option" where
  "cap_of s = effective_item_limit (sec_type s) (sec_item_limit s)"

section \<open>What the admin screens show\<close>

type_synonym item_view = "section_item_row \<times> string option \<times> string option \<times> string option"

definition enrich_item :: "db \<Rightarrow> section_item_row \<Rightarrow> item_view" where
  "enrich_item d i =
     (let blank = (i, None, None, None); ref = item_ref_id i; kind = item_item_kind i in
      if kind = ''movie'' then (case find_content ref d of
          None \<Rightarrow> blank | Some m \<Rightarrow> (i, Some (ct_title m), ct_poster_key m, Some (ct_slug m)))
      else if kind = ''series'' then (case select_one (\<lambda>s. ser_id s = ref) (series_table d) of
          None \<Rightarrow> blank | Some s \<Rightarrow> (i, Some (ser_title s), ser_poster_key s, Some (ser_slug s)))
      else if kind = ''tv_channel'' then (case select_one (\<lambda>c. ch_id c = ref) (tv_channels d) of
          None \<Rightarrow> blank | Some c \<Rightarrow> (i, Some (ch_name c), ch_logo_key c, Some (ch_slug c)))
      else if kind = ''hero_slide'' then (case select_one (\<lambda>h. hero_id h = ref) (hero_featured_items d) of
          None \<Rightarrow> blank | Some h \<Rightarrow> (i, or_else (hero_title h) (Some (hero_content_type h)), None, None))
      else if kind = ''banner'' then (case select_one (\<lambda>b. ban_id b = ref) (promotion_banners d) of
          None \<Rightarrow> blank | Some b \<Rightarrow> (i, Some (ban_title b), ban_image_key b, None))
      else blank)"

definition enrich_admin_items :: "db \<Rightarrow> section_item_row list \<Rightarrow> item_view list" where
  "enrich_admin_items d items = map (enrich_item d) items"

definition item_order :: "section_item_row list \<Rightarrow> section_item_row list" where
  "item_order items = order_by (\<lambda>i. (item_sort_order i, - item_created_at i)) items"

definition section_order :: "section_row list \<Rightarrow> section_row list" where
  "section_order rows = order_by (\<lambda>s. (sec_sort_order s, sec_created_at s)) rows"

definition items_of :: "uuid \<Rightarrow> db \<Rightarrow> section_item_row list" where
  "items_of sid d = filter (\<lambda>i. item_section_id i = sid) (home_section_items d)"

definition list_section_items_admin :: "db \<Rightarrow> uuid \<Rightarrow> item_view list" where
  "list_section_items_admin d sid = enrich_admin_items d (item_order (items_of sid d))"

record section_view =
  sv_section :: section_row
  sv_item_count :: nat
  sv_items :: "item_view list"
  sv_item_limit :: "int option"
  sv_default_item_limit :: "int option"
  sv_max_item_limit :: "int option"
  sv_auto_filled :: bool

text \<open>\<open>HomeSectionAdminRead\<close> and its \<open>apply_type_rules\<close>.\<close>

definition section_read :: "section_row \<Rightarrow> nat \<Rightarrow> item_view list \<Rightarrow> section_view" where
  "section_read s n items =
     \<lparr>sv_section = s, sv_item_count = n, sv_items = items, sv_item_limit = cap_of s,
      sv_default_item_limit = section_caps (sec_type s),
      sv_max_item_limit = (if limit_editable (sec_type s) then Some max_section_item_limit else None),
      sv_auto_filled = (sec_type s \<in> auto_filled_types)\<rparr>"

definition list_sections_admin :: "db \<Rightarrow> section_view list" where
  "list_sections_admin d =
     map (\<lambda>s. section_read s (length (items_of (sec_id s) d)) []) (section_order (home_sections d))"

definition find_section :: "uuid \<Rightarrow> db \<Rightarrow> section_row option" where
  "find_section sid d = select_one (\<lambda>s. sec_id s = sid) (home_sections d)"

definition get_section_admin :: "db \<Rightarrow> uuid \<Rightarrow> section_view option" where
  "get_section_admin d sid =
     map_option (\<lambda>s. section_read s (length (list_section_items_admin d sid)) (list_section_items_admin d sid))
       (find_section sid d)"

definition admin_get_home_section :: "uuid \<Rightarrow> db \<Rightarrow> section_view result" where
  "admin_get_home_section sid d =
     (case get_section_admin d sid of None \<Rightarrow> Inl (NotFoundError ''Home section not found'') | Some v \<Rightarrow> Inr v)"

definition admin_list_home_section_items :: "uuid \<Rightarrow> db \<Rightarrow> item_view list result" where
  "admin_list_home_section_items sid d =
     (if find_section sid d = None then Inl (NotFoundError ''Home section not found'')
      else Inr (list_section_items_admin d sid))"

section \<open>Editing the page\<close>

definition home_drops :: "drop list" where
  "home_drops = [DropKey ''home-sections'', DropKey ''free-today'', DropKey ''genre-rails'', DropKey ''hero:home'',
     DropKey ''promos:home'']"

text \<open>Two rows with the genre's name make \<open>scalar_one_or_none\<close> raise, which nothing catches.\<close>

definition genre_section :: "string \<Rightarrow> section_row \<Rightarrow> bool" where
  "genre_section genre s \<longleftrightarrow> sec_type s = ''genre'' \<and> map_option lower (sec_genre_name s) = Some (lower genre)"

definition validate_section_create :: "string \<Rightarrow> string option \<Rightarrow> db \<Rightarrow> string option result" where
  "validate_section_create section_type genre_name d =
     (if section_type \<in> singleton_types \<and> exists_row (\<lambda>s. sec_type s = section_type) (home_sections d)
      then Inl (ValueError (''A '' @ section_type @ '' section already exists - edit it instead''))
      else if section_type \<noteq> ''genre'' then Inr None
      else (let genre = normalize_genre (case genre_name of None \<Rightarrow> [] | Some g \<Rightarrow> g);
                n = count_rows (genre_section genre) (home_sections d)
            in if genre = [] then Inl (ValueError ''genre_name is required for genre sections'')
               else if n = 1 then Inl (ValueError ''A rail for that genre already exists'')
               else if 1 < n then Inl (HTTPException 500 ''MultipleResultsFound'')
               else Inr (Some genre)))"

record section_create =
  sc_type :: string
  sc_title :: "string option"
  sc_genre_name :: "string option"
  sc_is_visible :: bool
  sc_sort_order :: int

definition check_section_create :: "section_create \<Rightarrow> bool" where
  "check_section_create data \<longleftrightarrow> sc_type data \<in> section_types \<and> at_most 120 (sc_title data) \<and>
     at_most 80 (sc_genre_name data) \<and>
     (sc_type data = ''genre'' \<longrightarrow> (case sc_genre_name data of None \<Rightarrow> False | Some g \<Rightarrow> strip g \<noteq> [])) \<and>
     (sc_type data = ''custom'' \<longrightarrow> (case sc_title data of None \<Rightarrow> False | Some t \<Rightarrow> strip t \<noteq> []))"

definition conflict_of :: "error \<Rightarrow> error" where
  "conflict_of e = (case e of ValueError m \<Rightarrow> ConflictError m | _ \<Rightarrow> e)"

definition admin_create_home_section ::
    "datetime \<Rightarrow> uuid \<Rightarrow> section_create \<Rightarrow> db \<Rightarrow> (section_view option \<times> db \<times> drop list) result" where
  "admin_create_home_section now fresh data d =
     (if \<not> check_section_create data then Inl (HTTPException 422 ''invalid section'')
      else (case validate_section_create (sc_type data) (sc_genre_name data) d of
        Inl e \<Rightarrow> Inl (conflict_of e)
      | Inr genre \<Rightarrow>
        (let s = \<lparr>sec_id = fresh, sec_type = sc_type data,
               sec_title = (if truthy (sc_title data) then map_option strip (sc_title data) else None),
               sec_genre_name = genre, sec_is_visible = sc_is_visible data, sec_sort_order = sc_sort_order data,
               sec_item_limit = None, sec_created_at = now\<rparr>;
             d' = d\<lparr>home_sections := home_sections d @ [s]\<rparr>
         in Inr (get_section_admin d' fresh, d', home_drops))))"

text \<open>Ids may repeat: the last place an id is given is the one it keeps.\<close>

definition reorder_sections :: "uuid list \<Rightarrow> db \<Rightarrow> db result" where
  "reorder_sections ids d =
     (if \<not> list_all (\<lambda>i. exists_row (\<lambda>s. sec_id s = i) (home_sections d)) ids
      then Inl (ValueError ''One or more sections were not found'')
      else Inr (d\<lparr>home_sections := assign_order sec_id (\<lambda>n s. s\<lparr>sec_sort_order := n\<rparr>) (\<lambda>_. True) ids (home_sections d)\<rparr>))"

definition admin_reorder_home_sections :: "uuid list \<Rightarrow> db \<Rightarrow> (section_view list \<times> db \<times> drop list) result" where
  "admin_reorder_home_sections ids d =
     (if ids = [] then Inl (HTTPException 422 ''ids is empty'')
      else (case reorder_sections ids d of
        Inl (ValueError m) \<Rightarrow> Inl (NotFoundError m)
      | Inl e \<Rightarrow> Inl e
      | Inr d' \<Rightarrow> Inr (list_sections_admin d', d', home_drops)))"

definition reorder_section_items :: "uuid \<Rightarrow> uuid list \<Rightarrow> db \<Rightarrow> db result" where
  "reorder_section_items sid ids d =
     (if \<not> distinct ids \<or> set ids \<noteq> set (map item_id (items_of sid d))
      then Inl (ValueError ''This rail changed. Refresh and try again.'')
      else Inr (d\<lparr>home_section_items := assign_order item_id (\<lambda>n i. i\<lparr>item_sort_order := n\<rparr>)
             (\<lambda>i. item_section_id i = sid) ids (home_section_items d)\<rparr>))"

definition admin_reorder_home_section_items ::
    "uuid \<Rightarrow> uuid list \<Rightarrow> db \<Rightarrow> (section_view option \<times> db \<times> drop list) result" where
  "admin_reorder_home_section_items sid ids d =
     (if ids = [] then Inl (HTTPException 422 ''ids is empty'')
      else if find_section sid d = None then Inl (NotFoundError ''Home section not found'')
      else (case reorder_section_items sid ids d of
        Inl e \<Rightarrow> Inl (conflict_of e) | Inr d' \<Rightarrow> Inr (get_section_admin d' sid, d', home_drops)))"

record section_update =
  su_title :: "string option"
  su_genre_name :: "string option"
  su_is_visible :: "bool option"
  su_sort_order :: "int option"
  su_item_limit :: "int option option"

definition check_section_update :: "section_update \<Rightarrow> bool" where
  "check_section_update u \<longleftrightarrow> at_most 120 (su_title u) \<and> at_most 80 (su_genre_name u) \<and>
     (case su_item_limit u of Some (Some n) \<Rightarrow> 1 \<le> n \<and> n \<le> max_section_item_limit | _ \<Rightarrow> True)"

definition validate_item_limit :: "section_row \<Rightarrow> int option \<Rightarrow> db \<Rightarrow> unit result" where
  "validate_item_limit s chosen d =
     (if \<not> limit_editable (sec_type s) then Inl (ValueError ''This section's limit can't be changed'')
      else (case effective_item_limit (sec_type s) chosen of
        Some wanted \<Rightarrow> if wanted < int (length (items_of (sec_id s) d))
                       then Inl (ValueError ''This section has too many items'') else Inr ()
      | None \<Rightarrow> Inr ()))"

text \<open>The section with the fields the request sends, before the limit.\<close>

definition edit_section :: "section_update \<Rightarrow> section_row \<Rightarrow> section_row" where
  "edit_section u s =
     s\<lparr>sec_title := (case su_title u of None \<Rightarrow> sec_title s | Some t \<Rightarrow> if strip t = [] then None else Some (strip t)),
       sec_genre_name := (case su_genre_name u of
           Some g \<Rightarrow> if sec_type s = ''genre'' \<and> normalize_genre g \<noteq> [] then Some (normalize_genre g) else sec_genre_name s
         | None \<Rightarrow> sec_genre_name s),
       sec_is_visible := (case su_is_visible u of None \<Rightarrow> sec_is_visible s | Some v \<Rightarrow> v),
       sec_sort_order := (case su_sort_order u of None \<Rightarrow> sec_sort_order s | Some n \<Rightarrow> n)\<rparr>"

definition admin_update_home_section ::
    "uuid \<Rightarrow> section_update \<Rightarrow> db \<Rightarrow> (section_view option \<times> db \<times> drop list) result" where
  "admin_update_home_section sid u d =
     (if \<not> check_section_update u then Inl (HTTPException 422 ''invalid section'')
      else (case find_section sid d of
        None \<Rightarrow> Inl (NotFoundError ''Home section not found'')
      | Some s \<Rightarrow>
        (case (case su_item_limit u of None \<Rightarrow> Inr (edit_section u s)
               | Some chosen \<Rightarrow> (case validate_item_limit (edit_section u s) chosen d of
                    Inl e \<Rightarrow> Inl (conflict_of e) | Inr _ \<Rightarrow> Inr ((edit_section u s)\<lparr>sec_item_limit := chosen\<rparr>))) of
           Inl e \<Rightarrow> Inl e
         | Inr s' \<Rightarrow>
           (let d' = d\<lparr>home_sections := update_where (\<lambda>s. sec_id s = sid) (\<lambda>_. s') (home_sections d)\<rparr>
            in Inr (get_section_admin d' sid, d', home_drops)))))"

text \<open>The items go with their section (\<open>ON DELETE CASCADE\<close>).\<close>

definition admin_delete_home_section :: "uuid \<Rightarrow> db \<Rightarrow> (db \<times> drop list) result" where
  "admin_delete_home_section sid d =
     (case find_section sid d of
        None \<Rightarrow> Inl (NotFoundError ''Home section not found'')
      | Some s \<Rightarrow>
          if sec_type s \<notin> {''genre'', ''custom''} then Inl (ConflictError ''Hide this section instead of deleting it'')
          else Inr (d\<lparr>home_sections := delete_where (\<lambda>s. sec_id s = sid) (home_sections d),
                      home_section_items := delete_where (\<lambda>i. item_section_id i = sid) (home_section_items d)\<rparr>, home_drops))"

text \<open>The table each kind of item refers to.\<close>

definition ref_exists :: "string \<Rightarrow> uuid \<Rightarrow> db \<Rightarrow> bool" where
  "ref_exists kind ref d \<longleftrightarrow>
     (if kind = ''movie'' then find_single ref d \<noteq> None
      else if kind = ''series'' then exists_row (\<lambda>s. ser_id s = ref) (series_table d)
      else if kind = ''tv_channel'' then exists_row (\<lambda>c. ch_id c = ref) (tv_channels d)
      else if kind = ''hero_slide'' then exists_row (\<lambda>h. hero_id h = ref) (hero_featured_items d)
      else if kind = ''banner'' then exists_row (\<lambda>b. ban_id b = ref) (promotion_banners d)
      else True)"

definition not_found_message :: "string \<Rightarrow> string" where
  "not_found_message kind =
     (if kind = ''movie'' then ''Movie not found'' else if kind = ''series'' then ''Series not found''
      else if kind = ''tv_channel'' then ''TV channel not found'' else if kind = ''hero_slide'' then ''Hero slide not found''
      else ''Banner not found'')"

definition validate_item_add :: "section_row \<Rightarrow> string \<Rightarrow> uuid \<Rightarrow> db \<Rightarrow> unit result" where
  "validate_item_add s item_kind ref d =
     (if item_kind \<notin> item_kinds_by_type (sec_type s)
      then Inl (ValueError (sec_type s @ '' sections do not accept '' @ item_kind @ '' items''))
      else if \<not> ref_exists item_kind ref d then Inl (ValueError (not_found_message item_kind))
      else if exists_row (\<lambda>i. item_section_id i = sec_id s \<and> item_item_kind i = item_kind \<and> item_ref_id i = ref)
                (home_section_items d)
      then Inl (ValueError ''Already on this section'')
      else (case cap_of s of
        Some cap \<Rightarrow> if cap \<le> int (length (items_of (sec_id s) d))
                    then Inl (ValueError (''This section is limited to '' @ string_of_int cap @ '' items'')) else Inr ()
      | None \<Rightarrow> Inr ()))"

text \<open>The answer to an item request: the row as the section's listing shows it.\<close>

definition item_answer :: "section_item_row \<Rightarrow> db \<Rightarrow> item_view" where
  "item_answer i d =
     (case select_one (\<lambda>v. item_id (fst v) = item_id i) (list_section_items_admin d (item_section_id i)) of
        None \<Rightarrow> (i, None, None, None) | Some v \<Rightarrow> v)"

definition admin_create_home_section_item ::
    "datetime \<Rightarrow> uuid \<Rightarrow> uuid \<Rightarrow> string \<Rightarrow> uuid \<Rightarrow> int \<Rightarrow> db \<Rightarrow> (item_view \<times> db \<times> drop list) result" where
  "admin_create_home_section_item now fresh sid item_kind ref sort_order d =
     (if item_kind \<notin> item_kinds then Inl (HTTPException 422 ''item_kind'')
      else (case find_section sid d of
        None \<Rightarrow> Inl (NotFoundError ''Home section not found'')
      | Some s \<Rightarrow>
        (case validate_item_add s item_kind ref d of
           Inl (ValueError message) \<Rightarrow> Inl (rail_error message)
         | Inl e \<Rightarrow> Inl e
         | Inr _ \<Rightarrow>
           (let item = \<lparr>item_id = fresh, item_section_id = sid, item_item_kind = item_kind, item_ref_id = ref,
                  item_sort_order = sort_order, item_created_at = now\<rparr>;
                d' = d\<lparr>home_section_items := home_section_items d @ [item]\<rparr>
            in Inr (item_answer item d', d', home_drops)))))"

definition admin_update_home_section_item :: "uuid \<Rightarrow> int \<Rightarrow> db \<Rightarrow> (item_view \<times> db \<times> drop list) result" where
  "admin_update_home_section_item i sort_order d =
     (case select_one (\<lambda>x. item_id x = i) (home_section_items d) of
        None \<Rightarrow> Inl (NotFoundError ''Home section item not found'')
      | Some item \<Rightarrow>
        (let d' = d\<lparr>home_section_items := update_where (\<lambda>x. item_id x = i) (\<lambda>x. x\<lparr>item_sort_order := sort_order\<rparr>)
               (home_section_items d)\<rparr>
         in Inr (item_answer (item\<lparr>item_sort_order := sort_order\<rparr>) d', d', home_drops)))"

definition admin_delete_home_section_item :: "uuid \<Rightarrow> db \<Rightarrow> (db \<times> drop list) result" where
  "admin_delete_home_section_item i d =
     (if exists_row (\<lambda>x. item_id x = i) (home_section_items d)
      then Inr (d\<lparr>home_section_items := delete_where (\<lambda>x. item_id x = i) (home_section_items d)\<rparr>, home_drops)
      else Inl (NotFoundError ''Home section item not found''))"

section \<open>The public page\<close>

record public_section =
  ps_id :: uuid
  ps_type :: string
  ps_title :: "string option"
  ps_genre_name :: "string option"
  ps_sort_order :: int
  ps_movies :: "content_row list"
  ps_series :: "series_row list"
  ps_channels :: "public_channel list"
  ps_hero_slides :: "hero_slide list"
  ps_banners :: "banner_row list"

definition blank_section :: "section_row \<Rightarrow> public_section" where
  "blank_section s = \<lparr>ps_id = sec_id s, ps_type = sec_type s, ps_title = sec_title s, ps_genre_name = sec_genre_name s,
     ps_sort_order = sec_sort_order s, ps_movies = [], ps_series = [], ps_channels = [], ps_hero_slides = [],
     ps_banners = []\<rparr>"

text \<open>A Python slice \<open>xs[:n]\<close>, and the size \<open>cap or dflt\<close>.\<close>

definition upto_cap :: "int \<Rightarrow> 'a list \<Rightarrow> 'a list" where
  "upto_cap n xs = (if n < 0 then take (nat (int (length xs) + n)) xs else take (nat n) xs)"

definition cap_or :: "int option \<Rightarrow> int \<Rightarrow> int" where
  "cap_or cap dflt = (case cap of None \<Rightarrow> dflt | Some n \<Rightarrow> if n = 0 then dflt else n)"

definition cap_reached :: "int option \<Rightarrow> nat \<Rightarrow> bool" where
  "cap_reached cap n \<longleftrightarrow> (case cap of None \<Rightarrow> False | Some c \<Rightarrow> c \<le> int n)"

text \<open>The loops over the pinned rows: skip what cannot be shown, stop once the cap is reached.\<close>

fun fill_rail :: "int option \<Rightarrow> (section_item_row \<Rightarrow> 'v option) \<Rightarrow> section_item_row list \<Rightarrow> 'v list \<Rightarrow> 'v list" where
  "fill_rail cap pick [] acc = acc"
| "fill_rail cap pick (i # items) acc =
     (case pick i of
        None \<Rightarrow> fill_rail cap pick items acc
      | Some v \<Rightarrow> if cap_reached cap (Suc (length acc)) then acc @ [v] else fill_rail cap pick items (acc @ [v]))"

text \<open>The rows loaded by id for the items of one kind, keyed by id.\<close>

definition loaded :: "string \<Rightarrow> section_item_row list \<Rightarrow> (uuid \<Rightarrow> 'r option) \<Rightarrow> section_item_row \<Rightarrow> 'r option" where
  "loaded kind items lookup i =
     (if exists_row (\<lambda>x. item_item_kind x = kind \<and> item_ref_id x = item_ref_id i) items then lookup (item_ref_id i) else None)"

definition shown_movie_row :: "db \<Rightarrow> uuid \<Rightarrow> content_row option" where
  "shown_movie_row d ref = select_one (\<lambda>c. ct_id c = ref \<and> shown_movie c) (contents d)"

definition shown_series_row :: "db \<Rightarrow> uuid \<Rightarrow> series_row option" where
  "shown_series_row d ref = select_one (\<lambda>s. ser_id s = ref \<and> ser_is_published s) (series_table d)"

definition shown_channel_row :: "db \<Rightarrow> uuid \<Rightarrow> channel_row option" where
  "shown_channel_row d ref = select_one (\<lambda>c. ch_id c = ref \<and> ch_is_published c) (tv_channels d)"

definition shown_banner_row :: "db \<Rightarrow> uuid \<Rightarrow> banner_row option" where
  "shown_banner_row d ref =
     (case select_one (\<lambda>b. ban_id b = ref) (promotion_banners d) of
        None \<Rightarrow> None | Some b \<Rightarrow> if ban_is_active b then Some b else None)"

fun fill_movies ::
    "int option \<Rightarrow> db \<Rightarrow> section_item_row list \<Rightarrow> content_row list \<Rightarrow> series_row list \<Rightarrow>
     content_row list \<times> series_row list" where
  "fill_movies cap d [] ms ss = (ms, ss)"
| "fill_movies cap d (i # items) ms ss =
     (let step = (\<lambda>ms ss. if cap_reached cap (length ms + length ss) then (ms, ss) else fill_movies cap d items ms ss) in
      if item_item_kind i = ''movie'' then
        (case shown_movie_row d (item_ref_id i) of None \<Rightarrow> fill_movies cap d items ms ss | Some m \<Rightarrow> step (ms @ [m]) ss)
      else if item_item_kind i = ''series'' then
        (case shown_series_row d (item_ref_id i) of None \<Rightarrow> fill_movies cap d items ms ss | Some s \<Rightarrow> step ms (ss @ [s]))
      else step ms ss)"

text \<open>The automatic fill of a movie rail with nothing to show.\<close>

definition newest_movies :: "nat \<Rightarrow> db \<Rightarrow> content_row list" where
  "newest_movies n d = take n (order_by (\<lambda>c. - ct_created_at c) (filter shown_movie (contents d)))"

definition auto_movies :: "string \<Rightarrow> int option \<Rightarrow> db \<Rightarrow> content_row list" where
  "auto_movies t cap d =
     (let catalog = newest_movies (nat (cap_or cap 12 + 10)) d in
      if t = ''free_today'' then resolve_free_today_movies d
      else if t = ''coming_soon'' then resolve_coming_soon_movies d
      else if t = ''most_watched'' then upto_cap (cap_or cap 10) catalog
      else if t = ''trending'' then drop 10 (upto_cap (10 + cap_or cap 12) catalog)
      else [])"

definition tv_fallback :: "(string \<Rightarrow> int) \<Rightarrow> int option \<Rightarrow> db \<Rightarrow> channel_row list" where
  "tv_fallback collate cap d =
     take (nat (cap_or cap 12)) (order_by (\<lambda>c. (ch_status c \<noteq> ''live'', ch_sort_order c, collate (ch_name c)))
       (filter ch_is_published (tv_channels d)))"

definition series_fallback :: "int option \<Rightarrow> db \<Rightarrow> series_row list" where
  "series_fallback cap d =
     take (nat (cap_or cap 12)) (order_by (\<lambda>s. - ser_created_at s) (filter ser_is_published (series_table d)))"

text \<open>One section: \<open>items\<close> are the rows of all visible sections, in order.\<close>

definition resolve_section ::
    "datetime \<Rightarrow> (string \<Rightarrow> int) \<Rightarrow> db \<Rightarrow> section_item_row list \<Rightarrow> section_row \<Rightarrow> public_section" where
  "resolve_section now collate d items s =
     (let cap = cap_of s; rows = filter (\<lambda>i. item_section_id i = sec_id s) items; payload = blank_section s;
          t = sec_type s
      in if t = ''plans'' then payload
         else if t = ''hero'' then
           (let slides = resolve_hero_slides now ''home'' d in
            payload\<lparr>ps_hero_slides := (case cap of None \<Rightarrow> slides | Some c \<Rightarrow> if c = 0 then slides else upto_cap c slides)\<rparr>)
         else if t = ''banners'' then
           (let pinned = fill_rail cap (loaded ''banner'' items (shown_banner_row d)) rows [];
                banners = (if pinned = [] then list_active_promotion_banners now ''home'' d else pinned)
            in payload\<lparr>ps_banners := upto_cap (cap_or cap (int (length banners))) banners\<rparr>)
         else if t = ''tv'' then
           (let pinned = fill_rail cap (loaded ''tv_channel'' items (shown_channel_row d)) rows [] in
            payload\<lparr>ps_channels := map public_channel_read (if pinned = [] then tv_fallback collate cap d else pinned)\<rparr>)
         else if t = ''series'' then
           (let pinned = fill_rail cap (loaded ''series'' items (shown_series_row d)) rows [] in
            payload\<lparr>ps_series := (if pinned = [] then series_fallback cap d else pinned)\<rparr>)
         else (case fill_movies cap d rows [] [] of
           (ms, ss) \<Rightarrow>
             (let movies = (if ms = [] \<and> ss = [] then auto_movies t cap d else ms) in
              payload\<lparr>ps_movies := (case cap of None \<Rightarrow> movies | Some c \<Rightarrow> upto_cap c movies), ps_series := ss\<rparr>)))"

definition visible_sections :: "db \<Rightarrow> section_row list" where
  "visible_sections d = section_order (filter sec_is_visible (home_sections d))"

definition visible_items :: "db \<Rightarrow> section_item_row list" where
  "visible_items d = item_order (filter (\<lambda>i. item_section_id i \<in> set (map sec_id (visible_sections d))) (home_section_items d))"

definition resolve_public_sections :: "datetime \<Rightarrow> (string \<Rightarrow> int) \<Rightarrow> db \<Rightarrow> public_section list" where
  "resolve_public_sections now collate d = map (resolve_section now collate d (visible_items d)) (visible_sections d)"

definition list_home_sections ::
    "(public_section list \<Rightarrow> string) \<Rightarrow> (string \<Rightarrow> public_section list option) \<Rightarrow> bool \<Rightarrow> monotonic \<Rightarrow> nat \<Rightarrow>
     datetime \<Rightarrow> (string \<Rightarrow> int) \<Rightarrow> db \<Rightarrow> public_section list catalog_cache \<Rightarrow>
     public_section list \<times> public_section list catalog_cache" where
  "list_home_sections dumps loads up t w now collate d s =
     cache_get_or_set dumps loads up t w catalog_ttl_seconds ''home-sections'' (resolve_public_sections now collate d) s"

section \<open>The layout invariant\<close>

definition section_key :: "section_row \<Rightarrow> uuid \<times> string \<times> int option" where
  "section_key s = (sec_id s, sec_type s, sec_item_limit s)"

definition item_key :: "section_item_row \<Rightarrow> uuid \<times> string \<times> uuid" where
  "item_key i = (item_section_id i, item_item_kind i, item_ref_id i)"

text \<open>
  A layout: sections by id, type and limit, items by section, kind and reference. Ids are unique, nothing
  is pinned twice, items have a kind their section takes, every section holds at most as many items as
  its limit shows, that limit is between 1 and 50, and the automatic sections exist at most once.
\<close>

definition pins :: "uuid \<Rightarrow> (uuid \<times> string \<times> uuid) list \<Rightarrow> nat" where
  "pins sid I = length (filter (\<lambda>k. fst k = sid) I)"

definition limit_ok :: "(uuid \<times> string \<times> uuid) list \<Rightarrow> uuid \<times> string \<times> int option \<Rightarrow> bool" where
  "limit_ok I = (\<lambda>(sid, t, chosen). \<forall>n. effective_item_limit t chosen = Some n \<longrightarrow> 1 \<le> n \<and> n \<le> 50 \<and> int (pins sid I) \<le> n)"

lemma limit_ok_code [code]:
  "limit_ok I (sid, t, chosen) =
     (case effective_item_limit t chosen of None \<Rightarrow> True | Some n \<Rightarrow> 1 \<le> n \<and> n \<le> 50 \<and> int (pins sid I) \<le> n)"
  by (simp add: limit_ok_def split: option.splits)

definition layout :: "(uuid \<times> string \<times> int option) list \<Rightarrow> (uuid \<times> string \<times> uuid) list \<Rightarrow> bool" where
  "layout S I \<longleftrightarrow> distinct (map fst S) \<and> distinct I \<and>
     (\<forall>(sid, kind, ref) \<in> set I. \<exists>(i, t, chosen) \<in> set S. i = sid \<and> kind \<in> item_kinds_by_type t) \<and>
     (\<forall>s \<in> set S. fst (snd s) \<in> section_types \<and> limit_ok I s) \<and>
     (\<forall>t \<in> singleton_types. length (filter (\<lambda>s. fst (snd s) = t) S) \<le> 1)"

definition layout_ok :: "db \<Rightarrow> bool" where
  "layout_ok d \<longleftrightarrow> layout (map section_key (home_sections d)) (map item_key (home_section_items d))"

lemma layoutI:
  assumes "distinct (map fst S)" and "distinct I"
    and "\<And>sid kind ref. (sid, kind, ref) \<in> set I \<Longrightarrow> \<exists>t chosen. (sid, t, chosen) \<in> set S \<and> kind \<in> item_kinds_by_type t"
    and "\<And>s. s \<in> set S \<Longrightarrow> fst (snd s) \<in> section_types" and "\<And>s. s \<in> set S \<Longrightarrow> limit_ok I s"
    and "\<And>t. t \<in> singleton_types \<Longrightarrow> length (filter (\<lambda>s. fst (snd s) = t) S) \<le> 1"
  shows "layout S I"
  using assms unfolding layout_def by fast

lemma layoutD:
  assumes "layout S I"
  shows "distinct (map fst S)" and "distinct I"
    and "(sid, kind, ref) \<in> set I \<Longrightarrow> \<exists>t chosen. (sid, t, chosen) \<in> set S \<and> kind \<in> item_kinds_by_type t"
    and "s \<in> set S \<Longrightarrow> fst (snd s) \<in> section_types" and "s \<in> set S \<Longrightarrow> limit_ok I s"
    and "t \<in> singleton_types \<Longrightarrow> length (filter (\<lambda>s. fst (snd s) = t) S) \<le> 1"
  using assms unfolding layout_def by fast+

lemma items_pins: "length (items_of sid d) = pins sid (map item_key (home_section_items d))"
  by (simp add: items_of_def pins_def filter_map comp_def item_key_def)

lemma caps_small: "section_caps t = Some n \<Longrightarrow> 1 \<le> n \<and> n \<le> 12"
  by (auto simp: section_caps_def split: if_splits)

lemma layout_add_section:
  assumes ok: "layout S I" and fresh: "sid \<notin> fst ` set S" and t: "t \<in> section_types"
    and once: "t \<in> singleton_types \<Longrightarrow> \<not> (\<exists>s \<in> set S. fst (snd s) = t)"
  shows "layout (S @ [(sid, t, None)]) I"
proof (rule layoutI)
  note D = layoutD [OF ok]
  show "distinct (map fst (S @ [(sid, t, None)]))" using D(1) fresh by simp
  show "distinct I" by (rule D(2))
  show "\<exists>t' chosen. (a, t', chosen) \<in> set (S @ [(sid, t, None)]) \<and> kind \<in> item_kinds_by_type t'"
    if "(a, kind, ref) \<in> set I" for a kind ref using D(3) [OF that] by auto
  show "fst (snd s) \<in> section_types" if "s \<in> set (S @ [(sid, t, None)])" for s using D(4) [of s] t that by auto
  have "fst k \<noteq> sid" if "k \<in> set I" for k using D(3) [of "fst k" "fst (snd k)" "snd (snd k)"] that fresh by force
  then have "pins sid I = 0" by (simp add: pins_def filter_empty_conv)
  then have "limit_ok I (sid, t, None)"
    using caps_small by (force simp: limit_ok_def effective_item_limit_def)
  then show "limit_ok I s" if "s \<in> set (S @ [(sid, t, None)])" for s using D(5) [of s] that by auto
  show "length (filter (\<lambda>s. fst (snd s) = u) (S @ [(sid, t, None)])) \<le> 1" if "u \<in> singleton_types" for u
  proof (cases "u = t")
    case True
    then have "filter (\<lambda>s. fst (snd s) = t) S = []" using once that by (simp add: filter_empty_conv)
    then show ?thesis using True by simp
  next
    case False
    then show ?thesis using D(6) [OF that] by simp
  qed
qed

lemma layout_unique: "layout S I \<Longrightarrow> (sid, t, chosen) \<in> set S \<Longrightarrow> x \<in> set S \<Longrightarrow> fst x = sid \<Longrightarrow> x = (sid, t, chosen)"
  using layoutD(1) by (metis distinct_map fst_conv inj_onD)

lemma layout_set_section:
  assumes ok: "layout S I" and s: "(sid, t, chosen) \<in> set S" and lim: "limit_ok I (sid, t, chosen')"
  shows "layout (map (\<lambda>s. if fst s = sid then (sid, t, chosen') else s) S) I"
proof (rule layoutI)
  let ?f = "\<lambda>s. if fst s = sid then (sid, t, chosen') else s"
  note D = layoutD [OF ok] and uniq = layout_unique [OF ok s]
  have fsts: "map fst (map ?f S) = map fst S" and types: "map (\<lambda>s. fst (snd s)) (map ?f S) = map (\<lambda>s. fst (snd s)) S"
    using uniq by auto
  show "distinct (map fst (map ?f S))" unfolding fsts by (rule D(1))
  show "distinct I" by (rule D(2))
  show "length (filter (\<lambda>s. fst (snd s) = u) (map ?f S)) \<le> 1" if u: "u \<in> singleton_types" for u
  proof -
    have "length (filter (\<lambda>x. x = u) (map (\<lambda>s. fst (snd s)) (map ?f S))) =
        length (filter (\<lambda>x. x = u) (map (\<lambda>s. fst (snd s)) S))" by (simp only: types)
    then show ?thesis using D(6) [OF u] by (simp only: filter_map comp_def length_map)
  qed
  show "\<exists>t' chosen. (a, t', chosen) \<in> set (map ?f S) \<and> kind \<in> item_kinds_by_type t'"
    if i: "(a, kind, ref) \<in> set I" for a kind ref
  proof -
    obtain c u where x: "(a, u, c) \<in> set S" "kind \<in> item_kinds_by_type u" using D(3) [OF i] by blast
    have "?f (a, u, c) \<in> set (map ?f S)" using x(1) by (simp only: set_map image_eqI)
    then show ?thesis using uniq [OF x(1)] x(2) by (auto split: if_splits)
  qed
  have t: "fst (snd (sid, t, chosen)) \<in> section_types" using D(4) s by blast
  show "fst (snd x) \<in> section_types" if "x \<in> set (map ?f S)" for x
  proof -
    obtain y where "y \<in> set S" "x = ?f y" using \<open>x \<in> set (map ?f S)\<close> unfolding set_map by (elim imageE)
    then show ?thesis using D(4) [of y] t by simp
  qed
  show "limit_ok I x" if x: "x \<in> set (map ?f S)" for x
  proof -
    obtain y where "y \<in> set S" "x = ?f y" using x unfolding set_map by (elim imageE)
    then show ?thesis using D(5) [of y] lim by simp
  qed
qed

lemma pins_le: "(\<And>k. P k \<Longrightarrow> Q k) \<Longrightarrow> length (filter P xs) \<le> length (filter Q xs)"
  by (induction xs) auto

lemma limit_ok_fewer: "limit_ok I s \<Longrightarrow> pins (fst s) J \<le> pins (fst s) I \<Longrightarrow> limit_ok J s"
  by (cases s) (force simp: limit_ok_def)

lemma layout_fewer_items:
  assumes ok: "layout S I" and "distinct J" and "set J \<subseteq> set I" and le: "\<And>sid. pins sid J \<le> pins sid I"
  shows "layout S J"
proof (rule layoutI)
  note D = layoutD [OF ok]
  show "limit_ok J s" if "s \<in> set S" for s using limit_ok_fewer [OF D(5) [OF that] le] .
  show "\<exists>t chosen. (sid, t, chosen) \<in> set S \<and> kind \<in> item_kinds_by_type t" if "(sid, kind, ref) \<in> set J" for sid kind ref
    using D(3) assms(3) that by blast
qed (use layoutD [OF ok] assms(2) in blast)+

lemma pins_filter_le: "pins sid (filter P I) \<le> pins sid I"
  by (induction I) (auto simp: pins_def)

lemma layout_remove_section:
  assumes ok: "layout S I"
  shows "layout (filter (\<lambda>s. fst s \<noteq> sid) S) (filter (\<lambda>k. fst k \<noteq> sid) I)"
proof (rule layoutI)
  note D = layoutD [OF ok]
  show "distinct (map fst (filter (\<lambda>s. fst s \<noteq> sid) S))" by (rule distinct_map_filter [OF D(1)])
  show "distinct (filter (\<lambda>k. fst k \<noteq> sid) I)" using D(2) by simp
  show "\<exists>t chosen. (a, t, chosen) \<in> set (filter (\<lambda>s. fst s \<noteq> sid) S) \<and> kind \<in> item_kinds_by_type t"
    if "(a, kind, ref) \<in> set (filter (\<lambda>k. fst k \<noteq> sid) I)" for a kind ref using D(3) [of a kind ref] that by auto
  show "fst (snd s) \<in> section_types" if "s \<in> set (filter (\<lambda>s. fst s \<noteq> sid) S)" for s using D(4) that by simp
  show "limit_ok (filter (\<lambda>k. fst k \<noteq> sid) I) s" if "s \<in> set (filter (\<lambda>s. fst s \<noteq> sid) S)" for s
    using limit_ok_fewer [OF D(5) pins_filter_le] that by simp
  show "length (filter (\<lambda>s. fst (snd s) = t) (filter (\<lambda>s. fst s \<noteq> sid) S)) \<le> 1" if "t \<in> singleton_types" for t
    using D(6) [OF that] pins_le [of "\<lambda>s. fst (snd s) = t \<and> fst s \<noteq> sid" "\<lambda>s. fst (snd s) = t" S]
    by (simp add: conj_commute)
qed

lemma pins_append: "pins sid (I @ [k]) = pins sid I + (if fst k = sid then 1 else 0)"
  by (simp add: pins_def)

lemma layout_add_item:
  assumes ok: "layout S I" and s: "(sid, t, chosen) \<in> set S" and kind: "kind \<in> item_kinds_by_type t"
    and new: "(sid, kind, ref) \<notin> set I"
    and room: "\<And>n. effective_item_limit t chosen = Some n \<Longrightarrow> int (pins sid I) < n"
  shows "layout S (I @ [(sid, kind, ref)])"
proof (rule layoutI)
  note D = layoutD [OF ok]
  show "distinct (I @ [(sid, kind, ref)])" using D(2) new by simp
  show "\<exists>u chosen. (a, u, chosen) \<in> set S \<and> k \<in> item_kinds_by_type u"
    if "(a, k, r) \<in> set (I @ [(sid, kind, ref)])" for a k r using D(3) [of a k r] that s kind by auto
  show "limit_ok (I @ [(sid, kind, ref)]) x" if x: "x \<in> set S" for x
  proof (cases "fst x = sid")
    case True
    then have "x = (sid, t, chosen)" by (rule layout_unique [OF ok s x])
    moreover have "limit_ok I (sid, t, chosen)" by (rule D(5) [OF s])
    ultimately show ?thesis using room by (fastforce simp: limit_ok_def pins_append)
  next
    case False
    then show ?thesis using D(5) [OF x] by (cases x) (simp add: limit_ok_def pins_append)
  qed
qed (use layoutD [OF ok] in blast)+

text \<open>The edits an administrator can make to the page.\<close>

inductive home_step :: "db \<Rightarrow> db \<Rightarrow> bool" where
  create_section: "admin_create_home_section now fresh data d = Inr (v, d', ks) \<Longrightarrow> find_section fresh d = None \<Longrightarrow>
     home_step d d'"
| reorder_sections: "admin_reorder_home_sections ids d = Inr (vs, d', ks) \<Longrightarrow> home_step d d'"
| update_section: "admin_update_home_section sid u d = Inr (v, d', ks) \<Longrightarrow> home_step d d'"
| delete_section: "admin_delete_home_section sid d = Inr (d', ks) \<Longrightarrow> home_step d d'"
| create_item: "admin_create_home_section_item now fresh sid kind ref n d = Inr (w, d', ks) \<Longrightarrow> home_step d d'"
| reorder_items: "admin_reorder_home_section_items sid ids d = Inr (v, d', ks) \<Longrightarrow> home_step d d'"
| update_item: "admin_update_home_section_item i n d = Inr (w, d', ks) \<Longrightarrow> home_step d d'"
| delete_item: "admin_delete_home_section_item i d = Inr (d', ks) \<Longrightarrow> home_step d d'"

lemma find_section_key: "find_section sid d = Some s \<Longrightarrow> (sid, sec_type s, sec_item_limit s) \<in> set (map section_key (home_sections d))"
  by (auto simp: find_section_def section_key_def image_iff dest!: select_one_Some intro!: bexI [of _ s])

lemma find_section_None: "find_section sid d = None \<longleftrightarrow> sid \<notin> fst ` set (map section_key (home_sections d))"
  by (auto simp: find_section_def select_one_None section_key_def image_iff)

lemma created_section_layout:
  assumes ok: "layout_ok d" and run: "admin_create_home_section now fresh data d = Inr (v, d', ks)"
    and fresh: "find_section fresh d = None"
  shows "layout_ok d'"
proof -
  obtain genre where v: "check_section_create data" "validate_section_create (sc_type data) (sc_genre_name data) d = Inr genre"
    and d': "map section_key (home_sections d') = map section_key (home_sections d) @ [(fresh, sc_type data, None)]"
      "home_section_items d' = home_section_items d"
    using run by (auto simp: admin_create_home_section_def Let_def section_key_def split: if_splits sum.splits)
  have "\<not> (\<exists>s \<in> set (map section_key (home_sections d)). fst (snd s) = sc_type data)" if "sc_type data \<in> singleton_types"
    using v(2) that by (auto simp: validate_section_create_def section_key_def exists_row_iff split: if_splits)
  then show ?thesis
    using layout_add_section [OF ok [unfolded layout_ok_def]] fresh v(1)
    unfolding layout_ok_def d' find_section_None by (simp add: check_section_create_def)
qed

lemma updated_section_layout:
  assumes ok: "layout_ok d" and run: "admin_update_home_section sid u d = Inr (v, d', ks)"
  shows "layout_ok d'"
proof -
  obtain s s' where s: "find_section sid d = Some s" and chk: "check_section_update u"
    and s': "(case su_item_limit u of None \<Rightarrow> Inr (edit_section u s)
        | Some chosen \<Rightarrow> (case validate_item_limit (edit_section u s) chosen d of
            Inl e \<Rightarrow> Inl (conflict_of e) | Inr _ \<Rightarrow> Inr ((edit_section u s)\<lparr>sec_item_limit := chosen\<rparr>))) = Inr s'"
    and d': "d' = d\<lparr>home_sections := update_where (\<lambda>s. sec_id s = sid) (\<lambda>_. s') (home_sections d)\<rparr>"
    using run by (auto simp: admin_update_home_section_def Let_def split: if_splits sum.splits option.splits)
  have keep: "sec_id (edit_section u s) = sid" "sec_type (edit_section u s) = sec_type s"
    "sec_item_limit (edit_section u s) = sec_item_limit s"
    using s by (auto simp: edit_section_def find_section_def dest: select_one_Some)
  note S = find_section_key [OF s] and L = ok [unfolded layout_ok_def]
  have key: "section_key s' = (sid, sec_type s, sec_item_limit s') \<and>
      limit_ok (map item_key (home_section_items d)) (sid, sec_type s, sec_item_limit s')"
  proof (cases "su_item_limit u")
    case None
    then show ?thesis using s' keep layoutD(5) [OF L S] by (auto simp: section_key_def)
  next
    case (Some chosen)
    then have val: "validate_item_limit (edit_section u s) chosen d = Inr ()" and s'2: "s' = (edit_section u s)\<lparr>sec_item_limit := chosen\<rparr>"
      using s' by (auto split: sum.splits)
    have "limit_ok (map item_key (home_section_items d)) (sid, sec_type s, chosen)"
      using val chk Some keep caps_small
      by (fastforce simp: validate_item_limit_def limit_ok_def items_pins check_section_update_def
          max_section_item_limit_def effective_item_limit_def split: if_splits option.splits)
    then show ?thesis using s'2 keep by (simp add: section_key_def)
  qed
  have "map section_key (home_sections d') =
      map (\<lambda>k. if fst k = sid then (sid, sec_type s, sec_item_limit s') else k) (map section_key (home_sections d))"
    using key by (auto simp: d' update_where_def section_key_def)
  then show ?thesis
    using layout_set_section [OF L S conjunct2 [OF key]] unfolding layout_ok_def by (simp add: d')
qed

lemma created_item_layout:
  assumes ok: "layout_ok d" and run: "admin_create_home_section_item now fresh sid kind ref n d = Inr (w, d', ks)"
  shows "layout_ok d'"
proof -
  obtain s where s: "find_section sid d = Some s" and val: "validate_item_add s kind ref d = Inr ()"
    and d': "home_sections d' = home_sections d"
      "map item_key (home_section_items d') = map item_key (home_section_items d) @ [(sid, kind, ref)]"
    using run by (auto simp: admin_create_home_section_item_def Let_def item_key_def
        split: if_splits sum.splits option.splits error.splits)
  have id: "sec_id s = sid" using s by (auto simp: find_section_def dest: select_one_Some)
  show ?thesis
    unfolding layout_ok_def d'
  proof (rule layout_add_item [OF ok [unfolded layout_ok_def] find_section_key [OF s]])
    show "kind \<in> item_kinds_by_type (sec_type s)" "(sid, kind, ref) \<notin> set (map item_key (home_section_items d))"
      using val id by (auto simp: validate_item_add_def exists_row_iff item_key_def split: if_splits)
    show "int (pins sid (map item_key (home_section_items d))) < m"
      if "effective_item_limit (sec_type s) (sec_item_limit s) = Some m" for m
      using val id that by (auto simp: validate_item_add_def cap_of_def items_pins split: if_splits)
  qed
qed

lemma fewer_items_layout:
  assumes ok: "layout_ok d" and "home_sections d' = home_sections d" and "home_section_items d' = filter P (home_section_items d)"
  shows "layout_ok d'"
  unfolding layout_ok_def assms(2,3)
proof (rule layout_fewer_items [OF ok [unfolded layout_ok_def]])
  show "distinct (map item_key (filter P (home_section_items d)))"
    using ok layoutD(2) unfolding layout_ok_def by (blast intro: distinct_map_filter)
  show "pins sid (map item_key (filter P (home_section_items d))) \<le> pins sid (map item_key (home_section_items d))" for sid
    by (induction "home_section_items d") (auto simp: pins_def filter_map comp_def intro: pins_le)
qed auto

lemma home_step_layout: "home_step d d' \<Longrightarrow> layout_ok d \<Longrightarrow> layout_ok d'"
proof (induction rule: home_step.induct)
  case (create_section now fresh data d v d' ks)
  then show ?case by (blast intro: created_section_layout)
next
  case (reorder_sections ids d vs d' ks)
  then show ?case
    by (auto simp: admin_reorder_home_sections_def reorder_sections_def layout_ok_def assign_keeps section_key_def
        split: if_splits)
next
  case (update_section sid u d v d' ks)
  then show ?case by (blast intro: updated_section_layout)
next
  case (delete_section sid d d' ks)
  then have "map section_key (home_sections d') = filter (\<lambda>s. fst s \<noteq> sid) (map section_key (home_sections d))"
    "map item_key (home_section_items d') = filter (\<lambda>k. fst k \<noteq> sid) (map item_key (home_section_items d))"
    by (auto simp: admin_delete_home_section_def delete_where_def filter_map comp_def section_key_def item_key_def
        split: option.splits if_splits)
  then show ?case using layout_remove_section delete_section.prems by (simp add: layout_ok_def)
next
  case (create_item now fresh sid kind ref n d w d' ks)
  then show ?case by (blast intro: created_item_layout)
next
  case (reorder_items sid ids d v d' ks)
  then show ?case
    by (auto simp: admin_reorder_home_section_items_def reorder_section_items_def layout_ok_def assign_keeps item_key_def
        split: if_splits sum.splits)
next
  case (update_item i n d w d' ks)
  then show ?case
    by (auto simp: admin_update_home_section_item_def Let_def layout_ok_def map_update_where item_key_def split: option.splits)
next
  case (delete_item i d d' ks)
  then show ?case
    by (auto simp: admin_delete_home_section_item_def delete_where_def split: if_splits intro: fewer_items_layout)
qed

text \<open>
  C10: The landing page keeps its shape. Whatever administrators do to sections and items, in any order,
  ids stay unique, no title is pinned twice to a section, a section only holds kinds of items it can
  show and never more of them than its limit displays, limits stay between 1 and 50, and the automatic
  sections exist at most once.
\<close>

theorem home_layout_invariant:
  assumes "home_step\<^sup>*\<^sup>* d d'" and "layout_ok d"
  shows "layout_ok d'"
  using assms by (induction rule: rtranclp_induct) (auto intro: home_step_layout)

section \<open>What visitors see\<close>

lemma fill_rail_all:
  "\<forall>n. cap = Some n \<longrightarrow> int (length acc + length items) \<le> n \<Longrightarrow>
   fill_rail cap pick items acc = acc @ List.map_filter pick items"
proof (induction items arbitrary: acc)
  case (Cons i items)
  show ?case
  proof (cases "pick i")
    case (Some v)
    have "items = []" if full: "cap_reached cap (Suc (length acc))"
    proof -
      obtain c where c: "cap = Some c" "c \<le> int (Suc (length acc))"
        using full by (auto simp: cap_reached_def split: option.splits)
      then have "int (length acc + length (i # items)) \<le> c" using Cons.prems by blast
      then show ?thesis using c(2) by (cases items) simp_all
    qed
    moreover have "fill_rail cap pick items (acc @ [v]) = (acc @ [v]) @ List.map_filter pick items"
      by (rule Cons.IH) (use Cons.prems in fastforce)
    ultimately show ?thesis using Some by (auto simp: map_filter_simps)
  next
    case None
    have "fill_rail cap pick items acc = acc @ List.map_filter pick items"
      by (rule Cons.IH) (use Cons.prems in fastforce)
    then show ?thesis using None by (simp add: map_filter_simps)
  qed
qed (simp add: map_filter_simps)

definition pinned_movie :: "db \<Rightarrow> section_item_row \<Rightarrow> content_row option" where
  "pinned_movie d i = (if item_item_kind i = ''movie'' then shown_movie_row d (item_ref_id i) else None)"

definition pinned_series :: "db \<Rightarrow> section_item_row \<Rightarrow> series_row option" where
  "pinned_series d i = (if item_item_kind i = ''series'' then shown_series_row d (item_ref_id i) else None)"

lemma fill_movies_all:
  "\<forall>n. cap = Some n \<longrightarrow> int (length ms + length ss + length items) \<le> n \<Longrightarrow>
   fill_movies cap d items ms ss = (ms @ List.map_filter (pinned_movie d) items, ss @ List.map_filter (pinned_series d) items)"
proof (induction items arbitrary: ms ss)
  case (Cons i items)
  have stop: "items = []" if full: "cap_reached cap (Suc (length ms + length ss))"
  proof -
    obtain c where c: "cap = Some c" "c \<le> int (Suc (length ms + length ss))"
      using full by (auto simp: cap_reached_def split: option.splits)
    then have "int (length ms + length ss + length (i # items)) \<le> c" using Cons.prems by blast
    then show ?thesis using c(2) by (cases items) simp_all
  qed
  have no_stop: "\<not> cap_reached cap (length ms + length ss)"
    using Cons.prems by (auto simp: cap_reached_def split: option.splits)
  have ih: "fill_movies cap d items ms' ss' =
      (ms' @ List.map_filter (pinned_movie d) items, ss' @ List.map_filter (pinned_series d) items)"
    if "length ms' + length ss' \<le> Suc (length ms + length ss)" for ms' ss'
    by (rule Cons.IH) (use Cons.prems that in fastforce)
  show ?case
    using ih [of ms ss] ih [of "ms @ [m]" ss for m] ih [of ms "ss @ [x]" for x] stop no_stop
    by (auto simp: map_filter_simps pinned_movie_def [of d i] pinned_series_def [of d i] Let_def split: option.splits)
qed (simp add: map_filter_simps)

lemma map_filter_length: "length (List.map_filter f xs) \<le> length xs"
  by (simp add: List.map_filter_def)

definition rail :: "section_row \<Rightarrow> db \<Rightarrow> section_item_row list" where
  "rail s d = item_order (items_of (sec_id s) d)"

lemma rail_rows:
  assumes "s \<in> set (visible_sections d)"
  shows "filter (\<lambda>i. item_section_id i = sec_id s) (visible_items d) = rail s d"
proof -
  have "filter (\<lambda>i. item_section_id i = sec_id s) (filter (\<lambda>i. item_section_id i \<in> set (map sec_id (visible_sections d)))
      (home_section_items d)) = items_of (sec_id s) d"
    using assms by (auto simp: items_of_def intro!: filter_cong)
  then show ?thesis by (simp add: visible_items_def rail_def item_order_def order_by_def filter_sort)
qed

lemma rail_layout:
  assumes ok: "layout_ok d" and s: "s \<in> set (home_sections d)"
  shows "\<forall>n. cap_of s = Some n \<longrightarrow> 1 \<le> n \<and> n \<le> 50 \<and> int (length (rail s d)) \<le> n"
    and "i \<in> set (rail s d) \<Longrightarrow> item_item_kind i \<in> item_kinds_by_type (sec_type s)"
proof -
  note D = layoutD [OF ok [unfolded layout_ok_def]]
  have k: "section_key s \<in> set (map section_key (home_sections d))" using s by simp
  show "\<forall>n. cap_of s = Some n \<longrightarrow> 1 \<le> n \<and> n \<le> 50 \<and> int (length (rail s d)) \<le> n"
    using D(5) [OF k] by (auto simp: limit_ok_def section_key_def cap_of_def rail_def item_order_def items_pins)
  assume "i \<in> set (rail s d)"
  then have i: "i \<in> set (home_section_items d)" "item_section_id i = sec_id s"
    by (auto simp: rail_def item_order_def items_of_def)
  then obtain t chosen where t: "(sec_id s, t, chosen) \<in> set (map section_key (home_sections d))"
      "item_item_kind i \<in> item_kinds_by_type t"
    using D(3) [of "sec_id s" "item_item_kind i" "item_ref_id i"] by (force simp: item_key_def)
  then show "item_item_kind i \<in> item_kinds_by_type (sec_type s)"
    using layout_unique [OF ok [unfolded layout_ok_def] t(1) k] by (simp add: section_key_def)
qed

lemma visible_in: "s \<in> set (visible_sections d) \<longleftrightarrow> s \<in> set (home_sections d) \<and> sec_is_visible s"
  by (auto simp: visible_sections_def section_order_def)

lemma loaded_rail:
  assumes s: "s \<in> set (visible_sections d)" and i: "i \<in> set (rail s d)" and kind: "item_item_kind i = kind"
  shows "loaded kind (visible_items d) lookup i = lookup (item_ref_id i)"
proof -
  have "i \<in> set (visible_items d)" using i rail_rows [OF s] by (metis filter_is_subset subsetD)
  then show ?thesis using kind by (auto simp: loaded_def exists_row_iff)
qed

lemma map_filter_eq: "(\<And>x. x \<in> set xs \<Longrightarrow> f x = g x) \<Longrightarrow> List.map_filter f xs = List.map_filter g xs"
  by (simp add: List.map_filter_def cong: filter_cong)

text \<open>A well-formed rail loses nothing to its cap: its loop picks every row that can be shown.\<close>

lemma fill_rail_exact:
  assumes ok: "layout_ok d" and s: "s \<in> set (visible_sections d)" and kind: "item_kinds_by_type (sec_type s) = {kind}"
  shows "fill_rail (cap_of s) (loaded kind (visible_items d) lookup) (rail s d) [] =
    List.map_filter (\<lambda>i. lookup (item_ref_id i)) (rail s d)"
proof -
  have s': "s \<in> set (home_sections d)" using s by (simp add: visible_in)
  have "List.map_filter (loaded kind (visible_items d) lookup) (rail s d) =
      List.map_filter (\<lambda>i. lookup (item_ref_id i)) (rail s d)"
    by (rule map_filter_eq) (use loaded_rail [OF s] rail_layout(2) [OF ok s'] kind in auto)
  then show ?thesis using fill_rail_all [of "cap_of s" "[]" "rail s d" "loaded kind (visible_items d) lookup"] rail_layout(1) [OF ok s'] by simp
qed

lemma fill_movies_exact:
  assumes ok: "layout_ok d" and s: "s \<in> set (visible_sections d)"
  shows "fill_movies (cap_of s) d (rail s d) [] [] =
    (List.map_filter (pinned_movie d) (rail s d), List.map_filter (pinned_series d) (rail s d))"
  using fill_movies_all [of "cap_of s" "[]" "[]"] rail_layout(1) [OF ok] s by (simp add: visible_in)

definition movie_rail :: "string \<Rightarrow> bool" where
  "movie_rail t \<longleftrightarrow> t \<in> {''free_today'', ''trending'', ''most_watched'', ''coming_soon'', ''genre'', ''custom''}"

lemma upto_cap_all: "int (length xs) \<le> n \<Longrightarrow> upto_cap n xs = xs"
  by (simp add: upto_cap_def)

lemma resolve_movie_rail:
  assumes "movie_rail (sec_type s)"
    and "fill_movies (cap_of s) d (filter (\<lambda>i. item_section_id i = sec_id s) items) [] [] = (ms, ss)"
  shows "resolve_section now collate d items s = (blank_section s)
    \<lparr>ps_movies := (let movies = (if ms = [] \<and> ss = [] then auto_movies (sec_type s) (cap_of s) d else ms)
       in case cap_of s of None \<Rightarrow> movies | Some c \<Rightarrow> upto_cap c movies), ps_series := ss\<rparr>"
proof -
  have "sec_type s \<notin> {''plans'', ''hero'', ''banners'', ''tv'', ''series''}" using assms(1) by (auto simp: movie_rail_def)
  then show ?thesis using assms(2) by (simp add: resolve_section_def Let_def)
qed

text \<open>What a section of each type resolves to on a well-formed page.\<close>

lemma section_type_cases:
  assumes ok: "layout_ok d" and s: "s \<in> set (visible_sections d)"
  shows "movie_rail (sec_type s) \<or> sec_type s \<in> {''plans'', ''hero'', ''banners'', ''tv'', ''series''}"
proof -
  have "section_key s \<in> set (map section_key (home_sections d))" using s by (simp add: visible_in)
  then have "sec_type s \<in> section_types"
    using layoutD(4) [OF ok [unfolded layout_ok_def]] by (force simp: section_key_def)
  then show ?thesis by (auto simp: section_types_def movie_rail_def)
qed

lemma resolved_section:
  assumes ok: "layout_ok d" and s: "s \<in> set (visible_sections d)" and p: "p = resolve_section now collate d (visible_items d) s"
  obtains (movies) "movie_rail (sec_type s)" "ps_channels p = []" "ps_hero_slides p = []" "ps_banners p = []"
      "ps_series p = List.map_filter (pinned_series d) (rail s d)"
      "ps_movies p = (let movies = (if List.map_filter (pinned_movie d) (rail s d) = [] \<and> ps_series p = []
            then auto_movies (sec_type s) (cap_of s) d else List.map_filter (pinned_movie d) (rail s d))
         in case cap_of s of None \<Rightarrow> movies | Some c \<Rightarrow> upto_cap c movies)"
  | (series) "ps_movies p = []" "ps_channels p = []" "ps_hero_slides p = []" "ps_banners p = []" "sec_type s = ''series''"
      "ps_series p = (let pinned = List.map_filter (\<lambda>i. shown_series_row d (item_ref_id i)) (rail s d)
         in if pinned = [] then series_fallback (cap_of s) d else pinned)"
  | (tv) "ps_movies p = []" "ps_series p = []" "ps_hero_slides p = []" "ps_banners p = []" "sec_type s = ''tv''"
      "ps_channels p = map public_channel_read
         (let pinned = List.map_filter (\<lambda>i. shown_channel_row d (item_ref_id i)) (rail s d)
          in if pinned = [] then tv_fallback collate (cap_of s) d else pinned)"
  | (hero) "ps_movies p = []" "ps_series p = []" "ps_channels p = []" "ps_banners p = []" "sec_type s = ''hero''"
      "ps_hero_slides p = upto_cap 10 (resolve_hero_slides now ''home'' d)"
  | (banners) "ps_movies p = []" "ps_series p = []" "ps_channels p = []" "ps_hero_slides p = []" "sec_type s = ''banners''"
      "ps_banners p = upto_cap 10 (let pinned = List.map_filter (\<lambda>i. shown_banner_row d (item_ref_id i)) (rail s d)
         in if pinned = [] then list_active_promotion_banners now ''home'' d else pinned)"
  | (plans) "ps_movies p = []" "ps_series p = []" "ps_channels p = []" "ps_hero_slides p = []" "ps_banners p = []" "sec_type s = ''plans''"
proof -
  note rows = rail_rows [OF s]
  have kinds: "item_kinds_by_type ''series'' = {''series''}" "item_kinds_by_type ''tv'' = {''tv_channel''}"
    "item_kinds_by_type ''banners'' = {''banner''}" by (simp_all add: item_kinds_by_type_def)
  have caps: "sec_type s = ''hero'' \<Longrightarrow> cap_of s = Some 10" "sec_type s = ''banners'' \<Longrightarrow> cap_of s = Some 10"
    by (simp_all add: cap_of_def effective_item_limit_def limit_editable_def section_caps_def)
  consider "movie_rail (sec_type s)" | "sec_type s = ''plans''" | "sec_type s = ''hero''" | "sec_type s = ''banners''"
    | "sec_type s = ''tv''" | "sec_type s = ''series''"
    using section_type_cases [OF ok s] by blast
  then show thesis
  proof cases
    case 1
    have "p = (blank_section s)\<lparr>ps_movies :=
        (let movies = (if List.map_filter (pinned_movie d) (rail s d) = [] \<and> List.map_filter (pinned_series d) (rail s d) = []
            then auto_movies (sec_type s) (cap_of s) d else List.map_filter (pinned_movie d) (rail s d))
         in case cap_of s of None \<Rightarrow> movies | Some c \<Rightarrow> upto_cap c movies),
        ps_series := List.map_filter (pinned_series d) (rail s d)\<rparr>"
      unfolding p by (rule resolve_movie_rail [OF 1]) (simp add: rows fill_movies_exact [OF ok s])
    then show thesis using 1 movies by (simp add: blank_section_def)
  next
    case 2
    then show thesis using plans by (simp add: p resolve_section_def Let_def blank_section_def)
  next
    case 3
    then show thesis using hero caps by (simp add: p resolve_section_def Let_def blank_section_def)
  next
    case 4
    have "p = (blank_section s)\<lparr>ps_banners := upto_cap 10
        (let pinned = List.map_filter (\<lambda>i. shown_banner_row d (item_ref_id i)) (rail s d)
         in if pinned = [] then list_active_promotion_banners now ''home'' d else pinned)\<rparr>"
      using 4 caps fill_rail_exact [OF ok s, of "''banner''" "shown_banner_row d"] rows kinds
      by (simp add: p resolve_section_def Let_def cap_or_def)
    then show thesis using banners 4 by (simp add: blank_section_def)
  next
    case 5
    then show thesis using tv fill_rail_exact [OF ok s, of "''tv_channel''" "shown_channel_row d"] rows kinds
      by (simp add: p resolve_section_def Let_def blank_section_def)
  next
    case 6
    then show thesis using series fill_rail_exact [OF ok s, of "''series''" "shown_series_row d"] rows kinds
      by (simp add: p resolve_section_def Let_def blank_section_def)
  qed
qed

text \<open>
  C12: A rail shows exactly what was picked for it. On a well-formed page, a visible section with at
  least one pinned entry that can be shown lists all of them and nothing else, in the administrator's
  order: the pinned published movies (and series) of a movie rail, the published series and channels,
  and the active banners.
\<close>

theorem home_rail_exact:
  assumes "layout_ok d" and "s \<in> set (visible_sections d)" and "p = resolve_section now collate d (visible_items d) s"
  shows "(movie_rail (sec_type s) \<and> (\<exists>i \<in> set (rail s d). pinned_movie d i \<noteq> None \<or> pinned_series d i \<noteq> None) \<longrightarrow>
      ps_movies p = List.map_filter (pinned_movie d) (rail s d) \<and>
      ps_series p = List.map_filter (pinned_series d) (rail s d)) \<and>
    (sec_type s = ''series'' \<and> List.map_filter (\<lambda>i. shown_series_row d (item_ref_id i)) (rail s d) \<noteq> [] \<longrightarrow>
      ps_series p = List.map_filter (\<lambda>i. shown_series_row d (item_ref_id i)) (rail s d)) \<and>
    (sec_type s = ''tv'' \<and> List.map_filter (\<lambda>i. shown_channel_row d (item_ref_id i)) (rail s d) \<noteq> [] \<longrightarrow>
      ps_channels p = map public_channel_read (List.map_filter (\<lambda>i. shown_channel_row d (item_ref_id i)) (rail s d))) \<and>
    (sec_type s = ''banners'' \<and> List.map_filter (\<lambda>i. shown_banner_row d (item_ref_id i)) (rail s d) \<noteq> [] \<longrightarrow>
      ps_banners p = List.map_filter (\<lambda>i. shown_banner_row d (item_ref_id i)) (rail s d))"
proof -
  note sec = assms(2) [unfolded visible_in, THEN conjunct1]
  have len: "int (length (List.map_filter f (rail s d))) \<le> n" if "cap_of s = Some n" for n and f :: "_ \<Rightarrow> 'v option"
    using rail_layout(1) [OF assms(1) sec] that map_filter_length [of f "rail s d"] by fastforce
  have up: "upto_cap n (List.map_filter f (rail s d)) = List.map_filter f (rail s d)" if "cap_of s = Some n"
    for n and f :: "_ \<Rightarrow> 'v option" by (rule upto_cap_all [OF len [OF that]])
  have some_pin: "List.map_filter (pinned_movie d) (rail s d) \<noteq> [] \<or> List.map_filter (pinned_series d) (rail s d) \<noteq> []"
    if "\<exists>i \<in> set (rail s d). pinned_movie d i \<noteq> None \<or> pinned_series d i \<noteq> None"
    using that by (auto simp: List.map_filter_def filter_empty_conv)
  from assms show ?thesis
  proof (cases rule: resolved_section)
    case movies
    then show ?thesis using some_pin up by (cases "cap_of s") (auto simp: movie_rail_def)
  next
    case banners
    have "cap_of s = Some 10" by (simp add: cap_of_def effective_item_limit_def limit_editable_def section_caps_def banners)
    then show ?thesis using banners by (simp add: movie_rail_def Let_def up)
  qed (simp_all add: movie_rail_def Let_def)
qed

lemma in_map_filter: "y \<in> set (List.map_filter f xs) \<longleftrightarrow> (\<exists>x \<in> set xs. f x = Some y)"
  by (auto simp: List.map_filter_def image_iff)

lemma in_upto_cap: "x \<in> set (upto_cap n xs) \<Longrightarrow> x \<in> set xs"
  by (auto simp: upto_cap_def dest: in_set_takeD split: if_splits)

lemma upto_cap_length: "0 \<le> n \<Longrightarrow> int (length (upto_cap n xs)) \<le> n"
  by (simp add: upto_cap_def)

lemma in_join: "c \<in> set (join_titles keep ids d) \<Longrightarrow> ct_id c \<in> set ids \<and> c \<in> set (contents d) \<and> keep c"
  by (auto simp: join_titles_def)

lemma pinned_movie_some:
  assumes "pinned_movie d i = Some m"
  shows "item_item_kind i = ''movie''" and "ct_id m = item_ref_id i" and "m \<in> set (contents d)" and "shown_movie m"
  using assms by (auto simp: pinned_movie_def shown_movie_row_def dest!: select_one_Some split: if_splits)

lemma free_to_all: "shown_movie m \<Longrightarrow> ct_id m \<in> content_ids_free_today d \<Longrightarrow> can_access_content t None None m None d"
  by (auto simp: shown_movie_def can_access_content_def is_free_today_iff)

lemma section_pin_free:
  assumes "i \<in> set (home_section_items d)" "item_item_kind i = ''movie''" "s \<in> set (home_sections d)"
    "item_section_id i = sec_id s" "sec_type s = ''free_today''" "sec_is_visible s"
  shows "item_ref_id i \<in> content_ids_free_today d"
  using assms by (force simp: content_ids_free_today_def free_today_content_ids_from_sections_def exists_row_iff)

lemma resolved_free:
  assumes "m \<in> set (resolve_free_today_movies d)"
  shows "shown_movie m \<and> m \<in> set (contents d) \<and> ct_id m \<in> content_ids_free_today d"
proof -
  let ?q = "order_by sec_sort_order (filter (\<lambda>s. sec_type s = ''free_today'' \<and> sec_is_visible s) (home_sections d))"
  have legacy: "x \<in> set (legacy_free_today d) \<Longrightarrow> shown_movie x \<and> x \<in> set (contents d) \<and> ct_id x \<in> content_ids_free_today d" for x
    by (auto simp: legacy_free_today_def content_ids_free_today_def dest!: in_set_takeD in_join)
  show ?thesis
  proof (cases "first_row ?q")
    case None
    then have "resolve_free_today_movies d = legacy_free_today d" by (simp only: resolve_free_today_movies_def option.case)
    then show ?thesis using assms legacy by simp
  next
    case (Some s)
    then have "s \<in> set ?q" by (cases ?q) auto
    then have s: "s \<in> set (home_sections d)" "sec_type s = ''free_today''" "sec_is_visible s" by auto
    show ?thesis
    proof (cases "0 < length (pinned_movies (sec_id s) d)")
      case True
      then have "m \<in> set (join_titles shown_movie (map item_ref_id (pinned_movies (sec_id s) d)) d)"
        using assms Some by (auto simp: resolve_free_today_movies_def dest: in_set_takeD)
      then show ?thesis using section_pin_free [OF _ _ s(1) _ s(2,3)] by (auto simp: pinned_movies_def dest!: in_join)
    next
      case False
      then show ?thesis using assms legacy Some by (simp add: resolve_free_today_movies_def)
    qed
  qed
qed

lemma auto_movies_shown:
  assumes "m \<in> set (auto_movies t cap d)"
  shows "m \<in> set (contents d) \<and> (shown_movie m \<or> t = ''coming_soon'' \<and> has_poster m \<and> ct_id m \<in> set (map cs_content_id (coming_soon_items d)))"
proof -
  have new: "x \<in> set (newest_movies n d) \<Longrightarrow> x \<in> set (contents d) \<and> shown_movie x" for x n
    by (auto simp: newest_movies_def dest!: in_set_takeD)
  have soon: "x \<in> set (resolve_coming_soon_movies d) \<Longrightarrow>
      x \<in> set (contents d) \<and> has_poster x \<and> ct_id x \<in> set (map cs_content_id (coming_soon_items d))" for x
    by (auto simp: resolve_coming_soon_movies_def dest!: in_set_takeD in_join)
  show ?thesis
    using assms resolved_free new soon
    by (auto simp: auto_movies_def Let_def dest!: in_upto_cap in_set_dropD split: if_splits)
qed

text \<open>The movies of one resolved section come from its pins or from the automatic fill.\<close>

lemma resolve_movies_cases:
  assumes ok: "layout_ok d" and s: "s \<in> set (visible_sections d)" and p: "p = resolve_section now collate d (visible_items d) s"
    and m: "m \<in> set (ps_movies p)"
  shows "(\<exists>i \<in> set (rail s d). pinned_movie d i = Some m) \<or> m \<in> set (auto_movies (sec_type s) (cap_of s) d)"
  using ok s p
proof (cases rule: resolved_section)
  case movies
  then have "m \<in> set (auto_movies (sec_type s) (cap_of s) d) \<or> m \<in> set (List.map_filter (pinned_movie d) (rail s d))"
    using m by (auto simp: Let_def dest: in_upto_cap split: option.splits if_splits)
  then show ?thesis by (auto simp: in_map_filter)
qed (use m in auto)

lemma shown_series_row_some: "shown_series_row d ref = Some x \<Longrightarrow> x \<in> set (series_table d) \<and> ser_is_published x"
  by (auto simp: shown_series_row_def dest: select_one_Some)

lemma shown_channel_row_some: "shown_channel_row d ref = Some x \<Longrightarrow> x \<in> set (tv_channels d) \<and> ch_is_published x"
  by (auto simp: shown_channel_row_def dest: select_one_Some)

lemma shown_series:
  assumes "layout_ok d" "s \<in> set (visible_sections d)" "p = resolve_section now collate d (visible_items d) s"
    and "x \<in> set (ps_series p)"
  shows "x \<in> set (series_table d) \<and> ser_is_published x"
  using assms(1-3)
proof (cases rule: resolved_section)
  case movies
  then show ?thesis using assms(4) by (auto simp: in_map_filter pinned_series_def dest!: shown_series_row_some split: if_splits)
next
  case series
  then show ?thesis
    using assms(4) by (auto simp: in_map_filter series_fallback_def Let_def dest!: shown_series_row_some in_set_takeD split: if_splits)
qed (use assms(4) in auto)

lemma shown_channels:
  assumes "layout_ok d" "s \<in> set (visible_sections d)" "p = resolve_section now collate d (visible_items d) s"
    and "c \<in> set (ps_channels p)"
  shows "\<exists>r \<in> set (tv_channels d). ch_is_published r \<and> c = public_channel_read r"
  using assms(1-3)
proof (cases rule: resolved_section)
  case tv
  then show ?thesis
    using assms(4) by (auto simp: in_map_filter tv_fallback_def Let_def dest!: shown_channel_row_some in_set_takeD split: if_splits)
qed (use assms(4) in auto)

text \<open>
  C11: The landing page shows no hidden title and advertises no paid one as free. Every movie in a
  section is in the catalogue and published, or, in Coming Soon, a title with a poster on that list;
  every series and channel is published; and every movie that a Free movies today section or its public
  list shows can be watched by anybody at that moment, signed in or not.
\<close>

theorem home_page_safe:
  assumes "layout_ok d" and "s \<in> set (visible_sections d)" and "p = resolve_section now collate d (visible_items d) s"
  shows "(\<forall>m \<in> set (ps_movies p). m \<in> set (contents d) \<and> (shown_movie m \<or> sec_type s = ''coming_soon'' \<and> has_poster m \<and>
        ct_id m \<in> cs_content_id ` set (coming_soon_items d))) \<and>
    (\<forall>x \<in> set (ps_series p). x \<in> set (series_table d) \<and> ser_is_published x) \<and>
    (\<forall>c \<in> set (ps_channels p). \<exists>r \<in> set (tv_channels d). ch_is_published r \<and> c = public_channel_read r) \<and>
    (\<forall>m \<in> set (resolve_free_today_movies d). can_access_content t None None m None d) \<and>
    (\<forall>m \<in> set (ps_movies p). sec_type s = ''free_today'' \<longrightarrow> can_access_content t None None m None d)"
proof (intro conjI ballI impI)
  have sec: "s \<in> set (home_sections d)" "sec_is_visible s" using assms(2) by (simp_all add: visible_in)
  note origin = resolve_movies_cases [OF assms]
  show in_db: "m \<in> set (contents d)" if m: "m \<in> set (ps_movies p)" for m
    using origin [OF m] pinned_movie_some(3) auto_movies_shown by blast
  show "shown_movie m \<or> sec_type s = ''coming_soon'' \<and> has_poster m \<and> ct_id m \<in> cs_content_id ` set (coming_soon_items d)"
    if m: "m \<in> set (ps_movies p)" for m
    using origin [OF m] pinned_movie_some(4) auto_movies_shown [of m "sec_type s" "cap_of s" d] by auto
  show "can_access_content t None None m None d" if "m \<in> set (resolve_free_today_movies d)" for m
    using resolved_free [OF that] free_to_all by blast
  show "can_access_content t None None m None d" if m: "m \<in> set (ps_movies p)" and ft: "sec_type s = ''free_today''" for m
  proof -
    have "shown_movie m \<and> ct_id m \<in> content_ids_free_today d"
      using origin [OF m]
    proof
      assume "\<exists>i \<in> set (rail s d). pinned_movie d i = Some m"
      then obtain i where i: "i \<in> set (rail s d)" "pinned_movie d i = Some m" by blast
      then have "i \<in> set (home_section_items d)" "item_section_id i = sec_id s"
        by (auto simp: rail_def item_order_def items_of_def)
      then show ?thesis using section_pin_free [OF _ _ sec(1) _ ft sec(2)] pinned_movie_some [OF i(2)] by simp
    next
      assume "m \<in> set (auto_movies (sec_type s) (cap_of s) d)"
      then show ?thesis using resolved_free ft by (simp add: auto_movies_def Let_def)
    qed
    then show ?thesis using free_to_all by blast
  qed
  have series: "x \<in> set (series_table d) \<and> ser_is_published x" if "shown_series_row d ref = Some x" for ref x
    using that by (auto simp: shown_series_row_def dest: select_one_Some)
  have channel: "x \<in> set (tv_channels d) \<and> ch_is_published x" if "shown_channel_row d ref = Some x" for ref x
    using that by (auto simp: shown_channel_row_def dest: select_one_Some)
  show "x \<in> set (series_table d)" "ser_is_published x" if x: "x \<in> set (ps_series p)" for x
    using shown_series [OF assms x] by blast+
  show "\<exists>r \<in> set (tv_channels d). ch_is_published r \<and> c = public_channel_read r" if c: "c \<in> set (ps_channels p)" for c
    using shown_channels [OF assms c] by blast
qed

lemma cap_bound:
  assumes ok: "layout_ok d" and s: "s \<in> set (visible_sections d)"
  shows "cap_of s = Some n \<Longrightarrow> 0 \<le> n \<and> n \<le> 50" and "nat (cap_or (cap_of s) 12) \<le> 50"
    and "movie_rail (sec_type s) \<or> sec_type s \<in> {''series'', ''tv''} \<Longrightarrow> \<exists>n. cap_of s = Some n"
proof -
  have sec: "s \<in> set (home_sections d)" using s by (simp add: visible_in)
  have lim: "\<forall>n. cap_of s = Some n \<longrightarrow> 1 \<le> n \<and> n \<le> 50 \<and> int (length (rail s d)) \<le> n" by (rule rail_layout(1) [OF ok sec])
  show "cap_of s = Some n \<Longrightarrow> 0 \<le> n \<and> n \<le> 50" using lim by force
  show "nat (cap_or (cap_of s) 12) \<le> 50" using lim by (auto simp: cap_or_def split: option.splits)
  show "\<exists>n. cap_of s = Some n" if "movie_rail (sec_type s) \<or> sec_type s \<in> {''series'', ''tv''}"
    using that by (auto simp: movie_rail_def cap_of_def effective_item_limit_def limit_editable_def section_caps_def)
qed

text \<open>Pins of either kind come from different rows.\<close>

lemma movies_and_series:
  "length (List.map_filter (pinned_movie d) xs) + length (List.map_filter (pinned_series d) xs) \<le> length xs"
proof (induction xs)
  case (Cons i xs)
  then show ?case
    by (auto simp: map_filter_simps pinned_movie_def [of d i] pinned_series_def [of d i] split: option.splits)
qed (simp add: map_filter_simps)

text \<open>
  The landing page is bounded. On a well-formed page no section, whatever its limit and however
  long the catalogue, carries more than 50 entries, and none carries more than its own limit of movies
  and series together.
\<close>

theorem home_page_bounded:
  assumes "layout_ok d" and "s \<in> set (visible_sections d)" and "p = resolve_section now collate d (visible_items d) s"
  shows "length (ps_movies p) + length (ps_series p) + length (ps_channels p) + length (ps_hero_slides p) +
      length (ps_banners p) \<le> 50 \<and>
    (movie_rail (sec_type s) \<longrightarrow> (\<exists>n. cap_of s = Some n \<and> int (length (ps_movies p) + length (ps_series p)) \<le> n))"
proof -
  note cap = cap_bound [OF assms(1,2)]
  have sec: "s \<in> set (home_sections d)" using assms(2) by (simp add: visible_in)
  have rail: "int (length (rail s d)) \<le> n" if "cap_of s = Some n" for n
    using rail_layout(1) [OF assms(1) sec] that by blast
  from assms show ?thesis
  proof (cases rule: resolved_section)
    case movies
    obtain n where n: "cap_of s = Some n" "0 \<le> n" "n \<le> 50" using cap(1,3) movies(1) by blast
    have "int (length (ps_movies p) + length (ps_series p)) \<le> n"
    proof (cases "List.map_filter (pinned_movie d) (rail s d) = [] \<and> ps_series p = []")
      case True
      then show ?thesis using movies(6) n upto_cap_length [OF n(2)] by (simp add: Let_def)
    next
      case False
      then have "ps_movies p = List.map_filter (pinned_movie d) (rail s d)"
        using movies(6) n(1) rail [OF n(1)] movies_and_series [of d "rail s d"]
        by (auto simp: Let_def intro!: upto_cap_all)
      then show ?thesis using movies(5) rail [OF n(1)] movies_and_series [of d "rail s d"] by simp
    qed
    then show ?thesis using movies n by auto
  next
    case series
    have "length (rail s d) \<le> 50"
      using rail cap(1,3) series(5) by fastforce
    then have "length (ps_series p) \<le> 50"
      using cap(2) map_filter_length [of "\<lambda>i. shown_series_row d (item_ref_id i)" "rail s d"]
      by (auto simp: series(6) Let_def series_fallback_def)
    then show ?thesis using series by (simp add: movie_rail_def)
  next
    case tv
    have "length (rail s d) \<le> 50"
      using rail cap(1,3) tv(5) by fastforce
    then have "length (ps_channels p) \<le> 50"
      using cap(2) map_filter_length [of "\<lambda>i. shown_channel_row d (item_ref_id i)" "rail s d"]
      by (auto simp: tv(6) Let_def tv_fallback_def)
    then show ?thesis using tv by (simp add: movie_rail_def)
  next
    case hero
    then show ?thesis using upto_cap_length [of 10 "resolve_hero_slides now ''home'' d"] by (simp add: movie_rail_def)
  next
    case banners
    have "int (length (ps_banners p)) \<le> 10" unfolding banners(6) by (rule upto_cap_length) simp
    then show ?thesis using banners by (simp add: movie_rail_def)
  next
    case plans
    then show ?thesis by (simp add: movie_rail_def)
  qed
qed

text \<open>
  A scheduled banner pinned to the landing page ignores its schedule. On a well-formed page an
  active banner on a visible banners section is shown at any time, also before its start and after its
  end, although the banner listing of the same placement leaves it out.
\<close>

theorem pinned_banner_ignores_schedule:
  assumes "layout_ok d" and "s \<in> set (visible_sections d)" and "sec_type s = ''banners''"
    and "i \<in> set (rail s d)" and "shown_banner_row d (item_ref_id i) = Some b"
    and "\<not> on_air now (ban_is_active b) (ban_starts_at b) (ban_ends_at b)"
  shows "b \<in> set (ps_banners (resolve_section now collate d (visible_items d) s)) \<and>
    b \<notin> set (list_active_promotion_banners now placement d)"
proof
  have b: "b \<in> set (List.map_filter (\<lambda>i. shown_banner_row d (item_ref_id i)) (rail s d))"
    using assms(4,5) by (auto simp: in_map_filter)
  have cap: "cap_of s = Some 10" by (simp add: cap_of_def effective_item_limit_def limit_editable_def section_caps_def assms(3))
  have "int (length (List.map_filter (\<lambda>i. shown_banner_row d (item_ref_id i)) (rail s d))) \<le> 10"
    using rail_layout(1) [OF assms(1)] assms(2) cap map_filter_length [of "\<lambda>i. shown_banner_row d (item_ref_id i)" "rail s d"]
    by (fastforce simp: visible_in)
  note all = upto_cap_all [OF this]
  show "b \<in> set (ps_banners (resolve_section now collate d (visible_items d) s))"
  proof (rule resolved_section [OF assms(1,2) refl, of now collate], goal_cases)
    case (5)
    have "List.map_filter (\<lambda>i. shown_banner_row d (item_ref_id i)) (rail s d) \<noteq> []" using b by auto
    then show ?case using 5(6) b by (simp add: Let_def all)
  qed (use assms(3) in \<open>auto simp: movie_rail_def\<close>)
  show "b \<notin> set (list_active_promotion_banners now placement d)"
    using assms(6) by (simp add: list_active_promotion_banners_def banner_list_def)
qed

section \<open>Order\<close>

interpretation home_section_order: sortable sec_id sec_sort_order "\<lambda>n s. s\<lparr>sec_sort_order := n\<rparr>" "\<lambda>_. True"
  by unfold_locales simp_all

interpretation home_item_order: sortable item_id item_sort_order "\<lambda>n i. i\<lparr>item_sort_order := n\<rparr>"
    "\<lambda>i. item_section_id i = sid" for sid
  by unfold_locales simp_all

text \<open>A rail is shown in the order of the administrator's last reorder.\<close>

lemma reordered_rail:
  assumes "admin_reorder_home_section_items sid ids d = Inr (v, d', ks)" and "distinct (map item_id (home_section_items d))"
  shows "map item_id (item_order (items_of sid d')) = ids"
proof -
  have ids: "distinct ids" "set ids = set (map item_id (items_of sid d))"
    and d': "home_section_items d' = assign_order item_id (\<lambda>n i. i\<lparr>item_sort_order := n\<rparr>)
             (\<lambda>i. item_section_id i = sid) ids (home_section_items d)"
    using assms(1) by (auto simp: admin_reorder_home_section_items_def reorder_section_items_def split: if_splits sum.splits)
  have "set ids = item_id ` {r \<in> set (home_section_items d). item_section_id r = sid}"
    using ids(2) by (auto simp: items_of_def)
  from home_item_order.order_by_assign [OF ids(1) this assms(2), where tie = "\<lambda>i. - item_created_at i"]
  show ?thesis unfolding item_order_def items_of_def d' by simp
qed

section \<open>Free movies that stay free\<close>

lemma home_step_frame: "home_step d d' \<Longrightarrow> free_today_items d' = free_today_items d \<and> contents d' = contents d"
  by (induction rule: home_step.induct)
     (auto simp: admin_create_home_section_def admin_reorder_home_sections_def reorder_sections_def
       admin_update_home_section_def admin_delete_home_section_def admin_create_home_section_item_def
       admin_reorder_home_section_items_def reorder_section_items_def admin_update_home_section_item_def
       admin_delete_home_section_item_def Let_def split: if_splits sum.splits option.splits error.splits)

text \<open>
  The page builder cannot take back a free movie. A published movie on the legacy Free movies
  today list can be watched by anybody after any sequence of edits to the landing page, whether or not
  the page still shows it: removing the movie from the page's section, or hiding the section, changes
  nothing about who may watch.
\<close>

theorem free_movie_outlives_page_edits:
  assumes "m \<in> set (contents d)" and "shown_movie m" and "ct_id m \<in> ft_content_id ` set (free_today_items d)"
    and "home_step\<^sup>*\<^sup>* d d'"
  shows "m \<in> set (contents d') \<and> can_access_content t None None m None d'"
proof -
  from assms(4) have "free_today_items d' = free_today_items d \<and> contents d' = contents d"
    by (induction rule: rtranclp_induct) (auto dest: home_step_frame)
  then show ?thesis using assms(1-3) free_to_all [of m d' t] by (simp add: content_ids_free_today_def)
qed

section \<open>An example\<close>

definition page_film :: content_row where
  "page_film = default_content\<lparr>ct_id := 7, ct_type := ''single'', ct_title := ''Film'', ct_price_usd := Some 5, ct_is_published := True\<rparr>"

definition page_banner :: banner_row where
  "page_banner = \<lparr>ban_id = 9, ban_title = ''Sale'', ban_subtitle = None, ban_image_key = None, ban_cta_label = None,
     ban_cta_href = None, ban_placement = ''home'', ban_is_active = True, ban_sort_order = 0, ban_starts_at = None,
     ban_ends_at = Some 100, ban_created_at = 0\<rparr>"

definition page_section :: "uuid \<Rightarrow> string \<Rightarrow> section_row" where
  "page_section i t = \<lparr>sec_id = i, sec_type = t, sec_title = None, sec_genre_name = None, sec_is_visible = True,
     sec_sort_order = 0, sec_item_limit = None, sec_created_at = 0\<rparr>"

definition page_item :: "uuid \<Rightarrow> uuid \<Rightarrow> string \<Rightarrow> uuid \<Rightarrow> section_item_row" where
  "page_item i sid kind ref = \<lparr>item_id = i, item_section_id = sid, item_item_kind = kind, item_ref_id = ref,
     item_sort_order = 0, item_created_at = 0\<rparr>"

definition page_db :: db where
  "page_db = empty_db\<lparr>contents := [page_film], promotion_banners := [page_banner],
     home_sections := [page_section 2 ''free_today'', page_section 3 ''banners''],
     home_section_items := [page_item 4 2 ''movie'' 7, page_item 5 3 ''banner'' 9]\<rparr>"

lemma page_db_layout: "layout_ok page_db"
  by code_simp

lemma page_db_visible: "page_section 2 ''free_today'' \<in> set (visible_sections page_db)"
  "page_section 3 ''banners'' \<in> set (visible_sections page_db)"
  by code_simp+

theorem home_layout_invariant_witness:
  "case admin_delete_home_section_item 4 page_db of Inl _ \<Rightarrow> False
     | Inr (d1, _) \<Rightarrow> (case admin_create_home_section_item 50 6 2 ''movie'' 7 1 d1 of Inl _ \<Rightarrow> False
         | Inr (_, d2, _) \<Rightarrow> layout_ok d2 \<and> length (home_section_items d2) = 2)"
proof -
  have ok1: "is_ok (admin_delete_home_section_item 4 page_db)" by code_simp
  then obtain d1 ks1 where 1: "admin_delete_home_section_item 4 page_db = Inr (d1, ks1)" by (metis is_ok_iff prod.collapse)
  have ok2: "case admin_delete_home_section_item 4 page_db of Inr (d1, _) \<Rightarrow>
      (case admin_create_home_section_item 50 6 2 ''movie'' 7 1 d1 of Inl _ \<Rightarrow> False
         | Inr (_, d2, _) \<Rightarrow> length (home_section_items d2) = 2)" by code_simp
  then obtain v d2 ks2 where 2: "admin_create_home_section_item 50 6 2 ''movie'' 7 1 d1 = Inr (v, d2, ks2)"
      "length (home_section_items d2) = 2"
    by (auto simp: 1 split: sum.splits)
  have "home_step\<^sup>*\<^sup>* page_db d2" using home_step.delete_item [OF 1] home_step.create_item [OF 2(1)] by (meson rtranclp.simps)
  then have "layout_ok d2" by (rule home_layout_invariant [OF _ page_db_layout])
  then show ?thesis using 2 by (simp add: 1)
qed

theorem home_rail_exact_witness:
  "ps_movies (resolve_section 5 (\<lambda>_. 0) page_db (visible_items page_db) (page_section 2 ''free_today'')) = [page_film]"
proof -
  have t: "movie_rail (sec_type (page_section 2 ''free_today''))" by code_simp
  have m: "List.map_filter (pinned_movie page_db) (rail (page_section 2 ''free_today'') page_db) = [page_film]" by code_simp
  have "\<exists>i \<in> set (rail (page_section 2 ''free_today'') page_db). pinned_movie page_db i \<noteq> None \<or> pinned_series page_db i \<noteq> None"
    by code_simp
  with home_rail_exact [OF page_db_layout page_db_visible(1) refl, of 5 "\<lambda>_. 0", THEN conjunct1] t m
  show ?thesis by simp
qed

theorem home_page_safe_witness:
  "page_film \<in> set (ps_movies (resolve_section 5 (\<lambda>_. 0) page_db (visible_items page_db) (page_section 2 ''free_today''))) \<and>
   can_access_content 5 None None page_film None page_db"
proof
  show m: "page_film \<in> set (ps_movies (resolve_section 5 (\<lambda>_. 0) page_db (visible_items page_db) (page_section 2 ''free_today'')))"
    by code_simp
  have "sec_type (page_section 2 ''free_today'') = ''free_today''" by (simp add: page_section_def)
  then show "can_access_content 5 None None page_film None page_db"
    using home_page_safe [OF page_db_layout page_db_visible(1) refl, THEN conjunct2, THEN conjunct2, THEN conjunct2, THEN conjunct2] m
    by blast
qed

theorem home_page_bounded_witness:
  "int (length (ps_movies (resolve_section 5 (\<lambda>_. 0) page_db (visible_items page_db) (page_section 2 ''free_today'')))) \<le> 10"
proof -
  have t: "movie_rail (sec_type (page_section 2 ''free_today''))" "cap_of (page_section 2 ''free_today'') = Some 10" by code_simp+
  from home_page_bounded [OF page_db_layout page_db_visible(1) refl, of 5 "\<lambda>_. 0", THEN conjunct2, THEN mp, OF t(1)] t(2)
  show ?thesis by simp
qed

theorem pinned_banner_ignores_schedule_witness:
  "page_banner \<in> set (ps_banners (resolve_section 500 (\<lambda>_. 0) page_db (visible_items page_db) (page_section 3 ''banners''))) \<and>
   page_banner \<notin> set (list_active_promotion_banners 500 ''home'' page_db)"
proof -
  have i: "sec_type (page_section 3 ''banners'') = ''banners''"
    "page_item 5 3 ''banner'' 9 \<in> set (rail (page_section 3 ''banners'') page_db)"
    "shown_banner_row page_db (item_ref_id (page_item 5 3 ''banner'' 9)) = Some page_banner"
    "\<not> on_air 500 (ban_is_active page_banner) (ban_starts_at page_banner) (ban_ends_at page_banner)"
    by code_simp+
  show ?thesis by (rule pinned_banner_ignores_schedule [OF page_db_layout page_db_visible(2) i])
qed

theorem free_movie_outlives_page_edits_witness:
  "case admin_delete_home_section_item 4 (page_db\<lparr>free_today_items := [\<lparr>ft_id = 1, ft_content_id = 7, ft_sort_order = 0, ft_created_at = 0\<rparr>]\<rparr>) of
     Inl _ \<Rightarrow> False | Inr (d', _) \<Rightarrow> can_access_content 5 None None page_film None d'"
proof -
  let ?d = "page_db\<lparr>free_today_items := [\<lparr>ft_id = 1, ft_content_id = 7, ft_sort_order = 0, ft_created_at = 0\<rparr>]\<rparr>"
  have ok: "is_ok (admin_delete_home_section_item 4 ?d)" by code_simp
  then obtain d' ks where run: "admin_delete_home_section_item 4 ?d = Inr (d', ks)" by (metis is_ok_iff prod.collapse)
  have m: "page_film \<in> set (contents ?d)" "shown_movie page_film" "ct_id page_film \<in> ft_content_id ` set (free_today_items ?d)"
    by (simp_all add: page_db_def shown_movie_def page_film_def)
  have "home_step\<^sup>*\<^sup>* ?d d'" using home_step.delete_item [OF run] by blast
  from free_movie_outlives_page_edits [OF m this] show ?thesis by (simp only: run sum.case prod.case)
qed

end
