(* ===== verification/Locks.thy ===== *)
theory Locks
  imports Models
begin

text \<open>
  \<open>app/services/distributed_lock.py\<close>: the lock that keeps one worker running each background loop. The
  Redis commands are atomic, the Python around them is not, so \<open>refresh\<close> and \<open>release\<close> are two steps,
  \<open>GET\<close> and then \<open>EXPIRE\<close> or \<open>DEL\<close>, between which other workers act and keys expire. One lock name is
  modelled; \<open>ttl\<close> is the lifetime asked for.
\<close>

definition lock_ttl :: "int \<Rightarrow> monotonic" where
  "lock_ttl ttl_seconds = of_int (max 30 ttl_seconds)"

datatype pending = Refreshing | Releasing

text \<open>
  \<open>lk_key\<close> is the Redis key with its expiry, \<open>lk_file\<close> the owner of the lock file, \<open>lk_pending\<close> the workers
  between the two commands with the expiry their \<open>GET\<close> saw, \<open>lk_lease\<close> until when the code's answers
  entitle a worker to act as the owner.
\<close>

record lock_state =
  lk_key :: "(string \<times> monotonic) option"
  lk_file :: "string option"
  lk_pending :: "string \<Rightarrow> (pending \<times> monotonic) option"
  lk_lease :: "string \<Rightarrow> monotonic option"

definition no_lock :: lock_state where
  "no_lock = \<lparr>lk_key = None, lk_file = None, lk_pending = (\<lambda>_. None), lk_lease = (\<lambda>_. None)\<rparr>"

definition live_key :: "monotonic \<Rightarrow> lock_state \<Rightarrow> (string \<times> monotonic) option" where
  "live_key now s = (case lk_key s of None \<Rightarrow> None | Some (tok, e) \<Rightarrow> if now < e then Some (tok, e) else None)"

text \<open>\<open>try_acquire\<close>: \<open>reach\<close> is False when the Redis call raises, and the lock file decides instead.\<close>

definition try_acquire :: "int \<Rightarrow> bool \<Rightarrow> monotonic \<Rightarrow> string \<Rightarrow> lock_state \<Rightarrow> bool \<times> lock_state" where
  "try_acquire ttl reach now tok s =
     (if reach then
        (case live_key now s of
           None \<Rightarrow> (True, s\<lparr>lk_key := Some (tok, now + lock_ttl ttl), lk_lease := (lk_lease s)(tok \<mapsto> now + lock_ttl ttl)\<rparr>)
         | Some _ \<Rightarrow> (False, s))
      else (case lk_file s of None \<Rightarrow> (True, s\<lparr>lk_file := Some tok\<rparr>) | Some _ \<Rightarrow> (False, s)))"

definition give_up :: "string \<Rightarrow> lock_state \<Rightarrow> lock_state" where
  "give_up tok s = s\<lparr>lk_pending := (lk_pending s)(tok := None), lk_lease := (lk_lease s)(tok := None)\<rparr>"

text \<open>The \<open>GET\<close> of \<open>refresh\<close> and of \<open>release\<close>: a token that is not the key's answers False, or does nothing.\<close>

definition check_owner :: "pending \<Rightarrow> monotonic \<Rightarrow> string \<Rightarrow> lock_state \<Rightarrow> lock_state" where
  "check_owner kind now tok s =
     (case live_key now s of
        Some (t, e) \<Rightarrow> if t = tok then s\<lparr>lk_pending := (lk_pending s)(tok \<mapsto> (kind, e))\<rparr> else give_up tok s
      | None \<Rightarrow> give_up tok s)"

text \<open>The \<open>EXPIRE\<close> of \<open>refresh\<close>, which then answers True, and the \<open>DEL\<close> of \<open>release\<close>.\<close>

definition finish_refresh :: "int \<Rightarrow> monotonic \<Rightarrow> string \<Rightarrow> lock_state \<Rightarrow> lock_state" where
  "finish_refresh ttl now tok s =
     (case lk_pending s tok of
        Some (Refreshing, _) \<Rightarrow>
          s\<lparr>lk_key := map_option (\<lambda>(t, _). (t, now + lock_ttl ttl)) (live_key now s),
            lk_pending := (lk_pending s)(tok := None), lk_lease := (lk_lease s)(tok \<mapsto> now + lock_ttl ttl)\<rparr>
      | _ \<Rightarrow> s)"

definition finish_release :: "string \<Rightarrow> lock_state \<Rightarrow> lock_state" where
  "finish_release tok s =
     (case lk_pending s tok of Some (Releasing, _) \<Rightarrow> give_up tok (s\<lparr>lk_key := None\<rparr>) | _ \<Rightarrow> s)"

definition release_file :: "string \<Rightarrow> lock_state \<Rightarrow> lock_state" where
  "release_file tok s = (if lk_file s = Some tok then s\<lparr>lk_file := None\<rparr> else s)"

datatype lock_event =
    Acquire monotonic bool string
  | RefreshGet monotonic string
  | RefreshExpire monotonic string
  | ReleaseGet monotonic string
  | ReleaseDel monotonic string
  | ReleaseFile monotonic string

fun lock_time :: "lock_event \<Rightarrow> monotonic" where
  "lock_time (Acquire t _ _) = t" | "lock_time (RefreshGet t _) = t" | "lock_time (RefreshExpire t _) = t"
| "lock_time (ReleaseGet t _) = t" | "lock_time (ReleaseDel t _) = t" | "lock_time (ReleaseFile t _) = t"

fun lock_op :: "int \<Rightarrow> lock_event \<Rightarrow> lock_state \<Rightarrow> lock_state" where
  "lock_op ttl (Acquire now reach tok) s = snd (try_acquire ttl reach now tok s)"
| "lock_op ttl (RefreshGet now tok) s = check_owner Refreshing now tok s"
| "lock_op ttl (RefreshExpire now tok) s = finish_refresh ttl now tok s"
| "lock_op ttl (ReleaseGet now tok) s = check_owner Releasing now tok s"
| "lock_op ttl (ReleaseDel now tok) s = finish_release tok s"
| "lock_op ttl (ReleaseFile now tok) s = release_file tok s"

definition lock_run :: "int \<Rightarrow> lock_event list \<Rightarrow> lock_state" where
  "lock_run ttl evs = fold (lock_op ttl) evs no_lock"

definition owns :: "monotonic \<Rightarrow> string \<Rightarrow> lock_state \<Rightarrow> bool" where
  "owns now tok s \<longleftrightarrow> (case lk_lease s tok of None \<Rightarrow> False | Some e \<Rightarrow> now < e) \<or> lk_file s = Some tok"

text \<open>
  The second command of a refresh or release arrives before the expiry its \<open>GET\<close> saw, and Redis is
  reached throughout.
\<close>

fun prompt :: "lock_event \<Rightarrow> lock_state \<Rightarrow> bool" where
  "prompt (Acquire _ reach _) s = reach"
| "prompt (RefreshExpire now tok) s = (case lk_pending s tok of Some (_, e) \<Rightarrow> now < e | None \<Rightarrow> True)"
| "prompt (ReleaseDel now tok) s = (case lk_pending s tok of Some (_, e) \<Rightarrow> now < e | None \<Rightarrow> True)"
| "prompt _ s = True"

fun all_prompt :: "int \<Rightarrow> lock_event list \<Rightarrow> lock_state \<Rightarrow> bool" where
  "all_prompt ttl [] s = True"
| "all_prompt ttl (ev # evs) s = (prompt ev s \<and> all_prompt ttl evs (lock_op ttl ev s))"

section \<open>At most one owner\<close>

text \<open>Whoever may act as the owner at \<open>now\<close> has the key, until then; a pending worker saw its own key.\<close>

definition lock_ok :: "monotonic \<Rightarrow> lock_state \<Rightarrow> bool" where
  "lock_ok now s \<longleftrightarrow> lk_file s = None \<and>
     (\<forall>tok e. lk_lease s tok = Some e \<longrightarrow> now < e \<longrightarrow> (\<exists>e'. lk_key s = Some (tok, e') \<and> e \<le> e')) \<and>
     (\<forall>tok k e. lk_pending s tok = Some (k, e) \<longrightarrow> now < e \<longrightarrow> (\<exists>e'. lk_key s = Some (tok, e') \<and> e \<le> e'))"

lemma lock_ok_later: "lock_ok now s \<Longrightarrow> now \<le> now' \<Longrightarrow> lock_ok now' s"
  unfolding lock_ok_def by (meson le_less_trans)

lemma live_key_iff: "live_key now s = Some (tok, e) \<longleftrightarrow> lk_key s = Some (tok, e) \<and> now < e"
  by (auto simp: live_key_def split: option.splits)

lemma lease_key: "lock_ok now s \<Longrightarrow> lk_lease s tok = Some e \<Longrightarrow> now < e \<Longrightarrow> \<exists>e'. lk_key s = Some (tok, e') \<and> e \<le> e'"
  unfolding lock_ok_def by blast

lemma pending_key: "lock_ok now s \<Longrightarrow> lk_pending s tok = Some (k, e) \<Longrightarrow> now < e \<Longrightarrow> \<exists>e'. lk_key s = Some (tok, e') \<and> e \<le> e'"
  unfolding lock_ok_def by blast

lemma no_live_key:
  assumes "live_key now s = None" and "lock_ok now s"
  shows "lk_lease s tok = Some e \<Longrightarrow> \<not> now < e" and "lk_pending s tok = Some (k, e) \<Longrightarrow> \<not> now < e"
proof -
  have "\<not> now < e'" if "lk_key s = Some (t, e')" for t e'
    using assms(1) that by (simp add: live_key_def split: if_splits)
  then show "lk_lease s tok = Some e \<Longrightarrow> \<not> now < e" and "lk_pending s tok = Some (k, e) \<Longrightarrow> \<not> now < e"
    using lease_key [OF assms(2)] pending_key [OF assms(2)] by (meson less_le_trans)+
qed

text \<open>While somebody holds a live key, nobody else is entitled or pending.\<close>

lemma only_holder:
  assumes "lock_ok now s" and "lk_key s = Some (tok, e')"
  shows "lk_lease s t = Some e \<Longrightarrow> now < e \<Longrightarrow> t = tok \<and> e \<le> e'"
    and "lk_pending s t = Some (k, e) \<Longrightarrow> now < e \<Longrightarrow> t = tok \<and> e \<le> e'"
  using lease_key [OF assms(1)] pending_key [OF assms(1)] assms(2) by fastforce+

lemma lock_okI:
  assumes "lk_file s = None"
    and "\<And>tok e. lk_lease s tok = Some e \<Longrightarrow> now < e \<Longrightarrow> \<exists>e'. lk_key s = Some (tok, e') \<and> e \<le> e'"
    and "\<And>tok k e. lk_pending s tok = Some (k, e) \<Longrightarrow> now < e \<Longrightarrow> \<exists>e'. lk_key s = Some (tok, e') \<and> e \<le> e'"
  shows "lock_ok now s"
  using assms unfolding lock_ok_def by blast

lemma acquire_ok:
  assumes ok: "lock_ok now s"
  shows "lock_ok now (snd (try_acquire ttl True now tok s))"
proof (cases "live_key now s")
  case None
  note dead = no_live_key [OF None ok]
  have "lk_file s = None" using ok by (simp add: lock_ok_def)
  then show ?thesis
    by (intro lock_okI) (auto simp: try_acquire_def None dest: dead split: if_splits)
next
  case (Some x)
  then show ?thesis using ok by (simp add: try_acquire_def)
qed

lemma give_up_ok: "lock_ok now s \<Longrightarrow> lock_ok now (give_up tok s)"
  by (rule lock_okI) (auto simp: give_up_def lock_ok_def split: if_splits)

lemma check_owner_ok:
  assumes ok: "lock_ok now s"
  shows "lock_ok now (check_owner kind now tok s)"
proof (cases "\<exists>e. live_key now s = Some (tok, e)")
  case True
  then obtain e where e: "live_key now s = Some (tok, e)" by blast
  then have key: "lk_key s = Some (tok, e)" by (simp add: live_key_iff)
  have st: "check_owner kind now tok s = s\<lparr>lk_pending := (lk_pending s)(tok \<mapsto> (kind, e))\<rparr>"
    by (simp add: check_owner_def e)
  show ?thesis
    unfolding st
  proof (rule lock_okI)
    show "lk_file (s\<lparr>lk_pending := (lk_pending s)(tok \<mapsto> (kind, e))\<rparr>) = None" using ok by (simp add: lock_ok_def)
  next
    fix t x
    assume "lk_lease (s\<lparr>lk_pending := (lk_pending s)(tok \<mapsto> (kind, e))\<rparr>) t = Some x" "now < x"
    then show "\<exists>e'. lk_key (s\<lparr>lk_pending := (lk_pending s)(tok \<mapsto> (kind, e))\<rparr>) = Some (t, e') \<and> x \<le> e'"
      using lease_key [OF ok] by simp
  next
    fix t k x
    assume "lk_pending (s\<lparr>lk_pending := (lk_pending s)(tok \<mapsto> (kind, e))\<rparr>) t = Some (k, x)" "now < x"
    then show "\<exists>e'. lk_key (s\<lparr>lk_pending := (lk_pending s)(tok \<mapsto> (kind, e))\<rparr>) = Some (t, e') \<and> x \<le> e'"
      using pending_key [OF ok, of t k x] key by (auto split: if_splits)
  qed
next
  case False
  then have "check_owner kind now tok s = give_up tok s"
    by (auto simp: check_owner_def split: option.splits)
  then show ?thesis using give_up_ok [OF ok] by simp
qed

lemma finish_refresh_ok:
  assumes ok: "lock_ok now s" and p: "lk_pending s tok = Some (Refreshing, e)" "now < e"
  shows "lock_ok now (finish_refresh ttl now tok s)"
proof -
  let ?s = "s\<lparr>lk_key := Some (tok, now + lock_ttl ttl), lk_pending := (lk_pending s)(tok := None),
      lk_lease := (lk_lease s)(tok \<mapsto> now + lock_ttl ttl)\<rparr>"
  obtain e' where key: "lk_key s = Some (tok, e')" "e \<le> e'" using pending_key [OF ok p] by blast
  then have "live_key now s = Some (tok, e')" using p(2) by (simp add: live_key_iff)
  then have st: "finish_refresh ttl now tok s = ?s" using p(1) by (simp add: finish_refresh_def)
  show ?thesis
    unfolding st
  proof (rule lock_okI)
    show "lk_file ?s = None" using ok by (simp add: lock_ok_def)
    show "\<exists>e'. lk_key ?s = Some (t, e') \<and> x \<le> e'" if "lk_lease ?s t = Some x" "now < x" for t x
      using that only_holder(1) [OF ok key(1), of t x] by (cases "t = tok") auto
    show "\<exists>e'. lk_key ?s = Some (t, e') \<and> x \<le> e'" if "lk_pending ?s t = Some (k, x)" "now < x" for t k x
      using that only_holder(2) [OF ok key(1), of t k x] by (cases "t = tok") auto
  qed
qed

lemma finish_release_ok:
  assumes ok: "lock_ok now s" and p: "lk_pending s tok = Some (Releasing, e)" "now < e"
  shows "lock_ok now (finish_release tok s)"
proof -
  let ?s = "s\<lparr>lk_key := None, lk_pending := (lk_pending s)(tok := None), lk_lease := (lk_lease s)(tok := None)\<rparr>"
  obtain e' where key: "lk_key s = Some (tok, e')" using pending_key [OF ok p] by blast
  have st: "finish_release tok s = ?s" using p(1) by (simp add: finish_release_def give_up_def)
  show ?thesis
    unfolding st
  proof (rule lock_okI)
    show "lk_file ?s = None" using ok by (simp add: lock_ok_def)
    show "\<exists>e'. lk_key ?s = Some (t, e') \<and> x \<le> e'" if "lk_lease ?s t = Some x" "now < x" for t x
      using that only_holder(1) [OF ok key, of t x] by (cases "t = tok") auto
    show "\<exists>e'. lk_key ?s = Some (t, e') \<and> x \<le> e'" if "lk_pending ?s t = Some (k, x)" "now < x" for t k x
      using that only_holder(2) [OF ok key, of t k x] by (cases "t = tok") auto
  qed
qed

lemma lock_op_ok:
  assumes ok: "lock_ok (lock_time ev) s" and pr: "prompt ev s"
  shows "lock_ok (lock_time ev) (lock_op ttl ev s)"
proof (cases ev)
  case (Acquire now reach tok)
  then show ?thesis using acquire_ok ok pr by simp
next
  case (RefreshExpire now tok)
  show ?thesis
  proof (cases "\<exists>e. lk_pending s tok = Some (Refreshing, e)")
    case True
    then show ?thesis using finish_refresh_ok ok pr RefreshExpire by auto
  next
    case False
    then have "finish_refresh ttl now tok s = s"
      by (auto simp: finish_refresh_def split: option.splits prod.splits pending.splits)
    then show ?thesis using ok RefreshExpire by simp
  qed
next
  case (ReleaseDel now tok)
  show ?thesis
  proof (cases "\<exists>e. lk_pending s tok = Some (Releasing, e)")
    case True
    then show ?thesis using finish_release_ok ok pr ReleaseDel by auto
  next
    case False
    then have "finish_release tok s = s"
      by (auto simp: finish_release_def split: option.splits prod.splits pending.splits)
    then show ?thesis using ok ReleaseDel by simp
  qed
next
  case (ReleaseFile now tok)
  then show ?thesis using ok by (simp add: release_file_def lock_ok_def)
qed (use ok check_owner_ok in simp_all)

lemma lock_fold_ok:
  "lock_ok t s \<Longrightarrow> sorted (t # map lock_time evs) \<Longrightarrow> all_prompt ttl evs s \<Longrightarrow> \<forall>ev \<in> set evs. lock_time ev \<le> now \<Longrightarrow> t \<le> now \<Longrightarrow>
   lock_ok now (fold (lock_op ttl) evs s)"
proof (induction evs arbitrary: t s)
  case Nil
  then show ?case using lock_ok_later by simp
next
  case (Cons ev evs)
  have "lock_ok (lock_time ev) (lock_op ttl ev s)"
    using lock_op_ok lock_ok_later [OF Cons.prems(1), of "lock_time ev"] Cons.prems(2,3) by simp
  then show ?case using Cons.IH [of "lock_time ev" "lock_op ttl ev s"] Cons.prems by simp
qed

text \<open>
  C33: At most one worker owns a background loop. In any history of acquisitions, refreshes and releases
  by any workers, interleaved between their Redis commands, as long as Redis is reached and each second
  command arrives before the expiry its check saw, no two workers may act as owners at the same time.
\<close>

theorem lock_exclusive:
  assumes "sorted (map lock_time evs)" and "all_prompt ttl evs no_lock" and "\<forall>ev \<in> set evs. lock_time ev \<le> now"
    and "owns now a (lock_run ttl evs)" and "owns now b (lock_run ttl evs)"
  shows "a = b"
proof -
  have "lock_ok (case evs of [] \<Rightarrow> now | ev # _ \<Rightarrow> lock_time ev) no_lock" by (simp add: lock_ok_def no_lock_def)
  then have ok: "lock_ok now (lock_run ttl evs)"
    unfolding lock_run_def by (rule lock_fold_ok) (use assms(1-3) in \<open>auto split: list.splits\<close>)
  have key: "\<exists>e. lk_key (lock_run ttl evs) = Some (t, e)" if own: "owns now t (lock_run ttl evs)" for t
  proof -
    have "lk_file (lock_run ttl evs) = None" using ok by (simp add: lock_ok_def)
    then obtain e where "lk_lease (lock_run ttl evs) t = Some e" "now < e"
      using own by (auto simp: owns_def split: option.splits)
    then show ?thesis using lease_key [OF ok] by blast
  qed
  show ?thesis using key [OF assms(4)] key [OF assms(5)] by auto
qed

theorem lock_exclusive_witness:
  "owns 100 ''a'' (lock_run 180 [Acquire 0 True ''a'', Acquire 1 True ''b'', RefreshGet 60 ''a'', RefreshExpire 61 ''a'']) \<and>
   \<not> owns 100 ''b'' (lock_run 180 [Acquire 0 True ''a'', Acquire 1 True ''b'', RefreshGet 60 ''a'', RefreshExpire 61 ''a''])"
proof -
  let ?evs = "[Acquire 0 True ''a'', Acquire 1 True ''b'', RefreshGet 60 ''a'', RefreshExpire 61 ''a'']"
  have a: "owns 100 ''a'' (lock_run 180 ?evs)" by code_simp
  have h: "sorted (map lock_time ?evs)" "all_prompt 180 ?evs no_lock" "\<forall>ev \<in> set ?evs. lock_time ev \<le> 100"
    by code_simp+
  have "\<not> owns 100 ''b'' (lock_run 180 ?evs)" using lock_exclusive [OF h a, of "''b''"] by auto
  with a show ?thesis by blast
qed

text \<open>
  The lock can have two owners. If a worker's key expires between the check and the \<open>EXPIRE\<close> of its
  refresh and another worker acquires the lock in between, the refresh still answers True and both are
  owners, the first on the second's key; and a worker that cannot reach Redis takes the lock file while
  another owns the Redis key.
\<close>

theorem lock_split_brain:
  assumes "a \<noteq> b" and "t1 \<le> t2" and "t2 < t1 + lock_ttl ttl" and "t1 + lock_ttl ttl \<le> t3" and "t3 \<le> t4" and "t4 < t3 + lock_ttl ttl"
  shows "owns t4 a (lock_run ttl [Acquire t1 True a, RefreshGet t2 a, Acquire t3 True b, RefreshExpire t4 a]) \<and>
    owns t4 b (lock_run ttl [Acquire t1 True a, RefreshGet t2 a, Acquire t3 True b, RefreshExpire t4 a]) \<and>
    owns t2 a (lock_run ttl [Acquire t1 True a, Acquire t2 False b]) \<and>
    owns t2 b (lock_run ttl [Acquire t1 True a, Acquire t2 False b])"
proof -
  have pos: "0 < lock_ttl ttl" by (simp add: lock_ttl_def)
  show ?thesis
    using assms pos
    by (auto simp: owns_def lock_run_def no_lock_def try_acquire_def check_owner_def finish_refresh_def live_key_def)
qed

theorem lock_split_brain_witness:
  "owns 181 ''a'' (lock_run 180 [Acquire 0 True ''a'', RefreshGet 179 ''a'', Acquire 180 True ''b'', RefreshExpire 181 ''a'']) \<and>
   owns 181 ''b'' (lock_run 180 [Acquire 0 True ''a'', RefreshGet 179 ''a'', Acquire 180 True ''b'', RefreshExpire 181 ''a''])"
  using lock_split_brain [of "''a''" "''b''" 0 179 180 180 181] by (simp add: lock_ttl_def)

end
