(* ===== verification/Unicode_Text.thy ===== *)
theory Unicode_Text
  imports Prelude
begin

text \<open>
  Text that may hold any character, for the alerting programs under \<open>ops/\<close>: a Python \<open>str\<close> as the list
  of its code points, with \<open>str.strip\<close>, \<open>bytes.decode(errors="replace")\<close> (UTF-8) and the fixed-point
  formats \<open>f"{x:.0f}"\<close> and \<open>f"{x:.1f}"\<close>, taken of the exact value and rounding ties to even.
\<close>

type_synonym unicode = "nat list"
type_synonym bytes = "nat list"

definition ascii :: "string \<Rightarrow> unicode" where
  "ascii s = map of_char s"

definition unicode_of_nat :: "nat \<Rightarrow> unicode" where
  "unicode_of_nat n = ascii (string_of_nat n)"

text \<open>\<open>str.isspace\<close>, which is also what the whitespace class of a \<open>str\<close> pattern matches.\<close>

definition u_space :: "nat \<Rightarrow> bool" where
  "u_space c \<longleftrightarrow> 9 \<le> c \<and> c \<le> 13 \<or> 28 \<le> c \<and> c \<le> 32 \<or> c = 0x85 \<or> c = 0xA0 \<or> c = 0x1680 \<or>
     0x2000 \<le> c \<and> c \<le> 0x200A \<or> c = 0x2028 \<or> c = 0x2029 \<or> c = 0x202F \<or> c = 0x205F \<or> c = 0x3000"

definition u_strip :: "unicode \<Rightarrow> unicode" where
  "u_strip s = rev (dropWhile u_space (rev (dropWhile u_space s)))"

fun u_join :: "unicode \<Rightarrow> unicode list \<Rightarrow> unicode" where
  "u_join sep [] = []"
| "u_join sep [x] = x"
| "u_join sep (x # y # xs) = x @ sep @ u_join sep (y # xs)"

text \<open>\<open>s[-n:]\<close> for a positive \<open>n\<close>.\<close>

definition last_chars :: "nat \<Rightarrow> unicode \<Rightarrow> unicode" where
  "last_chars n s = drop (length s - n) s"

lemma length_last_chars: "length (last_chars n s) \<le> n"
  by (simp add: last_chars_def)

lemma set_last_chars: "set (last_chars n s) \<subseteq> set s"
  by (simp add: last_chars_def set_drop_subset)

section \<open>UTF-8\<close>

definition is_cont :: "nat \<Rightarrow> bool" where
  "is_cont b \<longleftrightarrow> 0x80 \<le> b \<and> b \<le> 0xBF"

text \<open>
  The second bytes a lead byte allows: overlong forms, surrogates and code points above 0x10FFFF are
  malformed.
\<close>

definition second_ok :: "nat \<Rightarrow> nat \<Rightarrow> bool" where
  "second_ok lead b \<longleftrightarrow>
     (if lead = 0xE0 then 0xA0 \<le> b \<and> b \<le> 0xBF
      else if lead = 0xED then 0x80 \<le> b \<and> b \<le> 0x9F
      else if lead = 0xF0 then 0x90 \<le> b \<and> b \<le> 0xBF
      else if lead = 0xF4 then 0x80 \<le> b \<and> b \<le> 0x8F
      else is_cont b)"

definition replacement :: nat where "replacement = 0xFFFD"

text \<open>
  One code point: its value and how many bytes it took. A malformed sequence is one replacement
  character for the longest prefix that could have started a code point, at least one byte.
\<close>

fun utf8_step :: "bytes \<Rightarrow> nat \<times> nat" where
  "utf8_step [] = (replacement, 1)"
| "utf8_step (b # bs) =
     (if b < 0x80 then (b, 1)
      else if 0xC2 \<le> b \<and> b \<le> 0xDF then
        (case bs of
           c1 # _ \<Rightarrow> if is_cont c1 then ((b - 0xC0) * 64 + (c1 - 0x80), 2) else (replacement, 1)
         | [] \<Rightarrow> (replacement, 1))
      else if 0xE0 \<le> b \<and> b \<le> 0xEF then
        (case bs of
           c1 # r1 \<Rightarrow>
             if second_ok b c1 then
               (case r1 of
                  c2 # _ \<Rightarrow> if is_cont c2
                    then ((b - 0xE0) * 4096 + (c1 - 0x80) * 64 + (c2 - 0x80), 3) else (replacement, 2)
                | [] \<Rightarrow> (replacement, 2))
             else (replacement, 1)
         | [] \<Rightarrow> (replacement, 1))
      else if 0xF0 \<le> b \<and> b \<le> 0xF4 then
        (case bs of
           c1 # r1 \<Rightarrow>
             if second_ok b c1 then
               (case r1 of
                  c2 # r2 \<Rightarrow>
                    if is_cont c2 then
                      (case r2 of
                         c3 # _ \<Rightarrow> if is_cont c3
                           then ((b - 0xF0) * 262144 + (c1 - 0x80) * 4096 + (c2 - 0x80) * 64 + (c3 - 0x80), 4)
                           else (replacement, 3)
                       | [] \<Rightarrow> (replacement, 3))
                    else (replacement, 2)
                | [] \<Rightarrow> (replacement, 2))
             else (replacement, 1)
         | [] \<Rightarrow> (replacement, 1))
      else (replacement, 1))"

lemma utf8_step_pos: "0 < snd (utf8_step bs)"
  by (cases bs) (auto split: list.split)

function utf8_decode :: "bytes \<Rightarrow> unicode" where
  "utf8_decode bs =
     (if bs = [] then []
      else (case utf8_step bs of (c, n) \<Rightarrow> c # utf8_decode (drop n bs)))"
  by pat_completeness auto
termination
proof (relation "measure length", goal_cases)
  case (2 bs c n)
  then have "0 < n" using utf8_step_pos [of bs] by (metis snd_conv)
  with 2 show ?case by simp
qed simp

declare utf8_decode.simps [simp del]

lemma utf8_decode_Nil [simp]: "utf8_decode [] = []"
  by (simp add: utf8_decode.simps)

lemma utf8_decode_ascii: "list_all (\<lambda>b. b < 0x80) bs \<Longrightarrow> utf8_decode bs = bs"
proof (induction bs)
  case (Cons b bs)
  then show ?case using utf8_decode.simps [of "b # bs"] by simp
qed simp

section \<open>Fixed-point formats\<close>

definition round_half_even :: "rat \<Rightarrow> int" where
  "round_half_even x =
     (let f = \<lfloor>x\<rfloor>; r = x - of_int f in
      if r < 1 / 2 then f else if 1 / 2 < r then f + 1 else if even f then f else f + 1)"

definition format_0f :: "rat \<Rightarrow> unicode" where
  "format_0f x = ascii (string_of_int (round_half_even x))"

text \<open>Of a non-negative value (a load average).\<close>

definition format_1f :: "rat \<Rightarrow> unicode" where
  "format_1f x = (let n = nat (round_half_even (x * 10)) in
     unicode_of_nat (n div 10) @ ascii ''.'' @ unicode_of_nat (n mod 10))"

end
