(* ===== verification/Alert_Relay.thy ===== *)
theory Alert_Relay
  imports Unicode_Text "HOL-Library.AList"
begin

text \<open>
  The alert relay of \<open>ops/alert_relay/main.py\<close>: \<open>Relay\<close> decides which alerts go out (once per
  fingerprint in \<open>dedup_seconds\<close>, at most \<open>per_minute\<close> a minute) and the two POST routes check the
  caller's token, format the message and hand it to Telegram. The clock reading and Telegram's answer
  are arguments. The decision is compared with a reference that looks only at the history of alerts.
\<close>

section \<open>State\<close>

datatype alert_level = Error_Level | Warning_Level | Info_Level | Resolved_Level

record relay_config =
  telegram_chat_id :: string
  relay_token :: string
  gcp_webhook_token :: string

record seen =
  seen_sent_at :: monotonic
  seen_held :: nat

record relay =
  dedup_seconds :: monotonic
  per_minute :: nat
  seen_alerts :: "(string \<times> seen) list"
  sent_times :: "monotonic list"
  dropped_alerts :: nat

definition new_relay :: "monotonic \<Rightarrow> nat \<Rightarrow> relay" where
  "new_relay dedup n =
     \<lparr>dedup_seconds = dedup, per_minute = n, seen_alerts = [], sent_times = [], dropped_alerts = 0\<rparr>"

section \<open>Admission\<close>

definition take_slot :: "monotonic \<Rightarrow> relay \<Rightarrow> bool \<times> relay" where
  "take_slot now r =
     (let kept = dropWhile (\<lambda>t. 60 \<le> now - t) (sent_times r) in
      if per_minute r \<le> length kept then (False, r\<lparr>sent_times := kept\<rparr>)
      else (True, r\<lparr>sent_times := kept @ [now]\<rparr>))"

definition prune_seen :: "monotonic \<Rightarrow> relay \<Rightarrow> relay" where
  "prune_seen now r =
     (if length (seen_alerts r) < 500 then r
      else r\<lparr>seen_alerts := filter (\<lambda>e. now - 86400 < seen_sent_at (snd e)) (seen_alerts r)\<rparr>)"

definition lookup_seen :: "string option \<Rightarrow> relay \<Rightarrow> seen option" where
  "lookup_seen fp r = (if truthy fp then map_of (seen_alerts r) (the fp) else None)"

definition held_back :: "monotonic \<Rightarrow> alert_level \<Rightarrow> relay \<Rightarrow> seen option \<Rightarrow> bool" where
  "held_back now lv r seen =
     (case seen of
        None \<Rightarrow> False
      | Some s \<Rightarrow> lv \<noteq> Resolved_Level \<and> now - seen_sent_at s < dedup_seconds r)"

definition admit :: "monotonic \<Rightarrow> string option \<Rightarrow> alert_level \<Rightarrow> relay \<Rightarrow> (bool \<times> nat) \<times> relay" where
  "admit now fp lv r =
     (let seen = lookup_seen fp r in
      if held_back now lv r seen then
        ((False, 0),
         r\<lparr>seen_alerts := AList.update (the fp)
             ((the seen)\<lparr>seen_held := seen_held (the seen) + 1\<rparr>) (seen_alerts r)\<rparr>)
      else
        (case take_slot now r of
           (False, r1) \<Rightarrow> ((False, 0), r1\<lparr>dropped_alerts := dropped_alerts r1 + 1\<rparr>)
         | (True, r1) \<Rightarrow>
             ((True, case seen of None \<Rightarrow> 0 | Some s \<Rightarrow> seen_held s),
              if \<not> truthy fp then r1
              else if lv = Resolved_Level
              then r1\<lparr>seen_alerts := AList.delete (the fp) (seen_alerts r1)\<rparr>
              else prune_seen now (r1\<lparr>seen_alerts :=
                     AList.update (the fp) \<lparr>seen_sent_at = now, seen_held = 0\<rparr> (seen_alerts r1)\<rparr>))))"

definition take_dropped :: "relay \<Rightarrow> nat \<times> relay" where
  "take_dropped r = (dropped_alerts r, r\<lparr>dropped_alerts := 0\<rparr>)"

section \<open>Messages\<close>

definition telegram_limit :: nat where "telegram_limit = 4096"

definition icon :: "alert_level \<Rightarrow> unicode" where
  "icon lv = (case lv of
     Error_Level \<Rightarrow> [0x1F534] | Warning_Level \<Rightarrow> [0x1F7E0] | Info_Level \<Rightarrow> [0x1F535] | Resolved_Level \<Rightarrow> [0x2705])"

definition format_message ::
    "unicode \<Rightarrow> alert_level \<Rightarrow> unicode \<Rightarrow> unicode \<Rightarrow> nat \<Rightarrow> nat \<Rightarrow> unicode" where
  "format_message source lv title detail held dropped =
     (let ls = [u_strip (icon lv @ ascii '' ['' @ source @ ascii ''] '' @ title)] @
               (if held \<noteq> 0
                then [ascii ''(+'' @ unicode_of_nat held @ ascii '' more of these since the last alert)'']
                else []) @
               (if dropped \<noteq> 0
                then [ascii ''('' @ unicode_of_nat dropped @
                      ascii '' other alerts dropped: more than 20 a minute)'']
                else []) @
               (if detail \<noteq> [] then [detail] else []);
          msg = u_join [10] ls
      in if length msg \<le> telegram_limit then msg else take (telegram_limit - 1) msg @ [0x2026])"

text \<open>The fields of a Cloud Monitoring incident the relay reads.\<close>

record gcp_incident =
  inc_host :: "unicode option"
  inc_resource_display_name :: "unicode option"
  inc_policy_name :: "unicode option"
  inc_summary :: "unicode option"
  inc_url :: "unicode option"
  inc_state :: "string option"

definition or_text :: "unicode option \<Rightarrow> unicode \<Rightarrow> unicode" where
  "or_text a b = (case a of None \<Rightarrow> b | Some x \<Rightarrow> if x = [] then b else x)"

definition format_gcp_incident :: "gcp_incident \<Rightarrow> alert_level \<times> unicode \<times> unicode" where
  "format_gcp_incident inc =
     (let target = or_text (inc_host inc) (or_text (inc_resource_display_name inc) []);
          policy = or_text (inc_policy_name inc) (ascii ''Cloud Monitoring alert'');
          title = (if target \<noteq> [] then policy @ [32, 0x2014, 32] @ target else policy);
          detail = u_join [10] (filter (\<lambda>p. p \<noteq> [])
                     [or_text (inc_summary inc) [], or_text (inc_url inc) []])
      in if lower (case inc_state inc of None \<Rightarrow> [] | Some s \<Rightarrow> s) = ''closed''
         then (Resolved_Level, ascii ''Recovered: '' @ title, detail)
         else (Error_Level, title, detail))"

section \<open>Routes\<close>

definition check_token :: "relay_config \<Rightarrow> string \<Rightarrow> string \<Rightarrow> unit result" where
  "check_token cfg given expected =
     (if expected = [] then Inl (HTTPException 503 ''relay not configured'')
      else if given \<noteq> expected then Inl (HTTPException 401 ''bad token'')
      else if telegram_chat_id cfg = [] then Inl (HTTPException 503 ''relay not configured'')
      else Inr ())"

text \<open>
  The relay's state changes even when Telegram refuses the message, so the new state is returned
  beside the outcome; the third component is the message handed to Telegram, if any.
\<close>

definition deliver ::
    "(unicode \<Rightarrow> bool) \<Rightarrow> monotonic \<Rightarrow> unicode \<Rightarrow> alert_level \<Rightarrow> unicode \<Rightarrow> unicode \<Rightarrow> string option \<Rightarrow> relay \<Rightarrow>
     bool result \<times> unicode option \<times> relay" where
  "deliver send now source lv title detail fp r =
     (case admit now fp lv r of
        ((False, _), r1) \<Rightarrow> (Inr False, None, r1)
      | ((True, held), r1) \<Rightarrow>
          (case take_dropped r1 of
             (dropped, r2) \<Rightarrow>
               (let msg = format_message source lv title detail held dropped in
                (if send msg then Inr True else Inl (HTTPException 502 ''telegram send failed''),
                 Some msg, r2))))"

record alert_event =
  ev_source :: unicode
  ev_level :: alert_level
  ev_title :: unicode
  ev_detail :: unicode
  ev_fingerprint :: "string option"

definition event_route ::
    "relay_config \<Rightarrow> (unicode \<Rightarrow> bool) \<Rightarrow> monotonic \<Rightarrow> string \<Rightarrow> alert_event \<Rightarrow> relay \<Rightarrow>
     bool result \<times> unicode option \<times> relay" where
  "event_route cfg send now authorization body r =
     (case check_token cfg authorization
             (if relay_token cfg \<noteq> [] then ''Bearer '' @ relay_token cfg else []) of
        Inl e \<Rightarrow> (Inl e, None, r)
      | Inr _ \<Rightarrow> deliver send now (ev_source body) (ev_level body) (ev_title body) (ev_detail body)
                   (ev_fingerprint body) r)"

definition gcp_route ::
    "relay_config \<Rightarrow> (unicode \<Rightarrow> bool) \<Rightarrow> monotonic \<Rightarrow> string \<Rightarrow> gcp_incident \<Rightarrow> relay \<Rightarrow>
     bool result \<times> unicode option \<times> relay" where
  "gcp_route cfg send now token inc r =
     (case check_token cfg token (gcp_webhook_token cfg) of
        Inl e \<Rightarrow> (Inl e, None, r)
      | Inr _ \<Rightarrow>
          (case format_gcp_incident inc of
             (lv, title, detail) \<Rightarrow> deliver send now (ascii ''gcp'') lv title detail None r))"

section \<open>Reference: the history decides\<close>

text \<open>
  A history lists the alerts newest first, each with whether it went out. An alert goes out exactly
  when its fingerprint did not go out within the deduplication time (a resolution forgets it) and
  fewer than \<open>per_minute\<close> alerts went out in the last 60 seconds; a resolution skips the first test.
\<close>

type_synonym alert = "monotonic \<times> string option \<times> alert_level"

fun sent_within :: "monotonic \<Rightarrow> (alert \<times> bool) list \<Rightarrow> nat" where
  "sent_within now [] = 0"
| "sent_within now (((t, fp, lv), ok) # h) =
     (if ok \<and> now - t < 60 then Suc (sent_within now h) else sent_within now h)"

fun last_sent :: "string \<Rightarrow> (alert \<times> bool) list \<Rightarrow> monotonic option" where
  "last_sent k [] = None"
| "last_sent k (((t, fp, lv), ok) # h) =
     (if ok \<and> fp = Some k then (if lv = Resolved_Level then None else Some t) else last_sent k h)"

definition repeats :: "monotonic \<Rightarrow> alert \<Rightarrow> (alert \<times> bool) list \<Rightarrow> bool" where
  "repeats dedup a h =
     (case a of (t, fp, lv) \<Rightarrow>
        truthy fp \<and> lv \<noteq> Resolved_Level \<and>
        (case last_sent (the fp) h of None \<Rightarrow> False | Some t0 \<Rightarrow> t - t0 < dedup))"

fun reference_log :: "monotonic \<Rightarrow> nat \<Rightarrow> alert list \<Rightarrow> (alert \<times> bool) list" where
  "reference_log dedup n [] = []"
| "reference_log dedup n (a # as) =
     (let h = reference_log dedup n as in
      (a, \<not> repeats dedup a h \<and> sent_within (fst a) h < n) # h)"

text \<open>What the relay itself does with the same alerts (newest first).\<close>

fun relay_log :: "alert list \<Rightarrow> relay \<Rightarrow> (alert \<times> bool) list \<times> relay" where
  "relay_log [] r = ([], r)"
| "relay_log ((t, fp, lv) # as) r =
     (case relay_log as r of
        (h, r1) \<Rightarrow> (case admit t fp lv r1 of ((ok, _), r2) \<Rightarrow> (((t, fp, lv), ok) # h, r2)))"

definition newest_first :: "alert list \<Rightarrow> bool" where
  "newest_first as \<longleftrightarrow> sorted (rev (map fst as))"

section \<open>The relay follows the reference\<close>

lemma take_slot_simps [simp]:
  "dedup_seconds (snd (take_slot now r)) = dedup_seconds r"
  "per_minute (snd (take_slot now r)) = per_minute r"
  "seen_alerts (snd (take_slot now r)) = seen_alerts r"
  by (simp_all add: take_slot_def Let_def)

lemma prune_seen_simps [simp]:
  "dedup_seconds (prune_seen now r) = dedup_seconds r"
  "per_minute (prune_seen now r) = per_minute r"
  "sent_times (prune_seen now r) = sent_times r"
  by (simp_all add: prune_seen_def)

text \<open>A minute's sends are the fresh suffix of the queue, which is kept in order.\<close>

lemma dropWhile_sorted:
  fixes xs :: "rat list"
  shows "sorted xs \<Longrightarrow> dropWhile (\<lambda>t. c \<le> now - t) xs = filter (\<lambda>t. now - t < c) xs"
proof (induction xs)
  case (Cons x xs)
  then have "filter (\<lambda>t. now - t < c) xs = xs" if "now - x < c"
    using that by (intro filter_True) force
  with Cons show ?case by auto
qed simp

definition times_ok :: "monotonic \<Rightarrow> (alert \<times> bool) list \<Rightarrow> monotonic list \<Rightarrow> bool" where
  "times_ok now h ts \<longleftrightarrow>
     sorted ts \<and> (\<forall>t \<in> set ts. t \<le> now) \<and>
     (\<forall>now' \<ge> now. length (filter (\<lambda>t. now' - t < 60) ts) = sent_within now' h)"

text \<open>
  An entry of the table matters while it is younger than \<open>dedup_seconds\<close>; pruning forgets entries a day
  old only, so a deduplication time of up to a day is kept exactly.
\<close>

definition fresh_entry :: "monotonic \<Rightarrow> monotonic \<Rightarrow> (string \<times> seen) list \<Rightarrow> string \<Rightarrow> bool" where
  "fresh_entry dedup now al k =
     (case map_of al k of None \<Rightarrow> False | Some s \<Rightarrow> now - seen_sent_at s < dedup)"

definition fresh_send :: "monotonic \<Rightarrow> monotonic \<Rightarrow> (alert \<times> bool) list \<Rightarrow> string \<Rightarrow> bool" where
  "fresh_send dedup now h k =
     (case last_sent k h of None \<Rightarrow> False | Some t \<Rightarrow> now - t < dedup)"

definition seen_ok :: "monotonic \<Rightarrow> monotonic \<Rightarrow> (alert \<times> bool) list \<Rightarrow> (string \<times> seen) list \<Rightarrow> bool" where
  "seen_ok dedup now h al \<longleftrightarrow>
     distinct (map fst al) \<and>
     (\<forall>k. k \<noteq> [] \<longrightarrow> (\<forall>now' \<ge> now. fresh_entry dedup now' al k = fresh_send dedup now' h k))"

definition follows :: "monotonic \<Rightarrow> nat \<Rightarrow> monotonic \<Rightarrow> (alert \<times> bool) list \<Rightarrow> relay \<Rightarrow> bool" where
  "follows dedup n now h r \<longleftrightarrow>
     dedup_seconds r = dedup \<and> per_minute r = n \<and>
     times_ok now h (sent_times r) \<and> seen_ok dedup now h (seen_alerts r)"

lemma times_okD:
  assumes "times_ok now0 h ts" and "now0 \<le> now"
  shows "dropWhile (\<lambda>t. 60 \<le> now - t) ts = filter (\<lambda>t. now - t < 60) ts"
    and "length (dropWhile (\<lambda>t. 60 \<le> now - t) ts) = sent_within now h"
  using assms dropWhile_sorted [of ts 60 now] by (simp_all add: times_ok_def)

lemma sent_within_filter:
  "now \<le> now' \<Longrightarrow>
   filter (\<lambda>t. now' - t < 60) (filter (\<lambda>t. now - t < 60) ts) = filter (\<lambda>t::rat. now' - t < 60) ts"
  by (induction ts) auto

lemma times_ok_unsent:
  assumes "times_ok now0 h ts" and "now0 \<le> now"
  shows "times_ok now ((a, False) # h) ts"
    and "times_ok now ((a, False) # h) (dropWhile (\<lambda>t. 60 \<le> now - t) ts)"
proof -
  obtain t fp lv where a: "a = (t, fp, lv)" by (cases a)
  show "times_ok now ((a, False) # h) ts" using assms by (force simp: a times_ok_def)
  show "times_ok now ((a, False) # h) (dropWhile (\<lambda>t. 60 \<le> now - t) ts)"
    unfolding times_okD(1) [OF assms] using assms
    by (auto simp: a times_ok_def sorted_filter [of "\<lambda>x. x", simplified] sent_within_filter
        simp del: filter_filter)
qed

lemma times_ok_sent:
  assumes "times_ok now0 h ts" and "now0 \<le> now"
  shows "times_ok now (((now, fp, lv), True) # h) (dropWhile (\<lambda>t. 60 \<le> now - t) ts @ [now])"
  unfolding times_okD(1) [OF assms] using assms
  by (auto simp: times_ok_def sorted_append sorted_filter [of "\<lambda>x. x", simplified] sent_within_filter
      simp del: filter_filter)

lemma map_of_filter_snd:
  "distinct (map fst al) \<Longrightarrow>
   map_of (filter (\<lambda>e. P (snd e)) al) k =
     (case map_of al k of None \<Rightarrow> None | Some v \<Rightarrow> if P v then Some v else None)"
proof (induction al)
  case (Cons e al)
  then have "map_of al (fst e) = None" by (simp add: map_of_eq_None_iff)
  with Cons show ?case by (cases e) auto
qed simp

lemma fresh_send_simps [simp]:
  "fresh_send dedup now ((a, False) # h) k = fresh_send dedup now h k"
  "fresh_send dedup now (((t, fp, lv), True) # h) k =
     (if fp = Some k then lv \<noteq> Resolved_Level \<and> now - t < dedup else fresh_send dedup now h k)"
  by (cases a, auto simp: fresh_send_def split: option.split)

lemma fresh_entry_update:
  "fresh_entry dedup now (AList.update k s al) k' =
     (if k' = k then now - seen_sent_at s < dedup else fresh_entry dedup now al k')"
  by (auto simp: fresh_entry_def update_conv')

lemma fresh_entry_delete:
  "fresh_entry dedup now (AList.delete k al) k' = (k' \<noteq> k \<and> fresh_entry dedup now al k')"
  by (auto simp: fresh_entry_def delete_conv')

lemma seen_ok_unsent:
  "seen_ok dedup now0 h al \<Longrightarrow> now0 \<le> now \<Longrightarrow> seen_ok dedup now ((a, False) # h) al"
  by (auto simp: seen_ok_def)

lemma seen_ok_held:
  assumes "seen_ok dedup now0 h al" and "now0 \<le> now" and "map_of al k = Some s"
  shows "seen_ok dedup now ((a, False) # h) (AList.update k (s\<lparr>seen_held := m\<rparr>) al)"
proof -
  have "fresh_entry dedup now' (AList.update k (s\<lparr>seen_held := m\<rparr>) al) k' = fresh_entry dedup now' al k'"
    for k' now'
    using assms(3) by (simp add: fresh_entry_update) (simp add: fresh_entry_def)
  then show ?thesis using assms(1,2) by (simp add: seen_ok_def distinct_update)
qed

lemma seen_ok_resolved:
  assumes "seen_ok dedup now0 h al" and "now0 \<le> now"
  shows "seen_ok dedup now (((now, Some k, Resolved_Level), True) # h) (AList.delete k al)"
  using assms by (auto simp: seen_ok_def distinct_delete fresh_entry_delete)

lemma seen_ok_sent:
  assumes "seen_ok dedup now0 h al" and "now0 \<le> now" and "lv \<noteq> Resolved_Level"
  shows "seen_ok dedup now (((now, Some k, lv), True) # h)
           (AList.update k \<lparr>seen_sent_at = now, seen_held = 0\<rparr> al)"
  using assms by (auto simp: seen_ok_def distinct_update fresh_entry_update)

lemma seen_ok_anonymous:
  assumes "seen_ok dedup now0 h al" and "now0 \<le> now" and "\<not> truthy fp"
  shows "seen_ok dedup now (((now, fp, lv), True) # h) al"
  using assms by (cases fp) (auto simp: seen_ok_def)

lemma seen_ok_prune:
  assumes "seen_ok dedup now h (seen_alerts r)" and "dedup \<le> 86400"
  shows "seen_ok dedup now h (seen_alerts (prune_seen now r))"
proof -
  have "fresh_entry dedup now' (filter (\<lambda>e. now - 86400 < seen_sent_at (snd e)) (seen_alerts r)) k =
        fresh_entry dedup now' (seen_alerts r) k" if "now \<le> now'" for k now'
    using that assms map_of_filter_snd [of "seen_alerts r" "\<lambda>s. now - 86400 < seen_sent_at s" k]
    by (auto simp: seen_ok_def fresh_entry_def split: option.split)
  then show ?thesis using assms
    by (auto simp: seen_ok_def prune_seen_def distinct_map_filter)
qed

lemma held_back_iff:
  assumes "follows dedup n now0 h r" and "now0 \<le> now"
  shows "held_back now lv r (lookup_seen fp r) \<longleftrightarrow> repeats dedup (now, fp, lv) h"
proof (cases "truthy fp")
  case True
  then obtain k where k: "fp = Some k" "k \<noteq> []" by (cases fp) auto
  have "fresh_entry dedup now (seen_alerts r) k = fresh_send dedup now h k"
    using assms k by (simp add: follows_def seen_ok_def)
  then show ?thesis using assms k
    by (auto simp: held_back_def lookup_seen_def repeats_def follows_def fresh_entry_def fresh_send_def
        split: option.splits)
qed (simp add: held_back_def lookup_seen_def repeats_def)

lemma admit_follows:
  assumes "follows dedup n now0 h r" and "now0 \<le> now" and "dedup \<le> 86400"
    and "admit now fp lv r = ((ok, held), r')"
  shows "ok \<longleftrightarrow> \<not> repeats dedup (now, fp, lv) h \<and> sent_within now h < n" (is ?dec)
    and "follows dedup n now (((now, fp, lv), ok) # h) r'" (is ?fol)
proof -
  have r: "dedup_seconds r = dedup" "per_minute r = n"
    and ts: "times_ok now0 h (sent_times r)" and al: "seen_ok dedup now0 h (seen_alerts r)"
    using assms(1) by (simp_all add: follows_def)
  note hb = held_back_iff [OF assms(1,2), of lv fp]
  note len = times_okD(2) [OF ts assms(2)]
  show ?dec using assms(4) hb len r(2)
    by (auto simp: admit_def Let_def take_slot_def split: if_splits prod.splits bool.splits)
  show ?fol
  proof (cases "repeats dedup (now, fp, lv) h")
    case True
    then obtain k s where k: "fp = Some k" "map_of (seen_alerts r) k = Some s" "k \<noteq> []"
      using hb by (cases fp) (auto simp: held_back_def lookup_seen_def split: option.splits if_splits)
    show ?thesis using assms(4) True hb k r times_ok_unsent(1) [OF ts assms(2)]
      seen_ok_held [OF al assms(2) k(2)]
      by (auto simp: admit_def follows_def lookup_seen_def split: if_splits)
  next
    case False
    then have nb: "\<not> held_back now lv r (lookup_seen fp r)" using hb by simp
    show ?thesis
    proof (cases "sent_within now h < n")
      case False
      then show ?thesis using assms(4) nb len r times_ok_unsent(2) [OF ts assms(2)]
        seen_ok_unsent [OF al assms(2)]
        by (auto simp: admit_def take_slot_def follows_def)
    next
      case True
      define kept where "kept = dropWhile (\<lambda>t. 60 \<le> now - t) (sent_times r) @ [now]"
      let ?r1 = "r\<lparr>sent_times := kept\<rparr>"
      have slot: "take_slot now r = (True, ?r1)" using True len r(2) by (simp add: take_slot_def kept_def)
      have t1: "times_ok now (((now, fp, lv), True) # h) kept"
        unfolding kept_def by (rule times_ok_sent [OF ts assms(2)])
      have ok: "ok = True" and r': "r' =
          (if \<not> truthy fp then ?r1
           else if lv = Resolved_Level then ?r1\<lparr>seen_alerts := AList.delete (the fp) (seen_alerts ?r1)\<rparr>
           else prune_seen now (?r1\<lparr>seen_alerts :=
                  AList.update (the fp) \<lparr>seen_sent_at = now, seen_held = 0\<rparr> (seen_alerts ?r1)\<rparr>))"
        using assms(4) nb slot by (auto simp: admit_def)
      have "seen_ok dedup now (((now, fp, lv), True) # h) (seen_alerts r')"
      proof (cases "truthy fp")
        case False
        then show ?thesis using r' seen_ok_anonymous [OF al assms(2)] by simp
      next
        case t: True
        then obtain k where k: "fp = Some k" by (cases fp) auto
        show ?thesis
        proof (cases "lv = Resolved_Level")
          case True
          then show ?thesis using r' t k seen_ok_resolved [OF al assms(2), of k] by simp
        next
          case False
          then show ?thesis using r' t k
            seen_ok_prune [OF _ assms(3), of now "((now, fp, lv), True) # h"] seen_ok_sent [OF al assms(2), of lv k]
            by simp
        qed
      qed
      moreover have "sent_times r' = kept" "dedup_seconds r' = dedup" "per_minute r' = n"
        unfolding r' using r by simp_all
      ultimately show ?thesis using ok t1 by (simp add: follows_def)
    qed
  qed
qed

lemma relay_log_alerts: "map fst (fst (relay_log as r)) = as"
  by (induction as r rule: relay_log.induct) (auto split: prod.splits)

lemma newest_first_Cons:
  "newest_first (a # as) \<longleftrightarrow> newest_first as \<and> (\<forall>b \<in> set as. fst b \<le> fst a)"
  by (auto simp: newest_first_def sorted_append)

lemma follows_new: "follows dedup n now [] (new_relay dedup n)"
  by (simp add: follows_def new_relay_def times_ok_def seen_ok_def fresh_entry_def fresh_send_def)

definition latest :: "alert list \<Rightarrow> monotonic" where
  "latest as = (case as of [] \<Rightarrow> 0 | a # _ \<Rightarrow> fst a)"

lemma relay_follows:
  assumes "dedup \<le> 86400"
  shows "newest_first as \<Longrightarrow>
    fst (relay_log as (new_relay dedup n)) = reference_log dedup n as \<and>
    follows dedup n (latest as) (reference_log dedup n as) (snd (relay_log as (new_relay dedup n)))"
proof (induction as)
  case Nil
  show ?case by (simp add: follows_new)
next
  case (Cons a as)
  obtain t fp lv where a: "a = (t, fp, lv)" by (cases a)
  obtain h r1 where l: "relay_log as (new_relay dedup n) = (h, r1)" by fastforce
  obtain ok held r2 where ad: "admit t fp lv r1 = ((ok, held), r2)" by (metis prod.exhaust)
  have h: "h = reference_log dedup n as" and fol: "follows dedup n (latest as) h r1"
    using Cons l by (simp_all add: newest_first_Cons)
  have "follows dedup n t h r1 \<or> latest as \<le> t"
    using follows_new [of dedup n t] l Cons.prems by (cases as) (auto simp: newest_first_Cons latest_def a)
  then obtain now0 where "follows dedup n now0 h r1" and "now0 \<le> t" using fol by blast
  note step = admit_follows [OF this assms ad]
  show ?case using step l ad h by (simp add: a latest_def Let_def)
qed

definition sent_in_window :: "monotonic \<Rightarrow> (alert \<times> bool) list \<Rightarrow> nat" where
  "sent_in_window t0 h = length (filter (\<lambda>e. snd e \<and> t0 \<le> fst (fst e) \<and> fst (fst e) < t0 + 60) h)"

lemma sent_in_window_le: "t < t0 + 60 \<Longrightarrow> sent_in_window t0 h \<le> sent_within t h"
  by (induction t h rule: sent_within.induct) (auto simp: sent_in_window_def)

lemma reference_rate: "sent_in_window t0 (reference_log dedup n as) \<le> n"
proof (induction as)
  case (Cons a as)
  let ?h = "reference_log dedup n as"
  have "sent_in_window t0 ?h < n" if "sent_within (fst a) ?h < n" "fst a < t0 + 60"
    using that sent_in_window_le [of "fst a" t0 ?h] by simp
  with Cons show ?case by (auto simp: sent_in_window_def Let_def)
qed (simp add: sent_in_window_def)

lemma format_message_bound: "length (format_message source lv title detail held dropped) \<le> telegram_limit"
  by (simp add: format_message_def Let_def telegram_limit_def)

lemma deliver_cases:
  "deliver send now source lv title detail fp r =
     (let a = admit now fp lv r;
          msg = format_message source lv title detail (snd (fst a)) (dropped_alerts (snd a)) in
      if fst (fst a)
      then (if send msg then Inr True else Inl (HTTPException 502 ''telegram send failed''), Some msg,
            (snd a)\<lparr>dropped_alerts := 0\<rparr>)
      else (Inr False, None, snd a))"
  by (auto simp: deliver_def take_dropped_def Let_def split: prod.split bool.split)

section \<open>Properties\<close>



text \<open>
  However many alerts arrive, no 60-second window sees more than \<open>per_minute\<close> of them go out, and
  every message handed to Telegram fits its limit of 4096 characters.
\<close>

theorem relay_rate_bounded:
  assumes "newest_first as" and "dedup \<le> 86400"
  shows "sent_in_window t0 (fst (relay_log as (new_relay dedup n))) \<le> n \<and>
         (fst (snd (deliver send now source lv title detail fp r)) = Some msg \<longrightarrow> length msg \<le> 4096)"
  using relay_follows [OF assms(2,1), of n] reference_rate [of t0 dedup n as]
    format_message_bound [unfolded telegram_limit_def]
  by (auto simp: deliver_cases Let_def)

theorem relay_rate_bounded_witness:
  "sent_in_window 0 (fst (relay_log [(61, None, Info_Level), (40, None, Info_Level),
     (10, None, Info_Level), (0, None, Info_Level)] (new_relay 600 2))) \<le> 2"
  using relay_rate_bounded
    [of "[(61, None, Info_Level), (40, None, Info_Level), (10, None, Info_Level), (0, None, Info_Level)]"
        600 0 2]
  by (simp add: newest_first_def)

text \<open>
  Only a caller that knows the configured token moves the relay: without it (or with no token
  configured) the answer is 401 or 503, nothing goes to Telegram and no alert is recorded, so nobody can
  use up the minute's sends or silence a fingerprint.
\<close>

theorem relay_needs_token:
  assumes "relay_token cfg = [] \<or> authorization \<noteq> ''Bearer '' @ relay_token cfg"
    and "gcp_webhook_token cfg = [] \<or> token \<noteq> gcp_webhook_token cfg"
  shows "(\<exists>e. event_route cfg send now authorization body r = (Inl e, None, r) \<and> status_code e \<in> {401, 503}) \<and>
         (\<exists>e. gcp_route cfg send now token inc r = (Inl e, None, r) \<and> status_code e \<in> {401, 503})"
  using assms by (auto simp: event_route_def gcp_route_def check_token_def)

theorem relay_needs_token_witness:
  "event_route \<lparr>telegram_chat_id = ''c'', relay_token = ''s3cret'', gcp_webhook_token = ''g''\<rparr> (\<lambda>_. True) 0 ''Bearer guess''
     \<lparr>ev_source = [], ev_level = Error_Level, ev_title = [], ev_detail = [], ev_fingerprint = None\<rparr>
     (new_relay 600 20) = (Inl (HTTPException 401 ''bad token''), None, new_relay 600 20)"
proof -
  let ?cfg = "\<lparr>telegram_chat_id = ''c'', relay_token = ''s3cret'', gcp_webhook_token = ''g''\<rparr>"
  let ?b = "\<lparr>ev_source = [], ev_level = Error_Level, ev_title = [], ev_detail = [], ev_fingerprint = None\<rparr>"
  have "\<exists>e. event_route ?cfg (\<lambda>_. True) 0 ''Bearer guess'' ?b (new_relay 600 20) = (Inl e, None, new_relay 600 20)"
    using relay_needs_token [of ?cfg "''Bearer guess''" "''x''" "\<lambda>_. True" 0 ?b "new_relay 600 20"] by auto
  then show ?thesis by (simp add: event_route_def check_token_def)
qed

section \<open>Failed sends\<close>

text \<open>
  An alert Telegram refused counts as sent: its repeats are held back for the deduplication time, so
  the chat may first hear of the problem ten minutes later.
\<close>

lemma length_alist_update: "length (AList.update k v al) \<le> Suc (length al)"
  by (induction al) auto

lemma failed_send_silences:
  assumes "deliver (\<lambda>_. False) t0 source lv title detail (Some k) r = (Inl e, Some msg, r1)"
    and "k \<noteq> []" and "lv \<noteq> Resolved_Level" and "length (seen_alerts r) < 499"
    and "t - t0 < dedup_seconds r"
  shows "fst (deliver send t source lv title detail (Some k) r1) = Inr False"
proof -
  have adm: "fst (fst (admit t0 (Some k) lv r))" and r1: "r1 = (snd (admit t0 (Some k) lv r))\<lparr>dropped_alerts := 0\<rparr>"
    using assms(1) by (auto simp: deliver_cases Let_def split: if_splits)
  have nb: "\<not> held_back t0 lv r (lookup_seen (Some k) r)"
    using adm by (auto simp: admit_def Let_def)
  obtain b r0 where sl: "take_slot t0 r = (b, r0)" by fastforce
  have "seen_alerts r0 = seen_alerts r" "dedup_seconds r0 = dedup_seconds r" and "b"
    using sl take_slot_simps [of t0 r] adm nb by (auto simp: admit_def Let_def split: bool.splits)
  moreover have "length (AList.update k v (seen_alerts r)) < 500" for v
    using assms(4) length_alist_update [of k v "seen_alerts r"] by simp
  ultimately have "map_of (seen_alerts r1) k = Some \<lparr>seen_sent_at = t0, seen_held = 0\<rparr> \<and> dedup_seconds r1 = dedup_seconds r"
    using nb sl assms(2,3) by (simp add: r1 admit_def Let_def prune_seen_def update_conv')
  then have "held_back t lv r1 (lookup_seen (Some k) r1)"
    using assms(2,3,5) by (simp add: held_back_def lookup_seen_def)
  then show ?thesis by (simp add: deliver_cases admit_def Let_def)
qed

end
