(* ===== verification/Watchdog.thy ===== *)
theory Watchdog
  imports Alert_Relay Playlists
begin

text \<open>
  The host and container watchdog of \<open>ops/watchdog/watchdog.py\<close>: the debounced conditions behind every
  periodic check, the Docker event handler, and the readers of Docker's log stream and of
  \<open>/proc/meminfo\<close>. What the watchdog observes (Docker's replies, disk usage, load, the clock) is an
  argument; what it reports is the list of alerts it hands to the relay. \<open>send\<close> swallows connection
  errors, so handing over an alert never fails here.
\<close>

section \<open>Docker log frames\<close>

text \<open>Frames of eight header bytes (stream, three zeros, big-endian length) and the payload.\<close>

definition be_value :: "bytes \<Rightarrow> nat" where
  "be_value bs = foldl (\<lambda>v b. v * 256 + b) 0 bs"

definition frame_ahead :: "bytes \<Rightarrow> bool" where
  "frame_ahead raw \<longleftrightarrow> 8 \<le> length raw \<and> raw ! 0 \<in> {0, 1, 2} \<and> take 3 (drop 1 raw) = [0, 0, 0]"

function demux_frames :: "bytes \<Rightarrow> bytes" where
  "demux_frames raw =
     (if frame_ahead raw
      then (let n = be_value (take 4 (drop 4 raw)) in
            take n (drop 8 raw) @ demux_frames (drop (8 + n) raw))
      else [])"
  by pat_completeness auto
termination
  by (relation "measure length") (auto simp: frame_ahead_def)

declare demux_frames.simps [simp del]

definition demux_logs :: "bytes \<Rightarrow> unicode" where
  "demux_logs raw = utf8_decode (if frame_ahead raw then demux_frames raw else raw)"

section \<open>Redaction\<close>

text \<open>
  \<open>_QUERY\<close> replaces a question mark and everything up to white space or a quote, \<open>_BEARER\<close> the word
  after \<open>bearer\<close> in any case. \<open>is_word\<close> says which characters outside ASCII Python counts as word
  characters, an argument.
\<close>

definition ellipsis :: nat where "ellipsis = 0x2026"

definition ends_query :: "nat \<Rightarrow> bool" where
  "ends_query c \<longleftrightarrow> u_space c \<or> c = 34 \<or> c = 39"

fun redact_query :: "bool \<Rightarrow> unicode \<Rightarrow> unicode" where
  "redact_query inside [] = []"
| "redact_query inside (c # cs) =
     (if inside \<and> \<not> ends_query c then redact_query True cs
      else if c = 63 then [63, ellipsis] @ redact_query True cs
      else c # redact_query False cs)"

definition token_char :: "(nat \<Rightarrow> bool) \<Rightarrow> nat \<Rightarrow> bool" where
  "token_char is_word c \<longleftrightarrow>
     48 \<le> c \<and> c \<le> 57 \<or> 65 \<le> c \<and> c \<le> 90 \<or> 97 \<le> c \<and> c \<le> 122 \<or> c = 95 \<or>
     128 \<le> c \<and> is_word c \<or> c \<in> set (ascii ''.~+/=-'')"

definition ascii_lower :: "nat \<Rightarrow> nat" where
  "ascii_lower c = (if 65 \<le> c \<and> c \<le> 90 then c + 32 else c)"

text \<open>What follows a match of \<open>_BEARER\<close> at the start of the text.\<close>

definition match_bearer :: "(nat \<Rightarrow> bool) \<Rightarrow> unicode \<Rightarrow> unicode option" where
  "match_bearer is_word s =
     (let rest = drop 6 s; arg = dropWhile u_space rest in
      if map ascii_lower (take 6 s) = ascii ''bearer'' \<and> rest \<noteq> arg \<and> arg \<noteq> [] \<and> token_char is_word (hd arg)
      then Some (dropWhile (token_char is_word) arg) else None)"

lemma match_bearer_shorter: "match_bearer is_word s = Some t \<Longrightarrow> length t < length s"
proof -
  assume m: "match_bearer is_word s = Some t"
  then have t: "t = dropWhile (token_char is_word) (dropWhile u_space (drop 6 s))" and "drop 6 s \<noteq> []"
    by (auto simp: match_bearer_def Let_def split: if_splits)
  have "length t \<le> length (dropWhile u_space (drop 6 s))" unfolding t by (rule length_dropWhile_le)
  also have "\<dots> \<le> length (drop 6 s)" by (rule length_dropWhile_le)
  finally show ?thesis using \<open>drop 6 s \<noteq> []\<close> by simp
qed

function redact_bearer :: "(nat \<Rightarrow> bool) \<Rightarrow> unicode \<Rightarrow> unicode" where
  "redact_bearer is_word [] = []"
| "redact_bearer is_word (c # cs) =
     (case match_bearer is_word (c # cs) of
        Some rest \<Rightarrow> ascii ''Bearer '' @ [ellipsis] @ redact_bearer is_word rest
      | None \<Rightarrow> c # redact_bearer is_word cs)"
  by pat_completeness auto
termination
  by (relation "measure (\<lambda>(_, s). length s)") (auto dest: match_bearer_shorter)

definition redact :: "(nat \<Rightarrow> bool) \<Rightarrow> unicode \<Rightarrow> unicode" where
  "redact is_word s = redact_bearer is_word (redact_query False s)"

definition log_tail_chars :: nat where "log_tail_chars = 1800"

text \<open>Docker's answer is the status and the body; \<open>None\<close> where the call raises.\<close>

definition container_log_tail :: "(nat \<Rightarrow> bool) \<Rightarrow> (nat \<times> bytes) option \<Rightarrow> unicode option" where
  "container_log_tail is_word reply =
     (case reply of
        None \<Rightarrow> None
      | Some (status, raw) \<Rightarrow>
          Some (if status \<noteq> 200 then []
                else last_chars log_tail_chars (redact is_word (u_strip (demux_logs raw)))))"

section \<open>Conditions\<close>

datatype change = Fire | Resolve

record condition =
  needed :: nat
  bad_streak :: nat
  active :: bool

definition new_condition :: "nat \<Rightarrow> condition" where
  "new_condition n = \<lparr>needed = n, bad_streak = 0, active = False\<rparr>"

definition update_condition :: "bool \<Rightarrow> condition \<Rightarrow> change option \<times> condition" where
  "update_condition bad c =
     (if bad then
        (let c1 = c\<lparr>bad_streak := bad_streak c + 1\<rparr> in
         if \<not> active c1 \<and> needed c1 \<le> bad_streak c1 then (Some Fire, c1\<lparr>active := True\<rparr>)
         else (None, c1))
      else
        (let c1 = c\<lparr>bad_streak := 0\<rparr> in
         if active c1 then (Some Resolve, c1\<lparr>active := False\<rparr>) else (None, c1)))"

definition is_crash :: "int \<Rightarrow> monotonic \<Rightarrow> monotonic option \<Rightarrow> bool" where
  "is_crash exit_code now stopped =
     (exit_code \<noteq> 0 \<and> (case stopped of None \<Rightarrow> True | Some t \<Rightarrow> 60 < now - t))"

section \<open>Memory\<close>

text \<open>\<open>int(s)\<close> of an ASCII word: an optional sign and digits, single underscores between them.\<close>

fun digits_value :: "nat \<Rightarrow> string \<Rightarrow> nat option" where
  "digits_value v [] = Some v"
| "digits_value v (c # cs) =
     (if is_digit c then digits_value (v * 10 + (of_char c - 48)) cs
      else if c = CHR ''_'' \<and> cs \<noteq> [] \<and> is_digit (hd cs) then digits_value v cs
      else None)"

definition py_int :: "string \<Rightarrow> int option" where
  "py_int s =
     (let neg = starts_with ''-'' s; ds = (if neg \<or> starts_with ''+'' s then tl s else s) in
      if ds = [] \<or> \<not> is_digit (hd ds) then None
      else map_option (\<lambda>n. if neg then - int n else int n) (digits_value 0 ds))"

definition mem_entry :: "string \<Rightarrow> (string \<times> int) option" where
  "mem_entry line =
     (let key = takeWhile (\<lambda>c. c \<noteq> CHR '':'') line;
          rest = lstrip (tl (dropWhile (\<lambda>c. c \<noteq> CHR '':'') line @ '' ''))
      in if rest = [] then Some (key, 0)
         else map_option (Pair key) (py_int (takeWhile (\<lambda>c. \<not> is_space c) rest)))"

fun mem_values :: "string list \<Rightarrow> (string \<rightharpoonup> int) \<Rightarrow> (string \<rightharpoonup> int) option" where
  "mem_values [] m = Some m"
| "mem_values (l # ls) m =
     (case mem_entry l of None \<Rightarrow> None | Some (k, v) \<Rightarrow> mem_values ls (m(k \<mapsto> v)))"

definition memory_used_percent :: "string \<Rightarrow> rat option" where
  "memory_used_percent meminfo =
     map_option
       (\<lambda>m. let tot = (case m ''MemTotal'' of None \<Rightarrow> 0 | Some v \<Rightarrow> v);
                avail = (case m ''MemAvailable'' of None \<Rightarrow> tot | Some v \<Rightarrow> v)
            in if tot = 0 then 0 else 100 * (1 - of_int avail / of_int tot))
       (mem_values (splitlines meminfo) Map.empty)"

section \<open>State\<close>

record watchdog =
  wd_host :: string
  disk_limit :: rat
  mem_limit :: rat
  load_limit :: rat
  disk_cond :: condition
  memory_cond :: condition
  load_cond :: condition
  down_conds :: "(string \<times> condition) list"
  unhealthy :: "string list"
  stopped_at :: "string \<rightharpoonup> monotonic"
  oom_at :: "string \<rightharpoonup> monotonic"

text \<open>\<open>watch\<close> holds the container names, stripped and not empty; a name given twice is one entry.\<close>

definition new_watchdog :: "string \<Rightarrow> string list \<Rightarrow> rat \<Rightarrow> rat \<Rightarrow> rat \<Rightarrow> watchdog" where
  "new_watchdog host watch disk mem load =
     \<lparr>wd_host = host, disk_limit = disk, mem_limit = mem, load_limit = load,
      disk_cond = new_condition 1, memory_cond = new_condition 3, load_cond = new_condition 3,
      down_conds = map (\<lambda>c. (c, new_condition 2)) (rev (remdups (rev watch))), unhealthy = [],
      stopped_at = Map.empty, oom_at = Map.empty\<rparr>"

fun split_commas :: "string \<Rightarrow> string \<Rightarrow> string list" where
  "split_commas acc [] = [acc]"
| "split_commas acc (c # cs) =
     (if c = CHR '','' then acc # split_commas [] cs else split_commas (acc @ [c]) cs)"

definition watch_names :: "string \<Rightarrow> string list" where
  "watch_names v = map strip (filter (\<lambda>c. strip c \<noteq> []) (split_commas [] v))"

section \<open>Alerts\<close>

text \<open>What \<open>send\<close> posts to the relay's event route.\<close>

definition send_alert :: "watchdog \<Rightarrow> alert_level \<Rightarrow> unicode \<Rightarrow> unicode \<Rightarrow> string option \<Rightarrow> alert_event" where
  "send_alert w lv title detail fp =
     \<lparr>ev_source = ascii (wd_host w), ev_level = lv, ev_title = title, ev_detail = detail, ev_fingerprint = fp\<rparr>"

definition report_change ::
    "watchdog \<Rightarrow> change option \<Rightarrow> string \<Rightarrow> unicode \<Rightarrow> unicode \<Rightarrow> alert_event list" where
  "report_change w ch key fire resolve =
     (case ch of
        Some Fire \<Rightarrow> [send_alert w Error_Level fire [] (Some (wd_host w @ '':'' @ key))]
      | Some Resolve \<Rightarrow> [send_alert w Resolved_Level resolve [] (Some (wd_host w @ '':'' @ key))]
      | None \<Rightarrow> [])"

section \<open>Docker events\<close>

record docker_event =
  de_action :: string
  de_name :: string
  de_cid :: string
  de_exit_code :: int

text \<open>
  What Docker answers while an event is handled: the inspect reply as its status and the restart
  policy's name, the log reply, and the inspect reply as its status and the output of the last health
  probe. \<open>None\<close> where the call or its decoding raises.
\<close>

record docker_view =
  dv_policy :: "(nat \<times> string option) option"
  dv_logs :: "(nat \<times> bytes) option"
  dv_health :: "(nat \<times> unicode option) option"

definition restart_note :: "(nat \<times> string option) option \<Rightarrow> unicode option" where
  "restart_note reply =
     map_option
       (\<lambda>(status, name).
          if status \<noteq> 200 then []
          else (let policy = (case name of None \<Rightarrow> ''no'' | Some p \<Rightarrow> if p = [] then ''no'' else p) in
            if policy = ''no'' then ascii ''No restart policy: it stays down until someone starts it.''
            else ascii (''Docker will restart it (restart policy: '' @ policy @ '').'')))
       reply"

definition health_output :: "(nat \<Rightarrow> bool) \<Rightarrow> (nat \<times> unicode option) option \<Rightarrow> unicode option" where
  "health_output is_word reply =
     map_option
       (\<lambda>(status, out).
          if status \<noteq> 200 then []
          else (case out of
                  None \<Rightarrow> []
                | Some txt \<Rightarrow> last_chars log_tail_chars (redact is_word (u_strip txt))))
       reply"

definition crash_detail :: "(nat \<Rightarrow> bool) \<Rightarrow> docker_view \<Rightarrow> unicode" where
  "crash_detail is_word v =
     (case (restart_note (dv_policy v), container_log_tail is_word (dv_logs v)) of
        (Some note, Some logs) \<Rightarrow>
          if logs \<noteq> [] then note @ [10, 10] @ ascii ''Last log lines:'' @ [10] @ logs else note
      | _ \<Rightarrow> [])"

definition handle_die ::
    "(nat \<Rightarrow> bool) \<Rightarrow> docker_view \<Rightarrow> monotonic \<Rightarrow> docker_event \<Rightarrow> watchdog \<Rightarrow> alert_event list \<times> watchdog" where
  "handle_die is_word v now e w =
     (let cid = de_cid e;
          oom = (case oom_at w cid of None \<Rightarrow> now + 1000000000 < 30 | Some t \<Rightarrow> now - t < 30);
          w1 = w\<lparr>oom_at := (oom_at w)(cid := None)\<rparr>;
          w2 = (if oom then w1 else w1\<lparr>stopped_at := (stopped_at w1)(cid := None)\<rparr>)
      in if \<not> oom \<and> \<not> is_crash (de_exit_code e) now (stopped_at w1 cid) then ([], w2)
         else ([send_alert w2 Error_Level
                  (if oom then ascii (''Container '' @ de_name e @ '' was killed: out of memory'')
                   else ascii (''Container '' @ de_name e @ '' crashed (exit '' @
                               string_of_int (de_exit_code e) @ '')''))
                  (crash_detail is_word v)
                  (Some (wd_host w2 @ '':crash:'' @ de_name e))], w2))"

text \<open>\<open>action.split(":", 1)[-1].strip()\<close>\<close>

definition health_status :: "string \<Rightarrow> string" where
  "health_status action =
     strip (if CHR '':'' \<in> set action then tl (dropWhile (\<lambda>c. c \<noteq> CHR '':'') action) else action)"

definition handle_health ::
    "(nat \<Rightarrow> bool) \<Rightarrow> docker_view \<Rightarrow> docker_event \<Rightarrow> watchdog \<Rightarrow> alert_event list \<times> watchdog" where
  "handle_health is_word v e w =
     (let status = health_status (de_action e); name = de_name e;
          fp = Some (wd_host w @ '':health:'' @ name) in
      if status = ''unhealthy'' \<and> name \<notin> set (unhealthy w) then
        ([send_alert w Warning_Level (ascii (''Container '' @ name @ '' is unhealthy''))
            (case health_output is_word (dv_health v) of None \<Rightarrow> [] | Some out \<Rightarrow> out) fp],
         w\<lparr>unhealthy := name # unhealthy w\<rparr>)
      else if status = ''healthy'' \<and> name \<in> set (unhealthy w) then
        ([send_alert w Resolved_Level (ascii (''Container '' @ name @ '' is healthy again'')) [] fp],
         w\<lparr>unhealthy := removeAll name (unhealthy w)\<rparr>)
      else ([], w))"

definition handle_event ::
    "(nat \<Rightarrow> bool) \<Rightarrow> docker_view \<Rightarrow> monotonic \<Rightarrow> docker_event \<Rightarrow> watchdog \<Rightarrow> alert_event list \<times> watchdog" where
  "handle_event is_word v now e w =
     (if de_action e = ''kill'' \<or> de_action e = ''stop''
      then ([], w\<lparr>stopped_at := (stopped_at w)(de_cid e \<mapsto> now)\<rparr>)
      else if de_action e = ''oom'' then ([], w\<lparr>oom_at := (oom_at w)(de_cid e \<mapsto> now)\<rparr>)
      else if de_action e = ''die'' then handle_die is_word v now e w
      else if starts_with ''health_status'' (de_action e) then handle_health is_word v e w
      else ([], w))"

section \<open>Periodic checks\<close>

record host_view =
  hv_disk_used :: rat
  hv_disk_size :: rat
  hv_meminfo :: string
  hv_cpus :: nat
  hv_load5 :: rat

definition percent :: "rat \<Rightarrow> unicode" where
  "percent x = format_0f x @ ascii ''%''"

text \<open>
  A reading that raises (an empty file system, a malformed \<open>/proc/meminfo\<close>) ends the check where it
  stands; the loop goes on with the next one.
\<close>

definition check_host :: "host_view \<Rightarrow> watchdog \<Rightarrow> alert_event list \<times> watchdog" where
  "check_host v w =
     (if hv_disk_size v = 0 then ([], w)
      else
       (let disk = 100 * hv_disk_used v / hv_disk_size v;
            (ch1, c1) = update_condition (disk_limit w \<le> disk) (disk_cond w);
            w1 = w\<lparr>disk_cond := c1\<rparr>;
            a1 = report_change w1 ch1 ''disk'' (ascii ''Disk '' @ percent disk @ ascii '' full'')
                   (ascii ''Disk back to '' @ percent disk)
        in (case memory_used_percent (hv_meminfo v) of
              None \<Rightarrow> (a1, w1)
            | Some mem \<Rightarrow>
                (let (ch2, c2) = update_condition (mem_limit w1 \<le> mem) (memory_cond w1);
                     w2 = w1\<lparr>memory_cond := c2\<rparr>;
                     a2 = report_change w2 ch2 ''memory'' (ascii ''Memory '' @ percent mem @ ascii '' used'')
                            (ascii ''Memory back to '' @ percent mem);
                     cpus = (if hv_cpus v = 0 then 1 else hv_cpus v);
                     (ch3, c3) = update_condition (load_limit w2 \<le> hv_load5 v / of_nat cpus) (load_cond w2);
                     w3 = w2\<lparr>load_cond := c3\<rparr>;
                     a3 = report_change w3 ch3 ''load''
                            (ascii ''CPU overloaded: load '' @ format_1f (hv_load5 v) @ ascii '' on '' @
                             unicode_of_nat cpus @ ascii '' vCPU'')
                            (ascii ''CPU load back to '' @ format_1f (hv_load5 v))
                 in (a1 @ a2 @ a3, w3)))))"

record container_state =
  cs_running :: bool
  cs_restarting :: bool
  cs_status :: "string option"
  cs_exit_code :: int

text \<open>Docker's inspect reply for a container: its status and \<open>State\<close>; \<open>None\<close> where the call raises.\<close>

type_synonym inspect_reply = "(nat \<times> container_state) option"

definition is_running :: "nat \<times> container_state \<Rightarrow> bool" where
  "is_running rep = (case rep of (status, st) \<Rightarrow> status = 200 \<and> cs_running st \<and> \<not> cs_restarting st)"

definition what_state :: "nat \<times> container_state \<Rightarrow> string" where
  "what_state rep =
     (case rep of (status, st) \<Rightarrow>
        (if status = 200
         then (case cs_status st of None \<Rightarrow> ''missing'' | Some s \<Rightarrow> if s = [] then ''missing'' else s) @
              (if cs_exit_code st \<noteq> 0 then '', exit '' @ string_of_int (cs_exit_code st) else [])
         else ''missing''))"

definition report_down ::
    "watchdog \<Rightarrow> string \<Rightarrow> nat \<times> container_state \<Rightarrow> change option \<Rightarrow> alert_event list" where
  "report_down w name rep ch =
     report_change w ch (''down:'' @ name)
       (ascii (''Container '' @ name @ '' is not running ('' @ what_state rep @ '')''))
       (ascii (''Container '' @ name @ '' is running again''))"

fun check_each ::
    "(string \<Rightarrow> inspect_reply) \<Rightarrow> watchdog \<Rightarrow> (string \<times> condition) list \<Rightarrow>
     alert_event list \<times> (string \<times> condition) list" where
  "check_each inspect w [] = ([], [])"
| "check_each inspect w ((name, c) # rest) =
     (case inspect name of
        None \<Rightarrow> ([], (name, c) # rest)
      | Some rep \<Rightarrow>
          (let (ch, c1) = update_condition (\<not> is_running rep) c;
               here = report_down w name rep ch;
               (alerts, rest1) = check_each inspect w rest
           in (here @ alerts, (name, c1) # rest1)))"

definition check_containers ::
    "(string \<Rightarrow> inspect_reply) \<Rightarrow> watchdog \<Rightarrow> alert_event list \<times> watchdog" where
  "check_containers inspect w =
     (case check_each inspect w (down_conds w) of (alerts, conds) \<Rightarrow> (alerts, w\<lparr>down_conds := conds\<rparr>))"

text \<open>The start-up message; \<open>up\<close> is the host's uptime in seconds.\<close>

definition announce_start :: "rat \<Rightarrow> string list \<Rightarrow> watchdog \<Rightarrow> alert_event list" where
  "announce_start up watch w =
     (let mins = up / 60;
          watching = ascii (''Watching: '' @ (if join '', '' watch = [] then ''no containers'' else join '', '' watch))
      in if mins < 10
         then [send_alert w Warning_Level
                 (ascii ''Server restarted (up '' @ format_0f mins @ ascii '' min)'') watching None]
         else [send_alert w Info_Level (ascii ''Watchdog started'') watching None])"

section \<open>Runs\<close>

text \<open>
  One turn of the loop in \<open>run\<close>, and one Docker event of the follower thread: they share no state but
  the list of alerts, so a run is a sequence of both.
\<close>

datatype input =
    Tick host_view "string \<Rightarrow> inspect_reply"
  | Docker monotonic docker_event docker_view

fun wd_step :: "(nat \<Rightarrow> bool) \<Rightarrow> input \<Rightarrow> watchdog \<Rightarrow> alert_event list \<times> watchdog" where
  "wd_step is_word (Tick v inspect) w =
     (let (a1, w1) = check_host v w; (a2, w2) = check_containers inspect w1 in (a1 @ a2, w2))"
| "wd_step is_word (Docker now e v) w = handle_event is_word v now e w"

fun wd_run :: "(nat \<Rightarrow> bool) \<Rightarrow> input list \<Rightarrow> watchdog \<Rightarrow> alert_event list \<times> watchdog" where
  "wd_run is_word [] w = ([], w)"
| "wd_run is_word (i # is) w =
     (let (a1, w1) = wd_step is_word i w; (a2, w2) = wd_run is_word is w1 in (a1 @ a2, w2))"

section \<open>Log frames round trip\<close>

definition be4 :: "nat \<Rightarrow> bytes" where
  "be4 n = [n div 16777216 mod 256, n div 65536 mod 256, n div 256 mod 256, n mod 256]"

text \<open>A frame as Docker writes it.\<close>

definition frame :: "nat \<times> bytes \<Rightarrow> bytes" where
  "frame f = [fst f, 0, 0, 0] @ be4 (length (snd f)) @ snd f"

lemma length_be4 [simp]: "length (be4 n) = 4"
  by (simp add: be4_def)

lemma be_value_be4:
  assumes "n < 4294967296"
  shows "be_value (be4 n) = n"
proof -
  have "n div 65536 = n div 256 div 256" "n div 16777216 = n div 256 div 256 div 256"
    by (simp_all add: div_mult2_eq [symmetric])
  moreover have "n div 256 div 256 div 256 mod 256 = n div 256 div 256 div 256"
    using assms by simp
  ultimately show ?thesis by (simp add: be_value_def be4_def)
qed

lemma frame_ahead_frame: "fst f \<in> {0, 1, 2} \<Longrightarrow> frame_ahead (frame f @ rest)"
  by (simp add: frame_ahead_def frame_def)

lemma demux_frame:
  assumes "fst f \<in> {0, 1, 2}" and "length (snd f) < 4294967296"
  shows "demux_frames (frame f @ rest) = snd f @ demux_frames rest"
proof -
  have four: "take 4 (drop 4 (frame f @ rest)) = be4 (length (snd f))"
    and eight: "drop 8 (frame f @ rest) = snd f @ rest"
    by (simp_all add: frame_def)
  have "drop (8 + length (snd f)) (frame f @ rest) = drop (length (snd f)) (drop 8 (frame f @ rest))"
    by (metis add.commute drop_drop)
  then have skip: "drop (8 + length (snd f)) (frame f @ rest) = rest" by (simp only: eight) simp
  have "demux_frames (frame f @ rest) =
        take (length (snd f)) (drop 8 (frame f @ rest)) @ demux_frames (drop (8 + length (snd f)) (frame f @ rest))"
    using demux_frames.simps [of "frame f @ rest"] frame_ahead_frame [OF assms(1), of rest]
    unfolding four be_value_be4 [OF assms(2)] Let_def by (simp only: if_True)
  then show ?thesis unfolding skip eight by simp
qed

lemma demux_frames_all:
  "list_all (\<lambda>f. fst f \<in> {0, 1, 2} \<and> length (snd f) < 4294967296) fs \<Longrightarrow>
   demux_frames (concat (map frame fs)) = concat (map snd fs)"
proof (induction fs)
  case Nil
  show ?case by (simp add: demux_frames.simps frame_ahead_def)
next
  case (Cons f fs)
  then show ?case by (simp add: demux_frame)
qed

section \<open>Redaction hides queries\<close>

fun queries_hidden :: "unicode \<Rightarrow> bool" where
  "queries_hidden [] = True"
| "queries_hidden (c # cs) = ((c = 63 \<longrightarrow> (\<exists>d. cs = ellipsis # d)) \<and> queries_hidden cs)"

lemma queries_hidden_suffix: "queries_hidden (s @ t) \<Longrightarrow> queries_hidden t"
  by (induction s) auto

lemma queries_hidden_drop: "queries_hidden s \<Longrightarrow> queries_hidden (drop n s)"
  by (metis append_take_drop_id queries_hidden_suffix)

lemma queries_hidden_dropWhile: "queries_hidden s \<Longrightarrow> queries_hidden (dropWhile P s)"
  by (metis queries_hidden_suffix takeWhile_dropWhile_id)

lemma queries_hidden_query: "queries_hidden (redact_query inside s)"
  by (induction inside s rule: redact_query.induct) (auto simp: ellipsis_def)

lemma match_bearer_hidden: "queries_hidden s \<Longrightarrow> match_bearer w s = Some t \<Longrightarrow> queries_hidden t"
  by (auto simp: match_bearer_def Let_def split: if_splits
      intro!: queries_hidden_dropWhile queries_hidden_drop)

lemma redact_bearer_ellipsis: "\<exists>d. redact_bearer w (ellipsis # s) = ellipsis # d"
proof -
  have "match_bearer w (ellipsis # s) = None"
    by (simp add: match_bearer_def ellipsis_def ascii_lower_def ascii_def Let_def numeral_eq_Suc)
  then show ?thesis by simp
qed

lemma queries_hidden_bearer: "queries_hidden s \<Longrightarrow> queries_hidden (redact_bearer w s)"
proof (induction w s rule: redact_bearer.induct)
  case (2 w c cs)
  show ?case
  proof (cases "match_bearer w (c # cs)")
    case None
    have "\<exists>d. redact_bearer w cs = ellipsis # d" if "c = 63"
      using that 2 redact_bearer_ellipsis [of w] by auto
    with None 2 show ?thesis by simp
  next
    case (Some rest)
    then have "queries_hidden (redact_bearer w rest)" using 2 match_bearer_hidden by blast
    then show ?thesis using Some by (simp add: ascii_def ellipsis_def)
  qed
qed simp

lemma queries_hidden_tail: "queries_hidden (last_chars n (redact w s))"
  by (simp add: last_chars_def redact_def queries_hidden_drop queries_hidden_bearer queries_hidden_query)

section \<open>Conditions: the history decides\<close>

text \<open>A history of checks, newest first: the length of the current run of bad ones.\<close>

definition streak :: "bool list \<Rightarrow> nat" where
  "streak h = length (takeWhile (\<lambda>b. b) h)"

text \<open>
  The reference: fire at the check that completes \<open>n\<close> bad ones in a row, resolve at the first good one
  after a run of at least \<open>n\<close>.
\<close>

definition expected_change :: "nat \<Rightarrow> bool \<Rightarrow> bool list \<Rightarrow> change option" where
  "expected_change n bad h =
     (if bad \<and> streak (bad # h) = n then Some Fire
      else if \<not> bad \<and> n \<le> streak h then Some Resolve else None)"

definition condition_after :: "nat \<Rightarrow> bool list \<Rightarrow> condition" where
  "condition_after n h = \<lparr>needed = n, bad_streak = streak h, active = (n \<le> streak h)\<rparr>"

lemma new_condition_after: "0 < n \<Longrightarrow> new_condition n = condition_after n []"
  by (simp add: new_condition_def condition_after_def streak_def)

lemma update_condition_after:
  "0 < n \<Longrightarrow> update_condition bad (condition_after n h) = (expected_change n bad h, condition_after n (bad # h))"
  by (auto simp: update_condition_def condition_after_def expected_change_def streak_def)

fun expected_changes :: "nat \<Rightarrow> bool list \<Rightarrow> bool list \<Rightarrow> change list" where
  "expected_changes n h [] = []"
| "expected_changes n h (b # bs) =
     (case expected_change n b h of None \<Rightarrow> [] | Some ch \<Rightarrow> [ch]) @ expected_changes n (b # h) bs"

definition change_level :: "change \<Rightarrow> alert_level" where
  "change_level ch = (case ch of Fire \<Rightarrow> Error_Level | Resolve \<Rightarrow> Resolved_Level)"

section \<open>A watched container\<close>

definition down_key :: "string \<Rightarrow> string \<Rightarrow> string" where
  "down_key host c = host @ '':down:'' @ c"

definition down_levels :: "string \<Rightarrow> string \<Rightarrow> alert_event list \<Rightarrow> alert_level list" where
  "down_levels host c alerts = map ev_level (filter (\<lambda>a. ev_fingerprint a = Some (down_key host c)) alerts)"

lemma down_levels_append [simp]:
  "down_levels host c (a @ b) = down_levels host c a @ down_levels host c b"
  by (simp add: down_levels_def)

lemma down_levels_Nil [simp]: "down_levels host c [] = []"
  by (simp add: down_levels_def)

text \<open>Only the container's own check uses its fingerprint.\<close>

lemma down_levels_down:
  "down_levels (wd_host w) c (report_down w name rep ch) =
     (if name = c then (case ch of None \<Rightarrow> [] | Some x \<Rightarrow> [change_level x]) else [])"
  by (auto simp: down_levels_def report_down_def report_change_def send_alert_def down_key_def
      change_level_def split: option.split change.split)

lemma down_levels_other:
  "key \<in> {''disk'', ''memory'', ''load''} \<Longrightarrow>
   down_levels (wd_host w) c (report_change w ch key f r) = []"
  by (auto simp: down_levels_def report_change_def send_alert_def down_key_def
      split: option.split change.split)

lemma wd_host_simps [simp]:
  "report_change (w\<lparr>disk_cond := c1\<rparr>) = report_change w"
  "report_change (w\<lparr>disk_cond := c1, memory_cond := c2\<rparr>) = report_change w"
  "report_change (w\<lparr>disk_cond := c1, memory_cond := c2, load_cond := c3\<rparr>) = report_change w"
  by (auto simp: fun_eq_iff report_change_def send_alert_def split: option.split change.split)

lemma check_host_frame:
  assumes "check_host v w = (alerts, w')"
  shows "wd_host w' = wd_host w" and "down_conds w' = down_conds w" and "down_levels (wd_host w) c alerts = []"
  using assms
  by (auto simp: check_host_def Let_def down_levels_other split: if_splits prod.splits option.splits)

lemma handle_event_frame:
  assumes "handle_event isw v now e w = (alerts, w')"
  shows "wd_host w' = wd_host w" and "down_conds w' = down_conds w" and "down_levels (wd_host w) c alerts = []"
  using assms
  by (auto simp: handle_event_def handle_die_def handle_health_def Let_def down_levels_def send_alert_def
      down_key_def split: if_splits)

lemma check_each_ok:
  assumes "distinct (map fst conds)" and "\<forall>p \<in> set conds. inspect (fst p) \<noteq> None"
    and "check_each inspect w conds = (alerts, conds')"
  shows "map fst conds' = map fst conds \<and>
    (case map_of conds c of
       None \<Rightarrow> down_levels (wd_host w) c alerts = []
     | Some cond \<Rightarrow>
         (case update_condition (\<not> is_running (the (inspect c))) cond of
            (ch, cond') \<Rightarrow>
              map_of conds' c = Some cond' \<and>
              down_levels (wd_host w) c alerts = (case ch of None \<Rightarrow> [] | Some x \<Rightarrow> [change_level x])))"
  using assms
proof (induction conds arbitrary: alerts conds')
  case Nil
  then show ?case by simp
next
  case (Cons p conds)
  obtain name cond where p: "p = (name, cond)" by (cases p)
  obtain rep where rep: "inspect name = Some rep" using Cons.prems(2) p by auto
  obtain ch cond' where up: "update_condition (\<not> is_running rep) cond = (ch, cond')" by fastforce
  obtain al cs where rest: "check_each inspect w conds = (al, cs)" by fastforce
  note IH = Cons.IH [OF _ _ rest]
  have alerts: "conds' = (name, cond') # cs"
    and dl: "down_levels (wd_host w) c alerts =
      (if name = c then (case ch of None \<Rightarrow> [] | Some x \<Rightarrow> [change_level x]) else []) @
      down_levels (wd_host w) c al"
    using Cons.prems(3) p rep up rest by (auto simp: down_levels_down Let_def)
  have "map_of conds name = None" using Cons.prems(1) p by (simp add: map_of_eq_None_iff)
  have d: "distinct (map fst conds)" "\<forall>p \<in> set conds. inspect (fst p) \<noteq> None"
    using Cons.prems(1,2) by simp_all
  show ?case
  proof (cases "name = c")
    case True
    then show ?thesis using alerts dl IH [OF d] \<open>map_of conds name = None\<close> p rep up by simp
  next
    case False
    then have "map_of conds' c = map_of cs c" "map_of (p # conds) c = map_of conds c"
      "down_levels (wd_host w) c alerts = down_levels (wd_host w) c al" "map fst conds' = name # map fst cs"
      using alerts dl p by simp_all
    then show ?thesis using IH [OF d] p by (simp only: list.map fst_conv)
  qed
qed

text \<open>The outcomes of the checks of a container, oldest first.\<close>

fun check_outcomes :: "string \<Rightarrow> input list \<Rightarrow> bool list" where
  "check_outcomes c [] = []"
| "check_outcomes c (Tick v inspect # is) = (\<not> is_running (the (inspect c))) # check_outcomes c is"
| "check_outcomes c (Docker _ _ _ # is) = check_outcomes c is"

text \<open>Docker answers every inspect call of the run.\<close>

fun answered :: "string list \<Rightarrow> input \<Rightarrow> bool" where
  "answered names (Tick v inspect) = list_all (\<lambda>c. inspect c \<noteq> None) names"
| "answered names (Docker _ _ _) = True"

lemma wd_run_down:
  assumes "list_all (answered (map fst (down_conds w))) is"
    and "distinct (map fst (down_conds w))"
    and "map_of (down_conds w) c = Some (condition_after 2 h)"
  shows "down_levels (wd_host w) c (fst (wd_run isw is w)) =
         map change_level (expected_changes 2 h (check_outcomes c is))"
  using assms
proof (induction "is" arbitrary: w h)
  case Nil
  then show ?case by simp
next
  case (Cons i "is")
  obtain a1 w1 where st: "wd_step isw i w = (a1, w1)" by fastforce
  have split: "down_levels (wd_host w) c (fst (wd_run isw (i # is) w)) =
      down_levels (wd_host w) c a1 @ down_levels (wd_host w) c (fst (wd_run isw is w1))"
    using st by (simp add: Let_def split: prod.split)
  show ?case
  proof (cases i)
    case (Docker now e v)
    then have "handle_event isw v now e w = (a1, w1)" using st by simp
    note fr = handle_event_frame [OF this]
    then show ?thesis unfolding split using Cons.IH [of w1 h] Cons.prems Docker by simp
  next
    case (Tick v inspect)
    obtain ah wh where ch: "check_host v w = (ah, wh)" by fastforce
    note frh = check_host_frame [OF ch]
    obtain ac conds' where ce: "check_each inspect wh (down_conds wh) = (ac, conds')" by fastforce
    have step: "a1 = ah @ ac" "w1 = wh\<lparr>down_conds := conds'\<rparr>"
      using st Tick ch ce by (auto simp: check_containers_def)
    have "\<forall>p \<in> set (down_conds wh). inspect (fst p) \<noteq> None"
      using Cons.prems(1) Tick frh(2) by (simp add: list_all_iff)
    from check_each_ok [OF _ this ce, of c] Cons.prems frh
    have ok: "map fst conds' = map fst (down_conds w)"
      "map_of conds' c = Some (condition_after 2 ((\<not> is_running (the (inspect c))) # h))"
      "down_levels (wd_host w) c ac =
         (case expected_change 2 (\<not> is_running (the (inspect c))) h of
            None \<Rightarrow> [] | Some x \<Rightarrow> [change_level x])"
      by (auto simp: update_condition_after)
    show ?thesis
      unfolding split
      using Cons.IH [of w1 "(\<not> is_running (the (inspect c))) # h"] Cons.prems ok step frh Tick
      by (simp split: option.split)
  qed
qed

lemma new_watchdog_conds:
  "distinct (map fst (down_conds (new_watchdog host watch d m l)))"
  "c \<in> set watch \<Longrightarrow> map_of (down_conds (new_watchdog host watch d m l)) c = Some (condition_after 2 [])"
  "set (map fst (down_conds (new_watchdog host watch d m l))) = set watch"
  by (auto simp: new_watchdog_def comp_def map_of_map_restrict new_condition_after [symmetric]
      restrict_map_def simp flip: map_of_map_restrict)

text \<open>
  A crash is reported unless someone asked for the stop: a container that dies within a minute of a
  kill event, with no out-of-memory event before, is not.
\<close>

lemma die_silent:
  assumes "de_action e = ''die''" and "oom_at w (de_cid e) = None" and "0 \<le> now"
    and "stopped_at w (de_cid e) = Some t" and "now - t \<le> 60"
  shows "fst (handle_event isw v now e w) = []"
  using assms by (simp add: handle_event_def handle_die_def is_crash_def Let_def)

lemma die_reported:
  assumes "de_action e = ''die''" and "de_exit_code e \<noteq> 0" and "stopped_at w (de_cid e) = None"
  shows "\<exists>a. fst (handle_event isw v now e w) = [a] \<and> ev_level a = Error_Level \<and>
    ev_fingerprint a = Some (wd_host w @ '':crash:'' @ de_name e)"
  using assms by (auto simp: handle_event_def handle_die_def is_crash_def Let_def send_alert_def)

section \<open>Properties\<close>

text \<open>
  C29: A watched container is reported exactly as its checks say, whatever Docker events and other
  checks happen in between: an error at the check that completes two misses in a row, a resolution at
  the first check that finds it running after such a run, and nothing else under its fingerprint.
\<close>

theorem watched_container_reported:
  assumes "c \<in> set watch" and "list_all (answered watch) is"
  shows "down_levels host c (fst (wd_run isw is (new_watchdog host watch disk mem load))) =
         map change_level (expected_changes 2 [] (check_outcomes c is))"
proof -
  let ?w = "new_watchdog host watch disk mem load"
  have "answered (map fst (down_conds ?w)) i = answered watch i" for i
    using new_watchdog_conds(3) [of host watch disk mem load] by (cases i) (simp_all add: list_all_iff del: set_map)
  then have "list_all (answered (map fst (down_conds ?w))) is" using assms(2) by (simp cong: list.pred_cong)
  from wd_run_down [OF this new_watchdog_conds(1) new_watchdog_conds(2) [OF assms(1)], of isw]
  show ?thesis by (simp add: new_watchdog_def)
qed

definition demo_ticks :: "input list" where
  "demo_ticks =
     (let h = \<lparr>hv_disk_used = 1, hv_disk_size = 2, hv_meminfo = [], hv_cpus = 2, hv_load5 = 1\<rparr>;
          up = \<lparr>cs_running = True, cs_restarting = False, cs_status = Some ''running'', cs_exit_code = 0\<rparr>;
          seen = (\<lambda>st c. Some (200, st)) in
      map (\<lambda>st. Tick h (seen st)) [up\<lparr>cs_running := False\<rparr>, up, up\<lparr>cs_running := False\<rparr>,
        up\<lparr>cs_restarting := True\<rparr>, up\<lparr>cs_running := False\<rparr>, up])"

theorem watched_container_reported_witness:
  "down_levels ''vm'' ''api'' (fst (wd_run (\<lambda>_. False) demo_ticks (new_watchdog ''vm'' [''api'', ''db''] 85 90 2))) =
   [Error_Level, Resolved_Level]"
proof -
  have "map change_level (expected_changes 2 [] (check_outcomes ''api'' demo_ticks)) = [Error_Level, Resolved_Level]"
    by code_simp
  moreover have "list_all (answered [''api'', ''db'']) demo_ticks" by (simp add: demo_ticks_def Let_def)
  ultimately show ?thesis
    using watched_container_reported [of "''api''" "[''api'', ''db'']" demo_ticks "''vm''" "\<lambda>_. False" 85 90 2]
    by simp
qed

text \<open>
  C38: Reading Docker's log stream undoes its framing: from any frames (of stdin, stdout or stderr,
  each under 4 GiB) written one after the other, the reader gets the text of their payloads joined, so a
  character split over two frames is still read.
\<close>

theorem demux_roundtrip:
  assumes "list_all (\<lambda>f. fst f \<in> {0, 1, 2} \<and> length (snd f) < 4294967296) fs"
  shows "demux_logs (concat (map frame fs)) = utf8_decode (concat (map snd fs))"
proof (cases fs)
  case Nil
  then show ?thesis by (simp add: demux_logs_def frame_ahead_def)
next
  case (Cons f gs)
  then have "frame_ahead (concat (map frame fs))" using assms frame_ahead_frame [of f] by simp
  then show ?thesis using demux_frames_all [OF assms] by (simp add: demux_logs_def)
qed

theorem demux_roundtrip_witness:
  "demux_logs (concat (map frame [(1, [111, 107, 0xE1]), (2, [0x9E, 0x80, 10])])) = [111, 107, 0x1780, 10]"
  by (subst demux_roundtrip) (simp_all add: utf8_decode.simps is_cont_def second_ok_def)

text \<open>
  No query string of a logged address leaves the host: in the log tail and the health output an
  alert carries, every question mark is followed by the ellipsis that replaced its query, and the text is
  at most 1800 characters.
\<close>

theorem log_tail_redacted:
  assumes "container_log_tail isw logs = Some txt \<or> health_output isw health = Some txt"
  shows "queries_hidden txt \<and> length txt \<le> 1800"
  using assms queries_hidden_tail length_last_chars [of log_tail_chars]
  by (auto simp: container_log_tail_def health_output_def log_tail_chars_def
      split: option.splits if_splits)

theorem log_tail_redacted_witness:
  "queries_hidden (the (health_output (\<lambda>_. False) (Some (200, Some (ascii ''/h?t=ab ok'')))))"
proof -
  have "health_output (\<lambda>_. False) (Some (200, Some (ascii ''/h?t=ab ok''))) =
        Some (ascii ''/h?'' @ [0x2026] @ ascii '' ok'')"
    by (simp add: health_output_def ascii_def u_strip_def u_space_def redact_def ends_query_def ellipsis_def
        last_chars_def log_tail_chars_def match_bearer_def ascii_lower_def)
  then show ?thesis
    using log_tail_redacted [of "\<lambda>_. False" None "ascii ''/h?'' @ [0x2026] @ ascii '' ok''"
        "Some (200, Some (ascii ''/h?t=ab ok''))"]
    by simp
qed

end
