(* ===== verification/Error_Alerts.thy ===== *)
theory Error_Alerts
  imports Alert_Relay
begin

text \<open>
  How the API tells the operators about trouble: the log handler of \<open>app/services/error_alerts.py\<close>, whose
  queue a thread drains into the alert relay, and the once-a-day notices of \<open>app/services/telegram.py\<close>
  with the health check of \<open>app/billing/bakong_health_monitor.py\<close> that triggers one of them. The digest
  of a record's identity and what the interpreter prints of a traceback are arguments.
\<close>

section \<open>Records\<close>

text \<open>An exception as the handler sees it: the last frame's \<open>file:line\<close> and the printed traceback.\<close>

record exn_info =
  xi_type :: unicode
  xi_str :: unicode
  xi_where :: unicode
  xi_traceback :: unicode

record log_record =
  lr_name :: string
  lr_msg :: unicode
  lr_message :: unicode
  lr_exc :: "exn_info option"

text \<open>\<open>str.splitlines\<close> breaks a line here.\<close>

definition u_break :: "nat \<Rightarrow> bool" where
  "u_break c \<longleftrightarrow> 10 \<le> c \<and> c \<le> 13 \<or> 28 \<le> c \<and> c \<le> 30 \<or> c = 0x85 \<or> c = 0x2028 \<or> c = 0x2029"

text \<open>
  The first line of the stripped text, at most 300 characters; a stripped text is empty or starts with
  a character that is not white space, hence with its first line.
\<close>

definition first_line :: "unicode \<Rightarrow> unicode" where
  "first_line s = take 300 (takeWhile (\<lambda>c. \<not> u_break c) (u_strip s))"

definition traceback_limit :: nat where "traceback_limit = 2500"

definition alert_details :: "unicode option \<Rightarrow> log_record \<Rightarrow> unicode list" where
  "alert_details request_line r =
     (case request_line of None \<Rightarrow> [] | Some l \<Rightarrow> if l = [] then [] else [l]) @
     (case lr_exc r of
        None \<Rightarrow> []
      | Some x \<Rightarrow> [first_line (lr_message r), last_chars traceback_limit (xi_traceback x)]) @
     [ascii (''logger: '' @ lr_name r)]"

definition build_alert ::
    "(unicode \<Rightarrow> string) \<Rightarrow> unicode \<Rightarrow> unicode option \<Rightarrow> log_record \<Rightarrow> alert_event" where
  "build_alert digest service request_line r =
     \<lparr>ev_source = service, ev_level = Error_Level,
      ev_title = (case lr_exc r of
         None \<Rightarrow> first_line (lr_message r)
       | Some x \<Rightarrow> xi_type x @ ascii '': '' @ first_line (xi_str x)),
      ev_detail = u_join [10] (alert_details request_line r),
      ev_fingerprint = Some (digest (u_join [124]
        [service, ascii (lr_name r), lr_msg r,
         (case lr_exc r of None \<Rightarrow> [] | Some x \<Rightarrow> xi_type x),
         (case lr_exc r of None \<Rightarrow> [] | Some x \<Rightarrow> xi_where x)]))\<rparr>"

section \<open>The handler\<close>

record handler =
  ah_last_sent :: "string \<rightharpoonup> monotonic"
  ah_queue :: "alert_event list"

definition throttle_seconds :: monotonic where "throttle_seconds = 60"
definition queue_size :: nat where "queue_size = 100"

definition ignored_logger :: "string \<Rightarrow> bool" where
  "ignored_logger name \<longleftrightarrow> starts_with ''httpx'' name \<or> starts_with ''httpcore'' name"

text \<open>A full queue drops the alert after its fingerprint was noted.\<close>

definition emit ::
    "(unicode \<Rightarrow> string) \<Rightarrow> unicode \<Rightarrow> monotonic \<Rightarrow> unicode option \<Rightarrow> log_record \<Rightarrow> handler \<Rightarrow> handler" where
  "emit digest service now request_line r h =
     (if ignored_logger (lr_name r) then h
      else
       (let alert = build_alert digest service request_line r; fp = the (ev_fingerprint alert) in
        if (case ah_last_sent h fp of None \<Rightarrow> False | Some t \<Rightarrow> now - t < throttle_seconds) then h
        else
         (let h1 = h\<lparr>ah_last_sent := (ah_last_sent h)(fp \<mapsto> now)\<rparr> in
          if length (ah_queue h1) < queue_size then h1\<lparr>ah_queue := ah_queue h1 @ [alert]\<rparr> else h1)))"

text \<open>One turn of the draining thread against the relay; the answer is only printed.\<close>

definition drain ::
    "relay_config \<Rightarrow> string \<Rightarrow> (unicode \<Rightarrow> bool) \<Rightarrow> monotonic \<Rightarrow> handler \<times> relay \<Rightarrow> handler \<times> relay" where
  "drain cfg token send now s =
     (case s of (h, r) \<Rightarrow>
       (case ah_queue h of
          [] \<Rightarrow> (h, r)
        | a # q \<Rightarrow>
            (h\<lparr>ah_queue := q\<rparr>, snd (snd (event_route cfg send now (''Bearer '' @ token) a r)))))"

section \<open>Once a day\<close>

text \<open>The day in Cambodia (UTC+7), as a count of days.\<close>

definition ict_day :: "datetime \<Rightarrow> int" where
  "ict_day now = (now + minutes 420) div days 1"

text \<open>The state file holds the last day announced; the lock makes reading and writing it one step.\<close>

definition claim_daily_alert :: "int \<Rightarrow> int option \<Rightarrow> bool \<times> int option" where
  "claim_daily_alert day stored = (if stored = Some day then (False, stored) else (True, Some day))"

definition notify_bakong_daily_limit :: "datetime \<Rightarrow> int option \<Rightarrow> unicode option \<times> int option" where
  "notify_bakong_daily_limit now stored =
     (case claim_daily_alert (ict_day now) stored of
        (False, s) \<Rightarrow> (None, s)
      | (True, s) \<Rightarrow>
          (Some (u_join [10]
             [ascii ''Reeltime Bakong alert'', ascii ''- NBC daily KHQR check limit reached (100/day)'',
              ascii ''- Paid-checks are paused until tomorrow (ICT midnight)'',
              ascii ''- QR generate still works '' @ [0x2014] @
              ascii '' do not take real payments until reset'']), s))"

definition notify_bakong_checks_unavailable ::
    "datetime \<Rightarrow> int option \<Rightarrow> int option \<Rightarrow> int option \<Rightarrow> unicode option \<times> int option" where
  "notify_bakong_checks_unavailable now tokens_paused token_count stored =
     (case claim_daily_alert (ict_day now) stored of
        (False, s) \<Rightarrow> (None, s)
      | (True, s) \<Rightarrow>
          (Some (u_join [10]
             ([ascii ''Reeltime Bakong alert'', ascii ''- bakong_checks_available: false'',
               ascii ''- Auto unlock via NBC check is paused''] @
              (case (tokens_paused, token_count) of
                 (Some p, Some n) \<Rightarrow> [ascii (''- Tokens paused: '' @ string_of_int p @ ''/'' @ string_of_int n)]
               | _ \<Rightarrow> []) @
              [ascii ''- Use Admin '' @ [0x2192] @ ascii '' Mark paid until tokens reset (ICT midnight)''])), s))"

text \<open>
  The gateway's health answer: the two counts where they are integers, and the flag where it is literally
  true or false.
\<close>

record gateway_health =
  gh_available :: "bool option"
  gh_tokens_paused :: "int option"
  gh_token_count :: "int option"

definition check_once_and_alert ::
    "bool \<Rightarrow> datetime \<Rightarrow> gateway_health option \<Rightarrow> int option \<Rightarrow> bool \<times> unicode option \<times> int option" where
  "check_once_and_alert enabled now body stored =
     (if \<not> enabled then (False, None, stored)
      else
        (case body of
           None \<Rightarrow> (False, None, stored)
         | Some b \<Rightarrow>
             (if gh_available b = Some False
              then (True, notify_bakong_checks_unavailable now (gh_tokens_paused b) (gh_token_count b) stored)
              else (False, None, stored))))"

section \<open>What the handler keeps\<close>

datatype handler_input = Emit monotonic "unicode option" log_record | Take

fun handler_step :: "(unicode \<Rightarrow> string) \<Rightarrow> unicode \<Rightarrow> handler_input \<Rightarrow> handler \<Rightarrow> handler" where
  "handler_step digest service (Emit now rl r) h = emit digest service now rl r h"
| "handler_step digest service Take h = h\<lparr>ah_queue := tl (ah_queue h)\<rparr>"

definition new_handler :: handler where
  "new_handler = \<lparr>ah_last_sent = Map.empty, ah_queue = []\<rparr>"

lemma emit_queue:
  "ah_queue (emit dg sv now rl r h) = ah_queue h \<or>
   ah_queue (emit dg sv now rl r h) = ah_queue h @ [build_alert dg sv rl r] \<and>
   \<not> ignored_logger (lr_name r) \<and> length (ah_queue h) < queue_size"
  by (auto simp: emit_def Let_def)

lemma queue_bounded:
  "length (ah_queue (fold (handler_step dg sv) is new_handler)) \<le> queue_size"
proof -
  have "length (ah_queue h) \<le> queue_size \<Longrightarrow> length (ah_queue (fold (handler_step dg sv) is h)) \<le> queue_size" for h
  proof (induction "is" arbitrary: h)
    case (Cons i "is")
    have "length (ah_queue (handler_step dg sv i h)) \<le> queue_size"
    proof (cases i)
      case (Emit now rl r)
      then show ?thesis using Cons.prems emit_queue [of dg sv now rl r h] by auto
    qed (use Cons.prems in simp)
    then show ?case using Cons.IH by simp
  qed simp
  then show ?thesis by (simp add: new_handler_def)
qed

text \<open>A second record of the same error within a minute is not queued.\<close>

lemma emit_throttled:
  assumes "ev_fingerprint (build_alert dg sv rl r) = ev_fingerprint (build_alert dg sv rl' r')"
    and "\<not> ignored_logger (lr_name r)" and "now' - now < throttle_seconds" and "now \<le> now'"
    and "\<not> (case ah_last_sent h (the (ev_fingerprint (build_alert dg sv rl r))) of
              None \<Rightarrow> False | Some t \<Rightarrow> now - t < throttle_seconds)"
  shows "emit dg sv now' rl' r' (emit dg sv now rl r h) = emit dg sv now rl r h"
  using assms by (auto simp: emit_def Let_def split: option.splits)

text \<open>Once per day, as long as the clock does not go back a day.\<close>

fun daily_claims :: "int option \<Rightarrow> int list \<Rightarrow> bool list" where
  "daily_claims s [] = []"
| "daily_claims s (d # ds) = (case claim_daily_alert d s of (b, s') \<Rightarrow> b # daily_claims s' ds)"

lemma claims_of_day:
  assumes "sorted ds" and "case s of None \<Rightarrow> True | Some t \<Rightarrow> \<forall>d \<in> set ds. t \<le> d"
  shows "length (filter (\<lambda>(b, d). b \<and> d = day) (zip (daily_claims s ds) ds)) =
    (if day \<in> set ds \<and> s \<noteq> Some day then 1 else 0)"
  using assms
proof (induction ds arbitrary: s)
  case (Cons d ds)
  have IH: "length (filter (\<lambda>(b, d). b \<and> d = day) (zip (daily_claims (Some d) ds) ds)) =
      (if day \<in> set ds \<and> Some d \<noteq> Some day then 1 else 0)"
    using Cons by simp
  have "day \<notin> set ds" if "s = Some day" "d \<noteq> day" using Cons.prems that by fastforce
  with Cons.prems IH show ?case by (cases "s = Some d") (auto simp: claim_daily_alert_def)
qed simp

section \<open>Properties\<close>

text \<open>
  Only the first line of an error leaves the process. SQLAlchemy prints the statement and its
  parameters (addresses, identifiers) on later lines: two errors that agree in the first lines of their
  message and exception, in their logger and in their traceback are reported with the same title and
  detail, whatever the later lines hold.
\<close>

theorem later_lines_stay_inside:
  assumes "first_line (lr_message r) = first_line (lr_message r')" and "lr_name r = lr_name r'"
    and "lr_exc r = None \<longleftrightarrow> lr_exc r' = None"
    and "\<And>x y. lr_exc r = Some x \<Longrightarrow> lr_exc r' = Some y \<Longrightarrow>
      xi_type x = xi_type y \<and> first_line (xi_str x) = first_line (xi_str y) \<and>
      xi_traceback x = xi_traceback y"
  shows "(build_alert digest service rl r)\<lparr>ev_fingerprint := None\<rparr> =
         (build_alert digest service rl r')\<lparr>ev_fingerprint := None\<rparr>"
proof (cases "lr_exc r")
  case None
  then show ?thesis using assms(1-3) by (simp add: build_alert_def alert_details_def)
next
  case (Some x)
  then obtain y where y: "lr_exc r' = Some y" using assms(3) by (cases "lr_exc r'") auto
  show ?thesis using assms(1,2) assms(4) [OF Some y] Some y by (simp add: build_alert_def alert_details_def)
qed

text \<open>The daily notice goes out exactly once on every day it is asked for.\<close>

lemma daily_notice_once:
  assumes "sorted ds" and "day \<in> set ds"
  shows "length (filter (\<lambda>(b, d). b \<and> d = day) (zip (daily_claims None ds) ds)) = 1"
  using claims_of_day [OF assms(1), of None day] assms(2) by simp

text \<open>
  An alert that was queued and whose relay is configured reaches the relay's decision: draining it is
  the relay's \<open>deliver\<close> of that alert.
\<close>

lemma drain_delivers:
  assumes "ah_queue h = a # q" and "token \<noteq> []" and "relay_token cfg = token" and "telegram_chat_id cfg \<noteq> []"
  shows "drain cfg token send now (h, r) =
    (h\<lparr>ah_queue := q\<rparr>,
     snd (snd (deliver send now (ev_source a) (ev_level a) (ev_title a) (ev_detail a) (ev_fingerprint a) r)))"
  using assms by (simp add: drain_def event_route_def check_token_def)

end
