(* ===== verification/Config.thy ===== *)
theory Config
  imports Prelude
begin

text \<open>
  \<open>app/config.py\<close> and \<open>app/core/url_validation.py\<close>: the allowed browser origins, the start-up check of
  the settings, and the two URL checks around the hosted checkout, with \<open>urllib.parse.urlparse\<close> on ASCII
  text. Whether a file exists is an argument.
\<close>

section \<open>URLs\<close>

record url =
  url_scheme :: string
  url_netloc :: string
  url_path :: string

definition is_scheme_char :: "char \<Rightarrow> bool" where
  "is_scheme_char c = (let n = (of_char c :: nat) in
     48 \<le> n \<and> n \<le> 57 \<or> 65 \<le> n \<and> n \<le> 90 \<or> 97 \<le> n \<and> n \<le> 122 \<or> c \<in> set ''+-.'')"

definition is_letter :: "char \<Rightarrow> bool" where
  "is_letter c = (let n = (of_char c :: nat) in 65 \<le> n \<and> n \<le> 90 \<or> 97 \<le> n \<and> n \<le> 122)"

text \<open>
  \<open>urlsplit\<close> drops leading control characters and blanks and every tab and line break; a bracketed
  host is only checked for its brackets, and \<open>urlparse\<close> cuts \<open>;params\<close> off the last path segment.
\<close>

definition clean_url :: "string \<Rightarrow> string" where
  "clean_url s =
     filter (\<lambda>c. (of_char c :: nat) \<notin> {9, 10, 13}) (dropWhile (\<lambda>c. (of_char c :: nat) \<le> 32) s)"

definition split_scheme :: "string \<Rightarrow> string \<times> string" where
  "split_scheme s =
     (let p = takeWhile (\<lambda>c. c \<noteq> CHR '':'') s in
      if p \<noteq> [] \<and> length p < length s \<and> is_letter (hd p) \<and> list_all is_scheme_char p
      then (lower p, drop (length p + 1) s) else ([], s))"

definition split_netloc :: "string \<Rightarrow> string \<times> string" where
  "split_netloc s =
     (if starts_with ''//'' s
      then (takeWhile (\<lambda>c. c \<notin> set ''/?#'') (drop 2 s), dropWhile (\<lambda>c. c \<notin> set ''/?#'') (drop 2 s))
      else ([], s))"

definition cut_params :: "string \<Rightarrow> string" where
  "cut_params p =
     (let last = rev (takeWhile (\<lambda>c. c \<noteq> CHR ''/'') (rev p)) in
      take (length p - length last) p @ takeWhile (\<lambda>c. c \<noteq> CHR '';'') last)"

definition urlparse :: "string \<Rightarrow> url result" where
  "urlparse s =
     (let (scheme, rest) = split_scheme (clean_url s); (netloc, tail) = split_netloc rest in
      if (CHR ''['' \<in> set netloc) \<noteq> (CHR '']'' \<in> set netloc) then Inl (ValueError ''Invalid IPv6 URL'')
      else Inr \<lparr>url_scheme = scheme, url_netloc = netloc,
                url_path = cut_params (takeWhile (\<lambda>c. c \<notin> set ''?#'') tail)\<rparr>)"

text \<open>The host and the text of the port of a network location.\<close>

definition host_and_port :: "string \<Rightarrow> string \<times> string" where
  "host_and_port netloc =
     (let info = rev (takeWhile (\<lambda>c. c \<noteq> CHR ''@'') (rev netloc)) in
      if CHR ''['' \<in> set info
      then (let b = tl (dropWhile (\<lambda>c. c \<noteq> CHR ''['') info); after = tl (dropWhile (\<lambda>c. c \<noteq> CHR '']'') b) in
            (takeWhile (\<lambda>c. c \<noteq> CHR '']'') b, drop 1 (dropWhile (\<lambda>c. c \<noteq> CHR '':'') after)))
      else (takeWhile (\<lambda>c. c \<noteq> CHR '':'') info, drop 1 (dropWhile (\<lambda>c. c \<noteq> CHR '':'') info)))"

text \<open>\<open>parsed.hostname or ""\<close>\<close>

definition url_hostname :: "url \<Rightarrow> string" where
  "url_hostname u = lower (fst (host_and_port (url_netloc u)))"

section \<open>Settings\<close>

record config =
  cf_debug :: bool
  cf_cors_origins :: string
  cf_cors_origin_regex :: string
  cf_secret_key :: string
  cf_app_public_url :: string
  cf_database_url :: string
  cf_pooler_database_url :: "string option"
  cf_database_ssl_root_cert :: string
  cf_database_ssl_allow_insecure :: bool
  cf_baray_api_key :: string
  cf_baray_sk :: string
  cf_baray_iv :: string
  cf_baray_checkout_base_url :: string
  cf_baray_webhook_secret :: string
  cf_api_public_url :: string
  cf_transcode_service_url :: string
  cf_transcode_api_key :: string
  cf_live_service_url :: string
  cf_live_service_api_key :: string
  cf_bakong_service_url :: string
  cf_bakong_service_api_key :: string
  cf_bakong_developer_token :: string
  cf_bakong_account_id :: string
  cf_bakong_merchant_name :: string

definition local_dev_cors_origins :: "string list" where
  "local_dev_cors_origins =
     [''http://localhost:3000'', ''http://127.0.0.1:3000'', ''http://localhost:3001'',
      ''http://127.0.0.1:3001'', ''http://localhost:3002'', ''http://127.0.0.1:3002'']"

definition production_cors_origins :: "string list" where
  "production_cors_origins =
     [''https://reeltime.fun'', ''https://www.reeltime.fun'', ''https://admin.reeltime.fun'']"

definition secret_key_placeholders :: "string list" where
  "secret_key_placeholders = [''change-me'', ''change-me-to-a-long-random-string-in-production'']"

definition default_cors_origins :: string where
  "default_cors_origins = join '','' local_dev_cors_origins"

fun split_on :: "char \<Rightarrow> string \<Rightarrow> string \<Rightarrow> string list" where
  "split_on sep acc [] = [acc]"
| "split_on sep acc (c # cs) = (if c = sep then acc # split_on sep [] cs else split_on sep (acc @ [c]) cs)"

definition origins_from_env :: "config \<Rightarrow> string list" where
  "origins_from_env cfg =
     map strip (filter (\<lambda>o'. strip o' \<noteq> []) (split_on (CHR '','') [] (cf_cors_origins cfg)))"

text \<open>The loop over \<open>base\<close>: an origin is kept the first time it comes.\<close>

fun merge_origins :: "string list \<Rightarrow> string list \<Rightarrow> string list" where
  "merge_origins merged [] = merged"
| "merge_origins merged (x # xs) = merge_origins (if x \<in> set merged then merged else merged @ [x]) xs"

definition cors_origins :: "config \<Rightarrow> string list" where
  "cors_origins cfg =
     merge_origins []
       (if cf_debug cfg then local_dev_cors_origins @ production_cors_origins @ origins_from_env cfg
        else production_cors_origins @ origins_from_env cfg)"

definition effective_database_url :: "config \<Rightarrow> string" where
  "effective_database_url cfg =
     (if truthy (cf_pooler_database_url cfg) then the (cf_pooler_database_url cfg) else cf_database_url cfg)"

text \<open>\<open>s.replace(old, new, 1)\<close>\<close>

fun replace_first :: "string \<Rightarrow> string \<Rightarrow> string \<Rightarrow> string" where
  "replace_first old new s =
     (if starts_with old s then new @ drop (length old) s
      else (case s of [] \<Rightarrow> [] | c # cs \<Rightarrow> c # replace_first old new cs))"

declare replace_first.simps [simp del]

definition database_host :: "string \<Rightarrow> string result" where
  "database_host db_url =
     (case urlparse (replace_first ''postgresql+asyncpg://'' ''postgresql://'' db_url) of
        Inl e \<Rightarrow> Inl e | Inr u \<Rightarrow> Inr (url_hostname u))"

definition local_host :: "string \<Rightarrow> bool" where
  "local_host h \<longleftrightarrow> h \<in> {[], ''localhost'', ''127.0.0.1''}"

definition requires_verified_database_tls :: "config \<Rightarrow> bool result" where
  "requires_verified_database_tls cfg =
     (if cf_debug cfg \<or> cf_database_ssl_allow_insecure cfg then Inr False
      else (case database_host (effective_database_url cfg) of
              Inl e \<Rightarrow> Inl e | Inr h \<Rightarrow> Inr (\<not> local_host h)))"

section \<open>The start-up check\<close>

definition blank :: "string \<Rightarrow> bool" where
  "blank s \<longleftrightarrow> strip s = []"

text \<open>The checks in the code's order: the first that fails is the error.\<close>

fun first_failure :: "(bool \<times> string) list \<Rightarrow> unit result" where
  "first_failure [] = Inr ()"
| "first_failure ((bad, msg) # cs) = (if bad then Inl (ValueError msg) else first_failure cs)"

definition absolute_http :: "string \<Rightarrow> bool" where
  "absolute_http s =
     (case urlparse s of
        Inl _ \<Rightarrow> False | Inr u \<Rightarrow> url_scheme u \<in> {''http'', ''https''} \<and> url_netloc u \<noteq> [])"

definition setting_checks :: "config \<Rightarrow> (bool \<times> string) list" where
  "setting_checks cfg =
     (let key = strip (cf_secret_key cfg); baray = \<not> blank (cf_baray_api_key cfg) in
      [(length key < 32, ''SECRET_KEY must be at least 32 characters when DEBUG is false''),
       (lower key \<in> set secret_key_placeholders,
        ''SECRET_KEY must not use a placeholder value when DEBUG is false''),
       (baray \<and> blank (cf_baray_webhook_secret cfg),
        ''BARAY_WEBHOOK_SECRET is required when BARAY_API_KEY is set (DEBUG is false)''),
       (baray \<and> (blank (cf_baray_sk cfg) \<or> blank (cf_baray_iv cfg)),
        ''BARAY_SK and BARAY_IV are required when BARAY_API_KEY is set (DEBUG is false)''),
       (baray \<and> blank (cf_api_public_url cfg),
        ''API_PUBLIC_URL is required when Baray is configured (DEBUG is false)''),
       (baray \<and> \<not> absolute_http (strip (cf_api_public_url cfg)),
        ''API_PUBLIC_URL must be an absolute http(s) URL when DEBUG is false''),
       (\<not> blank (cf_transcode_service_url cfg) \<and> blank (cf_transcode_api_key cfg),
        ''TRANSCODE_API_KEY is required when TRANSCODE_SERVICE_URL is set (DEBUG is false)''),
       (\<not> blank (cf_live_service_url cfg) \<and> blank (cf_live_service_api_key cfg),
        ''LIVE_SERVICE_API_KEY is required when LIVE_SERVICE_URL is set (DEBUG is false)''),
       (\<not> blank (cf_bakong_service_url cfg) \<and> blank (cf_bakong_service_api_key cfg),
        ''BAKONG_SERVICE_API_KEY is required when BAKONG_SERVICE_URL is set (DEBUG is false)''),
       (blank (cf_bakong_service_url cfg) \<and> \<not> blank (cf_bakong_developer_token cfg) \<and>
        (blank (cf_bakong_account_id cfg) \<or> blank (cf_bakong_merchant_name cfg)),
        ''BAKONG_ACCOUNT_ID and BAKONG_MERCHANT_NAME are required when BAKONG_DEVELOPER_TOKEN is set '' @
        ''without BAKONG_SERVICE_URL (DEBUG is false)'')])"

definition tls_check :: "(string \<Rightarrow> bool) \<Rightarrow> config \<Rightarrow> unit result" where
  "tls_check is_file cfg =
     (case requires_verified_database_tls cfg of
        Inl e \<Rightarrow> Inl e
      | Inr False \<Rightarrow> Inr ()
      | Inr True \<Rightarrow>
          (let cert = strip (cf_database_ssl_root_cert cfg) in
           if cert = [] then Inl (ValueError (''DATABASE_SSL_ROOT_CERT is required when DEBUG is false '' @
               ''(set DATABASE_SSL_ALLOW_INSECURE=true only as a temporary escape)''))
           else if \<not> is_file cert then Inl (ValueError (''DATABASE_SSL_ROOT_CERT file not found: '' @ cert))
           else Inr ()))"

definition open_preview_regex :: "string \<Rightarrow> bool" where
  "open_preview_regex r \<longleftrightarrow> \<not> blank r \<and> contains ''.*'' r \<and> contains ''vercel'' (lower r)"

definition validate_non_debug_settings :: "(string \<Rightarrow> bool) \<Rightarrow> config \<Rightarrow> unit result" where
  "validate_non_debug_settings is_file cfg =
     (if cf_debug cfg then Inr ()
      else
        (case first_failure (setting_checks cfg) of
           Inl e \<Rightarrow> Inl e
         | Inr _ \<Rightarrow>
           (case tls_check is_file cfg of
              Inl e \<Rightarrow> Inl e
            | Inr _ \<Rightarrow>
              if open_preview_regex (cf_cors_origin_regex cfg)
              then Inl (ValueError (''CORS_ORIGIN_REGEX must not allow all *.vercel.app hosts when DEBUG is false. '' @
                     ''List specific preview origins in CORS_ORIGINS instead.''))
              else Inr ())))"

section \<open>Checkout URLs\<close>

definition allowed_app_origins :: "config \<Rightarrow> string list" where
  "allowed_app_origins cfg =
     merge_origins []
       (filter (\<lambda>x. x \<noteq> []) (map (\<lambda>raw. rstrip_char (CHR ''/'') (strip raw)) (cors_origins cfg)) @
        (if cf_app_public_url cfg = [] then []
         else [rstrip_char (CHR ''/'') (strip (cf_app_public_url cfg))]))"

definition validate_custom_success_url :: "config \<Rightarrow> string \<Rightarrow> string result" where
  "validate_custom_success_url cfg s =
     (case urlparse s of
        Inl e \<Rightarrow> Inl e
      | Inr u \<Rightarrow>
          if url_scheme u \<notin> {''http'', ''https''} \<or> url_netloc u = []
          then Inl (HTTPException 422 ''custom_success_url must be an absolute http(s) URL'')
          else if url_scheme u @ ''://'' @ url_netloc u \<notin> set (allowed_app_origins cfg)
          then Inl (HTTPException 422 ''custom_success_url origin is not allowed'')
          else if \<not> starts_with ''/'' (if url_path u = [] then ''/'' else url_path u)
          then Inl (HTTPException 422 ''custom_success_url path is not allowed'')
          else Inr s)"

definition validate_checkout_url :: "config \<Rightarrow> string \<Rightarrow> string result" where
  "validate_checkout_url cfg s =
     (case urlparse s of
        Inl e \<Rightarrow> Inl e
      | Inr u \<Rightarrow>
          if url_scheme u \<notin> {''http'', ''https''} \<or> url_netloc u = []
          then Inl (HTTPException 502 ''Invalid checkout URL from payment provider'')
          else if \<not> starts_with (rstrip_char (CHR ''/'') (cf_baray_checkout_base_url cfg) @ ''/'') s
          then Inl (HTTPException 502 ''Checkout URL host is not allowed'')
          else Inr s)"

section \<open>Origins\<close>

lemma merge_origins_spec:
  "distinct merged \<Longrightarrow> distinct (merge_origins merged xs) \<and> set (merge_origins merged xs) = set merged \<union> set xs"
  by (induction merged xs rule: merge_origins.induct) auto

lemma merge_origins_prefix: "\<exists>ys. merge_origins merged xs = merged @ ys"
proof (induction merged xs rule: merge_origins.induct)
  case (2 merged x xs)
  then show ?case by (cases "x \<in> set merged") auto
qed simp

lemma cors_origins_set:
  "distinct (cors_origins cfg)"
  "set (cors_origins cfg) = set production_cors_origins \<union> set (origins_from_env cfg) \<union>
     (if cf_debug cfg then set local_dev_cors_origins else {})"
  using merge_origins_spec [of "[]"] by (auto simp: cors_origins_def)

lemma first_failure_iff: "first_failure cs = Inr () \<longleftrightarrow> list_all (\<lambda>c. \<not> fst c) cs"
  by (induction cs rule: first_failure.induct) auto

text \<open>
  The documentation of the list says production allows no localhost; with \<open>CORS_ORIGINS\<close> left unset it
  does, because the default value is the local development list.
\<close>

lemma production_cors_keeps_localhost:
  assumes "cf_cors_origins cfg = default_cors_origins"
  shows "set local_dev_cors_origins \<subseteq> set (cors_origins cfg)"
proof -
  have "map strip (filter (\<lambda>o'. strip o' \<noteq> []) (split_on (CHR '','') [] default_cors_origins)) =
      local_dev_cors_origins"
    by code_simp
  then have "origins_from_env cfg = local_dev_cors_origins" by (simp add: origins_from_env_def assms)
  then show ?thesis using cors_origins_set(2) [of cfg] by auto
qed

section \<open>Properties\<close>

text \<open>
  Settings the service starts with outside debug mode are safe: a signing key of at least 32
  characters that is no placeholder, the browser origins exactly the production sites and those of
  \<open>CORS_ORIGINS\<close>, each once, no catch-all preview pattern, an API key for every configured service, and a
  CA file for every remote database unless insecure connections were explicitly allowed.
\<close>

theorem accepted_settings_safe:
  assumes "validate_non_debug_settings is_file cfg = Inr ()" and "\<not> cf_debug cfg"
  shows "32 \<le> length (strip (cf_secret_key cfg)) \<and>
    lower (strip (cf_secret_key cfg)) \<notin> set secret_key_placeholders \<and>
    distinct (cors_origins cfg) \<and>
    set (cors_origins cfg) = set production_cors_origins \<union> set (origins_from_env cfg) \<and>
    \<not> open_preview_regex (cf_cors_origin_regex cfg) \<and>
    (blank (cf_transcode_service_url cfg) \<or> \<not> blank (cf_transcode_api_key cfg)) \<and>
    (blank (cf_live_service_url cfg) \<or> \<not> blank (cf_live_service_api_key cfg)) \<and>
    (blank (cf_bakong_service_url cfg) \<or> \<not> blank (cf_bakong_service_api_key cfg)) \<and>
    (cf_database_ssl_allow_insecure cfg \<or>
     (\<exists>h. database_host (effective_database_url cfg) = Inr h \<and>
        (local_host h \<or> \<not> blank (cf_database_ssl_root_cert cfg) \<and> is_file (strip (cf_database_ssl_root_cert cfg)))))"
proof -
  have ok: "list_all (\<lambda>c. \<not> fst c) (setting_checks cfg)" and tls: "tls_check is_file cfg = Inr ()"
    and re: "\<not> open_preview_regex (cf_cors_origin_regex cfg)"
    using assms by (auto simp: validate_non_debug_settings_def first_failure_iff split: sum.splits if_splits)
  have "cf_database_ssl_allow_insecure cfg \<or>
     (\<exists>h. database_host (effective_database_url cfg) = Inr h \<and>
        (local_host h \<or> \<not> blank (cf_database_ssl_root_cert cfg) \<and> is_file (strip (cf_database_ssl_root_cert cfg))))"
    using tls assms(2)
    by (auto simp: tls_check_def requires_verified_database_tls_def blank_def Let_def
        split: sum.splits bool.splits if_splits)
  then show ?thesis using ok re cors_origins_set [of cfg] assms(2)
    by (auto simp: setting_checks_def Let_def)
qed

definition demo_config :: config where
  "demo_config = \<lparr>cf_debug = False, cf_cors_origins = ''https://preview.reeltime.fun'', cf_cors_origin_regex = [],
     cf_secret_key = replicate 32 (CHR ''k''), cf_app_public_url = [],
     cf_database_url = ''postgresql+asyncpg://u:p@db.example.com:5432/x'', cf_pooler_database_url = None,
     cf_database_ssl_root_cert = ''/ca.crt'', cf_database_ssl_allow_insecure = False, cf_baray_api_key = [],
     cf_baray_sk = [], cf_baray_iv = [], cf_baray_checkout_base_url = [], cf_baray_webhook_secret = [],
     cf_api_public_url = [], cf_transcode_service_url = [], cf_transcode_api_key = [], cf_live_service_url = [],
     cf_live_service_api_key = [], cf_bakong_service_url = [], cf_bakong_service_api_key = [],
     cf_bakong_developer_token = [], cf_bakong_account_id = [], cf_bakong_merchant_name = []\<rparr>"

lemma demo_config_accepted: "validate_non_debug_settings (\<lambda>f. f = ''/ca.crt'') demo_config = Inr ()"
proof -
  have "is_ok (validate_non_debug_settings (\<lambda>f. f = ''/ca.crt'') demo_config)" by code_simp
  then show ?thesis by (auto simp: is_ok_iff)
qed

theorem accepted_settings_safe_witness:
  "set (cors_origins demo_config) = set production_cors_origins \<union> set (origins_from_env demo_config)"
  using accepted_settings_safe [OF demo_config_accepted] by (simp add: demo_config_def)

text \<open>A success redirect the check lets through lands on an allowed origin, with the very text it was given.\<close>

lemma success_url_on_allowed_origin:
  assumes "validate_custom_success_url cfg s = Inr t"
  shows "t = s \<and> (\<exists>u. urlparse s = Inr u \<and> url_scheme u \<in> {''http'', ''https''} \<and>
    url_scheme u @ ''://'' @ url_netloc u \<in> set (allowed_app_origins cfg))"
  using assms by (auto simp: validate_custom_success_url_def split: sum.splits if_splits)

end
