(* ===== verification/Db_Connect.thy ===== *)
theory Db_Connect
  imports Config
begin

text \<open>
  \<open>app/db_connect.py\<close>: reading the database address, choosing the TLS mode, recognising transient errors
  and errors of the database layer along an exception's chain of causes, retrying, and the probe that
  finds out whether a database is back. Exceptions are addresses into a heap, because Python's chains may
  share and even loop; outcomes of the awaited operation and the clock are arguments.
\<close>

section \<open>The address\<close>

text \<open>\<open>parsed.port\<close>: no port, a number up to 65535, or \<open>ValueError\<close>.\<close>

fun digits_nat :: "nat \<Rightarrow> string \<Rightarrow> nat option" where
  "digits_nat v [] = Some v"
| "digits_nat v (c # cs) =
     (let n = (of_char c :: nat) in
      if 48 \<le> n \<and> n \<le> 57 then digits_nat (v * 10 + (n - 48)) cs else None)"

definition parse_database_url :: "string \<Rightarrow> url result" where
  "parse_database_url db_url = urlparse (replace_first ''postgresql+asyncpg://'' ''postgresql://'' db_url)"

definition database_port :: "string \<Rightarrow> nat option result" where
  "database_port db_url =
     (case parse_database_url db_url of
        Inl e \<Rightarrow> Inl e
      | Inr u \<Rightarrow>
         (let p = snd (host_and_port (url_netloc u)) in
          if p = [] then Inr None
          else (case digits_nat 0 p of
                  None \<Rightarrow> Inl (ValueError ''Port could not be cast to integer value'')
                | Some n \<Rightarrow> if 65535 < n then Inl (ValueError ''Port out of range 0-65535'') else Inr (Some n))))"

definition database_connection_label :: "string \<Rightarrow> string result" where
  "database_connection_label db_url =
     (case database_host db_url of
        Inl e \<Rightarrow> Inl e
      | Inr h \<Rightarrow>
         (case database_port db_url of
            Inl e \<Rightarrow> Inl e
          | Inr None \<Rightarrow> Inr h
          | Inr (Some n) \<Rightarrow> Inr (if n \<noteq> 0 then h @ '':'' @ string_of_nat n else h)))"

definition validate_database_url :: "string \<Rightarrow> bool \<Rightarrow> string list result" where
  "validate_database_url db_url pooler_configured =
     (case database_host db_url of
        Inl e \<Rightarrow> Inl e
      | Inr h \<Rightarrow>
         (case database_port db_url of
            Inl e \<Rightarrow> Inl e
          | Inr port \<Rightarrow>
              Inr ((if port = Some 6543
                    then [''DATABASE URL uses port 6543 (transaction pooler). '' @
                          ''Use session pooler port 5432 for asyncpg.'']
                    else []) @
                   (if starts_with ''db.'' h \<and> ends_with ''.supabase.co'' h \<and> \<not> pooler_configured
                    then [''DATABASE URL uses direct Supabase host db.*. '' @
                          ''Set POOLER_DATABASE_URL for Docker and macOS (IPv4 pooler, port 5432).'']
                    else []))))"

section \<open>TLS\<close>

datatype tls_mode = No_Tls | Verified string | Unverified

text \<open>\<open>Inl\<close> is the \<open>RuntimeError\<close> raised without a certificate.\<close>

definition remote_ssl_context :: "string option \<Rightarrow> bool \<Rightarrow> string + tls_mode" where
  "remote_ssl_context root_cert allow_insecure =
     (if truthy root_cert then Inr (Verified (the root_cert))
      else if \<not> allow_insecure
      then Inl (''Remote database TLS requires DATABASE_SSL_ROOT_CERT '' @
                ''(or DATABASE_SSL_ALLOW_INSECURE=true as a temporary escape)'')
      else Inr Unverified)"

definition asyncpg_connect_args :: "string \<Rightarrow> string option \<Rightarrow> bool \<Rightarrow> (string + tls_mode) result" where
  "asyncpg_connect_args db_url root_cert allow_insecure =
     (case database_host db_url of
        Inl e \<Rightarrow> Inl e
      | Inr h \<Rightarrow>
          Inr (if local_host h then Inr No_Tls
               else remote_ssl_context (if truthy root_cert then root_cert else None)
                      (allow_insecure \<and> \<not> truthy root_cert)))"

text \<open>The engine of \<open>app/database.py\<close>.\<close>

definition engine_tls :: "config \<Rightarrow> (string + tls_mode) result" where
  "engine_tls cfg =
     asyncpg_connect_args (effective_database_url cfg)
       (if cf_database_ssl_root_cert cfg = [] then None else Some (cf_database_ssl_root_cert cfg))
       (cf_debug cfg \<or> cf_database_ssl_allow_insecure cfg)"

section \<open>Exceptions\<close>

datatype exn_class =
    Timeout_Error | Os_Error | Connection_Error | Sa_Timeout_Error | Operational_Error | Dbapi_Error
  | Other_Error

record exn =
  exn_class :: exn_class
  exn_message :: string
  exn_cause :: "nat option"
  exn_context :: "nat option"
  exn_modules :: "string list"

type_synonym exn_heap = "exn list"

definition next_exn :: "exn \<Rightarrow> nat option" where
  "next_exn e = (case exn_cause e of Some a \<Rightarrow> Some a | None \<Rightarrow> exn_context e)"

definition transient_message :: "string \<Rightarrow> bool" where
  "transient_message msg \<longleftrightarrow>
     list_ex (\<lambda>t. contains t (lower msg)) [''timeout'', ''timed out'', ''connection'', ''cancelled'', ''closed'']"

text \<open>
  The recursion guards against an exception that is its own cause only, so the value is \<open>None\<close> where it
  would not return: on a longer loop of causes.
\<close>

partial_function (option) is_transient_db_error :: "exn_heap \<Rightarrow> nat \<Rightarrow> bool option" where
  "is_transient_db_error hp a =
     (let e = hp ! a in
      if exn_class e \<in> {Timeout_Error, Os_Error, Connection_Error, Sa_Timeout_Error} then Some True
      else if exn_class e \<in> {Operational_Error, Dbapi_Error} then Some (transient_message (exn_message e))
      else (case next_exn e of
              None \<Rightarrow> Some False
            | Some b \<Rightarrow> if b = a then Some False else is_transient_db_error hp b))"

definition db_layer_prefixes :: "string list" where
  "db_layer_prefixes = [''sqlalchemy'', ''asyncpg'', ''app.database'', ''app.db_connect'']"

definition passes_db_layer :: "exn \<Rightarrow> bool" where
  "passes_db_layer e \<longleftrightarrow> list_ex (\<lambda>m. list_ex (\<lambda>p. starts_with p m) db_layer_prefixes) (exn_modules e)"

text \<open>The walk with its \<open>seen\<close> set. An address outside the heap ends it: there is no such object.\<close>

function db_layer_walk :: "exn_heap \<Rightarrow> nat list \<Rightarrow> nat option \<Rightarrow> bool" where
  "db_layer_walk hp seen cur =
     (case cur of
        None \<Rightarrow> False
      | Some a \<Rightarrow>
          if a \<in> set seen \<or> length hp \<le> a then False
          else if passes_db_layer (hp ! a) then True
          else db_layer_walk hp (a # seen) (next_exn (hp ! a)))"
  by pat_completeness auto
termination
proof (relation "measure (\<lambda>(hp, seen, _). card ({..<length hp} - set seen))", goal_cases)
  case (2 hp seen cur a)
  then have "a \<in> {..<length hp} - set seen" by simp
  then have "{..<length hp} - set (a # seen) \<subset> {..<length hp} - set seen" by auto
  then show ?case by (simp add: psubset_card_mono)
qed simp

declare db_layer_walk.simps [simp del]

definition exception_from_db_layer :: "exn_heap \<Rightarrow> nat \<Rightarrow> bool" where
  "exception_from_db_layer hp a = db_layer_walk hp [] (Some a)"

section \<open>Retrying\<close>

text \<open>
  \<open>attempt\<close> runs from 1; \<open>outcome k\<close> is what the operation does the \<open>k\<close>th time it is awaited. The result
  comes with the number of times it was awaited.
\<close>

function retry_from :: "(nat \<Rightarrow> bool) \<Rightarrow> (nat \<Rightarrow> nat + 'a) \<Rightarrow> nat \<Rightarrow> nat \<Rightarrow> (nat + 'a) \<times> nat" where
  "retry_from transient outcome attempts k =
     (case outcome k of
        Inr v \<Rightarrow> (Inr v, k)
      | Inl exc \<Rightarrow>
          if \<not> transient exc \<or> attempts \<le> k then (Inl exc, k)
          else retry_from transient outcome attempts (k + 1))"
  by pat_completeness auto
termination
  by (relation "measure (\<lambda>(_, _, attempts, k). attempts - k)") auto

declare retry_from.simps [simp del]

text \<open>With no attempt at all the loop is skipped and the assertion fails: \<open>None\<close>.\<close>

definition run_with_db_retry ::
    "(nat \<Rightarrow> bool) \<Rightarrow> (nat \<Rightarrow> nat + 'a) \<Rightarrow> nat \<Rightarrow> ((nat + 'a) \<times> nat) option" where
  "run_with_db_retry transient outcome attempts =
     (if attempts = 0 then None else Some (retry_from transient outcome attempts 1))"

section \<open>Waiting for the database to come back\<close>

record warmup =
  wu_locked :: bool
  wu_next_attempt_at :: monotonic

definition warmup_cooldown :: monotonic where "warmup_cooldown = 5"

definition new_warmup :: warmup where
  "new_warmup = \<lparr>wu_locked = False, wu_next_attempt_at = 0\<rparr>"

text \<open>
  \<open>try_connect\<close> up to its ping (the lock is free when it is taken, so nothing happens in between) and
  after it. \<open>True\<close> says that a ping is sent.
\<close>

definition begin_probe :: "monotonic \<Rightarrow> warmup \<Rightarrow> bool \<times> warmup" where
  "begin_probe now w =
     (if wu_locked w \<or> now < wu_next_attempt_at w then (False, w) else (True, w\<lparr>wu_locked := True\<rparr>))"

definition end_probe :: "monotonic \<Rightarrow> bool \<Rightarrow> warmup \<Rightarrow> warmup" where
  "end_probe now answered w =
     (if answered then w\<lparr>wu_locked := False\<rparr>
      else w\<lparr>wu_locked := False, wu_next_attempt_at := now + warmup_cooldown\<rparr>)"

text \<open>The middleware probes while \<open>db_ready\<close> is unset and sets it when the database answers.\<close>

definition warmup_request :: "monotonic \<Rightarrow> bool \<Rightarrow> warmup \<Rightarrow> bool \<times> warmup" where
  "warmup_request now db_ready w = (if db_ready then (False, w) else begin_probe now w)"

section \<open>Chains of causes\<close>

definition exn_next :: "exn_heap \<Rightarrow> nat \<Rightarrow> nat \<Rightarrow> bool" where
  "exn_next hp a b \<longleftrightarrow> a < length hp \<and> next_exn (hp ! a) = Some b"

definition reaches_db_layer :: "exn_heap \<Rightarrow> nat \<Rightarrow> bool" where
  "reaches_db_layer hp a \<longleftrightarrow> (\<exists>b. (exn_next hp)\<^sup>*\<^sup>* a b \<and> b < length hp \<and> passes_db_layer (hp ! b))"

lemma reaches_step:
  assumes "a < length hp" and "\<not> passes_db_layer (hp ! a)"
  shows "reaches_db_layer hp a \<longleftrightarrow> (\<exists>b. next_exn (hp ! a) = Some b \<and> reaches_db_layer hp b)"
proof
  assume "reaches_db_layer hp a"
  then obtain b where b: "(exn_next hp)\<^sup>*\<^sup>* a b" "b < length hp" "passes_db_layer (hp ! b)"
    by (auto simp: reaches_db_layer_def)
  with assms(2) obtain c where "exn_next hp a c" "(exn_next hp)\<^sup>*\<^sup>* c b"
    by (metis converse_rtranclpE)
  with b show "\<exists>b. next_exn (hp ! a) = Some b \<and> reaches_db_layer hp b"
    by (auto simp: exn_next_def reaches_db_layer_def)
next
  assume "\<exists>b. next_exn (hp ! a) = Some b \<and> reaches_db_layer hp b"
  then obtain b c where "exn_next hp a b" "(exn_next hp)\<^sup>*\<^sup>* b c" "c < length hp" "passes_db_layer (hp ! c)"
    using assms(1) by (auto simp: reaches_db_layer_def exn_next_def)
  then show "reaches_db_layer hp a"
    unfolding reaches_db_layer_def by (blast intro: converse_rtranclp_into_rtranclp)
qed

text \<open>What was seen does not pass and leads back into what was seen or to the current exception.\<close>

definition seen_closed :: "exn_heap \<Rightarrow> nat list \<Rightarrow> nat option \<Rightarrow> bool" where
  "seen_closed hp seen cur \<longleftrightarrow>
     (\<forall>s \<in> set seen. \<not> passes_db_layer (hp ! s) \<and>
        (next_exn (hp ! s) = cur \<or> next_exn (hp ! s) \<in> Some ` set seen))"

lemma seen_closed_stuck:
  assumes "seen_closed hp seen (Some a)" and "a \<in> set seen"
  shows "\<not> reaches_db_layer hp a"
proof -
  have "b \<in> set seen" if "(exn_next hp)\<^sup>*\<^sup>* a b" for b
    using that assms(2)
  proof (induction rule: rtranclp_induct)
    case (step b c)
    then have "next_exn (hp ! b) = Some c" "b \<in> set seen" by (simp_all add: exn_next_def)
    then show ?case using assms by (auto simp: seen_closed_def)
  qed
  then show ?thesis using assms(1) by (auto simp: reaches_db_layer_def seen_closed_def)
qed

lemma db_layer_walk_iff:
  "seen_closed hp seen cur \<Longrightarrow>
   db_layer_walk hp seen cur \<longleftrightarrow> (\<exists>a. cur = Some a \<and> reaches_db_layer hp a)"
proof (induction hp seen cur rule: db_layer_walk.induct)
  case (1 hp seen cur)
  note w = db_layer_walk.simps [of hp seen cur]
  show ?case
  proof (cases cur)
    case None
    then show ?thesis using w by simp
  next
    case (Some a)
    consider "a \<in> set seen" | "length hp \<le> a" "a \<notin> set seen" | "a \<notin> set seen" "a < length hp" by fastforce
    then show ?thesis
    proof cases
      case 1
      then show ?thesis using w Some seen_closed_stuck "1.prems" by simp
    next
      case 2
      have "b = a" if "(exn_next hp)\<^sup>*\<^sup>* a b" for b
        using that 2(1) by (auto elim: converse_rtranclpE simp: exn_next_def)
      then have "\<not> reaches_db_layer hp a" unfolding reaches_db_layer_def using 2(1) by (metis leD)
      then show ?thesis using w Some 2 by simp
    next
      case 3
      show ?thesis
      proof (cases "passes_db_layer (hp ! a)")
        case True
        then have "reaches_db_layer hp a" using 3 by (auto simp: reaches_db_layer_def)
        then show ?thesis using w Some 3 True by simp
      next
        case False
        have "seen_closed hp (a # seen) (next_exn (hp ! a))"
          using "1.prems" Some False by (auto simp: seen_closed_def)
        then show ?thesis using "1.IH" [OF Some] 3 False w Some reaches_step [OF 3(2) False] by simp
      qed
    qed
  qed
qed

section \<open>Transient errors\<close>

text \<open>
  On a chain that ends the answer comes, and is that of the first exception that decides. Two
  exceptions that are each other's context make the function recurse without end: Python stops it with a
  \<open>RecursionError\<close>.
\<close>

lemma some_bool: "(\<exists>b. b) = True" "(\<exists>b. \<not> b) = True"
  by auto

lemma transient_total:
  assumes "\<And>a b. next_exn (hp ! a) = Some b \<Longrightarrow> b \<le> a"
  shows "\<exists>r. is_transient_db_error hp a = Some r"
proof (induction a rule: less_induct)
  case (less a)
  show ?case
  proof (cases "next_exn (hp ! a)")
    case None
    then have "is_transient_db_error hp a \<noteq> None" by (subst is_transient_db_error.simps) (simp add: Let_def some_bool)
    then show ?thesis by blast
  next
    case (Some b)
    then have "b = a \<or> b < a" using assms [of a b] by auto
    then have "is_transient_db_error hp a \<noteq> None" using less [of b] Some
      by (subst is_transient_db_error.simps) (auto simp: Let_def some_bool)
    then show ?thesis by blast
  qed
qed

lemma transient_loop_diverges:
  assumes "hp = [\<lparr>exn_class = Other_Error, exn_message = m0, exn_cause = None, exn_context = Some 1, exn_modules = l0\<rparr>,
                 \<lparr>exn_class = Other_Error, exn_message = m1, exn_cause = None, exn_context = Some 0, exn_modules = l1\<rparr>]"
  shows "is_transient_db_error hp 0 = None"
proof -
  have "g = hp \<longrightarrow> a \<in> {0, 1} \<longrightarrow> False" if "is_transient_db_error g a = Some r" for g a r
  proof (rule is_transient_db_error.raw_induct
      [where P = "\<lambda>g a r. g = hp \<longrightarrow> a \<in> {0, 1} \<longrightarrow> False", OF _ that], intro impI, goal_cases)
    case (1 f g a r)
    then have "f hp (1 - a) = Some r" by (auto simp: Let_def next_exn_def assms)
    moreover have "1 - a \<in> {0, 1}" by auto
    ultimately show ?case using 1(1) by blast
  qed
  then show ?thesis by (cases "is_transient_db_error hp 0") auto
qed

section \<open>Retries\<close>

lemma retry_from_spec:
  assumes "retry_from transient outcome attempts k = (r, m)"
  shows "k \<le> m \<and> (k \<le> attempts \<longrightarrow> m \<le> attempts) \<and> r = outcome m \<and>
    (\<forall>j. k \<le> j \<and> j < m \<longrightarrow> (\<exists>e. outcome j = Inl e \<and> transient e)) \<and>
    (\<forall>e. r = Inl e \<longrightarrow> \<not> transient e \<or> attempts \<le> m)"
  using assms
proof (induction transient outcome attempts k rule: retry_from.induct)
  case (1 transient outcome attempts k)
  show ?case
  proof (cases "\<exists>e. outcome k = Inl e \<and> transient e \<and> k < attempts")
    case False
    then show ?thesis using "1.prems" retry_from.simps [of transient outcome attempts k]
      by (auto split: sum.splits if_splits)
  next
    case True
    then obtain e where e: "outcome k = Inl e" "transient e" "k < attempts" by blast
    then have r: "retry_from transient outcome attempts (k + 1) = (r, m)"
      using "1.prems" retry_from.simps [of transient outcome attempts k] by simp
    have "\<exists>e. outcome j = Inl e \<and> transient e" if "k \<le> j" "j < m" for j
      using that "1.IH" [OF e(1) _ r] e by (cases "j = k") auto
    then show ?thesis using "1.IH" [OF e(1) _ r] e by simp
  qed
qed

section \<open>Properties\<close>

text \<open>
  In production the database connection is authenticated. Settings accepted outside debug mode,
  without the explicit escape, give every remote database a TLS context that verifies against the
  configured CA file, never an unverified one; only a local database is spoken to without TLS.
\<close>

theorem production_database_verified:
  assumes "validate_non_debug_settings is_file cfg = Inr ()" and "\<not> cf_debug cfg"
    and "\<not> cf_database_ssl_allow_insecure cfg"
  shows "\<exists>h. database_host (effective_database_url cfg) = Inr h \<and>
    engine_tls cfg = Inr (Inr (if local_host h then No_Tls else Verified (cf_database_ssl_root_cert cfg)))"
proof -
  have tls: "tls_check is_file cfg = Inr ()"
    using assms(1,2) by (auto simp: validate_non_debug_settings_def split: sum.splits if_splits)
  then obtain h where h: "database_host (effective_database_url cfg) = Inr h"
    using assms(2,3) by (auto simp: tls_check_def requires_verified_database_tls_def split: sum.splits)
  have "cf_database_ssl_root_cert cfg \<noteq> []" if "\<not> local_host h"
    using tls h that assms(2,3) by (auto simp: tls_check_def requires_verified_database_tls_def Let_def split: if_splits)
  then show ?thesis using h assms(2,3)
    by (cases "local_host h") (auto simp: engine_tls_def asyncpg_connect_args_def remote_ssl_context_def)
qed

theorem production_database_verified_witness:
  "engine_tls demo_config = Inr (Inr (Verified ''/ca.crt''))"
proof -
  have "case database_host (effective_database_url demo_config) of Inl _ \<Rightarrow> False | Inr h \<Rightarrow> \<not> local_host h"
    by code_simp
  then show ?thesis
    using production_database_verified [OF demo_config_accepted] by (auto simp: demo_config_def)
qed

text \<open>
  Looking for the database layer along an exception's causes always ends, even when the chain runs
  in circles, and finds exactly what can be reached: the answer is yes if and only if some exception on
  the chain passed through the database stack.
\<close>

theorem db_layer_search_exact:
  "exception_from_db_layer hp a \<longleftrightarrow>
   (\<exists>b. (exn_next hp)\<^sup>*\<^sup>* a b \<and> b < length hp \<and> passes_db_layer (hp ! b))"
  unfolding exception_from_db_layer_def reaches_db_layer_def [symmetric]
  by (subst db_layer_walk_iff) (simp_all add: seen_closed_def)

text \<open>
  A retried operation is awaited at most \<open>attempts\<close> times and at least once; it is awaited again only
  after a transient error, and its answer is that of the last time, an error only when that error was not
  transient or the attempts were used up.
\<close>

theorem retry_exact:
  assumes "0 < attempts"
  shows "\<exists>r m. run_with_db_retry transient outcome attempts = Some (r, m) \<and> 1 \<le> m \<and> m \<le> attempts \<and> r = outcome m \<and>
    (\<forall>j. 1 \<le> j \<and> j < m \<longrightarrow> (\<exists>e. outcome j = Inl e \<and> transient e)) \<and>
    (\<forall>e. r = Inl e \<longrightarrow> \<not> transient e \<or> m = attempts)"
proof -
  obtain r m where "retry_from transient outcome attempts 1 = (r, m)" by fastforce
  from retry_from_spec [OF this] this assms show ?thesis
    by (auto simp: run_with_db_retry_def)
qed

text \<open>One probe at a time, and none within the cooldown after one that failed.\<close>

lemma probe_spaced:
  assumes "begin_probe now w = (True, w')"
  shows "\<not> wu_locked w \<and> wu_next_attempt_at w \<le> now \<and> wu_locked w' \<and>
    (\<forall>t. fst (begin_probe t w') = False) \<and>
    (\<forall>t t'. t' < t + warmup_cooldown \<longrightarrow> fst (begin_probe t' (end_probe t False w')) = False)"
  using assms by (auto simp: begin_probe_def end_probe_def split: if_splits)

end
