(* ===== verification/Account_Admin.thy ===== *)
theory Account_Admin
  imports Deletion Listing Playlists
begin

text \<open>
  \<open>app/routers/users.py\<close>: a user's own profile, password, sessions and account, and the
  administrators' user list with suspension and deletion. Hashing and checking a password are
  arguments, as is the token codec. The last part follows any sequence of these requests and shows
  that an active administrator always remains.
\<close>

section \<open>Answers\<close>

record user_read =
  ur_id :: uuid
  ur_email :: string
  ur_full_name :: "string option"
  ur_avatar_url :: "string option"
  ur_role :: string
  ur_is_active :: bool
  ur_has_password :: bool
  ur_created_at :: datetime

definition user_to_read :: "user_row \<Rightarrow> user_read" where
  "user_to_read u =
     \<lparr>ur_id = user_id u, ur_email = user_email u, ur_full_name = user_full_name u,
      ur_avatar_url = user_avatar_url u, ur_role = user_role u, ur_is_active = user_is_active u,
      ur_has_password = (user_password_hash u \<noteq> None), ur_created_at = user_created_at u\<rparr>"

record session_read =
  sr_id :: uuid
  sr_device_label :: string
  sr_created_at :: datetime
  sr_is_current :: bool

definition session_to_read :: "session_row \<Rightarrow> bool \<Rightarrow> session_read" where
  "session_to_read s current =
     \<lparr>sr_id = sess_id s, sr_device_label = sess_device_label s, sr_created_at = sess_created_at s,
      sr_is_current = current\<rparr>"

section \<open>The user's own account\<close>

record user_update =
  uu_full_name :: "string option"
  uu_password :: "string option"
  uu_current_password :: "string option"

text \<open>Letters and digits of ASCII.\<close>

definition is_alpha :: "char \<Rightarrow> bool" where
  "is_alpha c = (let n = (of_char c :: nat) in 65 \<le> n \<and> n \<le> 90 \<or> 97 \<le> n \<and> n \<le> 122)"

definition password_strength :: "string \<Rightarrow> bool" where
  "password_strength v \<longleftrightarrow> list_ex is_alpha v \<and> list_ex is_digit v"

definition valid_user_update :: "user_update \<Rightarrow> bool" where
  "valid_user_update data \<longleftrightarrow>
     (case uu_password data of
        None \<Rightarrow> True
      | Some p \<Rightarrow> 8 \<le> length p \<and> length p \<le> 128 \<and> password_strength p)"

definition update_me ::
    "(string \<Rightarrow> string \<Rightarrow> bool) \<Rightarrow> (string \<Rightarrow> string) \<Rightarrow> user_update \<Rightarrow> user_row \<Rightarrow> db \<Rightarrow>
     (user_read \<times> db) result" where
  "update_me verify_password hash_password data user d =
     (let named = (case uu_full_name data of None \<Rightarrow> user | Some n \<Rightarrow> user\<lparr>user_full_name := Some n\<rparr>) in
      case uu_password data of
        None \<Rightarrow> Inr (user_to_read named, put_user named d)
      | Some p \<Rightarrow>
          if (case user_password_hash user of
                None \<Rightarrow> False
              | Some h \<Rightarrow> \<not> truthy (uu_current_password data) \<or>
                          \<not> verify_password (the (uu_current_password data)) h)
          then Inl (UnauthorizedError ''Current password is incorrect'')
          else (let changed = named\<lparr>user_password_hash := Some (hash_password p)\<rparr> in
                Inr (user_to_read changed, put_user changed d)))"

definition list_my_sessions :: "settings \<Rightarrow> datetime \<Rightarrow> user_row \<Rightarrow> uuid \<Rightarrow> db \<Rightarrow> session_read list" where
  "list_my_sessions cfg now user current d =
     map (\<lambda>s. session_to_read s (sess_id s = current)) (list_active_sessions cfg now (user_id user) d)"

definition revoke_my_session :: "datetime \<Rightarrow> user_row \<Rightarrow> uuid \<Rightarrow> db \<Rightarrow> db result" where
  "revoke_my_session now user sid d =
     (case revoke_session now (user_id user) sid d of (Inl e, _) \<Rightarrow> Inl e | (Inr _, d') \<Rightarrow> Inr d')"

definition delete_me :: "datetime \<Rightarrow> user_row \<Rightarrow> db \<Rightarrow> db result" where
  "delete_me now user d = delete_user_account now user d"

section \<open>Administration\<close>

definition list_users :: "nat \<Rightarrow> nat \<Rightarrow> db \<Rightarrow> user_read page" where
  "list_users page page_size d =
     (case paginate_query page page_size (order_by (\<lambda>u. - user_created_at u) (users d)) of
        (items, found) \<Rightarrow> build_paginated_response (map user_to_read items) found page page_size)"

definition get_user :: "uuid \<Rightarrow> db \<Rightarrow> user_read result" where
  "get_user uid d =
     (case find_user uid d of
        None \<Rightarrow> Inl (NotFoundError ''User not found'') | Some u \<Rightarrow> Inr (user_to_read u))"

definition admin_update_user_status :: "uuid \<Rightarrow> bool \<Rightarrow> user_row \<Rightarrow> db \<Rightarrow> (user_read \<times> db) result" where
  "admin_update_user_status uid active admin d =
     (if uid = user_id admin then Inl (ForbiddenError ''You cannot change your own account status'')
      else
        (case find_user uid d of
           None \<Rightarrow> Inl (NotFoundError ''User not found'')
         | Some u \<Rightarrow>
             (let v = u\<lparr>user_is_active := active\<rparr> in Inr (user_to_read v, put_user v d))))"

definition admin_delete_user :: "uuid \<Rightarrow> user_row \<Rightarrow> db \<Rightarrow> db result" where
  "admin_delete_user uid admin d =
     (if uid = user_id admin then Inl (ForbiddenError ''You cannot delete your own account'')
      else if find_user uid d = None then Inl (NotFoundError ''User not found'')
      else
        (case delete_user_row uid d of
           Inl _ \<Rightarrow> Inl (ConflictError (''Cannot delete a user with payments, purchases, or subscriptions. '' @
                      ''Suspend the account instead.''))
         | Inr d' \<Rightarrow> Inr d'))"

section \<open>Requests\<close>

text \<open>
  A request carries its bearer token; the user it acts for is looked up in the database it changes.
\<close>

datatype user_request =
    Update_Me user_update
  | Delete_Me
  | Revoke_Session uuid
  | Set_Status uuid bool
  | Delete_User uuid

definition as_admin :: "user_row \<Rightarrow> (user_row \<Rightarrow> 'a result) \<Rightarrow> 'a result" where
  "as_admin user f = (case require_admin user of Inl e \<Rightarrow> Inl e | Inr a \<Rightarrow> f a)"

definition serve_user ::
    "('t \<Rightarrow> claims option) \<Rightarrow> (string \<Rightarrow> string \<Rightarrow> bool) \<Rightarrow> (string \<Rightarrow> string) \<Rightarrow>
     datetime \<Rightarrow> 't \<Rightarrow> user_request \<Rightarrow> db \<Rightarrow> db result" where
  "serve_user dec verify_password hash_password now token req d =
     (case get_current_user dec now token d of
        Inl e \<Rightarrow> Inl e
      | Inr user \<Rightarrow>
          (case req of
             Update_Me data \<Rightarrow>
               if valid_user_update data
               then (case update_me verify_password hash_password data user d of
                       Inl e \<Rightarrow> Inl e | Inr (_, d') \<Rightarrow> Inr d')
               else Inl (HTTPException 422 ''Password must include at least one letter and one number'')
           | Delete_Me \<Rightarrow> delete_me now user d
           | Revoke_Session sid \<Rightarrow> revoke_my_session now user sid d
           | Set_Status uid active \<Rightarrow>
               as_admin user (\<lambda>a. case admin_update_user_status uid active a d of
                 Inl e \<Rightarrow> Inl e | Inr (_, d') \<Rightarrow> Inr d')
           | Delete_User uid \<Rightarrow> as_admin user (\<lambda>a. admin_delete_user uid a d)))"

inductive user_step ::
    "('t \<Rightarrow> claims option) \<Rightarrow> (string \<Rightarrow> string \<Rightarrow> bool) \<Rightarrow> (string \<Rightarrow> string) \<Rightarrow> db \<Rightarrow> db \<Rightarrow> bool"
  for dec verify_password hash_password where
  request: "serve_user dec verify_password hash_password now token req d = Inr d' \<Longrightarrow>
    user_step dec verify_password hash_password d d'"

text \<open>Somebody can sign in to the console, and the key of \<open>users\<close> is a key.\<close>

definition console_open :: "db \<Rightarrow> bool" where
  "console_open d \<longleftrightarrow>
     distinct (map user_id (users d)) \<and>
     exists_row (\<lambda>u. user_role u = ''admin'' \<and> user_is_active u) (users d)"

lemma find_user_in: "find_user uid d = Some u \<Longrightarrow> u \<in> set (users d) \<and> user_id u = uid"
  by (auto simp: find_user_def dest!: select_one_Some)

lemma current_user_active:
  "get_current_user dec now token d = Inr u \<Longrightarrow> u \<in> set (users d) \<and> user_is_active u"
  by (auto simp: get_current_user_def dest: find_user_in split: sum.splits if_splits option.splits)

lemma require_admin_iff [simp]: "require_admin u = Inr a \<longleftrightarrow> a = u \<and> user_role u = ''admin''"
  by (auto simp: require_admin_def)

text \<open>Replacing one row by one with the same key keeps every row of another key.\<close>

lemma console_open_put:
  assumes "console_open d" and "users d' = update_where (\<lambda>x. user_id x = user_id v) (\<lambda>_. v) (users d)"
    and "a \<in> set (users d)" and "user_role a = ''admin''" and "user_is_active a"
    and "user_id a = user_id v \<Longrightarrow> user_role v = ''admin'' \<and> user_is_active v"
  shows "console_open d'"
proof -
  have ids: "map user_id (users d') = map user_id (users d)"
    unfolding assms(2) by (rule map_update_where) simp
  let ?a = "if user_id a = user_id v then v else a"
  have "?a \<in> set (users d')" unfolding assms(2) in_update_where using assms(3) by auto
  moreover have "user_role ?a = ''admin'' \<and> user_is_active ?a" using assms(4-6) by auto
  ultimately show ?thesis using assms(1) ids by (auto simp: console_open_def exists_row_iff)
qed

lemma console_open_admin:
  assumes "console_open d"
  obtains a where "a \<in> set (users d)" "user_role a = ''admin''" "user_is_active a"
  using assms by (auto simp: console_open_def exists_row_iff)

lemma console_open_unique:
  "console_open d \<Longrightarrow> u \<in> set (users d) \<Longrightarrow> v \<in> set (users d) \<Longrightarrow> user_id u = user_id v \<Longrightarrow> u = v"
  by (auto simp: console_open_def distinct_map dest: inj_onD [of user_id])

lemma delete_user_row_users:
  "delete_user_row uid d = Inr d' \<Longrightarrow> users d' = delete_where (\<lambda>u. user_id u = uid) (users d)"
  by (auto simp: delete_user_row_def Let_def split: if_splits)

lemma delete_account_users:
  "delete_user_account now u d = Inr d' \<Longrightarrow>
   user_role u \<noteq> ''admin'' \<and> users d' = update_where (\<lambda>x. user_id x = user_id u) (\<lambda>_. blank_user u) (users d)"
  by (auto simp: delete_user_account_def Let_def split: if_splits)

lemma update_me_users:
  assumes "update_me vp hp data user d = Inr (r, d')"
  obtains v where "users d' = update_where (\<lambda>x. user_id x = user_id v) (\<lambda>_. v) (users d)"
    and "user_id v = user_id user" "user_role v = user_role user" "user_is_active v = user_is_active user"
proof -
  have "\<exists>v. d' = put_user v d \<and> user_id v = user_id user \<and> user_role v = user_role user \<and>
      user_is_active v = user_is_active user"
    using assms by (auto simp: update_me_def Let_def split: option.splits if_splits intro!: exI conjI)
  then show ?thesis using that users_put_user by metis
qed

lemma serve_user_console:
  assumes "serve_user dec vp hp now token req d = Inr d'" and "console_open d"
  shows "console_open d'"
proof -
  obtain user where cur: "get_current_user dec now token d = Inr user"
    using assms(1) by (auto simp: serve_user_def split: sum.splits)
  note me = current_user_active [OF cur]
  obtain a where a: "a \<in> set (users d)" "user_role a = ''admin''" "user_is_active a"
    using console_open_admin [OF assms(2)] by blast
  note same = console_open_unique [OF assms(2)]
  show ?thesis
  proof (cases req)
    case (Update_Me data)
    then obtain r where "update_me vp hp data user d = Inr (r, d')"
      using assms(1) cur by (auto simp: serve_user_def split: sum.splits if_splits)
    then obtain v where v: "users d' = update_where (\<lambda>x. user_id x = user_id v) (\<lambda>_. v) (users d)"
      "user_id v = user_id user" "user_role v = user_role user" "user_is_active v = user_is_active user"
      by (rule update_me_users)
    show ?thesis
      by (rule console_open_put [OF assms(2) v(1) a]) (use same [OF a(1), of user] me a v in simp)
  next
    case Delete_Me
    then have "delete_user_account now user d = Inr d'" using assms(1) cur by (simp add: serve_user_def delete_me_def)
    then have del: "user_role user \<noteq> ''admin''"
      "users d' = update_where (\<lambda>x. user_id x = user_id (blank_user user)) (\<lambda>_. blank_user user) (users d)"
      using delete_account_users by (auto simp: blank_user_def)
    show ?thesis
      by (rule console_open_put [OF assms(2) del(2) a]) (use same [OF a(1), of user] me a del in \<open>simp add: blank_user_def\<close>)
  next
    case (Revoke_Session sid)
    then have "users d' = users d"
      using assms(1) cur
      by (auto simp: serve_user_def revoke_my_session_def revoke_session_def split: prod.splits sum.splits option.splits if_splits)
    then show ?thesis using assms(2) by (simp add: console_open_def)
  next
    case (Set_Status uid active)
    then have adm: "user_role user = ''admin''" and ne: "uid \<noteq> user_id user"
      and "\<exists>u. find_user uid d = Some u \<and> d' = put_user (u\<lparr>user_is_active := active\<rparr>) d"
      using assms(1) cur
      by (auto simp: serve_user_def as_admin_def admin_update_user_status_def Let_def
          split: sum.splits if_splits option.splits)
    then obtain u where "find_user uid d = Some u" "d' = put_user (u\<lparr>user_is_active := active\<rparr>) d" by blast
    then show ?thesis using find_user_in [of uid d u] ne adm me
      by (intro console_open_put [OF assms(2), of d' "u\<lparr>user_is_active := active\<rparr>" user]) auto
  next
    case (Delete_User uid)
    then have adm: "user_role user = ''admin''" and ne: "uid \<noteq> user_id user" and "delete_user_row uid d = Inr d'"
      using assms(1) cur
      by (auto simp: serve_user_def as_admin_def admin_delete_user_def split: sum.splits if_splits)
    then have "users d' = delete_where (\<lambda>u. user_id u = uid) (users d)" using delete_user_row_users by blast
    then show ?thesis using adm ne me assms(2) by (auto simp: console_open_def exists_row_iff distinct_map_delete)
  qed
qed

section \<open>Properties\<close>

text \<open>
  C26: Nobody can lock everyone out of the console: whatever users and administrators do to accounts,
  one request after the other, an active administrator remains. Administrators can neither suspend nor
  delete themselves, and the app refuses to delete an administrator's account. Two administrators who
  suspend each other at the same moment are two requests, of which the second finds its sender suspended.
\<close>

theorem console_stays_open:
  assumes "(user_step dec verify_password hash_password)\<^sup>*\<^sup>* d d'" and "console_open d"
  shows "console_open d'"
  using assms
proof (induction rule: rtranclp_induct)
  case (step d1 d2)
  then show ?case by (auto elim!: user_step.cases intro: serve_user_console)
qed simp

definition two_admins :: db where
  "two_admins = one_session_db\<lparr>users :=
     [default_user\<lparr>user_id := 7, user_role := ''admin''\<rparr>, default_user\<lparr>user_id := 8, user_role := ''admin''\<rparr>]\<rparr>"

theorem console_stays_open_witness:
  "\<exists>d'. serve_user Some (=) id 0 session_claims (Set_Status 8 False) two_admins = Inr d' \<and>
        \<not> user_is_active (the (find_user 8 d')) \<and> console_open d'"
proof -
  have cur: "get_current_user Some 0 session_claims two_admins =
      Inr (default_user\<lparr>user_id := 7, user_role := ''admin''\<rparr>)"
    by (simp add: get_current_user_def decode_access_token_def require_active_session_def get_active_session_def
        is_active_session_def two_admins_def one_session_db_def find_user_def default_user_def)
  define d' where "d' = put_user (default_user\<lparr>user_id := 8, user_role := ''admin'', user_is_active := False\<rparr>) two_admins"
  have s: "serve_user Some (=) id 0 session_claims (Set_Status 8 False) two_admins = Inr d'"
    unfolding serve_user_def cur
    by (simp add: as_admin_def require_admin_def admin_update_user_status_def d'_def two_admins_def find_user_def
        default_user_def Let_def)
  have "console_open two_admins" by (simp add: console_open_def two_admins_def default_user_def)
  then have "console_open d'"
    using console_stays_open [of Some "(=)" id two_admins d'] user_step.request [OF s] by blast
  then show ?thesis using s by (simp add: d'_def find_user_def two_admins_def default_user_def)
qed

text \<open>
  A password is only replaced by someone who knows it: with a password set, a profile update that
  changes it carries the current one. No other account's row is touched.
\<close>

lemma password_change_proved:
  assumes "update_me vp hp data user d = Inr (r, d')" and "uu_password data \<noteq> None"
    and "user_password_hash user = Some h"
  shows "\<exists>p. uu_current_password data = Some p \<and> vp p h"
  using assms by (auto simp: update_me_def Let_def truthy_iff split: option.splits if_splits)

lemma update_me_others:
  assumes "update_me vp hp data user d = Inr (r, d')" and "user_id x \<noteq> user_id user"
  shows "x \<in> set (users d') \<longleftrightarrow> x \<in> set (users d)"
proof -
  obtain v where v: "users d' = update_where (\<lambda>x. user_id x = user_id v) (\<lambda>_. v) (users d)" "user_id v = user_id user"
    using update_me_users [OF assms(1)] by metis
  show ?thesis using assms(2) unfolding v(1) in_update_where by (auto simp: v(2))
qed

end
