(* ===== verification/Watch_History.thy ===== *)
theory Watch_History
  imports Listing
begin

text \<open>
  What a visitor finds under their own account: watch positions (\<open>app/routers/watch_progress.py\<close>),
  receipts (\<open>app/routers/purchases.py\<close>) and subscriptions (\<open>app/routers/subscriptions.py\<close>). The
  positions are shown to be a map from users and titles that only a viewer's own requests change.
\<close>

section \<open>Watch positions\<close>

record progress_update =
  wu_position_seconds :: int
  wu_completed :: bool

definition valid_progress_update :: "progress_update \<Rightarrow> bool" where
  "valid_progress_update data \<longleftrightarrow> 0 \<le> wu_position_seconds data \<and> wu_position_seconds data \<le> 86400 * 24"

record progress_series =
  wps_id :: uuid
  wps_slug :: string
  wps_title :: string
  wps_title_km :: "string option"
  wps_poster_key :: "string option"
  wps_banner_key :: "string option"

record progress_content =
  wpc_id :: uuid
  wpc_type :: string
  wpc_slug :: string
  wpc_title :: string
  wpc_title_km :: "string option"
  wpc_poster_key :: "string option"
  wpc_banner_key :: "string option"
  wpc_duration_seconds :: "int option"
  wpc_season_number :: "int option"
  wpc_episode_number :: "int option"
  wpc_series :: "progress_series option"

record progress_read =
  wpr_progress :: progress_row
  wpr_content :: "progress_content option"

definition progress_series_read :: "series_row \<Rightarrow> progress_series" where
  "progress_series_read s =
     \<lparr>wps_id = ser_id s, wps_slug = ser_slug s, wps_title = ser_title s, wps_title_km = ser_title_km s,
      wps_poster_key = ser_poster_key s, wps_banner_key = ser_banner_key s\<rparr>"

definition progress_content_read :: "content_row \<Rightarrow> progress_series option \<Rightarrow> progress_content" where
  "progress_content_read c s =
     \<lparr>wpc_id = ct_id c, wpc_type = ct_type c, wpc_slug = ct_slug c, wpc_title = ct_title c,
      wpc_title_km = ct_title_km c, wpc_poster_key = ct_poster_key c, wpc_banner_key = ct_banner_key c,
      wpc_duration_seconds = ct_duration_seconds c, wpc_season_number = ct_season_number c,
      wpc_episode_number = ct_episode_number c, wpc_series = s\<rparr>"

text \<open>
  Pydantic reads the rows' attributes: neither \<open>WatchProgress.content\<close> nor \<open>Content.series\<close> exists, so
  both fields start empty.
\<close>

definition history_row :: "progress_row \<Rightarrow> content_row \<Rightarrow> series_row option \<Rightarrow> progress_read" where
  "history_row p c s =
     (let row = \<lparr>wpr_progress = p, wpr_content = None\<rparr> in
      if \<not> ct_is_published c then row
      else if ct_type c = ''episode'' \<and> (case s of None \<Rightarrow> True | Some x \<Rightarrow> \<not> ser_is_published x) then row
      else row\<lparr>wpr_content := Some (progress_content_read c
             (if ct_type c = ''episode'' then map_option progress_series_read s else None))\<rparr>)"

text \<open>The joins: the title by its key (an inner join) and its series (an outer join).\<close>

definition list_watch_progress :: "user_row \<Rightarrow> db \<Rightarrow> progress_read list" where
  "list_watch_progress user d =
     concat (map (\<lambda>p.
         map (\<lambda>c. history_row p c
                (case ct_series_id c of
                   None \<Rightarrow> None
                 | Some sid \<Rightarrow> select_one (\<lambda>s. ser_id s = sid) (series_table d)))
           (filter (\<lambda>c. ct_id c = wp_content_id p) (contents d)))
       (order_by (\<lambda>p. (- wp_last_watched_at p, wp_content_id p))
          (filter (\<lambda>p. wp_user_id p = user_id user) (watch_progress d))))"

definition find_progress :: "uuid \<Rightarrow> uuid \<Rightarrow> db \<Rightarrow> progress_row option" where
  "find_progress uid cid d =
     select_one (\<lambda>p. wp_user_id p = uid \<and> wp_content_id p = cid) (watch_progress d)"

definition get_watch_progress :: "uuid \<Rightarrow> user_row \<Rightarrow> db \<Rightarrow> progress_row result" where
  "get_watch_progress cid user d =
     (case find_progress (user_id user) cid d of
        None \<Rightarrow> Inl (HTTPException 404 ''Watch progress not found'') | Some p \<Rightarrow> Inr p)"

definition upsert_watch_progress ::
    "datetime \<Rightarrow> uuid \<Rightarrow> progress_update \<Rightarrow> user_row \<Rightarrow> db \<Rightarrow> (progress_row \<times> db) result" where
  "upsert_watch_progress now cid data user d =
     (case assert_can_track_watch_progress now user cid d of
        Inl e \<Rightarrow> Inl e
      | Inr _ \<Rightarrow>
         (let row = \<lparr>wp_user_id = user_id user, wp_content_id = cid,
                wp_position_seconds = wu_position_seconds data, wp_completed = wu_completed data,
                wp_last_watched_at = now\<rparr> in
          case find_progress (user_id user) cid d of
            Some _ \<Rightarrow>
              Inr (row, d\<lparr>watch_progress :=
                update_where (\<lambda>p. wp_user_id p = user_id user \<and> wp_content_id p = cid)
                  (\<lambda>p. p\<lparr>wp_position_seconds := wu_position_seconds data, wp_completed := wu_completed data,
                        wp_last_watched_at := now\<rparr>) (watch_progress d)\<rparr>)
          | None \<Rightarrow> Inr (row, d\<lparr>watch_progress := watch_progress d @ [row]\<rparr>)))"

section \<open>Receipts\<close>

definition mine :: "user_row option \<Rightarrow> string option \<Rightarrow> uuid option \<Rightarrow> string option \<Rightarrow> bool" where
  "mine user guest_id row_user row_guest =
     (case user of
        Some u \<Rightarrow> row_user = Some (user_id u)
      | None \<Rightarrow> truthy guest_id \<and> row_guest = guest_id)"

definition list_purchases :: "user_row option \<Rightarrow> string option \<Rightarrow> db \<Rightarrow> purchase_row list" where
  "list_purchases user guest_id d =
     filter (\<lambda>p. mine user guest_id (pu_user_id p) (pu_guest_id p)) (purchases d)"

definition list_purchased_movies :: "user_row option \<Rightarrow> string option \<Rightarrow> db \<Rightarrow> content_row list" where
  "list_purchased_movies user guest_id d =
     concat (map (\<lambda>p. filter (\<lambda>c. ct_id c = pu_content_id p \<and> ct_type c = ''single'' \<and> ct_is_published c) (contents d))
       (order_by (\<lambda>p. - pu_purchased_at p) (list_purchases user guest_id d)))"

definition list_purchased_series :: "user_row option \<Rightarrow> string option \<Rightarrow> db \<Rightarrow> series_purchase_row list" where
  "list_purchased_series user guest_id d =
     filter (\<lambda>p. mine user guest_id (spu_user_id p) (spu_guest_id p)) (series_purchases d)"

definition get_purchase :: "uuid \<Rightarrow> user_row option \<Rightarrow> string option \<Rightarrow> db \<Rightarrow> purchase_row result" where
  "get_purchase pid user guest_id d =
     (case select_one (\<lambda>p. pu_id p = pid \<and> mine user guest_id (pu_user_id p) (pu_guest_id p)) (purchases d) of
        None \<Rightarrow> Inl (NotFoundError ''Purchase not found'') | Some p \<Rightarrow> Inr p)"

section \<open>Subscriptions\<close>

definition get_my_subscriptions :: "user_row \<Rightarrow> db \<Rightarrow> subscription_row list" where
  "get_my_subscriptions user d = filter (\<lambda>s. sub_user_id s = user_id user) (subscriptions d)"

definition get_subscription :: "uuid \<Rightarrow> user_row \<Rightarrow> db \<Rightarrow> subscription_row result" where
  "get_subscription sid user d =
     (case select_one (\<lambda>s. sub_id s = sid \<and> sub_user_id s = user_id user) (subscriptions d) of
        None \<Rightarrow> Inl (NotFoundError ''Subscription not found'') | Some s \<Rightarrow> Inr s)"

section \<open>Watch positions are a map\<close>

definition progress_key :: "progress_row \<Rightarrow> uuid \<times> uuid" where
  "progress_key p = (wp_user_id p, wp_content_id p)"

definition progress_map :: "db \<Rightarrow> uuid \<times> uuid \<rightharpoonup> int \<times> bool \<times> datetime" where
  "progress_map d k =
     map_option (\<lambda>p. (wp_position_seconds p, wp_completed p, wp_last_watched_at p))
       (find_progress (fst k) (snd k) d)"

definition progress_ok :: "db \<Rightarrow> bool" where
  "progress_ok d \<longleftrightarrow> distinct (map progress_key (watch_progress d))"

lemma upsert_ok:
  assumes "upsert_watch_progress now cid data user d = Inr (row, d')"
  shows "\<exists>c. assert_can_track_watch_progress now user cid d = Inr c"
  using assms by (auto simp: upsert_watch_progress_def split: sum.splits)

lemma upsert_keys:
  assumes "upsert_watch_progress now cid data user d = Inr (row, d')" and "progress_ok d"
  shows "progress_ok d'"
proof (cases "find_progress (user_id user) cid d")
  case None
  then have "(user_id user, cid) \<notin> set (map progress_key (watch_progress d))"
    by (auto simp: find_progress_def select_one_None progress_key_def)
  moreover obtain r where "watch_progress d' = watch_progress d @ [r]" "progress_key r = (user_id user, cid)"
    using assms(1) None by (auto simp: upsert_watch_progress_def progress_key_def Let_def split: sum.splits)
  ultimately show ?thesis using assms(2) by (auto simp: progress_ok_def)
next
  case (Some p)
  have "map progress_key (watch_progress d') = map progress_key (watch_progress d)"
    using assms(1) Some
    by (auto simp: upsert_watch_progress_def progress_key_def Let_def map_update_where split: sum.splits)
  then show ?thesis using assms(2) by (simp add: progress_ok_def)
qed

lemma upsert_find:
  assumes "upsert_watch_progress now cid data user d = Inr (row, d')"
  shows "find_progress u c d' = (if u = user_id user \<and> c = cid then Some row else find_progress u c d)"
    and "row = \<lparr>wp_user_id = user_id user, wp_content_id = cid, wp_position_seconds = wu_position_seconds data,
      wp_completed = wu_completed data, wp_last_watched_at = now\<rparr>"
proof -
  let ?P = "\<lambda>p. wp_user_id p = user_id user \<and> wp_content_id p = cid"
  let ?Q = "\<lambda>p. wp_user_id p = u \<and> wp_content_id p = c"
  let ?f = "\<lambda>p. p\<lparr>wp_position_seconds := wu_position_seconds data, wp_completed := wu_completed data,
    wp_last_watched_at := now\<rparr>"
  show row: "row = \<lparr>wp_user_id = user_id user, wp_content_id = cid, wp_position_seconds = wu_position_seconds data,
      wp_completed = wu_completed data, wp_last_watched_at = now\<rparr>"
    using assms by (auto simp: upsert_watch_progress_def Let_def split: sum.splits option.splits)
  show "find_progress u c d' = (if u = user_id user \<and> c = cid then Some row else find_progress u c d)"
  proof (cases "find_progress (user_id user) cid d")
    case None
    then have "watch_progress d' = watch_progress d @ [row]"
      using assms by (auto simp: upsert_watch_progress_def Let_def split: sum.splits)
    then show ?thesis using None by (auto simp: find_progress_def select_one_append row split: option.split)
  next
    case (Some p)
    then have w: "watch_progress d' = update_where ?P ?f (watch_progress d)"
      using assms by (auto simp: upsert_watch_progress_def Let_def split: sum.splits)
    have "find_progress u c d' = map_option (\<lambda>p. if ?P p then ?f p else p) (find_progress u c d)"
      unfolding find_progress_def w by (rule select_one_update_keep) simp
    show ?thesis
    proof (cases "u = user_id user \<and> c = cid")
      case True
      moreover have "wp_user_id p = user_id user \<and> wp_content_id p = cid"
        using Some by (auto simp: find_progress_def dest: select_one_Some)
      ultimately show ?thesis using Some \<open>find_progress u c d' = _\<close> by (simp add: row)
    next
      case False
      then have "\<not> ?P q" if "find_progress u c d = Some q" for q
        using that by (auto simp: find_progress_def dest: select_one_Some)
      then show ?thesis using False \<open>find_progress u c d' = _\<close> by (cases "find_progress u c d") auto
    qed
  qed
qed

lemma upsert_map:
  assumes "upsert_watch_progress now cid data user d = Inr (row, d')"
  shows "progress_map d' = (progress_map d)((user_id user, cid) \<mapsto>
    (wu_position_seconds data, wu_completed data, now))"
proof
  fix k :: "uuid \<times> uuid"
  show "progress_map d' k = ((progress_map d)((user_id user, cid) \<mapsto>
    (wu_position_seconds data, wu_completed data, now))) k"
    using upsert_find(1) [OF assms, where u = "fst k" and c = "snd k"] upsert_find(2) [OF assms] by (cases k) (simp add: progress_map_def)
qed

text \<open>
  A history entry describes its title only while the title is published, an episode only while its
  series is too, and in any case carries no media key.
\<close>

lemma history_hides_unpublished:
  assumes "wpr_content (history_row p c s) = Some v"
  shows "ct_is_published c \<and> wpc_id v = ct_id c \<and>
    (ct_type c = ''episode'' \<longrightarrow> (\<exists>x. s = Some x \<and> ser_is_published x \<and> wpc_series v = Some (progress_series_read x)))"
  using assms
  by (auto simp: history_row_def Let_def progress_content_read_def split: if_splits option.splits)

text \<open>
  Saving a position refines one entry of a map: it is allowed to viewers of the title only, and changes
  the entry of that viewer and title and no other.
\<close>

theorem watch_positions_refine_map:
  assumes "upsert_watch_progress now cid data user d = Inr (row, d')" and "progress_ok d"
  shows "progress_ok d' \<and>
    progress_map d' = (progress_map d)((user_id user, cid) \<mapsto>
      (wu_position_seconds data, wu_completed data, now)) \<and>
    (\<exists>c. find_content cid d = Some c \<and> can_access_content now (Some user) None c None d)"
  using upsert_keys [OF assms] upsert_map [OF assms(1)] upsert_ok [OF assms(1)]
  by (auto simp: assert_can_track_watch_progress_def get_published_content_or_404_def
      split: sum.splits option.splits if_splits)

definition free_movie_db :: db where
  "free_movie_db = empty_db\<lparr>contents :=
     [default_content\<lparr>ct_id := 5, ct_is_published := True, ct_is_free := True\<rparr>]\<rparr>"

theorem watch_positions_refine_map_witness:
  "\<exists>row d'. upsert_watch_progress 3 5 \<lparr>wu_position_seconds = 90, wu_completed = False\<rparr>
       (default_user\<lparr>user_id := 7\<rparr>) free_movie_db = Inr (row, d') \<and>
     progress_map d' = Map.empty((7, 5) \<mapsto> (90, False, 3))"
proof -
  have "case upsert_watch_progress 3 5 \<lparr>wu_position_seconds = 90, wu_completed = False\<rparr>
      (default_user\<lparr>user_id := 7\<rparr>) free_movie_db of Inl _ \<Rightarrow> False | Inr _ \<Rightarrow> True"
    by code_simp
  then obtain row d' where u: "upsert_watch_progress 3 5 \<lparr>wu_position_seconds = 90, wu_completed = False\<rparr>
      (default_user\<lparr>user_id := 7\<rparr>) free_movie_db = Inr (row, d')" by (auto split: sum.splits)
  have e: "progress_map free_movie_db = Map.empty" "progress_ok free_movie_db"
    by (auto simp: progress_map_def find_progress_def free_movie_db_def progress_ok_def)
  from watch_positions_refine_map [OF u e(2)] show ?thesis unfolding e(1) using u by auto
qed

text \<open>A receipt is shown to the account or the guest that paid, and to nobody else.\<close>

lemma receipts_private:
  assumes "get_purchase pid user guest_id d = Inr p \<or> p \<in> set (list_purchases user guest_id d)"
  shows "p \<in> set (purchases d) \<and>
    (case user of Some u \<Rightarrow> pu_user_id p = Some (user_id u)
     | None \<Rightarrow> guest_id \<noteq> None \<and> pu_guest_id p = guest_id)"
  using assms
  by (auto simp: get_purchase_def list_purchases_def mine_def split: option.splits dest!: select_one_Some)

end
