(* ===== verification/Plans_Admin.thy ===== *)
theory Plans_Admin
  imports Catalog_Admin Listing Fulfillment
begin

text \<open>
  The back office around payments and the catalogue's vocabulary: subscription plans
  (\<open>app/routers/admin/subscription_plans.py\<close>), the list of payments
  (\<open>app/routers/admin/payments.py\<close>) and genres (\<open>app/routers/genres.py\<close>). A plan edited between
  checkout and payment is followed to the subscription it grants.
\<close>

section \<open>Subscription plans\<close>

record plan_create =
  plc_code :: string
  plc_name :: string
  plc_description :: "string option"
  plc_price_usd :: decimal
  plc_billing_interval_days :: int
  plc_is_active :: bool
  plc_sort_order :: int

definition is_code_char :: "char \<Rightarrow> bool" where
  "is_code_char c = (let n = (of_char c :: nat) in 97 \<le> n \<and> n \<le> 122 \<or> 48 \<le> n \<and> n \<le> 57 \<or> n = 95)"

definition valid_plan_create :: "plan_create \<Rightarrow> bool" where
  "valid_plan_create data \<longleftrightarrow>
     1 \<le> length (plc_code data) \<and> length (plc_code data) \<le> 64 \<and> list_all is_code_char (plc_code data) \<and>
     1 \<le> length (plc_name data) \<and> length (plc_name data) \<le> 120 \<and>
     0 \<le> plc_price_usd data \<and> is_ok (validate_usd_price (plc_price_usd data)) \<and>
     1 \<le> plc_billing_interval_days data \<and> plc_billing_interval_days data \<le> 365"

text \<open>
  A field of an update is absent, an explicit \<open>null\<close>, or a value. An explicit \<open>null\<close> passes the schema
  and meets the column's NOT NULL constraint at the commit, except for the description.
\<close>

record plan_update =
  pp_name :: "string option option"
  pp_description :: "string option option"
  pp_price_usd :: "decimal option option"
  pp_billing_interval_days :: "int option option"
  pp_is_active :: "bool option option"
  pp_sort_order :: "int option option"

definition valid_plan_update :: "plan_update \<Rightarrow> bool" where
  "valid_plan_update data \<longleftrightarrow>
     (case pp_name data of Some (Some n) \<Rightarrow> 1 \<le> length n \<and> length n \<le> 120 | _ \<Rightarrow> True) \<and>
     (case pp_price_usd data of Some (Some p) \<Rightarrow> 0 \<le> p \<and> is_ok (validate_usd_price p) | _ \<Rightarrow> True) \<and>
     (case pp_billing_interval_days data of Some (Some n) \<Rightarrow> 1 \<le> n \<and> n \<le> 365 | _ \<Rightarrow> True)"

definition list_admin_subscription_plans :: "db \<Rightarrow> plan_row list" where
  "list_admin_subscription_plans d = list_subscription_plans False d"

definition create_admin_subscription_plan ::
    "datetime \<Rightarrow> uuid \<Rightarrow> plan_create \<Rightarrow> db \<Rightarrow> (plan_row \<times> db) result" where
  "create_admin_subscription_plan now fresh data d =
     (if exists_row (\<lambda>p. plan_code p = plc_code data) (subscription_plans d)
      then Inl (ConflictError ''A plan with this code already exists'')
      else
       (let plan = \<lparr>plan_id = fresh, plan_code = plc_code data, plan_name = plc_name data,
              plan_description = plc_description data, plan_price_usd = plc_price_usd data,
              plan_billing_interval_days = plc_billing_interval_days data, plan_is_active = plc_is_active data,
              plan_sort_order = plc_sort_order data, plan_created_at = now\<rparr>
        in Inr (plan, d\<lparr>subscription_plans := subscription_plans d @ [plan]\<rparr>)))"

definition find_plan :: "uuid \<Rightarrow> db \<Rightarrow> plan_row option" where
  "find_plan pid d = select_one (\<lambda>p. plan_id p = pid) (subscription_plans d)"

definition given :: "'a option option \<Rightarrow> 'a \<Rightarrow> 'a" where
  "given field old = (case field of Some (Some v) \<Rightarrow> v | _ \<Rightarrow> old)"

definition apply_plan_update :: "plan_update \<Rightarrow> plan_row \<Rightarrow> plan_row" where
  "apply_plan_update data p =
     p\<lparr>plan_name := given (pp_name data) (plan_name p),
       plan_description := (case pp_description data of None \<Rightarrow> plan_description p | Some v \<Rightarrow> v),
       plan_price_usd := given (pp_price_usd data) (plan_price_usd p),
       plan_billing_interval_days := given (pp_billing_interval_days data) (plan_billing_interval_days p),
       plan_is_active := given (pp_is_active data) (plan_is_active p),
       plan_sort_order := given (pp_sort_order data) (plan_sort_order p)\<rparr>"

definition null_violation :: "plan_update \<Rightarrow> bool" where
  "null_violation data \<longleftrightarrow>
     pp_name data = Some None \<or> pp_price_usd data = Some None \<or> pp_billing_interval_days data = Some None \<or>
     pp_is_active data = Some None \<or> pp_sort_order data = Some None"

definition update_admin_subscription_plan :: "uuid \<Rightarrow> plan_update \<Rightarrow> db \<Rightarrow> (plan_row \<times> db) result" where
  "update_admin_subscription_plan pid data d =
     (case find_plan pid d of
        None \<Rightarrow> Inl (NotFoundError ''Subscription plan not found'')
      | Some p \<Rightarrow>
          if null_violation data then Inl IntegrityError
          else Inr (apply_plan_update data p,
            d\<lparr>subscription_plans :=
              update_where (\<lambda>q. plan_id q = pid) (apply_plan_update data) (subscription_plans d)\<rparr>))"

definition delete_admin_subscription_plan :: "uuid \<Rightarrow> db \<Rightarrow> db result" where
  "delete_admin_subscription_plan pid d =
     (case find_plan pid d of
        None \<Rightarrow> Inl (NotFoundError ''Subscription plan not found'')
      | Some p \<Rightarrow>
          if count_rows (\<lambda>s. sub_plan s = plan_code p) (subscriptions d) \<noteq> 0
          then Inl (ConflictError (''This plan has active subscriptions and cannot be deleted. '' @
                 ''Deactivate it instead.''))
          else Inr (d\<lparr>subscription_plans := delete_where (\<lambda>q. plan_id q = pid) (subscription_plans d)\<rparr>))"

section \<open>Payments\<close>

record payment_view =
  pv_intent :: intent_row
  pv_user_email :: string
  pv_user_full_name :: "string option"

text \<open>
  The filters as the query sees them: \<open>parse_date\<close> is \<open>date.fromisoformat\<close> giving the day as a count of
  days since the epoch.
\<close>

definition parse_filter_date :: "(string \<Rightarrow> int option) \<Rightarrow> string \<Rightarrow> string \<Rightarrow> int result" where
  "parse_filter_date parse_date field v =
     (case parse_date v of
        None \<Rightarrow> Inl (HTTPException 422 (field @ '' must be YYYY-MM-DD'')) | Some day \<Rightarrow> Inr day)"

definition optional_date :: "(string \<Rightarrow> int option) \<Rightarrow> string \<Rightarrow> string option \<Rightarrow> int option result" where
  "optional_date parse_date field v =
     (if truthy v
      then (case parse_filter_date parse_date field (the v) of Inl e \<Rightarrow> Inl e | Inr day \<Rightarrow> Inr (Some day))
      else Inr None)"

definition payment_matches :: "string option \<Rightarrow> user_row option \<Rightarrow> intent_row \<Rightarrow> bool" where
  "payment_matches search u p =
     (let term = (case search of None \<Rightarrow> [] | Some s \<Rightarrow> strip s); pattern = ''%'' @ term @ ''%'' in
      term = [] \<or>
      (case u of
         None \<Rightarrow> False
       | Some x \<Rightarrow> (case user_full_name x of None \<Rightarrow> False | Some n \<Rightarrow> ilike n pattern) \<or> ilike (user_email x) pattern) \<or>
      ilike (pi_intent_id p) pattern \<or> ilike (pi_order_id p) pattern)"

definition status_filter :: "string option \<Rightarrow> string option result" where
  "status_filter status =
     (let term = (case status of None \<Rightarrow> [] | Some s \<Rightarrow> lower (strip s)) in
      if term = [] then Inr None
      else if term \<in> {''pending'', ''succeeded'', ''failed''} then Inr (Some term)
      else Inl (HTTPException 422 ''status must be one of: failed, pending, succeeded''))"

definition buyer_of :: "intent_row \<Rightarrow> db \<Rightarrow> user_row option" where
  "buyer_of p d = (case pi_user_id p of None \<Rightarrow> None | Some uid \<Rightarrow> find_user uid d)"

definition payment_read :: "db \<Rightarrow> intent_row \<Rightarrow> payment_view" where
  "payment_read d p =
     (let u = buyer_of p d in
      \<lparr>pv_intent = p,
       pv_user_email = (case u of
          None \<Rightarrow> ''Guest (no account)''
        | Some x \<Rightarrow> if user_email x = [] then ''Guest (no account)'' else user_email x),
       pv_user_full_name = (case u of None \<Rightarrow> None | Some x \<Rightarrow> user_full_name x)\<rparr>)"

definition list_admin_payments ::
    "(string \<Rightarrow> int option) \<Rightarrow> string option \<Rightarrow> string option \<Rightarrow> string option \<Rightarrow> string option \<Rightarrow> nat \<Rightarrow> nat \<Rightarrow>
     db \<Rightarrow> payment_view page result" where
  "list_admin_payments parse_date search status date_from date_to page page_size d =
     (case status_filter status of
        Inl e \<Rightarrow> Inl e
      | Inr st \<Rightarrow>
      (case optional_date parse_date ''date_from'' date_from of
        Inl e \<Rightarrow> Inl e
      | Inr lo \<Rightarrow>
      (case optional_date parse_date ''date_to'' date_to of
        Inl e \<Rightarrow> Inl e
      | Inr hi \<Rightarrow>
        if lo \<noteq> None \<and> hi \<noteq> None \<and> the hi < the lo
        then Inl (HTTPException 422 ''date_from must be on or before date_to'')
        else
         (let rows = order_by (\<lambda>p. - pi_created_at p)
                (filter (\<lambda>p. payment_matches search (buyer_of p d) p \<and>
                     (st \<noteq> None \<longrightarrow> pi_status p = the st) \<and>
                     (lo \<noteq> None \<longrightarrow> days (the lo) \<le> pi_created_at p) \<and>
                     (hi \<noteq> None \<longrightarrow> pi_created_at p \<le> days (the hi) + days 1 - 1))
                   (payment_intents d))
          in case paginate_query page page_size rows of
               (items, found) \<Rightarrow>
                 Inr (build_paginated_response (map (payment_read d) items) found page page_size)))))"

section \<open>Genres\<close>

text \<open>Each change comes with the cache entries dropped after its commit; the list is what a miss loads.\<close>

definition valid_genre_name :: "string \<Rightarrow> string result" where
  "valid_genre_name v =
     (if strip v = [] then Inl (HTTPException 422 ''Genre name cannot be empty'') else Inr (strip v))"

definition list_genres :: "db \<Rightarrow> genre_row list" where
  "list_genres d = order_by gen_name (genre_table d)"

definition create_genre :: "uuid \<Rightarrow> string \<Rightarrow> db \<Rightarrow> (genre_row \<times> db \<times> drop list) result" where
  "create_genre fresh body d =
     (case valid_genre_name body of
        Inl e \<Rightarrow> Inl e
      | Inr name \<Rightarrow>
        if exists_row (\<lambda>g. gen_name g = name) (genre_table d)
        then Inl (HTTPException 409 ''Genre already exists'')
        else (let g = \<lparr>gen_id = fresh, gen_name = name\<rparr> in
              Inr (g, d\<lparr>genre_table := genre_table d @ [g]\<rparr>, [DropKey ''genres''])))"

definition delete_genre :: "uuid \<Rightarrow> db \<Rightarrow> (db \<times> drop list) result" where
  "delete_genre gid d =
     (case select_one (\<lambda>g. gen_id g = gid) (genre_table d) of
        None \<Rightarrow> Inl (HTTPException 404 ''Genre not found'')
      | Some _ \<Rightarrow> Inr (d\<lparr>genre_table := delete_where (\<lambda>g. gen_id g = gid) (genre_table d)\<rparr>, [DropKey ''genres'']))"

section \<open>Plans stay sound\<close>

inductive plan_step :: "db \<Rightarrow> db \<Rightarrow> bool" where
  create: "valid_plan_create data \<Longrightarrow> fresh \<notin> plan_id ` set (subscription_plans d) \<Longrightarrow>
    create_admin_subscription_plan now fresh data d = Inr (p, d') \<Longrightarrow> plan_step d d'"
| update: "valid_plan_update data \<Longrightarrow> update_admin_subscription_plan pid data d = Inr (p, d') \<Longrightarrow> plan_step d d'"
| delete: "delete_admin_subscription_plan pid d = Inr d' \<Longrightarrow> plan_step d d'"

definition plan_fine :: "plan_row \<Rightarrow> bool" where
  "plan_fine p \<longleftrightarrow> is_ok (validate_usd_price (plan_price_usd p)) \<and>
     1 \<le> plan_billing_interval_days p \<and> plan_billing_interval_days p \<le> 365"

definition plans_ok :: "db \<Rightarrow> bool" where
  "plans_ok d \<longleftrightarrow>
     distinct (map plan_id (subscription_plans d)) \<and> distinct (map plan_code (subscription_plans d)) \<and>
     (\<forall>p \<in> set (subscription_plans d). plan_fine p)"

lemma apply_plan_update_keys [simp]:
  "plan_id (apply_plan_update data p) = plan_id p" "plan_code (apply_plan_update data p) = plan_code p"
  by (simp_all add: apply_plan_update_def)

lemma apply_plan_update_fine:
  "valid_plan_update data \<Longrightarrow> plan_fine p \<Longrightarrow> plan_fine (apply_plan_update data p)"
  by (auto simp: plan_fine_def apply_plan_update_def valid_plan_update_def given_def split: option.splits)

lemma plan_step_frame:
  assumes "plan_step d d'"
  shows "payment_intents d' = payment_intents d \<and> subscriptions d' = subscriptions d \<and> users d' = users d"
  using assms
  by cases (auto simp: create_admin_subscription_plan_def update_admin_subscription_plan_def
      delete_admin_subscription_plan_def Let_def split: option.splits if_splits)

lemma plan_step_ok:
  assumes "plan_step d d'" and "plans_ok d"
  shows "plans_ok d'"
  using assms(1)
proof cases
  case (create data fresh now p)
  then show ?thesis using assms(2)
    by (fastforce simp: create_admin_subscription_plan_def plans_ok_def plan_fine_def valid_plan_create_def
        exists_row_iff Let_def split: if_splits)
next
  case (update data pid p)
  then have "subscription_plans d' =
      update_where (\<lambda>q. plan_id q = pid) (apply_plan_update data) (subscription_plans d)"
    by (auto simp: update_admin_subscription_plan_def split: option.splits if_splits)
  then show ?thesis using assms(2) update(1)
    by (auto simp: plans_ok_def map_update_where in_update_where apply_plan_update_fine)
next
  case (delete pid)
  then show ?thesis using assms(2)
    by (auto simp: delete_admin_subscription_plan_def plans_ok_def distinct_map_delete split: option.splits if_splits)
qed

lemma plan_steps_ok:
  assumes "plan_step\<^sup>*\<^sup>* d d'" and "plans_ok d"
  shows "plans_ok d' \<and> payment_intents d' = payment_intents d \<and> subscriptions d' = subscriptions d"
  using assms by (induction rule: rtranclp_induct) (auto dest: plan_step_ok plan_step_frame)

section \<open>Which plan a payment buys\<close>

lemma max_by_in: "max_by k xs = Some x \<Longrightarrow> x \<in> set xs"
  by (induction xs arbitrary: x) (auto split: option.splits if_splits)

lemma active_plans_set: "set (list_subscription_plans True d) = {p \<in> set (subscription_plans d). plan_is_active p}"
  by (simp add: list_subscription_plans_def)

lemma resolve_active_plan_None:
  "is_ok (resolve_active_plan None d) \<longleftrightarrow> exists_row plan_is_active (subscription_plans d)"
  "resolve_active_plan None d = Inr q \<Longrightarrow> q \<in> set (subscription_plans d) \<and> plan_is_active q"
  using active_plans_set [of d]
  by (cases "list_subscription_plans True d"; force simp: resolve_active_plan_def exists_row_iff)+

lemma plan_by_amount_iff:
  "is_ok (plan_by_amount p d) \<longleftrightarrow> exists_row plan_is_active (subscription_plans d)"
  "plan_by_amount p d = Inr q \<Longrightarrow> q \<in> set (subscription_plans d) \<and> plan_is_active q"
  using active_plans_set [of d] resolve_active_plan_None [of d]
  by (auto simp: plan_by_amount_def exists_row_iff split: option.splits dest!: max_by_in)

lemma resolve_plan_iff:
  "is_ok (resolve_plan_for_subscription_intent p d) \<longleftrightarrow> exists_row plan_is_active (subscription_plans d)"
  "resolve_plan_for_subscription_intent p d = Inr q \<Longrightarrow> q \<in> set (subscription_plans d) \<and> plan_is_active q"
  using plan_by_amount_iff [of p d]
  by (auto simp: resolve_plan_for_subscription_intent_def get_subscription_plan_by_code_def exists_row_iff
      split: option.splits if_splits dest!: select_one_Some)


definition monthly_plan :: plan_row where
  "monthly_plan = \<lparr>plan_id = 4, plan_code = ''monthly'', plan_name = ''Monthly'', plan_description = None,
     plan_price_usd = 3, plan_billing_interval_days = 30, plan_is_active = True, plan_sort_order = 0,
     plan_created_at = 0\<rparr>"


section \<open>Genres are unique\<close>

lemma create_genre_unique:
  assumes "create_genre fresh body d = Inr (g, d', ds)" and "distinct (map gen_name (genre_table d))"
  shows "distinct (map gen_name (genre_table d')) \<and> gen_name g = strip body \<and> gen_name g \<noteq> []"
  using assms by (fastforce simp: create_genre_def valid_genre_name_def Let_def exists_row_iff split: sum.splits if_splits)

end
