(* ===== verification/Reports.thy ===== *)
theory Reports
  imports Plans_Admin
begin

text \<open>
  The reports of the console (\<open>app/routers/admin/dashboard.py\<close>): the summary, the revenue timeline and
  the table of titles. A SQL \<open>GROUP BY\<close> is \<open>group_by\<close>, \<open>coalesce(sum(..), 0)\<close> a sum, an outer join the
  rows of a key or none. Dates are counts of days since the epoch. PostgreSQL's \<open>date()\<close> of a timestamp
  follows the time zone of the database session, which no file of the repository sets: its offset from
  UTC is an argument, in microseconds.
\<close>

section \<open>Aggregates\<close>

definition group_by :: "('a \<Rightarrow> 'k) \<Rightarrow> 'a list \<Rightarrow> ('k \<times> 'a list) list" where
  "group_by key rows = map (\<lambda>k. (k, filter (\<lambda>r. key r = k) rows)) (remdups (map key rows))"

definition sum_of :: "('a \<Rightarrow> decimal) \<Rightarrow> 'a list \<Rightarrow> decimal" where
  "sum_of f rows = sum_list (map f rows)"

lemma sum_of_simps [simp]:
  "sum_of f [] = 0" "sum_of f (r # rows) = f r + sum_of f rows" "sum_of f (xs @ ys) = sum_of f xs + sum_of f ys"
  by (simp_all add: sum_of_def)

text \<open>The group of a key is the rows of that key; no group means no row.\<close>

lemma map_of_group_by:
  "map_of (group_by key rows) k =
     (if k \<in> key ` set rows then Some (filter (\<lambda>r. key r = k) rows) else None)"
proof -
  have "map_of (map (\<lambda>k. (k, f k)) ks) k = (if k \<in> set ks then Some (f k) else None)" for f :: "'b \<Rightarrow> 'a list" and ks
    by (induction ks) auto
  then show ?thesis by (simp add: group_by_def)
qed

definition group_of :: "('k \<times> 'a list) list \<Rightarrow> 'k \<Rightarrow> 'a list" where
  "group_of groups k = (case map_of groups k of None \<Rightarrow> [] | Some rows \<Rightarrow> rows)"

lemma group_of_group_by [simp]: "group_of (group_by key rows) k = filter (\<lambda>r. key r = k) rows"
proof (cases "k \<in> key ` set rows")
  case False
  then have "filter (\<lambda>r. key r = k) rows = []" by (auto simp: filter_empty_conv)
  with False show ?thesis by (simp add: group_of_def map_of_group_by)
qed (simp add: group_of_def map_of_group_by)

text \<open>Nothing is lost or counted twice when the groups of distinct keys cover the rows.\<close>

lemma sum_list_hit:
  fixes v :: "'b::comm_monoid_add"
  shows "distinct ks \<Longrightarrow> k \<in> set ks \<Longrightarrow> (\<Sum>x\<leftarrow>ks. if k = x then v else 0) = v"
proof (induction ks)
  case (Cons x ks)
  have "k \<notin> set ks \<Longrightarrow> (\<Sum>x\<leftarrow>ks. if k = x then v else 0) = 0" by (induction ks) auto
  with Cons show ?case by auto
qed simp

lemma sum_groups:
  fixes f :: "'a \<Rightarrow> 'b::comm_monoid_add"
  assumes "distinct ks" and "key ` set rows \<subseteq> set ks"
  shows "(\<Sum>k\<leftarrow>ks. sum_list (map f (filter (\<lambda>r. key r = k) rows))) = sum_list (map f rows)"
  using assms(2)
proof (induction rows)
  case (Cons r rows)
  have "(\<Sum>k\<leftarrow>ks. sum_list (map f (filter (\<lambda>x. key x = k) (r # rows)))) =
      (\<Sum>k\<leftarrow>ks. (if key r = k then f r else 0) + sum_list (map f (filter (\<lambda>x. key x = k) rows)))"
    by (rule arg_cong [where f = sum_list]) simp
  also have "\<dots> = f r + sum_list (map f rows)"
    using Cons assms(1) by (simp add: sum_list_addf sum_list_hit)
  finally show ?case by simp
qed simp

lemma sum_of_groups:
  assumes "distinct ks" and "key ` set rows \<subseteq> set ks"
  shows "(\<Sum>k\<leftarrow>ks. sum_of f (filter (\<lambda>r. key r = k) rows)) = sum_of f rows"
  unfolding sum_of_def using assms by (rule sum_groups)

lemmas count_groups = sum_groups [where f = "\<lambda>_. 1 :: nat", simplified sum_list_triv, simplified]

section \<open>The summary\<close>

record dashboard_summary =
  ds_users :: "nat \<times> nat \<times> nat"
  ds_movies :: nat
  ds_series :: nat
  ds_published :: nat
  ds_drafts :: nat
  ds_review :: nat
  ds_scheduled :: nat
  ds_payments :: "nat \<times> nat \<times> nat \<times> nat"
  ds_revenue_usd :: decimal
  ds_transcodes :: "nat \<times> nat \<times> nat"

definition all_time_revenue :: "db \<Rightarrow> decimal" where
  "all_time_revenue d = sum_of pi_amount_usd (filter (\<lambda>p. pi_status p = ''succeeded'') (payment_intents d))"

definition get_dashboard_summary :: "db \<Rightarrow> dashboard_summary" where
  "get_dashboard_summary d =
     (let content_status = (\<lambda>st. count_rows (\<lambda>c. ct_status c = st) (contents d));
          transcode = (\<lambda>st. count_rows (\<lambda>c. ct_transcode_status c = st) (contents d));
          paid = (\<lambda>st. count_rows (\<lambda>p. pi_status p = st) (payment_intents d)) in
      \<lparr>ds_users = (length (users d), count_rows (\<lambda>u. user_role u = ''admin'') (users d),
                   count_rows user_is_active (users d)),
       ds_movies = count_rows (\<lambda>c. ct_type c = ''single'') (contents d),
       ds_series = length (series_table d),
       ds_published = content_status ''published'', ds_drafts = content_status ''draft'',
       ds_review = content_status ''review'', ds_scheduled = content_status ''scheduled'',
       ds_payments = (length (payment_intents d), paid ''succeeded'', paid ''pending'', paid ''failed''),
       ds_revenue_usd = all_time_revenue d,
       ds_transcodes = (transcode ''pending'', transcode ''processing'', transcode ''failed'')\<rparr>)"

section \<open>The revenue timeline\<close>

record timeline_point =
  tp_date :: int
  tp_revenue_usd :: decimal
  tp_payment_count :: nat

record kind_slice =
  ks_kind :: string
  ks_label :: string
  ks_revenue_usd :: decimal
  ks_payment_count :: nat

record timeline =
  tl_days :: int
  tl_date_from :: int
  tl_date_to :: int
  tl_period_revenue_usd :: decimal
  tl_all_time_revenue_usd :: decimal
  tl_succeeded_payments :: nat
  tl_points :: "timeline_point list"
  tl_by_kind :: "kind_slice list"

definition revenue_timestamp :: "intent_row \<Rightarrow> datetime" where
  "revenue_timestamp p = (case pi_resolved_at p of None \<Rightarrow> pi_created_at p | Some t \<Rightarrow> t)"

definition day_of :: "datetime \<Rightarrow> int" where
  "day_of t = t div days 1"

text \<open>\<open>date.min\<close>: a timeline reaching below it is an \<open>OverflowError\<close>, which nobody handles.\<close>

definition date_min :: int where
  "date_min = - 719162"

text \<open>The range of days, from the optional bounds and the number of days asked for.\<close>

definition timeline_range ::
    "(string \<Rightarrow> int option) \<Rightarrow> int \<Rightarrow> int \<Rightarrow> string option \<Rightarrow> string option \<Rightarrow> (int \<times> int) result" where
  "timeline_range parse_date today n date_from date_to =
     (case optional_date parse_date ''date_from'' date_from of
        Inl e \<Rightarrow> Inl e
      | Inr lo \<Rightarrow>
      (case optional_date parse_date ''date_to'' date_to of
        Inl e \<Rightarrow> Inl e
      | Inr hi \<Rightarrow>
        if lo \<noteq> None \<and> hi \<noteq> None \<and> the hi < the lo
        then Inl (HTTPException 422 ''date_from must be on or before date_to'')
        else
         (let end_date = (case hi of None \<Rightarrow> today | Some e \<Rightarrow> e);
              start_date = (case lo of None \<Rightarrow> end_date - (n - 1) | Some s \<Rightarrow> s);
              last = (if today < end_date then today else end_date)
          in if start_date < date_min then Inl (ValueError ''date value out of range'')
             else if last < start_date then Inl (HTTPException 422 ''date_from must be on or before date_to'')
             else if 366 < last - start_date + 1 then Inl (HTTPException 422 ''Date range cannot exceed 366 days'')
             else Inr (start_date, last))))"

text \<open>The \<open>CHECK\<close> constraint on \<open>payment_intents.kind\<close>.\<close>

definition kinds_constrained :: "db \<Rightarrow> bool" where
  "kinds_constrained d \<longleftrightarrow> list_all (\<lambda>p. pi_kind p \<in> {''single'', ''sub'', ''series''}) (payment_intents d)"

definition succeeded_between :: "datetime \<Rightarrow> datetime \<Rightarrow> db \<Rightarrow> intent_row list" where
  "succeeded_between since until d =
     filter (\<lambda>p. pi_status p = ''succeeded'' \<and> since \<le> revenue_timestamp p \<and> revenue_timestamp p \<le> until)
       (payment_intents d)"

text \<open>The loop over the days; a day without a row counts as nothing.\<close>

function timeline_walk ::
    "(int \<times> intent_row list) list \<Rightarrow> int \<Rightarrow> int \<Rightarrow> timeline_point list \<times> decimal \<times> nat \<Rightarrow>
     timeline_point list \<times> decimal \<times> nat" where
  "timeline_walk by_date end_date cursor (points, revenue, paid) =
     (if cursor \<le> end_date then
        (let rows = group_of by_date cursor; r = sum_of pi_amount_usd rows; n = length rows in
         timeline_walk by_date end_date (cursor + 1)
           (points @ [\<lparr>tp_date = cursor, tp_revenue_usd = r, tp_payment_count = n\<rparr>], revenue + r, paid + n))
      else (points, revenue, paid))"
  by pat_completeness auto

termination
  by (relation "measure (\<lambda>(_, end_date, cursor, _). nat (end_date + 1 - cursor))") auto

declare timeline_walk.simps [simp del]

definition kind_slice_of :: "(string \<times> intent_row list) list \<Rightarrow> string \<Rightarrow> string \<Rightarrow> string \<Rightarrow> kind_slice" where
  "kind_slice_of kind_totals kind_key db_kind label =
     (let rows = group_of kind_totals db_kind in
      \<lparr>ks_kind = kind_key, ks_label = label, ks_revenue_usd = sum_of pi_amount_usd rows,
       ks_payment_count = length rows\<rparr>)"

definition get_revenue_timeline ::
    "(string \<Rightarrow> int option) \<Rightarrow> int \<Rightarrow> datetime \<Rightarrow> int \<Rightarrow> string option \<Rightarrow> string option \<Rightarrow> db \<Rightarrow> timeline result" where
  "get_revenue_timeline parse_date zone now n date_from date_to d =
     (if n < 7 \<or> 90 < n then Inl (HTTPException 422 ''Unprocessable Entity'')
      else case timeline_range parse_date (day_of now) n date_from date_to of
        Inl e \<Rightarrow> Inl e
      | Inr (start_date, end_date) \<Rightarrow>
         (let rows = succeeded_between (days start_date) (days end_date + days 1 - 1) d;
              by_date = group_by (\<lambda>p. day_of (revenue_timestamp p + zone)) rows;
              kind_totals = group_by pi_kind rows
          in case timeline_walk by_date end_date start_date ([], 0, 0) of
               (points, period_revenue, succeeded) \<Rightarrow>
                 Inr \<lparr>tl_days = end_date - start_date + 1, tl_date_from = start_date, tl_date_to = end_date,
                   tl_period_revenue_usd = period_revenue, tl_all_time_revenue_usd = all_time_revenue d,
                   tl_succeeded_payments = succeeded, tl_points = points,
                   tl_by_kind =
                     [kind_slice_of kind_totals ''movies'' ''single'' ''Movies'',
                      kind_slice_of kind_totals ''series'' ''series'' ''Series'',
                      kind_slice_of kind_totals ''subscriptions'' ''sub'' ''Subscriptions'']\<rparr>))"

section \<open>The timeline adds up\<close>

definition day_point :: "(int \<times> intent_row list) list \<Rightarrow> int \<Rightarrow> timeline_point" where
  "day_point by_date day =
     \<lparr>tp_date = day, tp_revenue_usd = sum_of pi_amount_usd (group_of by_date day),
      tp_payment_count = length (group_of by_date day)\<rparr>"

lemma timeline_walk_eq:
  "timeline_walk g hi lo (points, revenue, paid) =
     (points @ map (day_point g) [lo..hi],
      revenue + (\<Sum>k\<leftarrow>[lo..hi]. sum_of pi_amount_usd (group_of g k)),
      paid + (\<Sum>k\<leftarrow>[lo..hi]. length (group_of g k)))"
proof (induction "nat (hi + 1 - lo)" arbitrary: lo points revenue paid)
  case 0
  then show ?case by (simp add: timeline_walk.simps)
next
  case (Suc m)
  then have lo: "lo \<le> hi" "m = nat (hi + 1 - (lo + 1))" by auto
  show ?case
    by (subst timeline_walk.simps, subst (1 2 3) upto.simps)
       (simp add: lo(1) Suc.hyps(1) [OF lo(2)] day_point_def Let_def add.assoc)
qed

lemma timeline_range_ok:
  assumes "timeline_range parse_date today n date_from date_to = Inr (lo, hi)"
  shows "lo \<le> hi \<and> hi - lo + 1 \<le> 366 \<and> hi \<le> today"
  using assms by (auto simp: timeline_range_def Let_def split: sum.splits if_splits option.splits)

lemma day_between:
  "day_of t = k \<longleftrightarrow> days k \<le> t \<and> t \<le> days k + days 1 - 1"
  by (auto simp: day_of_def days_def)

lemma day_range:
  "lo \<le> day_of t \<and> day_of t \<le> hi \<longleftrightarrow> days lo \<le> t \<and> t \<le> days hi + days 1 - 1"
  by (auto simp: day_of_def days_def)

text \<open>The succeeded intents of the days from \<open>lo\<close> to \<open>hi\<close>, in UTC.\<close>

definition paid_in_days :: "int \<Rightarrow> int \<Rightarrow> db \<Rightarrow> intent_row list" where
  "paid_in_days lo hi d =
     filter (\<lambda>p. pi_status p = ''succeeded'' \<and> lo \<le> day_of (revenue_timestamp p) \<and> day_of (revenue_timestamp p) \<le> hi)
       (payment_intents d)"

lemma succeeded_between_days:
  "succeeded_between (days lo) (days hi + days 1 - 1) d = paid_in_days lo hi d"
  unfolding succeeded_between_def paid_in_days_def day_range ..

lemma paid_in_one_day:
  assumes "lo \<le> k" and "k \<le> hi"
  shows "filter (\<lambda>p. day_of (revenue_timestamp p) = k) (paid_in_days lo hi d) = paid_in_days k k d"
  using assms unfolding paid_in_days_def filter_filter by (intro filter_cong) auto

lemma get_revenue_timeline_ok:
  assumes "get_revenue_timeline parse_date zone now n date_from date_to d = Inr t"
  obtains lo hi g ks where "lo \<le> hi" "hi - lo + 1 \<le> 366"
    "g = group_by (\<lambda>p. day_of (revenue_timestamp p + zone)) (paid_in_days lo hi d)"
    "ks = group_by pi_kind (paid_in_days lo hi d)"
    "t = \<lparr>tl_days = hi - lo + 1, tl_date_from = lo, tl_date_to = hi,
           tl_period_revenue_usd = (\<Sum>k\<leftarrow>[lo..hi]. sum_of pi_amount_usd (group_of g k)),
           tl_all_time_revenue_usd = all_time_revenue d,
           tl_succeeded_payments = (\<Sum>k\<leftarrow>[lo..hi]. length (group_of g k)),
           tl_points = map (day_point g) [lo..hi],
           tl_by_kind = [kind_slice_of ks ''movies'' ''single'' ''Movies'',
             kind_slice_of ks ''series'' ''series'' ''Series'',
             kind_slice_of ks ''subscriptions'' ''sub'' ''Subscriptions'']\<rparr>"
proof -
  obtain lo hi where r: "timeline_range parse_date (day_of now) n date_from date_to = Inr (lo, hi)"
    using assms by (auto simp: get_revenue_timeline_def split: if_splits sum.splits)
  from assms timeline_range_ok [OF r] show ?thesis
    by (intro that [of lo hi])
       (auto simp: get_revenue_timeline_def r timeline_walk_eq succeeded_between_days Let_def split: if_splits)
qed

section \<open>Properties\<close>

text \<open>
  C20: The revenue timeline is a ledger: nothing is lost and nothing is counted twice. With a database
  that keeps UTC and the kinds the schema allows, an answer covers 1 to 366 consecutive days, one point
  each; a point is exactly what succeeded on its day; and the totals of the period, the sum of its points
  and the sum over movies, series and subscriptions are the same sum over the payments of the period.
\<close>

theorem revenue_timeline_adds_up:
  assumes "get_revenue_timeline parse_date 0 now n date_from date_to d = Inr t" and "kinds_constrained d"
  shows "1 \<le> tl_days t \<and> tl_days t \<le> 366 \<and> map tp_date (tl_points t) = [tl_date_from t..tl_date_to t] \<and>
    (\<forall>q \<in> set (tl_points t).
       tp_revenue_usd q = sum_of pi_amount_usd (paid_in_days (tp_date q) (tp_date q) d) \<and>
       tp_payment_count q = length (paid_in_days (tp_date q) (tp_date q) d)) \<and>
    tl_period_revenue_usd t = sum_of pi_amount_usd (paid_in_days (tl_date_from t) (tl_date_to t) d) \<and>
    tl_succeeded_payments t = length (paid_in_days (tl_date_from t) (tl_date_to t) d) \<and>
    sum_of ks_revenue_usd (tl_by_kind t) = tl_period_revenue_usd t \<and>
    sum_list (map ks_payment_count (tl_by_kind t)) = tl_succeeded_payments t"
proof -
  obtain lo hi g ks where b: "lo \<le> hi" "hi - lo + 1 \<le> 366"
    and g: "g = group_by (\<lambda>p. day_of (revenue_timestamp p + 0)) (paid_in_days lo hi d)"
    and ks: "ks = group_by pi_kind (paid_in_days lo hi d)"
    and t: "t = \<lparr>tl_days = hi - lo + 1, tl_date_from = lo, tl_date_to = hi,
           tl_period_revenue_usd = (\<Sum>k\<leftarrow>[lo..hi]. sum_of pi_amount_usd (group_of g k)),
           tl_all_time_revenue_usd = all_time_revenue d,
           tl_succeeded_payments = (\<Sum>k\<leftarrow>[lo..hi]. length (group_of g k)),
           tl_points = map (day_point g) [lo..hi],
           tl_by_kind = [kind_slice_of ks ''movies'' ''single'' ''Movies'',
             kind_slice_of ks ''series'' ''series'' ''Series'',
             kind_slice_of ks ''subscriptions'' ''sub'' ''Subscriptions'']\<rparr>"
    using assms(1) by (rule get_revenue_timeline_ok)
  let ?w = "paid_in_days lo hi d"
  have days: "(\<lambda>p. day_of (revenue_timestamp p)) ` set ?w \<subseteq> set [lo..hi]" by (auto simp: paid_in_days_def)
  have kinds: "pi_kind ` set ?w \<subseteq> set [''single'', ''series'', ''sub'']"
    using assms(2) by (auto simp: paid_in_days_def kinds_constrained_def list_all_iff)
  have "map tp_date (tl_points t) = [lo..hi]" by (simp add: t day_point_def comp_def)
  moreover have "tp_revenue_usd q = sum_of pi_amount_usd (paid_in_days (tp_date q) (tp_date q) d) \<and>
      tp_payment_count q = length (paid_in_days (tp_date q) (tp_date q) d)" if "q \<in> set (tl_points t)" for q
    using that by (auto simp: t g day_point_def paid_in_one_day)
  moreover have "tl_period_revenue_usd t = sum_of pi_amount_usd ?w" "tl_succeeded_payments t = length ?w"
    using sum_of_groups [OF distinct_upto days] count_groups [OF distinct_upto days] by (simp_all add: t g)
  moreover have "sum_of ks_revenue_usd (tl_by_kind t) = sum_of pi_amount_usd ?w"
    "sum_list (map ks_payment_count (tl_by_kind t)) = length ?w"
    using sum_of_groups [OF _ kinds] count_groups [OF _ kinds] by (simp_all add: t ks kind_slice_of_def Let_def)
  ultimately show ?thesis using b by (simp add: t)
qed

definition paid_at :: "string \<Rightarrow> datetime \<Rightarrow> string \<Rightarrow> decimal \<Rightarrow> intent_row" where
  "paid_at i t kind amount =
     default_intent\<lparr>pi_intent_id := i, pi_order_id := i, pi_kind := kind, pi_amount_usd := amount,
       pi_status := ''succeeded'', pi_created_at := 0, pi_resolved_at := Some t\<rparr>"

definition three_payments :: db where
  "three_payments = empty_db\<lparr>payment_intents :=
     [paid_at ''a'' (days 3) ''single'' (1/2), paid_at ''b'' (days 8 - 1) ''sub'' 5, paid_at ''c'' (days 8) ''series'' (5/2)]\<rparr>"

theorem revenue_timeline_adds_up_witness:
  "\<exists>t. get_revenue_timeline (\<lambda>_. None) 0 (days 9) 7 None None three_payments = Inr t \<and>
     tl_succeeded_payments t = 3 \<and> sum_of ks_revenue_usd (tl_by_kind t) = 8"
proof -
  have "case get_revenue_timeline (\<lambda>_. None) 0 (days 9) 7 None None three_payments of
      Inr t \<Rightarrow> (tl_period_revenue_usd t, tl_succeeded_payments t) = (8, 3) | Inl _ \<Rightarrow> False"
    by code_simp
  then obtain t where t: "get_revenue_timeline (\<lambda>_. None) 0 (days 9) 7 None None three_payments = Inr t"
    "tl_period_revenue_usd t = 8" "tl_succeeded_payments t = 3"
    by (auto split: sum.splits)
  have "kinds_constrained three_payments" by code_simp
  from revenue_timeline_adds_up [OF t(1) this] t show ?thesis by auto
qed

text \<open>
  In a database that does not keep UTC the ledger breaks: with Phnom Penh's seven hours the payment of
  the last evening belongs to a day after the last one, and is missing from the points and the total
  but not from its kind. A range that ends in the future loses days at its front as well as its end.
\<close>

lemma timeline_zone_gap:
  "map (\<lambda>t. (tl_period_revenue_usd t, sum_of ks_revenue_usd (tl_by_kind t)))
     (case get_revenue_timeline (\<lambda>_. None) (7 * 3600000000) (days 8) 7 None None
        (empty_db\<lparr>payment_intents := [paid_at ''a'' (days 9 - 1) ''single'' (1/2)]\<rparr>) of Inr t \<Rightarrow> [t] | Inl _ \<Rightarrow> []) =
   [(0, 1/2)]"
  by code_simp

lemma future_bound_shortens:
  "timeline_range (\<lambda>_. Some 40) 30 30 None (Some ''x'') = Inr (11, 30)"
  "timeline_range (\<lambda>_. Some 61) 30 30 None (Some ''x'') = Inl (HTTPException 422 ''date_from must be on or before date_to'')"
  by code_simp+

section \<open>The table of titles\<close>

text \<open>
  \<open>completion_rate\<close> is the percentage rounded to two places, ties to even. \<open>content_type\<close> filters only when
  it is not empty.
\<close>

record title_report =
  tr_id :: uuid
  tr_title :: string
  tr_type :: string
  tr_status :: string
  tr_revenue_usd :: decimal
  tr_purchase_count :: nat
  tr_watch_count :: nat
  tr_completion_count :: nat
  tr_completion_rate :: rat

definition round2 :: "rat \<Rightarrow> rat" where
  "round2 x =
     (let y = x * 100; f = \<lfloor>y\<rfloor>; r = y - of_int f in
      (if r < 1/2 \<or> r = 1/2 \<and> even f then of_int f else of_int f + 1) / 100)"

definition completion_rate :: "nat \<Rightarrow> nat \<Rightarrow> rat" where
  "completion_rate completed watched =
     (if watched = 0 then 0 else round2 (of_nat completed / of_nat watched * 100))"

definition title_report_of :: "db \<Rightarrow> content_row \<Rightarrow> title_report" where
  "title_report_of d c =
     (let bought = group_of (group_by pu_content_id (purchases d)) (ct_id c);
          watched = group_of (group_by wp_content_id (watch_progress d)) (ct_id c);
          finished = count_rows wp_completed watched in
      \<lparr>tr_id = ct_id c, tr_title = ct_title c, tr_type = ct_type c, tr_status = ct_status c,
       tr_revenue_usd = sum_of pu_amount_usd bought, tr_purchase_count = length bought,
       tr_watch_count = length watched, tr_completion_count = finished,
       tr_completion_rate = completion_rate finished (length watched)\<rparr>)"

definition top_order :: "string option \<Rightarrow> title_report \<times> content_row \<Rightarrow> rat \<times> rat \<times> rat \<times> datetime" where
  "top_order content_type = (\<lambda>(r, c).
     if content_type = Some ''single''
     then (- of_nat (tr_purchase_count r), - of_nat (tr_watch_count r), - tr_revenue_usd r, - ct_created_at c)
     else (- tr_revenue_usd r, - of_nat (tr_purchase_count r), - of_nat (tr_watch_count r), - ct_created_at c))"

definition list_top_titles :: "string option \<Rightarrow> nat \<Rightarrow> nat \<Rightarrow> db \<Rightarrow> title_report page" where
  "list_top_titles content_type page page_size d =
     (let rows = map (\<lambda>c. (title_report_of d c, c))
            (filter (\<lambda>c. truthy content_type \<longrightarrow> Some (ct_type c) = content_type) (contents d))
      in case paginate_query page page_size (order_by (top_order content_type) rows) of
           (items, found) \<Rightarrow> build_paginated_response (map fst items) found page page_size)"

text \<open>
  The table accounts for every receipt of a listed title and for nothing else, and a rate is a
  percentage. Unlocks of whole series and subscriptions are in no row.
\<close>

lemma title_report_revenue:
  assumes "distinct (map ct_id (contents d))" and "pu_content_id ` set (purchases d) \<subseteq> ct_id ` set (contents d)"
  shows "sum_of (\<lambda>c. tr_revenue_usd (title_report_of d c)) (contents d) = sum_of pu_amount_usd (purchases d)"
  using sum_of_groups [OF assms(1), of pu_content_id "purchases d" pu_amount_usd] assms(2)
  by (simp add: title_report_of_def sum_of_def Let_def comp_def)

lemma round2_bounds: "0 \<le> x \<Longrightarrow> x \<le> 100 \<Longrightarrow> 0 \<le> round2 x \<and> round2 x \<le> 100"
proof -
  assume x: "0 \<le> x" "x \<le> 100"
  let ?y = "x * 100"
  have f: "0 \<le> \<lfloor>?y\<rfloor>" "of_int \<lfloor>?y\<rfloor> \<le> ?y" using x by simp_all
  have "of_int (\<lfloor>?y\<rfloor> + 1) \<le> (10000 :: rat)" if "of_int \<lfloor>?y\<rfloor> < ?y"
  proof -
    have "x \<noteq> 100" using that by auto
    then have "(of_int \<lfloor>?y\<rfloor> :: rat) < of_int 10000" using that x by simp
    then have "\<lfloor>?y\<rfloor> + 1 \<le> 10000" unfolding of_int_less_iff by simp
    then show ?thesis by (metis of_int_le_iff of_int_numeral)
  qed
  moreover have "of_int \<lfloor>?y\<rfloor> < ?y" if "\<not> (?y - of_int \<lfloor>?y\<rfloor> < 1/2)" using that by simp
  ultimately show ?thesis using f x by (auto simp: round2_def Let_def)
qed

lemma completion_rate_percent:
  "completed \<le> watched \<Longrightarrow> 0 \<le> completion_rate completed watched \<and> completion_rate completed watched \<le> 100"
  by (auto simp: completion_rate_def divide_le_eq intro!: round2_bounds)

section \<open>Transcode jobs\<close>

text \<open>
  The counts behind the filter badges, and a job joined with its title; a retry is in \<open>Catalog_Admin\<close>.
  The times of a job and its worker are not modelled, so neither is the list, which is sorted by them.
\<close>

record job_counts =
  jc_all :: nat
  jc_queued :: nat
  jc_running :: nat
  jc_success :: nat
  jc_failed :: nat

definition admin_transcode_job_counts :: "db \<Rightarrow> job_counts" where
  "admin_transcode_job_counts d =
     (let by_status = group_by job_status (transcode_jobs d);
          n = (\<lambda>st. length (group_of by_status st)) in
      \<lparr>jc_all = n ''queued'' + n ''running'' + n ''success'' + n ''failed'', jc_queued = n ''queued'',
       jc_running = n ''running'', jc_success = n ''success'', jc_failed = n ''failed''\<rparr>)"

record job_view =
  jv_job :: job_row
  jv_content :: "content_row option"
  jv_series_title :: "string option"

definition transcode_job_row :: "db \<Rightarrow> job_row \<Rightarrow> job_view" where
  "transcode_job_row d j =
     (let c = select_one (\<lambda>c. ct_id c = job_content_id j) (contents d) in
      \<lparr>jv_job = j, jv_content = c,
       jv_series_title = (case c of
          None \<Rightarrow> None
        | Some x \<Rightarrow> map_option ser_title (select_one (\<lambda>s. Some (ser_id s) = ct_series_id x) (series_table d)))\<rparr>)"

lemma job_counts_complete:
  assumes "job_status ` set (transcode_jobs d) \<subseteq> {''queued'', ''running'', ''success'', ''failed''}"
  shows "jc_all (admin_transcode_job_counts d) = length (transcode_jobs d)"
  using count_groups [of "[''queued'', ''running'', ''success'', ''failed'']" job_status "transcode_jobs d"] assms
  by (simp add: admin_transcode_job_counts_def Let_def add.assoc)

lemma retry_requeues:
  assumes "retry_transcode_job jid d = Inr (j, d')"
  shows "jc_queued (admin_transcode_job_counts d') \<noteq> 0"
proof -
  obtain j0 where "j0 \<in> set (transcode_jobs d)" "job_id j0 = jid" "j = j0\<lparr>job_status := ''queued'', job_error := None\<rparr>"
    "transcode_jobs d' = update_where (\<lambda>x. job_id x = jid) (\<lambda>_. j) (transcode_jobs d)"
    using assms by (auto simp: retry_transcode_job_def Let_def dest!: select_one_Some split: option.splits)
  then have "j \<in> set (transcode_jobs d')" "job_status j = ''queued''"
    using update_where_hit [of j0 "transcode_jobs d" "\<lambda>x. job_id x = jid" "\<lambda>_. j"] by simp_all
  then show ?thesis by (auto simp: admin_transcode_job_counts_def Let_def filter_empty_conv)
qed

end
