(* ===== verification/Plan_Grants.thy ===== *)
theory Plan_Grants
  imports Plans_Admin Checkout
begin

text \<open>
  Subscriptions and plans from the command line: \<open>scripts/grant_subscription.py\<close> gives subscription time
  without a payment, \<open>seed/seed_subscription_plans.py\<close> brings the table of plans to the price list of
  \<open>seed/pricing_catalog.py\<close>. Printing and the engine are left out.
\<close>

section \<open>Granted time\<close>

definition find_by_email :: "string \<Rightarrow> db \<Rightarrow> user_row option" where
  "find_by_email email d = select_one (\<lambda>u. lower (user_email u) = lower (strip email)) (users d)"

text \<open>One address; \<open>fresh\<close> is the id of the row a first subscription needs.\<close>

definition grant_email :: "datetime \<Rightarrow> string \<Rightarrow> int \<Rightarrow> string \<times> uuid \<Rightarrow> db \<Rightarrow> bool \<times> db" where
  "grant_email now code n = (\<lambda>(email, fresh) d.
     (case find_by_email email d of
        None \<Rightarrow> (False, d)
      | Some u \<Rightarrow>
        (let subscription = latest_subscription (Some (user_id u)) d;
             until = period_end now subscription n
         in case subscription of
              None \<Rightarrow> (True, d\<lparr>subscriptions := subscriptions d @ [new_subscription now fresh (user_id u) code until]\<rparr>)
            | Some s \<Rightarrow>
                (True, d\<lparr>subscriptions := update_where (\<lambda>r. sub_id r = sub_id s)
                           (renew_subscription now code until) (subscriptions d)\<rparr>))))"

fun grant_emails :: "datetime \<Rightarrow> string \<Rightarrow> int \<Rightarrow> (string \<times> uuid) list \<Rightarrow> db \<Rightarrow> nat \<times> string list \<times> db" where
  "grant_emails now code n [] d = (0, [], d)"
| "grant_emails now code n (e # es) d =
     (case grant_email now code n e d of
        (found, d1) \<Rightarrow>
          (case grant_emails now code n es d1 of
             (granted, missing, d') \<Rightarrow>
               if found then (granted + 1, missing, d') else (granted, fst e # missing, d')))"

text \<open>The whole run: \<open>--days\<close> counts when it is given and not zero; without \<open>--apply\<close> it is rolled back.\<close>

definition grant_days :: "int option \<Rightarrow> plan_row \<Rightarrow> int" where
  "grant_days override q =
     (case override of None \<Rightarrow> plan_billing_interval_days q | Some n \<Rightarrow> if n = 0 then plan_billing_interval_days q else n)"

definition grant ::
    "datetime \<Rightarrow> (string \<times> uuid) list \<Rightarrow> string \<Rightarrow> int option \<Rightarrow> bool \<Rightarrow> db \<Rightarrow> (nat \<times> string list \<times> db) result" where
  "grant now emails code override apply d =
     (case resolve_active_plan (Some code) d of
        Inl e \<Rightarrow> Inl e
      | Inr q \<Rightarrow>
        (case grant_emails now (plan_code q) (grant_days override q) emails d of
           (granted, missing, d') \<Rightarrow> Inr (granted, missing, if apply then d' else d)))"

section \<open>The price list\<close>

definition access_note :: "string \<Rightarrow> string option" where
  "access_note term = Some (term @ ''. Access to Series, Movies, Podcast, and News.'')"

text \<open>The dash of the last description is three bytes of UTF-8.\<close>

definition testing_term :: string where
  "testing_term = ''Testing only '' @ [CHR 0xE2, CHR 0x80, CHR 0x94] @ '' 1 month''"

definition seed_plan_list :: "plan_create list" where
  "seed_plan_list =
     [\<lparr>plc_code = ''basic_2w'', plc_name = ''Basic'', plc_description = access_note ''2 weeks'',
       plc_price_usd = 349 / 100, plc_billing_interval_days = 14, plc_is_active = True, plc_sort_order = 0\<rparr>,
      \<lparr>plc_code = ''value_1m'', plc_name = ''Value'', plc_description = access_note ''1 month'',
       plc_price_usd = 499 / 100, plc_billing_interval_days = 30, plc_is_active = True, plc_sort_order = 1\<rparr>,
      \<lparr>plc_code = ''best_value_3m'', plc_name = ''Best Value'', plc_description = access_note ''3 months'',
       plc_price_usd = 699 / 100, plc_billing_interval_days = 90, plc_is_active = True, plc_sort_order = 2\<rparr>,
      \<lparr>plc_code = ''premium_5m'', plc_name = ''Premium'', plc_description = access_note ''5 months'',
       plc_price_usd = 1099 / 100, plc_billing_interval_days = 150, plc_is_active = True, plc_sort_order = 3\<rparr>,
      \<lparr>plc_code = ''testing_1m'', plc_name = ''Testing'', plc_description = access_note testing_term,
       plc_price_usd = min_paid_usd, plc_billing_interval_days = 30, plc_is_active = True, plc_sort_order = 4\<rparr>]"

definition seed_plan_codes :: "string set" where
  "seed_plan_codes = plc_code ` set seed_plan_list"

definition apply_plan_fields :: "plan_create \<Rightarrow> plan_row \<Rightarrow> plan_row" where
  "apply_plan_fields spec p =
     p\<lparr>plan_name := plc_name spec, plan_description := plc_description spec, plan_price_usd := plc_price_usd spec,
       plan_billing_interval_days := plc_billing_interval_days spec, plan_is_active := plc_is_active spec,
       plan_sort_order := plc_sort_order spec\<rparr>"

definition seed_plan :: "datetime \<Rightarrow> (string \<Rightarrow> uuid) \<Rightarrow> plan_create \<Rightarrow> plan_row list \<Rightarrow> plan_row list" where
  "seed_plan now fresh spec plans =
     (if exists_row (\<lambda>p. plan_code p = plc_code spec) plans
      then update_where (\<lambda>p. plan_code p = plc_code spec) (apply_plan_fields spec) plans
      else plans @ [\<lparr>plan_id = fresh (plc_code spec), plan_code = plc_code spec, plan_name = plc_name spec,
              plan_description = plc_description spec, plan_price_usd = plc_price_usd spec,
              plan_billing_interval_days = plc_billing_interval_days spec, plan_is_active = plc_is_active spec,
              plan_sort_order = plc_sort_order spec, plan_created_at = now\<rparr>])"

definition deactivate_extras :: "plan_row list \<Rightarrow> plan_row list" where
  "deactivate_extras = update_where (\<lambda>p. plan_code p \<notin> seed_plan_codes) (\<lambda>p. p\<lparr>plan_is_active := False\<rparr>)"

definition seed_subscription_plans :: "datetime \<Rightarrow> (string \<Rightarrow> uuid) \<Rightarrow> db \<Rightarrow> db" where
  "seed_subscription_plans now fresh d =
     d\<lparr>subscription_plans := deactivate_extras (fold (seed_plan now fresh) seed_plan_list (subscription_plans d))\<rparr>"

section \<open>What a grant adds\<close>

lemma grant_email_found:
  "find_by_email (fst e) d = Some u \<Longrightarrow>
   grant_email now code n e d =
     (True, d\<lparr>subscriptions := extended now (snd e) (user_id u) code
        (period_end now (latest_subscription (Some (user_id u)) d) n) d\<rparr>)"
  by (cases e) (simp add: grant_email_def extended_def Let_def split: option.split)

lemma grant_email_missing: "find_by_email (fst e) d = None \<Longrightarrow> grant_email now code n e d = (False, d)"
  by (cases e) (simp add: grant_email_def)

lemma find_by_email_subscriptions [simp]: "find_by_email email (d\<lparr>subscriptions := rows\<rparr>) = find_by_email email d"
  by (simp add: find_by_email_def)

lemma image_update_where:
  "(\<And>r. P r \<Longrightarrow> g (f r) = g r) \<Longrightarrow> g ` set (update_where P f tab) = g ` set tab"
  by (induction tab) auto

lemma disjoint_insertI: "A \<subseteq> insert x B \<Longrightarrow> x \<notin> C \<Longrightarrow> C \<inter> B = {} \<Longrightarrow> C \<inter> A = {}"
  by auto

lemma extended_ids:
  "sub_id ` set (extended now fresh uid code until d) \<subseteq> insert fresh (sub_id ` set (subscriptions d))"
  by (auto simp: extended_def image_update_where split: option.splits)

text \<open>Extending one user's time by an interval adds it to what was left and touches nobody else.\<close>

lemma remaining_extended:
  assumes "subscriptions_ok d" "fresh \<notin> sub_id ` set (subscriptions d)" "0 < n"
    and "subscriptions d' = extended now fresh uid code (period_end now (latest_subscription (Some uid) d) n) d"
  shows "remaining v now d' = remaining v now d + (if v = uid then days n else 0)"
proof -
  have r: "remaining v now e = (case map_option sub_current_period_end (latest_subscription (Some v) e) of
      None \<Rightarrow> 0 | Some x \<Rightarrow> max 0 (x - now))" for e
    by (simp add: remaining_def split: option.split)
  have "0 < days n" using assms(3) by simp
  then show ?thesis unfolding r extended_latest [OF assms(1,2,4)]
    by (cases "latest_subscription (Some uid) d") (auto simp: period_end_def simp del: days_pos)
qed

definition times_named :: "uuid \<Rightarrow> (string \<times> uuid) list \<Rightarrow> db \<Rightarrow> nat" where
  "times_named uid emails d = count_rows (\<lambda>e. map_option user_id (find_by_email (fst e) d) = Some uid) emails"

lemma times_named_simps:
  "times_named uid [] d = 0"
  "times_named uid (e # es) d =
     (if map_option user_id (find_by_email (fst e) d) = Some uid then 1 else 0) + times_named uid es d"
  by (simp_all add: times_named_def)

lemma times_named_subscriptions [simp]: "times_named uid es (d\<lparr>subscriptions := rows\<rparr>) = times_named uid es d"
  by (simp add: times_named_def)

lemma grant_emails_facts:
  assumes "grant_emails now code n emails d = (granted, missing, d')"
    and "subscriptions_ok d" "0 < n" "distinct (map snd emails)" "snd ` set emails \<inter> sub_id ` set (subscriptions d) = {}"
  shows "subscriptions_ok d' \<and> remaining v now d' = remaining v now d + days (n * int (times_named v emails d)) \<and>
    granted + length missing = length emails \<and> d' = d\<lparr>subscriptions := subscriptions d'\<rparr>"
  using assms
proof (induction emails arbitrary: d granted missing d')
  case Nil
  then show ?case by (simp add: days_def times_named_simps)
next
  case (Cons e es)
  show ?case
  proof (cases "find_by_email (fst e) d")
    case None
    from None Cons.prems(1) obtain missing' where rest: "grant_emails now code n es d = (granted, missing', d')"
      "missing = fst e # missing'"
      by (auto simp: grant_email_missing split: prod.splits)
    have "snd ` set es \<inter> sub_id ` set (subscriptions d) = {}" using Cons.prems(5) by auto
    from Cons.IH [OF rest(1) Cons.prems(2,3) _ this] Cons.prems(4) None rest(2)
    show ?thesis by (simp add: times_named_simps)
  next
    case (Some u)
    define d1 where "d1 = d\<lparr>subscriptions := extended now (snd e) (user_id u) code
        (period_end now (latest_subscription (Some (user_id u)) d) n) d\<rparr>"
    have s1: "subscriptions d1 = extended now (snd e) (user_id u) code
        (period_end now (latest_subscription (Some (user_id u)) d) n) d" by (simp add: d1_def)
    have fresh: "snd e \<notin> sub_id ` set (subscriptions d)" using Cons.prems(5) by auto
    from Some Cons.prems(1) obtain granted' where rest: "grant_emails now code n es d1 = (granted', missing, d')"
      "granted = granted' + 1"
      by (auto simp: grant_email_found d1_def split: prod.splits)
    have "sub_id ` set (subscriptions d1) \<subseteq> insert (snd e) (sub_id ` set (subscriptions d))"
      unfolding s1 by (rule extended_ids)
    moreover have "snd e \<notin> snd ` set es" using Cons.prems(4) by simp
    moreover have "snd ` set es \<inter> sub_id ` set (subscriptions d) = {}" using Cons.prems(5) by auto
    ultimately have "snd ` set es \<inter> sub_id ` set (subscriptions d1) = {}" by (rule disjoint_insertI)
    note ih = Cons.IH [OF rest(1) extended_ok [OF Cons.prems(2) fresh s1] Cons.prems(3) _ this]
    have "d' = d\<lparr>subscriptions := subscriptions d'\<rparr>"
    proof -
      have "d' = d1\<lparr>subscriptions := subscriptions d'\<rparr>" using ih Cons.prems(4) by simp
      then show ?thesis by (simp add: d1_def)
    qed
    moreover have "remaining v now d1 = remaining v now d + (if v = user_id u then days n else 0)"
      by (rule remaining_extended [OF Cons.prems(2) fresh Cons.prems(3) s1])
    moreover have "times_named v es d1 = times_named v es d" by (simp add: d1_def)
    ultimately show ?thesis using ih Cons.prems(4) Some rest(2)
      by (auto simp: times_named_simps days_def algebra_simps)
  qed
qed

section \<open>The price list converges\<close>

definition seeded :: "plan_create \<Rightarrow> plan_row list \<Rightarrow> bool" where
  "seeded spec plans \<longleftrightarrow> (\<exists>p \<in> set plans. plan_code p = plc_code spec \<and> apply_plan_fields spec p = p)"

lemma apply_plan_fields_simps [simp]:
  "plan_id (apply_plan_fields spec p) = plan_id p" "plan_code (apply_plan_fields spec p) = plan_code p"
  "plan_is_active (apply_plan_fields spec p) = plc_is_active spec"
  "apply_plan_fields spec (apply_plan_fields spec p) = apply_plan_fields spec p"
  by (simp_all add: apply_plan_fields_def)

lemma seed_plan_codes_kept:
  "plan_code ` set (seed_plan now fresh spec plans) = insert (plc_code spec) (plan_code ` set plans)"
  "distinct (map plan_code plans) \<Longrightarrow> distinct (map plan_code (seed_plan now fresh spec plans))"
proof -
  show "plan_code ` set (seed_plan now fresh spec plans) = insert (plc_code spec) (plan_code ` set plans)"
  proof (cases "exists_row (\<lambda>p. plan_code p = plc_code spec) plans")
    case True
    then obtain p where "p \<in> set plans" "plan_code p = plc_code spec" by (auto simp: exists_row_iff)
    then have "plc_code spec \<in> plan_code ` set plans" using imageI [of p "set plans" plan_code] by simp
    with True show ?thesis by (auto simp: seed_plan_def image_update_where)
  qed (simp add: seed_plan_def)
  show "distinct (map plan_code plans) \<Longrightarrow> distinct (map plan_code (seed_plan now fresh spec plans))"
    by (auto simp: seed_plan_def exists_row_iff map_update_where)
qed

lemma seed_plan_ids:
  "plan_id ` set (seed_plan now fresh spec plans) \<subseteq> insert (fresh (plc_code spec)) (plan_id ` set plans)"
  "distinct (map plan_id plans) \<Longrightarrow> fresh (plc_code spec) \<notin> plan_id ` set plans \<Longrightarrow>
   distinct (map plan_id (seed_plan now fresh spec plans))"
  by (auto simp: seed_plan_def image_update_where map_update_where)

lemma seeded_update:
  assumes "seeded spec plans" and "\<And>p. P p \<Longrightarrow> plan_code p \<noteq> plc_code spec"
  shows "seeded spec (update_where P f plans)"
  using assms unfolding seeded_def by (meson update_where_miss)

lemma seed_plan_seeded:
  "seeded spec (seed_plan now fresh spec plans)"
  "seeded other plans \<Longrightarrow> plc_code other \<noteq> plc_code spec \<Longrightarrow> seeded other (seed_plan now fresh spec plans)"
proof -
  show "seeded spec (seed_plan now fresh spec plans)"
  proof (cases "exists_row (\<lambda>p. plan_code p = plc_code spec) plans")
    case True
    then obtain p where "p \<in> set plans" "plan_code p = plc_code spec" by (auto simp: exists_row_iff)
    from update_where_hit [OF this(1), of "\<lambda>p. plan_code p = plc_code spec", OF this(2), of "apply_plan_fields spec"] this(2)
    have "seeded spec (update_where (\<lambda>p. plan_code p = plc_code spec) (apply_plan_fields spec) plans)"
      unfolding seeded_def by (intro bexI [of _ "apply_plan_fields spec p"]) simp_all
    with True show ?thesis by (simp add: seed_plan_def)
  qed (simp add: seed_plan_def seeded_def apply_plan_fields_def)
  show "seeded other plans \<Longrightarrow> plc_code other \<noteq> plc_code spec \<Longrightarrow> seeded other (seed_plan now fresh spec plans)"
    using seeded_update [of other plans "\<lambda>p. plan_code p = plc_code spec"]
    by (auto simp: seed_plan_def) (auto simp: seeded_def)
qed

lemma fold_seed_codes:
  "plan_code ` set (fold (seed_plan now fresh) specs plans) = plc_code ` set specs \<union> plan_code ` set plans"
  "distinct (map plan_code plans) \<Longrightarrow> distinct (map plan_code (fold (seed_plan now fresh) specs plans))"
  by (induction specs arbitrary: plans) (simp_all add: seed_plan_codes_kept)

lemma fold_keeps_seeded:
  "seeded other plans \<Longrightarrow> plc_code other \<notin> plc_code ` set specs \<Longrightarrow> seeded other (fold (seed_plan now fresh) specs plans)"
  by (induction specs arbitrary: plans) (simp_all add: seed_plan_seeded)

lemma fold_seeded:
  "distinct (map plc_code specs) \<Longrightarrow> spec \<in> set specs \<Longrightarrow> seeded spec (fold (seed_plan now fresh) specs plans)"
proof (induction specs arbitrary: plans)
  case (Cons s specs)
  then show ?case
    by (cases "spec = s") (auto intro: fold_keeps_seeded seed_plan_seeded)
qed simp

text \<open>Seeding what is seeded changes nothing.\<close>

lemma seed_plan_again:
  assumes "seeded spec plans" and "distinct (map plan_code plans)"
  shows "seed_plan now fresh spec plans = plans"
proof -
  obtain p where p: "p \<in> set plans" "plan_code p = plc_code spec" "apply_plan_fields spec p = p"
    using assms(1) by (auto simp: seeded_def)
  have "apply_plan_fields spec q = q" if "q \<in> set plans" "plan_code q = plc_code spec" for q
  proof -
    have "q = p" using that p(1,2) assms(2) by (auto simp: distinct_map inj_on_def)
    with p(3) show ?thesis by simp
  qed
  then have "update_where (\<lambda>q. plan_code q = plc_code spec) (apply_plan_fields spec) plans = plans"
    unfolding update_where_def by (intro map_idI) auto
  then show ?thesis using p(1,2) by (auto simp: seed_plan_def exists_row_iff)
qed

lemma fold_seed_again:
  assumes "\<forall>spec \<in> set specs. seeded spec plans" and "distinct (map plan_code plans)"
  shows "fold (seed_plan now fresh) specs plans = plans"
  using assms by (induction specs) (auto simp: seed_plan_again)

lemma seed_list_facts:
  "distinct (map plc_code seed_plan_list)" "\<forall>spec \<in> set seed_plan_list. plc_is_active spec \<and> valid_plan_create spec"
proof -
  have "distinct (map plc_code seed_plan_list)" by code_simp
  then show "distinct (map plc_code seed_plan_list)" .
  have "list_all (\<lambda>spec. plc_is_active spec \<and> valid_plan_create spec) seed_plan_list" by code_simp
  then show "\<forall>spec \<in> set seed_plan_list. plc_is_active spec \<and> valid_plan_create spec" by (simp add: list_all_iff)
qed

definition plans_fine :: "plan_row list \<Rightarrow> bool" where
  "plans_fine plans \<longleftrightarrow> (\<forall>p \<in> set plans. plan_fine p)"

lemma seed_plan_fine: "valid_plan_create spec \<Longrightarrow> plans_fine plans \<Longrightarrow> plans_fine (seed_plan now fresh spec plans)"
  by (auto simp: seed_plan_def plans_fine_def plan_fine_def valid_plan_create_def apply_plan_fields_def in_update_where)

lemma fold_seed_fine:
  "\<forall>spec \<in> set specs. valid_plan_create spec \<Longrightarrow> plans_fine plans \<Longrightarrow> plans_fine (fold (seed_plan now fresh) specs plans)"
  by (induction specs arbitrary: plans) (simp_all add: seed_plan_fine)

lemma fold_seed_ids:
  assumes "distinct (map fresh (map plc_code specs))" and "fresh ` plc_code ` set specs \<inter> plan_id ` set plans = {}"
    and "distinct (map plan_id plans)"
  shows "distinct (map plan_id (fold (seed_plan now fresh) specs plans))"
  using assms
proof (induction specs arbitrary: plans)
  case (Cons spec specs)
  have "fresh ` plc_code ` set specs \<inter> plan_id ` set (seed_plan now fresh spec plans) = {}"
    by (rule disjoint_insertI [OF seed_plan_ids(1)]) (use Cons.prems in auto)
  then show ?case using Cons.IH [of "seed_plan now fresh spec plans"] Cons.prems seed_plan_ids(2) by auto
qed simp

lemma deactivate_extras_facts:
  "plan_code p \<in> seed_plan_codes \<Longrightarrow> p \<in> set plans \<Longrightarrow> p \<in> set (deactivate_extras plans)"
  "q \<in> set (deactivate_extras plans) \<Longrightarrow> plan_is_active q \<Longrightarrow> plan_code q \<in> seed_plan_codes \<and> q \<in> set plans"
  "map plan_code (deactivate_extras plans) = map plan_code plans"
  "map plan_id (deactivate_extras plans) = map plan_id plans"
  "plans_fine plans \<Longrightarrow> plans_fine (deactivate_extras plans)"
  "deactivate_extras (deactivate_extras plans) = deactivate_extras plans"
  unfolding deactivate_extras_def
  by (auto simp: update_where_miss in_update_where map_update_where plans_fine_def plan_fine_def update_where_def
      split: if_splits)

section \<open>Properties\<close>

text \<open>
  Granted time adds up. A run with \<open>--apply\<close> adds to every account exactly the granted days times the
  number of addresses that name it, on top of what was left, and nothing to anybody else; every user
  keeps at most one subscription; nothing but subscriptions changes, so no revenue appears; every address
  is either granted or reported missing. Without \<open>--apply\<close> nothing changes.
\<close>

theorem grant_adds_days:
  assumes "grant now emails code override apply d = Inr (granted, missing, d')"
    and "subscriptions_ok d" "distinct (map snd emails)" "snd ` set emails \<inter> sub_id ` set (subscriptions d) = {}"
    and "resolve_active_plan (Some code) d = Inr q" "0 < grant_days override q"
  shows "(\<not> apply \<longrightarrow> d' = d) \<and>
    (apply \<longrightarrow> subscriptions_ok d' \<and> d' = d\<lparr>subscriptions := subscriptions d'\<rparr> \<and>
       remaining v now d' = remaining v now d + days (grant_days override q * int (times_named v emails d))) \<and>
    granted + length missing = length emails"
proof -
  obtain d1 where run: "grant_emails now (plan_code q) (grant_days override q) emails d = (granted, missing, d1)"
    and d': "d' = (if apply then d1 else d)"
    using assms(1,5) by (auto simp: grant_def split: prod.splits)
  from grant_emails_facts [OF run assms(2,6,3,4)] d' show ?thesis by auto
qed

definition comp_db :: db where
  "comp_db = demo_sub_db\<lparr>users := [default_user\<lparr>user_id := 3, user_email := ''A@x.io''\<rparr>]\<rparr>"

theorem grant_adds_days_witness:
  "\<exists>d'. grant (days 1) [(''a@X.io'', 20), ('' a@x.io'', 21), (''b@x.io'', 22)] ''monthly'' (Some 7) True comp_db =
      Inr (2, [''b@x.io''], d') \<and> remaining 3 (days 1) d' = days 15"
proof -
  let ?es = "[(''a@X.io'', 20), ('' a@x.io'', 21), (''b@x.io'', 22)] :: (string \<times> uuid) list"
  have "case grant (days 1) ?es ''monthly'' (Some 7) True comp_db of
      Inr (n, miss, _) \<Rightarrow> n = 2 \<and> miss = [''b@x.io''] | Inl _ \<Rightarrow> False" by code_simp
  then obtain d' where run: "grant (days 1) ?es ''monthly'' (Some 7) True comp_db = Inr (2, [''b@x.io''], d')"
    by (auto split: sum.splits prod.splits)
  have "subscriptions_ok comp_db" "distinct (map snd ?es)" "snd ` set ?es \<inter> sub_id ` set (subscriptions comp_db) = {}"
    "resolve_active_plan (Some ''monthly'') comp_db = Inr demo_plan" "0 < grant_days (Some 7) demo_plan"
    by (simp_all add: comp_db_def demo_sub_db_def subscriptions_ok_def resolve_active_plan_def
        get_subscription_plan_by_code_def demo_plan_def grant_days_def)
  note facts = grant_adds_days [OF run this, of 3]
  have "remaining 3 (days 1) comp_db = days 1 \<and> times_named 3 ?es comp_db = 2" by code_simp
  then show ?thesis using run facts by (auto simp: grant_days_def days_def)
qed

text \<open>
  The table of plans converges to the price list: seeding keeps the codes unique and the prices and
  intervals in bounds, leaves exactly the plans of the list active, with the fields of the list, and
  changes nothing when it is run again. A plan an administrator made is deactivated.
\<close>

theorem seed_plans_converge:
  assumes "plans_ok d" and "distinct (map fresh (map plc_code seed_plan_list))"
    and "fresh ` seed_plan_codes \<inter> plan_id ` set (subscription_plans d) = {}"
    and "d' = seed_subscription_plans now fresh d"
  shows "plans_ok d' \<and>
    plan_code ` set (filter plan_is_active (subscription_plans d')) = seed_plan_codes \<and>
    (\<forall>spec \<in> set seed_plan_list. seeded spec (subscription_plans d')) \<and>
    seed_subscription_plans later fresh' d' = d'"
proof -
  define plans where "plans = fold (seed_plan now fresh) seed_plan_list (subscription_plans d)"
  have p': "subscription_plans d' = deactivate_extras plans"
    by (simp add: assms(4) plans_def seed_subscription_plans_def)
  have "plans_fine (subscription_plans d)" "distinct (map plan_code (subscription_plans d))"
    "distinct (map plan_id (subscription_plans d))"
    using assms(1) by (simp_all add: plans_ok_def plans_fine_def)
  then have fine: "plans_fine plans" "distinct (map plan_code plans)" "distinct (map plan_id plans)"
    unfolding plans_def using seed_list_facts assms(2,3) fold_seed_fine fold_seed_codes(2) fold_seed_ids
    by (simp_all add: seed_plan_codes_def)
  then have ok: "plans_ok d'"
    using deactivate_extras_facts(5) [OF fine(1)]
    by (simp add: plans_ok_def p' deactivate_extras_facts(3,4) plans_fine_def)
  have seeded: "seeded spec (subscription_plans d')" if spec: "spec \<in> set seed_plan_list" for spec
  proof -
    have "seeded spec plans" unfolding plans_def using seed_list_facts(1) spec by (rule fold_seeded)
    then show ?thesis unfolding p' seeded_def using spec deactivate_extras_facts(1)
      by (metis image_eqI seed_plan_codes_def)
  qed
  have "plan_code ` set (filter plan_is_active (subscription_plans d')) = seed_plan_codes"
  proof
    show "plan_code ` set (filter plan_is_active (subscription_plans d')) \<subseteq> seed_plan_codes"
      using deactivate_extras_facts(2) by (auto simp: p')
    show "seed_plan_codes \<subseteq> plan_code ` set (filter plan_is_active (subscription_plans d'))"
    proof
      fix code assume "code \<in> seed_plan_codes"
      then obtain spec where spec: "spec \<in> set seed_plan_list" "code = plc_code spec" by (auto simp: seed_plan_codes_def)
      then obtain p where "p \<in> set (subscription_plans d')" "plan_code p = code" "apply_plan_fields spec p = p"
        using seeded by (auto simp: seeded_def)
      moreover have "plan_is_active p"
        using calculation(3) seed_list_facts(2) spec(1) by (metis apply_plan_fields_simps(3))
      ultimately show "code \<in> plan_code ` set (filter plan_is_active (subscription_plans d'))" by auto
    qed
  qed
  moreover have "seed_subscription_plans later fresh' d' = d'"
  proof -
    have "fold (seed_plan later fresh') seed_plan_list (subscription_plans d') = subscription_plans d'"
      using seeded fine(2) by (intro fold_seed_again) (simp_all add: p' deactivate_extras_facts(3))
    moreover have "deactivate_extras (subscription_plans d') = subscription_plans d'"
      by (simp add: p' deactivate_extras_facts(6))
    ultimately show ?thesis by (simp add: seed_subscription_plans_def)
  qed
  ultimately show ?thesis using ok seeded by blast
qed

definition id_of_code :: "string \<Rightarrow> uuid" where
  "id_of_code code = 1000 * length code + of_char (hd code)"

theorem seed_plans_converge_witness:
  "plan_code ` set (filter plan_is_active (subscription_plans
     (seed_subscription_plans 0 id_of_code (empty_db\<lparr>subscription_plans := [monthly_plan]\<rparr>)))) = seed_plan_codes"
proof -
  let ?d = "empty_db\<lparr>subscription_plans := [monthly_plan]\<rparr>"
  have "plans_ok ?d" by (simp add: plans_ok_def plan_fine_def monthly_plan_def validate_usd_price_def min_price_usd_def)
  moreover have "distinct (map id_of_code (map plc_code seed_plan_list))"
    by (simp add: id_of_code_def seed_plan_list_def)
  moreover have "list_all (\<lambda>code. id_of_code code \<noteq> 4) (map plc_code seed_plan_list)"
    by (simp add: id_of_code_def seed_plan_list_def)
  then have "id_of_code ` seed_plan_codes \<inter> plan_id ` set (subscription_plans ?d) = {}"
    by (auto simp: seed_plan_codes_def list_all_iff monthly_plan_def)
  ultimately show ?thesis
    by (rule seed_plans_converge [OF _ _ _ refl, THEN conjunct2, THEN conjunct1])
qed

end
