(* ===== verification/Image_Process.thy ===== *)
theory Image_Process
  imports Catalog_Admin
begin

text \<open>
  The clean-up of an uploaded picture (\<open>app/services/image_process.py\<close>): it is read back from object
  storage, recompressed as WebP under a new name, its old object deleted and a thumbnail stored. Any of
  these calls can go wrong, in two ways: it is refused, or it takes effect and the answer is lost; both
  reach the code as an exception. Pillow is an argument: what it makes of some bytes, or an exception.
\<close>

section \<open>Names\<close>

text \<open>\<open>posixpath.splitext\<close>: the last dot of the file name, unless only dots precede it.\<close>

definition splitext :: "string \<Rightarrow> string \<times> string" where
  "splitext p =
     (let r = rev p; ext = takeWhile (\<lambda>c. c \<noteq> CHR ''.'' \<and> c \<noteq> CHR ''/'') r in
      case List.drop (length ext) r of
        [] \<Rightarrow> (p, [])
      | c # base \<Rightarrow>
          if c = CHR ''.'' \<and> \<not> list_all (\<lambda>x. x = CHR ''.'') (takeWhile (\<lambda>x. x \<noteq> CHR ''/'') base)
          then (rev base, c # rev ext) else (p, []))"

definition webp_key_for :: "string \<Rightarrow> string" where
  "webp_key_for key = fst (splitext key) @ ''.webp''"

definition thumb_key_for :: "string \<Rightarrow> string \<Rightarrow> string" where
  "thumb_key_for suffix key =
     (case splitext key of
        (base, ext) \<Rightarrow>
          if ends_with suffix base then (if lower ext = ''.webp'' then key else base @ ''.webp'')
          else base @ suffix @ ''.webp'')"

definition poster_thumb_key_for :: "string \<Rightarrow> string" where
  "poster_thumb_key_for key = thumb_key_for ''-w400'' key"

definition banner_thumb_key_for :: "string \<Rightarrow> string" where
  "banner_thumb_key_for key = thumb_key_for ''-w480'' key"

definition is_image_object_key :: "string \<Rightarrow> bool" where
  "is_image_object_key key =
     list_ex (\<lambda>suffix. ends_with suffix (lower key)) [''.jpg'', ''.jpeg'', ''.png'', ''.webp'']"

section \<open>The store\<close>

datatype image_kind = Poster | Banner

type_synonym blob = string

record r2_object =
  ob_body :: blob
  ob_type :: string
  ob_cache :: string

type_synonym bucket = "string \<Rightarrow> r2_object option"

datatype call_result = Done | Refused | Reply_Lost

record pillow =
  pl_main :: "image_kind \<Rightarrow> blob \<Rightarrow> blob option"
  pl_thumb :: "image_kind \<Rightarrow> blob \<Rightarrow> blob option"

record calls =
  call_get :: call_result
  call_put :: call_result
  call_delete :: call_result
  call_thumb :: call_result

definition image_cache_control :: string where
  "image_cache_control = ''public, max-age=1814400''"

definition webp_object :: "blob \<Rightarrow> r2_object" where
  "webp_object body = \<lparr>ob_body = body, ob_type = ''image/webp'', ob_cache = image_cache_control\<rparr>"

text \<open>A call that takes effect changes the bucket; one that is not \<open>Done\<close> raises.\<close>

definition perform :: "call_result \<Rightarrow> (bucket \<Rightarrow> bucket) \<Rightarrow> bucket \<Rightarrow> bool \<times> bucket" where
  "perform out f s = (out = Done, if out = Refused then s else f s)"

section \<open>Optimising\<close>

definition skip_if_bytes :: nat where
  "skip_if_bytes = 250000"

text \<open>The first part: the main object, with its key and the bytes the thumbnail is made from.\<close>

definition store_main ::
    "calls \<Rightarrow> pillow \<Rightarrow> image_kind \<Rightarrow> string \<Rightarrow> blob \<Rightarrow> bucket \<Rightarrow> (string \<times> blob) option \<times> bucket" where
  "store_main cs pil kind key original s =
     (let keep = perform (call_put cs) (\<lambda>s. s(key \<mapsto> webp_object original)) s in
      if ends_with ''.webp'' (lower key) \<and> length original \<le> skip_if_bytes
      then (if fst keep then Some (key, original) else None, snd keep)
      else
       (case pl_main pil kind original of
          None \<Rightarrow> (None, s)
        | Some optimized \<Rightarrow>
          (let target = webp_key_for key in
           if target = key \<and> length original \<le> length optimized
           then (if fst keep then Some (key, original) else None, snd keep)
           else
            (case perform (call_put cs) (\<lambda>s. s(target \<mapsto> webp_object optimized)) s of
               (False, s1) \<Rightarrow> (None, s1)
             | (True, s1) \<Rightarrow>
               if target = key then (Some (target, optimized), s1)
               else (case perform (call_delete cs) (\<lambda>s. s(key := None)) s1 of
                       (ok, s2) \<Rightarrow> (if ok then Some (target, optimized) else None, s2))))))"

definition thumb_key :: "image_kind \<Rightarrow> string \<Rightarrow> string" where
  "thumb_key kind target = (case kind of Poster \<Rightarrow> poster_thumb_key_for target | Banner \<Rightarrow> banner_thumb_key_for target)"

text \<open>A thumbnail that cannot be made or stored is only logged.\<close>

definition store_thumb :: "calls \<Rightarrow> pillow \<Rightarrow> image_kind \<Rightarrow> string \<Rightarrow> blob \<Rightarrow> bucket \<Rightarrow> bucket" where
  "store_thumb cs pil kind target source s =
     (case pl_thumb pil kind source of
        None \<Rightarrow> s
      | Some t \<Rightarrow> snd (perform (call_thumb cs) (\<lambda>s. s(thumb_key kind target \<mapsto> webp_object t)) s))"

definition optimize_r2_image_sync ::
    "calls \<Rightarrow> pillow \<Rightarrow> image_kind \<Rightarrow> string \<Rightarrow> bucket \<Rightarrow> string option \<times> bucket" where
  "optimize_r2_image_sync cs pil kind key s =
     (case s key of
        None \<Rightarrow> (None, s)
      | Some ob \<Rightarrow>
          if call_get cs \<noteq> Done then (None, s)
          else (case store_main cs pil kind key (ob_body ob) s of
                  (None, s1) \<Rightarrow> (None, s1)
                | (Some (target, source), s1) \<Rightarrow> (Some target, store_thumb cs pil kind target source s1)))"

definition optimize_r2_image ::
    "calls \<Rightarrow> pillow \<Rightarrow> image_kind \<Rightarrow> string option \<Rightarrow> bucket \<Rightarrow> string option \<times> bucket" where
  "optimize_r2_image cs pil kind key s =
     (if \<not> truthy key \<or> \<not> is_image_object_key (the key) then (key, s)
      else (case optimize_r2_image_sync cs pil kind (the key) s of
              (None, s1) \<Rightarrow> (key, s1) | (Some target, s1) \<Rightarrow> (Some target, s1)))"

section \<open>Names stay in their directory\<close>

definition directory :: "string \<Rightarrow> string" where
  "directory p = rev (dropWhile (\<lambda>c. c \<noteq> CHR ''/'') (rev p))"

lemma directory_append [simp]: "CHR ''/'' \<notin> set ext \<Longrightarrow> directory (base @ ext) = directory base"
  by (auto simp: directory_def intro: dropWhile_append2)

lemma splitext_join: "splitext p = (base, ext) \<Longrightarrow> p = base @ ext"
proof -
  assume s: "splitext p = (base, ext)"
  define e where "e = takeWhile (\<lambda>c. c \<noteq> CHR ''.'' \<and> c \<noteq> CHR ''/'') (rev p)"
  have r: "rev p = e @ List.drop (length e) (rev p)"
    unfolding e_def dropWhile_eq_drop [symmetric] by simp
  show ?thesis
  proof (cases "List.drop (length e) (rev p)")
    case (Cons c b)
    then have "rev p = e @ c # b" using r by simp
    then have "rev (rev p) = rev (e @ c # b)" by (rule arg_cong)
    then have "p = rev b @ c # rev e" by simp
    moreover have "splitext p = (if c = CHR ''.'' \<and> \<not> list_all (\<lambda>x. x = CHR ''.'') (takeWhile (\<lambda>x. x \<noteq> CHR ''/'') b)
        then (rev b, c # rev e) else (p, []))"
      unfolding splitext_def Let_def e_def [symmetric] Cons by simp
    ultimately show ?thesis using s by (auto split: if_splits)
  qed (use s in \<open>auto simp: splitext_def e_def [symmetric] Let_def\<close>)
qed

lemma splitext_ext: "splitext p = (base, ext) \<Longrightarrow> CHR ''/'' \<notin> set ext"
  by (auto simp: splitext_def Let_def dest: set_takeWhileD split: list.splits if_splits)

lemma directory_splitext: "splitext p = (base, ext) \<Longrightarrow> directory base = directory p"
  using splitext_join [of p base ext] splitext_ext [of p base ext] by simp

lemma directory_webp [simp]: "directory (webp_key_for key) = directory key"
  by (cases "splitext key") (simp add: webp_key_for_def directory_splitext)

lemma webp_key_nonempty [simp]: "webp_key_for key \<noteq> []" "[] \<noteq> webp_key_for key"
  by (simp_all add: webp_key_for_def)

section \<open>No picture is lost\<close>

lemma store_main_ok:
  assumes "store_main cs pil kind key original s = (Some (target, source), s1)"
  shows "(target = key \<or> target = webp_key_for key) \<and> s1 target = Some (webp_object source) \<and>
    (source = original \<or> pl_main pil kind original = Some source) \<and>
    (\<forall>k. k \<noteq> key \<longrightarrow> k \<noteq> target \<longrightarrow> s1 k = s k)"
  using assms
  by (auto simp: store_main_def perform_def Let_def split: if_splits option.splits)

lemma store_main_failed:
  assumes "store_main cs pil kind key original s = (None, s1)" and "s key \<noteq> None" and "call_delete cs \<noteq> Reply_Lost"
  shows "s1 key \<noteq> None \<and> (\<forall>k. k \<noteq> key \<longrightarrow> k \<noteq> webp_key_for key \<longrightarrow> s1 k = s k)"
  using assms
  by (cases "call_delete cs") (auto simp: store_main_def perform_def Let_def split: if_splits option.splits)

lemma store_thumb_frame:
  "s1 target \<noteq> None \<Longrightarrow> store_thumb cs pil kind target source s1 target \<noteq> None"
  "k \<noteq> thumb_key kind target \<Longrightarrow> store_thumb cs pil kind target source s1 k = s1 k"
  by (auto simp: store_thumb_def perform_def split: option.split)

text \<open>
  An upload survives its clean-up. Whatever goes wrong on the way, short of a deletion whose answer is
  lost, the key that \<open>optimize_r2_image\<close> returns, which the catalogue then stores, names an object of the
  bucket; it is the key of the upload or its WebP name in the same directory; and no object changes but
  those two and the thumbnail of one of them.
\<close>

theorem image_never_lost:
  assumes "s key \<noteq> None" and "key \<noteq> []" and "call_delete cs \<noteq> Reply_Lost"
    and "optimize_r2_image cs pil kind (Some key) s = (k, s')"
  shows "\<exists>final. k = Some final \<and> s' final \<noteq> None \<and> final \<in> {key, webp_key_for key} \<and> directory final = directory key \<and>
    (\<forall>other. other \<notin> {key, webp_key_for key, thumb_key kind key, thumb_key kind (webp_key_for key)} \<longrightarrow> s' other = s other)"
proof (cases "is_image_object_key key \<and> call_get cs = Done")
  case False
  then show ?thesis using assms by (auto simp: optimize_r2_image_def optimize_r2_image_sync_def split: option.splits if_splits)
next
  case True
  obtain ob where ob: "s key = Some ob" using assms(1) by auto
  show ?thesis
  proof (cases "store_main cs pil kind key (ob_body ob) s")
    case (Pair r s1)
    show ?thesis
    proof (cases r)
      case None
      then have "k = Some key \<and> s' = s1"
        using Pair True ob assms(2,4) by (simp add: optimize_r2_image_def optimize_r2_image_sync_def)
      then show ?thesis using store_main_failed [OF Pair [unfolded None] assms(1,3)] by auto
    next
      case (Some ts)
      obtain target source where ts: "ts = (target, source)" by (cases ts)
      note m = store_main_ok [OF Pair [unfolded Some ts]]
      have "k = Some target \<and> s' = store_thumb cs pil kind target source s1"
        using Pair Some ts True ob assms(2,4) by (simp add: optimize_r2_image_def optimize_r2_image_sync_def)
      then show ?thesis
        using m store_thumb_frame(1) [of s1 target cs pil kind source] by (auto simp: store_thumb_frame(2))
    qed
  qed
qed

definition tidy_pillow :: pillow where
  "tidy_pillow = \<lparr>pl_main = (\<lambda>_ b. Some (take 1 b)), pl_thumb = (\<lambda>_ _. None)\<rparr>"

definition one_upload :: bucket where
  "one_upload = [''movies/x/poster.jpg'' \<mapsto> \<lparr>ob_body = ''raw'', ob_type = ''image/jpeg'', ob_cache = []\<rparr>]"

definition all_done :: calls where
  "all_done = \<lparr>call_get = Done, call_put = Done, call_delete = Done, call_thumb = Done\<rparr>"

theorem image_never_lost_witness:
  "fst (optimize_r2_image all_done tidy_pillow Poster (Some ''movies/x/poster.jpg'') one_upload) = Some ''movies/x/poster.webp'' \<and>
   snd (optimize_r2_image all_done tidy_pillow Poster (Some ''movies/x/poster.jpg'') one_upload) ''movies/x/poster.webp'' \<noteq> None"
proof -
  let ?r = "optimize_r2_image all_done tidy_pillow Poster (Some ''movies/x/poster.jpg'') one_upload"
  have key: "fst ?r = Some ''movies/x/poster.webp''" by code_simp
  have "one_upload ''movies/x/poster.jpg'' \<noteq> None" "''movies/x/poster.jpg'' \<noteq> ([] :: string)"
    "call_delete all_done \<noteq> Reply_Lost"
    by (simp_all add: one_upload_def all_done_def)
  from image_never_lost [of one_upload "''movies/x/poster.jpg''" all_done, OF this prod.collapse [symmetric], of tidy_pillow Poster] key show ?thesis by auto
qed

text \<open>
  The exception: a deletion that happened but whose answer was lost makes the code return the old key,
  whose object is gone, although the new object is there.
\<close>

lemma lost_delete_loses_picture:
  "let r = optimize_r2_image (all_done\<lparr>call_delete := Reply_Lost\<rparr>) tidy_pillow Poster (Some ''movies/x/poster.jpg'') one_upload
   in fst r = Some ''movies/x/poster.jpg'' \<and> snd r ''movies/x/poster.jpg'' = None \<and> snd r ''movies/x/poster.webp'' \<noteq> None"
  by code_simp

text \<open>The catalogue's handlers only rely on a key staying a key.\<close>

lemma optimized_key_truthy: "truthy key \<Longrightarrow> truthy (fst (optimize_r2_image cs pil kind key s))"
proof -
  assume "truthy key"
  then obtain k where k: "key = Some k" "k \<noteq> []" by (cases key) auto
  have "t \<noteq> []" if "optimize_r2_image_sync cs pil kind k s = (Some t, s1)" for t s1
    using that k(2) by (auto simp: optimize_r2_image_sync_def dest!: store_main_ok split: option.splits if_splits prod.splits)
  then show ?thesis using k by (auto simp: optimize_r2_image_def split: option.split prod.split)
qed

text \<open>What the upload handlers rely on in the picture clean-up, and what follows for the catalogue.\<close>

locale key_optimizer =
  fixes optimize :: "string option \<Rightarrow> string \<Rightarrow> string option"
  assumes keeps_key: "truthy k \<Longrightarrow> truthy (optimize k kind)"
begin

lemma movie_assets_step:
  assumes "complete_admin_movie_asset_upload job exists optimize i ma d = Inr (m, d', dr)"
  shows "catalog_step d d'"
  using assms keeps_key by (rule catalog_step.assets [where optimize = optimize])

lemma podcast_assets_step:
  assumes "complete_admin_podcast_asset_upload exists optimize i ak pk d = Inr (m, d', dr)"
  shows "catalog_step d d'"
  using assms keeps_key by (rule catalog_step.podcast_assets [where optimize = optimize])

end

definition optimizer :: "(string \<Rightarrow> calls) \<Rightarrow> pillow \<Rightarrow> bucket \<Rightarrow> string option \<Rightarrow> string \<Rightarrow> string option" where
  "optimizer cs pil s key kind =
     fst (optimize_r2_image (cs kind) pil (if kind = ''poster'' then Poster else Banner) key s)"

interpretation clean_up: key_optimizer "optimizer cs pil s"
  by unfold_locales (simp add: optimizer_def optimized_key_truthy)

text \<open>However storage behaves, replacing the pictures of a title keeps the catalogue consistent.\<close>

lemmas assets_keep_catalog = clean_up.movie_assets_step [THEN catalog_step_ok]
  clean_up.podcast_assets_step [THEN catalog_step_ok]

end
