(* ===== verification/Background_Loops.thy ===== *)
theory Background_Loops
  imports Locks Publishing
begin

text \<open>
  The life of the three background loops: the Bakong sweeper (\<open>app/billing/bakong_sweeper.py\<close>), the
  health monitor (\<open>app/billing/bakong_health_monitor.py\<close>) and the publish sweeper
  (\<open>app/services/publish_sweeper.py\<close>), which start at most once per process, hold the worker lock of
  \<open>Locks\<close> and refresh it before every pass; and which of them the API (\<open>app/lifespan.py\<close>) and the
  separate worker (\<open>app/workers/bakong.py\<close>) start. What a pass does is in \<open>Sweeper\<close>, \<open>Publishing\<close> and
  \<open>Error_Alerts\<close>; an exception it raises is logged, and the loop sleeps and goes on.
\<close>

section \<open>Refreshing and releasing the lock\<close>

text \<open>\<open>HeldLock.refresh\<close> with its two commands one after the other; a lock file is held for good.\<close>

definition refresh :: "int \<Rightarrow> bool \<Rightarrow> monotonic \<Rightarrow> string \<Rightarrow> lock_state \<Rightarrow> bool \<times> lock_state" where
  "refresh ttl reach now tok s =
     (if lk_file s = Some tok then (True, s)
      else if \<not> reach then (False, give_up tok s)
      else (let s1 = check_owner Refreshing now tok s in
            if lk_pending s1 tok = None then (False, s1) else (True, finish_refresh ttl now tok s1)))"

definition release :: "bool \<Rightarrow> monotonic \<Rightarrow> string \<Rightarrow> lock_state \<Rightarrow> lock_state" where
  "release reach now tok s =
     (if lk_file s = Some tok then release_file tok s
      else if reach then finish_release tok (check_owner Releasing now tok s) else give_up tok s)"

section \<open>A loop\<close>

datatype task = No_Task | Task_Running | Task_Done

record runner =
  rn_task :: task
  rn_lock :: "string option"

definition idle :: runner where
  "idle = \<lparr>rn_task = No_Task, rn_lock = None\<rparr>"

definition start_loop ::
    "int \<Rightarrow> bool \<Rightarrow> monotonic \<Rightarrow> string \<Rightarrow> runner \<Rightarrow> lock_state \<Rightarrow> bool \<times> runner \<times> lock_state" where
  "start_loop ttl reach now tok rn s =
     (if rn_task rn = Task_Running then (True, rn, s)
      else (case try_acquire ttl reach now tok s of
              (False, s1) \<Rightarrow> (False, rn, s1)
            | (True, s1) \<Rightarrow> (True, \<lparr>rn_task = Task_Running, rn_lock = Some tok\<rparr>, s1)))"

text \<open>One round: whether the pass is made. A lock that is lost ends the task.\<close>

definition loop_round :: "int \<Rightarrow> bool \<Rightarrow> monotonic \<Rightarrow> runner \<Rightarrow> lock_state \<Rightarrow> bool \<times> runner \<times> lock_state" where
  "loop_round ttl reach now rn s =
     (if rn_task rn \<noteq> Task_Running then (False, rn, s)
      else (case rn_lock rn of
              None \<Rightarrow> (True, rn, s)
            | Some tok \<Rightarrow>
                (case refresh ttl reach now tok s of
                   (True, s1) \<Rightarrow> (True, rn, s1)
                 | (False, s1) \<Rightarrow> (False, rn\<lparr>rn_task := Task_Done\<rparr>, s1))))"

definition stop_loop :: "bool \<Rightarrow> monotonic \<Rightarrow> runner \<Rightarrow> lock_state \<Rightarrow> runner \<times> lock_state" where
  "stop_loop reach now rn s =
     (idle, case rn_lock rn of None \<Rightarrow> s | Some tok \<Rightarrow> release reach now tok s)"

text \<open>
  The \<open>while True\<close>: a pass takes some time, then the loop sleeps for the interval. The list gives the
  durations of the passes, so the run is followed for as many rounds as it is long; the value is the
  times of the passes made.
\<close>

fun loop_passes ::
    "int \<Rightarrow> monotonic \<Rightarrow> monotonic \<Rightarrow> monotonic list \<Rightarrow> runner \<Rightarrow> lock_state \<Rightarrow> monotonic list" where
  "loop_passes ttl interval now [] rn s = []"
| "loop_passes ttl interval now (d # ds) rn s =
     (case loop_round ttl True now rn s of
        (False, _, _) \<Rightarrow> []
      | (True, rn1, s1) \<Rightarrow> now # loop_passes ttl interval (now + d + interval) ds rn1 s1)"

definition bakong_interval :: "int \<Rightarrow> int" where
  "bakong_interval configured = max 120 configured"

definition bakong_lock_ttl :: int where "bakong_lock_ttl = 180"
definition publish_lock_ttl :: int where "publish_lock_ttl = 120"
definition health_lock_ttl :: int where "health_lock_ttl = 240"
definition health_interval :: int where "health_interval = 180"

section \<open>Who starts what\<close>

datatype loop_name = Bakong_Sweeper | Health_Monitor | Publish_Sweeper

record background =
  bg_in_api :: bool
  bg_nbc_settle :: bool
  bg_sweeper :: bool
  bg_service_url :: string
  bg_publish :: bool

definition health_wanted :: "background \<Rightarrow> bool" where
  "health_wanted c \<longleftrightarrow> bg_nbc_settle c \<and> strip (bg_service_url c) \<noteq> []"

definition api_loops :: "background \<Rightarrow> loop_name list" where
  "api_loops c =
     (if bg_in_api c \<and> bg_nbc_settle c \<and> bg_sweeper c then [Bakong_Sweeper] else []) @
     (if bg_in_api c \<and> health_wanted c then [Health_Monitor] else []) @
     (if bg_publish c then [Publish_Sweeper] else [])"

text \<open>The worker leaves when it could start nothing; \<open>free\<close> is which locks it gets.\<close>

definition worker_loops :: "(loop_name \<Rightarrow> bool) \<Rightarrow> background \<Rightarrow> loop_name list option" where
  "worker_loops free c =
     (let started =
        (if bg_nbc_settle c \<and> bg_sweeper c \<and> free Bakong_Sweeper then [Bakong_Sweeper] else []) @
        (if health_wanted c \<and> free Health_Monitor then [Health_Monitor] else [])
      in if started = [] then None else Some started)"

lemma loops_split:
  assumes "\<not> bg_in_api c" and "worker_loops free c = Some names"
  shows "set (api_loops c) \<inter> set names = {}"
  using assms by (auto simp: worker_loops_def api_loops_def Let_def split: if_splits)

section \<open>How long a loop lives\<close>

text \<open>A task that has ended never makes a pass again; only another start would help, and none comes.\<close>

lemma done_for_good: "rn_task rn \<noteq> Task_Running \<Longrightarrow> loop_passes ttl interval now ds rn s = []"
  by (cases ds) (simp_all add: loop_round_def)

lemma refresh_held:
  assumes "lk_key s = Some (tok, e)" and "lk_file s \<noteq> Some tok"
  shows "fst (refresh ttl True now tok s) \<longleftrightarrow> now < e"
    and "now < e \<Longrightarrow> lk_key (snd (refresh ttl True now tok s)) = Some (tok, now + lock_ttl ttl)"
    and "lk_file (snd (refresh ttl True now tok s)) \<noteq> Some tok"
  using assms by (auto simp: refresh_def check_owner_def live_key_def give_up_def finish_refresh_def Let_def)

definition running :: "string \<Rightarrow> runner" where
  "running tok = \<lparr>rn_task = Task_Running, rn_lock = Some tok\<rparr>"

lemma loop_passes_length:
  assumes "lk_key s = Some (tok, e)" and "lk_file s \<noteq> Some tok"
  shows "length (loop_passes ttl interval now ds (running tok) s) =
    (if now < e then min (length ds) (Suc (length (takeWhile (\<lambda>d. d + interval < lock_ttl ttl) ds))) else 0)"
  using assms
proof (induction ds arbitrary: now s e)
  case (Cons d ds)
  obtain ok s1 where r: "refresh ttl True now tok s = (ok, s1)" by (cases "refresh ttl True now tok s")
  note held = refresh_held [OF Cons.prems, where ttl = ttl and now = now, unfolded r fst_conv snd_conv]
  have step: "loop_passes ttl interval now (d # ds) (running tok) s =
      (if ok then now # loop_passes ttl interval (now + d + interval) ds (running tok) s1 else [])"
    using r by (auto simp: loop_round_def running_def)
  show ?case
  proof (cases ok)
    case True
    then have "now < e" using held(1) by simp
    have "length (loop_passes ttl interval (now + d + interval) ds (running tok) s1) =
        (if now + d + interval < now + lock_ttl ttl
         then min (length ds) (Suc (length (takeWhile (\<lambda>d. d + interval < lock_ttl ttl) ds))) else 0)"
      using Cons.IH [OF held(2) held(3)] \<open>now < e\<close> by blast
    then show ?thesis using True \<open>now < e\<close> unfolding step by (auto simp: add.assoc)
  qed (use held(1) step in simp)
qed simp

lemma started_loop_length:
  assumes "start_loop ttl True now tok idle no_lock = (True, rn, s)"
  shows "length (loop_passes ttl interval now ds rn s) =
    min (length ds) (Suc (length (takeWhile (\<lambda>d. d + interval < lock_ttl ttl) ds)))"
proof -
  have "rn = running tok" "lk_key s = Some (tok, now + lock_ttl ttl)" "lk_file s \<noteq> Some tok"
    using assms by (auto simp: start_loop_def try_acquire_def idle_def no_lock_def live_key_def running_def)
  moreover have "0 < lock_ttl ttl" by (simp add: lock_ttl_def)
  ultimately show ?thesis using loop_passes_length [of s tok "now + lock_ttl ttl"] by simp
qed

text \<open>
  The clamp of the publish sweeper allows intervals up to 300 seconds, its lock lives 120: configured to
  120 or more, it sweeps once per process. The Bakong sweeper, at its shortest interval, ends after a
  sweep of a minute, which four slow answers of NBC make.
\<close>

lemma no_second_pass:
  assumes "start_loop ttl True now tok idle no_lock = (True, rn, s)" and "lock_ttl ttl \<le> interval" and "\<forall>d \<in> set ds. 0 \<le> d"
  shows "length (loop_passes ttl interval now ds rn s) \<le> 1"
proof -
  have "takeWhile (\<lambda>d. d + interval < lock_ttl ttl) ds = []" using assms(2,3) by (cases ds) auto
  then show ?thesis using started_loop_length [OF assms(1)] by simp
qed

lemma publish_sweeper_single_sweep:
  assumes "start_loop publish_lock_ttl True now tok idle no_lock = (True, rn, s)" and "120 \<le> configured"
    and "\<forall>d \<in> set ds. 0 \<le> d"
  shows "length (loop_passes publish_lock_ttl (of_int (publish_interval configured)) now ds rn s) \<le> 1"
proof (rule no_second_pass [OF assms(1) _ assms(3)])
  have "(120 :: int) \<le> publish_interval configured" using assms(2) by (simp add: publish_interval_def)
  then have "(of_int 120 :: rat) \<le> of_int (publish_interval configured)" by (simp only: of_int_le_iff)
  then show "lock_ttl publish_lock_ttl \<le> of_int (publish_interval configured)"
    by (simp add: lock_ttl_def publish_lock_ttl_def)
qed

lemma bakong_sweeper_slow_sweep:
  assumes "start_loop bakong_lock_ttl True now tok idle no_lock = (True, rn, s)" and "60 \<le> d"
  shows "length (loop_passes bakong_lock_ttl (of_int (bakong_interval configured)) now (d # ds) rn s) = 1"
proof -
  have "(120 :: int) \<le> bakong_interval configured" by (simp add: bakong_interval_def)
  then have "(of_int 120 :: rat) \<le> of_int (bakong_interval configured)" by (simp only: of_int_le_iff)
  then have "\<not> d + of_int (bakong_interval configured) < lock_ttl bakong_lock_ttl"
    using assms(2) by (simp add: lock_ttl_def bakong_lock_ttl_def)
  then show ?thesis using started_loop_length [OF assms(1), of "of_int (bakong_interval configured)" "d # ds"] by simp
qed

text \<open>With the default settings and passes of under a minute both sweepers go on.\<close>

lemma default_loops_live:
  assumes "start_loop ttl True now tok idle no_lock = (True, rn, s)" and "\<forall>d \<in> set ds. d < 60"
    and "(ttl, interval) \<in> {(publish_lock_ttl, 45), (bakong_lock_ttl, 120), (health_lock_ttl, of_int health_interval)}"
  shows "length (loop_passes ttl interval now ds rn s) = length ds"
proof -
  have "\<forall>d \<in> set ds. d + interval < lock_ttl ttl"
    using assms(2,3) by (auto simp: lock_ttl_def publish_lock_ttl_def bakong_lock_ttl_def health_lock_ttl_def health_interval_def)
  then have "takeWhile (\<lambda>d. d + interval < lock_ttl ttl) ds = ds" by (simp only: takeWhile_eq_all_conv)
  then show ?thesis by (simp only: started_loop_length [OF assms(1)])
qed

text \<open>
  C24: A background loop lives exactly as long as its passes fit its lock. Started with the lock in Redis,
  which stays reachable, it makes its passes up to and including the first one that, with the sleep after
  it, takes the lifetime of the lock or longer; then the lock has expired, the loop ends, and nothing
  starts it again.
\<close>

theorem loop_lives_within_lock:
  assumes "start_loop ttl True now tok idle no_lock = (True, rn, s)"
  shows "length (loop_passes ttl interval now ds rn s) =
    min (length ds) (Suc (length (takeWhile (\<lambda>d. d + interval < lock_ttl ttl) ds)))"
  using assms by (rule started_loop_length)

theorem loop_lives_within_lock_witness:
  "loop_passes 120 45 0 [10, 80, 10, 10] (running ''a'') (snd (snd (start_loop 120 True 0 ''a'' idle no_lock))) = [0, 55] \<and>
   length (loop_passes 120 45 0 [10, 80, 10, 10] (running ''a'') (snd (snd (start_loop 120 True 0 ''a'' idle no_lock)))) =
     min 4 (Suc (length (takeWhile (\<lambda>d :: rat. d + 45 < lock_ttl 120) [10, 80, 10, 10])))"
proof -
  have run: "start_loop 120 True 0 ''a'' idle no_lock =
      (True, running ''a'', snd (snd (start_loop 120 True 0 ''a'' idle no_lock)))"
    by (simp add: start_loop_def try_acquire_def idle_def no_lock_def live_key_def running_def)
  have "loop_passes 120 45 0 [10, 80, 10, 10] (running ''a'') (snd (snd (start_loop 120 True 0 ''a'' idle no_lock))) = [0, 55]"
    by code_simp
  with loop_lives_within_lock [OF run, of 45 "[10, 80, 10, 10]"] show ?thesis by simp
qed

end
