(* ===== verification/Env_File.thy ===== *)
theory Env_File
  imports Playlists
begin

text \<open>
  The edits \<open>scripts/install_supabase_tls_on_host.py\<close> makes to the \<open>.env\<close> file: reading a variable and
  setting one. Writing the certificates and calling openssl are not modelled.
\<close>

definition strip_set :: "string \<Rightarrow> string \<Rightarrow> string" where
  "strip_set cs s = rev (dropWhile (\<lambda>c. c \<in> set cs) (rev (dropWhile (\<lambda>c. c \<in> set cs) s)))"

definition sets_key :: "string \<Rightarrow> string \<Rightarrow> bool" where
  "sets_key key line \<longleftrightarrow> starts_with (key @ ''='') line"

text \<open>\<open>line.split("=", 1)[1]\<close> of a line that has the sign.\<close>

definition after_equals :: "string \<Rightarrow> string" where
  "after_equals line = List.drop 1 (dropWhile (\<lambda>c. c \<noteq> CHR ''='') line)"

definition env_value :: "string \<Rightarrow> string \<Rightarrow> string" where
  "env_value key text =
     (case List.find (sets_key key) (splitlines text) of
        None \<Rightarrow> [] | Some line \<Rightarrow> strip_set [CHR 0x22, CHR 0x27] (strip (after_equals line)))"

definition upsert_lines :: "string \<Rightarrow> string \<Rightarrow> string list \<Rightarrow> string list" where
  "upsert_lines key value lines =
     (let line = key @ ''='' @ value; out = map (\<lambda>l. if sets_key key l then line else l) lines in
      if list_ex (sets_key key) lines then out
      else (if out \<noteq> [] \<and> strip (last out) \<noteq> [] then out @ [[]] else out) @ [line])"

definition upsert_env :: "string \<Rightarrow> string \<Rightarrow> string \<Rightarrow> string" where
  "upsert_env key value text = unlines (upsert_lines key value (splitlines text))"

section \<open>Setting and reading\<close>

definition plain_key :: "string \<Rightarrow> bool" where
  "plain_key key \<longleftrightarrow> key \<noteq> [] \<and> CHR ''='' \<notin> set key \<and> plain_line key"

lemma sets_key_iff: "sets_key key line \<longleftrightarrow> (\<exists>v. line = key @ ''='' @ v)"
  by (auto simp: sets_key_def starts_with_iff)

lemma until_equals:
  assumes "CHR ''='' \<notin> set key"
  shows "takeWhile (\<lambda>c. c \<noteq> CHR ''='') (key @ CHR ''='' # v) = key"
    and "dropWhile (\<lambda>c. c \<noteq> CHR ''='') (key @ CHR ''='' # v) = CHR ''='' # v"
  using assms by (induction key) auto

text \<open>A line sets one variable: two keys without the sign that begin it are the same.\<close>

lemma sets_key_unique:
  assumes "plain_key key" "plain_key key'" "sets_key key line" "sets_key key' line"
  shows "key = key'"
proof -
  have t: "takeWhile (\<lambda>c. c \<noteq> CHR ''='') line = k" if "plain_key k" "sets_key k line" for k
    using that by (auto simp: sets_key_iff plain_key_def until_equals)
  show ?thesis using t [OF assms(1,3)] t [OF assms(2,4)] by simp
qed

lemma after_equals_set: "plain_key key \<Longrightarrow> after_equals (key @ ''='' @ v) = v"
  by (simp add: after_equals_def plain_key_def until_equals)

lemma upsert_lines_plain:
  assumes "plain_key key" "plain_line value" "\<forall>l \<in> set lines. plain_line l" "l \<in> set (upsert_lines key value lines)"
  shows "plain_line l"
  using assms by (auto simp: upsert_lines_def plain_key_def plain_line_def is_break_def Let_def split: if_splits)

lemma upsert_lines_nonempty: "upsert_lines key value lines \<noteq> []"
  by (auto simp: upsert_lines_def Let_def list_ex_iff)

lemma find_map_other:
  assumes "\<And>l. Q l \<Longrightarrow> \<not> P (f l) \<and> \<not> P l" and "\<And>l. \<not> Q l \<Longrightarrow> f l = l"
  shows "List.find P (map f ls) = List.find P ls"
proof (induction ls)
  case (Cons l ls)
  then show ?case using assms by (cases "Q l") auto
qed simp

lemma find_append: "List.find P (xs @ ys) = (case List.find P xs of None \<Rightarrow> List.find P ys | Some x \<Rightarrow> Some x)"
  by (induction xs) auto

lemma find_mapped:
  "list_ex P ls \<Longrightarrow> P x \<Longrightarrow> List.find P (map (\<lambda>l. if P l then x else l) ls) = Some x"
  by (induction ls) auto

lemma env_upsert_find:
  assumes "plain_key key"
  shows "List.find (sets_key key) (upsert_lines key value lines) = Some (key @ ''='' @ value)"
    and "plain_key key' \<Longrightarrow> key' \<noteq> key \<Longrightarrow>
      List.find (sets_key key') (upsert_lines key value lines) = List.find (sets_key key') lines"
proof -
  let ?line = "key @ ''='' @ value"
  have line: "sets_key key ?line" unfolding sets_key_iff by blast
  have none: "List.find (sets_key key) lines = None" if "\<not> list_ex (sets_key key) lines"
    using that by (simp add: find_None_iff list_ex_iff)
  have same: "map (\<lambda>l. if sets_key key l then ?line else l) lines = lines" if "\<not> list_ex (sets_key key) lines"
    using that by (auto simp: list_ex_iff intro: map_idI)
  have blank: "\<not> sets_key k []" for k by (auto simp: sets_key_iff)
  show "List.find (sets_key key) (upsert_lines key value lines) = Some ?line"
  proof (cases "list_ex (sets_key key) lines")
    case True
    show ?thesis unfolding upsert_lines_def Let_def
      using find_mapped [OF True line] by (simp only: True if_True)
  next
    case False
    show ?thesis unfolding upsert_lines_def Let_def same [OF False]
      using False none [OF False] line blank by (auto simp: find_append)
  qed
  assume k: "plain_key key'" "key' \<noteq> key"
  have other: "\<not> sets_key key' l" if "sets_key key l" for l
    using sets_key_unique [OF assms k(1) that] k(2) by blast
  have o: "List.find (sets_key key') (map (\<lambda>l. if sets_key key l then ?line else l) lines) = List.find (sets_key key') lines"
    by (rule find_map_other [where Q = "sets_key key"]) (use other line in auto)
  have nl: "\<not> sets_key key' ?line" using other line by blast
  show "List.find (sets_key key') (upsert_lines key value lines) = List.find (sets_key key') lines"
    unfolding upsert_lines_def Let_def using o nl blank
    by (auto simp: find_append split: option.split)
qed

text \<open>
  A variable reads back as it was set, without the spaces and quotes around it, whatever was in the file,
  and no other variable changes.
\<close>

theorem env_roundtrip:
  assumes "plain_key key" and "plain_line value"
  shows "env_value key (upsert_env key value text) = strip_set [CHR 0x22, CHR 0x27] (strip value) \<and>
    (plain_key key' \<longrightarrow> key' \<noteq> key \<longrightarrow> env_value key' (upsert_env key value text) = env_value key' text)"
proof -
  have "\<forall>l \<in> set (splitlines text). plain_line l" using splitlines_plain by blast
  then have "\<And>l. l \<in> set (upsert_lines key value (splitlines text)) \<Longrightarrow> plain_line l"
    using upsert_lines_plain [OF assms] by blast
  then have "splitlines (upsert_env key value text) = upsert_lines key value (splitlines text)"
    unfolding upsert_env_def by (intro splitlines_unlines) (auto simp: upsert_lines_nonempty)
  then show ?thesis using env_upsert_find [OF assms(1)] after_equals_set [OF assms(1)] by (simp add: env_value_def)
qed

end
