(* ===== verification/Request_Shell.thy ===== *)
theory Request_Shell
  imports Telegram_Login Db_Connect
begin

text \<open>
  What surrounds the handlers: the response headers (\<open>app/middleware/security.py\<close>,
  \<open>app/middleware/request_id.py\<close>), the answers to database errors (\<open>app/exception_handlers/database.py\<close>),
  the health checks (\<open>app/routers/health.py\<close>) and the Telegram webhook
  (\<open>app/routers/telegram_webhook.py\<close>), the only way an update reaches the bot login.
\<close>

section \<open>Response headers\<close>

record http_request =
  rq_scheme :: string
  rq_forwarded_proto :: "string option"
  rq_request_id :: "string option"

type_synonym headers = "string \<Rightarrow> string option"

definition before_comma :: "string \<Rightarrow> string" where
  "before_comma s = takeWhile (\<lambda>c. c \<noteq> CHR '','') s"

definition is_https :: "http_request \<Rightarrow> bool" where
  "is_https r \<longleftrightarrow>
     rq_scheme r = ''https'' \<or>
     lower (strip (before_comma (case rq_forwarded_proto r of None \<Rightarrow> [] | Some v \<Rightarrow> v))) = ''https''"

definition source_none :: string where
  "source_none = [CHR 0x27] @ ''none'' @ [CHR 0x27]"

definition content_policy :: string where
  "content_policy =
     ''default-src '' @ source_none @ ''; frame-ancestors '' @ source_none @ ''; base-uri '' @ source_none"

definition security_headers :: "bool \<Rightarrow> http_request \<Rightarrow> headers \<Rightarrow> headers" where
  "security_headers debugging r h =
     (let h1 = h(''X-Content-Type-Options'' \<mapsto> ''nosniff'', ''X-Frame-Options'' \<mapsto> ''DENY'',
            ''Referrer-Policy'' \<mapsto> ''strict-origin-when-cross-origin'',
            ''Content-Security-Policy'' \<mapsto> content_policy)
      in if is_https r \<and> (\<not> debugging \<or> rq_scheme r = ''https'')
         then h1(''Strict-Transport-Security'' \<mapsto> ''max-age=31536000; includeSubDomains; preload'') else h1)"

text \<open>\<open>fresh\<close> is the hexadecimal id made when the request brings none.\<close>

definition request_id :: "string \<Rightarrow> http_request \<Rightarrow> string" where
  "request_id fresh r =
     (let given = strip (case rq_request_id r of None \<Rightarrow> [] | Some v \<Rightarrow> v) in if given = [] then fresh else given)"

definition with_request_id :: "string \<Rightarrow> http_request \<Rightarrow> headers \<Rightarrow> headers" where
  "with_request_id fresh r h = h(''X-Request-ID'' \<mapsto> request_id fresh r)"

lemma strict_transport_iff:
  assumes "h ''Strict-Transport-Security'' = None"
  shows "security_headers debugging r h ''Strict-Transport-Security'' \<noteq> None \<longleftrightarrow>
    rq_scheme r = ''https'' \<or> (\<not> debugging \<and> is_https r)"
  using assms by (auto simp: security_headers_def Let_def is_https_def)

lemma answer_is_labelled:
  "fresh \<noteq> [] \<Longrightarrow> \<exists>i. i \<noteq> [] \<and> with_request_id fresh r h ''X-Request-ID'' = Some i"
  by (simp add: with_request_id_def request_id_def Let_def)

section \<open>Database errors\<close>

definition transient_db_detail :: string where
  "transient_db_detail = ''Database is temporarily unreachable. '' @
     ''If using Supabase: confirm the project is not paused, use POOLER_DATABASE_URL '' @
     ''(session mode, port 5432), and retry in a few seconds.''"

definition timeout_error_handler :: "exn_heap \<Rightarrow> nat \<Rightarrow> error" where
  "timeout_error_handler hp a =
     (if exception_from_db_layer hp a then HTTPException 503 transient_db_detail
      else HTTPException 503 (if exn_message (hp ! a) = [] then ''Request timed out'' else exn_message (hp ! a)))"

text \<open>The value is \<open>None\<close> where the search for the cause does not return.\<close>

definition sqlalchemy_error_handler :: "bool \<Rightarrow> exn_heap \<Rightarrow> nat \<Rightarrow> error option" where
  "sqlalchemy_error_handler debugging hp a =
     map_option (\<lambda>transient.
       if transient then HTTPException 503 transient_db_detail
       else (let message = lower (exn_message (hp ! a)) in
             HTTPException 500
               (if debugging \<and> (contains ''subscription_plans'' message \<or> contains ''does not exist'' message \<or>
                     contains ''undefinedtable'' message)
                then ''Database schema is missing subscription_plans. '' @ ''Run: cd movie-api && alembic upgrade head''
                else ''Database error. Please try again.'')))
       (is_transient_db_error hp a)"

text \<open>Outside debug mode no text of the database reaches the client through a database error.\<close>

lemma database_text_stays_inside:
  assumes "sqlalchemy_error_handler False hp a = Some e"
  shows "e = HTTPException 503 transient_db_detail \<or> e = HTTPException 500 ''Database error. Please try again.''"
  using assms by (auto simp: sqlalchemy_error_handler_def Let_def split: if_splits)

section \<open>Health\<close>

text \<open>\<open>answered\<close> is whether one of the two pings answers; the second component is \<open>db_ready\<close>.\<close>

definition readiness :: "bool \<Rightarrow> unit result \<times> bool" where
  "readiness answered =
     (if answered then (Inr (), True) else (Inl (HTTPException 503 transient_db_detail), False))"

text \<open>A failed readiness check makes the next request probe the database again.\<close>

lemma readiness_rearms:
  "warmup_request now (snd (readiness False)) new_warmup = (True, new_warmup\<lparr>wu_locked := True\<rparr>) \<longleftrightarrow> 0 \<le> now"
  by (auto simp: readiness_def warmup_request_def begin_probe_def new_warmup_def)

section \<open>The Telegram webhook\<close>

text \<open>
  The body is not JSON, not an object, or an update; \<open>fails\<close> is whether handling it raises, after which
  everything is rolled back and Telegram is told all went well.
\<close>

datatype webhook_body = Not_Json | Not_Object | Update tg_update

definition telegram_webhook ::
    "(string \<Rightarrow> string) \<Rightarrow> (uuid \<Rightarrow> string) \<Rightarrow> (string \<Rightarrow> uuid option) \<Rightarrow> settings \<Rightarrow> datetime \<Rightarrow> bool \<Rightarrow>
     string option \<Rightarrow> webhook_body \<Rightarrow> db \<Rightarrow> unit result \<times> bot_call list \<times> db" where
  "telegram_webhook hash_token show_uuid parse_uuid cfg now fails received body d =
     (let secret = strip (telegram_webhook_secret cfg) in
      if secret = [] then (Inl (HTTPException 503 ''Telegram webhook is not configured''), [], d)
      else if (case received of None \<Rightarrow> [] | Some v \<Rightarrow> v) \<noteq> secret
      then (Inl (HTTPException 401 ''Invalid secret''), [], d)
      else (case body of
              Update u \<Rightarrow>
                (case handle_update hash_token show_uuid parse_uuid now u d of
                   (calls, d') \<Rightarrow> if fails then (Inr (), [], d) else (Inr (), calls, d'))
            | _ \<Rightarrow> (Inr (), [], d)))"

text \<open>Without the secret nothing moves: neither the database nor the bot.\<close>

lemma webhook_needs_secret:
  assumes "telegram_webhook h shw prs cfg now fails received body d = (r, calls, d')" and "d' \<noteq> d \<or> calls \<noteq> []"
  shows "received = Some (strip (telegram_webhook_secret cfg)) \<and> received \<noteq> Some [] \<and> r = Inr ()"
  using assms by (auto simp: telegram_webhook_def Let_def split: if_splits option.splits webhook_body.splits prod.splits)

end
