(* ===== verification/Schema_Upgrade.thy ===== *)
theory Schema_Upgrade
  imports Checkout
begin

text \<open>
  The data part of \<open>alembic/versions/0048_atomic_sessions_and_checkout.py\<close>, which runs once, before its
  unique constraints exist: open subscription checkouts get the length of their plan, the subscriptions of a
  user become one, and of the open payments for the same thing the physically last one stays. The table order
  of the model is the \<open>ctid\<close> order; \<open>created\<close> gives the \<open>created_at\<close> of a subscription, which
  nothing else reads. Whether the constraints can then be created is what the property shows.
\<close>

section \<open>Plan lengths\<close>

definition plan_interval :: "db \<Rightarrow> intent_row \<Rightarrow> intent_row" where
  "plan_interval d p =
     (if pi_kind p = ''sub'' \<and> pi_plan_interval_days p = None
      then (case pi_plan_code p of
          None \<Rightarrow> p
        | Some code \<Rightarrow>
            (case select_one (\<lambda>sp. plan_code sp = code) (subscription_plans d) of
               None \<Rightarrow> p | Some sp \<Rightarrow> p\<lparr>pi_plan_interval_days := Some (plan_billing_interval_days sp)\<rparr>))
      else p)"

section \<open>One subscription per user\<close>

definition sub_rank :: "(uuid \<Rightarrow> datetime) \<Rightarrow> subscription_row \<Rightarrow> datetime \<times> datetime \<times> int" where
  "sub_rank created s = (- sub_current_period_end s, - created (sub_id s), - int (sub_id s))"

text \<open>The row numbered 1 of the user's partition.\<close>

definition sub_keeper :: "(uuid \<Rightarrow> datetime) \<Rightarrow> db \<Rightarrow> uuid \<Rightarrow> subscription_row option" where
  "sub_keeper created d uid =
     first_row (order_by (sub_rank created) (filter (\<lambda>s. sub_user_id s = uid) (subscriptions d)))"

definition repoint_payment :: "(uuid \<Rightarrow> datetime) \<Rightarrow> db \<Rightarrow> sub_payment_row \<Rightarrow> sub_payment_row" where
  "repoint_payment created d sp =
     (case select_one (\<lambda>s. sub_id s = spay_subscription_id sp) (subscriptions d) of
        None \<Rightarrow> sp
      | Some doomed \<Rightarrow>
          (case sub_keeper created d (sub_user_id doomed) of
             None \<Rightarrow> sp
           | Some k \<Rightarrow> if sub_id doomed \<noteq> sub_id k then sp\<lparr>spay_subscription_id := sub_id k\<rparr> else sp))"

definition collapse_subscriptions :: "(uuid \<Rightarrow> datetime) \<Rightarrow> db \<Rightarrow> db" where
  "collapse_subscriptions created d =
     d\<lparr>subscription_payments := map (repoint_payment created d) (subscription_payments d),
       subscriptions := filter (\<lambda>s. map_option sub_id (sub_keeper created d (sub_user_id s)) = Some (sub_id s)) (subscriptions d)\<rparr>"

section \<open>One open payment per buyer and item\<close>

text \<open>What each of the five \<open>DELETE\<close> statements compares.\<close>

definition open_key :: "string \<Rightarrow> (intent_row \<Rightarrow> 'a option) \<Rightarrow> (intent_row \<Rightarrow> 'b option) \<Rightarrow> intent_row \<Rightarrow> ('a \<times> 'b) option" where
  "open_key kind buyer item p =
     (if pi_status p = ''pending'' \<and> pi_method p = ''bakong'' \<and> pi_kind p = kind
      then (case (buyer p, item p) of (Some b, Some i) \<Rightarrow> Some (b, i) | _ \<Rightarrow> None)
      else None)"

fun keep_last :: "('a \<Rightarrow> 'k option) \<Rightarrow> 'a list \<Rightarrow> 'a list" where
  "keep_last key [] = []"
| "keep_last key (a # rows) =
     (if key a \<noteq> None \<and> list_ex (\<lambda>b. key b = key a) rows then keep_last key rows else a # keep_last key rows)"

definition collapse_intents :: "intent_row list \<Rightarrow> intent_row list" where
  "collapse_intents ps =
     keep_last (open_key ''sub'' pi_user_id pi_plan_code)
      (keep_last (open_key ''series'' pi_guest_id pi_series_id)
       (keep_last (open_key ''series'' pi_user_id pi_series_id)
        (keep_last (open_key ''single'' pi_guest_id pi_content_id)
         (keep_last (open_key ''single'' pi_user_id pi_content_id) ps))))"

definition upgrade_0048 :: "(uuid \<Rightarrow> datetime) \<Rightarrow> db \<Rightarrow> db" where
  "upgrade_0048 created d =
     (let d1 = d\<lparr>payment_intents := map (plan_interval d) (payment_intents d)\<rparr>;
          d2 = collapse_subscriptions created d1
      in d2\<lparr>payment_intents := collapse_intents (payment_intents d2)\<rparr>)"

section \<open>The constraints can be created\<close>

lemma set_keep_last: "set (keep_last key rows) \<subseteq> set rows"
  by (induction rows) auto

lemma keep_last_keyless: "p \<in> set rows \<Longrightarrow> key p = None \<Longrightarrow> p \<in> set (keep_last key rows)"
  by (induction rows) auto

lemma keep_last_keys: "distinct (List.map_filter key (keep_last key rows))"
proof (induction rows)
  case (Cons a rows)
  have "set (List.map_filter key (keep_last key rows)) \<subseteq> {k. \<exists>b \<in> set rows. key b = Some k}"
    using set_keep_last [of key rows] by (auto simp: map_filter_def)
  then show ?case using Cons.IH by (cases "key a") (auto simp: List.map_filter_simps list_ex_iff)
qed (simp add: List.map_filter_simps)

lemma keep_last_other: "distinct (List.map_filter key rows) \<Longrightarrow> distinct (List.map_filter key (keep_last other rows))"
proof (induction rows)
  case (Cons a rows)
  have "set (List.map_filter key (keep_last other rows)) \<subseteq> set (List.map_filter key rows)"
    using set_keep_last [of other rows] by (auto simp: map_filter_def)
  then show ?case using Cons by (cases "key a") (auto simp: List.map_filter_simps)
qed simp

lemma in_map_filter_iff: "k \<in> set (List.map_filter key rows) \<longleftrightarrow> (\<exists>p \<in> set rows. key p = Some k)"
  by (induction rows) (auto simp: List.map_filter_simps split: option.split)

lemma pending_key_iff:
  "MovieUser b i \<in> set (pending_keys p) \<longleftrightarrow> open_key ''single'' pi_user_id pi_content_id p = Some (b, i)"
  "MovieGuest g i \<in> set (pending_keys p) \<longleftrightarrow> open_key ''single'' pi_guest_id pi_content_id p = Some (g, i)"
  "SeriesUser b i \<in> set (pending_keys p) \<longleftrightarrow> open_key ''series'' pi_user_id pi_series_id p = Some (b, i)"
  "SeriesGuest g i \<in> set (pending_keys p) \<longleftrightarrow> open_key ''series'' pi_guest_id pi_series_id p = Some (g, i)"
  "SubUserPlan b c \<in> set (pending_keys p) \<longleftrightarrow> open_key ''sub'' pi_user_id pi_plan_code p = Some (b, c)"
  by (simp_all add: pending_keys_def open_key_def pair_key_def split: option.split) auto

lemma distinct_pending_keys: "distinct (pending_keys p)"
  by (simp add: pending_keys_def pair_key_def split: option.split)

lemma distinct_map_filter_Cons:
  "distinct (List.map_filter key (a # rows)) \<longleftrightarrow>
     distinct (List.map_filter key rows) \<and> (\<forall>k. key a = Some k \<longrightarrow> k \<notin> set (List.map_filter key rows))"
  by (auto simp: List.map_filter_simps split: option.split)

lemma pending_unique_by_key:
  assumes "distinct (List.map_filter (open_key ''single'' pi_user_id pi_content_id) rows)"
    and "distinct (List.map_filter (open_key ''single'' pi_guest_id pi_content_id) rows)"
    and "distinct (List.map_filter (open_key ''series'' pi_user_id pi_series_id) rows)"
    and "distinct (List.map_filter (open_key ''series'' pi_guest_id pi_series_id) rows)"
    and "distinct (List.map_filter (open_key ''sub'' pi_user_id pi_plan_code) rows)"
  shows "pending_unique rows"
  using assms
proof (induction rows)
  case (Cons a rows)
  note new_keys = Cons.prems [unfolded distinct_map_filter_Cons in_map_filter_iff]
  have "k \<notin> set (pending_keys p)" if "k \<in> set (pending_keys a)" "p \<in> set rows" for k p
  proof
    assume "k \<in> set (pending_keys p)"
    with that show False
      by (cases k rule: pending_key.exhaust) (use new_keys in \<open>auto simp: pending_key_iff\<close>)
  qed
  then have new: "\<And>k. k \<in> set (pending_keys a) \<Longrightarrow> k \<notin> set (concat (map pending_keys rows))" by auto
  show ?case
    using new Cons.IH Cons.prems distinct_pending_keys [of a] unfolding distinct_map_filter_Cons pending_unique_def by auto
qed (simp add: pending_unique_def)

lemma collapse_intents_unique: "pending_unique (collapse_intents ps)"
  unfolding collapse_intents_def
  by (rule pending_unique_by_key) (intro keep_last_keys keep_last_other)+

lemma collapse_intents_set: "set (collapse_intents ps) \<subseteq> set ps"
  unfolding collapse_intents_def using set_keep_last by (meson order_trans)

lemma collapse_intents_closed:
  assumes "p \<in> set ps" and "pi_status p \<noteq> ''pending'' \<or> pi_method p \<noteq> ''bakong''"
  shows "p \<in> set (collapse_intents ps)"
  unfolding collapse_intents_def using assms by (intro keep_last_keyless) (auto simp: open_key_def)

lemma sub_keeper_best:
  assumes "s \<in> set (subscriptions d)"
  shows "\<exists>k. sub_keeper created d (sub_user_id s) = Some k \<and> k \<in> set (subscriptions d) \<and> sub_user_id k = sub_user_id s \<and>
    sub_current_period_end s \<le> sub_current_period_end k"
proof -
  let ?rows = "filter (\<lambda>x. sub_user_id x = sub_user_id s) (subscriptions d)"
  have "order_by (sub_rank created) ?rows \<noteq> []" using assms by (auto simp: filter_empty_conv)
  then obtain k where k: "first_row (order_by (sub_rank created) ?rows) = Some k" by (cases "order_by (sub_rank created) ?rows") auto
  then have "k \<in> set ?rows" "sub_rank created k \<le> sub_rank created s"
    using first_row_order_by [OF k] assms by auto
  then show ?thesis using k by (auto simp: sub_keeper_def sub_rank_def)
qed

lemma kept_subscription:
  assumes "distinct (map sub_id (subscriptions d))" and "s \<in> set (subscriptions d)"
  shows "s \<in> set (subscriptions (collapse_subscriptions created d)) \<longleftrightarrow> sub_keeper created d (sub_user_id s) = Some s"
proof -
  obtain k where k: "sub_keeper created d (sub_user_id s) = Some k" "k \<in> set (subscriptions d)"
    using sub_keeper_best [OF assms(2)] by blast
  then have "sub_id k = sub_id s \<longleftrightarrow> k = s" using assms by (auto simp: distinct_map dest: inj_onD)
  then show ?thesis using k assms(2) by (simp add: collapse_subscriptions_def)
qed

lemma keeper_stays:
  assumes "distinct (map sub_id (subscriptions d))" and "sub_keeper created d uid = Some k"
  shows "k \<in> set (subscriptions (collapse_subscriptions created d)) \<and> sub_user_id k = uid"
proof -
  have k: "k \<in> set (subscriptions d)" "sub_user_id k = uid"
    using first_row_order_by [OF assms(2) [unfolded sub_keeper_def]] by auto
  then show ?thesis using kept_subscription [OF assms(1) k(1)] assms(2) by simp
qed

lemma collapse_one_per_user:
  assumes "distinct (map sub_id (subscriptions d))"
  shows "distinct (map sub_user_id (subscriptions (collapse_subscriptions created d)))"
proof -
  let ?subs = "subscriptions (collapse_subscriptions created d)"
  have "distinct ?subs" using assms by (simp add: collapse_subscriptions_def distinct_map)
  moreover have "inj_on sub_user_id (set ?subs)"
  proof (rule inj_onI)
    fix s t assume st: "s \<in> set ?subs" "t \<in> set ?subs" "sub_user_id s = sub_user_id t"
    then have "s \<in> set (subscriptions d)" "t \<in> set (subscriptions d)" by (auto simp: collapse_subscriptions_def)
    then show "s = t" using st kept_subscription [OF assms, of s created] kept_subscription [OF assms, of t created] by simp
  qed
  ultimately show ?thesis by (simp add: distinct_map)
qed

lemma repointed:
  assumes ids: "distinct (map sub_id (subscriptions d))" and sp: "spay_subscription_id sp = sub_id s" "s \<in> set (subscriptions d)"
  shows "\<exists>k \<in> set (subscriptions (collapse_subscriptions created d)).
    spay_subscription_id (repoint_payment created d sp) = sub_id k \<and> sub_user_id k = sub_user_id s"
proof -
  obtain k where k: "sub_keeper created d (sub_user_id s) = Some k" using sub_keeper_best [OF sp(2)] by blast
  have "select_one (\<lambda>x. sub_id x = spay_subscription_id sp) (subscriptions d) = Some s"
    using ids sp by (simp add: select_one_key)
  then show ?thesis using keeper_stays [OF ids k] k by (auto simp: repoint_payment_def sp(1))
qed

text \<open>
  The upgrade makes room for its constraints and loses no money: afterwards every user has one subscription,
  one that ends last among theirs, and no two open payments clash on any of the five indexes; every
  subscription payment is still there and belongs to a subscription of the same user; and every payment intent
  that is not open stays.
\<close>

theorem upgrade_makes_room:
  assumes ids: "distinct (map sub_id (subscriptions d))"
  shows "distinct (map sub_user_id (subscriptions (upgrade_0048 created d)))"
    and "pending_unique (payment_intents (upgrade_0048 created d))"
    and "s \<in> set (subscriptions d) \<Longrightarrow>
      \<exists>k \<in> set (subscriptions (upgrade_0048 created d)). sub_user_id k = sub_user_id s \<and> sub_current_period_end s \<le> sub_current_period_end k"
    and "length (subscription_payments (upgrade_0048 created d)) = length (subscription_payments d)"
    and "sp \<in> set (subscription_payments d) \<Longrightarrow> s \<in> set (subscriptions d) \<Longrightarrow> spay_subscription_id sp = sub_id s \<Longrightarrow>
      \<exists>sp' \<in> set (subscription_payments (upgrade_0048 created d)). \<exists>k \<in> set (subscriptions (upgrade_0048 created d)).
        sp' = sp\<lparr>spay_subscription_id := sub_id k\<rparr> \<and> sub_user_id k = sub_user_id s"
    and "p \<in> set (payment_intents d) \<Longrightarrow> pi_status p \<noteq> ''pending'' \<Longrightarrow>
      \<exists>p' \<in> set (payment_intents (upgrade_0048 created d)). pi_intent_id p' = pi_intent_id p \<and> pi_status p' = pi_status p"
proof -
  let ?d1 = "d\<lparr>payment_intents := map (plan_interval d) (payment_intents d)\<rparr>"
  have subs: "subscriptions (upgrade_0048 created d) = subscriptions (collapse_subscriptions created ?d1)"
    and pays: "subscription_payments (upgrade_0048 created d) = map (repoint_payment created ?d1) (subscription_payments d)"
    and ints: "payment_intents (upgrade_0048 created d) = collapse_intents (map (plan_interval d) (payment_intents d))"
    by (simp_all add: upgrade_0048_def Let_def collapse_subscriptions_def)
  have ids1: "distinct (map sub_id (subscriptions ?d1))" using ids by simp
  show "distinct (map sub_user_id (subscriptions (upgrade_0048 created d)))"
    unfolding subs by (rule collapse_one_per_user [OF ids1])
  show "pending_unique (payment_intents (upgrade_0048 created d))"
    unfolding ints by (rule collapse_intents_unique)
  show "\<exists>k \<in> set (subscriptions (upgrade_0048 created d)). sub_user_id k = sub_user_id s \<and> sub_current_period_end s \<le> sub_current_period_end k"
    if "s \<in> set (subscriptions d)"
    using sub_keeper_best [of s ?d1 created] that keeper_stays [OF ids1] unfolding subs by fastforce
  show "length (subscription_payments (upgrade_0048 created d)) = length (subscription_payments d)"
    unfolding pays by simp
  show "\<exists>sp' \<in> set (subscription_payments (upgrade_0048 created d)). \<exists>k \<in> set (subscriptions (upgrade_0048 created d)).
      sp' = sp\<lparr>spay_subscription_id := sub_id k\<rparr> \<and> sub_user_id k = sub_user_id s"
    if sp: "sp \<in> set (subscription_payments d)" and s: "s \<in> set (subscriptions d)" "spay_subscription_id sp = sub_id s"
  proof -
    obtain k where "k \<in> set (subscriptions (upgrade_0048 created d))" "spay_subscription_id (repoint_payment created ?d1 sp) = sub_id k"
        "sub_user_id k = sub_user_id s"
      using repointed [OF ids1 s(2)] s(1) unfolding subs by auto
    moreover have "repoint_payment created ?d1 sp = sp\<lparr>spay_subscription_id := spay_subscription_id (repoint_payment created ?d1 sp)\<rparr>"
      by (simp add: repoint_payment_def split: option.split)
    ultimately show ?thesis using sp unfolding pays by (metis image_eqI list.set_map)
  qed
  show "\<exists>p' \<in> set (payment_intents (upgrade_0048 created d)). pi_intent_id p' = pi_intent_id p \<and> pi_status p' = pi_status p"
    if "p \<in> set (payment_intents d)" "pi_status p \<noteq> ''pending''"
  proof -
    have keep: "pi_intent_id (plan_interval d p) = pi_intent_id p \<and> pi_status (plan_interval d p) = pi_status p"
      by (simp add: plan_interval_def split: option.split)
    then have "plan_interval d p \<in> set (payment_intents (upgrade_0048 created d))"
      unfolding ints by (intro collapse_intents_closed) (use that in auto)
    then show ?thesis using keep by blast
  qed
qed

end
