(* ===== verification/Home_Upgrade.thy ===== *)
theory Home_Upgrade
  imports Home_Page
begin

text \<open>
  The data part of \<open>alembic/versions/0057_home_sections.py\<close>: the first landing page, with the
  automatic sections, one section per genre rail, and the titles of the older curated lists pinned to them.
  Every statement sees the tables as the one before left them. The generated ids are arguments: of a default
  section by its type, of a genre section by its genre, of an item by what it pins. \<open>collate\<close> orders the
  genres. The item limit of a section is \<open>NULL\<close> (0058 adds the column).
\<close>

record upgrade_ids =
  up_section :: "string \<Rightarrow> uuid"
  up_genre :: "string \<Rightarrow> uuid"
  up_item :: "uuid \<times> string \<times> uuid \<Rightarrow> uuid"

section \<open>Sections\<close>

definition new_section :: "datetime \<Rightarrow> uuid \<Rightarrow> string \<Rightarrow> string option \<Rightarrow> int \<Rightarrow> section_row" where
  "new_section now i t genre n =
     \<lparr>sec_id = i, sec_type = t, sec_title = None, sec_genre_name = genre, sec_is_visible = True, sec_sort_order = n,
      sec_item_limit = None, sec_created_at = now\<rparr>"

definition default_types :: "string list" where
  "default_types = [''hero'', ''tv'', ''free_today'', ''most_watched'', ''plans'', ''coming_soon'', ''trending'', ''series'', ''banners'']"

definition seed_sections :: "upgrade_ids \<Rightarrow> datetime \<Rightarrow> section_row list \<Rightarrow> section_row list" where
  "seed_sections ids now secs =
     (if secs = [] then map (\<lambda>(n, t). new_section now (up_section ids t) t None (int n)) (List.enumerate 0 default_types)
      else secs)"

definition is_genre_section :: "string \<Rightarrow> section_row \<Rightarrow> bool" where
  "is_genre_section g s \<longleftrightarrow> sec_type s = ''genre'' \<and> (\<exists>n. sec_genre_name s = Some n \<and> lower n = lower g)"

lemma is_genre_section_code [code]:
  "is_genre_section g s \<longleftrightarrow> sec_type s = ''genre'' \<and> (case sec_genre_name s of None \<Rightarrow> False | Some n \<Rightarrow> lower n = lower g)"
  by (auto simp: is_genre_section_def split: option.splits)

definition genre_sections :: "upgrade_ids \<Rightarrow> datetime \<Rightarrow> (string \<Rightarrow> int) \<Rightarrow> genre_rail_row list \<Rightarrow> section_row list \<Rightarrow> section_row list" where
  "genre_sections ids now collate rails secs =
     map (\<lambda>(n, g). new_section now (up_genre ids g) ''genre'' (Some g) (100 + int n))
       (List.enumerate 1 (order_by collate
          (filter (\<lambda>g. \<not> exists_row (is_genre_section g) secs) (remdups (map gr_genre_name rails)))))"

section \<open>Items\<close>

text \<open>A candidate of an \<open>INSERT ... ON CONFLICT DO NOTHING\<close>: section, kind, reference and position.\<close>

type_synonym pin = "uuid \<times> string \<times> uuid \<times> int"

definition pin_key :: "pin \<Rightarrow> uuid \<times> string \<times> uuid" where
  "pin_key = (\<lambda>(sid, kind, ref, _). (sid, kind, ref))"

definition insert_pin :: "upgrade_ids \<Rightarrow> datetime \<Rightarrow> pin \<Rightarrow> section_item_row list \<Rightarrow> section_item_row list" where
  "insert_pin ids now p items =
     (if exists_row (\<lambda>i. item_key i = pin_key p) items then items
      else (case p of (sid, kind, ref, n) \<Rightarrow>
        items @ [\<lparr>item_id = up_item ids (sid, kind, ref), item_section_id = sid, item_item_kind = kind,
          item_ref_id = ref, item_sort_order = n, item_created_at = now\<rparr>]))"

definition insert_pins :: "upgrade_ids \<Rightarrow> datetime \<Rightarrow> pin list \<Rightarrow> section_item_row list \<Rightarrow> section_item_row list" where
  "insert_pins ids now ps items = fold (insert_pin ids now) ps items"

text \<open>The copies that only fill sections of a type which hold nothing yet.\<close>

definition pins_for :: "string \<Rightarrow> string \<Rightarrow> (uuid \<times> int) list \<Rightarrow> section_row list \<Rightarrow> section_item_row list \<Rightarrow> pin list" where
  "pins_for t kind refs secs items =
     concat (map (\<lambda>s. map (\<lambda>(ref, n). (sec_id s, kind, ref, n)) refs)
       (filter (\<lambda>s. sec_type s = t \<and> \<not> exists_row (\<lambda>i. item_section_id i = sec_id s) items) secs))"

definition genre_pins :: "genre_rail_row list \<Rightarrow> section_row list \<Rightarrow> pin list" where
  "genre_pins rails secs =
     concat (map (\<lambda>g. map (\<lambda>s. (sec_id s, ''movie'', gr_content_id g, gr_sort_order g)) (filter (is_genre_section (gr_genre_name g)) secs)) rails)"

definition upgrade_0057 :: "upgrade_ids \<Rightarrow> datetime \<Rightarrow> (string \<Rightarrow> int) \<Rightarrow> db \<Rightarrow> db" where
  "upgrade_0057 ids now collate d =
     (let secs0 = seed_sections ids now (home_sections d);
          fill = (\<lambda>t kind refs secs items. insert_pins ids now (pins_for t kind refs secs items) items);
          items1 = fill ''free_today'' ''movie'' (map (\<lambda>f. (ft_content_id f, ft_sort_order f)) (free_today_items d)) secs0 (home_section_items d);
          items2 = fill ''coming_soon'' ''movie'' (map (\<lambda>c. (cs_content_id c, cs_sort_order c)) (coming_soon_items d)) secs0 items1;
          secs = secs0 @ genre_sections ids now collate (genre_rail_items d) secs0;
          items3 = insert_pins ids now (genre_pins (genre_rail_items d) secs) items2;
          items4 = fill ''hero'' ''hero_slide'' (map (\<lambda>h. (hero_id h, hero_sort_order h)) (hero_featured_items d)) secs items3;
          items5 = fill ''banners'' ''banner'' (map (\<lambda>b. (ban_id b, ban_sort_order b)) (promotion_banners d)) secs items4
      in d\<lparr>home_sections := secs, home_section_items := items5\<rparr>)"

section \<open>The first page is well formed\<close>

definition wanted :: "uuid \<Rightarrow> pin list \<Rightarrow> nat" where
  "wanted sid ps = length (filter (\<lambda>p. fst p = sid) ps)"

lemma wanted_append [simp]: "wanted sid (ps @ qs) = wanted sid ps + wanted sid qs"
  by (simp add: wanted_def)

text \<open>Pins fit if their section takes their kind and has room for all that is wanted of it.\<close>

definition pins_fit :: "(uuid \<times> string \<times> int option) list \<Rightarrow> (uuid \<times> string \<times> uuid) list \<Rightarrow> pin list \<Rightarrow> bool" where
  "pins_fit S I ps \<longleftrightarrow>
     (\<forall>p \<in> set ps. \<exists>t chosen. (fst p, t, chosen) \<in> set S \<and> fst (snd p) \<in> item_kinds_by_type t \<and>
        (\<forall>n. effective_item_limit t chosen = Some n \<longrightarrow> int (pins (fst p) I + wanted (fst p) ps) \<le> n))"

lemma insert_pins_layout:
  assumes "layout S (map item_key items)" and "pins_fit S (map item_key items) ps"
  shows "layout S (map item_key (insert_pins ids now ps items))"
  using assms
proof (induction ps arbitrary: items)
  case (Cons p ps)
  obtain sid kind ref n where p: "p = (sid, kind, ref, n)" by (cases p) auto
  let ?I = "map item_key items" and ?items = "insert_pin ids now p items"
  obtain t chosen where s: "(sid, t, chosen) \<in> set S" "kind \<in> item_kinds_by_type t"
      "\<And>n. effective_item_limit t chosen = Some n \<Longrightarrow> int (pins sid ?I + wanted sid (p # ps)) \<le> n"
    using Cons.prems(2) p unfolding pins_fit_def by fastforce
  have I: "map item_key ?items = (if (sid, kind, ref) \<in> set ?I then ?I else ?I @ [(sid, kind, ref)])"
    by (auto simp: insert_pin_def p pin_key_def item_key_def exists_row_iff image_iff)
  have "int (pins sid ?I) < n" if "effective_item_limit t chosen = Some n" for n
    using s(3) [OF that] by (simp add: wanted_def p)
  then have "layout S (?I @ [(sid, kind, ref)])" if "(sid, kind, ref) \<notin> set ?I"
    using layout_add_item [OF Cons.prems(1) s(1,2) that] by blast
  then have "layout S (map item_key ?items)" using Cons.prems(1) unfolding I by simp
  moreover have "pins_fit S (map item_key ?items) ps"
  proof -
    have "pins i (map item_key ?items) + wanted i ps \<le> pins i ?I + wanted i (p # ps)" for i
      unfolding I by (simp add: wanted_def p pins_append)
    then have le: "int (pins i (map item_key ?items) + wanted i ps) \<le> n" if "int (pins i ?I + wanted i (p # ps)) \<le> n" for i n
      using that by (meson order_trans zle_int)
    show ?thesis unfolding pins_fit_def
    proof
      fix q assume "q \<in> set ps"
      then obtain u c where "(fst q, u, c) \<in> set S" "fst (snd q) \<in> item_kinds_by_type u"
          "\<forall>n. effective_item_limit u c = Some n \<longrightarrow> int (pins (fst q) ?I + wanted (fst q) (p # ps)) \<le> n"
        using Cons.prems(2) unfolding pins_fit_def by (meson list.set_intros(2))
      then show "\<exists>t chosen. (fst q, t, chosen) \<in> set S \<and> fst (snd q) \<in> item_kinds_by_type t \<and>
          (\<forall>n. effective_item_limit t chosen = Some n \<longrightarrow> int (pins (fst q) (map item_key ?items) + wanted (fst q) ps) \<le> n)"
        using le by blast
    qed
  qed
  ultimately show ?case using Cons.IH by (simp add: insert_pins_def)
qed (simp add: insert_pins_def)

lemma wanted_map: "wanted sid (map (\<lambda>(ref, n). (i, kind, ref, n)) refs) = (if i = sid then length refs else 0)"
  by (induction refs) (auto simp: wanted_def)

lemma wanted_concat: "wanted sid (concat xs) = sum_list (map (wanted sid) xs)"
  by (induction xs) (auto simp: wanted_def)

lemma sum_list_once:
  "distinct (map f xs) \<Longrightarrow> sum_list (map (\<lambda>x. if f x = k then c else 0) xs) \<le> (c :: nat)"
proof (induction xs)
  case (Cons x xs)
  then show ?case
  proof (cases "f x = k")
    case True
    then have "\<forall>y \<in> set xs. f y \<noteq> k" using Cons.prems by (auto simp: image_iff)
    then have "sum_list (map (\<lambda>x. if f x = k then c else 0) xs) = 0" by (induction xs) auto
    then show ?thesis using True by simp
  qed simp
qed simp

lemma fill_layout:
  assumes ok: "layout (map section_key secs) (map item_key items)" and kind: "kind \<in> item_kinds_by_type t"
    and room: "\<And>s n. s \<in> set secs \<Longrightarrow> sec_type s = t \<Longrightarrow> cap_of s = Some n \<Longrightarrow> int (length refs) \<le> n"
  shows "layout (map section_key secs) (map item_key (insert_pins ids now (pins_for t kind refs secs items) items))"
proof (rule insert_pins_layout [OF ok], unfold pins_fit_def, rule ballI)
  fix p assume "p \<in> set (pins_for t kind refs secs items)"
  then obtain s where s: "s \<in> set secs" "sec_type s = t" "fst p = sec_id s" "fst (snd p) = kind"
      "\<not> exists_row (\<lambda>i. item_section_id i = sec_id s) items"
    by (auto simp: pins_for_def)
  have "distinct (map sec_id secs)" using layoutD(1) [OF ok] by (simp add: comp_def section_key_def)
  then have "wanted (sec_id s) (pins_for t kind refs secs items) \<le> length refs"
    unfolding pins_for_def wanted_concat map_map comp_def wanted_map
    by (intro sum_list_once) (simp add: distinct_map_filter)
  moreover have "pins (sec_id s) (map item_key items) = 0"
    using s(5) by (auto simp: pins_def exists_row_iff filter_empty_conv item_key_def)
  moreover have "(sec_id s, t, sec_item_limit s) \<in> set (map section_key secs)"
    using s(1,2) by (force simp: section_key_def)
  ultimately show "\<exists>u chosen. (fst p, u, chosen) \<in> set (map section_key secs) \<and> fst (snd p) \<in> item_kinds_by_type u \<and>
      (\<forall>n. effective_item_limit u chosen = Some n \<longrightarrow>
         int (pins (fst p) (map item_key items) + wanted (fst p) (pins_for t kind refs secs items)) \<le> n)"
    using s kind room [OF s(1,2)] unfolding s(3,4) cap_of_def s(2)
    by (intro exI [of _ t] exI [of _ "sec_item_limit s"]) force
qed

lemma layout_add_sections:
  assumes "layout S I" and "distinct (map fst (S @ new))" and "\<And>s. s \<in> set new \<Longrightarrow> \<exists>i. s = (i, ''genre'', None)"
  shows "layout (S @ new) I"
  using assms
proof (induction new arbitrary: S)
  case (Cons x new)
  obtain i where x: "x = (i, ''genre'', None)" using Cons.prems(3) [of x] by auto
  have "layout (S @ [x]) I"
    unfolding x by (rule layout_add_section [OF Cons.prems(1)])
      (use Cons.prems(2) x in \<open>auto simp: section_types_def singleton_types_def\<close>)
  then show ?case using Cons.IH [of "S @ [x]"] Cons.prems(2,3) by simp
qed simp

lemma occurs_at_most_once: "distinct xs \<Longrightarrow> length (filter (\<lambda>x. x = t) xs) \<le> 1"
  by (induction xs) (auto simp: filter_empty_conv)

lemma seeded_sections:
  assumes "inj_on (up_section ids) (set default_types)"
  shows "layout (map section_key (seed_sections ids now [])) []"
proof (rule layoutI)
  have keys: "map section_key (seed_sections ids now []) = map (\<lambda>t. (up_section ids t, t, None)) default_types"
    by (simp add: seed_sections_def default_types_def new_section_def section_key_def)
  have d: "distinct default_types" by (simp add: default_types_def)
  show "distinct (map fst (map section_key (seed_sections ids now [])))"
    unfolding keys using assms d by (simp add: comp_def distinct_map)
  show "fst (snd s) \<in> section_types" if "s \<in> set (map section_key (seed_sections ids now []))" for s
    using that unfolding keys by (auto simp: default_types_def section_types_def)
  show "limit_ok [] s" if "s \<in> set (map section_key (seed_sections ids now []))" for s
    using that caps_small unfolding keys by (fastforce simp: limit_ok_def effective_item_limit_def pins_def)
  show "length (filter (\<lambda>s. fst (snd s) = t) (map section_key (seed_sections ids now []))) \<le> 1" for t
    unfolding keys using occurs_at_most_once [OF d, of t] by (simp add: filter_map comp_def)
qed simp_all

lemma seeded_types:
  "s \<in> set (seed_sections ids now []) \<Longrightarrow> sec_type s \<in> set default_types \<and> sec_item_limit s = None"
  by (auto simp: seed_sections_def new_section_def in_set_enumerate_eq)

lemma in_enumerate: "(n, x) \<in> set (List.enumerate k xs) \<Longrightarrow> x \<in> set xs"
  by (metis image_eqI list.set_map map_snd_enumerate snd_conv)

lemma genre_section_rows:
  "s \<in> set (genre_sections ids now collate rails secs) \<Longrightarrow>
     \<exists>g \<in> gr_genre_name ` set rails. sec_id s = up_genre ids g \<and> sec_type s = ''genre'' \<and> sec_genre_name s = Some g \<and> sec_item_limit s = None"
  by (auto simp: genre_sections_def new_section_def dest!: in_enumerate)

lemma genre_section_ids:
  assumes "inj_on (up_genre ids) (gr_genre_name ` set rails)"
  shows "distinct (map sec_id (genre_sections ids now collate rails secs))"
proof -
  let ?gs = "order_by collate (filter (\<lambda>g. \<not> exists_row (is_genre_section g) secs) (remdups (map gr_genre_name rails)))"
  have "map sec_id (genre_sections ids now collate rails secs) = map (up_genre ids) (map snd (List.enumerate 1 ?gs))"
    by (auto simp: genre_sections_def new_section_def simp del: map_snd_enumerate)
  also have "... = map (up_genre ids) ?gs" by simp
  also have "distinct ..."
    using assms by (auto simp: distinct_map order_by_def intro: inj_on_subset)
  finally show ?thesis .
qed

text \<open>
  On a first installation the upgrade builds a page that is well formed, as administrators' edits then
  keep it, provided the older lists fit the sections they are copied to.
\<close>

definition lists_fit :: "db \<Rightarrow> bool" where
  "lists_fit d \<longleftrightarrow> length (free_today_items d) \<le> 10 \<and> length (coming_soon_items d) \<le> 12 \<and>
     length (hero_featured_items d) \<le> 10 \<and> length (promotion_banners d) \<le> 10 \<and>
     (\<forall>g \<in> set (genre_rail_items d). \<forall>h \<in> set (genre_rail_items d).
        lower (gr_genre_name g) = lower (gr_genre_name h) \<longrightarrow> gr_genre_name g = gr_genre_name h) \<and>
     (\<forall>g \<in> set (genre_rail_items d). count_rows (\<lambda>h. gr_genre_name h = gr_genre_name g) (genre_rail_items d) \<le> 12)"

definition ids_fresh :: "upgrade_ids \<Rightarrow> db \<Rightarrow> bool" where
  "ids_fresh ids d \<longleftrightarrow> inj_on (up_section ids) (set default_types) \<and>
     inj_on (up_genre ids) (gr_genre_name ` set (genre_rail_items d)) \<and>
     up_section ids ` set default_types \<inter> up_genre ids ` gr_genre_name ` set (genre_rail_items d) = {}"

lemma section_ids_key: "map fst (map section_key secs) = map sec_id secs"
  by (simp add: section_key_def comp_def)

lemma no_items_elsewhere:
  assumes "layout (map section_key secs) (map item_key items)" and "i \<notin> set (map sec_id secs)"
  shows "pins i (map item_key items) = 0"
proof -
  have "fst k \<noteq> i" if "k \<in> set (map item_key items)" for k
    using layoutD(3) [OF assms(1), of "fst k" "fst (snd k)" "snd (snd k)"] that assms(2) by (force simp: section_key_def)
  then show ?thesis by (simp add: pins_def filter_empty_conv)
qed

lemma wanted_genre:
  assumes "distinct (map sec_id secs)" and "s \<in> set secs" and "sec_genre_name s = Some g"
    and same: "\<And>h. h \<in> set rails \<Longrightarrow> lower (gr_genre_name h) = lower g \<Longrightarrow> gr_genre_name h = g"
  shows "wanted (sec_id s) (genre_pins rails secs) \<le> count_rows (\<lambda>h. gr_genre_name h = g) rails"
  using same
proof (induction rails)
  case (Cons h rails)
  let ?ps = "map (\<lambda>s. (sec_id s, ''movie'', gr_content_id h, gr_sort_order h)) (filter (is_genre_section (gr_genre_name h)) secs)"
  have w: "wanted (sec_id s) ?ps = length (filter (\<lambda>x. sec_id x = sec_id s) (filter (is_genre_section (gr_genre_name h)) secs))"
    by (simp add: wanted_def filter_map comp_def)
  have one: "x = s" if "x \<in> set secs" "sec_id x = sec_id s" for x
    using assms(1,2) that by (auto simp: distinct_map dest: inj_onD)
  have "wanted (sec_id s) ?ps \<le> (if gr_genre_name h = g then 1 else 0)"
  proof (cases "gr_genre_name h = g")
    case True
    have "length (filter (\<lambda>x. sec_id x = sec_id s) (filter (is_genre_section (gr_genre_name h)) secs)) \<le> length (filter (\<lambda>i. i = sec_id s) (map sec_id secs))"
      by (induction secs) auto
    then show ?thesis using True occurs_at_most_once [OF assms(1), of "sec_id s"] unfolding w by simp
  next
    case False
    then have "\<not> is_genre_section (gr_genre_name h) s" using Cons.prems [of h] assms(3) by (auto simp: is_genre_section_def)
    then show ?thesis using one False unfolding w by (auto simp: filter_empty_conv)
  qed
  moreover have "wanted (sec_id s) (genre_pins rails secs) \<le> count_rows (\<lambda>h. gr_genre_name h = g) rails"
    using Cons by simp
  ultimately show ?case by (simp add: genre_pins_def count_rows_def split: if_splits)
qed (simp add: genre_pins_def wanted_def)

lemma genre_pins_layout:
  assumes ok: "layout (map section_key (secs0 @ gs)) (map item_key items)" and old: "layout (map section_key secs0) (map item_key items)"
    and types: "\<And>s. s \<in> set secs0 \<Longrightarrow> sec_type s \<noteq> ''genre''"
    and new: "\<And>s. s \<in> set gs \<Longrightarrow> \<exists>g \<in> gr_genre_name ` set rails. sec_type s = ''genre'' \<and> sec_genre_name s = Some g \<and> sec_item_limit s = None"
    and same: "\<And>g h. g \<in> set rails \<Longrightarrow> h \<in> set rails \<Longrightarrow> lower (gr_genre_name g) = lower (gr_genre_name h) \<Longrightarrow> gr_genre_name g = gr_genre_name h"
    and few: "\<And>g. g \<in> set rails \<Longrightarrow> count_rows (\<lambda>h. gr_genre_name h = gr_genre_name g) rails \<le> 12"
  shows "layout (map section_key (secs0 @ gs)) (map item_key (insert_pins ids now (genre_pins rails (secs0 @ gs)) items))"
proof (rule insert_pins_layout [OF ok], unfold pins_fit_def, rule ballI)
  let ?secs = "secs0 @ gs"
  fix p assume "p \<in> set (genre_pins rails ?secs)"
  then obtain g s where p: "g \<in> set rails" "s \<in> set ?secs" "is_genre_section (gr_genre_name g) s" "fst p = sec_id s" "fst (snd p) = ''movie''"
    by (fastforce simp: genre_pins_def)
  then have s: "s \<in> set gs" using types by (auto simp: is_genre_section_def)
  obtain h where h: "h \<in> set rails" "sec_genre_name s = Some (gr_genre_name h)" "sec_item_limit s = None" "sec_type s = ''genre''"
    using new [OF s] by auto
  have ids: "distinct (map sec_id ?secs)" using layoutD(1) [OF ok] unfolding section_ids_key .
  have "wanted (sec_id s) (genre_pins rails ?secs) \<le> count_rows (\<lambda>x. gr_genre_name x = gr_genre_name h) rails"
    by (rule wanted_genre [OF ids p(2) h(2)]) (use same h(1) in blast)
  also have "... \<le> 12" by (rule few [OF h(1)])
  finally have w: "wanted (sec_id s) (genre_pins rails ?secs) \<le> 12" .
  have "sec_id s \<notin> set (map sec_id secs0)" using ids s by auto
  then have z: "pins (sec_id s) (map item_key items) = 0" by (rule no_items_elsewhere [OF old])
  show "\<exists>t chosen. (fst p, t, chosen) \<in> set (map section_key ?secs) \<and> fst (snd p) \<in> item_kinds_by_type t \<and>
      (\<forall>n. effective_item_limit t chosen = Some n \<longrightarrow> int (pins (fst p) (map item_key items) + wanted (fst p) (genre_pins rails ?secs)) \<le> n)"
  proof (intro exI conjI allI impI)
    show "(fst p, ''genre'', None) \<in> set (map section_key ?secs)" using s h p(4) by (force simp: section_key_def)
    show "fst (snd p) \<in> item_kinds_by_type ''genre''" using p(5) by (simp add: item_kinds_by_type_def)
    show "int (pins (fst p) (map item_key items) + wanted (fst p) (genre_pins rails ?secs)) \<le> n"
      if "effective_item_limit ''genre'' None = Some n" for n
      using that w z p(4) by (simp add: effective_item_limit_def section_caps_def)
  qed
qed

theorem first_page_well_formed:
  assumes "home_sections d = []" and "home_section_items d = []" and fit: "lists_fit d" and ids: "ids_fresh ids d"
  shows "layout_ok (upgrade_0057 ids now collate d)"
proof -
  let ?start = "seed_sections ids now []" and ?rails = "genre_rail_items d"
  let ?gs = "genre_sections ids now collate ?rails ?start"
  let ?secs = "?start @ ?gs"
  have inj: "inj_on (up_section ids) (set default_types)" "inj_on (up_genre ids) (gr_genre_name ` set ?rails)"
    and apart: "up_section ids ` set default_types \<inter> up_genre ids ` gr_genre_name ` set ?rails = {}"
    using ids by (simp_all add: ids_fresh_def)
  have cap: "cap_of s = section_caps (sec_type s)" if "s \<in> set ?secs" for s
    using that seeded_types [of s ids now] genre_section_rows [of s ids now collate ?rails ?start]
    by (auto simp: cap_of_def effective_item_limit_def)
  note caps = cap section_caps_def
  note lens = fit [unfolded lists_fit_def]
  have l0: "layout (map section_key ?start) (map item_key [])" using seeded_sections [OF inj(1)] by simp
  define items1 where "items1 = insert_pins ids now
      (pins_for ''free_today'' ''movie'' (map (\<lambda>f. (ft_content_id f, ft_sort_order f)) (free_today_items d)) ?start []) []"
  have l1: "layout (map section_key ?start) (map item_key items1)"
    unfolding items1_def by (rule fill_layout [OF l0]) (use lens in \<open>auto simp: caps item_kinds_by_type_def\<close>)
  define items2 where "items2 = insert_pins ids now
      (pins_for ''coming_soon'' ''movie'' (map (\<lambda>c. (cs_content_id c, cs_sort_order c)) (coming_soon_items d)) ?start items1) items1"
  have l2: "layout (map section_key ?start) (map item_key items2)"
    unfolding items2_def by (rule fill_layout [OF l1]) (use lens in \<open>auto simp: caps item_kinds_by_type_def\<close>)
  have "layout (map section_key ?start @ map section_key ?gs) (map item_key items2)"
  proof (rule layout_add_sections [OF l2])
    have "set (map sec_id ?start) \<subseteq> up_section ids ` set default_types"
      by (auto simp: seed_sections_def new_section_def dest!: in_enumerate)
    moreover have "set (map sec_id ?gs) \<subseteq> up_genre ids ` gr_genre_name ` set ?rails"
      using genre_section_rows by fastforce
    ultimately have "set (map sec_id ?start) \<inter> set (map sec_id ?gs) = {}" using apart by blast
    then show "distinct (map fst (map section_key ?start @ map section_key ?gs))"
      using layoutD(1) [OF l0] genre_section_ids [OF inj(2)] unfolding map_append section_ids_key distinct_append by blast
    show "\<exists>i. s = (i, ''genre'', None)" if "s \<in> set (map section_key ?gs)" for s
      using that genre_section_rows by (fastforce simp: section_key_def)
  qed
  then have l: "layout (map section_key ?secs) (map item_key items2)" by simp
  define items3 where "items3 = insert_pins ids now (genre_pins ?rails ?secs) items2"
  have l3: "layout (map section_key ?secs) (map item_key items3)"
    unfolding items3_def
  proof (rule genre_pins_layout [OF l l2])
    show "sec_type s \<noteq> ''genre''" if "s \<in> set ?start" for s
      using seeded_types [OF that] by (auto simp: default_types_def)
    show "\<exists>g \<in> gr_genre_name ` set ?rails. sec_type s = ''genre'' \<and> sec_genre_name s = Some g \<and> sec_item_limit s = None"
      if "s \<in> set ?gs" for s using genre_section_rows [OF that] by blast
  qed (use lens in blast)+
  define items4 where "items4 = insert_pins ids now
      (pins_for ''hero'' ''hero_slide'' (map (\<lambda>h. (hero_id h, hero_sort_order h)) (hero_featured_items d)) ?secs items3) items3"
  have l4: "layout (map section_key ?secs) (map item_key items4)"
    unfolding items4_def by (rule fill_layout [OF l3]) (use lens in \<open>auto simp: caps item_kinds_by_type_def\<close>)
  have "layout (map section_key ?secs) (map item_key (insert_pins ids now
      (pins_for ''banners'' ''banner'' (map (\<lambda>b. (ban_id b, ban_sort_order b)) (promotion_banners d)) ?secs items4) items4))"
    by (rule fill_layout [OF l4]) (use lens in \<open>auto simp: caps item_kinds_by_type_def\<close>)
  then show ?thesis
    by (simp add: layout_ok_def upgrade_0057_def Let_def assms(1,2) items1_def items2_def items3_def items4_def)
qed

definition demo_ids :: upgrade_ids where
  "demo_ids = \<lparr>up_section = length, up_genre = (\<lambda>g. 20 + length g), up_item = (\<lambda>_. 7)\<rparr>"

definition coming :: "nat \<Rightarrow> db" where
  "coming n = empty_db\<lparr>coming_soon_items := map (\<lambda>i. \<lparr>cs_id = i, cs_content_id = i, cs_sort_order = int i, cs_created_at = 0\<rparr>) [0..<n],
     genre_rail_items := [\<lparr>gr_id = 1, gr_genre_name = ''Drama'', gr_content_id = 3, gr_sort_order = 0, gr_created_at = 0\<rparr>]\<rparr>"

theorem first_page_well_formed_witness: "layout_ok (upgrade_0057 demo_ids 5 (\<lambda>_. 0) (coming 2))"
proof (rule first_page_well_formed)
  show "home_sections (coming 2) = []" "home_section_items (coming 2) = []" by (simp_all add: coming_def)
  show "lists_fit (coming 2)" by code_simp
  show "ids_fresh demo_ids (coming 2)"
    by (simp add: ids_fresh_def demo_ids_def coming_def default_types_def)
qed

text \<open>
  The old Coming Soon list may hold twenty titles (\<open>coming_soon_max\<close>), its section shows twelve: the upgrade
  copies them all, and the page starts with pins nobody sees.
\<close>

lemma full_coming_soon_overflows: "\<not> layout_ok (upgrade_0057 demo_ids 5 (\<lambda>_. 0) (coming 13))"
  by code_simp

end
