(* ===== verification/Upsert.thy ===== *)
theory Upsert
  imports Prelude
begin

text \<open>
  What the seed scripts do to a table: for each entry of a list, look the row up by a unique key, bring it to
  what the list says, or add it. Run again, such a script changes nothing, and it never touches other rows; both
  are proved once, in a locale the scripts interpret.
\<close>

definition upsert_row :: "('row \<Rightarrow> 'key) \<Rightarrow> ('e \<Rightarrow> 'key) \<Rightarrow> ('e \<Rightarrow> 'row) \<Rightarrow> ('e \<Rightarrow> 'row \<Rightarrow> 'row) \<Rightarrow> 'e \<Rightarrow> 'row list \<Rightarrow> 'row list" where
  "upsert_row key entry_key make assign e tab =
     (if exists_row (\<lambda>r. key r = entry_key e) tab
      then update_where (\<lambda>r. key r = entry_key e) (assign e) tab
      else tab @ [make e])"

locale upsert =
  fixes key :: "'row \<Rightarrow> 'key" and entry_key :: "'e \<Rightarrow> 'key"
    and make :: "'e \<Rightarrow> 'row" and assign :: "'e \<Rightarrow> 'row \<Rightarrow> 'row"
  assumes key_make: "key (make e) = entry_key e"
    and key_assign: "key r = entry_key e \<Longrightarrow> key (assign e r) = entry_key e"
    and assign_again: "key r = entry_key e \<Longrightarrow> assign e (assign e r) = assign e r"
    and assign_made: "assign e (make e) = make e"
begin

definition entered :: "'e \<Rightarrow> 'row list \<Rightarrow> bool" where
  "entered e tab \<longleftrightarrow> (\<exists>r \<in> set tab. key r = entry_key e) \<and> (\<forall>r \<in> set tab. key r = entry_key e \<longrightarrow> assign e r = r)"

lemma enters: "entered e (upsert_row key entry_key make assign e tab)"
  by (auto simp: entered_def upsert_row_def exists_row_iff in_update_where key_make key_assign assign_again assign_made
      intro!: bexI [OF _ update_where_hit])

lemma entered_unchanged: "entered e tab \<Longrightarrow> upsert_row key entry_key make assign e tab = tab"
  unfolding entered_def upsert_row_def exists_row_iff update_where_def by (auto intro: map_idI)

lemma stays_entered:
  assumes "entered e tab" and "entry_key e \<noteq> entry_key e'"
  shows "entered e (upsert_row key entry_key make assign e' tab)"
  using assms by (auto simp: entered_def upsert_row_def exists_row_iff in_update_where key_make key_assign
      intro!: bexI [OF _ update_where_miss])

lemma other_rows_stay:
  "r \<in> set tab \<Longrightarrow> key r \<noteq> entry_key e \<Longrightarrow> r \<in> set (upsert_row key entry_key make assign e tab)"
  by (auto simp: upsert_row_def in_update_where)

lemma keys_stay_unique:
  "distinct (map key tab) \<Longrightarrow> distinct (map key (upsert_row key entry_key make assign e tab))"
proof -
  have "map key (update_where (\<lambda>r. key r = entry_key e) (assign e) tab) = map key tab"
    by (induction tab) (auto simp: key_assign)
  then show "distinct (map key tab) \<Longrightarrow> ?thesis"
    by (auto simp: upsert_row_def exists_row_iff key_make)
qed

lemma run_enters:
  "distinct (map entry_key es) \<Longrightarrow> e \<in> set es \<Longrightarrow> entered e (fold (upsert_row key entry_key make assign) es tab)"
proof (induction es rule: rev_induct)
  case (snoc x es)
  then show ?case using enters stays_entered [of e _ x] by (cases "e = x") (auto simp: image_iff)
qed simp

lemma run_keeps:
  "entered e tab \<Longrightarrow> entry_key e \<notin> entry_key ` set es \<Longrightarrow> entered e (fold (upsert_row key entry_key make assign) es tab)"
  by (induction es arbitrary: tab) (auto intro: stays_entered)

lemma run_unchanged:
  "(\<And>e. e \<in> set es \<Longrightarrow> entered e tab) \<Longrightarrow> fold (upsert_row key entry_key make assign) es tab = tab"
  by (induction es) (auto simp: entered_unchanged)

lemma run_twice:
  assumes "distinct (map entry_key es)"
  shows "fold (upsert_row key entry_key make assign) es (fold (upsert_row key entry_key make assign) es tab) =
    fold (upsert_row key entry_key make assign) es tab"
  by (rule run_unchanged) (rule run_enters [OF assms])

lemma run_frame:
  "r \<in> set tab \<Longrightarrow> key r \<notin> entry_key ` set es \<Longrightarrow> r \<in> set (fold (upsert_row key entry_key make assign) es tab)"
  by (induction es arbitrary: tab) (auto intro: other_rows_stay)

end

end
