(* ===== verification/Artwork_Batch.thy ===== *)
theory Artwork_Batch
  imports Image_Process
begin

text \<open>
  \<open>scripts/optimize_r2_images.py\<close>: the picture clean-up of \<open>Image_Process\<close> applied to every poster and
  banner of the catalogue. A key that several rows share is processed once, the outcome is remembered in
  \<open>cache\<close>; with \<open>--commit\<close> the rows take their new keys. \<open>env k\<close> says, for the one time the key \<open>k\<close>
  is processed, whether the \<open>HEAD\<close> request is answered and how the storage calls end.
\<close>

record batch =
  ba_cache :: "string \<Rightarrow> string option option"
  ba_broken :: "string list"
  ba_bucket :: bucket

type_synonym batch_env = "string \<Rightarrow> bool \<times> calls"

definition object_answers :: "batch_env \<Rightarrow> string \<Rightarrow> bucket \<Rightarrow> bool" where
  "object_answers env k s \<longleftrightarrow> fst (env k) \<and> s k \<noteq> None"

text \<open>
  Neither the existence check nor the clean-up raises (both catch every exception), so the branch that adds
  to \<open>broken\<close> is never taken.
\<close>

definition optimize_key :: "batch_env \<Rightarrow> pillow \<Rightarrow> image_kind \<Rightarrow> string option \<Rightarrow> batch \<Rightarrow> string option \<times> batch" where
  "optimize_key env pil kind key st =
     (if \<not> truthy key \<or> \<not> is_image_object_key (the key) then (key, st)
      else let k = the key in
       (case ba_cache st k of
          Some r \<Rightarrow> (r, st)
        | None \<Rightarrow>
            if k \<in> set (ba_broken st) then (key, st)
            else if \<not> object_answers env k (ba_bucket st)
            then (key, st\<lparr>ba_cache := (ba_cache st)(k \<mapsto> key)\<rparr>)
            else (case optimize_r2_image (snd (env k)) pil kind key (ba_bucket st) of
                    (r, s) \<Rightarrow> (r, st\<lparr>ba_cache := (ba_cache st)(k \<mapsto> r), ba_bucket := s\<rparr>))))"

text \<open>The loop over the rows of a table: \<open>edit\<close> gives a row its new keys; a dry run keeps the old row.\<close>

fun walk_rows :: "bool \<Rightarrow> ('r \<Rightarrow> batch \<Rightarrow> 'r \<times> batch) \<Rightarrow> 'r list \<Rightarrow> batch \<Rightarrow> 'r list \<times> nat \<times> batch" where
  "walk_rows commit edit [] st = ([], 0, st)"
| "walk_rows commit edit (r # rows) st =
     (case edit r st of
        (r', st1) \<Rightarrow>
          (case walk_rows commit edit rows st1 of
             (rows', n, st2) \<Rightarrow> ((if commit then r' else r) # rows', (if r' \<noteq> r then 1 else 0) + n, st2)))"

definition edit_content :: "batch_env \<Rightarrow> pillow \<Rightarrow> content_row \<Rightarrow> batch \<Rightarrow> content_row \<times> batch" where
  "edit_content env pil c st =
     (case optimize_key env pil Poster (ct_poster_key c) st of
        (p, st1) \<Rightarrow> (case optimize_key env pil Banner (ct_banner_key c) st1 of
          (b, st2) \<Rightarrow> (c\<lparr>ct_poster_key := p, ct_banner_key := b\<rparr>, st2)))"

definition edit_series :: "batch_env \<Rightarrow> pillow \<Rightarrow> series_row \<Rightarrow> batch \<Rightarrow> series_row \<times> batch" where
  "edit_series env pil r st =
     (case optimize_key env pil Poster (ser_poster_key r) st of
        (p, st1) \<Rightarrow> (case optimize_key env pil Banner (ser_banner_key r) st1 of
          (b, st2) \<Rightarrow> (r\<lparr>ser_poster_key := p, ser_banner_key := b\<rparr>, st2)))"

definition edit_banner :: "batch_env \<Rightarrow> pillow \<Rightarrow> banner_row \<Rightarrow> batch \<Rightarrow> banner_row \<times> batch" where
  "edit_banner env pil r st =
     (case optimize_key env pil Banner (ban_image_key r) st of
        (i, st1) \<Rightarrow> (r\<lparr>ban_image_key := i\<rparr>, st1))"

definition new_batch :: "bucket \<Rightarrow> batch" where
  "new_batch s = \<lparr>ba_cache = Map.empty, ba_broken = [], ba_bucket = s\<rparr>"

text \<open>\<open>main\<close>: the database, the number of changed records and the state at the end.\<close>

definition optimize_images :: "bool \<Rightarrow> batch_env \<Rightarrow> pillow \<Rightarrow> db \<Rightarrow> bucket \<Rightarrow> db \<times> nat \<times> batch" where
  "optimize_images commit env pil d s =
     (case walk_rows commit (edit_content env pil) (contents d) (new_batch s) of
        (cs, m, st1) \<Rightarrow> (case walk_rows commit (edit_series env pil) (series_table d) st1 of
          (ss, n, st2) \<Rightarrow> (case walk_rows commit (edit_banner env pil) (promotion_banners d) st2 of
            (bs, k, st3) \<Rightarrow>
              (d\<lparr>contents := cs, series_table := ss, promotion_banners := bs\<rparr>, m + n + k, st3))))"

section \<open>What is done to a key\<close>

lemma webp_key_again:
  assumes "is_image_object_key k"
  shows "webp_key_for (webp_key_for k) = webp_key_for k"
proof -
  obtain base ext where s: "splitext k = (base, ext)" by (cases "splitext k")
  have "\<not> list_all (\<lambda>x. x = CHR ''.'') (takeWhile (\<lambda>x. x \<noteq> CHR ''/'') (rev base))"
  proof (cases "ext = []")
    case True
    then have "base = k" using splitext_join [OF s] by simp
    moreover have "\<exists>c cs. rev k = c # cs \<and> c \<noteq> CHR ''.'' \<and> c \<noteq> CHR ''/''"
      using assms by (cases k rule: rev_cases) (auto simp: is_image_object_key_def ends_with_def lower_def lower_char_def split: if_splits)
    ultimately show ?thesis by auto
  next
    case False
    then show ?thesis using s by (auto simp: splitext_def Let_def split: list.splits if_splits)
  qed
  then show ?thesis using s by (simp add: webp_key_for_def splitext_def Let_def)
qed

lemma others_kept:
  assumes "optimize_r2_image cs pil kind (Some key) s = (r, s')" and "k \<noteq> key" and "s k \<noteq> None"
  shows "s' k \<noteq> None"
  using assms
  by (auto simp: optimize_r2_image_def optimize_r2_image_sync_def store_main_def store_thumb_def perform_def Let_def
      split: if_splits option.splits prod.splits)

section \<open>No picture of the catalogue is lost\<close>

text \<open>
  What holds between two keys of the batch: nothing is broken, a key not yet processed still names its
  object, and a processed key leads to one that does, if it named one at the start.
\<close>

definition batch_ok :: "bucket \<Rightarrow> batch \<Rightarrow> bool" where
  "batch_ok s0 st \<longleftrightarrow> ba_broken st = [] \<and>
     (\<forall>k. ba_cache st k = None \<longrightarrow> s0 k \<noteq> None \<longrightarrow> ba_bucket st k \<noteq> None) \<and>
     (\<forall>k r. ba_cache st k = Some r \<longrightarrow> is_image_object_key k \<and> k \<noteq> [] \<and>
        (\<exists>f. r = Some f \<and> f \<in> {k, webp_key_for k} \<and> (s0 k \<noteq> None \<longrightarrow> ba_bucket st f \<noteq> None)))"

definition processed :: "batch \<Rightarrow> string option \<Rightarrow> string option \<Rightarrow> bool" where
  "processed st key r \<longleftrightarrow>
     (r = key \<and> (\<not> truthy key \<or> \<not> is_image_object_key (the key))) \<or> (\<exists>k. key = Some k \<and> ba_cache st k = Some r)"

lemma batch_okD:
  assumes "batch_ok s0 st"
  shows "ba_broken st = []" and "ba_cache st k = None \<Longrightarrow> s0 k \<noteq> None \<Longrightarrow> ba_bucket st k \<noteq> None"
    and "ba_cache st k = Some r \<Longrightarrow> is_image_object_key k \<and> k \<noteq> []"
    and "ba_cache st k = Some r \<Longrightarrow> \<exists>f. r = Some f \<and> f \<in> {k, webp_key_for k} \<and> (s0 k \<noteq> None \<longrightarrow> ba_bucket st f \<noteq> None)"
  using assms unfolding batch_ok_def by blast+

lemma new_batch_ok: "batch_ok s (new_batch s)"
  by (simp add: batch_ok_def new_batch_def)

lemma processed_resolves:
  assumes "batch_ok s0 st" and "processed st (Some k) r" and "s0 k \<noteq> None"
  shows "\<exists>f. r = Some f \<and> ba_bucket st f \<noteq> None"
  using assms(2) unfolding processed_def
proof
  assume p: "r = Some k \<and> (\<not> truthy (Some k) \<or> \<not> is_image_object_key (the (Some k)))"
  then have "ba_cache st k = None" using batch_okD(3) [OF assms(1), of k] by (cases "ba_cache st k") auto
  then show ?thesis using p batch_okD(2) [OF assms(1)] assms(3) by blast
qed (use batch_okD(4) [OF assms(1)] assms(3) in blast)

lemma processed_later: "ba_cache st \<subseteq>\<^sub>m ba_cache st' \<Longrightarrow> processed st key r \<Longrightarrow> processed st' key r"
  by (auto simp: processed_def map_le_def dom_def)

lemma cached_unanswered:
  assumes "batch_ok s0 st" and "ba_cache st k = None" and "is_image_object_key k" and "k \<noteq> []"
  shows "batch_ok s0 (st\<lparr>ba_cache := (ba_cache st)(k \<mapsto> Some k)\<rparr>)"
  using assms batch_okD(2) [OF assms(1)] by (simp add: batch_ok_def)

lemma cached_optimized:
  assumes ok: "batch_ok s0 st" and new: "ba_cache st k = None" and k: "is_image_object_key k" "k \<noteq> []" "ba_bucket st k \<noteq> None"
    and cs: "call_delete cs \<noteq> Reply_Lost" and run: "optimize_r2_image cs pil kind (Some k) (ba_bucket st) = (r, s)"
  shows "batch_ok s0 (st\<lparr>ba_cache := (ba_cache st)(k \<mapsto> r), ba_bucket := s\<rparr>)"
proof -
  obtain f where f: "r = Some f" "s f \<noteq> None" "f \<in> {k, webp_key_for k}"
    using image_never_lost [OF k(3,2) cs run] by blast
  have old: "s g \<noteq> None"
    if "ba_cache st j = Some (Some g)" "g \<in> {j, webp_key_for j}" "ba_bucket st g \<noteq> None" for j g
  proof (cases "g = k")
    case True
    then have "g = webp_key_for j" using that(1,2) new by auto
    then have "webp_key_for k = k" using True webp_key_again batch_okD(3) [OF ok that(1)] by metis
    then show ?thesis using f True by simp
  next
    case False
    then show ?thesis using others_kept [OF run] that(3) by blast
  qed
  show ?thesis unfolding batch_ok_def
  proof (intro conjI allI impI, goal_cases)
    case 1
    then show ?case using batch_okD(1) [OF ok] by simp
  next
    case (2 j)
    then show ?case using others_kept [OF run, of j] batch_okD(2) [OF ok, of j] by (simp split: if_splits)
  next
    case (3 j x)
    then show ?case using k batch_okD(3) [OF ok, of j] by (auto split: if_splits)
  next
    case (4 j x)
    then show ?case using k batch_okD(3) [OF ok, of j] by (auto split: if_splits)
  next
    case (5 j x)
    show ?case
    proof (cases "j = k")
      case True
      then show ?thesis using 5 f by auto
    next
      case False
      then have c: "ba_cache st j = Some x" using 5 by simp
      then obtain g where g: "x = Some g" "g \<in> {j, webp_key_for j}" "s0 j \<noteq> None \<longrightarrow> ba_bucket st g \<noteq> None"
        using batch_okD(4) [OF ok] by blast
      then show ?thesis using old [of j g] c by auto
    qed
  qed
qed

lemma optimize_key_ok:
  assumes ok: "batch_ok s0 st" and cs: "\<And>k. call_delete (snd (env k)) \<noteq> Reply_Lost"
    and run: "optimize_key env pil kind key st = (r, st')"
  shows "batch_ok s0 st' \<and> processed st' key r \<and> ba_cache st \<subseteq>\<^sub>m ba_cache st'"
proof (cases "truthy key \<and> is_image_object_key (the key)")
  case False
  then show ?thesis using run ok by (auto simp: optimize_key_def processed_def)
next
  case True
  then obtain k where k: "key = Some k" "k \<noteq> []" "is_image_object_key k" and t: "truthy (Some k)" by (auto simp: truthy_iff)
  show ?thesis
  proof (cases "ba_cache st k")
    case (Some x)
    then show ?thesis using run ok k by (auto simp: optimize_key_def processed_def)
  next
    case None
    have le: "ba_cache st \<subseteq>\<^sub>m (ba_cache st)(k \<mapsto> x)" for x using None by (auto simp: map_le_def dom_def)
    show ?thesis
    proof (cases "object_answers env k (ba_bucket st)")
      case False
      then have "r = key \<and> st' = st\<lparr>ba_cache := (ba_cache st)(k \<mapsto> key)\<rparr>"
        using run None k t batch_okD(1) [OF ok] by (auto simp: optimize_key_def)
      then show ?thesis using cached_unanswered [OF ok None k(3,2)] le k(1) by (simp add: processed_def)
    next
      case True
      obtain x s where o: "optimize_r2_image (snd (env k)) pil kind key (ba_bucket st) = (x, s)" by (cases "optimize_r2_image (snd (env k)) pil kind key (ba_bucket st)")
      then have "r = x \<and> st' = st\<lparr>ba_cache := (ba_cache st)(k \<mapsto> x), ba_bucket := s\<rparr>"
        using run None k t True batch_okD(1) [OF ok] by (auto simp: optimize_key_def)
      then show ?thesis
        using cached_optimized [OF ok None k(3,2) _ cs o [unfolded k(1)]] True le k(1)
        by (simp add: processed_def object_answers_def)
    qed
  qed
qed

lemma walk_rows_ok:
  assumes edit: "\<And>r st r' st'. edit r st = (r', st') \<Longrightarrow> batch_ok s0 st \<Longrightarrow>
      batch_ok s0 st' \<and> list_all2 (processed st') (pics r) (pics r') \<and> ba_cache st \<subseteq>\<^sub>m ba_cache st'"
    and "walk_rows True edit rows st = (rows', n, st')" and "batch_ok s0 st"
  shows "batch_ok s0 st' \<and> list_all2 (processed st') (concat (map pics rows)) (concat (map pics rows')) \<and>
    ba_cache st \<subseteq>\<^sub>m ba_cache st'"
  using assms(2,3)
proof (induction rows arbitrary: st rows' n)
  case (Cons r rows)
  obtain r1 st1 rows1 m where s: "edit r st = (r1, st1)" "walk_rows True edit rows st1 = (rows1, m, st')" "rows' = r1 # rows1"
    using Cons.prems(1) by (auto split: prod.splits)
  have e: "batch_ok s0 st1" "list_all2 (processed st1) (pics r) (pics r1)" "ba_cache st \<subseteq>\<^sub>m ba_cache st1"
    using edit [OF s(1) Cons.prems(2)] by auto
  have w: "batch_ok s0 st'" "list_all2 (processed st') (concat (map pics rows)) (concat (map pics rows1))" "ba_cache st1 \<subseteq>\<^sub>m ba_cache st'"
    using Cons.IH [OF s(2) e(1)] by auto
  have "list_all2 (processed st') (pics r) (pics r1)"
    using e(2) by (rule list_all2_mono) (rule processed_later [OF w(3)])
  then show ?case using s(3) w map_le_trans [OF e(3) w(3)] by (simp add: list_all2_appendI)
qed simp

definition content_pictures :: "content_row \<Rightarrow> string option list" where
  "content_pictures c = [ct_poster_key c, ct_banner_key c]"

definition series_pictures :: "series_row \<Rightarrow> string option list" where
  "series_pictures r = [ser_poster_key r, ser_banner_key r]"

definition pictures :: "db \<Rightarrow> string option list" where
  "pictures d = concat (map content_pictures (contents d)) @ concat (map series_pictures (series_table d)) @
     concat (map (\<lambda>b. [ban_image_key b]) (promotion_banners d))"

lemma edits_ok:
  assumes cs: "\<And>k. call_delete (snd (env k)) \<noteq> Reply_Lost" and ok: "batch_ok s0 st"
  shows "edit_content env pil c st = (c', st') \<Longrightarrow>
      batch_ok s0 st' \<and> list_all2 (processed st') (content_pictures c) (content_pictures c') \<and> ba_cache st \<subseteq>\<^sub>m ba_cache st'"
    and "edit_series env pil r st = (r', st') \<Longrightarrow>
      batch_ok s0 st' \<and> list_all2 (processed st') (series_pictures r) (series_pictures r') \<and> ba_cache st \<subseteq>\<^sub>m ba_cache st'"
    and "edit_banner env pil b st = (b', st') \<Longrightarrow>
      batch_ok s0 st' \<and> list_all2 (processed st') [ban_image_key b] [ban_image_key b'] \<and> ba_cache st \<subseteq>\<^sub>m ba_cache st'"
proof -
  note step = optimize_key_ok [OF _ cs]
  have pair: "batch_ok s0 st2 \<and> processed st2 p p' \<and> processed st2 q q' \<and> ba_cache st \<subseteq>\<^sub>m ba_cache st2"
    if "optimize_key env pil Poster p st = (p', st1)" "optimize_key env pil Banner q st1 = (q', st2)" for p q p' q' st1 st2
  proof -
    have a: "batch_ok s0 st1 \<and> processed st1 p p' \<and> ba_cache st \<subseteq>\<^sub>m ba_cache st1" by (rule step [OF ok that(1)])
    then have b: "batch_ok s0 st2 \<and> processed st2 q q' \<and> ba_cache st1 \<subseteq>\<^sub>m ba_cache st2" by (intro step [OF _ that(2)]) simp
    then show ?thesis using a processed_later map_le_trans by blast
  qed
  show "edit_content env pil c st = (c', st') \<Longrightarrow>
      batch_ok s0 st' \<and> list_all2 (processed st') (content_pictures c) (content_pictures c') \<and> ba_cache st \<subseteq>\<^sub>m ba_cache st'"
    by (auto simp: edit_content_def content_pictures_def split: prod.splits dest: pair)
  show "edit_series env pil r st = (r', st') \<Longrightarrow>
      batch_ok s0 st' \<and> list_all2 (processed st') (series_pictures r) (series_pictures r') \<and> ba_cache st \<subseteq>\<^sub>m ba_cache st'"
    by (auto simp: edit_series_def series_pictures_def split: prod.splits dest: pair)
  show "edit_banner env pil b st = (b', st') \<Longrightarrow>
      batch_ok s0 st' \<and> list_all2 (processed st') [ban_image_key b] [ban_image_key b'] \<and> ba_cache st \<subseteq>\<^sub>m ba_cache st'"
    by (auto simp: edit_banner_def split: prod.splits dest: step [OF ok])
qed

lemma walk_unchanged: "walk_rows True edit rows st = (rows', 0, st') \<Longrightarrow> rows' = rows"
  by (induction rows arbitrary: st rows') (auto split: prod.splits if_splits)

lemma walk_dry: "walk_rows False edit rows st = (rows', n, st') \<Longrightarrow> rows' = rows"
  by (induction rows arbitrary: st rows' n) (auto split: prod.splits)

text \<open>
  C37: Committed, the batch loses no picture: whatever the state of the store and whatever its calls answer,
  short of a deletion whose answer is lost, every poster and banner of the catalogue that named an object
  before names one afterwards, however many rows share it. If nothing was changed the database is as before,
  which is why the code then does not commit.
\<close>

theorem batch_keeps_pictures:
  assumes "\<And>k. call_delete (snd (env k)) \<noteq> Reply_Lost" and "optimize_images True env pil d s = (d', n, st)"
  shows "list_all2 (\<lambda>old new. \<forall>k. old = Some k \<longrightarrow> s k \<noteq> None \<longrightarrow> (\<exists>f. new = Some f \<and> ba_bucket st f \<noteq> None)) (pictures d) (pictures d') \<and>
    (n = 0 \<longrightarrow> d' = d)"
proof -
  obtain cs m st1 ss k st2 bs j where
    c: "walk_rows True (edit_content env pil) (contents d) (new_batch s) = (cs, m, st1)" and
    t: "walk_rows True (edit_series env pil) (series_table d) st1 = (ss, k, st2)" and
    b: "walk_rows True (edit_banner env pil) (promotion_banners d) st2 = (bs, j, st)" and
    d': "d' = d\<lparr>contents := cs, series_table := ss, promotion_banners := bs\<rparr>" "n = m + k + j"
    using assms(2) by (auto simp: optimize_images_def split: prod.splits)
  note E = edits_ok [of env, OF assms(1)]
  have 1: "batch_ok s st1 \<and> list_all2 (processed st1) (concat (map content_pictures (contents d))) (concat (map content_pictures cs)) \<and>
      ba_cache (new_batch s) \<subseteq>\<^sub>m ba_cache st1"
    by (rule walk_rows_ok [OF _ c new_batch_ok]) (rule E(1))
  have 2: "batch_ok s st2 \<and> list_all2 (processed st2) (concat (map series_pictures (series_table d))) (concat (map series_pictures ss)) \<and>
      ba_cache st1 \<subseteq>\<^sub>m ba_cache st2"
    by (rule walk_rows_ok [OF _ t conjunct1 [OF 1]]) (rule E(2))
  have 3: "batch_ok s st \<and> list_all2 (processed st) (concat (map (\<lambda>b. [ban_image_key b]) (promotion_banners d))) (concat (map (\<lambda>b. [ban_image_key b]) bs)) \<and>
      ba_cache st2 \<subseteq>\<^sub>m ba_cache st"
    by (rule walk_rows_ok [OF _ b conjunct1 [OF 2]]) (rule E(3))
  have "list_all2 (processed st) (concat (map content_pictures (contents d))) (concat (map content_pictures cs))"
    using 1 2 3 by (blast intro: list_all2_mono processed_later map_le_trans)
  moreover have "list_all2 (processed st) (concat (map series_pictures (series_table d))) (concat (map series_pictures ss))"
    using 2 3 by (blast intro: list_all2_mono processed_later)
  ultimately have "list_all2 (processed st) (pictures d) (pictures d')"
    using 3 unfolding pictures_def d' by (simp add: list_all2_appendI)
  then have "list_all2 (\<lambda>old new. \<forall>k. old = Some k \<longrightarrow> s k \<noteq> None \<longrightarrow> (\<exists>f. new = Some f \<and> ba_bucket st f \<noteq> None)) (pictures d) (pictures d')"
    by (rule list_all2_mono) (use processed_resolves 3 in blast)
  moreover have "d' = d" if "n = 0"
  proof -
    have z: "m = 0" "k = 0" "j = 0" using that d'(2) by simp_all
    have "cs = contents d" "ss = series_table d" "bs = promotion_banners d"
      using walk_unchanged c t b unfolding z by blast+
    then show ?thesis using d'(1) by simp
  qed
  ultimately show ?thesis by blast
qed

definition one_poster :: db where
  "one_poster = empty_db\<lparr>contents := [default_content\<lparr>ct_poster_key := Some ''movies/x/poster.jpg''\<rparr>]\<rparr>"

definition calm :: batch_env where
  "calm = (\<lambda>_. (True, all_done))"

theorem batch_keeps_pictures_witness:
  "case optimize_images True calm tidy_pillow one_poster one_upload of
     (d', n, st) \<Rightarrow> \<exists>f. pictures d' = [Some f, None] \<and> ba_bucket st f \<noteq> None"
proof -
  obtain d' n st where run: "optimize_images True calm tidy_pillow one_poster one_upload = (d', n, st)"
    by (cases "optimize_images True calm tidy_pillow one_poster one_upload")
  have "\<And>k. call_delete (snd (calm k)) \<noteq> Reply_Lost" by (simp add: calm_def all_done_def)
  note kept = conjunct1 [OF batch_keeps_pictures [of calm, OF this run]]
  have two: "case optimize_images True calm tidy_pillow one_poster one_upload of
      (d', n, st) \<Rightarrow> (case pictures d' of [p, b] \<Rightarrow> b = None | _ \<Rightarrow> False)" by code_simp
  have "pictures one_poster = [Some ''movies/x/poster.jpg'', None]" "one_upload ''movies/x/poster.jpg'' \<noteq> None" by code_simp+
  then show ?thesis using kept two unfolding run by (auto simp: list_all2_Cons1)
qed

text \<open>
  A dry run is not dry: it leaves the rows as they are, but it has processed the store, so every picture that
  was not WebP before is gone under the key its rows still have.
\<close>

lemma dry_run_rows: "fst (optimize_images False env pil d s) = d"
  by (auto simp: optimize_images_def split: prod.splits dest!: walk_dry)

lemma dry_run_breaks_pictures:
  "case optimize_images False calm tidy_pillow one_poster one_upload of
     (d', n, st) \<Rightarrow> pictures d' = [Some ''movies/x/poster.jpg'', None] \<and> ba_bucket st ''movies/x/poster.jpg'' = None"
  by code_simp

end
