(* ===== verification/Catalog_Seeds.thy ===== *)
theory Catalog_Seeds
  imports Upsert Series_Admin Channels Artwork_Batch
begin

text \<open>
  Scripts that fill the catalogue and may be run again: \<open>seed/seed_series_from_r2.py\<close> (series and episodes
  for what lies in object storage), \<open>seed/seed_tv_channels.py\<close>, \<open>seed/seed_genres.py\<close>,
  \<open>seed/seed_catalog_prices.py\<close> and \<open>seed/seed_admin.py\<close>. Generated ids are arguments: of a row by its slug.
  Printing, engines and the counts they print are left out.
\<close>

section \<open>Series from object storage\<close>

record series_spec =
  sp_slug :: string
  sp_title :: string
  sp_description :: string
  sp_genres :: "string list"
  sp_release_year :: int
  sp_rating :: decimal
  sp_poster_key :: string
  sp_banner_key :: string
  sp_monthly_price_usd :: decimal
  sp_trailer_url :: "string option"
  sp_episodes :: nat
  sp_hls_ready :: bool

definition em_dash :: string where
  "em_dash = [CHR 0xE2, CHR 0x80, CHR 0x94]"

definition series_seed :: "series_spec list" where
  "series_seed =
     [\<lparr>sp_slug = ''legend-of-the-white-snake-2006'', sp_title = ''Legend of the White Snake'',
       sp_description = ''Bai Suzhen, a white-snake spirit seeking divinity, falls in love with the mortal Xu Xian '' @ em_dash @
         '' and must fight fate, prejudice, and a demon-hunting monk.'',
       sp_genres = [''Fantasy'', ''Romance'', ''Drama'', ''Adventure''], sp_release_year = 2006, sp_rating = 78 / 10,
       sp_poster_key = ''series/legend-of-the-white-snake-2006/poster.jpg'',
       sp_banner_key = ''series/legend-of-the-white-snake-2006/banner.jpg'', sp_monthly_price_usd = 250 / 100,
       sp_trailer_url = Some ''https://www.youtube.com/watch?v=xIIkYHkLT4s'', sp_episodes = 6, sp_hls_ready = True\<rparr>,
      \<lparr>sp_slug = ''the-count-of-gu-2010'', sp_title = ''The Count of Gu'',
       sp_description = ''A period drama of ambition, loyalty, and family power struggles as rival houses collide across a changing era.'',
       sp_genres = [''Drama'', ''History'', ''Romance''], sp_release_year = 2010, sp_rating = 75 / 10,
       sp_poster_key = ''series/the-count-of-gu-2010/poster.webp'',
       sp_banner_key = ''series/the-count-of-gu-2010/banner.webp'', sp_monthly_price_usd = 250 / 100,
       sp_trailer_url = Some ''https://www.youtube.com/watch?v=zh0MofJAtr8'', sp_episodes = 6, sp_hls_ready = True\<rparr>,
      \<lparr>sp_slug = ''black-white-2009'', sp_title = ''Black & White'',
       sp_description = ''Two mismatched crime solvers are forced to team up in a corrupt city where police, politicians, and gangs all share the same shadows.'',
       sp_genres = [''Action'', ''Crime'', ''Mystery''], sp_release_year = 2009, sp_rating = 8,
       sp_poster_key = ''series/black-white-2009/poster.jpg'',
       sp_banner_key = ''series/black-white-2009/banner.jpg'', sp_monthly_price_usd = 250 / 100,
       sp_trailer_url = Some ''https://www.youtube.com/watch?v=A7s19DL_q5g'', sp_episodes = 6, sp_hls_ready = False\<rparr>]"

definition episode_slug :: "string \<Rightarrow> int \<Rightarrow> int \<Rightarrow> string" where
  "episode_slug series_slug season episode = series_slug @ ''-s'' @ two_digits season @ ''e'' @ two_digits episode"

definition episode_hls_key :: "string \<Rightarrow> string \<Rightarrow> string" where
  "episode_hls_key series_slug ep_slug = ''series/'' @ series_slug @ ''/episodes/'' @ ep_slug @ ''/hls/master.m3u8''"

text \<open>A new row takes the column defaults for what the script does not set: \<open>status\<close> is \<open>draft\<close>.\<close>

definition make_series :: "datetime \<Rightarrow> (string \<Rightarrow> uuid) \<Rightarrow> series_spec \<Rightarrow> series_row" where
  "make_series now fresh sp =
     \<lparr>ser_id = fresh (sp_slug sp), ser_slug = sp_slug sp, ser_title = sp_title sp, ser_title_km = None,
      ser_description = Some (sp_description sp), ser_genres = sp_genres sp, ser_release_year = Some (sp_release_year sp),
      ser_rating = Some (sp_rating sp), ser_poster_key = Some (sp_poster_key sp), ser_banner_key = Some (sp_banner_key sp),
      ser_trailer_url = sp_trailer_url sp, ser_monthly_price_usd = sp_monthly_price_usd sp, ser_status = ''draft'',
      ser_is_published = True, ser_publish_at = None, ser_is_short_movie = False, ser_sort_order = 0, ser_created_at = now\<rparr>"

definition assign_spec :: "series_spec \<Rightarrow> series_row \<Rightarrow> series_row" where
  "assign_spec sp s =
     s\<lparr>ser_title := sp_title sp, ser_description := Some (sp_description sp), ser_genres := sp_genres sp,
       ser_release_year := Some (sp_release_year sp), ser_rating := Some (sp_rating sp), ser_poster_key := Some (sp_poster_key sp),
       ser_banner_key := Some (sp_banner_key sp),
       ser_trailer_url := (if truthy (sp_trailer_url sp) then sp_trailer_url sp else ser_trailer_url s),
       ser_monthly_price_usd := sp_monthly_price_usd sp, ser_is_published := True\<rparr>"

definition upsert_series :: "datetime \<Rightarrow> (string \<Rightarrow> uuid) \<Rightarrow> series_spec \<Rightarrow> series_row list \<Rightarrow> series_row \<times> series_row list" where
  "upsert_series now fresh sp tab =
     (case select_one (\<lambda>s. ser_slug s = sp_slug sp) tab of
        None \<Rightarrow> (let s = make_series now fresh sp in (s, tab @ [s]))
      | Some s \<Rightarrow> (assign_spec sp s, update_where (\<lambda>s. ser_slug s = sp_slug sp) (assign_spec sp) tab))"

text \<open>An episode to import: the series' entry, the id of its row and the number.\<close>

type_synonym episode_entry = "series_spec \<times> uuid \<times> nat"

fun entry_slug :: "episode_entry \<Rightarrow> string" where
  "entry_slug (sp, sid, n) = episode_slug (sp_slug sp) 1 (int n)"

fun make_episode :: "datetime \<Rightarrow> (string \<Rightarrow> uuid) \<Rightarrow> episode_entry \<Rightarrow> content_row" where
  "make_episode now fresh (sp, sid, n) =
     (let slug = entry_slug (sp, sid, n) in
      default_content\<lparr>ct_id := fresh slug, ct_type := ''episode'', ct_series_id := Some sid, ct_season_number := Some 1,
        ct_episode_number := Some (int n), ct_slug := slug, ct_title := ''Episode '' @ string_of_nat n, ct_genres := sp_genres sp,
        ct_release_year := Some (sp_release_year sp), ct_poster_key := Some (sp_poster_key sp),
        ct_hls_master_key := (if sp_hls_ready sp then Some (episode_hls_key (sp_slug sp) slug) else None),
        ct_status := ''published'', ct_is_published := True, ct_is_free := (n \<le> 2),
        ct_transcode_status := (if sp_hls_ready sp then ''ready'' else ''failed''), ct_created_at := now\<rparr>)"

fun assign_episode :: "episode_entry \<Rightarrow> content_row \<Rightarrow> content_row" where
  "assign_episode (sp, sid, n) c =
     c\<lparr>ct_series_id := Some sid, ct_season_number := Some 1, ct_episode_number := Some (int n),
       ct_title := ''Episode '' @ string_of_nat n, ct_genres := sp_genres sp, ct_release_year := Some (sp_release_year sp),
       ct_poster_key := or_else (ct_poster_key c) (Some (sp_poster_key sp)),
       ct_hls_master_key := (if sp_hls_ready sp then Some (episode_hls_key (sp_slug sp) (entry_slug (sp, sid, n))) else ct_hls_master_key c),
       ct_transcode_status := (if sp_hls_ready sp then ''ready''
         else if \<not> truthy (ct_hls_master_key c) then ''failed'' else ct_transcode_status c),
       ct_status := ''published'', ct_is_published := True, ct_is_free := (n \<le> 2)\<rparr>"

text \<open>An episode's slug may already belong to a film or podcast; the insertion then breaks the unique index.\<close>

definition slug_taken :: "string \<Rightarrow> content_row list \<Rightarrow> bool" where
  "slug_taken slug tab \<longleftrightarrow> exists_row (\<lambda>c. ct_slug c = slug \<and> ct_type c \<noteq> ''episode'') tab"

fun upsert_episodes :: "datetime \<Rightarrow> (string \<Rightarrow> uuid) \<Rightarrow> episode_entry list \<Rightarrow> content_row list \<Rightarrow> content_row list result" where
  "upsert_episodes now fresh [] tab = Inr tab"
| "upsert_episodes now fresh (e # es) tab =
     (if slug_taken (entry_slug e) tab then Inl IntegrityError
      else upsert_episodes now fresh es
        (upsert_row (\<lambda>c. (ct_slug c, ct_type c)) (\<lambda>e. (entry_slug e, ''episode'')) (make_episode now fresh) assign_episode e tab))"

definition episode_entries :: "series_spec \<Rightarrow> uuid \<Rightarrow> episode_entry list" where
  "episode_entries sp sid = map (\<lambda>n. (sp, sid, n)) [1..<Suc (sp_episodes sp)]"

definition import_spec :: "datetime \<Rightarrow> (string \<Rightarrow> uuid) \<Rightarrow> series_spec \<Rightarrow> db \<Rightarrow> db result" where
  "import_spec now fresh sp d =
     (case upsert_series now fresh sp (series_table d) of
        (s, tab) \<Rightarrow>
          (case upsert_episodes now fresh (episode_entries sp (ser_id s)) (contents d) of
             Inl e \<Rightarrow> Inl e | Inr cs \<Rightarrow> Inr (d\<lparr>series_table := tab, contents := cs\<rparr>)))"

fun import_specs :: "datetime \<Rightarrow> (string \<Rightarrow> uuid) \<Rightarrow> series_spec list \<Rightarrow> db \<Rightarrow> db result" where
  "import_specs now fresh [] d = Inr d"
| "import_specs now fresh (sp # sps) d =
     (case import_spec now fresh sp d of Inl e \<Rightarrow> Inl e | Inr d1 \<Rightarrow> import_specs now fresh sps d1)"

definition seed_series_from_r2 :: "datetime \<Rightarrow> (string \<Rightarrow> uuid) \<Rightarrow> db \<Rightarrow> db result" where
  "seed_series_from_r2 now fresh d = import_specs now fresh series_seed d"

section \<open>Running the import again\<close>

interpretation import_series: upsert ser_slug sp_slug "make_series now fresh" assign_spec
  by unfold_locales (simp_all add: make_series_def assign_spec_def)

interpretation import_episode: upsert "\<lambda>c. (ct_slug c, ct_type c)" "\<lambda>e. (entry_slug e, ''episode'')" "make_episode now fresh" assign_episode
proof (unfold_locales, goal_cases)
  case (1 e) then show ?case by (cases e) (simp add: Let_def)
next
  case (2 r e) then show ?case by (cases e) simp
next
  case (3 r e) then show ?case by (cases e) (simp add: or_else_def truthy_iff split: option.split)
next
  case (4 e) then show ?case by (cases e) (simp add: Let_def or_else_def default_content_def)
qed

lemma upsert_series_row:
  "snd (upsert_series now fresh sp tab) = upsert_row ser_slug sp_slug (make_series now fresh) assign_spec sp tab"
  by (auto simp: upsert_series_def upsert_row_def Let_def exists_row_iff select_one_None split: option.split dest: select_one_Some)

lemma upsert_series_found:
  "select_one (\<lambda>s. ser_slug s = sp_slug sp) (snd (upsert_series now fresh sp tab)) = Some (fst (upsert_series now fresh sp tab))"
proof (cases "select_one (\<lambda>s. ser_slug s = sp_slug sp) tab")
  case None
  then show ?thesis by (simp add: upsert_series_def Let_def select_one_append make_series_def)
next
  case (Some s)
  then show ?thesis
    by (simp add: upsert_series_def select_one_update_where assign_spec_def if_distrib cong: if_cong)
      (auto dest: select_one_Some)
qed

definition spec_slugs :: "series_spec \<Rightarrow> string list" where
  "spec_slugs sp = map (\<lambda>n. episode_slug (sp_slug sp) 1 (int n)) [1..<Suc (sp_episodes sp)]"

lemma entry_slugs: "map entry_slug (episode_entries sp sid) = spec_slugs sp"
  by (simp add: episode_entries_def spec_slugs_def)

definition spec_entered :: "series_spec \<Rightarrow> db \<Rightarrow> bool" where
  "spec_entered sp d \<longleftrightarrow> (\<exists>s. select_one (\<lambda>s. ser_slug s = sp_slug sp) (series_table d) = Some s \<and>
     import_series.entered sp (series_table d) \<and>
     (\<forall>e \<in> set (episode_entries sp (ser_id s)). import_episode.entered e (contents d) \<and> \<not> slug_taken (entry_slug e) (contents d)))"

lemma slug_taken_upsert:
  "slug_taken slug (upsert_row (\<lambda>c. (ct_slug c, ct_type c)) (\<lambda>e. (entry_slug e, ''episode'')) (make_episode now fresh) assign_episode e tab) =
   slug_taken slug tab"
proof -
  have "ct_slug (assign_episode e c) = ct_slug c \<and> ct_type (assign_episode e c) = ct_type c" for c by (cases e) simp
  moreover have "ct_type (make_episode now fresh e) = ''episode''" by (cases e) (simp add: Let_def)
  ultimately show ?thesis
    by (simp add: slug_taken_def upsert_row_def exists_row_append exists_row_update_keep)
qed

lemma upsert_episodes_fold:
  "upsert_episodes now fresh es tab = Inr tab' \<Longrightarrow>
   tab' = fold (upsert_row (\<lambda>c. (ct_slug c, ct_type c)) (\<lambda>e. (entry_slug e, ''episode'')) (make_episode now fresh) assign_episode) es tab"
  by (induction es arbitrary: tab) (auto split: if_splits)

lemma upsert_episodes_slugs:
  "upsert_episodes now fresh es tab = Inr tab' \<Longrightarrow>
   (\<forall>slug. slug_taken slug tab' = slug_taken slug tab) \<and> (\<forall>e \<in> set es. \<not> slug_taken (entry_slug e) tab)"
proof (induction es arbitrary: tab)
  case (Cons e es)
  let ?tab = "upsert_row (\<lambda>c. (ct_slug c, ct_type c)) (\<lambda>e. (entry_slug e, ''episode'')) (make_episode now fresh) assign_episode e tab"
  have free: "\<not> slug_taken (entry_slug e) tab" and rest: "upsert_episodes now fresh es ?tab = Inr tab'"
    using Cons.prems by (simp_all split: if_splits)
  show ?case using Cons.IH [OF rest] free unfolding slug_taken_upsert by simp
qed simp

lemma upsert_episodes_entered:
  "(\<forall>e \<in> set es. import_episode.entered e tab \<and> \<not> slug_taken (entry_slug e) tab) \<Longrightarrow> upsert_episodes now fresh es tab = Inr tab"
  by (induction es) (simp_all add: import_episode.entered_unchanged)

lemma import_spec_again:
  assumes "spec_entered sp d"
  shows "import_spec now fresh sp d = Inr d"
proof -
  obtain s where s: "select_one (\<lambda>s. ser_slug s = sp_slug sp) (series_table d) = Some s" "import_series.entered sp (series_table d)"
      "\<forall>e \<in> set (episode_entries sp (ser_id s)). import_episode.entered e (contents d) \<and> \<not> slug_taken (entry_slug e) (contents d)"
    using assms unfolding spec_entered_def by blast
  have "assign_spec sp s = s" using s(1,2) by (auto simp: import_series.entered_def dest: select_one_Some)
  moreover have "snd (upsert_series now fresh sp (series_table d)) = series_table d"
    unfolding upsert_series_row by (rule import_series.entered_unchanged [OF s(2)])
  ultimately have "upsert_series now fresh sp (series_table d) = (s, series_table d)"
    using s(1) by (simp add: upsert_series_def)
  then show ?thesis using upsert_episodes_entered [OF s(3)] by (simp add: import_spec_def)
qed

lemma import_spec_ok:
  assumes run: "import_spec now fresh sp d = Inr d'" and "distinct (spec_slugs sp)"
  shows "spec_entered sp d'"
    and "spec_entered sp' d \<Longrightarrow> sp_slug sp' \<noteq> sp_slug sp \<Longrightarrow> set (spec_slugs sp') \<inter> set (spec_slugs sp) = {} \<Longrightarrow> spec_entered sp' d'"
proof -
  obtain s tab where u: "upsert_series now fresh sp (series_table d) = (s, tab)" by (cases "upsert_series now fresh sp (series_table d)")
  let ?es = "episode_entries sp (ser_id s)"
  let ?step = "upsert_row (\<lambda>c. (ct_slug c, ct_type c)) (\<lambda>e. (entry_slug e, ''episode'')) (make_episode now fresh) assign_episode"
  obtain cs where e: "upsert_episodes now fresh ?es (contents d) = Inr cs" and d': "d' = d\<lparr>series_table := tab, contents := cs\<rparr>"
    using run u by (auto simp: import_spec_def split: sum.splits)
  have tab: "tab = upsert_row ser_slug sp_slug (make_series now fresh) assign_spec sp (series_table d)"
    using upsert_series_row [of now fresh sp "series_table d"] u by simp
  have cs: "cs = fold ?step ?es (contents d)" by (rule upsert_episodes_fold [OF e])
  have free: "slug_taken slug cs = slug_taken slug (contents d)" "\<forall>e \<in> set ?es. \<not> slug_taken (entry_slug e) (contents d)" for slug
    using upsert_episodes_slugs [OF e] by blast+
  have keys: "distinct (map (\<lambda>e. (entry_slug e, ''episode'')) ?es)"
    using assms(2) unfolding entry_slugs [symmetric, of sp "ser_id s"] by (auto simp: distinct_map inj_on_def)
  show "spec_entered sp d'"
    unfolding spec_entered_def
  proof (intro exI conjI)
    show "select_one (\<lambda>s. ser_slug s = sp_slug sp) (series_table d') = Some s"
      using upsert_series_found [of sp now fresh "series_table d"] u d' by simp
    show "import_series.entered sp (series_table d')" unfolding d' tab by (simp add: import_series.enters)
    show "\<forall>e \<in> set ?es. import_episode.entered e (contents d') \<and> \<not> slug_taken (entry_slug e) (contents d')"
      using free import_episode.run_enters [OF keys] unfolding d' cs [symmetric] by (auto simp: cs)
  qed
  assume old: "spec_entered sp' d" and ne: "sp_slug sp' \<noteq> sp_slug sp" "set (spec_slugs sp') \<inter> set (spec_slugs sp) = {}"
  obtain s' where s': "select_one (\<lambda>s. ser_slug s = sp_slug sp') (series_table d) = Some s'" "import_series.entered sp' (series_table d)"
      "\<forall>e \<in> set (episode_entries sp' (ser_id s')). import_episode.entered e (contents d) \<and> \<not> slug_taken (entry_slug e) (contents d)"
    using old unfolding spec_entered_def by blast
  have "select_one (\<lambda>s. ser_slug s = sp_slug sp') tab = Some s'"
    using s'(1) ne(1) unfolding tab
    by (auto simp: upsert_row_def select_one_append assign_spec_def make_series_def select_one_update_keep dest: select_one_Some)
  moreover have "import_series.entered sp' tab"
    unfolding tab using s'(2) ne(1) by (intro import_series.stays_entered) auto
  moreover have "import_episode.entered e (fold ?step es tab)" if "import_episode.entered e tab" "entry_slug e \<notin> entry_slug ` set es" for e es tab
    by (rule import_episode.run_keeps [OF that(1)]) (use that(2) in auto)
  moreover have "entry_slug e \<notin> entry_slug ` set ?es" if "e \<in> set (episode_entries sp' (ser_id s'))" for e
    using ne(2) that unfolding entry_slugs [symmetric, of sp "ser_id s"] entry_slugs [symmetric, of sp' "ser_id s'"] by auto
  ultimately show "spec_entered sp' d'"
    unfolding spec_entered_def d' using s'(3) free(1) by (auto simp: cs)
qed

lemma import_specs_keep:
  assumes "import_specs now fresh sps d = Inr d'" and "\<And>sp. sp \<in> set sps \<Longrightarrow> distinct (spec_slugs sp)"
    and "spec_entered old d" and "sp_slug old \<notin> sp_slug ` set sps"
    and "\<And>sp. sp \<in> set sps \<Longrightarrow> set (spec_slugs old) \<inter> set (spec_slugs sp) = {}"
  shows "spec_entered old d'"
  using assms
proof (induction sps arbitrary: d)
  case (Cons x sps)
  obtain d1 where d1: "import_spec now fresh x d = Inr d1" "import_specs now fresh sps d1 = Inr d'"
    using Cons.prems(1) by (auto split: sum.splits)
  have "spec_entered old d1"
    by (rule import_spec_ok(2) [OF d1(1) _ Cons.prems(3)]) (use Cons.prems(2,4,5) in auto)
  then show ?case by (intro Cons.IH [OF d1(2)]) (use Cons.prems in auto)
qed simp

lemma import_specs_entered:
  assumes "import_specs now fresh sps d = Inr d'" and "distinct (map sp_slug sps)" and "distinct (concat (map spec_slugs sps))"
    and "sp \<in> set sps"
  shows "spec_entered sp d'"
  using assms
proof (induction sps arbitrary: d)
  case (Cons x sps)
  obtain d1 where d1: "import_spec now fresh x d = Inr d1" "import_specs now fresh sps d1 = Inr d'"
    using Cons.prems(1) by (auto split: sum.splits)
  have parts: "distinct (spec_slugs y)" if "y \<in> set sps" for y
    using Cons.prems(3) that by (auto simp: distinct_concat_iff)
  show ?case
  proof (cases "sp = x")
    case True
    have x: "spec_entered x d1" by (rule import_spec_ok(1) [OF d1(1)]) (use Cons.prems(3) in simp)
    show ?thesis unfolding True
      by (rule import_specs_keep [OF d1(2) parts x]) (use Cons.prems(2,3) in auto)
  next
    case False
    then show ?thesis by (intro Cons.IH [OF d1(2)]) (use Cons.prems in auto)
  qed
qed simp

lemma series_seed_slugs: "distinct (map sp_slug series_seed)" "distinct (concat (map spec_slugs series_seed))"
  by code_simp+

text \<open>
  The import can be run again: once it has gone through, at whatever later time, it changes nothing.
\<close>

theorem series_import_converges:
  assumes "seed_series_from_r2 now fresh d = Inr d'"
  shows "seed_series_from_r2 later fresh' d' = Inr d'"
proof -
  have "spec_entered sp d'" if "sp \<in> set series_seed" for sp
    using import_specs_entered [OF assms [unfolded seed_series_from_r2_def] series_seed_slugs that] .
  then have "import_specs later fresh' sps d' = Inr d'" if "set sps \<subseteq> set series_seed" for sps
    using that by (induction sps) (simp_all add: import_spec_again)
  then show ?thesis unfolding seed_series_from_r2_def by blast
qed

text \<open>
  What it writes is not what administrators could: the new series are visible with status \<open>draft\<close>, and
  episodes whose transcoding failed are published.
\<close>

definition brief :: series_spec where
  "brief = (series_seed ! 2)\<lparr>sp_episodes := 1\<rparr>"

lemma imported_series_inconsistent:
  "case import_spec 5 length brief empty_db of Inl _ \<Rightarrow> False
   | Inr d \<Rightarrow> list_all (\<lambda>s. ser_is_published s \<and> ser_status s = ''draft'' \<and> \<not> series_state_ok s) (series_table d) \<and>
       list_all (\<lambda>c. ct_is_published c \<and> ct_transcode_status c = ''failed'' \<and> ct_hls_master_key c = None) (contents d) \<and>
       series_table d \<noteq> [] \<and> contents d \<noteq> []"
  by code_simp

text \<open>
  Nor does it agree with the clean-up of pictures: it writes the keys of the uploads back, whose objects the
  clean-up has replaced.
\<close>

definition uploads :: bucket where
  "uploads k = (if k \<in> {sp_poster_key brief, sp_banner_key brief}
     then Some \<lparr>ob_body = ''raw'', ob_type = ''image/jpeg'', ob_cache = []\<rparr> else None)"

lemma import_undoes_cleanup:
  "case import_spec 5 length brief empty_db of Inl _ \<Rightarrow> False
   | Inr d1 \<Rightarrow> (case optimize_images True calm tidy_pillow d1 uploads of
      (d2, n, st) \<Rightarrow>
        list_all (\<lambda>k. k = None \<or> ba_bucket st (the k) \<noteq> None) (pictures d2) \<and>
        (case import_spec 9 length brief d2 of Inl _ \<Rightarrow> False
         | Inr d3 \<Rightarrow> list_all (\<lambda>s. ser_poster_key s = Some (sp_poster_key brief)) (series_table d3) \<and> series_table d3 \<noteq> [] \<and>
             ba_bucket st (sp_poster_key brief) = None))"
  by code_simp

section \<open>Television channels\<close>

record channel_seed =
  sd_slug :: string
  sd_name :: string
  sd_description :: string
  sd_source_url :: string
  sd_sort_order :: int

definition mux_stream :: string where
  "mux_stream = ''https://test-streams.mux.dev/x36xhzz/x36xhzz.m3u8''"

definition longtail_stream :: string where
  "longtail_stream = ''https://playertest.longtailvideo.com/adaptive/wowzaid3/playlist.m3u8''"

definition channel_seeds :: "channel_seed list" where
  "channel_seeds =
     [\<lparr>sd_slug = ''tv9'', sd_name = ''TV9'', sd_description = ''TV9 HD live channel.'',
       sd_source_url = ''http://36.37.129.119:8083/CTV9HD_BKU2.m3u8'', sd_sort_order = 0\<rparr>,
      \<lparr>sd_slug = ''free-mix'', sd_name = ''Free Mix'', sd_description = ''Public free HLS demo channel.'',
       sd_source_url = mux_stream, sd_sort_order = 10\<rparr>,
      \<lparr>sd_slug = ''open-cinema'', sd_name = ''Open Cinema'', sd_description = ''Public Longtail HLS demo stream.'',
       sd_source_url = longtail_stream, sd_sort_order = 20\<rparr>,
      \<lparr>sd_slug = ''stream-lab'', sd_name = ''Stream Lab'', sd_description = ''Mux public HLS demo stream.'',
       sd_source_url = mux_stream, sd_sort_order = 30\<rparr>,
      \<lparr>sd_slug = ''night-owl'', sd_name = ''Night Owl'', sd_description = ''Public Longtail HLS demo stream.'',
       sd_source_url = longtail_stream, sd_sort_order = 40\<rparr>,
      \<lparr>sd_slug = ''plaza-live'', sd_name = ''Plaza Live'', sd_description = ''Mux public HLS demo stream.'',
       sd_source_url = mux_stream, sd_sort_order = 50\<rparr>]"

definition make_channel :: "datetime \<Rightarrow> (string \<Rightarrow> uuid) \<Rightarrow> channel_seed \<Rightarrow> channel_row" where
  "make_channel now fresh e =
     \<lparr>ch_id = fresh (slugify (sd_slug e)), ch_slug = slugify (sd_slug e), ch_name = sd_name e,
      ch_description = Some (sd_description e), ch_logo_key = None, ch_source_url = sd_source_url e, ch_hls_playback_url = None,
      ch_status = ''offline'', ch_status_error = None, ch_is_published = True, ch_is_free = True,
      ch_sort_order = sd_sort_order e, ch_created_at = now\<rparr>"

definition open_channel :: "channel_seed \<Rightarrow> channel_row \<Rightarrow> channel_row" where
  "open_channel e c = c\<lparr>ch_is_free := True, ch_is_published := True\<rparr>"

text \<open>The script without \<open>--start\<close>.\<close>

definition seed_tv_channels :: "datetime \<Rightarrow> (string \<Rightarrow> uuid) \<Rightarrow> db \<Rightarrow> db" where
  "seed_tv_channels now fresh d =
     d\<lparr>tv_channels := fold (upsert_row ch_slug (\<lambda>e. slugify (sd_slug e)) (make_channel now fresh) open_channel) channel_seeds (tv_channels d)\<rparr>"

interpretation seeded_channel: upsert ch_slug "\<lambda>e. slugify (sd_slug e)" "make_channel now fresh" open_channel
  by unfold_locales (simp_all add: make_channel_def open_channel_def)

lemma channel_seed_slugs: "distinct (map (\<lambda>e. slugify (sd_slug e)) channel_seeds)"
  by code_simp

lemma seed_tv_channels_again: "seed_tv_channels later fresh' (seed_tv_channels now fresh d) = seed_tv_channels now fresh d"
proof -
  have "fold (upsert_row ch_slug (\<lambda>e. slugify (sd_slug e)) (make_channel later fresh') open_channel) channel_seeds tab = tab"
    if "\<And>e. e \<in> set channel_seeds \<Longrightarrow> seeded_channel.entered e tab" for tab
    by (rule seeded_channel.run_unchanged [OF that])
  then show ?thesis
    using seeded_channel.run_enters [OF channel_seed_slugs] by (simp add: seed_tv_channels_def)
qed

text \<open>A channel an administrator hid or sold by subscription is opened by the next run.\<close>

lemma seeding_opens_channel:
  assumes "c \<in> set (tv_channels (seed_tv_channels now fresh d))" and "ch_slug c = ''tv9''"
  shows "ch_is_free c \<and> ch_is_published c"
proof -
  let ?e = "hd channel_seeds"
  have "?e \<in> set channel_seeds" by (simp add: channel_seeds_def)
  from seeded_channel.run_enters [OF channel_seed_slugs this]
  have "open_channel ?e c = c" if "ch_slug c = slugify (sd_slug ?e)"
    using assms(1) that by (auto simp: seeded_channel.entered_def seed_tv_channels_def)
  moreover have "slugify (sd_slug ?e) = ''tv9''" by code_simp
  ultimately have "open_channel ?e c = c" using assms(2) by simp
  then have "ch_is_free (open_channel ?e c) = ch_is_free c" "ch_is_published (open_channel ?e c) = ch_is_published c" by simp_all
  then show ?thesis by (simp add: open_channel_def)
qed

section \<open>Genres, prices, the first administrator\<close>

definition category_genres :: "string list" where
  "category_genres = [''Action'', ''Hollywood'', ''Horror'', ''Cartoon'', ''Love story'', ''Khmer'', ''Chinese'', ''Korean'', ''India'',
     ''Japan'', ''Indonesia'']"

definition seed_genres :: "(string \<Rightarrow> uuid) \<Rightarrow> db \<Rightarrow> db" where
  "seed_genres fresh d =
     (let existing = map (\<lambda>g. lower (strip (gen_name g))) (genre_table d);
          created = filter (\<lambda>name. lower name \<notin> set existing) category_genres
      in d\<lparr>genre_table := genre_table d @ map (\<lambda>name. \<lparr>gen_id = fresh name, gen_name = name\<rparr>) created\<rparr>)"

lemma category_genres_stripped: "list_all (\<lambda>name. strip name = name) category_genres"
  by code_simp

lemma seed_genres_again: "seed_genres fresh' (seed_genres fresh d) = seed_genres fresh d"
proof -
  have "lower n \<in> (\<lambda>g. lower (strip (gen_name g))) ` set (genre_table (seed_genres fresh d))" if "n \<in> set category_genres" for n
    using that category_genres_stripped
    by (cases "lower n \<in> (\<lambda>g. lower (strip (gen_name g))) ` set (genre_table d)") (force simp: seed_genres_def list_all_iff image_iff Let_def)+
  then have "filter (\<lambda>name. lower name \<notin> set (map (\<lambda>g. lower (strip (gen_name g))) (genre_table (seed_genres fresh d)))) category_genres = []"
    by (auto simp: filter_empty_conv)
  then show ?thesis unfolding seed_genres_def [of fresh' "seed_genres fresh d"] Let_def by simp
qed

definition paid_movie_price_usd :: decimal where
  "paid_movie_price_usd = 50 / 100"

definition seed_catalog_prices :: "db \<Rightarrow> db" where
  "seed_catalog_prices d =
     d\<lparr>contents := update_where (\<lambda>c. ct_type c = ''single'' \<and> \<not> ct_is_free c) (\<lambda>c. c\<lparr>ct_price_usd := Some paid_movie_price_usd\<rparr>) (contents d),
       series_table := update_where (\<lambda>_. True) (\<lambda>s. s\<lparr>ser_monthly_price_usd := 250 / 100\<rparr>) (series_table d)\<rparr>"

lemma seed_prices_checked:
  "\<forall>c \<in> set (contents d). content_check c \<Longrightarrow> \<forall>c \<in> set (contents (seed_catalog_prices d)). content_check c"
proof -
  have "content_check (c\<lparr>ct_price_usd := Some p\<rparr>)" if "content_check c" "ct_type c = ''single''" for c p
    using that by (simp add: content_check_def)
  then show "\<forall>c \<in> set (contents d). content_check c \<Longrightarrow> ?thesis"
    by (auto simp: seed_catalog_prices_def in_update_where)
qed

datatype seed_admin_result = Not_Configured | Short_Password | Already_There | Admin_Created uuid

definition seed_admin :: "(string \<Rightarrow> string) \<Rightarrow> datetime \<Rightarrow> uuid \<Rightarrow> string \<Rightarrow> string \<Rightarrow> string \<Rightarrow> db \<Rightarrow> seed_admin_result \<times> db" where
  "seed_admin hash_password now fresh env_email env_password env_name d =
     (let email = lower (strip env_email);
          name = (let n = strip env_name in if n = [] then ''Admin'' else n)
      in if email = [] \<or> env_password = [] then (Not_Configured, d)
         else if length env_password < 8 then (Short_Password, d)
         else if find_user_by_email email d \<noteq> None then (Already_There, d)
         else (Admin_Created fresh,
           d\<lparr>users := users d @ [\<lparr>user_id = fresh, user_email = email, user_password_hash = Some (hash_password env_password),
             user_google_id = None, user_telegram_id = None, user_apple_id = None, user_avatar_url = None,
             user_full_name = Some name, user_role = ''admin'', user_is_active = True, user_created_at = now\<rparr>]\<rparr>))"

text \<open>It never changes an account that is there, and what it adds may sign in to the console.\<close>

lemma seed_admin_adds:
  "snd (seed_admin h now fresh e p n d) = d \<or>
   (\<exists>u. snd (seed_admin h now fresh e p n d) = d\<lparr>users := users d @ [u]\<rparr> \<and> user_role u = ''admin'' \<and> user_is_active u \<and>
     8 \<le> length p \<and> (\<forall>v \<in> set (users d). user_email v \<noteq> user_email u))"
  by (auto simp: seed_admin_def Let_def find_user_by_email_def select_one_None)

end
