(* ===== verification/Outbound.thy ===== *)
theory Outbound
  imports Remote_Services Image_Process Playlists
begin

text \<open>
  What the service sends out and what it lets in by a shared secret: Telegram messages
  (\<open>app/services/telegram.py\<close>) and the registration of the bot's webhook
  (\<open>scripts/set_telegram_webhook.py\<close>), mail through Resend (\<open>app/services/email.py\<close>), uploads and
  download links (\<open>app/services/storage.py\<close>), the signature of a payment webhook
  (\<open>app/core/webhook_auth.py\<close>) and the key of the payment gateway (\<open>app/billing/router.py\<close>). The network,
  HMAC and the S3 signature are arguments; comparing in constant time is equality. A payload keeps its string
  fields; the texts' HTML is not modelled.
\<close>

record outbound =
  og_bot_token :: string
  og_chat_id :: string
  og_webhook_secret :: string
  og_api_public_url :: string
  og_resend_key :: string
  og_from_email :: string
  og_baray_secret :: string
  og_gateway_key :: string

section \<open>Telegram\<close>

definition bot_url :: "string \<Rightarrow> string \<Rightarrow> string" where
  "bot_url token verb = ''https://api.telegram.org/bot'' @ token @ ''/'' @ verb"

definition posted :: "http_call \<Rightarrow> network \<Rightarrow> bool" where
  "posted call net = (case net call of Answer n _ \<Rightarrow> is_success n | _ \<Rightarrow> False)"

definition message_call :: "outbound \<Rightarrow> string \<Rightarrow> http_call" where
  "message_call cfg body =
     \<lparr>hc_method = ''POST'', hc_url = bot_url (strip (og_bot_token cfg)) ''sendMessage'', hc_headers = [],
      hc_json = [(''chat_id'', strip (og_chat_id cfg)), (''text'', body), (''disable_web_page_preview'', ''true'')]\<rparr>"

text \<open>The requests made; a failed one is only logged.\<close>

definition send_telegram_message :: "outbound \<Rightarrow> string \<Rightarrow> http_call list" where
  "send_telegram_message cfg body =
     (if strip (og_bot_token cfg) = [] \<or> strip (og_chat_id cfg) = [] then [] else [message_call cfg body])"

definition call_bot_api :: "network \<Rightarrow> outbound \<Rightarrow> string \<Rightarrow> (string \<times> string) list \<Rightarrow> bool \<times> http_call list" where
  "call_bot_api net cfg verb payload =
     (let token = strip (og_bot_token cfg) in
      if token = [] then (False, [])
      else (let call = \<lparr>hc_method = ''POST'', hc_url = bot_url token verb, hc_headers = [], hc_json = payload\<rparr>
            in (posted call net, [call])))"

definition bot_api_ok :: "json option \<Rightarrow> bool" where
  "bot_api_ok body =
     (case body of Some (JObj kvs) \<Rightarrow> json_get JNull ''ok'' kvs \<notin> {JNull, JBool False, JNum 0, JStr [], JList [], JObj []} | _ \<Rightarrow> False)"

text \<open>The script's exit status: an exception nothing catches also ends it with 1.\<close>

definition set_telegram_webhook :: "network \<Rightarrow> outbound \<Rightarrow> string option \<Rightarrow> bool \<Rightarrow> nat" where
  "set_telegram_webhook net cfg api_arg info =
     (let token = strip (og_bot_token cfg); secret = strip (og_webhook_secret cfg);
          api_url = rstrip_char CHR ''/'' (strip (the (or_else api_arg (Some (og_api_public_url cfg)))))
      in if token = [] then 1
         else if info then
           (case net \<lparr>hc_method = ''GET'', hc_url = bot_url token ''getWebhookInfo'', hc_headers = [], hc_json = []\<rparr> of
              Answer n (Some _) \<Rightarrow> if is_success n then 0 else 1
            | _ \<Rightarrow> 1)
         else if secret = [] \<or> \<not> starts_with ''https://'' api_url then 1
         else
           (case net \<lparr>hc_method = ''POST'', hc_url = bot_url token ''setWebhook'', hc_headers = [],
                   hc_json = [(''url'', api_url @ ''/webhooks/telegram''), (''secret_token'', secret),
                     (''allowed_updates'', ''message,callback_query''), (''drop_pending_updates'', ''true'')]\<rparr> of
              Answer n (Some j) \<Rightarrow> if is_success n \<and> bot_api_ok (Some j) then 0 else 1
            | _ \<Rightarrow> 1))"

text \<open>The bot's token leaves only for Telegram.\<close>

lemma token_only_to_telegram:
  "c \<in> set (send_telegram_message cfg body) \<or> c \<in> set (snd (call_bot_api net cfg verb payload)) \<Longrightarrow>
   starts_with ''https://api.telegram.org/bot'' (hc_url c)"
  by (auto simp: send_telegram_message_def message_call_def call_bot_api_def bot_url_def Let_def starts_with_iff split: if_splits)

text \<open>Updates are only ever directed to an encrypted address, and with a secret the webhook then asks for.\<close>

lemma webhook_set_securely:
  assumes "set_telegram_webhook net cfg api_arg False = 0"
  shows "strip (og_webhook_secret cfg) \<noteq> [] \<and>
    starts_with ''https://'' (rstrip_char CHR ''/'' (strip (the (or_else api_arg (Some (og_api_public_url cfg))))))"
  using assms by (auto simp: set_telegram_webhook_def Let_def split: if_splits)

section \<open>Mail\<close>

definition send_email :: "outbound \<Rightarrow> string \<Rightarrow> string \<Rightarrow> string \<Rightarrow> string option \<Rightarrow> http_call list" where
  "send_email cfg to subject html plain =
     (if og_resend_key cfg = [] then []
      else [\<lparr>hc_method = ''POST'', hc_url = ''https://api.resend.com/emails'',
              hc_headers = [(''Authorization'', ''Bearer '' @ og_resend_key cfg)],
              hc_json = [(''from'', og_from_email cfg), (''to'', to), (''subject'', subject), (''html'', html)] @
                (if truthy plain then [(''text'', the plain)] else [])\<rparr>])"

definition newline :: string where
  "newline = [CHR 0x0A]"

definition reset_text :: "nat \<Rightarrow> string \<Rightarrow> string" where
  "reset_text expire link =
     ''Someone requested a password reset for your Reeltime account.'' @ newline @ newline @
     ''Reset your password: '' @ link @ newline @ newline @
     ''This link expires in '' @ string_of_nat expire @ '' minutes.'' @ newline @ newline @
     ''If you didn'' @ [CHR 0x27] @ ''t request this, you can safely ignore this email.''"

text \<open>\<open>shell\<close> is the HTML around the link.\<close>

definition send_password_reset_email ::
    "(nat \<Rightarrow> string \<Rightarrow> string) \<Rightarrow> outbound \<Rightarrow> nat \<Rightarrow> string \<Rightarrow> string \<Rightarrow> http_call list" where
  "send_password_reset_email shell cfg expire to link =
     send_email cfg to ''Reset your Reeltime password'' (shell expire link) (Some (reset_text expire link))"

lemma reset_mail_to_one:
  "c \<in> set (send_password_reset_email shell cfg expire to link) \<Longrightarrow>
   map snd (filter (\<lambda>(k, _). k = ''to'') (hc_json c)) = [to] \<and> starts_with ''https://api.resend.com/'' (hc_url c)"
  by (auto simp: send_password_reset_email_def send_email_def reset_text_def starts_with_iff split: if_splits)

section \<open>Object storage\<close>

text \<open>The cache header of an upload: what the caller says, even nothing, or else what the key suggests.\<close>

definition upload_cache_control :: "string option \<Rightarrow> string \<Rightarrow> string option" where
  "upload_cache_control cache_control key =
     (let resolved = (if cache_control \<noteq> None then cache_control else cache_control_for_key key)
      in if truthy resolved then resolved else None)"

definition put_object_bytes :: "string \<Rightarrow> blob \<Rightarrow> string \<Rightarrow> string option \<Rightarrow> bucket \<Rightarrow> bucket" where
  "put_object_bytes key body content_type cache_control s =
     s(key \<mapsto> \<lparr>ob_body = body, ob_type = content_type,
       ob_cache = (case upload_cache_control cache_control key of None \<Rightarrow> [] | Some c \<Rightarrow> c)\<rparr>)"

definition upload_fileobj :: "blob \<Rightarrow> string \<Rightarrow> string \<Rightarrow> bucket \<Rightarrow> bucket" where
  "upload_fileobj body key content_type = put_object_bytes key body content_type None"

lemma optimizer_stores_with_header: "put_object_bytes key body ''image/webp'' (Some image_cache_control) s = s(key \<mapsto> webp_object body)"
  by (simp add: put_object_bytes_def upload_cache_control_def webp_object_def image_cache_control_def)

definition header_filename :: "string \<Rightarrow> string" where
  "header_filename filename =
     (let safe = strip (filter (\<lambda>c. c \<notin> {CHR 0x22, CHR 0x0D, CHR 0x0A}) filename)
      in if safe = [] then ''download.bin'' else safe)"

text \<open>The parameters of a presigned download; the signature over them is an argument.\<close>

definition generate_presigned_download_url ::
    "((string \<times> string) list \<Rightarrow> int \<Rightarrow> string) \<Rightarrow> string \<Rightarrow> string \<Rightarrow> int \<Rightarrow> string option \<Rightarrow> string" where
  "generate_presigned_download_url sign storage_bucket key expires_in filename =
     sign ([(''Bucket'', storage_bucket), (''Key'', key)] @
       (if truthy filename
        then [(''ResponseContentDisposition'', ''attachment; filename='' @ [CHR 0x22] @ header_filename (the filename) @ [CHR 0x22])]
        else [])) expires_in"

lemma strip_subset: "set (strip s) \<subseteq> set s"
  by (auto simp: strip_def lstrip_def rstrip_def dest!: set_dropWhileD)

text \<open>A file name cannot leave its quotes or add a header.\<close>

lemma filename_stays_quoted:
  "header_filename f \<noteq> [] \<and> CHR 0x22 \<notin> set (header_filename f) \<and> CHR 0x0D \<notin> set (header_filename f) \<and> CHR 0x0A \<notin> set (header_filename f)"
proof -
  have "set (strip (filter (\<lambda>c. c \<notin> {CHR 0x22, CHR 0x0D, CHR 0x0A}) f)) \<inter> {CHR 0x22, CHR 0x0D, CHR 0x0A} = {}"
    using strip_subset by fastforce
  then show ?thesis by (auto simp: header_filename_def Let_def)
qed

section \<open>Shared secrets\<close>

definition extract_signature :: "(string \<Rightarrow> string option) \<Rightarrow> string option" where
  "extract_signature headers =
     map_option strip (first_row (List.map_filter (\<lambda>name. if truthy (headers name) then headers name else None)
       [''x-baray-signature'', ''x-webhook-signature'', ''x-signature'']))"

definition normalize_signature :: "string \<Rightarrow> string" where
  "normalize_signature value = (let v = strip value in if starts_with ''sha256='' v then List.drop 7 v else v)"

definition verify_baray_webhook ::
    "(string \<Rightarrow> string \<Rightarrow> string) \<Rightarrow> outbound \<Rightarrow> (string \<Rightarrow> string option) \<Rightarrow> string \<Rightarrow> string result" where
  "verify_baray_webhook hmac cfg headers body =
     (let secret = strip (og_baray_secret cfg) in
      if secret = [] then Inl (HTTPException 503 ''Webhook secret is not configured'')
      else (case extract_signature headers of
              None \<Rightarrow> Inl (HTTPException 401 ''Missing webhook signature'')
            | Some provided \<Rightarrow>
                if provided = [] then Inl (HTTPException 401 ''Missing webhook signature'')
                else if hmac secret body \<noteq> normalize_signature provided
                then Inl (HTTPException 401 ''Invalid webhook signature'')
                else Inr body))"

text \<open>A body is accepted only with the HMAC of the configured secret over that very body.\<close>

lemma webhook_authentic:
  assumes "verify_baray_webhook hmac cfg headers body = Inr b"
  shows "b = body \<and> strip (og_baray_secret cfg) \<noteq> [] \<and>
    (\<exists>sig. extract_signature headers = Some sig \<and> normalize_signature sig = hmac (strip (og_baray_secret cfg)) body)"
  using assms by (auto simp: verify_baray_webhook_def Let_def split: if_splits option.splits)

definition require_bakong_service_api_key :: "outbound \<Rightarrow> string option \<Rightarrow> unit result" where
  "require_bakong_service_api_key cfg x_api_key =
     (let expected = strip (og_gateway_key cfg); provided = strip (the (or_else x_api_key (Some [])))
      in if expected = [] then Inl (HTTPException 503 ''BAKONG_SERVICE_API_KEY is not configured'')
         else if provided = [] \<or> provided \<noteq> expected then Inl (HTTPException 401 ''Invalid or missing X-API-Key'')
         else Inr ())"

lemma gateway_key_required:
  "require_bakong_service_api_key cfg k = Inr () \<Longrightarrow> \<exists>v. k = Some v \<and> strip v = strip (og_gateway_key cfg) \<and> strip v \<noteq> []"
  by (cases k) (auto simp: require_bakong_service_api_key_def or_else_def Let_def split: if_splits)

definition bakong_webhook_reports_paid :: "bool \<Rightarrow> string option \<Rightarrow> bool" where
  "bakong_webhook_reports_paid paid reported \<longleftrightarrow>
     paid \<or> lower (strip (the (or_else reported (Some [])))) \<in> {''success'', ''succeeded'', ''paid'', ''completed''}"

end
