(* ===== verification/Public_Routes.thy ===== *)
theory Public_Routes
  imports Reports Config Checkout
begin

text \<open>
  The thin routes: those of \<open>app/routers/movies.py\<close>, \<open>series.py\<close>, \<open>favorites.py\<close> and
  \<open>admin/transcode.py\<close> that check a query and call a service of \<open>Listing\<close> or \<open>Reports\<close>, and those of
  \<open>app/billing/router.py\<close> and \<open>app/routers/webhooks.py\<close> that are switched off. \<open>None\<close> stands for the 422 with
  which FastAPI refuses parameters out of bounds. \<open>created\<close> gives the \<open>created_at\<close> of a row whose record
  leaves it out. The cookie's attributes (\<open>app/core/guest.py\<close>) decide whether a browser keeps a guest.
\<close>

section \<open>Lists\<close>

definition query_ok :: "nat \<Rightarrow> string option \<Rightarrow> bool" where
  "query_ok n q \<longleftrightarrow> (case q of None \<Rightarrow> True | Some s \<Rightarrow> length s \<le> n)"

definition list_movies ::
    "(content_row page \<Rightarrow> string) \<Rightarrow> (string \<Rightarrow> content_row page option) \<Rightarrow> bool \<Rightarrow> monotonic \<Rightarrow> nat \<Rightarrow>
     (content_row \<Rightarrow> string \<Rightarrow> bool) \<Rightarrow> string option \<Rightarrow> string option \<Rightarrow> bool option \<Rightarrow> nat \<Rightarrow> nat \<Rightarrow> db \<Rightarrow>
     content_row page catalog_cache \<Rightarrow> (content_row page \<times> content_row page catalog_cache) option" where
  "list_movies dumps loads up now w fts search genre free page page_size d s =
     (if valid_pagination page page_size \<and> query_ok 200 search \<and> query_ok 100 genre
      then Some (list_published_movies dumps loads up now w fts search genre free page page_size d s) else None)"

definition list_series ::
    "(series_view page \<Rightarrow> string) \<Rightarrow> (string \<Rightarrow> series_view page option) \<Rightarrow> bool \<Rightarrow> monotonic \<Rightarrow> nat \<Rightarrow>
     (series_row \<Rightarrow> string \<Rightarrow> bool) \<Rightarrow> string option \<Rightarrow> string option \<Rightarrow> bool option \<Rightarrow> bool option \<Rightarrow> nat \<Rightarrow> nat \<Rightarrow> db \<Rightarrow>
     series_view page catalog_cache \<Rightarrow> (series_view page \<times> series_view page catalog_cache) option" where
  "list_series dumps loads up now w fts search genre free short page page_size d s =
     (if valid_pagination page page_size \<and> query_ok 200 search \<and> query_ok 100 genre
      then Some (list_published_series dumps loads up now w fts search genre free short page page_size d s) else None)"

definition related_limit_ok :: "nat \<Rightarrow> bool" where
  "related_limit_ok n \<longleftrightarrow> 1 \<le> n \<and> n \<le> 24"

definition get_related_movies :: "string \<Rightarrow> nat \<Rightarrow> db \<Rightarrow> content_row list result option" where
  "get_related_movies slug limit d = (if related_limit_ok limit then Some (list_related_movies slug limit d) else None)"

definition get_related_series :: "string \<Rightarrow> nat \<Rightarrow> db \<Rightarrow> series_view list result option" where
  "get_related_series slug limit d = (if related_limit_ok limit then Some (list_related_series slug limit d) else None)"

text \<open>A signed-in visitor is never taken for the guest of the cookie.\<close>

definition get_movie :: "datetime \<Rightarrow> string \<Rightarrow> user_row option \<Rightarrow> string option \<Rightarrow> db \<Rightarrow> (content_row \<times> bool) result" where
  "get_movie now slug user cookie d = get_movie_detail now slug user (if user = None then cookie else None) d"

definition list_favorites :: "(favorite_row \<Rightarrow> datetime) \<Rightarrow> uuid \<Rightarrow> nat \<Rightarrow> nat \<Rightarrow> db \<Rightarrow> favorite_row page option" where
  "list_favorites created uid page page_size d =
     (if valid_pagination page page_size
      then (case paginate_query page page_size (order_by (\<lambda>f. - created f) (filter (\<lambda>f. fav_user_id f = uid) (favorites d))) of
              (items, found) \<Rightarrow> Some (build_paginated_response items found page page_size))
      else None)"

definition list_transcode_jobs :: "(uuid \<Rightarrow> datetime) \<Rightarrow> string option \<Rightarrow> nat \<Rightarrow> nat \<Rightarrow> db \<Rightarrow> job_view page option" where
  "list_transcode_jobs created status page page_size d =
     (if valid_pagination page page_size
      then (case paginate_query page page_size
               (order_by (\<lambda>j. - created (job_id j)) (filter (\<lambda>j. truthy status \<longrightarrow> Some (job_status j) = status) (transcode_jobs d))) of
              (rows, found) \<Rightarrow> Some (build_paginated_response (map (transcode_job_row d) rows) found page page_size))
      else None)"

definition get_part_url :: "(string \<Rightarrow> string \<Rightarrow> nat \<Rightarrow> string) \<Rightarrow> string \<Rightarrow> string \<Rightarrow> nat \<Rightarrow> string option" where
  "get_part_url sign source_key upload_id part =
     (if 1 \<le> part \<and> part \<le> 10000 then Some (sign source_key upload_id part) else None)"

section \<open>Payments\<close>

record intent_read =
  ir_intent :: intent_row
  ir_checkout_url :: "string option"

definition checkout_url :: "config \<Rightarrow> string \<Rightarrow> string" where
  "checkout_url cfg intent_id = rstrip_char CHR ''/'' (cf_baray_checkout_base_url cfg) @ ''/'' @ intent_id"

text \<open>The answer shows the intent's columns but for the fields of the QR.\<close>

definition read_payment_intent :: "config \<Rightarrow> intent_row \<Rightarrow> intent_read result" where
  "read_payment_intent cfg p =
     (if pi_method p = ''baray''
      then (case validate_checkout_url cfg (checkout_url cfg (pi_intent_id p)) of
              Inl e \<Rightarrow> Inl e | Inr u \<Rightarrow> Inr \<lparr>ir_intent = p, ir_checkout_url = Some u\<rparr>)
      else Inr \<lparr>ir_intent = p, ir_checkout_url = None\<rparr>)"

definition get_catalog_pricing :: "decimal \<times> decimal" where
  "get_catalog_pricing = (series_unlock_price_usd, min_paid_usd)"

definition create_movie_payment_intent :: "'request \<Rightarrow> unit result" where
  "create_movie_payment_intent request = Inl (HTTPException 503 ''Baray checkout is disabled'')"

definition create_series_subscription_payment_intent :: "'request \<Rightarrow> unit result" where
  "create_series_subscription_payment_intent request = Inl (HTTPException 503 ''Baray checkout is disabled'')"

definition list_pending_bakong_payments :: "'request \<Rightarrow> unit result" where
  "list_pending_bakong_payments request =
     Inl (HTTPException 503 ''Bakong pending feed disabled (no bank-credit / watcher settle)'')"

definition bakong_payment_webhook :: "'request \<Rightarrow> unit result" where
  "bakong_payment_webhook request = Inl (HTTPException 503 ''Bakong webhook settle disabled (no bank-credit integration)'')"

definition baray_webhook :: "'request \<Rightarrow> unit result" where
  "baray_webhook request = Inl (HTTPException 503 ''Baray webhooks are disabled'')"

section \<open>The guest cookie\<close>

record cookie =
  ck_value :: string
  ck_max_age :: int
  ck_secure :: bool
  ck_same_site :: string

definition cookie_kwargs :: "bool \<Rightarrow> bool \<times> string" where
  "cookie_kwargs debug_mode = (if debug_mode then (False, ''lax'') else (True, ''none''))"

text \<open>The cookie set along with the identity, if the request had none.\<close>

definition guest_cookie :: "bool \<Rightarrow> string option \<Rightarrow> string \<Rightarrow> cookie option" where
  "guest_cookie debug_mode sent fresh =
     (if truthy sent then None
      else (case cookie_kwargs debug_mode of (secure, site) \<Rightarrow>
        Some \<lparr>ck_value = fresh, ck_max_age = 60 * 60 * 24 * 365 * 2, ck_secure = secure, ck_same_site = site\<rparr>))"

section \<open>What they guarantee\<close>

lemma related_bounded: "length (related rid gs created listed limit self rows) \<le> limit"
proof -
  have two: "length (take limit xs @ take (limit - length (take limit xs)) ys) \<le> limit" for xs ys :: "'a list" by simp
  have one: "length (take limit xs) \<le> limit" for xs :: "'a list" by simp
  show ?thesis unfolding related_def Let_def using two one by (simp only: split: if_split) blast
qed

lemma related_answers_bounded:
  "get_related_movies slug limit d = Some (Inr ms) \<Longrightarrow> length ms \<le> 24"
  "get_related_series slug limit d = Some (Inr vs) \<Longrightarrow> length vs \<le> 24"
  using related_bounded
  by (auto simp: get_related_movies_def get_related_series_def related_limit_ok_def list_related_movies_def
      list_related_series_def related_movies_def related_series_def split: if_splits option.splits sum.splits
      intro: order_trans [OF related_bounded])

lemma pages_bounded:
  "valid_pagination page page_size \<Longrightarrow> length (pg_items (movies_page fts search genre free page page_size d)) \<le> 100"
  by (auto simp: movies_page_def paginate_query_def build_paginated_response_def valid_pagination_def min_def)

lemma favorites_are_own:
  assumes "list_favorites created uid page page_size d = Some p"
  shows "(\<forall>f \<in> set (pg_items p). fav_user_id f = uid) \<and> pg_total p = count_rows (\<lambda>f. fav_user_id f = uid) (favorites d)"
  using assms
  by (auto simp: list_favorites_def paginate_query_def build_paginated_response_def count_rows_def split: if_splits
      dest!: in_set_takeD in_set_dropD)

lemma jobs_filtered:
  assumes "list_transcode_jobs created (Some status) page page_size d = Some p" and "status \<noteq> []"
  shows "\<forall>v \<in> set (pg_items p). job_status (jv_job v) = status"
  using assms
  by (auto simp: list_transcode_jobs_def paginate_query_def build_paginated_response_def transcode_job_row_def Let_def
      split: if_splits dest!: in_set_takeD in_set_dropD)

text \<open>Whoever made the address of a Baray intent, it only leads to the configured checkout host.\<close>

lemma checkout_leads_home:
  assumes "read_payment_intent cfg p = Inr r" and "ir_checkout_url r = Some u"
  shows "starts_with (rstrip_char CHR ''/'' (cf_baray_checkout_base_url cfg) @ ''/'') u"
  using assms by (auto simp: read_payment_intent_def validate_checkout_url_def split: if_splits sum.splits)

text \<open>The identity a purchase is made under is the one the cookie then holds, and an existing one is kept.\<close>

lemma guest_cookie_matches:
  "(case guest_cookie debug_mode sent fresh of None \<Rightarrow> sent | Some c \<Rightarrow> Some (ck_value c)) = Some (get_or_create_guest_id sent fresh)"
  by (cases sent) (auto simp: guest_cookie_def cookie_kwargs_def get_or_create_guest_id_def split: prod.split)

end
