(* ===== verification/Artwork_Import.thy ===== *)
theory Artwork_Import
  imports Artwork_Batch Home_Rails Outbound
begin

text \<open>
  The scripts that fetch artwork from the web: \<open>seed/seed_missing_artwork.py\<close> fills the posters and banners
  films lack, \<open>seed/seed_coming_soon.py\<close> adds drafts to the Coming Soon list. What the web answers, the
  guesses of \<open>mimetypes\<close>, the random part of a key and the outcome of storage calls are fields of \<open>web\<close>, by
  address, by key or by slug. A call that raises what nothing catches ends the script before its commit:
  \<open>None\<close>, with the bucket as it is by then.
\<close>

datatype page_answer =
    Page_Image string
  | Page_No_Image
  | Page_Error

record web =
  web_download :: "string \<Rightarrow> (blob \<times> string option) option"
  web_guess :: "string \<Rightarrow> string option"
  web_wikipedia :: "string \<Rightarrow> page_answer"
  web_reachable :: "string \<Rightarrow> bool"
  web_token :: "string \<Rightarrow> string"
  web_put :: "string \<Rightarrow> call_result"
  web_calls :: "string \<Rightarrow> calls"
  web_head :: "string \<Rightarrow> bool"
  web_pillow :: pillow

section \<open>One picture\<close>

definition guess_content_type :: "(string \<Rightarrow> string option) \<Rightarrow> string \<Rightarrow> string option \<Rightarrow> string" where
  "guess_content_type guess url header =
     (let ctype = lower (strip (takeWhile (\<lambda>c. c \<noteq> CHR '';'') (the (or_else header (Some []))))) in
      if truthy header \<and> starts_with ''image/'' ctype
      then (if ctype \<in> {''image/jpg'', ''image/pjpeg''} then ''image/jpeg'' else ctype)
      else (case guess url of Some g \<Rightarrow> if starts_with ''image/'' g then g else ''image/jpeg'' | None \<Rightarrow> ''image/jpeg''))"

text \<open>The bytes and their type; \<open>None\<close> for an error of the network or an empty body.\<close>

definition download_image :: "web \<Rightarrow> string \<Rightarrow> (blob \<times> string) option" where
  "download_image w url =
     (case web_download w url of
        None \<Rightarrow> None
      | Some (body, header) \<Rightarrow> if body = [] then None else Some (body, guess_content_type (web_guess w) url header))"

datatype 'a ingest = Got 'a | Skipped | Raised

definition raw_key :: "web \<Rightarrow> image_kind \<Rightarrow> string \<Rightarrow> string \<Rightarrow> string" where
  "raw_key w kind slug ctype =
     (case kind of Poster \<Rightarrow> movie_poster_key (web_token w slug) slug ctype | Banner \<Rightarrow> movie_banner_key (web_token w slug) slug ctype)"

text \<open>A failed download is skipped; a refused upload is an error of the SDK that nothing catches.\<close>

definition upload_kind :: "web \<Rightarrow> image_kind \<Rightarrow> string \<Rightarrow> string \<Rightarrow> bucket \<Rightarrow> string ingest \<times> bucket" where
  "upload_kind w kind slug source s =
     (case download_image w source of
        None \<Rightarrow> (Skipped, s)
      | Some (body, ctype) \<Rightarrow>
          (let key = raw_key w kind slug ctype in
           case perform (web_put w key) (put_object_bytes key body ctype None) s of
             (False, s1) \<Rightarrow> (Raised, s1)
           | (True, s1) \<Rightarrow>
               (case optimize_r2_image (web_calls w key) (web_pillow w) kind (Some key) s1 of
                  (r, s2) \<Rightarrow> (Got (the (or_else r (Some key))), s2))))"

section \<open>Missing artwork\<close>

definition is_missing_key :: "string option \<Rightarrow> bool" where
  "is_missing_key key =
     (case key of
        None \<Rightarrow> True
      | Some k \<Rightarrow> (let s = strip k in
          s = [] \<or> starts_with ''http://'' s \<or> starts_with ''https://'' s \<or> contains ''sample_images'' s))"

definition wiki_pages :: "string \<Rightarrow> string option" where
  "wiki_pages = [''hitman-agent-jun-2020'' \<mapsto> ''Hitman:_Agent_Jun'', ''tune-in-for-love-2019'' \<mapsto> ''Tune_in_for_Love'',
     ''spider-verse-brand-new-day'' \<mapsto> ''Spider-Man:_Brand_New_Day'']"

definition trailer_urls :: "string \<Rightarrow> string option" where
  "trailer_urls = [''spider-verse-brand-new-day'' \<mapsto> ''https://www.youtube.com/watch?v=wpCvXR406N4'']"

definition fill_poster :: "web \<Rightarrow> content_row \<Rightarrow> bucket \<Rightarrow> content_row option \<times> bucket" where
  "fill_poster w m s =
     (if \<not> is_missing_key (ct_poster_key m) then (Some m, s)
      else (case wiki_pages (ct_slug m) of
         None \<Rightarrow> (Some m, s)
       | Some page \<Rightarrow>
           (case web_wikipedia w page of
              Page_Error \<Rightarrow> (None, s)
            | Page_No_Image \<Rightarrow> (Some m, s)
            | Page_Image source \<Rightarrow>
                (case upload_kind w Poster (ct_slug m) source s of
                   (Got key, s1) \<Rightarrow> (Some (m\<lparr>ct_poster_key := Some key\<rparr>), s1)
                 | (Skipped, s1) \<Rightarrow> (Some m, s1)
                 | (Raised, s1) \<Rightarrow> (None, s1)))))"

text \<open>The id of a YouTube video: eleven characters after one of three prefixes, the first match.\<close>

definition is_video_char :: "char \<Rightarrow> bool" where
  "is_video_char c \<longleftrightarrow> c \<in> set ''ABCDEFGHIJKLMNOPQRSTUVWXYZabcdefghijklmnopqrstuvwxyz0123456789_-''"

definition video_at :: "string \<Rightarrow> string option" where
  "video_at s =
     (case filter (\<lambda>p. starts_with p s) [''youtube.com/watch?v='', ''youtu.be/'', ''youtube.com/embed/''] of
        [] \<Rightarrow> None
      | p # _ \<Rightarrow> (let v = take 11 (List.drop (length p) s) in
          if length v = 11 \<and> list_all is_video_char v then Some v else None))"

fun youtube_search :: "string \<Rightarrow> string option" where
  "youtube_search [] = None"
| "youtube_search (c # cs) = (case video_at (c # cs) of Some v \<Rightarrow> Some v | None \<Rightarrow> youtube_search cs)"

definition youtube_id :: "string option \<Rightarrow> string option" where
  "youtube_id url = (if truthy url then youtube_search (the url) else None)"

definition youtube_still_url :: "web \<Rightarrow> string \<Rightarrow> string option" where
  "youtube_still_url w v =
     first_row (filter (web_reachable w) (map (\<lambda>name. ''https://i.ytimg.com/vi/'' @ v @ ''/'' @ name @ ''.jpg'')
       [''maxresdefault'', ''sddefault'', ''hqdefault'']))"

definition fill_banner :: "web \<Rightarrow> content_row \<Rightarrow> bucket \<Rightarrow> content_row option \<times> bucket" where
  "fill_banner w m s =
     (if \<not> is_missing_key (ct_banner_key m) then (Some m, s)
      else (case Option.bind (youtube_id (ct_trailer_url m)) (youtube_still_url w) of
         None \<Rightarrow> (Some m, s)
       | Some source \<Rightarrow>
           (case upload_kind w Banner (ct_slug m) source s of
              (Got key, s1) \<Rightarrow> (Some (m\<lparr>ct_banner_key := Some key\<rparr>), s1)
            | (Skipped, s1) \<Rightarrow> (Some m, s1)
            | (Raised, s1) \<Rightarrow> (None, s1))))"

definition fill_movie :: "web \<Rightarrow> content_row \<Rightarrow> bucket \<Rightarrow> content_row option \<times> bucket" where
  "fill_movie w m s =
     (if \<not> is_missing_key (ct_poster_key m) \<and> \<not> is_missing_key (ct_banner_key m) then (Some m, s)
      else
       (let m0 = (if \<not> truthy (ct_trailer_url m) \<and> trailer_urls (ct_slug m) \<noteq> None
                  then m\<lparr>ct_trailer_url := trailer_urls (ct_slug m)\<rparr> else m)
        in case fill_poster w m0 s of
             (None, s1) \<Rightarrow> (None, s1)
           | (Some m1, s1) \<Rightarrow> fill_banner w m1 s1))"

fun fill_all_movies :: "web \<Rightarrow> content_row list \<Rightarrow> bucket \<Rightarrow> content_row list option \<times> bucket" where
  "fill_all_movies w [] s = (Some [], s)"
| "fill_all_movies w (m # ms) s =
     (case fill_movie w m s of
        (None, s1) \<Rightarrow> (None, s1)
      | (Some m1, s1) \<Rightarrow>
          (case fill_all_movies w ms s1 of (None, s2) \<Rightarrow> (None, s2) | (Some ms1, s2) \<Rightarrow> (Some (m1 # ms1), s2)))"

text \<open>The films are taken in the order of their titles; \<open>None\<close> leaves the database as it was.\<close>

definition seed_missing_artwork :: "web \<Rightarrow> (string \<Rightarrow> int) \<Rightarrow> db \<Rightarrow> bucket \<Rightarrow> db \<times> bucket" where
  "seed_missing_artwork w collate d s =
     (case fill_all_movies w (order_by (\<lambda>c. collate (ct_title c)) (filter (\<lambda>c. ct_type c = ''single'') (contents d))) s of
        (None, s1) \<Rightarrow> (d, s1)
      | (Some ms, s1) \<Rightarrow>
          (d\<lparr>contents := map (\<lambda>c. case select_one (\<lambda>m. ct_id m = ct_id c) ms of None \<Rightarrow> c | Some m \<Rightarrow> m) (contents d)\<rparr>, s1))"

lemma optimized_key_cases:
  assumes "optimize_r2_image cs pil kind (Some key) s = (r, s')"
  shows "r \<in> {Some key, Some (webp_key_for key)}"
  using assms
  by (auto simp: optimize_r2_image_def optimize_r2_image_sync_def split: if_splits option.splits prod.splits dest!: store_main_ok)

text \<open>A new picture of a film lies under the film's own directory.\<close>

definition own_picture :: "string \<Rightarrow> string \<Rightarrow> bool" where
  "own_picture slug key \<longleftrightarrow> (\<exists>leaf. key = movie_dir slug @ ''/'' @ leaf)"

lemma webp_in_directory:
  assumes "CHR ''/'' \<notin> set leaf"
  shows "\<exists>leaf'. webp_key_for (dir @ ''/'' @ leaf) = dir @ ''/'' @ leaf'"
proof -
  obtain base ext where s: "splitext (dir @ ''/'' @ leaf) = (base, ext)" by (cases "splitext (dir @ ''/'' @ leaf)")
  have j: "dir @ ''/'' @ leaf = base @ ext" by (rule splitext_join [OF s])
  have "length (dir @ ''/'') \<le> length base"
  proof (rule ccontr)
    assume "\<not> ?thesis"
    then have "length base \<le> length dir" by simp
    moreover have "ext = List.drop (length base) (dir @ ''/'' @ leaf)" using j by simp
    ultimately have "CHR ''/'' \<in> set ext" by simp
    then show False using splitext_ext [OF s] by blast
  qed
  then have "take (length (dir @ ''/'')) base = dir @ ''/''" using arg_cong [OF j, of "take (length (dir @ ''/''))"] by simp
  then have "base = dir @ ''/'' @ List.drop (length (dir @ ''/'')) base"
    by (metis append.assoc append_take_drop_id)
  then show ?thesis using s by (metis append.assoc fst_conv webp_key_for_def)
qed

lemma poster_extension_plain: "CHR ''/'' \<notin> set (poster_extension ctype)"
  by (auto simp: poster_extension_def poster_ext_def get_or_def split: option.splits if_splits)

lemma uploaded_in_directory:
  assumes "upload_kind w kind slug source s = (Got key, s')" and "CHR ''/'' \<notin> set (web_token w slug)"
  shows "own_picture slug key"
proof -
  obtain body ctype s1 r s2 where u: "optimize_r2_image (web_calls w (raw_key w kind slug ctype)) (web_pillow w) kind (Some (raw_key w kind slug ctype)) s1 = (r, s2)"
      "key = the (or_else r (Some (raw_key w kind slug ctype)))"
    using assms(1) by (auto simp: upload_kind_def Let_def split: option.splits prod.splits bool.splits)
  obtain leaf where leaf: "raw_key w kind slug ctype = movie_dir slug @ ''/'' @ leaf" "CHR ''/'' \<notin> set leaf"
    using assms(2) poster_extension_plain [of ctype]
    by (cases kind) (auto simp: raw_key_def movie_poster_key_def movie_banner_key_def image_filename_def dest!: in_set_takeD)
  have "key \<in> {raw_key w kind slug ctype, webp_key_for (raw_key w kind slug ctype)}"
    using optimized_key_cases [OF u(1)] u(2) by (auto simp: or_else_def)
  then show ?thesis using leaf webp_in_directory [OF leaf(2), of "movie_dir slug"] by (auto simp: own_picture_def)
qed

definition gap_filled :: "content_row \<Rightarrow> content_row \<Rightarrow> bool" where
  "gap_filled m m' \<longleftrightarrow>
     m' = m\<lparr>ct_poster_key := ct_poster_key m', ct_banner_key := ct_banner_key m', ct_trailer_url := ct_trailer_url m'\<rparr> \<and>
     (ct_poster_key m' = ct_poster_key m \<or> is_missing_key (ct_poster_key m) \<and> (\<exists>k. ct_poster_key m' = Some k \<and> own_picture (ct_slug m) k)) \<and>
     (ct_banner_key m' = ct_banner_key m \<or> is_missing_key (ct_banner_key m) \<and> (\<exists>k. ct_banner_key m' = Some k \<and> own_picture (ct_slug m) k)) \<and>
     (ct_trailer_url m' = ct_trailer_url m \<or> \<not> truthy (ct_trailer_url m) \<and> ct_trailer_url m' = trailer_urls (ct_slug m))"

lemma fill_poster_gap:
  assumes "fill_poster w m s = (Some m', s')" and "CHR ''/'' \<notin> set (web_token w (ct_slug m))"
  obtains x where "m' = m\<lparr>ct_poster_key := x\<rparr>"
    and "x = ct_poster_key m \<or> is_missing_key (ct_poster_key m) \<and> (\<exists>k. x = Some k \<and> own_picture (ct_slug m) k)"
proof -
  have "m' = m \<or> (\<exists>k. m' = m\<lparr>ct_poster_key := Some k\<rparr> \<and> is_missing_key (ct_poster_key m) \<and> own_picture (ct_slug m) k)"
    using assms by (auto simp: fill_poster_def split: if_splits option.splits page_answer.splits prod.splits ingest.splits dest: uploaded_in_directory)
  then consider "m' = m" | k where "m' = m\<lparr>ct_poster_key := Some k\<rparr>" "is_missing_key (ct_poster_key m)" "own_picture (ct_slug m) k" by blast
  then show thesis
  proof cases
    case 1
    then show thesis by (intro that [of "ct_poster_key m"]) simp_all
  next
    case 2
    then show thesis by (intro that [of "Some k"]) simp_all
  qed
qed

lemma fill_banner_gap:
  assumes "fill_banner w m s = (Some m', s')" and "CHR ''/'' \<notin> set (web_token w (ct_slug m))"
  obtains y where "m' = m\<lparr>ct_banner_key := y\<rparr>"
    and "y = ct_banner_key m \<or> is_missing_key (ct_banner_key m) \<and> (\<exists>k. y = Some k \<and> own_picture (ct_slug m) k)"
proof -
  have "m' = m \<or> (\<exists>k. m' = m\<lparr>ct_banner_key := Some k\<rparr> \<and> is_missing_key (ct_banner_key m) \<and> own_picture (ct_slug m) k)"
    using assms by (auto simp: fill_banner_def split: if_splits option.splits prod.splits ingest.splits dest: uploaded_in_directory)
  then consider "m' = m" | k where "m' = m\<lparr>ct_banner_key := Some k\<rparr>" "is_missing_key (ct_banner_key m)" "own_picture (ct_slug m) k" by blast
  then show thesis
  proof cases
    case 1
    then show thesis by (intro that [of "ct_banner_key m"]) simp_all
  next
    case 2
    then show thesis by (intro that [of "Some k"]) simp_all
  qed
qed

lemma gap_filled_refl: "gap_filled m m"
  by (simp add: gap_filled_def)

lemma gap_filled_id: "gap_filled m m' \<Longrightarrow> ct_id m' = ct_id m"
  unfolding gap_filled_def by (drule conjunct1, drule arg_cong [of _ _ ct_id]) simp

lemma fill_movie_gap:
  assumes run: "fill_movie w m s = (Some m', s')" and tok: "CHR ''/'' \<notin> set (web_token w (ct_slug m))"
  shows "gap_filled m m'"
proof (cases "is_missing_key (ct_poster_key m) \<or> is_missing_key (ct_banner_key m)")
  case False
  then show ?thesis using run by (simp add: fill_movie_def gap_filled_refl)
next
  case True
  let ?m0 = "if \<not> truthy (ct_trailer_url m) \<and> trailer_urls (ct_slug m) \<noteq> None then m\<lparr>ct_trailer_url := trailer_urls (ct_slug m)\<rparr> else m"
  obtain m1 s1 where p: "fill_poster w ?m0 s = (Some m1, s1)" "fill_banner w m1 s1 = (Some m', s')"
    using run True by (auto simp: fill_movie_def Let_def split: prod.splits option.splits)
  have tok0: "CHR ''/'' \<notin> set (web_token w (ct_slug ?m0))" using tok by simp
  obtain x where x: "m1 = ?m0\<lparr>ct_poster_key := x\<rparr>"
      "x = ct_poster_key ?m0 \<or> is_missing_key (ct_poster_key ?m0) \<and> (\<exists>k. x = Some k \<and> own_picture (ct_slug ?m0) k)"
    by (rule fill_poster_gap [OF p(1) tok0])
  have tok1: "CHR ''/'' \<notin> set (web_token w (ct_slug m1))" using tok0 by (simp add: x(1))
  obtain y where y: "m' = m1\<lparr>ct_banner_key := y\<rparr>"
      "y = ct_banner_key m1 \<or> is_missing_key (ct_banner_key m1) \<and> (\<exists>k. y = Some k \<and> own_picture (ct_slug m1) k)"
    by (rule fill_banner_gap [OF p(2) tok1])
  show ?thesis
    using x(2) y(2) unfolding y(1) x(1) gap_filled_def by (simp split: if_splits)
qed

lemma fill_all_gaps:
  "fill_all_movies w ms s = (Some ms', s') \<Longrightarrow> (\<And>m. m \<in> set ms \<Longrightarrow> CHR ''/'' \<notin> set (web_token w (ct_slug m))) \<Longrightarrow>
   list_all2 gap_filled ms ms'"
proof (induction ms arbitrary: s ms')
  case (Cons m ms)
  then show ?case by (fastforce split: prod.splits option.splits intro: fill_movie_gap)
qed simp

lemma partner: "list_all2 P xs ys \<Longrightarrow> y \<in> set ys \<Longrightarrow> \<exists>x \<in> set xs. P x y"
  by (induction rule: list_all2_induct) auto

text \<open>
  The script only fills gaps: films that have a picture keep it, a new picture lies under the film's own
  directory, a trailer is only set where there was none, and nothing else changes, in whatever way the web and
  the store answer.
\<close>

theorem artwork_only_fills_gaps:
  assumes "\<And>slug. CHR ''/'' \<notin> set (web_token w slug)" and "seed_missing_artwork w collate d s = (d', s')"
    and ids: "distinct (map ct_id (contents d))"
  shows "list_all2 gap_filled (contents d) (contents d') \<and> d' = d\<lparr>contents := contents d'\<rparr>"
proof (cases "fill_all_movies w (order_by (\<lambda>c. collate (ct_title c)) (filter (\<lambda>c. ct_type c = ''single'') (contents d))) s")
  case (Pair r s1)
  show ?thesis
  proof (cases r)
    case None
    then show ?thesis using assms(2) Pair by (auto simp: seed_missing_artwork_def gap_filled_refl list_all2_refl)
  next
    case (Some ms)
    let ?old = "order_by (\<lambda>c. collate (ct_title c)) (filter (\<lambda>c. ct_type c = ''single'') (contents d))"
    have gaps: "list_all2 gap_filled ?old ms" by (rule fill_all_gaps [OF Pair [unfolded Some] assms(1)])
    have d': "d' = d\<lparr>contents := map (\<lambda>c. case select_one (\<lambda>m. ct_id m = ct_id c) ms of None \<Rightarrow> c | Some m \<Rightarrow> m) (contents d)\<rparr>"
      using assms(2) Pair Some by (simp add: seed_missing_artwork_def)
    have "gap_filled c (case select_one (\<lambda>m. ct_id m = ct_id c) ms of None \<Rightarrow> c | Some m \<Rightarrow> m)" if c: "c \<in> set (contents d)" for c
    proof (cases "select_one (\<lambda>m. ct_id m = ct_id c) ms")
      case (Some m)
      then have m: "m \<in> set ms" "ct_id m = ct_id c" using select_one_Some [OF Some] by simp_all
      then obtain m0 where m0: "m0 \<in> set ?old" "gap_filled m0 m"
        using partner [OF gaps] by blast
      have "m0 \<in> set (contents d)" using m0(1) by simp
      moreover have "ct_id m0 = ct_id c" using gap_filled_id [OF m0(2)] m(2) by simp
      ultimately have "m0 = c" using ids c by (metis distinct_map inj_onD)
      then show ?thesis using m0(2) Some by simp
    qed (simp add: gap_filled_refl)
    then show ?thesis unfolding d' by (simp add: list_all2_conv_all_nth)
  qed
qed

text \<open>
  A page of Wikipedia that cannot be fetched raises an error the script does not catch (it only expects
  \<open>RuntimeError\<close>): the pictures stored before stay in the bucket, and no row learns of them.
\<close>

definition odd_web :: web where
  "odd_web = \<lparr>web_download = (\<lambda>_. Some (''raw'', Some ''image/png'')), web_guess = (\<lambda>_. None),
     web_wikipedia = (\<lambda>p. if p = ''Tune_in_for_Love'' then Page_Error else Page_Image ''https://upload''),
     web_reachable = (\<lambda>_. False), web_token = (\<lambda>_. ''abc''), web_put = (\<lambda>_. Done), web_calls = (\<lambda>_. all_done),
     web_head = (\<lambda>_. True), web_pillow = tidy_pillow\<rparr>"

definition bare_film :: "uuid \<Rightarrow> string \<Rightarrow> content_row" where
  "bare_film i slug = default_content\<lparr>ct_id := i, ct_slug := slug, ct_title := slug\<rparr>"

lemma page_error_loses_run:
  "case seed_missing_artwork odd_web (\<lambda>t. - int (length t))
      (empty_db\<lparr>contents := [bare_film 1 ''hitman-agent-jun-2020'', bare_film 2 ''tune-in-for-love-2019'']\<rparr>) Map.empty of
     (d', s') \<Rightarrow> map ct_poster_key (contents d') = [None, None] \<and> s' ''movies/hitman-agent-jun-2020/poster-abc.webp'' \<noteq> None"
  by code_simp

section \<open>Coming Soon drafts\<close>

record coming_entry =
  ce_slug :: string
  ce_title :: string
  ce_description :: string
  ce_genres :: "string list"
  ce_release_year :: int
  ce_runtime :: "string option"
  ce_poster_source_url :: string
  ce_trailer_url :: "string option"
  ce_price_usd :: decimal

definition is_external_poster :: "string option \<Rightarrow> bool" where
  "is_external_poster key \<longleftrightarrow> \<not> truthy key \<or> starts_with ''http://'' (the key) \<or> starts_with ''https://'' (the key)"

definition ensure_r2_poster :: "web \<Rightarrow> content_row \<Rightarrow> string \<Rightarrow> bucket \<Rightarrow> content_row ingest \<times> bucket" where
  "ensure_r2_poster w m source s =
     (if truthy (ct_poster_key m) \<and> \<not> is_external_poster (ct_poster_key m) \<and>
         web_head w (the (ct_poster_key m)) \<and> s (the (ct_poster_key m)) \<noteq> None
      then (Got m, s)
      else if source = [] then (Got m, s)
      else (case upload_kind w Poster (ct_slug m) source s of
              (Got key, s1) \<Rightarrow> (Got (m\<lparr>ct_poster_key := Some key\<rparr>), s1)
            | (Skipped, s1) \<Rightarrow> (Skipped, s1)
            | (Raised, s1) \<Rightarrow> (Raised, s1)))"

definition coming_draft :: "datetime \<Rightarrow> uuid \<Rightarrow> coming_entry \<Rightarrow> content_row" where
  "coming_draft now fresh e =
     default_content\<lparr>ct_id := fresh, ct_type := ''single'', ct_slug := ce_slug e, ct_title := ce_title e,
       ct_description := Some (ce_description e), ct_genres := ce_genres e, ct_release_year := Some (ce_release_year e),
       ct_runtime := ce_runtime e, ct_trailer_url := ce_trailer_url e, ct_price_usd := Some (ce_price_usd e),
       ct_created_at := now\<rparr>"

text \<open>The film of an entry, brought up to date or added; a film already there is found by its slug alone.\<close>

definition seed_film :: "web \<Rightarrow> datetime \<Rightarrow> (string \<Rightarrow> uuid) \<Rightarrow> coming_entry \<Rightarrow> db \<Rightarrow> bucket \<Rightarrow> (content_row \<times> db) option \<times> bucket" where
  "seed_film w now fresh e d s =
     (let start = (case select_one (\<lambda>c. ct_slug c = ce_slug e) (contents d) of
             Some c \<Rightarrow> (if \<not> truthy (ct_trailer_url c) \<and> truthy (ce_trailer_url e) then c\<lparr>ct_trailer_url := ce_trailer_url e\<rparr> else c,
                d)
           | None \<Rightarrow> (coming_draft now (fresh (ce_slug e)) e, d\<lparr>contents := contents d @ [coming_draft now (fresh (ce_slug e)) e]\<rparr>))
      in case start of
           (c, d1) \<Rightarrow>
             (case ensure_r2_poster w c (ce_poster_source_url e) s of
                (Raised, s1) \<Rightarrow> (None, s1)
              | (Skipped, s1) \<Rightarrow> (Some (c, put_content c d1), s1)
              | (Got c1, s1) \<Rightarrow> (Some (c1, put_content c1 d1), s1)))"

record rail_room =
  ra_slots :: nat
  ra_next :: int

definition seed_slot :: "datetime \<Rightarrow> (string \<Rightarrow> uuid) \<Rightarrow> content_row \<Rightarrow> db \<Rightarrow> rail_room \<Rightarrow> db \<times> rail_room" where
  "seed_slot now fresh c d r =
     (if exists_row (\<lambda>i. cs_content_id i = ct_id c) (coming_soon_items d) \<or> ra_slots r = 0 \<or> \<not> truthy (ct_poster_key c)
      then (d, r)
      else (d\<lparr>coming_soon_items := coming_soon_items d @
               [\<lparr>cs_id = fresh (ct_slug c), cs_content_id = ct_id c, cs_sort_order = ra_next r, cs_created_at = now\<rparr>]\<rparr>,
            r\<lparr>ra_slots := ra_slots r - 1, ra_next := ra_next r + 1\<rparr>))"

fun seed_entries :: "web \<Rightarrow> datetime \<Rightarrow> (string \<Rightarrow> uuid) \<Rightarrow> coming_entry list \<Rightarrow> db \<Rightarrow> rail_room \<Rightarrow> bucket \<Rightarrow> db option \<times> bucket" where
  "seed_entries w now fresh [] d r s = (Some d, s)"
| "seed_entries w now fresh (e # es) d r s =
     (case seed_film w now fresh e d s of
        (None, s1) \<Rightarrow> (None, s1)
      | (Some (c, d1), s1) \<Rightarrow> (case seed_slot now fresh c d1 r of (d2, r2) \<Rightarrow> seed_entries w now fresh es d2 r2 s1))"

text \<open>\<open>int(sort_base or -1) + 1\<close>: a last position of 0 counts as none.\<close>

definition first_rail :: "db \<Rightarrow> rail_room" where
  "first_rail d =
     (let sort_base = (if coming_soon_items d = [] then -1 else Max (cs_sort_order ` set (coming_soon_items d)))
      in \<lparr>ra_slots = coming_soon_max - length (coming_soon_items d), ra_next = (if sort_base = 0 then -1 else sort_base) + 1\<rparr>)"

definition seed_coming_soon :: "web \<Rightarrow> datetime \<Rightarrow> (string \<Rightarrow> uuid) \<Rightarrow> coming_entry list \<Rightarrow> db \<Rightarrow> bucket \<Rightarrow> db \<times> bucket" where
  "seed_coming_soon w now fresh es d s =
     (case seed_entries w now fresh es d (first_rail d) s of (None, s1) \<Rightarrow> (d, s1) | (Some d1, s1) \<Rightarrow> (d1, s1))"

lemma seed_film_rail: "seed_film w now fresh e d s = (Some (c, d'), s') \<Longrightarrow> coming_soon_items d' = coming_soon_items d"
  by (auto simp: seed_film_def Let_def put_content_def split: option.splits prod.splits ingest.splits if_splits)

lemma seed_slot_bound:
  assumes "seed_slot now fresh c d r = (d', r')"
  shows "length (coming_soon_items d') + ra_slots r' = length (coming_soon_items d) + ra_slots r \<and>
    (distinct (map cs_content_id (coming_soon_items d)) \<longrightarrow> distinct (map cs_content_id (coming_soon_items d')))"
  using assms by (fastforce simp: seed_slot_def exists_row_iff split: if_splits)

lemma seed_entries_bound:
  "seed_entries w now fresh es d r s = (Some d', s') \<Longrightarrow>
   length (coming_soon_items d') \<le> length (coming_soon_items d) + ra_slots r \<and>
   (distinct (map cs_content_id (coming_soon_items d)) \<longrightarrow> distinct (map cs_content_id (coming_soon_items d')))"
proof (induction es arbitrary: d r s)
  case (Cons e es)
  obtain c d1 s1 where f: "seed_film w now fresh e d s = (Some (c, d1), s1)"
    using Cons.prems by (auto split: prod.splits option.splits)
  obtain d2 r2 where g: "seed_slot now fresh c d1 r = (d2, r2)" by (cases "seed_slot now fresh c d1 r")
  have rest: "seed_entries w now fresh es d2 r2 s1 = (Some d', s')" using Cons.prems f g by simp
  show ?case using Cons.IH [OF rest] seed_slot_bound [OF g] unfolding seed_film_rail [OF f] by auto
qed simp

text \<open>However often it runs, the list stays within its limit and names no film twice.\<close>

lemma seeded_rail_bounded:
  assumes "seed_coming_soon w now fresh es d s = (d', s')" and "length (coming_soon_items d) \<le> coming_soon_max"
    and "distinct (map cs_content_id (coming_soon_items d))"
  shows "length (coming_soon_items d') \<le> coming_soon_max \<and> distinct (map cs_content_id (coming_soon_items d'))"
  using assms seed_entries_bound [of w now fresh es d "first_rail d" s]
  by (auto simp: seed_coming_soon_def first_rail_def Let_def split: prod.splits option.splits)

text \<open>The position bug: the first film added after a single one takes the same place.\<close>

lemma second_film_same_place:
  assumes "coming_soon_items d = [i]" and "cs_sort_order i = 0"
  shows "ra_next (first_rail d) = cs_sort_order i"
  using assms by (simp add: first_rail_def)

end
