(* ===== verification/Spec2Isabelle.thy ===== *)
theory Spec2Isabelle
  imports Sessions Pairing Telegram_Login Tv_Codes Sweeper Series_Admin Comment_Threads Playback Home_Page Locks Watchdog Error_Alerts
    Db_Connect Account_Admin Watch_History Auth_Routes Reports Plan_Grants Image_Process
    Background_Loops Env_File Request_Shell Schema_Upgrade Home_Upgrade Catalog_Seeds Outbound
    Public_Routes Artwork_Import
begin

text \<open>
  A verification development of the Movies API: a FastAPI service (\<open>app/\<close>) over PostgreSQL, Redis and an
  S3-compatible object store that sells films, series and subscriptions and streams them to phones and
  television sets, with the programs around it: the alert relay and the watchdog (\<open>ops/\<close>), the
  maintenance scripts (\<open>scripts/\<close>, \<open>seed/\<close>) and the migrations (\<open>alembic/\<close>).

  \<^bold>\<open>How the code is read.\<close> A table is the list of its rows, the database the record \<open>db\<close> of the tables
  (\<open>Models\<close>, one record per SQLAlchemy class). A handler is a function of its arguments and the database
  that gives its answer and the database it committed, or \<open>Inl\<close> of the exception it raised (\<open>error\<close> in
  \<open>Prelude\<close>, one constructor per HTTP status with the text of the answer); where a handler commits before it
  raises, the model returns both. What a request cannot compute is an argument: the clock, fresh UUIDs and
  random tokens, hashes and signatures, the token codec, answers of other services, the object store, what
  other transactions did in between. UUIDs are naturals, datetimes microseconds since the epoch, monotonic
  times and decimals rationals, text ASCII strings unless the theory says otherwise
  (\<open>Unicode_Text\<close> has code points).

  \<^bold>\<open>The parts and how they interact.\<close>

  \<^enum> \<^bold>\<open>Who is asking.\<close> \<open>Sessions\<close> (\<open>app/services/session.py\<close>, \<open>app/core/security.py\<close>,
    \<open>app/dependencies/auth.py\<close>) keeps one row per signed-in device; \<open>Accounts\<close>
    (\<open>app/services/auth.py\<close>, \<open>guest.py\<close>) registers users, signs them in and resets passwords;
    \<open>Pairing\<close> (\<open>device_pairing.py\<close>), \<open>Telegram_Login\<close> (\<open>telegram_bot_login.py\<close>) and \<open>Tv_Codes\<close>
    (\<open>tv_access_codes.py\<close>) sign a device in by a code; \<open>Auth_Routes\<close> (\<open>app/routers/auth.py\<close>) is the HTTP
    surface of all of them with the guest cookie; \<open>Account_Admin\<close> (\<open>app/routers/users.py\<close>) edits users.
  \<^enum> \<^bold>\<open>What they may watch.\<close> \<open>Access\<close> (\<open>content_access.py\<close>) decides from purchases, subscriptions and the
    free lists; \<open>Playback\<close> and \<open>Playlists\<close> (\<open>playback.py\<close>, \<open>live_playback.py\<close>) hand out tokens and
    rewritten playlists; \<open>Channels\<close> (\<open>tv.py\<close>, \<open>admin/tv_channels.py\<close>) does so for live television;
    \<open>Watch_History\<close> keeps positions and receipts.
  \<^enum> \<^bold>\<open>How it is paid.\<close> \<open>Checkout\<close> (\<open>app/billing/intents.py\<close>) opens a KHQR payment intent; \<open>Bakong\<close>
    (\<open>bakong.py\<close>) asks the bank behind the caches, the budget and the circuit breaker of \<open>Bakong_Guards\<close>;
    \<open>Settlement\<close> and \<open>Fulfillment\<close> (\<open>bakong_settle.py\<close>, \<open>fulfillment.py\<close>) turn a paid intent into a
    purchase or subscription time; \<open>Sweeper\<close> (\<open>bakong_sweeper.py\<close>) does so for checkouts nobody polls;
    \<open>Plans_Admin\<close>, \<open>Plan_Grants\<close> and \<open>Reports\<close> are the back office.
  \<^enum> \<^bold>\<open>The catalogue.\<close> \<open>Catalog_Admin\<close> and \<open>Series_Admin\<close> create and edit titles; \<open>Publishing\<close> keeps status,
    visibility and schedule together and publishes what is due; \<open>Deletion\<close> removes titles and accounts;
    \<open>Asset_Keys\<close> and \<open>Image_Process\<close> name and clean up uploads; \<open>Listing\<close> is the public read side behind
    \<open>Response_Cache\<close>; \<open>Comment_Threads\<close> the comments below it.
  \<^enum> \<^bold>\<open>The storefront.\<close> \<open>Home_Rails\<close>, \<open>Showcase\<close> and \<open>Home_Page\<close> (\<open>app/catalog/home_sections.py\<close> and its
    siblings) hold the curated lists, the hero carousel, the banners and the landing page built of them.
  \<^enum> \<^bold>\<open>Running it.\<close> \<open>Config\<close> and \<open>Db_Connect\<close> start the process and survive database trouble;
    \<open>Locks\<close> and \<open>Background_Loops\<close> run each background loop in one worker; \<open>Request_Shell\<close> wraps every
    request, \<open>Public_Routes\<close> are the routes that only check a query; \<open>Remote_Services\<close> are the clients of the transcoder and the restreamer; \<open>Error_Alerts\<close>,
    \<open>Alert_Relay\<close> and \<open>Watchdog\<close> tell the operators; \<open>Env_File\<close> edits the host's \<open>.env\<close>;
    \<open>Outbound\<close> is what leaves the service (mail, Telegram, uploads) and the secrets shared with others.
  \<^enum> \<^bold>\<open>Maintenance.\<close> \<open>Schema_Upgrade\<close> and \<open>Home_Upgrade\<close> are the data parts of two migrations (\<open>0048\<close>,
    \<open>0057\<close>) that prepare constraints and the landing page; \<open>Artwork_Batch\<close>
    (\<open>scripts/optimize_r2_images.py\<close>) applies the picture clean-up to the whole catalogue; \<open>Catalog_Seeds\<close>
    fills it from \<open>seed/\<close>, over the pattern of \<open>Upsert\<close>, and \<open>Artwork_Import\<close> fetches what pictures it lacks.

  Calls follow the imports: \<open>Prelude\<close> and \<open>Models\<close> below everything, then \<open>Constraints\<close> (what the
  database refuses), then the components in the order their operations call one another. The database
  record is the shared state; the process-wide state of the bank checks, of the response cache, of the
  playlist cache and of the lock are records of their own theories.
\<close>

text \<open>
  \<^bold>\<open>Contracts stated once.\<close> Each locale is interpreted on the definitions of the code, in the theory that
  has them:

  \<^item> \<open>single_use\<close> (\<open>Single_Use\<close>): a spent credential stays spent, so any run of requests redeems it at
    most once. Interpreted as \<open>reset_link\<close>, \<open>telegram_nonce\<close>, \<open>pairing_code\<close>, \<open>bot_code\<close> and, for paid
    intents, \<open>payment\<close>.
  \<^item> \<open>ttl_cache\<close> (\<open>Ttl_Cache\<close>): a read returns the last write while it is young enough. Interpreted as
    \<open>md5_check\<close> and \<open>polled\<close>.
  \<^item> \<open>sortable\<close> (\<open>Ordering\<close>): after a reordering, a list shows the ids of the request in their order.
    Interpreted as \<open>movie_order\<close>, \<open>podcast_order\<close>, \<open>series_order\<close>, \<open>channel_order\<close>, \<open>hero_order\<close>,
    \<open>banner_order\<close>, \<open>home_section_order\<close> and \<open>home_item_order\<close>.
  \<^item> \<open>curated_list\<close> (\<open>Home_Rails\<close>): bounded lists without duplicates, for \<open>free_today\<close>,
    \<open>coming_soon\<close> and \<open>genre_rails\<close>.
  \<^item> \<open>promotion\<close> (\<open>Publishing\<close>): a sweep takes the earliest due rows first and at most its limit, for
    \<open>movie_sweep\<close> and \<open>series_sweep\<close>.
  \<^item> \<open>key_optimizer\<close> (\<open>Image_Process\<close>): what the upload handlers need of the picture clean-up, met by
    \<open>clean_up\<close> however storage behaves.
  \<^item> \<open>upsert\<close> (\<open>Upsert\<close>): a script that brings rows to a list or adds them changes nothing when run again
    and leaves other rows alone, for \<open>import_series\<close>, \<open>import_episode\<close> and \<open>seeded_channel\<close>.

  \<^bold>\<open>What the properties show.\<close> Payments: nothing is unlocked without a payment the bank confirmed, a payment
  grants once and what it was for, subscription time adds up, plans may be edited under open checkouts, one
  open intent per buyer and product, sweeps settle the newest first within their budget, and the revenue
  report is a ledger of what succeeded. Access: the decision is exactly the entitlement, the public
  catalogue never carries media keys, playback of films and channels is gated, a guest's purchases stay
  reachable. Identity: the device limit, refresh-token replay, the authenticity of each way to sign in,
  takeover by a reset link and confinement of a pairing token. Catalogue and storefront: every sequence of
  administrator requests keeps titles, series, comments, showcase and landing page well formed, the
  landing page shows what was pinned and only what may be shown, deletions leave nothing behind, and due
  titles are published. Operations: at most one worker holds a lock, how long a loop lives, what
  the relay and the watchdog report, and that a clean-up of pictures loses none. Each property carries its claim id in the theory of
  the component it belongs to; the lemmas around it give the operations' behaviour on every branch, errors
  included. Where the code falls short of its intent, a lemma exhibits the run.

  \<^bold>\<open>Bounds and fuel.\<close> The walk over comment replies is the code's \<open>while\<close> loop, shown to end because each
  round visits comments of a deeper generation; its tree is unfolded to depth 8 (\<open>max_reply_depth\<close>), enough
  because no reply below that depth is accepted. A background loop (\<open>loop_passes\<close>) is
  followed for as many rounds as durations are given, its real behaviour being endless. A sweep of open
  payments makes at most six paid checks and settles three, a sweep of due titles takes 25 rows per
  kind. A playlist is cached 60 seconds in each worker and in Redis: its text may be served 120 seconds
  after it was read, and a rewriting of it 240; the relay sends 20 alerts a minute and remembers fingerprints for
  its dedup window; a Telegram text holds 4096 units; the error queue 100 records; the revenue
  timeline 366 days. Lists, tables and histories are otherwise unbounded.

  \<^bold>\<open>Not modelled.\<close> Assembling the application, routing, CORS, compression and rate limits are
  FastAPI, Starlette and slowapi; building the clients of Redis, HTTP and S3 and the HTML of mails are
  I/O and layout. The Baray checkout is switched off in this version (its handlers answer 503 before any
  other statement); only the check of its webhook's signature is modelled. Seed scripts that only hold
  catalogue data, the schema parts of the migrations, response models that rename
  fields, and the tests are data and glue. Cancelling a task in the middle of a pass, and
  the asyncio scheduler, are left out: a handler runs to its next commit without interruption, and what
  other requests commit in between is an argument where the code can meet it. Full-text search, collations,
  image codecs, JWT, bcrypt and SHA-256 are arguments. Floats are rationals.
\<close>

end
